(* ===== verification/Prelude.thy ===== *)
theory Prelude
  imports Main "HOL-Library.Word"
begin

text \<open>
  The vocabulary every component of the model shares.

  \<^item> The C integer types at their widths (\<open>stdint.h\<close>) and the \<open>HRESULT\<close> codes of
    \<open>bcap_core/include/bcap_core/dn_common.h\<close>, \<open>dn_device.h\<close> and \<open>bcap_common.h\<close>.
  \<^item> Memory as byte lists: \<open>load\<close> and \<open>store\<close> are the accesses of a C object, and an access
    outside the object has no defined result. Throughout the development a value \<open>None\<close> of an
    operation's result means "the C program has no defined result here" (an access outside an
    object, a use of an uninitialised value), and \<open>Some\<close> carries the result, an error return
    included: an \<open>HRESULT\<close> is an ordinary value.
  \<^item> The little-endian image of a machine word and the word read back from an image.
\<close>

unbundle bit_operations_syntax

section \<open>Machine integers and result codes\<close>

type_synonym byte = "8 word"
type_synonym u16 = "16 word"
type_synonym u32 = "32 word"
type_synonym u64 = "64 word"

text \<open>\<open>int32_t\<close>: the same 32 bits, read with \<open>sint\<close>.\<close>

type_synonym i32 = "32 word"
type_synonym hresult = "32 word"

definition SUCCEEDED :: "hresult \<Rightarrow> bool" where
  "SUCCEEDED hr \<longleftrightarrow> 0 \<le> sint hr"

definition FAILED :: "hresult \<Rightarrow> bool" where
  "FAILED hr \<longleftrightarrow> sint hr < 0"

abbreviation (input) S_OK :: hresult where "S_OK \<equiv> 0"
abbreviation (input) S_FALSE :: hresult where "S_FALSE \<equiv> 1"
abbreviation (input) E_NOTIMPL :: hresult where "E_NOTIMPL \<equiv> 0x80004001"
abbreviation (input) E_FAIL :: hresult where "E_FAIL \<equiv> 0x80004005"
abbreviation (input) E_ACCESSDENIED :: hresult where "E_ACCESSDENIED \<equiv> 0x80070005"
abbreviation (input) E_HANDLE :: hresult where "E_HANDLE \<equiv> 0x80070006"
abbreviation (input) E_OUTOFMEMORY :: hresult where "E_OUTOFMEMORY \<equiv> 0x8007000E"
abbreviation (input) E_INVALIDARG :: hresult where "E_INVALIDARG \<equiv> 0x80070057"
abbreviation (input) E_UNEXPECTED :: hresult where "E_UNEXPECTED \<equiv> 0x8000FFFF"
abbreviation (input) DISP_E_TYPEMISMATCH :: hresult where "DISP_E_TYPEMISMATCH \<equiv> 0x80020005"
abbreviation (input) DISP_E_BADVARTYPE :: hresult where "DISP_E_BADVARTYPE \<equiv> 0x80020008"
abbreviation (input) DISP_E_OVERFLOW :: hresult where "DISP_E_OVERFLOW \<equiv> 0x8002000A"
abbreviation (input) DISP_E_BADINDEX :: hresult where "DISP_E_BADINDEX \<equiv> 0x8002000B"
abbreviation (input) E_TIMEOUT :: hresult where "E_TIMEOUT \<equiv> 0x80000900"
abbreviation (input) E_MAX_OBJECT :: hresult where "E_MAX_OBJECT \<equiv> 0x80000905"
abbreviation (input) E_TOO_MUCH_DATA :: hresult where "E_TOO_MUCH_DATA \<equiv> 0x80000909"
abbreviation (input) E_MAX_CONNECT :: hresult where "E_MAX_CONNECT \<equiv> 0x8000090B"
abbreviation (input) E_INVALIDPACKET :: hresult where "E_INVALIDPACKET \<equiv> 0x80010000"
abbreviation (input) S_EXECUTING :: hresult where "S_EXECUTING \<equiv> 0x00000900"

text \<open>\<open>OSERR2HRESULT(err)\<close>: the low half of an errno under a fixed facility.\<close>

definition OSERR2HRESULT :: "i32 \<Rightarrow> hresult" where
  "OSERR2HRESULT err = (err AND 0x0000FFFF) OR 0x80910000"

lemma SUCCEEDED_FAILED [simp]: "\<not> SUCCEEDED hr \<longleftrightarrow> FAILED hr"
  by (auto simp: SUCCEEDED_def FAILED_def)

lemma SUCCEEDED_iff: "SUCCEEDED hr \<longleftrightarrow> \<not> FAILED hr"
  by (auto simp: SUCCEEDED_def FAILED_def)

lemma FAILED_iff: "FAILED hr \<longleftrightarrow> \<not> SUCCEEDED hr"
  by simp

lemma SUCCEEDED_0 [simp]: "SUCCEEDED 0" and SUCCEEDED_1 [simp]: "SUCCEEDED 1"
  by (simp_all add: SUCCEEDED_def)

lemma FAILED_0 [simp]: "\<not> FAILED 0" and FAILED_1 [simp]: "\<not> FAILED 1"
  by (simp_all add: FAILED_def)

lemma SUCCEEDED_numeral [simp]:
  "SUCCEEDED (numeral n) \<longleftrightarrow> 0 \<le> sint (numeral n :: hresult)"
  by (simp add: SUCCEEDED_def)

lemma FAILED_numeral [simp]:
  "FAILED (numeral n) \<longleftrightarrow> sint (numeral n :: hresult) < 0"
  by (simp add: FAILED_def)

lemma FAILED_bit: "FAILED hr \<longleftrightarrow> bit hr 31"
  using bit_last_iff [of hr] by (simp add: FAILED_def)

lemma OSERR2HRESULT_FAILED [simp]: "FAILED (OSERR2HRESULT err)"
  by (simp add: FAILED_bit OSERR2HRESULT_def bit_simps)

section \<open>Memory\<close>

definition load :: "byte list \<Rightarrow> nat \<Rightarrow> nat \<Rightarrow> byte list option" where
  "load mem off n = (if off + n \<le> length mem then Some (take n (drop off mem)) else None)"

definition store :: "byte list \<Rightarrow> nat \<Rightarrow> byte list \<Rightarrow> byte list option" where
  "store mem off bs =
     (if off + length bs \<le> length mem
      then Some (take off mem @ bs @ drop (off + length bs) mem) else None)"

lemma load_append [simp]: "load (pre @ bs @ post) (length pre) (length bs) = Some bs"
  by (simp add: load_def)

lemma load_at:
  "length pre = off \<Longrightarrow> length bs = n \<Longrightarrow> load (pre @ bs @ post) off n = Some bs"
  by (auto simp: load_def)

lemma load_length: "load mem off n = Some bs \<Longrightarrow> length bs = n \<and> off + n \<le> length mem"
  by (auto simp: load_def split: if_splits)

lemma store_length: "store mem off bs = Some mem' \<Longrightarrow> length mem' = length mem"
  by (auto simp: store_def split: if_splits)

lemma store_at:
  "length pre = off \<Longrightarrow> length old = length bs \<Longrightarrow>
   store (pre @ old @ post) off bs = Some (pre @ bs @ post)"
  by (auto simp: store_def)

lemma store_Some_iff: "(\<exists>mem'. store mem off bs = Some mem') \<longleftrightarrow> off + length bs \<le> length mem"
  by (simp add: store_def)

lemma load_store_same: "store mem off bs = Some mem' \<Longrightarrow> load mem' off (length bs) = Some bs"
  by (auto simp: store_def load_def split: if_splits)

section \<open>Little-endian images of words\<close>

fun le_bytes :: "nat \<Rightarrow> 'a::len word \<Rightarrow> byte list" where
  "le_bytes 0 w = []"
| "le_bytes (Suc n) w = ucast w # le_bytes n (drop_bit 8 w)"

fun le_word :: "byte list \<Rightarrow> 'a::len word" where
  "le_word [] = 0"
| "le_word (b # bs) = ucast b OR push_bit 8 (le_word bs)"

lemma length_le_bytes [simp]: "length (le_bytes n w) = n"
  by (induction n arbitrary: w) auto

lemma le_word_le_bytes: "le_word (le_bytes n w) = take_bit (8 * n) w"
proof (induction n arbitrary: w)
  case 0
  then show ?case by simp
next
  case (Suc n)
  show ?case
    by (rule bit_word_eqI) (auto simp: Suc.IH bit_simps)
qed

lemma le_word_le_bytes_full:
  fixes w :: "'a::len word"
  shows "LENGTH('a) \<le> 8 * n \<Longrightarrow> le_word (le_bytes n w) = w"
  by (simp add: le_word_le_bytes take_bit_word_eq_self)

lemma bind_SomeE:
  assumes "Option.bind x f = Some y"
  obtains a where "x = Some a" "f a = Some y"
  using assms by (auto simp: bind_eq_Some_conv)

end
