(* ===== verification/Variant.thy ===== *)
theory Variant
  imports Prelude
begin

text \<open>
  The \<open>VARIANT\<close>, \<open>SAFEARRAY\<close> and \<open>BSTR\<close> objects of \<open>bcap_core/src/dn_common.c\<close> and the
  operations on them: allocation, the accessors, \<open>VariantInit\<close>, \<open>VariantClear\<close>,
  \<open>SafeArrayDestroy\<close> and \<open>VariantCopy\<close>.

  \<^item> A \<open>BSTR\<close> is the list of the \<open>wchar_t\<close> cells of its object, terminator included; a
    character that is written beyond the cells is out of bounds.
  \<^item> The union of a \<open>VARIANT\<close> is eight bytes (\<open>Bits\<close>, the little-endian image read as a number)
    or a pointer to an object of its own; \<open>Bits 0\<close> is the \<open>NULL\<close> pointer, any other \<open>Bits\<close> used
    as a pointer has no defined result.
  \<^item> The elements of a \<open>SAFEARRAY\<close> are bytes, strings or variants, as \<open>SafeArrayCreateVector\<close>
    allocates them. The number of elements in its bound and the number that was allocated are
    kept apart, as in the code.
  \<^item> \<open>mok n\<close> tells whether \<open>malloc(n)\<close> succeeds. Sizes are those of a 64-bit Linux host:
    four-byte \<open>wchar_t\<close>, eight-byte pointers and \<open>time_t\<close>, sixteen-byte \<open>VARIANT\<close>.
\<close>

text \<open>A heap that does not run out.\<close>

abbreviation mem_ok :: "nat \<Rightarrow> bool" where "mem_ok \<equiv> (\<lambda>_. True)"

section \<open>Types\<close>

abbreviation (input) VT_EMPTY :: u16 where "VT_EMPTY \<equiv> 0"
abbreviation (input) VT_NULL :: u16 where "VT_NULL \<equiv> 1"
abbreviation (input) VT_I2 :: u16 where "VT_I2 \<equiv> 2"
abbreviation (input) VT_I4 :: u16 where "VT_I4 \<equiv> 3"
abbreviation (input) VT_R4 :: u16 where "VT_R4 \<equiv> 4"
abbreviation (input) VT_R8 :: u16 where "VT_R8 \<equiv> 5"
abbreviation (input) VT_CY :: u16 where "VT_CY \<equiv> 6"
abbreviation (input) VT_DATE :: u16 where "VT_DATE \<equiv> 7"
abbreviation (input) VT_BSTR :: u16 where "VT_BSTR \<equiv> 8"
abbreviation (input) VT_ERROR :: u16 where "VT_ERROR \<equiv> 10"
abbreviation (input) VT_BOOL :: u16 where "VT_BOOL \<equiv> 11"
abbreviation (input) VT_VARIANT :: u16 where "VT_VARIANT \<equiv> 12"
abbreviation (input) VT_UI1 :: u16 where "VT_UI1 \<equiv> 17"
abbreviation (input) VT_UI2 :: u16 where "VT_UI2 \<equiv> 18"
abbreviation (input) VT_UI4 :: u16 where "VT_UI4 \<equiv> 19"
abbreviation (input) VT_I8 :: u16 where "VT_I8 \<equiv> 20"
abbreviation (input) VT_UI8 :: u16 where "VT_UI8 \<equiv> 21"
abbreviation (input) VT_ARRAY :: u16 where "VT_ARRAY \<equiv> 0x2000"

type_synonym wchar = "32 word"
type_synonym bstr = "wchar list"

datatype variant = Variant (vt: u16) (val: vunion)
and vunion = Bits u64 | BstrP bstr | ArrayP safearray
and safearray = SafeArray (cDims: u16) (sa_vt: u16) (cbElements: u32)
    (pvData: "sa_data option") (cElements: u32) (lLbound: i32)
and sa_data = Bytes "byte list" | Bstrs "bstr option list" | Variants "variant list"

abbreviation (input) NULLP :: vunion where "NULLP \<equiv> Bits 0"

text \<open>The zeroed object of \<open>memset(p, 0, sizeof(VARIANT))\<close>.\<close>

abbreviation (input) zero_variant :: variant where "zero_variant \<equiv> Variant VT_EMPTY NULLP"

definition is_array :: "u16 \<Rightarrow> bool" where
  "is_array t \<longleftrightarrow> t AND VT_ARRAY \<noteq> 0"

text \<open>The variants an array of variants holds, for the recursions into them.\<close>

fun variants_of :: "variant \<Rightarrow> variant list" where
  "variants_of (Variant t (ArrayP (SafeArray d at cb (Some (Variants vs)) n lb))) = vs"
| "variants_of v = []"

lemma variants_of_size [termination_simp]: "size_list size (variants_of v) < size v"
  by (induction v rule: variants_of.induct) auto

section \<open>BSTR\<close>

text \<open>\<open>wcslen\<close>: undefined when the object ends before a terminator.\<close>

fun wcslen :: "wchar list \<Rightarrow> nat option" where
  "wcslen [] = None"
| "wcslen (c # cs) = (if c = 0 then Some 0 else map_option Suc (wcslen cs))"

text \<open>
  \<open>minlen\<close> is a \<open>uint16_t\<close>: the size of the object and the length of the source are both taken
  modulo 65536. The outer option is the definedness, the inner one the returned pointer.
\<close>

definition SysAllocStringLen ::
  "(nat \<Rightarrow> bool) \<Rightarrow> wchar list option \<Rightarrow> u16 \<Rightarrow> bstr option option" where
  "SysAllocStringLen mok pch cch =
     (let minlen = (4 * (unat cch + 1)) mod 2 ^ 16;
          cells = replicate (minlen div 4) 0
      in if \<not> mok minlen then Some None
         else case pch of
           None \<Rightarrow> Some (Some cells)
         | Some s \<Rightarrow> (case wcslen s of
             None \<Rightarrow> None
           | Some l \<Rightarrow>
               let l16 = (of_nat l :: u16); n = unat (if cch < l16 then cch else l16)
               in if length cells < n then None
                  else Some (Some (take n s @ drop n cells))))"

definition SysAllocString :: "(nat \<Rightarrow> bool) \<Rightarrow> wchar list option \<Rightarrow> bstr option option" where
  "SysAllocString mok sz =
     (case sz of
        None \<Rightarrow> Some None
      | Some s \<Rightarrow> (case wcslen s of
          None \<Rightarrow> None
        | Some l \<Rightarrow> SysAllocStringLen mok (Some s) (of_nat l)))"

definition SysStringLen :: "bstr option \<Rightarrow> u16 option" where
  "SysStringLen bstr =
     (case bstr of None \<Rightarrow> Some 0 | Some s \<Rightarrow> map_option of_nat (wcslen s))"

section \<open>SAFEARRAY\<close>

definition sa_elem_size :: "u16 \<Rightarrow> nat option" where
  "sa_elem_size t =
     (if t = VT_UI1 then Some 1
      else if t \<in> {VT_I2, VT_UI2, VT_BOOL} then Some 2
      else if t \<in> {VT_I4, VT_UI4, VT_R4} then Some 4
      else if t \<in> {VT_I8, VT_UI8, VT_R8, VT_CY} then Some 8
      else if t = VT_DATE then Some 8
      else if t = VT_BSTR then Some 8
      else if t = VT_VARIANT then Some 16
      else None)"

text \<open>The zeroed elements in an allocation of \<open>nbytes\<close> bytes.\<close>

definition zero_data :: "u16 \<Rightarrow> nat \<Rightarrow> sa_data" where
  "zero_data t nbytes =
     (if t = VT_BSTR then Bstrs (replicate (nbytes div 8) None)
      else if t = VT_VARIANT then Variants (replicate (nbytes div 16) zero_variant)
      else Bytes (replicate nbytes 0))"

definition SafeArrayCreateVector ::
  "(nat \<Rightarrow> bool) \<Rightarrow> u16 \<Rightarrow> i32 \<Rightarrow> u32 \<Rightarrow> safearray option" where
  "SafeArrayCreateVector mok t lb n =
     (if \<not> mok 24 then None
      else if n = 0 then Some (SafeArray 1 t 0 None n lb)
      else case sa_elem_size t of
        None \<Rightarrow> None
      | Some sz \<Rightarrow>
          let nbytes = unat (n * of_nat sz)
          in if \<not> mok nbytes then None
             else Some (SafeArray 1 t (of_nat sz) (Some (zero_data t nbytes)) n lb))"

definition SafeArrayGetDim :: "safearray option \<Rightarrow> u16" where
  "SafeArrayGetDim psa = (case psa of None \<Rightarrow> 0 | Some a \<Rightarrow> cDims a)"

definition SafeArrayGetElemsize :: "safearray option \<Rightarrow> u32" where
  "SafeArrayGetElemsize psa = (case psa of None \<Rightarrow> 0 | Some a \<Rightarrow> cbElements a)"

text \<open>
  The accessors with an out parameter: the code, and the value stored when there is one. The
  array has room for one bound, so a second dimension is read out of its object.
\<close>

definition SafeArrayGetLBound :: "safearray option \<Rightarrow> u16 \<Rightarrow> (hresult \<times> i32 option) option" where
  "SafeArrayGetLBound psa nDim =
     (case psa of
        None \<Rightarrow> Some (E_INVALIDARG, None)
      | Some a \<Rightarrow>
          if nDim = 0 \<or> cDims a < nDim then Some (DISP_E_BADINDEX, None)
          else if nDim = 1 then Some (S_OK, Some (lLbound a)) else None)"

definition SafeArrayGetUBound :: "safearray option \<Rightarrow> u16 \<Rightarrow> (hresult \<times> i32 option) option" where
  "SafeArrayGetUBound psa nDim =
     (case psa of
        None \<Rightarrow> Some (E_INVALIDARG, None)
      | Some a \<Rightarrow>
          if nDim = 0 \<or> cDims a < nDim then Some (DISP_E_BADINDEX, None)
          else if nDim = 1 then Some (S_OK, Some (cElements a + lLbound a - 1)) else None)"

definition SafeArrayGetVartype :: "safearray option \<Rightarrow> hresult \<times> u16 option" where
  "SafeArrayGetVartype psa =
     (case psa of None \<Rightarrow> (E_INVALIDARG, None) | Some a \<Rightarrow> (S_OK, Some (sa_vt a)))"

definition SafeArrayAccessData :: "safearray option \<Rightarrow> hresult \<times> sa_data option" where
  "SafeArrayAccessData psa =
     (case psa of None \<Rightarrow> (E_INVALIDARG, None) | Some a \<Rightarrow> (S_OK, pvData a))"

definition SafeArrayUnaccessData :: "safearray option \<Rightarrow> hresult" where
  "SafeArrayUnaccessData psa = (case psa of None \<Rightarrow> E_INVALIDARG | Some a \<Rightarrow> S_OK)"

text \<open>
  The pattern \<open>cnt = ubnd - lbnd + 1\<close> of the callers, on an array with one dimension; the bounds
  they read stay uninitialised when the array has none.
\<close>

definition sa_count :: "safearray \<Rightarrow> u32 option" where
  "sa_count a =
     (case (SafeArrayGetLBound (Some a) 1, SafeArrayGetUBound (Some a) 1) of
        (Some (_, Some lbnd), Some (_, Some ubnd)) \<Rightarrow> Some (ubnd - lbnd + 1)
      | _ \<Rightarrow> None)"

section \<open>VARIANT\<close>

definition VariantInit :: "variant \<Rightarrow> variant" where
  "VariantInit v = zero_variant"

text \<open>
  \<open>SafeArrayDestroy\<close> reads as many elements as the bound says. Freeing has no result of its
  own: the outcome is whether it is defined. \<open>VariantClears\<close> is the loop over the elements of
  an array of variants, \<open>clear_rest\<close> what it does on the array at hand.
\<close>

definition SafeArrayDestroy :: "(nat \<Rightarrow> variant list option) \<Rightarrow> safearray \<Rightarrow> hresult option" where
  "SafeArrayDestroy clear_rest a =
     (case pvData a of
        None \<Rightarrow> Some S_OK
      | Some d \<Rightarrow>
          let n = unat (cElements a) in
          if sa_vt a = VT_BSTR then
            (case d of Bstrs bs \<Rightarrow> if n \<le> length bs then Some S_OK else None | _ \<Rightarrow> None)
          else if sa_vt a = VT_VARIANT then
            (case d of Variants vs \<Rightarrow> map_option (\<lambda>_. S_OK) (clear_rest n) | _ \<Rightarrow> None)
          else Some S_OK)"

definition VariantClear_body :: "(nat \<Rightarrow> variant list option) \<Rightarrow> variant \<Rightarrow> variant option" where
  "VariantClear_body clear_rest v =
     (if is_array (vt v) then
        (case val v of
           Bits w \<Rightarrow> if w = 0 then Some zero_variant else None
         | ArrayP a \<Rightarrow> map_option (\<lambda>_. zero_variant) (SafeArrayDestroy clear_rest a)
         | BstrP b \<Rightarrow> None)
      else if vt v = VT_BSTR then
        (case val v of
           Bits w \<Rightarrow> if w = 0 then Some zero_variant else None
         | BstrP b \<Rightarrow> Some zero_variant
         | ArrayP a \<Rightarrow> None)
      else Some zero_variant)"

fun VariantClear :: "variant \<Rightarrow> variant option"
and VariantClears :: "variant list \<Rightarrow> nat \<Rightarrow> variant list option" where
  "VariantClear v = VariantClear_body (VariantClears (variants_of v)) v"
| "VariantClears [] = (\<lambda>n. if n = 0 then Some [] else None)"
| "VariantClears (v # vs) =
     (\<lambda>n. case n of
        0 \<Rightarrow> Some (v # vs)
      | Suc m \<Rightarrow> (case VariantClear v of
          None \<Rightarrow> None
        | Some v' \<Rightarrow> map_option ((#) v') (VariantClears vs m)))"

declare VariantClear.simps [simp del]

text \<open>
  \<open>VariantCopy\<close>: the destination is cleared first, then written; the pointer
  \<open>SafeArrayCreateVector\<close> returns is used without a check. \<open>copy_rest\<close> is the loop over the
  elements of an array of variants, whose codes are dropped.
\<close>

definition copyable :: "u16 \<Rightarrow> bool" where
  "copyable t \<longleftrightarrow> t \<in> {VT_I2, VT_I4, VT_I8, VT_R4, VT_R8, VT_CY, VT_DATE, VT_BOOL,
                       VT_UI1, VT_UI2, VT_UI4, VT_UI8}"

fun SysAllocStrings ::
  "(nat \<Rightarrow> bool) \<Rightarrow> bstr option list \<Rightarrow> bstr option list \<Rightarrow> nat \<Rightarrow> bstr option list option" where
  "SysAllocStrings mok dst src 0 = Some dst"
| "SysAllocStrings mok (d # dst) (s # src) (Suc n) =
     (case SysAllocString mok s of
        None \<Rightarrow> None
      | Some b \<Rightarrow> map_option ((#) b) (SysAllocStrings mok dst src n))"
| "SysAllocStrings mok _ _ (Suc n) = None"

definition set_pvData :: "sa_data option \<Rightarrow> safearray \<Rightarrow> safearray" where
  "set_pvData d a = SafeArray (cDims a) (sa_vt a) (cbElements a) d (cElements a) (lLbound a)"

lemma set_pvData_sel [simp]:
  "cDims (set_pvData d a) = cDims a" "sa_vt (set_pvData d a) = sa_vt a"
  "cbElements (set_pvData d a) = cbElements a" "pvData (set_pvData d a) = d"
  "cElements (set_pvData d a) = cElements a" "lLbound (set_pvData d a) = lLbound a"
  by (simp_all add: set_pvData_def)

definition copy_array ::
  "(nat \<Rightarrow> bool) \<Rightarrow> (variant list \<Rightarrow> nat \<Rightarrow> variant list option) \<Rightarrow> u16 \<Rightarrow> safearray \<Rightarrow>
   (hresult \<times> variant) option" where
  "copy_array mok copy_rest t a =
     (let et = t XOR VT_ARRAY; n = cElements a in
      if copyable et \<or> et = VT_BSTR \<or> et = VT_VARIANT then
        (case SafeArrayCreateVector mok et (lLbound a) n of
           None \<Rightarrow> None
         | Some b \<Rightarrow>
             let done = (\<lambda>d. (S_OK, Variant t (ArrayP (set_pvData d b)))) in
             if n = 0 then Some (done (pvData b))
             else case (pvData a, pvData b) of
               (Some (Bytes bs), Some (Bytes zs)) \<Rightarrow>
                 let len = unat (cbElements a * n) in
                 if copyable et
                 then (case load bs 0 len of
                         None \<Rightarrow> None
                       | Some cs \<Rightarrow> map_option (\<lambda>d. done (Some (Bytes d))) (store zs 0 cs))
                 else None
             | (Some (Bstrs ss), Some (Bstrs ds)) \<Rightarrow>
                 map_option (\<lambda>d. done (Some (Bstrs d))) (SysAllocStrings mok ds ss (unat n))
             | (Some (Variants vs), Some (Variants ds)) \<Rightarrow>
                 map_option (\<lambda>d. done (Some (Variants d))) (copy_rest ds (unat n))
             | _ \<Rightarrow> None)
      else Some (DISP_E_BADVARTYPE, zero_variant))"

definition VariantCopy_body ::
  "(nat \<Rightarrow> bool) \<Rightarrow> (variant list \<Rightarrow> nat \<Rightarrow> variant list option) \<Rightarrow> variant \<Rightarrow>
   (hresult \<times> variant) option" where
  "VariantCopy_body mok copy_rest src =
     (let t = vt src in
      if is_array t then
        (case val src of ArrayP a \<Rightarrow> copy_array mok copy_rest t a | _ \<Rightarrow> None)
      else if copyable t \<or> t \<in> {VT_EMPTY, VT_NULL, VT_ERROR} then Some (S_OK, src)
      else if t = VT_BSTR then
        (let copied = (\<lambda>b. (S_OK, Variant t (case b of None \<Rightarrow> NULLP | Some s \<Rightarrow> BstrP s))) in
         case val src of
           Bits w \<Rightarrow> if w = 0 then Some (copied None) else None
         | BstrP s \<Rightarrow> map_option copied (SysAllocString mok (Some s))
         | ArrayP a \<Rightarrow> None)
      else Some (DISP_E_BADVARTYPE, zero_variant))"

fun VariantCopy_to :: "(nat \<Rightarrow> bool) \<Rightarrow> variant \<Rightarrow> variant \<Rightarrow> (hresult \<times> variant) option"
and VariantCopies ::
  "(nat \<Rightarrow> bool) \<Rightarrow> variant list \<Rightarrow> variant list \<Rightarrow> nat \<Rightarrow> variant list option" where
  "VariantCopy_to mok src =
     (\<lambda>dst. case VariantClear dst of
        None \<Rightarrow> None
      | Some _ \<Rightarrow> VariantCopy_body mok (VariantCopies mok (variants_of src)) src)"
| "VariantCopies mok [] = (\<lambda>dst n. if n = 0 then Some dst else None)"
| "VariantCopies mok (s # src) =
     (\<lambda>dst n. case (dst, n) of
        (_, 0) \<Rightarrow> Some dst
      | ([], Suc m) \<Rightarrow> None
      | (d # ds, Suc m) \<Rightarrow> (case VariantCopy_to mok s d of
          None \<Rightarrow> None
        | Some (_, d') \<Rightarrow> map_option ((#) d') (VariantCopies mok src ds m)))"

declare VariantCopy_to.simps [simp del]

text \<open>The exported function, with its two pointers: \<open>same\<close> tells whether they are equal.\<close>

definition VariantCopy ::
  "(nat \<Rightarrow> bool) \<Rightarrow> bool \<Rightarrow> variant option \<Rightarrow> variant option \<Rightarrow>
   (hresult \<times> variant option) option" where
  "VariantCopy mok same dst src =
     (case (dst, src) of
        (Some d, Some s) \<Rightarrow>
          if same then Some (S_OK, dst)
          else map_option (\<lambda>(hr, v). (hr, Some v)) (VariantCopy_to mok s d)
      | _ \<Rightarrow> Some (E_INVALIDARG, dst))"

section \<open>Well-formed objects\<close>

text \<open>
  The objects the interface promises: a terminated string that fits the 16-bit sizes, a scalar
  of a type of \<open>VARENUM\<close> with its bits, an array whose elements are the ones its bound and its
  type say.
\<close>

definition wf_bstr :: "bstr \<Rightarrow> bool" where
  "wf_bstr s \<longleftrightarrow> s \<noteq> [] \<and> last s = 0 \<and> 0 \<notin> set (butlast s) \<and> length s \<le> 16383"

definition wf_bstr_ptr :: "bstr option \<Rightarrow> bool" where
  "wf_bstr_ptr p = (case p of None \<Rightarrow> True | Some s \<Rightarrow> wf_bstr s)"

definition scalar_type :: "u16 \<Rightarrow> bool" where
  "scalar_type t \<longleftrightarrow> copyable t \<or> t \<in> {VT_EMPTY, VT_NULL, VT_ERROR}"

definition wf_data :: "bool \<Rightarrow> u16 \<Rightarrow> nat \<Rightarrow> nat \<Rightarrow> sa_data \<Rightarrow> bool" where
  "wf_data rest t sz n d =
     (case d of
        Bytes bs \<Rightarrow> t \<noteq> VT_BSTR \<and> t \<noteq> VT_VARIANT \<and> length bs = n * sz
      | Bstrs ss \<Rightarrow> t = VT_BSTR \<and> length ss = n \<and> list_all wf_bstr_ptr ss
      | Variants vs \<Rightarrow> t = VT_VARIANT \<and> length vs = n \<and> rest)"

definition wf_array :: "bool \<Rightarrow> u16 \<Rightarrow> safearray \<Rightarrow> bool" where
  "wf_array rest t a \<longleftrightarrow>
     cDims a = 1 \<and> sa_vt a = t \<and>
     (case sa_elem_size t of
        None \<Rightarrow> False
      | Some sz \<Rightarrow>
          if cElements a = 0 then pvData a = None \<and> cbElements a = 0
          else cbElements a = of_nat sz \<and> unat (cElements a) * sz < 2 ^ 31 \<and>
               (case pvData a of None \<Rightarrow> False | Some d \<Rightarrow> wf_data rest t sz (unat (cElements a)) d))"

definition wf_body :: "bool \<Rightarrow> variant \<Rightarrow> bool" where
  "wf_body rest v =
     (if is_array (vt v) then
        (case val v of ArrayP a \<Rightarrow> wf_array rest (vt v XOR VT_ARRAY) a | _ \<Rightarrow> False)
      else if vt v = VT_BSTR then
        (case val v of Bits w \<Rightarrow> w = 0 | BstrP s \<Rightarrow> wf_bstr s | ArrayP a \<Rightarrow> False)
      else scalar_type (vt v) \<and> (case val v of Bits w \<Rightarrow> True | _ \<Rightarrow> False))"

fun wf_variant :: "variant \<Rightarrow> bool" and wf_variants :: "variant list \<Rightarrow> bool" where
  "wf_variant v = wf_body (wf_variants (variants_of v)) v"
| "wf_variants [] = True"
| "wf_variants (v # vs) = (wf_variant v \<and> wf_variants vs)"

declare wf_variant.simps [simp del]

lemma wf_variants_list_all: "wf_variants vs \<longleftrightarrow> list_all wf_variant vs"
  by (induction vs) auto

text \<open>
  The case distinction the proofs on well-formed variants share: one case per shape.
\<close>

lemma wf_variant_cases [consumes 1, case_names scalar null_bstr bstr empty bytes bstrs variants]:
  assumes "wf_variant v"
  obtains
    (scalar) t w where "v = Variant t (Bits w)" "\<not> is_array t" "scalar_type t" "t \<noteq> VT_BSTR"
  | (null_bstr) "v = Variant VT_BSTR NULLP"
  | (bstr) s where "v = Variant VT_BSTR (BstrP s)" "wf_bstr s"
  | (empty) t lb sz where "v = Variant t (ArrayP (SafeArray 1 (t XOR VT_ARRAY) 0 None 0 lb))"
      "is_array t" "sa_elem_size (t XOR VT_ARRAY) = Some sz"
  | (bytes) t bs n lb sz where
      "v = Variant t (ArrayP (SafeArray 1 (t XOR VT_ARRAY) (of_nat sz) (Some (Bytes bs)) n lb))"
      "is_array t" "sa_elem_size (t XOR VT_ARRAY) = Some sz" "t XOR VT_ARRAY \<noteq> VT_BSTR"
      "t XOR VT_ARRAY \<noteq> VT_VARIANT" "n \<noteq> 0" "length bs = unat n * sz" "unat n * sz < 2 ^ 31"
  | (bstrs) t ss n lb where
      "v = Variant t (ArrayP (SafeArray 1 VT_BSTR 8 (Some (Bstrs ss)) n lb))"
      "is_array t" "t XOR VT_ARRAY = VT_BSTR" "n \<noteq> 0" "length ss = unat n"
      "list_all wf_bstr_ptr ss" "unat n * 8 < 2 ^ 31"
  | (variants) t vs n lb where
      "v = Variant t (ArrayP (SafeArray 1 VT_VARIANT 16 (Some (Variants vs)) n lb))"
      "is_array t" "t XOR VT_ARRAY = VT_VARIANT" "n \<noteq> 0" "length vs = unat n"
      "wf_variants vs" "unat n * 16 < 2 ^ 31"
proof -
  obtain t u where v: "v = Variant t u" by (cases v)
  show thesis
  proof (cases "is_array t")
    case True
    then obtain a where u: "u = ArrayP a" and wa: "wf_array (wf_variants (variants_of v)) (t XOR VT_ARRAY) a"
      using assms v by (auto simp: wf_variant.simps wf_body_def split: vunion.splits)
    obtain sz where sz: "sa_elem_size (t XOR VT_ARRAY) = Some sz"
      using wa by (auto simp: wf_array_def split: option.splits)
    obtain d st cb pd n lb where a: "a = SafeArray d st cb pd n lb" by (cases a)
    show thesis
    proof (cases "n = 0")
      case True
      then show thesis
        using empty [where t = t and lb = lb and sz = sz] wa sz a u v \<open>is_array t\<close> by (auto simp: wf_array_def)
    next
      case False
      then obtain dt where "pd = Some dt"
        using wa a sz by (auto simp: wf_array_def split: option.splits)
      then have v': "v = Variant t (ArrayP (SafeArray 1 (t XOR VT_ARRAY) (of_nat sz) (Some dt) n lb))"
        and lt: "unat n * sz < 2 ^ 31"
        and wd: "wf_data (wf_variants (variants_of v)) (t XOR VT_ARRAY) sz (unat n) dt"
        using wa sz a u v False by (auto simp: wf_array_def)
      show thesis
      proof (cases dt)
        case (Bytes bs)
        with bytes [OF _ \<open>is_array t\<close> sz _ _ False _ lt] wd v' show thesis
          by (simp add: wf_data_def)
      next
        case (Bstrs ss)
        then have et: "t XOR VT_ARRAY = VT_BSTR" using wd by (simp add: wf_data_def)
        with sz have "sz = 8" by (simp add: sa_elem_size_def)
        with bstrs [OF _ \<open>is_array t\<close> et False] wd lt v' Bstrs et show thesis
          by (simp add: wf_data_def)
      next
        case (Variants vs)
        then have et: "t XOR VT_ARRAY = VT_VARIANT" using wd by (simp add: wf_data_def)
        with sz have "sz = 16" by (simp add: sa_elem_size_def)
        with variants [OF _ \<open>is_array t\<close> et False] wd lt v' Variants et show thesis
          by (simp add: wf_data_def)
      qed
    qed
  next
    case False
    then show thesis
      using assms v scalar null_bstr bstr
      by (auto simp: wf_variant.simps wf_body_def split: if_splits vunion.splits)
  qed
qed

section \<open>Strings\<close>

lemma wcslen_append [simp]: "0 \<notin> set s \<Longrightarrow> wcslen (s @ 0 # t) = Some (length s)"
  by (induction s) auto

lemma wcslen_less: "wcslen s = Some n \<Longrightarrow> n < length s"
  by (induction s arbitrary: n) (auto split: if_splits)

lemma wf_bstr_split:
  assumes "wf_bstr s"
  obtains cs where "s = cs @ [0]" "0 \<notin> set cs" "length cs \<le> 16382"
proof
  show "s = butlast s @ [0]"
    using assms append_butlast_last_id [of s] by (auto simp: wf_bstr_def)
qed (use assms in \<open>auto simp: wf_bstr_def\<close>)

lemma SysStringLen_wf: "wf_bstr s \<Longrightarrow> SysStringLen (Some s) = Some (of_nat (length s - 1))"
  by (erule wf_bstr_split) (simp add: SysStringLen_def)

lemma SysAllocStringLen_cells:
  assumes "unat cch \<le> 16382"
  shows "SysAllocStringLen mem_ok (Some [0]) cch = Some (Some (replicate (Suc (unat cch)) 0))"
  using assms by (simp add: SysAllocStringLen_def Let_def)

lemma SysAllocString_wf:
  assumes "wf_bstr s"
  shows "SysAllocString mem_ok (Some s) = Some (Some s)"
proof -
  obtain cs where s: "s = cs @ [0]" "0 \<notin> set cs" "length cs \<le> 16382"
    using assms by (rule wf_bstr_split)
  then have "unat (word_of_nat (length cs) :: u16) = length cs"
    by (simp add: unat_of_nat)
  moreover have "drop (length cs) (replicate (Suc (length cs)) (0 :: wchar)) = [0]"
    by (simp only: replicate_Suc replicate_append_same [symmetric]) simp
  ultimately show ?thesis using s
    by (simp add: SysAllocString_def SysAllocStringLen_def Let_def del: replicate_Suc)
qed

lemma SysAllocStrings_wf:
  assumes "list_all wf_bstr_ptr ss" and "length ds = length ss"
  shows "SysAllocStrings mem_ok ds ss (length ss) = Some ss"
  using assms(2,1)
proof (induction ds ss rule: list_induct2)
  case (Cons d ds s ss)
  then show ?case
    by (cases s) (auto simp: wf_bstr_ptr_def SysAllocString_wf SysAllocString_def [of _ None])
qed simp

section \<open>Clearing and copying well-formed variants\<close>

lemma scalar_type_not_bstr [simp]: "scalar_type t \<Longrightarrow> t \<noteq> VT_BSTR"
  by (auto simp: scalar_type_def copyable_def)

lemma wf_VariantClear:
  "wf_variant v \<Longrightarrow> VariantClear v = Some zero_variant"
  "wf_variants vs \<Longrightarrow> VariantClears vs (length vs) = Some (replicate (length vs) zero_variant)"
proof (induction v and vs rule: wf_variant_wf_variants.induct)
  case (1 v)
  from 1(2) show ?case
  proof (cases rule: wf_variant_cases)
    case (variants t vs n lb)
    then show ?thesis
      using 1 by (simp add: VariantClear.simps VariantClear_body_def SafeArrayDestroy_def Let_def)
  qed (auto simp: VariantClear.simps VariantClear_body_def SafeArrayDestroy_def Let_def is_array_def)
qed auto

lemma sa_count_wf [simp]: "sa_count (SafeArray 1 t cb d n lb) = Some n"
  by (simp add: sa_count_def SafeArrayGetLBound_def SafeArrayGetUBound_def)

lemma sa_elem_size_pos: "sa_elem_size t = Some sz \<Longrightarrow> 0 < sz \<and> sz \<le> 16"
  by (auto simp: sa_elem_size_def split: if_splits)

lemma unat_mult_size:
  assumes "unat (n :: u32) * sz < 2 ^ 31" and "0 < sz"
  shows "unat (n * of_nat sz) = unat n * sz"
proof (cases "n = 0")
  case False
  then have "unat n \<noteq> 0" by (simp add: unat_eq_0)
  then have "sz \<le> unat n * sz" by simp
  then have "sz < 2 ^ 32" using assms(1) order.strict_trans1 [of sz "unat n * sz" "2 ^ 31"] by simp
  then show ?thesis
    using assms by (simp add: unat_word_ariths unat_of_nat)
qed simp

text \<open>What an allocation that does not wrap returns: as many zeroed elements as the bound says.\<close>

lemma SafeArrayCreateVector_ok:
  assumes "sa_elem_size t = Some sz" and "n \<noteq> 0" and "unat n * sz < 2 ^ 31"
  shows "SafeArrayCreateVector mem_ok t lb n =
         Some (SafeArray 1 t (of_nat sz) (Some (zero_data t (unat n * sz))) n lb)"
  using assms sa_elem_size_pos [OF assms(1)]
  by (simp add: SafeArrayCreateVector_def Let_def unat_mult_size)

lemma copyable_elem: "copyable t \<longleftrightarrow> sa_elem_size t \<noteq> None \<and> t \<noteq> VT_BSTR \<and> t \<noteq> VT_VARIANT"
  by (auto simp: copyable_def sa_elem_size_def)

lemma copyable_not_array: "copyable t \<Longrightarrow> \<not> is_array t"
  by (auto simp: copyable_def is_array_def)

lemma wf_VariantCopy:
  shows "wf_variant v \<Longrightarrow> VariantClear d \<noteq> None \<Longrightarrow> VariantCopy_to mem_ok v d = Some (S_OK, v)"
    and "wf_variants vs \<Longrightarrow> length ds = length vs \<Longrightarrow> list_all (\<lambda>d. VariantClear d \<noteq> None) ds \<Longrightarrow>
         VariantCopies mem_ok vs ds (length vs) = Some vs"
proof (induction v and vs arbitrary: d and ds rule: wf_variant_wf_variants.induct)
  case (1 v)
  from 1(2) show ?case
  proof (cases rule: wf_variant_cases)
    case (scalar t w)
    with 1(3) show ?thesis
      by (auto simp: VariantCopy_to.simps VariantCopy_body_def scalar_type_def Let_def)
  next
    case null_bstr
    with 1(3) show ?thesis
      by (auto simp: VariantCopy_to.simps VariantCopy_body_def copyable_def is_array_def Let_def)
  next
    case (bstr s)
    with 1(3) show ?thesis
      by (auto simp: VariantCopy_to.simps VariantCopy_body_def copyable_def is_array_def Let_def
          SysAllocString_wf)
  next
    case (empty t lb sz)
    then have "copyable (t XOR VT_ARRAY) \<or> t XOR VT_ARRAY = VT_BSTR \<or> t XOR VT_ARRAY = VT_VARIANT"
      by (auto simp: copyable_elem)
    with 1(3) empty show ?thesis
      by (auto simp: VariantCopy_to.simps VariantCopy_body_def copy_array_def Let_def
          SafeArrayCreateVector_def set_pvData_def)
  next
    case (bytes t bs n lb sz)
    then have c: "copyable (t XOR VT_ARRAY)" by (simp add: copyable_elem)
    have "unat (of_nat sz * n) = unat n * sz"
      using unat_mult_size [OF bytes(8)] sa_elem_size_pos [OF bytes(3)] by (simp add: mult.commute)
    with c 1(3) bytes show ?thesis
      by (auto simp: VariantCopy_to.simps VariantCopy_body_def copy_array_def Let_def
          SafeArrayCreateVector_ok zero_data_def load_def store_def set_pvData_def)
  next
    case (bstrs t ss n lb)
    then have cv: "SafeArrayCreateVector mem_ok (t XOR VT_ARRAY) lb n =
        Some (SafeArray 1 VT_BSTR 8 (Some (Bstrs (replicate (unat n) None))) n lb)"
      using SafeArrayCreateVector_ok [of VT_BSTR 8 n lb]
      by (simp add: sa_elem_size_def zero_data_def)
    with 1(3) bstrs SysAllocStrings_wf [of ss "replicate (unat n) None"] show ?thesis
      by (auto simp: VariantCopy_to.simps VariantCopy_body_def copy_array_def Let_def set_pvData_def)
  next
    case (variants t vs n lb)
    then have cv: "SafeArrayCreateVector mem_ok (t XOR VT_ARRAY) lb n =
        Some (SafeArray 1 VT_VARIANT 16 (Some (Variants (replicate (unat n) zero_variant))) n lb)"
      using SafeArrayCreateVector_ok [of VT_VARIANT 16 n lb]
      by (simp add: sa_elem_size_def zero_data_def)
    have "VariantCopies mem_ok vs (replicate (unat n) zero_variant) (unat n) = Some vs"
      using 1(1) [of "replicate (unat n) zero_variant"] variants
      by (simp add: list_all_length VariantClear.simps VariantClear_body_def is_array_def)
    with cv 1(3) variants show ?thesis
      by (auto simp: VariantCopy_to.simps VariantCopy_body_def copy_array_def Let_def set_pvData_def)
  qed
next
  case (2)
  then show ?case by auto
next
  case (3 v vs)
  then show ?case by (auto simp: length_Suc_conv split: list.splits nat.splits)
qed

section \<open>Properties\<close>

text \<open>
  Copying a well-formed variant over any variant that can be cleared succeeds and gives a
  destination with the same type, bits, strings and (nested) arrays.
\<close>

lemma VariantCopy_deep:
  assumes "wf_variant s" and "VariantClear d \<noteq> None"
  shows "VariantCopy mem_ok False (Some d) (Some s) = Some (S_OK, Some s)"
  using assms by (simp add: VariantCopy_def wf_VariantCopy)

definition sample_variant :: variant where
  "sample_variant = Variant (VT_ARRAY OR VT_VARIANT) (ArrayP (SafeArray 1 VT_VARIANT 16
     (Some (Variants [Variant VT_BSTR (BstrP [0x6D, 0x31, 0]), Variant VT_I4 (Bits 5)])) 2 1))"

lemma wf_sample_variant: "wf_variant sample_variant"
  by (simp add: sample_variant_def wf_variant.simps wf_body_def is_array_def wf_array_def
      sa_elem_size_def wf_data_def wf_bstr_def scalar_type_def copyable_def)

lemma VariantCopy_deep_witness:
  "VariantCopy mem_ok False (Some zero_variant) (Some sample_variant) = Some (S_OK, Some sample_variant)"
  by (rule VariantCopy_deep [OF wf_sample_variant])
     (simp add: VariantClear.simps VariantClear_body_def is_array_def)

text \<open>
  Clearing a well-formed variant reads no element it does not have, and leaves the
  object \<open>VariantInit\<close> makes.
\<close>

theorem VariantClear_wf:
  assumes "wf_variant v"
  shows "VariantClear v = Some (VariantInit v)"
  using wf_VariantClear(1) [OF assms] by (simp add: VariantInit_def)

lemma VariantClear_wf_witness: "VariantClear sample_variant = Some zero_variant"
  using VariantClear_wf [OF wf_sample_variant] by (simp add: VariantInit_def)

definition data_size :: "nat \<Rightarrow> sa_data \<Rightarrow> nat" where
  "data_size sz d = (case d of Bytes bs \<Rightarrow> length bs | Bstrs bs \<Rightarrow> sz * length bs | Variants vs \<Rightarrow> sz * length vs)"

text \<open>
  The array \<open>SafeArrayCreateVector\<close> returns has room for every element of
  its bound exactly when the size in bytes fits 32 bits: the product is computed in \<open>uint32_t\<close>,
  and a larger one gives an array whose bound exceeds what was allocated.
\<close>

lemma SafeArrayCreateVector_holds:
  assumes "sa_elem_size t = Some sz" and "n \<noteq> 0"
  shows "\<exists>d. SafeArrayCreateVector mem_ok t lb n = Some (SafeArray 1 t (of_nat sz) (Some d) n lb) \<and>
             (unat n * sz \<le> data_size sz d \<longleftrightarrow> unat n * sz < 2 ^ 32)"
proof -
  let ?b = "unat (n * of_nat sz)"
  have sz: "0 < sz" "sz \<le> 16" using sa_elem_size_pos [OF assms(1)] by auto
  then have b: "?b = (unat n * sz) mod 2 ^ 32" by (simp add: unat_word_ariths unat_of_nat)
  have "data_size sz (zero_data t ?b) \<le> ?b"
    using assms(1) by (auto simp: data_size_def zero_data_def sa_elem_size_def split: if_splits)
  moreover have "unat n * sz < 2 ^ 32 \<Longrightarrow> data_size sz (zero_data t ?b) = unat n * sz"
    using assms(1) b by (auto simp: data_size_def zero_data_def sa_elem_size_def split: if_splits)
  moreover have "?b < 2 ^ 32" using b by simp
  ultimately show ?thesis
    using assms by (auto simp: SafeArrayCreateVector_def Let_def)
qed

lemma SafeArrayCreateVector_holds_witness:
  "\<exists>d. SafeArrayCreateVector mem_ok VT_VARIANT 1 0x10000001 = Some (SafeArray 1 VT_VARIANT 16 (Some d) 0x10000001 1) \<and>
       \<not> (0x10000001 :: nat) * 16 \<le> data_size 16 d"
  using SafeArrayCreateVector_holds [of VT_VARIANT 16 "0x10000001" 1] by (simp add: sa_elem_size_def)

text \<open>
  The string \<open>SysAllocStringLen(L"", cch)\<close> returns has room for \<open>cch\<close> characters and
  the terminator exactly when \<open>cch\<close> is at most 16382: its size is computed in \<open>uint16_t\<close>.
\<close>

theorem SysAllocStringLen_holds:
  "\<exists>cells. SysAllocStringLen mem_ok (Some [0]) cch = Some (Some cells) \<and>
           set cells \<subseteq> {0} \<and> (unat cch < length cells \<longleftrightarrow> unat cch \<le> 16382)"
proof -
  have b: "4 * (unat cch + 1) mod 2 ^ 16 div 4 = (unat cch + 1) mod 2 ^ 14"
    using mod_mult2_eq [of "4 * (unat cch + 1)" 4 "2 ^ 14"] by simp
  have "unat cch < (unat cch + 1) mod 2 ^ 14 \<longleftrightarrow> unat cch \<le> 16382"
  proof
    assume "unat cch < (unat cch + 1) mod 2 ^ 14"
    moreover have "(unat cch + 1) mod 2 ^ 14 < 16384"
      using mod_less_divisor [of "2 ^ 14" "unat cch + 1"] by simp
    ultimately show "unat cch \<le> 16382" by linarith
  qed simp
  then show ?thesis
    using b by (auto simp: SysAllocStringLen_def Let_def)
qed

end
