(* ===== verification/Float64.thy ===== *)
theory Float64
  imports Prelude
begin

text \<open>
  IEEE-754 binary64 arithmetic as the C program uses it for \<open>DATE\<close> values
  (\<open>bcap_vntdate2bytary\<close>, \<open>bcap_bytary2vntdate\<close>): conversion from an integer, division,
  addition, subtraction and multiplication rounded to nearest with ties to even, comparison
  with zero, and the truncating conversion back to \<open>int64_t\<close>.

  A finite value is a sign, a significand and a binary exponent; rounding works on exact
  fractions of integers, so every definition evaluates. The language leaves the conversion of
  a value outside the range of \<open>int64_t\<close> undefined: it has the result \<open>None\<close>.
\<close>

datatype fp64 = NaN | Inf bool | Fin bool int int

function int_bits :: "int \<Rightarrow> nat" where
  "int_bits n = (if n \<le> 0 then 0 else Suc (int_bits (n div 2)))"
  by pat_completeness auto
termination
  by (relation "measure nat") auto

declare int_bits.simps [simp del]

definition rne_div :: "int \<Rightarrow> int \<Rightarrow> int" where
  "rne_div p q =
     (let d = p div q; r = 2 * (p mod q)
      in if r < q then d else if q < r then d + 1 else if even d then d else d + 1)"

definition scale2 :: "int \<Rightarrow> int \<Rightarrow> int \<Rightarrow> int \<times> int" where
  "scale2 p q e = (if 0 \<le> e then (p, q * 2 ^ nat e) else (p * 2 ^ nat (- e), q))"

text \<open>The double nearest to \<open>p / q\<close> (with \<open>0 \<le> p\<close>, \<open>0 < q\<close>), negated if \<open>neg\<close>.\<close>

definition fp_round :: "bool \<Rightarrow> int \<Rightarrow> int \<Rightarrow> fp64" where
  "fp_round neg p q =
     (if p = 0 then Fin neg 0 0
      else let e0 = int (int_bits p) - int (int_bits q) - 53;
               (p0, q0) = scale2 p q e0;
               e = max (- 1074) (if 2 ^ 53 * q0 \<le> p0 then e0 + 1 else e0);
               (p1, q1) = scale2 p q e;
               m = rne_div p1 q1;
               (m', e') = (if m = 2 ^ 53 then (2 ^ 52, e + 1) else (m, e))
           in if 971 < e' then Inf neg else Fin neg m' e')"

definition fp_frac :: "int \<Rightarrow> int \<Rightarrow> int \<times> int" where
  "fp_frac m e = (if 0 \<le> e then (m * 2 ^ nat e, 1) else (m, 2 ^ nat (- e)))"

definition sg :: "bool \<Rightarrow> int \<Rightarrow> int" where
  "sg s n = (if s then - n else n)"

fun fp_add :: "fp64 \<Rightarrow> fp64 \<Rightarrow> fp64" where
  "fp_add (Fin s1 m1 e1) (Fin s2 m2 e2) =
     (let (p1, q1) = fp_frac m1 e1; (p2, q2) = fp_frac m2 e2;
          n = sg s1 p1 * q2 + sg s2 p2 * q1
      in fp_round (n < 0) \<bar>n\<bar> (q1 * q2))"
| "fp_add NaN y = NaN"
| "fp_add x NaN = NaN"
| "fp_add (Inf s) (Inf t) = (if s = t then Inf s else NaN)"
| "fp_add (Inf s) (Fin t m e) = Inf s"
| "fp_add (Fin t m e) (Inf s) = Inf s"

fun fp_neg :: "fp64 \<Rightarrow> fp64" where
  "fp_neg NaN = NaN"
| "fp_neg (Inf s) = Inf (\<not> s)"
| "fp_neg (Fin s m e) = Fin (\<not> s) m e"

definition fp_sub :: "fp64 \<Rightarrow> fp64 \<Rightarrow> fp64" where
  "fp_sub x y = fp_add x (fp_neg y)"

fun fp_mul :: "fp64 \<Rightarrow> fp64 \<Rightarrow> fp64" where
  "fp_mul (Fin s1 m1 e1) (Fin s2 m2 e2) =
     (let (p1, q1) = fp_frac m1 e1; (p2, q2) = fp_frac m2 e2
      in fp_round (s1 \<noteq> s2) (p1 * p2) (q1 * q2))"
| "fp_mul NaN y = NaN"
| "fp_mul x NaN = NaN"
| "fp_mul (Inf s) (Inf t) = Inf (s \<noteq> t)"
| "fp_mul (Inf s) (Fin t m e) = (if m = 0 then NaN else Inf (s \<noteq> t))"
| "fp_mul (Fin t m e) (Inf s) = (if m = 0 then NaN else Inf (s \<noteq> t))"

text \<open>Division by a finite divisor other than zero, the only kind the program has.\<close>

fun fp_div :: "fp64 \<Rightarrow> fp64 \<Rightarrow> fp64" where
  "fp_div (Fin s1 m1 e1) (Fin s2 m2 e2) =
     (if m2 = 0 then (if m1 = 0 then NaN else Inf (s1 \<noteq> s2))
      else let (p1, q1) = fp_frac m1 e1; (p2, q2) = fp_frac m2 e2
           in fp_round (s1 \<noteq> s2) (p1 * q2) (q1 * p2))"
| "fp_div NaN y = NaN"
| "fp_div x NaN = NaN"
| "fp_div (Inf s) (Inf t) = NaN"
| "fp_div (Inf s) (Fin t m e) = Inf (s \<noteq> t)"
| "fp_div (Fin t m e) (Inf s) = Fin (s \<noteq> t) 0 0"

definition fp_of_int :: "int \<Rightarrow> fp64" where
  "fp_of_int n = fp_round (n < 0) \<bar>n\<bar> 1"

fun fp_positive :: "fp64 \<Rightarrow> bool" where
  "fp_positive NaN = False"
| "fp_positive (Inf s) = (\<not> s)"
| "fp_positive (Fin s m e) = (\<not> s \<and> 0 < m)"

fun fp_to_i64 :: "fp64 \<Rightarrow> u64 option" where
  "fp_to_i64 (Fin s m e) =
     (let (p, q) = fp_frac m e; t = sg s (p div q)
      in if - (2 ^ 63) \<le> t \<and> t < 2 ^ 63 then Some (word_of_int t) else None)"
| "fp_to_i64 _ = None"

text \<open>The 64-bit interchange format.\<close>

definition fp_decode :: "u64 \<Rightarrow> fp64" where
  "fp_decode w =
     (let n = uint w; s = bit w 63; ex = n div 2 ^ 52 mod 2 ^ 11; fr = n mod 2 ^ 52
      in if ex = 2047 then (if fr = 0 then Inf s else NaN)
         else if ex = 0 then Fin s fr (- 1074)
         else Fin s (2 ^ 52 + fr) (ex - 1075))"

fun fp_encode :: "fp64 \<Rightarrow> u64" where
  "fp_encode NaN = 0x7FF8000000000000"
| "fp_encode (Inf s) = word_of_int (2047 * 2 ^ 52 + (if s then 2 ^ 63 else 0))"
| "fp_encode (Fin s m e) =
     word_of_int ((if s then 2 ^ 63 else 0)
       + (if m < 2 ^ 52 then m else (e + 1075) * 2 ^ 52 + (m - 2 ^ 52)))"

text \<open>
  The rounding returns a significand of at most 53 bits: the tie-breaking division stays within
  half a unit of the exact quotient.
\<close>

lemma rne_div_error:
  assumes "0 < q"
  shows "\<bar>2 * (rne_div p q * q - p)\<bar> \<le> q"
proof -
  have p: "p = p div q * q + p mod q" by simp
  have m: "0 \<le> p mod q" "p mod q < q" using assms by simp_all
  let ?d = "p div q"
  have "rne_div p q = ?d \<and> 2 * (p mod q) \<le> q \<or> rne_div p q = ?d + 1 \<and> q \<le> 2 * (p mod q)"
    by (auto simp: rne_div_def Let_def)
  moreover have "?d * q - p = - (p mod q)" using p by linarith
  moreover have "(?d + 1) * q - p = q - p mod q" using p by (simp add: algebra_simps)
  ultimately show ?thesis using m by (auto simp: abs_if)
qed

end
