(* ===== verification/Device.thy ===== *)
theory Device
  imports Prelude
begin

text \<open>
  The device layer of \<open>bcap_core/src/dn_device.c\<close> and its header: byte order, the connection
  record with its function table, the parameter check every send and receive makes first, and
  the parsers of the connection strings (\<open>tcp:192.168.0.1:5007\<close>, \<open>com:1:38400\<close>).

  A C string is a \<open>string\<close> without its terminator, a pointer that may be \<open>NULL\<close> an \<open>option\<close>.
  \<open>inet_addr\<close> and the floating-point reading of the stop bits, \<open>(int) (atof(s) * 10.0)\<close>, belong
  to the C library and are arguments; so is the outcome \<open>mok n\<close> of \<open>malloc(n)\<close>.
\<close>

section \<open>Byte order\<close>

datatype endian = LITTLE | BIG

text \<open>The memory image of an object of \<open>n\<close> bytes holding the value \<open>w\<close>, by the host's order.\<close>

definition mem_image :: "endian \<Rightarrow> nat \<Rightarrow> 'a::len word \<Rightarrow> byte list" where
  "mem_image e n w = (case e of LITTLE \<Rightarrow> le_bytes n w | BIG \<Rightarrow> rev (le_bytes n w))"

text \<open>The loop \<open>*pdst++ = *psrc--\<close> started at the last source byte.\<close>

fun copy_down :: "byte list \<Rightarrow> nat \<Rightarrow> byte list" where
  "copy_down src 0 = []"
| "copy_down src (Suc i) = src ! i # copy_down src i"

definition memcpy_le :: "endian \<Rightarrow> byte list \<Rightarrow> byte list" where
  "memcpy_le e src = (case e of BIG \<Rightarrow> copy_down src (length src) | LITTLE \<Rightarrow> src)"

definition memcpy_be :: "endian \<Rightarrow> byte list \<Rightarrow> byte list" where
  "memcpy_be e src = (case e of LITTLE \<Rightarrow> copy_down src (length src) | BIG \<Rightarrow> src)"

lemma copy_down_rev: "n \<le> length src \<Longrightarrow> copy_down src n = rev (take n src)"
  by (induction n) (auto simp: take_Suc_conv_app_nth)

lemma copy_down_full [simp]: "copy_down src (length src) = rev src"
  by (simp add: copy_down_rev)

lemma memcpy_le_LITTLE [simp]: "memcpy_le LITTLE src = src"
  by (simp add: memcpy_le_def)

lemma memcpy_be_LITTLE [simp]: "memcpy_be LITTLE src = rev src"
  by (simp add: memcpy_be_def)

lemma length_memcpy [simp]:
  "length (memcpy_le e src) = length src" "length (memcpy_be e src) = length src"
  by (cases e; simp add: memcpy_le_def memcpy_be_def)+

section \<open>The connection record\<close>

record sockaddr_in =
  s_addr :: u32
  sin_port :: u16

text \<open>The drivers a function pointer of the connection record can point to.\<close>

datatype dn_func =
    F_tcp_open_client | F_tcp_open_server | F_tcp_close | F_tcp_send | F_tcp_recv
  | F_tcp_set_timeout | F_tcp_clear
  | F_udp_open | F_udp_close | F_udp_send | F_udp_recv | F_udp_set_timeout | F_udp_clear
  | F_com_open | F_com_close | F_com_send | F_com_recv | F_com_set_timeout | F_com_clear

record conn_param_common =
  sock :: i32
  conn_type :: i32
  timeout :: u32
  arg :: "sockaddr_in option"
  dn_open :: "dn_func option"
  dn_close :: "dn_func option"
  dn_send :: "dn_func option"
  dn_recv :: "dn_func option"
  dn_set_timeout :: "dn_func option"
  dn_clear :: "dn_func option"

abbreviation (input) CHECK_TYPE_TCP :: i32 where "CHECK_TYPE_TCP \<equiv> 0x0001"
abbreviation (input) CHECK_TYPE_UDP :: i32 where "CHECK_TYPE_UDP \<equiv> 0x0002"
abbreviation (input) CHECK_TYPE_COM :: i32 where "CHECK_TYPE_COM \<equiv> 0x0004"
abbreviation (input) CHECK_TYPE_ALL :: i32 where "CHECK_TYPE_ALL \<equiv> 0x00FF"
abbreviation (input) CHECK_FUNC_OPEN :: i32 where "CHECK_FUNC_OPEN \<equiv> 0x0100"
abbreviation (input) CHECK_FUNC_CLOSE :: i32 where "CHECK_FUNC_CLOSE \<equiv> 0x0200"
abbreviation (input) CHECK_FUNC_SEND :: i32 where "CHECK_FUNC_SEND \<equiv> 0x0400"
abbreviation (input) CHECK_FUNC_RECV :: i32 where "CHECK_FUNC_RECV \<equiv> 0x0800"
abbreviation (input) CHECK_FUNC_TIMEOUT :: i32 where "CHECK_FUNC_TIMEOUT \<equiv> 0x1000"
abbreviation (input) CHECK_FUNC_CLEAR :: i32 where "CHECK_FUNC_CLEAR \<equiv> 0x2000"

abbreviation (input) CONN_TCP :: i32 where "CONN_TCP \<equiv> CHECK_TYPE_TCP"
abbreviation (input) CONN_UDP :: i32 where "CONN_UDP \<equiv> CHECK_TYPE_UDP"
abbreviation (input) CONN_COM :: i32 where "CONN_COM \<equiv> CHECK_TYPE_COM"

definition check_conn_param :: "conn_param_common option \<Rightarrow> i32 \<Rightarrow> hresult" where
  "check_conn_param device flag =
     (case device of
        None \<Rightarrow> E_INVALIDARG
      | Some d \<Rightarrow>
          if sint (sock d) \<le> 0 then E_HANDLE
          else if flag AND CHECK_TYPE_ALL \<noteq> 0 \<and> flag AND conn_type d = 0 then E_INVALIDARG
          else if flag AND CHECK_FUNC_OPEN \<noteq> 0 \<and> dn_open d = None then E_INVALIDARG
          else if flag AND CHECK_FUNC_CLOSE \<noteq> 0 \<and> dn_close d = None then E_INVALIDARG
          else if flag AND CHECK_FUNC_SEND \<noteq> 0 \<and> dn_send d = None then E_INVALIDARG
          else if flag AND CHECK_FUNC_RECV \<noteq> 0 \<and> dn_recv d = None then E_INVALIDARG
          else if flag AND CHECK_FUNC_TIMEOUT \<noteq> 0 \<and> dn_set_timeout d = None then E_INVALIDARG
          else if flag AND CHECK_FUNC_CLEAR \<noteq> 0 \<and> dn_clear d = None then E_INVALIDARG
          else S_OK)"

section \<open>Numbers in connection strings\<close>

definition is_digit :: "char \<Rightarrow> bool" where
  "is_digit c \<longleftrightarrow> c \<in> set ''0123456789''"

definition is_numeric :: "string option \<Rightarrow> bool" where
  "is_numeric src =
     (case src of
        None \<Rightarrow> False
      | Some s \<Rightarrow>
          if length s = 0 then False
          else let s' = (if hd s = CHR ''-'' then tl s else s)
               in length (takeWhile is_digit s') = length s')"

definition digit_val :: "char \<Rightarrow> int" where
  "digit_val c = of_char c - 48"

fun digits_val :: "int \<Rightarrow> string \<Rightarrow> int" where
  "digits_val acc [] = acc"
| "digits_val acc (c # cs) = digits_val (10 * acc + digit_val c) cs"

text \<open>
  \<open>strtol\<close> in base 10 on the strings that passed \<open>is_numeric\<close> (an optional minus sign and
  digits): the value, saturated at the ends of the 64-bit \<open>long\<close>. \<open>atol\<close> is its result and
  \<open>atoi\<close> that result converted to \<open>int\<close>.
\<close>

definition strtol10 :: "string \<Rightarrow> int" where
  "strtol10 s =
     (let v = (case s of
                 [] \<Rightarrow> 0
               | c # cs \<Rightarrow> if c = CHR ''-'' then - digits_val 0 (takeWhile is_digit cs)
                          else digits_val 0 (takeWhile is_digit s))
      in max (- (2 ^ 63)) (min (2 ^ 63 - 1) v))"

definition atol :: "string \<Rightarrow> u64" where
  "atol s = word_of_int (strtol10 s)"

definition atoi :: "string \<Rightarrow> i32" where
  "atoi s = word_of_int (strtol10 s)"

text \<open>\<open>htons\<close> on the little-endian host.\<close>

definition htons :: "u16 \<Rightarrow> u16" where
  "htons w = push_bit 8 w OR drop_bit 8 w"

section \<open>Connection strings\<close>

definition to_lower :: "char \<Rightarrow> char" where
  "to_lower c = (if (65::nat) \<le> of_char c \<and> of_char c \<le> (90::nat)
                 then char_of (of_char c + 32 :: nat) else c)"

definition strnicmp_eq :: "string \<Rightarrow> string \<Rightarrow> nat \<Rightarrow> bool" where
  "strnicmp_eq a b n \<longleftrightarrow> map to_lower (take n a) = map to_lower (take n b)"

definition parse_conn_type :: "string option \<Rightarrow> i32" where
  "parse_conn_type opt =
     (case opt of
        None \<Rightarrow> -1
      | Some s \<Rightarrow>
          if 3 \<le> length s then
            (if strnicmp_eq s ''tcp'' 3 then CONN_TCP
             else if strnicmp_eq s ''udp'' 3 then CONN_UDP
             else if strnicmp_eq s ''com'' 3 then CONN_COM
             else -1)
          else -1)"

text \<open>
  The splitting loop: at most \<open>n\<close> fields, \<open>None\<close> when the loop would start another one.
\<close>

fun split_fields :: "nat \<Rightarrow> string \<Rightarrow> string list option" where
  "split_fields 0 s = None"
| "split_fields (Suc n) s =
     (case dropWhile (\<lambda>c. c \<noteq> CHR '':'') s of
        [] \<Rightarrow> Some [s]
      | _ # rest \<Rightarrow>
          map_option ((#) (takeWhile (\<lambda>c. c \<noteq> CHR '':'') s)) (split_fields n rest))"

record conn_param_eth =
  dst_addr :: u32
  dst_port :: u16
  src_addr :: u32
  src_port :: u16

record conn_param_com =
  com_port :: i32
  baud_rate :: u32
  parity :: byte
  data_bits :: byte
  stop_bits :: byte
  flow :: byte

text \<open>
  One optional field of the record: skipped when the string is too short (\<open>present\<close> false),
  otherwise its error ends the parse with the fields set so far, or its value is stored.
\<close>

definition field_step ::
  "bool \<Rightarrow> hresult + 'v \<Rightarrow> ('v \<Rightarrow> 'p \<Rightarrow> 'p) \<Rightarrow> ('p \<Rightarrow> hresult \<times> 'p) \<Rightarrow> 'p \<Rightarrow> hresult \<times> 'p" where
  "field_step present r upd k p =
     (if present then (case r of Inl e \<Rightarrow> (e, p) | Inr v \<Rightarrow> k (upd v p)) else k p)"

definition parse_port :: "string \<Rightarrow> hresult + u16" where
  "parse_port s =
     (if \<not> is_numeric (Some s) then Inl E_INVALIDARG
      else let tmp = atoi s
           in if sint tmp < 0 \<or> tmp \<noteq> ucast (ucast tmp :: u16) then Inl DISP_E_OVERFLOW
              else Inr (htons (ucast tmp)))"

abbreviation (input) INADDR_NONE :: u32 where "INADDR_NONE \<equiv> 0xFFFFFFFF"

definition parse_addr :: "(string \<Rightarrow> u32) \<Rightarrow> string \<Rightarrow> hresult + u32" where
  "parse_addr inet_addr s =
     (let uitmp = inet_addr s
      in if uitmp = INADDR_NONE \<and> s \<noteq> ''255.255.255.255'' then Inl E_INVALIDARG else Inr uitmp)"

definition parse_conn_param_ether ::
  "(nat \<Rightarrow> bool) \<Rightarrow> (string \<Rightarrow> u32) \<Rightarrow> string option \<Rightarrow> conn_param_eth \<Rightarrow>
   hresult \<times> conn_param_eth" where
  "parse_conn_param_ether mok inet_addr opt param =
     (let type = parse_conn_type opt in
      if type = CONN_TCP \<or> type = CONN_UDP then
        (if \<not> mok (length (the opt) + 1) then (E_OUTOFMEMORY, param)
         else case split_fields 5 (the opt) of
           None \<Rightarrow> (E_INVALIDARG, param)
         | Some pos \<Rightarrow>
             field_step (5 \<le> length pos) (parse_port (pos ! 4)) (\<lambda>v p. p\<lparr>src_port := v\<rparr>)
            (field_step (4 \<le> length pos) (parse_addr inet_addr (pos ! 3)) (\<lambda>v p. p\<lparr>src_addr := v\<rparr>)
            (field_step (3 \<le> length pos) (parse_port (pos ! 2)) (\<lambda>v p. p\<lparr>dst_port := v\<rparr>)
            (field_step (2 \<le> length pos) (parse_addr inet_addr (pos ! 1)) (\<lambda>v p. p\<lparr>dst_addr := v\<rparr>)
              (\<lambda>p. (S_OK, p))))) param)
      else (E_INVALIDARG, param))"

definition parse_bounded :: "int \<Rightarrow> int \<Rightarrow> string \<Rightarrow> hresult + byte" where
  "parse_bounded lo hi s =
     (if \<not> is_numeric (Some s) then Inl E_INVALIDARG
      else let tmp = atol s
           in if sint tmp < lo \<or> hi < sint tmp then Inl DISP_E_OVERFLOW else Inr (ucast tmp))"

definition parse_stop_bits :: "(string \<Rightarrow> int) \<Rightarrow> string \<Rightarrow> hresult + byte" where
  "parse_stop_bits atof10 s =
     (if atof10 s = 10 then Inr 0 else if atof10 s = 20 then Inr 2 else Inl E_INVALIDARG)"

definition parse_parity :: "string \<Rightarrow> hresult + byte" where
  "parse_parity s =
     (if length s \<noteq> 1 then Inl E_INVALIDARG
      else if hd s \<in> set ''Nn'' then Inr 0
      else if hd s \<in> set ''Oo'' then Inr 1
      else if hd s \<in> set ''Ee'' then Inr 2
      else Inl E_INVALIDARG)"

definition parse_baud :: "string \<Rightarrow> hresult + u32" where
  "parse_baud s = (if \<not> is_numeric (Some s) then Inl E_INVALIDARG else Inr (ucast (atol s)))"

definition parse_com_port :: "string \<Rightarrow> hresult + i32" where
  "parse_com_port s =
     (if \<not> is_numeric (Some s) then Inl E_INVALIDARG
      else let tmp = atol s
           in if sint tmp < 0 \<or> tmp \<noteq> scast (ucast tmp :: i32) then Inl DISP_E_OVERFLOW
              else Inr (ucast tmp))"

definition parse_conn_param_serial ::
  "(nat \<Rightarrow> bool) \<Rightarrow> (string \<Rightarrow> int) \<Rightarrow> string option \<Rightarrow> conn_param_com \<Rightarrow>
   hresult \<times> conn_param_com" where
  "parse_conn_param_serial mok atof10 opt param =
     (if parse_conn_type opt = CONN_COM then
        (if \<not> mok (length (the opt) + 1) then (E_OUTOFMEMORY, param)
         else case split_fields 7 (the opt) of
           None \<Rightarrow> (E_INVALIDARG, param)
         | Some pos \<Rightarrow>
             if length pos = 4 \<or> length pos = 5 then (E_INVALIDARG, param)
             else
             field_step (7 \<le> length pos) (parse_bounded 0 3 (pos ! 6)) (\<lambda>v p. p\<lparr>flow := v\<rparr>)
            (field_step (6 \<le> length pos) (parse_stop_bits atof10 (pos ! 5)) (\<lambda>v p. p\<lparr>stop_bits := v\<rparr>)
            (field_step (5 \<le> length pos) (parse_bounded 5 8 (pos ! 4)) (\<lambda>v p. p\<lparr>data_bits := v\<rparr>)
            (field_step (4 \<le> length pos) (parse_parity (pos ! 3)) (\<lambda>v p. p\<lparr>parity := v\<rparr>)
            (field_step (3 \<le> length pos) (parse_baud (pos ! 2)) (\<lambda>v p. p\<lparr>baud_rate := v\<rparr>)
            (field_step (2 \<le> length pos) (parse_com_port (pos ! 1)) (\<lambda>v p. p\<lparr>com_port := v\<rparr>)
              (\<lambda>p. (S_OK, p))))))) param)
      else (E_INVALIDARG, param))"

section \<open>Byte order: the wire does not depend on the host\<close>

text \<open>
  Copying a value's memory image with \<open>memcpy_le\<close> gives the least significant byte first, and
  with \<open>memcpy_be\<close> the most significant byte first, on a little-endian and on a big-endian host.
\<close>

lemma memcpy_host_independent:
  "memcpy_le e (mem_image e n w) = le_bytes n w \<and>
   memcpy_be e (mem_image e n w) = rev (le_bytes n w)"
  by (cases e) (simp_all add: memcpy_le_def memcpy_be_def mem_image_def copy_down_rev)

end
