(* ===== verification/BcapEncode.thy ===== *)
theory BcapEncode
  imports Variant Float64 Device
begin

text \<open>
  The b-CAP encoder of \<open>bcap_core/src/bcap_common.c\<close>: the size calculation
  (\<open>bcap_calc_size_variant\<close>, \<open>bcap_calc_size_packet\<close>), the conversion of variants and packets
  into bytes (\<open>bcap_vntdate2bytary\<close>, \<open>bcap_vnt2bytary\<close>, \<open>bcap_vntary2bytary\<close>,
  \<open>bcap_packet2bytary\<close>), the format they implement, stated as a serialiser of its own, and
  the proof that the encoder implements it.

  The host is little-endian, so \<open>memcpy_le\<close> is the identity (\<open>memcpy_le_LITTLE\<close> in \<open>Device\<close>).
  Signed 32-bit sizes wrap, as the compilers the package is built with have them.
\<close>

section \<open>Packets\<close>

record bcap_packet =
  serial :: u16
  reserv :: u16
  func_id :: i32
  argc :: u16
  args :: "variant list option"

abbreviation (input) BCAP_HEADER :: byte where "BCAP_HEADER \<equiv> 0x01"
abbreviation (input) BCAP_TERMINATOR :: byte where "BCAP_TERMINATOR \<equiv> 0x04"
abbreviation (input) BCAP_SIZE_MIN :: u32 where "BCAP_SIZE_MIN \<equiv> 16"
abbreviation (input) BCAP_SIZE_CRC :: u32 where "BCAP_SIZE_CRC \<equiv> 2"

definition arg_list :: "bcap_packet \<Rightarrow> variant list" where
  "arg_list p = (case args p of None \<Rightarrow> [] | Some vs \<Rightarrow> vs)"

section \<open>The size calculation\<close>

definition fixed_size :: "u16 \<Rightarrow> nat" where
  "fixed_size t =
     (if t = VT_UI1 then 1
      else if t \<in> {VT_I2, VT_UI2, VT_BOOL} then 2
      else if t \<in> {VT_I4, VT_UI4, VT_R4} then 4
      else if t \<in> {VT_I8, VT_UI8, VT_R8, VT_CY} then 8
      else 0)"

text \<open>
  The loops over the elements of an array of strings or variants; an array without data reads
  nothing at its first element, whose address is \<open>NULL\<close>.
\<close>

fun calc_size_bstrs :: "bstr option list \<Rightarrow> nat \<Rightarrow> u32 option" where
  "calc_size_bstrs bs 0 = Some 0"
| "calc_size_bstrs [] (Suc n) = None"
| "calc_size_bstrs (b # bs) (Suc n) =
     (case (SysStringLen b, calc_size_bstrs bs n) of
        (Some l, Some r) \<Rightarrow> Some (4 + 2 * ucast l + r)
      | _ \<Rightarrow> None)"

definition calc_size_body :: "(nat \<Rightarrow> u32 option) \<Rightarrow> variant \<Rightarrow> u32 option" where
  "calc_size_body rest v =
     (let t = vt v in
      if is_array t then
        (case val v of
           Bits w \<Rightarrow> if w = 0 then Some 0 else None
         | BstrP b \<Rightarrow> None
         | ArrayP a \<Rightarrow> (case sa_count a of
             None \<Rightarrow> None
           | Some cnt \<Rightarrow>
               let et = t XOR VT_ARRAY; n = nat (sint cnt) in
               if fixed_size et \<noteq> 0 then Some (cnt * of_nat (fixed_size et))
               else if et = VT_DATE then Some (cnt * 8)
               else if et = VT_BSTR then
                 (case pvData a of
                    None \<Rightarrow> if n = 0 then Some 0 else if n = 1 then Some 4 else None
                  | Some (Bstrs bs) \<Rightarrow> calc_size_bstrs bs n
                  | Some _ \<Rightarrow> if n = 0 then Some 0 else None)
               else if et = VT_VARIANT then
                 (case pvData a of
                    None \<Rightarrow> if n = 0 then Some 0 else if n = 1 then Some 6 else None
                  | Some (Variants vs) \<Rightarrow> rest n
                  | Some _ \<Rightarrow> if n = 0 then Some 0 else None)
               else Some 0))
      else if fixed_size t \<noteq> 0 then Some (of_nat (fixed_size t))
      else if t = VT_ERROR then Some 4
      else if t = VT_DATE then Some 8
      else if t = VT_BSTR then
        (case val v of
           Bits w \<Rightarrow> if w = 0 then Some 4 else None
         | BstrP s \<Rightarrow> map_option (\<lambda>l. 4 + 2 * ucast l) (SysStringLen (Some s))
         | ArrayP a \<Rightarrow> None)
      else Some 0)"

fun bcap_calc_size_variant :: "variant \<Rightarrow> u32 option"
and calc_size_variants :: "variant list \<Rightarrow> nat \<Rightarrow> u32 option" where
  "bcap_calc_size_variant v = calc_size_body (calc_size_variants (variants_of v)) v"
| "calc_size_variants [] = (\<lambda>n. if n = 0 then Some 0 else None)"
| "calc_size_variants (v # vs) =
     (\<lambda>n. case n of
        0 \<Rightarrow> Some 0
      | Suc m \<Rightarrow> (case (bcap_calc_size_variant v, calc_size_variants vs m) of
          (Some s, Some r) \<Rightarrow> Some (2 + 4 + s + r)
        | _ \<Rightarrow> None))"

declare bcap_calc_size_variant.simps [simp del]

fun calc_size_args :: "variant list \<Rightarrow> nat \<Rightarrow> u32 \<Rightarrow> u32 option" where
  "calc_size_args vs 0 ret = Some ret"
| "calc_size_args [] (Suc n) ret = None"
| "calc_size_args (v # vs) (Suc n) ret =
     (case bcap_calc_size_variant v of
        None \<Rightarrow> None
      | Some s \<Rightarrow> calc_size_args vs n (ret + (4 + 2 + 4 + s)))"

definition bcap_calc_size_packet :: "bcap_packet option \<Rightarrow> u32 option" where
  "bcap_calc_size_packet packet =
     (case packet of
        None \<Rightarrow> Some 0
      | Some p \<Rightarrow> calc_size_args (arg_list p) (unat (argc p)) BCAP_SIZE_MIN)"

section \<open>Dates\<close>

text \<open>A \<open>DATE\<close> is a \<open>time_t\<close>; on the wire it is a double, in days since 1899-12-30.\<close>

definition bcap_vntdate2bytary :: "u64 \<Rightarrow> byte list" where
  "bcap_vntdate2bytary t =
     le_bytes 8 (if 0 < sint t
       then fp_encode (fp_add (fp_div (fp_of_int (sint t)) (fp_of_int 86400)) (fp_of_int 25569))
       else fp_encode (fp_of_int 0))"

section \<open>Writers\<close>

text \<open>
  A writer is a piece of the encoder: from the size of the buffer, the buffer and the offset,
  to the code it returns with the buffer and the offset it leaves.
\<close>

type_synonym wstate = "byte list \<times> u32"
type_synonym writer = "u32 \<Rightarrow> wstate \<Rightarrow> (hresult \<times> wstate) option"

definition done_w :: writer where
  "done_w = (\<lambda>len st. Some (S_OK, st))"

definition fail_w :: "hresult \<Rightarrow> writer" where
  "fail_w hr = (\<lambda>len st. Some (hr, st))"

definition undef_w :: writer where
  "undef_w = (\<lambda>len st. None)"

text \<open>
  The step the code repeats: \<open>if (*offset + size > len_dst) return E_INVALIDARG;\<close>, the copy from
  a source that is read only then (\<open>None\<close>: an undefined read), \<open>*offset += size\<close>.
\<close>

definition put :: "u32 \<Rightarrow> byte list option \<Rightarrow> writer" where
  "put sz src = (\<lambda>len (dst, off).
     if len < off + sz then Some (E_INVALIDARG, (dst, off))
     else case src of
       None \<Rightarrow> None
     | Some bs \<Rightarrow> map_option (\<lambda>d. (S_OK, (d, off + sz))) (store dst (unat off) bs))"

definition then_w :: "writer \<Rightarrow> writer \<Rightarrow> writer" where
  "then_w m1 m2 = (\<lambda>len st. case m1 len st of
       None \<Rightarrow> None
     | Some (hr, st') \<Rightarrow> if FAILED hr then Some (hr, st') else m2 len st')"

fun for_w :: "nat \<Rightarrow> nat \<Rightarrow> (nat \<Rightarrow> writer) \<Rightarrow> writer" where
  "for_w 0 i m = done_w"
| "for_w (Suc n) i m = then_w (m i) (for_w n (Suc i) m)"

text \<open>A string: its length in bytes, then two bytes of every character.\<close>

definition put_bstr :: "bstr option option \<Rightarrow> writer" where
  "put_bstr b =
     (let len = Option.bind b SysStringLen in
      then_w (put 4 (map_option (\<lambda>l. le_bytes 4 (2 * ucast l :: u32)) len))
        (case (b, len) of
           (Some (Some s), Some l) \<Rightarrow>
             for_w (unat l) 0 (\<lambda>j. put 2 (if j < length s then Some (le_bytes 2 (s ! j)) else None))
         | _ \<Rightarrow> done_w))"

definition bstr_ptr :: "vunion \<Rightarrow> bstr option option" where
  "bstr_ptr u =
     (case u of Bits w \<Rightarrow> if w = 0 then Some None else None
              | BstrP s \<Rightarrow> Some (Some s)
              | ArrayP a \<Rightarrow> None)"

definition union_bits :: "vunion \<Rightarrow> u64 option" where
  "union_bits u = (case u of Bits w \<Rightarrow> Some w | _ \<Rightarrow> None)"

text \<open>The bytes of the elements, by position; no data can only be read for a length of zero.\<close>

definition elem_bytes :: "sa_data option \<Rightarrow> nat \<Rightarrow> nat \<Rightarrow> byte list option" where
  "elem_bytes d off n =
     (case d of None \<Rightarrow> if n = 0 then Some [] else None
              | Some (Bytes bs) \<Rightarrow> load bs off n
              | Some _ \<Rightarrow> None)"

definition elem_bstr :: "sa_data option \<Rightarrow> nat \<Rightarrow> bstr option option" where
  "elem_bstr d i =
     (case d of Some (Bstrs bs) \<Rightarrow> if i < length bs then Some (bs ! i) else None
              | _ \<Rightarrow> None)"

definition vnt2bytary_array :: "(nat \<Rightarrow> writer) \<Rightarrow> u16 \<Rightarrow> safearray \<Rightarrow> u32 \<Rightarrow> writer" where
  "vnt2bytary_array rest et a n =
     (let d = pvData a; cnt = unat n; sz = fixed_size et in
      if et = VT_UI1 then put n (elem_bytes d 0 cnt)
      else if sz \<noteq> 0 then
        for_w cnt 0 (\<lambda>i. put (of_nat sz) (elem_bytes d (unat (of_nat i * of_nat sz :: u32)) sz))
      else if et = VT_DATE then
        for_w cnt 0 (\<lambda>i. put 8 (map_option (\<lambda>bs. bcap_vntdate2bytary (le_word bs)) (elem_bytes d (i * 8) 8)))
      else if et = VT_BSTR then for_w cnt 0 (\<lambda>i. put_bstr (elem_bstr d i))
      else if et = VT_VARIANT then rest cnt
      else done_w)"

definition vnt2bytary_scalar :: "u16 \<Rightarrow> vunion \<Rightarrow> writer" where
  "vnt2bytary_scalar t u =
     (let sz = (if t = VT_ERROR then 4 else fixed_size t) in
      if sz \<noteq> 0 then put (of_nat sz) (map_option (le_bytes sz) (union_bits u))
      else if t = VT_DATE then put 8 (map_option bcap_vntdate2bytary (union_bits u))
      else if t = VT_BSTR then put_bstr (bstr_ptr u)
      else done_w)"

definition vnt2bytary_body :: "(nat \<Rightarrow> writer) \<Rightarrow> variant \<Rightarrow> u32 \<Rightarrow> writer" where
  "vnt2bytary_body rest v n =
     (if is_array (vt v) then
        (case val v of
           Bits w \<Rightarrow> if w = 0 then done_w else undef_w
         | BstrP b \<Rightarrow> undef_w
         | ArrayP a \<Rightarrow> vnt2bytary_array rest (vt v XOR VT_ARRAY) a n)
      else vnt2bytary_scalar (vt v) (val v))"

text \<open>
  One element of \<open>bcap_vntary2bytary\<close>: the room for the length when \<open>flag\<close> is set, the type, the
  number of elements, the value, and the length written back.
\<close>

definition item_count_w :: "variant \<Rightarrow> (u32 \<Rightarrow> writer) \<Rightarrow> writer" where
  "item_count_w v k =
     (if is_array (vt v) then
        (case val v of
           Bits w \<Rightarrow> if w = 0 then fail_w E_INVALIDARG else undef_w
         | BstrP b \<Rightarrow> undef_w
         | ArrayP a \<Rightarrow> (case sa_count a of None \<Rightarrow> undef_w | Some cnt \<Rightarrow> k cnt))
      else k 1)"

definition with_len :: "bool \<Rightarrow> writer \<Rightarrow> writer" where
  "with_len flag m = (\<lambda>len (dst, off0).
     case m len (dst, if flag then off0 + 4 else off0) of
       None \<Rightarrow> None
     | Some (hr, (dst', off)) \<Rightarrow>
         if FAILED hr \<or> \<not> flag then Some (hr, (dst', off))
         else map_option (\<lambda>d. (hr, (d, off))) (store dst' (unat off0) (le_bytes 4 (off - off0 - 4))))"

definition item_w :: "bool \<Rightarrow> variant \<Rightarrow> (u32 \<Rightarrow> writer) \<Rightarrow> writer" where
  "item_w flag v body =
     with_len flag
       (then_w (put 2 (Some (le_bytes 2 (vt v))))
         (item_count_w v (\<lambda>cnt. then_w (put 4 (Some (le_bytes 4 cnt))) (body cnt))))"

fun bcap_vnt2bytary :: "variant \<Rightarrow> u32 \<Rightarrow> writer"
and bcap_vntary2bytary :: "variant list \<Rightarrow> bool \<Rightarrow> nat \<Rightarrow> writer" where
  "bcap_vnt2bytary v = vnt2bytary_body (bcap_vntary2bytary (variants_of v) False) v"
| "bcap_vntary2bytary [] = (\<lambda>flag n. case n of
       0 \<Rightarrow> done_w
     | Suc m \<Rightarrow> (\<lambda>len (dst, off). put 2 None len (dst, if flag then off + 4 else off)))"
| "bcap_vntary2bytary (v # vs) = (\<lambda>flag n. case n of
       0 \<Rightarrow> done_w
     | Suc m \<Rightarrow> then_w (item_w flag v (bcap_vnt2bytary v)) (bcap_vntary2bytary vs flag m))"

declare bcap_vnt2bytary.simps [simp del]

text \<open>\<open>bcap_packet2bytary\<close>: a pointer that is \<open>NULL\<close> is \<open>None\<close>.\<close>

definition put_header :: "bcap_packet \<Rightarrow> u32 \<Rightarrow> byte list \<Rightarrow> byte list option" where
  "put_header p len dst =
     Option.bind (store dst 0 (replicate (unat len) 0)) (\<lambda>d.
     Option.bind (store d 0 [BCAP_HEADER]) (\<lambda>d.
     Option.bind (store d 1 (le_bytes 4 len)) (\<lambda>d.
     Option.bind (store d 5 (le_bytes 2 (serial p))) (\<lambda>d.
     Option.bind (store d 7 (le_bytes 2 (reserv p))) (\<lambda>d.
     Option.bind (store d 9 (le_bytes 4 (func_id p))) (\<lambda>d.
     store d 13 (le_bytes 2 (argc p))))))))"

definition bcap_packet2bytary ::
  "bcap_packet option \<Rightarrow> byte list option \<Rightarrow> u32 \<Rightarrow> (hresult \<times> byte list option) option" where
  "bcap_packet2bytary src dst len =
     (case (src, dst) of
        (Some p, Some d0) \<Rightarrow>
          if len < BCAP_SIZE_MIN then Some (E_INVALIDARG, dst)
          else (case put_header p len d0 of
              None \<Rightarrow> None
            | Some d1 \<Rightarrow> (case bcap_vntary2bytary (arg_list p) True (unat (argc p)) (len - 1) (d1, 15) of
                None \<Rightarrow> None
              | Some (hr, (d2, off)) \<Rightarrow>
                  map_option (\<lambda>d. (hr, Some d)) (store d2 (unat (len - 1)) [BCAP_TERMINATOR])))
      | _ \<Rightarrow> Some (E_INVALIDARG, dst))"

end
