(* ===== verification/BcapWire.thy ===== *)
theory BcapWire
  imports BcapEncode
begin

text \<open>
  The b-CAP wire format as a function of the value (\<open>ser_packet\<close>), independent of buffers,
  offsets and loops, and the proof that the encoder implements it: the size calculation returns
  the length of the format, and \<open>bcap_packet2bytary\<close> fills a buffer of that size with it.

  Every piece of the encoder is shown to \<open>writes\<close> a byte string; the rules for the pieces are
  in the collection \<open>writes_intros\<close>.
\<close>

section \<open>The format\<close>

definition bstr_chars :: "bstr option \<Rightarrow> wchar list" where
  "bstr_chars p = (case p of None \<Rightarrow> [] | Some s \<Rightarrow> butlast s)"

definition ser_bstr :: "bstr option \<Rightarrow> byte list" where
  "ser_bstr p = (let cs = bstr_chars p in
     le_bytes 4 (of_nat (2 * length cs) :: u32) @ concat (map (le_bytes 2) cs))"

definition ser_dates :: "nat \<Rightarrow> byte list \<Rightarrow> byte list" where
  "ser_dates n bs =
     concat (map (\<lambda>i. bcap_vntdate2bytary (le_word (take 8 (drop (i * 8) bs)))) [0..<n])"

definition ser_scalar :: "u16 \<Rightarrow> vunion \<Rightarrow> byte list" where
  "ser_scalar t u =
     (case u of
        Bits w \<Rightarrow>
          if t = VT_DATE then bcap_vntdate2bytary w
          else if t = VT_BSTR then ser_bstr None
          else le_bytes (if t = VT_ERROR then 4 else fixed_size t) w
      | BstrP s \<Rightarrow> ser_bstr (Some s)
      | ArrayP a \<Rightarrow> [])"

definition ser_array :: "byte list \<Rightarrow> safearray \<Rightarrow> byte list" where
  "ser_array rest a =
     (case pvData a of
        None \<Rightarrow> []
      | Some (Bytes bs) \<Rightarrow> if sa_vt a = VT_DATE then ser_dates (unat (cElements a)) bs else bs
      | Some (Bstrs ss) \<Rightarrow> concat (map ser_bstr ss)
      | Some (Variants vs) \<Rightarrow> rest)"

definition ser_body :: "byte list \<Rightarrow> variant \<Rightarrow> byte list" where
  "ser_body rest v =
     (case val v of ArrayP a \<Rightarrow> ser_array rest a | u \<Rightarrow> ser_scalar (vt v) u)"

definition item_count :: "variant \<Rightarrow> u32" where
  "item_count v = (case val v of ArrayP a \<Rightarrow> cElements a | u \<Rightarrow> 1)"

fun ser_item :: "variant \<Rightarrow> byte list" and ser_items :: "variant list \<Rightarrow> byte list" where
  "ser_item v = le_bytes 2 (vt v) @ le_bytes 4 (item_count v) @ ser_body (ser_items (variants_of v)) v"
| "ser_items [] = []"
| "ser_items (v # vs) = ser_item v @ ser_items vs"

declare ser_item.simps [simp del]

definition ser_value :: "variant \<Rightarrow> byte list" where
  "ser_value v = ser_body (ser_items (variants_of v)) v"

lemma ser_item_value: "ser_item v = le_bytes 2 (vt v) @ le_bytes 4 (item_count v) @ ser_value v"
  by (simp add: ser_item.simps ser_value_def)

definition ser_arg :: "variant \<Rightarrow> byte list" where
  "ser_arg v = le_bytes 4 (of_nat (length (ser_item v)) :: u32) @ ser_item v"

definition ser_args :: "variant list \<Rightarrow> byte list" where
  "ser_args vs = concat (map ser_arg vs)"

text \<open>
  The packet: header byte, total length, serial, version, id, number of arguments, arguments,
  the room the transport reserved (two bytes for the CRC of a serial line), terminator.
\<close>

definition ser_packet :: "bcap_packet \<Rightarrow> byte list \<Rightarrow> byte list" where
  "ser_packet p room =
     (let body = ser_args (arg_list p)
      in [BCAP_HEADER] @ le_bytes 4 (of_nat (16 + length body + length room) :: u32) @
         le_bytes 2 (serial p) @ le_bytes 2 (reserv p) @ le_bytes 4 (func_id p) @
         le_bytes 2 (argc p) @ body @ room @ [BCAP_TERMINATOR])"

definition wf_packet :: "bcap_packet \<Rightarrow> bool" where
  "wf_packet p \<longleftrightarrow> wf_variants (arg_list p) \<and> length (arg_list p) = unat (argc p)"

lemma length_ser_packet [simp]:
  "length (ser_packet p room) = 16 + length (ser_args (arg_list p)) + length room"
  by (simp add: ser_packet_def Let_def)

section \<open>Types and their sizes\<close>

lemma fixed_size_not_array: "fixed_size t \<noteq> 0 \<Longrightarrow> \<not> is_array t"
  by (auto simp: fixed_size_def is_array_def split: if_splits)

lemma fixed_size_elem: "fixed_size t \<noteq> 0 \<Longrightarrow> sa_elem_size t = Some (fixed_size t)"
  by (auto simp: fixed_size_def sa_elem_size_def split: if_splits)

lemma elem_type_cases [consumes 1, case_names fixed date bstr variant]:
  assumes "sa_elem_size t = Some sz"
  obtains "fixed_size t = sz" "sz \<noteq> 0" "t \<noteq> VT_DATE" | "t = VT_DATE" "sz = 8"
  | "t = VT_BSTR" "sz = 8" | "t = VT_VARIANT" "sz = 16"
  using assms by (auto simp: sa_elem_size_def fixed_size_def split: if_splits)

lemma fixed_size_simps [simp]:
  "fixed_size VT_DATE = 0" "fixed_size VT_BSTR = 0" "fixed_size VT_VARIANT = 0"
  "fixed_size VT_EMPTY = 0" "fixed_size VT_NULL = 0" "fixed_size VT_ERROR = 0"
  by (simp_all add: fixed_size_def)

lemma length_vntdate [simp]: "length (bcap_vntdate2bytary t) = 8"
  by (simp add: bcap_vntdate2bytary_def)

lemma length_concat_le_bytes [simp]: "length (concat (map (le_bytes n) ws)) = n * length ws"
  by (induction ws) auto

lemma length_ser_dates [simp]: "length (ser_dates n bs) = 8 * n"
  by (simp add: ser_dates_def length_concat comp_def sum_list_triv)

lemma length_ser_bstr [simp]: "length (ser_bstr p) = 4 + 2 * length (bstr_chars p)"
  by (simp add: ser_bstr_def Let_def)

lemma bstr_chars_None [simp]: "bstr_chars None = []"
  by (simp add: bstr_chars_def)

lemma SysStringLen_ptr:
  "wf_bstr_ptr p \<Longrightarrow> SysStringLen p = Some (of_nat (length (bstr_chars p)))"
  by (cases p) (simp_all add: wf_bstr_ptr_def bstr_chars_def SysStringLen_wf SysStringLen_def [of None])

lemma bstr_chars_less: "wf_bstr_ptr p \<Longrightarrow> length (bstr_chars p) \<le> 16382"
  by (cases p) (auto simp: wf_bstr_ptr_def bstr_chars_def wf_bstr_def)

lemma ucast_of_nat_small: "n < 65536 \<Longrightarrow> ucast (of_nat n :: u16) = (of_nat n :: u32)"
  by (simp add: word_eq_iff_unsigned unsigned_of_nat take_bit_nat_eq_self)

lemma sint_unat:
  fixes n :: u32
  assumes "unat n < 2 ^ 31"
  shows "sint n = int (unat n)"
proof -
  obtain k where k: "n = of_nat k" "k < 2 ^ 31"
    using assms by (intro that [of "unat n"]) simp_all
  have "sint (word_of_int (int k) :: u32) = (int k + 2 ^ 31) mod 2 ^ 32 - 2 ^ 31"
    using int_word_sint [of "int k", where ?'a = 32] by simp
  also have "(int k + 2 ^ 31) mod 2 ^ 32 = int k + 2 ^ 31"
    using k by (intro mod_pos_pos_trivial) auto
  finally show ?thesis using k by (simp add: unat_of_nat)
qed

section \<open>The size calculation returns the length of the format\<close>

lemma calc_size_bstrs_ser:
  "list_all wf_bstr_ptr bs \<Longrightarrow>
   calc_size_bstrs bs (length bs) = Some (of_nat (length (concat (map ser_bstr bs))))"
proof (induction bs)
  case (Cons b bs)
  then show ?case
    using bstr_chars_less [of b] by (simp add: SysStringLen_ptr ucast_of_nat_small)
qed simp

lemma calc_size_ser:
  "wf_variant v \<Longrightarrow> bcap_calc_size_variant v = Some (of_nat (length (ser_value v)))"
  "wf_variants vs \<Longrightarrow> calc_size_variants vs (length vs) = Some (of_nat (length (ser_items vs)))"
proof (induction v and vs rule: wf_variant_wf_variants.induct)
  case (1 v)
  note defs = bcap_calc_size_variant.simps calc_size_body_def ser_value_def ser_body_def
    ser_scalar_def ser_array_def Let_def
  have sint: "nat (sint n) = unat n" if "unat n < 2 ^ 31" for n :: u32
    using that by (simp add: sint_unat)
  from 1(2) show ?case
  proof (cases rule: wf_variant_cases)
    case (scalar t w)
    then show ?thesis by (auto simp: defs scalar_type_def copyable_def fixed_size_def)
  next
    case null_bstr
    then show ?thesis by (simp add: defs is_array_def)
  next
    case (bstr s)
    then show ?thesis
      using bstr_chars_less [of "Some s"] SysStringLen_ptr [of "Some s"]
      by (simp add: defs is_array_def ucast_of_nat_small wf_bstr_ptr_def)
  next
    case (empty t lb sz)
    then show ?thesis by (simp add: defs)
  next
    case (bytes t bs n lb sz)
    from bytes(3) show ?thesis
      by (cases rule: elem_type_cases) (use bytes in \<open>simp_all add: defs mult.commute\<close>)
  next
    case (bstrs t ss n lb)
    then show ?thesis
      using calc_size_bstrs_ser [of ss] by (simp add: defs sint)
  next
    case (variants t vs n lb)
    then show ?thesis using 1 by (simp add: defs sint)
  qed
next
  case (3 v vs)
  then show ?case by (simp add: ser_item_value)
qed simp

lemma calc_size_args_ser:
  "wf_variants vs \<Longrightarrow>
   calc_size_args vs (length vs) r = Some (r + of_nat (length (ser_args vs)))"
proof (induction vs arbitrary: r)
  case (Cons v vs)
  then show ?case
    by (simp add: calc_size_ser ser_args_def ser_arg_def ser_item_value)
qed (simp add: ser_args_def)

section \<open>The encoder writes the format\<close>

text \<open>
  \<open>writes m bs\<close>: with room for \<open>bs\<close> at the offset, the piece \<open>m\<close> succeeds, puts \<open>bs\<close> there,
  leaves the rest of the buffer alone and moves the offset behind it.
\<close>

definition writes :: "writer \<Rightarrow> byte list \<Rightarrow> bool" where
  "writes m bs \<longleftrightarrow>
     (\<forall>len pre old post. length old = length bs \<longrightarrow> length pre + length bs \<le> unat len \<longrightarrow>
        m len (pre @ old @ post, of_nat (length pre)) =
        Some (S_OK, (pre @ bs @ post, of_nat (length pre + length bs))))"

named_theorems writes_intros

lemma writesI:
  assumes "\<And>len pre old post. length old = length bs \<Longrightarrow> length pre + length bs \<le> unat len \<Longrightarrow>
    m len (pre @ old @ post, of_nat (length pre)) =
    Some (S_OK, (pre @ bs @ post, of_nat (length pre + length bs)))"
  shows "writes m bs"
  using assms by (simp add: writes_def)

lemma writesD:
  "writes m bs \<Longrightarrow> length old = length bs \<Longrightarrow> length pre + length bs \<le> unat len \<Longrightarrow>
   m len (pre @ old @ post, of_nat (length pre)) =
   Some (S_OK, (pre @ bs @ post, of_nat (length pre + length bs)))"
  by (simp add: writes_def)

lemma unat_of_nat_le: "n \<le> unat (len :: u32) \<Longrightarrow> unat (of_nat n :: u32) = n"
  using unsigned_less [where ?'a = nat, of len] by (simp add: unat_of_nat)

lemma writes_done [writes_intros]: "writes done_w []"
  by (rule writesI) (simp add: done_w_def)

lemma writes_put:
  assumes "unat sz = length bs"
  shows "writes (put sz (Some bs)) bs"
proof (rule writesI)
  fix len :: u32 and pre old post :: "byte list"
  assume old: "length old = length bs" and room: "length pre + length bs \<le> unat len"
  have sz: "sz = of_nat (length bs)" by (simp flip: assms)
  then have off: "of_nat (length pre) + sz = (of_nat (length pre + length bs) :: u32)" by simp
  have "\<not> len < of_nat (length pre + length bs)"
    using room by (simp add: word_less_nat_alt unat_of_nat_le del: of_nat_add)
  moreover have "unat (of_nat (length pre) :: u32) = length pre"
    using room by (intro unat_of_nat_le [of _ len]) simp
  ultimately show "put sz (Some bs) len (pre @ old @ post, of_nat (length pre)) =
      Some (S_OK, (pre @ bs @ post, of_nat (length pre + length bs)))"
    using old by (simp add: put_def off store_at del: of_nat_add)
qed

lemma writes_put_le [writes_intros]: "n < 2 ^ 32 \<Longrightarrow> writes (put (of_nat n) (Some (le_bytes n w))) (le_bytes n w)"
  by (rule writes_put) (simp add: unat_of_nat)

lemma writes_put_2 [writes_intros]: "writes (put 2 (Some (le_bytes 2 w))) (le_bytes 2 w)"
  and writes_put_4 [writes_intros]: "writes (put 4 (Some (le_bytes 4 w))) (le_bytes 4 w)"
  by (simp_all add: writes_put)

lemma writes_then [writes_intros]:
  assumes "writes m1 b1" and "writes m2 b2"
  shows "writes (then_w m1 m2) (b1 @ b2)"
proof (rule writesI)
  fix len :: u32 and pre old post :: "byte list"
  assume old: "length old = length (b1 @ b2)" and room: "length pre + length (b1 @ b2) \<le> unat len"
  let ?o1 = "take (length b1) old" and ?o2 = "drop (length b1) old"
  have "m1 len (pre @ ?o1 @ ?o2 @ post, of_nat (length pre)) =
      Some (S_OK, (pre @ b1 @ ?o2 @ post, of_nat (length pre + length b1)))"
    using writesD [OF assms(1), of ?o1 pre len "?o2 @ post"] old room by simp
  moreover have "m2 len ((pre @ b1) @ ?o2 @ post, of_nat (length (pre @ b1))) =
      Some (S_OK, ((pre @ b1) @ b2 @ post, of_nat (length (pre @ b1) + length b2)))"
    using old room by (intro writesD [OF assms(2)]) auto
  ultimately show "then_w m1 m2 len (pre @ old @ post, of_nat (length pre)) =
      Some (S_OK, (pre @ (b1 @ b2) @ post, of_nat (length pre + length (b1 @ b2))))"
    by (simp add: then_w_def add.assoc flip: append_assoc [of ?o1])
qed

lemma writes_for:
  assumes "\<And>j. i \<le> j \<Longrightarrow> j < i + n \<Longrightarrow> writes (m j) (f j)"
  shows "writes (for_w n i m) (concat (map f [i..<i + n]))"
  using assms
proof (induction n arbitrary: i)
  case 0
  then show ?case by (simp add: writes_done)
next
  case (Suc n)
  have "writes (m i) (f i)" using Suc.prems by simp
  moreover have "writes (for_w n (Suc i) m) (concat (map f [Suc i..<Suc i + n]))"
    using Suc.prems by (intro Suc.IH) auto
  ultimately have "writes (for_w (Suc n) i m) (f i @ concat (map f [Suc i..<Suc i + n]))"
    by (simp add: writes_then)
  then show ?case by (simp add: upt_conv_Cons del: upt_Suc)
qed

lemma writes_for0:
  "(\<And>j. j < n \<Longrightarrow> writes (m j) (f j)) \<Longrightarrow> writes (for_w n 0 m) (concat (map f [0..<n]))"
  using writes_for [of 0 n m f] by simp

lemma writes_for_list:
  assumes "\<And>j. j < length xs \<Longrightarrow> writes (m j) (g (xs ! j))"
  shows "writes (for_w (length xs) 0 m) (concat (map g xs))"
proof -
  have "map g xs = map (\<lambda>j. g (xs ! j)) [0..<length xs]"
    by (rule nth_equalityI) auto
  then show ?thesis using writes_for0 [of "length xs" m "\<lambda>j. g (xs ! j)"] assms by simp
qed

lemma concat_chunks:
  "length bs = n * k \<Longrightarrow> concat (map (\<lambda>i. take k (drop (i * k) bs)) [0..<n]) = bs"
proof (induction n arbitrary: bs)
  case (Suc n)
  have "[0..<Suc n] = 0 # map Suc [0..<n]" by (simp add: map_Suc_upt upt_conv_Cons del: upt_Suc)
  then show ?case
    using Suc.IH [of "drop k bs"] Suc.prems
    by (simp add: comp_def drop_drop add.commute del: upt_Suc)
qed simp

lemma writes_put_bstr:
  assumes "wf_bstr_ptr p"
  shows "writes (put_bstr (Some p)) (ser_bstr p)"
proof -
  let ?cs = "bstr_chars p"
  have len: "length ?cs \<le> 16382" using bstr_chars_less [OF assms] .
  have l: "SysStringLen p = Some (of_nat (length ?cs))" using SysStringLen_ptr [OF assms] .
  have dbl: "2 * ucast (of_nat (length ?cs) :: u16) = (of_nat (2 * length ?cs) :: u32)"
    using len by (simp add: ucast_of_nat_small)
  show ?thesis
  proof (cases p)
    case None
    then show ?thesis
      using writes_then [OF writes_put_4 writes_done]
      by (simp add: put_bstr_def ser_bstr_def Let_def SysStringLen_def)
  next
    case (Some s)
    have "writes (for_w (length ?cs) 0 (\<lambda>j. put 2 (if j < length s then Some (le_bytes 2 (s ! j)) else None)))
        (concat (map (le_bytes 2) ?cs))"
      using Some by (intro writes_for_list) (auto simp: bstr_chars_def nth_butlast writes_put)
    from writes_then [OF writes_put_4 this, of "of_nat (2 * length ?cs)"] Some len show ?thesis
      using l dbl by (simp add: put_bstr_def ser_bstr_def Let_def unat_of_nat)
  qed
qed

lemma writes_array:
  assumes "wf_variant (Variant t (ArrayP a))" and "is_array t"
    and "sa_vt a = VT_VARIANT \<Longrightarrow>
         writes (rest (unat (cElements a))) (if pvData a = None then [] else body)"
  shows "writes (vnt2bytary_array rest (t XOR VT_ARRAY) a (cElements a)) (ser_array body a)"
  using assms(1)
proof (cases rule: wf_variant_cases)
  case (empty t' lb sz)
  then have a: "a = SafeArray 1 (t XOR VT_ARRAY) 0 None 0 lb"
    and sz: "sa_elem_size (t XOR VT_ARRAY) = Some sz" by auto
  from sz show ?thesis
    by (cases rule: elem_type_cases)
       (use a assms(3) writes_put [of 0 "[]"] in
         \<open>auto simp: vnt2bytary_array_def ser_array_def Let_def writes_done elem_bytes_def\<close>)
next
  case (bytes t' bs n lb sz)
  then have a: "a = SafeArray 1 (t XOR VT_ARRAY) (of_nat sz) (Some (Bytes bs)) n lb" by auto
  have len: "length bs = unat n * sz" and lt: "unat n * sz < 2 ^ 31" using bytes by auto
  have sz: "sa_elem_size (t XOR VT_ARRAY) = Some sz" using bytes by auto
  have ld: "load bs (i * sz) sz = Some (take sz (drop (i * sz) bs))" if "i < unat n" for i
    using that mult_le_mono1 [of "Suc i" "unat n" sz] by (simp add: load_def len)
  have chunk: "length (take sz (drop (i * sz) bs)) = sz" if "i < unat n" for i
    using that mult_le_mono1 [of "Suc i" "unat n" sz] by (simp add: len)
  from sz show ?thesis
  proof (cases rule: elem_type_cases)
    case fixed
    have pos: "unat (of_nat i * of_nat sz :: u32) = i * sz" if "i < unat n" for i
    proof -
      have "i * sz \<le> unat n * sz" using that by simp
      then have "i * sz < 2 ^ 31" using lt by (rule le_less_trans)
      then have "i * sz < 2 ^ 32" by simp
      then show ?thesis by (simp add: unat_of_nat flip: of_nat_mult)
    qed
    show ?thesis
    proof (cases "t XOR VT_ARRAY = VT_UI1")
      case True
      then have "sz = 1" using fixed by (simp add: fixed_size_def)
      then show ?thesis
        using True a len writes_put [of n bs]
        by (simp add: vnt2bytary_array_def ser_array_def Let_def elem_bytes_def load_def)
    next
      case False
      have small: "sz < 2 ^ 32" using sa_elem_size_pos [OF sz] by simp
      have "writes (for_w (unat n) 0
          (\<lambda>i. put (of_nat sz) (elem_bytes (Some (Bytes bs)) (unat (of_nat i * of_nat sz :: u32)) sz)))
          (concat (map (\<lambda>i. take sz (drop (i * sz) bs)) [0..<unat n]))"
        using small ld pos by (intro writes_for0) (auto simp: elem_bytes_def unat_of_nat chunk simp del: length_take length_drop intro!: writes_put)
      then show ?thesis
        using False fixed a len by (simp add: vnt2bytary_array_def ser_array_def Let_def concat_chunks)
    qed
  next
    case date
    have "writes (for_w (unat n) 0 (\<lambda>i. put 8 (map_option (\<lambda>bs. bcap_vntdate2bytary (le_word bs))
        (elem_bytes (Some (Bytes bs)) (i * 8) 8)))) (ser_dates (unat n) bs)"
      unfolding ser_dates_def using ld date
      by (intro writes_for0) (auto simp: elem_bytes_def intro!: writes_put)
    then show ?thesis
      using date a by (simp add: vnt2bytary_array_def ser_array_def Let_def)
  qed (use bytes in auto)
next
  case (bstrs t' ss n lb)
  then have a: "a = SafeArray 1 VT_BSTR 8 (Some (Bstrs ss)) n lb" "t XOR VT_ARRAY = VT_BSTR" by auto
  have "writes (for_w (length ss) 0 (\<lambda>i. put_bstr (elem_bstr (Some (Bstrs ss)) i))) (concat (map ser_bstr ss))"
    using bstrs by (intro writes_for_list) (auto simp: elem_bstr_def list_all_length intro: writes_put_bstr)
  then show ?thesis
    using a bstrs by (simp add: vnt2bytary_array_def ser_array_def Let_def)
next
  case (variants t' vs n lb)
  then show ?thesis
    using assms(3) by (auto simp: vnt2bytary_array_def ser_array_def Let_def)
qed (use assms(2) in \<open>auto simp: is_array_def\<close>)

lemma writes_scalar:
  assumes "wf_variant v" and "\<not> is_array (vt v)"
  shows "writes (vnt2bytary_scalar (vt v) (val v)) (ser_value v)"
  using assms(1)
proof (cases rule: wf_variant_cases)
  case (scalar t w)
  have "fixed_size t \<le> 8" by (simp add: fixed_size_def)
  with scalar show ?thesis
    using writes_put_le [of "fixed_size t" w] writes_put_le [of 4 w]
    by (auto simp: vnt2bytary_scalar_def ser_value_def ser_body_def ser_scalar_def Let_def
        union_bits_def scalar_type_def writes_done intro!: writes_put)
next
  case null_bstr
  then show ?thesis
    using writes_put_bstr [of None]
    by (simp add: vnt2bytary_scalar_def ser_value_def ser_body_def ser_scalar_def Let_def
        bstr_ptr_def wf_bstr_ptr_def)
next
  case (bstr s)
  then show ?thesis
    using writes_put_bstr [of "Some s"]
    by (simp add: vnt2bytary_scalar_def ser_value_def ser_body_def ser_scalar_def Let_def
        bstr_ptr_def wf_bstr_ptr_def)
qed (use assms(2) in auto)

lemma with_len_False [simp]: "with_len False m = m"
  by (rule ext)+ (auto simp: with_len_def split: option.splits)

lemma writes_with_len [writes_intros]:
  assumes "writes m bs"
  shows "writes (with_len True m) (le_bytes 4 (of_nat (length bs) :: u32) @ bs)"
proof (rule writesI)
  let ?n = "length bs" let ?h = "le_bytes 4 (of_nat (length bs) :: u32)"
  fix len :: u32 and pre old post :: "byte list"
  assume old: "length old = length (?h @ bs)" and room: "length pre + length (?h @ bs) \<le> unat len"
  have split: "(pre @ take 4 old) @ drop 4 old @ post = pre @ old @ post"
    by (metis append_assoc append_take_drop_id)
  have "m len ((pre @ take 4 old) @ drop 4 old @ post, of_nat (length (pre @ take 4 old))) =
      Some (S_OK, ((pre @ take 4 old) @ bs @ post, of_nat (length (pre @ take 4 old) + ?n)))"
    using old room by (intro writesD [OF assms]) auto
  then have m: "m len (pre @ old @ post, of_nat (length pre) + 4) =
      Some (S_OK, (pre @ take 4 old @ bs @ post, of_nat (length pre) + 4 + of_nat ?n))"
    unfolding split using old by simp
  have off: "unat (of_nat (length pre) :: u32) = length pre"
    using room by (intro unat_of_nat_le [of _ len]) simp
  have "store (pre @ take 4 old @ bs @ post) (length pre) ?h = Some (pre @ ?h @ bs @ post)"
    using old by (intro store_at) auto
  then show "with_len True m len (pre @ old @ post, of_nat (length pre)) =
      Some (S_OK, (pre @ (?h @ bs) @ post, of_nat (length pre + length (?h @ bs))))"
    using m off by (simp add: with_len_def)
qed

lemma writes_item:
  assumes "wf_variant v" and "writes (bcap_vnt2bytary v (item_count v)) (ser_value v)"
  shows "writes (item_w flag v (bcap_vnt2bytary v)) (if flag then ser_arg v else ser_item v)"
proof -
  have c: "item_count_w v k = k (item_count v)" for k
    using assms(1) by (cases rule: wf_variant_cases) (auto simp: item_count_w_def item_count_def is_array_def)
  have "writes (then_w (put 2 (Some (le_bytes 2 (vt v))))
      (then_w (put 4 (Some (le_bytes 4 (item_count v)))) (bcap_vnt2bytary v (item_count v)))) (ser_item v)"
    unfolding ser_item_value by (intro writes_intros assms(2))
  then show ?thesis
    using writes_with_len by (cases flag) (simp_all add: item_w_def c ser_arg_def)
qed

lemma writes_encoder:
  "wf_variant v \<Longrightarrow> writes (bcap_vnt2bytary v (item_count v)) (ser_value v)"
  "wf_variants vs \<Longrightarrow> writes (bcap_vntary2bytary vs False (length vs)) (ser_items vs) \<and>
                     writes (bcap_vntary2bytary vs True (length vs)) (ser_args vs)"
proof (induction v and vs rule: wf_variant_wf_variants.induct)
  case (1 v)
  show ?case
  proof (cases "is_array (vt v)")
    case False
    then show ?thesis
      using 1 by (simp add: bcap_vnt2bytary.simps vnt2bytary_body_def writes_scalar)
  next
    case True
    obtain t a where v: "v = Variant t (ArrayP a)"
      using 1(2) True by (cases rule: wf_variant_cases) (auto simp: is_array_def)
    have rest: "writes (bcap_vntary2bytary (variants_of v) False (unat (cElements a)))
        (if pvData a = None then [] else ser_items (variants_of v))" if "sa_vt a = VT_VARIANT"
      using 1(2)
    proof (cases rule: wf_variant_cases)
      case (variants t' vs n lb)
      then show ?thesis using 1 v by auto
    next
      case empty
      then show ?thesis using v by (auto simp: writes_done)
    qed (use v that in auto)
    with writes_array [of t a "bcap_vntary2bytary (variants_of v) False" "ser_items (variants_of v)"]
      1(2) True v show ?thesis
      by (simp add: bcap_vnt2bytary.simps vnt2bytary_body_def ser_value_def ser_body_def item_count_def)
  qed
next
  case 2
  then show ?case by (simp add: writes_done ser_args_def)
next
  case (3 v vs)
  then show ?case
    using writes_item [of v False] writes_item [of v True]
    by (auto simp: ser_args_def intro: writes_then)
qed

section \<open>Packets\<close>

lemma unat_minus_1: "0 < unat (w :: u32) \<Longrightarrow> unat (w - 1) = unat w - 1"
  by (simp add: unat_sub_if' word_le_nat_alt)

lemma put_header_ser:
  assumes "length dst = unat len" and "16 \<le> unat len"
  shows "put_header p len dst =
    Some ([BCAP_HEADER] @ le_bytes 4 len @ le_bytes 2 (serial p) @ le_bytes 2 (reserv p) @
          le_bytes 4 (func_id p) @ le_bytes 2 (argc p) @ replicate (unat len - 15) 0)"
  using assms by (simp add: put_header_def store_def drop_Cons') arith

lemma calc_size_packet:
  assumes "wf_packet p"
  shows "bcap_calc_size_packet (Some p) = Some (of_nat (length (ser_packet p [])))"
  using assms calc_size_args_ser [of "arg_list p" BCAP_SIZE_MIN]
  by (simp add: bcap_calc_size_packet_def wf_packet_def)

text \<open>
  For a packet of well-formed variants, \<open>bcap_calc_size_packet\<close> returns the length of the
  packet on the wire.
\<close>

theorem bcap_calc_size_packet_ser:
  assumes "wf_packet p"
  shows "bcap_calc_size_packet (Some p) = Some (of_nat (length (ser_packet p [])))"
  using assms by (rule calc_size_packet)

definition sample_packet :: bcap_packet where
  "sample_packet = \<lparr>serial = 7, reserv = 0, func_id = 3, argc = 1, args = Some [sample_variant]\<rparr>"

lemma wf_sample_packet: "wf_packet sample_packet"
  by (simp add: wf_packet_def sample_packet_def arg_list_def wf_sample_variant)

lemma bcap_calc_size_packet_ser_witness:
  "bcap_calc_size_packet (Some sample_packet) = Some (of_nat (length (ser_packet sample_packet [])))"
  by (rule bcap_calc_size_packet_ser [OF wf_sample_packet])

lemma encode_packet:
  assumes "wf_packet p" and "16 + length (ser_args (arg_list p)) + k < 2 ^ 32"
    and "length dst = 16 + length (ser_args (arg_list p)) + k"
  shows "bcap_packet2bytary (Some p) (Some dst) (of_nat (length dst)) =
         Some (S_OK, Some (ser_packet p (replicate k 0)))"
proof -
  define len where "len = (of_nat (length dst) :: u32)"
  let ?body = "ser_args (arg_list p)"
  let ?pre = "[BCAP_HEADER] @ le_bytes 4 len @ le_bytes 2 (serial p) @ le_bytes 2 (reserv p) @
          le_bytes 4 (func_id p) @ le_bytes 2 (argc p)"
  have "length dst < 2 ^ 32" using assms(2,3) by simp
  then have len: "unat len = length dst" by (simp add: len_def unat_of_nat)
  have len1: "unat (len - 1) = length dst - 1"
    using unat_minus_1 [of len] len assms(3) by linarith
  have pre: "length ?pre = 15" by simp
  have w: "writes (bcap_vntary2bytary (arg_list p) True (unat (argc p))) ?body"
    using writes_encoder(2) [of "arg_list p"] assms(1) by (simp add: wf_packet_def)
  have "unat len - 15 = length ?body + Suc k" using len assms(3) by linarith
  then have split: "replicate (unat len - 15) (0 :: byte) = replicate (length ?body) 0 @ replicate (Suc k) 0"
    by (simp only: replicate_add)
  have "bcap_vntary2bytary (arg_list p) True (unat (argc p)) (len - 1)
      (?pre @ replicate (length ?body) 0 @ replicate (Suc k) 0, of_nat (length ?pre)) =
      Some (S_OK, (?pre @ ?body @ replicate (Suc k) 0, of_nat (length ?pre + length ?body)))"
    using len1 assms(3) pre by (intro writesD [OF w]) auto
  moreover have "store (?pre @ ?body @ replicate (Suc k) 0) (length dst - 1) [BCAP_TERMINATOR] =
      Some (?pre @ ?body @ replicate k 0 @ [BCAP_TERMINATOR])"
    using assms(3) store_at [of "?pre @ ?body @ replicate k 0" "length dst - 1" "[0]" "[BCAP_TERMINATOR]" "[]"]
    by (simp add: replicate_append_same [symmetric])
  moreover have "\<not> len < BCAP_SIZE_MIN"
    using len assms(3) by (simp add: word_less_nat_alt)
  moreover have "put_header p len dst = Some (?pre @ replicate (length ?body) 0 @ replicate (Suc k) 0)"
    using put_header_ser [of dst len p] len assms(3) unfolding split by simp
  ultimately show ?thesis
    using assms(3) unfolding len_def [symmetric]
    by (simp add: bcap_packet2bytary_def len1) (simp add: ser_packet_def Let_def len_def)
qed

text \<open>
  C2: given a buffer of the size of the packet and \<open>k\<close> more bytes, \<open>bcap_packet2bytary\<close>
  succeeds and fills the whole buffer with the packet in the wire format, \<open>k\<close> zero bytes before
  its terminator; no access leaves the buffer or the variants.
\<close>

theorem bcap_packet2bytary_ser:
  assumes "wf_packet p" and "16 + length (ser_args (arg_list p)) + k < 2 ^ 32"
    and "length dst = 16 + length (ser_args (arg_list p)) + k"
  shows "bcap_packet2bytary (Some p) (Some dst) (of_nat (length dst)) =
         Some (S_OK, Some (ser_packet p (replicate k 0)))"
  using assms by (rule encode_packet)

lemma bcap_packet2bytary_ser_witness:
  "bcap_packet2bytary (Some sample_packet) (Some (replicate 64 7)) (of_nat (length (replicate 64 (7 :: byte)))) =
   Some (S_OK, Some (ser_packet sample_packet (replicate 14 0)))"
proof -
  have "length (ser_args (arg_list sample_packet)) = 34" by code_simp
  then show ?thesis
    by (intro bcap_packet2bytary_ser [OF wf_sample_packet]) simp_all
qed

end
