(* ===== verification/BcapDecode.thy ===== *)
theory BcapDecode
  imports BcapEncode
begin

text \<open>
  The b-CAP decoder of \<open>bcap_core/src/bcap_common.c\<close>: \<open>bcap_bytary2vntdate\<close>,
  \<open>bcap_bytary2vnt\<close>, \<open>bcap_bytary2vntary\<close> and \<open>bcap_bytary2packet\<close>.

  \<^item> Every function returns its code, the destination as it is left (on a failure too: the
    caller frees it) and the offset.
  \<^item> The object a \<open>malloc\<close> returns has indeterminate contents: they are the argument \<open>junk\<close>.
  \<^item> \<open>bcap_bytary2vnt\<close> and \<open>bcap_bytary2vntary\<close> call each other; the recursion is bounded by
    the depth of the stack, an argument of the definitions, and the top-level call has a depth
    of the length of the buffer, of which every level consumes six bytes.
\<close>

section \<open>Dates\<close>

text \<open>The value stored in the destination; the inner \<open>None\<close> leaves the destination alone.\<close>

definition bcap_bytary2vntdate :: "byte list \<Rightarrow> u64 option option" where
  "bcap_bytary2vntdate src =
     (let dbl = fp_decode (le_word src) in
      if fp_positive dbl
      then map_option Some (fp_to_i64 (fp_mul (fp_sub dbl (fp_of_int 25569)) (fp_of_int 86400)))
      else Some None)"

section \<open>Reading\<close>

text \<open>
  \<open>if (*offset + size > len_src) return ...;\<close> and the read: the outer option is the
  definedness, the inner one whether the check passed.
\<close>

definition get :: "byte list \<Rightarrow> u32 \<Rightarrow> u32 \<Rightarrow> u32 \<Rightarrow> (byte list \<times> u32) option option" where
  "get src len off sz =
     (if len < off + sz then Some None
      else map_option (\<lambda>bs. Some (bs, off + sz)) (load src (unat off) (unat sz)))"

text \<open>The bytes written at the start of the union.\<close>

definition overlay :: "u64 \<Rightarrow> byte list \<Rightarrow> u64" where
  "overlay w bs = le_word (bs @ drop (length bs) (le_bytes 8 w))"

text \<open>The loops over the elements of an array, from element \<open>i\<close> on.\<close>

fun dec_elems :: "byte list \<Rightarrow> u32 \<Rightarrow> nat \<Rightarrow> nat \<Rightarrow> nat \<Rightarrow> byte list \<Rightarrow> u32 \<Rightarrow>
    (hresult \<times> byte list \<times> u32) option" where
  "dec_elems src len sz i 0 mem off = Some (S_OK, mem, off)"
| "dec_elems src len sz i (Suc n) mem off =
     (case get src len off (of_nat sz) of
        None \<Rightarrow> None
      | Some None \<Rightarrow> Some (E_INVALIDPACKET, mem, off)
      | Some (Some (bs, off')) \<Rightarrow>
          (case store mem (unat (of_nat i * of_nat sz :: u32)) bs of
             None \<Rightarrow> None
           | Some mem' \<Rightarrow> dec_elems src len sz (Suc i) n mem' off'))"

fun dec_dates :: "byte list \<Rightarrow> u32 \<Rightarrow> nat \<Rightarrow> nat \<Rightarrow> byte list \<Rightarrow> u32 \<Rightarrow>
    (hresult \<times> byte list \<times> u32) option" where
  "dec_dates src len i 0 mem off = Some (S_OK, mem, off)"
| "dec_dates src len i (Suc n) mem off =
     (case get src len off 8 of
        None \<Rightarrow> None
      | Some None \<Rightarrow> Some (E_INVALIDPACKET, mem, off)
      | Some (Some (bs, off')) \<Rightarrow>
          (case bcap_bytary2vntdate bs of
             None \<Rightarrow> None
           | Some None \<Rightarrow> dec_dates src len (Suc i) n mem off'
           | Some (Some d) \<Rightarrow> (case store mem (i * 8) (le_bytes 8 d) of
               None \<Rightarrow> None
             | Some mem' \<Rightarrow> dec_dates src len (Suc i) n mem' off')))"

text \<open>The characters: the two low bytes of a zeroed \<open>wchar_t\<close>.\<close>

fun dec_chars :: "byte list \<Rightarrow> u32 \<Rightarrow> nat \<Rightarrow> nat \<Rightarrow> bstr \<Rightarrow> u32 \<Rightarrow> (hresult \<times> bstr \<times> u32) option" where
  "dec_chars src len j 0 s off = Some (S_OK, s, off)"
| "dec_chars src len j (Suc n) s off =
     (case get src len off 2 of
        None \<Rightarrow> None
      | Some None \<Rightarrow> Some (E_INVALIDPACKET, s, off)
      | Some (Some (bs, off')) \<Rightarrow>
          if length s \<le> j then None
          else dec_chars src len (Suc j) n
                 (s[j := push_bit 16 (drop_bit 16 (s ! j)) OR le_word bs]) off')"

text \<open>A string; \<open>SysAllocStringLen\<close> is called with the length cut to 16 bits.\<close>

definition dec_bstr :: "(nat \<Rightarrow> bool) \<Rightarrow> byte list \<Rightarrow> u32 \<Rightarrow> bstr option \<Rightarrow> u32 \<Rightarrow>
    (hresult \<times> bstr option \<times> u32) option" where
  "dec_bstr mok src len old off =
     (case get src len off 4 of
        None \<Rightarrow> None
      | Some None \<Rightarrow> Some (E_INVALIDPACKET, old, off)
      | Some (Some (bs, off')) \<Rightarrow>
          let len_bstr = (le_word bs :: u32) div 2 in
          (case SysAllocStringLen mok (Some [0]) (ucast len_bstr) of
             None \<Rightarrow> None
           | Some None \<Rightarrow> Some (E_OUTOFMEMORY, None, off')
           | Some (Some s) \<Rightarrow>
               map_option (\<lambda>(hr, s', off''). (hr, Some s', off''))
                 (dec_chars src len 0 (unat len_bstr) s off')))"

fun dec_bstrs :: "(nat \<Rightarrow> bool) \<Rightarrow> byte list \<Rightarrow> u32 \<Rightarrow> nat \<Rightarrow> bstr option list \<Rightarrow> u32 \<Rightarrow>
    (hresult \<times> bstr option list \<times> u32) option" where
  "dec_bstrs mok src len 0 bs off = Some (S_OK, bs, off)"
| "dec_bstrs mok src len (Suc n) [] off =
     (if get src len off 4 = Some None then Some (E_INVALIDPACKET, [], off) else None)"
| "dec_bstrs mok src len (Suc n) (b # bs) off =
     (case dec_bstr mok src len b off of
        None \<Rightarrow> None
      | Some (hr, b', off') \<Rightarrow>
          if FAILED hr then Some (hr, b' # bs, off')
          else map_option (\<lambda>(hr', bs', off''). (hr', b' # bs', off''))
                 (dec_bstrs mok src len n bs off'))"

section \<open>Variants\<close>

type_synonym items_dec = "variant list \<Rightarrow> nat \<Rightarrow> u32 \<Rightarrow> (hresult \<times> variant list \<times> u32) option"

text \<open>
  The array branch fills the data of the array \<open>a\<close> that was just allocated; without elements
  there is no data and nothing to read.
\<close>

definition bytary2vnt_data :: "(nat \<Rightarrow> bool) \<Rightarrow> items_dec \<Rightarrow> byte list \<Rightarrow> u32 \<Rightarrow> u16 \<Rightarrow> u32 \<Rightarrow> sa_data \<Rightarrow> u32 \<Rightarrow>
    (hresult \<times> sa_data \<times> u32) option" where
  "bytary2vnt_data mok rest src len et n d off =
     (case d of
        Bytes mem \<Rightarrow>
          if et = VT_UI1 then
            (case get src len off n of
               None \<Rightarrow> None
             | Some None \<Rightarrow> Some (E_INVALIDARG, d, off)
             | Some (Some (bs, off')) \<Rightarrow> map_option (\<lambda>m. (S_OK, Bytes m, off')) (store mem 0 bs))
          else map_option (\<lambda>(hr, m, off'). (hr, Bytes m, off'))
            (if et = VT_DATE then dec_dates src len 0 (unat n) mem off
             else dec_elems src len (fixed_size et) 0 (unat n) mem off)
      | Bstrs bs \<Rightarrow> map_option (\<lambda>(hr, b, off'). (hr, Bstrs b, off')) (dec_bstrs mok src len (unat n) bs off)
      | Variants vs \<Rightarrow> map_option (\<lambda>(hr, v, off'). (hr, Variants v, off')) (rest vs (unat n) off))"

definition bytary2vnt_array :: "(nat \<Rightarrow> bool) \<Rightarrow> items_dec \<Rightarrow> byte list \<Rightarrow> u32 \<Rightarrow> u16 \<Rightarrow> vunion \<Rightarrow> u32 \<Rightarrow> u32 \<Rightarrow>
    (hresult \<times> variant \<times> u32) option" where
  "bytary2vnt_array mok rest src len t u n off =
     (let et = t XOR VT_ARRAY in
      case SafeArrayCreateVector mok et 1 n of
        None \<Rightarrow> Some (E_OUTOFMEMORY, Variant t NULLP, off)
      | Some a \<Rightarrow> (case pvData a of
          None \<Rightarrow>
            if et = VT_UI1 \<and> len < off then Some (E_INVALIDARG, Variant t (ArrayP a), off)
            else Some (S_OK, Variant t (ArrayP a), off)
        | Some d \<Rightarrow>
            map_option (\<lambda>(hr, d', off'). (hr, Variant t (ArrayP (set_pvData (Some d') a)), off'))
              (bytary2vnt_data mok rest src len et n d off)))"

definition bytary2vnt_scalar :: "(nat \<Rightarrow> bool) \<Rightarrow> byte list \<Rightarrow> u32 \<Rightarrow> u16 \<Rightarrow> u64 \<Rightarrow> u32 \<Rightarrow>
    (hresult \<times> variant \<times> u32) option" where
  "bytary2vnt_scalar mok src len t w off =
     (let sz = (if t = VT_ERROR then 4 else fixed_size t);
          failed = Some (E_INVALIDPACKET, Variant t (Bits w), off) in
      if sz \<noteq> 0 then
        (case get src len off (of_nat sz) of
           None \<Rightarrow> None
         | Some None \<Rightarrow> failed
         | Some (Some (bs, off')) \<Rightarrow> Some (S_OK, Variant t (Bits (overlay w bs)), off'))
      else if t = VT_DATE then
        (case get src len off 8 of
           None \<Rightarrow> None
         | Some None \<Rightarrow> failed
         | Some (Some (bs, off')) \<Rightarrow>
             map_option (\<lambda>d. (S_OK, Variant t (Bits (case d of None \<Rightarrow> w | Some x \<Rightarrow> x)), off'))
               (bcap_bytary2vntdate bs))
      else if t = VT_BSTR then
        map_option (\<lambda>(hr, b, off'). (hr, Variant t (case b of None \<Rightarrow> NULLP | Some s \<Rightarrow> BstrP s), off'))
          (dec_bstr mok src len None off)
      else Some (S_OK, Variant t (Bits w), off))"

text \<open>\<open>dst\<close> was cleared by \<open>VariantInit\<close>, only its type is set.\<close>

definition bcap_bytary2vnt :: "(nat \<Rightarrow> bool) \<Rightarrow> items_dec \<Rightarrow> byte list \<Rightarrow> u32 \<Rightarrow> variant \<Rightarrow> u32 \<Rightarrow> u32 \<Rightarrow>
    (hresult \<times> variant \<times> u32) option" where
  "bcap_bytary2vnt mok rest src len dst n off =
     (if is_array (vt dst) then bytary2vnt_array mok rest src len (vt dst) (val dst) n off
      else (case val dst of
              Bits w \<Rightarrow> bytary2vnt_scalar mok src len (vt dst) w off
            | _ \<Rightarrow> None))"

definition dec_item :: "(nat \<Rightarrow> bool) \<Rightarrow> items_dec \<Rightarrow> byte list \<Rightarrow> u32 \<Rightarrow> bool \<Rightarrow> variant \<Rightarrow> u32 \<Rightarrow>
    (hresult \<times> variant \<times> u32) option" where
  "dec_item mok rest src len flag v off0 =
     (let v0 = VariantInit v; off = (if flag then off0 + 4 else off0) in
      case get src len off 2 of
        None \<Rightarrow> None
      | Some None \<Rightarrow> Some (E_INVALIDPACKET, v0, off)
      | Some (Some (tb, off1)) \<Rightarrow>
          let v1 = Variant (le_word tb) (val v0) in
          (case get src len off1 4 of
             None \<Rightarrow> None
           | Some None \<Rightarrow> Some (E_INVALIDPACKET, v1, off1)
           | Some (Some (cb, off2)) \<Rightarrow> bcap_bytary2vnt mok rest src len v1 (le_word cb) off2))"

fun dec_items :: "(variant \<Rightarrow> u32 \<Rightarrow> (hresult \<times> variant \<times> u32) option) \<Rightarrow> items_dec" where
  "dec_items item vs 0 off = Some (S_OK, vs, off)"
| "dec_items item [] (Suc n) off = None"
| "dec_items item (v # vs) (Suc n) off =
     (case item v off of
        None \<Rightarrow> None
      | Some (hr, v', off') \<Rightarrow>
          if FAILED hr then Some (hr, v' # vs, off')
          else map_option (\<lambda>(hr', vs', off''). (hr', v' # vs', off'')) (dec_items item vs n off'))"

fun bcap_bytary2vntary :: "nat \<Rightarrow> (nat \<Rightarrow> bool) \<Rightarrow> byte list \<Rightarrow> u32 \<Rightarrow> bool \<Rightarrow> items_dec" where
  "bcap_bytary2vntary 0 mok src len flag = (\<lambda>vs n off. None)"
| "bcap_bytary2vntary (Suc depth) mok src len flag =
     dec_items (dec_item mok (bcap_bytary2vntary depth mok src len False) src len flag)"

section \<open>Packets\<close>

definition bcap_bytary2packet ::
  "(nat \<Rightarrow> bool) \<Rightarrow> variant list \<Rightarrow> byte list option \<Rightarrow> u32 \<Rightarrow> bcap_packet option \<Rightarrow>
   (hresult \<times> bcap_packet option) option" where
  "bcap_bytary2packet mok junk src len dst =
     (case (src, dst) of
        (Some buf, Some p) \<Rightarrow>
          if len < BCAP_SIZE_MIN then Some (E_INVALIDPACKET, Some p)
          else if length buf < unat len then None
          else if le_word (take 4 (drop 1 buf)) \<noteq> len then Some (E_INVALIDPACKET, Some p)
          else if buf ! 0 \<noteq> BCAP_HEADER \<or> buf ! (unat len - 1) \<noteq> BCAP_TERMINATOR
          then Some (E_INVALIDPACKET, Some p)
          else
            let p1 = p\<lparr>serial := le_word (take 2 (drop 5 buf)), reserv := le_word (take 2 (drop 7 buf)),
                       func_id := le_word (take 4 (drop 9 buf))\<rparr>;
                tmp_argc = (le_word (take 2 (drop 13 buf)) :: u16) in
            if argc p1 = 0xFFFF \<and> args p1 \<noteq> None then Some (E_INVALIDARG, Some p1)
            else if argc p1 \<noteq> 0xFFFF \<and> argc p1 > 0 \<and> args p1 = None then Some (E_INVALIDARG, Some p1)
            else if argc p1 \<noteq> 0xFFFF \<and> tmp_argc > argc p1 then Some (E_INVALIDPACKET, Some p1)
            else
              let p2 = p1\<lparr>argc := tmp_argc\<rparr>; n = unat tmp_argc in
              if n = 0 then Some (S_OK, Some p2)
              else if args p2 = None \<and> \<not> mok (16 * n) then Some (E_OUTOFMEMORY, Some p2)
              else
                let vs = (case args p2 of None \<Rightarrow> take n junk | Some vs \<Rightarrow> vs) in
                map_option (\<lambda>(hr, vs', off). (hr, Some (p2\<lparr>args := Some vs'\<rparr>)))
                  (bcap_bytary2vntary (Suc (length buf)) mok buf (len - 1) True vs n 15)
      | _ \<Rightarrow> Some (E_INVALIDARG, dst))"

end
