(* ===== verification/BcapRoundtrip.thy ===== *)
theory BcapRoundtrip
  imports BcapWire BcapDecode
begin

text \<open>
  Decoding what was encoded. \<open>wire v\<close> is the value a well-formed variant has on the other side:
  the same type and elements, with the representation the decoder chooses (lower bound 1, no
  \<open>NULL\<close> strings, sixteen bits of every character, a date as its double has it).
\<close>

section \<open>The value on the other side\<close>

definition date_ok :: "u64 \<Rightarrow> bool" where
  "date_ok t \<longleftrightarrow> bcap_bytary2vntdate (bcap_vntdate2bytary t) \<noteq> None"

definition wire_date :: "u64 \<Rightarrow> u64" where
  "wire_date t = (case bcap_bytary2vntdate (bcap_vntdate2bytary t) of Some (Some d) \<Rightarrow> d | _ \<Rightarrow> 0)"

definition wire_bits :: "u16 \<Rightarrow> u64 \<Rightarrow> u64" where
  "wire_bits t w =
     (if t = VT_DATE then wire_date w
      else take_bit (8 * (if t = VT_ERROR then 4 else fixed_size t)) w)"

definition wire_bstr :: "bstr option \<Rightarrow> bstr" where
  "wire_bstr p = map (take_bit 16) (bstr_chars p) @ [0]"

definition date_at :: "byte list \<Rightarrow> nat \<Rightarrow> u64" where
  "date_at bs i = le_word (take 8 (drop (i * 8) bs))"

definition wire_dates :: "nat \<Rightarrow> byte list \<Rightarrow> byte list" where
  "wire_dates n bs = concat (map (\<lambda>i. le_bytes 8 (wire_date (date_at bs i))) [0..<n])"

definition wire_data :: "variant list \<Rightarrow> safearray \<Rightarrow> sa_data option" where
  "wire_data rest a =
     (case pvData a of
        None \<Rightarrow> None
      | Some (Bytes bs) \<Rightarrow>
          Some (Bytes (if sa_vt a = VT_DATE then wire_dates (unat (cElements a)) bs else bs))
      | Some (Bstrs ss) \<Rightarrow> Some (Bstrs (map (\<lambda>p. Some (wire_bstr p)) ss))
      | Some (Variants vs) \<Rightarrow> Some (Variants rest))"

definition wire_body :: "variant list \<Rightarrow> variant \<Rightarrow> variant" where
  "wire_body rest v = Variant (vt v)
     (case val v of
        Bits w \<Rightarrow> if vt v = VT_BSTR then BstrP (wire_bstr None) else Bits (wire_bits (vt v) w)
      | BstrP s \<Rightarrow> BstrP (wire_bstr (Some s))
      | ArrayP a \<Rightarrow> ArrayP (SafeArray 1 (sa_vt a) (cbElements a) (wire_data rest a) (cElements a) 1))"

fun wire :: "variant \<Rightarrow> variant" and wires :: "variant list \<Rightarrow> variant list" where
  "wire v = wire_body (wires (variants_of v)) v"
| "wires [] = []"
| "wires (v # vs) = wire v # wires vs"

declare wire.simps [simp del]

lemma wires_map: "wires vs = map wire vs"
  by (induction vs) auto

lemma length_wires [simp]: "length (wires vs) = length vs"
  by (simp add: wires_map)

text \<open>The dates a value holds are ones whose double converts back within \<open>int64_t\<close>.\<close>

definition dates_ok_body :: "bool \<Rightarrow> variant \<Rightarrow> bool" where
  "dates_ok_body rest v =
     (case val v of
        Bits w \<Rightarrow> vt v = VT_DATE \<longrightarrow> date_ok w
      | BstrP s \<Rightarrow> True
      | ArrayP a \<Rightarrow> (case pvData a of
            Some (Bytes bs) \<Rightarrow>
              sa_vt a = VT_DATE \<longrightarrow> list_all (\<lambda>i. date_ok (date_at bs i)) [0..<unat (cElements a)]
          | Some (Variants vs) \<Rightarrow> rest
          | _ \<Rightarrow> True))"

fun dates_ok :: "variant \<Rightarrow> bool" and dates_oks :: "variant list \<Rightarrow> bool" where
  "dates_ok v = dates_ok_body (dates_oks (variants_of v)) v"
| "dates_oks [] = True"
| "dates_oks (v # vs) = (dates_ok v \<and> dates_oks vs)"

declare dates_ok.simps [simp del]

section \<open>Reading back\<close>

lemma get_at:
  assumes "length pre + length bs \<le> unat len" and "sz = of_nat (length bs)"
  shows "get (pre @ bs @ post) len (of_nat (length pre)) sz =
         Some (Some (bs, of_nat (length pre + length bs)))"
proof -
  have "unat (of_nat (length pre) :: u32) = length pre" "unat sz = length bs"
    using assms by (simp_all add: unat_of_nat_le [of _ len])
  moreover have "\<not> len < of_nat (length pre + length bs)"
    using assms(1) by (simp add: word_less_nat_alt unat_of_nat_le del: of_nat_add)
  ultimately show ?thesis
    using assms(2) by (simp add: get_def flip: of_nat_add)
qed

lemma get_cons:
  assumes "length pre + length (b @ bs) \<le> unat len" and "sz = of_nat (length b)"
  shows "get (pre @ (b @ bs) @ post) len (of_nat (length pre)) sz =
         Some (Some (b, of_nat (length (pre @ b))))"
  using get_at [of pre b len sz "bs @ post"] assms by simp

text \<open>\<open>reads f bs x\<close>: on a buffer that holds \<open>bs\<close> at the offset, \<open>f\<close> succeeds with \<open>x\<close> behind it.\<close>

definition reads :: "(byte list \<Rightarrow> u32 \<Rightarrow> u32 \<Rightarrow> (hresult \<times> 'a \<times> u32) option) \<Rightarrow> byte list \<Rightarrow> 'a \<Rightarrow> bool" where
  "reads f bs x \<longleftrightarrow>
     (\<forall>pre post len. length pre + length bs \<le> unat len \<longrightarrow>
        f (pre @ bs @ post) len (of_nat (length pre)) = Some (S_OK, x, of_nat (length pre + length bs)))"

lemma readsI:
  assumes "\<And>pre post len. length pre + length bs \<le> unat len \<Longrightarrow>
    f (pre @ bs @ post) len (of_nat (length pre)) = Some (S_OK, x, of_nat (length pre + length bs))"
  shows "reads f bs x"
  using assms by (simp add: reads_def)

lemma readsD:
  "reads f bs x \<Longrightarrow> length pre + length bs \<le> unat len \<Longrightarrow>
   f (pre @ bs @ post) len (of_nat (length pre)) = Some (S_OK, x, of_nat (length pre + length bs))"
  by (simp add: reads_def)

lemma reads_map:
  "reads f bs x \<Longrightarrow> reads (\<lambda>s l off. map_option (\<lambda>(hr, y, off'). (hr, g y, off')) (f s l off)) bs (g x)"
  by (rule readsI) (simp add: readsD)

lemma reads_nil: "(\<And>s l off. f s l off = Some (S_OK, x, off)) \<Longrightarrow> reads f [] x"
  by (rule readsI) simp

text \<open>A checked read of \<open>b\<close> first, then the rest; and one decoder after the other.\<close>

lemma reads_get:
  assumes "\<And>s l off off'. get s l off sz = Some (Some (b, off')) \<Longrightarrow> f s l off = g s l off'"
    and "sz = of_nat (length b)" and "reads g bs x"
  shows "reads f (b @ bs) x"
proof (rule readsI)
  fix pre post :: "byte list" and len :: u32
  assume room: "length pre + length (b @ bs) \<le> unat len"
  have "get (pre @ (b @ bs) @ post) len (of_nat (length pre)) sz =
      Some (Some (b, of_nat (length (pre @ b))))"
    using room assms(2) by (rule get_cons)
  moreover have "g ((pre @ b) @ bs @ post) len (of_nat (length (pre @ b))) =
      Some (S_OK, x, of_nat (length (pre @ b) + length bs))"
    using room by (intro readsD [OF assms(3)]) simp
  ultimately show "f (pre @ (b @ bs) @ post) len (of_nat (length pre)) =
      Some (S_OK, x, of_nat (length pre + length (b @ bs)))"
    using assms(1) by (simp add: add.assoc)
qed

lemma reads_seq:
  assumes "\<And>s l off off'. m s l off = Some (S_OK, y, off') \<Longrightarrow>
      f s l off = map_option (\<lambda>(hr', z, off''). (hr', c y z, off'')) (k s l off')"
    and "reads m b1 y" and "reads k b2 z"
  shows "reads f (b1 @ b2) (c y z)"
proof (rule readsI)
  fix pre post :: "byte list" and len :: u32
  assume room: "length pre + length (b1 @ b2) \<le> unat len"
  have "m (pre @ b1 @ b2 @ post) len (of_nat (length pre)) =
      Some (S_OK, y, of_nat (length pre + length b1))"
    using room by (intro readsD [OF assms(2)]) simp
  moreover have "k ((pre @ b1) @ b2 @ post) len (of_nat (length (pre @ b1))) =
      Some (S_OK, z, of_nat (length (pre @ b1) + length b2))"
    using room by (intro readsD [OF assms(3)]) simp
  ultimately show "f (pre @ (b1 @ b2) @ post) len (of_nat (length pre)) =
      Some (S_OK, c y z, of_nat (length pre + length (b1 @ b2)))"
    using assms(1) by (simp add: add.assoc)
qed

lemma split_list_at:
  assumes "length xs = k + n"
  obtains ys zs where "xs = ys @ zs" "length ys = k" "length zs = n"
  using assms by (intro that [of "take k xs" "drop k xs"]) auto

lemma dec_elems_reads:
  assumes "length bs = n * sz" and "length acc = i * sz" and "length old = n * sz"
    and "(i + n) * sz < 2 ^ 32"
  shows "reads (\<lambda>s l off. dec_elems s l sz i n (acc @ old) off) bs (acc @ bs)"
  using assms
proof (induction n arbitrary: i bs acc old)
  case 0
  then show ?case by (auto intro!: reads_nil)
next
  case (Suc n)
  obtain b bs' where bs: "bs = b @ bs'" "length b = sz" "length bs' = n * sz"
    using Suc.prems(1) by (auto elim: split_list_at)
  obtain o1 o2 where old: "old = o1 @ o2" "length o1 = sz" "length o2 = n * sz"
    using Suc.prems(3) by (auto elim: split_list_at)
  have "i * sz \<le> (i + Suc n) * sz" by (rule mult_le_mono1) simp
  then have "i * sz < 2 ^ 32" using Suc.prems(4) by (rule le_less_trans)
  then have pos: "unat (of_nat i * of_nat sz :: u32) = length acc"
    using Suc.prems(2) by (simp add: unat_of_nat flip: of_nat_mult)
  have st: "store (acc @ old) (length acc) b = Some ((acc @ b) @ o2)"
    using bs old store_at [of acc "length acc" o1 b o2] by simp
  have "reads (\<lambda>s l off. dec_elems s l sz (Suc i) n ((acc @ b) @ o2) off) bs' ((acc @ b) @ bs')"
    using Suc.prems bs old by (intro Suc.IH) (simp_all add: add.commute)
  then have "reads (\<lambda>s l off. case store (acc @ old) (unat (of_nat i * of_nat sz :: u32)) b of
      None \<Rightarrow> None | Some mem' \<Rightarrow> dec_elems s l sz (Suc i) n mem' off) bs' (acc @ b @ bs')"
    by (simp add: pos st)
  with bs show ?case
    by (auto intro!: reads_get [where sz = "of_nat sz"])
qed

lemma dec_chars_reads:
  assumes "length acc = i" and "length old = length cs" and "set old \<subseteq> {0}"
  shows "reads (\<lambda>s l off. dec_chars s l i (length cs) (acc @ old @ rs) off)
           (concat (map (le_bytes 2) cs)) (acc @ map (take_bit 16) cs @ rs)"
  using assms
proof (induction cs arbitrary: i acc old)
  case Nil
  then show ?case by (auto intro!: reads_nil)
next
  case (Cons c cs)
  obtain o2 where old: "old = 0 # o2" "length o2 = length cs" "set o2 \<subseteq> {0}"
    using Cons.prems(2,3) by (cases old) auto
  have "reads (\<lambda>s l off. dec_chars s l (Suc i) (length cs) ((acc @ [take_bit 16 c]) @ o2 @ rs) off)
      (concat (map (le_bytes 2) cs)) ((acc @ [take_bit 16 c]) @ map (take_bit 16) cs @ rs)"
    using Cons.prems old by (intro Cons.IH) simp_all
  then have "reads (\<lambda>s l off. if length (acc @ old @ rs) \<le> i then None
      else dec_chars s l (Suc i) (length cs)
        ((acc @ old @ rs)[i := push_bit 16 (drop_bit 16 ((acc @ old @ rs) ! i)) OR le_word (le_bytes 2 c)]) off)
      (concat (map (le_bytes 2) cs)) (acc @ map (take_bit 16) (c # cs) @ rs)"
    using Cons.prems(1) old by (simp add: nth_append list_update_append le_word_le_bytes)
  then have "reads (\<lambda>s l off. dec_chars s l i (length (c # cs)) (acc @ old @ rs) off)
      (le_bytes 2 c @ concat (map (le_bytes 2) cs)) (acc @ map (take_bit 16) (c # cs) @ rs)"
    by (intro reads_get [where sz = 2]) auto
  then show ?case by simp
qed

lemma le_bytes_0: "le_bytes n (0 :: 'a::len word) = replicate n 0"
  by (induction n) auto

lemma dec_dates_reads:
  assumes "length acc = i * 8" and "list_all date_ok ts"
  shows "reads (\<lambda>s l off. dec_dates s l i (length ts) (acc @ replicate (length ts * 8) 0) off)
           (concat (map bcap_vntdate2bytary ts)) (acc @ concat (map (\<lambda>t. le_bytes 8 (wire_date t)) ts))"
  using assms
proof (induction ts arbitrary: i acc)
  case Nil
  then show ?case by (auto intro!: reads_nil)
next
  case (Cons t ts)
  let ?z = "replicate (length ts * 8) (0 :: byte)" and ?mem = "acc @ replicate (8 + length ts * 8) (0 :: byte)"
  obtain d where d: "bcap_bytary2vntdate (bcap_vntdate2bytary t) = Some d"
    using Cons.prems(2) by (auto simp: date_ok_def)
  have mem: "?mem = acc @ replicate 8 0 @ ?z" by (simp add: replicate_add)
  have st: "store ?mem (i * 8) (le_bytes 8 x) = Some ((acc @ le_bytes 8 x) @ ?z)" for x :: u64
    unfolding mem using Cons.prems(1) store_at [of acc "i * 8" "replicate 8 0" "le_bytes 8 x" ?z] by simp
  have "reads (\<lambda>s l off. dec_dates s l (Suc i) (length ts) ((acc @ le_bytes 8 (wire_date t)) @ ?z) off)
      (concat (map bcap_vntdate2bytary ts))
      ((acc @ le_bytes 8 (wire_date t)) @ concat (map (\<lambda>t. le_bytes 8 (wire_date t)) ts))"
    using Cons.prems by (intro Cons.IH) simp_all
  moreover have "acc @ le_bytes 8 (wire_date t) @ ?z = ?mem" if "d = None"
    using that d by (simp add: wire_date_def le_bytes_0 mem)
  moreover have "wire_date t = x" if "d = Some x" for x
    using that d by (simp add: wire_date_def)
  ultimately have "reads (\<lambda>s l off. dec_dates s l i (length (t # ts)) ?mem off)
      (bcap_vntdate2bytary t @ concat (map bcap_vntdate2bytary ts))
      (acc @ le_bytes 8 (wire_date t) @ concat (map (\<lambda>t. le_bytes 8 (wire_date t)) ts))"
    using st d by (intro reads_get [where sz = 8]) (auto split: option.splits)
  then show ?case by simp
qed

lemma half_of_nat:
  assumes "2 * n < 2 ^ 32"
  shows "(of_nat (2 * n) :: u32) div 2 = of_nat n"
proof -
  have "unat ((of_nat (2 * n) :: u32) div 2) = n"
    using assms by (simp add: unat_div unat_of_nat take_bit_nat_eq_self del: of_nat_mult)
  then have "of_nat (unat ((of_nat (2 * n) :: u32) div 2)) = (of_nat n :: u32)" by (rule arg_cong)
  then show ?thesis by (simp del: of_nat_mult)
qed

lemma dec_bstr_reads:
  assumes "wf_bstr_ptr p"
  shows "reads (\<lambda>s l off. dec_bstr mem_ok s l b off) (ser_bstr p) (Some (wire_bstr p))"
proof -
  let ?cs = "bstr_chars p" and ?n = "length (bstr_chars p)"
  have n: "?n \<le> 16382" using assms by (rule bstr_chars_less)
  have w: "(le_word (le_bytes 4 (of_nat (2 * ?n) :: u32)) :: u32) div 2 = of_nat ?n"
    using n half_of_nat [of ?n] by (simp add: le_word_le_bytes_full del: of_nat_mult)
  have c: "unat (ucast (of_nat ?n :: u32) :: u16) = ?n"
    using n by (simp add: unsigned_ucast_eq unat_of_nat take_bit_nat_eq_self)
  have alloc: "SysAllocStringLen mem_ok (Some [0]) (ucast (of_nat ?n :: u32)) =
      Some (Some (replicate ?n 0 @ [0]))"
    using SysAllocStringLen_cells [of "ucast (of_nat ?n :: u32)"] n c
    by (simp add: replicate_append_same)
  have "reads (\<lambda>s l off. dec_chars s l 0 ?n ([] @ replicate ?n 0 @ [0]) off)
      (concat (map (le_bytes 2) ?cs)) ([] @ map (take_bit 16) ?cs @ [0])"
    by (rule dec_chars_reads) auto
  then have "reads (\<lambda>s l off. map_option (\<lambda>(hr, s', off''). (hr, Some s', off''))
      (dec_chars s l 0 ?n (replicate ?n 0 @ [0]) off)) (concat (map (le_bytes 2) ?cs)) (Some (wire_bstr p))"
    using reads_map by (simp add: wire_bstr_def)
  then show ?thesis
    unfolding ser_bstr_def Let_def
    using n by (intro reads_get [where sz = 4]) (simp_all add: dec_bstr_def w alloc unat_of_nat Let_def del: of_nat_mult)
qed

lemma dec_bstrs_reads:
  assumes "list_all wf_bstr_ptr ps" and "length bs = length ps"
  shows "reads (\<lambda>s l off. dec_bstrs mem_ok s l (length ps) bs off)
           (concat (map ser_bstr ps)) (map (\<lambda>p. Some (wire_bstr p)) ps)"
  using assms(2,1)
proof (induction bs ps rule: list_induct2)
  case Nil
  then show ?case by (auto intro!: reads_nil)
next
  case (Cons b bs p ps)
  have "reads (\<lambda>s l off. dec_bstrs mem_ok s l (length (p # ps)) (b # bs) off)
      (ser_bstr p @ concat (map ser_bstr ps)) (Some (wire_bstr p) # map (\<lambda>p. Some (wire_bstr p)) ps)"
    using Cons by (intro reads_seq [where c = "(#)", OF _ dec_bstr_reads [where b = b]]) auto
  then show ?case by simp
qed

section \<open>Variants\<close>

lemma date_chunks: "ser_dates n bs = concat (map bcap_vntdate2bytary (map (date_at bs) [0..<n]))"
  by (simp add: ser_dates_def date_at_def comp_def)

lemma wire_date_chunks:
  "wire_dates n bs = concat (map (\<lambda>t. le_bytes 8 (wire_date t)) (map (date_at bs) [0..<n]))"
  by (simp add: wire_dates_def comp_def)

lemma overlay_le_bytes:
  "n \<le> 8 \<Longrightarrow> overlay 0 (le_bytes n (w :: u64)) = take_bit (8 * n) w"
proof -
  have tail: "le_word (bs @ replicate k 0) = (le_word bs :: u64)" for bs k
    by (induction bs) (auto, induction k, auto)
  show ?thesis if "n \<le> 8"
    using that by (simp add: overlay_def le_bytes_0 tail le_word_le_bytes)
qed

lemma reads_scalar:
  assumes "wf_variant v" and "\<not> is_array (vt v)" and "dates_ok v"
  shows "reads (\<lambda>s l off. bytary2vnt_scalar mem_ok s l (vt v) 0 off) (ser_value v) (wire v)"
  using assms(1)
proof (cases rule: wf_variant_cases)
  case (scalar t w)
  let ?sz = "if t = VT_ERROR then 4 else fixed_size t"
  note defs = bytary2vnt_scalar_def ser_value_def ser_body_def ser_scalar_def wire.simps wire_body_def
    wire_bits_def Let_def
  consider (fixed) "?sz \<noteq> 0" "t \<noteq> VT_DATE" | (date) "t = VT_DATE" | (none) "t = VT_EMPTY \<or> t = VT_NULL"
    using scalar(3) by (auto simp: scalar_type_def copyable_def fixed_size_def)
  then show ?thesis
  proof cases
    case fixed
    define k where "k = ?sz"
    have "k \<le> 8" "k \<noteq> 0" using fixed by (simp_all add: fixed_size_def k_def)
    then have "reads (\<lambda>s l off. bytary2vnt_scalar mem_ok s l t 0 off) (le_bytes k w @ [])
        (Variant t (Bits (take_bit (8 * k) w)))"
      by (intro reads_get [where sz = "of_nat k"
            and g = "\<lambda>s l off. Some (S_OK, Variant t (Bits (take_bit (8 * k) w)), off)"])
         (simp_all add: bytary2vnt_scalar_def overlay_le_bytes Let_def reads_nil flip: k_def)
    then show ?thesis using scalar fixed by (simp add: defs flip: k_def)
  next
    case date
    then have "date_ok w" using assms(3) scalar by (simp add: dates_ok.simps dates_ok_body_def)
    then obtain d where d: "bcap_bytary2vntdate (bcap_vntdate2bytary w) = Some d" by (auto simp: date_ok_def)
    have "reads (\<lambda>s l off. bytary2vnt_scalar mem_ok s l t 0 off) (bcap_vntdate2bytary w @ [])
        (Variant t (Bits (wire_date w)))"
      using date d by (intro reads_get [where sz = 8 and g = "\<lambda>s l off. Some (S_OK, Variant t (Bits (wire_date w)), off)"])
         (auto simp: bytary2vnt_scalar_def Let_def reads_nil wire_date_def)
    then show ?thesis using scalar date by (simp add: defs)
  next
    case none
    then show ?thesis using scalar by (auto simp: defs intro!: reads_nil)
  qed
next
  case null_bstr
  then show ?thesis
    using reads_map [OF dec_bstr_reads [of None None], of "\<lambda>b. Variant VT_BSTR (case b of None \<Rightarrow> NULLP | Some s \<Rightarrow> BstrP s)"]
    by (simp add: bytary2vnt_scalar_def ser_value_def ser_body_def ser_scalar_def wire.simps wire_body_def
        wf_bstr_ptr_def Let_def)
next
  case (bstr s)
  then show ?thesis
    using reads_map [OF dec_bstr_reads [of "Some s" None], of "\<lambda>b. Variant VT_BSTR (case b of None \<Rightarrow> NULLP | Some s \<Rightarrow> BstrP s)"]
    by (simp add: bytary2vnt_scalar_def ser_value_def ser_body_def ser_scalar_def wire.simps wire_body_def
        wf_bstr_ptr_def Let_def)
qed (use assms(2) in auto)

lemma reads_array:
  assumes "wf_variant (Variant t (ArrayP a))" and "is_array t" and "dates_ok (Variant t (ArrayP a))"
    and "\<And>vs. pvData a = Some (Variants vs) \<Longrightarrow>
      reads (\<lambda>s l off. R s l (replicate (length vs) zero_variant) (length vs) off) body ws"
  shows "reads (\<lambda>s l off. bytary2vnt_array mem_ok (R s l) s l t NULLP (cElements a) off) (ser_array body a)
           (Variant t (ArrayP (SafeArray 1 (sa_vt a) (cbElements a) (wire_data ws a) (cElements a) 1)))"
  using assms(1)
proof (cases rule: wf_variant_cases)
  case (empty t' lb sz)
  have "\<not> len < of_nat k" if "k \<le> unat len" for len :: u32 and k
    using that by (simp add: word_less_nat_alt unat_of_nat_le)
  with empty show ?thesis
    by (auto simp: bytary2vnt_array_def ser_array_def SafeArrayCreateVector_def wire_data_def Let_def
        intro!: readsI)
next
  case (bytes t' bs n lb sz)
  then have a: "a = SafeArray 1 (t XOR VT_ARRAY) (of_nat sz) (Some (Bytes bs)) n lb" by auto
  let ?et = "t XOR VT_ARRAY" and ?mem = "replicate (unat n * sz) (0 :: byte)"
  let ?bs = "if ?et = VT_DATE then wire_dates (unat n) bs else bs"
  have len: "length bs = unat n * sz" and lt: "unat n * sz < 2 ^ 31" and n: "n \<noteq> 0"
    and sz: "sa_elem_size ?et = Some sz" and et: "?et \<noteq> VT_BSTR" "?et \<noteq> VT_VARIANT"
    using bytes by auto
  have cv: "SafeArrayCreateVector mem_ok ?et 1 n = Some (SafeArray 1 ?et (of_nat sz) (Some (Bytes ?mem)) n 1)"
    using SafeArrayCreateVector_ok [OF sz n lt] et by (simp add: zero_data_def)
  have "reads (\<lambda>s l off. bytary2vnt_data mem_ok (R s l) s l ?et n (Bytes ?mem) off) (ser_array body a) (Bytes ?bs)"
    using sz
  proof (cases rule: elem_type_cases)
    case fixed
    show ?thesis
    proof (cases "?et = VT_UI1")
      case True
      then have "sz = 1" using fixed by (simp add: fixed_size_def)
      then have "reads (\<lambda>s l off. bytary2vnt_data mem_ok (R s l) s l ?et n (Bytes ?mem) off) (bs @ []) (Bytes bs)"
        using True len
        by (intro reads_get [where sz = n and g = "\<lambda>s l off. Some (S_OK, Bytes bs, off)"])
           (simp_all add: bytary2vnt_data_def store_def reads_nil)
      then show ?thesis using True a by (simp add: ser_array_def)
    next
      case False
      have lt': "unat n * sz < 2 ^ 32" using lt by simp
      have "reads (\<lambda>s l off. dec_elems s l sz 0 (unat n) ([] @ ?mem) off) bs ([] @ bs)"
        using len lt' by (intro dec_elems_reads) simp_all
      from reads_map [OF this, of Bytes] show ?thesis
        using fixed False a by (simp add: bytary2vnt_data_def ser_array_def)
    qed
  next
    case date
    let ?ts = "map (date_at bs) [0..<unat n]"
    have "list_all date_ok ?ts"
      using assms(3) date a by (simp add: dates_ok.simps dates_ok_body_def list_all_iff)
    then have "reads (\<lambda>s l off. dec_dates s l 0 (length ?ts) ([] @ replicate (length ?ts * 8) 0) off)
        (ser_dates (unat n) bs) ([] @ wire_dates (unat n) bs)"
      unfolding date_chunks wire_date_chunks by (intro dec_dates_reads) simp_all
    from reads_map [OF this, of Bytes] show ?thesis
      using date a by (simp add: bytary2vnt_data_def ser_array_def)
  qed (use et in auto)
  from reads_map [OF this, of "\<lambda>d. Variant t (ArrayP (SafeArray 1 ?et (of_nat sz) (Some d) n 1))"]
  show ?thesis
    using cv a by (cases "?et = VT_DATE") (simp_all add: bytary2vnt_array_def wire_data_def set_pvData_def Let_def)
next
  case (bstrs t' ss n lb)
  then have a: "a = SafeArray 1 VT_BSTR 8 (Some (Bstrs ss)) n lb" "t XOR VT_ARRAY = VT_BSTR" by auto
  have cv: "SafeArrayCreateVector mem_ok VT_BSTR 1 n =
      Some (SafeArray 1 VT_BSTR 8 (Some (Bstrs (replicate (length ss) None))) n 1)"
    using SafeArrayCreateVector_ok [of VT_BSTR 8 n 1] bstrs by (simp add: sa_elem_size_def zero_data_def)
  have "reads (\<lambda>s l off. dec_bstrs mem_ok s l (length ss) (replicate (length ss) None) off)
      (concat (map ser_bstr ss)) (map (\<lambda>p. Some (wire_bstr p)) ss)"
    using bstrs by (intro dec_bstrs_reads) simp_all
  from reads_map [OF reads_map [OF this, of Bstrs], of "\<lambda>d. Variant t (ArrayP (SafeArray 1 VT_BSTR 8 (Some d) n 1))"]
  show ?thesis
    using cv a bstrs
    by (simp add: bytary2vnt_array_def bytary2vnt_data_def ser_array_def wire_data_def set_pvData_def
        Let_def)
next
  case (variants t' vs n lb)
  then have a: "a = SafeArray 1 VT_VARIANT 16 (Some (Variants vs)) n lb" "t XOR VT_ARRAY = VT_VARIANT" by auto
  have cv: "SafeArrayCreateVector mem_ok VT_VARIANT 1 n =
      Some (SafeArray 1 VT_VARIANT 16 (Some (Variants (replicate (length vs) zero_variant))) n 1)"
    using SafeArrayCreateVector_ok [of VT_VARIANT 16 n 1] variants by (simp add: sa_elem_size_def zero_data_def)
  have "reads (\<lambda>s l off. R s l (replicate (length vs) zero_variant) (length vs) off) body ws"
    using assms(4) a by simp
  from reads_map [OF reads_map [OF this, of Variants], of "\<lambda>d. Variant t (ArrayP (SafeArray 1 VT_VARIANT 16 (Some d) n 1))"]
  show ?thesis
    using cv a variants
    by (simp add: bytary2vnt_array_def bytary2vnt_data_def ser_array_def wire_data_def set_pvData_def
        Let_def)
qed (use assms(2) in \<open>auto simp: is_array_def\<close>)

lemma vt_wf_array:
  assumes "wf_variant v" and "is_array (vt v)"
  obtains t a where "v = Variant t (ArrayP a)"
  using assms by (cases rule: wf_variant_cases) (auto simp: is_array_def)

lemma item_vt_count:
  "wf_variant v \<Longrightarrow> \<not> is_array (vt v) \<Longrightarrow> item_count v = 1"
  by (cases rule: wf_variant_cases) (auto simp: item_count_def)

text \<open>The decoders for one value and for the elements of a list, by induction on the value.\<close>

lemma reads_decoder:
  "wf_variant v \<Longrightarrow> dates_ok v \<Longrightarrow> length (ser_item v) \<le> d \<Longrightarrow>
     reads (\<lambda>s l off. dec_item mem_ok (bcap_bytary2vntary d mem_ok s l False) s l False u off) (ser_item v) (wire v)"
  "wf_variants vs \<Longrightarrow> dates_oks vs \<Longrightarrow> length (ser_items vs) < d \<Longrightarrow> length us = length vs \<Longrightarrow>
     reads (\<lambda>s l off. bcap_bytary2vntary d mem_ok s l False us (length vs) off) (ser_items vs) (wires vs)"
proof (induction v and vs arbitrary: d u and d us rule: wf_variant_wf_variants.induct)
  case (1 v)
  let ?R = "\<lambda>s l. bcap_bytary2vntary d mem_ok s l False"
  have nested: "reads (\<lambda>s l off. ?R s l (replicate (length vs) zero_variant) (length vs) off)
      (ser_items vs) (wires vs)" if "val v = ArrayP a" "pvData a = Some (Variants vs)" for a vs
  proof -
    have vs: "variants_of v = vs" using that by (cases v, cases a) auto
    have ws: "wf_variants vs"
      using 1(2) that vs by (cases rule: wf_variant_cases) auto
    have ds: "dates_oks vs" using 1(3) that vs by (simp add: dates_ok.simps dates_ok_body_def)
    have "length (ser_items vs) < d"
      using 1(4) that vs by (simp add: ser_item_value ser_value_def ser_body_def ser_array_def)
    with 1(1) [of d "replicate (length vs) zero_variant"] ws ds vs show ?thesis by simp
  qed
  have body: "reads (\<lambda>s l off. bcap_bytary2vnt mem_ok (?R s l) s l (Variant (vt v) NULLP) (item_count v) off)
      (ser_value v) (wire v)"
  proof (cases "is_array (vt v)")
    case True
    with 1(2) obtain t a where v: "v = Variant t (ArrayP a)" by (rule vt_wf_array)
    have wa: "wf_variant (Variant t (ArrayP a))" "is_array t" "dates_ok (Variant t (ArrayP a))"
      using 1 True v by auto
    have "reads (\<lambda>s l off. bytary2vnt_array mem_ok (?R s l) s l t NULLP (cElements a) off)
        (ser_array (ser_items (variants_of v)) a)
        (Variant t (ArrayP (SafeArray 1 (sa_vt a) (cbElements a) (wire_data (wires (variants_of v)) a) (cElements a) 1)))"
      by (rule reads_array [OF wa]) (use nested [of a] v in \<open>cases a; auto\<close>)
    then show ?thesis
      using v True by (simp add: bcap_bytary2vnt_def ser_value_def ser_body_def item_count_def wire.simps wire_body_def)
  next
    case False
    then show ?thesis
      using reads_scalar [OF 1(2) False 1(3)] by (simp add: bcap_bytary2vnt_def)
  qed
  have "reads (\<lambda>s l off. case get s l off 4 of
             None \<Rightarrow> None
           | Some None \<Rightarrow> Some (E_INVALIDPACKET, Variant (vt v) NULLP, off)
           | Some (Some (cb, off2)) \<Rightarrow>
               bcap_bytary2vnt mem_ok (?R s l) s l (Variant (vt v) NULLP) (le_word cb) off2)
      (le_bytes 4 (item_count v) @ ser_value v) (wire v)"
    using body by (intro reads_get [where sz = 4]) (auto simp: le_word_le_bytes_full)
  then show ?case
    unfolding ser_item_value
    by (rule reads_get [where sz = 2, rotated 2])
       (auto simp: dec_item_def VariantInit_def le_word_le_bytes_full Let_def split: option.split)
next
  case (2 d us)
  then show ?case by (cases d) (auto intro!: reads_nil)
next
  case (3 v vs d us)
  then obtain e where d: "d = Suc e" by (cases d) auto
  obtain u us' where us: "us = u # us'" "length us' = length vs" using 3(6) by (cases us) auto
  let ?item = "\<lambda>s l. dec_item mem_ok (bcap_bytary2vntary e mem_ok s l False) s l False"
  have item: "reads (\<lambda>s l off. ?item s l u off) (ser_item v) (wire v)"
    using 3 d by (intro 3(1)) auto
  have "reads (\<lambda>s l off. bcap_bytary2vntary (Suc e) mem_ok s l False us' (length vs) off)
      (ser_items vs) (wires vs)"
    using 3 d us by (intro 3(2)) auto
  then have "reads (\<lambda>s l off. dec_items (?item s l) us' (length vs) off) (ser_items vs) (wires vs)" by simp
  then have "reads (\<lambda>s l off. dec_items (?item s l) (u # us') (Suc (length vs)) off)
      (ser_item v @ ser_items vs) (wire v # wires vs)"
    by (intro reads_seq [where c = "(#)", OF _ item]) auto
  then show ?case using d us by simp
qed

section \<open>Packets\<close>

lemma reads_skip_len:
  assumes "reads (\<lambda>s l off. dec_item mok (R s l) s l False u off) bs x" and "length b = 4"
  shows "reads (\<lambda>s l off. dec_item mok (R s l) s l True u off) (b @ bs) x"
proof (rule readsI)
  fix pre post :: "byte list" and len :: u32
  assume room: "length pre + length (b @ bs) \<le> unat len"
  have "dec_item mok (R ((pre @ b) @ bs @ post) len) ((pre @ b) @ bs @ post) len False u (of_nat (length (pre @ b))) =
      Some (S_OK, x, of_nat (length (pre @ b) + length bs))"
    using room by (intro readsD [OF assms(1)]) simp
  then show "dec_item mok (R (pre @ (b @ bs) @ post) len) (pre @ (b @ bs) @ post) len True u (of_nat (length pre)) =
      Some (S_OK, x, of_nat (length pre + length (b @ bs)))"
    using assms(2) by (simp add: dec_item_def add.assoc)
qed

lemma reads_args:
  assumes "wf_variants vs" and "dates_oks vs" and "length (ser_args vs) < d" and "length us = length vs"
  shows "reads (\<lambda>s l off. bcap_bytary2vntary d mem_ok s l True (us @ us') (length vs) off)
           (ser_args vs) (wires vs @ us')"
proof -
  obtain e where d: "d = Suc e" using assms(3) by (cases d) auto
  let ?item = "\<lambda>s l. dec_item mem_ok (bcap_bytary2vntary e mem_ok s l False) s l True"
  have "reads (\<lambda>s l off. dec_items (?item s l) (us @ us') (length vs) off) (ser_args vs) (wires vs @ us')"
    using assms(4,1,2) assms(3) [unfolded d]
  proof (induction us vs rule: list_induct2)
    case Nil
    then show ?case by (auto simp: ser_args_def intro!: reads_nil)
  next
    case (Cons u us v vs)
    have "reads (\<lambda>s l off. dec_item mem_ok (bcap_bytary2vntary e mem_ok s l False) s l False u off)
        (ser_item v) (wire v)"
      using Cons.prems by (intro reads_decoder) (auto simp: ser_args_def ser_arg_def)
    then have item: "reads (\<lambda>s l off. ?item s l u off) (ser_arg v) (wire v)"
      unfolding ser_arg_def by (rule reads_skip_len) simp
    have "reads (\<lambda>s l off. dec_items (?item s l) (us @ us') (length vs) off) (ser_args vs) (wires vs @ us')"
      using Cons.prems by (intro Cons.IH) (auto simp: ser_args_def)
    then have "reads (\<lambda>s l off. dec_items (?item s l) ((u # us) @ us') (length (v # vs)) off)
        (ser_arg v @ ser_args vs) (wire v # (wires vs @ us'))"
      by (intro reads_seq [where c = "(#)", OF _ item]) auto
    then show ?case by (simp add: ser_args_def)
  qed
  then show ?thesis by (simp add: d)
qed

text \<open>
  A destination the decoder accepts for \<open>n\<close> arguments, and the variants it fills: either the
  caller asks for an allocation, or it passes room for at least \<open>n\<close>.
\<close>

definition dest_room :: "variant list \<Rightarrow> bcap_packet \<Rightarrow> nat \<Rightarrow> variant list option" where
  "dest_room junk q n =
     (case args q of
        None \<Rightarrow> if argc q = 0xFFFF \<and> n \<le> length junk then Some (take n junk)
                else if argc q = 0 \<and> n = 0 then Some [] else None
      | Some us \<Rightarrow> if argc q \<noteq> 0xFFFF \<and> length us = unat (argc q) \<and> n \<le> length us
                   then Some us else None)"

lemma take_ser_packet:
  "take 4 (drop 1 (ser_packet p room)) = le_bytes 4 (of_nat (length (ser_packet p room)) :: u32)"
  "take 2 (drop 5 (ser_packet p room)) = le_bytes 2 (serial p)"
  "take 2 (drop 7 (ser_packet p room)) = le_bytes 2 (reserv p)"
  "take 4 (drop 9 (ser_packet p room)) = le_bytes 4 (func_id p)"
  "take 2 (drop 13 (ser_packet p room)) = le_bytes 2 (argc p)"
  "ser_packet p room ! 0 = BCAP_HEADER"
  by (simp_all add: ser_packet_def Let_def ac_simps)

lemma unat_of_nat_32: "n < 2 ^ 32 \<Longrightarrow> unat (of_nat n :: u32) = n"
  by (simp add: unat_of_nat)

lemma last_ser_packet: "ser_packet p room ! (length (ser_packet p room) - 1) = BCAP_TERMINATOR"
  by (subst last_conv_nth [symmetric]) (simp_all add: ser_packet_def Let_def)

lemma decode_packet:
  assumes "wf_packet p" and "dates_oks (arg_list p)" and "length (ser_packet p room) < 2 ^ 32"
    and "dest_room junk q (unat (argc p)) = Some us"
  shows "bcap_bytary2packet mem_ok junk (Some (ser_packet p room)) (of_nat (length (ser_packet p room))) (Some q) =
         Some (S_OK, Some \<lparr>serial = serial p, reserv = reserv p, func_id = func_id p, argc = argc p,
           args = (if argc p = 0 then args q else Some (wires (arg_list p) @ drop (unat (argc p)) us)), \<dots> = ()\<rparr>)"
proof -
  define buf where "buf = ser_packet p room"
  define len where "len = (of_nat (length buf) :: u32)"
  let ?n = "unat (argc p)"
  have len: "unat len = length buf"
    unfolding len_def buf_def using assms(3) by (rule unat_of_nat_32)
  have long: "16 \<le> length buf" by (simp add: buf_def)
  have len1: "unat (len - 1) = length buf - 1" using unat_minus_1 [of len] len long by linarith
  have n: "length (arg_list p) = ?n" using assms(1) by (simp add: wf_packet_def)
  have dec: "bcap_bytary2vntary (Suc (length buf)) mem_ok buf (len - 1) True us ?n 15 =
      Some (S_OK, wires (arg_list p) @ drop ?n us, of_nat (15 + length (ser_args (arg_list p))))"
    if "?n \<le> length us"
  proof -
    let ?pre = "[BCAP_HEADER] @ le_bytes 4 len @ le_bytes 2 (serial p) @ le_bytes 2 (reserv p) @
       le_bytes 4 (func_id p) @ le_bytes 2 (argc p)"
    have buf: "buf = ?pre @ ser_args (arg_list p) @ (room @ [BCAP_TERMINATOR])"
      by (simp add: len_def buf_def ser_packet_def Let_def add.assoc)
    have "reads (\<lambda>s l off. bcap_bytary2vntary (Suc (length buf)) mem_ok s l True
        (take ?n us @ drop ?n us) (length (arg_list p)) off) (ser_args (arg_list p)) (wires (arg_list p) @ drop ?n us)"
      using assms(1,2) that n by (intro reads_args) (simp_all add: wf_packet_def buf_def)
    from readsD [OF this, of ?pre "len - 1" "room @ [BCAP_TERMINATOR]"]
    show ?thesis using len1 long unfolding buf [symmetric] by (simp add: n buf_def)
  qed
  have room: "?n \<le> length us" "argc q \<noteq> 0xFFFF \<Longrightarrow> argc p \<le> argc q"
    "argc q = 0xFFFF \<Longrightarrow> args q = None" "argc q \<noteq> 0xFFFF \<Longrightarrow> args q = None \<Longrightarrow> argc q = 0 \<and> argc p = 0"
    "args q = None \<Longrightarrow> argc p \<noteq> 0 \<Longrightarrow> us = take ?n junk" "args q \<noteq> None \<Longrightarrow> args q = Some us"
    using assms(4) by (auto simp: dest_room_def word_le_nat_alt unat_eq_0 split: option.splits if_splits)
  note rd = take_ser_packet [of p room, folded buf_def, folded len_def]
    last_ser_packet [of p room, folded buf_def]
  have ok: "\<not> len < 16" "len \<noteq> 0" using len long by (auto simp: word_less_nat_alt)
  have rd': "take 4 (drop (Suc 0) buf) = le_bytes 4 len" "buf ! (length buf - Suc 0) = BCAP_TERMINATOR"
    using rd by simp_all
  have n0: "argc p \<noteq> 0 \<Longrightarrow> ?n \<noteq> 0" by (simp add: unat_eq_0)
  consider (alloc) "args q = None" "argc q = 0xFFFF" | (none) "args q = None" "argc q = 0" "argc p = 0"
    | (given) "args q = Some us" "argc q \<noteq> 0xFFFF" "argc p \<le> argc q"
    using room by (cases "args q"; cases "argc q = 0xFFFF") auto
  then show ?thesis
  proof cases
    case alloc
    with room(5) ok len dec [OF room(1)] n0 show ?thesis
      unfolding buf_def [symmetric] len_def [symmetric]
      by (cases "argc p = 0") (auto simp: bcap_bytary2packet_def rd rd' le_word_le_bytes_full Let_def)
  next
    case none
    with ok len show ?thesis
      unfolding buf_def [symmetric] len_def [symmetric]
      by (auto simp: bcap_bytary2packet_def rd rd' le_word_le_bytes_full Let_def)
  next
    case given
    with ok len dec [OF room(1)] n0 show ?thesis
      unfolding buf_def [symmetric] len_def [symmetric]
      by (cases "argc p = 0") (auto simp: bcap_bytary2packet_def rd rd' le_word_le_bytes_full Let_def not_less)
  qed
qed

text \<open>
  C1: decoding an encoded packet gives its header and, in the room the caller has for
  them, the values of its arguments: the decoder succeeds on every packet the encoder writes.
\<close>

theorem bcap_bytary2packet_roundtrip:
  assumes "wf_packet p" and "dates_oks (arg_list p)" and "length (ser_packet p room) < 2 ^ 32"
    and "dest_room junk q (unat (argc p)) = Some us"
  shows "bcap_bytary2packet mem_ok junk (Some (ser_packet p room)) (of_nat (length (ser_packet p room))) (Some q) =
         Some (S_OK, Some \<lparr>serial = serial p, reserv = reserv p, func_id = func_id p, argc = argc p,
           args = (if argc p = 0 then args q else Some (wires (arg_list p) @ drop (unat (argc p)) us)), \<dots> = ()\<rparr>)"
  using assms by (rule decode_packet)

end
