(* ===== verification/BcapDecodeSafe.thy ===== *)
theory BcapDecodeSafe
  imports BcapRoundtrip
begin

text \<open>
  The decoder on arbitrary input: every successful step moves the offset forward inside the
  buffer, so the recursion into nested arrays is bounded by the buffer and the stack depth the
  model starts with is never what stops it; packets that are not well framed are refused
  before anything is written; and the inputs on which the C code leaves its objects.
\<close>

section \<open>The offset moves forward\<close>

text \<open>Buffers the 32-bit offset can walk through without wrapping.\<close>

definition fits32 :: "byte list \<Rightarrow> bool" where
  "fits32 src \<longleftrightarrow> length src + 8 < 2 ^ 32"

lemma get_forward:
  assumes "get src len off sz = Some (Some (bs, off'))" and "fits32 src"
  shows "unat off' = unat off + unat sz" and "unat off' \<le> length src"
proof -
  have le: "unat off + unat sz \<le> length src" and off': "off' = off + sz"
    using assms(1) by (auto simp: get_def load_def split: if_splits)
  then have "unat off + unat sz < 2 ^ 32" using assms(2) by (simp add: fits32_def)
  then show "unat off' = unat off + unat sz"
    using off' by (simp add: unat_word_ariths)
  with le show "unat off' \<le> length src" by simp
qed

text \<open>A success whose offset is not before the starting one, and still inside the buffer.\<close>

definition forward :: "byte list \<Rightarrow> u32 \<Rightarrow> (hresult \<times> 'a \<times> u32) option \<Rightarrow> bool" where
  "forward src off r \<longleftrightarrow>
     (case r of None \<Rightarrow> True | Some (hr, x, off') \<Rightarrow>
         FAILED hr \<or> unat off \<le> unat off' \<and> unat off' \<le> length src)"

lemma forward_None [simp]: "forward src off None"
  by (simp add: forward_def)

lemma forward_Some [simp]:
  "forward src off (Some (hr, x, off')) \<longleftrightarrow>
     FAILED hr \<or> unat off \<le> unat off' \<and> unat off' \<le> length src"
  by (simp add: forward_def)

lemma forward_map [simp]:
  "forward src off (map_option (\<lambda>(hr, x, off'). (hr, f x, off')) r) \<longleftrightarrow> forward src off r"
  by (auto simp: forward_def split: option.splits)

lemma forward_map_const:
  "unat off \<le> unat off' \<Longrightarrow> unat off' \<le> length src \<Longrightarrow>
   forward src off (map_option (\<lambda>m. (hr, f m, off')) r)"
  by (cases r) auto

lemma forward_trans: "forward src off' r \<Longrightarrow> unat off \<le> unat off' \<Longrightarrow> forward src off r"
  by (auto simp: forward_def split: option.splits)

lemma forward_get:
  "get src len off sz = Some (Some (bs, off')) \<Longrightarrow> fits32 src \<Longrightarrow>
   unat off \<le> unat off' \<and> unat off' \<le> length src"
  using get_forward by (metis le_add1)

lemma dec_elems_forward:
  "fits32 src \<Longrightarrow> unat off \<le> length src \<Longrightarrow> forward src off (dec_elems src len sz i n mem off)"
  by (induction n arbitrary: i mem off)
     (auto split: option.split dest!: forward_get intro: forward_trans)

lemma dec_dates_forward:
  "fits32 src \<Longrightarrow> unat off \<le> length src \<Longrightarrow> forward src off (dec_dates src len i n mem off)"
  by (induction n arbitrary: i mem off)
     (auto split: option.split dest!: forward_get intro: forward_trans)

lemma dec_chars_forward:
  "fits32 src \<Longrightarrow> unat off \<le> length src \<Longrightarrow> forward src off (dec_chars src len i n s off)"
  by (induction n arbitrary: i s off)
     (auto split: option.split dest!: forward_get intro: forward_trans)

lemma dec_bstr_forward:
  "fits32 src \<Longrightarrow> unat off \<le> length src \<Longrightarrow> forward src off (dec_bstr mok src len b off)"
  by (auto simp: dec_bstr_def Let_def split: option.split dest!: forward_get
      intro: forward_trans dec_chars_forward)

lemma forward_seq:
  assumes "forward src off r"
    and "\<And>hr x off'. r = Some (hr, x, off') \<Longrightarrow> \<not> FAILED hr \<Longrightarrow> unat off' \<le> length src \<Longrightarrow>
      forward src off' (k x off')"
  shows "forward src off (case r of
      None \<Rightarrow> None
    | Some (hr, x, off') \<Rightarrow> if FAILED hr then Some (hr, f x off') else k x off')"
  using assms by (auto simp: forward_def split: option.splits prod.splits)

lemma dec_bstrs_forward:
  "fits32 src \<Longrightarrow> unat off \<le> length src \<Longrightarrow> forward src off (dec_bstrs mok src len n bs off)"
proof (induction mok src len n bs off rule: dec_bstrs.induct)
  case (3 mok src len n b bs off)
  then show ?case
    by (auto intro!: forward_seq dec_bstr_forward)
qed auto

text \<open>A decoder of the items of nested arrays, on the offsets inside the buffer from \<open>lo\<close> on.\<close>

definition rest_forward :: "byte list \<Rightarrow> nat \<Rightarrow> items_dec \<Rightarrow> bool" where
  "rest_forward src lo rest \<longleftrightarrow>
     (\<forall>vs n off. lo \<le> unat off \<longrightarrow> unat off \<le> length src \<longrightarrow> forward src off (rest vs n off))"

lemma bytary2vnt_data_forward:
  assumes "fits32 src" and "unat off \<le> length src" and "rest_forward src (unat off) rest"
  shows "forward src off (bytary2vnt_data mok rest src len et n d off)"
  using assms
  by (auto intro: forward_map_const dec_dates_forward dec_elems_forward dec_bstrs_forward simp: bytary2vnt_data_def rest_forward_def split: sa_data.split option.split dest!: forward_get)

lemma bytary2vnt_forward:
  assumes "fits32 src" and "unat off \<le> length src" and "rest_forward src (unat off) rest"
  shows "forward src off (bcap_bytary2vnt mok rest src len dst n off)"
  using assms
  by (auto intro: forward_map_const bytary2vnt_data_forward dec_bstr_forward simp: bcap_bytary2vnt_def bytary2vnt_array_def bytary2vnt_scalar_def Let_def
      split: option.split vunion.split dest!: forward_get)

lemma unat_add_4: "fits32 src \<Longrightarrow> unat off \<le> length src \<Longrightarrow> unat (off + 4 :: u32) = unat off + 4"
  by (simp add: unat_word_ariths fits32_def)

lemma get_exact:
  "get src len off sz = Some (Some (bs, off')) \<Longrightarrow> fits32 src \<Longrightarrow>
   unat off' = unat off + unat sz \<and> unat off' \<le> length src"
  using get_forward by blast

text \<open>An item takes at least the six bytes of its type and its count before its elements.\<close>

lemma dec_item_forward:
  assumes "fits32 src" and "unat off \<le> length src" and "rest_forward src (unat off + 6) rest"
  shows "forward src off (dec_item mok rest src len flag v off)"
proof -
  let ?off = "if flag then off + 4 else off"
  have ge: "unat off \<le> unat ?off" using unat_add_4 [OF assms(1,2)] by simp
  have body: "forward src off (bcap_bytary2vnt mok rest src len dst n off2)"
    if "get src len ?off 2 = Some (Some (tb, off1))" "get src len off1 4 = Some (Some (cb, off2))"
    for tb cb off1 off2 dst n
  proof -
    have "unat off2 = unat ?off + 6" "unat off2 \<le> length src"
      using get_exact [OF that(1) assms(1)] get_exact [OF that(2) assms(1)] by simp_all
    moreover from this have "rest_forward src (unat off2) rest"
      using assms(3) ge by (auto simp: rest_forward_def)
    ultimately show ?thesis
      using ge by (intro forward_trans [OF bytary2vnt_forward]) (simp_all add: assms)
  qed
  show ?thesis
    using body by (auto simp: dec_item_def Let_def split: option.split)
qed

lemma dec_items_forward:
  assumes "\<And>v off. lo \<le> unat off \<Longrightarrow> unat off \<le> length src \<Longrightarrow> forward src off (item v off)"
  shows "lo \<le> unat off \<Longrightarrow> unat off \<le> length src \<Longrightarrow> forward src off (dec_items item vs n off)"
proof (induction n arbitrary: vs off)
  case (Suc n)
  show ?case
  proof (cases vs)
    case (Cons v vs')
    have "forward src off' (dec_items item vs' n off')"
      if "item v off = Some (hr, x, off')" "\<not> FAILED hr" for hr x off'
      using Suc.IH [of off' vs'] assms [OF Suc.prems, of v] that Suc.prems by simp
    then show ?thesis
      using assms [OF Suc.prems, of v] Cons by (auto intro!: forward_seq)
  qed simp
qed auto

lemma dec_items_cong:
  assumes "\<And>v off. lo \<le> unat off \<Longrightarrow> unat off \<le> length src \<Longrightarrow> item v off = item' v off"
    and "\<And>v off. lo \<le> unat off \<Longrightarrow> unat off \<le> length src \<Longrightarrow> forward src off (item v off)"
  shows "lo \<le> unat off \<Longrightarrow> unat off \<le> length src \<Longrightarrow> dec_items item vs n off = dec_items item' vs n off"
proof (induction n arbitrary: vs off)
  case (Suc n)
  show ?case
  proof (cases vs)
    case (Cons v vs')
    have "dec_items item vs' n off' = dec_items item' vs' n off'"
      if "item' v off = Some (hr, x, off')" "\<not> FAILED hr" for hr x off'
      using Suc.IH [of off' vs'] assms(2) [OF Suc.prems, of v] assms(1) [OF Suc.prems, of v] that Suc.prems by simp
    then show ?thesis
      using assms(1) [OF Suc.prems, of v] Cons by (auto split: option.split)
  qed simp
qed auto

lemma bytary2vntary_forward:
  assumes "fits32 src"
  shows "unat off \<le> length src \<Longrightarrow> forward src off (bcap_bytary2vntary d mok src len flag vs n off)"
proof (induction d arbitrary: off flag vs n)
  case (Suc d)
  have "forward src off2 (dec_item mok (bcap_bytary2vntary d mok src len False) src len flag v off2)"
    if "unat off2 \<le> length src" for v off2
    using that Suc.IH by (intro dec_item_forward assms) (simp_all add: rest_forward_def)
  then show ?case
    using Suc.prems by (simp add: dec_items_forward [where lo = 0])
qed simp

lemma bytary2vnt_cong:
  assumes "\<And>vs n. rest vs n off = rest' vs n off"
  shows "bcap_bytary2vnt mok rest src len dst n off = bcap_bytary2vnt mok rest' src len dst n off"
proof -
  have "bytary2vnt_data mok rest src len et n d off = bytary2vnt_data mok rest' src len et n d off" for et d
    using assms by (simp add: bytary2vnt_data_def split: sa_data.split)
  then show ?thesis
    by (simp add: bcap_bytary2vnt_def bytary2vnt_array_def Let_def cong: option.case_cong)
qed

lemma dec_item_cong:
  assumes "fits32 src" and "unat off \<le> length src"
    and "\<And>vs n off'. unat off + 6 \<le> unat off' \<Longrightarrow> unat off' \<le> length src \<Longrightarrow> rest vs n off' = rest' vs n off'"
  shows "dec_item mok rest src len flag v off = dec_item mok rest' src len flag v off"
proof -
  let ?off = "if flag then off + 4 else off"
  have ge: "unat off \<le> unat ?off" using unat_add_4 [OF assms(1,2)] by simp
  have "bcap_bytary2vnt mok rest src len dst n off2 = bcap_bytary2vnt mok rest' src len dst n off2"
    if "get src len ?off 2 = Some (Some (tb, off1))" "get src len off1 4 = Some (Some (cb, off2))"
    for tb cb off1 off2 dst n
    using get_exact [OF that(1) assms(1)] get_exact [OF that(2) assms(1)] ge
    by (intro bytary2vnt_cong assms(3)) simp_all
  then show ?thesis
    by (auto simp: dec_item_def Let_def split: option.split)
qed

text \<open>
  The recursion with anything at all, \<open>below\<close>, in the place where the depth is used up. If that place
  cannot be reached, the result does not depend on it.
\<close>

fun vntary_over :: "items_dec \<Rightarrow> nat \<Rightarrow> (nat \<Rightarrow> bool) \<Rightarrow> byte list \<Rightarrow> u32 \<Rightarrow> bool \<Rightarrow> items_dec" where
  "vntary_over below 0 mok src len flag = below"
| "vntary_over below (Suc depth) mok src len flag =
     dec_items (dec_item mok (vntary_over below depth mok src len False) src len flag)"

lemma bytary2vntary_over:
  assumes "fits32 src"
  shows "unat off \<le> length src \<Longrightarrow> length src - unat off < d \<Longrightarrow> length src - unat off < d' \<Longrightarrow>
    bcap_bytary2vntary d mok src len flag vs n off = vntary_over below d' mok src len flag vs n off"
proof (induction d arbitrary: d' off flag vs n)
  case (Suc d)
  then obtain e where d': "d' = Suc e" by (cases d') auto
  let ?rest = "bcap_bytary2vntary d mok src len False" and ?rest' = "vntary_over below e mok src len False"
  have "dec_item mok ?rest src len flag v off2 = dec_item mok ?rest' src len flag v off2"
    if "unat off \<le> unat off2" "unat off2 \<le> length src" for v off2
    using that Suc.prems d' by (intro dec_item_cong assms Suc.IH) auto
  moreover have "forward src off2 (dec_item mok ?rest src len flag v off2)"
    if "unat off \<le> unat off2" "unat off2 \<le> length src" for v off2
    using that by (intro dec_item_forward assms) (auto simp: rest_forward_def intro: bytary2vntary_forward assms)
  ultimately have "dec_items (dec_item mok ?rest src len flag) vs n off =
      dec_items (dec_item mok ?rest' src len flag) vs n off"
    using Suc.prems by (intro dec_items_cong) auto
  then show ?case by (simp add: d')
qed simp

declare bcap_bytary2vntary.simps [simp del]

section \<open>Properties\<close>

text \<open>
  C37: on a buffer of less than 4 GiB the decoder's recursion into nested arrays ends by the
  buffer alone: it never goes deeper than the buffer is long, so that whatever is put in the place
  where that depth is used up, the result is the same, and so it is with a deeper stack. A success
  leaves the offset inside the buffer, not before where it started.
\<close>

theorem bcap_bytary2vntary_terminates:
  assumes "length src + 8 < 2 ^ 32" and "unat off \<le> length src"
  shows "vntary_over below (Suc (length src)) mok src len flag vs n off =
         bcap_bytary2vntary (Suc (length src) + k) mok src len flag vs n off \<and>
         (case bcap_bytary2vntary (Suc (length src) + k) mok src len flag vs n off of
            Some (hr, vs', off') \<Rightarrow> FAILED hr \<or> unat off \<le> unat off' \<and> unat off' \<le> length src
          | None \<Rightarrow> True)"
proof -
  have fits: "fits32 src" using assms(1) by (simp add: fits32_def)
  have "bcap_bytary2vntary (Suc (length src) + k) mok src len flag vs n off =
         vntary_over below (Suc (length src)) mok src len flag vs n off"
    by (rule bytary2vntary_over [OF fits assms(2)]) simp_all
  then show ?thesis
    using bytary2vntary_forward [OF fits assms(2), of "Suc (length src) + k" mok len flag vs n]
    unfolding forward_def by simp
qed

definition nested_items :: "byte list" where
  "nested_items = [0x0C, 0x20, 1, 0, 0, 0, 0x11, 0, 1, 0, 0, 0, 7]"

lemma bcap_bytary2vntary_terminates_witness:
  "vntary_over (\<lambda>vs n off. Some (S_FALSE, vs, off)) (Suc (length nested_items)) mem_ok nested_items 13 False [zero_variant] 1 0 =
   bcap_bytary2vntary (Suc (length nested_items) + 5) mem_ok nested_items 13 False [zero_variant] 1 0"
  by (rule conjunct1 [OF bcap_bytary2vntary_terminates]) (simp_all add: nested_items_def)

text \<open>
  C38: a buffer that is not framed as a packet (too short, a length field other than its
  size, no header or no terminator byte) is refused, and the destination is left as it was.
\<close>

theorem bcap_bytary2packet_frame:
  assumes "length buf = unat len"
    and "unat len < 16 \<or> le_word (take 4 (drop 1 buf)) \<noteq> len \<or> hd buf \<noteq> BCAP_HEADER \<or> last buf \<noteq> BCAP_TERMINATOR"
  shows "bcap_bytary2packet mok junk (Some buf) len (Some q) = Some (E_INVALIDPACKET, Some q)"
proof (cases "unat len < 16")
  case True
  then show ?thesis by (simp add: bcap_bytary2packet_def word_less_nat_alt)
next
  case False
  then have "buf \<noteq> []" using assms(1) by auto
  then have "hd buf = buf ! 0" "last buf = buf ! (unat len - 1)"
    using assms(1) by (simp_all add: hd_conv_nth last_conv_nth)
  with assms False show ?thesis
    by (auto simp: bcap_bytary2packet_def word_less_nat_alt)
qed

lemma bcap_bytary2packet_frame_witness:
  "bcap_bytary2packet mem_ok [] (Some (replicate 16 4)) 16 (Some sample_packet) =
   Some (E_INVALIDPACKET, Some sample_packet)"
  by (rule bcap_bytary2packet_frame) simp_all

definition overflow_packet :: "byte list" where
  "overflow_packet =
     [0x01,
      32, 0, 0, 0, \<comment> \<open>the length of the packet\<close>
      1, 0, 0, 0, 3, 0, 0, 0, 1, 0, \<comment> \<open>serial, version, function, one argument\<close>
      12, 0, 0, 0, 8, 0, 1, 0, 0, 0, \<comment> \<open>its length, \<open>VT_BSTR\<close>, one element\<close>
      0xFE, 0xFF, 1, 0, 0x41, 0, \<comment> \<open>131070 bytes of characters, of which one is present\<close>
      0x04]"

lemma dec_chars_short:
  "n \<noteq> 0 \<Longrightarrow> length s \<le> j \<Longrightarrow> get src len off 2 = Some (Some x) \<Longrightarrow> dec_chars src len j n s off = None"
  by (cases n) auto

definition system_dest :: bcap_packet where
  "system_dest = \<lparr>serial = 0, reserv = 0, func_id = 0, argc = 0xFFFF, args = None\<rparr>"

text \<open>
  C24: a packet of 32 bytes whose one string claims 65535 characters makes the decoder write
  outside the string it allocated: \<open>SysAllocStringLen\<close> computes its size in 16 bits, and the
  loop over the characters uses the length of the packet.
\<close>

theorem bcap_bytary2packet_overflow:
  "bcap_bytary2packet mem_ok [zero_variant] (Some overflow_packet) 32 (Some system_dest) = None"
proof -
  let ?src = "overflow_packet"
  have g: "get ?src 31 19 2 = Some (Some ([8, 0], 21))" "get ?src 31 21 4 = Some (Some ([1, 0, 0, 0], 25))"
    "get ?src 31 25 4 = Some (Some ([0xFE, 0xFF, 1, 0], 29))" "get ?src 31 29 2 = Some (Some ([0x41, 0], 31))"
    by (simp_all add: get_def load_def overflow_packet_def)
  have "dec_chars ?src 31 0 65535 [] 29 = None"
    by (rule dec_chars_short) (simp_all add: g)
  moreover have "SysAllocStringLen mem_ok (Some [0]) 0xFFFF = Some (Some [])"
    by (simp add: SysAllocStringLen_def)
  ultimately have "dec_bstr mem_ok ?src 31 None 25 = None"
    by (simp add: dec_bstr_def g Let_def)
  then have "dec_item mem_ok rest ?src 31 True zero_variant 15 = None" for rest
    by (simp add: dec_item_def g VariantInit_def bcap_bytary2vnt_def is_array_def bytary2vnt_scalar_def Let_def)
  then have "bcap_bytary2vntary d mem_ok ?src 31 True [zero_variant] (Suc 0) 15 = None" for d
    by (cases d) (simp_all add: bcap_bytary2vntary.simps)
  moreover have "le_word (take 4 (drop 1 ?src)) = (32 :: u32)" "le_word (take 2 (drop 13 ?src)) = (1 :: u16)"
    "?src ! 0 = 1" "?src ! 31 = 4" "length ?src = 32"
    by (simp_all add: overflow_packet_def)
  ultimately show ?thesis
    by (simp add: bcap_bytary2packet_def system_dest_def Let_def)
qed

text \<open>
  A date does not survive the wire: the reader truncates the seconds it recomputes from the
  days, and one second after a whole day's multiple comes back as the second before.
\<close>

theorem vntdate_loses_second:
  "bcap_bytary2vntdate (bcap_vntdate2bytary 1700000001) = Some (Some 1700000000) \<and>
   bcap_bytary2vntdate (bcap_vntdate2bytary 1700000002) = Some (Some 1700000002)"
  by code_simp

lemma bcap_bytary2packet_roundtrip_witness:
  "bcap_bytary2packet mem_ok [zero_variant] (Some (ser_packet sample_packet []))
     (of_nat (length (ser_packet sample_packet []))) (Some system_dest) =
   Some (S_OK, Some \<lparr>serial = 7, reserv = 0, func_id = 3, argc = 1, args = Some (wires [sample_variant])\<rparr>)"
proof -
  have "length (ser_packet sample_packet []) = 50" by code_simp
  then have "length (ser_packet sample_packet []) < 2 ^ 32" by simp
  moreover have "dates_oks (arg_list sample_packet)"
    by (simp add: sample_packet_def sample_variant_def arg_list_def dates_ok.simps dates_ok_body_def)
  moreover have "dest_room [zero_variant] system_dest (unat (argc sample_packet)) = Some [zero_variant]"
    by (simp add: dest_room_def system_dest_def sample_packet_def)
  ultimately show ?thesis
    using bcap_bytary2packet_roundtrip [OF wf_sample_packet, of "[]" "[zero_variant]" system_dest "[zero_variant]"]
    by (simp add: sample_packet_def arg_list_def)
qed

end
