(* ===== verification/BcapCrc.thy ===== *)
theory BcapCrc
  imports Prelude
begin

text \<open>
  The checksum of the serial line, \<open>bcap_calc_crc\<close> of \<open>bcap_core/src/bcap_common.c\<close>: one round
  of the inner loop, the loop over the bits of a byte and the loop over the buffer. The round
  is linear and injective, which gives what the checksum is for: two buffers that differ in at
  most two neighbouring bytes have different checksums.
\<close>

section \<open>The loops\<close>

definition crc_round :: "u16 \<Rightarrow> u16" where
  "crc_round crc = (if crc AND 0x8000 \<noteq> 0 then push_bit 1 crc XOR 0x1021 else push_bit 1 crc)"

fun crc_bits :: "nat \<Rightarrow> u16 \<Rightarrow> u16" where
  "crc_bits 0 crc = crc"
| "crc_bits (Suc n) crc = crc_bits n (crc_round crc)"

definition crc_byte :: "u16 \<Rightarrow> byte \<Rightarrow> u16" where
  "crc_byte crc b = crc_bits 8 (crc XOR push_bit 8 (ucast b))"

text \<open>\<open>buf\<close> is \<open>None\<close> for \<open>NULL\<close>; the loop reads \<open>len_buf\<close> bytes of it.\<close>

definition bcap_calc_crc :: "byte list option \<Rightarrow> u32 \<Rightarrow> u16 option" where
  "bcap_calc_crc buf len_buf =
     (case buf of
        None \<Rightarrow> Some 0xFFFF
      | Some bs \<Rightarrow>
          if unat len_buf \<le> length bs then Some (fold (\<lambda>b crc. crc_byte crc b) (take (unat len_buf) bs) 0xFFFF)
          else None)"

section \<open>Linearity\<close>

lemma crc_round_alt: "crc_round crc = push_bit 1 crc XOR (if bit crc 15 then 0x1021 else 0)"
  using bit_iff_and_push_bit_not_eq_0 [of crc 15] by (simp add: crc_round_def)

lemma xor_cancel: "(a :: 'a::len word) XOR b = a XOR c \<longleftrightarrow> b = c"
  by (auto simp: bit_eq_iff bit_simps)

lemma xor_feedback:
  "(a XOR b) XOR (if p \<noteq> q then k else 0) = (a XOR (if p then k else 0)) XOR (b XOR (if q then k else (0 :: u16)))"
  by (rule bit_word_eqI) (auto simp: bit_xor_iff)

lemma crc_round_xor: "crc_round (x XOR y) = crc_round x XOR crc_round y"
  by (simp only: crc_round_alt bit_xor_iff push_bit_xor xor_feedback)

lemma bit_push1: "bit (push_bit 1 (w :: u16)) n \<longleftrightarrow> n \<noteq> 0 \<and> n < 16 \<and> bit w (n - 1)"
  by (auto simp only: bit_push_bit_iff possible_bit_word) simp_all

lemma xor_zero_iff: "a XOR b = 0 \<longleftrightarrow> a = (b :: 'a::len word)"
  by (auto simp: bit_eq_iff bit_simps)

lemma crc_round_zero: "crc_round z = 0 \<longleftrightarrow> z = 0"
proof
  assume "crc_round z = 0"
  then have z: "bit (push_bit 1 z) n = bit (if bit z 15 then 0x1021 else (0 :: u16)) n" for n
    by (simp only: crc_round_alt xor_zero_iff)
  have top: "\<not> bit z 15"
  proof
    assume "bit z 15"
    then have "bit (push_bit 1 z) 0 = bit (0x1021 :: u16) 0"
      using z [of 0] by (simp only: if_True)
    then show False by (simp only: bit_push1) simp
  qed
  have "\<not> bit z n" for n
  proof (cases "n < 15")
    case True
    then show ?thesis using z [of "Suc n"] top by (simp only: bit_push1) simp
  next
    case False
    then show ?thesis
      using top bit_imp_le_length [of z n] by (cases "n = 15") auto
  qed
  then show "z = 0" by (simp add: bit_eq_iff)
qed (simp add: crc_round_def)

lemma crc_round_inj: "crc_round x = crc_round y \<longleftrightarrow> x = y"
  using crc_round_zero [of "x XOR y"] by (simp only: crc_round_xor xor_zero_iff)

lemma crc_bits_xor: "crc_bits n (x XOR y) = crc_bits n x XOR crc_bits n y"
  by (induction n arbitrary: x y) (simp_all add: crc_round_xor)

lemma crc_bits_inj [simp]: "crc_bits n x = crc_bits n y \<longleftrightarrow> x = y"
  by (induction n arbitrary: x y) (simp_all add: crc_round_inj)

lemma crc_bits_add: "crc_bits (m + n) x = crc_bits n (crc_bits m x)"
  by (induction m arbitrary: x) simp_all

lemma crc_bits_low: "n \<le> 8 \<Longrightarrow> crc_bits n (ucast (b :: byte)) = push_bit n (ucast b)"
proof (induction n)
  case (Suc n)
  have "crc_bits (Suc n) (ucast b) = crc_round (push_bit n (ucast b))"
    using Suc crc_bits_add [of n 1 "ucast b"] by simp
  also have "\<dots> = push_bit (Suc n) (ucast b)"
  proof -
    have "\<not> bit (push_bit n (ucast b) :: u16) 15"
      using Suc.prems bit_imp_le_length [of b "15 - n"] by (auto simp: bit_simps)
    then show ?thesis by (simp add: crc_round_alt)
  qed
  finally show ?case .
qed simp

lemma crc_bits_8:
  "crc_bits 8 c = crc_round (crc_round (crc_round (crc_round (crc_round (crc_round (crc_round (crc_round c)))))))"
  by (simp add: eval_nat_numeral)

text \<open>Two bytes in a row are sixteen rounds on the two of them.\<close>

lemma crc_byte2: "crc_byte (crc_byte c a) b = crc_bits 16 (c XOR (push_bit 8 (ucast a) XOR ucast b))"
proof -
  have "crc_byte (crc_byte c a) b = crc_bits 8 (crc_bits 8 (c XOR push_bit 8 (ucast a)) XOR crc_bits 8 (ucast b))"
    by (simp add: crc_byte_def crc_bits_low)
  also have "\<dots> = crc_bits (8 + 8) (c XOR (push_bit 8 (ucast a) XOR ucast b))"
    by (simp only: crc_bits_add crc_bits_xor xor.assoc)
  finally show ?thesis by simp
qed

lemma byte_pair_inj:
  assumes "push_bit 8 (ucast (a :: byte)) XOR ucast b = (push_bit 8 (ucast a') XOR ucast (b' :: byte) :: u16)"
  shows "a = a' \<and> b = b'"
proof -
  have l: "bit b n = bit b' n" if "n < 8" for n
    using that arg_cong [OF assms, of "\<lambda>w. bit w n"] by (simp add: bit_simps)
  have h: "bit a n = bit a' n" if "n < 8" for n
    using that arg_cong [OF assms, of "\<lambda>w. bit w (n + 8)"] bit_imp_le_length [of b "n + 8"] bit_imp_le_length [of b' "n + 8"]
    by (auto simp: bit_simps)
  show ?thesis
    using l h by (auto simp: bit_eq_iff)
qed

lemma crc_byte_inj [simp]: "crc_byte c b = crc_byte c' b \<longleftrightarrow> c = c'"
  unfolding crc_byte_def by (simp add: xor_cancel xor.commute [of _ "push_bit 8 _"])

lemma fold_crc_inj [simp]:
  "fold (\<lambda>b crc. crc_byte crc b) bs c = fold (\<lambda>b crc. crc_byte crc b) bs c' \<longleftrightarrow> c = c'"
  by (induction bs arbitrary: c c') simp_all

text \<open>
  Two buffers of the same length that differ only within two neighbouring bytes have
  different checksums: every error of one byte, and every burst within two, is detected.
\<close>

lemma bcap_calc_crc_detects:
  assumes "length buf < 2 ^ 32" and "buf = pre @ [a, b] @ post" and "buf' = pre @ [a', b'] @ post"
    and "buf \<noteq> buf'"
  shows "bcap_calc_crc (Some buf) (of_nat (length buf)) \<noteq> bcap_calc_crc (Some buf') (of_nat (length buf')) \<and>
         bcap_calc_crc (Some buf) (of_nat (length buf)) \<noteq> None"
proof -
  have len: "length buf' = length buf" "unat (of_nat (length buf) :: u32) = length buf"
    using assms(2,3) apply simp using assms(1) by (simp add: unat_of_nat)
  have "(a, b) \<noteq> (a', b')" using assms(2-4) by auto
  then have "crc_byte (crc_byte c a) b \<noteq> crc_byte (crc_byte c a') b'" for c
    by (auto simp: crc_byte2 xor_cancel dest!: byte_pair_inj)
  then show ?thesis
    using len by (simp add: bcap_calc_crc_def) (simp add: assms(2,3))
qed


lemma bcap_calc_crc_detects_witness:
  "bcap_calc_crc (Some [1, 2, 3, 4]) (of_nat (length [1, 2, 3, 4 :: byte])) \<noteq>
   bcap_calc_crc (Some [1, 2, 7, 9]) (of_nat (length [1, 2, 7, 9 :: byte]))"
  by (rule conjunct1 [OF bcap_calc_crc_detects [where pre = "[1, 2]" and a = 3 and b = 4 and post = "[]"
        and a' = 7 and b' = 9]]) simp_all

text \<open>
  The checksum is CRC-16 of CCITT with the initial value FFFF: its published check value,
  on the nine bytes of "123456789".
\<close>

theorem bcap_calc_crc_check:
  "bcap_calc_crc (Some [0x31, 0x32, 0x33, 0x34, 0x35, 0x36, 0x37, 0x38, 0x39]) 9 = Some 0x29B1"
proof -
  have "crc_byte 0xFFFF 0x31 = 0xC782"
    "crc_byte 0xC782 0x32 = 0x3DBA"
    "crc_byte 0x3DBA 0x33 = 0x5BCE"
    "crc_byte 0x5BCE 0x34 = 0x5349"
    "crc_byte 0x5349 0x35 = 0x4560"
    "crc_byte 0x4560 0x36 = 0x2EF4"
    "crc_byte 0x2EF4 0x37 = 0x7718"
    "crc_byte 0x7718 0x38 = 0xA12B"
    "crc_byte 0xA12B 0x39 = 0x29B1"
    by (simp_all add: crc_byte_def crc_bits_8 crc_round_def)
  then show ?thesis by (simp add: bcap_calc_crc_def)
qed

end
