(* ===== verification/BcapTransport.thy ===== *)
theory BcapTransport
  imports BcapDecode BcapCrc
begin

text \<open>
  Packets over a device: \<open>bcap_send\<close> and \<open>bcap_recv\<close> of \<open>bcap_core/src/bcap_common.c\<close>, and the
  TCP and UDP drivers they call through the function pointers of the connection record
  (\<open>tcp_send\<close>, \<open>tcp_recv\<close> of \<open>dn_tcp.c\<close>, \<open>udp_send\<close>, \<open>udp_recv\<close>, \<open>udp_check_sockaddr\<close> of \<open>dn_udp.c\<close>).

  \<^item> \<open>'w\<close> is the state of the world outside the process. A device is a record of the two calls
    \<open>bcap_common.c\<close> makes on it; the system calls below the drivers are a record of their own.
  \<^item> A receive reports its code, the value it stored in \<open>*len_recved\<close> if it stored one, the
    bytes it put at the start of the buffer, and the sender.
  \<^item> The receive loops have no bound of their own: they are partial functions, and \<open>None\<close> is
    also the result of a loop that does not end.
  \<^item> \<open>buf_tmp\<close> is the list of its first \<open>len_recved\<close> bytes, the only ones that are read.
    Moving its contents to the front is a copy of overlapping regions with \<open>memcpy\<close>; it is
    taken to do what \<open>memmove\<close> does.
\<close>

abbreviation (input) UDP_MAX_PACKET :: u32 where "UDP_MAX_PACKET \<equiv> 503"
abbreviation (input) MSG_PEEK :: i32 where "MSG_PEEK \<equiv> 2"
abbreviation (input) MSG_NOSIGNAL :: i32 where "MSG_NOSIGNAL \<equiv> 0x4000"

text \<open>The special parameter of a send or a receive: \<open>NULL\<close>, an \<open>int\<close>, a \<open>struct udpaddr\<close>.\<close>

datatype dev_arg = ArgNull | ArgFlag i32 | ArgUdp i32 sockaddr_in

datatype recv_out =
  RecvOut (r_hr: hresult) (r_len: "u32 option") (r_data: "byte list") (r_from: sockaddr_in)

record 'w io =
  dev_send :: "dn_func \<Rightarrow> i32 \<Rightarrow> byte list \<Rightarrow> dev_arg \<Rightarrow> 'w \<Rightarrow> hresult \<times> 'w"
  dev_recv :: "dn_func \<Rightarrow> i32 \<Rightarrow> u32 \<Rightarrow> u32 \<Rightarrow> dev_arg \<Rightarrow> 'w \<Rightarrow> recv_out \<times> 'w"

section \<open>The TCP and UDP drivers\<close>

text \<open>
  The system calls: \<open>check_timeout\<close> waits for input, \<open>recv\<close> and \<open>recvfrom\<close> return the bytes they
  stored or an errno, \<open>send\<close> and \<open>sendto\<close> the number of bytes they took or an errno.
\<close>

datatype 'a sys = Err i32 | Done 'a

record 'w os =
  os_ready :: "i32 \<Rightarrow> u32 \<Rightarrow> 'w \<Rightarrow> hresult \<times> 'w"
  os_recv :: "i32 \<Rightarrow> nat \<Rightarrow> i32 \<Rightarrow> 'w \<Rightarrow> byte list sys \<times> 'w"
  os_recvfrom :: "i32 \<Rightarrow> nat \<Rightarrow> i32 \<Rightarrow> 'w \<Rightarrow> (byte list \<times> sockaddr_in) sys \<times> 'w"
  os_send :: "i32 \<Rightarrow> byte list \<Rightarrow> i32 \<Rightarrow> 'w \<Rightarrow> nat sys \<times> 'w"
  os_sendto :: "i32 \<Rightarrow> byte list \<Rightarrow> i32 \<Rightarrow> sockaddr_in \<Rightarrow> 'w \<Rightarrow> nat sys \<times> 'w"

definition arg_flag :: "dev_arg \<Rightarrow> i32" where
  "arg_flag a = (case a of ArgNull \<Rightarrow> 0 | ArgFlag f \<Rightarrow> f | ArgUdp f s \<Rightarrow> f)"

definition arg_addr :: "dev_arg \<Rightarrow> sockaddr_in" where
  "arg_addr a = (case a of ArgUdp f s \<Rightarrow> s | _ \<Rightarrow> \<lparr>s_addr = 0, sin_port = 0\<rparr>)"

text \<open>A buffer is sent up to \<open>len_buf\<close>, its first byte must not be zero (\<open>strlen(buf) == 0\<close>).\<close>

definition tcp_send :: "'w os \<Rightarrow> i32 \<Rightarrow> byte list \<Rightarrow> dev_arg \<Rightarrow> 'w \<Rightarrow> hresult \<times> 'w" where
  "tcp_send os sck buf a w =
     (if sint sck \<le> 0 then (E_HANDLE, w)
      else if buf = [] \<or> hd buf = 0 then (E_INVALIDARG, w)
      else case os_send os sck buf (MSG_NOSIGNAL OR arg_flag a) w of
        (Err e, w') \<Rightarrow> (OSERR2HRESULT e, w')
      | (Done n, w') \<Rightarrow> if n < length buf then (E_TIMEOUT, w') else (S_OK, w'))"

definition tcp_recv :: "'w os \<Rightarrow> i32 \<Rightarrow> u32 \<Rightarrow> u32 \<Rightarrow> dev_arg \<Rightarrow> 'w \<Rightarrow> recv_out \<times> 'w" where
  "tcp_recv os sck len_buf tmo a w =
     (let from = \<lparr>s_addr = 0, sin_port = 0\<rparr> in
      if sint sck \<le> 0 then (RecvOut E_HANDLE None [] from, w)
      else case os_ready os sck tmo w of (hr, w1) \<Rightarrow>
        if FAILED hr then (RecvOut hr None [] from, w1)
        else case os_recv os sck (unat len_buf) (arg_flag a) w1 of
          (Err e, w2) \<Rightarrow> (RecvOut (OSERR2HRESULT e) (Some (- 1)) [] from, w2)
        | (Done bs, w2) \<Rightarrow>
            (RecvOut (if bs = [] then E_ACCESSDENIED else S_OK) (Some (of_nat (length bs))) bs from, w2))"

definition udp_send :: "'w os \<Rightarrow> i32 \<Rightarrow> byte list \<Rightarrow> dev_arg \<Rightarrow> 'w \<Rightarrow> hresult \<times> 'w" where
  "udp_send os sck buf a w =
     (if sint sck \<le> 0 then (E_HANDLE, w)
      else if buf = [] \<or> hd buf = 0 \<or> a = ArgNull then (E_INVALIDARG, w)
      else case os_sendto os sck buf (arg_flag a) (arg_addr a) w of
        (Err e, w') \<Rightarrow> (OSERR2HRESULT e, w')
      | (Done n, w') \<Rightarrow> if n < length buf then (E_TIMEOUT, w') else (S_OK, w'))"

definition udp_recv :: "'w os \<Rightarrow> i32 \<Rightarrow> u32 \<Rightarrow> u32 \<Rightarrow> dev_arg \<Rightarrow> 'w \<Rightarrow> recv_out \<times> 'w" where
  "udp_recv os sck len_buf tmo a w =
     (let from = arg_addr a in
      if sint sck \<le> 0 then (RecvOut E_HANDLE None [] from, w)
      else if a = ArgNull then (RecvOut E_INVALIDARG None [] from, w)
      else case os_ready os sck tmo w of (hr, w1) \<Rightarrow>
        if FAILED hr then (RecvOut hr None [] from, w1)
        else case os_recvfrom os sck (unat len_buf) (arg_flag a) w1 of
          (Err e, w2) \<Rightarrow> (RecvOut (OSERR2HRESULT e) (Some (- 1)) [] from, w2)
        | (Done (bs, s), w2) \<Rightarrow> (RecvOut S_OK (Some (of_nat (length bs))) bs s, w2))"

definition udp_check_sockaddr :: "sockaddr_in option \<Rightarrow> sockaddr_in option \<Rightarrow> hresult" where
  "udp_check_sockaddr sock_to sock_from =
     (case (sock_to, sock_from) of
        (Some t, Some f) \<Rightarrow> if s_addr t \<noteq> s_addr f \<or> sin_port t \<noteq> sin_port f then E_ACCESSDENIED else S_OK
      | _ \<Rightarrow> E_INVALIDARG)"

section \<open>Sending\<close>

text \<open>The arguments of a send and the largest packet, by the type of the connection.\<close>

definition send_arg :: "conn_param_common \<Rightarrow> hresult + (u32 \<times> dev_arg)" where
  "send_arg d =
     (if conn_type d = CONN_TCP then Inr (- 1, ArgFlag 0)
      else if conn_type d = CONN_UDP then
        (case arg d of None \<Rightarrow> Inl E_INVALIDARG | Some a \<Rightarrow> Inr (UDP_MAX_PACKET, ArgUdp 0 a))
      else if conn_type d = CONN_COM then Inr (UDP_MAX_PACKET, ArgNull)
      else Inl E_INVALIDARG)"

definition add_crc :: "byte list \<Rightarrow> byte list option" where
  "add_crc buf =
     Option.bind (bcap_calc_crc (Some (drop 1 buf)) (of_nat (length buf) - 4)) (\<lambda>crc.
       store buf (length buf - 3) (le_bytes 2 crc))"

definition bcap_send :: "'w io \<Rightarrow> (nat \<Rightarrow> bool) \<Rightarrow> conn_param_common option \<Rightarrow> bcap_packet option \<Rightarrow> 'w \<Rightarrow>
    (hresult \<times> 'w) option" where
  "bcap_send io mok device packet w =
     (let hr = check_conn_param device CHECK_FUNC_SEND in
      case (device, packet) of
        (Some d, Some p) \<Rightarrow>
          if FAILED hr then Some (hr, w)
          else (case send_arg d of
            Inl e \<Rightarrow> Some (e, w)
          | Inr (len_max, parg) \<Rightarrow> (case bcap_calc_size_packet packet of
              None \<Rightarrow> None
            | Some len0 \<Rightarrow>
                let com = (conn_type d = CONN_COM); len = (if com then len0 + BCAP_SIZE_CRC else len0) in
                if len_max < len then Some (E_TOO_MUCH_DATA, w)
                else if \<not> mok (unat len) then Some (E_OUTOFMEMORY, w)
                else (case bcap_packet2bytary packet (Some (replicate (unat len) 0)) len of
                    None \<Rightarrow> None
                  | Some (hr1, buf) \<Rightarrow>
                      if FAILED hr1 then Some (hr1, w)
                      else (case (if com then Option.bind buf add_crc else buf) of
                          None \<Rightarrow> None
                        | Some bs \<Rightarrow> Some (dev_send io (the (dn_send d)) (sock d) bs parg w)))))
      | (None, _) \<Rightarrow> Some (hr, w)
      | (Some d, None) \<Rightarrow> Some (if FAILED hr then hr else E_INVALIDARG, w))"

section \<open>Receiving\<close>

text \<open>The limits of a packet and the argument of a receive.\<close>

definition recv_arg :: "conn_param_common \<Rightarrow> hresult + (u32 \<times> u32 \<times> dev_arg)" where
  "recv_arg d =
     (if conn_type d = CONN_TCP then Inr (BCAP_SIZE_MIN, - 1, ArgFlag MSG_PEEK)
      else if conn_type d = CONN_UDP then
        (case arg d of
           None \<Rightarrow> Inl E_INVALIDARG
         | Some a \<Rightarrow> Inr (BCAP_SIZE_MIN, UDP_MAX_PACKET, ArgUdp 0 \<lparr>s_addr = 0, sin_port = 0\<rparr>))
      else if conn_type d = CONN_COM then Inr (BCAP_SIZE_MIN + BCAP_SIZE_CRC, UDP_MAX_PACKET, ArgNull)
      else Inl E_INVALIDARG)"

text \<open>What the loops change: the device (the sender of a datagram), \<open>flag_init\<close>, the world.\<close>

record 'w rstate =
  rdev :: conn_param_common
  rflag :: bool
  rworld :: 'w

definition dev_read :: "'w io \<Rightarrow> u32 \<Rightarrow> dev_arg \<Rightarrow> 'w rstate \<Rightarrow> recv_out \<times> 'w rstate" where
  "dev_read io n a st =
     (let d = rdev st; (out, w) = dev_recv io (the (dn_recv d)) (sock d) n (timeout d) a (rworld st)
      in (out, st\<lparr>rworld := w\<rparr>))"

text \<open>Reading bytes off the stream whose code and contents are dropped.\<close>

definition dev_skip :: "'w io \<Rightarrow> nat \<Rightarrow> 'w rstate \<Rightarrow> 'w rstate" where
  "dev_skip io n st =
     (if conn_type (rdev st) = CONN_TCP then snd (dev_read io (of_nat n) ArgNull st) else st)"

text \<open>The check of the sender of a datagram; a server adopts the first sender.\<close>

definition check_sender :: "bool \<Rightarrow> recv_out \<Rightarrow> 'w rstate \<Rightarrow> hresult \<times> 'w rstate" where
  "check_sender known out st =
     (let d = rdev st in
      if conn_type d \<noteq> CONN_UDP then (r_hr out, st)
      else if known \<or> rflag st then
        ((if SUCCEEDED (r_hr out) then udp_check_sockaddr (arg d) (Some (r_from out)) else r_hr out), st)
      else (r_hr out, st\<lparr>rdev := d\<lparr>arg := Some (r_from out)\<rparr>, rflag := True\<rparr>))"

text \<open>The bytes a successful receive added, when they are within the room it was given.\<close>

definition recved :: "nat \<Rightarrow> recv_out \<Rightarrow> byte list option" where
  "recved room out =
     (if r_len out = Some (of_nat (length (r_data out))) \<and> length (r_data out) \<le> room
      then Some (r_data out) else None)"

text \<open>The start of \<open>buf_tmp\<close> after the search for a header: what is before it is taken off the stream.\<close>

definition align_header :: "'w io \<Rightarrow> byte list \<Rightarrow> 'w rstate \<Rightarrow> byte list \<times> 'w rstate" where
  "align_header io buf st =
     (let k = length (takeWhile (\<lambda>b. b \<noteq> BCAP_HEADER) buf) in
      if k < length buf then (drop k buf, if k = 0 then st else dev_skip io k st)
      else ([], dev_skip io k st))"

partial_function (option) find_header ::
  "'w io \<Rightarrow> bool \<Rightarrow> dev_arg \<Rightarrow> byte list \<Rightarrow> 'w rstate \<Rightarrow> (hresult \<times> byte list \<times> 'w rstate) option" where
  "find_header io client parg buf st =
     (let (buf1, st1) = align_header io buf st in
      if 5 \<le> length buf1 then Some (S_OK, buf1, st1)
      else
        let buf2 = (if conn_type (rdev st1) = CONN_TCP then [] else buf1);
            (out, st2) = dev_read io (UDP_MAX_PACKET - of_nat (length buf2)) parg st1;
            (hr, st3) = check_sender client out st2
        in if FAILED hr then Some (hr, buf2, st3)
           else (case recved (503 - length buf2) out of
               None \<Rightarrow> None
             | Some bs \<Rightarrow> find_header io client parg (buf2 @ bs) st3))"

text \<open>The rest of the packet into \<open>buf_recv\<close>, which already has its first \<open>n\<close> bytes.\<close>

partial_function (option) recv_rest ::
  "'w io \<Rightarrow> dev_arg \<Rightarrow> u32 \<Rightarrow> byte list \<Rightarrow> u32 \<Rightarrow> 'w rstate \<Rightarrow> (hresult \<times> byte list \<times> 'w rstate) option" where
  "recv_rest io parg len_recv buf n st =
     (if len_recv \<le> n then Some (S_OK, buf, st)
      else
        let (out, st1) = dev_read io (len_recv - n) parg st;
            (hr, st2) = check_sender True out st1
        in if FAILED hr then Some (hr, buf, st2)
           else (case Option.bind (recved (unat (len_recv - n)) out) (\<lambda>bs. store buf (unat n) bs) of
               None \<Rightarrow> None
             | Some buf' \<Rightarrow> recv_rest io parg len_recv buf' (n + of_nat (length (r_data out))) st2))"

text \<open>
  The packet whose length was read: the buffer of that size (fresh memory), the bytes that are
  there, the rest, the decoding, and on a serial line the comparison of the checksums.
\<close>

definition start_packet :: "'w io \<Rightarrow> byte list \<Rightarrow> u32 \<Rightarrow> byte list \<Rightarrow> 'w rstate \<Rightarrow> (byte list \<times> u32 \<times> 'w rstate) option" where
  "start_packet io fresh len_recv buf st =
     (let mem = take (unat len_recv) fresh in
      if conn_type (rdev st) = CONN_TCP then
        (case dev_read io len_recv (ArgFlag 0) st of (out, st1) \<Rightarrow>
           if length (r_data out) \<le> unat len_recv
           then Some (r_data out @ drop (length (r_data out)) mem,
                      case r_len out of None \<Rightarrow> of_nat (length buf) | Some n \<Rightarrow> n, st1)
           else None)
      else
        let n = min (unat len_recv) (length buf)
        in Some (take n buf @ drop n mem, of_nat (length buf), st))"

definition crc_matches :: "byte list \<Rightarrow> bool option" where
  "crc_matches buf =
     Option.bind (bcap_calc_crc (Some (drop 1 buf)) (of_nat (length buf) - 4)) (\<lambda>crc.
       map_option (\<lambda>bs. crc = le_word bs) (load buf (length buf - 3) 2))"

definition second_arg :: "dev_arg \<Rightarrow> dev_arg" where
  "second_arg a = (case a of ArgFlag f \<Rightarrow> ArgFlag 0 | a \<Rightarrow> a)"

partial_function (option) recv_packet ::
  "'w io \<Rightarrow> (nat \<Rightarrow> bool) \<Rightarrow> variant list \<Rightarrow> byte list \<Rightarrow> bool \<Rightarrow> u32 \<times> u32 \<times> dev_arg \<Rightarrow> bcap_packet \<Rightarrow>
   'w rstate \<Rightarrow> (hresult \<times> bcap_packet \<times> 'w rstate) option" where
  "recv_packet io mok junk fresh client lim q st =
     (let (len_min, len_max, parg) = lim in
      case find_header io client parg [] st of
        None \<Rightarrow> None
      | Some (hr, buf, st1) \<Rightarrow>
          if FAILED hr then Some (hr, q, st1)
          else
            let len_recv = (le_word (take 4 (drop 1 buf)) :: u32) in
            if len_recv < len_min \<or> len_max < len_recv
            then recv_packet io mok junk fresh client lim q (dev_skip io 1 st1)
            else if \<not> mok (unat len_recv) then Some (E_OUTOFMEMORY, q, st1)
            else (case Option.bind (start_packet io fresh len_recv buf st1)
                        (\<lambda>(mem, n, st2). recv_rest io (second_arg parg) len_recv mem n st2) of
                None \<Rightarrow> None
              | Some (hr2, mem, st3) \<Rightarrow>
                  if FAILED hr2 then Some (hr2, q, st3)
                  else (case bcap_bytary2packet mok junk (Some mem) len_recv (Some q) of
                      Some (hr3, Some q') \<Rightarrow>
                        if FAILED hr3 then Some (hr3, q', st3)
                        else if conn_type (rdev st3) \<noteq> CONN_COM then Some (hr3, q', st3)
                        else (case crc_matches mem of
                            None \<Rightarrow> None
                          | Some ok \<Rightarrow>
                              if ok then Some (hr3, q', st3)
                              else recv_packet io mok junk fresh client lim q' st3)
                    | _ \<Rightarrow> None)))"

definition bcap_recv ::
  "'w io \<Rightarrow> (nat \<Rightarrow> bool) \<Rightarrow> variant list \<Rightarrow> byte list \<Rightarrow> conn_param_common option \<Rightarrow> bcap_packet option \<Rightarrow>
   bool \<Rightarrow> 'w \<Rightarrow> (hresult \<times> bcap_packet option \<times> conn_param_common option \<times> 'w) option" where
  "bcap_recv io mok junk fresh device packet client w =
     (let hr = check_conn_param device CHECK_FUNC_RECV in
      case (device, packet) of
        (Some d, Some q) \<Rightarrow>
          if FAILED hr then Some (hr, packet, device, w)
          else (case recv_arg d of
              Inl e \<Rightarrow> Some (e, packet, device, w)
            | Inr lim \<Rightarrow>
                map_option (\<lambda>(hr', q', st). (hr', Some q', Some (rdev st), rworld st))
                  (recv_packet io mok junk fresh client lim q \<lparr>rdev = d, rflag = False, rworld = w\<rparr>))
      | (None, _) \<Rightarrow> Some (hr, packet, device, w)
      | (Some d, None) \<Rightarrow> Some (if FAILED hr then hr else E_INVALIDARG, packet, device, w))"

end
