(* ===== verification/BcapStream.thy ===== *)
theory BcapStream
  imports BcapTransport BcapDecodeSafe
begin

text \<open>
  Receiving from a TCP stream. The interface between \<open>bcap_recv\<close> and a stream driver is the
  locale \<open>stream_device\<close>: what a receive with and without \<open>MSG_PEEK\<close> does to the bytes that are
  still to come. Inside it, the receive loops find and reassemble a packet however the stream
  is cut into segments. The interpretation is the driver of \<open>dn_tcp.c\<close> over a network that
  delivers one segment at a time.
\<close>

section \<open>The interface\<close>

definition peeks :: "dev_arg \<Rightarrow> bool" where
  "peeks a \<longleftrightarrow> arg_flag a AND MSG_PEEK \<noteq> 0"

lemma takeWhile_noise:
  "x \<notin> set noise \<Longrightarrow> takeWhile (\<lambda>b. b \<noteq> x) (take m (noise @ x # rest)) = take m noise"
proof (induction noise arbitrary: m)
  case Nil
  then show ?case by (cases m) auto
next
  case (Cons a noise)
  then show ?case by (cases m) auto
qed

text \<open>The packet a successful receive returns, for the packet \<open>p\<close> that was sent.\<close>

abbreviation received :: "bcap_packet \<Rightarrow> bcap_packet \<Rightarrow> variant list \<Rightarrow> bcap_packet" where
  "received p q us \<equiv> \<lparr>serial = serial p, reserv = reserv p, func_id = func_id p, argc = argc p,
     args = (if argc p = 0 then args q else Some (wires (arg_list p) @ drop (unat (argc p)) us))\<rparr>"

locale stream_device =
  fixes io :: "'w io" and d :: conn_param_common
    and pend :: "'w \<Rightarrow> byte list" and seen :: "'w \<Rightarrow> nat" and ok :: "'w \<Rightarrow> bool"
  assumes tcp: "conn_type d = CONN_TCP"
    and seen_le: "ok w \<Longrightarrow> seen w \<le> length (pend w)"
    and read: "ok w \<Longrightarrow> pend w \<noteq> [] \<Longrightarrow>
      \<exists>s fr w'. seen w \<le> s \<and> s \<le> length (pend w) \<and> (seen w < s \<or> s = length (pend w)) \<and>
        dev_recv io (the (dn_recv d)) (sock d) n (timeout d) a w =
          (RecvOut (if min (unat n) s = 0 then E_ACCESSDENIED else S_OK) (Some (of_nat (min (unat n) s)))
             (take (min (unat n) s) (pend w)) fr, w') \<and>
        ok w' \<and> pend w' = (if peeks a then pend w else drop (min (unat n) s) (pend w)) \<and>
        seen w' = (if peeks a then s else s - min (unat n) s)"
begin

abbreviation rst :: "bool \<Rightarrow> 'w \<Rightarrow> 'w rstate" where
  "rst f w \<equiv> \<lparr>rdev = d, rflag = f, rworld = w\<rparr>"

lemma dev_read_ok:
  assumes "ok w" and "pend w \<noteq> []"
  obtains s fr w' where "seen w \<le> s" "s \<le> length (pend w)" "seen w < s \<or> s = length (pend w)"
    "dev_read io n a (rst f w) =
       (RecvOut (if min (unat n) s = 0 then E_ACCESSDENIED else S_OK) (Some (of_nat (min (unat n) s)))
          (take (min (unat n) s) (pend w)) fr, rst f w')"
    "ok w'" "pend w' = (if peeks a then pend w else drop (min (unat n) s) (pend w))"
    "seen w' = (if peeks a then s else s - min (unat n) s)"
proof -
  obtain s fr w' where "seen w \<le> s" "s \<le> length (pend w)" "seen w < s \<or> s = length (pend w)"
    and r: "dev_recv io (the (dn_recv d)) (sock d) n (timeout d) a w =
          (RecvOut (if min (unat n) s = 0 then E_ACCESSDENIED else S_OK) (Some (of_nat (min (unat n) s)))
             (take (min (unat n) s) (pend w)) fr, w')"
    and "ok w'" "pend w' = (if peeks a then pend w else drop (min (unat n) s) (pend w))"
    "seen w' = (if peeks a then s else s - min (unat n) s)"
    using read [OF assms, of n a] by blast
  moreover have "dev_read io n a (rst f w) =
       (RecvOut (if min (unat n) s = 0 then E_ACCESSDENIED else S_OK) (Some (of_nat (min (unat n) s)))
          (take (min (unat n) s) (pend w)) fr, rst f w')"
    using r by (simp add: dev_read_def)
  ultimately show thesis by (intro that)
qed

lemma dev_skip_ok:
  assumes "ok w" and "pend w \<noteq> []" and "n \<le> seen w" and "n < 2 ^ 32"
  obtains w' where "dev_skip io n (rst f w) = rst f w'" "ok w'" "pend w' = drop n (pend w)" "seen w \<le> seen w' + n"
    "seen w' + n \<le> length (pend w)"
proof -
  have n: "unat (of_nat n :: u32) = n" using assms(4) by (rule unat_of_nat_32)
  obtain s fr w' where s: "seen w \<le> s" "s \<le> length (pend w)"
    and r: "dev_read io (of_nat n) ArgNull (rst f w) =
       (RecvOut (if min (unat (of_nat n :: u32)) s = 0 then E_ACCESSDENIED else S_OK)
          (Some (of_nat (min (unat (of_nat n :: u32)) s))) (take (min (unat (of_nat n :: u32)) s) (pend w)) fr, rst f w')"
    and w': "ok w'" "pend w' = (if peeks ArgNull then pend w else drop (min (unat (of_nat n :: u32)) s) (pend w))"
      "seen w' = (if peeks ArgNull then s else s - min (unat (of_nat n :: u32)) s)"
    by (rule dev_read_ok [OF assms(1,2), of "of_nat n" ArgNull f])
  have "min n s = n" using s assms(3) by simp
  with n w' have "pend w' = drop n (pend w)" "seen w' = s - n" by (simp_all add: peeks_def arg_flag_def)
  moreover have "dev_skip io n (rst f w) = rst f w'" using r by (simp add: dev_skip_def tcp)
  ultimately show thesis using w'(1) s assms(3) by (intro that) auto
qed

text \<open>
  The search for the header: what is buffered is the start of the stream, and after a peek it
  is all that is visible, up to the size of the buffer.
\<close>

definition peeked :: "byte list \<Rightarrow> 'w \<Rightarrow> bool" where
  "peeked buf w \<longleftrightarrow> buf = take (length buf) (pend w) \<and> length buf \<le> 503 \<and> length buf \<le> seen w \<and>
     seen w \<le> length (pend w) \<and> (buf = [] \<or> length buf = min 503 (seen w))"

text \<open>How far the search is from its end.\<close>

definition distance :: "byte list \<Rightarrow> 'w \<Rightarrow> nat" where
  "distance buf w = 2 * length (pend w) - seen w + (if buf = [] then 1 else 0)"

lemma align_header_ok:
  assumes "ok w" and "pend w = noise @ BCAP_HEADER # rest" and "BCAP_HEADER \<notin> set noise" and "peeked buf w"
  obtains buf1 w1 noise1 where "align_header io buf (rst f w) = (buf1, rst f w1)" "ok w1"
    "pend w1 = noise1 @ BCAP_HEADER # rest" "BCAP_HEADER \<notin> set noise1"
    "buf1 = take (length buf1) (pend w1)" "length buf1 \<le> seen w1" "seen w1 \<le> length (pend w1)"
    "buf1 \<noteq> [] \<longrightarrow> noise1 = []"
    "buf = [] \<and> buf1 = [] \<and> 2 * length (pend w1) - seen w1 \<le> 2 * length (pend w) - seen w
     \<or> buf \<noteq> [] \<and> buf1 = buf \<and> w1 = w
     \<or> buf \<noteq> [] \<and> 2 * length (pend w1) - seen w1 < 2 * length (pend w) - seen w"
proof -
  let ?k = "length (takeWhile (\<lambda>b. b \<noteq> BCAP_HEADER) buf)"
  have buf: "buf = take (length buf) (noise @ BCAP_HEADER # rest)" "length buf \<le> 503" "length buf \<le> seen w"
    "seen w \<le> length (pend w)"
    using assms(2,4) unfolding peeked_def by auto
  have k: "?k = min (length buf) (length noise)"
    using takeWhile_noise [OF assms(3), of "length buf" rest] buf(1) by simp
  have ne: "pend w \<noteq> []" using assms(2) by simp
  have small: "?k < 2 ^ 32" "?k \<le> seen w" using buf k by auto
  obtain w1 where w1: "dev_skip io ?k (rst f w) = rst f w1" "ok w1" "pend w1 = drop ?k (pend w)"
      "seen w \<le> seen w1 + ?k" "seen w1 + ?k \<le> length (pend w)"
    by (rule dev_skip_ok [OF assms(1) ne small(2,1)])
  have le: "2 * length (pend w1) - seen w1 + ?k \<le> 2 * length (pend w) - seen w"
    using w1(3-5) by (simp only: length_drop)
  show thesis
  proof (cases "?k < length buf")
    case True
    then have kn: "?k = length noise" using k by simp
    have drop_buf: "drop ?k buf = take (length buf - ?k) (BCAP_HEADER # rest)"
      using arg_cong [OF buf(1), of "drop ?k"] True unfolding kn by (simp add: drop_take min_def)
    show thesis
    proof (cases "?k = 0")
      case True
      then have "noise = []" using kn by simp
      then show thesis
        using that [of buf w "[]"] True \<open>?k < length buf\<close> assms buf by (simp add: align_header_def)
    next
      case False
      have "2 * length (pend w1) - seen w1 < 2 * length (pend w) - seen w"
        using le False by linarith
      moreover have "buf \<noteq> []" using True by auto
      ultimately have closer: "buf = [] \<and> drop ?k buf = [] \<and> 2 * length (pend w1) - seen w1 \<le> 2 * length (pend w) - seen w
         \<or> buf \<noteq> [] \<and> drop ?k buf = buf \<and> w1 = w
         \<or> buf \<noteq> [] \<and> 2 * length (pend w1) - seen w1 < 2 * length (pend w) - seen w" by blast
      show thesis
      proof (rule that [OF _ _ _ _ _ _ _ _ closer, of "[]"])
        show "align_header io buf (rst f w) = (drop ?k buf, rst f w1)"
          using True False w1(1) by (simp add: align_header_def Let_def)
        show "drop ?k buf = take (length (drop ?k buf)) (pend w1)"
          using w1(3) drop_buf by (auto simp: assms(2) kn min_def)
      qed (use w1 assms(2) kn buf True False in auto)
    qed
  next
    case False
    then have kb: "?k = length buf" "length buf \<le> length noise" using k by linarith+
    have "2 * length (pend w1) - seen w1 < 2 * length (pend w) - seen w" if "buf \<noteq> []"
      using le kb(1) that length_greater_0_conv [of buf] by linarith
    then have closer: "buf = [] \<and> ([] :: byte list) = [] \<and> 2 * length (pend w1) - seen w1 \<le> 2 * length (pend w) - seen w
         \<or> buf \<noteq> [] \<and> [] = buf \<and> w1 = w
         \<or> buf \<noteq> [] \<and> 2 * length (pend w1) - seen w1 < 2 * length (pend w) - seen w" using le by auto
    show thesis
    proof (rule that [OF _ _ _ _ _ _ _ _ closer, of "drop ?k noise"])
      show "align_header io buf (rst f w) = ([], rst f w1)"
        using False w1(1) by (simp add: align_header_def Let_def)
      show "BCAP_HEADER \<notin> set (drop ?k noise)" using assms(3) by (meson in_set_dropD)
    qed (use w1 assms(2) kb buf in auto)
  qed
qed

lemma check_sender_tcp [simp]: "check_sender known out (rst f w) = (r_hr out, rst f w)"
  by (simp add: check_sender_def tcp)

lemma recved_read [simp]:
  "k \<le> length bs \<Longrightarrow> k \<le> room \<Longrightarrow> recved room (RecvOut hr (Some (of_nat k)) (take k bs) fr) = Some (take k bs)"
  by (simp add: recved_def)

lemma find_header_ok:
  assumes "ok w" and "pend w = noise @ BCAP_HEADER # rest" and "BCAP_HEADER \<notin> set noise"
    and "4 \<le> length rest" and "peeked buf w"
  shows "\<exists>buf' w'. find_header io client (ArgFlag MSG_PEEK) buf (rst f w) = Some (S_OK, buf', rst f w') \<and>
           ok w' \<and> pend w' = BCAP_HEADER # rest \<and> 5 \<le> length buf' \<and> buf' = take (length buf') (BCAP_HEADER # rest)"
  using assms
proof (induction "distance buf w" arbitrary: buf w noise rule: less_induct)
  case less
  obtain buf1 w1 noise1 where al: "align_header io buf (rst f w) = (buf1, rst f w1)" "ok w1"
    "pend w1 = noise1 @ BCAP_HEADER # rest" "BCAP_HEADER \<notin> set noise1"
    "buf1 = take (length buf1) (pend w1)" "length buf1 \<le> seen w1" "seen w1 \<le> length (pend w1)"
    "buf1 \<noteq> [] \<longrightarrow> noise1 = []"
    "buf = [] \<and> buf1 = [] \<and> 2 * length (pend w1) - seen w1 \<le> 2 * length (pend w) - seen w
     \<or> buf \<noteq> [] \<and> buf1 = buf \<and> w1 = w
     \<or> buf \<noteq> [] \<and> 2 * length (pend w1) - seen w1 < 2 * length (pend w) - seen w"
    by (rule align_header_ok [OF less.prems(1-3,5)])
  show ?case
  proof (cases "5 \<le> length buf1")
    case True
    then have "noise1 = []" using al(8) by auto
    with True al show ?thesis
      by (subst find_header.simps) auto
  next
    case False
    have ne: "pend w1 \<noteq> []" using al(3) by simp
    obtain s fr w2 where s: "seen w1 \<le> s" "s \<le> length (pend w1)" "seen w1 < s \<or> s = length (pend w1)"
      and rd: "dev_read io UDP_MAX_PACKET (ArgFlag MSG_PEEK) (rst f w1) =
        (RecvOut (if min (unat UDP_MAX_PACKET) s = 0 then E_ACCESSDENIED else S_OK)
          (Some (of_nat (min (unat UDP_MAX_PACKET) s))) (take (min (unat UDP_MAX_PACKET) s) (pend w1)) fr, rst f w2)"
      and w2: "ok w2" "pend w2 = (if peeks (ArgFlag MSG_PEEK) then pend w1 else drop (min (unat UDP_MAX_PACKET) s) (pend w1))"
        "seen w2 = (if peeks (ArgFlag MSG_PEEK) then s else s - min (unat UDP_MAX_PACKET) s)"
      by (rule dev_read_ok [OF al(2) ne])
    have w2': "pend w2 = pend w1" "seen w2 = s" using w2 by (simp_all add: peeks_def arg_flag_def)
    have s1: "1 \<le> s" using s ne by (cases "pend w1") auto
    let ?buf2 = "take (min 503 s) (pend w1)"
    have step: "find_header io client (ArgFlag MSG_PEEK) buf (rst f w) =
        find_header io client (ArgFlag MSG_PEEK) ?buf2 (rst f w2)"
    proof -
      have k0: "(min 503 s = 0) = False" using s1 by (simp add: min_def)
      show ?thesis
        using al(1) False rd s by (subst find_header.simps) (simp add: tcp k0)
    qed
    have len2: "length ?buf2 = min 503 s" using s by simp
    have pk: "peeked ?buf2 w2"
      unfolding peeked_def using s s1 w2' len2 by simp
    have long: "5 \<le> length (pend w1)" using al(3) less.prems(4) by simp
    show ?thesis
    proof (cases "distance ?buf2 w2 < distance buf w")
      case True
      then show ?thesis
        unfolding step using w2' w2(1) al(3,4) less.prems(4) pk by (intro less.hyps) auto
    next
      case nd: False
      have d2: "distance ?buf2 w2 = 2 * length (pend w1) - s"
        using s1 ne by (auto simp: distance_def w2')
      have "buf \<noteq> [] \<and> buf1 = buf \<and> w1 = w"
        using al(9) nd s d2 by (auto simp: distance_def)
      then have eq: "buf \<noteq> []" "buf1 = buf" "w1 = w" by auto
      then have "length buf = min 503 (seen w)" using less.prems(5) by (simp add: peeked_def)
      then have "seen w < 5" using False eq by simp
      then have "seen w < s" using s(3) long eq by auto
      then have "distance ?buf2 w2 < distance buf w"
        using d2 s(2) eq by (simp add: distance_def)
      with nd show ?thesis by simp
    qed
  qed
qed

lemma dev_read_take:
  assumes "ok w" and "pend w = bs @ rest" and "bs \<noteq> []" and "unat n = length bs" and "\<not> peeks a"
  obtains k fr w' where "0 < k" "k \<le> length bs"
    "dev_read io n a (rst f w) = (RecvOut S_OK (Some (of_nat k)) (take k bs) fr, rst f w')"
    "ok w'" "pend w' = drop k bs @ rest"
proof -
  have ne: "pend w \<noteq> []" using assms(2,3) by simp
  obtain s fr w' where s: "seen w \<le> s" "s \<le> length (pend w)" "seen w < s \<or> s = length (pend w)"
    and rd: "dev_read io n a (rst f w) =
       (RecvOut (if min (unat n) s = 0 then E_ACCESSDENIED else S_OK) (Some (of_nat (min (unat n) s)))
          (take (min (unat n) s) (pend w)) fr, rst f w')"
    and w': "ok w'" "pend w' = (if peeks a then pend w else drop (min (unat n) s) (pend w))"
    by (rule dev_read_ok [OF assms(1) ne])
  have s0: "0 < s" using s ne by auto
  define k where "k = min (length bs) s"
  have k: "0 < k" "k \<le> length bs" using s0 assms(3) by (simp_all add: k_def)
  show thesis
  proof (rule that [OF k])
    show "dev_read io n a (rst f w) = (RecvOut S_OK (Some (of_nat k)) (take k bs) fr, rst f w')"
      using rd k unfolding assms(4) k_def [symmetric] by (simp add: assms(2))
    show "pend w' = drop k bs @ rest"
      using w'(2) k assms(5) unfolding assms(4) k_def [symmetric] by (simp add: assms(2))
  qed (rule w'(1))
qed

lemma recv_rest_ok:
  assumes "ok w" and "pend w = drop n pkt @ rest" and "n \<le> length pkt" and "length pkt < 2 ^ 32"
    and "length fresh = length pkt"
  shows "\<exists>w'. recv_rest io (ArgFlag 0) (of_nat (length pkt)) (take n pkt @ drop n fresh) (of_nat n) (rst f w) =
           Some (S_OK, pkt, rst f w') \<and> ok w' \<and> pend w' = rest"
  using assms(1-3)
proof (induction "length pkt - n" arbitrary: n w rule: less_induct)
  case less
  have un: "unat (of_nat n :: u32) = n" "unat (of_nat (length pkt) :: u32) = length pkt"
    using less.prems(3) assms(4) by (simp_all add: unat_of_nat_32)
  show ?case
  proof (cases "n = length pkt")
    case True
    then show ?thesis
      using less.prems assms(5) by (subst recv_rest.simps) auto
  next
    case False
    then have lt: "n < length pkt" using less.prems(3) by simp
    have room: "unat (of_nat (length pkt) - of_nat n :: u32) = length (drop n pkt)"
      using un lt by (simp add: unat_sub word_le_nat_alt)
    have np: "\<not> peeks (ArgFlag 0)" by (simp add: peeks_def arg_flag_def)
    have nonempty: "drop n pkt \<noteq> []" using lt by simp
    obtain k fr w' where k: "0 < k" "k \<le> length (drop n pkt)"
      and rd: "dev_read io (of_nat (length pkt) - of_nat n) (ArgFlag 0) (rst f w) =
        (RecvOut S_OK (Some (of_nat k)) (take k (drop n pkt)) fr, rst f w')"
      and w': "ok w'" "pend w' = drop k (drop n pkt) @ rest"
      by (rule dev_read_take [OF less.prems(1,2) nonempty room np])
    let ?mem = "take n pkt @ drop n fresh" and ?mem' = "take (n + k) pkt @ drop (n + k) fresh"
    have m: "?mem = take n pkt @ take k (drop n fresh) @ drop (n + k) fresh"
      by (simp add: add.commute flip: drop_drop)
    have m': "?mem' = take n pkt @ take k (drop n pkt) @ drop (n + k) fresh"
      by (simp add: take_add)
    have st: "store ?mem (unat (of_nat n :: u32)) (take k (drop n pkt)) = Some ?mem'"
      unfolding un(1) m m' using lt k assms(5) by (intro store_at) auto
    have nle: "\<not> of_nat (length pkt) \<le> (of_nat n :: u32)"
      using un lt by (simp add: word_le_nat_alt)
    have len: "min (length pkt - n) k = k" using k by simp
    have step: "recv_rest io (ArgFlag 0) (of_nat (length pkt)) ?mem (of_nat n) (rst f w) =
        recv_rest io (ArgFlag 0) (of_nat (length pkt)) ?mem' (of_nat (n + k)) (rst f w')"
      using nle rd k st room
      by (subst recv_rest.simps) (simp add: len)
    show ?thesis
      unfolding step using k lt w' by (intro less.hyps) (auto simp: add.commute)
  qed
qed

lemma start_packet_ok:
  assumes "ok w" and "pend w = pkt @ rest" and "pkt \<noteq> []" and "length pkt < 2 ^ 32" and "length pkt \<le> length fresh"
  obtains k w' where "start_packet io fresh (of_nat (length pkt)) buf (rst f w) =
      Some (take k pkt @ drop k (take (length pkt) fresh), of_nat k, rst f w')"
    "ok w'" "pend w' = drop k pkt @ rest" "k \<le> length pkt"
proof -
  have un: "unat (of_nat (length pkt) :: u32) = length pkt" using assms(4) by (rule unat_of_nat_32)
  have np: "\<not> peeks (ArgFlag 0)" by (simp add: peeks_def arg_flag_def)
  obtain k fr w' where k: "0 < k" "k \<le> length pkt"
    and rd: "dev_read io (of_nat (length pkt)) (ArgFlag 0) (rst f w) =
      (RecvOut S_OK (Some (of_nat k)) (take k pkt) fr, rst f w')"
    and w': "ok w'" "pend w' = drop k pkt @ rest"
    by (rule dev_read_take [OF assms(1-3) un np])
  have len: "min (length pkt) k = k" using k by simp
  show thesis
    by (rule that [of k w']) (use rd k w' un len in \<open>simp_all add: start_packet_def tcp\<close>)
qed

lemma recv_packet_ok:
  assumes "ok w" and "pend w = noise @ ser_packet p [] @ rest" and "BCAP_HEADER \<notin> set noise"
    and "wf_packet p" and "dates_oks (arg_list p)" and "length (ser_packet p []) < 2 ^ 32"
    and "dest_room junk q (unat (argc p)) = Some us" and "length (ser_packet p []) \<le> length fresh"
  shows "\<exists>w'. recv_packet io mem_ok junk fresh client (BCAP_SIZE_MIN, - 1, ArgFlag MSG_PEEK) q (rst f w) =
           Some (S_OK, received p q us, rst f w') \<and> ok w' \<and> pend w' = rest"
proof -
  define pkt where "pkt = ser_packet p []"
  have hd: "pkt = BCAP_HEADER # tl pkt" "16 \<le> length pkt" by (simp_all add: pkt_def ser_packet_def Let_def)
  let ?tail = "tl pkt @ rest"
  have pend: "pend w = noise @ BCAP_HEADER # ?tail" using assms(2) hd(1) unfolding pkt_def [symmetric] by simp
  have "4 \<le> length ?tail" using hd(2) by simp
  moreover have "peeked [] w" using seen_le [OF assms(1)] by (simp add: peeked_def)
  ultimately obtain buf' w1 where fh: "find_header io client (ArgFlag MSG_PEEK) [] (rst f w) = Some (S_OK, buf', rst f w1)"
    and w1: "ok w1" "pend w1 = BCAP_HEADER # ?tail" "5 \<le> length buf'" "buf' = take (length buf') (BCAP_HEADER # ?tail)"
    using find_header_ok [OF assms(1) pend assms(3)] by blast
  have w1p: "pend w1 = pkt @ rest" using w1(2) hd(1) by simp
  have len: "le_word (take 4 (drop 1 buf')) = (of_nat (length pkt) :: u32)"
  proof -
    have "take 4 (drop 1 buf') = take 4 (drop 1 (take (length buf') (pkt @ rest)))"
    proof (rule arg_cong [where f = "\<lambda>x. take 4 (drop 1 x)"])
      have "BCAP_HEADER # ?tail = pkt @ rest" using hd(1) by (metis append_Cons)
      then show "buf' = take (length buf') (pkt @ rest)" using w1(4) by (simp only:)
    qed
    also have "\<dots> = take 4 (drop 1 pkt)"
      using w1(3) hd(2) by (simp add: drop_take min_def)
    finally show ?thesis
      unfolding pkt_def take_ser_packet(1) by (simp add: le_word_le_bytes_full)
  qed
  have un: "unat (of_nat (length pkt) :: u32) = length pkt"
    using assms(6) unfolding pkt_def by (rule unat_of_nat_32)
  have ge: "\<not> of_nat (length pkt) < (16 :: u32)" using un hd(2) by (simp add: word_less_nat_alt)
  have le: "\<not> (- 1 :: u32) < of_nat (length pkt)" by (simp add: not_less word_n1_ge)
  obtain k w2 where sp: "start_packet io fresh (of_nat (length pkt)) buf' (rst f w1) =
      Some (take k pkt @ drop k (take (length pkt) fresh), of_nat k, rst f w2)"
    and w2: "ok w2" "pend w2 = drop k pkt @ rest" "k \<le> length pkt"
    by (rule start_packet_ok [OF w1(1) w1p, of fresh buf' f]) (use hd assms(6,8) in \<open>auto simp: pkt_def\<close>)
  have fr: "length (take (length pkt) fresh) = length pkt" using assms(8) by (simp add: pkt_def)
  obtain w3 where rr: "recv_rest io (ArgFlag 0) (of_nat (length pkt)) (take k pkt @ drop k (take (length pkt) fresh))
      (of_nat k) (rst f w2) = Some (S_OK, pkt, rst f w3)" and w3: "ok w3" "pend w3 = rest"
    using recv_rest_ok [OF w2 _ fr] assms(6) unfolding pkt_def by blast
  have dec: "bcap_bytary2packet mem_ok junk (Some pkt) (of_nat (length pkt)) (Some q) = Some (S_OK, Some (received p q us))"
    unfolding pkt_def by (rule decode_packet [OF assms(4-7)])
  have "recv_packet io mem_ok junk fresh client (BCAP_SIZE_MIN, - 1, ArgFlag MSG_PEEK) q (rst f w) =
      Some (S_OK, received p q us, rst f w3)"
    using fh len ge le sp rr dec by (subst recv_packet.simps) (simp add: second_arg_def tcp)
  with w3 show ?thesis by blast
qed

lemma bcap_recv_ok:
  assumes "check_conn_param (Some d) CHECK_FUNC_RECV = S_OK"
    and "ok w" and "pend w = noise @ ser_packet p [] @ rest" and "BCAP_HEADER \<notin> set noise"
    and "wf_packet p" and "dates_oks (arg_list p)" and "length (ser_packet p []) < 2 ^ 32"
    and "dest_room junk q (unat (argc p)) = Some us" and "length (ser_packet p []) \<le> length fresh"
  shows "\<exists>w'. bcap_recv io mem_ok junk fresh (Some d) (Some q) client w =
           Some (S_OK, Some (received p q us), Some d, w') \<and> ok w' \<and> pend w' = rest"
  using recv_packet_ok [OF assms(2-9), of client False] assms(1)
  by (auto simp: bcap_recv_def recv_arg_def tcp)

end

section \<open>The TCP driver over a segmented network\<close>

text \<open>
  A connected socket: the bytes that arrived, the segments that are still on their way, and
  the bytes sent. Waiting for input delivers one segment; \<open>recv\<close> returns what arrived, up to
  its size; \<open>send\<close> takes all it is given.
\<close>

record net =
  arrived :: "byte list"
  coming :: "byte list list"
  sent :: "byte list"

definition net_ready :: "i32 \<Rightarrow> u32 \<Rightarrow> net \<Rightarrow> hresult \<times> net" where
  "net_ready sck tmo w =
     (case coming w of
        [] \<Rightarrow> (if arrived w = [] then E_TIMEOUT else S_OK, w)
      | s # ss \<Rightarrow> (S_OK, w\<lparr>arrived := arrived w @ s, coming := ss\<rparr>))"

definition net_recv :: "i32 \<Rightarrow> nat \<Rightarrow> i32 \<Rightarrow> net \<Rightarrow> byte list sys \<times> net" where
  "net_recv sck n flag w =
     (Done (take n (arrived w)),
      if flag AND MSG_PEEK \<noteq> 0 then w else w\<lparr>arrived := drop n (arrived w)\<rparr>)"

definition net_os :: "net os" where
  "net_os = \<lparr>os_ready = net_ready, os_recv = net_recv,
     os_recvfrom = (\<lambda>s n f w. (Err 0, w)),
     os_send = (\<lambda>s bs f w. (Done (length bs), w\<lparr>sent := sent w @ bs\<rparr>)),
     os_sendto = (\<lambda>s bs f a w. (Err 0, w))\<rparr>"

text \<open>The function pointers of the connection record.\<close>

definition driver_io :: "'w os \<Rightarrow> 'w io" where
  "driver_io os = \<lparr>
     dev_send = (\<lambda>f. if f = F_tcp_send then tcp_send os else udp_send os),
     dev_recv = (\<lambda>f. if f = F_tcp_recv then tcp_recv os else udp_recv os)\<rparr>"

definition stream :: "net \<Rightarrow> byte list" where
  "stream w = arrived w @ concat (coming w)"

definition segments_ok :: "net \<Rightarrow> bool" where
  "segments_ok w \<longleftrightarrow> list_all (\<lambda>s. s \<noteq> []) (coming w)"

definition tcp_device :: "i32 \<Rightarrow> u32 \<Rightarrow> sockaddr_in option \<Rightarrow> conn_param_common" where
  "tcp_device sck tmo a = \<lparr>sock = sck, conn_type = CONN_TCP, timeout = tmo, arg = a,
     dn_open = Some F_tcp_open_client, dn_close = Some F_tcp_close, dn_send = Some F_tcp_send,
     dn_recv = Some F_tcp_recv, dn_set_timeout = Some F_tcp_set_timeout, dn_clear = None\<rparr>"

lemma net_read_law:
  assumes "segments_ok w" and "stream w \<noteq> []" and "0 < sint sck"
  shows "\<exists>s fr w'. length (arrived w) \<le> s \<and> s \<le> length (stream w) \<and>
        (length (arrived w) < s \<or> s = length (stream w)) \<and>
        tcp_recv net_os sck n tmo a w =
          (RecvOut (if min (unat n) s = 0 then E_ACCESSDENIED else S_OK) (Some (of_nat (min (unat n) s)))
             (take (min (unat n) s) (stream w)) fr, w') \<and>
        segments_ok w' \<and> stream w' = (if peeks a then stream w else drop (min (unat n) s) (stream w)) \<and>
        length (arrived w') = (if peeks a then s else s - min (unat n) s) \<and> sent w' = sent w"
proof -
  obtain w1 where w1: "net_ready sck tmo w = (S_OK, w1)" "segments_ok w1" "stream w1 = stream w" "sent w1 = sent w"
    "length (arrived w) \<le> length (arrived w1)"
    "length (arrived w) < length (arrived w1) \<or> length (arrived w1) = length (stream w)"
    using assms(1,2) by (cases "coming w") (auto simp: net_ready_def segments_ok_def stream_def)
  let ?s = "length (arrived w1)"
  have s0: "?s \<noteq> 0" using w1(5,6) assms(2) by auto
  have take: "take (min (unat n) ?s) (stream w) = take (unat n) (arrived w1)"
    unfolding w1(3) [symmetric] by (simp add: stream_def min_def)
  have drop: "drop (min (unat n) ?s) (stream w) = drop (unat n) (arrived w1) @ concat (coming w1)"
    unfolding w1(3) [symmetric] by (simp add: stream_def min_def)
  have empty: "take (unat n) (arrived w1) = [] \<longleftrightarrow> min (unat n) ?s = 0" using s0 by (auto simp: min_def split: if_splits)
  let ?w' = "if peeks a then w1 else w1\<lparr>arrived := drop (unat n) (arrived w1)\<rparr>"
  have len: "length (take (unat n) (arrived w1)) = min (unat n) ?s" by (simp add: min.commute)
  have rd: "tcp_recv net_os sck n tmo a w =
      (RecvOut (if min (unat n) ?s = 0 then E_ACCESSDENIED else S_OK) (Some (of_nat (min (unat n) ?s)))
         (take (min (unat n) ?s) (stream w)) \<lparr>s_addr = 0, sin_port = 0\<rparr>, ?w')"
    unfolding take empty [symmetric] using w1(1) assms(3)
    by (simp add: tcp_recv_def net_os_def net_recv_def peeks_def len del: length_take)
  have st: "stream ?w' = (if peeks a then stream w else drop (min (unat n) ?s) (stream w))"
    unfolding drop using w1(3) by (simp add: stream_def)
  have sg: "segments_ok ?w'" using w1(2) by (simp add: segments_ok_def)
  have ar: "length (arrived ?w') = (if peeks a then ?s else ?s - min (unat n) ?s)" by (simp add: min_def)
  have se: "sent ?w' = sent w" using w1(4) by simp
  have sl: "?s \<le> length (stream w)" unfolding w1(3) [symmetric] by (simp add: stream_def)
  show ?thesis
    using w1(5,6) rd st sg ar sl se by blast
qed

interpretation net: stream_device "driver_io net_os" "tcp_device sck tmo a" stream "\<lambda>w. length (arrived w)"
    "\<lambda>w. segments_ok w \<and> 0 < sint sck \<and> sent w = x"
proof unfold_locales
  fix w :: net and n :: u32 and b :: dev_arg
  assume w: "segments_ok w \<and> 0 < sint sck \<and> sent w = x" and ne: "stream w \<noteq> []"
  then obtain s fr w' where "length (arrived w) \<le> s \<and> s \<le> length (stream w) \<and>
        (length (arrived w) < s \<or> s = length (stream w)) \<and>
        tcp_recv net_os sck n tmo b w =
          (RecvOut (if min (unat n) s = 0 then E_ACCESSDENIED else S_OK) (Some (of_nat (min (unat n) s)))
             (take (min (unat n) s) (stream w)) fr, w') \<and>
        segments_ok w' \<and> stream w' = (if peeks b then stream w else drop (min (unat n) s) (stream w)) \<and>
        length (arrived w') = (if peeks b then s else s - min (unat n) s) \<and> sent w' = sent w"
    using net_read_law [of w sck n tmo b] by blast
  with w show "\<exists>s fr w'. length (arrived w) \<le> s \<and> s \<le> length (stream w) \<and>
        (length (arrived w) < s \<or> s = length (stream w)) \<and>
        dev_recv (driver_io net_os) (the (dn_recv (tcp_device sck tmo a))) (sock (tcp_device sck tmo a)) n
          (timeout (tcp_device sck tmo a)) b w =
          (RecvOut (if min (unat n) s = 0 then E_ACCESSDENIED else S_OK) (Some (of_nat (min (unat n) s)))
             (take (min (unat n) s) (stream w)) fr, w') \<and>
        (segments_ok w' \<and> 0 < sint sck \<and> sent w' = x) \<and>
        stream w' = (if peeks b then stream w else drop (min (unat n) s) (stream w)) \<and>
        length (arrived w') = (if peeks b then s else s - min (unat n) s)"
    by (intro exI [of _ s] exI [of _ fr] exI [of _ w']) (simp add: driver_io_def tcp_device_def)
qed (simp_all add: tcp_device_def stream_def)

section \<open>Properties\<close>

text \<open>
  C3: over TCP, whatever the segments the stream is cut into and whatever comes before the
  header byte of a packet, \<open>bcap_recv\<close> returns the packet that was encoded, and leaves what
  follows it unread.
\<close>

theorem bcap_recv_reassembles:
  assumes "stream w = noise @ ser_packet p [] @ rest" and "BCAP_HEADER \<notin> set noise"
    and "segments_ok w" and "0 < sint sck"
    and "wf_packet p" and "dates_oks (arg_list p)" and "length (ser_packet p []) < 2 ^ 32"
    and "dest_room junk q (unat (argc p)) = Some us" and "length (ser_packet p []) \<le> length fresh"
  shows "\<exists>w'. bcap_recv (driver_io net_os) mem_ok junk fresh (Some (tcp_device sck tmo a)) (Some q) client w =
           Some (S_OK, Some (received p q us), Some (tcp_device sck tmo a), w') \<and> stream w' = rest"
proof -
  have "check_conn_param (Some (tcp_device sck tmo a)) CHECK_FUNC_RECV = S_OK"
    using assms(4) by (simp add: check_conn_param_def tcp_device_def)
  from net.bcap_recv_ok [OF this _ assms(1,2,5-9)] assms(3,4) show ?thesis by blast
qed


definition sample_net :: net where
  "sample_net = \<lparr>arrived = [9, 9],
     coming = [[9], take 3 (ser_packet sample_packet []), drop 3 (ser_packet sample_packet []) @ [1, 2]],
     sent = []\<rparr>"

lemma bcap_recv_reassembles_witness:
  "\<exists>w'. bcap_recv (driver_io net_os) mem_ok [zero_variant] (replicate 64 7) (Some (tcp_device 5 1000 None))
      (Some system_dest) False sample_net =
    Some (S_OK, Some \<lparr>serial = 7, reserv = 0, func_id = 3, argc = 1, args = Some (wires [sample_variant])\<rparr>,
      Some (tcp_device 5 1000 None), w') \<and> stream w' = [1, 2]"
proof -
  have len: "length (ser_packet sample_packet []) = 50" by code_simp
  then have args: "length (ser_args (arg_list sample_packet)) = 34" by simp
  have "\<exists>w'. bcap_recv (driver_io net_os) mem_ok [zero_variant] (replicate 64 7) (Some (tcp_device 5 1000 None))
      (Some system_dest) False sample_net =
    Some (S_OK, Some (received sample_packet system_dest [zero_variant]), Some (tcp_device 5 1000 None), w') \<and>
    stream w' = [1, 2]"
  proof (rule bcap_recv_reassembles)
    show "stream sample_net = [9, 9, 9] @ ser_packet sample_packet [] @ [1, 2]"
      by (simp add: stream_def sample_net_def flip: append_assoc)
    show "segments_ok sample_net"
    proof -
      have "ser_packet sample_packet [] \<noteq> []" "drop 3 (ser_packet sample_packet []) \<noteq> []"
        by (simp_all only: length_0_conv [symmetric] length_drop len)
      then show ?thesis by (simp add: segments_ok_def sample_net_def)
    qed
    show "dates_oks (arg_list sample_packet)"
      by (simp add: sample_packet_def sample_variant_def arg_list_def dates_ok.simps dates_ok_body_def)
    show "dest_room [zero_variant] system_dest (unat (argc sample_packet)) = Some [zero_variant]"
      by (simp add: dest_room_def system_dest_def sample_packet_def)
  qed (simp_all add: wf_sample_packet args)
  then show ?thesis by (simp add: sample_packet_def arg_list_def)
qed

end
