(* ===== verification/BcapClient.thy ===== *)
theory BcapClient
  imports BcapTransport
begin

text \<open>
  The b-CAP client of \<open>bcap_core/src/bCAPClient/bcap_client.c\<close>: the table of connections, opening
  and closing, time-out and retry count, the exchange of a request and its reply
  (\<open>send_receive\<close>) and the function all calls of the API go through (\<open>invoke_function\<close>).

  \<^item> The static array \<open>m_conn_param\<close> is a list of twenty records; a handle is an index plus one.
  \<^item> What is outside (devices, mutexes, \<open>malloc\<close>, the C library) is the record \<open>cenv\<close>. Mutexes
    are calls on the world; the operations are modelled as the code between lock and unlock
    runs, one after the other.
\<close>

section \<open>The state\<close>

abbreviation (input) BCAP_CONN_MAX :: nat where "BCAP_CONN_MAX \<equiv> 20"

record conn_bcap_client =
  device :: conn_param_common
  retry :: u32
  conn_serial :: u16

definition zero_device :: conn_param_common where
  "zero_device = \<lparr>sock = 0, conn_type = 0, timeout = 0, arg = None, dn_open = None, dn_close = None,
     dn_send = None, dn_recv = None, dn_set_timeout = None, dn_clear = None\<rparr>"

text \<open>A record after \<open>memset(bcap_param, 0, ...)\<close>, as all are at the start.\<close>

definition zero_conn :: conn_bcap_client where
  "zero_conn = \<lparr>device = zero_device, retry = 0, conn_serial = 0\<rparr>"

datatype open_param = OpenEth conn_param_eth | OpenCom conn_param_com

record 'w cenv =
  env_io :: "'w io"
  env_lock :: "nat \<Rightarrow> 'w \<Rightarrow> hresult \<times> 'w"
  env_unlock :: "nat \<Rightarrow> 'w \<Rightarrow> 'w"
  env_init_mutex :: "nat \<Rightarrow> 'w \<Rightarrow> hresult \<times> 'w"
  env_release_mutex :: "nat \<Rightarrow> 'w \<Rightarrow> 'w"
  env_open :: "dn_func \<Rightarrow> open_param \<Rightarrow> u32 \<Rightarrow> 'w \<Rightarrow> hresult \<times> i32 \<times> 'w"
  env_close :: "dn_func \<Rightarrow> i32 \<Rightarrow> 'w \<Rightarrow> 'w"
  env_set_timeout :: "dn_func \<Rightarrow> i32 \<Rightarrow> u32 \<Rightarrow> 'w \<Rightarrow> hresult \<times> 'w"
  env_mok :: "nat \<Rightarrow> bool"
  env_junk :: "variant list"
  env_fresh :: "byte list"
  env_inet_addr :: "string \<Rightarrow> u32"
  env_atof10 :: "string \<Rightarrow> int"

record 'w client =
  conns :: "conn_bcap_client list"
  tcp_conn_timeout :: u32
  cworld :: 'w

section \<open>Handles\<close>

fun find_from :: "conn_bcap_client list \<Rightarrow> nat \<Rightarrow> nat" where
  "find_from [] i = 0"
| "find_from (c # cs) i = (if sock (device c) = 0 then Suc i else find_from cs (Suc i))"

text \<open>\<open>find_open_address\<close>: the first free handle, 0 if there is none.\<close>

definition find_open_address :: "conn_bcap_client list \<Rightarrow> nat" where
  "find_open_address cs = find_from cs 0"

definition check_address :: "conn_bcap_client list \<Rightarrow> i32 \<Rightarrow> (nat \<times> conn_bcap_client) option" where
  "check_address cs index =
     (let i = sint index - 1 in
      if i < 0 \<or> int (length cs) \<le> i then None
      else let c = cs ! nat i in if sock (device c) = 0 then None else Some (nat i, c))"

definition upd_conn :: "nat \<Rightarrow> (conn_bcap_client \<Rightarrow> conn_bcap_client) \<Rightarrow> 'w client \<Rightarrow> 'w client" where
  "upd_conn i f st = st\<lparr>conns := (conns st)[i := f (conns st ! i)]\<rparr>"

section \<open>Requests and replies\<close>

text \<open>The inner loop: receive until the reply to the request arrives; \<open>None\<close> also if it never does.\<close>

partial_function (option) recv_reply ::
  "'w cenv \<Rightarrow> u16 \<Rightarrow> conn_param_common \<Rightarrow> bcap_packet \<Rightarrow> 'w \<Rightarrow>
   (hresult \<times> bcap_packet \<times> conn_param_common \<times> 'w) option" where
  "recv_reply env sent d q w =
     (case bcap_recv (env_io env) (env_mok env) (env_junk env) (env_fresh env) (Some d) (Some (q\<lparr>argc := 1\<rparr>)) True w of
        Some (hr, Some q', Some d', w') \<Rightarrow>
          if FAILED hr then Some (hr, q', d', w')
          else if sent = serial q' \<and> func_id q' \<noteq> S_EXECUTING then Some (hr, q', d', w')
          else recv_reply env sent d' q' w'
      | _ \<Rightarrow> None)"

definition next_serial :: "u16 \<Rightarrow> u16" where
  "next_serial s = (if s + 1 = 0 then 1 else s + 1)"

text \<open>
  The retries: a failed send ends them, a failed receive starts the next. The state is the
  connection, the received packet and the world; \<open>hr\<close> is the code so far.
\<close>

fun try_send :: "'w cenv \<Rightarrow> nat \<Rightarrow> hresult \<Rightarrow> bcap_packet \<Rightarrow> conn_bcap_client \<Rightarrow> bcap_packet \<Rightarrow> 'w \<Rightarrow>
    (hresult \<times> conn_bcap_client \<times> bcap_packet \<times> 'w) option" where
  "try_send env 0 hr p c q w = Some (hr, c, q, w)"
| "try_send env (Suc n) hr p c q w =
     (let p1 = p\<lparr>serial := conn_serial c\<rparr>; c1 = c\<lparr>conn_serial := next_serial (conn_serial c)\<rparr> in
      case bcap_send (env_io env) (env_mok env) (Some (device c1)) (Some p1) w of
        None \<Rightarrow> None
      | Some (hr1, w1) \<Rightarrow>
          if FAILED hr1 then Some (hr1, c1, q, w1)
          else (case recv_reply env (serial p1) (device c1) q w1 of
              None \<Rightarrow> None
            | Some (hr2, q2, d2, w2) \<Rightarrow>
                let c2 = c1\<lparr>device := d2\<rparr> in
                if FAILED hr2 then try_send env n hr2 p1 c2 q2 w2
                else Some (hr2, c2, q2, w2)))"

definition send_receive :: "'w cenv \<Rightarrow> i32 \<Rightarrow> bcap_packet \<Rightarrow> bcap_packet \<Rightarrow> 'w client \<Rightarrow>
    (hresult \<times> bcap_packet \<times> 'w client) option" where
  "send_receive env index p q st =
     (case check_address (conns st) index of
        None \<Rightarrow> Some (E_HANDLE, q, st)
      | Some (i, c) \<Rightarrow> (case env_lock env i (cworld st) of (hr, w) \<Rightarrow>
          if FAILED hr then Some (hr, q, st\<lparr>cworld := w\<rparr>)
          else
            let p1 = p\<lparr>reserv := if conn_type (device c) = CONN_TCP then 0 else conn_serial c\<rparr>;
                q1 = q\<lparr>func_id := E_FAIL\<rparr> in
            map_option (\<lambda>(hr', c', q', w').
                (if SUCCEEDED hr' then func_id q' else hr', q',
                 st\<lparr>conns := (conns st)[i := c'], cworld := env_unlock env i w'\<rparr>))
              (try_send env (unat (retry c)) hr p1 c q1 w)))"

section \<open>Time-out and retry count\<close>

definition bCap_SetTimeout :: "'w cenv \<Rightarrow> i32 \<Rightarrow> u32 \<Rightarrow> 'w client \<Rightarrow> (hresult \<times> 'w client) option" where
  "bCap_SetTimeout env fd tmo st =
     (case check_address (conns st) fd of
        None \<Rightarrow> Some (E_HANDLE, st)
      | Some (i, c) \<Rightarrow> (case env_lock env i (cworld st) of (hr, w) \<Rightarrow>
          if FAILED hr then Some (hr, st\<lparr>cworld := w\<rparr>)
          else (case dn_set_timeout (device c) of
              None \<Rightarrow> None
            | Some f \<Rightarrow> (case env_set_timeout env f (sock (device c)) tmo w of (hr1, w1) \<Rightarrow>
                let c' = (if SUCCEEDED hr1 then c\<lparr>device := (device c)\<lparr>timeout := tmo\<rparr>\<rparr> else c)
                in Some (hr1, st\<lparr>conns := (conns st)[i := c'], cworld := env_unlock env i w1\<rparr>)))))"

definition bCap_GetTimeout :: "i32 \<Rightarrow> bool \<Rightarrow> 'w client \<Rightarrow> hresult \<times> u32 option" where
  "bCap_GetTimeout fd out st =
     (case check_address (conns st) fd of
        None \<Rightarrow> (E_HANDLE, None)
      | Some (i, c) \<Rightarrow> if \<not> out then (E_INVALIDARG, None) else (S_OK, Some (timeout (device c))))"

abbreviation (input) RETRY_MIN :: u32 where "RETRY_MIN \<equiv> 1"
abbreviation (input) RETRY_MAX :: u32 where "RETRY_MAX \<equiv> 7"

definition clamp_retry :: "i32 \<Rightarrow> u32 \<Rightarrow> u32 option" where
  "clamp_retry ctype n =
     (if ctype = CONN_TCP then Some 1
      else if ctype = CONN_UDP \<or> ctype = CONN_COM then
        Some (if n < RETRY_MIN then RETRY_MIN else if RETRY_MAX < n then RETRY_MAX else n)
      else None)"

definition bCap_SetRetry :: "'w cenv \<Rightarrow> i32 \<Rightarrow> u32 \<Rightarrow> 'w client \<Rightarrow> hresult \<times> 'w client" where
  "bCap_SetRetry env fd n st =
     (case check_address (conns st) fd of
        None \<Rightarrow> (E_HANDLE, st)
      | Some (i, c) \<Rightarrow> (case env_lock env i (cworld st) of (hr, w) \<Rightarrow>
          if FAILED hr then (hr, st\<lparr>cworld := w\<rparr>)
          else
            let st1 = st\<lparr>cworld := env_unlock env i w\<rparr> in
            (case clamp_retry (conn_type (device c)) n of
               None \<Rightarrow> (E_HANDLE, st1)
             | Some r \<Rightarrow> (hr, st1\<lparr>conns := (conns st)[i := c\<lparr>retry := r\<rparr>]\<rparr>))))"

definition bCap_GetRetry :: "i32 \<Rightarrow> bool \<Rightarrow> 'w client \<Rightarrow> hresult \<times> u32 option" where
  "bCap_GetRetry fd out st =
     (case check_address (conns st) fd of
        None \<Rightarrow> (E_HANDLE, None)
      | Some (i, c) \<Rightarrow> if \<not> out then (E_INVALIDARG, None) else (S_OK, Some (retry c)))"

section \<open>Opening and closing\<close>

text \<open>\<open>pfd\<close> is the handle the pointer points to, \<open>None\<close> for \<open>NULL\<close>; the result is what it holds then.\<close>

definition bCap_Close_Client :: "'w cenv \<Rightarrow> i32 option \<Rightarrow> 'w client \<Rightarrow> (hresult \<times> i32 option \<times> 'w client) option" where
  "bCap_Close_Client env pfd st =
     (case pfd of
        None \<Rightarrow> Some (E_HANDLE, None, st)
      | Some index \<Rightarrow> (case check_address (conns st) index of
          None \<Rightarrow> Some (E_HANDLE, pfd, st)
        | Some (i, c) \<Rightarrow> (case dn_close (device c) of
            None \<Rightarrow> None
          | Some f \<Rightarrow>
              let w = env_close env f (sock (device c)) (env_release_mutex env i (cworld st))
              in Some (S_OK, Some 0, st\<lparr>conns := (conns st)[i := zero_conn], cworld := w\<rparr>))))"

text \<open>The connection parameters by type: the code, the device and the argument of its open.\<close>

definition open_device :: "'w cenv \<Rightarrow> string \<Rightarrow> conn_param_common \<Rightarrow> hresult \<times> conn_param_common \<times> open_param" where
  "open_device env connect d0 =
     (let t = parse_conn_type (Some connect); d = d0\<lparr>conn_type := t\<rparr>;
          eth0 = \<lparr>dst_addr = env_inet_addr env ''127.0.0.1'', dst_port = htons 5007, src_addr = 0, src_port = 0\<rparr>;
          com0 = \<lparr>com_port = 1, baud_rate = 38400, parity = 0, data_bits = 8, stop_bits = 0, flow = 0\<rparr>;
          (hre, eth) = parse_conn_param_ether (env_mok env) (env_inet_addr env) (Some connect) eth0 in
      if t = CONN_TCP then
        (hre, d\<lparr>arg := None, dn_open := Some F_tcp_open_client, dn_close := Some F_tcp_close, dn_send := Some F_tcp_send,
           dn_recv := Some F_tcp_recv, dn_set_timeout := Some F_tcp_set_timeout\<rparr>, OpenEth eth)
      else if t = CONN_UDP then
        (if \<not> env_mok env 16 then (E_OUTOFMEMORY, d, OpenEth eth)
         else (hre, d\<lparr>arg := Some \<lparr>s_addr = dst_addr eth, sin_port = dst_port eth\<rparr>, dn_open := Some F_udp_open,
           dn_close := Some F_udp_close, dn_send := Some F_udp_send, dn_recv := Some F_udp_recv,
           dn_set_timeout := Some F_udp_set_timeout\<rparr>, OpenEth eth))
      else if t = CONN_COM then
        (case parse_conn_param_serial (env_mok env) (env_atof10 env) (Some connect) com0 of (hrc, com) \<Rightarrow>
          (hrc, d\<lparr>arg := None, dn_open := Some F_com_open, dn_close := Some F_com_close, dn_send := Some F_com_send,
             dn_recv := Some F_com_recv, dn_set_timeout := Some F_com_set_timeout\<rparr>, OpenCom com))
      else (E_INVALIDARG, d, OpenEth eth0))"

text \<open>A failure after the connection was opened closes it again and returns the first code.\<close>

definition close_failed :: "'w cenv \<Rightarrow> i32 \<Rightarrow> hresult \<Rightarrow> 'w client \<Rightarrow> (hresult \<times> i32 option \<times> 'w client) option" where
  "close_failed env index hr st =
     map_option (\<lambda>(_, _, st'). (hr, None, st')) (bCap_Close_Client env (Some index) st)"

definition bCap_Open_Client :: "'w cenv \<Rightarrow> string option \<Rightarrow> u32 \<Rightarrow> u32 \<Rightarrow> bool \<Rightarrow> 'w client \<Rightarrow>
    (hresult \<times> i32 option \<times> 'w client) option" where
  "bCap_Open_Client env connect tmo n out st =
     (case connect of
        None \<Rightarrow> Some (E_INVALIDARG, None, st)
      | Some con \<Rightarrow>
          if \<not> out then Some (E_INVALIDARG, None, st)
          else let index = find_open_address (conns st) in
          if index = 0 then Some (E_MAX_OBJECT, None, st)
          else
            let i = index - 1; c = conns st ! i; (hr, d, par) = open_device env con (device c);
                st1 = (if conn_type d = CONN_TCP then st\<lparr>tcp_conn_timeout := tmo\<rparr> else st) in
            if FAILED hr then Some (hr, None, upd_conn i (\<lambda>_. zero_conn) st1)
            else (case env_init_mutex env i (cworld st1) of (hr1, w1) \<Rightarrow>
              if FAILED hr1 then Some (hr1, None, upd_conn i (\<lambda>c. c\<lparr>device := d\<lparr>arg := None\<rparr>\<rparr>) (st1\<lparr>cworld := w1\<rparr>))
              else (case dn_open d of
                  None \<Rightarrow> None
                | Some f \<Rightarrow> (case env_open env f par (tcp_conn_timeout st1) w1 of (hr2, s, w2) \<Rightarrow>
                    let st2 = st1\<lparr>tcp_conn_timeout := if f = F_tcp_open_client then 0 else tcp_conn_timeout st1\<rparr> in
                    if FAILED hr2
                    then Some (hr2, None, upd_conn i (\<lambda>_. zero_conn) (st2\<lparr>cworld := env_release_mutex env i w2\<rparr>))
                    else
                      let st3 = upd_conn i (\<lambda>c. c\<lparr>device := d\<lparr>sock := s\<rparr>\<rparr>) (st2\<lparr>cworld := w2\<rparr>) in
                      (case bCap_SetTimeout env (of_nat index) tmo st3 of
                         None \<Rightarrow> None
                       | Some (hr3, st4) \<Rightarrow>
                           if FAILED hr3 then close_failed env (of_nat index) hr3 st4
                           else (case bCap_SetRetry env (of_nat index) n st4 of (hr4, st5) \<Rightarrow>
                             if FAILED hr4 then close_failed env (of_nat index) hr4 st5
                             else Some (S_OK, Some (of_nat index),
                                        upd_conn i (\<lambda>c. c\<lparr>conn_serial := 1\<rparr>) st5)))))))"

section \<open>Calling a function\<close>

text \<open>
  The variable arguments of \<open>invoke_function\<close>, read as the format says; a format that does not
  fit them has no defined result. An output pointer is \<open>NULL\<close> or points to an \<open>int32_t\<close>, a
  \<open>BSTR\<close> or a \<open>VARIANT\<close> (with what it holds); the result carries what was stored there. A
  \<open>float\<close> is passed as a \<open>double\<close> and converted back: its bits are kept.
\<close>

datatype out_ptr = OutI4 | OutBstr | OutVariant variant

datatype vararg = VaI4 i32 | VaR4 u32 | VaBstr "bstr option" | VaVariant variant | VaOut "out_ptr option"

datatype out_val = RetI4 i32 | RetBstr "bstr option" | RetVariant variant

definition bstr_val :: "bstr option \<Rightarrow> vunion" where
  "bstr_val b = (case b of None \<Rightarrow> NULLP | Some s \<Rightarrow> BstrP s)"

text \<open>One argument: \<open>Inl\<close> the error of an unknown type.\<close>

definition take_arg :: "i32 \<Rightarrow> vararg list \<Rightarrow> (hresult + variant \<times> vararg list) option" where
  "take_arg t va =
     (if t = 3 then (case va of VaI4 n # va' \<Rightarrow> Some (Inr (Variant VT_I4 (Bits (ucast n)), va')) | _ \<Rightarrow> None)
      else if t = 4 then (case va of VaR4 f # va' \<Rightarrow> Some (Inr (Variant VT_R4 (Bits (ucast f)), va')) | _ \<Rightarrow> None)
      else if t = 8 then (case va of VaBstr b # va' \<Rightarrow> Some (Inr (Variant VT_BSTR (bstr_val b), va')) | _ \<Rightarrow> None)
      else if t = 12 then (case va of VaVariant v # va' \<Rightarrow> Some (Inr (v, va')) | _ \<Rightarrow> None)
      else Some (Inl E_INVALIDARG))"

text \<open>The loop over the format: \<open>acc\<close> are the arguments filled so far, of \<open>n\<close>.\<close>

function fill_args :: "nat \<Rightarrow> string \<Rightarrow> vararg list \<Rightarrow> variant list \<Rightarrow> (hresult \<times> variant list \<times> vararg list) option" where
  "fill_args n fmt va acc =
     (if fmt = [] \<and> n \<le> length acc then Some (S_OK, acc, va)
      else
        let field = takeWhile (\<lambda>c. c \<noteq> CHR '','') fmt in
        case take_arg (atoi field) va of
          None \<Rightarrow> None
        | Some (Inl e) \<Rightarrow> Some (e, acc, va)
        | Some (Inr (v, va')) \<Rightarrow>
            if length acc < n then fill_args n (drop (Suc (length field)) fmt) va' (acc @ [v]) else None)"
  by auto
termination by (relation "measure (\<lambda>(n, fmt, va, acc). n - length acc)") auto

declare fill_args.simps [simp del]

text \<open>
  The return value: the type after the colon and the pointer. \<open>packet_recv.args\<close> is the
  caller's \<open>VARIANT\<close> when there is one, a local one otherwise.
\<close>

definition ret_ptr :: "string option \<Rightarrow> vararg list \<Rightarrow> (i32 \<times> out_ptr option) option" where
  "ret_ptr chRet va =
     (case chRet of
        None \<Rightarrow> Some (0, None)
      | Some r \<Rightarrow> (case va of VaOut p # _ \<Rightarrow> Some (atoi r, p) | _ \<Rightarrow> None))"

definition recv_dest :: "i32 \<Rightarrow> out_ptr option \<Rightarrow> variant option option" where
  "recv_dest t p =
     (if t = 12 then (case p of None \<Rightarrow> Some None | Some (OutVariant v) \<Rightarrow> Some (Some v) | _ \<Rightarrow> None) else Some None)"

text \<open>What is stored through the pointer after a success whose value has the expected type.\<close>

definition store_ret :: "(nat \<Rightarrow> bool) \<Rightarrow> i32 \<Rightarrow> out_ptr option \<Rightarrow> variant \<Rightarrow> out_val option option" where
  "store_ret mok t p v =
     (case p of
        None \<Rightarrow> Some None
      | Some target \<Rightarrow>
          if t \<noteq> ucast (vt v) then Some None
          else if t = 3 then
            (case (target, val v) of (OutI4, Bits w) \<Rightarrow> Some (Some (RetI4 (ucast w))) | _ \<Rightarrow> None)
          else if t = 8 then
            (case (target, bstr_ptr (val v)) of
               (OutBstr, Some b) \<Rightarrow> map_option (\<lambda>b'. Some (RetBstr b')) (SysAllocString mok b)
             | _ \<Rightarrow> None)
          else Some None)"

definition invoke_function :: "'w cenv \<Rightarrow> i32 \<Rightarrow> i32 \<Rightarrow> nat \<Rightarrow> string \<Rightarrow> vararg list \<Rightarrow> 'w client \<Rightarrow>
    (hresult \<times> out_val option \<times> 'w client) option" where
  "invoke_function env fd fid n fmt va st =
     (if 0 < n \<and> \<not> env_mok env (n * 16) then Some (E_OUTOFMEMORY, None, st)
      else
        let arg_fmt = takeWhile (\<lambda>c. c \<noteq> CHR '':'') fmt;
            chRet = (if CHR '':'' \<in> set fmt then Some (drop (Suc (length arg_fmt)) fmt) else None) in
        case fill_args n arg_fmt va [] of
          None \<Rightarrow> None
        | Some (hr, vntArg, va1) \<Rightarrow>
            if FAILED hr then Some (hr, None, st)
            else (case ret_ptr chRet va1 of
                None \<Rightarrow> None
              | Some (t, pRet) \<Rightarrow> (case recv_dest t pRet of
                  None \<Rightarrow> None
                | Some dst \<Rightarrow>
                    let p = \<lparr>serial = 0, reserv = 0, func_id = fid, argc = of_nat n,
                             args = (if n = 0 then None else Some vntArg)\<rparr>;
                        q = \<lparr>serial = 0, reserv = 0, func_id = 0, argc = 1,
                             args = Some [case dst of None \<Rightarrow> zero_variant | Some v \<Rightarrow> v]\<rparr> in
                    (case send_receive env fd p q st of
                       None \<Rightarrow> None
                     | Some (hr1, q', st') \<Rightarrow> (case args q' of
                         Some (r # _) \<Rightarrow>
                           (case dst of
                              Some _ \<Rightarrow> Some (hr1, Some (RetVariant r), st')
                            | None \<Rightarrow>
                                (case (if SUCCEEDED hr1 then store_ret (env_mok env) t pRet r else Some None) of
                                   None \<Rightarrow> None
                                 | Some out \<Rightarrow> map_option (\<lambda>_. (hr1, out, st')) (VariantClear r)))
                       | _ \<Rightarrow> None)))))"

end
