(* ===== verification/BcapExchange.thy ===== *)
theory BcapExchange
  imports BcapClient BcapStream
begin

text \<open>
  The exchange of a request and its reply over TCP. The interface is the locale \<open>stream_link\<close>, a
  \<open>stream_device\<close> one can also write to: \<open>ok x w\<close> says that the bytes \<open>x\<close> were written. Inside
  it, \<open>send_receive\<close> puts exactly the serialised request on the wire, drops the replies to
  earlier requests and the \<open>S_EXECUTING\<close> notices, and returns the code and the value of its own
  reply. The interpretation is the driver over the segmented network of \<open>BcapStream\<close>.
\<close>

section \<open>The interface\<close>

text \<open>A reply the client has room for: at most one value.\<close>

definition reply_ok :: "byte list \<Rightarrow> bcap_packet \<Rightarrow> bool" where
  "reply_ok fresh p \<longleftrightarrow> wf_packet p \<and> dates_oks (arg_list p) \<and> argc p \<le> 1 \<and>
     length (ser_packet p []) < 2 ^ 32 \<and> length (ser_packet p []) \<le> length fresh"

definition stale :: "u16 \<Rightarrow> bcap_packet \<Rightarrow> bool" where
  "stale snt p \<longleftrightarrow> serial p \<noteq> snt \<or> func_id p = S_EXECUTING"

text \<open>The value the reply packet holds after some replies: that of the last one that had one.\<close>

fun last_args :: "variant list option \<Rightarrow> bcap_packet list \<Rightarrow> variant list option" where
  "last_args a [] = a"
| "last_args a (p # ps) = last_args (if argc p = 0 then a else Some (wires (arg_list p))) ps"

definition ser_packets :: "bcap_packet list \<Rightarrow> byte list" where
  "ser_packets ps = concat (map (\<lambda>p. ser_packet p []) ps)"

lemma ser_packets_simps [simp]:
  "ser_packets [] = []" "ser_packets (p # ps) = ser_packet p [] @ ser_packets ps"
  by (simp_all add: ser_packets_def)

text \<open>The client's mutex is free and does not change the connection.\<close>

definition lock_free :: "'w cenv \<Rightarrow> bool" where
  "lock_free env \<longleftrightarrow> (\<forall>i w. env_lock env i w = (S_OK, w)) \<and> (\<forall>i w. env_unlock env i w = w)"

locale stream_link =
  fixes io :: "'w io" and d :: conn_param_common
    and pend :: "'w \<Rightarrow> byte list" and seen :: "'w \<Rightarrow> nat" and ok :: "byte list \<Rightarrow> 'w \<Rightarrow> bool"
  assumes recv_law: "stream_device io d pend seen (ok x)"
    and can_send: "ok x w \<Longrightarrow> check_conn_param (Some d) CHECK_FUNC_SEND = S_OK"
    and can_recv: "ok x w \<Longrightarrow> check_conn_param (Some d) CHECK_FUNC_RECV = S_OK"
    and send_law: "ok x w \<Longrightarrow> bs \<noteq> [] \<Longrightarrow> hd bs \<noteq> 0 \<Longrightarrow>
      \<exists>w'. dev_send io (the (dn_send d)) (sock d) bs (ArgFlag 0) w = (S_OK, w') \<and>
        ok (x @ bs) w' \<and> pend w' = pend w"

sublocale stream_link \<subseteq> dev: stream_device io d pend seen "ok x" for x
  by (rule recv_law)

context stream_link
begin

lemma bcap_send_ok:
  assumes "ok x w" and "wf_packet p" and "length (ser_packet p []) < 2 ^ 32"
  shows "\<exists>w'. bcap_send io mem_ok (Some d) (Some p) w = Some (S_OK, w') \<and>
           ok (x @ ser_packet p []) w' \<and> pend w' = pend w"
proof -
  let ?n = "length (ser_packet p [])"
  have un: "unat (of_nat ?n :: u32) = ?n" using assms(3) by (rule unat_of_nat_32)
  have enc: "bcap_packet2bytary (Some p) (Some (replicate ?n 0)) (of_nat ?n) = Some (S_OK, Some (ser_packet p []))"
    using encode_packet [OF assms(2), of 0 "replicate ?n 0"] assms(3) by simp
  have ne: "ser_packet p [] \<noteq> []" "hd (ser_packet p []) \<noteq> 0" by (simp_all add: ser_packet_def Let_def)
  have le: "\<not> (- 1 :: u32) < of_nat ?n" by (simp add: not_less word_n1_ge)
  have tcp: "conn_type d = CONN_TCP" by (rule dev.tcp)
  show ?thesis
    using send_law [OF assms(1) ne] un enc le
    by (auto simp: bcap_send_def send_arg_def tcp can_send [OF assms(1)] calc_size_packet [OF assms(2)] simp del: length_ser_packet)
qed

lemma bcap_recv_reply:
  assumes "ok x w" and "pend w = ser_packet r [] @ rest" and "reply_ok fresh r" and "args q = Some [v]"
  shows "\<exists>w' q'. bcap_recv io mem_ok junk fresh (Some d) (Some (q\<lparr>argc := 1\<rparr>)) True w =
             Some (S_OK, Some q', Some d, w') \<and> ok x w' \<and> pend w' = rest \<and>
             serial q' = serial r \<and> func_id q' = func_id r \<and>
             args q' = (if argc r = 0 then args q else Some (wires (arg_list r))) \<and> (\<exists>v'. args q' = Some [v'])"
proof -
  have r: "wf_packet r" "dates_oks (arg_list r)" "argc r \<le> 1" "length (ser_packet r []) < 2 ^ 32"
    "length (ser_packet r []) \<le> length fresh" using assms(3) by (auto simp: reply_ok_def)
  have n: "unat (argc r) \<le> 1" using r(3) by (simp add: word_le_nat_alt)
  have room: "dest_room junk (q\<lparr>argc := 1\<rparr>) (unat (argc r)) = Some [v]"
    using n assms(4) by (simp add: dest_room_def)
  have pend: "pend w = [] @ ser_packet r [] @ rest" using assms(2) by simp
  have hdr: "BCAP_HEADER \<notin> set []" by simp
  obtain w' where w': "bcap_recv io mem_ok junk fresh (Some d) (Some (q\<lparr>argc := 1\<rparr>)) True w =
      Some (S_OK, Some (received r (q\<lparr>argc := 1\<rparr>) [v]), Some d, w')" "ok x w'" "pend w' = rest"
    using dev.bcap_recv_ok [OF can_recv [OF assms(1)] assms(1) pend hdr r(1,2,4) room r(5)] by blast
  have "length (arg_list r) = unat (argc r)" using r(1) by (simp add: wf_packet_def)
  then have "argc r \<noteq> 0 \<Longrightarrow> length (arg_list r) = 1 \<and> unat (argc r) = 1" using n by (simp add: unat_eq_0 le_Suc_eq)
  then have len: "argc r \<noteq> 0 \<Longrightarrow> \<exists>v'. wires (arg_list r) = [v'] \<and> unat (argc r) = 1"
    by (auto simp: wires_map length_Suc_conv)
  then have v: "\<exists>v'. args (received r (q\<lparr>argc := 1\<rparr>) [v]) = Some [v']" using assms(4) by auto
  have a: "args (received r (q\<lparr>argc := 1\<rparr>) [v]) = (if argc r = 0 then args q else Some (wires (arg_list r)))"
    using len by (cases "argc r = 0") auto
  show ?thesis
    by (intro exI [of _ w'] exI [of _ "received r (q\<lparr>argc := 1\<rparr>) [v]"] conjI w' v a) simp_all
qed

lemma recv_reply_ok:
  assumes "ok x w" and "pend w = ser_packets ps @ ser_packet r [] @ rest"
    and "list_all (reply_ok (env_fresh env)) (ps @ [r])" and "list_all (stale snt) ps" and "\<not> stale snt r"
    and "args q = Some [v]" and "env_io env = io" and "env_mok env = mem_ok"
  shows "\<exists>w' q'. recv_reply env snt d q w = Some (S_OK, q', d, w') \<and> ok x w' \<and> pend w' = rest \<and>
           func_id q' = func_id r \<and> args q' = last_args (args q) (ps @ [r])"
  using assms(1-6)
proof (induction ps arbitrary: w q v)
  case Nil
  then obtain w' q' where "bcap_recv io mem_ok (env_junk env) (env_fresh env) (Some d) (Some (q\<lparr>argc := 1\<rparr>)) True w =
             Some (S_OK, Some q', Some d, w')" "ok x w'" "pend w' = rest"
             "serial q' = serial r" "func_id q' = func_id r"
             "args q' = (if argc r = 0 then args q else Some (wires (arg_list r)))"
    using bcap_recv_reply [of x w r rest "env_fresh env" q v "env_junk env"] by auto
  then show ?case
    using Nil.prems assms(7,8) by (subst recv_reply.simps) (auto simp: stale_def)
next
  case (Cons p ps)
  then have p: "pend w = ser_packet p [] @ (ser_packets ps @ ser_packet r [] @ rest)" "reply_ok (env_fresh env) p" by auto
  obtain w' q' v' where step: "bcap_recv io mem_ok (env_junk env) (env_fresh env) (Some d) (Some (q\<lparr>argc := 1\<rparr>)) True w =
             Some (S_OK, Some q', Some d, w')" and w': "ok x w'" "pend w' = ser_packets ps @ ser_packet r [] @ rest"
             "serial q' = serial p" "func_id q' = func_id p"
    and a: "args q' = (if argc p = 0 then args q else Some (wires (arg_list p)))" "args q' = Some [v']"
    using bcap_recv_reply [OF Cons.prems(1) p Cons.prems(6), of "env_junk env"] by blast
  have "\<exists>w'' q''. recv_reply env snt d q' w' = Some (S_OK, q'', d, w'') \<and> ok x w'' \<and> pend w'' = rest \<and>
           func_id q'' = func_id r \<and> args q'' = last_args (args q') (ps @ [r])"
    by (rule Cons.IH [OF w'(1,2) _ _ Cons.prems(5) a(2)]) (use Cons.prems in auto)
  moreover have "recv_reply env snt d q w = recv_reply env snt d q' w'"
    using step w'(3,4) Cons.prems(4) assms(7,8) by (subst recv_reply.simps) (auto simp: stale_def)
  ultimately show ?case using a(1) by auto
qed

lemma send_receive_ok:
  assumes "ok x (cworld st)" and "pend (cworld st) = ser_packets ps @ ser_packet r [] @ rest"
    and "check_address (conns st) h = Some (i, c)" and "device c = d" and "retry c \<noteq> 0"
    and "list_all (reply_ok (env_fresh env)) (ps @ [r])" and "list_all (stale (conn_serial c)) ps"
    and "\<not> stale (conn_serial c) r" and "wf_packet p" and "length (ser_packet p []) < 2 ^ 32"
    and "args q = Some [v]" and "env_io env = io" and "env_mok env = mem_ok" and "lock_free env"
  shows "\<exists>w' q'. send_receive env h p q st = Some (func_id r, q',
             st\<lparr>conns := (conns st)[i := c\<lparr>conn_serial := next_serial (conn_serial c)\<rparr>], cworld := w'\<rparr>) \<and>
           ok (x @ ser_packet (p\<lparr>serial := conn_serial c, reserv := 0\<rparr>) []) w' \<and> pend w' = rest \<and>
           args q' = last_args (args q) (ps @ [r])"
proof -
  let ?p = "p\<lparr>serial := conn_serial c, reserv := 0\<rparr>"
  let ?q = "q\<lparr>func_id := E_FAIL\<rparr>"
  have al: "arg_list ?p = arg_list p" by (simp add: arg_list_def)
  have wf: "wf_packet ?p" "length (ser_packet ?p []) < 2 ^ 32" using assms(9,10) by (auto simp: wf_packet_def al)
  obtain w1 where snd: "bcap_send io mem_ok (Some d) (Some ?p) (cworld st) = Some (S_OK, w1)"
    and w1: "ok (x @ ser_packet ?p []) w1" "pend w1 = ser_packets ps @ ser_packet r [] @ rest"
    using bcap_send_ok [OF assms(1) wf] assms(2) by auto
  have aq: "args ?q = Some [v]" using assms(11) by simp
  obtain w' q' where rcv: "recv_reply env (conn_serial c) d ?q w1 = Some (S_OK, q', d, w')"
    and w': "ok (x @ ser_packet ?p []) w'" "pend w' = rest" "func_id q' = func_id r"
      "args q' = last_args (args ?q) (ps @ [r])"
    using recv_reply_ok [OF w1 assms(6-8) aq assms(12,13)] by blast
  obtain n where n: "unat (retry c) = Suc n" using assms(5) by (metis unat_eq_0 not0_implies_Suc)
  have comm: "p\<lparr>reserv := 0, serial := conn_serial c\<rparr> = ?p" by simp
  have c: "c\<lparr>conn_serial := s, device := d\<rparr> = c\<lparr>conn_serial := s\<rparr>" for s using assms(4) by simp
  have "send_receive env h p q st = Some (func_id r, q',
             st\<lparr>conns := (conns st)[i := c\<lparr>conn_serial := next_serial (conn_serial c)\<rparr>], cworld := w'\<rparr>)"
    using assms(3-5,12-14) n snd rcv w'(3) dev.tcp
    by (simp add: send_receive_def lock_free_def comm c Let_def)
  then show ?thesis using w' by auto
qed

end

section \<open>The TCP driver\<close>

interpretation link: stream_link "driver_io net_os" "tcp_device sck tmo a" stream "\<lambda>w. length (arrived w)"
    "\<lambda>x w. segments_ok w \<and> 0 < sint sck \<and> sent w = x"
proof (rule stream_link.intro)
  show "stream_device (driver_io net_os) (tcp_device sck tmo a) stream (\<lambda>w. length (arrived w))
      (\<lambda>w. segments_ok w \<and> 0 < sint sck \<and> sent w = x)" for x
    by (rule net.stream_device_axioms)
  show "\<exists>w'. dev_send (driver_io net_os) (the (dn_send (tcp_device sck tmo a))) (sock (tcp_device sck tmo a)) bs
        (ArgFlag 0) w = (S_OK, w') \<and>
      (segments_ok w' \<and> 0 < sint sck \<and> sent w' = x @ bs) \<and> stream w' = stream w"
    if "segments_ok w \<and> 0 < sint sck \<and> sent w = x" "bs \<noteq> []" "hd bs \<noteq> 0" for x w bs
    using that by (auto simp: driver_io_def tcp_device_def tcp_send_def net_os_def segments_ok_def stream_def)
qed (auto simp: check_conn_param_def tcp_device_def)

section \<open>Properties\<close>

text \<open>
  C22: over a TCP connection \<open>send_receive\<close> appends exactly the serialised
  request, under the connection's serial number, to the bytes sent; it takes the replies to
  earlier requests and the \<open>S_EXECUTING\<close> notices off the stream, returns the code of the reply
  to this request with the last value received, and leaves the stream behind that reply. Nothing
  but the serial number of this connection changes in the table.
\<close>

theorem send_receive_exchange:
  assumes "segments_ok (cworld st)" and "0 < sint sck"
    and "stream (cworld st) = ser_packets ps @ ser_packet r [] @ rest"
    and "check_address (conns st) h = Some (i, c)" and "device c = tcp_device sck tmo a" and "retry c \<noteq> 0"
    and "list_all (reply_ok (env_fresh env)) (ps @ [r])" and "list_all (stale (conn_serial c)) ps"
    and "\<not> stale (conn_serial c) r" and "wf_packet p" and "length (ser_packet p []) < 2 ^ 32"
    and "args q = Some [v]" and "env_io env = driver_io net_os" and "env_mok env = mem_ok" and "lock_free env"
  shows "\<exists>w' q'. send_receive env h p q st = Some (func_id r, q',
             st\<lparr>conns := (conns st)[i := c\<lparr>conn_serial := next_serial (conn_serial c)\<rparr>], cworld := w'\<rparr>) \<and>
           sent w' = sent (cworld st) @ ser_packet (p\<lparr>serial := conn_serial c, reserv := 0\<rparr>) [] \<and>
           stream w' = rest \<and> args q' = last_args (args q) (ps @ [r])"
proof -
  have "segments_ok (cworld st) \<and> 0 < sint sck \<and> sent (cworld st) = sent (cworld st)" using assms(1,2) by simp
  from link.send_receive_ok [OF this assms(3-15)] show ?thesis by blast
qed

definition sample_env :: "net cenv" where
  "sample_env = \<lparr>env_io = driver_io net_os, env_lock = \<lambda>i w. (S_OK, w), env_unlock = \<lambda>i w. w,
     env_init_mutex = \<lambda>i w. (S_OK, w), env_release_mutex = \<lambda>i w. w,
     env_open = \<lambda>f p t w. (S_OK, 5, w), env_close = \<lambda>f s w. w, env_set_timeout = \<lambda>f s t w. (S_OK, w),
     env_mok = mem_ok, env_junk = [zero_variant], env_fresh = replicate 64 0,
     env_inet_addr = \<lambda>s. 0, env_atof10 = \<lambda>s. 0\<rparr>"

definition notice :: bcap_packet where
  "notice = \<lparr>serial = 7, reserv = 0, func_id = S_EXECUTING, argc = 0, args = None\<rparr>"

definition handle_reply :: bcap_packet where
  "handle_reply = \<lparr>serial = 7, reserv = 0, func_id = S_OK, argc = 1, args = Some [Variant VT_I4 (Bits 33)]\<rparr>"

definition sample_client :: "net client" where
  "sample_client = \<lparr>conns = \<lparr>device = tcp_device 5 1000 None, retry = 1, conn_serial = 7\<rparr> # replicate 19 zero_conn,
     tcp_conn_timeout = 0,
     cworld = \<lparr>arrived = ser_packet notice [], coming = [ser_packet handle_reply [], [1]], sent = [4]\<rparr>\<rparr>"

lemma sample_exchange:
  "segments_ok (cworld sample_client)"
  "stream (cworld sample_client) = ser_packets [notice] @ ser_packet handle_reply [] @ [1]"
  "check_address (conns sample_client) 1 = Some (0, \<lparr>device = tcp_device 5 1000 None, retry = 1, conn_serial = 7\<rparr>)"
  "list_all (reply_ok (env_fresh sample_env)) ([notice] @ [handle_reply])"
  "list_all (stale 7) [notice]" "\<not> stale 7 handle_reply"
  "env_io sample_env = driver_io net_os" "env_mok sample_env = mem_ok" "lock_free sample_env"
proof -
  have wf: "wf_packet notice" "wf_packet handle_reply"
    by (simp_all add: wf_packet_def notice_def handle_reply_def arg_list_def wf_variant.simps wf_body_def
        is_array_def scalar_type_def copyable_def)
  have len: "length (ser_packet notice []) = 16" "length (ser_packet handle_reply []) = 30"
    by code_simp+
  show "list_all (reply_ok (env_fresh sample_env)) ([notice] @ [handle_reply])"
    using wf len by (simp add: reply_ok_def notice_def handle_reply_def sample_env_def arg_list_def
        dates_ok.simps dates_ok_body_def)
  show "segments_ok (cworld sample_client)"
    by (simp add: segments_ok_def sample_client_def ser_packet_def Let_def)
qed (simp_all add: sample_client_def stream_def check_address_def tcp_device_def stale_def notice_def handle_reply_def
       sample_env_def lock_free_def)

lemma send_receive_exchange_witness:
  "\<exists>w' q'. send_receive sample_env 1 sample_packet \<lparr>serial = 0, reserv = 0, func_id = 0, argc = 1, args = Some [zero_variant]\<rparr>
      sample_client = Some (S_OK, q', sample_client\<lparr>conns := (conns sample_client)
        [0 := \<lparr>device = tcp_device 5 1000 None, retry = 1, conn_serial = 8\<rparr>], cworld := w'\<rparr>) \<and>
    sent w' = 4 # ser_packet sample_packet [] \<and> stream w' = [1] \<and> args q' = Some [Variant VT_I4 (Bits 33)]"
proof -
  let ?c = "\<lparr>device = tcp_device 5 1000 None, retry = 1, conn_serial = 7\<rparr>"
  let ?q = "\<lparr>serial = 0, reserv = 0, func_id = 0, argc = 1, args = Some [zero_variant]\<rparr>"
  have "length (ser_packet sample_packet []) < 2 ^ 32"
  proof -
    have "length (ser_packet sample_packet []) = 50" by code_simp
    then show ?thesis by simp
  qed
  moreover have "last_args (args ?q) ([notice] @ [handle_reply]) = Some [Variant VT_I4 (Bits 33)]" by code_simp
  moreover have "sample_packet\<lparr>serial := 7, reserv := 0\<rparr> = sample_packet" by (simp add: sample_packet_def)
  moreover have "func_id handle_reply = S_OK" "sent (cworld sample_client) = [4]" "next_serial 7 = 8"
    by (simp_all add: handle_reply_def sample_client_def next_serial_def)
  ultimately show ?thesis
    using send_receive_exchange [of sample_client 5 "[notice]" handle_reply "[1]" 1 0 ?c 1000 None sample_env
        sample_packet ?q zero_variant] sample_exchange wf_sample_packet
    by simp
qed

end
