(* ===== verification/FuncId.thy ===== *)
theory FuncId
  imports Prelude
begin

text \<open>
  The numbers of the b-CAP functions (\<open>bcap_core/include/bcap_core/bcap_funcid.h\<close>), which the
  client puts in its requests and the server dispatches on.
\<close>

abbreviation (input) ID_SERVICE_START :: i32 where "ID_SERVICE_START \<equiv> 1"
abbreviation (input) ID_SERVICE_STOP :: i32 where "ID_SERVICE_STOP \<equiv> 2"
abbreviation (input) ID_CONTROLLER_CONNECT :: i32 where "ID_CONTROLLER_CONNECT \<equiv> 3"
abbreviation (input) ID_CONTROLLER_DISCONNECT :: i32 where "ID_CONTROLLER_DISCONNECT \<equiv> 4"
abbreviation (input) ID_CONTROLLER_GETEXTENSION :: i32 where "ID_CONTROLLER_GETEXTENSION \<equiv> 5"
abbreviation (input) ID_CONTROLLER_GETFILE :: i32 where "ID_CONTROLLER_GETFILE \<equiv> 6"
abbreviation (input) ID_CONTROLLER_GETROBOT :: i32 where "ID_CONTROLLER_GETROBOT \<equiv> 7"
abbreviation (input) ID_CONTROLLER_GETTASK :: i32 where "ID_CONTROLLER_GETTASK \<equiv> 8"
abbreviation (input) ID_CONTROLLER_GETVARIABLE :: i32 where "ID_CONTROLLER_GETVARIABLE \<equiv> 9"
abbreviation (input) ID_CONTROLLER_GETCOMMAND :: i32 where "ID_CONTROLLER_GETCOMMAND \<equiv> 10"
abbreviation (input) ID_CONTROLLER_GETEXTENSIONNAMES :: i32 where "ID_CONTROLLER_GETEXTENSIONNAMES \<equiv> 11"
abbreviation (input) ID_CONTROLLER_GETFILENAMES :: i32 where "ID_CONTROLLER_GETFILENAMES \<equiv> 12"
abbreviation (input) ID_CONTROLLER_GETROBOTNAMES :: i32 where "ID_CONTROLLER_GETROBOTNAMES \<equiv> 13"
abbreviation (input) ID_CONTROLLER_GETTASKNAMES :: i32 where "ID_CONTROLLER_GETTASKNAMES \<equiv> 14"
abbreviation (input) ID_CONTROLLER_GETVARIABLENAMES :: i32 where "ID_CONTROLLER_GETVARIABLENAMES \<equiv> 15"
abbreviation (input) ID_CONTROLLER_GETCOMMANDNAMES :: i32 where "ID_CONTROLLER_GETCOMMANDNAMES \<equiv> 16"
abbreviation (input) ID_CONTROLLER_EXECUTE :: i32 where "ID_CONTROLLER_EXECUTE \<equiv> 17"
abbreviation (input) ID_CONTROLLER_GETMESSAGE :: i32 where "ID_CONTROLLER_GETMESSAGE \<equiv> 18"
abbreviation (input) ID_CONTROLLER_GETATTRIBUTE :: i32 where "ID_CONTROLLER_GETATTRIBUTE \<equiv> 19"
abbreviation (input) ID_CONTROLLER_GETHELP :: i32 where "ID_CONTROLLER_GETHELP \<equiv> 20"
abbreviation (input) ID_CONTROLLER_GETNAME :: i32 where "ID_CONTROLLER_GETNAME \<equiv> 21"
abbreviation (input) ID_CONTROLLER_GETTAG :: i32 where "ID_CONTROLLER_GETTAG \<equiv> 22"
abbreviation (input) ID_CONTROLLER_PUTTAG :: i32 where "ID_CONTROLLER_PUTTAG \<equiv> 23"
abbreviation (input) ID_CONTROLLER_GETID :: i32 where "ID_CONTROLLER_GETID \<equiv> 24"
abbreviation (input) ID_CONTROLLER_PUTID :: i32 where "ID_CONTROLLER_PUTID \<equiv> 25"
abbreviation (input) ID_EXTENSION_GETVARIABLE :: i32 where "ID_EXTENSION_GETVARIABLE \<equiv> 26"
abbreviation (input) ID_EXTENSION_GETVARIABLENAMES :: i32 where "ID_EXTENSION_GETVARIABLENAMES \<equiv> 27"
abbreviation (input) ID_EXTENSION_EXECUTE :: i32 where "ID_EXTENSION_EXECUTE \<equiv> 28"
abbreviation (input) ID_EXTENSION_GETATTRIBUTE :: i32 where "ID_EXTENSION_GETATTRIBUTE \<equiv> 29"
abbreviation (input) ID_EXTENSION_GETHELP :: i32 where "ID_EXTENSION_GETHELP \<equiv> 30"
abbreviation (input) ID_EXTENSION_GETNAME :: i32 where "ID_EXTENSION_GETNAME \<equiv> 31"
abbreviation (input) ID_EXTENSION_GETTAG :: i32 where "ID_EXTENSION_GETTAG \<equiv> 32"
abbreviation (input) ID_EXTENSION_PUTTAG :: i32 where "ID_EXTENSION_PUTTAG \<equiv> 33"
abbreviation (input) ID_EXTENSION_GETID :: i32 where "ID_EXTENSION_GETID \<equiv> 34"
abbreviation (input) ID_EXTENSION_PUTID :: i32 where "ID_EXTENSION_PUTID \<equiv> 35"
abbreviation (input) ID_EXTENSION_RELEASE :: i32 where "ID_EXTENSION_RELEASE \<equiv> 36"
abbreviation (input) ID_FILE_GETFILE :: i32 where "ID_FILE_GETFILE \<equiv> 37"
abbreviation (input) ID_FILE_GETVARIABLE :: i32 where "ID_FILE_GETVARIABLE \<equiv> 38"
abbreviation (input) ID_FILE_GETFILENAMES :: i32 where "ID_FILE_GETFILENAMES \<equiv> 39"
abbreviation (input) ID_FILE_GETVARIABLENAMES :: i32 where "ID_FILE_GETVARIABLENAMES \<equiv> 40"
abbreviation (input) ID_FILE_EXECUTE :: i32 where "ID_FILE_EXECUTE \<equiv> 41"
abbreviation (input) ID_FILE_COPY :: i32 where "ID_FILE_COPY \<equiv> 42"
abbreviation (input) ID_FILE_DELETE :: i32 where "ID_FILE_DELETE \<equiv> 43"
abbreviation (input) ID_FILE_MOVE :: i32 where "ID_FILE_MOVE \<equiv> 44"
abbreviation (input) ID_FILE_RUN :: i32 where "ID_FILE_RUN \<equiv> 45"
abbreviation (input) ID_FILE_GETDATECREATED :: i32 where "ID_FILE_GETDATECREATED \<equiv> 46"
abbreviation (input) ID_FILE_GETDATELASTACCESSED :: i32 where "ID_FILE_GETDATELASTACCESSED \<equiv> 47"
abbreviation (input) ID_FILE_GETDATELASTMODIFIED :: i32 where "ID_FILE_GETDATELASTMODIFIED \<equiv> 48"
abbreviation (input) ID_FILE_GETPATH :: i32 where "ID_FILE_GETPATH \<equiv> 49"
abbreviation (input) ID_FILE_GETSIZE :: i32 where "ID_FILE_GETSIZE \<equiv> 50"
abbreviation (input) ID_FILE_GETTYPE :: i32 where "ID_FILE_GETTYPE \<equiv> 51"
abbreviation (input) ID_FILE_GETVALUE :: i32 where "ID_FILE_GETVALUE \<equiv> 52"
abbreviation (input) ID_FILE_PUTVALUE :: i32 where "ID_FILE_PUTVALUE \<equiv> 53"
abbreviation (input) ID_FILE_GETATTRIBUTE :: i32 where "ID_FILE_GETATTRIBUTE \<equiv> 54"
abbreviation (input) ID_FILE_GETHELP :: i32 where "ID_FILE_GETHELP \<equiv> 55"
abbreviation (input) ID_FILE_GETNAME :: i32 where "ID_FILE_GETNAME \<equiv> 56"
abbreviation (input) ID_FILE_GETTAG :: i32 where "ID_FILE_GETTAG \<equiv> 57"
abbreviation (input) ID_FILE_PUTTAG :: i32 where "ID_FILE_PUTTAG \<equiv> 58"
abbreviation (input) ID_FILE_GETID :: i32 where "ID_FILE_GETID \<equiv> 59"
abbreviation (input) ID_FILE_PUTID :: i32 where "ID_FILE_PUTID \<equiv> 60"
abbreviation (input) ID_FILE_RELEASE :: i32 where "ID_FILE_RELEASE \<equiv> 61"
abbreviation (input) ID_ROBOT_GETVARIABLE :: i32 where "ID_ROBOT_GETVARIABLE \<equiv> 62"
abbreviation (input) ID_ROBOT_GETVARIABLENAMES :: i32 where "ID_ROBOT_GETVARIABLENAMES \<equiv> 63"
abbreviation (input) ID_ROBOT_EXECUTE :: i32 where "ID_ROBOT_EXECUTE \<equiv> 64"
abbreviation (input) ID_ROBOT_ACCELERATE :: i32 where "ID_ROBOT_ACCELERATE \<equiv> 65"
abbreviation (input) ID_ROBOT_CHANGE :: i32 where "ID_ROBOT_CHANGE \<equiv> 66"
abbreviation (input) ID_ROBOT_CHUCK :: i32 where "ID_ROBOT_CHUCK \<equiv> 67"
abbreviation (input) ID_ROBOT_DRIVE :: i32 where "ID_ROBOT_DRIVE \<equiv> 68"
abbreviation (input) ID_ROBOT_GOHOME :: i32 where "ID_ROBOT_GOHOME \<equiv> 69"
abbreviation (input) ID_ROBOT_HALT :: i32 where "ID_ROBOT_HALT \<equiv> 70"
abbreviation (input) ID_ROBOT_HOLD :: i32 where "ID_ROBOT_HOLD \<equiv> 71"
abbreviation (input) ID_ROBOT_MOVE :: i32 where "ID_ROBOT_MOVE \<equiv> 72"
abbreviation (input) ID_ROBOT_ROTATE :: i32 where "ID_ROBOT_ROTATE \<equiv> 73"
abbreviation (input) ID_ROBOT_SPEED :: i32 where "ID_ROBOT_SPEED \<equiv> 74"
abbreviation (input) ID_ROBOT_UNCHUCK :: i32 where "ID_ROBOT_UNCHUCK \<equiv> 75"
abbreviation (input) ID_ROBOT_UNHOLD :: i32 where "ID_ROBOT_UNHOLD \<equiv> 76"
abbreviation (input) ID_ROBOT_GETATTRIBUTE :: i32 where "ID_ROBOT_GETATTRIBUTE \<equiv> 77"
abbreviation (input) ID_ROBOT_GETHELP :: i32 where "ID_ROBOT_GETHELP \<equiv> 78"
abbreviation (input) ID_ROBOT_GETNAME :: i32 where "ID_ROBOT_GETNAME \<equiv> 79"
abbreviation (input) ID_ROBOT_GETTAG :: i32 where "ID_ROBOT_GETTAG \<equiv> 80"
abbreviation (input) ID_ROBOT_PUTTAG :: i32 where "ID_ROBOT_PUTTAG \<equiv> 81"
abbreviation (input) ID_ROBOT_GETID :: i32 where "ID_ROBOT_GETID \<equiv> 82"
abbreviation (input) ID_ROBOT_PUTID :: i32 where "ID_ROBOT_PUTID \<equiv> 83"
abbreviation (input) ID_ROBOT_RELEASE :: i32 where "ID_ROBOT_RELEASE \<equiv> 84"
abbreviation (input) ID_TASK_GETVARIABLE :: i32 where "ID_TASK_GETVARIABLE \<equiv> 85"
abbreviation (input) ID_TASK_GETVARIABLENAMES :: i32 where "ID_TASK_GETVARIABLENAMES \<equiv> 86"
abbreviation (input) ID_TASK_EXECUTE :: i32 where "ID_TASK_EXECUTE \<equiv> 87"
abbreviation (input) ID_TASK_START :: i32 where "ID_TASK_START \<equiv> 88"
abbreviation (input) ID_TASK_STOP :: i32 where "ID_TASK_STOP \<equiv> 89"
abbreviation (input) ID_TASK_DELETE :: i32 where "ID_TASK_DELETE \<equiv> 90"
abbreviation (input) ID_TASK_GETFILENAME :: i32 where "ID_TASK_GETFILENAME \<equiv> 91"
abbreviation (input) ID_TASK_GETATTRIBUTE :: i32 where "ID_TASK_GETATTRIBUTE \<equiv> 92"
abbreviation (input) ID_TASK_GETHELP :: i32 where "ID_TASK_GETHELP \<equiv> 93"
abbreviation (input) ID_TASK_GETNAME :: i32 where "ID_TASK_GETNAME \<equiv> 94"
abbreviation (input) ID_TASK_GETTAG :: i32 where "ID_TASK_GETTAG \<equiv> 95"
abbreviation (input) ID_TASK_PUTTAG :: i32 where "ID_TASK_PUTTAG \<equiv> 96"
abbreviation (input) ID_TASK_GETID :: i32 where "ID_TASK_GETID \<equiv> 97"
abbreviation (input) ID_TASK_PUTID :: i32 where "ID_TASK_PUTID \<equiv> 98"
abbreviation (input) ID_TASK_RELEASE :: i32 where "ID_TASK_RELEASE \<equiv> 99"
abbreviation (input) ID_VARIABLE_GETDATETIME :: i32 where "ID_VARIABLE_GETDATETIME \<equiv> 100"
abbreviation (input) ID_VARIABLE_GETVALUE :: i32 where "ID_VARIABLE_GETVALUE \<equiv> 101"
abbreviation (input) ID_VARIABLE_PUTVALUE :: i32 where "ID_VARIABLE_PUTVALUE \<equiv> 102"
abbreviation (input) ID_VARIABLE_GETATTRIBUTE :: i32 where "ID_VARIABLE_GETATTRIBUTE \<equiv> 103"
abbreviation (input) ID_VARIABLE_GETHELP :: i32 where "ID_VARIABLE_GETHELP \<equiv> 104"
abbreviation (input) ID_VARIABLE_GETNAME :: i32 where "ID_VARIABLE_GETNAME \<equiv> 105"
abbreviation (input) ID_VARIABLE_GETTAG :: i32 where "ID_VARIABLE_GETTAG \<equiv> 106"
abbreviation (input) ID_VARIABLE_PUTTAG :: i32 where "ID_VARIABLE_PUTTAG \<equiv> 107"
abbreviation (input) ID_VARIABLE_GETID :: i32 where "ID_VARIABLE_GETID \<equiv> 108"
abbreviation (input) ID_VARIABLE_PUTID :: i32 where "ID_VARIABLE_PUTID \<equiv> 109"
abbreviation (input) ID_VARIABLE_GETMICROSECOND :: i32 where "ID_VARIABLE_GETMICROSECOND \<equiv> 110"
abbreviation (input) ID_VARIABLE_RELEASE :: i32 where "ID_VARIABLE_RELEASE \<equiv> 111"
abbreviation (input) ID_COMMAND_EXECUTE :: i32 where "ID_COMMAND_EXECUTE \<equiv> 112"
abbreviation (input) ID_COMMAND_CANCEL :: i32 where "ID_COMMAND_CANCEL \<equiv> 113"
abbreviation (input) ID_COMMAND_GETTIMEOUT :: i32 where "ID_COMMAND_GETTIMEOUT \<equiv> 114"
abbreviation (input) ID_COMMAND_PUTTIMEOUT :: i32 where "ID_COMMAND_PUTTIMEOUT \<equiv> 115"
abbreviation (input) ID_COMMAND_GETSTATE :: i32 where "ID_COMMAND_GETSTATE \<equiv> 116"
abbreviation (input) ID_COMMAND_GETPARAMETERS :: i32 where "ID_COMMAND_GETPARAMETERS \<equiv> 117"
abbreviation (input) ID_COMMAND_PUTPARAMETERS :: i32 where "ID_COMMAND_PUTPARAMETERS \<equiv> 118"
abbreviation (input) ID_COMMAND_GETRESULT :: i32 where "ID_COMMAND_GETRESULT \<equiv> 119"
abbreviation (input) ID_COMMAND_GETATTRIBUTE :: i32 where "ID_COMMAND_GETATTRIBUTE \<equiv> 120"
abbreviation (input) ID_COMMAND_GETHELP :: i32 where "ID_COMMAND_GETHELP \<equiv> 121"
abbreviation (input) ID_COMMAND_GETNAME :: i32 where "ID_COMMAND_GETNAME \<equiv> 122"
abbreviation (input) ID_COMMAND_GETTAG :: i32 where "ID_COMMAND_GETTAG \<equiv> 123"
abbreviation (input) ID_COMMAND_PUTTAG :: i32 where "ID_COMMAND_PUTTAG \<equiv> 124"
abbreviation (input) ID_COMMAND_GETID :: i32 where "ID_COMMAND_GETID \<equiv> 125"
abbreviation (input) ID_COMMAND_PUTID :: i32 where "ID_COMMAND_PUTID \<equiv> 126"
abbreviation (input) ID_COMMAND_RELEASE :: i32 where "ID_COMMAND_RELEASE \<equiv> 127"
abbreviation (input) ID_MESSAGE_REPLY :: i32 where "ID_MESSAGE_REPLY \<equiv> 128"
abbreviation (input) ID_MESSAGE_CLEAR :: i32 where "ID_MESSAGE_CLEAR \<equiv> 129"
abbreviation (input) ID_MESSAGE_GETDATETIME :: i32 where "ID_MESSAGE_GETDATETIME \<equiv> 130"
abbreviation (input) ID_MESSAGE_GETDESCRIPTION :: i32 where "ID_MESSAGE_GETDESCRIPTION \<equiv> 131"
abbreviation (input) ID_MESSAGE_GETDESTINATION :: i32 where "ID_MESSAGE_GETDESTINATION \<equiv> 132"
abbreviation (input) ID_MESSAGE_GETNUMBER :: i32 where "ID_MESSAGE_GETNUMBER \<equiv> 133"
abbreviation (input) ID_MESSAGE_GETSERIALNUMBER :: i32 where "ID_MESSAGE_GETSERIALNUMBER \<equiv> 134"
abbreviation (input) ID_MESSAGE_GETSOURCE :: i32 where "ID_MESSAGE_GETSOURCE \<equiv> 135"
abbreviation (input) ID_MESSAGE_GETVALUE :: i32 where "ID_MESSAGE_GETVALUE \<equiv> 136"
abbreviation (input) ID_MESSAGE_RELEASE :: i32 where "ID_MESSAGE_RELEASE \<equiv> 137"

end
