(* ===== verification/BcapApi.thy ===== *)
theory BcapApi
  imports BcapClient FuncId
begin

text \<open>
  The functions of the client's interface (\<open>bcap_core/src/bCAPClient/bcap_client.c\<close>), one
  definition per function and in its order, over \<open>invoke_function\<close>. The numbers of the functions
  are those of \<open>bcap_core/include/bcap_core/bcap_funcid.h\<close>.

  \<^item> A pointer to a result is whether it is there (\<open>False\<close> for \<open>NULL\<close>); a \<open>VARIANT\<close> pointer
    comes with what it points to.
  \<^item> A handle that is released is read and, on success, reset through its pointer: \<open>None\<close> is
    \<open>NULL\<close>, and the result carries what the pointer points to then.
\<close>

type_synonym 'w called = "(hresult \<times> out_val option \<times> 'w client) option"
type_synonym 'w released = "(hresult \<times> u32 option \<times> 'w client) option"

definition i4_out :: "bool \<Rightarrow> vararg" where
  "i4_out there = VaOut (if there then Some OutI4 else None)"

definition bstr_out :: "bool \<Rightarrow> vararg" where
  "bstr_out there = VaOut (if there then Some OutBstr else None)"

definition variant_out :: "variant option \<Rightarrow> vararg" where
  "variant_out v = VaOut (map_option OutVariant v)"

definition reset_handle :: "u32 \<Rightarrow> 'w called \<Rightarrow> 'w released" where
  "reset_handle h r = map_option (\<lambda>(hr, _, st'). (hr, Some (if SUCCEEDED hr then 0 else h), st')) r"

section \<open>The calls\<close>

definition bCap_ServiceStart :: "'w cenv \<Rightarrow> i32 \<Rightarrow> bstr option \<Rightarrow> 'w client \<Rightarrow> 'w called" where
  "bCap_ServiceStart env fd bstrOption st =
     invoke_function env fd ID_SERVICE_START 1 ''8'' [VaBstr bstrOption] st"

definition bCap_ServiceStop :: "'w cenv \<Rightarrow> i32 \<Rightarrow> 'w client \<Rightarrow> 'w called" where
  "bCap_ServiceStop env fd st =
     invoke_function env fd ID_SERVICE_STOP 0 '''' [] st"

definition bCap_ControllerConnect :: "'w cenv \<Rightarrow> i32 \<Rightarrow> bstr option \<Rightarrow> bstr option \<Rightarrow> bstr option \<Rightarrow> bstr option \<Rightarrow> bool \<Rightarrow> 'w client \<Rightarrow> 'w called" where
  "bCap_ControllerConnect env fd bstrName bstrProvider bstrMachine bstrOption hController st =
     (if \<not> hController then Some (E_INVALIDARG, None, st)
      else invoke_function env fd ID_CONTROLLER_CONNECT 4 ''8,8,8,8:3'' [VaBstr bstrName, VaBstr bstrProvider, VaBstr bstrMachine, VaBstr bstrOption, i4_out hController] st)"

definition bCap_ControllerDisconnect :: "'w cenv \<Rightarrow> i32 \<Rightarrow> u32 option \<Rightarrow> 'w client \<Rightarrow> 'w released" where
  "bCap_ControllerDisconnect env fd hController st =
     (case hController of None \<Rightarrow> Some (E_INVALIDARG, None, st)
      | Some h \<Rightarrow> reset_handle h (invoke_function env fd ID_CONTROLLER_DISCONNECT 1 ''3'' [VaI4 h] st))"

definition bCap_ControllerGetExtension :: "'w cenv \<Rightarrow> i32 \<Rightarrow> u32 \<Rightarrow> bstr option \<Rightarrow> bstr option \<Rightarrow> bool \<Rightarrow> 'w client \<Rightarrow> 'w called" where
  "bCap_ControllerGetExtension env fd hController bstrName bstrOption hExtension st =
     (if \<not> hExtension then Some (E_INVALIDARG, None, st)
      else invoke_function env fd ID_CONTROLLER_GETEXTENSION 3 ''3,8,8:3'' [VaI4 hController, VaBstr bstrName, VaBstr bstrOption, i4_out hExtension] st)"

definition bCap_ControllerGetFile :: "'w cenv \<Rightarrow> i32 \<Rightarrow> u32 \<Rightarrow> bstr option \<Rightarrow> bstr option \<Rightarrow> bool \<Rightarrow> 'w client \<Rightarrow> 'w called" where
  "bCap_ControllerGetFile env fd hController bstrName bstrOption hFile st =
     (if \<not> hFile then Some (E_INVALIDARG, None, st)
      else invoke_function env fd ID_CONTROLLER_GETFILE 3 ''3,8,8:3'' [VaI4 hController, VaBstr bstrName, VaBstr bstrOption, i4_out hFile] st)"

definition bCap_ControllerGetRobot :: "'w cenv \<Rightarrow> i32 \<Rightarrow> u32 \<Rightarrow> bstr option \<Rightarrow> bstr option \<Rightarrow> bool \<Rightarrow> 'w client \<Rightarrow> 'w called" where
  "bCap_ControllerGetRobot env fd hController bstrName bstrOption hRobot st =
     (if \<not> hRobot then Some (E_INVALIDARG, None, st)
      else invoke_function env fd ID_CONTROLLER_GETROBOT 3 ''3,8,8:3'' [VaI4 hController, VaBstr bstrName, VaBstr bstrOption, i4_out hRobot] st)"

definition bCap_ControllerGetTask :: "'w cenv \<Rightarrow> i32 \<Rightarrow> u32 \<Rightarrow> bstr option \<Rightarrow> bstr option \<Rightarrow> bool \<Rightarrow> 'w client \<Rightarrow> 'w called" where
  "bCap_ControllerGetTask env fd hController bstrName bstrOption hTask st =
     (if \<not> hTask then Some (E_INVALIDARG, None, st)
      else invoke_function env fd ID_CONTROLLER_GETTASK 3 ''3,8,8:3'' [VaI4 hController, VaBstr bstrName, VaBstr bstrOption, i4_out hTask] st)"

definition bCap_ControllerGetVariable :: "'w cenv \<Rightarrow> i32 \<Rightarrow> u32 \<Rightarrow> bstr option \<Rightarrow> bstr option \<Rightarrow> bool \<Rightarrow> 'w client \<Rightarrow> 'w called" where
  "bCap_ControllerGetVariable env fd hController bstrName bstrOption hVariable st =
     (if \<not> hVariable then Some (E_INVALIDARG, None, st)
      else invoke_function env fd ID_CONTROLLER_GETVARIABLE 3 ''3,8,8:3'' [VaI4 hController, VaBstr bstrName, VaBstr bstrOption, i4_out hVariable] st)"

definition bCap_ControllerGetCommand :: "'w cenv \<Rightarrow> i32 \<Rightarrow> u32 \<Rightarrow> bstr option \<Rightarrow> bstr option \<Rightarrow> bool \<Rightarrow> 'w client \<Rightarrow> 'w called" where
  "bCap_ControllerGetCommand env fd hController bstrName bstrOption hCommand st =
     (if \<not> hCommand then Some (E_INVALIDARG, None, st)
      else invoke_function env fd ID_CONTROLLER_GETCOMMAND 3 ''3,8,8:3'' [VaI4 hController, VaBstr bstrName, VaBstr bstrOption, i4_out hCommand] st)"

definition bCap_ControllerGetExtensionNames :: "'w cenv \<Rightarrow> i32 \<Rightarrow> u32 \<Rightarrow> bstr option \<Rightarrow> variant option \<Rightarrow> 'w client \<Rightarrow> 'w called" where
  "bCap_ControllerGetExtensionNames env fd hController bstrOption pVal st =
     invoke_function env fd ID_CONTROLLER_GETEXTENSIONNAMES 2 ''3,8:12'' [VaI4 hController, VaBstr bstrOption, variant_out pVal] st"

definition bCap_ControllerGetFileNames :: "'w cenv \<Rightarrow> i32 \<Rightarrow> u32 \<Rightarrow> bstr option \<Rightarrow> variant option \<Rightarrow> 'w client \<Rightarrow> 'w called" where
  "bCap_ControllerGetFileNames env fd hController bstrOption pVal st =
     invoke_function env fd ID_CONTROLLER_GETFILENAMES 2 ''3,8:12'' [VaI4 hController, VaBstr bstrOption, variant_out pVal] st"

definition bCap_ControllerGetRobotNames :: "'w cenv \<Rightarrow> i32 \<Rightarrow> u32 \<Rightarrow> bstr option \<Rightarrow> variant option \<Rightarrow> 'w client \<Rightarrow> 'w called" where
  "bCap_ControllerGetRobotNames env fd hController bstrOption pVal st =
     invoke_function env fd ID_CONTROLLER_GETROBOTNAMES 2 ''3,8:12'' [VaI4 hController, VaBstr bstrOption, variant_out pVal] st"

definition bCap_ControllerGetTaskNames :: "'w cenv \<Rightarrow> i32 \<Rightarrow> u32 \<Rightarrow> bstr option \<Rightarrow> variant option \<Rightarrow> 'w client \<Rightarrow> 'w called" where
  "bCap_ControllerGetTaskNames env fd hController bstrOption pVal st =
     invoke_function env fd ID_CONTROLLER_GETTASKNAMES 2 ''3,8:12'' [VaI4 hController, VaBstr bstrOption, variant_out pVal] st"

definition bCap_ControllerGetVariableNames :: "'w cenv \<Rightarrow> i32 \<Rightarrow> u32 \<Rightarrow> bstr option \<Rightarrow> variant option \<Rightarrow> 'w client \<Rightarrow> 'w called" where
  "bCap_ControllerGetVariableNames env fd hController bstrOption pVal st =
     invoke_function env fd ID_CONTROLLER_GETVARIABLENAMES 2 ''3,8:12'' [VaI4 hController, VaBstr bstrOption, variant_out pVal] st"

definition bCap_ControllerGetCommandNames :: "'w cenv \<Rightarrow> i32 \<Rightarrow> u32 \<Rightarrow> bstr option \<Rightarrow> variant option \<Rightarrow> 'w client \<Rightarrow> 'w called" where
  "bCap_ControllerGetCommandNames env fd hController bstrOption pVal st =
     invoke_function env fd ID_CONTROLLER_GETCOMMANDNAMES 2 ''3,8:12'' [VaI4 hController, VaBstr bstrOption, variant_out pVal] st"

definition bCap_ControllerExecute :: "'w cenv \<Rightarrow> i32 \<Rightarrow> u32 \<Rightarrow> bstr option \<Rightarrow> variant \<Rightarrow> variant option \<Rightarrow> 'w client \<Rightarrow> 'w called" where
  "bCap_ControllerExecute env fd hController bstrCommand vntParam pVal st =
     invoke_function env fd ID_CONTROLLER_EXECUTE 3 ''3,8,12:12'' [VaI4 hController, VaBstr bstrCommand, VaVariant vntParam, variant_out pVal] st"

definition bCap_ControllerGetMessage :: "'w cenv \<Rightarrow> i32 \<Rightarrow> u32 \<Rightarrow> bool \<Rightarrow> 'w client \<Rightarrow> 'w called" where
  "bCap_ControllerGetMessage env fd hController hMessage st =
     (if \<not> hMessage then Some (E_INVALIDARG, None, st)
      else invoke_function env fd ID_CONTROLLER_GETMESSAGE 1 ''3:3'' [VaI4 hController, i4_out hMessage] st)"

definition bCap_ControllerGetAttribute :: "'w cenv \<Rightarrow> i32 \<Rightarrow> u32 \<Rightarrow> bool \<Rightarrow> 'w client \<Rightarrow> 'w called" where
  "bCap_ControllerGetAttribute env fd hController pVal st =
     invoke_function env fd ID_CONTROLLER_GETATTRIBUTE 1 ''3:3'' [VaI4 hController, i4_out pVal] st"

definition bCap_ControllerGetHelp :: "'w cenv \<Rightarrow> i32 \<Rightarrow> u32 \<Rightarrow> bool \<Rightarrow> 'w client \<Rightarrow> 'w called" where
  "bCap_ControllerGetHelp env fd hController pVal st =
     invoke_function env fd ID_CONTROLLER_GETHELP 1 ''3:8'' [VaI4 hController, bstr_out pVal] st"

definition bCap_ControllerGetName :: "'w cenv \<Rightarrow> i32 \<Rightarrow> u32 \<Rightarrow> bool \<Rightarrow> 'w client \<Rightarrow> 'w called" where
  "bCap_ControllerGetName env fd hController pVal st =
     invoke_function env fd ID_CONTROLLER_GETNAME 1 ''3:8'' [VaI4 hController, bstr_out pVal] st"

definition bCap_ControllerGetTag :: "'w cenv \<Rightarrow> i32 \<Rightarrow> u32 \<Rightarrow> variant option \<Rightarrow> 'w client \<Rightarrow> 'w called" where
  "bCap_ControllerGetTag env fd hController pVal st =
     invoke_function env fd ID_CONTROLLER_GETTAG 1 ''3:12'' [VaI4 hController, variant_out pVal] st"

definition bCap_ControllerPutTag :: "'w cenv \<Rightarrow> i32 \<Rightarrow> u32 \<Rightarrow> variant \<Rightarrow> 'w client \<Rightarrow> 'w called" where
  "bCap_ControllerPutTag env fd hController newVal st =
     invoke_function env fd ID_CONTROLLER_PUTTAG 2 ''3,12'' [VaI4 hController, VaVariant newVal] st"

definition bCap_ControllerGetID :: "'w cenv \<Rightarrow> i32 \<Rightarrow> u32 \<Rightarrow> variant option \<Rightarrow> 'w client \<Rightarrow> 'w called" where
  "bCap_ControllerGetID env fd hController pVal st =
     invoke_function env fd ID_CONTROLLER_GETID 1 ''3:12'' [VaI4 hController, variant_out pVal] st"

definition bCap_ControllerPutID :: "'w cenv \<Rightarrow> i32 \<Rightarrow> u32 \<Rightarrow> variant \<Rightarrow> 'w client \<Rightarrow> 'w called" where
  "bCap_ControllerPutID env fd hController newVal st =
     invoke_function env fd ID_CONTROLLER_PUTID 2 ''3,12'' [VaI4 hController, VaVariant newVal] st"

definition bCap_ExtensionGetVariable :: "'w cenv \<Rightarrow> i32 \<Rightarrow> u32 \<Rightarrow> bstr option \<Rightarrow> bstr option \<Rightarrow> bool \<Rightarrow> 'w client \<Rightarrow> 'w called" where
  "bCap_ExtensionGetVariable env fd hExtension bstrName bstrOption hVariable st =
     (if \<not> hVariable then Some (E_INVALIDARG, None, st)
      else invoke_function env fd ID_EXTENSION_GETVARIABLE 3 ''3,8,8:3'' [VaI4 hExtension, VaBstr bstrName, VaBstr bstrOption, i4_out hVariable] st)"

definition bCap_ExtensionGetVariableNames :: "'w cenv \<Rightarrow> i32 \<Rightarrow> u32 \<Rightarrow> bstr option \<Rightarrow> variant option \<Rightarrow> 'w client \<Rightarrow> 'w called" where
  "bCap_ExtensionGetVariableNames env fd hExtension bstrOption pVal st =
     invoke_function env fd ID_EXTENSION_GETVARIABLENAMES 2 ''3,8:12'' [VaI4 hExtension, VaBstr bstrOption, variant_out pVal] st"

definition bCap_ExtensionExecute :: "'w cenv \<Rightarrow> i32 \<Rightarrow> u32 \<Rightarrow> bstr option \<Rightarrow> variant \<Rightarrow> variant option \<Rightarrow> 'w client \<Rightarrow> 'w called" where
  "bCap_ExtensionExecute env fd hExtension bstrCommand vntParam pVal st =
     invoke_function env fd ID_EXTENSION_EXECUTE 3 ''3,8,12:12'' [VaI4 hExtension, VaBstr bstrCommand, VaVariant vntParam, variant_out pVal] st"

definition bCap_ExtensionGetAttribute :: "'w cenv \<Rightarrow> i32 \<Rightarrow> u32 \<Rightarrow> bool \<Rightarrow> 'w client \<Rightarrow> 'w called" where
  "bCap_ExtensionGetAttribute env fd hExtension pVal st =
     invoke_function env fd ID_EXTENSION_GETATTRIBUTE 1 ''3:3'' [VaI4 hExtension, i4_out pVal] st"

definition bCap_ExtensionGetHelp :: "'w cenv \<Rightarrow> i32 \<Rightarrow> u32 \<Rightarrow> bool \<Rightarrow> 'w client \<Rightarrow> 'w called" where
  "bCap_ExtensionGetHelp env fd hExtension pVal st =
     invoke_function env fd ID_EXTENSION_GETHELP 1 ''3:8'' [VaI4 hExtension, bstr_out pVal] st"

definition bCap_ExtensionGetName :: "'w cenv \<Rightarrow> i32 \<Rightarrow> u32 \<Rightarrow> bool \<Rightarrow> 'w client \<Rightarrow> 'w called" where
  "bCap_ExtensionGetName env fd hExtension pVal st =
     invoke_function env fd ID_EXTENSION_GETNAME 1 ''3:8'' [VaI4 hExtension, bstr_out pVal] st"

definition bCap_ExtensionGetTag :: "'w cenv \<Rightarrow> i32 \<Rightarrow> u32 \<Rightarrow> variant option \<Rightarrow> 'w client \<Rightarrow> 'w called" where
  "bCap_ExtensionGetTag env fd hExtension pVal st =
     invoke_function env fd ID_EXTENSION_GETTAG 1 ''3:12'' [VaI4 hExtension, variant_out pVal] st"

definition bCap_ExtensionPutTag :: "'w cenv \<Rightarrow> i32 \<Rightarrow> u32 \<Rightarrow> variant \<Rightarrow> 'w client \<Rightarrow> 'w called" where
  "bCap_ExtensionPutTag env fd hExtension newVal st =
     invoke_function env fd ID_EXTENSION_PUTTAG 2 ''3,12'' [VaI4 hExtension, VaVariant newVal] st"

definition bCap_ExtensionGetID :: "'w cenv \<Rightarrow> i32 \<Rightarrow> u32 \<Rightarrow> variant option \<Rightarrow> 'w client \<Rightarrow> 'w called" where
  "bCap_ExtensionGetID env fd hExtension pVal st =
     invoke_function env fd ID_EXTENSION_GETID 1 ''3:12'' [VaI4 hExtension, variant_out pVal] st"

definition bCap_ExtensionPutID :: "'w cenv \<Rightarrow> i32 \<Rightarrow> u32 \<Rightarrow> variant \<Rightarrow> 'w client \<Rightarrow> 'w called" where
  "bCap_ExtensionPutID env fd hExtension newVal st =
     invoke_function env fd ID_EXTENSION_PUTID 2 ''3,12'' [VaI4 hExtension, VaVariant newVal] st"

definition bCap_ExtensionRelease :: "'w cenv \<Rightarrow> i32 \<Rightarrow> u32 option \<Rightarrow> 'w client \<Rightarrow> 'w released" where
  "bCap_ExtensionRelease env fd hExtension st =
     (case hExtension of None \<Rightarrow> Some (E_INVALIDARG, None, st)
      | Some h \<Rightarrow> reset_handle h (invoke_function env fd ID_EXTENSION_RELEASE 1 ''3'' [VaI4 h] st))"

definition bCap_FileGetFile :: "'w cenv \<Rightarrow> i32 \<Rightarrow> u32 \<Rightarrow> bstr option \<Rightarrow> bstr option \<Rightarrow> bool \<Rightarrow> 'w client \<Rightarrow> 'w called" where
  "bCap_FileGetFile env fd hFile bstrName bstrOption hFile2 st =
     (if \<not> hFile2 then Some (E_INVALIDARG, None, st)
      else invoke_function env fd ID_FILE_GETFILE 3 ''3,8,8:3'' [VaI4 hFile, VaBstr bstrName, VaBstr bstrOption, i4_out hFile2] st)"

definition bCap_FileGetVariable :: "'w cenv \<Rightarrow> i32 \<Rightarrow> u32 \<Rightarrow> bstr option \<Rightarrow> bstr option \<Rightarrow> bool \<Rightarrow> 'w client \<Rightarrow> 'w called" where
  "bCap_FileGetVariable env fd hFile bstrName bstrOption hVariable st =
     (if \<not> hVariable then Some (E_INVALIDARG, None, st)
      else invoke_function env fd ID_FILE_GETVARIABLE 3 ''3,8,8:3'' [VaI4 hFile, VaBstr bstrName, VaBstr bstrOption, i4_out hVariable] st)"

definition bCap_FileGetFileNames :: "'w cenv \<Rightarrow> i32 \<Rightarrow> u32 \<Rightarrow> bstr option \<Rightarrow> variant option \<Rightarrow> 'w client \<Rightarrow> 'w called" where
  "bCap_FileGetFileNames env fd hFile bstrOption pVal st =
     invoke_function env fd ID_FILE_GETFILENAMES 2 ''3,8:12'' [VaI4 hFile, VaBstr bstrOption, variant_out pVal] st"

definition bCap_FileGetVariableNames :: "'w cenv \<Rightarrow> i32 \<Rightarrow> u32 \<Rightarrow> bstr option \<Rightarrow> variant option \<Rightarrow> 'w client \<Rightarrow> 'w called" where
  "bCap_FileGetVariableNames env fd hFile bstrOption pVal st =
     invoke_function env fd ID_FILE_GETVARIABLENAMES 2 ''3,8:12'' [VaI4 hFile, VaBstr bstrOption, variant_out pVal] st"

definition bCap_FileExecute :: "'w cenv \<Rightarrow> i32 \<Rightarrow> u32 \<Rightarrow> bstr option \<Rightarrow> variant \<Rightarrow> variant option \<Rightarrow> 'w client \<Rightarrow> 'w called" where
  "bCap_FileExecute env fd hFile bstrCommand vntParam pVal st =
     invoke_function env fd ID_FILE_EXECUTE 3 ''3,8,12:12'' [VaI4 hFile, VaBstr bstrCommand, VaVariant vntParam, variant_out pVal] st"

definition bCap_FileCopy :: "'w cenv \<Rightarrow> i32 \<Rightarrow> u32 \<Rightarrow> bstr option \<Rightarrow> bstr option \<Rightarrow> 'w client \<Rightarrow> 'w called" where
  "bCap_FileCopy env fd hFile bstrName bstrOption st =
     invoke_function env fd ID_FILE_COPY 3 ''3,8,8'' [VaI4 hFile, VaBstr bstrName, VaBstr bstrOption] st"

definition bCap_FileDelete :: "'w cenv \<Rightarrow> i32 \<Rightarrow> u32 \<Rightarrow> bstr option \<Rightarrow> 'w client \<Rightarrow> 'w called" where
  "bCap_FileDelete env fd hFile bstrOption st =
     invoke_function env fd ID_FILE_DELETE 2 ''3,8'' [VaI4 hFile, VaBstr bstrOption] st"

definition bCap_FileMove :: "'w cenv \<Rightarrow> i32 \<Rightarrow> u32 \<Rightarrow> bstr option \<Rightarrow> bstr option \<Rightarrow> 'w client \<Rightarrow> 'w called" where
  "bCap_FileMove env fd hFile bstrName bstrOption st =
     invoke_function env fd ID_FILE_MOVE 3 ''3,8,8'' [VaI4 hFile, VaBstr bstrName, VaBstr bstrOption] st"

definition bCap_FileRun :: "'w cenv \<Rightarrow> i32 \<Rightarrow> u32 \<Rightarrow> bstr option \<Rightarrow> bool \<Rightarrow> 'w client \<Rightarrow> 'w called" where
  "bCap_FileRun env fd hFile bstrOption pVal st =
     invoke_function env fd ID_FILE_RUN 2 ''3,8:8'' [VaI4 hFile, VaBstr bstrOption, bstr_out pVal] st"

definition bCap_FileGetDateCreated :: "'w cenv \<Rightarrow> i32 \<Rightarrow> u32 \<Rightarrow> variant option \<Rightarrow> 'w client \<Rightarrow> 'w called" where
  "bCap_FileGetDateCreated env fd hFile pVal st =
     invoke_function env fd ID_FILE_GETDATECREATED 1 ''3:12'' [VaI4 hFile, variant_out pVal] st"

definition bCap_FileGetDateLastAccessed :: "'w cenv \<Rightarrow> i32 \<Rightarrow> u32 \<Rightarrow> variant option \<Rightarrow> 'w client \<Rightarrow> 'w called" where
  "bCap_FileGetDateLastAccessed env fd hFile pVal st =
     invoke_function env fd ID_FILE_GETDATELASTACCESSED 1 ''3:12'' [VaI4 hFile, variant_out pVal] st"

definition bCap_FileGetDateLastModified :: "'w cenv \<Rightarrow> i32 \<Rightarrow> u32 \<Rightarrow> variant option \<Rightarrow> 'w client \<Rightarrow> 'w called" where
  "bCap_FileGetDateLastModified env fd hFile pVal st =
     invoke_function env fd ID_FILE_GETDATELASTMODIFIED 1 ''3:12'' [VaI4 hFile, variant_out pVal] st"

definition bCap_FileGetPath :: "'w cenv \<Rightarrow> i32 \<Rightarrow> u32 \<Rightarrow> bool \<Rightarrow> 'w client \<Rightarrow> 'w called" where
  "bCap_FileGetPath env fd hFile pVal st =
     invoke_function env fd ID_FILE_GETPATH 1 ''3:8'' [VaI4 hFile, bstr_out pVal] st"

definition bCap_FileGetSize :: "'w cenv \<Rightarrow> i32 \<Rightarrow> u32 \<Rightarrow> bool \<Rightarrow> 'w client \<Rightarrow> 'w called" where
  "bCap_FileGetSize env fd hFile pVal st =
     invoke_function env fd ID_FILE_GETSIZE 1 ''3:3'' [VaI4 hFile, i4_out pVal] st"

definition bCap_FileGetType :: "'w cenv \<Rightarrow> i32 \<Rightarrow> u32 \<Rightarrow> bool \<Rightarrow> 'w client \<Rightarrow> 'w called" where
  "bCap_FileGetType env fd hFile pVal st =
     invoke_function env fd ID_FILE_GETTYPE 1 ''3:8'' [VaI4 hFile, bstr_out pVal] st"

definition bCap_FileGetValue :: "'w cenv \<Rightarrow> i32 \<Rightarrow> u32 \<Rightarrow> variant option \<Rightarrow> 'w client \<Rightarrow> 'w called" where
  "bCap_FileGetValue env fd hFile pVal st =
     invoke_function env fd ID_FILE_GETVALUE 1 ''3:12'' [VaI4 hFile, variant_out pVal] st"

definition bCap_FilePutValue :: "'w cenv \<Rightarrow> i32 \<Rightarrow> u32 \<Rightarrow> variant \<Rightarrow> 'w client \<Rightarrow> 'w called" where
  "bCap_FilePutValue env fd hFile newVal st =
     invoke_function env fd ID_FILE_PUTVALUE 2 ''3,12'' [VaI4 hFile, VaVariant newVal] st"

definition bCap_FileGetAttribute :: "'w cenv \<Rightarrow> i32 \<Rightarrow> u32 \<Rightarrow> bool \<Rightarrow> 'w client \<Rightarrow> 'w called" where
  "bCap_FileGetAttribute env fd hFile pVal st =
     invoke_function env fd ID_FILE_GETATTRIBUTE 1 ''3:3'' [VaI4 hFile, i4_out pVal] st"

definition bCap_FileGetHelp :: "'w cenv \<Rightarrow> i32 \<Rightarrow> u32 \<Rightarrow> bool \<Rightarrow> 'w client \<Rightarrow> 'w called" where
  "bCap_FileGetHelp env fd hFile pVal st =
     invoke_function env fd ID_FILE_GETHELP 1 ''3:8'' [VaI4 hFile, bstr_out pVal] st"

definition bCap_FileGetName :: "'w cenv \<Rightarrow> i32 \<Rightarrow> u32 \<Rightarrow> bool \<Rightarrow> 'w client \<Rightarrow> 'w called" where
  "bCap_FileGetName env fd hFile pVal st =
     invoke_function env fd ID_FILE_GETNAME 1 ''3:8'' [VaI4 hFile, bstr_out pVal] st"

definition bCap_FileGetTag :: "'w cenv \<Rightarrow> i32 \<Rightarrow> u32 \<Rightarrow> variant option \<Rightarrow> 'w client \<Rightarrow> 'w called" where
  "bCap_FileGetTag env fd hFile pVal st =
     invoke_function env fd ID_FILE_GETTAG 1 ''3:12'' [VaI4 hFile, variant_out pVal] st"

definition bCap_FilePutTag :: "'w cenv \<Rightarrow> i32 \<Rightarrow> u32 \<Rightarrow> variant \<Rightarrow> 'w client \<Rightarrow> 'w called" where
  "bCap_FilePutTag env fd hFile newVal st =
     invoke_function env fd ID_FILE_PUTTAG 2 ''3,12'' [VaI4 hFile, VaVariant newVal] st"

definition bCap_FileGetID :: "'w cenv \<Rightarrow> i32 \<Rightarrow> u32 \<Rightarrow> variant option \<Rightarrow> 'w client \<Rightarrow> 'w called" where
  "bCap_FileGetID env fd hFile pVal st =
     invoke_function env fd ID_FILE_GETID 1 ''3:12'' [VaI4 hFile, variant_out pVal] st"

definition bCap_FilePutID :: "'w cenv \<Rightarrow> i32 \<Rightarrow> u32 \<Rightarrow> variant \<Rightarrow> 'w client \<Rightarrow> 'w called" where
  "bCap_FilePutID env fd hFile newVal st =
     invoke_function env fd ID_FILE_PUTID 2 ''3,12'' [VaI4 hFile, VaVariant newVal] st"

definition bCap_FileRelease :: "'w cenv \<Rightarrow> i32 \<Rightarrow> u32 option \<Rightarrow> 'w client \<Rightarrow> 'w released" where
  "bCap_FileRelease env fd hFile st =
     (case hFile of None \<Rightarrow> Some (E_INVALIDARG, None, st)
      | Some h \<Rightarrow> reset_handle h (invoke_function env fd ID_FILE_RELEASE 1 ''3'' [VaI4 h] st))"

definition bCap_RobotGetVariable :: "'w cenv \<Rightarrow> i32 \<Rightarrow> u32 \<Rightarrow> bstr option \<Rightarrow> bstr option \<Rightarrow> bool \<Rightarrow> 'w client \<Rightarrow> 'w called" where
  "bCap_RobotGetVariable env fd hRobot bstrName bstrOption hVariable st =
     (if \<not> hVariable then Some (E_INVALIDARG, None, st)
      else invoke_function env fd ID_ROBOT_GETVARIABLE 3 ''3,8,8:3'' [VaI4 hRobot, VaBstr bstrName, VaBstr bstrOption, i4_out hVariable] st)"

definition bCap_RobotGetVariableNames :: "'w cenv \<Rightarrow> i32 \<Rightarrow> u32 \<Rightarrow> bstr option \<Rightarrow> variant option \<Rightarrow> 'w client \<Rightarrow> 'w called" where
  "bCap_RobotGetVariableNames env fd hRobot bstrOption pVal st =
     invoke_function env fd ID_ROBOT_GETVARIABLENAMES 2 ''3,8:12'' [VaI4 hRobot, VaBstr bstrOption, variant_out pVal] st"

definition bCap_RobotExecute :: "'w cenv \<Rightarrow> i32 \<Rightarrow> u32 \<Rightarrow> bstr option \<Rightarrow> variant \<Rightarrow> variant option \<Rightarrow> 'w client \<Rightarrow> 'w called" where
  "bCap_RobotExecute env fd hRobot bstrCommand vntParam pVal st =
     invoke_function env fd ID_ROBOT_EXECUTE 3 ''3,8,12:12'' [VaI4 hRobot, VaBstr bstrCommand, VaVariant vntParam, variant_out pVal] st"

definition bCap_RobotAccelerate :: "'w cenv \<Rightarrow> i32 \<Rightarrow> u32 \<Rightarrow> i32 \<Rightarrow> u32 \<Rightarrow> u32 \<Rightarrow> 'w client \<Rightarrow> 'w called" where
  "bCap_RobotAccelerate env fd hRobot lAxis fAccel fDecel st =
     invoke_function env fd ID_ROBOT_ACCELERATE 4 ''3,3,4,4'' [VaI4 hRobot, VaI4 lAxis, VaR4 fAccel, VaR4 fDecel] st"

definition bCap_RobotChange :: "'w cenv \<Rightarrow> i32 \<Rightarrow> u32 \<Rightarrow> bstr option \<Rightarrow> 'w client \<Rightarrow> 'w called" where
  "bCap_RobotChange env fd hRobot bstrName st =
     invoke_function env fd ID_ROBOT_CHANGE 2 ''3,8'' [VaI4 hRobot, VaBstr bstrName] st"

definition bCap_RobotChuck :: "'w cenv \<Rightarrow> i32 \<Rightarrow> u32 \<Rightarrow> bstr option \<Rightarrow> 'w client \<Rightarrow> 'w called" where
  "bCap_RobotChuck env fd hRobot bstrOption st =
     invoke_function env fd ID_ROBOT_CHUCK 2 ''3,8'' [VaI4 hRobot, VaBstr bstrOption] st"

definition bCap_RobotDrive :: "'w cenv \<Rightarrow> i32 \<Rightarrow> u32 \<Rightarrow> i32 \<Rightarrow> u32 \<Rightarrow> bstr option \<Rightarrow> 'w client \<Rightarrow> 'w called" where
  "bCap_RobotDrive env fd hRobot lNo fMov bstrOption st =
     invoke_function env fd ID_ROBOT_DRIVE 4 ''3,3,4,8'' [VaI4 hRobot, VaI4 lNo, VaR4 fMov, VaBstr bstrOption] st"

definition bCap_RobotGoHome :: "'w cenv \<Rightarrow> i32 \<Rightarrow> u32 \<Rightarrow> 'w client \<Rightarrow> 'w called" where
  "bCap_RobotGoHome env fd hRobot st =
     invoke_function env fd ID_ROBOT_GOHOME 1 ''3'' [VaI4 hRobot] st"

definition bCap_RobotHalt :: "'w cenv \<Rightarrow> i32 \<Rightarrow> u32 \<Rightarrow> bstr option \<Rightarrow> 'w client \<Rightarrow> 'w called" where
  "bCap_RobotHalt env fd hRobot bstrOption st =
     invoke_function env fd ID_ROBOT_HALT 2 ''3,8'' [VaI4 hRobot, VaBstr bstrOption] st"

definition bCap_RobotHold :: "'w cenv \<Rightarrow> i32 \<Rightarrow> u32 \<Rightarrow> bstr option \<Rightarrow> 'w client \<Rightarrow> 'w called" where
  "bCap_RobotHold env fd hRobot bstrOption st =
     invoke_function env fd ID_ROBOT_HOLD 2 ''3,8'' [VaI4 hRobot, VaBstr bstrOption] st"

definition bCap_RobotMove :: "'w cenv \<Rightarrow> i32 \<Rightarrow> u32 \<Rightarrow> i32 \<Rightarrow> variant \<Rightarrow> bstr option \<Rightarrow> 'w client \<Rightarrow> 'w called" where
  "bCap_RobotMove env fd hRobot lComp vntPose bstrOption st =
     invoke_function env fd ID_ROBOT_MOVE 4 ''3,3,12,8'' [VaI4 hRobot, VaI4 lComp, VaVariant vntPose, VaBstr bstrOption] st"

definition bCap_RobotRotate :: "'w cenv \<Rightarrow> i32 \<Rightarrow> u32 \<Rightarrow> variant \<Rightarrow> u32 \<Rightarrow> variant \<Rightarrow> bstr option \<Rightarrow> 'w client \<Rightarrow> 'w called" where
  "bCap_RobotRotate env fd hRobot vntRotSuf fDeg vntPivot bstrOption st =
     invoke_function env fd ID_ROBOT_ROTATE 5 ''3,12,4,12,8'' [VaI4 hRobot, VaVariant vntRotSuf, VaR4 fDeg, VaVariant vntPivot, VaBstr bstrOption] st"

definition bCap_RobotSpeed :: "'w cenv \<Rightarrow> i32 \<Rightarrow> u32 \<Rightarrow> i32 \<Rightarrow> u32 \<Rightarrow> 'w client \<Rightarrow> 'w called" where
  "bCap_RobotSpeed env fd hRobot lAxis fSpeed st =
     invoke_function env fd ID_ROBOT_SPEED 3 ''3,3,4'' [VaI4 hRobot, VaI4 lAxis, VaR4 fSpeed] st"

definition bCap_RobotUnchuck :: "'w cenv \<Rightarrow> i32 \<Rightarrow> u32 \<Rightarrow> bstr option \<Rightarrow> 'w client \<Rightarrow> 'w called" where
  "bCap_RobotUnchuck env fd hRobot bstrOption st =
     invoke_function env fd ID_ROBOT_UNCHUCK 2 ''3,8'' [VaI4 hRobot, VaBstr bstrOption] st"

definition bCap_RobotUnhold :: "'w cenv \<Rightarrow> i32 \<Rightarrow> u32 \<Rightarrow> bstr option \<Rightarrow> 'w client \<Rightarrow> 'w called" where
  "bCap_RobotUnhold env fd hRobot bstrOption st =
     invoke_function env fd ID_ROBOT_UNHOLD 2 ''3,8'' [VaI4 hRobot, VaBstr bstrOption] st"

definition bCap_RobotGetAttribute :: "'w cenv \<Rightarrow> i32 \<Rightarrow> u32 \<Rightarrow> bool \<Rightarrow> 'w client \<Rightarrow> 'w called" where
  "bCap_RobotGetAttribute env fd hRobot pVal st =
     invoke_function env fd ID_ROBOT_GETATTRIBUTE 1 ''3:3'' [VaI4 hRobot, i4_out pVal] st"

definition bCap_RobotGetHelp :: "'w cenv \<Rightarrow> i32 \<Rightarrow> u32 \<Rightarrow> bool \<Rightarrow> 'w client \<Rightarrow> 'w called" where
  "bCap_RobotGetHelp env fd hRobot pVal st =
     invoke_function env fd ID_ROBOT_GETHELP 1 ''3:8'' [VaI4 hRobot, bstr_out pVal] st"

definition bCap_RobotGetName :: "'w cenv \<Rightarrow> i32 \<Rightarrow> u32 \<Rightarrow> bool \<Rightarrow> 'w client \<Rightarrow> 'w called" where
  "bCap_RobotGetName env fd hRobot pVal st =
     invoke_function env fd ID_ROBOT_GETNAME 1 ''3:8'' [VaI4 hRobot, bstr_out pVal] st"

definition bCap_RobotGetTag :: "'w cenv \<Rightarrow> i32 \<Rightarrow> u32 \<Rightarrow> variant option \<Rightarrow> 'w client \<Rightarrow> 'w called" where
  "bCap_RobotGetTag env fd hRobot pVal st =
     invoke_function env fd ID_ROBOT_GETTAG 1 ''3:12'' [VaI4 hRobot, variant_out pVal] st"

definition bCap_RobotPutTag :: "'w cenv \<Rightarrow> i32 \<Rightarrow> u32 \<Rightarrow> variant \<Rightarrow> 'w client \<Rightarrow> 'w called" where
  "bCap_RobotPutTag env fd hRobot newVal st =
     invoke_function env fd ID_ROBOT_PUTTAG 2 ''3,12'' [VaI4 hRobot, VaVariant newVal] st"

definition bCap_RobotGetID :: "'w cenv \<Rightarrow> i32 \<Rightarrow> u32 \<Rightarrow> variant option \<Rightarrow> 'w client \<Rightarrow> 'w called" where
  "bCap_RobotGetID env fd hRobot pVal st =
     invoke_function env fd ID_ROBOT_GETID 1 ''3:12'' [VaI4 hRobot, variant_out pVal] st"

definition bCap_RobotPutID :: "'w cenv \<Rightarrow> i32 \<Rightarrow> u32 \<Rightarrow> variant \<Rightarrow> 'w client \<Rightarrow> 'w called" where
  "bCap_RobotPutID env fd hRobot newVal st =
     invoke_function env fd ID_ROBOT_PUTID 2 ''3,12'' [VaI4 hRobot, VaVariant newVal] st"

definition bCap_RobotRelease :: "'w cenv \<Rightarrow> i32 \<Rightarrow> u32 option \<Rightarrow> 'w client \<Rightarrow> 'w released" where
  "bCap_RobotRelease env fd hRobot st =
     (case hRobot of None \<Rightarrow> Some (E_INVALIDARG, None, st)
      | Some h \<Rightarrow> reset_handle h (invoke_function env fd ID_ROBOT_RELEASE 1 ''3'' [VaI4 h] st))"

definition bCap_TaskGetVariable :: "'w cenv \<Rightarrow> i32 \<Rightarrow> u32 \<Rightarrow> bstr option \<Rightarrow> bstr option \<Rightarrow> bool \<Rightarrow> 'w client \<Rightarrow> 'w called" where
  "bCap_TaskGetVariable env fd hTask bstrName bstrOption hVariable st =
     (if \<not> hVariable then Some (E_INVALIDARG, None, st)
      else invoke_function env fd ID_TASK_GETVARIABLE 3 ''3,8,8:3'' [VaI4 hTask, VaBstr bstrName, VaBstr bstrOption, i4_out hVariable] st)"

definition bCap_TaskGetVariableNames :: "'w cenv \<Rightarrow> i32 \<Rightarrow> u32 \<Rightarrow> bstr option \<Rightarrow> variant option \<Rightarrow> 'w client \<Rightarrow> 'w called" where
  "bCap_TaskGetVariableNames env fd hTask bstrOption pVal st =
     invoke_function env fd ID_TASK_GETVARIABLENAMES 2 ''3,8:12'' [VaI4 hTask, VaBstr bstrOption, variant_out pVal] st"

definition bCap_TaskExecute :: "'w cenv \<Rightarrow> i32 \<Rightarrow> u32 \<Rightarrow> bstr option \<Rightarrow> variant \<Rightarrow> variant option \<Rightarrow> 'w client \<Rightarrow> 'w called" where
  "bCap_TaskExecute env fd hTask bstrCommand vntParam pVal st =
     invoke_function env fd ID_TASK_EXECUTE 3 ''3,8,12:12'' [VaI4 hTask, VaBstr bstrCommand, VaVariant vntParam, variant_out pVal] st"

definition bCap_TaskStart :: "'w cenv \<Rightarrow> i32 \<Rightarrow> u32 \<Rightarrow> i32 \<Rightarrow> bstr option \<Rightarrow> 'w client \<Rightarrow> 'w called" where
  "bCap_TaskStart env fd hTask lMode bstrOption st =
     invoke_function env fd ID_TASK_START 3 ''3,3,8'' [VaI4 hTask, VaI4 lMode, VaBstr bstrOption] st"

definition bCap_TaskStop :: "'w cenv \<Rightarrow> i32 \<Rightarrow> u32 \<Rightarrow> i32 \<Rightarrow> bstr option \<Rightarrow> 'w client \<Rightarrow> 'w called" where
  "bCap_TaskStop env fd hTask lMode bstrOption st =
     invoke_function env fd ID_TASK_STOP 3 ''3,3,8'' [VaI4 hTask, VaI4 lMode, VaBstr bstrOption] st"

definition bCap_TaskDelete :: "'w cenv \<Rightarrow> i32 \<Rightarrow> u32 \<Rightarrow> bstr option \<Rightarrow> 'w client \<Rightarrow> 'w called" where
  "bCap_TaskDelete env fd hTask bstrOption st =
     invoke_function env fd ID_TASK_DELETE 2 ''3,8'' [VaI4 hTask, VaBstr bstrOption] st"

definition bCap_TaskGetFileName :: "'w cenv \<Rightarrow> i32 \<Rightarrow> u32 \<Rightarrow> bool \<Rightarrow> 'w client \<Rightarrow> 'w called" where
  "bCap_TaskGetFileName env fd hTask pVal st =
     invoke_function env fd ID_TASK_GETFILENAME 1 ''3:8'' [VaI4 hTask, bstr_out pVal] st"

definition bCap_TaskGetAttribute :: "'w cenv \<Rightarrow> i32 \<Rightarrow> u32 \<Rightarrow> bool \<Rightarrow> 'w client \<Rightarrow> 'w called" where
  "bCap_TaskGetAttribute env fd hTask pVal st =
     invoke_function env fd ID_TASK_GETATTRIBUTE 1 ''3:3'' [VaI4 hTask, i4_out pVal] st"

definition bCap_TaskGetHelp :: "'w cenv \<Rightarrow> i32 \<Rightarrow> u32 \<Rightarrow> bool \<Rightarrow> 'w client \<Rightarrow> 'w called" where
  "bCap_TaskGetHelp env fd hTask pVal st =
     invoke_function env fd ID_TASK_GETHELP 1 ''3:8'' [VaI4 hTask, bstr_out pVal] st"

definition bCap_TaskGetName :: "'w cenv \<Rightarrow> i32 \<Rightarrow> u32 \<Rightarrow> bool \<Rightarrow> 'w client \<Rightarrow> 'w called" where
  "bCap_TaskGetName env fd hTask pVal st =
     invoke_function env fd ID_TASK_GETNAME 1 ''3:8'' [VaI4 hTask, bstr_out pVal] st"

definition bCap_TaskGetTag :: "'w cenv \<Rightarrow> i32 \<Rightarrow> u32 \<Rightarrow> variant option \<Rightarrow> 'w client \<Rightarrow> 'w called" where
  "bCap_TaskGetTag env fd hTask pVal st =
     invoke_function env fd ID_TASK_GETTAG 1 ''3:12'' [VaI4 hTask, variant_out pVal] st"

definition bCap_TaskPutTag :: "'w cenv \<Rightarrow> i32 \<Rightarrow> u32 \<Rightarrow> variant \<Rightarrow> 'w client \<Rightarrow> 'w called" where
  "bCap_TaskPutTag env fd hTask newVal st =
     invoke_function env fd ID_TASK_PUTTAG 2 ''3,12'' [VaI4 hTask, VaVariant newVal] st"

definition bCap_TaskGetID :: "'w cenv \<Rightarrow> i32 \<Rightarrow> u32 \<Rightarrow> variant option \<Rightarrow> 'w client \<Rightarrow> 'w called" where
  "bCap_TaskGetID env fd hTask pVal st =
     invoke_function env fd ID_TASK_GETID 1 ''3:12'' [VaI4 hTask, variant_out pVal] st"

definition bCap_TaskPutID :: "'w cenv \<Rightarrow> i32 \<Rightarrow> u32 \<Rightarrow> variant \<Rightarrow> 'w client \<Rightarrow> 'w called" where
  "bCap_TaskPutID env fd hTask newVal st =
     invoke_function env fd ID_TASK_PUTID 2 ''3,12'' [VaI4 hTask, VaVariant newVal] st"

definition bCap_TaskRelease :: "'w cenv \<Rightarrow> i32 \<Rightarrow> u32 option \<Rightarrow> 'w client \<Rightarrow> 'w released" where
  "bCap_TaskRelease env fd hTask st =
     (case hTask of None \<Rightarrow> Some (E_INVALIDARG, None, st)
      | Some h \<Rightarrow> reset_handle h (invoke_function env fd ID_TASK_RELEASE 1 ''3'' [VaI4 h] st))"

definition bCap_VariableGetDateTime :: "'w cenv \<Rightarrow> i32 \<Rightarrow> u32 \<Rightarrow> variant option \<Rightarrow> 'w client \<Rightarrow> 'w called" where
  "bCap_VariableGetDateTime env fd hVariable pVal st =
     invoke_function env fd ID_VARIABLE_GETDATETIME 1 ''3:12'' [VaI4 hVariable, variant_out pVal] st"

definition bCap_VariableGetValue :: "'w cenv \<Rightarrow> i32 \<Rightarrow> u32 \<Rightarrow> variant option \<Rightarrow> 'w client \<Rightarrow> 'w called" where
  "bCap_VariableGetValue env fd hVariable pVal st =
     invoke_function env fd ID_VARIABLE_GETVALUE 1 ''3:12'' [VaI4 hVariable, variant_out pVal] st"

definition bCap_VariablePutValue :: "'w cenv \<Rightarrow> i32 \<Rightarrow> u32 \<Rightarrow> variant \<Rightarrow> 'w client \<Rightarrow> 'w called" where
  "bCap_VariablePutValue env fd hVariable newVal st =
     invoke_function env fd ID_VARIABLE_PUTVALUE 2 ''3,12'' [VaI4 hVariable, VaVariant newVal] st"

definition bCap_VariableGetAttribute :: "'w cenv \<Rightarrow> i32 \<Rightarrow> u32 \<Rightarrow> bool \<Rightarrow> 'w client \<Rightarrow> 'w called" where
  "bCap_VariableGetAttribute env fd hVariable pVal st =
     invoke_function env fd ID_VARIABLE_GETATTRIBUTE 1 ''3:3'' [VaI4 hVariable, i4_out pVal] st"

definition bCap_VariableGetHelp :: "'w cenv \<Rightarrow> i32 \<Rightarrow> u32 \<Rightarrow> bool \<Rightarrow> 'w client \<Rightarrow> 'w called" where
  "bCap_VariableGetHelp env fd hVariable pVal st =
     invoke_function env fd ID_VARIABLE_GETHELP 1 ''3:8'' [VaI4 hVariable, bstr_out pVal] st"

definition bCap_VariableGetName :: "'w cenv \<Rightarrow> i32 \<Rightarrow> u32 \<Rightarrow> bool \<Rightarrow> 'w client \<Rightarrow> 'w called" where
  "bCap_VariableGetName env fd hVariable pVal st =
     invoke_function env fd ID_VARIABLE_GETNAME 1 ''3:8'' [VaI4 hVariable, bstr_out pVal] st"

definition bCap_VariableGetTag :: "'w cenv \<Rightarrow> i32 \<Rightarrow> u32 \<Rightarrow> variant option \<Rightarrow> 'w client \<Rightarrow> 'w called" where
  "bCap_VariableGetTag env fd hVariable pVal st =
     invoke_function env fd ID_VARIABLE_GETTAG 1 ''3:12'' [VaI4 hVariable, variant_out pVal] st"

definition bCap_VariablePutTag :: "'w cenv \<Rightarrow> i32 \<Rightarrow> u32 \<Rightarrow> variant \<Rightarrow> 'w client \<Rightarrow> 'w called" where
  "bCap_VariablePutTag env fd hVariable newVal st =
     invoke_function env fd ID_VARIABLE_PUTTAG 2 ''3,12'' [VaI4 hVariable, VaVariant newVal] st"

definition bCap_VariableGetID :: "'w cenv \<Rightarrow> i32 \<Rightarrow> u32 \<Rightarrow> variant option \<Rightarrow> 'w client \<Rightarrow> 'w called" where
  "bCap_VariableGetID env fd hVariable pVal st =
     invoke_function env fd ID_VARIABLE_GETID 1 ''3:12'' [VaI4 hVariable, variant_out pVal] st"

definition bCap_VariablePutID :: "'w cenv \<Rightarrow> i32 \<Rightarrow> u32 \<Rightarrow> variant \<Rightarrow> 'w client \<Rightarrow> 'w called" where
  "bCap_VariablePutID env fd hVariable newVal st =
     invoke_function env fd ID_VARIABLE_PUTID 2 ''3,12'' [VaI4 hVariable, VaVariant newVal] st"

definition bCap_VariableGetMicrosecond :: "'w cenv \<Rightarrow> i32 \<Rightarrow> u32 \<Rightarrow> bool \<Rightarrow> 'w client \<Rightarrow> 'w called" where
  "bCap_VariableGetMicrosecond env fd hVariable pVal st =
     invoke_function env fd ID_VARIABLE_GETMICROSECOND 1 ''3:3'' [VaI4 hVariable, i4_out pVal] st"

definition bCap_VariableRelease :: "'w cenv \<Rightarrow> i32 \<Rightarrow> u32 option \<Rightarrow> 'w client \<Rightarrow> 'w released" where
  "bCap_VariableRelease env fd hVariable st =
     (case hVariable of None \<Rightarrow> Some (E_INVALIDARG, None, st)
      | Some h \<Rightarrow> reset_handle h (invoke_function env fd ID_VARIABLE_RELEASE 1 ''3'' [VaI4 h] st))"

definition bCap_CommandExecute :: "'w cenv \<Rightarrow> i32 \<Rightarrow> u32 \<Rightarrow> i32 \<Rightarrow> variant option \<Rightarrow> 'w client \<Rightarrow> 'w called" where
  "bCap_CommandExecute env fd hCommand lMode pVal st =
     invoke_function env fd ID_COMMAND_EXECUTE 2 ''3,3:12'' [VaI4 hCommand, VaI4 lMode, variant_out pVal] st"

definition bCap_CommandCancel :: "'w cenv \<Rightarrow> i32 \<Rightarrow> u32 \<Rightarrow> 'w client \<Rightarrow> 'w called" where
  "bCap_CommandCancel env fd hCommand st =
     invoke_function env fd ID_COMMAND_CANCEL 1 ''3'' [VaI4 hCommand] st"

definition bCap_CommandGetTimeout :: "'w cenv \<Rightarrow> i32 \<Rightarrow> u32 \<Rightarrow> bool \<Rightarrow> 'w client \<Rightarrow> 'w called" where
  "bCap_CommandGetTimeout env fd hCommand pVal st =
     invoke_function env fd ID_COMMAND_GETTIMEOUT 1 ''3:3'' [VaI4 hCommand, i4_out pVal] st"

definition bCap_CommandPutTimeout :: "'w cenv \<Rightarrow> i32 \<Rightarrow> u32 \<Rightarrow> i32 \<Rightarrow> 'w client \<Rightarrow> 'w called" where
  "bCap_CommandPutTimeout env fd hCommand newVal st =
     invoke_function env fd ID_COMMAND_PUTTIMEOUT 2 ''3,3'' [VaI4 hCommand, VaI4 newVal] st"

definition bCap_CommandGetState :: "'w cenv \<Rightarrow> i32 \<Rightarrow> u32 \<Rightarrow> bool \<Rightarrow> 'w client \<Rightarrow> 'w called" where
  "bCap_CommandGetState env fd hCommand pVal st =
     invoke_function env fd ID_COMMAND_GETSTATE 1 ''3:3'' [VaI4 hCommand, i4_out pVal] st"

definition bCap_CommandGetParameters :: "'w cenv \<Rightarrow> i32 \<Rightarrow> u32 \<Rightarrow> variant option \<Rightarrow> 'w client \<Rightarrow> 'w called" where
  "bCap_CommandGetParameters env fd hCommand pVal st =
     invoke_function env fd ID_COMMAND_GETPARAMETERS 1 ''3:12'' [VaI4 hCommand, variant_out pVal] st"

definition bCap_CommandPutParameters :: "'w cenv \<Rightarrow> i32 \<Rightarrow> u32 \<Rightarrow> variant \<Rightarrow> 'w client \<Rightarrow> 'w called" where
  "bCap_CommandPutParameters env fd hCommand newVal st =
     invoke_function env fd ID_COMMAND_PUTPARAMETERS 2 ''3,12'' [VaI4 hCommand, VaVariant newVal] st"

definition bCap_CommandGetResult :: "'w cenv \<Rightarrow> i32 \<Rightarrow> u32 \<Rightarrow> variant option \<Rightarrow> 'w client \<Rightarrow> 'w called" where
  "bCap_CommandGetResult env fd hCommand pVal st =
     invoke_function env fd ID_COMMAND_GETRESULT 1 ''3:12'' [VaI4 hCommand, variant_out pVal] st"

definition bCap_CommandGetAttribute :: "'w cenv \<Rightarrow> i32 \<Rightarrow> u32 \<Rightarrow> bool \<Rightarrow> 'w client \<Rightarrow> 'w called" where
  "bCap_CommandGetAttribute env fd hCommand pVal st =
     invoke_function env fd ID_COMMAND_GETATTRIBUTE 1 ''3:3'' [VaI4 hCommand, i4_out pVal] st"

definition bCap_CommandGetHelp :: "'w cenv \<Rightarrow> i32 \<Rightarrow> u32 \<Rightarrow> bool \<Rightarrow> 'w client \<Rightarrow> 'w called" where
  "bCap_CommandGetHelp env fd hCommand pVal st =
     invoke_function env fd ID_COMMAND_GETHELP 1 ''3:8'' [VaI4 hCommand, bstr_out pVal] st"

definition bCap_CommandGetName :: "'w cenv \<Rightarrow> i32 \<Rightarrow> u32 \<Rightarrow> bool \<Rightarrow> 'w client \<Rightarrow> 'w called" where
  "bCap_CommandGetName env fd hCommand pVal st =
     invoke_function env fd ID_COMMAND_GETNAME 1 ''3:8'' [VaI4 hCommand, bstr_out pVal] st"

definition bCap_CommandGetTag :: "'w cenv \<Rightarrow> i32 \<Rightarrow> u32 \<Rightarrow> variant option \<Rightarrow> 'w client \<Rightarrow> 'w called" where
  "bCap_CommandGetTag env fd hCommand pVal st =
     invoke_function env fd ID_COMMAND_GETTAG 1 ''3:12'' [VaI4 hCommand, variant_out pVal] st"

definition bCap_CommandPutTag :: "'w cenv \<Rightarrow> i32 \<Rightarrow> u32 \<Rightarrow> variant \<Rightarrow> 'w client \<Rightarrow> 'w called" where
  "bCap_CommandPutTag env fd hCommand newVal st =
     invoke_function env fd ID_COMMAND_PUTTAG 2 ''3,12'' [VaI4 hCommand, VaVariant newVal] st"

definition bCap_CommandGetID :: "'w cenv \<Rightarrow> i32 \<Rightarrow> u32 \<Rightarrow> variant option \<Rightarrow> 'w client \<Rightarrow> 'w called" where
  "bCap_CommandGetID env fd hCommand pVal st =
     invoke_function env fd ID_COMMAND_GETID 1 ''3:12'' [VaI4 hCommand, variant_out pVal] st"

definition bCap_CommandPutID :: "'w cenv \<Rightarrow> i32 \<Rightarrow> u32 \<Rightarrow> variant \<Rightarrow> 'w client \<Rightarrow> 'w called" where
  "bCap_CommandPutID env fd hCommand newVal st =
     invoke_function env fd ID_COMMAND_PUTID 2 ''3,12'' [VaI4 hCommand, VaVariant newVal] st"

definition bCap_CommandRelease :: "'w cenv \<Rightarrow> i32 \<Rightarrow> u32 option \<Rightarrow> 'w client \<Rightarrow> 'w released" where
  "bCap_CommandRelease env fd hCommand st =
     (case hCommand of None \<Rightarrow> Some (E_INVALIDARG, None, st)
      | Some h \<Rightarrow> reset_handle h (invoke_function env fd ID_COMMAND_RELEASE 1 ''3'' [VaI4 h] st))"

definition bCap_MessageReply :: "'w cenv \<Rightarrow> i32 \<Rightarrow> u32 \<Rightarrow> variant \<Rightarrow> 'w client \<Rightarrow> 'w called" where
  "bCap_MessageReply env fd hMessage vntData st =
     invoke_function env fd ID_MESSAGE_REPLY 2 ''3,12'' [VaI4 hMessage, VaVariant vntData] st"

definition bCap_MessageClear :: "'w cenv \<Rightarrow> i32 \<Rightarrow> u32 \<Rightarrow> 'w client \<Rightarrow> 'w called" where
  "bCap_MessageClear env fd hMessage st =
     invoke_function env fd ID_MESSAGE_CLEAR 1 ''3'' [VaI4 hMessage] st"

definition bCap_MessageGetDateTime :: "'w cenv \<Rightarrow> i32 \<Rightarrow> u32 \<Rightarrow> variant option \<Rightarrow> 'w client \<Rightarrow> 'w called" where
  "bCap_MessageGetDateTime env fd hMessage pVal st =
     invoke_function env fd ID_MESSAGE_GETDATETIME 1 ''3:12'' [VaI4 hMessage, variant_out pVal] st"

definition bCap_MessageGetDescription :: "'w cenv \<Rightarrow> i32 \<Rightarrow> u32 \<Rightarrow> bool \<Rightarrow> 'w client \<Rightarrow> 'w called" where
  "bCap_MessageGetDescription env fd hMessage pVal st =
     invoke_function env fd ID_MESSAGE_GETDESCRIPTION 1 ''3:8'' [VaI4 hMessage, bstr_out pVal] st"

definition bCap_MessageGetDestination :: "'w cenv \<Rightarrow> i32 \<Rightarrow> u32 \<Rightarrow> bool \<Rightarrow> 'w client \<Rightarrow> 'w called" where
  "bCap_MessageGetDestination env fd hMessage pVal st =
     invoke_function env fd ID_MESSAGE_GETDESTINATION 1 ''3:8'' [VaI4 hMessage, bstr_out pVal] st"

definition bCap_MessageGetNumber :: "'w cenv \<Rightarrow> i32 \<Rightarrow> u32 \<Rightarrow> bool \<Rightarrow> 'w client \<Rightarrow> 'w called" where
  "bCap_MessageGetNumber env fd hMessage pVal st =
     invoke_function env fd ID_MESSAGE_GETNUMBER 1 ''3:3'' [VaI4 hMessage, i4_out pVal] st"

definition bCap_MessageGetSerialNumber :: "'w cenv \<Rightarrow> i32 \<Rightarrow> u32 \<Rightarrow> bool \<Rightarrow> 'w client \<Rightarrow> 'w called" where
  "bCap_MessageGetSerialNumber env fd hMessage pVal st =
     invoke_function env fd ID_MESSAGE_GETSERIALNUMBER 1 ''3:3'' [VaI4 hMessage, i4_out pVal] st"

definition bCap_MessageGetSource :: "'w cenv \<Rightarrow> i32 \<Rightarrow> u32 \<Rightarrow> bool \<Rightarrow> 'w client \<Rightarrow> 'w called" where
  "bCap_MessageGetSource env fd hMessage pVal st =
     invoke_function env fd ID_MESSAGE_GETSOURCE 1 ''3:8'' [VaI4 hMessage, bstr_out pVal] st"

definition bCap_MessageGetValue :: "'w cenv \<Rightarrow> i32 \<Rightarrow> u32 \<Rightarrow> variant option \<Rightarrow> 'w client \<Rightarrow> 'w called" where
  "bCap_MessageGetValue env fd hMessage pVal st =
     invoke_function env fd ID_MESSAGE_GETVALUE 1 ''3:12'' [VaI4 hMessage, variant_out pVal] st"

definition bCap_MessageRelease :: "'w cenv \<Rightarrow> i32 \<Rightarrow> u32 option \<Rightarrow> 'w client \<Rightarrow> 'w released" where
  "bCap_MessageRelease env fd hMessage st =
     (case hMessage of None \<Rightarrow> Some (E_INVALIDARG, None, st)
      | Some h \<Rightarrow> reset_handle h (invoke_function env fd ID_MESSAGE_RELEASE 1 ''3'' [VaI4 h] st))"

end
