(* ===== verification/BcapCalls.thy ===== *)
theory BcapCalls
  imports BcapExchange BcapApi
begin

text \<open>
  What a call of the client's interface does over a TCP connection: which bytes it sends, what
  it returns, what it stores through its pointers. \<open>invoke_function\<close> is characterised once, for
  every list of arguments its formats can describe, and the functions of \<open>BcapApi\<close> are instances.
\<close>

section \<open>Formats\<close>

fun is_input :: "vararg \<Rightarrow> bool" where
  "is_input (VaOut p) = False"
| "is_input a = True"

fun arg_code :: "vararg \<Rightarrow> string" where
  "arg_code (VaI4 n) = ''3''"
| "arg_code (VaR4 f) = ''4''"
| "arg_code (VaBstr b) = ''8''"
| "arg_code (VaVariant v) = ''12''"
| "arg_code (VaOut p) = ''''"

fun arg_variant :: "vararg \<Rightarrow> variant" where
  "arg_variant (VaI4 n) = Variant VT_I4 (Bits (ucast n))"
| "arg_variant (VaR4 f) = Variant VT_R4 (Bits (ucast f))"
| "arg_variant (VaBstr b) = Variant VT_BSTR (bstr_val b)"
| "arg_variant (VaVariant v) = v"
| "arg_variant (VaOut p) = zero_variant"

fun in_format :: "vararg list \<Rightarrow> string" where
  "in_format [] = ''''"
| "in_format [a] = arg_code a"
| "in_format (a # b # as) = arg_code a @ CHR '','' # in_format (b # as)"

fun ret_code :: "out_ptr \<Rightarrow> string" where
  "ret_code OutI4 = ''3''"
| "ret_code OutBstr = ''8''"
| "ret_code (OutVariant v) = ''12''"

definition call_format :: "vararg list \<Rightarrow> out_ptr option \<Rightarrow> string" where
  "call_format va ret = in_format va @ (case ret of None \<Rightarrow> '''' | Some p \<Rightarrow> CHR '':'' # ret_code p)"

definition call_args :: "vararg list \<Rightarrow> out_ptr option \<Rightarrow> vararg list" where
  "call_args va ret = va @ (case ret of None \<Rightarrow> [] | Some p \<Rightarrow> [VaOut (Some p)])"

lemma atoi_codes [simp]:
  "atoi ''3'' = 3" "atoi ''4'' = 4" "atoi ''8'' = 8" "atoi ''12'' = 12"
  by code_simp+

lemma take_arg_code:
  "is_input a \<Longrightarrow> take_arg (atoi (arg_code a)) (a # va) = Some (Inr (arg_variant a, va))"
  by (cases a) (simp_all add: take_arg_def)

lemma arg_code_chars: "is_input a \<Longrightarrow> arg_code a \<noteq> [] \<and> CHR '','' \<notin> set (arg_code a) \<and> CHR '':'' \<notin> set (arg_code a)"
  by (cases a) auto

lemma takeWhile_other: "c \<notin> set s \<Longrightarrow> takeWhile (\<lambda>x. x \<noteq> c) s = s"
  by (induction s) auto

lemma takeWhile_upto: "c \<notin> set s \<Longrightarrow> takeWhile (\<lambda>x. x \<noteq> c) (s @ c # t) = s"
  by (induction s) auto

lemma fill_args_format:
  "list_all is_input va \<Longrightarrow> n = length acc + length va \<Longrightarrow>
   fill_args n (in_format va) (va @ rest) acc = Some (S_OK, acc @ map arg_variant va, rest)"
proof (induction va arbitrary: acc rule: in_format.induct)
  case 1
  then show ?case by (subst fill_args.simps) simp
next
  case (2 a)
  then show ?case
    using arg_code_chars [of a] take_arg_code [of a rest]
    by (subst fill_args.simps) (simp add: takeWhile_other fill_args.simps [of _ "[]"])
next
  case (3 a b as)
  then show ?case
    using arg_code_chars [of a] take_arg_code [of a "b # as @ rest"]
    by (subst fill_args.simps) (simp add: takeWhile_upto)
qed

lemma in_format_colon: "list_all is_input va \<Longrightarrow> CHR '':'' \<notin> set (in_format va)"
  by (induction va rule: in_format.induct) (use arg_code_chars in auto)

text \<open>How \<open>invoke_function\<close> takes a format apart.\<close>

lemma call_format_parts:
  assumes "list_all is_input va"
  shows "takeWhile (\<lambda>c. c \<noteq> CHR '':'') (call_format va ret) = in_format va"
    and "CHR '':'' \<in> set (call_format va ret) \<longleftrightarrow> ret \<noteq> None"
    and "ret = Some p \<Longrightarrow> drop (Suc (length (in_format va))) (call_format va ret) = ret_code p"
  using in_format_colon [OF assms]
  by (auto simp: call_format_def takeWhile_other takeWhile_upto split: option.splits)

section \<open>Results\<close>

text \<open>The value the call starts from, and what the caller gets of the value of the replies.\<close>

fun initial_value :: "out_ptr option \<Rightarrow> variant" where
  "initial_value (Some (OutVariant v)) = v"
| "initial_value p = zero_variant"

fun result_of :: "out_ptr option \<Rightarrow> hresult \<Rightarrow> variant \<Rightarrow> out_val option" where
  "result_of None hr v = None"
| "result_of (Some (OutVariant v0)) hr v = Some (RetVariant v)"
| "result_of (Some OutI4) hr v =
     (if SUCCEEDED hr \<and> vt v = VT_I4
      then (case val v of Bits w \<Rightarrow> Some (RetI4 (ucast w)) | _ \<Rightarrow> None) else None)"
| "result_of (Some OutBstr) hr v =
     (if SUCCEEDED hr \<and> vt v = VT_BSTR
      then Some (RetBstr (case val v of BstrP s \<Rightarrow> Some s | _ \<Rightarrow> None)) else None)"

text \<open>Replies whose values are the ones a decoder produces.\<close>

definition canonical :: "bcap_packet \<Rightarrow> bool" where
  "canonical p \<longleftrightarrow> wf_packet p \<and> argc p \<le> 1 \<and> wires (arg_list p) = arg_list p"

fun final_value :: "variant \<Rightarrow> bcap_packet list \<Rightarrow> variant" where
  "final_value v [] = v"
| "final_value v (p # ps) = final_value (case arg_list p of [] \<Rightarrow> v | a # _ \<Rightarrow> a) ps"

lemma canonical_args:
  assumes "canonical p"
  shows "argc p = 0 \<and> arg_list p = [] \<or> argc p \<noteq> 0 \<and> (\<exists>v. arg_list p = [v] \<and> wf_variant v)"
proof -
  have len: "length (arg_list p) = unat (argc p)" and le: "unat (argc p) \<le> 1" and wf: "wf_variants (arg_list p)"
    using assms by (auto simp: canonical_def wf_packet_def word_le_nat_alt)
  have "length (arg_list p) \<le> 1" using len le by simp
  then show ?thesis
    using len wf by (cases "arg_list p") (auto simp: unat_eq_0)
qed

lemma final_value_last_args:
  "list_all canonical ps \<Longrightarrow> last_args (Some [v]) ps = Some [final_value v ps]"
proof (induction ps arbitrary: v)
  case (Cons p ps)
  then show ?case using canonical_args [of p] by (auto simp: canonical_def)
qed simp

lemma final_value_wf:
  "list_all canonical ps \<Longrightarrow> wf_variant v \<Longrightarrow> wf_variant (final_value v ps)"
proof (induction ps arbitrary: v)
  case (Cons p ps)
  then show ?case using canonical_args [of p] by (auto split: list.split)
qed simp

lemma ucast_u16_eq: "(ucast (t :: u16) :: u32) = ucast k \<longleftrightarrow> t = k"
  by (simp add: word_uint_eq_iff uint_up_ucast is_up)

lemma store_ret_ok:
  assumes "wf_variant v" and "SUCCEEDED hr" and "\<And>u. p \<noteq> OutVariant u"
  shows "store_ret mem_ok (atoi (ret_code p)) (Some p) v = Some (result_of (Some p) hr v)"
proof -
  have code: "(3 :: i32) = ucast (vt v) \<longleftrightarrow> vt v = VT_I4" "(8 :: i32) = ucast (vt v) \<longleftrightarrow> vt v = VT_BSTR"
    using ucast_u16_eq [of "vt v" 3] ucast_u16_eq [of "vt v" 8] by (simp_all add: eq_commute [of _ "ucast (vt v)"])
  have p: "p = OutI4 \<or> p = OutBstr" using assms(3) by (cases p) auto
  consider (bstr) s where "v = Variant VT_BSTR (BstrP s)" "wf_bstr s" | (null) "v = Variant VT_BSTR NULLP"
    | (bits) w where "val v = Bits w" "vt v \<noteq> VT_BSTR" | (other) "vt v \<noteq> VT_I4" "vt v \<noteq> VT_BSTR"
  proof -
    have "\<not> is_array VT_I4" "\<not> is_array VT_BSTR" by (simp_all add: is_array_def)
    with assms(1) show thesis
      by (cases rule: wf_variant_cases) (use that in auto)
  qed
  then show ?thesis
  proof cases
    case (bstr s)
    then show ?thesis using p assms(2) by (auto simp: store_ret_def bstr_ptr_def SysAllocString_wf)
  next
    case null
    then show ?thesis using p assms(2) by (auto simp: store_ret_def bstr_ptr_def SysAllocString_def)
  next
    case (bits w)
    then show ?thesis using p assms(2) code by (auto simp: store_ret_def)
  next
    case other
    then show ?thesis using p code by (auto simp: store_ret_def)
  qed
qed

section \<open>A call over a stream\<close>

text \<open>The request \<open>invoke_function\<close> builds, as \<open>send_receive\<close> numbers it.\<close>

definition request :: "u16 \<Rightarrow> i32 \<Rightarrow> vararg list \<Rightarrow> bcap_packet" where
  "request s fid va = \<lparr>serial = s, reserv = 0, func_id = fid, argc = of_nat (length va),
     args = (if va = [] then None else Some (map arg_variant va))\<rparr>"

lemma arg_list_request [simp]: "arg_list (request s fid va) = map arg_variant va"
  by (simp add: request_def arg_list_def)

definition request_ok :: "vararg list \<Rightarrow> bool" where
  "request_ok va \<longleftrightarrow> list_all is_input va \<and> wf_variants (map arg_variant va) \<and>
     length va < 2 ^ 16 \<and> 16 + length (ser_args (map arg_variant va)) < 2 ^ 32"

lemma request_ok_wf: "request_ok va \<Longrightarrow> wf_packet (request s fid va) \<and> length (ser_packet (request s fid va) []) < 2 ^ 32"
  by (simp add: request_ok_def wf_packet_def) (simp add: request_def unat_of_nat)

text \<open>The replies on the wire: those of earlier requests and notices, then the one of this request.\<close>

definition replies_ok :: "'w cenv \<Rightarrow> u16 \<Rightarrow> bcap_packet list \<Rightarrow> bcap_packet \<Rightarrow> bool" where
  "replies_ok env s ps r \<longleftrightarrow> list_all (reply_ok (env_fresh env)) (ps @ [r]) \<and> list_all canonical (ps @ [r]) \<and>
     list_all (stale s) ps \<and> \<not> stale s r"

lemma wf_zero_variant: "wf_variant zero_variant"
  by (simp add: wf_variant.simps wf_body_def is_array_def scalar_type_def)

context stream_link
begin

lemma invoke_function_ok:
  assumes "ok x (cworld st)" and "pend (cworld st) = ser_packets ps @ ser_packet r [] @ rest"
    and "check_address (conns st) h = Some (i, c)" and "device c = d" and "retry c \<noteq> 0"
    and "replies_ok env (conn_serial c) ps r" and "request_ok va"
    and "env_io env = io" and "env_mok env = mem_ok" and "lock_free env"
  shows "\<exists>w'. invoke_function env h fid (length va) (call_format va ret) (call_args va ret) st =
      Some (func_id r, result_of ret (func_id r) (final_value (initial_value ret) (ps @ [r])),
        st\<lparr>conns := (conns st)[i := c\<lparr>conn_serial := next_serial (conn_serial c)\<rparr>], cworld := w'\<rparr>) \<and>
      ok (x @ ser_packet (request (conn_serial c) fid va) []) w' \<and> pend w' = rest"
proof -
  define v0 where "v0 = initial_value ret"
  define v where "v = final_value v0 (ps @ [r])"
  define p where "p = request 0 fid va"
  define q where "q = \<lparr>serial = 0, reserv = 0, func_id = 0, argc = 1, args = Some [v0]\<rparr>"
  have va: "list_all is_input va" using assms(7) by (simp add: request_ok_def)
  have rep: "list_all (reply_ok (env_fresh env)) (ps @ [r])" "list_all canonical (ps @ [r])"
    "list_all (stale (conn_serial c)) ps" "\<not> stale (conn_serial c) r"
    using assms(6) by (auto simp: replies_ok_def)
  have wfp: "wf_packet p" "length (ser_packet p []) < 2 ^ 32"
    using request_ok_wf [OF assms(7)] by (auto simp: p_def)
  have aq: "args q = Some [v0]" by (simp add: q_def)
  have num: "p\<lparr>serial := conn_serial c, reserv := 0\<rparr> = request (conn_serial c) fid va"
    by (simp add: p_def request_def)
  obtain w' q' where sr: "send_receive env h p q st = Some (func_id r, q',
      st\<lparr>conns := (conns st)[i := c\<lparr>conn_serial := next_serial (conn_serial c)\<rparr>], cworld := w'\<rparr>)"
    and w': "ok (x @ ser_packet (request (conn_serial c) fid va) []) w'" "pend w' = rest"
    and q': "args q' = Some [v]"
    using send_receive_ok [OF assms(1-5) rep(1,3,4) wfp aq assms(8-10)]
      final_value_last_args [OF rep(2), of v0] num aq by (auto simp: v_def)
  have fill: "fill_args (length va) (in_format va) (call_args va ret) [] =
      Some (S_OK, map arg_variant va, case ret of None \<Rightarrow> [] | Some p \<Rightarrow> [VaOut (Some p)])"
    unfolding call_args_def using fill_args_format [OF va, of "length va" "[]"] by simp
  have p: "\<lparr>serial = 0, reserv = 0, func_id = fid, argc = of_nat (length va),
      args = if length va = 0 then None else Some (map arg_variant va)\<rparr> = p"
    by (simp add: p_def request_def)
  note parts = call_format_parts [OF va, of ret]
  have "invoke_function env h fid (length va) (call_format va ret) (call_args va ret) st =
      Some (func_id r, result_of ret (func_id r) v,
        st\<lparr>conns := (conns st)[i := c\<lparr>conn_serial := next_serial (conn_serial c)\<rparr>], cworld := w'\<rparr>)"
  proof (cases "\<exists>u. ret = Some (OutVariant u)")
    case True
    then obtain u where ret: "ret = Some (OutVariant u)" by blast
    then have "v0 = u" by (simp add: v0_def)
    then show ?thesis
      using sr q' fill parts p ret assms(9)
      by (simp add: invoke_function_def Let_def ret_ptr_def recv_dest_def q_def)
  next
    case False
    then have v0: "v0 = zero_variant" by (cases ret rule: initial_value.cases) (auto simp: v0_def)
    have wf: "wf_variant v" unfolding v_def v0 by (rule final_value_wf [OF rep(2) wf_zero_variant])
    consider (none) "ret = None" | (out) o' where "ret = Some o'" "\<And>u. o' \<noteq> OutVariant u"
      using False by (cases ret) auto
    then show ?thesis
    proof cases
      case none
      then show ?thesis
        using sr q' fill parts p assms(9) wf_VariantClear(1) [OF wf]
        by (simp add: invoke_function_def Let_def ret_ptr_def recv_dest_def q_def v0 store_ret_def)
    next
      case (out o')
      have dst: "recv_dest (atoi (ret_code o')) (Some o') = Some None"
        using out(2) by (cases o') (auto simp: recv_dest_def)
      have st: "SUCCEEDED (func_id r) \<Longrightarrow>
          store_ret mem_ok (atoi (ret_code o')) (Some o') v = Some (result_of ret (func_id r) v)"
        using store_ret_ok [OF wf _ out(2)] out(1) by simp
      have fl: "\<not> SUCCEEDED (func_id r) \<Longrightarrow> result_of ret (func_id r) v = None"
        using out by (cases o') (auto simp del: SUCCEEDED_FAILED)
      show ?thesis
        using sr q' fill parts p assms(9) wf_VariantClear(1) [OF wf] out(1) dst st fl
        by (cases "SUCCEEDED (func_id r)")
          (simp_all add: invoke_function_def Let_def ret_ptr_def q_def v0 del: SUCCEEDED_FAILED)
    qed
  qed
  then show ?thesis using w' unfolding v_def v0_def by blast
qed

end

section \<open>The functions of the interface\<close>

text \<open>
  A function whose format says exactly which arguments follow, how many, and which pointer the
  result goes through.
\<close>

definition well_formed_call ::
  "i32 \<Rightarrow> vararg list \<Rightarrow> out_ptr option \<Rightarrow> ('w cenv \<Rightarrow> i32 \<Rightarrow> 'w client \<Rightarrow> 'w called) \<Rightarrow> bool" where
  "well_formed_call fid va ret f \<longleftrightarrow> list_all is_input va \<and>
     (\<forall>env fd st. f env fd st =
        invoke_function env fd fid (length va) (call_format va ret) (call_args va ret) st)"

lemmas call_simps = well_formed_call_def call_format_def call_args_def i4_out_def bstr_out_def variant_out_def eval_nat_numeral

text \<open>
  Every function on the service and of a controller hands \<open>invoke_function\<close>
  its number, a format that lists its arguments one by one with their types, and the pointer of
  its result under the type it is stored with.
\<close>

lemma controller_calls_well_formed:
  "well_formed_call ID_SERVICE_START [VaBstr b1] None (\<lambda>env fd. bCap_ServiceStart env fd b1) \<and>
   well_formed_call ID_SERVICE_STOP [] None (\<lambda>env fd. bCap_ServiceStop env fd) \<and>
   well_formed_call ID_CONTROLLER_CONNECT [VaBstr b1, VaBstr b2, VaBstr b3, VaBstr b4] (Some OutI4) (\<lambda>env fd. bCap_ControllerConnect env fd b1 b2 b3 b4 True) \<and>
   well_formed_call ID_CONTROLLER_GETEXTENSION [VaI4 n1, VaBstr b1, VaBstr b2] (Some OutI4) (\<lambda>env fd. bCap_ControllerGetExtension env fd n1 b1 b2 True) \<and>
   well_formed_call ID_CONTROLLER_GETFILE [VaI4 n1, VaBstr b1, VaBstr b2] (Some OutI4) (\<lambda>env fd. bCap_ControllerGetFile env fd n1 b1 b2 True) \<and>
   well_formed_call ID_CONTROLLER_GETROBOT [VaI4 n1, VaBstr b1, VaBstr b2] (Some OutI4) (\<lambda>env fd. bCap_ControllerGetRobot env fd n1 b1 b2 True) \<and>
   well_formed_call ID_CONTROLLER_GETTASK [VaI4 n1, VaBstr b1, VaBstr b2] (Some OutI4) (\<lambda>env fd. bCap_ControllerGetTask env fd n1 b1 b2 True) \<and>
   well_formed_call ID_CONTROLLER_GETVARIABLE [VaI4 n1, VaBstr b1, VaBstr b2] (Some OutI4) (\<lambda>env fd. bCap_ControllerGetVariable env fd n1 b1 b2 True) \<and>
   well_formed_call ID_CONTROLLER_GETCOMMAND [VaI4 n1, VaBstr b1, VaBstr b2] (Some OutI4) (\<lambda>env fd. bCap_ControllerGetCommand env fd n1 b1 b2 True) \<and>
   well_formed_call ID_CONTROLLER_GETEXTENSIONNAMES [VaI4 n1, VaBstr b1] (Some (OutVariant v1)) (\<lambda>env fd. bCap_ControllerGetExtensionNames env fd n1 b1 (Some v1)) \<and>
   well_formed_call ID_CONTROLLER_GETFILENAMES [VaI4 n1, VaBstr b1] (Some (OutVariant v1)) (\<lambda>env fd. bCap_ControllerGetFileNames env fd n1 b1 (Some v1)) \<and>
   well_formed_call ID_CONTROLLER_GETROBOTNAMES [VaI4 n1, VaBstr b1] (Some (OutVariant v1)) (\<lambda>env fd. bCap_ControllerGetRobotNames env fd n1 b1 (Some v1)) \<and>
   well_formed_call ID_CONTROLLER_GETTASKNAMES [VaI4 n1, VaBstr b1] (Some (OutVariant v1)) (\<lambda>env fd. bCap_ControllerGetTaskNames env fd n1 b1 (Some v1)) \<and>
   well_formed_call ID_CONTROLLER_GETVARIABLENAMES [VaI4 n1, VaBstr b1] (Some (OutVariant v1)) (\<lambda>env fd. bCap_ControllerGetVariableNames env fd n1 b1 (Some v1)) \<and>
   well_formed_call ID_CONTROLLER_GETCOMMANDNAMES [VaI4 n1, VaBstr b1] (Some (OutVariant v1)) (\<lambda>env fd. bCap_ControllerGetCommandNames env fd n1 b1 (Some v1)) \<and>
   well_formed_call ID_CONTROLLER_EXECUTE [VaI4 n1, VaBstr b1, VaVariant v1] (Some (OutVariant v2)) (\<lambda>env fd. bCap_ControllerExecute env fd n1 b1 v1 (Some v2)) \<and>
   well_formed_call ID_CONTROLLER_GETMESSAGE [VaI4 n1] (Some OutI4) (\<lambda>env fd. bCap_ControllerGetMessage env fd n1 True) \<and>
   well_formed_call ID_CONTROLLER_GETATTRIBUTE [VaI4 n1] (Some OutI4) (\<lambda>env fd. bCap_ControllerGetAttribute env fd n1 True) \<and>
   well_formed_call ID_CONTROLLER_GETHELP [VaI4 n1] (Some OutBstr) (\<lambda>env fd. bCap_ControllerGetHelp env fd n1 True) \<and>
   well_formed_call ID_CONTROLLER_GETNAME [VaI4 n1] (Some OutBstr) (\<lambda>env fd. bCap_ControllerGetName env fd n1 True) \<and>
   well_formed_call ID_CONTROLLER_GETTAG [VaI4 n1] (Some (OutVariant v1)) (\<lambda>env fd. bCap_ControllerGetTag env fd n1 (Some v1)) \<and>
   well_formed_call ID_CONTROLLER_PUTTAG [VaI4 n1, VaVariant v1] None (\<lambda>env fd. bCap_ControllerPutTag env fd n1 v1) \<and>
   well_formed_call ID_CONTROLLER_GETID [VaI4 n1] (Some (OutVariant v1)) (\<lambda>env fd. bCap_ControllerGetID env fd n1 (Some v1)) \<and>
   well_formed_call ID_CONTROLLER_PUTID [VaI4 n1, VaVariant v1] None (\<lambda>env fd. bCap_ControllerPutID env fd n1 v1)"
  by (simp add: call_simps
      bCap_ServiceStart_def
      bCap_ServiceStop_def
      bCap_ControllerConnect_def
      bCap_ControllerGetExtension_def
      bCap_ControllerGetFile_def
      bCap_ControllerGetRobot_def
      bCap_ControllerGetTask_def
      bCap_ControllerGetVariable_def
      bCap_ControllerGetCommand_def
      bCap_ControllerGetExtensionNames_def
      bCap_ControllerGetFileNames_def
      bCap_ControllerGetRobotNames_def
      bCap_ControllerGetTaskNames_def
      bCap_ControllerGetVariableNames_def
      bCap_ControllerGetCommandNames_def
      bCap_ControllerExecute_def
      bCap_ControllerGetMessage_def
      bCap_ControllerGetAttribute_def
      bCap_ControllerGetHelp_def
      bCap_ControllerGetName_def
      bCap_ControllerGetTag_def
      bCap_ControllerPutTag_def
      bCap_ControllerGetID_def
      bCap_ControllerPutID_def)

text \<open>
  Every function on extensions, files, robots and tasks hands \<open>invoke_function\<close>
  its number, a format that lists its arguments one by one with their types, and the pointer of
  its result under the type it is stored with.
\<close>

theorem object_calls_well_formed:
  "well_formed_call ID_EXTENSION_GETVARIABLE [VaI4 n1, VaBstr b1, VaBstr b2] (Some OutI4) (\<lambda>env fd. bCap_ExtensionGetVariable env fd n1 b1 b2 True) \<and>
   well_formed_call ID_EXTENSION_GETVARIABLENAMES [VaI4 n1, VaBstr b1] (Some (OutVariant v1)) (\<lambda>env fd. bCap_ExtensionGetVariableNames env fd n1 b1 (Some v1)) \<and>
   well_formed_call ID_EXTENSION_EXECUTE [VaI4 n1, VaBstr b1, VaVariant v1] (Some (OutVariant v2)) (\<lambda>env fd. bCap_ExtensionExecute env fd n1 b1 v1 (Some v2)) \<and>
   well_formed_call ID_EXTENSION_GETATTRIBUTE [VaI4 n1] (Some OutI4) (\<lambda>env fd. bCap_ExtensionGetAttribute env fd n1 True) \<and>
   well_formed_call ID_EXTENSION_GETHELP [VaI4 n1] (Some OutBstr) (\<lambda>env fd. bCap_ExtensionGetHelp env fd n1 True) \<and>
   well_formed_call ID_EXTENSION_GETNAME [VaI4 n1] (Some OutBstr) (\<lambda>env fd. bCap_ExtensionGetName env fd n1 True) \<and>
   well_formed_call ID_EXTENSION_GETTAG [VaI4 n1] (Some (OutVariant v1)) (\<lambda>env fd. bCap_ExtensionGetTag env fd n1 (Some v1)) \<and>
   well_formed_call ID_EXTENSION_PUTTAG [VaI4 n1, VaVariant v1] None (\<lambda>env fd. bCap_ExtensionPutTag env fd n1 v1) \<and>
   well_formed_call ID_EXTENSION_GETID [VaI4 n1] (Some (OutVariant v1)) (\<lambda>env fd. bCap_ExtensionGetID env fd n1 (Some v1)) \<and>
   well_formed_call ID_EXTENSION_PUTID [VaI4 n1, VaVariant v1] None (\<lambda>env fd. bCap_ExtensionPutID env fd n1 v1) \<and>
   well_formed_call ID_FILE_GETFILE [VaI4 n1, VaBstr b1, VaBstr b2] (Some OutI4) (\<lambda>env fd. bCap_FileGetFile env fd n1 b1 b2 True) \<and>
   well_formed_call ID_FILE_GETVARIABLE [VaI4 n1, VaBstr b1, VaBstr b2] (Some OutI4) (\<lambda>env fd. bCap_FileGetVariable env fd n1 b1 b2 True) \<and>
   well_formed_call ID_FILE_GETFILENAMES [VaI4 n1, VaBstr b1] (Some (OutVariant v1)) (\<lambda>env fd. bCap_FileGetFileNames env fd n1 b1 (Some v1)) \<and>
   well_formed_call ID_FILE_GETVARIABLENAMES [VaI4 n1, VaBstr b1] (Some (OutVariant v1)) (\<lambda>env fd. bCap_FileGetVariableNames env fd n1 b1 (Some v1)) \<and>
   well_formed_call ID_FILE_EXECUTE [VaI4 n1, VaBstr b1, VaVariant v1] (Some (OutVariant v2)) (\<lambda>env fd. bCap_FileExecute env fd n1 b1 v1 (Some v2)) \<and>
   well_formed_call ID_FILE_COPY [VaI4 n1, VaBstr b1, VaBstr b2] None (\<lambda>env fd. bCap_FileCopy env fd n1 b1 b2) \<and>
   well_formed_call ID_FILE_DELETE [VaI4 n1, VaBstr b1] None (\<lambda>env fd. bCap_FileDelete env fd n1 b1) \<and>
   well_formed_call ID_FILE_MOVE [VaI4 n1, VaBstr b1, VaBstr b2] None (\<lambda>env fd. bCap_FileMove env fd n1 b1 b2) \<and>
   well_formed_call ID_FILE_RUN [VaI4 n1, VaBstr b1] (Some OutBstr) (\<lambda>env fd. bCap_FileRun env fd n1 b1 True) \<and>
   well_formed_call ID_FILE_GETDATECREATED [VaI4 n1] (Some (OutVariant v1)) (\<lambda>env fd. bCap_FileGetDateCreated env fd n1 (Some v1)) \<and>
   well_formed_call ID_FILE_GETDATELASTACCESSED [VaI4 n1] (Some (OutVariant v1)) (\<lambda>env fd. bCap_FileGetDateLastAccessed env fd n1 (Some v1)) \<and>
   well_formed_call ID_FILE_GETDATELASTMODIFIED [VaI4 n1] (Some (OutVariant v1)) (\<lambda>env fd. bCap_FileGetDateLastModified env fd n1 (Some v1)) \<and>
   well_formed_call ID_FILE_GETPATH [VaI4 n1] (Some OutBstr) (\<lambda>env fd. bCap_FileGetPath env fd n1 True) \<and>
   well_formed_call ID_FILE_GETSIZE [VaI4 n1] (Some OutI4) (\<lambda>env fd. bCap_FileGetSize env fd n1 True) \<and>
   well_formed_call ID_FILE_GETTYPE [VaI4 n1] (Some OutBstr) (\<lambda>env fd. bCap_FileGetType env fd n1 True) \<and>
   well_formed_call ID_FILE_GETVALUE [VaI4 n1] (Some (OutVariant v1)) (\<lambda>env fd. bCap_FileGetValue env fd n1 (Some v1)) \<and>
   well_formed_call ID_FILE_PUTVALUE [VaI4 n1, VaVariant v1] None (\<lambda>env fd. bCap_FilePutValue env fd n1 v1) \<and>
   well_formed_call ID_FILE_GETATTRIBUTE [VaI4 n1] (Some OutI4) (\<lambda>env fd. bCap_FileGetAttribute env fd n1 True) \<and>
   well_formed_call ID_FILE_GETHELP [VaI4 n1] (Some OutBstr) (\<lambda>env fd. bCap_FileGetHelp env fd n1 True) \<and>
   well_formed_call ID_FILE_GETNAME [VaI4 n1] (Some OutBstr) (\<lambda>env fd. bCap_FileGetName env fd n1 True) \<and>
   well_formed_call ID_FILE_GETTAG [VaI4 n1] (Some (OutVariant v1)) (\<lambda>env fd. bCap_FileGetTag env fd n1 (Some v1)) \<and>
   well_formed_call ID_FILE_PUTTAG [VaI4 n1, VaVariant v1] None (\<lambda>env fd. bCap_FilePutTag env fd n1 v1) \<and>
   well_formed_call ID_FILE_GETID [VaI4 n1] (Some (OutVariant v1)) (\<lambda>env fd. bCap_FileGetID env fd n1 (Some v1)) \<and>
   well_formed_call ID_FILE_PUTID [VaI4 n1, VaVariant v1] None (\<lambda>env fd. bCap_FilePutID env fd n1 v1) \<and>
   well_formed_call ID_ROBOT_GETVARIABLE [VaI4 n1, VaBstr b1, VaBstr b2] (Some OutI4) (\<lambda>env fd. bCap_RobotGetVariable env fd n1 b1 b2 True) \<and>
   well_formed_call ID_ROBOT_GETVARIABLENAMES [VaI4 n1, VaBstr b1] (Some (OutVariant v1)) (\<lambda>env fd. bCap_RobotGetVariableNames env fd n1 b1 (Some v1)) \<and>
   well_formed_call ID_ROBOT_EXECUTE [VaI4 n1, VaBstr b1, VaVariant v1] (Some (OutVariant v2)) (\<lambda>env fd. bCap_RobotExecute env fd n1 b1 v1 (Some v2)) \<and>
   well_formed_call ID_ROBOT_ACCELERATE [VaI4 n1, VaI4 n2, VaR4 n3, VaR4 n4] None (\<lambda>env fd. bCap_RobotAccelerate env fd n1 n2 n3 n4) \<and>
   well_formed_call ID_ROBOT_CHANGE [VaI4 n1, VaBstr b1] None (\<lambda>env fd. bCap_RobotChange env fd n1 b1) \<and>
   well_formed_call ID_ROBOT_CHUCK [VaI4 n1, VaBstr b1] None (\<lambda>env fd. bCap_RobotChuck env fd n1 b1) \<and>
   well_formed_call ID_ROBOT_DRIVE [VaI4 n1, VaI4 n2, VaR4 n3, VaBstr b1] None (\<lambda>env fd. bCap_RobotDrive env fd n1 n2 n3 b1) \<and>
   well_formed_call ID_ROBOT_GOHOME [VaI4 n1] None (\<lambda>env fd. bCap_RobotGoHome env fd n1) \<and>
   well_formed_call ID_ROBOT_HALT [VaI4 n1, VaBstr b1] None (\<lambda>env fd. bCap_RobotHalt env fd n1 b1) \<and>
   well_formed_call ID_ROBOT_HOLD [VaI4 n1, VaBstr b1] None (\<lambda>env fd. bCap_RobotHold env fd n1 b1) \<and>
   well_formed_call ID_ROBOT_MOVE [VaI4 n1, VaI4 n2, VaVariant v1, VaBstr b1] None (\<lambda>env fd. bCap_RobotMove env fd n1 n2 v1 b1) \<and>
   well_formed_call ID_ROBOT_ROTATE [VaI4 n1, VaVariant v1, VaR4 n2, VaVariant v2, VaBstr b1] None (\<lambda>env fd. bCap_RobotRotate env fd n1 v1 n2 v2 b1) \<and>
   well_formed_call ID_ROBOT_SPEED [VaI4 n1, VaI4 n2, VaR4 n3] None (\<lambda>env fd. bCap_RobotSpeed env fd n1 n2 n3) \<and>
   well_formed_call ID_ROBOT_UNCHUCK [VaI4 n1, VaBstr b1] None (\<lambda>env fd. bCap_RobotUnchuck env fd n1 b1) \<and>
   well_formed_call ID_ROBOT_UNHOLD [VaI4 n1, VaBstr b1] None (\<lambda>env fd. bCap_RobotUnhold env fd n1 b1) \<and>
   well_formed_call ID_ROBOT_GETATTRIBUTE [VaI4 n1] (Some OutI4) (\<lambda>env fd. bCap_RobotGetAttribute env fd n1 True) \<and>
   well_formed_call ID_ROBOT_GETHELP [VaI4 n1] (Some OutBstr) (\<lambda>env fd. bCap_RobotGetHelp env fd n1 True) \<and>
   well_formed_call ID_ROBOT_GETNAME [VaI4 n1] (Some OutBstr) (\<lambda>env fd. bCap_RobotGetName env fd n1 True) \<and>
   well_formed_call ID_ROBOT_GETTAG [VaI4 n1] (Some (OutVariant v1)) (\<lambda>env fd. bCap_RobotGetTag env fd n1 (Some v1)) \<and>
   well_formed_call ID_ROBOT_PUTTAG [VaI4 n1, VaVariant v1] None (\<lambda>env fd. bCap_RobotPutTag env fd n1 v1) \<and>
   well_formed_call ID_ROBOT_GETID [VaI4 n1] (Some (OutVariant v1)) (\<lambda>env fd. bCap_RobotGetID env fd n1 (Some v1)) \<and>
   well_formed_call ID_ROBOT_PUTID [VaI4 n1, VaVariant v1] None (\<lambda>env fd. bCap_RobotPutID env fd n1 v1) \<and>
   well_formed_call ID_TASK_GETVARIABLE [VaI4 n1, VaBstr b1, VaBstr b2] (Some OutI4) (\<lambda>env fd. bCap_TaskGetVariable env fd n1 b1 b2 True) \<and>
   well_formed_call ID_TASK_GETVARIABLENAMES [VaI4 n1, VaBstr b1] (Some (OutVariant v1)) (\<lambda>env fd. bCap_TaskGetVariableNames env fd n1 b1 (Some v1)) \<and>
   well_formed_call ID_TASK_EXECUTE [VaI4 n1, VaBstr b1, VaVariant v1] (Some (OutVariant v2)) (\<lambda>env fd. bCap_TaskExecute env fd n1 b1 v1 (Some v2)) \<and>
   well_formed_call ID_TASK_START [VaI4 n1, VaI4 n2, VaBstr b1] None (\<lambda>env fd. bCap_TaskStart env fd n1 n2 b1) \<and>
   well_formed_call ID_TASK_STOP [VaI4 n1, VaI4 n2, VaBstr b1] None (\<lambda>env fd. bCap_TaskStop env fd n1 n2 b1) \<and>
   well_formed_call ID_TASK_DELETE [VaI4 n1, VaBstr b1] None (\<lambda>env fd. bCap_TaskDelete env fd n1 b1) \<and>
   well_formed_call ID_TASK_GETFILENAME [VaI4 n1] (Some OutBstr) (\<lambda>env fd. bCap_TaskGetFileName env fd n1 True) \<and>
   well_formed_call ID_TASK_GETATTRIBUTE [VaI4 n1] (Some OutI4) (\<lambda>env fd. bCap_TaskGetAttribute env fd n1 True) \<and>
   well_formed_call ID_TASK_GETHELP [VaI4 n1] (Some OutBstr) (\<lambda>env fd. bCap_TaskGetHelp env fd n1 True) \<and>
   well_formed_call ID_TASK_GETNAME [VaI4 n1] (Some OutBstr) (\<lambda>env fd. bCap_TaskGetName env fd n1 True) \<and>
   well_formed_call ID_TASK_GETTAG [VaI4 n1] (Some (OutVariant v1)) (\<lambda>env fd. bCap_TaskGetTag env fd n1 (Some v1)) \<and>
   well_formed_call ID_TASK_PUTTAG [VaI4 n1, VaVariant v1] None (\<lambda>env fd. bCap_TaskPutTag env fd n1 v1) \<and>
   well_formed_call ID_TASK_GETID [VaI4 n1] (Some (OutVariant v1)) (\<lambda>env fd. bCap_TaskGetID env fd n1 (Some v1)) \<and>
   well_formed_call ID_TASK_PUTID [VaI4 n1, VaVariant v1] None (\<lambda>env fd. bCap_TaskPutID env fd n1 v1)"
  by (simp add: call_simps
      bCap_ExtensionGetVariable_def
      bCap_ExtensionGetVariableNames_def
      bCap_ExtensionExecute_def
      bCap_ExtensionGetAttribute_def
      bCap_ExtensionGetHelp_def
      bCap_ExtensionGetName_def
      bCap_ExtensionGetTag_def
      bCap_ExtensionPutTag_def
      bCap_ExtensionGetID_def
      bCap_ExtensionPutID_def
      bCap_FileGetFile_def
      bCap_FileGetVariable_def
      bCap_FileGetFileNames_def
      bCap_FileGetVariableNames_def
      bCap_FileExecute_def
      bCap_FileCopy_def
      bCap_FileDelete_def
      bCap_FileMove_def
      bCap_FileRun_def
      bCap_FileGetDateCreated_def
      bCap_FileGetDateLastAccessed_def
      bCap_FileGetDateLastModified_def
      bCap_FileGetPath_def
      bCap_FileGetSize_def
      bCap_FileGetType_def
      bCap_FileGetValue_def
      bCap_FilePutValue_def
      bCap_FileGetAttribute_def
      bCap_FileGetHelp_def
      bCap_FileGetName_def
      bCap_FileGetTag_def
      bCap_FilePutTag_def
      bCap_FileGetID_def
      bCap_FilePutID_def
      bCap_RobotGetVariable_def
      bCap_RobotGetVariableNames_def
      bCap_RobotExecute_def
      bCap_RobotAccelerate_def
      bCap_RobotChange_def
      bCap_RobotChuck_def
      bCap_RobotDrive_def
      bCap_RobotGoHome_def
      bCap_RobotHalt_def
      bCap_RobotHold_def
      bCap_RobotMove_def
      bCap_RobotRotate_def
      bCap_RobotSpeed_def
      bCap_RobotUnchuck_def
      bCap_RobotUnhold_def
      bCap_RobotGetAttribute_def
      bCap_RobotGetHelp_def
      bCap_RobotGetName_def
      bCap_RobotGetTag_def
      bCap_RobotPutTag_def
      bCap_RobotGetID_def
      bCap_RobotPutID_def
      bCap_TaskGetVariable_def
      bCap_TaskGetVariableNames_def
      bCap_TaskExecute_def
      bCap_TaskStart_def
      bCap_TaskStop_def
      bCap_TaskDelete_def
      bCap_TaskGetFileName_def
      bCap_TaskGetAttribute_def
      bCap_TaskGetHelp_def
      bCap_TaskGetName_def
      bCap_TaskGetTag_def
      bCap_TaskPutTag_def
      bCap_TaskGetID_def
      bCap_TaskPutID_def)

text \<open>
  Every function on variables, commands and messages hands \<open>invoke_function\<close>
  its number, a format that lists its arguments one by one with their types, and the pointer of
  its result under the type it is stored with.
\<close>

theorem value_calls_well_formed:
  "well_formed_call ID_VARIABLE_GETDATETIME [VaI4 n1] (Some (OutVariant v1)) (\<lambda>env fd. bCap_VariableGetDateTime env fd n1 (Some v1)) \<and>
   well_formed_call ID_VARIABLE_GETVALUE [VaI4 n1] (Some (OutVariant v1)) (\<lambda>env fd. bCap_VariableGetValue env fd n1 (Some v1)) \<and>
   well_formed_call ID_VARIABLE_PUTVALUE [VaI4 n1, VaVariant v1] None (\<lambda>env fd. bCap_VariablePutValue env fd n1 v1) \<and>
   well_formed_call ID_VARIABLE_GETATTRIBUTE [VaI4 n1] (Some OutI4) (\<lambda>env fd. bCap_VariableGetAttribute env fd n1 True) \<and>
   well_formed_call ID_VARIABLE_GETHELP [VaI4 n1] (Some OutBstr) (\<lambda>env fd. bCap_VariableGetHelp env fd n1 True) \<and>
   well_formed_call ID_VARIABLE_GETNAME [VaI4 n1] (Some OutBstr) (\<lambda>env fd. bCap_VariableGetName env fd n1 True) \<and>
   well_formed_call ID_VARIABLE_GETTAG [VaI4 n1] (Some (OutVariant v1)) (\<lambda>env fd. bCap_VariableGetTag env fd n1 (Some v1)) \<and>
   well_formed_call ID_VARIABLE_PUTTAG [VaI4 n1, VaVariant v1] None (\<lambda>env fd. bCap_VariablePutTag env fd n1 v1) \<and>
   well_formed_call ID_VARIABLE_GETID [VaI4 n1] (Some (OutVariant v1)) (\<lambda>env fd. bCap_VariableGetID env fd n1 (Some v1)) \<and>
   well_formed_call ID_VARIABLE_PUTID [VaI4 n1, VaVariant v1] None (\<lambda>env fd. bCap_VariablePutID env fd n1 v1) \<and>
   well_formed_call ID_VARIABLE_GETMICROSECOND [VaI4 n1] (Some OutI4) (\<lambda>env fd. bCap_VariableGetMicrosecond env fd n1 True) \<and>
   well_formed_call ID_COMMAND_EXECUTE [VaI4 n1, VaI4 n2] (Some (OutVariant v1)) (\<lambda>env fd. bCap_CommandExecute env fd n1 n2 (Some v1)) \<and>
   well_formed_call ID_COMMAND_CANCEL [VaI4 n1] None (\<lambda>env fd. bCap_CommandCancel env fd n1) \<and>
   well_formed_call ID_COMMAND_GETTIMEOUT [VaI4 n1] (Some OutI4) (\<lambda>env fd. bCap_CommandGetTimeout env fd n1 True) \<and>
   well_formed_call ID_COMMAND_PUTTIMEOUT [VaI4 n1, VaI4 n2] None (\<lambda>env fd. bCap_CommandPutTimeout env fd n1 n2) \<and>
   well_formed_call ID_COMMAND_GETSTATE [VaI4 n1] (Some OutI4) (\<lambda>env fd. bCap_CommandGetState env fd n1 True) \<and>
   well_formed_call ID_COMMAND_GETPARAMETERS [VaI4 n1] (Some (OutVariant v1)) (\<lambda>env fd. bCap_CommandGetParameters env fd n1 (Some v1)) \<and>
   well_formed_call ID_COMMAND_PUTPARAMETERS [VaI4 n1, VaVariant v1] None (\<lambda>env fd. bCap_CommandPutParameters env fd n1 v1) \<and>
   well_formed_call ID_COMMAND_GETRESULT [VaI4 n1] (Some (OutVariant v1)) (\<lambda>env fd. bCap_CommandGetResult env fd n1 (Some v1)) \<and>
   well_formed_call ID_COMMAND_GETATTRIBUTE [VaI4 n1] (Some OutI4) (\<lambda>env fd. bCap_CommandGetAttribute env fd n1 True) \<and>
   well_formed_call ID_COMMAND_GETHELP [VaI4 n1] (Some OutBstr) (\<lambda>env fd. bCap_CommandGetHelp env fd n1 True) \<and>
   well_formed_call ID_COMMAND_GETNAME [VaI4 n1] (Some OutBstr) (\<lambda>env fd. bCap_CommandGetName env fd n1 True) \<and>
   well_formed_call ID_COMMAND_GETTAG [VaI4 n1] (Some (OutVariant v1)) (\<lambda>env fd. bCap_CommandGetTag env fd n1 (Some v1)) \<and>
   well_formed_call ID_COMMAND_PUTTAG [VaI4 n1, VaVariant v1] None (\<lambda>env fd. bCap_CommandPutTag env fd n1 v1) \<and>
   well_formed_call ID_COMMAND_GETID [VaI4 n1] (Some (OutVariant v1)) (\<lambda>env fd. bCap_CommandGetID env fd n1 (Some v1)) \<and>
   well_formed_call ID_COMMAND_PUTID [VaI4 n1, VaVariant v1] None (\<lambda>env fd. bCap_CommandPutID env fd n1 v1) \<and>
   well_formed_call ID_MESSAGE_REPLY [VaI4 n1, VaVariant v1] None (\<lambda>env fd. bCap_MessageReply env fd n1 v1) \<and>
   well_formed_call ID_MESSAGE_CLEAR [VaI4 n1] None (\<lambda>env fd. bCap_MessageClear env fd n1) \<and>
   well_formed_call ID_MESSAGE_GETDATETIME [VaI4 n1] (Some (OutVariant v1)) (\<lambda>env fd. bCap_MessageGetDateTime env fd n1 (Some v1)) \<and>
   well_formed_call ID_MESSAGE_GETDESCRIPTION [VaI4 n1] (Some OutBstr) (\<lambda>env fd. bCap_MessageGetDescription env fd n1 True) \<and>
   well_formed_call ID_MESSAGE_GETDESTINATION [VaI4 n1] (Some OutBstr) (\<lambda>env fd. bCap_MessageGetDestination env fd n1 True) \<and>
   well_formed_call ID_MESSAGE_GETNUMBER [VaI4 n1] (Some OutI4) (\<lambda>env fd. bCap_MessageGetNumber env fd n1 True) \<and>
   well_formed_call ID_MESSAGE_GETSERIALNUMBER [VaI4 n1] (Some OutI4) (\<lambda>env fd. bCap_MessageGetSerialNumber env fd n1 True) \<and>
   well_formed_call ID_MESSAGE_GETSOURCE [VaI4 n1] (Some OutBstr) (\<lambda>env fd. bCap_MessageGetSource env fd n1 True) \<and>
   well_formed_call ID_MESSAGE_GETVALUE [VaI4 n1] (Some (OutVariant v1)) (\<lambda>env fd. bCap_MessageGetValue env fd n1 (Some v1))"
  by (simp add: call_simps
      bCap_VariableGetDateTime_def
      bCap_VariableGetValue_def
      bCap_VariablePutValue_def
      bCap_VariableGetAttribute_def
      bCap_VariableGetHelp_def
      bCap_VariableGetName_def
      bCap_VariableGetTag_def
      bCap_VariablePutTag_def
      bCap_VariableGetID_def
      bCap_VariablePutID_def
      bCap_VariableGetMicrosecond_def
      bCap_CommandExecute_def
      bCap_CommandCancel_def
      bCap_CommandGetTimeout_def
      bCap_CommandPutTimeout_def
      bCap_CommandGetState_def
      bCap_CommandGetParameters_def
      bCap_CommandPutParameters_def
      bCap_CommandGetResult_def
      bCap_CommandGetAttribute_def
      bCap_CommandGetHelp_def
      bCap_CommandGetName_def
      bCap_CommandGetTag_def
      bCap_CommandPutTag_def
      bCap_CommandGetID_def
      bCap_CommandPutID_def
      bCap_MessageReply_def
      bCap_MessageClear_def
      bCap_MessageGetDateTime_def
      bCap_MessageGetDescription_def
      bCap_MessageGetDestination_def
      bCap_MessageGetNumber_def
      bCap_MessageGetSerialNumber_def
      bCap_MessageGetSource_def
      bCap_MessageGetValue_def)

section \<open>A call over TCP\<close>

text \<open>
  C4: a call of the interface over a TCP connection sends exactly the serialised
  request (the number of the function, its arguments in order), returns the code of the reply to
  it and stores the reply's value through the result pointer when it has the type of the format.
\<close>

theorem call_over_tcp:
  assumes "well_formed_call fid va ret f" and "request_ok va"
    and "segments_ok (cworld st)" and "0 < sint sck"
    and "stream (cworld st) = ser_packets ps @ ser_packet r [] @ rest"
    and "check_address (conns st) h = Some (i, c)" and "device c = tcp_device sck tmo a" and "retry c \<noteq> 0"
    and "replies_ok env (conn_serial c) ps r"
    and "env_io env = driver_io net_os" and "env_mok env = mem_ok" and "lock_free env"
  shows "\<exists>w'. f env h st = Some (func_id r, result_of ret (func_id r) (final_value (initial_value ret) (ps @ [r])),
        st\<lparr>conns := (conns st)[i := c\<lparr>conn_serial := next_serial (conn_serial c)\<rparr>], cworld := w'\<rparr>) \<and>
      sent w' = sent (cworld st) @ ser_packet (request (conn_serial c) fid va) [] \<and> stream w' = rest"
proof -
  have "segments_ok (cworld st) \<and> 0 < sint sck \<and> sent (cworld st) = sent (cworld st)" using assms(3,4) by simp
  from link.invoke_function_ok [OF this assms(5-9,2,10-12), of fid ret] assms(1) show ?thesis
    unfolding well_formed_call_def by auto
qed

lemma sample_robot_call:
  "well_formed_call ID_CONTROLLER_GETROBOT [VaI4 4, VaBstr (Some [0x52, 0]), VaBstr None] (Some OutI4)
     (\<lambda>env fd. bCap_ControllerGetRobot env fd 4 (Some [0x52, 0]) None True)"
  by (simp add: bCap_ControllerGetRobot_def call_simps)

lemma sample_replies: "replies_ok sample_env 7 [notice] handle_reply"
proof -
  have "wires (arg_list notice) = arg_list notice" "wires (arg_list handle_reply) = arg_list handle_reply"
    by code_simp+
  then show ?thesis
    using sample_exchange(4-6) by (auto simp: replies_ok_def canonical_def reply_ok_def)
qed

lemma call_over_tcp_witness:
  "\<exists>w'. bCap_ControllerGetRobot sample_env 1 4 (Some [0x52, 0]) None True sample_client =
      Some (S_OK, Some (RetI4 33), sample_client\<lparr>conns := (conns sample_client)
        [0 := \<lparr>device = tcp_device 5 1000 None, retry = 1, conn_serial = 8\<rparr>], cworld := w'\<rparr>) \<and>
      sent w' = 4 # ser_packet (request 7 ID_CONTROLLER_GETROBOT
        [VaI4 4, VaBstr (Some [0x52, 0]), VaBstr None]) [] \<and> stream w' = [1]"
proof -
  let ?va = "[VaI4 4, VaBstr (Some [0x52, 0]), VaBstr None]"
  have "length (ser_args (map arg_variant ?va)) = 44" by code_simp
  then have req: "request_ok ?va"
    by (simp add: request_ok_def wf_variant.simps wf_body_def is_array_def scalar_type_def copyable_def
        bstr_val_def wf_bstr_def)
  have "result_of (Some OutI4) (func_id handle_reply)
      (final_value (initial_value (Some OutI4)) ([notice] @ [handle_reply])) = Some (RetI4 33)"
    by code_simp
  moreover have "func_id handle_reply = S_OK" "sent (cworld sample_client) = [4]" "next_serial 7 = 8"
    by (simp_all add: handle_reply_def sample_client_def next_serial_def)
  ultimately show ?thesis
    using call_over_tcp [OF sample_robot_call req sample_exchange(1) _ sample_exchange(2,3) _ _ _
        sample_exchange(7-9), of 5 1000 None] sample_replies by simp
qed

section \<open>Releasing a handle\<close>

text \<open>A function that releases the handle its pointer points to.\<close>

definition releases :: "i32 \<Rightarrow> ('w cenv \<Rightarrow> i32 \<Rightarrow> u32 option \<Rightarrow> 'w client \<Rightarrow> 'w released) \<Rightarrow> bool" where
  "releases fid f \<longleftrightarrow> (\<forall>env fd st. f env fd None st = Some (E_INVALIDARG, None, st) \<and>
     (\<forall>n. f env fd (Some n) st = reset_handle n
        (invoke_function env fd fid 1 (call_format [VaI4 n] None) (call_args [VaI4 n] None) st)))"

text \<open>
  The functions that release an object refuse a \<open>NULL\<close> pointer, and call
  their function with the handle as the only argument, resetting it on success.
\<close>

theorem release_calls:
  "releases ID_CONTROLLER_DISCONNECT bCap_ControllerDisconnect \<and>
   releases ID_EXTENSION_RELEASE bCap_ExtensionRelease \<and>
   releases ID_FILE_RELEASE bCap_FileRelease \<and>
   releases ID_ROBOT_RELEASE bCap_RobotRelease \<and>
   releases ID_TASK_RELEASE bCap_TaskRelease \<and>
   releases ID_VARIABLE_RELEASE bCap_VariableRelease \<and>
   releases ID_COMMAND_RELEASE bCap_CommandRelease \<and>
   releases ID_MESSAGE_RELEASE bCap_MessageRelease"
  by (simp add: releases_def call_format_def call_args_def
      bCap_ControllerDisconnect_def
      bCap_ExtensionRelease_def
      bCap_FileRelease_def
      bCap_RobotRelease_def
      bCap_TaskRelease_def
      bCap_VariableRelease_def
      bCap_CommandRelease_def
      bCap_MessageRelease_def)

lemma handle_request_ok: "request_ok [VaI4 n]"
  by (simp add: request_ok_def wf_variant.simps wf_body_def is_array_def scalar_type_def copyable_def
      ser_args_def ser_arg_def ser_item.simps ser_body_def ser_scalar_def fixed_size_def)

text \<open>
  Over a TCP connection a release sends the handle and, exactly when the
  reply is a success, leaves zero in the caller's variable.
\<close>

lemma release_over_tcp:
  assumes "releases fid f"
    and "segments_ok (cworld st)" and "0 < sint sck"
    and "stream (cworld st) = ser_packets ps @ ser_packet r [] @ rest"
    and "check_address (conns st) h = Some (i, c)" and "device c = tcp_device sck tmo a" and "retry c \<noteq> 0"
    and "replies_ok env (conn_serial c) ps r"
    and "env_io env = driver_io net_os" and "env_mok env = mem_ok" and "lock_free env"
  shows "\<exists>w'. f env h (Some n) st = Some (func_id r, Some (if SUCCEEDED (func_id r) then 0 else n),
        st\<lparr>conns := (conns st)[i := c\<lparr>conn_serial := next_serial (conn_serial c)\<rparr>], cworld := w'\<rparr>) \<and>
      sent w' = sent (cworld st) @ ser_packet (request (conn_serial c) fid [VaI4 n]) [] \<and> stream w' = rest"
proof -
  have "segments_ok (cworld st) \<and> 0 < sint sck \<and> sent (cworld st) = sent (cworld st)" using assms(2,3) by simp
  from link.invoke_function_ok [OF this assms(4-8) handle_request_ok [of n] assms(9-11), of fid None] assms(1) show ?thesis
    unfolding releases_def reset_handle_def by auto
qed

lemma release_over_tcp_witness:
  "\<exists>w'. bCap_RobotRelease sample_env 1 (Some 4) sample_client =
      Some (S_OK, Some 0, sample_client\<lparr>conns := (conns sample_client)
        [0 := \<lparr>device = tcp_device 5 1000 None, retry = 1, conn_serial = 8\<rparr>], cworld := w'\<rparr>) \<and>
      sent w' = 4 # ser_packet (request 7 ID_ROBOT_RELEASE [VaI4 4]) [] \<and> stream w' = [1]"
proof -
  have "releases ID_ROBOT_RELEASE (bCap_RobotRelease :: net cenv \<Rightarrow> _)"
    by (simp add: releases_def call_format_def call_args_def bCap_RobotRelease_def)
  moreover have "func_id handle_reply = S_OK" "sent (cworld sample_client) = [4]" "next_serial 7 = 8"
    by (simp_all add: handle_reply_def sample_client_def next_serial_def)
  ultimately show ?thesis
    using release_over_tcp [OF _ sample_exchange(1) _ sample_exchange(2,3) _ _ _
        sample_exchange(7-9), of ID_ROBOT_RELEASE bCap_RobotRelease 5 1000 None 4] sample_replies by simp
qed

end
