(* ===== verification/Handles.thy ===== *)
theory Handles
  imports Prelude
begin

text \<open>
  The interface of a table of connections addressed by handles: a fixed number of slots, a
  search for a free slot among some of them, a check of a handle. A handle is the index of a
  slot plus one, as a C \<open>int\<close>. The client's table and the server's table provide it.
\<close>

locale handle_table =
  fixes used :: "'c \<Rightarrow> bool" and slots :: "nat set" and cap :: nat
    and find :: "'c list \<Rightarrow> nat" and check :: "'c list \<Rightarrow> i32 \<Rightarrow> (nat \<times> 'c) option"
  assumes cap: "cap < 2 ^ 31" and slots: "i \<in> slots \<Longrightarrow> i < cap"
    and find_0: "length cs = cap \<Longrightarrow> find cs = 0 \<longleftrightarrow> (\<forall>i\<in>slots. used (cs ! i))"
    and find_slot: "length cs = cap \<Longrightarrow> find cs \<noteq> 0 \<Longrightarrow> find cs - 1 \<in> slots \<and> \<not> used (cs ! (find cs - 1))"
    and check_handle: "length cs = cap \<Longrightarrow> check cs h =
      (let i = sint h - 1 in
       if 0 \<le> i \<and> i < int cap \<and> used (cs ! nat i) then Some (nat i, cs ! nat i) else None)"
begin

lemma check_Some:
  "length cs = cap \<Longrightarrow> check cs h = Some (i, c) \<longleftrightarrow> i < cap \<and> sint h = int i + 1 \<and> c = cs ! i \<and> used c"
  by (auto simp: check_handle Let_def split: if_splits)

lemma handle_of_slot: "i < cap \<Longrightarrow> sint (of_nat (Suc i) :: i32) = int i + 1"
  using cap by (simp add: signed_of_nat signed_take_bit_int_eq_self del: of_nat_Suc)

lemma find_Suc:
  assumes "length cs = cap" and "find cs \<noteq> 0"
  obtains k where "find cs = Suc k" "k \<in> slots" "k < cap" "\<not> used (cs ! k)" "sint (of_nat (Suc k) :: i32) = int k + 1"
  using find_slot [OF assms] slots handle_of_slot [of "find cs - 1"] assms(2) by (cases "find cs") auto

text \<open>The handle of a free slot is not in use before, and is once the slot is filled.\<close>

lemma find_unused:
  assumes "length cs = cap" and "find cs \<noteq> 0"
  shows "check cs (of_nat (find cs)) = None"
  using assms by (rule find_Suc) (simp add: check_handle assms(1) del: of_nat_Suc)

lemma check_new:
  assumes "length cs = cap" and "find cs \<noteq> 0" and "used c"
  shows "check (cs[find cs - 1 := c]) (of_nat (find cs)) = Some (find cs - 1, c)"
  using assms(1,2) by (rule find_Suc) (simp add: check_handle assms del: of_nat_Suc)

lemma check_other:
  "length cs = cap \<Longrightarrow> sint h \<noteq> int i + 1 \<Longrightarrow> check (cs[i := c]) h = check cs h"
  by (auto simp: check_handle Let_def nth_list_update)

lemma check_update:
  "length cs = cap \<Longrightarrow> check cs h = Some (i, c) \<Longrightarrow>
   check (cs[i := c']) h = (if used c' then Some (i, c') else None)"
  by (auto simp: check_Some) (simp add: check_handle)

text \<open>Writing an unused record over an unused one changes no handle.\<close>

lemma check_unused_update:
  assumes "length cs = cap" and "find cs \<noteq> 0" and "\<not> used c"
  shows "check (cs[find cs - 1 := c]) h = check cs h"
proof -
  obtain k where k: "find cs = Suc k" "k < cap" "\<not> used (cs ! k)" using assms(1,2) by (rule find_Suc)
  then show ?thesis
    using assms by (cases "nat (sint h - 1) = k") (auto simp: check_handle Let_def)
qed

lemma check_inj:
  "length cs = cap \<Longrightarrow> check cs h = Some (i, c) \<Longrightarrow> check cs h' = Some (i, c') \<Longrightarrow> h' = h"
  by (auto simp: check_Some) (metis scast_eq scast_id)

end

end
