(* ===== verification/BcapHandles.thy ===== *)
theory BcapHandles
  imports BcapClient Handles
begin

text \<open>
  The table of the client: what opening, closing and setting do to the handles, and the
  invariant every sequence of calls keeps. The table is an instance of \<open>handle_table\<close>.
\<close>

section \<open>The table\<close>

definition used_conn :: "conn_bcap_client \<Rightarrow> bool" where
  "used_conn c \<longleftrightarrow> sock (device c) \<noteq> 0"

lemma find_from_0: "find_from cs i = 0 \<longleftrightarrow> list_all used_conn cs"
  by (induction cs arbitrary: i) (auto simp: used_conn_def)

lemma find_from_slot:
  "find_from cs i \<noteq> 0 \<Longrightarrow> i < find_from cs i \<and> find_from cs i - 1 < i + length cs \<and>
     \<not> used_conn (cs ! (find_from cs i - 1 - i))"
proof (induction cs arbitrary: i)
  case (Cons c cs)
  show ?case
  proof (cases "sock (device c) = 0")
    case False
    with Cons.prems have rest: "Suc i < find_from cs (Suc i) \<and> find_from cs (Suc i) - 1 < Suc i + length cs \<and>
        \<not> used_conn (cs ! (find_from cs (Suc i) - 1 - Suc i))"
      using Cons.IH [of "Suc i"] by simp
    then have "find_from cs (Suc i) - 1 - i = Suc (find_from cs (Suc i) - 1 - Suc i)" by (simp add: Suc_diff_Suc)
    with rest False show ?thesis by simp
  qed (simp add: used_conn_def)
qed simp

interpretation conns: handle_table used_conn "{..<BCAP_CONN_MAX}" BCAP_CONN_MAX find_open_address check_address
proof unfold_locales
  show "find_open_address cs = 0 \<longleftrightarrow> (\<forall>i\<in>{..<20}. used_conn (cs ! i))" if "length cs = 20" for cs
    using that by (auto simp: find_open_address_def find_from_0 list_all_length)
  show "find_open_address cs - 1 \<in> {..<20} \<and> \<not> used_conn (cs ! (find_open_address cs - 1))"
    if "length cs = 20" "find_open_address cs \<noteq> 0" for cs
    using that find_from_slot [of cs 0] by (auto simp: find_open_address_def)
  show "check_address cs h = (let i = sint h - 1 in
      if 0 \<le> i \<and> i < int 20 \<and> used_conn (cs ! nat i) then Some (nat i, cs ! nat i) else None)"
    if "length cs = 20" for cs h
    using that by (auto simp: check_address_def used_conn_def Let_def)
qed simp_all

section \<open>The invariant\<close>

text \<open>The function pointers and the argument of a device, by its type.\<close>

definition device_ok :: "conn_param_common \<Rightarrow> bool" where
  "device_ok d \<longleftrightarrow>
     conn_type d = CONN_TCP \<and> arg d = None \<and> dn_open d = Some F_tcp_open_client \<and> dn_close d = Some F_tcp_close \<and>
       dn_send d = Some F_tcp_send \<and> dn_recv d = Some F_tcp_recv \<and> dn_set_timeout d = Some F_tcp_set_timeout \<or>
     conn_type d = CONN_UDP \<and> arg d \<noteq> None \<and> dn_open d = Some F_udp_open \<and> dn_close d = Some F_udp_close \<and>
       dn_send d = Some F_udp_send \<and> dn_recv d = Some F_udp_recv \<and> dn_set_timeout d = Some F_udp_set_timeout \<or>
     conn_type d = CONN_COM \<and> arg d = None \<and> dn_open d = Some F_com_open \<and> dn_close d = Some F_com_close \<and>
       dn_send d = Some F_com_send \<and> dn_recv d = Some F_com_recv \<and> dn_set_timeout d = Some F_com_set_timeout"

definition conn_ok :: "conn_bcap_client \<Rightarrow> bool" where
  "conn_ok c \<longleftrightarrow>
     (if used_conn c
      then device_ok (device c) \<and> conn_serial c \<noteq> 0 \<and> RETRY_MIN \<le> retry c \<and> retry c \<le> RETRY_MAX \<and>
           (conn_type (device c) = CONN_TCP \<longrightarrow> retry c = 1)
      else arg (device c) = None)"

definition client_ok :: "'w client \<Rightarrow> bool" where
  "client_ok st \<longleftrightarrow> length (conns st) = BCAP_CONN_MAX \<and> list_all conn_ok (conns st)"

text \<open>Opening a device successfully gives a descriptor that is not 0, the mark of a free slot.\<close>

definition opens_ok :: "'w cenv \<Rightarrow> bool" where
  "opens_ok env \<longleftrightarrow> (\<forall>f par t w. case env_open env f par t w of (hr, s, w') \<Rightarrow> SUCCEEDED hr \<longrightarrow> s \<noteq> 0)"

lemma conn_ok_zero [simp]: "conn_ok zero_conn" "\<not> used_conn zero_conn"
  by (simp_all add: conn_ok_def used_conn_def zero_conn_def zero_device_def)

lemma client_ok_update:
  "client_ok st \<Longrightarrow> conn_ok c \<Longrightarrow> client_ok (st\<lparr>conns := (conns st)[i := c]\<rparr>)"
  by (auto simp: client_ok_def list_all_length) (metis nth_list_update_eq nth_list_update_neq)

lemma client_ok_world [simp]:
  "client_ok (st\<lparr>cworld := w\<rparr>) \<longleftrightarrow> client_ok st"
  "client_ok (st\<lparr>tcp_conn_timeout := t\<rparr>) \<longleftrightarrow> client_ok st"
  "client_ok (st\<lparr>cworld := w, conns := cs\<rparr>) \<longleftrightarrow> client_ok (st\<lparr>conns := cs\<rparr>)"
  by (simp_all add: client_ok_def)

lemma check_address_ok: "client_ok st \<Longrightarrow> check_address (conns st) h = Some (i, c) \<Longrightarrow> conn_ok c \<and> used_conn c"
  by (auto simp: client_ok_def conns.check_Some list_all_length)

lemma next_serial_nonzero: "next_serial s \<noteq> 0"
  by (simp add: next_serial_def)

lemma one_le_word [simp]: "(1 :: u32) \<le> r \<longleftrightarrow> r \<noteq> 0"
  by (simp add: word_le_nat_alt Suc_le_eq unat_gt_0)

lemma clamp_retry_cases:
  "clamp_retry t n = Some r \<Longrightarrow> RETRY_MIN \<le> r \<and> r \<le> RETRY_MAX \<and> (t = CONN_TCP \<longrightarrow> r = 1)"
  by (auto simp: clamp_retry_def not_less split: if_splits)

section \<open>Receiving does not change the connection\<close>

text \<open>A client compares the sender of a datagram and never adopts it.\<close>

lemma dev_read_rdev: "dev_read io n a st = (out, st') \<Longrightarrow> rdev st' = rdev st"
  by (auto simp: dev_read_def Let_def split: prod.splits)

lemma dev_skip_rdev [simp]: "rdev (dev_skip io n st) = rdev st"
  using dev_read_rdev [of io "of_nat n" ArgNull st] by (auto simp: dev_skip_def) (metis prod.collapse)

lemma align_header_rdev: "align_header io buf st = (buf', st') \<Longrightarrow> rdev st' = rdev st"
  by (auto simp: align_header_def Let_def split: if_splits)

lemma check_sender_rdev: "check_sender True out st = (hr, st') \<Longrightarrow> rdev st' = rdev st"
  by (auto simp: check_sender_def Let_def split: if_splits)

lemma find_header_rdev:
  assumes "find_header io client parg buf st = Some y" and "client"
  shows "rdev (snd (snd y)) = rdev st"
proof -
  have "client \<longrightarrow> rdev (snd (snd y)) = rdev st"
    using assms(1)
    apply (rule find_header.raw_induct [where P = "\<lambda>io client parg buf st y. client \<longrightarrow> rdev (snd (snd y)) = rdev st", rotated])
    subgoal premises prems for fh io client parg buf st y
    proof
      assume c: client
      obtain buf1 st1 where b: "align_header io buf st = (buf1, st1)" by fastforce
      define buf2 where "buf2 = (if conn_type (rdev st1) = CONN_TCP then [] else buf1)"
      obtain out st2 where o: "dev_read io (503 - of_nat (length buf2)) parg st1 = (out, st2)" by fastforce
      obtain hr st3 where h: "check_sender client out st2 = (hr, st3)" by fastforce
      have hc: "check_sender True out st2 = (hr, st3)" using h c by simp
      have dev: "rdev st1 = rdev st" "rdev st3 = rdev st"
        using align_header_rdev [OF b] dev_read_rdev [OF o] check_sender_rdev [OF hc] by simp_all
      have step: "(if 5 \<le> length buf1 then Some (S_OK, buf1, st1)
          else if FAILED hr then Some (hr, buf2, st3)
          else case recved (503 - length buf2) out of
              None \<Rightarrow> None
            | Some bs \<Rightarrow> fh io client parg (buf2 @ bs) st3) = Some y"
        using prems(2) unfolding Let_def b prod.case buf2_def [symmetric] o h .
      then consider "y = (S_OK, buf1, st1)" | "y = (hr, buf2, st3)"
        | bs where "fh io client parg (buf2 @ bs) st3 = Some y"
        by (cases "5 \<le> length buf1"; cases "FAILED hr"; cases "recved (503 - length buf2) out") simp_all
      then show "rdev (snd (snd y)) = rdev st"
      proof cases
        case (3 bs)
        then show ?thesis using prems(1) [OF 3] c dev by simp
      qed (use dev in simp_all)
    qed
    done
  with assms(2) show ?thesis by blast
qed

lemma recv_rest_rdev:
  assumes "recv_rest io parg len_recv buf n st = Some y"
  shows "rdev (snd (snd y)) = rdev st"
  using assms
  apply (rule recv_rest.raw_induct [where P = "\<lambda>io parg len_recv buf n st y. rdev (snd (snd y)) = rdev st", rotated])
  subgoal premises prems for rr io parg len_recv buf n st y
  proof -
    obtain out st1 where o: "dev_read io (len_recv - n) parg st = (out, st1)" by fastforce
    obtain hr st2 where h: "check_sender True out st1 = (hr, st2)" by fastforce
    have dev: "rdev st2 = rdev st"
      using dev_read_rdev [OF o] check_sender_rdev [OF h] by simp
    consider "y = (S_OK, buf, st)" | "y = (hr, buf, st2)"
      | buf' where "rr io parg len_recv buf' (n + of_nat (length (r_data out))) st2 = Some y"
    proof -
      have step: "(if len_recv \<le> n then Some (S_OK, buf, st)
          else if FAILED hr then Some (hr, buf, st2)
          else case Option.bind (recved (unat (len_recv - n)) out) (store buf (unat n)) of
              None \<Rightarrow> None
            | Some buf' \<Rightarrow> rr io parg len_recv buf' (n + of_nat (length (r_data out))) st2) = Some y"
        using prems(2) unfolding Let_def o prod.case h .
      then show thesis
        using that
        by (cases "len_recv \<le> n"; cases "FAILED hr"; cases "Option.bind (recved (unat (len_recv - n)) out) (store buf (unat n))")
          simp_all
    qed
    then show "rdev (snd (snd y)) = rdev st"
    proof cases
      case (3 buf')
      then show ?thesis using prems(1) [OF 3] dev by simp
    qed (use dev in simp_all)
  qed
  done

lemma start_packet_rdev: "start_packet io fresh len_recv buf st = Some (mem, n, st') \<Longrightarrow> rdev st' = rdev st"
  by (auto simp: start_packet_def Let_def split: if_splits option.splits prod.splits dest: dev_read_rdev)

lemma recv_packet_rdev:
  assumes "recv_packet io mok junk fresh client lim q st = Some y" and "client"
  shows "rdev (snd (snd y)) = rdev st"
proof -
  have "client \<longrightarrow> rdev (snd (snd y)) = rdev st"
    using assms(1)
    apply (rule recv_packet.raw_induct [where P = "\<lambda>io mok junk fresh client lim q st y. client \<longrightarrow> rdev (snd (snd y)) = rdev st", rotated])
    subgoal premises prems for rp io mok junk fresh client lim q st y
    proof
      assume c: client
      obtain len_min len_max parg where lim: "lim = (len_min, len_max, parg)" by (cases lim) auto
      obtain hr buf st1 where f: "find_header io client parg [] st = Some (hr, buf, st1)"
        using prems(2) lim by (auto split: option.splits)
      have d1: "rdev st1 = rdev st" using find_header_rdev [OF f c] by simp
      let ?n = "le_word (take 4 (drop 1 buf)) :: u32"
      consider "snd (snd y) = st1"
        | "rp io mok junk fresh client lim q (dev_skip io 1 st1) = Some y"
        | mem n st2 hr2 mem' st3 where "start_packet io fresh ?n buf st1 = Some (mem, n, st2)"
            "recv_rest io (second_arg parg) ?n mem n st2 = Some (hr2, mem', st3)"
            "snd (snd y) = st3 \<or> (\<exists>q'. rp io mok junk fresh client lim q' st3 = Some y)"
      proof (cases "Option.bind (start_packet io fresh ?n buf st1) (\<lambda>(mem, n, st2). recv_rest io (second_arg parg) ?n mem n st2)")
        case None
        then show thesis
          using prems(2) that(1,2) unfolding lim f Let_def prod.case option.case
          by (simp split: if_splits) auto
      next
        case (Some z)
        obtain hr2 mem' st3 where z: "z = (hr2, mem', st3)" by (cases z) auto
        from Some obtain mem n st2 where s: "start_packet io fresh ?n buf st1 = Some (mem, n, st2)"
          "recv_rest io (second_arg parg) ?n mem n st2 = Some (hr2, mem', st3)"
          by (auto simp: bind_eq_Some_conv z)
        show thesis
          using prems(2) that(1,2) that(3) [OF s] unfolding lim f Let_def prod.case option.case Some z
          by (simp split: if_splits option.splits prod.splits) auto
      qed
      then show "rdev (snd (snd y)) = rdev st"
      proof cases
        case 1
        then show ?thesis using d1 by simp
      next
        case 2
        then show ?thesis using prems(1) [OF 2] c d1 by simp
      next
        case (3 mem n st2 hr2 mem' st3)
        have d3: "rdev st3 = rdev st"
          using start_packet_rdev [OF 3(1)] recv_rest_rdev [OF 3(2)] d1 by simp
        from 3(3) show ?thesis
        proof
          assume "\<exists>q'. rp io mok junk fresh client lim q' st3 = Some y"
          then obtain q' where "rp io mok junk fresh client lim q' st3 = Some y" ..
          from prems(1) [OF this] show ?thesis using c d3 by simp
        qed (use d3 in simp)
      qed
    qed
    done
  with assms(2) show ?thesis by blast
qed

lemma bcap_recv_rdev:
  assumes "bcap_recv io mok junk fresh (Some d) (Some q) True w = Some (hr, q', d', w')"
  shows "d' = Some d"
proof -
  obtain lim y where "recv_packet io mok junk fresh True lim q \<lparr>rdev = d, rflag = False, rworld = w\<rparr> = Some y"
    "d' = Some (rdev (snd (snd y)))" if "d' \<noteq> Some d"
    using assms by (auto simp: bcap_recv_def Let_def split: if_splits sum.splits)
  then show ?thesis using recv_packet_rdev by fastforce
qed

lemma recv_reply_rdev:
  assumes "recv_reply env snt d q w = Some y"
  shows "fst (snd (snd y)) = d"
  using assms
  apply (rule recv_reply.raw_induct [where P = "\<lambda>env snt d q w y. fst (snd (snd y)) = d", rotated])
  subgoal premises prems for rr env snt d q w y
  proof -
    obtain hr q' d' w' where b: "bcap_recv (env_io env) (env_mok env) (env_junk env) (env_fresh env) (Some d)
        (Some (q\<lparr>argc := 1\<rparr>)) True w = Some (hr, Some q', Some d', w')"
      using prems(2) by (auto split: option.splits)
    have d': "d' = d" using bcap_recv_rdev [OF b] by simp
    consider "fst (snd (snd y)) = d'" | "rr env snt d' q' w' = Some y"
      using prems(2) b by (auto split: if_splits)
    then show ?thesis
      using d' prems(1) [of env snt d' q' w' y] by cases simp_all
  qed
  done

section \<open>The operations keep the invariant\<close>

lemma try_send_conn:
  "try_send env n hr p c q w = Some (hr', c', q', w') \<Longrightarrow>
   device c' = device c \<and> retry c' = retry c \<and> (conn_serial c \<noteq> 0 \<longrightarrow> conn_serial c' \<noteq> 0)"
proof (induction n arbitrary: hr p c q w)
  case 0
  then show ?case by simp
next
  case (Suc n)
  define p1 where "p1 = p\<lparr>serial := conn_serial c\<rparr>"
  define c1 where "c1 = c\<lparr>conn_serial := next_serial (conn_serial c)\<rparr>"
  have c1: "device c1 = device c" "retry c1 = retry c" "conn_serial c1 \<noteq> 0"
    by (simp_all add: c1_def next_serial_nonzero)
  obtain hr1 w1 where s: "bcap_send (env_io env) (env_mok env) (Some (device c1)) (Some p1) w = Some (hr1, w1)"
    using Suc.prems by (auto simp: Let_def p1_def c1_def split: option.splits)
  note step = Suc.prems [unfolded try_send.simps Let_def, folded p1_def c1_def, unfolded s option.case prod.case]
  show ?case
  proof (cases "FAILED hr1")
    case True
    then show ?thesis using step c1 by simp
  next
    case False
    with step obtain hr2 q2 d2 w2 where r: "recv_reply env (serial p1) (device c1) q w1 = Some (hr2, q2, d2, w2)"
      by (auto split: option.splits)
    have c2: "c1\<lparr>device := d2\<rparr> = c1" using recv_reply_rdev [OF r] by simp
    show ?thesis
      using step False Suc.IH [of hr2 p1 c1 q2 w2] c1 unfolding r option.case prod.case c2
      by (simp split: if_splits)
  qed
qed

lemma client_ok_send_receive:
  assumes "send_receive env h p q st = Some (hr, q', st')" and "client_ok st"
  shows "client_ok st'"
proof (cases "check_address (conns st) h")
  case None
  then show ?thesis using assms by (simp add: send_receive_def)
next
  case (Some a)
  then obtain i c where a: "check_address (conns st) h = Some (i, c)" by (cases a) auto
  obtain hr0 w where l: "env_lock env i (cworld st) = (hr0, w)" by fastforce
  show ?thesis
  proof (cases "FAILED hr0")
    case True
    then show ?thesis using assms a l by (auto simp: send_receive_def)
  next
    case False
    then obtain p1 q1 hr' c' q2 w' where
      t: "try_send env (unat (retry c)) hr0 p1 c q1 w = Some (hr', c', q2, w')"
      and st': "st' = st\<lparr>conns := (conns st)[i := c'], cworld := env_unlock env i w'\<rparr>"
      using assms(1) a l by (auto simp: send_receive_def Let_def)
    have "conn_ok c'"
      using try_send_conn [OF t] check_address_ok [OF assms(2) a] by (auto simp: conn_ok_def used_conn_def)
    then show ?thesis unfolding st' by (simp add: client_ok_update assms(2))
  qed
qed

lemma client_ok_invoke:
  assumes "invoke_function env fd fid n fmt va st = Some (hr, out, st')" and "client_ok st"
  shows "client_ok st'"
proof -
  have "st' = st \<or> (\<exists>p q hr1 q'. send_receive env fd p q st = Some (hr1, q', st'))"
    using assms(1) unfolding invoke_function_def Let_def
    by (auto split: if_splits option.splits list.splits)
  then show ?thesis using client_ok_send_receive assms(2) by blast
qed

lemma client_ok_SetTimeout:
  assumes "bCap_SetTimeout env fd tmo st = Some (hr, st')" and "client_ok st"
  shows "client_ok st'"
proof -
  have upd: "conn_ok (c\<lparr>device := (device c)\<lparr>timeout := t\<rparr>\<rparr>) = conn_ok c" for c t
    by (simp add: conn_ok_def used_conn_def device_ok_def)
  show ?thesis
    using assms check_address_ok [OF assms(2), of fd]
    by (auto simp: bCap_SetTimeout_def Let_def upd split: option.splits prod.splits if_splits intro!: client_ok_update)
qed

lemma client_ok_SetRetry:
  assumes "bCap_SetRetry env fd n st = (hr, st')" and "client_ok st"
  shows "client_ok st'"
proof -
  have upd: "conn_ok (c\<lparr>retry := r\<rparr>)" if "conn_ok c" "clamp_retry (conn_type (device c)) n = Some r" for c r
    using that clamp_retry_cases [OF that(2)] by (simp add: conn_ok_def used_conn_def)
  show ?thesis
    using assms check_address_ok [OF assms(2), of fd] upd
    by (auto simp: bCap_SetRetry_def Let_def split: option.splits prod.splits if_splits intro!: client_ok_update)
qed

lemma Close_cases:
  assumes "bCap_Close_Client env (Some h) st = Some (hr, fd, st')"
  obtains (bad) "check_address (conns st) h = None" "hr = E_HANDLE" "fd = Some h" "st' = st"
  | (closed) i c f where "check_address (conns st) h = Some (i, c)" "hr = S_OK" "fd = Some 0"
      "dn_close (device c) = Some f"
      "st' = st\<lparr>conns := (conns st)[i := zero_conn],
         cworld := env_close env f (sock (device c)) (env_release_mutex env i (cworld st))\<rparr>"
  using assms by (auto simp: bCap_Close_Client_def Let_def split: option.splits)

lemma client_ok_Close:
  assumes "bCap_Close_Client env pfd st = Some (hr, fd, st')" and "client_ok st"
  shows "client_ok st'"
proof (cases pfd)
  case None
  then show ?thesis using assms by (simp add: bCap_Close_Client_def)
next
  case (Some h)
  from assms(1) [unfolded Some] show ?thesis
    by (cases rule: Close_cases) (use assms(2) in \<open>auto intro!: client_ok_update\<close>)
qed

section \<open>Opening\<close>

declare SUCCEEDED_iff [simp]

lemma client_len: "client_ok st \<Longrightarrow> length (conns st) = 20"
  by (simp add: client_ok_def)

lemma SetTimeout_at:
  assumes "bCap_SetTimeout env h tmo st = Some (hr, st')" and "check_address (conns st) h = Some (i, c)"
    and "length (conns st) = 20"
  shows "conns st' = (conns st)[i := if SUCCEEDED hr then c\<lparr>device := (device c)\<lparr>timeout := tmo\<rparr>\<rparr> else c]"
proof -
  have "conns st ! i = c" using assms(2,3) by (simp add: conns.check_Some)
  then have same: "(conns st)[i := c] = conns st" by auto
  show ?thesis
    using assms(1,2) same by (auto simp: bCap_SetTimeout_def Let_def split: option.splits prod.splits if_splits)
qed

lemma SetRetry_at:
  assumes "bCap_SetRetry env h n st = (hr, st')" and "check_address (conns st) h = Some (i, c)"
  shows "FAILED hr \<and> conns st' = conns st \<or>
    SUCCEEDED hr \<and> (\<exists>r. clamp_retry (conn_type (device c)) n = Some r \<and> conns st' = (conns st)[i := c\<lparr>retry := r\<rparr>])"
  using assms by (auto simp: bCap_SetRetry_def Let_def split: option.splits prod.splits if_splits)

lemma close_failed_at:
  assumes "close_failed env h hr0 st = Some (hr, fd, st')" and "check_address (conns st) h = Some (i, c)"
  shows "hr = hr0" and "fd = None" and "conns st' = (conns st)[i := zero_conn]"
proof -
  obtain hr1 fd1 where c: "bCap_Close_Client env (Some h) st = Some (hr1, fd1, st')" and r: "hr = hr0" "fd = None"
    using assms(1) by (auto simp: close_failed_def)
  from r show "hr = hr0" and "fd = None" .
  from c show "conns st' = (conns st)[i := zero_conn]"
    by (cases rule: Close_cases) (use assms(2) in auto)
qed

lemma open_device_facts:
  assumes "open_device env con d0 = (hr, d, par)" and "arg d0 = None"
  shows "sock d = sock d0" and "\<not> FAILED hr \<Longrightarrow> device_ok (d\<lparr>sock := s\<rparr>) \<and> conn_type d = parse_conn_type (Some con)"
proof -
  define t where "t = parse_conn_type (Some con)"
  obtain hre eth where e: "parse_conn_param_ether (env_mok env) (env_inet_addr env) (Some con)
      \<lparr>dst_addr = env_inet_addr env ''127.0.0.1'', dst_port = htons 5007, src_addr = 0, src_port = 0\<rparr> = (hre, eth)"
    by fastforce
  obtain hrc com where c: "parse_conn_param_serial (env_mok env) (env_atof10 env) (Some con)
      \<lparr>com_port = 1, baud_rate = 38400, parity = 0, data_bits = 8, stop_bits = 0, flow = 0\<rparr> = (hrc, com)"
    by fastforce
  note o = assms(1) [unfolded open_device_def Let_def e c prod.case t_def [symmetric]]
  consider (tcp) "t = CONN_TCP" | (udp) "t = CONN_UDP" | (com) "t = CONN_COM"
    | (other) "t \<noteq> CONN_TCP" "t \<noteq> CONN_UDP" "t \<noteq> CONN_COM" by blast
  then have "sock d = sock d0 \<and> (\<not> FAILED hr \<longrightarrow> device_ok (d\<lparr>sock := s\<rparr>) \<and> conn_type d = t)"
  proof cases
    case tcp
    show ?thesis using o unfolding tcp by (clarsimp simp: device_ok_def)
  next
    case udp
    show ?thesis using o unfolding udp by (clarsimp simp: device_ok_def split: if_splits)
  next
    case com
    show ?thesis using o assms(2) unfolding com by (clarsimp simp: device_ok_def)
  next
    case other
    show ?thesis using o by (simp add: other) clarsimp
  qed
  then show "sock d = sock d0" and "\<not> FAILED hr \<Longrightarrow> device_ok (d\<lparr>sock := s\<rparr>) \<and> conn_type d = parse_conn_type (Some con)"
    by (simp_all add: t_def)
qed

text \<open>The code from the open connection on: the two settings, then the serial number.\<close>

lemma Open_settings:
  assumes "(case bCap_SetTimeout env h tmo st of
       None \<Rightarrow> None
     | Some (hr3, st4) \<Rightarrow>
         if FAILED hr3 then close_failed env h hr3 st4
         else (case bCap_SetRetry env h n st4 of (hr4, st5) \<Rightarrow>
           if FAILED hr4 then close_failed env h hr4 st5
           else Some (S_OK, Some h, upd_conn i (\<lambda>c. c\<lparr>conn_serial := 1\<rparr>) st5))) = Some (hr, fd, st')"
    and "check_address (conns st) h = Some (i, c)" and "length (conns st) = 20" and "device_ok (device c)"
  shows "FAILED hr \<and> fd = None \<and> conns st' = (conns st)[i := zero_conn] \<or>
    hr = S_OK \<and> fd = Some h \<and> (\<exists>c'. conns st' = (conns st)[i := c'] \<and> used_conn c' \<and> conn_ok c' \<and>
      timeout (device c') = tmo \<and> conn_type (device c') = conn_type (device c) \<and>
      clamp_retry (conn_type (device c)) n = Some (retry c') \<and> conn_serial c' = 1)"
proof -
  obtain hr3 st4 where t: "bCap_SetTimeout env h tmo st = Some (hr3, st4)"
    using assms(1) by (auto split: option.splits)
  define c4 where "c4 = (if SUCCEEDED hr3 then c\<lparr>device := (device c)\<lparr>timeout := tmo\<rparr>\<rparr> else c)"
  have used: "used_conn c" and i: "i < 20" using assms(2,3) by (auto simp: conns.check_Some)
  have u4: "used_conn c4" using used by (simp add: c4_def used_conn_def)
  have s4: "conns st4 = (conns st)[i := c4]"
    using SetTimeout_at [OF t assms(2,3)] by (simp add: c4_def)
  have a4: "check_address (conns st4) h = Some (i, c4)"
    unfolding s4 using conns.check_update [OF assms(3,2)] u4 by simp
  show ?thesis
  proof (cases "FAILED hr3")
    case True
    then have "close_failed env h hr3 st4 = Some (hr, fd, st')" using assms(1) by (simp add: t)
    from close_failed_at [OF this a4] show ?thesis using True s4 by simp
  next
    case ok3: False
    obtain hr4 st5 where r: "bCap_SetRetry env h n st4 = (hr4, st5)" by fastforce
    show ?thesis
    proof (cases "FAILED hr4")
      case True
      then have s5: "conns st5 = conns st4" using SetRetry_at [OF r a4] by auto
      then have a5: "check_address (conns st5) h = Some (i, c4)" using a4 by simp
      have "close_failed env h hr4 st5 = Some (hr, fd, st')" using assms(1) ok3 True by (simp add: t r)
      from close_failed_at [OF this a5] show ?thesis using True s4 s5 by simp
    next
      case False
      then obtain k where k: "clamp_retry (conn_type (device c4)) n = Some k" "conns st5 = (conns st4)[i := c4\<lparr>retry := k\<rparr>]"
        using SetRetry_at [OF r a4] by auto
      let ?c = "c4\<lparr>retry := k, conn_serial := 1\<rparr>"
      have c4: "c4 = c\<lparr>device := (device c)\<lparr>timeout := tmo\<rparr>\<rparr>" using ok3 by (simp add: c4_def)
      have dk: "device_ok ((device c)\<lparr>timeout := tmo\<rparr>)" using assms(4) by (simp add: device_ok_def)
      have ck: "used_conn ?c" "conn_ok ?c"
        using used dk clamp_retry_cases [OF k(1)] by (auto simp: conn_ok_def used_conn_def c4)
      have "hr = S_OK" "fd = Some h" "conns st' = (conns st)[i := ?c]"
        using assms(1) ok3 False i s4 k(2) assms(3) by (auto simp: t r upd_conn_def)
      then show ?thesis using ck k(1) by (auto simp: c4)
    qed
  qed
qed

lemma Open_cases:
  assumes "bCap_Open_Client env (Some con) tmo n True st = Some (hr, fd, st')" and "client_ok st" and "opens_ok env"
  obtains
    (failed) "FAILED hr" "fd = None" "conns st' = conns st"
  | (cleared) c where "FAILED hr" "fd = None" "find_open_address (conns st) \<noteq> 0" "\<not> used_conn c" "conn_ok c"
      "conns st' = (conns st)[find_open_address (conns st) - 1 := c]"
  | (opened) c where "hr = S_OK" "fd = Some (of_nat (find_open_address (conns st)))"
      "find_open_address (conns st) \<noteq> 0" "used_conn c" "conn_ok c"
      "conns st' = (conns st)[find_open_address (conns st) - 1 := c]"
      "timeout (device c) = tmo" "conn_type (device c) = parse_conn_type (Some con)"
      "clamp_retry (conn_type (device c)) n = Some (retry c)" "conn_serial c = 1"
proof -
  define index where "index = find_open_address (conns st)"
  define i where "i = index - 1"
  define c where "c = conns st ! i"
  obtain hr0 d par where od: "open_device env con (device c) = (hr0, d, par)" by (metis prod_cases3)
  define st1 where "st1 = (if conn_type d = CONN_TCP then st\<lparr>tcp_conn_timeout := tmo\<rparr> else st)"
  have c1: "conns st1 = conns st" by (simp add: st1_def)
  note open' = assms(1) [unfolded bCap_Open_Client_def Let_def option.case index_def [symmetric] i_def [symmetric]
      c_def [symmetric] od prod.case st1_def [symmetric]]
  show thesis
  proof (cases "index = 0")
    case True
    then show thesis using open' failed by simp
  next
    case ix: False
    have len: "length (conns st) = 20" by (rule client_len [OF assms(2)])
    have i: "i < 20" "\<not> used_conn c"
      using conns.find_slot [OF len] ix by (auto simp: index_def i_def c_def)
    have c: "sock (device c) = 0" "arg (device c) = None"
      using i assms(2) by (auto simp: used_conn_def client_ok_def list_all_length conn_ok_def c_def)
    note od' = open_device_facts [OF od c(2)]
    have ix': "find_open_address (conns st) \<noteq> 0" using ix by (simp add: index_def)
    have clr: thesis if "FAILED hr" "fd = None" "\<not> used_conn x" "conn_ok x" "conns st' = (conns st)[i := x]" for x
      using cleared [OF that(1,2) ix' that(3,4)] that(5) by (simp add: i_def index_def)
    show thesis
    proof (cases "FAILED hr0")
      case True
      then show thesis using open' ix clr [of zero_conn] by (auto simp: upd_conn_def c1)
    next
      case f0: False
      obtain hr1 w1 where im: "env_init_mutex env i (cworld st1) = (hr1, w1)" by fastforce
      show thesis
      proof (cases "FAILED hr1")
        case True
        let ?c = "c\<lparr>device := d\<lparr>arg := None\<rparr>\<rparr>"
        have "\<not> used_conn ?c" "conn_ok ?c" using od'(1) c by (simp_all add: used_conn_def conn_ok_def)
        then show thesis using open' ix f0 True clr [of ?c] by (auto simp: im upd_conn_def c1 c_def)
      next
        case f1: False
        obtain f where f: "dn_open d = Some f" using open' ix f0 f1 by (auto simp: im split: option.splits)
        obtain hr2 s w2 where op: "env_open env f par (tcp_conn_timeout st1) w1 = (hr2, s, w2)" by (metis prod_cases3)
        define st2 where "st2 = st1\<lparr>tcp_conn_timeout := if f = F_tcp_open_client then 0 else tcp_conn_timeout st1\<rparr>"
        have c2: "conns st2 = conns st" by (simp add: st2_def c1)
        show thesis
        proof (cases "FAILED hr2")
          case True
          then show thesis
            using open' ix f0 f1 clr [of zero_conn] by (auto simp: im f op upd_conn_def st2_def c1)
        next
          case f2: False
          have s0: "s \<noteq> 0" using assms(3) [unfolded opens_ok_def, rule_format, of f par "tcp_conn_timeout st1" w1] op f2 by auto
          define c3 where "c3 = c\<lparr>device := d\<lparr>sock := s\<rparr>\<rparr>"
          define st3 where "st3 = upd_conn i (\<lambda>c. c\<lparr>device := d\<lparr>sock := s\<rparr>\<rparr>) (st2\<lparr>cworld := w2\<rparr>)"
          have u3: "used_conn c3" using s0 by (simp add: used_conn_def c3_def)
          have c3: "conns st3 = (conns st)[i := c3]" by (simp add: st3_def upd_conn_def c2 c_def c3_def)
          have a3: "check_address (conns st3) (of_nat index) = Some (i, c3)"
            unfolding c3 i_def index_def by (rule conns.check_new [OF len ix' u3])
          have d3: "device_ok (device c3)" using od'(2) [OF f0, of s] by (simp add: c3_def)
          have l3: "length (conns st3) = 20" using len c3 by simp
          from open' ix f0 f1 f2
          have settings: "(case bCap_SetTimeout env (of_nat index) tmo st3 of
               None \<Rightarrow> None
             | Some (hr3, st4) \<Rightarrow>
                 if FAILED hr3 then close_failed env (of_nat index) hr3 st4
                 else (case bCap_SetRetry env (of_nat index) n st4 of (hr4, st5) \<Rightarrow>
                   if FAILED hr4 then close_failed env (of_nat index) hr4 st5
                   else Some (S_OK, Some (of_nat index), upd_conn i (\<lambda>c. c\<lparr>conn_serial := 1\<rparr>) st5))) = Some (hr, fd, st')"
            by (simp add: im f op st2_def [symmetric] st3_def [symmetric] del: not_None_eq)
          from Open_settings [OF settings a3 l3 d3] show thesis
          proof
            assume "FAILED hr \<and> fd = None \<and> conns st' = (conns st3)[i := zero_conn]"
            then show thesis using clr [of zero_conn] c3 by simp
          next
            assume "hr = S_OK \<and> fd = Some (of_nat index) \<and> (\<exists>c'. conns st' = (conns st3)[i := c'] \<and> used_conn c' \<and> conn_ok c' \<and>
              timeout (device c') = tmo \<and> conn_type (device c') = conn_type (device c3) \<and>
              clamp_retry (conn_type (device c3)) n = Some (retry c') \<and> conn_serial c' = 1)"
            moreover have "conn_type (device c3) = parse_conn_type (Some con)"
              using od'(2) [OF f0, of s] by (simp add: c3_def)
            ultimately show thesis
              using opened ix' c3 by (auto simp: i_def index_def)
          qed
        qed
      qed
    qed
  qed
qed

lemma client_ok_Open:
  assumes "bCap_Open_Client env con tmo n out st = Some (hr, fd, st')" and "client_ok st" and "opens_ok env"
  shows "client_ok st'"
proof (cases "con = None \<or> \<not> out")
  case True
  then show ?thesis using assms(1,2) by (auto simp: bCap_Open_Client_def split: option.splits)
next
  case False
  then obtain s where con: "con = Some s" "out = True" by auto
  have upd: "client_ok st'" if "conns st' = (conns st)[i := c]" "conn_ok c" for i c
    using client_ok_update [OF assms(2) that(2), of i] that(1) by (simp add: client_ok_def)
  from assms(1) [unfolded con] assms(2,3) show ?thesis
    by (cases rule: Open_cases) (use assms(2) upd in \<open>auto simp: client_ok_def\<close>)
qed

section \<open>Properties\<close>

text \<open>A step of the program: one call of the client's interface that returns.\<close>

inductive client_step :: "'w cenv \<Rightarrow> 'w client \<Rightarrow> 'w client \<Rightarrow> bool" for env where
  opens: "bCap_Open_Client env con tmo n out st = Some (hr, fd, st') \<Longrightarrow> client_step env st st'"
| closes: "bCap_Close_Client env pfd st = Some (hr, fd, st') \<Longrightarrow> client_step env st st'"
| sets_timeout: "bCap_SetTimeout env h tmo st = Some (hr, st') \<Longrightarrow> client_step env st st'"
| sets_retry: "bCap_SetRetry env h n st = (hr, st') \<Longrightarrow> client_step env st st'"
| calls: "invoke_function env h fid n fmt va st = Some (hr, r, st') \<Longrightarrow> client_step env st st'"

definition init_client :: "'w \<Rightarrow> 'w client" where
  "init_client w = \<lparr>conns = replicate BCAP_CONN_MAX zero_conn, tcp_conn_timeout = 0, cworld = w\<rparr>"

lemma client_ok_init: "client_ok (init_client w)"
  by (simp add: client_ok_def init_client_def list_all_length)

lemma client_ok_step: "client_step env st st' \<Longrightarrow> opens_ok env \<Longrightarrow> client_ok st \<Longrightarrow> client_ok st'"
  by (induction rule: client_step.induct)
    (auto intro: client_ok_Open client_ok_Close client_ok_SetTimeout client_ok_SetRetry client_ok_invoke)

text \<open>
  C21: in every state the client's functions can reach, the table has its
  twenty slots; a slot in use has the functions of its connection type, the address of its peer
  exactly on UDP, a serial number other than 0 and between one and seven tries (one on TCP); a
  free slot holds no address.
\<close>

theorem client_invariant:
  assumes "opens_ok env" and "(client_step env)\<^sup>*\<^sup>* (init_client w) st"
  shows "client_ok st"
  using assms(2)
  by (induction rule: rtranclp_induct) (auto intro: client_ok_init client_ok_step [OF _ assms(1)])

text \<open>
  C23: a successful \<open>bCap_Open_Client\<close> returns a handle that was not in use and
  now is, with the time-out and the number of tries asked for (within bounds) and the serial
  number 1; after a failure no handle is returned. No other handle changes.
\<close>

theorem open_new_handle:
  assumes "bCap_Open_Client env (Some con) tmo n True st = Some (hr, fd, st')"
    and "client_ok st" and "opens_ok env"
  shows "(case fd of
      None \<Rightarrow> FAILED hr \<and> check_address (conns st') = check_address (conns st)
    | Some h \<Rightarrow> hr = S_OK \<and> check_address (conns st) h = None \<and>
        (\<exists>i c. check_address (conns st') h = Some (i, c) \<and> timeout (device c) = tmo \<and>
           conn_type (device c) = parse_conn_type (Some con) \<and>
           clamp_retry (conn_type (device c)) n = Some (retry c) \<and> conn_serial c = 1) \<and>
        (\<forall>h'. h' \<noteq> h \<longrightarrow> check_address (conns st') h' = check_address (conns st) h'))"
proof -
  note len = client_len [OF assms(2)]
  from assms show ?thesis
  proof (cases rule: Open_cases)
    case failed
    then show ?thesis by simp
  next
    case (cleared c)
    then show ?thesis using conns.check_unused_update [OF len cleared(3,4)] by (simp add: fun_eq_iff)
  next
    case (opened c)
    have new: "check_address (conns st') (of_nat (find_open_address (conns st))) =
        Some (find_open_address (conns st) - 1, c)"
      unfolding opened(6) by (rule conns.check_new [OF len opened(3,4)])
    have len': "length (conns st') = 20" using len opened(6) by simp
    have "check_address (conns st') h' = check_address (conns st) h'"
      if "h' \<noteq> of_nat (find_open_address (conns st))" for h'
    proof -
      have "sint h' \<noteq> int (find_open_address (conns st) - 1) + 1"
        using that new conns.check_Some [OF len'] by (metis scast_eq scast_id)
      then show ?thesis unfolding opened(6) by (rule conns.check_other [OF len])
    qed
    then show ?thesis
      using opened new conns.find_unused [OF len opened(3)] by auto
  qed
qed

text \<open>
  \<open>bCap_Close_Client\<close> refuses a handle that is not in use and changes
  nothing; one that is in use it frees, setting the caller's variable to 0, and leaves the others.
\<close>

lemma close_frees_handle:
  assumes "bCap_Close_Client env (Some h) st = Some (hr, fd, st')" and "client_ok st"
  shows "if check_address (conns st) h = None then hr = E_HANDLE \<and> fd = Some h \<and> st' = st
    else hr = S_OK \<and> fd = Some 0 \<and> check_address (conns st') h = None \<and>
      (\<forall>h'. h' \<noteq> h \<longrightarrow> check_address (conns st') h' = check_address (conns st) h')"
  using assms(1)
proof (cases rule: Close_cases)
  case bad
  then show ?thesis by simp
next
  case (closed i c f)
  note len = client_len [OF assms(2)]
  have "check_address (conns st') h = None"
    using conns.check_update [OF len closed(1), of zero_conn] closed(5) by simp
  moreover have "check_address (conns st') h' = check_address (conns st) h'" if "h' \<noteq> h" for h'
  proof -
    have "sint h' \<noteq> int i + 1"
      using that closed(1) conns.check_Some [OF len] by (metis scast_eq scast_id)
    then show ?thesis using conns.check_other [OF len] closed(5) by simp
  qed
  ultimately show ?thesis using closed by simp
qed

text \<open>
  After a successful \<open>bCap_SetRetry\<close> the number of tries is 1 on TCP and
  otherwise the number asked for, raised to 1 or lowered to 7.
\<close>

theorem retry_clamped:
  assumes "bCap_SetRetry env h n st = (hr, st')" and "\<not> FAILED hr" and "client_ok st"
  shows "\<exists>i c. check_address (conns st) h = Some (i, c) \<and>
    bCap_GetRetry h True st' =
      (S_OK, Some (if conn_type (device c) = CONN_TCP then 1 else max 1 (min 7 n)))"
proof -
  obtain i c where a: "check_address (conns st) h = Some (i, c)"
    using assms(1,2) by (cases "check_address (conns st) h") (auto simp: bCap_SetRetry_def)
  then obtain r where r: "clamp_retry (conn_type (device c)) n = Some r" "conns st' = (conns st)[i := c\<lparr>retry := r\<rparr>]"
    using SetRetry_at [OF assms(1) a] assms(2) by auto
  have "used_conn c" using check_address_ok [OF assms(3) a] by simp
  then have "check_address (conns st') h = Some (i, c\<lparr>retry := r\<rparr>)"
    using conns.check_update [OF client_len [OF assms(3)] a, of "c\<lparr>retry := r\<rparr>"] r(2) by (simp add: used_conn_def)
  moreover have "r = (if conn_type (device c) = CONN_TCP then 1 else max 1 (min 7 n))"
    using r(1) by (auto simp: clamp_retry_def max_def min_def not_less split: if_splits)
  ultimately show ?thesis using a by (simp add: bCap_GetRetry_def)
qed

section \<open>Witnesses\<close>

text \<open>A host whose calls succeed.\<close>

definition demo_env :: "unit cenv" where
  "demo_env = \<lparr>env_io = \<lparr>dev_send = \<lambda>f s bs a w. (S_OK, w), dev_recv = \<lambda>f s n t a w. (RecvOut E_TIMEOUT None [] \<lparr>s_addr = 0, sin_port = 0\<rparr>, w)\<rparr>,
     env_lock = \<lambda>i w. (S_OK, w), env_unlock = \<lambda>i w. w, env_init_mutex = \<lambda>i w. (S_OK, w), env_release_mutex = \<lambda>i w. w,
     env_open = \<lambda>f p t w. (S_OK, 5, w), env_close = \<lambda>f s w. w, env_set_timeout = \<lambda>f s t w. (S_OK, w),
     env_mok = mem_ok, env_junk = [zero_variant], env_fresh = [],
     env_inet_addr = \<lambda>s. 0x0100007F, env_atof10 = \<lambda>s. 0\<rparr>"

definition demo_client :: "unit client" where
  "demo_client = snd (snd (the (bCap_Open_Client demo_env (Some ''udp:10.0.0.1'') 1000 9 True (init_client ()))))"

lemma demo_opens: "opens_ok demo_env"
  by (simp add: opens_ok_def demo_env_def)

lemma demo_open: "bCap_Open_Client demo_env (Some ''udp:10.0.0.1'') 1000 9 True (init_client ()) = Some (S_OK, Some 1, demo_client)"
  by code_simp

lemma demo_ok: "client_ok demo_client"
  by (rule client_ok_Open [OF demo_open client_ok_init demo_opens])

lemma client_invariant_witness: "client_ok demo_client"
  by (rule client_invariant [OF demo_opens]) (rule r_into_rtranclp, rule client_step.opens, rule demo_open)

lemma open_new_handle_witness:
  "check_address (conns (init_client ())) 1 = None \<and>
   (\<exists>i c. check_address (conns demo_client) 1 = Some (i, c) \<and> timeout (device c) = 1000 \<and> retry c = 7 \<and> conn_serial c = 1)"
proof -
  have "parse_conn_type (Some ''udp:10.0.0.1'') = CONN_UDP" by code_simp
  then show ?thesis
    using open_new_handle [OF demo_open client_ok_init demo_opens]
    by (auto simp: clamp_retry_def split: if_splits)
qed

lemma close_frees_handle_witness:
  "\<exists>st'. bCap_Close_Client demo_env (Some 1) demo_client = Some (S_OK, Some 0, st') \<and> check_address (conns st') 1 = None"
proof -
  have "fst (the (bCap_Close_Client demo_env (Some 1) demo_client)) = S_OK \<and>
      bCap_Close_Client demo_env (Some 1) demo_client \<noteq> None \<and> check_address (conns demo_client) 1 \<noteq> None"
    by code_simp
  then obtain fd st' where c: "bCap_Close_Client demo_env (Some 1) demo_client = Some (S_OK, fd, st')"
    and u: "check_address (conns demo_client) 1 \<noteq> None" by auto
  show ?thesis using close_frees_handle [OF c demo_ok] c u by (auto split: if_splits)
qed

lemma retry_clamped_witness:
  "\<exists>st'. bCap_SetRetry demo_env 1 0 demo_client = (S_OK, st') \<and> bCap_GetRetry 1 True st' = (S_OK, Some 1)"
proof -
  have "fst (bCap_SetRetry demo_env 1 0 demo_client) = S_OK" by code_simp
  then obtain st' where s: "bCap_SetRetry demo_env 1 0 demo_client = (S_OK, st')" by (metis prod.collapse)
  show ?thesis using retry_clamped [OF s _ demo_ok] s by (auto split: if_splits)
qed

end
