(* ===== verification/LinkedList.thy ===== *)
theory LinkedList
  imports Main
begin

text \<open>
  Doubly linked lists in memory. \<open>links\<close> gives the two pointers of the object at an address, the
  one back and the one forward; \<open>dll\<close> says that the objects from a pointer on are linked as a
  list of addresses. The interface of a memory whose objects are linked is the locale
  \<open>linked_memory\<close>; taking an object out of a list and putting one in front are proved in it.
  The list of created objects and the lists of connections of \<open>bcap_server.c\<close> provide it.
\<close>

type_synonym addr = nat
type_synonym links = "addr \<Rightarrow> (addr option \<times> addr option) option"

section \<open>Segments and lists\<close>

primrec dseg :: "links \<Rightarrow> addr option \<Rightarrow> addr option \<Rightarrow> addr list \<Rightarrow> addr option \<Rightarrow> addr option \<Rightarrow> bool" where
  "dseg h b c [] b' c' \<longleftrightarrow> b = b' \<and> c = c'"
| "dseg h b c (a # as) b' c' \<longleftrightarrow> c = Some a \<and> (\<exists>n. h a = Some (b, n) \<and> dseg h (Some a) n as b' c')"

definition dll :: "links \<Rightarrow> addr option \<Rightarrow> addr list \<Rightarrow> bool" where
  "dll h c as \<longleftrightarrow> distinct as \<and> (\<exists>b'. dseg h None c as b' None)"

lemma dseg_append:
  "dseg h b c (xs @ ys) b'' c'' \<longleftrightarrow> (\<exists>b' c'. dseg h b c xs b' c' \<and> dseg h b' c' ys b'' c'')"
  by (induction xs arbitrary: b c) auto

lemma dseg_outside:
  assumes "\<forall>a \<in> set as. h' a = h a"
  shows "dseg h' b c as b' c' = dseg h b c as b' c'"
  using assms by (induction as arbitrary: b c) simp_all

lemma dseg_upd [simp]: "a \<notin> set as \<Longrightarrow> dseg (h(a := x)) b c as b' c' = dseg h b c as b' c'"
  by (rule dseg_outside) auto

lemma dll_outside: "\<forall>a \<in> set as. h' a = h a \<Longrightarrow> dll h' c as = dll h c as"
  unfolding dll_def by (simp only: dseg_outside [of as h' h])

lemma dll_Nil [simp]: "dll h c [] \<longleftrightarrow> c = None"
  by (auto simp: dll_def)

lemma dll_links: "dll h c as \<Longrightarrow> a \<in> set as \<Longrightarrow> h a \<noteq> None"
proof -
  have "dseg h b c as b' c' \<Longrightarrow> a \<in> set as \<Longrightarrow> h a \<noteq> None" for b c b' c'
    by (induction as arbitrary: b c) auto
  then show "dll h c as \<Longrightarrow> a \<in> set as \<Longrightarrow> h a \<noteq> None"
    by (auto simp: dll_def)
qed

text \<open>The last object of a segment points forward, the first one back.\<close>

lemma dseg_last:
  assumes "dseg h b c xs b' c'" and "xs \<noteq> []"
  shows "b' = Some (last xs)" and "\<exists>p. h (last xs) = Some (p, c')"
  using assms by (induction xs arbitrary: b c) auto

lemma dseg_set_fwd:
  assumes "dseg h b c xs b' c'" and "xs \<noteq> []" and "distinct xs"
  shows "dseg (h(last xs := Some (fst (the (h (last xs))), n))) b c xs b' n"
  using assms by (induction xs arbitrary: b c) auto

lemma dseg_set_back:
  assumes "dseg h b c (y # ys) b' c'" and "y \<notin> set ys"
  shows "dseg (h(y := Some (p, snd (the (h y))))) p c (y # ys) b' c'"
  using assms by auto

lemma dll_split:
  assumes "dll h c (xs @ a # ys)"
  obtains p n where "h a = Some (p, n)" "dseg h None c xs p (Some a)" "\<exists>b'. dseg h (Some a) n ys b' None"
    "distinct (xs @ a # ys)" "p = (if xs = [] then None else Some (last xs))" "n = (if ys = [] then None else Some (hd ys))"
proof -
  from assms obtain p n b' where s: "h a = Some (p, n)" "dseg h None c xs p (Some a)"
    "dseg h (Some a) n ys b' None" "distinct (xs @ a # ys)"
    by (auto simp: dll_def dseg_append)
  have "p = (if xs = [] then None else Some (last xs))"
    using s(2) dseg_last(1) [OF s(2)] by (cases xs) auto
  moreover have "n = (if ys = [] then None else Some (hd ys))" using s(3) by (cases ys) auto
  ultimately show thesis using that s by blast
qed

text \<open>A list that is only followed forward: the pointers back may be anything.\<close>

primrec chain :: "links \<Rightarrow> addr option \<Rightarrow> addr list \<Rightarrow> bool" where
  "chain h c [] \<longleftrightarrow> c = None"
| "chain h c (a # as) \<longleftrightarrow> c = Some a \<and> (\<exists>p n. h a = Some (p, n) \<and> chain h n as)"

lemma chain_forward:
  "\<forall>a \<in> set as. map_option snd (h' a) = map_option snd (h a) \<Longrightarrow> chain h c as \<Longrightarrow> chain h' c as"
proof (induction as arbitrary: c)
  case (Cons a as)
  then obtain p n where n: "c = Some a" "h a = Some (p, n)" "chain h n as" by auto
  moreover have "map_option snd (h' a) = Some n" using Cons.prems(1) n(2) by simp
  then obtain p' where "h' a = Some (p', n)" by auto
  ultimately show ?case using Cons by auto
qed simp

lemma dll_head: "dll h c as \<Longrightarrow> c = (if as = [] then None else Some (hd as))"
  by (cases as) (auto simp: dll_def)

lemma dll_next:
  assumes "dll h c (xs @ a # ys)" and "h a = Some (p, n)"
  shows "n = (if ys = [] then None else Some (hd ys))"
  using assms by (auto elim: dll_split)

section \<open>Linked memory\<close>

text \<open>
  Writing one pointer of an object leaves the other pointer, every other object, and the rest of
  the memory (\<open>frame\<close>).
\<close>

locale linked_memory =
  fixes links :: "'m \<Rightarrow> links" and frame :: "'m \<Rightarrow> 'f"
    and set_back set_fwd :: "addr \<Rightarrow> addr option \<Rightarrow> 'm \<Rightarrow> 'm option"
  assumes set_back: "links m a = Some (b, f) \<Longrightarrow>
      \<exists>m'. set_back a x m = Some m' \<and> links m' = (links m)(a := Some (x, f)) \<and> frame m' = frame m"
    and set_fwd: "links m a = Some (b, f) \<Longrightarrow>
      \<exists>m'. set_fwd a x m = Some m' \<and> links m' = (links m)(a := Some (b, x)) \<and> frame m' = frame m"
begin

text \<open>A new object in front of the list whose first object is \<open>c\<close>.\<close>

lemma push_front:
  assumes "dll (links m) c as" and "a \<notin> set as" and "links m a = Some (None, c)"
  shows "\<exists>m'. (case c of None \<Rightarrow> Some m | Some y \<Rightarrow> set_back y (Some a) m) = Some m' \<and>
    dll (links m') (Some a) (a # as) \<and> frame m' = frame m \<and>
    (\<forall>x. x \<notin> set as \<longrightarrow> links m' x = links m x)"
proof (cases as)
  case Nil
  then show ?thesis using assms by (simp add: dll_def)
next
  case (Cons y ys)
  obtain n b' where y: "c = Some y" "links m y = Some (None, n)" "dseg (links m) None c as b' None" "distinct as"
    using assms(1) Cons by (auto simp: dll_def)
  obtain m' where m': "set_back y (Some a) m = Some m'" "links m' = (links m)(y := Some (Some a, n))"
      "frame m' = frame m"
    using set_back [OF y(2)] by blast
  have "y \<notin> set ys" using y(4) Cons by simp
  then have "dseg (links m') (Some a) c as b' None"
    using dseg_set_back [of "links m" None c y ys b' None "Some a"] y m'(2) by (simp add: Cons)
  then have "dll (links m') (Some a) (a # as)"
    using y(1,4) m'(2) assms(2,3) Cons by (auto simp: dll_def)
  then show ?thesis using m' y(1) Cons by auto
qed

text \<open>The two writes around an object \<open>a\<close> whose pointers were read: forward, then back.\<close>

lemma write_fwd:
  assumes "dseg (links m) None c xs p (Some a)" and "distinct xs"
  shows "\<exists>m'. (case p of None \<Rightarrow> Some m | Some l \<Rightarrow> set_fwd l n m) = Some m' \<and>
    dseg (links m') None (case p of None \<Rightarrow> n | Some l \<Rightarrow> c) xs p n \<and> frame m' = frame m \<and>
    (\<forall>x. x \<notin> set xs \<longrightarrow> links m' x = links m x)"
proof (cases "xs = []")
  case True
  then show ?thesis using assms by auto
next
  case False
  obtain b where l: "links m (last xs) = Some (b, Some a)" using dseg_last(2) [OF assms(1) False] by blast
  obtain m' where m': "set_fwd (last xs) n m = Some m'" "links m' = (links m)(last xs := Some (b, n))"
      "frame m' = frame m"
    using set_fwd [OF l] by blast
  have "p = Some (last xs)" using dseg_last(1) [OF assms(1) False] .
  moreover have "dseg (links m') None c xs (Some (last xs)) n"
    using dseg_set_fwd [OF assms(1) False assms(2), of n] l m'(2) calculation by simp
  ultimately show ?thesis using m' last_in_set [OF False] by auto
qed

lemma write_back:
  assumes "dseg (links m) (Some a) n ys b' None" and "distinct ys"
  shows "\<exists>m'. (case n of None \<Rightarrow> Some m | Some y \<Rightarrow> set_back y p m) = Some m' \<and>
    dseg (links m') p n ys (if ys = [] then p else b') None \<and> frame m' = frame m \<and>
    (\<forall>x. x \<notin> set ys \<longrightarrow> links m' x = links m x)"
proof (cases ys)
  case Nil
  then show ?thesis using assms by auto
next
  case (Cons y zs)
  then obtain f where y: "n = Some y" "links m y = Some (Some a, f)" using assms(1) by auto
  obtain m' where m': "set_back y p m = Some m'" "links m' = (links m)(y := Some (p, f))" "frame m' = frame m"
    using set_back [OF y(2)] by blast
  have "dseg (links m') p n ys b' None"
    using dseg_set_back [of "links m" "Some a" n y zs b' None p] assms y m'(2) Cons by simp
  then show ?thesis using m' y(1) Cons by auto
qed

text \<open>
  Taking \<open>a\<close> out: what it holds itself does not matter any more (\<open>m\<close> agrees with \<open>h\<close> on the
  others), and the first object of the list is the next one when \<open>a\<close> was the first.
\<close>

lemma unlink:
  assumes "dll h c (xs @ a # ys)" and "h a = Some (p, n)" and "\<forall>x \<in> set (xs @ ys). links m x = h x"
  shows "\<exists>m1 m2. (case p of None \<Rightarrow> Some m | Some l \<Rightarrow> set_fwd l n m) = Some m1 \<and>
    (case n of None \<Rightarrow> Some m1 | Some y \<Rightarrow> set_back y p m1) = Some m2 \<and>
    dll (links m2) (case p of None \<Rightarrow> n | Some l \<Rightarrow> c) (xs @ ys) \<and> frame m2 = frame m \<and>
    (\<forall>x. x \<notin> set (xs @ ys) \<longrightarrow> links m2 x = links m x)"
proof -
  from assms(1) obtain b' where s: "dseg h None c xs p (Some a)" "dseg h (Some a) n ys b' None"
    "distinct (xs @ a # ys)"
    by (rule dll_split) (use assms(2) in auto)
  have "\<forall>x \<in> set xs. links m x = h x" and ys: "\<forall>x \<in> set ys. links m x = h x" using assms(3) by auto
  then have "dseg (links m) None c xs p (Some a)" using s(1) by (simp only: dseg_outside [of xs "links m" h])
  from write_fwd [OF this, of n] s(3) obtain m1 where
    m1: "(case p of None \<Rightarrow> Some m | Some l \<Rightarrow> set_fwd l n m) = Some m1"
      "dseg (links m1) None (case p of None \<Rightarrow> n | Some l \<Rightarrow> c) xs p n" "frame m1 = frame m"
      "\<forall>x. x \<notin> set xs \<longrightarrow> links m1 x = links m x"
    by auto
  have "x \<notin> set xs" if "x \<in> set ys" for x using that s(3) by auto
  then have "\<forall>x \<in> set ys. links m1 x = h x" using m1(4) ys by simp
  then have "dseg (links m1) (Some a) n ys b' None" using s(2) by (simp only: dseg_outside [of ys "links m1" h])
  from write_back [OF this, of p] s(3) obtain m2 where
    m2: "(case n of None \<Rightarrow> Some m1 | Some y \<Rightarrow> set_back y p m1) = Some m2"
      "dseg (links m2) p n ys (if ys = [] then p else b') None" "frame m2 = frame m1"
      "\<forall>x. x \<notin> set ys \<longrightarrow> links m2 x = links m1 x"
    by auto
  have "\<forall>x \<in> set xs. links m2 x = links m1 x" using m2(4) s(3) by auto
  then have "dseg (links m2) None (case p of None \<Rightarrow> n | Some l \<Rightarrow> c) xs p n"
    using m1(2) by (simp only: dseg_outside [of xs "links m2" "links m1"])
  then have "dll (links m2) (case p of None \<Rightarrow> n | Some l \<Rightarrow> c) (xs @ ys)"
    using m2(2) s(3) by (auto simp: dll_def dseg_append)
  then show ?thesis using m1 m2 by auto
qed

end

end
