(* ===== verification/ServerMem.thy ===== *)
theory ServerMem
  imports BcapClient LinkedList "HOL-Library.Monad_Syntax"
begin

text \<open>
  The memory of the b-CAP server (\<open>bcap_core/src/bCAPServer/bcap_server.c\<close>): the connection
  objects (\<open>CONN_BCAP_SERVER\<close>) and the created objects a connection stacks (\<open>VEC_OBJECT\<close>), each at
  an address, the pointers between them included. An access to an address that holds no object
  has no defined result.

  A created object points to the next earlier one with \<open>prev\<close> and to the next later one with
  \<open>next\<close>, a child connection to the elder brother with \<open>node2\<close> and to the younger one with
  \<open>node1\<close>: both are linked memories. The thread and event fields of a connection are left out
  here; the threads are the step relation of the theory \<open>ServerThreads\<close>.
\<close>

section \<open>Objects in memory\<close>

abbreviation (input) BCAP_CLIENT_MAX :: i32 where "BCAP_CLIENT_MAX \<equiv> 20"
abbreviation (input) BCAP_OBJECT_MAX :: i32 where "BCAP_OBJECT_MAX \<equiv> 1000"

record vec_object =
  obj_id :: i32
  obj_h :: u32
  vprev :: "addr option"
  vnext :: "addr option"

record conn_bcap_server =
  sdevice :: conn_param_common
  last_send :: bcap_packet
  last_recv :: bcap_packet
  exec_timeout :: u32
  wdt_interval :: u32
  last_modified :: u32
  num_object :: i32
  stack :: "addr option"
  num_child :: i32
  relation_mutex :: bool
  parent :: "addr option"
  node1 :: "addr option"
  node2 :: "addr option"

record smem =
  nodes :: "addr \<rightharpoonup> conn_bcap_server"
  objs :: "addr \<rightharpoonup> vec_object"

text \<open>Objects after \<open>memset(..., 0, ...)\<close>.\<close>

definition zero_packet :: bcap_packet where
  "zero_packet = \<lparr>serial = 0, reserv = 0, func_id = 0, argc = 0, args = None\<rparr>"

definition zero_server :: conn_bcap_server where
  "zero_server = \<lparr>sdevice = zero_device, last_send = zero_packet, last_recv = zero_packet,
     exec_timeout = 0, wdt_interval = 0, last_modified = 0, num_object = 0, stack = None,
     num_child = 0, relation_mutex = False, parent = None, node1 = None, node2 = None\<rparr>"

section \<open>Reading and writing\<close>

definition upd_node :: "addr \<Rightarrow> (conn_bcap_server \<Rightarrow> conn_bcap_server) \<Rightarrow> smem \<Rightarrow> smem option" where
  "upd_node a f m = map_option (\<lambda>s. m\<lparr>nodes := (nodes m)(a \<mapsto> f s)\<rparr>) (nodes m a)"

definition upd_obj :: "addr \<Rightarrow> (vec_object \<Rightarrow> vec_object) \<Rightarrow> smem \<Rightarrow> smem option" where
  "upd_obj a f m = map_option (\<lambda>x. m\<lparr>objs := (objs m)(a \<mapsto> f x)\<rparr>) (objs m a)"

definition free_node :: "addr \<Rightarrow> smem \<Rightarrow> smem option" where
  "free_node a m = map_option (\<lambda>_. m\<lparr>nodes := (nodes m)(a := None)\<rparr>) (nodes m a)"

definition free_obj :: "addr \<Rightarrow> smem \<Rightarrow> smem option" where
  "free_obj a m = map_option (\<lambda>_. m\<lparr>objs := (objs m)(a := None)\<rparr>) (objs m a)"

text \<open>The object at a pointer that may be \<open>NULL\<close>: nothing is written then.\<close>

definition upd_node_ptr :: "addr option \<Rightarrow> (conn_bcap_server \<Rightarrow> conn_bcap_server) \<Rightarrow> smem \<Rightarrow> smem option" where
  "upd_node_ptr p f m = (case p of None \<Rightarrow> Some m | Some a \<Rightarrow> upd_node a f m)"

definition upd_obj_ptr :: "addr option \<Rightarrow> (vec_object \<Rightarrow> vec_object) \<Rightarrow> smem \<Rightarrow> smem option" where
  "upd_obj_ptr p f m = (case p of None \<Rightarrow> Some m | Some a \<Rightarrow> upd_obj a f m)"

lemma upd_node_at [simp]:
  "nodes m a = Some s \<Longrightarrow> upd_node a f m = Some (m\<lparr>nodes := (nodes m)(a \<mapsto> f s)\<rparr>)"
  by (simp add: upd_node_def)

lemma upd_obj_at [simp]:
  "objs m a = Some x \<Longrightarrow> upd_obj a f m = Some (m\<lparr>objs := (objs m)(a \<mapsto> f x)\<rparr>)"
  by (simp add: upd_obj_def)

lemma free_node_at [simp]:
  "nodes m a = Some s \<Longrightarrow> free_node a m = Some (m\<lparr>nodes := (nodes m)(a := None)\<rparr>)"
  by (simp add: free_node_def)

lemma free_obj_at [simp]:
  "objs m a = Some x \<Longrightarrow> free_obj a m = Some (m\<lparr>objs := (objs m)(a := None)\<rparr>)"
  by (simp add: free_obj_def)

section \<open>The two linked memories\<close>

definition olinks :: "smem \<Rightarrow> links" where
  "olinks m a = map_option (\<lambda>x. (vnext x, vprev x)) (objs m a)"

definition nlinks :: "smem \<Rightarrow> links" where
  "nlinks m a = map_option (\<lambda>s. (node1 s, node2 s)) (nodes m a)"

text \<open>What a write of a pointer of an object, or of a connection, does not touch.\<close>

definition oframe :: "smem \<Rightarrow> (addr \<rightharpoonup> conn_bcap_server) \<times> (addr \<rightharpoonup> i32 \<times> u32)" where
  "oframe m = (nodes m, \<lambda>a. map_option (\<lambda>x. (obj_id x, obj_h x)) (objs m a))"

definition nframe :: "smem \<Rightarrow> (addr \<rightharpoonup> vec_object) \<times> (addr \<rightharpoonup> conn_bcap_server)" where
  "nframe m = (objs m, \<lambda>a. map_option (\<lambda>s. s\<lparr>node1 := None, node2 := None\<rparr>) (nodes m a))"

lemma olinks_Some: "olinks m a = Some (p, n) \<longleftrightarrow> (\<exists>x. objs m a = Some x \<and> vnext x = p \<and> vprev x = n)"
  by (auto simp: olinks_def)

lemma oframe_Some: "snd (oframe m) a = Some (i, h) \<longleftrightarrow> (\<exists>x. objs m a = Some x \<and> obj_id x = i \<and> obj_h x = h)"
  by (auto simp: oframe_def)

lemma nlinks_Some: "nlinks m a = Some (p, n) \<longleftrightarrow> (\<exists>s. nodes m a = Some s \<and> node1 s = p \<and> node2 s = n)"
  by (auto simp: nlinks_def)

lemma olinks_nodes [simp]: "olinks (m\<lparr>nodes := ns\<rparr>) = olinks m"
  and oframe_nodes [simp]: "snd (oframe (m\<lparr>nodes := ns\<rparr>)) = snd (oframe m)"
  and fst_oframe [simp]: "fst (oframe m) = nodes m"
  by (simp_all add: olinks_def oframe_def fun_eq_iff)

lemma nlinks_objs [simp]: "nlinks (m\<lparr>objs := xs\<rparr>) = nlinks m"
  and nframe_objs [simp]: "snd (nframe (m\<lparr>objs := xs\<rparr>)) = snd (nframe m)"
  and fst_nframe [simp]: "fst (nframe m) = objs m"
  by (simp_all add: nlinks_def nframe_def fun_eq_iff)

lemma nodes_eqI:
  assumes "nlinks m' a = nlinks m b" and "snd (nframe m') a = snd (nframe m) b"
  shows "nodes m' a = nodes m b"
proof (cases "nodes m' a")
  case None
  then show ?thesis using assms(1) by (auto simp: nlinks_def)
next
  case (Some s)
  then obtain t where t: "nodes m b = Some t" using assms(1) by (cases "nodes m b") (auto simp: nlinks_def)
  have "node1 s = node1 t" "node2 s = node2 t" using assms(1) Some t by (simp_all add: nlinks_def)
  moreover have "s\<lparr>node1 := None, node2 := None\<rparr> = t\<lparr>node1 := None, node2 := None\<rparr>"
    using assms(2) Some t by (simp add: nframe_def)
  ultimately have "s = t" by (cases s; cases t) simp
  then show ?thesis using Some t by simp
qed

abbreviation set_vnext :: "addr \<Rightarrow> addr option \<Rightarrow> smem \<Rightarrow> smem option" where
  "set_vnext a p \<equiv> upd_obj a (\<lambda>x. x\<lparr>vnext := p\<rparr>)"

abbreviation set_vprev :: "addr \<Rightarrow> addr option \<Rightarrow> smem \<Rightarrow> smem option" where
  "set_vprev a p \<equiv> upd_obj a (\<lambda>x. x\<lparr>vprev := p\<rparr>)"

abbreviation set_node1 :: "addr \<Rightarrow> addr option \<Rightarrow> smem \<Rightarrow> smem option" where
  "set_node1 a p \<equiv> upd_node a (\<lambda>s. s\<lparr>node1 := p\<rparr>)"

abbreviation set_node2 :: "addr \<Rightarrow> addr option \<Rightarrow> smem \<Rightarrow> smem option" where
  "set_node2 a p \<equiv> upd_node a (\<lambda>s. s\<lparr>node2 := p\<rparr>)"

interpretation obj_mem: linked_memory olinks oframe set_vnext set_vprev
  by unfold_locales (auto simp: olinks_def oframe_def fun_eq_iff)

interpretation node_mem: linked_memory nlinks nframe set_node1 set_node2
  by unfold_locales (auto simp: nlinks_def nframe_def fun_eq_iff)

end
