(* ===== verification/ServerStack.thy ===== *)
theory ServerStack
  imports ServerMem
begin

text \<open>
  The stack of the objects a client has created on a connection of the server (\<open>push_vector\<close>,
  \<open>pop_vector\<close>, \<open>search_vector\<close> of \<open>bcap_server.c\<close>): a doubly linked list in memory with a
  counter. The abstract stack is the list of the pairs of function number and handle, the latest
  first; each operation implements the operation on that list, pointers and counter included.
\<close>

section \<open>The operations\<close>

definition push_vector :: "addr \<Rightarrow> addr \<Rightarrow> smem \<Rightarrow> (hresult \<times> smem) option" where
  "push_vector own pObj m = do {
     s \<leftarrow> nodes m own;
     if sint BCAP_OBJECT_MAX \<le> sint (num_object s) then Some (E_MAX_OBJECT, m)
     else do {
       m1 \<leftarrow> upd_node own (\<lambda>s. s\<lparr>stack := Some pObj\<rparr>) m;
       m2 \<leftarrow> set_vprev pObj (stack s) m1;
       m3 \<leftarrow> (case stack s of None \<Rightarrow> Some m2 | Some p \<Rightarrow> set_vnext p (Some pObj) m2);
       m4 \<leftarrow> upd_node own (\<lambda>s. s\<lparr>num_object := num_object s + 1\<rparr>) m3;
       Some (S_OK, m4)
     }
   }"

text \<open>The found object is taken out; \<open>pObj\<close> is the pointer stored in \<open>*pObj\<close>.\<close>

definition pop_at :: "addr \<Rightarrow> addr \<Rightarrow> smem \<Rightarrow> smem option" where
  "pop_at own pCur m = do {
     x \<leftarrow> objs m pCur;
     m1 \<leftarrow> upd_obj pCur (\<lambda>x. x\<lparr>vnext := None, vprev := None\<rparr>) m;
     m2 \<leftarrow> (case vnext x of
              None \<Rightarrow> upd_node own (\<lambda>s. s\<lparr>stack := vprev x\<rparr>) m1
            | Some n \<Rightarrow> set_vprev n (vprev x) m1);
     m3 \<leftarrow> (case vprev x of None \<Rightarrow> Some m2 | Some p \<Rightarrow> set_vnext p (vnext x) m2);
     upd_node own (\<lambda>s. s\<lparr>num_object := num_object s - 1\<rparr>) m3
   }"

text \<open>The loops over the stack, with the number of rounds the counter leaves.\<close>

fun pop_loop :: "addr \<Rightarrow> i32 \<Rightarrow> nat \<Rightarrow> nat \<Rightarrow> addr option \<Rightarrow> smem \<Rightarrow> (hresult \<times> addr option \<times> smem) option" where
  "pop_loop own index i (Suc k) (Some pCur) m =
     (if int i = sint index then map_option (\<lambda>m'. (S_OK, Some pCur, m')) (pop_at own pCur m)
      else do { x \<leftarrow> objs m pCur; pop_loop own index (Suc i) k (vprev x) m })"
| "pop_loop own index i _ _ m = Some (E_HANDLE, None, m)"

definition pop_vector :: "addr \<Rightarrow> i32 \<Rightarrow> smem \<Rightarrow> (hresult \<times> addr option \<times> smem) option" where
  "pop_vector own index m = do {
     s \<leftarrow> nodes m own;
     pop_loop own index 0 (nat (sint (num_object s))) (stack s) m
   }"

fun search_loop :: "i32 \<Rightarrow> u32 \<Rightarrow> nat \<Rightarrow> nat \<Rightarrow> addr option \<Rightarrow> smem \<Rightarrow> i32 option" where
  "search_loop fid h i (Suc k) (Some pCur) m = do {
     x \<leftarrow> objs m pCur;
     if obj_id x = fid \<and> obj_h x = h then Some (of_nat i) else search_loop fid h (Suc i) k (vprev x) m
   }"
| "search_loop fid h i _ _ m = Some (- 1)"

definition search_vector :: "addr \<Rightarrow> i32 \<Rightarrow> u32 \<Rightarrow> smem \<Rightarrow> i32 option" where
  "search_vector own fid h m = do {
     s \<leftarrow> nodes m own;
     search_loop fid h 0 (nat (sint (num_object s))) (stack s) m
   }"

section \<open>The abstract stack\<close>

type_synonym object_stack = "(i32 \<times> u32) list"

definition push_obj :: "i32 \<times> u32 \<Rightarrow> object_stack \<Rightarrow> object_stack option" where
  "push_obj x xs = (if length xs < 1000 then Some (x # xs) else None)"

definition remove_at :: "nat \<Rightarrow> 'a list \<Rightarrow> 'a list" where
  "remove_at i xs = take i xs @ drop (Suc i) xs"

fun first_index :: "'a \<Rightarrow> 'a list \<Rightarrow> nat option" where
  "first_index x [] = None"
| "first_index x (y # ys) = (if y = x then Some 0 else map_option Suc (first_index x ys))"

text \<open>\<open>as\<close> are the addresses of the stacked objects, \<open>xs\<close> what they hold.\<close>

definition stack_rep :: "addr \<Rightarrow> addr list \<Rightarrow> object_stack \<Rightarrow> smem \<Rightarrow> bool" where
  "stack_rep own as xs m \<longleftrightarrow>
     (\<exists>s. nodes m own = Some s \<and> num_object s = of_nat (length as) \<and> dll (olinks m) (stack s) as) \<and>
     length as \<le> 1000 \<and> map (snd (oframe m)) as = map Some xs"

lemma stack_rep_length: "stack_rep own as xs m \<Longrightarrow> length as = length xs"
  unfolding stack_rep_def by (metis length_map)

lemma num_object_sint: "n \<le> 1000 \<Longrightarrow> sint (of_nat n :: i32) = int n"
  by (simp add: signed_of_nat signed_take_bit_int_eq_self)

lemma remove_at_append: "length xs = i \<Longrightarrow> remove_at i (xs @ y # ys) = xs @ ys"
  by (simp add: remove_at_def)

lemma map_remove_at: "map f (remove_at i xs) = remove_at i (map f xs)"
  by (simp add: remove_at_def take_map drop_map)

section \<open>Pushing\<close>

lemma push_vector_ok:
  assumes rep: "stack_rep own as xs m" and a: "objs m a = Some \<lparr>obj_id = i, obj_h = h, vprev = None, vnext = None\<rparr>"
    and new: "a \<notin> set as" and room: "length xs < 1000"
  shows "\<exists>m'. push_vector own a m = Some (S_OK, m') \<and> stack_rep own (a # as) ((i, h) # xs) m'"
proof -
  obtain s where s: "nodes m own = Some s" "num_object s = of_nat (length as)" "dll (olinks m) (stack s) as"
      "length as = length xs" "map (snd (oframe m)) as = map Some xs"
    using rep stack_rep_length [OF rep] by (auto simp: stack_rep_def)
  define m2 where "m2 = m\<lparr>nodes := (nodes m)(own \<mapsto> s\<lparr>stack := Some a\<rparr>),
      objs := (objs m)(a \<mapsto> \<lparr>obj_id = i, obj_h = h, vprev = stack s, vnext = None\<rparr>)\<rparr>"
  have "olinks m2 x = olinks m x" if "x \<in> set as" for x
    using that new by (auto simp: olinks_def m2_def)
  then have "dll (olinks m2) (stack s) as" using s(3) dll_outside [of as "olinks m2" "olinks m"] by simp
  moreover have "olinks m2 a = Some (None, stack s)" by (simp add: olinks_def m2_def)
  ultimately obtain m3 where m3: "(case stack s of None \<Rightarrow> Some m2 | Some p \<Rightarrow> set_vnext p (Some a) m2) = Some m3"
      "dll (olinks m3) (Some a) (a # as)" "oframe m3 = oframe m2"
    using obj_mem.push_front [of m2 "stack s" as a] new by blast
  have n: "nodes m3 own = Some (s\<lparr>stack := Some a\<rparr>)"
    using arg_cong [OF m3(3), of fst] by (simp add: oframe_def m2_def)
  let ?m4 = "m3\<lparr>nodes := (nodes m3)(own \<mapsto> s\<lparr>stack := Some a, num_object := num_object s + 1\<rparr>)\<rparr>"
  have "push_vector own a m = Some (S_OK, ?m4)"
    using s(1,2,4) room a m3(1) n num_object_sint [of "length as"] by (simp add: push_vector_def flip: m2_def)
  moreover have "snd (oframe m3) a = Some (i, h)" by (simp add: m3(3)) (simp add: oframe_def m2_def)
  moreover have "map (snd (oframe m3)) as = map (snd (oframe m)) as"
    by (rule map_cong) (use new in \<open>auto simp: m3(3), auto simp: oframe_def m2_def\<close>)
  ultimately have "stack_rep own (a # as) ((i, h) # xs) ?m4"
    using m3(2) s(2,4,5) room unfolding stack_rep_def by simp
  then show ?thesis using \<open>push_vector own a m = _\<close> by blast
qed

lemma push_vector_full:
  assumes "stack_rep own as xs m" and "length xs = 1000"
  shows "push_vector own a m = Some (E_MAX_OBJECT, m)"
proof -
  obtain s where "nodes m own = Some s" "num_object s = 1000"
    using assms stack_rep_length [OF assms(1)] by (auto simp: stack_rep_def)
  then show ?thesis by (simp add: push_vector_def)
qed

section \<open>Popping\<close>

lemma pop_at_ok:
  assumes rep: "stack_rep own (as @ a # bs) xs m"
  shows "\<exists>m' i h. pop_at own a m = Some m' \<and> stack_rep own (as @ bs) (remove_at (length as) xs) m' \<and>
    objs m' a = Some \<lparr>obj_id = i, obj_h = h, vprev = None, vnext = None\<rparr> \<and> xs ! length as = (i, h)"
proof -
  obtain s where s: "nodes m own = Some s" "num_object s = of_nat (length (as @ a # bs))"
      "dll (olinks m) (stack s) (as @ a # bs)" "length (as @ a # bs) \<le> 1000"
      "map (snd (oframe m)) (as @ a # bs) = map Some xs"
    using rep by (auto simp: stack_rep_def)
  from s(3) obtain p n where pn: "olinks m a = Some (p, n)" "distinct (as @ a # bs)" by (rule dll_split)
  then obtain x where x: "objs m a = Some x" "vnext x = p" "vprev x = n" by (auto simp: olinks_def)
  define m1 where "m1 = m\<lparr>objs := (objs m)(a \<mapsto> x\<lparr>vnext := None, vprev := None\<rparr>)\<rparr>"
  define m1' where "m1' = (case p of None \<Rightarrow> m1\<lparr>nodes := (nodes m)(own \<mapsto> s\<lparr>stack := n\<rparr>)\<rparr> | Some _ \<Rightarrow> m1)"
  have "\<forall>y \<in> set (as @ bs). olinks m1' y = olinks m y"
    using pn(2) by (auto simp: olinks_def m1_def m1'_def split: option.splits)
  from obj_mem.unlink [OF s(3) pn(1) this] obtain m2 m3 where
    m2: "(case p of None \<Rightarrow> Some m1' | Some l \<Rightarrow> set_vprev l n m1') = Some m2" and
    m3: "(case n of None \<Rightarrow> Some m2 | Some y \<Rightarrow> set_vnext y p m2) = Some m3"
      "dll (olinks m3) (case p of None \<Rightarrow> n | Some l \<Rightarrow> stack s) (as @ bs)" "oframe m3 = oframe m1'"
      "\<forall>y. y \<notin> set (as @ bs) \<longrightarrow> olinks m3 y = olinks m1' y"
    by blast
  let ?s = "case p of None \<Rightarrow> s\<lparr>stack := n\<rparr> | Some _ \<Rightarrow> s"
  have n3: "nodes m3 own = Some ?s"
    using arg_cong [OF m3(3), of fst] s(1) by (simp add: oframe_def m1'_def m1_def split: option.splits)
  let ?m4 = "m3\<lparr>nodes := (nodes m3)(own \<mapsto> ?s\<lparr>num_object := num_object s - 1\<rparr>)\<rparr>"
  have "(case vnext x of None \<Rightarrow> upd_node own (\<lambda>s. s\<lparr>stack := vprev x\<rparr>) m1 | Some l \<Rightarrow> set_vprev l (vprev x) m1) = Some m2"
    using m2 s(1) x by (cases p) (simp_all add: m1'_def m1_def)
  moreover have "upd_obj a (\<lambda>x. x\<lparr>vnext := None, vprev := None\<rparr>) m = Some m1" using x(1) by (simp add: m1_def)
  moreover have "(case vprev x of None \<Rightarrow> Some m2 | Some y \<Rightarrow> set_vnext y (vnext x) m2) = Some m3" using m3(1) unfolding x(2,3) .
  ultimately have pop: "pop_at own a m = Some ?m4"
    using x(1) n3 unfolding pop_at_def by (cases p) simp_all
  have o3: "snd (oframe m3) = snd (oframe m)"
    using x(1) by (auto simp: m3(3)) (auto simp: oframe_def m1'_def m1_def fun_eq_iff split: option.splits)
  have "xs = map (\<lambda>a. the (snd (oframe m) a)) (as @ a # bs)"
    using arg_cong [OF s(5), of "map the"] by (simp add: comp_def)
  then have xs: "remove_at (length as) xs = map (\<lambda>a. the (snd (oframe m) a)) (as @ bs)" "xs ! length as = (obj_id x, obj_h x)"
    using x(1) by (simp_all add: remove_at_append nth_append oframe_def)
  have "olinks m3 a = Some (None, None)"
    using m3(4) pn(2) x(1) by (auto simp: olinks_def m1'_def m1_def split: option.splits)
  moreover have "snd (oframe m3) a = Some (obj_id x, obj_h x)"
    unfolding o3 using x(1) by (simp add: oframe_def)
  ultimately have o: "objs m3 a = Some \<lparr>obj_id = obj_id x, obj_h = obj_h x, vprev = None, vnext = None\<rparr>"
    by (auto simp: olinks_Some oframe_Some)
  have "map (snd (oframe m3)) (as @ bs) = map Some (remove_at (length as) xs)"
    using arg_cong [OF s(5), of "remove_at (length as)"] by (simp add: o3 map_remove_at [symmetric] remove_at_append)
  moreover have "dll (olinks m3) (stack ?s) (as @ bs)" using m3(2) by (cases p) simp_all
  ultimately have "stack_rep own (as @ bs) (remove_at (length as) xs) ?m4"
    using s(2,4) unfolding stack_rep_def by simp
  then show ?thesis
    using pop xs(2) o by auto
qed

lemma pop_loop_ok:
  "dseg (olinks m) b c as b' None \<Longrightarrow>
   pop_loop own k i (length as) c m =
     (if int i \<le> sint k \<and> sint k < int i + int (length as)
      then let a = as ! nat (sint k - int i) in map_option (\<lambda>m'. (S_OK, Some a, m')) (pop_at own a m)
      else Some (E_HANDLE, None, m))"
proof (induction as arbitrary: b c i)
  case Nil
  then show ?case by auto
next
  case (Cons a as)
  then obtain x where x: "c = Some a" "objs m a = Some x" "dseg (olinks m) (Some a) (vprev x) as b' None"
    by (auto simp: olinks_Some)
  have "nat (sint k - int i) = Suc (nat (sint k - int (Suc i)))" if "int i < sint k" using that by simp
  then show ?case using x(1,2) Cons.IH [OF x(3), of "Suc i"] by (auto simp: Let_def)
qed

lemma pop_vector_refines:
  assumes rep: "stack_rep own as xs m"
  shows "if 0 \<le> sint k \<and> sint k < int (length xs)
    then \<exists>m'. pop_vector own k m = Some (S_OK, Some (as ! nat (sint k)), m') \<and>
      stack_rep own (remove_at (nat (sint k)) as) (remove_at (nat (sint k)) xs) m' \<and>
      objs m' (as ! nat (sint k)) = Some \<lparr>obj_id = fst (xs ! nat (sint k)), obj_h = snd (xs ! nat (sint k)), vprev = None, vnext = None\<rparr>
    else pop_vector own k m = Some (E_HANDLE, None, m)"
proof -
  obtain s b' where s: "nodes m own = Some s" "num_object s = of_nat (length as)"
      "dseg (olinks m) None (stack s) as b' None" "length as \<le> 1000"
    using rep by (auto simp: stack_rep_def dll_def)
  have pop: "pop_vector own k m = pop_loop own k 0 (length as) (stack s) m"
    using s(1,2) num_object_sint [OF s(4)] by (simp add: pop_vector_def)
  show ?thesis
  proof (cases "0 \<le> sint k \<and> sint k < int (length xs)")
    case True
    define i where "i = nat (sint k)"
    have i: "i < length as" using True stack_rep_length [OF rep] by (auto simp: i_def)
    then have split: "as = take i as @ as ! i # drop (Suc i) as" "length (take i as) = i"
      by (simp_all add: id_take_nth_drop)
    from pop_at_ok [of own "take i as" "as ! i" "drop (Suc i) as" xs m] obtain m' where
      "pop_at own (as ! i) m = Some m'" "stack_rep own (remove_at i as) (remove_at i xs) m'"
      "objs m' (as ! i) = Some \<lparr>obj_id = fst (xs ! i), obj_h = snd (xs ! i), vprev = None, vnext = None\<rparr>"
      using rep split by (auto simp: remove_at_def)
    then show ?thesis
      using True pop pop_loop_ok [OF s(3), of own k 0] stack_rep_length [OF rep] by (simp add: i_def)
  next
    case False
    then show ?thesis
      using pop pop_loop_ok [OF s(3), of own k 0] stack_rep_length [OF rep] by auto
  qed
qed

section \<open>Searching\<close>

lemma search_loop_ok:
  "dseg (olinks m) b c as b' None \<Longrightarrow> map (snd (oframe m)) as = map Some xs \<Longrightarrow>
   search_loop fid h i (length as) c m =
     Some (case first_index (fid, h) xs of None \<Rightarrow> - 1 | Some j \<Rightarrow> of_nat (i + j))"
proof (induction as arbitrary: b c i xs)
  case Nil
  then show ?case by simp
next
  case (Cons a as)
  then obtain x ys where x: "c = Some a" "objs m a = Some x" "dseg (olinks m) (Some a) (vprev x) as b' None"
      "xs = (obj_id x, obj_h x) # ys" "map (snd (oframe m)) as = map Some ys"
    by (cases xs) (auto simp: olinks_Some oframe_Some)
  show ?case
    using x(1,2,4) Cons.IH [OF x(3,5), of "Suc i"] by (auto split: option.splits)
qed

lemma search_vector_refines:
  assumes "stack_rep own as xs m"
  shows "search_vector own fid h m = Some (case first_index (fid, h) xs of None \<Rightarrow> - 1 | Some j \<Rightarrow> of_nat j)"
proof -
  obtain s b' where s: "nodes m own = Some s" "num_object s = of_nat (length as)"
      "dseg (olinks m) None (stack s) as b' None" "length as \<le> 1000" "map (snd (oframe m)) as = map Some xs"
    using assms by (auto simp: stack_rep_def dll_def)
  then show ?thesis
    using search_loop_ok [OF s(3,5), of fid h 0] num_object_sint [OF s(4)]
    by (simp add: search_vector_def cong: option.case_cong)
qed

section \<open>The stack as the server uses it\<close>

lemma stack_fresh: "stack_rep own as xs m \<Longrightarrow> objs m a = None \<Longrightarrow> a \<notin> set as"
  using dll_links [of "olinks m" _ as a] by (auto simp: stack_rep_def olinks_def)

text \<open>A new object is allocated, cleared, filled and pushed.\<close>

definition new_object :: "addr \<Rightarrow> i32 \<Rightarrow> u32 \<Rightarrow> smem \<Rightarrow> smem" where
  "new_object a fid h m = m\<lparr>objs := (objs m)(a \<mapsto> \<lparr>obj_id = fid, obj_h = h, vprev = None, vnext = None\<rparr>)\<rparr>"

lemma stack_rep_cong:
  assumes "stack_rep own as xs m" and "\<forall>x \<in> set as. objs m' x = objs m x" and "nodes m' own = nodes m own"
  shows "stack_rep own as xs m'"
proof -
  have "dll (olinks m') c as = dll (olinks m) c as" and "map (snd (oframe m')) as = map (snd (oframe m)) as" for c
    using assms(2) dll_outside [of as "olinks m'" "olinks m" c] by (simp_all add: olinks_def oframe_def)
  then show ?thesis using assms(1,3) unfolding stack_rep_def by simp
qed

lemma stack_rep_new_object:
  assumes "stack_rep own as xs m" and "objs m a = None"
  shows "stack_rep own as xs (new_object a fid h m)"
  by (rule stack_rep_cong [OF assms(1)]) (use stack_fresh [OF assms] in \<open>auto simp: new_object_def\<close>)

lemma push_new_object:
  assumes rep: "stack_rep own as xs m" and new: "objs m a = None"
  shows "case push_obj (fid, h) xs of
      Some xs' \<Rightarrow> \<exists>m'. push_vector own a (new_object a fid h m) = Some (S_OK, m') \<and> stack_rep own (a # as) xs' m'
    | None \<Rightarrow> push_vector own a (new_object a fid h m) = Some (E_MAX_OBJECT, new_object a fid h m)"
proof (cases "length xs < 1000")
  case True
  have "objs (new_object a fid h m) a = Some \<lparr>obj_id = fid, obj_h = h, vprev = None, vnext = None\<rparr>"
    by (simp add: new_object_def)
  from push_vector_ok [OF stack_rep_new_object [OF rep new] this stack_fresh [OF rep new] True] True
  show ?thesis by (simp add: push_obj_def)
next
  case False
  then have "length xs = 1000" using rep stack_rep_length [OF rep] by (auto simp: stack_rep_def)
  from push_vector_full [OF stack_rep_new_object [OF rep new] this] this show ?thesis by (simp add: push_obj_def)
qed

text \<open>
  C29: what the server does when a client releases an object: the search and the pop
  remove the latest stacked object with that function number and handle, hand it out with its
  pointers cleared, and keep the order of the others; an unknown object is not found.
\<close>

lemma release_object_refines:
  assumes rep: "stack_rep own as xs m"
  shows "case first_index (fid, h) xs of
      None \<Rightarrow> search_vector own fid h m = Some (- 1)
    | Some j \<Rightarrow> search_vector own fid h m = Some (of_nat j) \<and>
        (\<exists>m'. pop_vector own (of_nat j) m = Some (S_OK, Some (as ! j), m') \<and>
          stack_rep own (remove_at j as) (remove_at j xs) m' \<and>
          objs m' (as ! j) = Some \<lparr>obj_id = fid, obj_h = h, vprev = None, vnext = None\<rparr>)"
proof -
  have idx: "j < length ys \<and> ys ! j = y" if "first_index y ys = Some j" for y :: "i32 \<times> u32" and ys j
    using that by (induction ys arbitrary: j) (auto split: if_splits)
  show ?thesis
  proof (cases "first_index (fid, h) xs")
    case None
    then show ?thesis using search_vector_refines [OF rep] by simp
  next
    case (Some j)
    have len: "length xs \<le> 1000" using rep stack_rep_length [OF rep] by (simp add: stack_rep_def)
    then have "sint (of_nat j :: i32) = int j" using idx [OF Some] num_object_sint [of j] by simp
    then show ?thesis
      using Some idx [OF Some] search_vector_refines [OF rep, of fid h] pop_vector_refines [OF rep, of "of_nat j"] by simp
  qed
qed

section \<open>A concrete stack\<close>

text \<open>Two objects on a connection at address 0: a robot created last, a controller before.\<close>

definition sample_mem :: smem where
  "sample_mem = \<lparr>nodes = [0 \<mapsto> zero_server\<lparr>num_object := 2, stack := Some 11\<rparr>],
     objs = [11 \<mapsto> \<lparr>obj_id = 84, obj_h = 7, vprev = Some 10, vnext = None\<rparr>,
             10 \<mapsto> \<lparr>obj_id = 4, obj_h = 5, vprev = None, vnext = Some 11\<rparr>]\<rparr>"

lemma sample_stack: "stack_rep 0 [11, 10] [(84, 7), (4, 5)] sample_mem"
  by (simp add: stack_rep_def sample_mem_def dll_def olinks_def oframe_def)

lemma release_object_refines_witness:
  "search_vector 0 4 5 sample_mem = Some 1 \<and>
   (\<exists>m'. pop_vector 0 1 sample_mem = Some (S_OK, Some 10, m') \<and> stack_rep 0 [11] [(84, 7)] m')"
  using release_object_refines [OF sample_stack, of 4 5] by (auto simp: remove_at_def)

end
