(* ===== verification/Events.thy ===== *)
theory Events
  imports Prelude "HOL-Library.Monad_Syntax"
begin

text \<open>
  The events and the clock of \<open>bcap_core/src/dn_thread.c\<close> and \<open>dn_thread.h\<close>, in their Linux form: a flag
  under a mutex with a condition variable, cleared by the wait it lets through unless the event is
  in manual mode. \<open>wait_event_multi\<close> starts one thread for every event it waits for; they are
  the step relation \<open>multi_step\<close>. The mutex of an event makes each operation one step.
\<close>

section \<open>The clock\<close>

text \<open>\<open>calc_time_diff\<close>: when the clock has wrapped the terms are exchanged.\<close>

definition calc_time_diff :: "u32 \<Rightarrow> u32 \<Rightarrow> u32" where
  "calc_time_diff start end = (if start \<le> end then end - start else (- 1 - end) + start)"

section \<open>Events\<close>

record event_t =
  manual :: bool
  signalled :: bool

abbreviation (input) INFINITE :: u32 where "INFINITE \<equiv> 0xFFFFFFFF"

definition create_event :: "event_t option \<Rightarrow> i32 \<Rightarrow> i32 \<Rightarrow> hresult \<times> event_t option" where
  "create_event pevt reset_mode init_signal =
     (case pevt of
        None \<Rightarrow> (E_INVALIDARG, None)
      | Some _ \<Rightarrow> (S_OK, Some \<lparr>manual = (reset_mode \<noteq> 0), signalled = (init_signal \<noteq> 0)\<rparr>))"

definition set_event :: "event_t option \<Rightarrow> hresult \<times> event_t option" where
  "set_event pevt =
     (case pevt of None \<Rightarrow> (E_INVALIDARG, None) | Some e \<Rightarrow> (S_OK, Some (e\<lparr>signalled := True\<rparr>)))"

definition reset_event :: "event_t option \<Rightarrow> hresult \<times> event_t option" where
  "reset_event pevt =
     (case pevt of None \<Rightarrow> (E_INVALIDARG, None) | Some e \<Rightarrow> (S_OK, Some (e\<lparr>signalled := False\<rparr>)))"

text \<open>
  \<open>wait_event\<close> in two parts: what it does on entry (\<open>None\<close>: it waits on the condition), and what it
  does when the wait on the condition returns, woken or timed out (\<open>ETIMEDOUT\<close>). The signal is not
  looked at again after the wait.
\<close>

definition take_signal :: "event_t \<Rightarrow> event_t" where
  "take_signal e = (if manual e then e else e\<lparr>signalled := False\<rparr>)"

definition wait_enter :: "event_t \<Rightarrow> (hresult \<times> event_t) option" where
  "wait_enter e = (if signalled e then Some (S_OK, take_signal e) else None)"

definition wait_return :: "u32 \<Rightarrow> bool \<Rightarrow> event_t \<Rightarrow> hresult \<times> event_t" where
  "wait_return tmo timed_out e =
     (if tmo = INFINITE then (S_OK, take_signal e)
      else if timed_out then (E_TIMEOUT, e) else (S_OK, take_signal e))"

section \<open>Waiting for several events\<close>

text \<open>
  A thread of \<open>wait_event_multi\<close>: at the head of its loop with the code of its last wait, past a wait
  that let it through (with its time), or ended. \<open>hr\<close> and \<open>stamp\<close> are what it reports.
\<close>

datatype waiter = Polling hresult | Passed u32 | Ended hresult u32

record multi =
  evs :: "event_t list"
  flag_all :: bool
  waiters :: "waiter list"

text \<open>The steps of thread \<open>i\<close>; \<open>clk\<close> are the times its clock may show, others may set events.\<close>

inductive multi_step :: "u32 \<Rightarrow> u32 \<Rightarrow> bool \<Rightarrow> multi \<Rightarrow> multi \<Rightarrow> bool"
  for start tmo :: u32 and wait_all :: bool where
  pass: "i < length (waiters s) \<Longrightarrow> waiters s ! i = Polling hr \<Longrightarrow> flag_all s \<Longrightarrow> wait_enter (evs s ! i) = Some (h, e) \<Longrightarrow>
    multi_step start tmo wait_all s (s\<lparr>evs := (evs s)[i := e], waiters := (waiters s)[i := Passed now]\<rparr>)"
| again: "i < length (waiters s) \<Longrightarrow> waiters s ! i = Polling hr \<Longrightarrow> flag_all s \<Longrightarrow> wait_enter (evs s ! i) = None \<Longrightarrow>
    wait_return 1 True (evs s ! i) = (h, e) \<Longrightarrow> \<not> (tmo \<noteq> INFINITE \<and> tmo \<le> calc_time_diff start now) \<Longrightarrow>
    multi_step start tmo wait_all s (s\<lparr>evs := (evs s)[i := e], waiters := (waiters s)[i := Polling h]\<rparr>)"
| expire: "i < length (waiters s) \<Longrightarrow> waiters s ! i = Polling hr \<Longrightarrow> flag_all s \<Longrightarrow> wait_enter (evs s ! i) = None \<Longrightarrow>
    wait_return 1 True (evs s ! i) = (h, e) \<Longrightarrow> tmo \<noteq> INFINITE \<Longrightarrow> tmo \<le> calc_time_diff start now \<Longrightarrow>
    multi_step start tmo wait_all s (s\<lparr>evs := (evs s)[i := e], flag_all := wait_all \<and> flag_all s,
      waiters := (waiters s)[i := Ended h 0]\<rparr>)"
| stop: "i < length (waiters s) \<Longrightarrow> waiters s ! i = Polling hr \<Longrightarrow> \<not> flag_all s \<Longrightarrow>
    multi_step start tmo wait_all s (s\<lparr>waiters := (waiters s)[i := Ended hr 0]\<rparr>)"
| leave: "i < length (waiters s) \<Longrightarrow> waiters s ! i = Passed now \<Longrightarrow>
    multi_step start tmo wait_all s (s\<lparr>flag_all := wait_all \<and> flag_all s, waiters := (waiters s)[i := Ended S_OK now]\<rparr>)"
| signal: "j < length (evs s) \<Longrightarrow> set_event (Some (evs s ! j)) = (hr, Some e) \<Longrightarrow>
    multi_step start tmo wait_all s (s\<lparr>evs := (evs s)[j := e]\<rparr>)"

definition multi_start :: "event_t list \<Rightarrow> multi" where
  "multi_start es = \<lparr>evs = es, flag_all = True, waiters = map (\<lambda>_. Polling E_TIMEOUT) es\<rparr>"

text \<open>
  The loop over the joined threads: the code, the index of the earliest that was let through and
  its distance from the start.
\<close>

fun multi_join :: "u32 \<Rightarrow> nat \<Rightarrow> waiter list \<Rightarrow> hresult \<times> u32 \<times> u32 \<Rightarrow> hresult \<times> u32 \<times> u32" where
  "multi_join base i [] acc = acc"
| "multi_join base i (w # ws) (hr, mi, ms) =
     (case w of
        Ended h stamp \<Rightarrow>
          if SUCCEEDED h then
            (let d = calc_time_diff base stamp in
             multi_join base (Suc i) ws (if d < ms then (hr, of_nat i, d) else (hr, mi, ms)))
          else multi_join base (Suc i) ws (h, mi, ms)
      | _ \<Rightarrow> multi_join base (Suc i) ws (hr, mi, ms))"

definition multi_result :: "u32 \<Rightarrow> bool \<Rightarrow> waiter list \<Rightarrow> hresult" where
  "multi_result base wait_all ws =
     (case multi_join base 0 ws (S_OK, - 1, - 1) of (hr, mi, ms) \<Rightarrow> if \<not> wait_all \<and> mi \<noteq> - 1 then mi else hr)"

abbreviation multi_run :: "u32 \<Rightarrow> u32 \<Rightarrow> bool \<Rightarrow> multi \<Rightarrow> multi \<Rightarrow> bool" where
  "multi_run start tmo wait_all \<equiv> (multi_step start tmo wait_all)\<^sup>*\<^sup>*"

definition all_ended :: "multi \<Rightarrow> bool" where
  "all_ended s \<longleftrightarrow> list_all (\<lambda>w. case w of Ended h t \<Rightarrow> True | _ \<Rightarrow> False) (waiters s)"

inductive_cases multi_stepE: "multi_step start tmo wait_all s s'"


section \<open>What is reported\<close>

definition passed_at :: "waiter \<Rightarrow> u32 option" where
  "passed_at w = (case w of Ended h t \<Rightarrow> if SUCCEEDED h then Some t else None | _ \<Rightarrow> None)"

text \<open>The search for the earliest: the accumulator is replaced by the first strictly earlier one.\<close>

lemma multi_join_index:
  assumes "multi_join base i ws (hr, mi, ms) = (hr', mi', ms')" and "i + length ws < 2 ^ 32"
  shows "ms' \<le> ms \<and> (\<forall>k<length ws. \<forall>t. passed_at (ws ! k) = Some t \<longrightarrow> ms' \<le> calc_time_diff base t) \<and>
    (ms' = ms \<and> mi' = mi \<or>
     (\<exists>k<length ws. \<exists>t. passed_at (ws ! k) = Some t \<and> mi' = of_nat (i + k) \<and> ms' = calc_time_diff base t))"
  using assms
proof (induction ws arbitrary: i hr mi ms)
  case Nil
  then show ?case by simp
next
  case (Cons w ws)
  let ?acc = "case passed_at w of None \<Rightarrow> (mi, ms) | Some t \<Rightarrow> (if calc_time_diff base t < ms then (of_nat i, calc_time_diff base t) else (mi, ms))"
  obtain h where step: "multi_join base (Suc i) ws (h, ?acc) = (hr', mi', ms')"
  proof -
    have "\<exists>h. multi_join base i (w # ws) (hr, mi, ms) = multi_join base (Suc i) ws (h, ?acc)"
    proof (cases w)
      case (Ended h t)
      then show ?thesis
        by (cases "SUCCEEDED h") (auto simp: passed_at_def Let_def simp del: SUCCEEDED_FAILED)
    qed (auto simp: passed_at_def)
    then show thesis using Cons.prems(1) that by auto
  qed
  have le: "snd ?acc \<le> ms" "\<And>t. passed_at w = Some t \<Longrightarrow> snd ?acc \<le> calc_time_diff base t"
    by (auto split: option.splits)
  have ih: "ms' \<le> snd ?acc \<and> (\<forall>k<length ws. \<forall>t. passed_at (ws ! k) = Some t \<longrightarrow> ms' \<le> calc_time_diff base t) \<and>
    (ms' = snd ?acc \<and> mi' = fst ?acc \<or>
     (\<exists>k<length ws. \<exists>t. passed_at (ws ! k) = Some t \<and> mi' = of_nat (Suc i + k) \<and> ms' = calc_time_diff base t))"
    using step Cons.prems(2) by (intro Cons.IH [of "Suc i" h "fst ?acc" "snd ?acc"]) auto
  have all: "\<forall>k<length (w # ws). \<forall>t. passed_at ((w # ws) ! k) = Some t \<longrightarrow> ms' \<le> calc_time_diff base t"
    using ih le(2) by (fastforce simp: nth_Cons split: nat.splits)
  have "ms' = ms \<and> mi' = mi \<or>
     (\<exists>k<length (w # ws). \<exists>t. passed_at ((w # ws) ! k) = Some t \<and> mi' = of_nat (i + k) \<and> ms' = calc_time_diff base t)"
    using conjunct2 [OF conjunct2 [OF ih]]
  proof (elim disjE exE conjE)
    assume a: "ms' = snd ?acc" "mi' = fst ?acc"
    show ?thesis
    proof (cases "fst ?acc = mi \<and> snd ?acc = ms")
      case False
      then obtain t where "passed_at w = Some t" "?acc = (of_nat i, calc_time_diff base t)"
        by (auto split: option.splits if_splits)
      then show ?thesis using a by (intro disjI2 exI [of _ 0]) auto
    qed (use a in simp)
  next
    fix k t assume k: "k < length ws" "passed_at (ws ! k) = Some t" "mi' = of_nat (Suc i + k)" "ms' = calc_time_diff base t"
    then show ?thesis by (intro disjI2 exI [of _ "Suc k"]) simp
  qed
  then show ?case using ih le(1) all by (auto intro: order_trans)
qed

text \<open>
  When any thread was let through, a wait for any of the events reports the index of one that was
  let through earliest.
\<close>

lemma multi_result_earliest:
  assumes "length ws < 2 ^ 32" and "k < length ws" and "passed_at (ws ! k) = Some t" and "calc_time_diff base t \<noteq> - 1"
  shows "\<exists>j<length ws. multi_result base False ws = of_nat j \<and> passed_at (ws ! j) \<noteq> None \<and>
    (\<forall>i<length ws. \<forall>u. passed_at (ws ! i) = Some u \<longrightarrow>
       calc_time_diff base (the (passed_at (ws ! j))) \<le> calc_time_diff base u)"
proof -
  obtain hr mi ms where j: "multi_join base 0 ws (S_OK, - 1, - 1) = (hr, mi, ms)" by (metis prod_cases3)
  note ix = multi_join_index [OF j]
  have "ms \<le> calc_time_diff base t" using ix assms(1-3) by auto
  then have "ms \<noteq> - 1" using assms(4) order_antisym [OF word_n1_ge] by blast
  then obtain i u where i: "i < length ws" "passed_at (ws ! i) = Some u" "mi = of_nat i" "ms = calc_time_diff base u"
    using ix assms(1) by auto
  have "mi \<noteq> - 1"
  proof
    assume "mi = - 1"
    then have "unat (of_nat i :: u32) = unat (- 1 :: u32)" using i(3) by simp
    then show False using i(1) assms(1) by (simp add: unat_of_nat unsigned_minus_1_eq_mask mask_eq_exp_minus_1)
  qed
  then show ?thesis
    using i ix assms(1) j by (intro exI [of _ i]) (auto simp: multi_result_def)
qed

text \<open>
  When two events without manual reset are set, a wait for any of them can take
  both signals and report only one: the threads take the signals one after the other before the
  first of them stops the rest. The wake-up of the second event is lost.
\<close>

lemma wait_event_multi_loses:
  "\<exists>s. multi_run start tmo False (multi_start [\<lparr>manual = False, signalled = True\<rparr>, \<lparr>manual = False, signalled = True\<rparr>]) s \<and>
     all_ended s \<and> multi_result start False (waiters s) = 0 \<and> list_all (\<lambda>e. \<not> signalled e) (evs s)"
proof -
  let ?e = "\<lparr>manual = False, signalled = True\<rparr>" and ?c = "\<lparr>manual = False, signalled = False\<rparr>"
  let ?s = "\<lambda>es f ws. \<lparr>evs = es, flag_all = f, waiters = ws\<rparr>"
  have enter: "wait_enter ?e = Some (S_OK, ?c)" by (simp add: wait_enter_def take_signal_def)
  have "multi_run start tmo False (?s [?e, ?e] True [Polling E_TIMEOUT, Polling E_TIMEOUT])
      (?s [?c, ?e] True [Passed start, Polling E_TIMEOUT])"
    using multi_step.pass [of 0 "?s [?e, ?e] True [Polling E_TIMEOUT, Polling E_TIMEOUT]"] enter
    by (intro r_into_rtranclp) simp
  also have "multi_step start tmo False (?s [?c, ?e] True [Passed start, Polling E_TIMEOUT])
      (?s [?c, ?c] True [Passed start, Passed start])"
    using multi_step.pass [of 1 "?s [?c, ?e] True [Passed start, Polling E_TIMEOUT]"] enter by simp
  also have "multi_step start tmo False (?s [?c, ?c] True [Passed start, Passed start])
      (?s [?c, ?c] False [Ended S_OK start, Passed start])"
    using multi_step.leave [of 0 "?s [?c, ?c] True [Passed start, Passed start]"] by simp
  also have "multi_step start tmo False (?s [?c, ?c] False [Ended S_OK start, Passed start])
      (?s [?c, ?c] False [Ended S_OK start, Ended S_OK start])"
    using multi_step.leave [of 1 "?s [?c, ?c] False [Ended S_OK start, Passed start]"] by simp
  finally have "multi_run start tmo False (multi_start [?e, ?e]) (?s [?c, ?c] False [Ended S_OK start, Ended S_OK start])"
    by (simp add: multi_start_def)
  then show ?thesis
    by (intro exI [of _ "?s [?c, ?c] False [Ended S_OK start, Ended S_OK start]"])
       (simp add: all_ended_def multi_result_def calc_time_diff_def Let_def)
qed

end
