(* ===== verification/ServerTree.thy ===== *)
theory ServerTree
  imports ServerMem Events
begin

text \<open>
  The connections of a server and its clients (\<open>search_node\<close>, \<open>change_relation\<close>,
  \<open>check_lifelimit\<close> of \<open>bcap_server.c\<close>). The root is the listening connection; its \<open>node1\<close> is the
  head of the list of children, one for every client, its \<open>node2\<close> the head of the list of
  children that have ended and wait to be freed. With TCP every child has its own thread and the
  lists are guarded by a mutex; with UDP there is neither.

  The abstract tree is the two lists. Adding a child, ending one, freeing the ended ones and
  ending all that have been silent for too long are shown to implement the operations on them.
\<close>

section \<open>Outside the lists\<close>

text \<open>
  Mutexes, the clock, \<open>malloc\<close> for a connection object, the drivers, the event that ends the
  main thread of a child, and the threads themselves: \<open>sv_begin a\<close> starts the receiving thread of
  the child at \<open>a\<close>, \<open>sv_end a\<close> signals its end, waits for it and destroys the event.
\<close>

record 'w senv =
  sv_lock :: "'w \<Rightarrow> hresult \<times> 'w"
  sv_unlock :: "'w \<Rightarrow> 'w"
  sv_time :: "'w \<Rightarrow> u32 \<times> 'w"
  sv_malloc :: "'w \<Rightarrow> addr option \<times> 'w"
  sv_set_timeout :: "dn_func \<Rightarrow> i32 \<Rightarrow> u32 \<Rightarrow> 'w \<Rightarrow> hresult \<times> 'w"
  sv_close :: "dn_func \<Rightarrow> i32 \<Rightarrow> 'w \<Rightarrow> 'w"
  sv_create_event :: "addr \<Rightarrow> 'w \<Rightarrow> hresult \<times> 'w"
  sv_begin :: "addr \<Rightarrow> 'w \<Rightarrow> 'w"
  sv_end :: "addr \<Rightarrow> 'w \<Rightarrow> 'w"


abbreviation (input) UDP_LIFELIMIT :: u32 where "UDP_LIFELIMIT \<equiv> 10000"

section \<open>The operations\<close>

partial_function (option) search_from :: "sockaddr_in \<Rightarrow> addr option \<Rightarrow> smem \<Rightarrow> addr option option" where
  "search_from adr tmp m =
     (case tmp of
        None \<Rightarrow> Some None
      | Some a \<Rightarrow> do {
          s \<leftarrow> nodes m a;
          x \<leftarrow> arg (sdevice s);
          if x = adr then Some (Some a) else search_from adr (node2 s) m
        })"

definition search_node :: "addr \<Rightarrow> sockaddr_in \<Rightarrow> smem \<Rightarrow> addr option option" where
  "search_node own adr m = do { s \<leftarrow> nodes m own; search_from adr (node1 s) m }"

text \<open>The new child of \<open>own\<close>, linked in front of the children.\<close>

definition new_child :: "addr \<Rightarrow> i32 \<Rightarrow> u32 \<Rightarrow> conn_bcap_server \<Rightarrow> conn_bcap_server" where
  "new_child own sk now s = zero_server\<lparr>sdevice := (sdevice s)\<lparr>sock := sk\<rparr>, exec_timeout := exec_timeout s,
     wdt_interval := wdt_interval s, last_modified := now, relation_mutex := relation_mutex s,
     parent := Some own, node2 := node1 s\<rparr>"

definition link_child :: "addr \<Rightarrow> addr \<Rightarrow> i32 \<Rightarrow> u32 \<Rightarrow> smem \<Rightarrow> smem option" where
  "link_child own node sk now m = do {
     s \<leftarrow> nodes m own;
     m1 \<leftarrow> Some (m\<lparr>nodes := (nodes m)(node \<mapsto> new_child own sk now s)\<rparr>);
     m2 \<leftarrow> upd_node own (\<lambda>s. s\<lparr>num_child := num_child s + 1, node1 := Some node\<rparr>) m1;
     (case node1 s of None \<Rightarrow> Some m2 | Some tmp \<Rightarrow> set_node1 tmp (Some node) m2)
   }"

text \<open>The thread of a TCP child: a failure closes the socket and frees the child.\<close>

definition drop_child :: "'w senv \<Rightarrow> addr \<Rightarrow> i32 \<Rightarrow> smem \<times> 'w \<Rightarrow> (smem \<times> 'w) option" where
  "drop_child env node sk = (\<lambda>(m, w). do {
     s \<leftarrow> nodes m node;
     g \<leftarrow> dn_close (sdevice s);
     map_option (\<lambda>m'. (m', sv_close env g sk w)) (free_node node m)
   })"

definition start_child :: "'w senv \<Rightarrow> addr \<Rightarrow> i32 \<Rightarrow> smem \<times> 'w \<Rightarrow> (hresult \<times> smem \<times> 'w) option" where
  "start_child env node sk = (\<lambda>(m, w). do {
     s \<leftarrow> nodes m node;
     f \<leftarrow> dn_set_timeout (sdevice s);
     case sv_set_timeout env f sk (timeout (sdevice s)) w of (hr, w1) \<Rightarrow>
       if FAILED hr then map_option (Pair hr) (drop_child env node sk (m, w1))
       else (case sv_create_event env node w1 of (hr1, w2) \<Rightarrow>
         if FAILED hr1 then map_option (Pair hr1) (drop_child env node sk (m, w2))
         else Some (hr1, m, sv_begin env node w2))
   })"

text \<open>
  A UDP child has a copy of its own of the address, which must be there; a child without a
  thread has a cleared value to send back. The two small blocks are taken to be there.
\<close>

definition init_child :: "addr \<Rightarrow> addr \<Rightarrow> smem \<Rightarrow> smem option" where
  "init_child own node m = do {
     s \<leftarrow> nodes m own;
     if conn_type (sdevice s) = CONN_UDP \<and> arg (sdevice s) = None then None
     else upd_node node (\<lambda>n. n\<lparr>last_send := (last_send n)\<lparr>args := Some [zero_variant]\<rparr>\<rparr>) m
   }"

definition add_child :: "'w senv \<Rightarrow> addr \<Rightarrow> i32 \<Rightarrow> smem \<times> 'w \<Rightarrow> (hresult \<times> smem \<times> 'w) option" where
  "add_child env own sk = (\<lambda>(m, w). do {
     s \<leftarrow> nodes m own;
     case sv_malloc env w of
       (None, w1) \<Rightarrow> Some (E_OUTOFMEMORY, m, w1)
     | (Some node, w1) \<Rightarrow> do {
         m1 \<leftarrow> link_child own node sk (fst (sv_time env w1)) m;
         if relation_mutex s then start_child env node sk (m1, snd (sv_time env w1))
         else map_option (\<lambda>m2. (S_OK, m2, snd (sv_time env w1))) (init_child own node m1)
       }
   })"

text \<open>The loop that frees the ended children: a thread is ended, or the value sent last is freed.\<close>

definition release_node :: "'w senv \<Rightarrow> addr \<Rightarrow> bool \<Rightarrow> conn_bcap_server \<Rightarrow> 'w \<Rightarrow> 'w option" where
  "release_node env a mtx s w =
     (if mtx then map_option (\<lambda>g. sv_close env g (sock (sdevice s)) (sv_end env a w)) (dn_close (sdevice s))
      else (case args (last_send s) of
         None \<Rightarrow> Some w
       | Some [v] \<Rightarrow> map_option (\<lambda>_. w) (VariantClear v)
       | _ \<Rightarrow> None))"

partial_function (option) delete_from :: "'w senv \<Rightarrow> addr \<Rightarrow> bool \<Rightarrow> addr option \<Rightarrow> smem \<times> 'w \<Rightarrow> (smem \<times> 'w) option" where
  "delete_from env own mtx node st =
     (case node of
        None \<Rightarrow> Some st
      | Some a \<Rightarrow> do {
          s \<leftarrow> nodes (fst st) a;
          w1 \<leftarrow> release_node env a mtx s (snd st);
          m1 \<leftarrow> free_node a (fst st);
          m2 \<leftarrow> upd_node own (\<lambda>s. s\<lparr>num_child := num_child s - 1\<rparr>) m1;
          delete_from env own mtx (node2 s) (m2, w1)
        })"

definition delete_children :: "'w senv \<Rightarrow> addr \<Rightarrow> smem \<times> 'w \<Rightarrow> (hresult \<times> smem \<times> 'w) option" where
  "delete_children env own st = do {
     s \<leftarrow> nodes (fst st) own;
     (m1, w1) \<leftarrow> delete_from env own (relation_mutex s) (node2 s) st;
     map_option (\<lambda>m2. (S_OK, m2, w1)) (set_node2 own None m1)
   }"

text \<open>A child leaves the children and becomes the head of the ended ones.\<close>

definition leave_children :: "addr \<Rightarrow> conn_bcap_server \<Rightarrow> smem \<Rightarrow> smem option" where
  "leave_children p s m = do {
     m1 \<leftarrow> (case node1 s of None \<Rightarrow> set_node1 p (node2 s) m | Some tmp \<Rightarrow> set_node2 tmp (node2 s) m);
     (case node2 s of None \<Rightarrow> Some m1 | Some tmp \<Rightarrow> set_node1 tmp (node1 s) m1)
   }"

definition join_ended :: "addr \<Rightarrow> addr \<Rightarrow> smem \<Rightarrow> smem option" where
  "join_ended p own m = do {
     ps \<leftarrow> nodes m p;
     m1 \<leftarrow> set_node2 p (Some own) m;
     m2 \<leftarrow> set_node2 own (node2 ps) m1;
     (case node2 ps of None \<Rightarrow> Some m2 | Some tmp \<Rightarrow> set_node1 tmp (Some own) m2)
   }"

definition destroy_child :: "addr \<Rightarrow> smem \<Rightarrow> smem option" where
  "destroy_child own m = do {
     s \<leftarrow> nodes m own;
     p \<leftarrow> parent s;
     m1 \<leftarrow> leave_children p s m;
     join_ended p own m1
   }"

text \<open>Between lock and unlock, when there is a mutex.\<close>

definition locked :: "'w senv \<Rightarrow> bool \<Rightarrow> (smem \<times> 'w \<Rightarrow> (hresult \<times> smem \<times> 'w) option) \<Rightarrow> smem \<times> 'w \<Rightarrow>
    (hresult \<times> smem \<times> 'w) option" where
  "locked env mtx f st =
     (if mtx then
        (case sv_lock env (snd st) of (hr, w) \<Rightarrow>
           if FAILED hr then Some (hr, fst st, w)
           else map_option (\<lambda>(hr', m', w'). (hr', m', sv_unlock env w')) (f (fst st, w)))
      else f st)"

text \<open>A root without a mutex ends all its children.\<close>

definition destroy_locked :: "'w senv \<Rightarrow> addr \<Rightarrow> smem \<times> 'w \<Rightarrow> (hresult \<times> smem \<times> 'w) option" where
  "destroy_locked env a st = do {
     s \<leftarrow> nodes (fst st) a;
     locked env (relation_mutex s) (\<lambda>(m, w). map_option (\<lambda>m'. (S_OK, m', w)) (destroy_child a m)) st
   }"

partial_function (option) destroy_from :: "'w senv \<Rightarrow> addr option \<Rightarrow> smem \<times> 'w \<Rightarrow> (smem \<times> 'w) option" where
  "destroy_from env node st =
     (case node of
        None \<Rightarrow> Some st
      | Some a \<Rightarrow> do {
          s \<leftarrow> nodes (fst st) a;
          (hr, st1) \<leftarrow> destroy_locked env a st;
          destroy_from env (node2 s) st1
        })"

datatype relation = ADD_CHILD i32 | DELETE_CHILD | DESTROY_SELF

definition change_relation :: "'w senv \<Rightarrow> addr \<Rightarrow> relation \<Rightarrow> smem \<times> 'w \<Rightarrow> (hresult \<times> smem \<times> 'w) option" where
  "change_relation env own mode st = do {
     s \<leftarrow> nodes (fst st) own;
     locked env (relation_mutex s) (\<lambda>st.
       (case mode of
          ADD_CHILD sk \<Rightarrow> if parent s = None then add_child env own sk st else Some (S_OK, st)
        | DELETE_CHILD \<Rightarrow> if parent s = None then delete_children env own st else Some (S_OK, st)
        | DESTROY_SELF \<Rightarrow>
            if parent s \<noteq> None then map_option (\<lambda>m'. (S_OK, m', snd st)) (destroy_child own (fst st))
            else if relation_mutex s then Some (S_OK, st)
            else do {
              st1 \<leftarrow> destroy_from env (node1 s) st;
              (hr, st2) \<leftarrow> delete_children env own st1;
              Some (S_OK, st2)
            })) st
   }"

text \<open>The children whose last exchange is too long ago.\<close>

partial_function (option) expire_from :: "'w senv \<Rightarrow> addr option \<Rightarrow> smem \<times> 'w \<Rightarrow> (smem \<times> 'w) option" where
  "expire_from env child st =
     (case child of
        None \<Rightarrow> Some st
      | Some a \<Rightarrow> do {
          s \<leftarrow> nodes (fst st) a;
          case sv_time env (snd st) of (cur, w1) \<Rightarrow>
            if UDP_LIFELIMIT < calc_time_diff (last_modified s) cur
            then do { (hr, st1) \<leftarrow> change_relation env a DESTROY_SELF (fst st, w1); expire_from env (node2 s) st1 }
            else expire_from env (node2 s) (fst st, w1)
        })"

definition check_lifelimit :: "'w senv \<Rightarrow> addr \<Rightarrow> smem \<times> 'w \<Rightarrow> (i32 \<times> smem \<times> 'w) option" where
  "check_lifelimit env own st = do {
     s \<leftarrow> nodes (fst st) own;
     st1 \<leftarrow> expire_from env (node1 s) st;
     (hr, st2) \<leftarrow> change_relation env own DELETE_CHILD st1;
     s' \<leftarrow> nodes (fst st2) own;
     Some (num_child s', st2)
   }"

section \<open>The abstract tree\<close>

text \<open>
  \<open>cs\<close> are the children, the youngest first, \<open>ds\<close> the ended ones; \<open>k\<close> is what the connections
  hold besides the two pointers.
\<close>

definition root_ok :: "bool \<Rightarrow> conn_bcap_server \<Rightarrow> bool" where
  "root_ok mtx s \<longleftrightarrow> parent s = None \<and> relation_mutex s = mtx \<and>
     (if mtx then dn_set_timeout (sdevice s) \<noteq> None \<and> dn_close (sdevice s) \<noteq> None
      else conn_type (sdevice s) = CONN_UDP \<longrightarrow> arg (sdevice s) \<noteq> None)"

definition child_ok :: "addr \<Rightarrow> bool \<Rightarrow> conn_bcap_server \<Rightarrow> bool" where
  "child_ok own mtx c \<longleftrightarrow> parent c = Some own \<and> relation_mutex c = mtx \<and>
     (if mtx then dn_close (sdevice c) \<noteq> None
      else case args (last_send c) of None \<Rightarrow> True | Some [v] \<Rightarrow> VariantClear v \<noteq> None | _ \<Rightarrow> False)"

definition tree_rep :: "addr \<Rightarrow> bool \<Rightarrow> addr list \<Rightarrow> addr list \<Rightarrow> (addr \<rightharpoonup> conn_bcap_server) \<Rightarrow> smem \<Rightarrow> bool" where
  "tree_rep own mtx cs ds k m \<longleftrightarrow>
     (\<exists>s. nodes m own = Some s \<and> root_ok mtx s \<and> num_child s = of_nat (length cs + length ds) \<and>
        dll (nlinks m) (node1 s) cs \<and> chain (nlinks m) (node2 s) ds) \<and>
     (\<forall>a \<in> set (cs @ ds). \<exists>c. k a = Some c \<and> child_ok own mtx c) \<and>
     distinct (own # cs @ ds) \<and> (\<forall>a \<in> set (cs @ ds). snd (nframe m) a = k a)"

lemma tree_repI:
  assumes "nodes m own = Some s" "root_ok mtx s" "num_child s = of_nat (length cs + length ds)"
    "dll (nlinks m) (node1 s) cs" "chain (nlinks m) (node2 s) ds"
    "\<forall>a \<in> set (cs @ ds). \<exists>c. k a = Some c \<and> child_ok own mtx c"
    "distinct (own # cs @ ds)" "\<forall>a \<in> set (cs @ ds). snd (nframe m) a = k a"
  shows "tree_rep own mtx cs ds k m"
  unfolding tree_rep_def using assms by blast

lemma child_ok_links [simp]: "child_ok own mtx (s\<lparr>node1 := x, node2 := y\<rparr>) = child_ok own mtx s"
  by (simp add: child_ok_def)

lemma nframe_Some: "snd (nframe m) a = Some c \<Longrightarrow>
    \<exists>s. nodes m a = Some s \<and> c = s\<lparr>node1 := None, node2 := None\<rparr>"
  by (auto simp: nframe_def)

lemma tree_repD:
  assumes "tree_rep own mtx cs ds k m"
  obtains s where "nodes m own = Some s" "root_ok mtx s" "num_child s = of_nat (length cs + length ds)"
    "dll (nlinks m) (node1 s) cs" "chain (nlinks m) (node2 s) ds"
    "\<forall>a \<in> set (cs @ ds). \<exists>c. k a = Some c \<and> child_ok own mtx c"
    "distinct (own # cs @ ds)" "\<forall>a \<in> set (cs @ ds). snd (nframe m) a = k a"
  using assms unfolding tree_rep_def by blast

lemma tree_child:
  assumes "tree_rep own mtx cs ds k m" and "a \<in> set (cs @ ds)"
  obtains s where "nodes m a = Some s" "child_ok own mtx s" "k a = Some (s\<lparr>node1 := None, node2 := None\<rparr>)"
proof -
  obtain c where "k a = Some c" "child_ok own mtx c" "snd (nframe m) a = Some c"
    using assms unfolding tree_rep_def by metis
  moreover from this(3) obtain s where "nodes m a = Some s" "c = s\<lparr>node1 := None, node2 := None\<rparr>"
    using nframe_Some by blast
  ultimately show thesis using that by simp
qed

section \<open>Adding a child\<close>

lemma link_child_ok:
  assumes rep: "tree_rep own mtx cs ds k m" and s: "nodes m own = Some s" and new: "nodes m a = None"
  shows "\<exists>m'. link_child own a sk now m = Some m' \<and>
    tree_rep own mtx (a # cs) ds (k(a \<mapsto> (new_child own sk now s)\<lparr>node2 := None\<rparr>)) m' \<and>
    nodes m' a = Some (new_child own sk now s)"
proof -
  obtain s' where r: "nodes m own = Some s'" "root_ok mtx s'" "num_child s' = of_nat (length cs + length ds)"
    "dll (nlinks m) (node1 s') cs" "chain (nlinks m) (node2 s') ds"
    "\<forall>a \<in> set (cs @ ds). \<exists>c. k a = Some c \<and> child_ok own mtx c"
    "distinct (own # cs @ ds)" "\<forall>a \<in> set (cs @ ds). snd (nframe m) a = k a"
    using rep by (rule tree_repD)
  have s': "s' = s" using s r(1) by simp
  have "a \<noteq> own" and "a \<notin> set (cs @ ds)"
    using s new r(6,8) nframe_Some [of m a] by fastforce+
  then have ne: "a \<noteq> own" "a \<notin> set cs" "a \<notin> set ds" "own \<notin> set cs" "own \<notin> set ds" using r(7) by auto
  let ?c = "new_child own sk now s" and ?s = "s\<lparr>num_child := num_child s + 1, node1 := Some a\<rparr>"
  define m2 where "m2 = m\<lparr>nodes := (nodes m)(a \<mapsto> ?c, own \<mapsto> ?s)\<rparr>"
  have same: "nlinks m2 x = nlinks m x" "snd (nframe m2) x = snd (nframe m) x" if "x \<noteq> a" "x \<noteq> own" for x
    using that by (simp_all add: nlinks_def nframe_def m2_def)
  have "dll (nlinks m2) (node1 s) cs" using r(4) dll_outside [of cs "nlinks m2" "nlinks m"] same ne s' by metis
  moreover have "nlinks m2 a = Some (None, node1 s)"
    using ne by (simp add: nlinks_def m2_def new_child_def zero_server_def)
  ultimately obtain m3 where m3: "(case node1 s of None \<Rightarrow> Some m2 | Some y \<Rightarrow> set_node1 y (Some a) m2) = Some m3"
      "dll (nlinks m3) (Some a) (a # cs)" "nframe m3 = nframe m2" "\<forall>x. x \<notin> set cs \<longrightarrow> nlinks m3 x = nlinks m2 x"
    using node_mem.push_front [of m2 "node1 s" cs a] ne by blast
  have "nodes m3 x = nodes m2 x" if "x \<notin> set cs" for x
    using that m3(3,4) by (auto intro: nodes_eqI)
  then have n3: "nodes m3 own = Some ?s" "nodes m3 a = Some ?c" using ne by (simp_all add: m2_def)
  have "upd_node own (\<lambda>s. s\<lparr>num_child := num_child s + 1, node1 := Some a\<rparr>) (m\<lparr>nodes := (nodes m)(a \<mapsto> ?c)\<rparr>) = Some m2"
    using s ne by (simp add: m2_def)
  then have "link_child own a sk now m = Some m3"
    using s m3(1) unfolding link_child_def by simp
  moreover have "chain (nlinks m3) (node2 s) ds"
  proof (rule chain_forward [OF _ r(5) [unfolded s']])
    have "x \<noteq> a \<and> x \<noteq> own \<and> x \<notin> set cs" if "x \<in> set ds" for x using that ne r(7) by auto
    then show "\<forall>x \<in> set ds. map_option snd (nlinks m3 x) = map_option snd (nlinks m x)"
      using m3(4) same(1) by metis
  qed
  moreover have "child_ok own mtx (?c\<lparr>node2 := None\<rparr>)"
    using r(2) s' by (auto simp: child_ok_def root_ok_def new_child_def zero_server_def zero_packet_def)
  moreover have "snd (nframe m3) a = Some (?c\<lparr>node2 := None\<rparr>)"
    using n3(2) by (simp add: nframe_def new_child_def zero_server_def)
  moreover have "x \<noteq> a \<and> x \<noteq> own" if "x \<in> set (cs @ ds)" for x using that ne by auto
  then have "\<forall>x \<in> set (cs @ ds). snd (nframe m3) x = k x" using r(8) same(2) m3(3) by metis
  moreover have "root_ok mtx ?s" using r(2) s' by (simp add: root_ok_def)
  ultimately show ?thesis
    using n3 m3(2) r(3,6,7) ne s' by (auto simp: tree_rep_def)
qed

section \<open>Ending a child\<close>

lemma leave_children_ok:
  assumes r: "nodes m own = Some r" "dll (nlinks m) (node1 r) (xs @ a # ys)" "own \<notin> set (xs @ a # ys)"
    and s: "nodes m a = Some s"
  shows "\<exists>m' c. leave_children own s m = Some m' \<and> nodes m' own = Some (r\<lparr>node1 := c\<rparr>) \<and>
    dll (nlinks m') c (xs @ ys) \<and> nframe m' = nframe m \<and>
    (\<forall>x. x \<noteq> own \<and> x \<notin> set (xs @ ys) \<longrightarrow> nodes m' x = nodes m x)"
proof -
  define p n where "p = node1 s" and "n = node2 s"
  have pn: "nlinks m a = Some (p, n)" using s by (simp add: nlinks_def p_def n_def)
  let ?c = "case p of None \<Rightarrow> n | Some l \<Rightarrow> node1 r"
  define m0 where "m0 = (case p of None \<Rightarrow> m\<lparr>nodes := (nodes m)(own \<mapsto> r\<lparr>node1 := n\<rparr>)\<rparr> | Some _ \<Rightarrow> m)"
  have m0: "nodes m0 own = Some (r\<lparr>node1 := ?c\<rparr>)" "\<And>x. x \<noteq> own \<Longrightarrow> nodes m0 x = nodes m x"
      "nframe m0 = nframe m"
    using r(1) by (simp_all add: m0_def nframe_def fun_eq_iff split: option.splits)
  have "x \<noteq> own" if "x \<in> set (xs @ ys)" for x using that r(3) by auto
  then have "\<forall>x \<in> set (xs @ ys). nlinks m0 x = nlinks m x" using m0(2) by (simp add: nlinks_def)
  from node_mem.unlink [OF r(2) pn this] obtain m1 m2 where
    m1: "(case p of None \<Rightarrow> Some m0 | Some l \<Rightarrow> set_node2 l n m0) = Some m1" and
    m2: "(case n of None \<Rightarrow> Some m1 | Some y \<Rightarrow> set_node1 y p m1) = Some m2"
      "dll (nlinks m2) ?c (xs @ ys)" "nframe m2 = nframe m0"
      "\<forall>x. x \<notin> set (xs @ ys) \<longrightarrow> nlinks m2 x = nlinks m0 x"
    by blast
  have n2: "nodes m2 x = nodes m0 x" if "x \<notin> set (xs @ ys)" for x
    using that m2(3,4) by (auto intro: nodes_eqI)
  have "(case p of None \<Rightarrow> set_node1 own n m | Some tmp \<Rightarrow> set_node2 tmp n m) = Some m1"
    using m1 r(1) by (cases p) (simp_all add: m0_def)
  then have "leave_children own s m = Some m2"
    using m2(1) unfolding leave_children_def p_def n_def by simp
  moreover have "nodes m2 own = Some (r\<lparr>node1 := ?c\<rparr>)" using n2 [of own] m0(1) r(3) by simp
  moreover have "\<forall>x. x \<noteq> own \<and> x \<notin> set (xs @ ys) \<longrightarrow> nodes m2 x = nodes m x" using n2 m0(2) by simp
  ultimately show ?thesis using m2(2,3) m0(3) by auto
qed

lemma join_ended_ok:
  assumes r: "nodes m own = Some r" "chain (nlinks m) (node2 r) ds" and s: "nodes m a = Some s"
    and out: "own \<noteq> a" "own \<notin> set ds" "a \<notin> set ds"
  shows "\<exists>m'. join_ended own a m = Some m' \<and> nodes m' own = Some (r\<lparr>node2 := Some a\<rparr>) \<and>
    chain (nlinks m') (Some a) (a # ds) \<and> nframe m' = nframe m \<and>
    (\<forall>x. x \<noteq> own \<and> x \<noteq> a \<and> x \<notin> set ds \<longrightarrow> nodes m' x = nodes m x)"
proof -
  define m2 where "m2 = m\<lparr>nodes := (nodes m)(own \<mapsto> r\<lparr>node2 := Some a\<rparr>, a \<mapsto> s\<lparr>node2 := node2 r\<rparr>)\<rparr>"
  have fr: "nframe m2 = nframe m" using r(1) s by (auto simp: nframe_def m2_def fun_eq_iff)
  have eq: "nodes m2 x = nodes m x" if "x \<in> set ds" for x using that out by (auto simp: m2_def)
  have ch: "chain (nlinks m2) (node2 r) ds"
    by (rule chain_forward [OF _ r(2)]) (use eq in \<open>simp add: nlinks_def\<close>)
  show ?thesis
  proof (cases ds)
    case Nil
    then show ?thesis
      using r s out fr by (intro exI [of _ m2]) (auto simp: join_ended_def m2_def nlinks_def)
  next
    case (Cons t ts)
    then obtain p n where t: "node2 r = Some t" "nlinks m2 t = Some (p, n)" using ch by auto
    obtain m3 where m3: "set_node1 t (Some a) m2 = Some m3" "nlinks m3 = (nlinks m2)(t := Some (Some a, n))" "nframe m3 = nframe m2"
      using node_mem.set_back [OF t(2)] by blast
    have n3: "nodes m3 x = nodes m2 x" if "x \<noteq> t" for x using that m3(2,3) by (auto intro: nodes_eqI)
    have "chain (nlinks m3) (node2 r) ds"
      by (rule chain_forward [OF _ ch]) (use m3(2) t(2) in auto)
    moreover have "own \<noteq> t" "a \<noteq> t" using out Cons by auto
    ultimately show ?thesis
      using r(1) s out(1) fr m3(1,3) n3 t(1) Cons
      by (intro exI [of _ m3]) (auto simp: join_ended_def m2_def nlinks_def [of m3 a])
  qed
qed

lemma destroy_child_ok:
  assumes rep: "tree_rep own mtx (xs @ a # ys) ds k m"
  shows "\<exists>m'. destroy_child a m = Some m' \<and> tree_rep own mtx (xs @ ys) (a # ds) k m'"
proof -
  obtain r where r: "nodes m own = Some r" "root_ok mtx r" "num_child r = of_nat (length (xs @ a # ys) + length ds)"
    "dll (nlinks m) (node1 r) (xs @ a # ys)" "chain (nlinks m) (node2 r) ds"
    "\<forall>b \<in> set ((xs @ a # ys) @ ds). \<exists>c. k b = Some c \<and> child_ok own mtx c"
    "distinct (own # (xs @ a # ys) @ ds)" "\<forall>b \<in> set ((xs @ a # ys) @ ds). snd (nframe m) b = k b"
    using rep by (rule tree_repD)
  obtain s where s: "nodes m a = Some s" "parent s = Some own"
    using tree_child [OF rep, of a] by (auto simp: child_ok_def)
  have out: "own \<notin> set (xs @ a # ys)" "own \<noteq> a" "own \<notin> set ds" "a \<notin> set ds" "a \<notin> set (xs @ ys)" "own \<notin> set (xs @ ys)"
    "distinct (xs @ ys @ ds)" using r(7) by auto
  obtain m1 c where m1: "leave_children own s m = Some m1" "nodes m1 own = Some (r\<lparr>node1 := c\<rparr>)"
      "dll (nlinks m1) c (xs @ ys)" "nframe m1 = nframe m"
      "\<forall>x. x \<noteq> own \<and> x \<notin> set (xs @ ys) \<longrightarrow> nodes m1 x = nodes m x"
    using leave_children_ok [OF r(1,4) out(1) s(1)] by blast
  have "x \<noteq> own \<and> x \<notin> set (xs @ ys)" if "x \<in> set ds" for x using that r(7) by auto
  then have "chain (nlinks m1) (node2 (r\<lparr>node1 := c\<rparr>)) ds"
    by (auto intro: chain_forward [OF _ r(5)] simp: nlinks_def m1(5))
  moreover have "nodes m1 a = Some s" using m1(5) out s(1) by simp
  ultimately obtain m2 where m2: "join_ended own a m1 = Some m2" "nodes m2 own = Some (r\<lparr>node1 := c, node2 := Some a\<rparr>)"
      "chain (nlinks m2) (Some a) (a # ds)" "nframe m2 = nframe m1"
      "\<forall>x. x \<noteq> own \<and> x \<noteq> a \<and> x \<notin> set ds \<longrightarrow> nodes m2 x = nodes m1 x"
    using join_ended_ok [OF m1(2)] out by blast
  have "x \<noteq> own \<and> x \<noteq> a \<and> x \<notin> set ds" if "x \<in> set (xs @ ys)" for x using that r(7) by auto
  then have "dll (nlinks m2) c (xs @ ys)"
    using m1(3) m2(5) dll_outside [of "xs @ ys" "nlinks m2" "nlinks m1"] by (simp add: nlinks_def)
  moreover have "destroy_child a m = Some m2" using s m1(1) m2(1) by (simp add: destroy_child_def)
  moreover have "root_ok mtx (r\<lparr>node1 := c, node2 := Some a\<rparr>)" using r(2) by (simp add: root_ok_def)
  ultimately have "tree_rep own mtx (xs @ ys) (a # ds) k m2"
    using m2(2,3,4) m1(4) r(3,6,7,8) by (auto simp: tree_rep_def)
  then show ?thesis using \<open>destroy_child a m = Some m2\<close> by blast
qed

section \<open>Freeing the ended children\<close>

definition freed :: "addr list \<Rightarrow> addr \<Rightarrow> smem \<Rightarrow> smem" where
  "freed ds own m = m\<lparr>nodes := (\<lambda>x. if x \<in> set ds then None
     else if x = own then map_option (\<lambda>s. s\<lparr>num_child := num_child s - of_nat (length ds)\<rparr>) (nodes m own)
     else nodes m x)\<rparr>"

lemma delete_from_ok:
  assumes "chain (nlinks m) c ds" and "nodes m own = Some r" and "distinct (own # ds)"
    and "\<forall>a \<in> set ds. \<exists>e. snd (nframe m) a = Some e \<and> child_ok own mtx e"
  shows "\<exists>w'. delete_from env own mtx c (m, w) = Some (freed ds own m, w') \<and> (\<not> mtx \<longrightarrow> w' = w)"
  using assms
proof (induction ds arbitrary: c m r w)
  case Nil
  then have "freed [] own m = m" by (simp add: freed_def fun_eq_iff)
  then show ?case using Nil by (simp add: delete_from.simps)
next
  case (Cons a ds)
  then obtain s e where a: "c = Some a" "nodes m a = Some s" "chain (nlinks m) (node2 s) ds"
      "snd (nframe m) a = Some e" "child_ok own mtx e"
    by (auto simp: nlinks_Some)
  have s: "child_ok own mtx s" using a(2,4,5) nframe_Some [OF a(4)] by auto
  define m2 where "m2 = m\<lparr>nodes := (nodes m)(a := None, own \<mapsto> r\<lparr>num_child := num_child r - 1\<rparr>)\<rparr>"
  have out: "a \<noteq> own" "a \<notin> set ds" "own \<notin> set ds" using Cons.prems(3) by auto
  have eq: "nodes m2 x = nodes m x" if "x \<in> set ds" for x using that out by (auto simp: m2_def)
  have "chain (nlinks m2) (node2 s) ds"
    by (rule chain_forward [OF _ a(3)]) (use eq in \<open>simp add: nlinks_def\<close>)
  moreover have "\<forall>a \<in> set ds. \<exists>e. snd (nframe m2) a = Some e \<and> child_ok own mtx e"
    using Cons.prems(4) eq by (simp add: nframe_def)
  ultimately have IH: "\<exists>w'. delete_from env own mtx (node2 s) (m2, w1) = Some (freed ds own m2, w') \<and> (\<not> mtx \<longrightarrow> w' = w1)" for w1
    using Cons.IH [of m2 "node2 s" "r\<lparr>num_child := num_child r - 1\<rparr>" w1] Cons.prems(3) by (simp add: m2_def)
  have fr: "freed ds own m2 = freed (a # ds) own m"
    using out Cons.prems(2) by (auto simp: freed_def m2_def fun_eq_iff)
  have upd: "free_node a m \<bind> upd_node own (\<lambda>s. s\<lparr>num_child := num_child s - 1\<rparr>) = Some m2"
    using out Cons.prems(2) a(2) by (simp add: m2_def)
  obtain w' where w': "release_node env a mtx s w = Some w'" "\<not> mtx \<longrightarrow> w' = w"
    using s by (cases mtx) (auto simp: release_node_def child_ok_def split: option.splits list.splits)
  have "delete_from env own mtx c (m, w) = delete_from env own mtx (node2 s) (m2, w')"
    using a(1,2) out Cons.prems(2) w'(1) by (subst delete_from.simps) (simp add: m2_def)
  then show ?case using IH [of w'] fr w'(2) by auto
qed

lemma delete_children_ok:
  assumes rep: "tree_rep own mtx cs ds k m"
  shows "\<exists>m' w'. delete_children env own (m, w) = Some (S_OK, m', w') \<and> tree_rep own mtx cs [] k m' \<and>
    (\<forall>a \<in> set ds. nodes m' a = None) \<and> (\<not> mtx \<longrightarrow> w' = w)"
proof -
  obtain r where r: "nodes m own = Some r" "root_ok mtx r" "num_child r = of_nat (length cs + length ds)"
    "dll (nlinks m) (node1 r) cs" "chain (nlinks m) (node2 r) ds"
    "\<forall>a \<in> set (cs @ ds). \<exists>c. k a = Some c \<and> child_ok own mtx c"
    "distinct (own # cs @ ds)" "\<forall>a \<in> set (cs @ ds). snd (nframe m) a = k a"
    using rep by (rule tree_repD)
  have "distinct (own # ds)" and "\<forall>a \<in> set ds. \<exists>e. snd (nframe m) a = Some e \<and> child_ok own mtx e"
    using r(6,7,8) by auto
  then obtain w' where w': "delete_from env own mtx (node2 r) (m, w) = Some (freed ds own m, w')" "\<not> mtx \<longrightarrow> w' = w"
    using delete_from_ok [OF r(5,1), of mtx env w] by metis
  let ?r = "r\<lparr>num_child := num_child r - of_nat (length ds), node2 := None\<rparr>"
  define m2 where "m2 = (freed ds own m)\<lparr>nodes := (nodes (freed ds own m))(own \<mapsto> ?r)\<rparr>"
  have "own \<notin> set ds" using r(7) by simp
  then have "nodes (freed ds own m) own = Some (r\<lparr>num_child := num_child r - of_nat (length ds)\<rparr>)"
    using r(1) by (simp add: freed_def)
  then have "set_node2 own None (freed ds own m) = Some m2" by (simp add: m2_def)
  moreover have "relation_mutex r = mtx" using r(2) by (simp add: root_ok_def)
  ultimately have "delete_children env own (m, w) = Some (S_OK, m2, w')"
    using r(1) w'(1) unfolding delete_children_def by simp
  moreover have eq: "nodes m2 a = nodes m a" if "a \<in> set cs" for a
    using that r(7) by (auto simp: m2_def freed_def)
  then have "dll (nlinks m2) (node1 ?r) cs"
    using r(4) dll_outside [of cs "nlinks m2" "nlinks m"] by (simp add: nlinks_def)
  then have "tree_rep own mtx cs [] k m2"
  proof (intro tree_repI)
    show "nodes m2 own = Some ?r" "root_ok mtx ?r" "num_child ?r = of_nat (length cs + length [])"
      using r(2,3) by (simp_all add: m2_def root_ok_def)
    show "\<forall>a \<in> set (cs @ []). snd (nframe m2) a = k a"
      using r(8) eq by (simp add: nframe_def)
  qed (use r(6,7) in simp_all)
  moreover have "\<forall>a \<in> set ds. nodes m2 a = None" using r(7) by (auto simp: m2_def freed_def)
  ultimately show ?thesis using w'(2) by blast
qed

section \<open>The change of a relation\<close>

lemma locked_no_mutex [simp]: "locked env False f st = f st"
  by (simp add: locked_def)

lemma tree_root:
  assumes "tree_rep own mtx cs ds k m"
  obtains r where "nodes m own = Some r" "parent r = None" "relation_mutex r = mtx"
    "node1 r = (if cs = [] then None else Some (hd cs))"
  using assms by (rule tree_repD) (auto simp: root_ok_def dest: dll_head)

text \<open>With a mutex the world changes by the lock, without one not at all.\<close>

lemma change_destroy_child:
  assumes rep: "tree_rep own False (xs @ a # ys) ds k m"
  shows "\<exists>m'. change_relation env a DESTROY_SELF (m, w) = Some (S_OK, m', w) \<and>
    tree_rep own False (xs @ ys) (a # ds) k m'"
proof -
  obtain s where "nodes m a = Some s" "child_ok own False s" using tree_child [OF rep, of a] by auto
  moreover obtain m' where "destroy_child a m = Some m'" "tree_rep own False (xs @ ys) (a # ds) k m'"
    using destroy_child_ok [OF rep] by blast
  ultimately show ?thesis by (auto simp: change_relation_def child_ok_def)
qed

lemma change_destroy_locked:
  assumes rep: "tree_rep own True (xs @ a # ys) ds k m" and lock: "sv_lock env w = (S_OK, w1)"
  shows "\<exists>m'. change_relation env a DESTROY_SELF (m, w) = Some (S_OK, m', sv_unlock env w1) \<and>
    tree_rep own True (xs @ ys) (a # ds) k m'"
proof -
  obtain s where "nodes m a = Some s" "child_ok own True s" using tree_child [OF rep, of a] by auto
  moreover obtain m' where "destroy_child a m = Some m'" "tree_rep own True (xs @ ys) (a # ds) k m'"
    using destroy_child_ok [OF rep] by blast
  ultimately show ?thesis using lock by (auto simp: change_relation_def child_ok_def locked_def)
qed

lemma change_delete:
  assumes rep: "tree_rep own False cs ds k m"
  shows "\<exists>m'. change_relation env own DELETE_CHILD (m, w) = Some (S_OK, m', w) \<and>
    tree_rep own False cs [] k m' \<and> (\<forall>a \<in> set ds. nodes m' a = None)"
proof -
  obtain r where "nodes m own = Some r" "parent r = None" "relation_mutex r = False"
    using rep by (rule tree_root)
  then show ?thesis
    using delete_children_ok [OF rep, of env w] by (auto simp: change_relation_def)
qed

text \<open>The next child is read before a child is ended.\<close>

lemma child_next:
  assumes "tree_rep own mtx (xs @ a # ys) ds k m" and "nodes m a = Some s"
  shows "node2 s = (if ys = [] then None else Some (hd ys))"
  using assms dll_next [of "nlinks m" _ xs a ys] by (elim tree_repD) (simp add: nlinks_def)

lemma destroy_from_ok:
  "tree_rep own False ys ds k m \<Longrightarrow> c = (if ys = [] then None else Some (hd ys)) \<Longrightarrow>
   \<exists>m'. destroy_from env c (m, w) = Some (m', w) \<and> tree_rep own False [] (rev ys @ ds) k m'"
proof (induction ys arbitrary: c ds m)
  case Nil
  then show ?case by (simp add: destroy_from.simps)
next
  case (Cons a ys)
  obtain s where s: "nodes m a = Some s" "child_ok own False s"
    using tree_child [OF Cons.prems(1), of a] by auto
  obtain m1 where m1: "destroy_child a m = Some m1" "tree_rep own False ys (a # ds) k m1"
    using destroy_child_ok [of own False "[]" a ys ds k m] Cons.prems(1) by auto
  have "destroy_locked env a (m, w) = Some (S_OK, m1, w)"
    using s m1(1) by (simp add: destroy_locked_def child_ok_def)
  then show ?case
    using Cons.IH [OF m1(2), of "node2 s"] child_next [of own False "[]" a ys ds k m s] Cons.prems s(1)
    by (subst destroy_from.simps) simp
qed

lemma change_destroy_root:
  assumes rep: "tree_rep own False cs ds k m"
  shows "\<exists>m'. change_relation env own DESTROY_SELF (m, w) = Some (S_OK, m', w) \<and>
    tree_rep own False [] [] k m' \<and> (\<forall>a \<in> set (cs @ ds). nodes m' a = None)"
proof -
  obtain r where r: "nodes m own = Some r" "parent r = None" "relation_mutex r = False"
      "node1 r = (if cs = [] then None else Some (hd cs))"
    using rep by (rule tree_root)
  obtain m1 where m1: "destroy_from env (node1 r) (m, w) = Some (m1, w)" "tree_rep own False [] (rev cs @ ds) k m1"
    using destroy_from_ok [OF rep r(4), of env w] by blast
  then show ?thesis
    using r delete_children_ok [OF m1(2), of env w] by (auto simp: change_relation_def)
qed

section \<open>The life limit\<close>

definition silent :: "conn_bcap_server \<Rightarrow> u32 \<Rightarrow> bool" where
  "silent s now \<longleftrightarrow> UDP_LIFELIMIT < calc_time_diff (last_modified s) now"

text \<open>The clock is read once for every child.\<close>

fun readings :: "'w senv \<Rightarrow> nat \<Rightarrow> 'w \<Rightarrow> u32 list" where
  "readings env 0 w = []"
| "readings env (Suc n) w = fst (sv_time env w) # readings env n (snd (sv_time env w))"

definition survivors :: "(addr \<rightharpoonup> conn_bcap_server) \<Rightarrow> addr list \<Rightarrow> u32 list \<Rightarrow> addr list" where
  "survivors k cs ts = map fst (filter (\<lambda>(a, t). \<not> silent (the (k a)) t) (zip cs ts))"

lemma survivors_Cons [simp]:
  "survivors k (a # cs) (t # ts) = (if silent (the (k a)) t then survivors k cs ts else a # survivors k cs ts)"
  by (simp add: survivors_def)

lemma survivors_subset: "set (survivors k cs ts) \<subseteq> set cs"
  by (auto simp: survivors_def dest: set_zip_leftD)

lemma expire_from_ok:
  "tree_rep own False (xs @ ys) ds k m \<Longrightarrow> c = (if ys = [] then None else Some (hd ys)) \<Longrightarrow>
   \<exists>m' w' es. expire_from env c (m, w) = Some (m', w') \<and>
     tree_rep own False (xs @ survivors k ys (readings env (length ys) w)) (es @ ds) k m' \<and>
     set es = set ys - set (survivors k ys (readings env (length ys) w))"
proof (induction ys arbitrary: c xs ds m w)
  case Nil
  then show ?case by (auto simp: expire_from.simps survivors_def)
next
  case (Cons a ys)
  let ?t = "fst (sv_time env w)" and ?w = "snd (sv_time env w)"
  obtain s where s: "nodes m a = Some s" "k a = Some (s\<lparr>node1 := None, node2 := None\<rparr>)"
    using tree_child [OF Cons.prems(1), of a] by auto
  have nx: "node2 s = (if ys = [] then None else Some (hd ys))"
    using child_next [OF Cons.prems(1) s(1)] .
  have ne: "a \<notin> set ys" using Cons.prems(1) by (auto simp: tree_rep_def)
  have sil: "silent (the (k a)) ?t = (UDP_LIFELIMIT < calc_time_diff (last_modified s) ?t)"
    using s(2) by (simp add: silent_def)
  show ?case
  proof (cases "silent (the (k a)) ?t")
    case True
    obtain m1 where m1: "change_relation env a DESTROY_SELF (m, ?w) = Some (S_OK, m1, ?w)"
        "tree_rep own False (xs @ ys) (a # ds) k m1"
      using change_destroy_child [OF Cons.prems(1), of env ?w] by blast
    obtain m' w' es where IH: "expire_from env (node2 s) (m1, ?w) = Some (m', w')"
        "tree_rep own False (xs @ survivors k ys (readings env (length ys) ?w)) (es @ a # ds) k m'"
        "set es = set ys - set (survivors k ys (readings env (length ys) ?w))"
      using Cons.IH [OF m1(2) nx, of ?w] by metis
    have "expire_from env c (m, w) = Some (m', w')"
      using Cons.prems(2) s(1) True sil m1(1) IH(1) by (subst expire_from.simps) (simp add: split_beta)
    then show ?thesis
      using True IH(2,3) ne survivors_subset [of k ys]
      by (intro exI [of _ m'] exI [of _ w'] exI [of _ "es @ [a]"]) auto
  next
    case False
    obtain m' w' es where IH: "expire_from env (node2 s) (m, ?w) = Some (m', w')"
        "tree_rep own False ((xs @ [a]) @ survivors k ys (readings env (length ys) ?w)) (es @ ds) k m'"
        "set es = set ys - set (survivors k ys (readings env (length ys) ?w))"
      using Cons.IH [of "xs @ [a]" ds m "node2 s" ?w] Cons.prems(1) nx by auto
    have "expire_from env c (m, w) = Some (m', w')"
      using Cons.prems(2) s(1) False sil IH(1) by (subst expire_from.simps) (simp add: split_beta)
    then show ?thesis
      using False IH(2,3) ne by (intro exI [of _ m'] exI [of _ w'] exI [of _ es]) auto
  qed
qed

text \<open>
  C32: \<open>check_lifelimit\<close> on a UDP server reads the clock once for every client, frees
  exactly the clients that were silent for more than the limit (and those that had ended before),
  keeps the others in order and returns how many are left.
\<close>

lemma check_lifelimit_frees_silent:
  assumes rep: "tree_rep own False cs ds k m"
  shows "let cs' = survivors k cs (readings env (length cs) w) in
    \<exists>m' w'. check_lifelimit env own (m, w) = Some (of_nat (length cs'), m', w') \<and>
      tree_rep own False cs' [] k m' \<and> (\<forall>a \<in> set cs - set cs'. nodes m' a = None)"
proof -
  define cs' where "cs' = survivors k cs (readings env (length cs) w)"
  obtain r where r: "nodes m own = Some r" "node1 r = (if cs = [] then None else Some (hd cs))"
    using rep by (rule tree_root)
  obtain m1 w1 es where m1: "expire_from env (node1 r) (m, w) = Some (m1, w1)"
      "tree_rep own False cs' (es @ ds) k m1" "set es = set cs - set cs'"
    using expire_from_ok [of own "[]" cs ds k m "node1 r" env w] rep r(2) by (auto simp: cs'_def)
  obtain m2 where m2: "change_relation env own DELETE_CHILD (m1, w1) = Some (S_OK, m2, w1)"
      "tree_rep own False cs' [] k m2" "\<forall>a \<in> set (es @ ds). nodes m2 a = None"
    using change_delete [OF m1(2), of env w1] by blast
  obtain r2 where "nodes m2 own = Some r2" "num_child r2 = of_nat (length cs')"
    using m2(2) by (auto elim: tree_repD)
  then have "check_lifelimit env own (m, w) = Some (of_nat (length cs'), m2, w1)"
    using r(1) m1(1) m2(1) by (simp add: check_lifelimit_def)
  then show ?thesis using m1(3) m2(2,3) unfolding Let_def by (auto simp flip: cs'_def)
qed

section \<open>The search for a client\<close>

definition client_at :: "(addr \<rightharpoonup> conn_bcap_server) \<Rightarrow> addr \<Rightarrow> sockaddr_in option" where
  "client_at k a = Option.bind (k a) (\<lambda>s. arg (sdevice s))"

lemma search_from_ok:
  "tree_rep own mtx (xs @ ys) ds k m \<Longrightarrow> c = (if ys = [] then None else Some (hd ys)) \<Longrightarrow>
   \<forall>a \<in> set ys. client_at k a \<noteq> None \<Longrightarrow>
   search_from adr c m = Some (find (\<lambda>a. client_at k a = Some adr) ys)"
proof (induction ys arbitrary: c xs)
  case Nil
  then show ?case by (simp add: search_from.simps)
next
  case (Cons a ys)
  obtain s where s: "nodes m a = Some s" "k a = Some (s\<lparr>node1 := None, node2 := None\<rparr>)"
    using tree_child [OF Cons.prems(1), of a] by auto
  obtain x where x: "arg (sdevice s) = Some x" using Cons.prems(3) s(2) by (auto simp: client_at_def)
  have "search_from adr (node2 s) m = Some (find (\<lambda>a. client_at k a = Some adr) ys)"
    using Cons.IH [of "xs @ [a]" "node2 s"] Cons.prems child_next [OF Cons.prems(1) s(1)] by simp
  then show ?case
    using Cons.prems(2) s x by (subst search_from.simps) (simp add: client_at_def)
qed

lemma search_node_ok:
  assumes rep: "tree_rep own mtx cs ds k m" and "\<forall>a \<in> set cs. client_at k a \<noteq> None"
  shows "search_node own adr m = Some (find (\<lambda>a. client_at k a = Some adr) cs)"
proof -
  obtain r where "nodes m own = Some r" "node1 r = (if cs = [] then None else Some (hd cs))"
    using rep by (rule tree_root)
  then show ?thesis
    using search_from_ok [of own mtx "[]" cs ds k m "node1 r" adr] assms by (simp add: search_node_def)
qed

section \<open>A new client\<close>

lemma change_add:
  assumes rep: "tree_rep own mtx cs ds k m" and r: "nodes m own = Some r"
    and lock: "if mtx then sv_lock env w = (S_OK, w0) else w0 = w"
    and mal: "sv_malloc env w0 = (Some a, w1)" and new: "nodes m a = None"
  shows "\<exists>m1. link_child own a sk (fst (sv_time env w1)) m = Some m1 \<and>
    tree_rep own mtx (a # cs) ds (k(a \<mapsto> (new_child own sk (fst (sv_time env w1)) r)\<lparr>node2 := None\<rparr>)) m1 \<and>
    nodes m1 a = Some (new_child own sk (fst (sv_time env w1)) r) \<and>
    change_relation env own (ADD_CHILD sk) (m, w) =
       (if mtx then map_option (\<lambda>(hr, m', w'). (hr, m', sv_unlock env w')) (start_child env a sk (m1, snd (sv_time env w1)))
        else map_option (\<lambda>m2. (S_OK, m2, snd (sv_time env w1))) (init_child own a m1))"
proof -
  have "parent r = None" "relation_mutex r = mtx" using tree_root [OF rep] r by auto
  then show ?thesis
    using link_child_ok [OF rep r new, of sk "fst (sv_time env w1)"] r lock mal
    by (cases mtx) (auto simp: change_relation_def locked_def add_child_def)
qed

lemma tree_rep_update_child:
  assumes rep: "tree_rep own mtx (a # cs) ds k m" and s: "nodes m a = Some s"
    and f: "child_ok own mtx (f s)" "node1 (f s) = node1 s" "node2 (f s) = node2 s"
  shows "tree_rep own mtx (a # cs) ds (k(a \<mapsto> (f s)\<lparr>node1 := None, node2 := None\<rparr>)) (m\<lparr>nodes := (nodes m)(a \<mapsto> f s)\<rparr>)"
proof -
  let ?m = "m\<lparr>nodes := (nodes m)(a \<mapsto> f s)\<rparr>"
  have lk: "nlinks ?m = nlinks m" using s f by (auto simp: nlinks_def fun_eq_iff)
  have fr: "snd (nframe ?m) = (snd (nframe m))(a \<mapsto> (f s)\<lparr>node1 := None, node2 := None\<rparr>)"
    by (auto simp: nframe_def fun_eq_iff)
  from rep show ?thesis
    by (rule tree_repD) (rule tree_repI, use f lk in \<open>auto simp: fr\<close>)
qed

lemma tree_fresh: "tree_rep own mtx cs ds k m \<Longrightarrow> nodes m a = None \<Longrightarrow> a \<notin> set (cs @ ds)"
  by (metis option.distinct(1) tree_child)

text \<open>
  A datagram from a new address makes a UDP server a new child, in front of the
  others and with that address, and the search for the address then finds it.
\<close>

lemma udp_client_added:
  assumes rep: "tree_rep own False cs ds k m" and root: "nodes m own = Some r" "conn_type (sdevice r) = CONN_UDP"
    and cs: "\<forall>b \<in> set cs. client_at k b \<noteq> None" and adr: "arg (sdevice r) = Some adr"
    and mal: "sv_malloc env w = (Some a, w1)" and new: "nodes m a = None"
  shows "\<exists>m' w' k'. change_relation env own (ADD_CHILD sk) (m, w) = Some (S_OK, m', w') \<and>
    tree_rep own False (a # cs) ds k' m' \<and> client_at k' a = Some adr \<and> (\<forall>b \<in> set (cs @ ds). k' b = k b) \<and>
    search_node own adr m' = Some (Some a)"
proof -
  let ?c = "new_child own sk (fst (sv_time env w1)) r"
  obtain m1 where m1: "tree_rep own False (a # cs) ds (k(a \<mapsto> ?c\<lparr>node2 := None\<rparr>)) m1" "nodes m1 a = Some ?c"
    "change_relation env own (ADD_CHILD sk) (m, w) =
       map_option (\<lambda>m2. (S_OK, m2, snd (sv_time env w1))) (init_child own a m1)"
    using change_add [OF rep root(1) _ mal new, where sk = sk and w = w] by auto
  let ?f = "\<lambda>n. n\<lparr>last_send := (last_send n)\<lparr>args := Some [zero_variant]\<rparr>\<rparr>"
  define m2 where "m2 = m1\<lparr>nodes := (nodes m1)(a \<mapsto> ?f ?c)\<rparr>"
  define k' where "k' = k(a \<mapsto> (?f ?c)\<lparr>node1 := None, node2 := None\<rparr>)"
  have "VariantClear zero_variant \<noteq> None" by code_simp
  moreover obtain s where "nodes m1 a = Some s" "child_ok own False s"
    using tree_child [OF m1(1), of a] by auto
  then have "child_ok own False ?c" using m1(2) by simp
  ultimately have t: "tree_rep own False (a # cs) ds k' m2"
    using tree_rep_update_child [OF m1(1,2), of ?f] by (simp add: k'_def m2_def child_ok_def)
  obtain r1 where "nodes m1 own = Some r1" "root_ok False r1" using m1(1) by (rule tree_repD)
  then have "init_child own a m1 = Some m2"
    using m1(2) by (auto simp: init_child_def root_ok_def m2_def)
  moreover have "client_at k' a = Some adr" using adr by (simp add: k'_def client_at_def new_child_def zero_server_def)
  moreover have same: "\<forall>b \<in> set (cs @ ds). k' b = k b" using tree_fresh [OF rep new] by (auto simp: k'_def)
  then have "\<forall>b \<in> set (a # cs). client_at k' b \<noteq> None"
    using cs \<open>client_at k' a = Some adr\<close> by (auto simp: client_at_def)
  then have "search_node own adr m2 = Some (Some a)"
    using search_node_ok [OF t] \<open>client_at k' a = Some adr\<close> by simp
  ultimately show ?thesis using t m1(3) same by auto
qed

text \<open>
  When the mutex, the time-out and the event are to be had, accepting a client makes it a child in front of the others and starts its thread.
\<close>

lemma tcp_client_added:
  assumes rep: "tree_rep own True cs ds k m" and root: "nodes m own = Some r"
    and lock: "sv_lock env w = (S_OK, w0)" and mal: "sv_malloc env w0 = (Some a, w1)" and new: "nodes m a = None"
    and tmo: "\<forall>f n v. SUCCEEDED (fst (sv_set_timeout env f sk n v))" and evt: "\<forall>v. fst (sv_create_event env a v) = S_OK"
  shows "\<exists>m' w' k'. change_relation env own (ADD_CHILD sk) (m, w) = Some (S_OK, m', sv_unlock env (sv_begin env a w')) \<and>
    tree_rep own True (a # cs) ds k' m' \<and> (\<forall>b \<in> set (cs @ ds). k' b = k b) \<and>
    map_option (\<lambda>c. sock (sdevice c)) (k' a) = Some sk"
proof -
  let ?c = "new_child own sk (fst (sv_time env w1)) r"
  obtain m1 where m1: "tree_rep own True (a # cs) ds (k(a \<mapsto> ?c\<lparr>node2 := None\<rparr>)) m1" "nodes m1 a = Some ?c"
    "change_relation env own (ADD_CHILD sk) (m, w) =
       map_option (\<lambda>(hr, m', w'). (hr, m', sv_unlock env w')) (start_child env a sk (m1, snd (sv_time env w1)))"
    using change_add [OF rep root _ mal new, where sk = sk and w = w] lock by auto
  have "root_ok True r" using rep root by (auto elim: tree_repD)
  then obtain f g where fg: "dn_set_timeout (sdevice ?c) = Some f" "dn_close (sdevice ?c) = Some g"
    by (auto simp: root_ok_def new_child_def)
  let ?s = "sv_set_timeout env f sk (timeout (sdevice ?c)) (snd (sv_time env w1))"
  have "\<not> FAILED (fst ?s)" using tmo by (simp add: SUCCEEDED_iff)
  then have "start_child env a sk (m1, snd (sv_time env w1)) = Some (S_OK, m1, sv_begin env a (snd (sv_create_event env a (snd ?s))))"
    using m1(2) fg evt by (simp add: start_child_def split_beta)
  moreover have "\<forall>b \<in> set (cs @ ds). (k(a \<mapsto> ?c\<lparr>node2 := None\<rparr>)) b = k b" using tree_fresh [OF rep new] by auto
  ultimately show ?thesis using m1 by (auto simp: new_child_def)
qed

text \<open>
  When the time-out of an accepted socket cannot be set, the child is freed but
  stays the head of the children and counted: the pointer dangles.
\<close>

lemma tcp_client_dangling:
  assumes rep: "tree_rep own True cs ds k m" and root: "nodes m own = Some r"
    and lock: "sv_lock env w = (S_OK, w0)" and mal: "sv_malloc env w0 = (Some a, w1)" and new: "nodes m a = None"
    and tmo: "\<forall>f n v. sv_set_timeout env f sk n v = (hr, v)" "FAILED hr"
  shows "\<exists>m' w' r'. change_relation env own (ADD_CHILD sk) (m, w) = Some (hr, m', w') \<and>
    nodes m' a = None \<and> nodes m' own = Some r' \<and> node1 r' = Some a \<and> num_child r' = num_child r + 1"
proof -
  let ?c = "new_child own sk (fst (sv_time env w1)) r"
  obtain m1 where m1: "tree_rep own True (a # cs) ds (k(a \<mapsto> ?c\<lparr>node2 := None\<rparr>)) m1" "nodes m1 a = Some ?c"
    "change_relation env own (ADD_CHILD sk) (m, w) =
       map_option (\<lambda>(hr, m', w'). (hr, m', sv_unlock env w')) (start_child env a sk (m1, snd (sv_time env w1)))"
    using change_add [OF rep root _ mal new, where sk = sk and w = w] lock by auto
  have r: "root_ok True r" "num_child r = of_nat (length cs + length ds)" using rep root by (auto elim: tree_repD)
  then obtain f g where fg: "dn_set_timeout (sdevice ?c) = Some f" "dn_close (sdevice ?c) = Some g"
    by (auto simp: root_ok_def new_child_def)
  let ?m = "m1\<lparr>nodes := (nodes m1)(a := None)\<rparr>"
  have "start_child env a sk (m1, snd (sv_time env w1)) = Some (hr, ?m, sv_close env g sk (snd (sv_time env w1)))"
    using m1(2) fg tmo by (simp add: start_child_def drop_child_def)
  moreover obtain r1 where r1: "nodes m1 own = Some r1" "num_child r1 = of_nat (length (a # cs) + length ds)" "dll (nlinks m1) (node1 r1) (a # cs)"
    using m1(1) by (rule tree_repD)
  then have "node1 r1 = Some a" using dll_head by fastforce
  moreover have "own \<noteq> a" using root new by auto
  ultimately show ?thesis using m1(3) r1(1,2) r(2) by auto
qed

text \<open>
  Ending a UDP server frees every child, the ended ones too, and leaves it with
  none: no child's memory stays, and the counter is back at zero.
\<close>

lemma destroy_root_frees_all:
  assumes "tree_rep own False cs ds k m"
  shows "\<exists>m' r. change_relation env own DESTROY_SELF (m, w) = Some (S_OK, m', w) \<and>
    (\<forall>a \<in> set (cs @ ds). nodes m' a = None) \<and>
    nodes m' own = Some r \<and> node1 r = None \<and> node2 r = None \<and> num_child r = 0"
proof -
  obtain m' where "change_relation env own DESTROY_SELF (m, w) = Some (S_OK, m', w)"
      "tree_rep own False [] [] k m'" "\<forall>a \<in> set (cs @ ds). nodes m' a = None"
    using change_destroy_root [OF assms, of env w] by blast
  then show ?thesis by (auto elim!: tree_repD)
qed

text \<open>
  \<open>calc_time_diff\<close> after \<open>d\<close> milliseconds is \<open>d\<close> while the 32-bit clock has not wrapped;
  once it has, it is the complement \<open>2^32 - 1 - d\<close>: a client heard of a moment ago counts as
  silent for more than the limit.
\<close>

lemma calc_time_diff_elapsed:
  "calc_time_diff start (start + d) = (if start \<le> start + d then d else - 1 - d)"
  by (simp add: calc_time_diff_def)

section \<open>A concrete tree\<close>

text \<open>
  A server at address 1 with two clients, the younger at 21 heard of at time 5000 and the elder
  at 20 heard of at time 1000; the world is the clock.
\<close>

definition sample_server_env :: "u32 senv" where
  "sample_server_env = \<lparr>sv_lock = (\<lambda>w. (S_OK, w)), sv_unlock = (\<lambda>w. w), sv_time = (\<lambda>w. (w, w)),
     sv_malloc = (\<lambda>w. (Some 30, w)), sv_set_timeout = (\<lambda>f sk n w. (S_OK, w)), sv_close = (\<lambda>f sk w. w),
     sv_create_event = (\<lambda>a w. (S_OK, w)), sv_begin = (\<lambda>a w. w), sv_end = (\<lambda>a w. w)\<rparr>"

definition sample_device :: "i32 \<Rightarrow> u32 \<Rightarrow> conn_param_common" where
  "sample_device t ip = zero_device\<lparr>sock := 5, conn_type := t, arg := Some \<lparr>s_addr = ip, sin_port = 7\<rparr>,
     dn_set_timeout := Some F_tcp_set_timeout, dn_close := Some F_tcp_close\<rparr>"

definition sample_child :: "bool \<Rightarrow> i32 \<Rightarrow> u32 \<Rightarrow> u32 \<Rightarrow> conn_bcap_server" where
  "sample_child mtx t ip now = zero_server\<lparr>sdevice := sample_device t ip, last_modified := now, relation_mutex := mtx,
     parent := Some 1\<rparr>"

definition sample_tree :: "bool \<Rightarrow> i32 \<Rightarrow> smem" where
  "sample_tree mtx t = \<lparr>nodes = [
     1 \<mapsto> zero_server\<lparr>sdevice := sample_device t 99, num_child := 2, relation_mutex := mtx, node1 := Some 21\<rparr>,
     21 \<mapsto> (sample_child mtx t 11 5000)\<lparr>node2 := Some 20\<rparr>,
     20 \<mapsto> (sample_child mtx t 12 1000)\<lparr>node1 := Some 21\<rparr>], objs = Map.empty\<rparr>"

definition sample_clients :: "bool \<Rightarrow> i32 \<Rightarrow> addr \<rightharpoonup> conn_bcap_server" where
  "sample_clients mtx t = [21 \<mapsto> sample_child mtx t 11 5000, 20 \<mapsto> sample_child mtx t 12 1000]"

lemmas sample_simps = sample_tree_def sample_clients_def sample_child_def sample_device_def zero_server_def
  zero_device_def zero_packet_def

lemma sample_tree_rep: "tree_rep 1 mtx [21, 20] [] (sample_clients mtx t) (sample_tree mtx t)"
  by (rule tree_repI [where s = "the (nodes (sample_tree mtx t) 1)"])
     (simp_all add: sample_simps root_ok_def child_ok_def dll_def nlinks_def nframe_def)

lemma check_lifelimit_frees_silent_witness:
  "\<exists>m' w'. check_lifelimit sample_server_env 1 (sample_tree False CONN_UDP, 12000) = Some (1, m', w') \<and>
    tree_rep 1 False [21] [] (sample_clients False CONN_UDP) m' \<and> nodes m' 20 = None"
proof -
  have "survivors (sample_clients False CONN_UDP) [21, 20] (readings sample_server_env (length [21::addr, 20]) 12000) = [21]"
    by (simp add: survivors_def silent_def calc_time_diff_def sample_server_env_def sample_simps)
  then show ?thesis
    using check_lifelimit_frees_silent [OF sample_tree_rep [of False CONN_UDP], where env = sample_server_env and w = 12000]
    unfolding Let_def by auto
qed

lemma udp_client_added_witness:
  "\<exists>m' w' k'. change_relation sample_server_env 1 (ADD_CHILD 5) (sample_tree False CONN_UDP, 12000) = Some (S_OK, m', w') \<and>
    tree_rep 1 False [30, 21, 20] [] k' m' \<and> search_node 1 \<lparr>s_addr = 99, sin_port = 7\<rparr> m' = Some (Some 30)"
proof -
  have "nodes (sample_tree False CONN_UDP) 1 = Some (the (nodes (sample_tree False CONN_UDP) 1))"
    by (simp add: sample_tree_def)
  from udp_client_added [OF sample_tree_rep this, of "\<lparr>s_addr = 99, sin_port = 7\<rparr>" sample_server_env 12000 30 12000 5]
  show ?thesis by (auto simp: sample_simps client_at_def sample_server_env_def)
qed

lemma tcp_client_added_witness:
  "\<exists>m' w' k'. change_relation sample_server_env 1 (ADD_CHILD 9) (sample_tree True CONN_TCP, 0) = Some (S_OK, m', w') \<and>
    tree_rep 1 True [30, 21, 20] [] k' m' \<and> map_option (\<lambda>c. sock (sdevice c)) (k' 30) = Some 9"
proof -
  have "nodes (sample_tree True CONN_TCP) 1 = Some (the (nodes (sample_tree True CONN_TCP) 1))"
    by (simp add: sample_tree_def)
  from tcp_client_added [OF sample_tree_rep this, of sample_server_env 0 0 30 0 9]
  show ?thesis by (force simp: sample_tree_def sample_server_env_def)
qed

lemma tcp_client_dangling_witness:
  "\<exists>m' w' r. change_relation (sample_server_env\<lparr>sv_set_timeout := \<lambda>f sk n w. (E_FAIL, w)\<rparr>) 1 (ADD_CHILD 9) (sample_tree True CONN_TCP, 0) =
      Some (E_FAIL, m', w') \<and> nodes m' 30 = None \<and> nodes m' 1 = Some r \<and> node1 r = Some 30"
proof -
  have "nodes (sample_tree True CONN_TCP) 1 = Some (the (nodes (sample_tree True CONN_TCP) 1))"
    by (simp add: sample_tree_def)
  from tcp_client_dangling [OF sample_tree_rep this, of "sample_server_env\<lparr>sv_set_timeout := \<lambda>f sk n w. (E_FAIL, w)\<rparr>" 0 0 30 0 9 E_FAIL]
  show ?thesis by (force simp: sample_tree_def sample_server_env_def)
qed

lemma destroy_root_frees_all_witness:
  "\<exists>m'. change_relation sample_server_env 1 DESTROY_SELF (sample_tree False CONN_UDP, 0) = Some (S_OK, m', 0) \<and>
    nodes m' 20 = None \<and> nodes m' 21 = None"
  using destroy_root_frees_all [OF sample_tree_rep [of False CONN_UDP], where env = sample_server_env and w = 0] by auto

end
