(* ===== verification/ServerCalls.thy ===== *)
theory ServerCalls
  imports ServerMem FuncId Handles
begin

text \<open>
  What the b-CAP server does with a request, apart from the threads: the table of function
  numbers (\<open>bcap_mapid.h\<close>), the registered call functions, their call and the reply it builds
  (\<open>bCap_SetCallFunc\<close>, \<open>bcap_callfunc\<close>), and the handles of the servers (\<open>find_open_address\<close>,
  \<open>check_address\<close> of \<open>bcap_server.c\<close>).

  The call functions are the application's: functions of the arguments and the world that return
  a code and the value to send back. \<open>vntRet\<close> is cleared before the call, so that it is not an input.
\<close>

section \<open>The table of functions\<close>

abbreviation (input) FUNCTION_ID_MAX :: i32 where "FUNCTION_ID_MAX \<equiv> 138"

text \<open>
  For every function number: the function that releases the object it creates (0 for none, -1
  for a function that releases one itself), and whether the reply carries a value.
\<close>

definition m_map_id :: "(i32 \<times> nat) list" where
  "m_map_id = [
    (0, 0), (ID_SERVICE_STOP, 0), (- 1, 0), (ID_CONTROLLER_DISCONNECT, 1), (- 1, 0),
    (ID_EXTENSION_RELEASE, 1), (ID_FILE_RELEASE, 1), (ID_ROBOT_RELEASE, 1), (ID_TASK_RELEASE, 1),
    (ID_VARIABLE_RELEASE, 1), (ID_COMMAND_RELEASE, 1), (0, 1), (0, 1), (0, 1), (0, 1), (0, 1),
    (0, 1), (0, 1), (ID_MESSAGE_RELEASE, 1), (0, 1), (0, 1), (0, 1), (0, 1), (0, 0), (0, 1), (0, 0),
    (ID_VARIABLE_RELEASE, 1), (0, 1), (0, 1), (0, 1), (0, 1), (0, 1), (0, 1), (0, 0), (0, 1),
    (0, 0), (- 1, 0), (ID_FILE_RELEASE, 1), (ID_VARIABLE_RELEASE, 1), (0, 1), (0, 1), (0, 1),
    (0, 0), (0, 0), (0, 0), (0, 1), (0, 1), (0, 1), (0, 1), (0, 1), (0, 1), (0, 1), (0, 1), (0, 0),
    (0, 1), (0, 1), (0, 1), (0, 1), (0, 0), (0, 1), (0, 0), (- 1, 0), (ID_VARIABLE_RELEASE, 1),
    (0, 1), (0, 1), (0, 0), (0, 0), (0, 0), (0, 0), (0, 0), (0, 0), (0, 0), (0, 0), (0, 0), (0, 0),
    (0, 0), (0, 0), (0, 1), (0, 1), (0, 1), (0, 1), (0, 0), (0, 1), (0, 0), (- 1, 0),
    (ID_VARIABLE_RELEASE, 1), (0, 1), (0, 1), (0, 0), (0, 0), (0, 0), (0, 1), (0, 1), (0, 1),
    (0, 1), (0, 1), (0, 0), (0, 1), (0, 0), (- 1, 0), (0, 1), (0, 1), (0, 0), (0, 1), (0, 1),
    (0, 1), (0, 1), (0, 0), (0, 1), (0, 0), (0, 1), (- 1, 0), (0, 0), (0, 0), (0, 1), (0, 0),
    (0, 1), (0, 1), (0, 0), (0, 1), (0, 1), (0, 1), (0, 1), (0, 1), (0, 1), (0, 1), (0, 0),
    (- 1, 0), (0, 0), (0, 0), (0, 1), (0, 1), (0, 1), (0, 1), (0, 1), (0, 1), (0, 1), (- 1, 0)]"

definition relation_id :: "i32 \<Rightarrow> i32" where
  "relation_id fid = fst (m_map_id ! nat (sint fid))"

definition return_flag :: "i32 \<Rightarrow> bool" where
  "return_flag fid \<longleftrightarrow> snd (m_map_id ! nat (sint fid)) \<noteq> 0"

section \<open>Call functions\<close>

type_synonym 'w call_func = "variant list option \<Rightarrow> u16 \<Rightarrow> 'w \<Rightarrow> hresult \<times> variant \<times> 'w"

definition bCap_SetCallFunc :: "i32 \<Rightarrow> 'w call_func option \<Rightarrow> 'w call_func option list \<Rightarrow>
    hresult \<times> 'w call_func option list" where
  "bCap_SetCallFunc fid f funcs =
     (if sint fid \<le> 0 \<or> sint FUNCTION_ID_MAX \<le> sint fid then (E_INVALIDARG, funcs)
      else (S_OK, funcs[nat (sint fid) := f]))"

definition bcap_callfunc :: "'w call_func option list \<Rightarrow> bcap_packet \<Rightarrow> bcap_packet \<Rightarrow> 'w \<Rightarrow>
    (bcap_packet \<times> 'w) option" where
  "bcap_callfunc funcs recv send w =
     (let p = send\<lparr>serial := serial recv, reserv := 0, func_id := E_INVALIDARG, argc := 0\<rparr>;
          fid = func_id recv
      in if 0 < sint fid \<and> sint fid < sint FUNCTION_ID_MAX then
           (case funcs ! nat (sint fid) of
              None \<Rightarrow> Some (p\<lparr>func_id := E_NOTIMPL\<rparr>, w)
            | Some f \<Rightarrow> (case args send of
                Some [v] \<Rightarrow> Option.bind (VariantClear v) (\<lambda>_.
                  case f (args recv) (argc recv) w of (hr, ret, w') \<Rightarrow>
                    Some (p\<lparr>func_id := hr, argc := if return_flag fid then 1 else 0, args := Some [ret]\<rparr>, w'))
              | _ \<Rightarrow> None))
         else Some (p, w))"

section \<open>The handles of the servers\<close>

text \<open>One slot for TCP, one for UDP, one for a serial line (\<open>BCAP_TCP_MAX\<close> and so on).\<close>

fun find_open_in :: "conn_bcap_server list \<Rightarrow> nat \<Rightarrow> nat \<Rightarrow> nat" where
  "find_open_in cs i 0 = 0"
| "find_open_in cs i (Suc n) = (if sock (sdevice (cs ! i)) = 0 then Suc i else find_open_in cs (Suc i) n)"

definition find_open_server :: "i32 \<Rightarrow> conn_bcap_server list \<Rightarrow> nat" where
  "find_open_server t cs =
     (if t = CONN_TCP then find_open_in cs 0 1
      else if t = CONN_UDP then find_open_in cs 1 1
      else if t = CONN_COM then find_open_in cs 2 1
      else 0)"

definition check_server :: "conn_bcap_server list \<Rightarrow> i32 \<Rightarrow> (nat \<times> conn_bcap_server) option" where
  "check_server cs index =
     (let i = sint index - 1 in
      if i < 0 \<or> 3 \<le> i then None
      else if sock (sdevice (cs ! nat i)) = 0 then None
      else Some (nat i, cs ! nat i))"

definition server_slots :: "i32 \<Rightarrow> nat set" where
  "server_slots t = (if t = CONN_TCP then {0} else if t = CONN_UDP then {1} else if t = CONN_COM then {2} else {})"

lemma find_open_server_slot:
  "find_open_server t cs =
     (if server_slots t = {} then 0
      else let i = the_elem (server_slots t) in if sock (sdevice (cs ! i)) = 0 then Suc i else 0)"
  by (simp add: find_open_server_def server_slots_def numeral_eq_Suc)

lemma server_slots_cases:
  obtains "server_slots t = {}" | i where "server_slots t = {i}" "i < 3"
  by (cases "server_slots t = {}") (auto simp: server_slots_def split: if_splits)

interpretation servers: handle_table "\<lambda>c. sock (sdevice c) \<noteq> 0" "server_slots t" 3 "find_open_server t" check_server for t
proof
  show "i < 3" if "i \<in> server_slots t" for i using that by (cases rule: server_slots_cases [of t]) auto
  show "find_open_server t cs = 0 \<longleftrightarrow> (\<forall>i\<in>server_slots t. sock (sdevice (cs ! i)) \<noteq> 0)" for cs
    by (cases rule: server_slots_cases [of t]) (auto simp: find_open_server_slot)
  show "find_open_server t cs - 1 \<in> server_slots t \<and> \<not> sock (sdevice (cs ! (find_open_server t cs - 1))) \<noteq> 0"
    if "find_open_server t cs \<noteq> 0" for cs
    using that by (cases rule: server_slots_cases [of t]) (auto simp: find_open_server_slot split: if_splits)
qed (simp_all add: check_server_def Let_def)

section \<open>The table\<close>

lemma length_m_map_id: "length m_map_id = 138"
  by code_simp

text \<open>The numbers in range, so that a property of all of them is evaluated.\<close>

lemma fid_range:
  assumes "\<forall>n \<in> set [1..<138]. P (of_nat n)" and "0 < sint (fid :: i32)" and "sint fid < 138"
  shows "P fid"
proof -
  have "nat (sint fid) \<in> set [1..<138]" using assms(2,3) by auto
  moreover have "of_nat (nat (sint fid)) = fid" using assms(2) by simp
  ultimately show ?thesis using assms(1) by metis
qed

text \<open>The functions \<open>receive_execute\<close> refuses when the connection has all the objects it can have.\<close>

definition creates_object :: "i32 \<Rightarrow> bool" where
  "creates_object fid \<longleftrightarrow> fid \<in> {ID_SERVICE_START, ID_CONTROLLER_CONNECT, ID_CONTROLLER_GETEXTENSION,
     ID_CONTROLLER_GETFILE, ID_FILE_GETFILE, ID_CONTROLLER_GETROBOT, ID_CONTROLLER_GETTASK,
     ID_CONTROLLER_GETVARIABLE, ID_EXTENSION_GETVARIABLE, ID_FILE_GETVARIABLE, ID_ROBOT_GETVARIABLE,
     ID_TASK_GETVARIABLE, ID_CONTROLLER_GETCOMMAND, ID_CONTROLLER_GETMESSAGE}"

text \<open>
  In the table of functions, the functions that create an object are exactly those
  whose creation is refused at the limit; what releases such an object is a function in range
  that is marked as one that releases; and a function that creates something other than the
  service returns its handle.
\<close>

lemma m_map_id_consistent:
  assumes "0 < sint fid" and "sint fid < 138"
  shows "(0 < sint (relation_id fid) \<longleftrightarrow> creates_object fid) \<and>
    (0 < sint (relation_id fid) \<longrightarrow> sint (relation_id fid) < 138 \<and> relation_id (relation_id fid) = - 1 \<and>
       (return_flag fid \<longleftrightarrow> fid \<noteq> ID_SERVICE_START))"
  by (rule fid_range [OF _ assms]) code_simp

lemma m_map_id_consistent_witness:
  "0 < sint (relation_id 8) \<longleftrightarrow> creates_object 8"
  using m_map_id_consistent [of 8] by simp

section \<open>Dispatch\<close>

lemma bCap_SetCallFunc_get:
  assumes "length funcs = 138"
  shows "bCap_SetCallFunc fid f funcs =
      (if 0 < sint fid \<and> sint fid < 138 then (S_OK, funcs[nat (sint fid) := f]) else (E_INVALIDARG, funcs))"
    and "0 < sint fid \<Longrightarrow> sint fid < 138 \<Longrightarrow>
      snd (bCap_SetCallFunc fid f funcs) ! nat (sint g) = (if nat (sint g) = nat (sint fid) then f else funcs ! nat (sint g))"
  using assms by (auto simp: bCap_SetCallFunc_def nth_list_update)

lemma sint_eq_nat: "0 < sint (x :: i32) \<Longrightarrow> 0 < sint y \<Longrightarrow> nat (sint x) = nat (sint y) \<longleftrightarrow> x = y"
  by (metis nat_eq_iff2 less_imp_le scast_eq scast_id)

text \<open>What \<open>bcap_callfunc\<close> answers, by the number of the request.\<close>

lemma bcap_callfunc_cases:
  assumes "args send = Some [v]" and "VariantClear v \<noteq> None"
  shows "bcap_callfunc funcs recv send w = Some
    (if 0 < sint (func_id recv) \<and> sint (func_id recv) < 138 then
       (case funcs ! nat (sint (func_id recv)) of
          None \<Rightarrow> (\<lparr>serial = serial recv, reserv = 0, func_id = E_NOTIMPL, argc = 0, args = Some [v]\<rparr>, w)
        | Some f \<Rightarrow>
            (\<lparr>serial = serial recv, reserv = 0, func_id = fst (f (args recv) (argc recv) w),
              argc = (if return_flag (func_id recv) then 1 else 0), args = Some [fst (snd (f (args recv) (argc recv) w))]\<rparr>,
             snd (snd (f (args recv) (argc recv) w))))
     else (\<lparr>serial = serial recv, reserv = 0, func_id = E_INVALIDARG, argc = 0, args = Some [v]\<rparr>, w))"
  using assms by (cases send) (auto simp: bcap_callfunc_def Let_def split_beta split: option.splits)

text \<open>
  A registered call function, and it alone, is called with the arguments of every
  request of its number; the reply has the number of the request, the code and the value the
  function returned, and a value only where the table says so. Registering one function changes
  the answer to no other number.
\<close>

lemma registered_function_called:
  assumes "length funcs = 138" and "0 < sint fid" and "sint fid < 138"
    and send: "args send = Some [v]" "VariantClear v \<noteq> None"
    and reg: "bCap_SetCallFunc fid (Some f) funcs = (hr, funcs')"
  shows "hr = S_OK \<and>
    (func_id recv = fid \<longrightarrow> (case f (args recv) (argc recv) w of (code, ret, w') \<Rightarrow>
       bcap_callfunc funcs' recv send w = Some (\<lparr>serial = serial recv, reserv = 0, func_id = code,
         argc = (if return_flag fid then 1 else 0), args = Some [ret]\<rparr>, w'))) \<and>
    (func_id recv \<noteq> fid \<longrightarrow> bcap_callfunc funcs' recv send w = bcap_callfunc funcs recv send w)"
proof -
  have r: "hr = S_OK" "funcs' = funcs[nat (sint fid) := Some f]"
    using reg assms(1-3) by (simp_all add: bCap_SetCallFunc_get)
  have other: "funcs' ! nat (sint (func_id recv)) = funcs ! nat (sint (func_id recv))"
    if "func_id recv \<noteq> fid" "0 < sint (func_id recv)"
    using that assms(2) sint_eq_nat [of "func_id recv" fid] by (simp add: r(2))
  show ?thesis
    using assms(1-3) other by (auto simp: r bcap_callfunc_cases [OF send] split_beta)
qed

lemma registered_function_called_witness:
  "bcap_callfunc (snd (bCap_SetCallFunc 8 (Some (\<lambda>as n w. (S_OK, Variant VT_I4 (Bits 7), Suc w))) (replicate 138 None)))
     \<lparr>serial = 3, reserv = 0, func_id = 8, argc = 0, args = None\<rparr> (zero_packet\<lparr>args := Some [zero_variant]\<rparr>) (0::nat) =
   Some (\<lparr>serial = 3, reserv = 0, func_id = S_OK, argc = 1, args = Some [Variant VT_I4 (Bits 7)]\<rparr>, 1)"
proof -
  have v: "VariantClear zero_variant \<noteq> None" and f: "return_flag 8" by code_simp+
  show ?thesis
    using registered_function_called [of "replicate 138 None" 8 "zero_packet\<lparr>args := Some [zero_variant]\<rparr>" zero_variant
        "\<lambda>as n w. (S_OK, Variant VT_I4 (Bits 7), Suc w)" S_OK
        "snd (bCap_SetCallFunc 8 (Some (\<lambda>as n w. (S_OK, Variant VT_I4 (Bits 7), Suc w))) (replicate 138 None))"
        "\<lparr>serial = 3, reserv = 0, func_id = 8, argc = 0, args = None\<rparr>" 0] v f
    by (simp add: bCap_SetCallFunc_def prod_eq_iff)
qed

end
