(* ===== verification/VariantConvert.thy ===== *)
theory VariantConvert
  imports BcapDecode
begin

text \<open>
  The conversions of \<open>bcap_core/src/dn_common.c\<close>: \<open>VariantChangeType\<close> with its macro
  \<open>SubChangeType\<close>, \<open>Variant2Bstr\<close> and \<open>Bstr2Variant\<close>.

  Modelled are the conversions between the integer types (\<open>VT_CY\<close>, \<open>VT_DATE\<close> and \<open>VT_BOOL\<close>
  included: the code treats them as integers), from them to text, to \<open>double\<close>, and from text to
  them. The conversions from floating-point numbers and the text of dates go through the C
  library's formatting and are not modelled: they have the result \<open>None\<close> here. So has the
  text of \<open>VT_I4\<close> and \<open>VT_UI4\<close>, for another reason: \<open>%ld\<close> and \<open>%lu\<close> read a \<open>long\<close>, which is not
  what is passed.
\<close>

section \<open>Integers in a VARIANT\<close>

text \<open>The size in bytes of an integer type and whether it is signed.\<close>

definition int_type :: "u16 \<Rightarrow> (nat \<times> bool) option" where
  "int_type t =
     (if t = VT_I2 \<or> t = VT_BOOL then Some (2, True)
      else if t = VT_I4 then Some (4, True)
      else if t = VT_I8 \<or> t = VT_CY \<or> t = VT_DATE then Some (8, True)
      else if t = VT_UI1 then Some (1, False)
      else if t = VT_UI2 then Some (2, False)
      else if t = VT_UI4 then Some (4, False)
      else if t = VT_UI8 then Some (8, False)
      else None)"

text \<open>The conversion of an integer to a type.\<close>

fun conv_int :: "nat \<times> bool \<Rightarrow> int \<Rightarrow> int" where
  "conv_int (n, neg) v = (if neg then signed_take_bit (8 * n - 1) v else take_bit (8 * n) v)"

definition read_int :: "u16 \<Rightarrow> u64 \<Rightarrow> int option" where
  "read_int t w = map_option (\<lambda>ty. conv_int ty (uint w)) (int_type t)"

definition is_unsigned :: "u16 \<Rightarrow> bool" where
  "is_unsigned t \<longleftrightarrow> t \<in> {VT_UI1, VT_UI2, VT_UI4, VT_UI8}"

text \<open>
  The check of \<open>SubChangeType\<close>: \<open>t\<close> and \<open>v\<close> are the type and the value of the source. The limits
  are converted to the type of the source before they are compared; \<open>LONG_MIN\<close>, \<open>LONG_MAX\<close> and
  \<open>ULONG_MAX\<close> are those of a 64-bit \<open>long\<close>.
\<close>

definition overflows :: "u16 \<Rightarrow> u16 \<Rightarrow> int \<Rightarrow> bool" where
  "overflows t dst v =
     (case int_type t of
        None \<Rightarrow> False
      | Some ty \<Rightarrow>
          let narrow = (\<lambda>n. n < fst ty);
              outside = (\<lambda>lo hi. (\<not> is_unsigned t \<and> v < conv_int ty lo) \<or> conv_int ty hi < v)
          in if t = VT_BOOL then False
             else if dst = VT_I2 then narrow 2 \<and> outside (- 32768) 32767
             else if dst = VT_I4 then narrow 4 \<and> outside (- (2 ^ 63)) (2 ^ 63 - 1)
             else if dst = VT_I8 \<or> dst = VT_CY then narrow 8 \<and> outside (- (2 ^ 63)) (2 ^ 63 - 1)
             else if dst = VT_UI1 then v < 0 \<or> narrow 1 \<and> conv_int ty 65535 < v
             else if dst = VT_UI2 then t \<noteq> VT_I2 \<and> v < 0 \<or> narrow 2 \<and> conv_int ty 65535 < v
             else if dst = VT_UI4 then t \<noteq> VT_I4 \<and> v < 0 \<or> narrow 4 \<and> conv_int ty (2 ^ 64 - 1) < v
             else if dst = VT_UI8 then t \<noteq> VT_I8 \<and> v < 0 \<or> narrow 8 \<and> conv_int ty (2 ^ 64 - 1) < v
             else False)"

section \<open>Text\<close>

fun dec_digits :: "nat \<Rightarrow> wchar list" where
  "dec_digits n = (if n < 10 then [of_nat (48 + n)] else dec_digits (n div 10) @ [of_nat (48 + n mod 10)])"

declare dec_digits.simps [simp del]

text \<open>What \<open>%d\<close>, \<open>%u\<close>, \<open>%lld\<close> and \<open>%llu\<close> print.\<close>

definition dec_text :: "int \<Rightarrow> wchar list" where
  "dec_text v = (if v < 0 then 45 # dec_digits (nat (- v)) else dec_digits (nat v))"

text \<open>\<open>Variant2Bstr\<close>: the code and the string, which is \<open>NULL\<close> when there is no memory for it.\<close>

definition Variant2Bstr :: "(nat \<Rightarrow> bool) \<Rightarrow> u16 \<Rightarrow> u64 \<Rightarrow> (hresult \<times> bstr option) option" where
  "Variant2Bstr mok t w =
     (if t \<in> {VT_I2, VT_I8, VT_CY, VT_BOOL, VT_UI1, VT_UI2, VT_UI8} then
        (case read_int t w of
           None \<Rightarrow> None
         | Some v \<Rightarrow> map_option (Pair S_OK) (SysAllocString mok (Some (dec_text v @ [0]))))
      else if t \<in> {VT_I4, VT_UI4, VT_R4, VT_R8, VT_DATE} then None
      else Some (DISP_E_BADVARTYPE, None))"

text \<open>
  \<open>wcstol\<close> and \<open>wcstoul\<close> with base 0: white space, a sign, the prefix of the base, digits. The
  result is the sign, the magnitude and the rest; \<open>None\<close> when there are no digits.
\<close>

definition is_space :: "wchar \<Rightarrow> bool" where
  "is_space c \<longleftrightarrow> c = 32 \<or> 9 \<le> c \<and> c \<le> 13"

definition digit_in :: "nat \<Rightarrow> wchar \<Rightarrow> nat option" where
  "digit_in base c =
     (let d = (if 48 \<le> c \<and> c \<le> 57 then unat c - 48
               else if 97 \<le> c \<and> c \<le> 122 then unat c - 87
               else if 65 \<le> c \<and> c \<le> 90 then unat c - 55
               else base)
      in if d < base then Some d else None)"

fun read_digits :: "nat \<Rightarrow> nat \<Rightarrow> wchar list \<Rightarrow> nat \<times> wchar list" where
  "read_digits base n [] = (n, [])"
| "read_digits base n (c # cs) =
     (case digit_in base c of None \<Rightarrow> (n, c # cs) | Some d \<Rightarrow> read_digits base (n * base + d) cs)"

fun number_base :: "wchar list \<Rightarrow> nat \<times> wchar list" where
  "number_base (c # x # d # cs) =
     (if c = 48 \<and> (x = 120 \<or> x = 88) \<and> digit_in 16 d \<noteq> None then (16, d # cs)
      else (if c = 48 then 8 else 10, c # x # d # cs))"
| "number_base s = (if s \<noteq> [] \<and> hd s = 48 then 8 else 10, s)"

definition read_number :: "wchar list \<Rightarrow> (bool \<times> nat \<times> wchar list) option" where
  "read_number s =
     (let s1 = dropWhile is_space s;
          neg = (s1 \<noteq> [] \<and> hd s1 = 45);
          s2 = (if s1 \<noteq> [] \<and> (hd s1 = 45 \<or> hd s1 = 43) then drop 1 s1 else s1);
          (base, s3) = number_base s2
      in if s3 \<noteq> [] \<and> digit_in base (hd s3) \<noteq> None
         then (case read_digits base 0 s3 of (n, rest) \<Rightarrow> Some (neg, n, rest)) else None)"

text \<open>The value, the rest and whether \<open>errno\<close> is \<open>ERANGE\<close>.\<close>

definition wcstol :: "wchar list \<Rightarrow> int \<times> wchar list \<times> bool" where
  "wcstol s =
     (case read_number s of
        None \<Rightarrow> (0, s, False)
      | Some (neg, n, rest) \<Rightarrow>
          let v = (if neg then - int n else int n)
          in (max (- (2 ^ 63)) (min (2 ^ 63 - 1) v), rest, v < - (2 ^ 63) \<or> 2 ^ 63 - 1 < v))"

definition wcstoul :: "wchar list \<Rightarrow> int \<times> wchar list \<times> bool" where
  "wcstoul s =
     (case read_number s of
        None \<Rightarrow> (0, s, False)
      | Some (neg, n, rest) \<Rightarrow>
          if 2 ^ 64 - 1 < int n then (2 ^ 64 - 1, rest, True)
          else ((if neg then - int n else int n) mod 2 ^ 64, rest, False))"

section \<open>The conversions\<close>

text \<open>The \<open>n\<close> bytes of a value written over the union.\<close>

definition put_int :: "u16 \<Rightarrow> nat \<Rightarrow> u64 \<Rightarrow> int \<Rightarrow> variant" where
  "put_int t n old v = Variant t (Bits (overlay old (le_bytes n (word_of_int v :: u64))))"

text \<open>
  \<open>SubChangeType\<close> for a source of the integer type \<open>t\<close> and value \<open>v\<close>; \<open>d\<close> is the destination,
  \<open>old\<close> its union.
\<close>

definition change_int :: "(nat \<Rightarrow> bool) \<Rightarrow> u16 \<Rightarrow> u64 \<Rightarrow> int \<Rightarrow> u64 \<Rightarrow> variant \<Rightarrow> u16 \<Rightarrow> (hresult \<times> variant) option" where
  "change_int mok t w v old d dst =
     (if dst = VT_EMPTY \<or> dst = VT_NULL then Some (S_OK, Variant dst NULLP)
      else if dst = VT_ERROR then Some (DISP_E_TYPEMISMATCH, d)
      else if dst = VT_R4 then None
      else if dst = VT_R8 then Some (S_OK, Variant dst (Bits (fp_encode (fp_of_int v))))
      else if dst = VT_BSTR then
        (case Variant2Bstr mok t w of
           None \<Rightarrow> None
         | Some (hr, b) \<Rightarrow>
             if FAILED hr then Some (hr, d)
             else Some (hr, Variant dst (case b of None \<Rightarrow> NULLP | Some s \<Rightarrow> BstrP s)))
      else if dst = VT_BOOL then Some (S_OK, put_int dst 2 old (if v \<noteq> 0 then - 1 else 0))
      else (case int_type dst of
          None \<Rightarrow> Some (DISP_E_BADVARTYPE, d)
        | Some (n, _) \<Rightarrow>
            if overflows t dst v then Some (DISP_E_OVERFLOW, d) else Some (S_OK, put_int dst n old v)))"

text \<open>A number in text must end with the string or at a decimal point.\<close>

definition text_ends :: "wchar list \<Rightarrow> bool" where
  "text_ends rest \<longleftrightarrow> rest = [] \<or> hd rest = 46"

definition Bstr2Variant :: "(nat \<Rightarrow> bool) \<Rightarrow> u16 \<Rightarrow> bstr \<Rightarrow> variant \<Rightarrow> (hresult \<times> variant) option" where
  "Bstr2Variant mok dst b d =
     (case wcslen b of
        None \<Rightarrow> None
      | Some l \<Rightarrow>
          let s = take l b in
          if l = 0 then Some (DISP_E_TYPEMISMATCH, d)
          else if dst = VT_EMPTY \<or> dst = VT_NULL then Some (S_OK, zero_variant)
          else if dst = VT_ERROR then Some (DISP_E_TYPEMISMATCH, d)
          else if dst \<in> {VT_I2, VT_I4, VT_BOOL} then
            (case wcstol s of (v, rest, over) \<Rightarrow>
               let tmp = put_int VT_EMPTY 4 0 v; w = overlay 0 (le_bytes 4 (word_of_int v :: u64)) in
               if \<not> text_ends rest then Some (DISP_E_TYPEMISMATCH, d)
               else if over then Some (DISP_E_OVERFLOW, d)
               else if dst = VT_I4 then Some (S_OK, tmp)
               else (case change_int mok VT_I4 w (the (read_int VT_I4 w)) w tmp dst of
                   None \<Rightarrow> None
                 | Some (hr, v') \<Rightarrow> Some (if FAILED hr then (hr, d) else (hr, v'))))
          else if dst = VT_I8 \<or> dst = VT_CY then
            (case wcstol s of (v, rest, over) \<Rightarrow>
               if \<not> text_ends rest then Some (DISP_E_TYPEMISMATCH, d)
               else if over then Some (DISP_E_OVERFLOW, d)
               else Some (S_OK, put_int VT_EMPTY 8 0 v))
          else if dst \<in> {VT_UI1, VT_UI2, VT_UI4} then
            (case wcstoul s of (v, rest, over) \<Rightarrow>
               let tmp = put_int VT_EMPTY 4 0 v; w = overlay 0 (le_bytes 4 (word_of_int v :: u64)) in
               if \<not> text_ends rest then Some (DISP_E_TYPEMISMATCH, d)
               else if over then Some (DISP_E_OVERFLOW, d)
               else if dst \<noteq> VT_UI4 then
                 (case change_int mok VT_UI4 w (the (read_int VT_UI4 w)) w tmp dst of
                    None \<Rightarrow> None
                  | Some (hr, v') \<Rightarrow> Some (if FAILED hr then (hr, d) else (hr, v')))
               else if hd s = 45 then Some (DISP_E_OVERFLOW, d)
               else Some (S_OK, tmp))
          else if dst = VT_UI8 then
            (case wcstoul s of (v, rest, over) \<Rightarrow>
               if \<not> text_ends rest then Some (DISP_E_TYPEMISMATCH, d)
               else if over \<or> hd s = 45 then Some (DISP_E_OVERFLOW, d)
               else Some (S_OK, put_int VT_EMPTY 8 0 v))
          else if dst \<in> {VT_R4, VT_R8, VT_DATE} then None
          else Some (DISP_E_BADVARTYPE, d))"

text \<open>\<open>same\<close>: the two pointers are equal; otherwise the destination is cleared first.\<close>

definition set_vt :: "u16 \<Rightarrow> hresult \<times> variant \<Rightarrow> hresult \<times> variant" where
  "set_vt t r = (if SUCCEEDED (fst r) then (fst r, Variant t (val (snd r))) else r)"

definition VariantChangeType :: "(nat \<Rightarrow> bool) \<Rightarrow> bool \<Rightarrow> variant \<Rightarrow> variant \<Rightarrow> u16 \<Rightarrow> (hresult \<times> variant) option" where
  "VariantChangeType mok same dst src t =
     (case (if same then Some src else VariantClear dst) of
        None \<Rightarrow> None
      | Some d \<Rightarrow>
          let old = (case val d of Bits w \<Rightarrow> w | _ \<Rightarrow> 0) in
          if t = vt src then (if same then Some (S_OK, src) else VariantCopy_to mok src d)
          else if vt src = VT_EMPTY then
            (if t = VT_BSTR then map_option (\<lambda>b. (S_OK, Variant t (case b of None \<Rightarrow> NULLP | Some s \<Rightarrow> BstrP s))) (SysAllocString mok (Some [0]))
             else if t = VT_ERROR then Some (DISP_E_TYPEMISMATCH, d)
             else Some (S_OK, Variant t NULLP))
          else if vt src = VT_NULL \<or> vt src = VT_ERROR then Some (DISP_E_TYPEMISMATCH, d)
          else if vt src = VT_R4 \<or> vt src = VT_R8 then None
          else if vt src = VT_BSTR then
            (case val src of BstrP b \<Rightarrow> map_option (set_vt t) (Bstr2Variant mok t b d) | _ \<Rightarrow> None)
          else (case (int_type (vt src), val src) of
              (None, _) \<Rightarrow> Some (DISP_E_BADVARTYPE, d)
            | (Some ty, Bits w) \<Rightarrow> change_int mok (vt src) w (conv_int ty (uint w)) old d t
            | _ \<Rightarrow> None))"

section \<open>Integers: where the conversion is exact\<close>

text \<open>The ranges of the types.\<close>

lemma conv_int_fix:
  "0 < n \<Longrightarrow> conv_int (n, neg) v = v \<longleftrightarrow>
     (if neg then - (2 ^ (8 * n - 1)) \<le> v \<and> v < 2 ^ (8 * n - 1) else 0 \<le> v \<and> v < 2 ^ (8 * n))"
  by (simp add: signed_take_bit_int_eq_self_iff take_bit_int_eq_self_iff)

lemma conv_int_idem: "0 < n \<Longrightarrow> conv_int (n, neg) (conv_int (n, neg) v) = conv_int (n, neg) v"
  by simp

lemma int_type_pos: "int_type t = Some (n, neg) \<Longrightarrow> 0 < n \<and> n \<le> 8"
  by (auto simp: int_type_def split: if_splits)

definition int_fits :: "u16 \<Rightarrow> int \<Rightarrow> bool" where
  "int_fits t v \<longleftrightarrow> (case int_type t of None \<Rightarrow> False | Some ty \<Rightarrow> conv_int ty v = v)"

lemma read_int_fits: "read_int t w = Some v \<Longrightarrow> int_fits t v"
  by (auto simp: read_int_def int_fits_def dest: int_type_pos)

lemma int_fits_simps [simp]:
  "int_fits VT_I2 v \<longleftrightarrow> - 32768 \<le> v \<and> v < 32768"
  "int_fits VT_BOOL v \<longleftrightarrow> - 32768 \<le> v \<and> v < 32768"
  "int_fits VT_I4 v \<longleftrightarrow> - 2147483648 \<le> v \<and> v < 2147483648"
  "int_fits VT_I8 v \<longleftrightarrow> - 9223372036854775808 \<le> v \<and> v < 9223372036854775808"
  "int_fits VT_CY v \<longleftrightarrow> - 9223372036854775808 \<le> v \<and> v < 9223372036854775808"
  "int_fits VT_DATE v \<longleftrightarrow> - 9223372036854775808 \<le> v \<and> v < 9223372036854775808"
  "int_fits VT_UI1 v \<longleftrightarrow> 0 \<le> v \<and> v < 256"
  "int_fits VT_UI2 v \<longleftrightarrow> 0 \<le> v \<and> v < 65536"
  "int_fits VT_UI4 v \<longleftrightarrow> 0 \<le> v \<and> v < 4294967296"
  "int_fits VT_UI8 v \<longleftrightarrow> 0 \<le> v \<and> v < 18446744073709551616"
  by (simp_all add: int_fits_def int_type_def conv_int_fix del: conv_int.simps)

text \<open>
  The pairs of types for which the check is right. Missing are those where a limit is converted
  to the type of the source or is the limit of a 64-bit \<open>long\<close>, and those that are not checked.
\<close>

definition exact_pair :: "u16 \<Rightarrow> u16 \<Rightarrow> bool" where
  "exact_pair t dst \<longleftrightarrow>
     t \<in> {VT_I4, VT_I8, VT_CY, VT_DATE, VT_BOOL, VT_UI1, VT_UI4, VT_UI8} \<and> dst = VT_I2 \<or>
     t \<in> {VT_I2, VT_BOOL, VT_UI1, VT_UI2} \<and> dst = VT_I4 \<or>
     t \<in> {VT_I2, VT_I4, VT_BOOL, VT_UI1, VT_UI2, VT_UI4} \<and> dst \<in> {VT_I8, VT_CY, VT_DATE} \<or>
     t \<in> {VT_I4, VT_I8, VT_CY, VT_DATE, VT_UI1, VT_UI4, VT_UI8} \<and> dst = VT_UI2 \<or>
     t \<in> {VT_I2, VT_UI1, VT_UI2} \<and> dst = VT_UI4 \<or>
     t \<in> {VT_I2, VT_I4, VT_CY, VT_DATE, VT_UI1, VT_UI2, VT_UI4} \<and> dst = VT_UI8"

lemma conv_limits [simp]:
  "conv_int (4, neg) 32767 = 32767" "conv_int (8, neg) 32767 = 32767"
  "conv_int (4, True) (- 32768) = - 32768" "conv_int (8, True) (- 32768) = - 32768"
  "conv_int (4, neg) 65535 = 65535" "conv_int (8, neg) 65535 = 65535"
  by (simp_all add: conv_int_fix del: conv_int.simps)

lemma overflows_exact:
  assumes "exact_pair t dst" and "int_fits t v"
  shows "overflows t dst v \<longleftrightarrow> \<not> int_fits dst v"
  using assms(1) unfolding exact_pair_def
  by (elim disjE conjE insertE emptyE)
    (use assms(2) in \<open>auto simp: overflows_def int_type_def is_unsigned_def simp del: conv_int.simps\<close>)

text \<open>What is read back from the union after the bytes of the destination type were written.\<close>

lemma le_word_append: "le_word (xs @ ys) = (le_word xs OR push_bit (8 * length xs) (le_word ys) :: 'a::len word)"
proof (induction xs)
  case (Cons x xs)
  then show ?case by (auto simp: bit_eq_iff bit_simps)
qed simp

lemma take_bit_overlay:
  "n \<le> 8 \<Longrightarrow> take_bit (8 * n) (overlay old (le_bytes n (w :: u64))) = take_bit (8 * n) w"
  by (auto simp: overlay_def le_word_append le_word_le_bytes bit_eq_iff bit_simps)

lemma read_put_int:
  assumes "int_type t = Some (n, neg)"
  shows "read_int t (overlay old (le_bytes n (word_of_int v :: u64))) = Some (conv_int (n, neg) v)"
proof -
  have n: "0 < n" "n \<le> 8" using int_type_pos [OF assms] by simp_all
  let ?w = "overlay old (le_bytes n (word_of_int v :: u64))"
  have "take_bit (8 * n) (uint ?w) = uint (take_bit (8 * n) ?w)" by (simp add: unsigned_take_bit_eq)
  also have "\<dots> = take_bit (8 * n) (take_bit 64 v)"
    using n(2) by (simp add: take_bit_overlay unsigned_take_bit_eq uint_word_of_int_eq)
  also have "\<dots> = take_bit (8 * n) v" using n(2) by simp
  finally have t: "take_bit (8 * n) (uint ?w) = take_bit (8 * n) v" .
  have "signed_take_bit (8 * n - 1) (uint ?w) = signed_take_bit (8 * n - 1) v"
    using t n(1) by (metis Suc_pred' mult_pos_pos signed_take_bit_eq_iff_take_bit_eq zero_less_numeral)
  then show ?thesis using assms t by (simp add: read_int_def)
qed

lemma VariantChangeType_int:
  assumes "int_type t = Some ty" and "dst \<noteq> t" and "VariantClear d = Some zero_variant"
  shows "VariantChangeType mok same d (Variant t (Bits w)) dst =
    change_int mok t w (conv_int ty (uint w)) (if same then w else 0) (if same then Variant t (Bits w) else zero_variant) dst"
  using assms by (auto simp: VariantChangeType_def int_type_def split: if_splits)

lemma exact_pair_types:
  assumes "exact_pair t dst"
  shows "int_type t \<noteq> None \<and> int_type dst \<noteq> None \<and> dst \<noteq> t \<and>
    dst \<noteq> VT_EMPTY \<and> dst \<noteq> VT_NULL \<and> dst \<noteq> VT_ERROR \<and> dst \<noteq> VT_R4 \<and> dst \<noteq> VT_R8 \<and> dst \<noteq> VT_BSTR \<and> dst \<noteq> VT_BOOL"
  using assms unfolding exact_pair_def
  by (elim disjE conjE insertE emptyE) (simp_all add: int_type_def)

text \<open>
  Between the pairs of integer types of \<open>exact_pair\<close>, \<open>VariantChangeType\<close> is exact: a
  value the destination type can hold is there afterwards, another one is refused with an
  overflow and the destination is left as it was (cleared, when it is another variable).
\<close>

lemma VariantChangeType_exact:
  assumes pair: "exact_pair t dst" and v: "read_int t w = Some v" and d: "VariantClear d = Some zero_variant"
  shows "if int_fits dst v
    then \<exists>w'. VariantChangeType mok same d (Variant t (Bits w)) dst = Some (S_OK, Variant dst (Bits w')) \<and> read_int dst w' = Some v
    else VariantChangeType mok same d (Variant t (Bits w)) dst =
      Some (DISP_E_OVERFLOW, if same then Variant t (Bits w) else zero_variant)"
proof -
  obtain ty n neg where t: "int_type t = Some ty" "int_type dst = Some (n, neg)"
    using exact_pair_types [OF pair] by (cases "int_type t"; cases "int_type dst") auto
  have vv: "conv_int ty (uint w) = v" using v t(1) by (simp add: read_int_def)
  have ov: "overflows t dst v \<longleftrightarrow> \<not> int_fits dst v" by (rule overflows_exact [OF pair read_int_fits [OF v]])
  have "read_int dst (overlay old (le_bytes n (word_of_int v :: u64))) = Some v" if "int_fits dst v" for old
    using read_put_int [OF t(2)] that t(2) by (simp add: int_fits_def)
  then show ?thesis
    using VariantChangeType_int [OF t(1) _ d] exact_pair_types [OF pair] t(2)
    by (auto simp: change_int_def vv ov put_int_def)
qed

lemma VariantChangeType_exact_witness:
  "(\<exists>w'. VariantChangeType mem_ok True zero_variant (Variant VT_I4 (Bits 40000)) VT_UI2 = Some (S_OK, Variant VT_UI2 (Bits w')) \<and>
     read_int VT_UI2 w' = Some 40000) \<and>
   VariantChangeType mem_ok False zero_variant (Variant VT_I4 (Bits 40000)) VT_I2 = Some (DISP_E_OVERFLOW, zero_variant)"
proof -
  have r: "read_int VT_I4 40000 = Some 40000" and c: "VariantClear zero_variant = Some zero_variant" by code_simp+
  show ?thesis
    using VariantChangeType_exact [of VT_I4 VT_UI2 40000 40000 zero_variant mem_ok True]
      VariantChangeType_exact [of VT_I4 VT_I2 40000 40000 zero_variant mem_ok False] r c
    by (auto simp: exact_pair_def)
qed

text \<open>
  The pairs left out are wrong. A 64-bit value that is not negative is never
  converted to 32 unsigned bits, whatever it is; a 16-bit value that is not negative is never
  converted to a byte; a 32-bit value from 256 to 65535 becomes a byte without an error; a 64-bit
  value of any size becomes 32 signed bits without one.
\<close>

lemma VariantChangeType_inexact:
  assumes "VariantClear d = Some zero_variant"
  shows "(read_int VT_I8 w = Some v \<and> 0 \<le> v \<longrightarrow>
      VariantChangeType mok False d (Variant VT_I8 (Bits w)) VT_UI4 = Some (DISP_E_OVERFLOW, zero_variant)) \<and>
    (read_int VT_I2 w = Some v \<and> 0 \<le> v \<longrightarrow>
      VariantChangeType mok False d (Variant VT_I2 (Bits w)) VT_UI1 = Some (DISP_E_OVERFLOW, zero_variant)) \<and>
    (read_int VT_I4 w = Some v \<and> 0 \<le> v \<and> v \<le> 65535 \<longrightarrow>
      (\<exists>w'. VariantChangeType mok False d (Variant VT_I4 (Bits w)) VT_UI1 = Some (S_OK, Variant VT_UI1 (Bits w')) \<and>
        read_int VT_UI1 w' = Some (v mod 256))) \<and>
    (read_int VT_I8 w = Some v \<longrightarrow>
      (\<exists>w'. VariantChangeType mok False d (Variant VT_I8 (Bits w)) VT_I4 = Some (S_OK, Variant VT_I4 (Bits w')) \<and>
        read_int VT_I4 w' = Some (signed_take_bit 31 v)))"
proof -
  have t: "int_type VT_I8 = Some (8, True)" "int_type VT_I2 = Some (2, True)" "int_type VT_I4 = Some (4, True)"
    "int_type VT_UI1 = Some (1, False)" "int_type VT_UI4 = Some (4, False)"
    by (simp_all add: int_type_def)
  have m: "conv_int (8, True) (2 ^ 64 - 1) = - 1" "conv_int (2, True) 65535 = - 1"
    "conv_int (8, True) (- (2 ^ 63)) = - (2 ^ 63)" "conv_int (8, True) (2 ^ 63 - 1) = 2 ^ 63 - 1" by code_simp+
  have r: "read_int VT_UI1 (overlay 0 (le_bytes 1 (word_of_int v :: u64))) = Some (v mod 256)"
    "read_int VT_I4 (overlay 0 (le_bytes 4 (word_of_int v :: u64))) = Some (signed_take_bit 31 v)"
    using read_put_int [OF t(4), of 0 v] read_put_int [OF t(3), of 0 v] by (simp_all add: take_bit_eq_mod)
  note ch = VariantChangeType_int [OF t(1) _ assms] VariantChangeType_int [OF t(2) _ assms] VariantChangeType_int [OF t(3) _ assms]
  have fits: "- (2 ^ 63) \<le> v \<and> v \<le> 2 ^ 63 - 1" if "read_int VT_I8 w = Some v" using read_int_fits [OF that] by simp
  show ?thesis
    using t r m fits
    by (auto simp: ch change_int_def overflows_def is_unsigned_def put_int_def read_int_def Let_def simp del: conv_int.simps)
qed

lemma VariantChangeType_inexact_witness:
  "VariantChangeType mem_ok False zero_variant (Variant VT_I8 (Bits 5)) VT_UI4 = Some (DISP_E_OVERFLOW, zero_variant) \<and>
   (\<exists>w'. VariantChangeType mem_ok False zero_variant (Variant VT_I4 (Bits 300)) VT_UI1 = Some (S_OK, Variant VT_UI1 (Bits w')) \<and>
     read_int VT_UI1 w' = Some 44)"
proof -
  have r: "read_int VT_I8 5 = Some 5" "read_int VT_I4 300 = Some 300" and c: "VariantClear zero_variant = Some zero_variant"
    by code_simp+
  show ?thesis
    using VariantChangeType_inexact [OF c, of 5 5 mem_ok] VariantChangeType_inexact [OF c, of 300 300 mem_ok] r by auto
qed

section \<open>Integers through text\<close>

lemma digit_in_dec:
  assumes "d < 10" and "d < base"
  shows "digit_in base (48 + of_nat d) = Some d"
proof -
  have "d \<in> set [0..<10]" using assms(1) by simp
  then show ?thesis using assms(2) by (auto simp: digit_in_def upt_rec)
qed

lemma read_digits_append:
  "read_digits base n (xs @ ys) = (case read_digits base n xs of (n', []) \<Rightarrow> read_digits base n' ys | (n', r) \<Rightarrow> (n', r @ ys))"
  by (induction base n xs rule: read_digits.induct) (auto split: option.splits)

lemma read_dec_digits: "read_digits 10 0 (dec_digits n) = (n, [])"
proof (induction n rule: dec_digits.induct)
  case (1 n)
  show ?case
  proof (cases "n < 10")
    case True
    then show ?thesis by (subst dec_digits.simps) (simp add: digit_in_dec)
  next
    case False
    have "read_digits 10 (n div 10) [48 + of_nat (n mod 10)] = (n, [])"
      using digit_in_dec [of "n mod 10" 10] by simp
    then show ?thesis
      using False 1 by (subst dec_digits.simps) (simp add: read_digits_append)
  qed
qed

lemma dec_digits_first:
  "dec_digits n \<noteq> [] \<and> (\<exists>d. d < 10 \<and> hd (dec_digits n) = of_nat (48 + d) \<and> (0 < n \<longrightarrow> 0 < d)) \<and> (n = 0 \<longrightarrow> dec_digits n = [48])"
proof (induction n rule: dec_digits.induct)
  case (1 n)
  show ?case
  proof (cases "n < 10")
    case True
    then show ?thesis by (subst (1 2 3) dec_digits.simps) auto
  next
    case False
    then have "0 < n div 10" by simp
    then show ?thesis using 1 False by (subst (1 2 3) dec_digits.simps) auto
  qed
qed

lemma dec_digits_set: "c \<in> set (dec_digits n) \<Longrightarrow> \<exists>d. d < 10 \<and> c = of_nat (48 + d)"
proof (induction n rule: dec_digits.induct)
  case (1 n)
  then show ?case
    by (cases "n < 10") (auto simp: dec_digits.simps [of n] intro: exI [of _ "n mod 10"])
qed

lemma length_dec_digits: "n < 10 ^ k \<Longrightarrow> 0 < k \<Longrightarrow> length (dec_digits n) \<le> k"
proof (induction n arbitrary: k rule: dec_digits.induct)
  case (1 n)
  show ?case
  proof (cases "n < 10")
    case True
    then show ?thesis using 1 by (simp add: dec_digits.simps [of n])
  next
    case False
    then obtain j where k: "k = Suc j" "0 < j" using 1 by (cases k; cases "k - 1") auto
    have "n div 10 < 10 ^ j" using 1(2) k by (simp add: less_mult_imp_div_less mult.commute)
    then show ?thesis using 1(1) False k by (simp add: dec_digits.simps [of n])
  qed
qed

lemma number_base_ten: "s \<noteq> [] \<Longrightarrow> hd s \<noteq> 48 \<Longrightarrow> number_base s = (10, s)"
  by (cases s rule: number_base.cases) auto

lemma digit_small:
  assumes "d < 10"
  shows "\<not> is_space (48 + of_nat d) \<and> (48 + of_nat d :: wchar) \<noteq> 45 \<and> (48 + of_nat d :: wchar) \<noteq> 43 \<and>
    (48 + of_nat d :: wchar) \<noteq> 0 \<and> (0 < d \<longrightarrow> (48 + of_nat d :: wchar) \<noteq> 48)"
proof -
  have "d \<in> set [0..<10]" using assms by simp
  then show ?thesis by (auto simp: is_space_def upt_rec)
qed

lemma read_number_digits:
  shows "read_number (dec_digits n) = Some (False, n, [])" and "0 < n \<Longrightarrow> read_number (45 # dec_digits n) = Some (True, n, [])"
proof -
  obtain d where d: "dec_digits n \<noteq> []" "d < 10" "hd (dec_digits n) = 48 + of_nat d" "0 < n \<longrightarrow> 0 < d" "n = 0 \<longrightarrow> dec_digits n = [48]"
    using dec_digits_first [of n] by auto
  note sm = digit_small [OF d(2)]
  have dig: "digit_in 10 (hd (dec_digits n)) \<noteq> None" using digit_in_dec [of d 10] d(2,3) by simp
  have skip: "dropWhile is_space (dec_digits n) = dec_digits n" using d(1,3) sm by (cases "dec_digits n") auto
  have base: "0 < n \<Longrightarrow> number_base (dec_digits n) = (10, dec_digits n)" using number_base_ten [OF d(1)] d(3,4) sm by simp
  show "read_number (dec_digits n) = Some (False, n, [])"
  proof (cases "n = 0")
    case True
    then show ?thesis using d(5) by (simp add: read_number_def is_space_def digit_in_def)
  next
    case False
    then show ?thesis using skip base dig d(1,3) sm read_dec_digits [of n] by (simp add: read_number_def Let_def)
  qed
  show "read_number (45 # dec_digits n) = Some (True, n, [])" if "0 < n"
    using base that dig d(1) read_dec_digits [of n] by (simp add: read_number_def Let_def is_space_def)
qed

lemma read_number_dec_text: "read_number (dec_text v) = Some (v < 0, nat \<bar>v\<bar>, [])"
  using read_number_digits(1) [of "nat v"] read_number_digits(2) [of "nat (- v)"] by (auto simp: dec_text_def)

lemma wcstol_dec_text: "- (2 ^ 63) \<le> v \<Longrightarrow> v < 2 ^ 63 \<Longrightarrow> wcstol (dec_text v) = (v, [], False)"
  by (simp add: wcstol_def read_number_dec_text Let_def)

lemma wcstoul_dec_text: "0 \<le> v \<Longrightarrow> v < 2 ^ 64 \<Longrightarrow> wcstoul (dec_text v) = (v, [], False)"
  by (simp add: wcstoul_def read_number_dec_text)

lemma dec_text_bstr:
  assumes "\<bar>v\<bar> < 10 ^ 20"
  shows "0 \<notin> set (dec_text v)" and "dec_text v \<noteq> []" and "wf_bstr (dec_text v @ [0])" and "0 \<le> v \<Longrightarrow> hd (dec_text v) \<noteq> 45"
proof -
  have ne: "0 \<notin> set (dec_digits n)" for n using dec_digits_set [of 0 n] digit_small by auto
  then show z: "0 \<notin> set (dec_text v)" by (auto simp: dec_text_def)
  have "nat \<bar>v\<bar> < 10 ^ 20" using assms by (simp add: nat_less_iff)
  then have "length (dec_digits (nat \<bar>v\<bar>)) \<le> 20" by (rule length_dec_digits) simp
  then have "length (dec_text v) \<le> 21" by (auto simp: dec_text_def)
  then show "wf_bstr (dec_text v @ [0])" using z by (simp add: wf_bstr_def)
  show "dec_text v \<noteq> []" using dec_digits_first by (auto simp: dec_text_def)
  show "0 \<le> v \<Longrightarrow> hd (dec_text v) \<noteq> 45"
    using dec_digits_first [of "nat v"] digit_small by (auto simp: dec_text_def)
qed

text \<open>
  A 16- or 64-bit integer, signed or not, or a byte, converted to text by
  \<open>VariantChangeType\<close> and back to its type, is the same value.
\<close>

lemma VariantChangeType_text_roundtrip:
  assumes t: "t \<in> {VT_I2, VT_I8, VT_CY, VT_UI1, VT_UI2, VT_UI8}" and v: "read_int t w = Some v"
    and d: "VariantClear d = Some zero_variant"
  shows "\<exists>b. VariantChangeType mem_ok False d (Variant t (Bits w)) VT_BSTR = Some (S_OK, Variant VT_BSTR (BstrP b)) \<and>
    (\<exists>w'. VariantChangeType mem_ok False d (Variant VT_BSTR (BstrP b)) t = Some (S_OK, Variant t (Bits w')) \<and> read_int t w' = Some v)"
proof -
  have range: "int_fits t v" using read_int_fits [OF v] .
  then have small: "\<bar>v\<bar> < 10 ^ 20" using t by auto
  note tx = dec_text_bstr [OF small]
  let ?b = "dec_text v @ [0]" and ?low = "\<lambda>k old. overlay old (le_bytes k (word_of_int v :: u64))"
  obtain n neg where ty: "int_type t = Some (n, neg)" using v by (auto simp: read_int_def)
  have cv: "conv_int (n, neg) (uint w) = v" "conv_int (n, neg) v = v"
    using v range ty by (auto simp: read_int_def int_fits_def simp del: conv_int.simps)
  have rd: "read_int t (?low n old) = Some v" for old using read_put_int [OF ty] cv(2) by simp
  have to_text: "VariantChangeType mem_ok False d (Variant t (Bits w)) VT_BSTR = Some (S_OK, Variant VT_BSTR (BstrP ?b))"
    using t ty d v SysAllocString_wf [OF tx(3)] by (auto simp: VariantChangeType_int change_int_def Variant2Bstr_def)
  have w4: "read_int VT_I4 (?low 4 0) = Some (conv_int (4, True) v)" "read_int VT_UI4 (?low 4 0) = Some (conv_int (4, False) v)"
    by (rule read_put_int; simp add: int_type_def)+
  have wl: "wcslen ?b = Some (length (dec_text v))" using tx(1) wcslen_append [of "dec_text v" "[]"] by simp
  have "\<exists>x old. Bstr2Variant mem_ok t ?b zero_variant = Some (S_OK, put_int x n old v)"
  proof -
    consider "t = VT_I2" | "t = VT_I8 \<or> t = VT_CY" | "t = VT_UI1 \<or> t = VT_UI2" | "t = VT_UI8" using t by auto
    then show ?thesis
    proof cases
      case 1
      then have "conv_int (4, True) v = v" using range by (simp add: conv_int_fix del: conv_int.simps)
      then show ?thesis
        using 1 range ty w4 wl tx(2) wcstol_dec_text [of v]
        by (auto simp: Bstr2Variant_def Let_def text_ends_def change_int_def overflows_def is_unsigned_def int_type_def simp del: conv_int.simps)
    next
      case 2
      then show ?thesis
        using range ty wl tx(2) wcstol_dec_text [of v]
        by (intro exI [of _ VT_EMPTY] exI [of _ 0]) (auto simp: Bstr2Variant_def Let_def text_ends_def int_type_def)
    next
      case 3
      then have "conv_int (4, False) v = v" using range by (auto simp: conv_int_fix simp del: conv_int.simps)
      then have w: "read_int VT_UI4 (?low 4 0) = Some v" using w4(2) by simp
      have "conv_int (4, False) 65535 = 65535" by code_simp
      then have ov: "\<not> overflows VT_UI4 t v" using 3 range by (auto simp: overflows_def int_type_def simp del: conv_int.simps)
      have "wcstoul (dec_text v) = (v, [], False)" using 3 range by (intro wcstoul_dec_text) auto
      with 3 ov w ty wl tx(2) have "Bstr2Variant mem_ok t ?b zero_variant = Some (S_OK, put_int t n (?low 4 0) v)"
        by (auto simp: Bstr2Variant_def Let_def text_ends_def change_int_def)
      then show ?thesis by blast
    next
      case 4
      then show ?thesis
        using range ty wl tx(2,4) wcstoul_dec_text [of v]
        by (intro exI [of _ VT_EMPTY] exI [of _ 0]) (auto simp: Bstr2Variant_def Let_def text_ends_def int_type_def)
    qed
  qed
  then obtain x old where "Bstr2Variant mem_ok t ?b zero_variant = Some (S_OK, put_int x n old v)" by blast
  then have "VariantChangeType mem_ok False d (Variant VT_BSTR (BstrP ?b)) t = Some (S_OK, Variant t (Bits (?low n old)))"
    using t d by (auto simp: VariantChangeType_def put_int_def set_vt_def)
  then show ?thesis using to_text rd by blast
qed

lemma VariantChangeType_text_roundtrip_witness:
  "\<exists>b. VariantChangeType mem_ok False zero_variant (Variant VT_I8 (Bits (- 123))) VT_BSTR = Some (S_OK, Variant VT_BSTR (BstrP b)) \<and>
    (\<exists>w'. VariantChangeType mem_ok False zero_variant (Variant VT_BSTR (BstrP b)) VT_I8 = Some (S_OK, Variant VT_I8 (Bits w')) \<and>
      read_int VT_I8 w' = Some (- 123))"
proof (rule VariantChangeType_text_roundtrip)
  show "read_int VT_I8 (- 123) = Some (- 123)" "VariantClear zero_variant = Some zero_variant" by code_simp+
qed simp

end
