(* ===== verification/Options.thy ===== *)
theory Options
  imports VariantConvert
begin

text \<open>
  \<open>GetOptionValue\<close> of \<open>bcap_core/src/dn_common.c\<close>: the value of a key in an option string such as
  \<open>Server=192.168.0.1, WDT=400\<close>. The separators between balanced brackets do not count, and the
  outermost brackets are taken out of the string.

  The string is scanned once. \<open>pre\<close> are the characters that were scanned and kept, \<open>rest\<close> those
  to come, the terminator included: taking a bracket out moves what follows it by one place, with
  a \<open>memcpy\<close> of overlapping regions that is taken to do what \<open>memmove\<close> does. The name of an option
  that is empty or blank makes the code read before the start of a string: no defined result.
\<close>

section \<open>The scan\<close>

definition bracket_pair :: "wchar \<Rightarrow> (wchar \<times> wchar) option" where
  "bracket_pair c =
     (if c = 40 \<or> c = 41 then Some (40, 41)
      else if c = 91 \<or> c = 93 then Some (91, 93)
      else if c = 123 \<or> c = 125 then Some (123, 125)
      else if c = 60 \<or> c = 62 then Some (60, 62)
      else None)"

record opt_scan =
  level :: nat
  w_start :: wchar
  w_end :: wchar
  got_title :: bool
  opt_title :: "bstr option"
  one_opt :: "bstr option"
  len_title :: nat
  len_one :: nat

definition sub_string :: "(nat \<Rightarrow> bool) \<Rightarrow> wchar list \<Rightarrow> wchar list \<Rightarrow> nat \<Rightarrow> bstr option option" where
  "sub_string mok pre rest n = SysAllocStringLen mok (Some (drop (length pre - n) pre @ rest)) (of_nat n)"

text \<open>The blanks around a string; a blank string is read beyond its start.\<close>

definition trim :: "bstr \<Rightarrow> wchar list option" where
  "trim b =
     (case wcslen b of
        None \<Rightarrow> None
      | Some n \<Rightarrow>
          let s = dropWhile (\<lambda>c. c = 32) (take n b)
          in if s = [] then None else Some (rev (dropWhile (\<lambda>c. c = 32) (rev s))))"

definition wlower :: "wchar \<Rightarrow> wchar" where
  "wlower c = (if 65 \<le> c \<and> c \<le> 90 then c + 32 else c)"

definition wcsicmp_eq :: "bstr \<Rightarrow> bstr \<Rightarrow> bool" where
  "wcsicmp_eq a b \<longleftrightarrow> map wlower (takeWhile (\<lambda>c. c \<noteq> 0) a) = map wlower (takeWhile (\<lambda>c. c \<noteq> 0) b)"

text \<open>How the scan ends: with a code and the destination, or with the value of the key found.\<close>

datatype scanned = Ended hresult variant | Found "bstr option"

text \<open>\<open>=\<close> ends the name of an option.\<close>

definition end_title :: "(nat \<Rightarrow> bool) \<Rightarrow> wchar list \<Rightarrow> wchar list \<Rightarrow> opt_scan \<Rightarrow> opt_scan option" where
  "end_title mok pre rest st =
     (if 0 < len_title st
      then map_option (\<lambda>b. st\<lparr>opt_title := b, len_title := 0, got_title := True\<rparr>) (sub_string mok pre rest (len_title st))
      else Some (st\<lparr>got_title := True\<rparr>))"

text \<open>\<open>,\<close> or the end of the string ends an option: \<open>Inr\<close> goes on after a comma.\<close>

definition end_option :: "(nat \<Rightarrow> bool) \<Rightarrow> bstr \<Rightarrow> u16 \<Rightarrow> variant \<Rightarrow> wchar \<Rightarrow> wchar list \<Rightarrow> wchar list \<Rightarrow> opt_scan \<Rightarrow>
    (scanned + opt_scan) option" where
  "end_option mok key t dest c pre rest st =
     Option.bind (if 0 < len_one st then sub_string mok pre rest (len_one st) else Some (one_opt st)) (\<lambda>one.
     Option.bind (opt_title st) (\<lambda>b.
     Option.bind (trim b) (\<lambda>s.
     case SysAllocString mok (Some (s @ [0])) of
       Some (Some title) \<Rightarrow>
         if wcsicmp_eq title key then
           Option.bind (SysStringLen one) (\<lambda>n.
             if n = 0 then
               (if t = VT_BOOL then Some (Inl (Ended S_OK (put_int VT_BOOL 2 (case val dest of Bits w \<Rightarrow> w | _ \<Rightarrow> 0) (- 1))))
                else map_option (\<lambda>d. Inl (Ended S_OK d)) (VariantClear dest))
             else Some (Inl (Found one)))
         else if c = 44 then
           (case (SysAllocString mok (Some [0]), SysAllocString mok (Some [0])) of
              (Some e1, Some e2) \<Rightarrow>
                Some (Inr (st\<lparr>opt_title := e1, one_opt := e2, len_title := 0, len_one := 0, got_title := False\<rparr>))
            | _ \<Rightarrow> None)
         else map_option (\<lambda>d. Inl (Ended S_OK d)) (VariantClear dest)
     | _ \<Rightarrow> None)))"

text \<open>The bracket that counts at this level: the nesting after the character, and whether it is taken out.\<close>

definition nest :: "wchar \<Rightarrow> opt_scan \<Rightarrow> (opt_scan \<times> bool) option" where
  "nest c st0 =
     (let st = (case (level st0, bracket_pair c) of (0, Some (s, e)) \<Rightarrow> st0\<lparr>w_start := s, w_end := e\<rparr> | _ \<Rightarrow> st0)
      in if c = w_start st then Some (st\<lparr>level := level st + 1\<rparr>, level st = 0)
         else if c = w_end st then
           (if level st = 0 then None else Some (st\<lparr>level := level st - 1\<rparr>, level st = 1))
         else Some (st, False))"

definition count_char :: "opt_scan \<Rightarrow> opt_scan" where
  "count_char st = (if got_title st then st\<lparr>len_one := len_one st + 1\<rparr> else st\<lparr>len_title := len_title st + 1\<rparr>)"

fun scan_option :: "(nat \<Rightarrow> bool) \<Rightarrow> bstr \<Rightarrow> u16 \<Rightarrow> variant \<Rightarrow> opt_scan \<Rightarrow> wchar list \<Rightarrow> wchar list \<Rightarrow> scanned option" where
  "scan_option mok key t dest st pre [] = Some (Ended E_FAIL dest)"
| "scan_option mok key t dest st pre (c # rest) =
     (case nest c st of
        None \<Rightarrow> Some (Ended E_FAIL dest)
      | Some (st1, True) \<Rightarrow> scan_option mok key t dest st1 pre rest
      | Some (st1, False) \<Rightarrow>
          if level st1 = 0 \<and> c = 61 then
            (if got_title st1 then Some (Ended E_FAIL dest)
             else (case end_title mok pre (c # rest) st1 of
                 None \<Rightarrow> None
               | Some st2 \<Rightarrow> scan_option mok key t dest st2 (pre @ [c]) rest))
          else if level st1 = 0 \<and> (c = 44 \<or> c = 0) then
            (case end_option mok key t dest c pre (c # rest) st1 of
               None \<Rightarrow> None
             | Some (Inl r) \<Rightarrow> Some r
             | Some (Inr st2) \<Rightarrow> scan_option mok key t dest st2 (pre @ [c]) rest)
          else scan_option mok key t dest (count_char st1) (pre @ [c]) rest)"

text \<open>Strings of more than 65534 characters, whose length the code keeps in 16 bits, are left out.\<close>

definition GetOptionValue :: "(nat \<Rightarrow> bool) \<Rightarrow> bstr option \<Rightarrow> bstr option \<Rightarrow> u16 \<Rightarrow> variant \<Rightarrow> (hresult \<times> variant) option" where
  "GetOptionValue mok src key t dest =
     (case key of
        None \<Rightarrow> Some (E_INVALIDARG, dest)
      | Some k \<Rightarrow>
          (case (SysAllocString mok (Some (case src of None \<Rightarrow> [0] | Some s \<Rightarrow> s)), SysAllocString mok (Some [0]), SysAllocString mok (Some [0])) of
             (Some (Some target), Some title, Some one) \<Rightarrow>
               Option.bind (wcslen target) (\<lambda>n.
               if 65535 \<le> n then None
               else Option.bind
                 (scan_option mok k t dest \<lparr>level = 0, w_start = - 1, w_end = - 1, got_title = False, opt_title = title, one_opt = one,
                    len_title = 0, len_one = 0\<rparr> [] (take n target @ [0]))
                 (\<lambda>r. case r of
                    Ended hr d \<Rightarrow> Some (hr, d)
                  | Found one \<Rightarrow>
                      Option.bind one (\<lambda>b. Option.bind (trim b) (\<lambda>s.
                      Option.bind (SysAllocString mok (Some (s @ [0]))) (\<lambda>v.
                        VariantChangeType mok False dest (Variant VT_BSTR (case v of None \<Rightarrow> NULLP | Some b \<Rightarrow> BstrP b)) t)))))
           | _ \<Rightarrow> None))"

section \<open>Option strings without brackets\<close>

type_synonym option_list = "(wchar list \<times> wchar list) list"

definition plain :: "wchar \<Rightarrow> bool" where
  "plain c \<longleftrightarrow> c \<noteq> 0 \<and> c \<noteq> 44 \<and> c \<noteq> 61 \<and> c \<noteq> - 1 \<and> bracket_pair c = None"

definition wf_word :: "wchar list \<Rightarrow> bool" where
  "wf_word s \<longleftrightarrow> s \<noteq> [] \<and> list_all plain s \<and> hd s \<noteq> 32 \<and> last s \<noteq> 32"

fun render :: "option_list \<Rightarrow> wchar list" where
  "render [] = []"
| "render [(k, v)] = k @ 61 # v"
| "render ((k, v) # kv # kvs) = k @ 61 # v @ 44 # render (kv # kvs)"

fun lookup_option :: "bstr \<Rightarrow> option_list \<Rightarrow> wchar list option" where
  "lookup_option key [] = None"
| "lookup_option key ((k, v) # kvs) = (if wcsicmp_eq (k @ [0]) key then Some v else lookup_option key kvs)"

definition start_scan :: opt_scan where
  "start_scan = \<lparr>level = 0, w_start = - 1, w_end = - 1, got_title = False, opt_title = Some [0], one_opt = Some [0],
     len_title = 0, len_one = 0\<rparr>"

definition flat :: "opt_scan \<Rightarrow> bool" where
  "flat st \<longleftrightarrow> level st = 0 \<and> w_start st = - 1 \<and> w_end st = - 1"

lemma nest_flat:
  "flat st \<Longrightarrow> bracket_pair c = None \<Longrightarrow> c \<noteq> - 1 \<Longrightarrow> nest c st = Some (st, False)"
  by (simp add: nest_def flat_def)

lemma bracket_pair_separators [simp]: "bracket_pair 0 = None" "bracket_pair 44 = None" "bracket_pair 61 = None"
  by (simp_all add: bracket_pair_def)

lemma scan_plain:
  "flat st \<Longrightarrow> list_all plain xs \<Longrightarrow>
   scan_option mok key t dest st pre (xs @ rest) =
     scan_option mok key t dest (if got_title st then st\<lparr>len_one := len_one st + length xs\<rparr>
       else st\<lparr>len_title := len_title st + length xs\<rparr>) (pre @ xs) rest"
proof (induction xs arbitrary: st pre)
  case (Cons c xs)
  have "flat (count_char st)" using Cons.prems(1) by (simp add: flat_def count_char_def)
  then show ?case
    using Cons by (auto simp: nest_flat plain_def count_char_def)
qed simp

lemma sub_string_plain:
  assumes "0 \<notin> set xs" and "wcslen (xs @ rest) = Some l" and "l \<le> 16382"
  shows "sub_string mem_ok (pre @ xs) rest (length xs) = Some (Some (xs @ [0]))"
proof -
  have "length xs \<le> l" using assms(1,2) by (induction xs arbitrary: l) (auto split: if_splits)
  then have l: "length xs \<le> 16382" "unat (of_nat (length xs) :: u16) = length xs" "unat (of_nat l :: u16) = l"
    using assms(3) by (simp_all add: unat_of_nat take_bit_nat_eq_self)
  have "unat (if (of_nat (length xs) :: u16) < of_nat l then of_nat (length xs) else of_nat l :: u16) = length xs"
    using l \<open>length xs \<le> l\<close> by (auto simp: word_less_nat_alt)
  then show ?thesis
    using assms(2) l
    by (simp add: sub_string_def SysAllocStringLen_def Let_def replicate_append_same [symmetric])
qed

lemma wcslen_after:
  "0 \<notin> set xs \<Longrightarrow> wcslen (xs @ ys) = (case wcslen ys of None \<Rightarrow> None | Some l \<Rightarrow> Some (length xs + l))"
  by (induction xs) (auto split: option.splits)

lemma trim_word:
  assumes "wf_word s"
  shows "trim (s @ [0]) = Some s"
proof -
  have "0 \<notin> set s" using assms by (auto simp: wf_word_def plain_def list_all_iff)
  moreover have "dropWhile (\<lambda>c. c = 32) s = s" using assms by (cases s) (auto simp: wf_word_def)
  moreover have "dropWhile (\<lambda>c. c = 32) (rev s) = rev s"
    using assms by (cases s rule: rev_cases) (auto simp: wf_word_def)
  ultimately show ?thesis using assms by (simp add: trim_def wf_word_def)
qed

lemma word_bstr: "wf_word s \<Longrightarrow> length s \<le> 16382 \<Longrightarrow> wf_bstr (s @ [0])"
  by (auto simp: wf_bstr_def wf_word_def plain_def list_all_iff)

lemma empty_bstr [simp]: "SysAllocString mem_ok (Some [0]) = Some (Some [0])"
  by (rule SysAllocString_wf) (simp add: wf_bstr_def)

text \<open>One option, from the start of the scan to its separator.\<close>

lemma scan_one_option:
  assumes kv: "wf_word k" "wf_word v" and c: "c = 44 \<or> c = 0"
    and len: "wcslen (k @ 61 # v @ c # rest) = Some l" "l \<le> 16382" and d: "VariantClear dest = Some zero_variant"
  shows "scan_option mem_ok key t dest start_scan pre (k @ 61 # v @ c # rest) =
    (if wcsicmp_eq (k @ [0]) key then Some (Found (Some (v @ [0])))
     else if c = 44 then scan_option mem_ok key t dest start_scan (pre @ k @ 61 # v @ [c]) rest
     else Some (Ended S_OK zero_variant))"
proof -
  have z: "0 \<notin> set k" "0 \<notin> set v" and ne: "k \<noteq> []" "v \<noteq> []"
    using kv by (auto simp: wf_word_def plain_def list_all_iff)
  have pl: "list_all plain k" "list_all plain v" using kv by (auto simp: wf_word_def)
  have w: "wcslen (k @ 61 # v @ c # rest) = map_option (\<lambda>n. Suc (length k + n)) (wcslen (v @ c # rest))"
    "wcslen (v @ c # rest) = map_option (\<lambda>n. length v + n) (wcslen (c # rest))"
    using wcslen_after [OF z(1), of "61 # v @ c # rest"] wcslen_after [OF z(2), of "c # rest"]
    by (auto split: option.splits simp del: wcslen.simps(2)) (auto split: option.splits)
  obtain l' where l': "wcslen (v @ c # rest) = Some l'" "l = Suc (length k + l')" using len(1) w(1) by auto
  have l'16: "l' \<le> 16382" using l'(2) len(2) by simp
  have lv: "length k \<le> 16382" "length v \<le> 16382" using l' len(2) w(2) by auto
  let ?st1 = "start_scan\<lparr>len_title := length k\<rparr>"
  let ?st2 = "start_scan\<lparr>opt_title := Some (k @ [0]), got_title := True\<rparr>"
  let ?st3 = "?st2\<lparr>len_one := length v\<rparr>"
  have fl: "flat start_scan" "flat ?st1" "flat ?st2" "flat ?st3" by (simp_all add: flat_def start_scan_def)
  have t: "end_title mem_ok (pre @ k) (61 # v @ c # rest) ?st1 = Some ?st2"
    using sub_string_plain [OF z(1) len] ne by (simp add: end_title_def start_scan_def)
  have o: "sub_string mem_ok ((pre @ k @ [61]) @ v) (c # rest) (length v) = Some (Some (v @ [0]))"
    by (rule sub_string_plain [OF z(2) l'(1) l'16])
  have "unat (of_nat (length v) :: u16) = length v" using lv(2) by (simp add: unat_of_nat take_bit_nat_eq_self)
  then have "(of_nat (length v) :: u16) \<noteq> 0" using ne(2) by (metis length_0_conv unat_0)
  moreover have "SysStringLen (Some (v @ [0])) = Some (of_nat (length v))"
    using SysStringLen_wf [OF word_bstr [OF kv(2) lv(2)]] by simp
  ultimately have n: "SysStringLen (Some (v @ [0])) = Some (of_nat (length v))" "(of_nat (length v) :: u16) \<noteq> 0" by simp_all
  have e: "end_option mem_ok key t dest c (pre @ k @ 61 # v) (c # rest) ?st3 =
    (if wcsicmp_eq (k @ [0]) key then Some (Inl (Found (Some (v @ [0]))))
     else if c = 44 then Some (Inr start_scan) else Some (Inl (Ended S_OK zero_variant)))"
    using o n ne d trim_word [OF kv(1)] SysAllocString_wf [OF word_bstr [OF kv(1) lv(1)]]
    by (simp add: end_option_def start_scan_def)
  have "scan_option mem_ok key t dest start_scan pre (k @ 61 # v @ c # rest) =
      scan_option mem_ok key t dest ?st1 (pre @ k) (61 # v @ c # rest)"
    using scan_plain [OF fl(1) pl(1)] by (simp add: start_scan_def)
  also have "\<dots> = scan_option mem_ok key t dest ?st2 (pre @ k @ [61]) (v @ c # rest)"
    using t fl(2) by (simp add: nest_flat) (simp add: start_scan_def)
  also have "\<dots> = scan_option mem_ok key t dest ?st3 (pre @ k @ 61 # v) (c # rest)"
    using scan_plain [OF fl(3) pl(2)] by (simp add: start_scan_def)
  also have "\<dots> = (if wcsicmp_eq (k @ [0]) key then Some (Found (Some (v @ [0])))
     else if c = 44 then scan_option mem_ok key t dest start_scan (pre @ k @ 61 # v @ [c]) rest
     else Some (Ended S_OK zero_variant))"
    using e fl(4) c by (auto simp: nest_flat) (auto simp: start_scan_def)
  finally show ?thesis .
qed

definition wf_options :: "option_list \<Rightarrow> bool" where
  "wf_options opts \<longleftrightarrow> opts \<noteq> [] \<and> list_all (\<lambda>(k, v). wf_word k \<and> wf_word v) opts \<and> length (render opts) \<le> 16382"

lemma render_no_zero: "list_all (\<lambda>(k, v). wf_word k \<and> wf_word v) opts \<Longrightarrow> 0 \<notin> set (render opts)"
  by (induction opts rule: render.induct) (auto simp: wf_word_def plain_def list_all_iff)

lemma scan_options:
  "wf_options opts \<Longrightarrow> VariantClear dest = Some zero_variant \<Longrightarrow>
   scan_option mem_ok key t dest start_scan pre (render opts @ [0]) =
     Some (case lookup_option key opts of None \<Rightarrow> Ended S_OK zero_variant | Some v \<Rightarrow> Found (Some (v @ [0])))"
proof (induction opts arbitrary: pre rule: render.induct)
  case (2 k v)
  then have "wcslen (k @ 61 # v @ 0 # []) = Some (length (k @ 61 # v))"
    using wcslen_append [of "k @ 61 # v" "[]"] render_no_zero [of "[(k, v)]"] by (simp add: wf_options_def)
  then show ?case
    using 2 scan_one_option [of k v 0 "[]" "length (k @ 61 # v)" dest key t pre] by (auto simp: wf_options_def)
next
  case (3 k v kv kvs)
  let ?rest = "render (kv # kvs) @ [0]"
  have "wcslen (k @ 61 # v @ 44 # ?rest) = Some (length (render ((k, v) # kv # kvs)))"
    using wcslen_append [of "render ((k, v) # kv # kvs)" "[]"] render_no_zero [of "(k, v) # kv # kvs"] 3(2)
    by (simp add: wf_options_def)
  then show ?case
    using 3 scan_one_option [of k v 44 ?rest "length (render ((k, v) # kv # kvs))" dest key t pre]
    by (auto simp: wf_options_def)
qed (simp add: wf_options_def)

text \<open>
  C40: on an option string of names and values without brackets, separators and blanks
  around them, \<open>GetOptionValue\<close> finds the value of the first option whose name is the key up to
  the case of letters and converts it to the type asked for; without such an option the result
  is empty.
\<close>

lemma GetOptionValue_lookup:
  assumes wf: "wf_options opts" and d: "VariantClear dest = Some zero_variant"
  shows "GetOptionValue mem_ok (Some (render opts @ [0])) (Some key) t dest =
    (case lookup_option key opts of
       None \<Rightarrow> Some (S_OK, zero_variant)
     | Some v \<Rightarrow> VariantChangeType mem_ok False dest (Variant VT_BSTR (BstrP (v @ [0]))) t)"
proof -
  have z: "0 \<notin> set (render opts)" using wf render_no_zero by (simp add: wf_options_def)
  have len: "length (render opts) \<le> 16382" using wf by (simp add: wf_options_def)
  have "wf_bstr (render opts @ [0])" using z len by (simp add: wf_bstr_def)
  then have a: "SysAllocString mem_ok (Some (render opts @ [0])) = Some (Some (render opts @ [0]))" by (rule SysAllocString_wf)
  have w: "wcslen (render opts @ [0]) = Some (length (render opts))" using wcslen_append [OF z, of "[]"] by simp
  have sc: "scan_option mem_ok key t dest start_scan [] (render opts @ [0]) =
     Some (case lookup_option key opts of None \<Rightarrow> Ended S_OK zero_variant | Some v \<Rightarrow> Found (Some (v @ [0])))"
    by (rule scan_options [OF wf d])
  show ?thesis
  proof (cases "lookup_option key opts")
    case None
    then show ?thesis using a w len sc by (simp add: GetOptionValue_def start_scan_def)
  next
    case (Some v)
    have "wf_word v \<and> length v \<le> length (render opts)" using Some wf unfolding wf_options_def
      by (induction opts rule: render.induct) (auto split: if_splits)
    then have v: "trim (v @ [0]) = Some v" "SysAllocString mem_ok (Some (v @ [0])) = Some (Some (v @ [0]))"
      using trim_word word_bstr SysAllocString_wf len by auto
    show ?thesis using a w len sc Some v by (simp add: GetOptionValue_def start_scan_def)
  qed
qed

text \<open>
  An option string without \<open>=\<close>, the empty string included, has no defined result: the
  blanks at the end of a name that is empty are looked for before its start.
\<close>

lemma GetOptionValue_no_name:
  assumes "list_all plain s" and "length s \<le> 16382"
  shows "GetOptionValue mem_ok (Some (s @ [0])) (Some key) t dest = None"
proof -
  have z: "0 \<notin> set s" using assms(1) by (auto simp: plain_def list_all_iff)
  then have "wf_bstr (s @ [0])" using assms(2) by (simp add: wf_bstr_def)
  then have a: "SysAllocString mem_ok (Some (s @ [0])) = Some (Some (s @ [0]))" by (rule SysAllocString_wf)
  have w: "wcslen (s @ [0]) = Some (length s)" using wcslen_append [OF z, of "[]"] by simp
  have fl: "flat start_scan" "flat (start_scan\<lparr>len_title := length s\<rparr>)" by (simp_all add: flat_def start_scan_def)
  have "trim [0] = None" by (simp add: trim_def)
  then have "end_option mem_ok key t dest 0 s [0] (start_scan\<lparr>len_title := length s\<rparr>) = None"
    by (simp add: end_option_def start_scan_def)
  then have "scan_option mem_ok key t dest (start_scan\<lparr>len_title := length s\<rparr>) s [0] = None"
    using nest_flat [OF fl(2), of 0] by (simp add: start_scan_def)
  then have "scan_option mem_ok key t dest start_scan [] (s @ [0]) = None"
    using scan_plain [OF fl(1) assms(1), of mem_ok key t dest "[]" "[0]"] by (simp add: start_scan_def del: scan_option.simps)
  then show ?thesis using a w assms(2) by (simp add: GetOptionValue_def start_scan_def)
qed

section \<open>Numbers in options\<close>

lemma dec_text_plain: "0 \<le> v \<Longrightarrow> wf_word (dec_text v)"
proof -
  have p: "plain c \<and> c \<noteq> 32" if "c \<in> set (dec_digits n)" for c n
  proof -
    obtain d where "d < 10" "c = of_nat (48 + d)" using dec_digits_set [OF \<open>c \<in> set (dec_digits n)\<close>] by blast
    moreover from this(1) have "d \<in> set [0..<10]" by simp
    ultimately show ?thesis by (auto simp: plain_def bracket_pair_def upt_rec)
  qed
  assume "0 \<le> v"
  then show ?thesis
    using dec_digits_first [of "nat v"] p [of _ "nat v"] by (auto simp: wf_word_def dec_text_def list_all_iff)
qed

lemma text_to_UI4:
  assumes "0 \<le> v" and "v < 2 ^ 64" and "VariantClear d = Some zero_variant"
  shows "VariantChangeType mem_ok False d (Variant VT_BSTR (BstrP (dec_text v @ [0]))) VT_UI4 =
      Some (S_OK, put_int VT_UI4 4 0 v)"
    and "read_int VT_UI4 (overlay 0 (le_bytes 4 (word_of_int v :: u64))) = Some (v mod 2 ^ 32)"
proof -
  have "\<bar>v\<bar> < 10 ^ 20" using assms(1,2) by simp
  note tx = dec_text_bstr [OF this]
  have "wcslen (dec_text v @ [0]) = Some (length (dec_text v))" using tx(1) wcslen_append [of "dec_text v" "[]"] by simp
  then show "VariantChangeType mem_ok False d (Variant VT_BSTR (BstrP (dec_text v @ [0]))) VT_UI4 = Some (S_OK, put_int VT_UI4 4 0 v)"
    using assms tx(2,4) wcstoul_dec_text [of v]
    by (simp add: VariantChangeType_def Bstr2Variant_def Let_def text_ends_def set_vt_def put_int_def)
  have "int_type VT_UI4 = Some (4, False)" by (simp add: int_type_def)
  from read_put_int [OF this, of 0 v] show "read_int VT_UI4 (overlay 0 (le_bytes 4 (word_of_int v :: u64))) = Some (v mod 2 ^ 32)"
    by (simp add: take_bit_eq_mod)
qed

section \<open>A concrete option string\<close>

definition wide :: "string \<Rightarrow> wchar list" where
  "wide s = map of_char s"

definition sample_options :: option_list where
  "sample_options = [(wide ''WDT'', wide ''400''), (wide ''InvokeTimeout'', wide ''5000'')]"

lemma sample_options_wf: "wf_options sample_options"
  by code_simp

lemma GetOptionValue_lookup_witness:
  "GetOptionValue mem_ok (Some (render sample_options @ [0])) (Some (wide ''invoketimeout'' @ [0])) VT_BSTR zero_variant =
     Some (S_OK, Variant VT_BSTR (BstrP (wide ''5000'' @ [0])))"
proof -
  have d: "VariantClear zero_variant = Some zero_variant"
    and l: "lookup_option (wide ''invoketimeout'' @ [0]) sample_options = Some (wide ''5000'')"
    and a: "\<not> is_array VT_BSTR" "\<not> copyable VT_BSTR"
    by code_simp+
  have "wf_bstr (wide ''5000'' @ [0])" by (simp add: wf_bstr_def wide_def)
  from SysAllocString_wf [OF this]
  have c: "VariantChangeType mem_ok False zero_variant (Variant VT_BSTR (BstrP (wide ''5000'' @ [0]))) VT_BSTR =
      Some (S_OK, Variant VT_BSTR (BstrP (wide ''5000'' @ [0])))"
    using d a by (simp add: VariantChangeType_def VariantCopy_to.simps VariantCopy_body_def)
  show ?thesis
    using GetOptionValue_lookup [OF sample_options_wf d, of "wide ''invoketimeout'' @ [0]" VT_BSTR] l c by simp
qed

lemma GetOptionValue_no_name_witness:
  "GetOptionValue mem_ok (Some [0]) (Some (wide ''WDT'' @ [0])) VT_UI4 zero_variant = None"
  using GetOptionValue_no_name [of "[]"] by simp

end
