(* ===== verification/ServerExec.thy ===== *)
theory ServerExec
  imports ServerStack ServerTree ServerCalls Options
begin

text \<open>
  A request on a connection of the server: \<open>receive_execute\<close> of \<open>bcap_server.c\<close>, cut where the
  receiving thread meets the executing one. A packet is received, checked and either answered at
  once or handed to the executing thread; \<open>wait_round\<close> is one round of the wait for the result,
  and \<open>finish_request\<close> keeps the account of the created objects and sends the answer. The threads
  are put together in the theory \<open>ServerThreads\<close>.
\<close>

section \<open>Outside\<close>

abbreviation (input) INIT_WDT_INTERVAL :: u32 where "INIT_WDT_INTERVAL \<equiv> 0xFFFFFFFF"
abbreviation (input) INIT_EXEC_TIMEOUT :: u32 where "INIT_EXEC_TIMEOUT \<equiv> 180000"
abbreviation (input) MIN_WDT_INTERVAL :: u32 where "MIN_WDT_INTERVAL \<equiv> 80"

text \<open>\<open>OSERR2HRESULT(ERROR_BUSY)\<close>, and the code the UDP server gives a client it has no room for.\<close>

definition E_BUSY_PROC :: hresult where
  "E_BUSY_PROC = OSERR2HRESULT 170"

record 'w renv =
  re_srv :: "'w senv"
  re_io :: "'w io"
  re_mok :: "nat \<Rightarrow> bool"
  re_junk :: "variant list"
  re_fresh :: "byte list"
  re_malloc :: "'w \<Rightarrow> addr option \<times> 'w"

section \<open>The options of a service\<close>

text \<open>An ASCII string as a wide one.\<close>

definition option_value :: "(nat \<Rightarrow> bool) \<Rightarrow> bstr option \<Rightarrow> string \<Rightarrow> u32 \<Rightarrow> (hresult \<times> u32) option" where
  "option_value mok src key dflt =
     Option.bind (SysAllocString mok (Some (wide key @ [0]))) (\<lambda>k.
     Option.bind (GetOptionValue mok src k VT_UI4 zero_variant) (\<lambda>(hr, v).
     Option.bind (case val v of Bits w \<Rightarrow> Some (ucast w) | _ \<Rightarrow> if vt v = VT_UI4 then None else Some 0) (\<lambda>n.
       map_option (\<lambda>_. (hr, if vt v = VT_UI4 then n else dflt)) (VariantClear v))))"

text \<open>
  The two options of \<open>ID_SERVICE_START\<close>. The result is the refusal (\<open>Inl\<close>) or the code the
  last look-up left in \<open>hr\<close> (\<open>Inr\<close>), and what was stored in the connection in either case.
\<close>

definition service_options :: "(nat \<Rightarrow> bool) \<Rightarrow> bstr option \<Rightarrow>
    ((hresult + hresult) \<times> (conn_bcap_server \<Rightarrow> conn_bcap_server)) option" where
  "service_options mok src =
     Option.bind (option_value mok src ''WDT'' INIT_WDT_INTERVAL) (\<lambda>(hr1, wdt).
       if wdt < MIN_WDT_INTERVAL then Some (Inl E_INVALIDARG, \<lambda>s. s)
       else Option.bind (option_value mok src ''InvokeTimeout'' INIT_EXEC_TIMEOUT) (\<lambda>(hr2, tmo).
         if tmo < MIN_WDT_INTERVAL then Some (Inl E_INVALIDARG, \<lambda>s. s\<lparr>wdt_interval := wdt\<rparr>)
         else Some (Inr hr2, \<lambda>s. s\<lparr>wdt_interval := wdt, exec_timeout := tmo\<rparr>)))"

text \<open>The option string: the first argument as text, or the empty string.\<close>

definition start_service :: "(nat \<Rightarrow> bool) \<Rightarrow> bcap_packet \<Rightarrow>
    ((hresult + hresult) \<times> (conn_bcap_server \<Rightarrow> conn_bcap_server)) option" where
  "start_service mok q =
     (case args q of
        Some vs \<Rightarrow>
          if 1 \<le> argc q then
            (case vs of
               [] \<Rightarrow> None
             | v # _ \<Rightarrow>
                 Option.bind (VariantCopy_to mok v zero_variant) (\<lambda>(hr0, tmp).
                 Option.bind (VariantChangeType mok True tmp tmp VT_BSTR) (\<lambda>(hr, s).
                   if FAILED hr then Some (Inl hr, \<lambda>s. s)
                   else (case val s of
                       Bits w \<Rightarrow> if w = 0 then service_options mok None else None
                     | BstrP b \<Rightarrow> service_options mok (Some b)
                     | ArrayP a \<Rightarrow> None))))
          else Option.bind (SysAllocString mok (Some [0])) (service_options mok)
      | None \<Rightarrow> Option.bind (SysAllocString mok (Some [0])) (service_options mok))"

section \<open>Receiving\<close>

text \<open>
  The reception of a request, cut where the code looks at what the executing thread has done:
  \<open>recv_request\<close> receives, \<open>check_request\<close> finds the client and whether the request was answered
  before, and \<open>start_request\<close> hands it over. A request that is answered at once ends with the code
  \<open>receive_execute\<close> returns and the packet that was passed to \<open>bcap_send\<close>. Otherwise the client it is from is carried on, and, when the execution
  is started, the packet \<open>S_EXECUTING\<close> that is sent while it lasts, and \<open>hr\<close>.
\<close>

datatype checked = Repeated hresult bcap_packet | Fresh addr bcap_packet

datatype request = Answered hresult bcap_packet | Started addr bcap_packet hresult

definition clear_args :: "bcap_packet \<Rightarrow> unit option" where
  "clear_args p = (case args p of None \<Rightarrow> Some () | Some vs \<Rightarrow> map_option (\<lambda>_. ()) (VariantClears vs (unat (argc p))))"

definition send_on :: "'w renv \<Rightarrow> addr \<Rightarrow> bcap_packet \<Rightarrow> smem \<times> 'w \<Rightarrow> (hresult \<times> 'w) option" where
  "send_on env own p = (\<lambda>(m, w). do {
     s \<leftarrow> nodes m own;
     bcap_send (re_io env) (re_mok env) (Some (sdevice s)) (Some p) w
   })"

text \<open>An immediate answer: its own code is dropped, the request's arguments are cleared.\<close>

definition answer_now :: "'w renv \<Rightarrow> addr \<Rightarrow> bcap_packet \<Rightarrow> bcap_packet \<Rightarrow> smem \<times> 'w \<Rightarrow> (smem \<times> 'w) option" where
  "answer_now env own p q st = do {
     (_, w) \<leftarrow> send_on env own p st;
     _ \<leftarrow> clear_args q;
     Some (fst st, w)
   }"

definition recv_request :: "'w renv \<Rightarrow> addr \<Rightarrow> smem \<times> 'w \<Rightarrow> (hresult \<times> bcap_packet \<times> smem \<times> 'w) option" where
  "recv_request env own = (\<lambda>(m, w). do {
     s \<leftarrow> nodes m own;
     r \<leftarrow> bcap_recv (re_io env) (re_mok env) (re_junk env) (re_fresh env) (Some (sdevice s))
            (Some (zero_packet\<lparr>argc := - 1\<rparr>)) False w;
     (case r of
        (hr, Some q, Some d, w1) \<Rightarrow> do {
          m1 \<leftarrow> upd_node own (\<lambda>s. s\<lparr>sdevice := d\<rparr>) m;
          _ \<leftarrow> (if FAILED hr then clear_args q else Some ());
          Some (hr, q, m1, w1)
        }
      | _ \<Rightarrow> None)
   })"

text \<open>A UDP server finds the client of the datagram or makes it one; \<open>None\<close> inside: no room.\<close>

definition udp_client :: "'w renv \<Rightarrow> addr \<Rightarrow> smem \<times> 'w \<Rightarrow> (addr option \<times> smem \<times> 'w) option" where
  "udp_client env own st = do {
     s \<leftarrow> nodes (fst st) own;
     adr \<leftarrow> arg (sdevice s);
     found \<leftarrow> search_node own adr (fst st);
     (case found of
        Some a \<Rightarrow> Some (Some a, st)
      | None \<Rightarrow> do {
          (full, st1) \<leftarrow> (if sint BCAP_CLIENT_MAX \<le> sint (num_child s)
             then map_option (\<lambda>(n, st1). (sint BCAP_CLIENT_MAX \<le> sint n, st1)) (check_lifelimit (re_srv env) own st)
             else Some (False, st));
          if full then Some (None, st1)
          else do {
            (_, st2) \<leftarrow> change_relation (re_srv env) own (ADD_CHILD (sock (sdevice s))) st1;
            s2 \<leftarrow> nodes (fst st2) own;
            a \<leftarrow> node1 s2;
            Some (Some a, st2)
          }
        })
   }"

text \<open>
  Except over TCP, a request that repeats the one answered last, by the number of the first try,
  gets that answer again under the number of the repetition.
\<close>

definition check_request :: "'w renv \<Rightarrow> addr \<Rightarrow> bcap_packet \<Rightarrow> smem \<times> 'w \<Rightarrow> (checked \<times> smem \<times> 'w) option" where
  "check_request env own q st = do {
     s \<leftarrow> nodes (fst st) own;
     let t = conn_type (sdevice s);
     (client, st1) \<leftarrow> (if t = CONN_UDP then udp_client env own st else Some (Some own, st));
     (case client of
        None \<Rightarrow>
          let p = zero_packet\<lparr>serial := serial q, func_id := E_MAX_CONNECT\<rparr>
          in map_option (Pair (Repeated S_FALSE p)) (answer_now env own p q st1)
      | Some tmp \<Rightarrow>
          if t = CONN_UDP \<or> t = CONN_COM then do {
            c \<leftarrow> nodes (fst st1) tmp;
            let q1 = q\<lparr>reserv := if reserv q = 0 then serial q else reserv q\<rparr>;
            if serial (last_send c) = reserv q1
            then let p = (last_send c)\<lparr>serial := serial q1\<rparr> in map_option (Pair (Repeated S_FALSE p)) (answer_now env own p q1 st1)
            else Some (Fresh tmp q1, st1)
          }
          else Some (Fresh tmp q, st1))
   }"

text \<open>
  The busy answer, the limit of objects, the options; then the request is handed over. \<open>cevt\<close> is
  the state of \<open>comp_evt\<close>: whether the executing thread is free.
\<close>

definition refuse :: "'w renv \<Rightarrow> addr \<Rightarrow> hresult \<Rightarrow> bcap_packet \<Rightarrow> bcap_packet \<Rightarrow> smem \<times> 'w \<Rightarrow> (request \<times> smem \<times> 'w) option" where
  "refuse env own hr p q st = map_option (Pair (Answered hr p)) (answer_now env own p q st)"

definition start_request :: "'w renv \<Rightarrow> addr \<Rightarrow> addr \<Rightarrow> bool \<Rightarrow> bcap_packet \<Rightarrow> smem \<times> 'w \<Rightarrow>
    (request \<times> smem \<times> 'w) option" where
  "start_request env own tmp cevt q = (\<lambda>(m, w). do {
     let p = zero_packet\<lparr>serial := serial q, func_id := S_EXECUTING\<rparr>;
     s \<leftarrow> nodes m own;
     if \<not> cevt then refuse env own E_TIMEOUT (p\<lparr>func_id := E_BUSY_PROC\<rparr>) q (m, w)
     else if creates_object (func_id q) \<and> sint BCAP_OBJECT_MAX \<le> sint (num_object s)
     then refuse env own S_FALSE (p\<lparr>func_id := E_MAX_OBJECT\<rparr>) q (m, w)
     else do {
       (r, f) \<leftarrow> (if func_id q = ID_SERVICE_START then start_service (re_mok env) q else Some (Inr S_OK, \<lambda>s. s));
       m1 \<leftarrow> upd_node tmp f m;
       (case r of
          Inl code \<Rightarrow> refuse env own S_FALSE (p\<lparr>func_id := code\<rparr>) q (m1, w)
        | Inr hr \<Rightarrow> do {
            s1 \<leftarrow> nodes m1 own;
            _ \<leftarrow> clear_args (last_recv s1);
            m2 \<leftarrow> upd_node own (\<lambda>s. s\<lparr>last_recv := q\<rparr>) m1;
            Some (Started tmp p hr, m2, w)
          })
     }
   })"

section \<open>Waiting\<close>

text \<open>
  A round of the wait in which the event did not come: \<open>None\<close> inside goes on, otherwise the code
  that ends it.
\<close>

definition wait_round :: "'w renv \<Rightarrow> addr \<Rightarrow> addr \<Rightarrow> bcap_packet \<Rightarrow> u32 \<Rightarrow> smem \<times> 'w \<Rightarrow> (hresult option \<times> 'w) option" where
  "wait_round env own tmp p start = (\<lambda>(m, w). do {
     (hr, w1) \<leftarrow> send_on env own p (m, w);
     if FAILED hr then Some (Some hr, w1)
     else do {
       c \<leftarrow> nodes m tmp;
       (case sv_time (re_srv env) w1 of (cur, w2) \<Rightarrow>
          Some (if exec_timeout c < calc_time_diff start cur then Some E_TIMEOUT else None, w2))
     }
   })"

section \<open>Finishing\<close>

text \<open>\<open>args[0].lVal\<close>: the low half of the union.\<close>

definition first_lVal :: "bcap_packet \<Rightarrow> u32 option" where
  "first_lVal p = (case args p of Some (v # _) \<Rightarrow> (case val v of Bits w \<Rightarrow> Some (ucast w) | _ \<Rightarrow> None) | _ \<Rightarrow> None)"

text \<open>
  The account of the created objects after a successful call. The result tells whether the
  client has been ended (\<open>tmp_param = NULL\<close>).
\<close>

definition account_object :: "'w renv \<Rightarrow> addr \<Rightarrow> addr \<Rightarrow> smem \<times> 'w \<Rightarrow> (bool \<times> smem \<times> 'w) option" where
  "account_object env own tmp = (\<lambda>(m, w). do {
     s \<leftarrow> nodes m own;
     let fid = func_id (last_recv s);
     rel \<leftarrow> (if 0 \<le> sint fid \<and> sint fid < 138 then Some (relation_id fid) else None);
     if 0 < sint rel then
       (case re_malloc env w of
          (None, w1) \<Rightarrow> Some (False, m, w1)
        | (Some a, w1) \<Rightarrow> do {
            h \<leftarrow> (if fid = ID_SERVICE_START then Some 0 else first_lVal (last_send s));
            (_, m1) \<leftarrow> push_vector own a (new_object a rel h m);
            Some (False, m1, w1)
          })
     else if sint rel < 0 then do {
       h \<leftarrow> (if fid = ID_SERVICE_STOP then Some 0 else first_lVal (last_recv s));
       index \<leftarrow> search_vector own fid h m;
       m1 \<leftarrow> (if 0 \<le> sint index
              then do { (_, p, m1) \<leftarrow> pop_vector own index m; (case p of None \<Rightarrow> Some m1 | Some a \<Rightarrow> free_obj a m1) }
              else Some m);
       if conn_type (sdevice s) = CONN_UDP \<and> fid = ID_SERVICE_STOP then do {
         (_, st2) \<leftarrow> change_relation (re_srv env) tmp DESTROY_SELF (m1, w);
         (_, st3) \<leftarrow> change_relation (re_srv env) own DELETE_CHILD st2;
         Some (True, st3)
       }
       else Some (False, m1, w)
     }
     else Some (False, m, w)
   })"

text \<open>The answer, and its copy for a client that asks again.\<close>

definition remember_answer :: "'w renv \<Rightarrow> addr \<Rightarrow> addr \<Rightarrow> smem \<times> 'w \<Rightarrow> (smem \<times> 'w) option" where
  "remember_answer env own tmp = (\<lambda>(m, w). do {
     s \<leftarrow> nodes m own;
     c \<leftarrow> nodes m tmp;
     vs \<leftarrow> (case (args (last_send c), args (last_send s)) of
        (Some [d], Some [v]) \<Rightarrow>
          (if tmp = own then Some [d] else map_option (\<lambda>(_, v'). [v']) (VariantCopy_to (re_mok env) v d))
      | _ \<Rightarrow> None);
     (case sv_time (re_srv env) w of (now, w1) \<Rightarrow>
        map_option (\<lambda>m1. (m1, w1))
          (upd_node tmp (\<lambda>c. c\<lparr>last_send := (last_send s)\<lparr>args := Some vs\<rparr>, last_modified := now\<rparr>) m))
   })"

definition finish_request :: "'w renv \<Rightarrow> addr \<Rightarrow> addr \<Rightarrow> smem \<times> 'w \<Rightarrow> (hresult \<times> smem \<times> 'w) option" where
  "finish_request env own tmp st = do {
     s \<leftarrow> nodes (fst st) own;
     (gone, st1) \<leftarrow> (if func_id (last_send s) = S_OK then account_object env own tmp st else Some (False, st));
     s1 \<leftarrow> nodes (fst st1) own;
     (hr, w2) \<leftarrow> send_on env own (last_send s1) st1;
     if SUCCEEDED hr \<and> \<not> gone then map_option (Pair hr) (remember_answer env own tmp (fst st1, w2))
     else Some (hr, fst st1, w2)
   }"

section \<open>The account of the created objects\<close>

text \<open>
  The abstract account: a function that creates an object puts it in front unless there is no
  room, a function that releases one takes the latest of that kind with that handle out.
\<close>

definition account :: "i32 \<Rightarrow> u32 \<Rightarrow> u32 \<Rightarrow> object_stack \<Rightarrow> object_stack" where
  "account fid created released xs =
     (if 0 < sint (relation_id fid) then (case push_obj (relation_id fid, created) xs of None \<Rightarrow> xs | Some xs' \<Rightarrow> xs')
      else if sint (relation_id fid) < 0 then
        (case first_index (fid, released) xs of None \<Rightarrow> xs | Some j \<Rightarrow> remove_at j xs)
      else xs)"

definition created_handle :: "i32 \<Rightarrow> bcap_packet \<Rightarrow> u32 option" where
  "created_handle fid p = (if fid = ID_SERVICE_START then Some 0 else first_lVal p)"

definition released_handle :: "i32 \<Rightarrow> bcap_packet \<Rightarrow> u32 option" where
  "released_handle fid p = (if fid = ID_SERVICE_STOP then Some 0 else first_lVal p)"

lemma pop_object_ok:
  assumes rep: "stack_rep own as xs m" and j: "first_index (fid, h) xs = Some j"
  shows "\<exists>m1 m2. search_vector own fid h m = Some (of_nat j) \<and> 0 \<le> sint (of_nat j :: i32) \<and>
    pop_vector own (of_nat j) m = Some (S_OK, Some (as ! j), m1) \<and> free_obj (as ! j) m1 = Some m2 \<and>
    stack_rep own (remove_at j as) (remove_at j xs) m2"
proof -
  have idx: "j < length xs" using j by (induction xs arbitrary: j) (auto split: if_splits)
  have len: "length xs \<le> 1000" "length as = length xs" using rep stack_rep_length [OF rep] by (simp_all add: stack_rep_def)
  have sj: "sint (of_nat j :: i32) = int j" using idx len num_object_sint [of j] by simp
  obtain m1 where m1: "pop_vector own (of_nat j) m = Some (S_OK, Some (as ! j), m1)"
    "stack_rep own (remove_at j as) (remove_at j xs) m1" "objs m1 (as ! j) \<noteq> None"
    using pop_vector_refines [OF rep, of "of_nat j"] idx sj by auto
  let ?m2 = "m1\<lparr>objs := (objs m1)(as ! j := None)\<rparr>"
  have "distinct as" using rep by (auto simp: stack_rep_def dll_def)
  then have "as ! j \<notin> set (remove_at j as)"
    using idx len id_take_nth_drop [of j as] by (metis distinct.simps(2) distinct_append not_distinct_conv_prefix remove_at_def set_append Un_iff disjoint_iff list.set_intros(1))
  then have "stack_rep own (remove_at j as) (remove_at j xs) ?m2"
    by (intro stack_rep_cong [OF m1(2)]) auto
  moreover have "free_obj (as ! j) m1 = Some ?m2" using m1(3) by auto
  moreover have "search_vector own fid h m = Some (of_nat j)" using search_vector_refines [OF rep, of fid h] j by simp
  ultimately show ?thesis using m1(1) sj by auto
qed

text \<open>
  C30: after a successful call over TCP or a serial line, the account of the created
  objects in memory follows the abstract account, with the handle the call returned for a
  created object and the handle of the request for a released one.
\<close>

lemma account_object_refines:
  assumes rep: "stack_rep own as xs m" and s: "nodes m own = Some s" "conn_type (sdevice s) \<noteq> CONN_UDP"
    and fid: "func_id (last_recv s) = fid" "0 < sint fid" "sint fid < 138"
    and h: "created_handle fid (last_send s) = Some created" "released_handle fid (last_recv s) = Some released"
    and mal: "re_malloc env w = (Some a, w1)" and new: "objs m a = None"
  shows "\<exists>m' w' as'. account_object env own tmp (m, w) = Some (False, m', w') \<and>
    stack_rep own as' (account fid created released xs) m'"
proof -
  consider "0 < sint (relation_id fid)" | "sint (relation_id fid) < 0" | "sint (relation_id fid) = 0" by linarith
  then show ?thesis
  proof cases
    case 1
    have "\<exists>hr m1 as'. push_vector own a (new_object a (relation_id fid) created m) = Some (hr, m1) \<and>
        stack_rep own as' (account fid created released xs) m1"
      using push_new_object [OF rep new, of "relation_id fid" created] stack_rep_new_object [OF rep new] 1
      by (cases "push_obj (relation_id fid, created) xs") (auto simp: account_def)
    then show ?thesis
      using s fid h(1) mal 1 by (auto simp: account_object_def created_handle_def)
  next
    case 2
    show ?thesis
    proof (cases "first_index (fid, released) xs")
      case None
      then show ?thesis
        using s fid h(2) rep 2 search_vector_refines [OF rep, of fid released]
        by (auto simp: account_object_def released_handle_def account_def)
    next
      case (Some j)
      then show ?thesis
        using s fid h(2) 2 pop_object_ok [OF rep Some]
        by (auto simp: account_object_def released_handle_def account_def)
    qed
  next
    case 3
    then show ?thesis using s fid rep by (auto simp: account_object_def account_def)
  qed
qed

section \<open>The options of a service\<close>

lemma put_int_UI4:
  assumes "put_int VT_UI4 4 0 v = Variant VT_UI4 (Bits w)"
  shows "(ucast w :: u32) = word_of_int v"
proof -
  have "w = overlay 0 (le_bytes 4 (word_of_int v :: u64))" using assms by (simp add: put_int_def)
  moreover have "int_type VT_UI4 = Some (4, False)" by (simp add: int_type_def)
  ultimately have "take_bit 32 (uint w) = take_bit 32 v"
    using read_put_int [of VT_UI4 4 False 0 v] by (simp add: read_int_def)
  then have "uint (ucast w :: u32) = uint (word_of_int v :: u32)" by (simp add: unsigned_ucast_eq uint_word_of_int_eq)
  then show ?thesis by (rule iffD2 [OF word_uint_eq_iff])
qed

definition stored_option :: "u32 \<Rightarrow> int option \<Rightarrow> u32" where
  "stored_option dflt n = (case n of None \<Rightarrow> dflt | Some v \<Rightarrow> word_of_int v)"

lemma option_value_lookup:
  assumes wf: "wf_options opts" and key: "wf_bstr (wide key @ [0])"
    and l: "lookup_option (wide key @ [0]) opts = map_option dec_text n" "\<forall>v. n = Some v \<longrightarrow> 0 \<le> v \<and> v < 2 ^ 64"
  shows "option_value mem_ok (Some (render opts @ [0])) key dflt = Some (S_OK, stored_option dflt n)"
proof -
  have d: "VariantClear zero_variant = Some zero_variant" by code_simp
  have g: "GetOptionValue mem_ok (Some (render opts @ [0])) (Some (wide key @ [0])) VT_UI4 zero_variant =
      Some (S_OK, case n of None \<Rightarrow> zero_variant | Some v \<Rightarrow> put_int VT_UI4 4 0 v)"
    using GetOptionValue_lookup [OF wf d, of "wide key @ [0]" VT_UI4] l text_to_UI4 [OF _ _ d] by (cases n) auto
  show ?thesis
  proof (cases n)
    case None
    then show ?thesis using g SysAllocString_wf [OF key] d by (simp add: option_value_def stored_option_def)
  next
    case (Some v)
    obtain w where w: "put_int VT_UI4 4 0 v = Variant VT_UI4 (Bits w)" by (simp add: put_int_def)
    moreover have "VariantClear (Variant VT_UI4 (Bits w)) \<noteq> None" by (simp add: VariantClear.simps VariantClear_body_def is_array_def)
    ultimately show ?thesis
      using g Some SysAllocString_wf [OF key] put_int_UI4 [OF w] by (auto simp: option_value_def stored_option_def)
  qed
qed

text \<open>A text that is not a number: the look-up fails and the default is used.\<close>

lemma option_value_bad_text:
  assumes wf: "wf_options opts" and key: "wf_bstr (wide key @ [0])"
    and l: "lookup_option (wide key @ [0]) opts = Some v" and v: "read_number v = None" "hd v \<noteq> 46"
  shows "option_value mem_ok (Some (render opts @ [0])) key dflt = Some (DISP_E_TYPEMISMATCH, dflt)"
proof -
  have d: "VariantClear zero_variant = Some zero_variant" by code_simp
  have "wf_word v" using l wf unfolding wf_options_def by (induction opts rule: render.induct) (auto split: if_splits)
  then have w: "0 \<notin> set v" "v \<noteq> []" by (auto simp: wf_word_def plain_def list_all_iff)
  then have "wcslen (v @ [0]) = Some (length v)" using wcslen_append [of v "[]"] by simp
  then have "Bstr2Variant mem_ok VT_UI4 (v @ [0]) zero_variant = Some (DISP_E_TYPEMISMATCH, zero_variant)"
    using v w(2) by (simp add: Bstr2Variant_def wcstoul_def text_ends_def)
  then have "VariantChangeType mem_ok False zero_variant (Variant VT_BSTR (BstrP (v @ [0]))) VT_UI4 = Some (DISP_E_TYPEMISMATCH, zero_variant)"
    using d by (simp add: VariantChangeType_def set_vt_def)
  then have "GetOptionValue mem_ok (Some (render opts @ [0])) (Some (wide key @ [0])) VT_UI4 zero_variant = Some (DISP_E_TYPEMISMATCH, zero_variant)"
    using GetOptionValue_lookup [OF wf d, of "wide key @ [0]" VT_UI4] l by simp
  then show ?thesis using SysAllocString_wf [OF key] d by (simp add: option_value_def)
qed

lemma option_keys: "wf_bstr (wide ''WDT'' @ [0])" "wf_bstr (wide ''InvokeTimeout'' @ [0])"
  by (simp_all add: wf_bstr_def wide_def)

definition number_option :: "string \<Rightarrow> option_list \<Rightarrow> int option \<Rightarrow> bool" where
  "number_option key opts n \<longleftrightarrow>
     lookup_option (wide key @ [0]) opts = map_option dec_text n \<and> (\<forall>v. n = Some v \<longrightarrow> 0 \<le> v \<and> v < 2 ^ 64)"

text \<open>
  Starting a service with an option string stores the watchdog interval and the
  execution time-out it gives as decimal numbers, taken modulo \<open>2^32\<close>, or the defaults; a value
  below 80 is refused, and a refused time-out leaves the new interval stored.
\<close>

lemma service_options_stored:
  assumes wf: "wf_options opts" and n: "number_option ''WDT'' opts n1" "number_option ''InvokeTimeout'' opts n2"
    and r: "wdt = stored_option INIT_WDT_INTERVAL n1" "tmo = stored_option INIT_EXEC_TIMEOUT n2"
  shows "service_options mem_ok (Some (render opts @ [0])) = Some
    (if wdt < 80 then (Inl E_INVALIDARG, \<lambda>s. s)
     else if tmo < 80 then (Inl E_INVALIDARG, \<lambda>s. s\<lparr>wdt_interval := wdt\<rparr>)
     else (Inr S_OK, \<lambda>s. s\<lparr>wdt_interval := wdt, exec_timeout := tmo\<rparr>))"
  using option_value_lookup [OF wf option_keys(1), of n1] option_value_lookup [OF wf option_keys(2), of n2] n r
  by (simp add: service_options_def number_option_def)

text \<open>
  An execution time-out that is not a number is not refused: the request goes on
  with the default, but with the failure of the look-up as the state of the reception.
\<close>

lemma service_options_bad_timeout:
  assumes wf: "wf_options opts" and n: "number_option ''WDT'' opts n1" "80 \<le> stored_option INIT_WDT_INTERVAL n1"
    and l: "lookup_option (wide ''InvokeTimeout'' @ [0]) opts = Some v" "read_number v = None" "hd v \<noteq> 46"
  shows "service_options mem_ok (Some (render opts @ [0])) = Some
    (Inr DISP_E_TYPEMISMATCH, \<lambda>s. s\<lparr>wdt_interval := stored_option INIT_WDT_INTERVAL n1, exec_timeout := INIT_EXEC_TIMEOUT\<rparr>)"
  using option_value_lookup [OF wf option_keys(1), of n1] option_value_bad_text [OF wf option_keys(2) l] n
  by (auto simp: service_options_def number_option_def not_less)

lemma service_options_stored_witness:
  "service_options mem_ok (Some (render sample_options @ [0])) =
     Some (Inr S_OK, \<lambda>s. s\<lparr>wdt_interval := 400, exec_timeout := 5000\<rparr>)"
proof -
  have "lookup_option (wide ''WDT'' @ [0]) sample_options = Some (wide ''400'')"
    "lookup_option (wide ''InvokeTimeout'' @ [0]) sample_options = Some (wide ''5000'')" by code_simp+
  moreover have "dec_text 400 = wide ''400''" "dec_text 5000 = wide ''5000''"
    by (simp_all add: dec_text_def dec_digits.simps wide_def)
  ultimately have "number_option ''WDT'' sample_options (Some 400)" "number_option ''InvokeTimeout'' sample_options (Some 5000)"
    by (simp_all add: number_option_def)
  from service_options_stored [OF sample_options_wf this refl refl] show ?thesis by (simp add: stored_option_def)
qed

definition bad_options :: option_list where
  "bad_options = [(wide ''InvokeTimeout'', wide ''soon'')]"

lemma bad_options_ok:
  "wf_options bad_options" "number_option ''WDT'' bad_options None" "80 \<le> stored_option INIT_WDT_INTERVAL None"
  "lookup_option (wide ''InvokeTimeout'' @ [0]) bad_options = Some (wide ''soon'')"
  "read_number (wide ''soon'') = None" "hd (wide ''soon'') \<noteq> 46"
proof -
  show "number_option ''WDT'' bad_options None" unfolding number_option_def by (simp; code_simp)
qed (simp add: stored_option_def | code_simp)+

lemma service_options_bad_timeout_witness:
  "service_options mem_ok (Some (render bad_options @ [0])) =
     Some (Inr DISP_E_TYPEMISMATCH, \<lambda>s. s\<lparr>wdt_interval := INIT_WDT_INTERVAL, exec_timeout := INIT_EXEC_TIMEOUT\<rparr>)"
  using service_options_bad_timeout [OF bad_options_ok] by (simp add: stored_option_def)

section \<open>A concrete connection\<close>

text \<open>
  The connection of the concrete stack, whose client releases robot 7; its driver takes what is
  sent and receives nothing.
\<close>

definition sample_renv :: "u32 renv" where
  "sample_renv = \<lparr>re_srv = sample_server_env,
     re_io = \<lparr>dev_send = \<lambda>f sk bs a w. (S_OK, w), dev_recv = \<lambda>f sk n t a w. (RecvOut E_TIMEOUT None [] (arg_addr a), w)\<rparr>,
     re_mok = mem_ok, re_junk = [], re_fresh = [], re_malloc = \<lambda>w. (Some 12, w)\<rparr>"

definition release_packet :: bcap_packet where
  "release_packet = \<lparr>serial = 9, reserv = 0, func_id = ID_ROBOT_RELEASE, argc = 1, args = Some [Variant VT_I4 (Bits 7)]\<rparr>"

definition sample_conn :: "i32 \<Rightarrow> smem" where
  "sample_conn t = sample_mem\<lparr>nodes := [0 \<mapsto> zero_server\<lparr>sdevice := zero_device\<lparr>sock := 5, conn_type := t, timeout := 100\<rparr>,
     num_object := 2, stack := Some 11, last_recv := release_packet,
     last_send := zero_packet\<lparr>args := Some [zero_variant]\<rparr>\<rparr>]\<rparr>"

lemma sample_conn_stack: "stack_rep 0 [11, 10] [(84, 7), (4, 5)] (sample_conn t)"
  by (simp add: stack_rep_def sample_conn_def sample_mem_def dll_def olinks_def oframe_def)

lemma account_object_refines_witness:
  "\<exists>m' w' as'. account_object sample_renv 0 0 (sample_conn CONN_TCP, 0) = Some (False, m', w') \<and>
    stack_rep 0 as' [(4, 5)] m'"
proof -
  have "account ID_ROBOT_RELEASE 0 7 [(84, 7), (4, 5)] = [(4, 5)]" by code_simp
  moreover have "nodes (sample_conn CONN_TCP) 0 = Some (the (nodes (sample_conn CONN_TCP) 0))" by (simp add: sample_conn_def)
  ultimately show ?thesis
    using account_object_refines [OF sample_conn_stack, of CONN_TCP "the (nodes (sample_conn CONN_TCP) 0)" ID_ROBOT_RELEASE
        0 7 sample_renv 0 12 0 0]
    by (simp add: sample_conn_def release_packet_def sample_renv_def sample_mem_def created_handle_def released_handle_def
        first_lVal_def zero_packet_def)
qed

end
