(* ===== verification/ServerThreads.thy ===== *)
theory ServerThreads
  imports ServerExec
begin

text \<open>
  The two threads of a connection of the server: the receiving thread (\<open>recv_thread\<close> and
  \<open>receive_execute\<close>) and the executing one (\<open>exec_thread\<close>) of \<open>bcap_server.c\<close>, as a step relation
  on the memory, the world, the two events and the place where each thread is. A step is what a
  thread does between two places where it looks at something the other one changes.

  The order of what they do is recorded, with every packet that is passed to \<open>bcap_send\<close>. The
  abstract server takes a request, executes it and answers it at most once; every run of the threads
  is one of its runs. For a world that keeps what the drivers are given, the bytes in it are those of
  the packets recorded.
\<close>

section \<open>The state\<close>

text \<open>
  The receiving thread waits for a packet, has received one, has checked it, waits for its
  result, has the result, or has left the loop. The executing thread waits for \<open>exec_evt\<close>, has
  been woken, is in the call function, or has returned from it.
\<close>

datatype rpc = Receiving | Got bcap_packet | Ready addr bcap_packet | Waiting addr bcap_packet u32 | Finishing addr | Stopped

datatype epc = Idle | Woken | InCall | Returned

text \<open>
  A request handed over; a call with its request and reply; and what is passed to \<open>bcap_send\<close>: the
  reply, the notice of a request that is being executed, the refusal of a request, and the reply to
  the repetition of a request.
\<close>

datatype event = Accepted bcap_packet | Called bcap_packet bcap_packet | Replied bcap_packet | Noticed bcap_packet
  | Refused bcap_packet bcap_packet | Again bcap_packet bcap_packet

record 'w threads =
  tmem :: smem
  world :: 'w
  exec_evt :: bool
  comp_evt :: bool
  rpc :: rpc
  epc :: epc
  events :: "event list"

text \<open>The loop of \<open>recv_thread\<close> goes on after a success and after a time-out.\<close>

definition loop_pc :: "hresult \<Rightarrow> rpc" where
  "loop_pc hr = (if FAILED hr \<and> hr \<noteq> E_TIMEOUT then Stopped else Receiving)"

text \<open>What \<open>bcap_callfunc\<close> stores before the call.\<close>

definition init_reply :: "conn_bcap_server \<Rightarrow> conn_bcap_server" where
  "init_reply n = n\<lparr>last_send := (last_send n)\<lparr>serial := serial (last_recv n), reserv := 0, func_id := E_INVALIDARG, argc := 0\<rparr>\<rparr>"

section \<open>The steps\<close>

inductive thread_step :: "'w renv \<Rightarrow> 'w call_func option list \<Rightarrow> addr \<Rightarrow> 'w threads \<Rightarrow> 'w threads \<Rightarrow> bool"
  for env :: "'w renv" and funcs :: "'w call_func option list" and own :: addr where
  stop: "rpc s = Receiving \<Longrightarrow> thread_step env funcs own s (s\<lparr>rpc := Stopped\<rparr>)"
| recv: "rpc s = Receiving \<Longrightarrow> recv_request env own (tmem s, world s) = Some (hr, q, m, w) \<Longrightarrow>
    thread_step env funcs own s (s\<lparr>tmem := m, world := w, rpc := if FAILED hr then loop_pc hr else Got q\<rparr>)"
| check: "rpc s = Got q \<Longrightarrow> check_request env own q (tmem s, world s) = Some (r, m, w) \<Longrightarrow>
    thread_step env funcs own s (s\<lparr>tmem := m, world := w,
      events := events s @ (case r of Repeated hr p \<Rightarrow> [Again q p] | Fresh tmp q' \<Rightarrow> []),
      rpc := case r of Repeated hr p \<Rightarrow> loop_pc hr | Fresh tmp q' \<Rightarrow> Ready tmp q'\<rparr>)"
| answer: "rpc s = Ready tmp q \<Longrightarrow>
    start_request env own tmp (comp_evt s) q (tmem s, world s) = Some (Answered hr p, m, w) \<Longrightarrow>
    thread_step env funcs own s (s\<lparr>tmem := m, world := w, events := events s @ [Refused q p], rpc := loop_pc hr\<rparr>)"
| start: "rpc s = Ready tmp q \<Longrightarrow>
    start_request env own tmp (comp_evt s) q (tmem s, world s) = Some (Started tmp' p hr, m, w) \<Longrightarrow>
    thread_step env funcs own s (s\<lparr>tmem := m, comp_evt := False, exec_evt := True, events := events s @ [Accepted q],
      world := if FAILED hr then w else snd (sv_time (re_srv env) w),
      rpc := if FAILED hr then loop_pc hr else Waiting tmp' p (fst (sv_time (re_srv env) w))\<rparr>)"
| wait: "rpc s = Waiting tmp p begun \<Longrightarrow> \<not> comp_evt s \<Longrightarrow>
    wait_round env own tmp p begun (tmem s, world s) = Some (r, w) \<Longrightarrow>
    thread_step env funcs own s (s\<lparr>world := w, events := events s @ [Noticed p],
      rpc := case r of None \<Rightarrow> Waiting tmp p begun | Some hr \<Rightarrow> loop_pc hr\<rparr>)"
| completed: "rpc s = Waiting tmp p begun \<Longrightarrow> comp_evt s \<Longrightarrow> thread_step env funcs own s (s\<lparr>rpc := Finishing tmp\<rparr>)"
| finish: "rpc s = Finishing tmp \<Longrightarrow> nodes (tmem s) own = Some n \<Longrightarrow>
    finish_request env own tmp (tmem s, world s) = Some (hr, m, w) \<Longrightarrow>
    thread_step env funcs own s (s\<lparr>tmem := m, world := w, events := events s @ [Replied (last_send n)], rpc := loop_pc hr\<rparr>)"
| wake: "epc s = Idle \<Longrightarrow> exec_evt s \<Longrightarrow> thread_step env funcs own s (s\<lparr>exec_evt := False, epc := Woken\<rparr>)"
| enter: "epc s = Woken \<Longrightarrow> upd_node own init_reply (tmem s) = Some m \<Longrightarrow>
    thread_step env funcs own s (s\<lparr>tmem := m, epc := InCall\<rparr>)"
| return: "epc s = InCall \<Longrightarrow> nodes (tmem s) own = Some n \<Longrightarrow>
    bcap_callfunc funcs (last_recv n) (last_send n) (world s) = Some (p, w) \<Longrightarrow>
    upd_node own (\<lambda>n. n\<lparr>last_send := p\<rparr>) (tmem s) = Some m \<Longrightarrow>
    thread_step env funcs own s (s\<lparr>tmem := m, world := w, events := events s @ [Called (last_recv n) p], epc := Returned\<rparr>)"
| signal: "epc s = Returned \<Longrightarrow> thread_step env funcs own s (s\<lparr>comp_evt := True, epc := Idle\<rparr>)"

text \<open>
  At the start the two events are as \<open>recv_thread\<close> creates them, no request has been taken, and
  the value to send back is empty.
\<close>

definition thread_init :: "addr \<Rightarrow> 'w threads \<Rightarrow> bool" where
  "thread_init own s \<longleftrightarrow> (\<exists>n. nodes (tmem s) own = Some n \<and> args (last_send n) = Some [zero_variant]) \<and>
     \<not> exec_evt s \<and> comp_evt s \<and> rpc s = Receiving \<and> epc s = Idle \<and> events s = []"

inductive reached :: "'w renv \<Rightarrow> 'w call_func option list \<Rightarrow> addr \<Rightarrow> 'w threads \<Rightarrow> 'w threads \<Rightarrow> bool"
  for env :: "'w renv" and funcs :: "'w call_func option list" and own :: addr and s0 :: "'w threads" where
  reached_start: "reached env funcs own s0 s0"
| reached_step: "reached env funcs own s0 s \<Longrightarrow> thread_step env funcs own s s' \<Longrightarrow> reached env funcs own s0 s'"

section \<open>The abstract server\<close>

text \<open>
  Nothing to do, a request taken, or a request executed with its reply. A request that was
  executed too late for its client stays unanswered. Notices are sent between the two ends of a
  request, under its number; what is refused or sent again goes under the number of the packet it
  answers, and a refusal has a code of failure and no arguments.
\<close>

datatype phase = Quiet | Pending bcap_packet | Done bcap_packet

fun next_phase :: "event \<Rightarrow> phase \<Rightarrow> phase option" where
  "next_phase (Accepted q) ph = (case ph of Pending _ \<Rightarrow> None | _ \<Rightarrow> Some (Pending q))"
| "next_phase (Called q p) ph = (if ph = Pending q \<and> serial p = serial q \<and> reserv p = 0 then Some (Done p) else None)"
| "next_phase (Replied p) ph = (if ph = Done p then Some Quiet else None)"
| "next_phase (Noticed p) ph = (case ph of
     Quiet \<Rightarrow> None
   | Pending q \<Rightarrow> if serial p = serial q \<and> func_id p = S_EXECUTING \<and> argc p = 0 then Some ph else None
   | Done r \<Rightarrow> if serial p = serial r \<and> func_id p = S_EXECUTING \<and> argc p = 0 then Some ph else None)"
| "next_phase (Refused q p) ph = (if serial p = serial q \<and> FAILED (func_id p) \<and> argc p = 0 then Some ph else None)"
| "next_phase (Again q p) ph = (if serial p = serial q then Some ph else None)"

definition log_phase :: "event list \<Rightarrow> phase option" where
  "log_phase es = fold (\<lambda>e ph. Option.bind ph (next_phase e)) es (Some Quiet)"

lemma log_phase_Nil [simp]: "log_phase [] = Some Quiet"
  and log_phase_snoc [simp]: "log_phase (es @ [e]) = Option.bind (log_phase es) (next_phase e)"
  by (simp_all add: log_phase_def)

section \<open>What the receiving thread keeps\<close>

text \<open>
  \<open>wire\<close> reads what the drivers have been given off the world: receiving, the clock and the heap do
  not change it, a send adds its bytes, and the functions registered for the calls do not send on
  the connection.
\<close>

definition quiet_recv :: "'w io \<Rightarrow> ('w \<Rightarrow> 'l) \<Rightarrow> bool" where
  "quiet_recv io wire \<longleftrightarrow> (\<forall>f sk n t a w. wire (snd (dev_recv io f sk n t a w)) = wire w)"

definition records :: "'w renv \<Rightarrow> ('w \<Rightarrow> byte list list) \<Rightarrow> bool" where
  "records env wire \<longleftrightarrow> quiet_recv (re_io env) wire \<and>
     (\<forall>f sk bs a w. wire (snd (dev_send (re_io env) f sk bs a w)) = wire w @ [bs]) \<and>
     (\<forall>w. wire (snd (sv_time (re_srv env) w)) = wire w) \<and> (\<forall>w. wire (snd (re_malloc env w)) = wire w)"

definition silent :: "'w call_func option list \<Rightarrow> ('w \<Rightarrow> byte list list) \<Rightarrow> bool" where
  "silent funcs wire \<longleftrightarrow> (\<forall>f as n w. Some f \<in> set funcs \<longrightarrow> wire (snd (snd (f as n w))) = wire w)"

text \<open>Receiving changes neither the connection, unless it is a UDP socket, nor what has been sent.\<close>

definition undisturbed :: "('w \<Rightarrow> 'l) \<Rightarrow> 'w rstate \<Rightarrow> 'w rstate \<Rightarrow> bool" where
  "undisturbed wire st st' \<longleftrightarrow>
     (conn_type (rdev st) \<noteq> CONN_UDP \<longrightarrow> rdev st' = rdev st) \<and> wire (rworld st') = wire (rworld st)"

lemma undisturbed_refl [simp]: "undisturbed wire st st"
  by (simp add: undisturbed_def)

lemma undisturbed_trans: "undisturbed wire st1 st2 \<Longrightarrow> undisturbed wire st2 st3 \<Longrightarrow> undisturbed wire st1 st3"
  by (auto simp: undisturbed_def)

lemma undisturbed_read: "quiet_recv io wire \<Longrightarrow> dev_read io n a st = (out, st') \<Longrightarrow> undisturbed wire st st'"
  by (auto simp: undisturbed_def dev_read_def Let_def split_beta quiet_recv_def)

lemma undisturbed_skip: "quiet_recv io wire \<Longrightarrow> undisturbed wire st (dev_skip io n st)"
  by (auto simp: dev_skip_def intro: undisturbed_read [OF _ surjective_pairing])

lemma undisturbed_align: "quiet_recv io wire \<Longrightarrow> align_header io buf st = (b, st') \<Longrightarrow> undisturbed wire st st'"
  by (auto simp: align_header_def Let_def undisturbed_skip split: if_splits)

lemma undisturbed_sender: "check_sender known out st = (hr, st') \<Longrightarrow> undisturbed wire st st'"
  by (auto simp: check_sender_def Let_def undisturbed_def split: if_splits)

lemmas undisturbed_steps = undisturbed_read undisturbed_align undisturbed_sender

lemma find_header_undisturbed:
  "find_header io client parg buf st = Some r \<Longrightarrow> quiet_recv io wire \<longrightarrow> undisturbed wire st (snd (snd r))"
  apply (erule find_header.raw_induct [where P = "\<lambda>io _ _ _ st r. quiet_recv io wire \<longrightarrow> undisturbed wire st (snd (snd r))", rotated])
  subgoal premises prems for g io client parg buf st r
  proof
    assume io: "quiet_recv io wire"
    obtain buf1 st1 where al: "align_header io buf st = (buf1, st1)" by fastforce
    define buf2 where "buf2 = (if conn_type (rdev st1) = CONN_TCP then [] else buf1)"
    obtain out st2 where rd: "dev_read io (UDP_MAX_PACKET - of_nat (length buf2)) parg st1 = (out, st2)" by fastforce
    obtain hr st3 where ck: "check_sender client out st2 = (hr, st3)" by fastforce
    have st3: "undisturbed wire st st1" "undisturbed wire st st3"
      using undisturbed_align [OF io al] undisturbed_read [OF io rd] undisturbed_sender [OF ck] by (blast intro: undisturbed_trans)+
    show "undisturbed wire st (snd (snd r))"
      using prems(2) al rd ck st3 io
      by (auto simp: Let_def buf2_def [symmetric] split: if_splits option.splits dest!: prems(1) intro: undisturbed_trans)
  qed
  done

lemma recv_rest_undisturbed:
  "recv_rest io parg n buf k st = Some r \<Longrightarrow> quiet_recv io wire \<longrightarrow> undisturbed wire st (snd (snd r))"
  apply (erule recv_rest.raw_induct [where P = "\<lambda>io _ _ _ _ st r. quiet_recv io wire \<longrightarrow> undisturbed wire st (snd (snd r))", rotated])
  subgoal premises prems for g io parg n buf k st r
  proof
    assume io: "quiet_recv io wire"
    obtain out st1 where rd: "dev_read io (n - k) parg st = (out, st1)" by fastforce
    obtain hr st2 where ck: "check_sender True out st1 = (hr, st2)" by fastforce
    have st2: "undisturbed wire st st2"
      using undisturbed_read [OF io rd] undisturbed_sender [OF ck] by (blast intro: undisturbed_trans)
    show "undisturbed wire st (snd (snd r))"
      using prems(2) rd ck st2 io
      by (auto simp: Let_def bind_eq_Some_conv split: if_splits option.splits dest!: prems(1) intro: undisturbed_trans)
  qed
  done

lemma start_packet_undisturbed:
  "quiet_recv io wire \<Longrightarrow> start_packet io fresh n buf st = Some (mem, k, st') \<Longrightarrow> undisturbed wire st st'"
  by (auto simp: start_packet_def Let_def split: if_splits prod.splits dest: undisturbed_read)

lemma recv_packet_undisturbed:
  "recv_packet io mok junk fresh client lim q st = Some r \<Longrightarrow> quiet_recv io wire \<longrightarrow> undisturbed wire st (snd (snd r))"
  apply (erule recv_packet.raw_induct [where P = "\<lambda>io _ _ _ _ _ _ st r. quiet_recv io wire \<longrightarrow> undisturbed wire st (snd (snd r))", rotated])
  subgoal premises prems for g io mok junk fresh client lim q st r
  proof
    assume io: "quiet_recv io wire"
    obtain len_min len_max parg where lim: "lim = (len_min, len_max, parg)" by (cases lim)
    obtain hr buf st1 where fh: "find_header io client parg [] st = Some (hr, buf, st1)"
      using prems(2) lim by (cases "find_header io client parg [] st") auto
    have st1: "undisturbed wire st st1" "undisturbed wire st (dev_skip io 1 st1)"
      using find_header_undisturbed [OF fh, of wire] io undisturbed_skip [OF io, of st1 1] by (auto intro: undisturbed_trans)
    have rest: "undisturbed wire st st3"
      if "Option.bind (start_packet io fresh n buf st1) (\<lambda>(mem, m, st2). recv_rest io (second_arg parg) n mem m st2) = Some (hr2, mem', st3)" for n hr2 mem' st3
      using that st1(1) io by (auto simp: bind_eq_Some_conv dest!: start_packet_undisturbed recv_rest_undisturbed [of _ _ _ _ _ _ _ wire] intro: undisturbed_trans)
    show "undisturbed wire st (snd (snd r))"
      using prems(2) lim fh st1 io
      by (auto simp: Let_def split: if_splits option.splits bool.splits dest!: prems(1) rest) (blast intro: undisturbed_trans)+
  qed
  done

lemma bcap_recv_undisturbed:
  assumes "bcap_recv io mok junk fresh (Some d) q client w = Some (hr, q', Some d', w')" and io: "quiet_recv io wire"
  shows "(conn_type d \<noteq> CONN_UDP \<longrightarrow> d' = d) \<and> wire w' = wire w"
  using assms by (auto simp: bcap_recv_def Let_def undisturbed_def split: option.splits if_splits sum.splits dest!: recv_packet_undisturbed [where wire = wire])

text \<open>The packets and the connection, which the account of the objects leaves alone.\<close>

definition kept :: "addr \<Rightarrow> smem \<Rightarrow> (bcap_packet \<times> bcap_packet \<times> conn_param_common) option" where
  "kept own m = map_option (\<lambda>n. (last_send n, last_recv n, sdevice n)) (nodes m own)"

lemma upd_obj_kept: "upd_obj a f m = Some m' \<Longrightarrow> kept own m' = kept own m"
  by (auto simp: upd_obj_def kept_def)

lemma upd_node_kept:
  assumes "upd_node a f m = Some m'"
    and "\<And>n. (last_send (f n), last_recv (f n), sdevice (f n)) = (last_send n, last_recv n, sdevice n)"
  shows "kept own m' = kept own m"
  using assms by (auto simp: upd_node_def kept_def)

lemma free_obj_kept: "free_obj a m = Some m' \<Longrightarrow> kept own m' = kept own m"
  by (auto simp: free_obj_def kept_def)

lemmas kept_rules = upd_obj_kept upd_node_kept free_obj_kept

lemma push_vector_kept: "push_vector own a m = Some (hr, m') \<Longrightarrow> kept b m' = kept b m"
  by (auto simp: push_vector_def elim!: bind_SomeE split: if_splits option.splits dest!: kept_rules [where own = b])
    (auto simp: kept_def)

lemma pop_at_kept: "pop_at own a m = Some m' \<Longrightarrow> kept b m' = kept b m"
  by (auto simp: pop_at_def elim!: bind_SomeE split: option.splits dest!: kept_rules [where own = b])

lemma pop_vector_kept: "pop_vector own k m = Some (hr, p, m') \<Longrightarrow> kept b m' = kept b m"
proof -
  have "pop_loop own k i n c m = Some (hr, p, m') \<Longrightarrow> kept b m' = kept b m" for i n c
    by (induction own k i n c m rule: pop_loop.induct) (auto simp: elim!: bind_SomeE split: if_splits dest: pop_at_kept)
  then show "pop_vector own k m = Some (hr, p, m') \<Longrightarrow> kept b m' = kept b m"
    by (auto simp: pop_vector_def elim!: bind_SomeE)
qed

lemma kept_new_object [simp]: "kept b (new_object a i h m) = kept b m"
  by (simp add: kept_def new_object_def)

lemma account_object_kept:
  assumes "account_object env own tmp (m, w) = Some (gone, m', w')" and "nodes m own = Some n" "conn_type (sdevice n) \<noteq> CONN_UDP"
  shows "kept own m' = kept own m \<and> \<not> gone"
  using assms
  by (auto simp: account_object_def Let_def elim!: bind_SomeE split: if_splits option.splits prod.splits
      dest!: push_vector_kept [where b = own] pop_vector_kept [where b = own] free_obj_kept [where own = own])

lemma start_service_kept:
  "start_service mok q = Some (r, f) \<Longrightarrow> last_send (f n) = last_send n \<and> last_recv (f n) = last_recv n \<and> sdevice (f n) = sdevice n"
proof -
  have "service_options mok src = Some (r, f) \<Longrightarrow>
      last_send (f n) = last_send n \<and> last_recv (f n) = last_recv n \<and> sdevice (f n) = sdevice n" for src
    by (auto simp: service_options_def elim!: bind_SomeE split: if_splits)
  then show "start_service mok q = Some (r, f) \<Longrightarrow> last_send (f n) = last_send n \<and> last_recv (f n) = last_recv n \<and> sdevice (f n) = sdevice n"
    by (auto simp: start_service_def elim!: bind_SomeE split: if_splits option.splits list.splits vunion.splits)
qed

lemma start_service_refusal: "start_service mok q = Some (Inl code, f) \<Longrightarrow> FAILED code"
  by (auto simp: start_service_def service_options_def elim!: bind_SomeE split: if_splits option.splits list.splits vunion.splits)

lemma start_service_effect:
  "start_service mok q = Some (r, f) \<Longrightarrow>
   (last_send (f n) = last_send n \<and> last_recv (f n) = last_recv n \<and> sdevice (f n) = sdevice n) \<and> (\<forall>code. r = Inl code \<longrightarrow> FAILED code)"
  using start_service_kept start_service_refusal by blast

lemma refusal_codes: "FAILED E_BUSY_PROC" "FAILED E_MAX_OBJECT"
  by code_simp+

lemma start_request_kept:
  assumes "start_request env own own cevt q (m, w) = Some (r, m', w')" and "nodes m own = Some n"
  shows "case r of
      Answered hr p \<Rightarrow> kept own m' = kept own m \<and> serial p = serial q \<and> FAILED (func_id p) \<and> argc p = 0
    | Started tmp p hr \<Rightarrow> cevt \<and> tmp = own \<and> w' = w \<and> kept own m' = Some (last_send n, q, sdevice n) \<and>
        serial p = serial q \<and> func_id p = S_EXECUTING \<and> argc p = 0"
proof -
  have a: "kept own (fst st') = kept own (fst st)" if "answer_now env own p q st = Some st'" for p q st st'
    using that by (auto simp: answer_now_def elim!: bind_SomeE)
  show ?thesis
    using assms
    by (auto simp: start_request_def refuse_def Let_def upd_node_def elim!: bind_SomeE split: if_splits sum.splits prod.splits
        dest!: a start_service_effect [where n = n]) (auto simp: kept_def zero_packet_def refusal_codes)
qed

lemma check_request_kept:
  assumes "check_request env own q st = Some (r, st')" and "nodes (fst st) own = Some n" "conn_type (sdevice n) \<noteq> CONN_UDP"
  shows "fst st' = fst st \<and> (case r of Fresh tmp q' \<Rightarrow> tmp = own \<and> snd st' = snd st | Repeated hr p \<Rightarrow> serial p = serial q)"
  using assms by (auto simp: check_request_def Let_def answer_now_def elim!: bind_SomeE split: if_splits)

lemma recv_request_kept:
  assumes "recv_request env own (m, w) = Some (hr, q, m', w')" and "nodes m own = Some n" "conn_type (sdevice n) \<noteq> CONN_UDP"
  shows "kept own m' = kept own m"
proof -
  have "quiet_recv (re_io env) (\<lambda>_. ())" by (simp add: quiet_recv_def)
  from bcap_recv_undisturbed [OF _ this] show ?thesis
    using assms by (auto simp: recv_request_def upd_node_def kept_def elim!: bind_SomeE split: option.splits if_splits prod.splits)
qed

lemma finish_request_kept:
  assumes "finish_request env own own (m, w) = Some (hr, m', w')" and "nodes m own = Some n" "conn_type (sdevice n) \<noteq> CONN_UDP"
  shows "kept own m' = kept own m"
proof -
  have r: "kept own m2 = kept own m1" if "remember_answer env own own (m1, w1) = Some (m2, w2)" for m1 w1 m2 w2
    using that by (cases "nodes m1 own") (auto simp: remember_answer_def upd_node_def kept_def elim!: bind_SomeE split: option.splits list.splits prod.splits)
  have acc: "kept own m1 = kept own m" if "account_object env own own (m, w) = Some (g, m1, w1)" for g m1 w1
    using account_object_kept [OF that assms(2,3)] by blast
  show ?thesis
    using assms by (auto simp: finish_request_def elim!: bind_SomeE split: if_splits dest!: r acc)
qed

section \<open>The invariant\<close>

text \<open>
  \<open>comp_evt\<close> is set exactly when the executing thread is idle and has nothing to do; while it has,
  the request it works on is the one received last, and the reply it has written stays until it
  is sent. \<open>p\<close>, \<open>q\<close> are the two packets of the connection, \<open>ph\<close> is where the abstract server is.
  Call functions return values that can be freed.
\<close>

definition pc_ok :: "addr \<Rightarrow> bool \<Rightarrow> bcap_packet \<Rightarrow> bcap_packet \<Rightarrow> phase \<Rightarrow> rpc \<Rightarrow> bool" where
  "pc_ok own cevt p q ph pc = (case pc of
     Ready tmp q \<Rightarrow> tmp = own
   | Waiting tmp x begun \<Rightarrow> tmp = own \<and> ph \<noteq> Quiet \<and> serial x = serial q \<and> func_id x = S_EXECUTING \<and> argc x = 0
   | Finishing tmp \<Rightarrow> tmp = own \<and> cevt \<and> ph = Done p
   | _ \<Rightarrow> True)"

definition sendable :: "bcap_packet \<Rightarrow> bool" where
  "sendable p \<longleftrightarrow> (\<exists>v. args p = Some [v] \<and> VariantClear v \<noteq> None)"

definition funcs_ok :: "'w call_func option list \<Rightarrow> bool" where
  "funcs_ok funcs \<longleftrightarrow> length funcs = 138 \<and>
     (\<forall>f as n w. Some f \<in> set funcs \<longrightarrow> VariantClear (fst (snd (f as n w))) \<noteq> None)"

definition thread_ok :: "addr \<Rightarrow> 'w threads \<Rightarrow> bcap_packet \<times> bcap_packet \<times> conn_param_common \<Rightarrow> phase \<Rightarrow> bool" where
  "thread_ok own s = (\<lambda>(p, q, t) ph.
     kept own (tmem s) = Some (p, q, t) \<and> conn_type t \<noteq> CONN_UDP \<and>
     (comp_evt s \<longleftrightarrow> epc s = Idle \<and> \<not> exec_evt s) \<and> (exec_evt s \<longrightarrow> epc s = Idle) \<and>
     log_phase (events s) = Some ph \<and>
     sendable p \<and>
     (epc s = InCall \<longrightarrow> serial p = serial q \<and> reserv p = 0 \<and> func_id p = E_INVALIDARG \<and> argc p = 0) \<and>
     (if exec_evt s \<or> epc s = Woken \<or> epc s = InCall then ph = Pending q else ph = Quiet \<or> ph = Done p \<and> serial p = serial q) \<and>
     pc_ok own (comp_evt s) p q ph (rpc s))"

definition thread_inv :: "addr \<Rightarrow> 'w threads \<Rightarrow> bool" where
  "thread_inv own s \<longleftrightarrow> (\<exists>k ph. thread_ok own s k ph)"

lemma thread_invI: "thread_ok own s (p, q, t) ph \<Longrightarrow> thread_inv own s"
  unfolding thread_inv_def by blast

lemma kept_Some: "kept own m = Some (p, q, t) \<longleftrightarrow>
    (\<exists>n. nodes m own = Some n \<and> last_send n = p \<and> last_recv n = q \<and> sdevice n = t)"
  by (auto simp: kept_def)

lemma pc_ok_loop [simp]: "pc_ok own c p q ph (loop_pc hr)" "pc_ok own c p q ph Stopped" "pc_ok own c p q ph (Got q')"
  by (simp_all add: pc_ok_def loop_pc_def)

lemma callfunc_reply:
  "bcap_callfunc funcs q send w = Some (p, w') \<Longrightarrow> serial p = serial q \<and> reserv p = 0"
  by (auto simp: bcap_callfunc_def Let_def elim!: bind_SomeE split: if_splits option.splits list.splits prod.splits)

lemma callfunc_sendable:
  assumes call: "bcap_callfunc funcs q send w = Some (p, w')" and funcs: "funcs_ok funcs" and send: "sendable send"
  shows "sendable p"
proof -
  obtain v where v: "args send = Some [v]" "VariantClear v \<noteq> None" using send by (auto simp: sendable_def)
  have "VariantClear (fst (snd (f (args q) (argc q) w))) \<noteq> None"
    if "0 < sint (func_id q)" "sint (func_id q) < 138" "funcs ! nat (sint (func_id q)) = Some f" for f
  proof -
    have "nat (sint (func_id q)) < length funcs" using that(1,2) funcs by (simp add: funcs_ok_def)
    then have "Some f \<in> set funcs" using that(3) by (metis nth_mem)
    then show ?thesis using funcs by (simp add: funcs_ok_def)
  qed
  then show ?thesis
    using call v unfolding bcap_callfunc_cases [OF v] by (auto simp: sendable_def split: if_splits option.splits)
qed

lemma thread_inv_start:
  assumes "thread_init own s" and "nodes (tmem s) own = Some n" "conn_type (sdevice n) \<noteq> CONN_UDP"
  shows "thread_inv own s"
proof -
  have "VariantClear zero_variant \<noteq> None" by code_simp
  then show ?thesis
    using assms by (intro thread_invI [where ph = Quiet]) (auto simp: thread_init_def thread_ok_def kept_Some pc_ok_def sendable_def)
qed

text \<open>A step keeps the invariant and the connection.\<close>

lemma thread_ok_step:
  assumes ok: "thread_ok own s (p, q, t) ph" and step: "thread_step env funcs own s s'" and funcs: "funcs_ok funcs"
  shows "\<exists>p' q' ph'. thread_ok own s' (p', q', t) ph'"
proof -
  have k: "kept own (tmem s) = Some (p, q, t)" and t: "conn_type t \<noteq> CONN_UDP" using ok by (simp_all add: thread_ok_def)
  obtain n where n: "nodes (tmem s) own = Some n" "last_send n = p" "last_recv n = q" "sdevice n = t" "conn_type (sdevice n) \<noteq> CONN_UDP"
    using k t by (auto simp: kept_Some)
  note I = exI [of "\<lambda>p'. \<exists>q' ph'. thread_ok own s' (p', q', t) ph'", OF exI [of "\<lambda>q'. \<exists>ph'. thread_ok own s' (_, q', t) ph'", OF exI]]
  from step show ?thesis
  proof cases
    case stop
    then show ?thesis using ok by (intro I [of p q ph]) (simp add: thread_ok_def)
  next
    case (recv hr q' m w)
    then show ?thesis
      using ok recv_request_kept [OF recv(3) n(1,5)] by (intro I [of p q ph]) (simp add: thread_ok_def)
  next
    case (check q' r m w)
    then show ?thesis
      using ok check_request_kept [OF check(3)] n
      by (intro I [of p q ph]) (auto simp: thread_ok_def pc_ok_def loop_pc_def split: checked.splits)
  next
    case (answer tmp q' hr p' m w)
    then have "tmp = own" using ok by (simp add: thread_ok_def pc_ok_def)
    with answer ok start_request_kept [OF answer(3) [unfolded \<open>tmp = own\<close>] n(1)] show ?thesis
      by (intro I [of p q ph]) (simp add: thread_ok_def)
  next
    case (start tmp q' tmp' x hr m w)
    then have "tmp = own" using ok by (simp add: thread_ok_def pc_ok_def)
    with start ok start_request_kept [OF start(3) [unfolded \<open>tmp = own\<close>] n(1)] n show ?thesis
      by (intro I [of p q' "Pending q'"]) (auto simp: thread_ok_def pc_ok_def loop_pc_def)
  next
    case (wait tmp x begun r w)
    then show ?thesis
      using ok by (intro I [of p q ph]) (auto simp: thread_ok_def pc_ok_def loop_pc_def split: option.splits phase.splits if_splits)
  next
    case (completed tmp x begun)
    then show ?thesis using ok by (intro I [of p q ph]) (auto simp: thread_ok_def pc_ok_def)
  next
    case (finish tmp n' hr m w)
    then have tmp: "tmp = own" "ph = Done p" "n' = n" "comp_evt s" using ok n by (auto simp: thread_ok_def pc_ok_def)
    have "kept own m = Some (p, q, t)" using finish_request_kept [OF finish(4) [unfolded tmp] n(1,5)] k by simp
    with finish ok tmp n show ?thesis
      by (intro I [of p q Quiet]) (auto simp: thread_ok_def)
  next
    case wake
    then show ?thesis using ok by (intro I [of p q ph]) (auto simp: thread_ok_def)
  next
    case (enter m)
    then show ?thesis
      using ok n by (intro I [of "last_send (init_reply n)" q ph])
        (auto simp: thread_ok_def kept_Some init_reply_def pc_ok_def sendable_def split: rpc.splits)
  next
    case (return n' p' w m)
    then show ?thesis
      using ok n callfunc_reply [OF return(4)] callfunc_sendable [OF return(4) funcs]
      by (intro I [of p' q "Done p'"]) (auto simp: thread_ok_def kept_Some pc_ok_def split: rpc.splits)
  next
    case signal
    then show ?thesis
      using ok by (intro I [of p q ph]) (auto simp: thread_ok_def pc_ok_def split: rpc.splits)
  qed
qed

lemma thread_inv_step:
  assumes "thread_inv own s" and "thread_step env funcs own s s'" and "funcs_ok funcs"
  shows "thread_inv own s'"
  using assms thread_ok_step unfolding thread_inv_def by fast

lemma thread_inv_reached:
  assumes "reached env funcs own s0 s" and "thread_init own s0" and "nodes (tmem s0) own = Some n" "conn_type (sdevice n) \<noteq> CONN_UDP"
    and "funcs_ok funcs"
  shows "thread_inv own s"
  using assms(1)
  by induction (use assms(2-5) thread_inv_start thread_inv_step in blast)+

section \<open>What the log says\<close>

fun accepted :: "event list \<Rightarrow> bcap_packet list" where
  "accepted [] = []"
| "accepted (Accepted q # es) = q # accepted es"
| "accepted (_ # es) = accepted es"

fun called :: "event list \<Rightarrow> bcap_packet list" where
  "called [] = []"
| "called (Called q p # es) = q # called es"
| "called (_ # es) = called es"

lemma accepted_append [simp]: "accepted (es @ fs) = accepted es @ accepted fs"
  by (induction es rule: accepted.induct) simp_all

lemma called_append [simp]: "called (es @ fs) = called es @ called fs"
  by (induction es rule: called.induct) simp_all

lemma log_phase_calls:
  "log_phase es = Some ph \<Longrightarrow> accepted es = called es @ (case ph of Pending q \<Rightarrow> [q] | _ \<Rightarrow> [])"
proof (induction es arbitrary: ph rule: rev_induct)
  case (snoc e es)
  then show ?case by (cases e) (auto elim!: bind_SomeE split: phase.splits if_splits)
qed simp

text \<open>The requests, the calls and the replies, without what is sent beside them.\<close>

fun is_work :: "event \<Rightarrow> bool" where
  "is_work (Accepted q) = True"
| "is_work (Called q p) = True"
| "is_work (Replied p) = True"
| "is_work _ = False"

definition work :: "event list \<Rightarrow> event list" where
  "work es = filter is_work es"

lemma log_phase_work: "log_phase es = Some ph \<Longrightarrow> log_phase (work es) = Some ph"
proof (induction es arbitrary: ph rule: rev_induct)
  case (snoc e es)
  then show ?case by (cases e) (auto simp: work_def elim!: bind_SomeE split: phase.splits if_splits)
qed (simp add: work_def)

lemma work_snoc_fixed: "work (es @ [e]) = es @ [e] \<Longrightarrow> work es = es \<and> is_work e"
  unfolding work_def filter_id_conv by simp

lemma log_phase_done:
  assumes "log_phase es = Some (Done p)" and "work es = es"
  shows "\<exists>q. es \<noteq> [] \<and> last es = Called q p \<and> serial p = serial q"
proof (cases es rule: rev_cases)
  case (snoc fs e)
  then have "is_work e" using work_snoc_fixed assms(2) by blast
  then show ?thesis using assms(1) snoc by (cases e) (auto elim!: bind_SomeE split: phase.splits if_splits)
qed (use assms in simp)

lemma log_phase_replies:
  "log_phase es = Some ph \<Longrightarrow> work es = es \<Longrightarrow> i < length es \<Longrightarrow> es ! i = Replied p \<Longrightarrow>
   \<exists>j q. i = Suc j \<and> es ! j = Called q p \<and> serial p = serial q"
proof (induction es arbitrary: ph rule: rev_induct)
  case (snoc e es)
  obtain ph0 where ph0: "log_phase es = Some ph0" using snoc.prems(1) by (auto elim!: bind_SomeE)
  have fx: "work es = es" using work_snoc_fixed [OF snoc.prems(2)] by simp
  show ?case
  proof (cases "i < length es")
    case True
    then have "es ! i = Replied p" using snoc.prems(4) by (simp add: nth_append)
    from snoc.IH [OF ph0 fx True this] obtain j q where "i = Suc j" "es ! j = Called q p" "serial p = serial q" by blast
    then show ?thesis using True by (intro exI [of _ j] exI [of _ q]) (simp add: nth_append)
  next
    case False
    then have "i = length es" "e = Replied p" using snoc.prems(3,4) by (auto simp: nth_append)
    then have "ph0 = Done p" using snoc.prems(1) ph0 by (simp split: if_splits)
    from log_phase_done [OF ph0 [unfolded this] fx] obtain q where "es \<noteq> []" "last es = Called q p" "serial p = serial q" by blast
    then show ?thesis
      using \<open>i = length es\<close> by (intro exI [of _ "length es - 1"] exI [of _ q]) (simp add: nth_append last_conv_nth)
  qed
qed simp

text \<open>What is sent beside the replies: which request it is about, and what it says.\<close>

fun fitting :: "event list \<Rightarrow> event \<Rightarrow> bool" where
  "fitting es (Noticed p) \<longleftrightarrow> func_id p = S_EXECUTING \<and> argc p = 0 \<and> serial p \<in> set (map serial (accepted es))"
| "fitting es (Refused q p) \<longleftrightarrow> FAILED (func_id p) \<and> argc p = 0 \<and> serial p = serial q"
| "fitting es (Again q p) \<longleftrightarrow> serial p = serial q"
| "fitting es _ \<longleftrightarrow> True"

lemma fitting_append: "fitting es e \<Longrightarrow> fitting (es @ fs) e"
  by (cases e) auto

lemma log_phase_fitting:
  "log_phase es = Some ph \<Longrightarrow> (\<forall>e\<in>set es. fitting es e) \<and>
     (case ph of Pending q \<Rightarrow> q \<in> set (accepted es) | Done p \<Rightarrow> serial p \<in> set (map serial (accepted es)) | Quiet \<Rightarrow> True)"
proof (induction es arbitrary: ph rule: rev_induct)
  case (snoc e es)
  obtain ph0 where ph0: "log_phase es = Some ph0" "next_phase e ph0 = Some ph" using snoc.prems by (auto elim!: bind_SomeE)
  note IH = snoc.IH [OF ph0(1)]
  have "\<forall>x\<in>set es. fitting (es @ [e]) x" using IH fitting_append by blast
  moreover have "fitting (es @ [e]) e \<and>
      (case ph of Pending q \<Rightarrow> q \<in> set (accepted (es @ [e])) | Done p \<Rightarrow> serial p \<in> set (map serial (accepted (es @ [e]))) | Quiet \<Rightarrow> True)"
    using IH ph0(2) by (cases e; cases ph0) (auto split: if_splits phase.splits)
  ultimately show ?case by simp
qed simp

section \<open>What is on the wire\<close>

text \<open>The bytes \<open>bcap_send\<close> gives to the driver of a connection for a packet, and those of an event.\<close>

definition recorder :: "byte list list io" where
  "recorder = \<lparr>dev_send = \<lambda>f sk bs a w. (S_OK, w @ [bs]), dev_recv = \<lambda>f sk n t a w. (RecvOut E_TIMEOUT None [] (arg_addr a), w)\<rparr>"

definition sent_bytes :: "(nat \<Rightarrow> bool) \<Rightarrow> conn_param_common \<Rightarrow> bcap_packet \<Rightarrow> byte list list" where
  "sent_bytes mok d p = (case bcap_send recorder mok (Some d) (Some p) [] of Some (hr, w) \<Rightarrow> w | None \<Rightarrow> [])"

fun event_bytes :: "(nat \<Rightarrow> bool) \<Rightarrow> conn_param_common \<Rightarrow> event \<Rightarrow> byte list list" where
  "event_bytes mok d (Replied p) = sent_bytes mok d p"
| "event_bytes mok d (Noticed p) = sent_bytes mok d p"
| "event_bytes mok d (Refused q p) = sent_bytes mok d p"
| "event_bytes mok d (Again q p) = sent_bytes mok d p"
| "event_bytes mok d _ = []"

lemma recordsD:
  assumes "records env wire"
  shows "quiet_recv (re_io env) wire" "dev_send (re_io env) f sk bs a w = (hr, w') \<Longrightarrow> wire w' = wire w @ [bs]"
    "sv_time (re_srv env) w = (now, w') \<Longrightarrow> wire w' = wire w" "re_malloc env w = (r, w') \<Longrightarrow> wire w' = wire w"
  using assms by (auto simp: records_def) (metis snd_conv)+

lemma send_on_bytes:
  assumes rec: "records env wire" and send: "send_on env own p (m, w) = Some (hr, w')" and n: "nodes m own = Some n"
  shows "wire w' = wire w @ sent_bytes (re_mok env) (sdevice n) p"
  using send n recordsD(2) [OF rec]
  by (auto simp: send_on_def sent_bytes_def bcap_send_def recorder_def Let_def split: if_splits sum.splits option.splits prod.splits)

lemma answer_now_bytes:
  "records env wire \<Longrightarrow> answer_now env own p q (m, w) = Some (m', w') \<Longrightarrow> nodes m own = Some n \<Longrightarrow>
   wire w' = wire w @ sent_bytes (re_mok env) (sdevice n) p"
  by (auto simp: answer_now_def elim!: bind_SomeE dest: send_on_bytes)

lemma recv_request_wire:
  assumes "records env wire" and "recv_request env own (m, w) = Some (hr, q, m', w')"
  shows "wire w' = wire w"
  using assms(2) bcap_recv_undisturbed [OF _ recordsD(1) [OF assms(1)]]
  by (auto simp: recv_request_def elim!: bind_SomeE split: option.splits if_splits prod.splits)

lemma check_request_wire:
  assumes "records env wire" and "check_request env own q (m, w) = Some (r, m', w')"
    and "nodes m own = Some n" "conn_type (sdevice n) \<noteq> CONN_UDP"
  shows "wire w' = wire w @ (case r of Repeated hr p \<Rightarrow> sent_bytes (re_mok env) (sdevice n) p | Fresh tmp q' \<Rightarrow> [])"
  using assms by (auto simp: check_request_def Let_def elim!: bind_SomeE split: if_splits dest!: answer_now_bytes)

lemma start_request_wire:
  assumes "records env wire" and "start_request env own own cevt q (m, w) = Some (r, m', w')" and "nodes m own = Some n"
  shows "wire w' = wire w @ (case r of Answered hr p \<Rightarrow> sent_bytes (re_mok env) (sdevice n) p | Started tmp p hr \<Rightarrow> [])"
proof -
  have a: "wire w1 = wire w @ sent_bytes (re_mok env) (sdevice n') p"
    if "answer_now env own p q (m1, w) = Some (m2, w1)" "nodes m1 own = Some n'" for p m1 m2 w1 n'
    using answer_now_bytes [OF assms(1) that] .
  show ?thesis
    using assms(2,3)
    by (auto simp: start_request_def refuse_def Let_def upd_node_def elim!: bind_SomeE split: if_splits sum.splits prod.splits
        dest!: a start_service_kept [where n = n])
qed

lemma wait_round_wire:
  assumes "records env wire" and "wait_round env own tmp p begun (m, w) = Some (r, w')" and "nodes m own = Some n"
  shows "wire w' = wire w @ sent_bytes (re_mok env) (sdevice n) p"
  using assms(2,3) recordsD(3) [OF assms(1)]
  by (auto simp: wait_round_def elim!: bind_SomeE split: if_splits prod.splits dest!: send_on_bytes [OF assms(1)])

lemma account_object_wire:
  assumes "records env wire" and "account_object env own tmp (m, w) = Some (g, m', w')"
    and "nodes m own = Some n" "conn_type (sdevice n) \<noteq> CONN_UDP"
  shows "wire w' = wire w"
  using assms(2-4) recordsD(4) [OF assms(1)]
  by (auto simp: account_object_def Let_def elim!: bind_SomeE split: if_splits option.splits prod.splits)

lemma finish_request_wire:
  assumes rec: "records env wire" and fin: "finish_request env own own (m, w) = Some (hr, m', w')"
    and n: "nodes m own = Some n" "conn_type (sdevice n) \<noteq> CONN_UDP"
  shows "wire w' = wire w @ sent_bytes (re_mok env) (sdevice n) (last_send n)"
proof -
  obtain g m1 w1 where acc: "(if func_id (last_send n) = S_OK then account_object env own own (m, w) else Some (False, m, w)) = Some (g, m1, w1)"
    using fin n by (auto simp: finish_request_def elim!: bind_SomeE split: if_splits)
  have "kept own m1 = kept own m \<and> wire w1 = wire w"
    using acc n account_object_kept [of env own own m w g m1 w1 n] account_object_wire [OF rec, of own own m w g m1 w1 n]
    by (auto split: if_splits)
  then obtain n1 where n1: "nodes m1 own = Some n1" "last_send n1 = last_send n" "sdevice n1 = sdevice n" "wire w1 = wire w"
    using n by (auto simp: kept_def)
  have rem: "wire w3 = wire w2" if "remember_answer env own own (m2, w2) = Some (m3, w3)" for m2 w2 m3 w3
    using that recordsD(3) [OF rec] by (auto simp: remember_answer_def elim!: bind_SomeE split: prod.splits)
  show ?thesis
    using fin n n1 acc
    by (auto simp: finish_request_def elim!: bind_SomeE split: if_splits dest!: send_on_bytes [OF rec] rem)
qed

lemma callfunc_wire:
  assumes call: "bcap_callfunc funcs q send w = Some (p, w')" and funcs: "funcs_ok funcs" and quiet: "silent funcs wire"
    and send: "sendable send"
  shows "wire w' = wire w"
proof -
  obtain v where v: "args send = Some [v]" "VariantClear v \<noteq> None" using send by (auto simp: sendable_def)
  have "wire (snd (snd (f (args q) (argc q) w))) = wire w"
    if "0 < sint (func_id q)" "sint (func_id q) < 138" "funcs ! nat (sint (func_id q)) = Some f" for f
  proof -
    have "nat (sint (func_id q)) < length funcs" using that(1,2) funcs by (simp add: funcs_ok_def)
    then have "Some f \<in> set funcs" using that(3) by (metis nth_mem)
    then show ?thesis using quiet by (simp add: silent_def)
  qed
  then show ?thesis
    using call v unfolding bcap_callfunc_cases [OF v] by (auto split: if_splits option.splits)
qed

lemma wire_step:
  assumes ok: "thread_ok own s (p, q, d) ph" and step: "thread_step env funcs own s s'" and funcs: "funcs_ok funcs" "silent funcs wire"
    and rec: "records env wire"
  shows "\<exists>es. events s' = events s @ es \<and> wire (world s') = wire (world s) @ concat (map (event_bytes (re_mok env) d) es)"
proof -
  obtain n where n: "nodes (tmem s) own = Some n" "sdevice n = d" "conn_type (sdevice n) \<noteq> CONN_UDP" "last_send n = p" "sendable (last_send n)"
    using ok by (auto simp: thread_ok_def kept_Some)
  from step show ?thesis
  proof cases
    case (recv hr q' m w)
    then show ?thesis using recv_request_wire [OF rec recv(3)] by simp
  next
    case (check q' r m w)
    then show ?thesis using check_request_wire [OF rec check(3) n(1,3)] n by (cases r) auto
  next
    case (answer tmp q' hr x m w)
    then have "tmp = own" using ok by (simp add: thread_ok_def pc_ok_def)
    with answer start_request_wire [OF rec answer(3) [unfolded \<open>tmp = own\<close>] n(1)] n show ?thesis by simp
  next
    case (start tmp q' tmp' x hr m w)
    then have "tmp = own" using ok by (simp add: thread_ok_def pc_ok_def)
    with start start_request_wire [OF rec start(3) [unfolded \<open>tmp = own\<close>] n(1)] n recordsD(3) [OF rec] show ?thesis
      by (cases "sv_time (re_srv env) w") simp
  next
    case (wait tmp x begun r w)
    then show ?thesis using wait_round_wire [OF rec wait(4) n(1)] n by simp
  next
    case (finish tmp n' hr m w)
    then have "tmp = own" "n' = n" using ok n by (auto simp: thread_ok_def pc_ok_def)
    then show ?thesis using finish finish_request_wire [OF rec _ n(1,3)] n by simp
  next
    case (return n' p' w m)
    then show ?thesis using callfunc_wire [OF return(4) funcs] n by simp
  qed simp_all
qed

lemma wire_reached:
  assumes "reached env funcs own s0 s" and "thread_ok own s0 (p0, q0, d) ph0" and "funcs_ok funcs" "silent funcs wire" "records env wire"
    and "events s0 = []"
  shows "\<exists>p q ph. thread_ok own s (p, q, d) ph \<and>
    wire (world s) = wire (world s0) @ concat (map (event_bytes (re_mok env) d) (events s))"
  using assms(1)
proof induction
  case reached_start
  then show ?case using assms(2,6) by auto
next
  case (reached_step s s')
  then obtain p q ph where ok: "thread_ok own s (p, q, d) ph"
    and w: "wire (world s) = wire (world s0) @ concat (map (event_bytes (re_mok env) d) (events s))" by blast
  show ?case
    using thread_ok_step [OF ok reached_step.hyps(2) assms(3)] wire_step [OF ok reached_step.hyps(2) assms(3-5)] w by auto
qed

section \<open>Every request once\<close>

text \<open>
  C5: in every run of the two threads of a connection over TCP or a serial line, the
  requests handed over are executed in the order in which they came, each of them once; at most
  one is outstanding, and none is when \<open>comp_evt\<close> is set.
\<close>

lemma requests_executed_once:
  assumes "reached env funcs own s0 s" and "thread_init own s0" and "nodes (tmem s0) own = Some n"
    and "conn_type (sdevice n) \<noteq> CONN_UDP" and "funcs_ok funcs"
  shows "\<exists>rest. accepted (events s) = called (events s) @ rest \<and> length rest \<le> 1 \<and> (comp_evt s \<longrightarrow> rest = [])"
proof -
  obtain p q t ph where ok: "thread_ok own s (p, q, t) ph" using thread_inv_reached [OF assms] by (auto simp: thread_inv_def)
  then have "accepted (events s) = called (events s) @ (case ph of Pending q \<Rightarrow> [q] | _ \<Rightarrow> [])"
    using log_phase_calls by (auto simp: thread_ok_def)
  then show ?thesis using ok by (cases ph) (auto simp: thread_ok_def)
qed

text \<open>
  C6: in every run over TCP or a serial line, in a world that keeps what the drivers are given, the
  bytes given to the driver of the connection are those of the packets recorded, in their order. Of
  the requests, calls and replies, a reply follows the call that built it and has the number of that
  call's request; so no request is answered twice and none with the reply of another. Beside the
  replies only notices of accepted requests are sent, refusals under the number of the request they
  refuse, and repeated replies under the number of the repetition.
\<close>

lemma replies_match_calls:
  assumes "reached env funcs own s0 s" and "thread_init own s0" and "nodes (tmem s0) own = Some n"
    and "conn_type (sdevice n) \<noteq> CONN_UDP" and "funcs_ok funcs"
    and "records env wire" and "silent funcs wire"
  shows "wire (world s) = wire (world s0) @ concat (map (event_bytes (re_mok env) (sdevice n)) (events s)) \<and>
    (\<forall>i p. i < length (work (events s)) \<longrightarrow> work (events s) ! i = Replied p \<longrightarrow>
      (\<exists>j q. i = Suc j \<and> work (events s) ! j = Called q p \<and> serial p = serial q)) \<and>
    (\<forall>e\<in>set (events s). fitting (events s) e)"
proof -
  obtain p q t ph where "thread_ok own s0 (p, q, t) ph"
    using thread_inv_start [OF assms(2-4)] by (auto simp: thread_inv_def)
  then have ok0: "thread_ok own s0 (p, q, sdevice n) ph" using assms(3) by (auto simp: thread_ok_def kept_Some)
  have "events s0 = []" using assms(2) by (simp add: thread_init_def)
  from wire_reached [OF assms(1) ok0 assms(5,7,6) this] obtain p1 q1 ph1 where ok: "thread_ok own s (p1, q1, sdevice n) ph1"
    and w: "wire (world s) = wire (world s0) @ concat (map (event_bytes (re_mok env) (sdevice n)) (events s))" by blast
  have log: "log_phase (events s) = Some ph1" using ok by (simp add: thread_ok_def)
  have "work (work (events s)) = work (events s)" by (simp add: work_def)
  from log_phase_replies [OF log_phase_work [OF log] this] log_phase_fitting [OF log] w show ?thesis by blast
qed

text \<open>
  While a request is outstanding no step of either thread changes it: the arguments
  a call function works on stay as they are until it has returned.
\<close>

lemma request_stable:
  assumes "thread_inv own s" and "thread_step env funcs own s s'" and "funcs_ok funcs" and "\<not> comp_evt s"
  shows "map_option last_recv (nodes (tmem s') own) = map_option last_recv (nodes (tmem s) own)"
proof -
  obtain p q t ph where ok: "thread_ok own s (p, q, t) ph" using assms(1) by (auto simp: thread_inv_def)
  then obtain n where n: "nodes (tmem s) own = Some n" "last_recv n = q" "conn_type (sdevice n) \<noteq> CONN_UDP"
    by (auto simp: thread_ok_def kept_Some)
  have k: "map_option last_recv (nodes m own) = map_option (\<lambda>(_, q, _). q) (kept own m)" for m
    by (simp add: kept_def option.map_comp comp_def)
  from assms(2) show ?thesis
  proof cases
    case (recv hr q' m w)
    then show ?thesis using recv_request_kept [OF recv(3) n(1,3)] by (simp add: k)
  next
    case (check q' r m w)
    then show ?thesis using check_request_kept [OF check(3)] n by simp
  next
    case (answer tmp q' hr p' m w)
    then have "tmp = own" using ok by (simp add: thread_ok_def pc_ok_def)
    with answer start_request_kept [OF answer(3) [unfolded \<open>tmp = own\<close>] n(1)] show ?thesis by (simp add: k)
  next
    case (start tmp q' tmp' x hr m w)
    then have "tmp = own" using ok by (simp add: thread_ok_def pc_ok_def)
    with start start_request_kept [OF start(3) [unfolded \<open>tmp = own\<close>] n(1)] assms(4) show ?thesis by simp
  next
    case (finish tmp n' hr m w)
    then show ?thesis using ok assms(4) by (simp add: thread_ok_def pc_ok_def)
  next
    case (enter m)
    then show ?thesis using n by (auto simp: init_reply_def)
  next
    case (return n' p' w m)
    then show ?thesis using n by auto
  qed simp_all
qed

section \<open>Repeated requests on a serial line\<close>

lemma check_request_com:
  assumes "nodes m own = Some n" and "conn_type (sdevice n) = CONN_COM" and "reserv q \<noteq> 0"
  shows "check_request env own q (m, w) =
    (if serial (last_send n) = reserv q
     then map_option (Pair (Repeated S_FALSE ((last_send n)\<lparr>serial := serial q\<rparr>)))
       (answer_now env own ((last_send n)\<lparr>serial := serial q\<rparr>) q (m, w))
     else Some (Fresh own q, m, w))"
  using assms by (simp add: check_request_def Let_def)

lemma answer_now_sends:
  "answer_now env own p q st = Some (m, w) \<Longrightarrow> m = fst st \<and> map_option snd (send_on env own p st) = Some w"
  by (auto simp: answer_now_def elim!: bind_SomeE)

lemma check_request_repeats:
  assumes "nodes m own = Some n" and "conn_type (sdevice n) = CONN_COM" and "reserv q \<noteq> 0"
    and "serial (last_send n) = reserv q" and "check_request env own q (m, w) = Some (r, m', w')"
  shows "r = Repeated S_FALSE ((last_send n)\<lparr>serial := serial q\<rparr>) \<and> m' = m \<and> map_option snd (send_on env own ((last_send n)\<lparr>serial := serial q\<rparr>) (m, w)) = Some w'"
  using assms(4,5) unfolding check_request_com [OF assms(1-3)] by (auto dest: answer_now_sends)

lemma thread_last_call:
  assumes inv: "thread_inv own s" and n: "nodes (tmem s) own = Some n"
    and ev: "work (events s) \<noteq> []" "last (work (events s)) = Called q p"
  shows "last_send n = p \<and> serial p = serial q"
proof -
  obtain x y t ph where ok: "thread_ok own s (x, y, t) ph" using inv by (auto simp: thread_inv_def)
  obtain es where es: "work (events s) = es @ [Called q p]" using ev by (metis append_butlast_last_id)
  have "log_phase (work (events s)) = Some ph" using ok log_phase_work by (simp add: thread_ok_def)
  then have "Option.bind (log_phase es) (next_phase (Called q p)) = Some ph" unfolding es by simp
  then have "ph = Done p" "serial p = serial q" by (auto elim!: bind_SomeE split: if_splits)
  then show ?thesis using ok n by (auto simp: thread_ok_def kept_Some split: if_splits)
qed

text \<open>
  On a serial line a repetition of the request that was executed last gets the reply
  the call built, under its own number, also when the reception of the original has been given up
  meanwhile; it is not executed again.
\<close>

lemma repeated_request_answered:
  assumes inv: "thread_inv own s" and n: "nodes (tmem s) own = Some n" "conn_type (sdevice n) = CONN_COM"
    and ev: "work (events s) \<noteq> []" "last (work (events s)) = Called q p" and q': "reserv q' = serial q" "serial q \<noteq> 0"
    and step: "check_request env own q' (tmem s, world s) = Some (r, m, w)"
  shows "r = Repeated S_FALSE (p\<lparr>serial := serial q'\<rparr>) \<and> m = tmem s \<and>
    map_option snd (send_on env own (p\<lparr>serial := serial q'\<rparr>) (tmem s, world s)) = Some w"
  using thread_last_call [OF inv n(1) ev] check_request_repeats [OF n _ _ step] q' by simp

text \<open>
  On a serial line a repetition that comes while the request is in its call function
  is answered with \<open>E_INVALIDARG\<close>: the reply that is sent is the one \<open>bcap_callfunc\<close> has begun.
\<close>

lemma repeated_during_call_refused:
  assumes inv: "thread_inv own s" and n: "nodes (tmem s) own = Some n" "conn_type (sdevice n) = CONN_COM"
    and call: "epc s = InCall" and q': "reserv q' = serial (last_recv n)" "reserv q' \<noteq> 0"
    and step: "check_request env own q' (tmem s, world s) = Some (r, m, w)"
  shows "r = Repeated S_FALSE \<lparr>serial = serial q', reserv = 0, func_id = E_INVALIDARG, argc = 0, args = args (last_send n)\<rparr> \<and>
    map_option snd (send_on env own \<lparr>serial = serial q', reserv = 0, func_id = E_INVALIDARG, argc = 0, args = args (last_send n)\<rparr>
      (tmem s, world s)) = Some w"
proof -
  have p: "serial (last_send n) = serial (last_recv n)" "reserv (last_send n) = 0"
    "func_id (last_send n) = E_INVALIDARG" "argc (last_send n) = 0"
    using inv n call by (auto simp: thread_inv_def thread_ok_def kept_Some)
  then have "(last_send n)\<lparr>serial := serial q'\<rparr> =
      \<lparr>serial = serial q', reserv = 0, func_id = E_INVALIDARG, argc = 0, args = args (last_send n)\<rparr>"
    by (cases "last_send n") simp
  then show ?thesis
    using check_request_repeats [OF n _ _ step] q' p(1) by simp
qed

section \<open>A request is executed\<close>



lemma reached_trans: "reached env funcs own b c \<Longrightarrow> reached env funcs own a b \<Longrightarrow> reached env funcs own a c"
  by (induction rule: reached.induct) (blast intro: reached_step)+




section \<open>A repetition that is executed again\<close>



section \<open>An option that is not a number\<close>

lemma start_service_text:
  assumes "args q = Some (Variant VT_BSTR (BstrP b) # vs)" and "1 \<le> argc q" and "wf_bstr b"
  shows "start_service mem_ok q = service_options mem_ok (Some b)"
proof -
  have "wf_variant (Variant VT_BSTR (BstrP b))" using assms(3) by (simp add: wf_variant.simps wf_body_def is_array_def)
  moreover have "VariantClear zero_variant \<noteq> None" by code_simp
  ultimately have "VariantCopy_to mem_ok (Variant VT_BSTR (BstrP b)) zero_variant = Some (S_OK, Variant VT_BSTR (BstrP b))"
    by (rule wf_VariantCopy(1))
  then show ?thesis using assms(1,2) by (simp add: start_service_def VariantChangeType_def)
qed

text \<open>
  A client that starts a service with an execution time-out that is not a number ends
  its connection: the request is handed over, but the receiving thread leaves its loop at once and
  no answer is sent.
\<close>

lemma bad_timeout_ends_connection:
  assumes s: "rpc s = Ready own q" "comp_evt s" and n: "nodes (tmem s) own = Some n" "sint (num_object n) < 1000"
    and q: "func_id q = ID_SERVICE_START" "args q = Some (Variant VT_BSTR (BstrP (render opts @ [0])) # vs)" "1 \<le> argc q"
    and opts: "wf_options opts" "number_option ''WDT'' opts n1" "80 \<le> stored_option INIT_WDT_INTERVAL n1"
      "lookup_option (wide ''InvokeTimeout'' @ [0]) opts = Some v" "read_number v = None" "hd v \<noteq> 46"
    and env: "re_mok env = mem_ok" "clear_args (last_recv n) = Some ()"
  shows "\<exists>s'. thread_step env funcs own s s' \<and> rpc s' = Stopped \<and> exec_evt s' \<and> events s' = events s @ [Accepted q]"
proof -
  have "wf_bstr (render opts @ [0])"
    using opts(1) render_no_zero [of opts] by (auto simp: wf_bstr_def wf_options_def)
  then have "start_service mem_ok q = Some
      (Inr DISP_E_TYPEMISMATCH, \<lambda>s. s\<lparr>wdt_interval := stored_option INIT_WDT_INTERVAL n1, exec_timeout := INIT_EXEC_TIMEOUT\<rparr>)"
    using start_service_text [OF q(2,3)] service_options_bad_timeout [OF opts] by simp
  then have "\<exists>m p. start_request env own own (comp_evt s) q (tmem s, world s) = Some (Started own p DISP_E_TYPEMISMATCH, m, world s)"
    using s n q(1) env by (simp add: start_request_def Let_def)
  then obtain m p where st: "start_request env own own (comp_evt s) q (tmem s, world s) = Some (Started own p DISP_E_TYPEMISMATCH, m, world s)"
    by blast
  show ?thesis by (rule exI, rule conjI, rule start [OF s(1) st]) (simp add: loop_pc_def)
qed

section \<open>Executing the steps\<close>

text \<open>Which thread goes on, or whether the receiving thread sees that it is to end.\<close>

datatype turn = Receiver | Executor | Terminate

fun thread_next :: "'w renv \<Rightarrow> 'w call_func option list \<Rightarrow> addr \<Rightarrow> turn \<Rightarrow> 'w threads \<Rightarrow> 'w threads option" where
  "thread_next env funcs own Terminate s = (if rpc s = Receiving then Some (s\<lparr>rpc := Stopped\<rparr>) else None)"
| "thread_next env funcs own Receiver s =
     (case rpc s of
        Receiving \<Rightarrow> map_option (\<lambda>(hr, q, m, w). s\<lparr>tmem := m, world := w, rpc := if FAILED hr then loop_pc hr else Got q\<rparr>)
          (recv_request env own (tmem s, world s))
      | Got q \<Rightarrow> map_option (\<lambda>(r, m, w). s\<lparr>tmem := m, world := w, events := events s @ (case r of Repeated hr p \<Rightarrow> [Again q p] | Fresh tmp q' \<Rightarrow> []),
          rpc := case r of Repeated hr p \<Rightarrow> loop_pc hr | Fresh tmp q' \<Rightarrow> Ready tmp q'\<rparr>)
          (check_request env own q (tmem s, world s))
      | Ready tmp q \<Rightarrow> map_option (\<lambda>(r, m, w). case r of
            Answered hr p \<Rightarrow> s\<lparr>tmem := m, world := w, events := events s @ [Refused q p], rpc := loop_pc hr\<rparr>
          | Started tmp' p hr \<Rightarrow> s\<lparr>tmem := m, comp_evt := False, exec_evt := True, events := events s @ [Accepted q],
              world := if FAILED hr then w else snd (sv_time (re_srv env) w),
              rpc := if FAILED hr then loop_pc hr else Waiting tmp' p (fst (sv_time (re_srv env) w))\<rparr>)
          (start_request env own tmp (comp_evt s) q (tmem s, world s))
      | Waiting tmp p begun \<Rightarrow>
          if comp_evt s then Some (s\<lparr>rpc := Finishing tmp\<rparr>)
          else map_option (\<lambda>(r, w). s\<lparr>world := w, events := events s @ [Noticed p], rpc := case r of None \<Rightarrow> Waiting tmp p begun | Some hr \<Rightarrow> loop_pc hr\<rparr>)
            (wait_round env own tmp p begun (tmem s, world s))
      | Finishing tmp \<Rightarrow> Option.bind (nodes (tmem s) own) (\<lambda>n.
          map_option (\<lambda>(hr, m, w). s\<lparr>tmem := m, world := w, events := events s @ [Replied (last_send n)], rpc := loop_pc hr\<rparr>)
            (finish_request env own tmp (tmem s, world s)))
      | Stopped \<Rightarrow> None)"
| "thread_next env funcs own Executor s =
     (case epc s of
        Idle \<Rightarrow> if exec_evt s then Some (s\<lparr>exec_evt := False, epc := Woken\<rparr>) else None
      | Woken \<Rightarrow> map_option (\<lambda>m. s\<lparr>tmem := m, epc := InCall\<rparr>) (upd_node own init_reply (tmem s))
      | InCall \<Rightarrow> Option.bind (nodes (tmem s) own) (\<lambda>n. Option.bind (bcap_callfunc funcs (last_recv n) (last_send n) (world s)) (\<lambda>(p, w).
          map_option (\<lambda>m. s\<lparr>tmem := m, world := w, events := events s @ [Called (last_recv n) p], epc := Returned\<rparr>)
            (upd_node own (\<lambda>n. n\<lparr>last_send := p\<rparr>) (tmem s))))
      | Returned \<Rightarrow> Some (s\<lparr>comp_evt := True, epc := Idle\<rparr>))"

text \<open>The function and the relation have the same steps.\<close>

lemma receiver_next_step:
  assumes n: "thread_next env funcs own Receiver s = Some s'"
  shows "thread_step env funcs own s s'"
proof (cases "rpc s")
  case Receiving
  then obtain x where x: "recv_request env own (tmem s, world s) = Some x" using n by auto
  obtain hr q m w where "x = (hr, q, m, w)" by (cases x)
  then show ?thesis using thread_step.recv [OF Receiving x [unfolded \<open>x = (hr, q, m, w)\<close>]] n Receiving x by simp
next
  case (Got q)
  then obtain x where x: "check_request env own q (tmem s, world s) = Some x" using n by auto
  obtain r m w where "x = (r, m, w)" by (cases x)
  then show ?thesis using thread_step.check [OF Got x [unfolded \<open>x = (r, m, w)\<close>]] n Got x by simp
next
  case (Ready tmp q)
  then obtain x where x: "start_request env own tmp (comp_evt s) q (tmem s, world s) = Some x" using n by auto
  obtain r m w where xr: "x = (r, m, w)" by (cases x)
  show ?thesis
  proof (cases r)
    case (Answered hr p)
    then show ?thesis using thread_step.answer [OF Ready x [unfolded xr Answered]] n Ready x xr by simp
  next
    case (Started tmp' p hr)
    then show ?thesis using thread_step.start [OF Ready x [unfolded xr Started]] n Ready x xr by simp
  qed
next
  case (Waiting tmp p begun)
  show ?thesis
  proof (cases "comp_evt s")
    case True
    then show ?thesis using completed [OF Waiting] n Waiting by simp
  next
    case False
    then obtain x where x: "wait_round env own tmp p begun (tmem s, world s) = Some x" using n Waiting by auto
    obtain r w where "x = (r, w)" by (cases x)
    then show ?thesis using thread_step.wait [OF Waiting False x [unfolded \<open>x = (r, w)\<close>]] n Waiting False x by simp
  qed
next
  case (Finishing tmp)
  then obtain c x where x: "nodes (tmem s) own = Some c" "finish_request env own tmp (tmem s, world s) = Some x"
    using n by (auto elim!: bind_SomeE)
  obtain hr m w where "x = (hr, m, w)" by (cases x)
  then show ?thesis using thread_step.finish [OF Finishing x [unfolded \<open>x = (hr, m, w)\<close>]] n Finishing x by simp
next
  case Stopped
  then show ?thesis using n by simp
qed

lemma executor_next_step:
  assumes n: "thread_next env funcs own Executor s = Some s'"
  shows "thread_step env funcs own s s'"
proof (cases "epc s")
  case Idle
  then show ?thesis using wake [OF Idle] n by (simp split: if_split_asm)
next
  case Woken
  then show ?thesis using enter [OF Woken] n by auto
next
  case InCall
  then obtain c p w m where x: "nodes (tmem s) own = Some c"
      "bcap_callfunc funcs (last_recv c) (last_send c) (world s) = Some (p, w)" "upd_node own (\<lambda>n. n\<lparr>last_send := p\<rparr>) (tmem s) = Some m"
      "s' = s\<lparr>tmem := m, world := w, events := events s @ [Called (last_recv c) p], epc := Returned\<rparr>"
    using n by (auto elim!: bind_SomeE)
  show ?thesis using thread_step.return [OF InCall x(1-3)] x(4) by simp
next
  case Returned
  then show ?thesis using signal [OF Returned] n by simp
qed

lemma thread_next_step: "thread_next env funcs own c s = Some s' \<Longrightarrow> thread_step env funcs own s s'"
proof (cases c)
  case Terminate
  then show "thread_next env funcs own c s = Some s' \<Longrightarrow> thread_step env funcs own s s'"
    using stop [of s env funcs own] by (simp split: if_split_asm)
qed (simp_all only: receiver_next_step executor_next_step)

lemma thread_step_next:
  assumes "thread_step env funcs own s s'"
  shows "\<exists>c. thread_next env funcs own c s = Some s'"
  using assms
proof cases
  case stop
  then show ?thesis by (intro exI [of _ Terminate]) simp
next
  case wake
  then show ?thesis by (intro exI [of _ Executor]) simp
next
  case (enter m)
  then show ?thesis by (intro exI [of _ Executor]) simp
next
  case (return n p w m)
  then show ?thesis by (intro exI [of _ Executor]) simp
next
  case signal
  then show ?thesis by (intro exI [of _ Executor]) simp
qed (intro exI [of _ Receiver], simp)+

fun run_threads :: "'w renv \<Rightarrow> 'w call_func option list \<Rightarrow> addr \<Rightarrow> turn list \<Rightarrow> 'w threads \<Rightarrow> 'w threads option" where
  "run_threads env funcs own [] s = Some s"
| "run_threads env funcs own (c # cs) s = Option.bind (thread_next env funcs own c s) (run_threads env funcs own cs)"

lemma run_threads_reached: "run_threads env funcs own cs s = Some s' \<Longrightarrow> reached env funcs own s s'"
proof (induction cs arbitrary: s)
  case (Cons c cs)
  then obtain x where "thread_next env funcs own c s = Some x" "reached env funcs own x s'" by (auto elim!: bind_SomeE)
  then show ?case using reached_trans reached_step [OF reached_start thread_next_step] by metis
qed (simp add: reached_start)

section \<open>A run\<close>

text \<open>
  A TCP connection whose peer asks to connect to a controller; the world is what has been sent.
  The registered function returns handle 5.
\<close>

definition connect_bytes :: "byte list" where
  "connect_bytes = [1, 16, 0, 0, 0, 7, 0, 0, 0, 3, 0, 0, 0, 0, 0, 4]"

definition run_env :: "byte list list renv" where
  "run_env = \<lparr>re_srv = \<lparr>sv_lock = (\<lambda>w. (S_OK, w)), sv_unlock = (\<lambda>w. w), sv_time = (\<lambda>w. (0, w)),
       sv_malloc = (\<lambda>w. (None, w)), sv_set_timeout = (\<lambda>f sk n w. (S_OK, w)), sv_close = (\<lambda>f sk w. w),
       sv_create_event = (\<lambda>a w. (S_OK, w)), sv_begin = (\<lambda>a w. w), sv_end = (\<lambda>a w. w)\<rparr>,
     re_io = \<lparr>dev_send = \<lambda>f sk bs a w. (S_OK, w @ [bs]),
       dev_recv = \<lambda>f sk n t a w. (RecvOut S_OK (Some 16) connect_bytes (arg_addr a), w)\<rparr>,
     re_mok = mem_ok, re_junk = [], re_fresh = replicate 16 0, re_malloc = \<lambda>w. (Some 12, w)\<rparr>"

definition run_funcs :: "byte list list call_func option list" where
  "run_funcs = (replicate 138 None)[3 := Some (\<lambda>as n w. (S_OK, Variant VT_I4 (Bits 5), w))]"

definition run_conn :: "i32 \<Rightarrow> smem" where
  "run_conn t = sample_mem\<lparr>nodes := [0 \<mapsto> zero_server\<lparr>sdevice := zero_device\<lparr>sock := 5, conn_type := t, timeout := 100,
       dn_send := Some F_tcp_send, dn_recv := Some F_tcp_recv\<rparr>,
     num_object := 2, stack := Some 11, last_send := zero_packet\<lparr>args := Some [zero_variant]\<rparr>\<rparr>]\<rparr>"

definition run_start :: "byte list list threads" where
  "run_start = \<lparr>tmem = run_conn CONN_TCP, world = [], exec_evt = False, comp_evt = True, rpc = Receiving, epc = Idle, events = []\<rparr>"

definition run_turns :: "turn list" where
  "run_turns = [Receiver, Receiver, Receiver, Executor, Receiver, Executor, Executor, Executor, Receiver, Receiver]"

lemma run_funcs_ok: "funcs_ok run_funcs"
proof -
  have "VariantClear (Variant VT_I4 (Bits 5)) \<noteq> None" by code_simp
  moreover have "set run_funcs \<subseteq> insert (Some (\<lambda>as n w. (S_OK, Variant VT_I4 (Bits 5), w))) (set (replicate 138 None))"
    unfolding run_funcs_def by (rule set_update_subset_insert)
  ultimately show ?thesis by (auto simp: funcs_ok_def run_funcs_def)
qed

definition connect_request :: bcap_packet where
  "connect_request = \<lparr>serial = 7, reserv = 0, func_id = 3, argc = 0, args = None\<rparr>"

definition connect_reply :: bcap_packet where
  "connect_reply = \<lparr>serial = 7, reserv = 0, func_id = S_OK, argc = 1, args = Some [Variant VT_I4 (Bits 5)]\<rparr>"

definition connect_notice :: bcap_packet where
  "connect_notice = \<lparr>serial = 7, reserv = 0, func_id = S_EXECUTING, argc = 0, args = None\<rparr>"

declare recv_packet.simps [code] find_header.simps [code] recv_rest.simps [code]

lemma run_events: "map_option (\<lambda>s. (comp_evt s, length (world s), rpc s, events s)) (run_threads run_env run_funcs 0 run_turns run_start) =
    Some (True, 2, Receiving, [Accepted connect_request, Noticed connect_notice, Called connect_request connect_reply, Replied connect_reply])"
  by code_simp

lemma run_reached:
  obtains s where "reached run_env run_funcs 0 run_start s" "comp_evt s"
    "events s = [Accepted connect_request, Noticed connect_notice, Called connect_request connect_reply, Replied connect_reply]"
proof -
  obtain s where "run_threads run_env run_funcs 0 run_turns run_start = Some s" "comp_evt s"
    "events s = [Accepted connect_request, Noticed connect_notice, Called connect_request connect_reply, Replied connect_reply]"
    using run_events by (auto simp: map_option_eq_Some)
  then show thesis using run_threads_reached that by blast
qed

lemma run_start_init:
  "thread_init 0 run_start" "nodes (tmem run_start) 0 = Some (the (nodes (tmem run_start) 0))"
  "conn_type (sdevice (the (nodes (tmem run_start) 0))) \<noteq> CONN_UDP"
  by (simp_all add: thread_init_def run_start_def run_conn_def)

lemma requests_executed_once_witness:
  "\<exists>s. reached run_env run_funcs 0 run_start s \<and> accepted (events s) = called (events s) \<and> called (events s) = [connect_request]"
proof -
  obtain s where s: "reached run_env run_funcs 0 run_start s" "comp_evt s"
    "events s = [Accepted connect_request, Noticed connect_notice, Called connect_request connect_reply, Replied connect_reply]"
    by (rule run_reached)
  show ?thesis using requests_executed_once [OF s(1) run_start_init run_funcs_ok] s by auto
qed

lemma run_records: "records run_env (\<lambda>w. w)" "silent run_funcs (\<lambda>w. w)"
proof -
  have "set run_funcs \<subseteq> insert (Some (\<lambda>as n w. (S_OK, Variant VT_I4 (Bits 5), w))) (set (replicate 138 None))"
    unfolding run_funcs_def by (rule set_update_subset_insert)
  then show "silent run_funcs (\<lambda>w. w)" by (auto simp: silent_def)
qed (simp add: records_def quiet_recv_def run_env_def)

lemma replies_match_calls_witness:
  "\<exists>s j q. reached run_env run_funcs 0 run_start s \<and> length (events s) = 4 \<and>
    world s = concat (map (event_bytes mem_ok (sdevice (the (nodes (tmem run_start) 0)))) (events s)) \<and>
    2 = Suc j \<and> work (events s) ! j = Called q connect_reply \<and> serial connect_reply = serial q"
proof -
  obtain s where s: "reached run_env run_funcs 0 run_start s" "comp_evt s"
    "events s = [Accepted connect_request, Noticed connect_notice, Called connect_request connect_reply, Replied connect_reply]"
    by (rule run_reached)
  have "re_mok run_env = mem_ok" "world run_start = []" by (simp_all add: run_env_def run_start_def)
  then show ?thesis
    using replies_match_calls [OF s(1) run_start_init run_funcs_ok run_records] s(1,3)
    by (intro exI [of _ s] exI [of _ 1] exI [of _ connect_request]) (simp add: work_def connect_reply_def connect_request_def)
qed

text \<open>
  A serial line on which the repetition with number 6 of a request with number 5 was executed, the
  original having been lost; and the same while it was in its call function.
\<close>

definition com_request :: bcap_packet where
  "com_request = connect_request\<lparr>serial := 6, reserv := 5\<rparr>"

definition com_state :: "bool \<Rightarrow> u16 \<Rightarrow> byte list list threads" where
  "com_state done r = (let p = (if done then connect_reply\<lparr>serial := 6\<rparr>
        else \<lparr>serial = 6, reserv = 0, func_id = E_INVALIDARG, argc = 0, args = Some [zero_variant]\<rparr>)
     in \<lparr>tmem = sample_mem\<lparr>nodes := [0 \<mapsto> (the (nodes (run_conn CONN_COM) 0))\<lparr>last_recv := com_request, last_send := p\<rparr>]\<rparr>,
       world = [], exec_evt = False, comp_evt = done, rpc = Got (connect_request\<lparr>serial := 8, reserv := r\<rparr>),
       epc = (if done then Idle else InCall),
       events = Accepted com_request # (if done then [Called com_request p] else [])\<rparr>)"

lemmas com_simps = com_state_def run_conn_def com_request_def connect_request_def connect_reply_def

lemma com_state_inv: "thread_inv 0 (com_state done r)"
proof (cases "done")
  case True
  have "VariantClear (Variant VT_I4 (Bits 5)) \<noteq> None" by code_simp
  then have "thread_ok 0 (com_state True r) (connect_reply\<lparr>serial := 6\<rparr>, com_request, sdevice (the (nodes (run_conn CONN_COM) 0))) (Done (connect_reply\<lparr>serial := 6\<rparr>))"
    by (simp add: com_simps thread_ok_def kept_Some sendable_def pc_ok_def log_phase_def Let_def)
  then show ?thesis using True by (simp add: thread_invI)
next
  case False
  have "VariantClear zero_variant \<noteq> None" by code_simp
  then have "thread_ok 0 (com_state False r)
      (\<lparr>serial = 6, reserv = 0, func_id = E_INVALIDARG, argc = 0, args = Some [zero_variant]\<rparr>, com_request, sdevice (the (nodes (run_conn CONN_COM) 0))) (Pending com_request)"
    by (simp add: com_simps thread_ok_def kept_Some sendable_def pc_ok_def log_phase_def Let_def)
  then show ?thesis using False by (simp add: thread_invI)
qed

lemma add_crc_total: "4 \<le> length buf \<Longrightarrow> length buf < 2 ^ 32 \<Longrightarrow> \<exists>bs. add_crc buf = Some bs"
proof -
  assume len: "4 \<le> length buf" "length buf < 2 ^ 32"
  then have "of_nat (length buf) - 4 = (of_nat (length buf - 4) :: u32)" by (simp add: of_nat_diff)
  moreover have "unat (of_nat (length buf - 4) :: u32) = length buf - 4"
    using len by (simp only: unat_of_nat) simp
  ultimately have "\<exists>crc. bcap_calc_crc (Some (drop 1 buf)) (of_nat (length buf) - 4) = Some crc"
    by (simp only: bcap_calc_crc_def option.case) simp
  then show ?thesis using len by (auto simp: add_crc_def store_def)
qed

text \<open>A packet of 18 or 32 bytes with the checksum is sent as it is.\<close>

lemma com_send:
  assumes "bcap_calc_size_packet (Some p) = Some n" and "n = 16 \<or> n = 30"
    and "map_option (\<lambda>(hr, b). (hr, map_option length b)) (bcap_packet2bytary (Some p) (Some (replicate (unat (n + 2)) 0)) (n + 2)) =
      Some (S_OK, Some (unat (n + 2)))"
  shows "\<exists>w. send_on run_env 0 p (tmem (com_state done r), []) = Some (S_OK, w) \<and> length w = 1"
proof -
  obtain buf where buf: "bcap_packet2bytary (Some p) (Some (replicate (unat (n + 2)) 0)) (n + 2) = Some (S_OK, Some buf)"
      "length buf = unat (n + 2)" using assms(3) by auto
  have len: "4 \<le> length buf" "length buf < 2 ^ 32" using buf(2) assms(2) by auto
  obtain bs where "add_crc buf = Some bs" using add_crc_total [OF len] by blast
  moreover have "\<not> 503 < n + 2" using assms(2) by auto
  ultimately show ?thesis
    using assms(1) buf(1)
    by (simp add: send_on_def com_simps run_env_def bcap_send_def send_arg_def check_conn_param_def Let_def zero_server_def zero_device_def)
qed

lemma com_check:
  assumes p: "(last_send (the (nodes (tmem (com_state done r)) 0)))\<lparr>serial := 8\<rparr> = p" "serial (last_send (the (nodes (tmem (com_state done r)) 0))) = r" "r \<noteq> 0"
    and send: "send_on run_env 0 p (tmem (com_state done r), []) = Some (S_OK, w)"
  shows "check_request run_env 0 (connect_request\<lparr>serial := 8, reserv := r\<rparr>) (tmem (com_state done r), world (com_state done r)) =
    Some (Repeated S_FALSE p, tmem (com_state done r), w)"
proof -
  have n: "nodes (tmem (com_state done r)) 0 = Some (the (nodes (tmem (com_state done r)) 0))"
    "conn_type (sdevice (the (nodes (tmem (com_state done r)) 0))) = CONN_COM" "world (com_state done r) = []"
    by (simp_all add: com_simps Let_def)
  have "clear_args (connect_request\<lparr>serial := 8, reserv := r\<rparr>) = Some ()" by (simp add: clear_args_def connect_request_def)
  then show ?thesis
    using check_request_com [OF n(1,2), of "connect_request\<lparr>serial := 8, reserv := r\<rparr>" run_env "[]"] p send n(3)
    by (simp add: answer_now_def)
qed

lemma request_stable_witness:
  "\<exists>s'. thread_step run_env run_funcs 0 (com_state False 6) s' \<and> events s' \<noteq> events (com_state False 6) \<and>
    map_option last_recv (nodes (tmem s') 0) = Some com_request"
proof -
  have "map_option (\<lambda>s. length (events s)) (thread_next run_env run_funcs 0 Executor (com_state False 6)) = Some 2" by code_simp
  then obtain s' where "thread_next run_env run_funcs 0 Executor (com_state False 6) = Some s'" "length (events s') = 2"
    by (auto simp only: map_option_eq_Some)
  then have s': "thread_step run_env run_funcs 0 (com_state False 6) s'" "length (events s') = 2" using thread_next_step by blast+
  have "\<not> comp_evt (com_state False 6)" "events s' \<noteq> events (com_state False 6)" using s'(2) by (auto simp: com_state_def Let_def)
  then show ?thesis
    using request_stable [OF com_state_inv s'(1) run_funcs_ok] s'(1) by (auto simp: com_state_def Let_def)
qed

lemma repeated_request_answered_witness:
  "\<exists>w. map_option snd (send_on run_env 0 (connect_reply\<lparr>serial := 8\<rparr>) (tmem (com_state True 6), [])) = Some w \<and> length w = 1"
proof -
  let ?s = "com_state True 6" and ?q = "connect_request\<lparr>serial := 8, reserv := 6\<rparr>"
  let ?p = "connect_reply\<lparr>serial := 8\<rparr>"
  have "bcap_calc_size_packet (Some ?p) = Some 30" "map_option (\<lambda>(hr, b). (hr, map_option length b))
      (bcap_packet2bytary (Some ?p) (Some (replicate (unat (30 + 2 :: u32)) 0)) (30 + 2)) = Some (S_OK, Some (unat (30 + 2 :: u32)))"
    by code_simp+
  then obtain w where w: "send_on run_env 0 ?p (tmem (com_state True 6), []) = Some (S_OK, w)" "length w = 1"
    using com_send [of ?p 30] by auto
  have c: "check_request run_env 0 ?q (tmem ?s, world ?s) = Some (Repeated S_FALSE ?p, tmem ?s, w)"
    by (rule com_check [OF _ _ _ w(1)]) (simp_all add: com_simps Let_def)
  have "nodes (tmem ?s) 0 = Some (the (nodes (tmem ?s) 0))" "conn_type (sdevice (the (nodes (tmem ?s) 0))) = CONN_COM"
    "work (events ?s) \<noteq> []" "last (work (events ?s)) = Called com_request (connect_reply\<lparr>serial := 6\<rparr>)" "reserv ?q = serial com_request" "serial com_request \<noteq> 0"
    by (simp_all add: com_simps Let_def work_def)
  from repeated_request_answered [OF com_state_inv this c] w(2) show ?thesis
    by (intro exI [of _ w]) (simp add: com_simps Let_def)
qed

lemma repeated_during_call_refused_witness:
  "\<exists>w. map_option snd (send_on run_env 0 \<lparr>serial = 8, reserv = 0, func_id = E_INVALIDARG, argc = 0, args = Some [zero_variant]\<rparr>
    (tmem (com_state False 6), [])) = Some w \<and> length w = 1"
proof -
  let ?s = "com_state False 6" and ?q = "connect_request\<lparr>serial := 8, reserv := 6\<rparr>"
  let ?p = "\<lparr>serial = 8, reserv = 0, func_id = E_INVALIDARG, argc = 0, args = Some [zero_variant]\<rparr>"
  have "bcap_calc_size_packet (Some ?p) = Some 16" "map_option (\<lambda>(hr, b). (hr, map_option length b))
      (bcap_packet2bytary (Some ?p) (Some (replicate (unat (16 + 2 :: u32)) 0)) (16 + 2)) = Some (S_OK, Some (unat (16 + 2 :: u32)))"
    by code_simp+
  then obtain w where w: "send_on run_env 0 ?p (tmem (com_state False 6), []) = Some (S_OK, w)" "length w = 1"
    using com_send [of ?p 16] by auto
  have c: "check_request run_env 0 ?q (tmem ?s, world ?s) = Some (Repeated S_FALSE ?p, tmem ?s, w)"
    by (rule com_check [OF _ _ _ w(1)]) (simp_all add: com_simps Let_def)
  have "nodes (tmem ?s) 0 = Some (the (nodes (tmem ?s) 0))" "conn_type (sdevice (the (nodes (tmem ?s) 0))) = CONN_COM"
    "epc ?s = InCall" "reserv ?q = serial (last_recv (the (nodes (tmem ?s) 0)))" "reserv ?q \<noteq> 0"
    by (simp_all add: com_simps Let_def)
  from repeated_during_call_refused [OF com_state_inv this c] w(2) show ?thesis
    by (intro exI [of _ w]) (simp add: com_simps Let_def)
qed



definition bad_start :: bcap_packet where
  "bad_start = \<lparr>serial = 9, reserv = 0, func_id = ID_SERVICE_START, argc = 1,
     args = Some [Variant VT_BSTR (BstrP (render bad_options @ [0]))]\<rparr>"

lemma bad_timeout_ends_connection_witness:
  "\<exists>s'. thread_step run_env run_funcs 0 (run_start\<lparr>rpc := Ready 0 bad_start\<rparr>) s' \<and> rpc s' = Stopped \<and> events s' = [Accepted bad_start]"
proof -
  let ?s = "run_start\<lparr>rpc := Ready 0 bad_start\<rparr>"
  have "rpc ?s = Ready 0 bad_start" "comp_evt ?s" "nodes (tmem ?s) 0 = Some (the (nodes (tmem ?s) 0))"
    "sint (num_object (the (nodes (tmem ?s) 0))) < 1000" "func_id bad_start = ID_SERVICE_START"
    "args bad_start = Some (Variant VT_BSTR (BstrP (render bad_options @ [0])) # [])" "1 \<le> argc bad_start"
    by (simp_all add: run_start_def run_conn_def bad_start_def)
  moreover have "re_mok run_env = mem_ok" "clear_args (last_recv (the (nodes (tmem ?s) 0))) = Some ()"
    by (simp_all add: run_env_def run_start_def run_conn_def clear_args_def zero_server_def zero_packet_def)
  ultimately show ?thesis
    using bad_timeout_ends_connection [OF _ _ _ _ _ _ _ bad_options_ok, where s = ?s and own = 0 and q = bad_start and vs = "[]" and env = run_env and funcs = run_funcs]
    by (auto simp: run_start_def)
qed

end
