(* ===== verification/ServerEnd.thy ===== *)
theory ServerEnd
  imports ServerThreads
begin

text \<open>
  The end of a connection of the server, what \<open>recv_thread\<close> of \<open>bcap_server.c\<close> does after its
  loop: the objects the client has left are released by calls of the registered functions, and the
  connection leaves the tree of connections.
\<close>

section \<open>The end of a connection\<close>

text \<open>
  What \<open>recv_thread\<close> does after its loop: the call functions that release the objects the client
  has left are called, the latest object first, each with the handle in a \<open>VT_I4\<close>, but with no
  argument when it is the service.
\<close>

definition call_release :: "'w call_func option list \<Rightarrow> vec_object \<Rightarrow> 'w \<Rightarrow> 'w option" where
  "call_release funcs x w =
     (if 0 \<le> sint (obj_id x) \<and> sint (obj_id x) < 138 then
        (case funcs ! nat (sint (obj_id x)) of
           None \<Rightarrow> Some w
         | Some f \<Rightarrow>
             (case f (Some [Variant VT_I4 (Bits (ucast (obj_h x)))]) (if obj_id x = ID_SERVICE_STOP then 0 else 1) w of
                (_, ret, w') \<Rightarrow> map_option (\<lambda>_. w') (VariantClear ret)))
      else None)"

partial_function (option) release_all :: "'w call_func option list \<Rightarrow> addr \<Rightarrow> smem \<times> 'w \<Rightarrow> (smem \<times> 'w) option" where
  "release_all funcs own st = do {
     (hr, p, m1) \<leftarrow> pop_vector own 0 (fst st);
     if FAILED hr then Some (m1, snd st)
     else do {
       a \<leftarrow> p;
       x \<leftarrow> objs m1 a;
       w1 \<leftarrow> call_release funcs x (snd st);
       m2 \<leftarrow> free_obj a m1;
       release_all funcs own (m2, w1)
     }
   }"

text \<open>The packets are cleared first, and the connection leaves its server, or ends its clients, at last.\<close>

definition end_connection :: "'w senv \<Rightarrow> 'w call_func option list \<Rightarrow> addr \<Rightarrow> smem \<times> 'w \<Rightarrow> (smem \<times> 'w) option" where
  "end_connection env funcs own st = do {
     s \<leftarrow> nodes (fst st) own;
     v \<leftarrow> (case args (last_send s) of Some [v] \<Rightarrow> Some v | _ \<Rightarrow> None);
     _ \<leftarrow> VariantClear v;
     _ \<leftarrow> clear_args (last_recv s);
     st1 \<leftarrow> release_all funcs own st;
     (_, st2) \<leftarrow> change_relation env own DESTROY_SELF st1;
     Some st2
   }"

definition release_object :: "'w call_func option list \<Rightarrow> i32 \<times> u32 \<Rightarrow> 'w \<Rightarrow> 'w" where
  "release_object funcs = (\<lambda>(i, h) w. case funcs ! nat (sint i) of
     None \<Rightarrow> w
   | Some f \<Rightarrow> snd (snd (f (Some [Variant VT_I4 (Bits (ucast h))]) (if i = ID_SERVICE_STOP then 0 else 1) w)))"

lemma call_release_ok:
  assumes "funcs_ok funcs" and "0 \<le> sint i" "sint i < 138"
  shows "call_release funcs \<lparr>obj_id = i, obj_h = h, vprev = x, vnext = y\<rparr> w = Some (release_object funcs (i, h) w)"
proof (cases "funcs ! nat (sint i)")
  case None
  then show ?thesis using assms by (simp add: call_release_def release_object_def)
next
  case (Some f)
  have "nat (sint i) < length funcs" using assms by (simp add: funcs_ok_def)
  then have "Some f \<in> set funcs" using Some by (metis nth_mem)
  then have "VariantClear (fst (snd (f as n v))) \<noteq> None" for as n v using assms(1) by (simp add: funcs_ok_def)
  then show ?thesis using Some assms(2,3) by (simp add: call_release_def release_object_def split_beta)
qed

text \<open>What the account of the objects leaves alone of the connections.\<close>

definition rest_of :: "addr \<Rightarrow> smem \<Rightarrow> (addr \<rightharpoonup> conn_bcap_server) \<times> conn_bcap_server option" where
  "rest_of own m = ((nodes m)(own := None), map_option (\<lambda>s. s\<lparr>num_object := 0, stack := None\<rparr>) (nodes m own))"

lemma pop_at_rest: "pop_at own a m = Some m' \<Longrightarrow> rest_of own m' = rest_of own m"
  by (auto simp: pop_at_def rest_of_def upd_obj_def upd_node_def fun_eq_iff elim!: bind_SomeE split: option.splits)

lemma pop_vector_rest: "pop_vector own k m = Some (hr, p, m') \<Longrightarrow> rest_of own m' = rest_of own m"
proof -
  have "pop_loop own k i n c m = Some (hr, p, m') \<Longrightarrow> rest_of own m' = rest_of own m" for i n c
    by (induction own k i n c m rule: pop_loop.induct) (auto elim!: bind_SomeE split: if_splits dest: pop_at_rest)
  then show "pop_vector own k m = Some (hr, p, m') \<Longrightarrow> rest_of own m' = rest_of own m"
    by (auto simp: pop_vector_def elim!: bind_SomeE)
qed

lemma pop_at_objs: "pop_at own a m = Some m' \<Longrightarrow> objs m' b = None \<longleftrightarrow> objs m b = None"
  by (auto simp: pop_at_def upd_obj_def upd_node_def elim!: bind_SomeE split: option.splits if_splits)

lemma pop_vector_objs: "pop_vector own k m = Some (hr, p, m') \<Longrightarrow> objs m' b = None \<longleftrightarrow> objs m b = None"
proof -
  have "pop_loop own k i n c m = Some (hr, p, m') \<Longrightarrow> objs m' b = None \<longleftrightarrow> objs m b = None" for i n c
    by (induction own k i n c m rule: pop_loop.induct) (auto elim!: bind_SomeE split: if_splits dest: pop_at_objs)
  then show "pop_vector own k m = Some (hr, p, m') \<Longrightarrow> objs m' b = None \<longleftrightarrow> objs m b = None"
    by (auto simp: pop_vector_def elim!: bind_SomeE)
qed

lemma release_all_ok:
  assumes "stack_rep own as xs m" and "funcs_ok funcs" and "\<forall>(i, h) \<in> set xs. 0 \<le> sint i \<and> sint i < 138"
  shows "\<exists>m'. release_all funcs own (m, w) = Some (m', fold (release_object funcs) xs w) \<and>
    (\<forall>a \<in> set as. objs m' a = None) \<and> (\<forall>b. objs m b = None \<longrightarrow> objs m' b = None) \<and> rest_of own m' = rest_of own m"
  using assms
proof (induction xs arbitrary: as m w)
  case Nil
  then have "as = []" using stack_rep_length by fastforce
  then show ?case using pop_vector_refines [OF Nil(1), of 0] by (subst release_all.simps) (simp add: FAILED_def)
next
  case (Cons x xs)
  obtain i h where x: "x = (i, h)" by (cases x)
  obtain a as' where as: "as = a # as'" using stack_rep_length [OF Cons.prems(1)] by (cases as) auto
  obtain m1 where m1: "pop_vector own 0 m = Some (S_OK, Some a, m1)" "stack_rep own as' xs m1"
      "objs m1 a = Some \<lparr>obj_id = i, obj_h = h, vprev = None, vnext = None\<rparr>"
    using pop_vector_refines [OF Cons.prems(1), of 0] by (auto simp: as x remove_at_def)
  let ?m2 = "m1\<lparr>objs := (objs m1)(a := None)\<rparr>"
  have "a \<notin> set as'" using Cons.prems(1) by (auto simp: as stack_rep_def dll_def)
  then have "stack_rep own as' xs ?m2" by (intro stack_rep_cong [OF m1(2)]) auto
  then obtain m' where m': "release_all funcs own (?m2, release_object funcs x w) = Some (m', fold (release_object funcs) xs (release_object funcs x w))"
      "\<forall>a \<in> set as'. objs m' a = None" "\<forall>b. objs ?m2 b = None \<longrightarrow> objs m' b = None" "rest_of own m' = rest_of own ?m2"
    using Cons.IH [of as' ?m2 "release_object funcs x w"] Cons.prems(2,3) by auto
  have "release_all funcs own (m, w) = release_all funcs own (?m2, release_object funcs x w)"
    using m1 call_release_ok [OF Cons.prems(2), of i h] Cons.prems(3) by (subst release_all.simps) (simp add: x)
  moreover have "rest_of own ?m2 = rest_of own m" using pop_vector_rest [OF m1(1)] by (simp add: rest_of_def)
  moreover have "\<forall>b. objs m b = None \<longrightarrow> objs m' b = None" "objs m' a = None" using pop_vector_objs [OF m1(1)] m'(3) by auto
  ultimately show ?case using m' by (auto simp: as)
qed

lemma rest_of_same:
  assumes "rest_of own m' = rest_of own m" and "nodes m own = Some s"
  obtains x y where "nodes m' = (nodes m)(own \<mapsto> s\<lparr>num_object := x, stack := y\<rparr>)"
proof -
  obtain s' where s': "nodes m' own = Some s'" "s'\<lparr>num_object := 0, stack := None\<rparr> = s\<lparr>num_object := 0, stack := None\<rparr>"
    using assms by (auto simp: rest_of_def)
  have "s' = s\<lparr>num_object := num_object s', stack := stack s'\<rparr>" using s'(2) by (cases s; cases s') simp
  moreover have "nodes m' a = nodes m a" if "a \<noteq> own" for a
    using assms(1) that by (auto simp: rest_of_def fun_eq_iff split: if_splits)
  ultimately have "nodes m' = (nodes m)(own \<mapsto> s\<lparr>num_object := num_object s', stack := stack s'\<rparr>)"
    using s'(1) by (auto simp: fun_eq_iff)
  then show thesis by (rule that)
qed

text \<open>The account of the objects of a connection is no part of the tree it is in.\<close>

lemma tree_rep_rest:
  assumes rep: "tree_rep r mtx cs ds k m" and "rest_of own m' = rest_of own m" and s: "nodes m own = Some s"
  shows "\<exists>k'. tree_rep r mtx cs ds k' m' \<and> (\<forall>a. a \<noteq> own \<longrightarrow> k' a = k a)"
proof -
  obtain x y where m': "nodes m' = (nodes m)(own \<mapsto> s\<lparr>num_object := x, stack := y\<rparr>)" using rest_of_same [OF assms(2) s] by blast
  define k' where "k' a = (if a = own then snd (nframe m') a else k a)" for a
  have lk: "nlinks m' = nlinks m" using s by (auto simp: nlinks_def m' fun_eq_iff)
  have fr: "snd (nframe m') a = snd (nframe m) a" if "a \<noteq> own" for a using that by (simp add: nframe_def m')
  obtain t where t: "nodes m r = Some t" "root_ok mtx t" "num_child t = of_nat (length cs + length ds)"
    "dll (nlinks m) (node1 t) cs" "chain (nlinks m) (node2 t) ds"
    "\<forall>a \<in> set (cs @ ds). \<exists>c. k a = Some c \<and> child_ok r mtx c"
    "distinct (r # cs @ ds)" "\<forall>a \<in> set (cs @ ds). snd (nframe m) a = k a"
    using rep by (rule tree_repD)
  define t' where "t' = (if r = own then t\<lparr>num_object := x, stack := y\<rparr> else t)"
  have t': "nodes m' r = Some t'" "node1 t' = node1 t" "node2 t' = node2 t" "num_child t' = num_child t" "root_ok mtx t'"
    using t(1,2) s by (auto simp: t'_def m' root_ok_def)
  have "\<exists>c. k' a = Some c \<and> child_ok r mtx c" if a: "a \<in> set (cs @ ds)" for a
  proof (cases "a = own")
    case True
    then obtain c where "nodes m own = Some c" "child_ok r mtx c" using tree_child [OF rep a] by blast
    then show ?thesis using True s by (simp add: k'_def nframe_def m') (simp add: child_ok_def)
  next
    case False
    then show ?thesis using t(6) a by (simp add: k'_def)
  qed
  moreover have "\<forall>a \<in> set (cs @ ds). snd (nframe m') a = k' a" using t(8) fr by (auto simp: k'_def)
  ultimately have "tree_rep r mtx cs ds k' m'"
    using t t' by (intro tree_repI [of m' r t']) (auto simp: lk)
  then show ?thesis by (auto simp: k'_def)
qed

lemma end_connection_eq:
  assumes rep: "stack_rep own as xs m" and n: "nodes m own = Some n" and funcs: "funcs_ok funcs"
    and ids: "\<forall>(i, h) \<in> set xs. 0 \<le> sint i \<and> sint i < 138"
    and p: "sendable (last_send n)" "clear_args (last_recv n) = Some ()"
  shows "\<exists>m1. end_connection env funcs own (m, w) =
      map_option (\<lambda>(_, m', w'). (m', w')) (change_relation env own DESTROY_SELF (m1, fold (release_object funcs) xs w)) \<and>
    (\<forall>a \<in> set as. objs m1 a = None) \<and> rest_of own m1 = rest_of own m"
proof -
  obtain v where v: "args (last_send n) = Some [v]" "VariantClear v \<noteq> None" using p(1) by (auto simp: sendable_def)
  obtain m1 where m1: "release_all funcs own (m, w) = Some (m1, fold (release_object funcs) xs w)"
      "\<forall>a \<in> set as. objs m1 a = None" "rest_of own m1 = rest_of own m"
    using release_all_ok [OF rep funcs ids] by blast
  have "end_connection env funcs own (m, w) =
      map_option (\<lambda>(_, m', w'). (m', w')) (change_relation env own DESTROY_SELF (m1, fold (release_object funcs) xs w))"
    using n v m1(1) p(2)
    by (cases "change_relation env own DESTROY_SELF (m1, fold (release_object funcs) xs w)") (auto simp: end_connection_def)
  then show ?thesis using m1(2,3) by blast
qed

lemma destroy_child_objs: "destroy_child a m = Some m' \<Longrightarrow> objs m' = objs m"
  by (auto simp: destroy_child_def leave_children_def join_ended_def upd_node_def elim!: bind_SomeE split: option.splits)

lemma change_destroy_objs:
  assumes "change_relation env a DESTROY_SELF (m, w) = Some (hr, m', w')" and "nodes m a = Some s" "parent s \<noteq> None"
  shows "objs m' = objs m"
  using assms
  by (auto simp: change_relation_def locked_def split: if_splits prod.splits dest: destroy_child_objs)

text \<open>
  C31: when the connection of a TCP client ends, every object it has left is released by a
  call of the function registered for that, the latest first, the memory of the objects is freed,
  and the connection is moved from the children of the server to those that wait to be freed.
\<close>

lemma client_connection_ends:
  assumes rep: "stack_rep own as xs m" and tree: "tree_rep r True (cs1 @ own # cs2) ds k m" and n: "nodes m own = Some n"
    and funcs: "funcs_ok funcs" and ids: "\<forall>(i, h) \<in> set xs. 0 \<le> sint i \<and> sint i < 138"
    and p: "sendable (last_send n)" "clear_args (last_recv n) = Some ()"
    and lock: "sv_lock env (fold (release_object funcs) xs w) = (S_OK, w1)"
  shows "\<exists>m' k'. end_connection env funcs own (m, w) = Some (m', sv_unlock env w1) \<and>
    tree_rep r True (cs1 @ cs2) (own # ds) k' m' \<and> (\<forall>a. a \<noteq> own \<longrightarrow> k' a = k a) \<and> (\<forall>a \<in> set as. objs m' a = None)"
proof -
  obtain m1 where m1: "end_connection env funcs own (m, w) =
      map_option (\<lambda>(_, m', w'). (m', w')) (change_relation env own DESTROY_SELF (m1, fold (release_object funcs) xs w))"
      "\<forall>a \<in> set as. objs m1 a = None" "rest_of own m1 = rest_of own m"
    using end_connection_eq [OF rep n funcs ids p] by blast
  obtain k' where k': "tree_rep r True (cs1 @ own # cs2) ds k' m1" "\<forall>a. a \<noteq> own \<longrightarrow> k' a = k a"
    using tree_rep_rest [OF tree m1(3) n] by blast
  obtain m' where m': "change_relation env own DESTROY_SELF (m1, fold (release_object funcs) xs w) = Some (S_OK, m', sv_unlock env w1)"
      "tree_rep r True (cs1 @ cs2) (own # ds) k' m'"
    using change_destroy_locked [OF k'(1) lock] by auto
  moreover obtain c where "nodes m1 own = Some c" "parent c \<noteq> None" by (rule tree_child [OF k'(1), of own]) (auto simp: child_ok_def)
  then have "objs m' = objs m1" using change_destroy_objs [OF m'(1)] by blast
  ultimately show ?thesis using m1(1,2) k'(2) by auto
qed

section \<open>A client that leaves two objects\<close>

text \<open>
  The youngest client of the concrete server left a robot and a controller; the function that
  releases robots is registered and counts its calls.
\<close>

definition left_funcs :: "u32 call_func option list" where
  "left_funcs = (replicate 138 None)[84 := Some (\<lambda>as n w. (S_OK, zero_variant, w + 1))]"

definition left_mem :: smem where
  "left_mem = (sample_tree True CONN_TCP)\<lparr>nodes := (nodes (sample_tree True CONN_TCP))(21 \<mapsto>
     (the (nodes (sample_tree True CONN_TCP) 21))\<lparr>num_object := 2, stack := Some 11,
       last_send := zero_packet\<lparr>args := Some [zero_variant]\<rparr>\<rparr>), objs := objs sample_mem\<rparr>"

lemma client_connection_ends_witness:
  "\<exists>m' k'. end_connection sample_server_env left_funcs 21 (left_mem, 0) = Some (m', 1) \<and>
    tree_rep 1 True [20] [21] k' m' \<and> objs m' 11 = None \<and> objs m' 10 = None"
proof -
  let ?n = "the (nodes left_mem 21)"
  have stack: "stack_rep 21 [11, 10] [(84, 7), (4, 5)] left_mem"
    by (simp add: stack_rep_def left_mem_def sample_mem_def dll_def olinks_def oframe_def)
  obtain k where "tree_rep 1 True [21, 20] [] k ((sample_tree True CONN_TCP)\<lparr>nodes := nodes left_mem\<rparr>)"
    using tree_rep_update_child [OF sample_tree_rep [of True CONN_TCP], of "the (nodes (sample_tree True CONN_TCP) 21)"
        "\<lambda>s. s\<lparr>num_object := 2, stack := Some 11, last_send := zero_packet\<lparr>args := Some [zero_variant]\<rparr>\<rparr>"]
    by (auto simp: left_mem_def sample_simps child_ok_def)
  then have tree: "tree_rep 1 True ([] @ 21 # [20]) [] k left_mem"
    by (simp add: tree_rep_def nlinks_def nframe_def left_mem_def)
  have v: "VariantClear zero_variant \<noteq> None" by code_simp
  have "set left_funcs \<subseteq> insert (Some (\<lambda>as n w. (S_OK, zero_variant, w + 1))) (set (replicate 138 None))"
    unfolding left_funcs_def by (rule set_update_subset_insert)
  then have funcs: "funcs_ok left_funcs" using v by (auto simp: funcs_ok_def left_funcs_def)
  have n: "nodes left_mem 21 = Some ?n" "sendable (last_send ?n)" "clear_args (last_recv ?n) = Some ()"
    using v by (simp_all add: left_mem_def sendable_def clear_args_def sample_simps)
  have fold: "fold (release_object left_funcs) [(84, 7), (4, 5)] 0 = (1 :: u32)" by code_simp
  have "\<forall>(i, h) \<in> set [(84, 7), (4, 5)]. 0 \<le> sint (i :: i32) \<and> sint i < 138" by simp
  from client_connection_ends [OF stack tree n(1) funcs this n(2,3), of sample_server_env 0 1]
  show ?thesis unfolding fold by (auto simp: sample_server_env_def)
qed

end
