(* ===== verification/ServerAccept.thy ===== *)
theory ServerAccept
  imports ServerTree
begin

text \<open>
  The accepting thread of a TCP server (\<open>accept_thread\<close> of \<open>bcap_server.c\<close>): a round of its loop
  takes a client if there is room and frees the ones that have ended. Shown is that the server
  never has more than \<open>BCAP_CLIENT_MAX\<close> connections.
\<close>

section \<open>A round\<close>

text \<open>\<open>acc\<close> is \<open>tcp_accept\<close>, \<open>opts\<close> sets the no-delay and keep-alive options of the new socket.\<close>

definition accept_client :: "'w senv \<Rightarrow> ('w \<Rightarrow> hresult \<times> i32 \<times> 'w) \<Rightarrow> (i32 \<Rightarrow> 'w \<Rightarrow> 'w) \<Rightarrow> addr \<Rightarrow> smem \<times> 'w \<Rightarrow> (smem \<times> 'w) option" where
  "accept_client env acc opts own = (\<lambda>(m, w). do {
     s \<leftarrow> nodes m own;
     if sint (num_child s) < sint BCAP_CLIENT_MAX then
       (case acc w of (hr, client, w1) \<Rightarrow>
          if SUCCEEDED hr then map_option snd (change_relation env own (ADD_CHILD client) (m, opts client w1))
          else Some (m, w1))
     else Some (m, w)
   })"

definition accept_round :: "'w senv \<Rightarrow> ('w \<Rightarrow> hresult \<times> i32 \<times> 'w) \<Rightarrow> (i32 \<Rightarrow> 'w \<Rightarrow> 'w) \<Rightarrow> addr \<Rightarrow> smem \<times> 'w \<Rightarrow> (smem \<times> 'w) option" where
  "accept_round env acc opts own st = do {
     st1 \<leftarrow> accept_client env acc opts own st;
     (_, st2) \<leftarrow> change_relation env own DELETE_CHILD st1;
     Some st2
   }"

section \<open>The number of clients\<close>

text \<open>
  The environment in which a child can be started: the mutex can be had, the time-out and the event
  of a new connection succeed, and \<open>malloc\<close> gives memory that is not in use, or none.
\<close>

definition starts :: "'w senv \<Rightarrow> smem \<Rightarrow> bool" where
  "starts env m \<longleftrightarrow> (\<forall>w. fst (sv_lock env w) = S_OK) \<and> (\<forall>f sk n w. SUCCEEDED (fst (sv_set_timeout env f sk n w))) \<and>
     (\<forall>a w. fst (sv_create_event env a w) = S_OK) \<and> (\<forall>w a. fst (sv_malloc env w) = Some a \<longrightarrow> nodes m a = None)"

lemma num_child_sint: "n \<le> 20 \<Longrightarrow> sint (of_nat n :: i32) = int n"
  by (simp add: signed_of_nat signed_take_bit_int_eq_self)

lemma accept_client_ok:
  assumes rep: "tree_rep own True cs ds k m" and env: "starts env m" and few: "length cs + length ds \<le> 20"
  shows "\<exists>m' w' cs' k'. accept_client env acc opts own (m, w) = Some (m', w') \<and> tree_rep own True cs' ds k' m' \<and>
    (cs' = cs \<or> (\<exists>a. cs' = a # cs)) \<and> length cs' + length ds \<le> 20"
proof -
  obtain r where r: "nodes m own = Some r" "num_child r = of_nat (length cs + length ds)" "root_ok True r"
    using rep by (rule tree_repD) auto
  have n: "sint (num_child r) = int (length cs + length ds)"
    unfolding r(2) by (rule num_child_sint) (rule few)
  obtain hr sk w1 where acc: "acc w = (hr, sk, w1)" by (metis prod_cases3)
  have same: ?thesis if "accept_client env acc opts own (m, w) = Some (m, x)" for x using that rep few by blast
  show ?thesis
  proof (cases "length cs + length ds < 20 \<and> SUCCEEDED hr")
    case False
    then have "\<exists>x. accept_client env acc opts own (m, w) = Some (m, x)"
      using r(1) n acc by (cases "FAILED hr") (auto simp: accept_client_def SUCCEEDED_iff)
    then show ?thesis using same by blast
  next
    case True
    obtain w2 where lock: "sv_lock env (opts sk w1) = (S_OK, w2)" using env by (metis starts_def prod.collapse)
    obtain p w3 where mal: "sv_malloc env w2 = (p, w3)" by fastforce
    have acc': "accept_client env acc opts own (m, w) = map_option snd (change_relation env own (ADD_CHILD sk) (m, opts sk w1))"
      using True r(1) n acc by (simp add: accept_client_def)
    show ?thesis
    proof (cases p)
      case None
      then have "change_relation env own (ADD_CHILD sk) (m, opts sk w1) = Some (E_OUTOFMEMORY, m, sv_unlock env w3)"
        using r lock mal by (simp add: change_relation_def locked_def add_child_def root_ok_def)
      then show ?thesis using same acc' by simp
    next
      case (Some a)
      have new: "nodes m a = None" using env mal Some by (metis starts_def fst_conv)
      have "\<forall>f n v. SUCCEEDED (fst (sv_set_timeout env f sk n v))" "\<forall>v. fst (sv_create_event env a v) = S_OK"
        using env by (simp_all add: starts_def)
      from tcp_client_added [OF rep r(1) lock mal [unfolded Some] new this] obtain m' w' k' where
        "change_relation env own (ADD_CHILD sk) (m, opts sk w1) = Some (S_OK, m', w')" "tree_rep own True (a # cs) ds k' m'"
        by blast
      then show ?thesis using acc' True by (intro exI conjI) auto
    qed
  qed
qed

lemma change_delete_locked:
  assumes rep: "tree_rep own True cs ds k m" and lock: "fst (sv_lock env w) = S_OK"
  shows "\<exists>m' w'. change_relation env own DELETE_CHILD (m, w) = Some (S_OK, m', w') \<and> tree_rep own True cs [] k m' \<and>
    (\<forall>a \<in> set ds. nodes m' a = None)"
proof -
  obtain r where r: "nodes m own = Some r" "parent r = None" "relation_mutex r = True" using rep by (rule tree_root)
  obtain w1 where "sv_lock env w = (S_OK, w1)" using lock by (metis prod.collapse)
  then show ?thesis using r delete_children_ok [OF rep, of env w1] by (auto simp: change_relation_def locked_def)
qed

text \<open>
  A round of the accepting thread of a server with at most twenty connections, those
  included that have ended, always returns and leaves at most twenty, all of them running: at most
  one client is new, and the memory of every one that had ended is freed.
\<close>

lemma accept_round_bounded:
  assumes rep: "tree_rep own True cs ds k m" and env: "starts env m" and few: "length cs + length ds \<le> 20"
  shows "\<exists>m' w' cs' k'. accept_round env acc opts own (m, w) = Some (m', w') \<and> tree_rep own True cs' [] k' m' \<and>
    (cs' = cs \<or> (\<exists>a. cs' = a # cs)) \<and> length cs' \<le> 20 \<and> (\<forall>a \<in> set ds. nodes m' a = None)"
proof -
  obtain m1 w1 cs' k' where 1: "accept_client env acc opts own (m, w) = Some (m1, w1)" "tree_rep own True cs' ds k' m1"
      "cs' = cs \<or> (\<exists>a. cs' = a # cs)" "length cs' + length ds \<le> 20"
    using accept_client_ok [OF rep env few] by blast
  have "fst (sv_lock env w1) = S_OK" using env by (simp add: starts_def)
  from change_delete_locked [OF 1(2) this] obtain m2 w2 where
    2: "change_relation env own DELETE_CHILD (m1, w1) = Some (S_OK, m2, w2)" "tree_rep own True cs' [] k' m2" "\<forall>a \<in> set ds. nodes m2 a = None"
    by blast
  have "accept_round env acc opts own (m, w) = Some (m2, w2)" using 1(1) 2(1) by (simp add: accept_round_def)
  then show ?thesis using 1(3,4) 2(2,3) by auto
qed

lemma accept_round_bounded_witness:
  "\<exists>m' w' cs' k'. accept_round sample_server_env (\<lambda>w. (S_OK, 9, w)) (\<lambda>_ w. w) 1 (sample_tree True CONN_TCP, 0) = Some (m', w') \<and>
    tree_rep 1 True cs' [] k' m' \<and> length cs' \<le> 20"
proof -
  have "starts sample_server_env (sample_tree True CONN_TCP)"
    by (simp add: starts_def sample_server_env_def sample_tree_def SUCCEEDED_def)
  from accept_round_bounded [OF sample_tree_rep this, of "\<lambda>w. (S_OK, 9, w)" "\<lambda>_ w. w" 0] show ?thesis by auto
qed

end
