(* ===== verification/ServerOpen.thy ===== *)
theory ServerOpen
  imports ServerCalls
begin

text \<open>
  Opening and closing a server (\<open>bCap_Open_Server\<close>, \<open>bCap_Close_Server\<close> of \<open>bcap_server.c\<close>), on the
  table of the three servers. What is outside is the record \<open>oenv\<close>: the event that ends the main
  thread, the drivers, and the threads; \<open>so_begin\<close> starts the accepting thread over TCP and the
  receiving one otherwise, \<open>so_end\<close> signals the event and waits for the thread. The join of a
  thread that was never begun is not defined.
\<close>

section \<open>The operations\<close>

record 'w oenv =
  so_mok :: "nat \<Rightarrow> bool"
  so_inet_addr :: "string \<Rightarrow> u32"
  so_atof10 :: "string \<Rightarrow> int"
  so_create_event :: "nat \<Rightarrow> 'w \<Rightarrow> hresult \<times> 'w"
  so_destroy_event :: "nat \<Rightarrow> 'w \<Rightarrow> 'w"
  so_open :: "dn_func \<Rightarrow> open_param \<Rightarrow> 'w \<Rightarrow> hresult \<times> i32 \<times> 'w"
  so_set_timeout :: "dn_func \<Rightarrow> i32 \<Rightarrow> u32 \<Rightarrow> 'w \<Rightarrow> hresult \<times> 'w"
  so_close :: "dn_func \<Rightarrow> i32 \<Rightarrow> 'w \<Rightarrow> 'w"
  so_begin :: "nat \<Rightarrow> bool \<Rightarrow> 'w \<Rightarrow> 'w"
  so_end :: "nat \<Rightarrow> 'w \<Rightarrow> 'w"

text \<open>\<open>smain\<close>: whether \<open>main_thread\<close> of a connection is a thread that was begun.\<close>

record 'w server =
  sconns :: "conn_bcap_server list"
  smain :: "bool list"
  sworld :: 'w

definition set_server :: "nat \<Rightarrow> conn_bcap_server \<Rightarrow> bool \<Rightarrow> 'w server \<Rightarrow> 'w server" where
  "set_server i c begun st = st\<lparr>sconns := (sconns st)[i := c], smain := (smain st)[i := begun]\<rparr>"

text \<open>The connection parameters by type: the code, the device and the argument of its open.\<close>

definition server_device :: "'w oenv \<Rightarrow> string \<Rightarrow> conn_param_common \<Rightarrow> hresult \<times> conn_param_common \<times> open_param" where
  "server_device env connect d0 =
     (let t = parse_conn_type (Some connect); d = d0\<lparr>conn_type := t\<rparr>;
          eth0 = \<lparr>dst_addr = 0, dst_port = 0, src_addr = 0, src_port = htons 5007\<rparr>;
          com0 = \<lparr>com_port = 1, baud_rate = 38400, parity = 0, data_bits = 8, stop_bits = 0, flow = 0\<rparr>;
          (hre, eth) = parse_conn_param_ether (so_mok env) (so_inet_addr env) (Some connect) eth0 in
      if t = CONN_TCP then
        (hre, d\<lparr>arg := None, dn_open := Some F_tcp_open_server, dn_close := Some F_tcp_close, dn_send := Some F_tcp_send,
           dn_recv := Some F_tcp_recv, dn_set_timeout := Some F_tcp_set_timeout\<rparr>, OpenEth eth)
      else if t = CONN_UDP then
        (if \<not> so_mok env 16 then (E_OUTOFMEMORY, d, OpenEth eth)
         else (hre, d\<lparr>arg := Some \<lparr>s_addr = dst_addr eth, sin_port = dst_port eth\<rparr>, dn_open := Some F_udp_open,
           dn_close := Some F_udp_close, dn_send := Some F_udp_send, dn_recv := Some F_udp_recv,
           dn_set_timeout := Some F_udp_set_timeout\<rparr>, OpenEth eth))
      else if t = CONN_COM then
        (case parse_conn_param_serial (so_mok env) (so_atof10 env) (Some connect) com0 of (hrc, com) \<Rightarrow>
          (hrc, d\<lparr>arg := None, dn_open := Some F_com_open, dn_close := Some F_com_close, dn_send := Some F_com_send,
             dn_recv := Some F_com_recv, dn_set_timeout := Some F_com_set_timeout\<rparr>, OpenCom com))
      else (E_INVALIDARG, d, OpenEth eth0))"

text \<open>\<open>pfd\<close> is the handle the pointer points to, \<open>None\<close> for \<open>NULL\<close>; the result is what it holds then.\<close>

definition bCap_Close_Server :: "'w oenv \<Rightarrow> i32 option \<Rightarrow> 'w server \<Rightarrow> (hresult \<times> i32 option \<times> 'w server) option" where
  "bCap_Close_Server env pfd st =
     (case pfd of
        None \<Rightarrow> Some (E_HANDLE, None, st)
      | Some index \<Rightarrow> (case check_server (sconns st) index of
          None \<Rightarrow> Some (E_HANDLE, pfd, st)
        | Some (i, c) \<Rightarrow> (case dn_close (sdevice c) of
            None \<Rightarrow> None
          | Some f \<Rightarrow>
              if \<not> smain st ! i then None
              else let w = so_close env f (sock (sdevice c)) (so_destroy_event env i (so_end env i (sworld st)))
              in Some (S_OK, Some 0, (set_server i zero_server False st)\<lparr>sworld := w\<rparr>))))"

definition bCap_Open_Server :: "'w oenv \<Rightarrow> string option \<Rightarrow> u32 \<Rightarrow> bool \<Rightarrow> 'w server \<Rightarrow>
    (hresult \<times> i32 option \<times> 'w server) option" where
  "bCap_Open_Server env connect tmo out st =
     (case connect of
        None \<Rightarrow> Some (E_INVALIDARG, None, st)
      | Some con \<Rightarrow>
          if \<not> out then Some (E_INVALIDARG, None, st)
          else let index = find_open_server (parse_conn_type (Some con)) (sconns st) in
          if index = 0 then Some (E_MAX_OBJECT, None, st)
          else
            let i = index - 1; c = sconns st ! i; (hr, d, par) = server_device env con (sdevice c) in
            if FAILED hr then Some (hr, None, set_server i zero_server False st)
            else (case so_create_event env i (sworld st) of (hr1, w1) \<Rightarrow>
              if FAILED hr1 then Some (hr1, None, (set_server i zero_server False st)\<lparr>sworld := w1\<rparr>)
              else (case dn_open d of
                  None \<Rightarrow> None
                | Some f \<Rightarrow> (case so_open env f par w1 of (hr2, s, w2) \<Rightarrow>
                    if FAILED hr2 then Some (hr2, None, (set_server i zero_server False st)\<lparr>sworld := so_destroy_event env i w2\<rparr>)
                    else (case dn_set_timeout d of
                        None \<Rightarrow> None
                      | Some g \<Rightarrow> (case so_set_timeout env g s tmo w2 of (hr3, w3) \<Rightarrow>
                          if FAILED hr3 then
                            map_option (\<lambda>(_, _, st'). (hr3, None, st'))
                              (bCap_Close_Server env (Some (of_nat index))
                                ((set_server i (c\<lparr>sdevice := d\<lparr>sock := s\<rparr>\<rparr>) (smain st ! i) st)\<lparr>sworld := w3\<rparr>))
                          else
                            let c' = c\<lparr>sdevice := d\<lparr>sock := s, timeout := tmo\<rparr>, exec_timeout := 180000, wdt_interval := 0xFFFFFFFF\<rparr>
                            in Some (S_OK, Some (of_nat index),
                                 (set_server i c' True st)\<lparr>sworld := so_begin env i (conn_type d = CONN_TCP) w3\<rparr>)))))))"

section \<open>The table\<close>

text \<open>A slot that is not used is cleared; a used one is of the type its place is for, and its thread was begun.\<close>

definition slot_ok :: "nat \<Rightarrow> conn_bcap_server \<Rightarrow> bool" where
  "slot_ok i c \<longleftrightarrow> (if sock (sdevice c) = 0 then c = zero_server
     else dn_close (sdevice c) \<noteq> None \<and> i \<in> server_slots (conn_type (sdevice c)))"

definition servers_ok :: "'w server \<Rightarrow> bool" where
  "servers_ok st \<longleftrightarrow> length (sconns st) = 3 \<and> length (smain st) = 3 \<and>
     (\<forall>i < 3. slot_ok i (sconns st ! i) \<and> (smain st ! i \<longleftrightarrow> sock (sdevice (sconns st ! i)) \<noteq> 0))"


lemma zero_server_unused [simp]: "sock (sdevice zero_server) = 0"
  by (simp add: zero_server_def zero_device_def)

lemma server_device_facts:
  assumes "server_device env con d0 = (hr, d, par)" and "\<not> FAILED hr"
  shows "conn_type d = parse_conn_type (Some con) \<and> dn_open d \<noteq> None \<and> dn_close d \<noteq> None \<and> dn_set_timeout d \<noteq> None"
proof -
  obtain hre eth where e: "parse_conn_param_ether (so_mok env) (so_inet_addr env) (Some con)
      \<lparr>dst_addr = 0, dst_port = 0, src_addr = 0, src_port = htons 5007\<rparr> = (hre, eth)"
    by fastforce
  obtain hrc com where c: "parse_conn_param_serial (so_mok env) (so_atof10 env) (Some con)
      \<lparr>com_port = 1, baud_rate = 38400, parity = 0, data_bits = 8, stop_bits = 0, flow = 0\<rparr> = (hrc, com)"
    by fastforce
  show ?thesis
    using assms unfolding server_device_def Let_def e c prod.case by (auto split: if_splits)
qed

lemma server_device_other:
  "server_slots (parse_conn_type (Some con)) = {} \<Longrightarrow> find_open_server (parse_conn_type (Some con)) cs = 0"
  by (simp add: find_open_server_slot)

lemma free_slot:
  assumes "servers_ok st" and "find_open_server t (sconns st) \<noteq> 0"
  obtains i where "find_open_server t (sconns st) = Suc i" "i < 3" "i \<in> server_slots t" "sconns st ! i = zero_server"
    "(sconns st)[i := zero_server] = sconns st" "(smain st)[i := False] = smain st" "\<not> smain st ! i"
proof -
  have len: "length (sconns st) = 3" using assms(1) by (simp add: servers_ok_def)
  obtain i where i: "find_open_server t (sconns st) = Suc i" "i \<in> server_slots t" "i < 3" "\<not> sock (sdevice (sconns st ! i)) \<noteq> 0"
    using servers.find_Suc [OF len assms(2)] by metis
  then have "sconns st ! i = zero_server" "\<not> smain st ! i" using assms(1) by (auto simp: servers_ok_def slot_ok_def)
  then show thesis using that i list_update_id [of "sconns st" i] list_update_id [of "smain st" i] by metis
qed


section \<open>Opening and closing\<close>


text \<open>
  A connection whose time-out cannot be set is closed before its thread was begun: the thread that is
  joined does not exist.
\<close>

lemma open_server_timeout_undefined:
  assumes ok: "servers_ok st" and free: "find_open_server (parse_conn_type (Some con)) (sconns st) \<noteq> 0"
    and dev: "\<not> FAILED (fst (server_device env con (sdevice zero_server)))"
    and env: "\<And>i w. fst (so_create_event env i w) = S_OK" "\<And>f p w. \<not> FAILED (fst (so_open env f p w)) \<and> fst (snd (so_open env f p w)) \<noteq> 0"
    and bad: "\<And>f s w. FAILED (fst (so_set_timeout env f s tmo w))"
  shows "bCap_Open_Server env (Some con) tmo True st = None"
proof -
  obtain i where i: "find_open_server (parse_conn_type (Some con)) (sconns st) = Suc i" "i < 3" "sconns st ! i = zero_server" "\<not> smain st ! i"
    using free_slot [OF ok free] by metis
  have len: "length (sconns st) = 3" "length (smain st) = 3" using ok by (simp_all add: servers_ok_def)
  obtain hr d par where d: "server_device env con (sdevice zero_server) = (hr, d, par)" by (metis prod_cases3)
  then have f: "\<not> FAILED hr" using dev by simp
  obtain f g h where fg: "dn_open d = Some f" "dn_set_timeout d = Some g" "dn_close d = Some h" using server_device_facts [OF d f] by auto
  obtain w1 where e1: "so_create_event env i (sworld st) = (S_OK, w1)" using env(1) by (metis prod.collapse)
  obtain hr2 s w2 where e2: "so_open env f par w1 = (hr2, s, w2)" by (metis prod_cases3)
  then have s: "\<not> FAILED hr2" "s \<noteq> 0" using env(2) [of f par w1] by simp_all
  obtain hr3 w3 where e3: "so_set_timeout env g s tmo w2 = (hr3, w3)" by fastforce
  then have "FAILED hr3" using bad [of g s w2] by simp
  moreover have "check_server ((sconns st)[i := zero_server\<lparr>sdevice := d\<lparr>sock := s\<rparr>\<rparr>]) (of_nat (Suc i)) =
      Some (i, zero_server\<lparr>sdevice := d\<lparr>sock := s\<rparr>\<rparr>)"
    using servers.check_new [OF len(1) free] s i(1) by simp
  ultimately show ?thesis
    using i d f fg e1 e2 e3 s(1) len
    by (auto simp: bCap_Open_Server_def bCap_Close_Server_def set_server_def Let_def simp del: of_nat_Suc)
qed

text \<open>
  Closing a server frees its handle and its slot and leaves the others; a handle that is
  not in use is refused.
\<close>

lemma close_server_frees:
  assumes ok: "servers_ok st"
  shows "case check_server (sconns st) h of
      None \<Rightarrow> bCap_Close_Server env (Some h) st = Some (E_HANDLE, Some h, st)
    | Some (i, c) \<Rightarrow> \<exists>st'. bCap_Close_Server env (Some h) st = Some (S_OK, Some 0, st') \<and> servers_ok st' \<and>
        check_server (sconns st') h = None \<and> (\<forall>h'. h' \<noteq> h \<longrightarrow> check_server (sconns st') h' = check_server (sconns st) h') \<and>
        find_open_server (conn_type (sdevice c)) (sconns st') \<noteq> 0"
proof (cases "check_server (sconns st) h")
  case None
  then show ?thesis by (simp add: bCap_Close_Server_def)
next
  case (Some ic)
  obtain i c where ic: "ic = (i, c)" by (cases ic)
  have len: "length (sconns st) = 3" using ok by (simp add: servers_ok_def)
  have i: "i < 3" "sint h = int i + 1" "c = sconns st ! i" "sock (sdevice c) \<noteq> 0"
    using Some servers.check_Some [OF len] unfolding ic by auto
  have c: "dn_close (sdevice c) \<noteq> None" "i \<in> server_slots (conn_type (sdevice c))" "smain st ! i"
    using ok i by (auto simp: servers_ok_def slot_ok_def)
  then obtain f where f: "dn_close (sdevice c) = Some f" by auto
  let ?st = "(set_server i zero_server False st)\<lparr>sworld := so_close env f (sock (sdevice c)) (so_destroy_event env i (so_end env i (sworld st)))\<rparr>"
  have cl: "bCap_Close_Server env (Some h) st = Some (S_OK, Some 0, ?st)"
    using Some f c(3) by (simp add: bCap_Close_Server_def ic)
  have free: "sconns ?st = (sconns st)[i := zero_server]" by (simp add: set_server_def)
  have "check_server (sconns ?st) h = None"
    using servers.check_update [OF len Some [unfolded ic], of zero_server] by (simp add: free)
  moreover have "check_server (sconns ?st) h' = check_server (sconns st) h'" if "h' \<noteq> h" for h'
  proof -
    have "sint h' \<noteq> int i + 1" using that i(2) by (metis scast_eq scast_id)
    then show ?thesis using servers.check_other [OF len] by (simp add: free)
  qed
  moreover have "servers_ok ?st"
    using ok i(1) by (auto simp: free servers_ok_def nth_list_update slot_ok_def set_server_def)
  moreover have "find_open_server (conn_type (sdevice c)) (sconns ?st) \<noteq> 0"
    using servers.find_0 [of "sconns ?st" "conn_type (sdevice c)"] c(2) i(1) len by (auto simp: free)
  ultimately show ?thesis using cl Some ic by auto
qed

section \<open>A concrete table\<close>

definition sample_oenv :: "nat oenv" where
  "sample_oenv = \<lparr>so_mok = mem_ok, so_inet_addr = \<lambda>_. 0, so_atof10 = \<lambda>_. 10, so_create_event = \<lambda>i w. (S_OK, w),
     so_destroy_event = \<lambda>i w. w, so_open = \<lambda>f p w. (S_OK, 5, w), so_set_timeout = \<lambda>f s n w. (S_OK, w),
     so_close = \<lambda>f s w. w, so_begin = \<lambda>i a w. w, so_end = \<lambda>i w. w\<rparr>"


definition udp_server :: "nat server" where
  "udp_server = \<lparr>sconns = [zero_server, zero_server\<lparr>sdevice := zero_device\<lparr>sock := 5, conn_type := CONN_UDP,
     dn_close := Some F_udp_close\<rparr>\<rparr>, zero_server], smain = [False, True, False], sworld = 0\<rparr>"


lemma close_server_frees_witness:
  "\<exists>st'. bCap_Close_Server sample_oenv (Some 2) udp_server = Some (S_OK, Some 0, st') \<and> check_server (sconns st') 2 = None"
proof -
  have "servers_ok udp_server"
    by (auto simp: servers_ok_def udp_server_def slot_ok_def server_slots_def less_Suc_eq numeral_3_eq_3)
  moreover have "check_server (sconns udp_server) 2 = Some (1, sconns udp_server ! 1)"
    by (simp add: check_server_def udp_server_def)
  ultimately show ?thesis using close_server_frees [of udp_server sample_oenv 2] by auto
qed

end
