(* ===== verification/Robotalk.thy ===== *)
theory Robotalk
  imports BcapTransport "HOL-Library.Monad_Syntax"
begin

text \<open>
  The packets of the teaching pendant: \<open>bcap_core/src/dn_robotalk.c\<close> and its header. A packet is
  the memory of a \<open>union RTK_PACKET\<close>: the header (\<open>enq\<close>, \<open>len\<close>, \<open>command\<close>, \<open>from_id\<close>, \<open>to_id\<close>), the data and
  behind the data the checksum; the host is little-endian. An object smaller than the union
  (\<open>rtk_send_nak\<close> allocates one) is a shorter list.
\<close>

abbreviation (input) RTK_ENQ :: byte where "RTK_ENQ \<equiv> 0x05"
abbreviation (input) RTK_CMD_REJ :: u16 where "RTK_CMD_REJ \<equiv> 0x0E01"
abbreviation (input) RTK_CMD_ACK :: u16 where "RTK_CMD_ACK \<equiv> 0x0E02"
abbreviation (input) RTK_CMD_NAK :: u16 where "RTK_CMD_NAK \<equiv> 0x0E82"
abbreviation (input) RTK_SIZE_PACKET :: nat where "RTK_SIZE_PACKET \<equiv> 256"
abbreviation (input) RTK_SIZE_HEADER :: nat where "RTK_SIZE_HEADER \<equiv> 6"
abbreviation (input) RTK_SIZE_CRC :: nat where "RTK_SIZE_CRC \<equiv> 2"
abbreviation (input) RTK_LEN_MAX :: byte where "RTK_LEN_MAX \<equiv> 248"
abbreviation (input) RTK_RETRY_FLAG :: u16 where "RTK_RETRY_FLAG \<equiv> 0x1000"
abbreviation (input) RTK_RETRY_COUNT :: u16 where "RTK_RETRY_COUNT \<equiv> 0x2000"
abbreviation (input) RTK_RETRY_MASK :: u16 where "RTK_RETRY_MASK \<equiv> 0xF000"

type_synonym rtk_packet = "byte list"

definition NativeCommand :: "u16 \<Rightarrow> u16" where
  "NativeCommand cmd = cmd AND NOT RTK_RETRY_MASK"

text \<open>The fields, read as the host reads them.\<close>

definition p_len :: "rtk_packet \<Rightarrow> byte" where "p_len p = p ! 1"
definition p_command :: "rtk_packet \<Rightarrow> u16" where "p_command p = le_word (take 2 (drop 2 p))"
definition p_from :: "rtk_packet \<Rightarrow> byte" where "p_from p = p ! 4"
definition p_to :: "rtk_packet \<Rightarrow> byte" where "p_to p = p ! 5"
definition p_data :: "rtk_packet \<Rightarrow> byte list" where "p_data p = take (unat (p_len p)) (drop 6 p)"

text \<open>Copying an object with \<open>memcpy_be\<close>: the image of the word, most significant byte first.\<close>

definition be16 :: "u16 \<Rightarrow> byte list" where
  "be16 w = memcpy_be LITTLE (mem_image LITTLE 2 w)"

definition rtk_param2packet ::
  "u16 \<Rightarrow> byte list option \<Rightarrow> byte \<Rightarrow> byte \<Rightarrow> byte \<Rightarrow> rtk_packet option \<Rightarrow> (hresult \<times> rtk_packet option) option" where
  "rtk_param2packet command data len_data from to packet =
     (case packet of
        None \<Rightarrow> Some (E_INVALIDARG, None)
      | Some p \<Rightarrow>
          if 0 < len_data \<and> data = None then Some (E_INVALIDARG, packet)
          else if RTK_LEN_MAX < len_data then Some (E_INVALIDARG, packet)
          else do {
            p1 \<leftarrow> store p 0 [RTK_ENQ, len_data];
            p2 \<leftarrow> store p1 2 (be16 command);
            p3 \<leftarrow> store p2 4 [from, to];
            p4 \<leftarrow> (if 0 < len_data then load (the data) 0 (unat len_data) \<bind> store p3 6 else Some p3);
            Some (S_OK, Some p4)
          })"

text \<open>The loop of the checksum has an 8-bit counter.\<close>

partial_function (option) rtk_crc_loop :: "rtk_packet \<Rightarrow> nat \<Rightarrow> byte \<Rightarrow> u16 \<Rightarrow> u16 option" where
  "rtk_crc_loop p bound pos crc =
     (if unat pos < bound
      then do { bs \<leftarrow> load p (unat pos) 1; rtk_crc_loop p bound (pos + 1) (crc + ucast (hd bs)) }
      else Some crc)"

definition rtk_calc_crc :: "rtk_packet option \<Rightarrow> u16 option" where
  "rtk_calc_crc packet =
     (case packet of
        None \<Rightarrow> Some 0
      | Some p \<Rightarrow> do {
          bs \<leftarrow> load p 1 1;
          let len_data = (if RTK_LEN_MAX < hd bs then RTK_LEN_MAX else hd bs);
          rtk_crc_loop p (RTK_SIZE_HEADER + unat len_data) 0 0
        })"

definition RTK_CHECK_SEND :: i32 where
  "RTK_CHECK_SEND = CHECK_TYPE_UDP OR CHECK_TYPE_COM OR CHECK_FUNC_SEND"

definition RTK_CHECK_RECV :: i32 where
  "RTK_CHECK_RECV = CHECK_TYPE_UDP OR CHECK_TYPE_COM OR CHECK_FUNC_SEND OR CHECK_FUNC_RECV"

text \<open>The special parameter of the driver: the address for UDP, nothing for a serial line.\<close>

definition rtk_arg :: "(sockaddr_in \<Rightarrow> sockaddr_in) \<Rightarrow> conn_param_common \<Rightarrow> hresult + dev_arg" where
  "rtk_arg f d =
     (if conn_type d = CONN_UDP then
        (case arg d of None \<Rightarrow> Inl E_INVALIDARG | Some a \<Rightarrow> Inr (ArgUdp 0 (f a)))
      else Inr ArgNull)"

definition rtk_send ::
  "'w io \<Rightarrow> conn_param_common option \<Rightarrow> rtk_packet option \<Rightarrow> 'w \<Rightarrow> (hresult \<times> rtk_packet option \<times> 'w) option" where
  "rtk_send io device packet w =
     (let hr = check_conn_param device RTK_CHECK_SEND in
      case (device, packet) of
        (Some d, Some p) \<Rightarrow>
          if FAILED hr then Some (hr, packet, w)
          else (case rtk_arg (\<lambda>a. a) d of
              Inl e \<Rightarrow> Some (e, packet, w)
            | Inr parg \<Rightarrow> do {
                l \<leftarrow> load p 1 1;
                let len_send = (8 + ucast (hd l) :: u32);
                if 256 < len_send then Some (E_TOO_MUCH_DATA, packet, w)
                else do {
                  crc \<leftarrow> rtk_calc_crc packet;
                  p' \<leftarrow> store p (6 + unat (hd l)) (be16 crc);
                  bs \<leftarrow> load p' 0 (unat len_send);
                  let (hr', w') = dev_send io (the (dn_send d)) (sock d) bs parg w;
                  Some (hr', Some p', w')
                }
              })
      | (None, _) \<Rightarrow> Some (hr, packet, w)
      | (Some d, None) \<Rightarrow> Some (if FAILED hr then hr else E_INVALIDARG, packet, w))"

text \<open>The object for the answer has room for the header and the checksum only.\<close>

definition rtk_send_nak ::
  "'w io \<Rightarrow> (nat \<Rightarrow> bool) \<Rightarrow> byte list \<Rightarrow> conn_param_common option \<Rightarrow> byte \<Rightarrow> byte \<Rightarrow> 'w \<Rightarrow> (hresult \<times> 'w) option" where
  "rtk_send_nak io mok fresh device from to w =
     (if \<not> mok (RTK_SIZE_HEADER + RTK_SIZE_CRC) then Some (E_OUTOFMEMORY, w)
      else do {
        (hr, packet) \<leftarrow> rtk_param2packet RTK_CMD_NAK None 0 from to (Some (take (RTK_SIZE_HEADER + RTK_SIZE_CRC) fresh));
        if FAILED hr then Some (hr, w)
        else do { (hr', _, w') \<leftarrow> rtk_send io device packet w; Some (hr', w') }
      })"

section \<open>Receiving\<close>

text \<open>
  The start of \<open>buf_tmp\<close>: what is before the first \<open>ENQ\<close> is dropped. The list is its first
  \<open>len_recved\<close> bytes; the copy to the front with \<open>memcpy\<close> overlaps and is taken to do what \<open>memmove\<close> does.
\<close>

definition align_enq :: "byte list \<Rightarrow> byte list" where
  "align_enq buf = dropWhile (\<lambda>b. b \<noteq> RTK_ENQ) buf"

partial_function (option) rtk_find_enq ::
  "'w io \<Rightarrow> bool \<Rightarrow> dev_arg \<Rightarrow> hresult \<Rightarrow> byte list \<Rightarrow> 'w rstate \<Rightarrow> (hresult \<times> byte list \<times> 'w rstate) option" where
  "rtk_find_enq io client parg hr buf st =
     (let buf1 = align_enq buf in
      if 8 \<le> length buf1 then Some (hr, buf1, st)
      else
        let (out, st1) = dev_read io (UDP_MAX_PACKET - of_nat (length buf1)) parg st;
            (hr1, st2) = check_sender client out st1
        in if FAILED hr1 then Some (hr1, buf1, st2)
           else do {
             bs \<leftarrow> recved (503 - length buf1) out;
             rtk_find_enq io client parg hr1 (buf1 @ bs) st2
           })"

text \<open>The rest of a packet whose first \<open>n\<close> bytes are there.\<close>

partial_function (option) rtk_recv_rest ::
  "'w io \<Rightarrow> dev_arg \<Rightarrow> u32 \<Rightarrow> hresult \<Rightarrow> rtk_packet \<Rightarrow> u32 \<Rightarrow> 'w rstate \<Rightarrow> (hresult \<times> rtk_packet \<times> 'w rstate) option" where
  "rtk_recv_rest io parg len_recv hr p n st =
     (if len_recv \<le> n then Some (hr, p, st)
      else
        let (out, st1) = dev_read io (len_recv - n) parg st;
            (hr1, st2) = check_sender True out st1
        in if FAILED hr1 then Some (hr1, p, st2)
           else do {
             bs \<leftarrow> recved (unat (len_recv - n)) out;
             p' \<leftarrow> store p (unat n) bs;
             rtk_recv_rest io parg len_recv hr1 p' (n + of_nat (length bs)) st2
           })"

text \<open>The comparison of the checksum with the two bytes behind the data.\<close>

definition rtk_crc_matches :: "rtk_packet \<Rightarrow> bool option" where
  "rtk_crc_matches p = do {
     crc \<leftarrow> rtk_calc_crc (Some p);
     bs \<leftarrow> load p (6 + unat (p_len p)) 2;
     Some (crc = le_word (memcpy_be LITTLE bs))
   }"

definition swap_command :: "rtk_packet \<Rightarrow> rtk_packet option" where
  "swap_command p = load p 2 2 \<bind> (\<lambda>bs. store p 2 (memcpy_be LITTLE bs))"

text \<open>One pass for every packet that is refused, up to \<open>retry_nak\<close> more.\<close>

partial_function (option) rtk_attempts ::
  "'w io \<Rightarrow> (nat \<Rightarrow> bool) \<Rightarrow> byte list \<Rightarrow> bool \<Rightarrow> dev_arg \<Rightarrow> u32 \<Rightarrow> u32 \<Rightarrow> hresult \<Rightarrow> rtk_packet \<Rightarrow> 'w rstate \<Rightarrow>
   (hresult \<times> rtk_packet \<times> 'w rstate) option" where
  "rtk_attempts io mok fresh client parg retry_nak cnt hr p st =
     (if retry_nak < cnt then Some (hr, p, st)
      else do {
        (hr1, buf, st1) \<leftarrow> rtk_find_enq io client parg hr [] st;
        if FAILED hr1 then Some (hr1, p, st1)
        else let len_recv = (8 + ucast (p_len buf) :: u32) in
          if 256 < len_recv then rtk_attempts io mok fresh client parg retry_nak (cnt + 1) hr1 p st1
          else do {
            p1 \<leftarrow> store p 0 (take (unat len_recv) buf);
            (hr2, p2, st2) \<leftarrow> rtk_recv_rest io parg len_recv hr1 p1 (of_nat (length buf)) st1;
            if FAILED hr2 then Some (hr2, p2, st2)
            else do {
              ok \<leftarrow> rtk_crc_matches p2;
              if ok then do { p3 \<leftarrow> swap_command p2; Some (hr2, p3, st2) }
              else do {
                (hr3, w) \<leftarrow> rtk_send_nak io mok fresh (Some (rdev st2)) (p_from p2) (p_to p2) (rworld st2);
                if SUCCEEDED hr3
                then rtk_attempts io mok fresh client parg retry_nak (cnt + 1)
                       (if cnt = retry_nak then E_INVALIDPACKET else hr3) p2 (st2\<lparr>rworld := w\<rparr>)
                else do { p3 \<leftarrow> swap_command p2; Some (hr3, p3, st2\<lparr>rworld := w\<rparr>) }
              }
            }
          }
      })"

text \<open>\<open>junk\<close> is the address in the uninitialised \<open>opt_udp\<close>.\<close>

definition rtk_recv ::
  "'w io \<Rightarrow> (nat \<Rightarrow> bool) \<Rightarrow> byte list \<Rightarrow> sockaddr_in \<Rightarrow> conn_param_common option \<Rightarrow> rtk_packet option \<Rightarrow> bool \<Rightarrow> u32 \<Rightarrow>
   'w \<Rightarrow> (hresult \<times> rtk_packet option \<times> conn_param_common option \<times> 'w) option" where
  "rtk_recv io mok fresh junk device packet client retry_nak w =
     (let hr = check_conn_param device RTK_CHECK_RECV in
      case (device, packet) of
        (Some d, Some p) \<Rightarrow>
          if FAILED hr then Some (hr, packet, device, w)
          else (case rtk_arg (\<lambda>_. junk) d of
              Inl e \<Rightarrow> Some (e, packet, device, w)
            | Inr parg \<Rightarrow> do {
                (hr', p', st) \<leftarrow> rtk_attempts io mok fresh client parg retry_nak 0 hr p
                                  \<lparr>rdev = d, rflag = False, rworld = w\<rparr>;
                Some (hr', Some p', Some (rdev st), rworld st)
              })
      | (None, _) \<Rightarrow> Some (hr, packet, device, w)
      | (Some d, None) \<Rightarrow> Some (if FAILED hr then hr else E_INVALIDARG, packet, device, w))"


section \<open>The checksum\<close>

definition byte_sum :: "byte list \<Rightarrow> u16" where
  "byte_sum bs = sum_list (map ucast bs)"

lemma byte_sum_simps [simp]:
  "byte_sum [] = 0" "byte_sum (b # bs) = ucast b + byte_sum bs" "byte_sum (xs @ ys) = byte_sum xs + byte_sum ys"
  by (simp_all add: byte_sum_def)

text \<open>The 8-bit counter reaches every bound below 256, so the loop ends.\<close>

lemma rtk_crc_loop_sum:
  assumes "bound \<le> 255" and "bound \<le> length p" and "unat pos \<le> bound"
  shows "rtk_crc_loop p bound pos crc = Some (crc + byte_sum (take (bound - unat pos) (drop (unat pos) p)))"
  using assms(3)
proof (induction "bound - unat pos" arbitrary: pos crc)
  case 0
  then show ?case by (simp add: rtk_crc_loop.simps)
next
  case (Suc k)
  then have lt: "unat pos < bound" "unat pos < length p" using assms(2) by simp_all
  then have nx: "unat (pos + 1) = Suc (unat pos)" using assms(1) by (simp add: unat_add_lem [THEN iffD1])
  have "take 1 (drop (unat pos) p) = [p ! unat pos]" using lt(2) by (simp add: take_Suc_conv_app_nth flip: take_drop)
  then have "rtk_crc_loop p bound pos crc = rtk_crc_loop p bound (pos + 1) (crc + ucast (p ! unat pos))"
    using lt by (simp add: rtk_crc_loop.simps [of p bound pos] load_def)
  also have "\<dots> = Some (crc + ucast (p ! unat pos) + byte_sum (take (bound - Suc (unat pos)) (drop (Suc (unat pos)) p)))"
    using Suc.hyps lt by (subst Suc.hyps(1)) (simp_all add: nx)
  also have "take (bound - unat pos) (drop (unat pos) p) =
      p ! unat pos # take (bound - Suc (unat pos)) (drop (Suc (unat pos)) p)"
    using lt by (subst Cons_nth_drop_Suc [symmetric]) (simp_all add: take_Cons' Suc_diff_Suc)
  then have "crc + ucast (p ! unat pos) + byte_sum (take (bound - Suc (unat pos)) (drop (Suc (unat pos)) p)) =
      crc + byte_sum (take (bound - unat pos) (drop (unat pos) p))" by simp
  finally show ?case .
qed

definition crc_length :: "rtk_packet \<Rightarrow> nat" where
  "crc_length p = 6 + min 248 (unat (p_len p))"

lemma load_len: "2 \<le> length p \<Longrightarrow> load p (Suc 0) (Suc 0) = Some [p_len p]"
  by (cases p; cases "tl p") (auto simp: load_def p_len_def)

lemma rtk_calc_crc_value:
  assumes "2 \<le> length p" and "crc_length p \<le> length p"
  shows "rtk_calc_crc (Some p) = Some (byte_sum (take (crc_length p) p))"
proof -
  have "crc_length p = 6 + unat (if RTK_LEN_MAX < p_len p then RTK_LEN_MAX else p_len p)"
    by (simp add: crc_length_def word_less_nat_alt min_def)
  moreover have "crc_length p \<le> 254" by (simp add: crc_length_def)
  ultimately show ?thesis
    using assms rtk_crc_loop_sum [of "crc_length p" p 0 0]
    by (cases "248 < p_len p") (simp_all add: rtk_calc_crc_def load_len)
qed

lemma byte_up: "(ucast a :: u16) = ucast (b :: byte) \<longleftrightarrow> a = b"
proof -
  have "(ucast (ucast c :: u16) :: byte) = c" for c :: byte
    by (rule ucast_up_ucast_id) (simp add: is_up)
  then show ?thesis by metis
qed

text \<open>
  The checksum routine ends although its counter has 8 bits, and the checksums
  of two packets of one length field that differ in exactly one byte of the header or the data
  are different; bytes behind the data do not count.
\<close>

lemma rtk_calc_crc_detects:
  assumes "crc_length p \<le> length p" and "2 \<le> length p" and "i < length p" and "i \<noteq> 1" and "p ! i \<noteq> b"
  shows "rtk_calc_crc (Some p) \<noteq> None \<and>
    (rtk_calc_crc (Some (p[i := b])) = rtk_calc_crc (Some p) \<longleftrightarrow> crc_length p \<le> i)"
proof -
  have same: "p_len (p[i := b]) = p_len p" "crc_length (p[i := b]) = crc_length p"
    using assms(4) by (simp_all add: p_len_def crc_length_def)
  have v: "rtk_calc_crc (Some p) = Some (byte_sum (take (crc_length p) p))"
    "rtk_calc_crc (Some (p[i := b])) = Some (byte_sum (take (crc_length p) (p[i := b])))"
    using assms same by (simp_all add: rtk_calc_crc_value)
  have "byte_sum (take (crc_length p) (p[i := b])) \<noteq> byte_sum (take (crc_length p) p)" if "i < crc_length p"
  proof -
    have ne: "(ucast b :: u16) \<noteq> ucast (p ! i)" using assms(5) by (simp add: byte_up)
    have "take (crc_length p) p = take i p @ p ! i # drop (Suc i) (take (crc_length p) p)"
      using that assms(3) id_take_nth_drop [of i "take (crc_length p) p"] by simp
    moreover have "take (crc_length p) (p[i := b]) = take i p @ b # drop (Suc i) (take (crc_length p) p)"
      using that assms(3) by (simp add: upd_conv_take_nth_drop drop_take take_Cons')
    ultimately show ?thesis using ne by (metis (no_types) add_left_cancel add_right_cancel byte_sum_simps(2,3))
  qed
  then show ?thesis using v by (cases "i < crc_length p") auto
qed


section \<open>The packet on the wire\<close>

text \<open>Header and data of a packet, and the packet with its checksum.\<close>

definition rtk_frame :: "u16 \<Rightarrow> byte \<Rightarrow> byte \<Rightarrow> byte list \<Rightarrow> byte list" where
  "rtk_frame command from to data =
     [RTK_ENQ, of_nat (length data), ucast (drop_bit 8 command), ucast command, from, to] @ data"

definition rtk_wire :: "u16 \<Rightarrow> byte \<Rightarrow> byte \<Rightarrow> byte list \<Rightarrow> byte list" where
  "rtk_wire command from to data =
     rtk_frame command from to data @ be16 (byte_sum (rtk_frame command from to data))"

lemma be16_bytes: "be16 w = [ucast (drop_bit 8 w), ucast w]"
  by (simp add: be16_def mem_image_def numeral_2_eq_2)

lemma length_be16 [simp]: "length (be16 w) = 2"
  by (simp add: be16_bytes)

lemma be16_word: "le_word (memcpy_be LITTLE (be16 w)) = w"
  using le_word_le_bytes_full [of 2 w] by (simp add: be16_def mem_image_def)

lemma length_rtk_frame [simp]: "length (rtk_frame c f t data) = 6 + length data"
  by (simp add: rtk_frame_def)

lemma length_rtk_wire [simp]: "length (rtk_wire c f t data) = 8 + length data"
  by (simp add: rtk_wire_def)

lemma unat_len: "length (data :: byte list) \<le> 248 \<Longrightarrow> unat (of_nat (length data) :: byte) = length data"
  by (simp add: unat_of_nat)

lemma rtk_frame_len:
  "length data \<le> 248 \<Longrightarrow> p_len (rtk_frame c f t data @ rest) = of_nat (length data)"
  "length data \<le> 248 \<Longrightarrow> crc_length (rtk_frame c f t data @ rest) = 6 + length data"
  by (simp_all add: p_len_def crc_length_def rtk_frame_def unat_len)

lemma rtk_param2packet_frame:
  assumes "length data \<le> 248" and "6 + length data \<le> length p"
  shows "rtk_param2packet c (Some data) (of_nat (length data)) f t (Some p) =
    Some (S_OK, Some (rtk_frame c f t data @ drop (6 + length data) p))"
proof -
  have len: "\<not> RTK_LEN_MAX < (of_nat (length data) :: byte)" and un: "unat (of_nat (length data) :: byte) = length data"
    using assms(1) by (simp_all add: word_less_nat_alt unat_len)
  obtain a0 a1 a2 a3 a4 a5 q where p: "p = [a0, a1, a2, a3, a4, a5] @ q" and q: "length data \<le> length q"
  proof -
    have "6 \<le> length p" using assms(2) by simp
    then obtain a0 a1 a2 a3 a4 a5 q where "p = [a0, a1, a2, a3, a4, a5] @ q"
      by (auto simp: numeral_eq_Suc Suc_le_length_iff)
    with assms(2) that show thesis by simp
  qed
  have "drop (6 + n) (b0 # b1 # b2 # b3 # b4 # b5 # q) = drop n q" for n and b0 b1 b2 b3 b4 b5 :: byte
    by (simp add: numeral_eq_Suc)
  then show ?thesis
    using len un q
    by (cases "data = []")
       (simp_all add: rtk_param2packet_def p store_def load_def be16_bytes rtk_frame_def word_less_nat_alt)
qed

lemma rtk_crc_matches_frame:
  assumes "length data \<le> 248" and "length crc = 2"
  shows "rtk_crc_matches (rtk_frame c f t data @ crc @ rest) =
    Some (byte_sum (rtk_frame c f t data) = le_word (memcpy_be LITTLE crc))"
  using assms rtk_calc_crc_value [of "rtk_frame c f t data @ crc @ rest"]
    load_at [of "rtk_frame c f t data" "6 + length data" crc 2 rest]
  by (simp add: rtk_crc_matches_def rtk_frame_len unat_len)


text \<open>The devices the packets go over, and the parameter of their driver.\<close>

definition rtk_device :: "conn_param_common \<Rightarrow> bool" where
  "rtk_device d \<longleftrightarrow> 0 < sint (sock d) \<and> (conn_type d = CONN_COM \<or> conn_type d = CONN_UDP \<and> arg d \<noteq> None) \<and>
     dn_send d \<noteq> None \<and> dn_recv d \<noteq> None"

definition rtk_parg :: "conn_param_common \<Rightarrow> dev_arg" where
  "rtk_parg d = (if conn_type d = CONN_UDP then ArgUdp 0 (the (arg d)) else ArgNull)"

lemma rtk_device_checks:
  assumes "rtk_device d"
  shows "check_conn_param (Some d) RTK_CHECK_SEND = S_OK" "check_conn_param (Some d) RTK_CHECK_RECV = S_OK"
    "rtk_arg (\<lambda>a. a) d = Inr (rtk_parg d)" "\<exists>parg. rtk_arg (\<lambda>_. junk) d = Inr parg"
  using assms
  by (auto simp: rtk_device_def check_conn_param_def RTK_CHECK_SEND_def RTK_CHECK_RECV_def rtk_arg_def rtk_parg_def)

text \<open>Sending writes the checksum behind the data and gives the driver exactly the packet.\<close>

lemma rtk_send_frame:
  assumes "rtk_device d" and "length data \<le> 248" and "2 \<le> length rest"
  shows "rtk_send io (Some d) (Some (rtk_frame c f t data @ rest)) w =
    (let (hr, w') = dev_send io (the (dn_send d)) (sock d) (rtk_wire c f t data) (rtk_parg d) w
     in Some (hr, Some (rtk_wire c f t data @ drop 2 rest), w'))"
proof -
  let ?F = "rtk_frame c f t data" and ?p = "rtk_frame c f t data @ rest"
  obtain x y where r: "rest = [x, y] @ drop 2 rest"
    using assms(3) by (cases rest; cases "tl rest") auto
  have len: "load ?p 1 1 = Some [of_nat (length data)]"
    using load_len [of ?p] assms(2) by (simp add: rtk_frame_len)
  have un: "unat (of_nat (length data) :: byte) = length data" using assms(2) by (rule unat_len)
  then have sz: "unat (8 + ucast (of_nat (length data) :: byte) :: u32) = 8 + length data"
    using assms(2) by (simp add: unat_word_ariths unsigned_ucast_eq take_bit_nat_eq_self)
  then have ok: "\<not> 256 < (8 + ucast (of_nat (length data) :: byte) :: u32)"
    using assms(2) by (simp add: word_less_nat_alt)
  have crc: "rtk_calc_crc (Some ?p) = Some (byte_sum ?F)"
    using rtk_calc_crc_value [of ?p] assms(2) by (simp add: rtk_frame_len)
  have st: "store ?p (6 + length data) (be16 (byte_sum ?F)) = Some (rtk_wire c f t data @ drop 2 rest)"
    using store_at [of ?F "6 + length data" "[x, y]" "be16 (byte_sum ?F)" "drop 2 rest"] r
    by (simp add: rtk_wire_def)
  have ld: "load (rtk_wire c f t data @ drop 2 rest) 0 (8 + length data) = Some (rtk_wire c f t data)"
    by (simp add: load_def)
  show ?thesis
    unfolding rtk_send_def using rtk_device_checks [OF assms(1)]
    by (simp only: option.case prod.case sum.case FAILED_0 if_False Let_def len crc Option.bind.bind_lunit
        list.sel ok un st sz ld)
qed


text \<open>A received packet has its command in the order of the host.\<close>

definition rtk_host :: "u16 \<Rightarrow> byte \<Rightarrow> byte \<Rightarrow> byte list \<Rightarrow> byte list" where
  "rtk_host command from to data =
     [RTK_ENQ, of_nat (length data), ucast command, ucast (drop_bit 8 command), from, to] @ data"

lemma swap_command_frame [simp]:
  "swap_command (rtk_frame c f t data @ rest) = Some (rtk_host c f t data @ rest)"
  by (simp add: swap_command_def rtk_frame_def rtk_host_def load_def store_def)

lemma rtk_host_fields:
  assumes "length data \<le> 248"
  shows "p_command (rtk_host c f t data @ rest) = c" "p_from (rtk_host c f t data @ rest) = f"
    "p_to (rtk_host c f t data @ rest) = t" "p_data (rtk_host c f t data @ rest) = data"
    "p_len (rtk_host c f t data @ rest) = of_nat (length data)"
proof -
  have "take 2 (drop 2 (rtk_host c f t data @ rest)) = le_bytes 2 c" by (simp add: rtk_host_def numeral_2_eq_2)
  then show "p_command (rtk_host c f t data @ rest) = c"
    using le_word_le_bytes_full [of 2 c] by (simp add: p_command_def)
qed (use assms in \<open>simp_all add: p_from_def p_to_def p_data_def p_len_def rtk_host_def unat_len\<close>)

end
