(* ===== verification/SerialPort.thy ===== *)
theory SerialPort
  imports BcapStream
begin

text \<open>
  The serial driver of \<open>bcap_core/src/dn_com.c\<close> over the terminal calls of Linux: opening a port
  with the parameters of the connection string, sending, receiving, time-out, flushing and the
  modem lines. The calls below it (\<open>open\<close>, \<open>read\<close>, \<open>tcsetattr\<close>, ...) are the record \<open>tty\<close>; each
  gives its result or an errno. The last section is a line that delivers chunks of bytes, the
  world the theorems on serial connections are about.
\<close>

section \<open>Terminal settings\<close>

text \<open>\<open>struct termios\<close>: the two words of flags the driver sets, the others, the control characters.\<close>

record termios =
  c_iflag :: u32
  c_oflag :: u32
  c_cflag :: u32
  c_lflag :: u32
  c_cc :: "byte list"

abbreviation (input) CS_MASK :: u32 where "CS_MASK \<equiv> 0x30"
abbreviation (input) CSTOPB :: u32 where "CSTOPB \<equiv> 0x40"
abbreviation (input) CREAD :: u32 where "CREAD \<equiv> 0x80"
abbreviation (input) PARENB :: u32 where "PARENB \<equiv> 0x100"
abbreviation (input) PARODD :: u32 where "PARODD \<equiv> 0x200"
abbreviation (input) CLOCAL :: u32 where "CLOCAL \<equiv> 0x800"
abbreviation (input) CRTSCTS :: u32 where "CRTSCTS \<equiv> 0x80000000"
abbreviation (input) CBAUD_MASK :: u32 where "CBAUD_MASK \<equiv> 0xF"
abbreviation (input) IXON :: u32 where "IXON \<equiv> 0x400"
abbreviation (input) IXOFF :: u32 where "IXOFF \<equiv> 0x1000"
abbreviation (input) VTIME :: nat where "VTIME \<equiv> 5"
abbreviation (input) VMIN :: nat where "VMIN \<equiv> 6"
abbreviation (input) NCCS :: nat where "NCCS \<equiv> 32"
abbreviation (input) COM_BITS_CTS :: u32 where "COM_BITS_CTS \<equiv> 0x20"

text \<open>The table of rates with the codes \<open>B50\<close> to \<open>B38400\<close> of \<open>termios.h\<close>.\<close>

definition BAUD_RATE :: "(u32 \<times> u32) list" where
  "BAUD_RATE = [(50, 1), (75, 2), (110, 3), (134, 4), (150, 5), (200, 6), (300, 7), (600, 8),
     (1200, 9), (1800, 10), (2400, 11), (4800, 12), (9600, 13), (19200, 14), (38400, 15)]"

fun baud_bits :: "(u32 \<times> u32) list \<Rightarrow> u32 \<Rightarrow> u32" where
  "baud_bits [] rate = 0"
| "baud_bits ((r, b) # tab) rate = (if rate = r then b else baud_bits tab rate)"

definition size_bits :: "byte \<Rightarrow> u32" where
  "size_bits n = (if n = 5 then 0 else if n = 6 then 0x10 else if n = 7 then 0x20 else if n = 8 then 0x30 else 0)"

definition set_parity :: "byte \<Rightarrow> u32 \<Rightarrow> u32" where
  "set_parity p c = (if p = 0 then c AND NOT PARENB
     else if p = 1 then c OR PARENB OR PARODD
     else if p = 2 then (c OR PARENB) AND NOT PARODD
     else c)"

definition set_stop :: "byte \<Rightarrow> u32 \<Rightarrow> u32" where
  "set_stop s c = (if s = 0 then c AND NOT CSTOPB else if s = 2 then c OR CSTOPB else c)"

definition open_state :: "conn_param_com \<Rightarrow> termios" where
  "open_state p =
     (let c0 = CLOCAL OR CREAD;
          c1 = c0 OR baud_bits BAUD_RATE (baud_rate p);
          c2 = c1 OR size_bits (data_bits p);
          c3 = set_parity (parity p) c2;
          c4 = set_stop (stop_bits p) c3;
          i = (if flow p AND 1 \<noteq> 0 then 0 OR IXON OR IXOFF else 0 AND NOT IXON AND NOT IXOFF);
          c5 = (if flow p AND 2 \<noteq> 0 then c4 OR CRTSCTS else c4 AND NOT CRTSCTS)
      in \<lparr>c_iflag = i, c_oflag = 0, c_cflag = c5, c_lflag = 0, c_cc = replicate NCCS 0\<rparr>)"

section \<open>The driver\<close>

record 'w tty =
  tty_open :: "i32 \<Rightarrow> 'w \<Rightarrow> i32 sys \<times> 'w"
  tty_close :: "i32 \<Rightarrow> 'w \<Rightarrow> unit sys \<times> 'w"
  tty_write :: "i32 \<Rightarrow> byte list \<Rightarrow> 'w \<Rightarrow> nat sys \<times> 'w"
  tty_read :: "i32 \<Rightarrow> nat \<Rightarrow> 'w \<Rightarrow> byte list sys \<times> 'w"
  tty_ready :: "i32 \<Rightarrow> u32 \<Rightarrow> 'w \<Rightarrow> hresult \<times> 'w"
  tty_flush :: "i32 \<Rightarrow> bool \<Rightarrow> 'w \<Rightarrow> unit sys \<times> 'w"
  tty_getattr :: "i32 \<Rightarrow> 'w \<Rightarrow> termios sys \<times> 'w"
  tty_setattr :: "i32 \<Rightarrow> termios \<Rightarrow> 'w \<Rightarrow> unit sys \<times> 'w"
  tty_modem :: "i32 \<Rightarrow> 'w \<Rightarrow> u32 sys \<times> 'w"

text \<open>\<open>OSFAILED(ret)\<close> and the errno as an \<open>HRESULT\<close>.\<close>

definition sys_code :: "'a sys \<Rightarrow> hresult" where
  "sys_code r = (case r of Err e \<Rightarrow> OSERR2HRESULT e | Done x \<Rightarrow> S_OK)"

definition com_get_state :: "'w tty \<Rightarrow> i32 \<Rightarrow> termios option \<Rightarrow> 'w \<Rightarrow> hresult \<times> termios option \<times> 'w" where
  "com_get_state t sck st w =
     (if sint sck \<le> 0 then (E_HANDLE, st, w)
      else if st = None then (E_INVALIDARG, st, w)
      else case tty_getattr t sck w of
        (Err e, w') \<Rightarrow> (OSERR2HRESULT e, st, w')
      | (Done s, w') \<Rightarrow> (S_OK, Some s, w'))"

definition com_set_state :: "'w tty \<Rightarrow> i32 \<Rightarrow> termios option \<Rightarrow> 'w \<Rightarrow> hresult \<times> 'w" where
  "com_set_state t sck st w =
     (if sint sck \<le> 0 then (E_HANDLE, w)
      else case st of
        None \<Rightarrow> (E_INVALIDARG, w)
      | Some s \<Rightarrow> (case tty_setattr t sck s w of (r, w') \<Rightarrow> (sys_code r, w')))"

text \<open>\<open>tcflush\<close> on the input queue (\<open>True\<close>), then on the output queue.\<close>

definition com_clear :: "'w tty \<Rightarrow> i32 \<Rightarrow> u32 \<Rightarrow> 'w \<Rightarrow> hresult \<times> 'w" where
  "com_clear t sck tmo w =
     (if sint sck \<le> 0 then (E_HANDLE, w)
      else case tty_flush t sck True w of
        (Err e, w') \<Rightarrow> (OSERR2HRESULT e, w')
      | (Done _, w') \<Rightarrow> (case tty_flush t sck False w' of (r, w'') \<Rightarrow> (sys_code r, w'')))"

text \<open>The result, the descriptor in \<open>*sock\<close>, the world.\<close>

definition com_open :: "'w tty \<Rightarrow> conn_param_com option \<Rightarrow> i32 option \<Rightarrow> 'w \<Rightarrow> hresult \<times> i32 option \<times> 'w" where
  "com_open t param sck w =
     (case (param, sck) of
        (Some p, Some s) \<Rightarrow>
          if sint (com_port p) < 0 \<or> 256 < sint (com_port p) then (E_INVALIDARG, sck, w)
          else (case tty_open t (com_port p) w of
              (Err e, w1) \<Rightarrow> (OSERR2HRESULT e, Some 0, w1)
            | (Done fd, w1) \<Rightarrow>
                (case com_clear t fd 0 w1 of (_, w2) \<Rightarrow>
                 case com_set_state t fd (Some (open_state p)) w2 of (hr, w3) \<Rightarrow> (hr, Some fd, w3)))
      | _ \<Rightarrow> (E_INVALIDARG, sck, w))"

definition com_close :: "'w tty \<Rightarrow> i32 option \<Rightarrow> 'w \<Rightarrow> hresult \<times> i32 option \<times> 'w" where
  "com_close t sck w =
     (case sck of
        None \<Rightarrow> (E_HANDLE, sck, w)
      | Some s \<Rightarrow>
          if sint s \<le> 0 then (E_HANDLE, sck, w)
          else (case tty_close t s w of
              (Err e, w') \<Rightarrow> (OSERR2HRESULT e, sck, w')
            | (Done _, w') \<Rightarrow> (S_OK, Some 0, w')))"

definition com_send :: "'w tty \<Rightarrow> i32 \<Rightarrow> byte list \<Rightarrow> dev_arg \<Rightarrow> 'w \<Rightarrow> hresult \<times> 'w" where
  "com_send t sck buf a w =
     (if sint sck \<le> 0 then (E_HANDLE, w)
      else if buf = [] \<or> hd buf = 0 then (E_INVALIDARG, w)
      else case tty_write t sck buf w of
        (Err e, w') \<Rightarrow> (OSERR2HRESULT e, w')
      | (Done n, w') \<Rightarrow> if n < length buf then (E_TIMEOUT, w') else (S_OK, w'))"

text \<open>A failure of the wait for input, whatever it is, leaves the length zero: a time-out.\<close>

definition com_recv :: "'w tty \<Rightarrow> i32 \<Rightarrow> u32 \<Rightarrow> u32 \<Rightarrow> dev_arg \<Rightarrow> 'w \<Rightarrow> recv_out \<times> 'w" where
  "com_recv t sck len_buf tmo a w =
     (let from = \<lparr>s_addr = 0, sin_port = 0\<rparr> in
      if sint sck \<le> 0 then (RecvOut E_HANDLE None [] from, w)
      else case tty_ready t sck tmo w of (hr, w1) \<Rightarrow>
        if FAILED hr then (RecvOut E_TIMEOUT (Some 0) [] from, w1)
        else case tty_read t sck (unat len_buf) w1 of
          (Err e, w2) \<Rightarrow> (RecvOut (OSERR2HRESULT e) (Some (- 1)) [] from, w2)
        | (Done bs, w2) \<Rightarrow>
            (RecvOut (if length bs = 0 then E_TIMEOUT else S_OK) (Some (of_nat (length bs))) bs from, w2))"

definition set_cc :: "nat \<Rightarrow> byte \<Rightarrow> termios \<Rightarrow> termios" where
  "set_cc i b s = s\<lparr>c_cc := (c_cc s)[i := b]\<rparr>"

definition com_set_timeout :: "'w tty \<Rightarrow> i32 \<Rightarrow> u32 \<Rightarrow> 'w \<Rightarrow> hresult \<times> 'w" where
  "com_set_timeout t sck tmo w =
     (if sint sck \<le> 0 then (E_HANDLE, w)
      else case tty_getattr t sck w of
        (Err e, w') \<Rightarrow> (OSERR2HRESULT e, w')
      | (Done s, w') \<Rightarrow>
          com_set_state t sck (Some (set_cc VTIME (ucast (tmo * 10 div 1000)) (set_cc VMIN 0 s))) w')"

definition com_get_modem_state :: "'w tty \<Rightarrow> i32 \<Rightarrow> u32 option \<Rightarrow> 'w \<Rightarrow> hresult \<times> u32 option \<times> 'w" where
  "com_get_modem_state t sck st w =
     (if sint sck \<le> 0 then (E_HANDLE, st, w)
      else if st = None then (E_INVALIDARG, st, w)
      else case tty_modem t sck w of
        (Err e, w') \<Rightarrow> (OSERR2HRESULT e, st, w')
      | (Done s, w') \<Rightarrow> (S_OK, Some s, w'))"

section \<open>What the settings of a port mean\<close>

text \<open>The line a driver of \<open>termios\<close> sets up for given flags.\<close>

record line_mode =
  lm_baud :: "u32 option"
  lm_bits :: nat
  lm_parity :: "bool option"
  lm_two_stops :: bool
  lm_xon :: bool
  lm_hardware :: bool

definition baud_of :: "u32 \<Rightarrow> u32 option" where
  "baud_of b = map_of (map (\<lambda>(r, c). (c, r)) BAUD_RATE) (b AND CBAUD_MASK)"

definition mode_of :: "termios \<Rightarrow> line_mode" where
  "mode_of s = \<lparr>lm_baud = baud_of (c_cflag s),
     lm_bits = 5 + unat ((c_cflag s AND CS_MASK) div 16),
     lm_parity = (if c_cflag s AND PARENB = 0 then None else Some (c_cflag s AND PARODD \<noteq> 0)),
     lm_two_stops = (c_cflag s AND CSTOPB \<noteq> 0),
     lm_xon = (c_iflag s AND IXON \<noteq> 0 \<and> c_iflag s AND IXOFF \<noteq> 0),
     lm_hardware = (c_cflag s AND CRTSCTS \<noteq> 0)\<rparr>"

text \<open>The mode a connection string asks for.\<close>

definition mode_asked :: "conn_param_com \<Rightarrow> line_mode" where
  "mode_asked p = \<lparr>lm_baud = (if baud_rate p \<in> fst ` set BAUD_RATE then Some (baud_rate p) else None),
     lm_bits = unat (data_bits p),
     lm_parity = (if parity p = 0 then None else Some (parity p = 1)),
     lm_two_stops = (stop_bits p = 2),
     lm_xon = (flow p AND 1 \<noteq> 0), lm_hardware = (flow p AND 2 \<noteq> 0)\<rparr>"

text \<open>The parameters the parser of connection strings lets through.\<close>

definition com_param_ok :: "conn_param_com \<Rightarrow> bool" where
  "com_param_ok p \<longleftrightarrow> data_bits p \<in> {5, 6, 7, 8} \<and> parity p \<in> {0, 1, 2} \<and> stop_bits p \<in> {0, 2} \<and>
     flow p \<in> {0, 1, 2, 3}"


section \<open>A port is opened in the mode that was asked for\<close>

lemma baud_bits_cases: "baud_bits BAUD_RATE r \<in> {0..15}"
  by (simp add: BAUD_RATE_def)

lemma baud_bits_low: "baud_bits BAUD_RATE r AND 0xF = baud_bits BAUD_RATE r"
  by (simp add: BAUD_RATE_def)

lemma baud_bits_mask: "15 AND m = 0 \<Longrightarrow> baud_bits BAUD_RATE r AND m = 0"
  using arg_cong [OF baud_bits_low [of r], of "\<lambda>x. x AND m"] by (simp only: and.assoc bit.conj_zero_right)

lemma baud_of_bits: "c AND 0xF = baud_bits BAUD_RATE r \<Longrightarrow>
    baud_of c = (if r \<in> fst ` set BAUD_RATE then Some r else None)"
  by (simp add: baud_of_def BAUD_RATE_def)

lemma open_state_flags:
  assumes "data_bits p \<in> {5, 6, 7, 8}" and "parity p \<in> {0, 1, 2}" and "stop_bits p \<in> {0, 2}"
  shows "c_cflag (open_state p) AND 0xF = baud_bits BAUD_RATE (baud_rate p)"
    "c_cflag (open_state p) AND CS_MASK = size_bits (data_bits p)"
    "c_cflag (open_state p) AND PARENB = (if parity p = 0 then 0 else PARENB)"
    "c_cflag (open_state p) AND PARODD = (if parity p = 1 then PARODD else 0)"
    "c_cflag (open_state p) AND CSTOPB = (if stop_bits p = 2 then CSTOPB else 0)"
    "c_cflag (open_state p) AND CRTSCTS = (if flow p AND 2 \<noteq> 0 then CRTSCTS else 0)"
  using assms
  by (auto simp: open_state_def Let_def size_bits_def set_parity_def set_stop_def
      bit.conj_disj_distrib2 and.assoc baud_bits_low baud_bits_mask)


lemma size_bits_value: "n \<in> {5, 6, 7, 8} \<Longrightarrow> 5 + unat (size_bits n div 16) = unat n"
  by (auto simp: size_bits_def)

lemma open_state_xon:
  "flow p \<in> {0, 1, 2, 3} \<Longrightarrow> (c_iflag (open_state p) AND IXON \<noteq> 0 \<and> c_iflag (open_state p) AND IXOFF \<noteq> 0) =
    (flow p AND 1 \<noteq> 0)"
  by (auto simp: open_state_def Let_def)

lemma mode_open_state:
  assumes "com_param_ok p"
  shows "mode_of (open_state p) = mode_asked p"
proof -
  note ok = assms [unfolded com_param_ok_def]
  note flags = open_state_flags [of p]
  show ?thesis
    unfolding mode_of_def mode_asked_def using ok open_state_xon [of p]
    by (simp only: flags size_bits_value baud_of_bits line_mode.simps) (auto split: if_splits)
qed

text \<open>The parser lets only such parameters through.\<close>

definition keeps :: "('p \<Rightarrow> bool) \<Rightarrow> ('p \<Rightarrow> hresult \<times> 'p) \<Rightarrow> bool" where
  "keeps P k \<longleftrightarrow> (\<forall>p q. k p = (S_OK, q) \<longrightarrow> P p \<longrightarrow> P q)"

lemma keeps_field_step:
  "(\<And>v p. r = Inr v \<Longrightarrow> P p \<Longrightarrow> P (upd v p)) \<Longrightarrow> (\<And>e. r = Inl e \<Longrightarrow> e \<noteq> S_OK) \<Longrightarrow> keeps P k \<Longrightarrow>
   keeps P (field_step present r upd k)"
  by (auto simp: keeps_def field_step_def split: sum.splits)

lemma uint_nonneg: "0 \<le> sint (w :: u64) \<Longrightarrow> uint w = sint w"
  using uint_bounded [of w]
  by (auto simp: sint_uint signed_take_bit_eq_take_bit_minus take_bit_int_eq_self split: if_splits)

lemma parse_bounded_ok:
  "parse_bounded lo hi s = Inr v \<Longrightarrow> 0 \<le> lo \<Longrightarrow> hi < 256 \<Longrightarrow> lo \<le> uint v \<and> uint v \<le> hi"
  by (auto simp: parse_bounded_def Let_def unsigned_ucast_eq uint_nonneg take_bit_int_eq_self split: if_splits)


lemma parse_flow: "parse_bounded 0 3 s = Inr v \<Longrightarrow> v \<in> {0, 1, 2, 3}"
proof -
  assume "parse_bounded 0 3 s = Inr v"
  then have "uint v \<in> {0..3}" using parse_bounded_ok [of 0 3 s v] by simp
  then have "(word_of_int (uint v) :: byte) \<in> word_of_int ` {0..3::int}" by (rule imageI)
  moreover have "{0..3::int} = {0, 1, 2, 3}" by auto
  ultimately show ?thesis by (simp only: word_of_int_uint) simp
qed

lemma parse_data_bits: "parse_bounded 5 8 s = Inr v \<Longrightarrow> v \<in> {5, 6, 7, 8}"
proof -
  assume "parse_bounded 5 8 s = Inr v"
  then have "uint v \<in> {5..8}" using parse_bounded_ok [of 5 8 s v] by simp
  then have "(word_of_int (uint v) :: byte) \<in> word_of_int ` {5..8::int}" by (rule imageI)
  moreover have "{5..8::int} = {5, 6, 7, 8}" by auto
  ultimately show ?thesis by (simp only: word_of_int_uint) simp
qed

lemma parse_errors [simp]:
  "parse_bounded lo hi s \<noteq> Inl 0" "parse_stop_bits f s \<noteq> Inl 0" "parse_parity s \<noteq> Inl 0"
  "parse_baud s \<noteq> Inl 0" "parse_com_port s \<noteq> Inl 0"
  by (auto simp: parse_bounded_def parse_stop_bits_def parse_parity_def parse_baud_def parse_com_port_def Let_def
      split: if_splits)

lemma serial_fields_ok:
  "keeps com_param_ok
    (field_step (7 \<le> length pos) (parse_bounded 0 3 (pos ! 6)) (\<lambda>v p. p\<lparr>flow := v\<rparr>)
    (field_step (6 \<le> length pos) (parse_stop_bits atof10 (pos ! 5)) (\<lambda>v p. p\<lparr>stop_bits := v\<rparr>)
    (field_step (5 \<le> length pos) (parse_bounded 5 8 (pos ! 4)) (\<lambda>v p. p\<lparr>data_bits := v\<rparr>)
    (field_step (4 \<le> length pos) (parse_parity (pos ! 3)) (\<lambda>v p. p\<lparr>parity := v\<rparr>)
    (field_step (3 \<le> length pos) (parse_baud (pos ! 2)) (\<lambda>v p. p\<lparr>baud_rate := v\<rparr>)
    (field_step (2 \<le> length pos) (parse_com_port (pos ! 1)) (\<lambda>v p. p\<lparr>com_port := v\<rparr>)
      (\<lambda>p. (S_OK, p))))))))"
  by (intro keeps_field_step)
     (auto dest!: parse_flow parse_data_bits simp: com_param_ok_def parse_stop_bits_def parse_parity_def keeps_def
       split: if_splits)

lemma parse_serial_ok:
  "parse_conn_param_serial mok atof10 opt p0 = (S_OK, p) \<Longrightarrow> com_param_ok p0 \<Longrightarrow> com_param_ok p"
  using serial_fields_ok unfolding keeps_def parse_conn_param_serial_def Let_def
  by (auto split: if_splits option.splits)


text \<open>
  A port opened with the parameters of an accepted connection string is in the
  mode the string asks for: after \<open>com_open\<close> succeeds, the settings it gave the terminal of the
  descriptor it returns have that speed (none if the rate is not in the table), those data bits,
  that parity, those stop bits and that flow control.
\<close>

lemma com_open_mode:
  assumes "parse_conn_param_serial mok atof10 opt p0 = (S_OK, p)" and "com_param_ok p0"
    and "com_open t (Some p) (Some s0) w = (S_OK, s, w')"
  shows "\<exists>fd st w1 w2. tty_open t (com_port p) w = (Done fd, w1) \<and> s = Some fd \<and>
    tty_setattr t fd st w2 = (Done (), w') \<and> mode_of st = mode_asked p"
proof -
  obtain fd w1 where op: "tty_open t (com_port p) w = (Done fd, w1)" and s: "s = Some fd"
    and set: "com_set_state t fd (Some (open_state p)) (snd (com_clear t fd 0 w1)) = (S_OK, w')"
    using assms(3) by (auto simp: com_open_def split: if_splits sys.splits prod.splits) (metis OSERR2HRESULT_FAILED FAILED_0)
  have "tty_setattr t fd (open_state p) (snd (com_clear t fd 0 w1)) = (Done (), w')"
    using set by (auto simp: com_set_state_def sys_code_def split: if_splits prod.splits sys.splits)
      (metis OSERR2HRESULT_FAILED FAILED_0)
  then show ?thesis
    using op s mode_open_state [OF parse_serial_ok [OF assms(1,2)]] by blast
qed

text \<open>
  When the terminal refuses the settings, \<open>com_open\<close> fails with
  that error, but the descriptor it opened stays open: it is not closed, and is left in \<open>*sock\<close>.
\<close>

lemma com_open_leaves_descriptor:
  assumes "0 \<le> sint (com_port p)" and "sint (com_port p) \<le> 256"
    and "tty_open t (com_port p) w = (Done fd, w1)" and "0 < sint fd"
    and "com_clear t fd 0 w1 = (hr0, w2)" and "tty_setattr t fd (open_state p) w2 = (Err e, w3)"
  shows "com_open t (Some p) (Some s0) w = (OSERR2HRESULT e, Some fd, w3)"
  using assms by (simp add: com_open_def com_set_state_def sys_code_def)

text \<open>
  The time-out of a port is set in tenths of a second in one byte: it is the
  time-out asked for exactly when that is below 25.6 seconds, and wraps otherwise.
\<close>

lemma com_set_timeout_tenths:
  assumes "0 < sint sck" and "tty_getattr t sck w = (Done s, w1)" and "length (c_cc s) = NCCS"
  shows "\<exists>s'. com_set_timeout t sck tmo w = (case tty_setattr t sck s' w1 of (r, w2) \<Rightarrow> (sys_code r, w2)) \<and>
    c_cc s' ! VMIN = 0 \<and> (unat (c_cc s' ! VTIME) = unat tmo div 100 \<longleftrightarrow> unat tmo < 25600)"
proof (intro exI conjI)
  let ?b = "ucast (tmo * 10 div 1000) :: byte"
  let ?s' = "set_cc VTIME ?b (set_cc VMIN 0 s)"
  show "com_set_timeout t sck tmo w = (case tty_setattr t sck ?s' w1 of (r, w2) \<Rightarrow> (sys_code r, w2))"
    using assms(1,2) by (simp add: com_set_timeout_def com_set_state_def)
  show "c_cc ?s' ! VMIN = 0" using assms(3) by (simp add: set_cc_def)
  have "unat (c_cc ?s' ! VTIME) = unat (tmo * 10 div 1000) mod 256"
    using assms(3) by (simp add: set_cc_def unsigned_ucast_eq take_bit_eq_mod)
  moreover have "unat (tmo * 10 div 1000) = unat tmo div 100" if "unat tmo < 25600"
    using that by (simp add: unat_div unat_word_ariths)
  moreover have "unat (tmo * 10 div 1000) mod 256 < 256" by simp
  ultimately show "unat (c_cc ?s' ! VTIME) = unat tmo div 100 \<longleftrightarrow> unat tmo < 25600"
    by (cases "unat tmo < 25600") (simp, linarith)
qed


section \<open>A serial line\<close>

text \<open>
  The far end of a line as a world: what has arrived, the chunks that are coming, what was sent.
  \<open>tcflush\<close> on the input drops what has arrived. The settings are accepted, the modem lines are on.
\<close>

definition line_tty :: "net tty" where
  "line_tty = \<lparr>tty_open = (\<lambda>port w. (Done 3, w)), tty_close = (\<lambda>s w. (Done (), w)),
     tty_write = (\<lambda>s bs w. (Done (length bs), w\<lparr>sent := sent w @ bs\<rparr>)),
     tty_read = (\<lambda>s n w. net_recv s n 0 w), tty_ready = net_ready,
     tty_flush = (\<lambda>s inp w. (Done (), if inp then w\<lparr>arrived := []\<rparr> else w)),
     tty_getattr = (\<lambda>s w. (Done \<lparr>c_iflag = 0, c_oflag = 0, c_cflag = 0, c_lflag = 0, c_cc = replicate NCCS 0\<rparr>, w)),
     tty_setattr = (\<lambda>s st w. (Done (), w)), tty_modem = (\<lambda>s w. (Done COM_BITS_CTS, w))\<rparr>"

text \<open>The function pointers of a connection record, with those of the serial driver.\<close>

definition device_io :: "'w os \<Rightarrow> 'w tty \<Rightarrow> 'w io" where
  "device_io os t = \<lparr>
     dev_send = (\<lambda>f. if f = F_com_send then com_send t else dev_send (driver_io os) f),
     dev_recv = (\<lambda>f. if f = F_com_recv then com_recv t else dev_recv (driver_io os) f)\<rparr>"

definition com_device :: "i32 \<Rightarrow> u32 \<Rightarrow> conn_param_common" where
  "com_device sck tmo = \<lparr>sock = sck, conn_type = CONN_COM, timeout = tmo, arg = None,
     dn_open = Some F_com_open, dn_close = Some F_com_close, dn_send = Some F_com_send,
     dn_recv = Some F_com_recv, dn_set_timeout = Some F_com_set_timeout, dn_clear = Some F_com_clear\<rparr>"

lemma com_recv_line:
  assumes "segments_ok w" and "stream w \<noteq> []" and "0 < sint sck" and "n \<noteq> 0"
  shows "\<exists>k w'. 0 < k \<and> k \<le> unat n \<and> k \<le> length (stream w) \<and>
    com_recv line_tty sck n tmo a w =
      (RecvOut S_OK (Some (of_nat k)) (take k (stream w)) \<lparr>s_addr = 0, sin_port = 0\<rparr>, w') \<and>
    segments_ok w' \<and> stream w' = drop k (stream w) \<and> sent w' = sent w"
proof -
  obtain w1 where w1: "net_ready sck tmo w = (S_OK, w1)" "segments_ok w1" "stream w1 = stream w" "sent w1 = sent w"
    "arrived w1 \<noteq> []"
    using assms(1,2) by (cases "coming w") (auto simp: net_ready_def segments_ok_def stream_def)
  let ?k = "min (unat n) (length (arrived w1))" and ?w' = "w1\<lparr>arrived := drop (unat n) (arrived w1)\<rparr>"
  have "length (arrived w1) \<le> length (stream w)" unfolding w1(3) [symmetric] by (simp add: stream_def)
  then have k: "0 < ?k" "?k \<le> unat n" "?k \<le> length (stream w)"
    using w1(5) assms(4) by (auto simp: unat_gt_0)
  have tk: "take (unat n) (arrived w1) = take ?k (stream w)"
    unfolding w1(3) [symmetric] by (simp add: stream_def min_def)
  have "com_recv line_tty sck n tmo a w =
      (RecvOut S_OK (Some (of_nat ?k)) (take ?k (stream w)) \<lparr>s_addr = 0, sin_port = 0\<rparr>, ?w')"
    using w1(1) assms(3) k(1,3) tk by (simp add: com_recv_def line_tty_def net_recv_def min.commute)
  moreover have "stream ?w' = drop ?k (stream w)"
    unfolding w1(3) [symmetric] by (simp add: stream_def min_def)
  ultimately show ?thesis
    using k w1 by (intro exI [of _ ?k] exI [of _ ?w']) (simp add: segments_ok_def)
qed

text \<open>The examples: port 1 with one rate given, a quiet line.\<close>

definition sample_com :: "u32 \<Rightarrow> conn_param_com" where
  "sample_com rate = \<lparr>com_port = 1, baud_rate = rate, parity = 0, data_bits = 8, stop_bits = 0, flow = 0\<rparr>"

definition quiet :: net where
  "quiet = \<lparr>arrived = [], coming = [], sent = []\<rparr>"

lemma quiet_clear [simp]: "quiet\<lparr>arrived := []\<rparr> = quiet"
  by (simp add: quiet_def)

lemma sample_parsed:
  "parse_conn_param_serial mem_ok (\<lambda>s. 10) (Some ''com:1:9600'') (sample_com 38400) = (S_OK, sample_com 9600)"
  by code_simp

lemma sample_opened: "com_open line_tty (Some (sample_com rate)) (Some 0) quiet = (S_OK, Some 3, quiet)"
  by (simp add: com_open_def line_tty_def com_clear_def com_set_state_def sys_code_def) (simp add: sample_com_def)

lemma com_open_mode_witness:
  "\<exists>fd st w1 w2. tty_open line_tty (com_port (sample_com 9600)) quiet = (Done fd, w1) \<and> Some 3 = Some fd \<and>
     tty_setattr line_tty fd st w2 = (Done (), quiet) \<and> mode_of st = mode_asked (sample_com 9600)"
  by (rule com_open_mode [OF sample_parsed _ sample_opened]) (simp add: sample_com_def com_param_ok_def)

lemma com_open_leaves_descriptor_witness:
  "com_open (line_tty\<lparr>tty_setattr := \<lambda>s st w. (Err 5, w)\<rparr>) (Some (sample_com 9600)) (Some 0) quiet =
     (OSERR2HRESULT 5, Some 3, quiet)"
  using com_open_leaves_descriptor [of "sample_com 9600" "line_tty\<lparr>tty_setattr := \<lambda>s st w. (Err 5, w)\<rparr>" quiet 3 quiet
      0 quiet 5 quiet 0]
  by (simp add: line_tty_def com_clear_def sys_code_def) (simp add: sample_com_def)

lemma com_set_timeout_tenths_witness:
  "\<exists>s'. com_set_timeout line_tty 3 25600 quiet =
      (case tty_setattr line_tty 3 s' quiet of (r, w2) \<Rightarrow> (sys_code r, w2)) \<and>
    c_cc s' ! VMIN = 0 \<and> (unat (c_cc s' ! VTIME) = unat (25600 :: u32) div 100 \<longleftrightarrow> unat (25600 :: u32) < 25600)"
  using com_set_timeout_tenths [of 3 line_tty quiet
      "\<lparr>c_iflag = 0, c_oflag = 0, c_cflag = 0, c_lflag = 0, c_cc = replicate NCCS 0\<rparr>" quiet 25600]
  by (simp add: line_tty_def)

end
