(* ===== verification/TpComm.thy ===== *)
theory TpComm
  imports Robotalk SerialPort Events BcapClient
begin

text \<open>
  Communication with the teaching pendant: \<open>bcap_core/src/TPComm/dn_tpcomm.c\<close>. This theory has the state of a
  connection, sending and receiving with their retries, the call functions, and the events of the
  receiving thread (\<open>receive_execute\<close>) and of the timer thread (\<open>timer_event\<close>).

  \<^item> A connection record and the world are passed along; the operations are the code between lock
    and unlock. \<open>None\<close> is again a result the C program does not define.
  \<^item> The bit fields of \<open>struct TP_FLAGS\<close> are fields of the record, the 3-bit state is an enumeration. In
    the C they share one byte. The operations of this theory write it under the mutex, where that makes no
    difference; \<open>TPComm_Close\<close> does not, and the theory of the threads has its reads and writes of the byte.
  \<^item> Memory that is not initialised is an argument: a packet on the stack, the modem bits.
\<close>

section \<open>The state\<close>

abbreviation (input) TP_CONN_MAX :: nat where "TP_CONN_MAX \<equiv> 1"
abbreviation (input) TP_RETRY_NAK :: u32 where "TP_RETRY_NAK \<equiv> 2"
abbreviation (input) TP_RETRY_TIMEOUT :: nat where "TP_RETRY_TIMEOUT \<equiv> 2"
abbreviation (input) TP_ID_CLIENT :: byte where "TP_ID_CLIENT \<equiv> 0x11"
abbreviation (input) TP_ID_SERVER :: byte where "TP_ID_SERVER \<equiv> 0x90"
abbreviation (input) TP_CMD_REQ_ID :: u16 where "TP_CMD_REQ_ID \<equiv> 0x0EF0"
abbreviation (input) TP_CMD_KEYINFO :: u16 where "TP_CMD_KEYINFO \<equiv> 0x0C20"
abbreviation (input) TP_CMD_TOUTCHINFO :: u16 where "TP_CMD_TOUTCHINFO \<equiv> 0x0C21"
abbreviation (input) TP_CMD_BEEP :: u16 where "TP_CMD_BEEP \<equiv> 0x0C28"
abbreviation (input) TP_CMD_LED_ON :: u16 where "TP_CMD_LED_ON \<equiv> 0x0C29"
abbreviation (input) TP_CMD_LED_OFF :: u16 where "TP_CMD_LED_OFF \<equiv> 0x0C2A"
abbreviation (input) TP_CMD_LED_FLASH :: u16 where "TP_CMD_LED_FLASH \<equiv> 0x0C2B"
abbreviation (input) TP_CMD_GET_KEYSTATE :: u16 where "TP_CMD_GET_KEYSTATE \<equiv> 0x0C2D"
abbreviation (input) TP_CMD_LCD :: u16 where "TP_CMD_LCD \<equiv> 0x0C49"
abbreviation (input) TP_CMD_MTP_DRAW :: u16 where "TP_CMD_MTP_DRAW \<equiv> 0x0C81"
abbreviation (input) TP_CMD_PING :: u16 where "TP_CMD_PING \<equiv> 0x0C2F"
abbreviation (input) TP_CMD_SPECIAL :: u16 where "TP_CMD_SPECIAL \<equiv> 0x0FFF"
abbreviation (input) TPERROR_TIMEOUT :: u32 where "TPERROR_TIMEOUT \<equiv> 10000"
abbreviation (input) TPLESS_INTERVAL :: u32 where "TPLESS_INTERVAL \<equiv> 10000"
abbreviation (input) PING_INTERVAL_CONNECT :: u32 where "PING_INTERVAL_CONNECT \<equiv> 300"
abbreviation (input) PING_INTERVAL_TPERROR :: u32 where "PING_INTERVAL_TPERROR \<equiv> 1000"
abbreviation (input) TP_INIT_WAIT_CLIENT :: u32 where "TP_INIT_WAIT_CLIENT \<equiv> 100"
abbreviation (input) TP_INIT_WAIT_SERVER :: u32 where "TP_INIT_WAIT_SERVER \<equiv> 3000"

datatype tp_state = TP_DISCONNECT | TP_CONNECT | TP_TPLESS | TP_TPERROR

fun tp_code :: "tp_state \<Rightarrow> i32" where
  "tp_code TP_DISCONNECT = 0"
| "tp_code TP_CONNECT = 1"
| "tp_code TP_TPLESS = 2"
| "tp_code TP_TPERROR = 3"

record conn_param_tp =
  tp_device :: conn_param_common
  tp_client :: bool
  tp_init :: bool
  tp_state :: tp_state
  tp_cts :: bool
  tp_timer_flag :: bool
  tp_recv_flag :: bool
  tp_from_id :: byte
  tp_to_id :: byte
  tp_timer_clock :: u32
  tp_ping_clock :: u32
  tp_init_clock :: u32
  tp_check_clock :: u32
  tp_timer_thread :: bool
  tp_recv_thread :: bool
  tp_last_packet :: rtk_packet

text \<open>A key event: a word of 64 bits, of which the fields of \<open>struct TP_KEY_INFO\<close> are parts.\<close>

type_synonym tp_key_info = u64

definition key_field :: "nat \<Rightarrow> nat \<Rightarrow> tp_key_info \<Rightarrow> nat" where
  "key_field pos width k = unat (take_bit width (drop_bit pos k))"

definition btn_stop :: "tp_key_info \<Rightarrow> nat" where "btn_stop = key_field 2 1"
definition dial_mode :: "tp_key_info \<Rightarrow> nat" where "dial_mode = key_field 3 3"
definition btn_motor :: "tp_key_info \<Rightarrow> nat" where "btn_motor = key_field 6 1"
definition btn_dir :: "tp_key_info \<Rightarrow> nat" where "btn_dir = key_field 10 4"
definition btn_ok :: "tp_key_info \<Rightarrow> nat" where "btn_ok = key_field 14 1"
definition btn_cancel :: "tp_key_info \<Rightarrow> nat" where "btn_cancel = key_field 15 1"
definition btn_func :: "tp_key_info \<Rightarrow> nat" where "btn_func = key_field 21 6"
definition dial_dir :: "tp_key_info \<Rightarrow> nat" where "dial_dir = key_field 31 2"
definition jog_minus :: "tp_key_info \<Rightarrow> nat" where "jog_minus = key_field 41 6"
definition jog_plus :: "tp_key_info \<Rightarrow> nat" where "jog_plus = key_field 51 6"

record tp_touch_info =
  touch_mode :: byte
  pos_x :: u16
  pos_y :: u16

record 'w call_func_tp =
  Call_TPState :: "(i32 \<Rightarrow> 'w \<Rightarrow> hresult \<times> 'w) option"
  Call_TPKeyInfo :: "(tp_key_info \<Rightarrow> 'w \<Rightarrow> hresult \<times> 'w) option"
  Call_TPTouchInfo :: "(tp_touch_info \<Rightarrow> 'w \<Rightarrow> hresult \<times> 'w) option"

record 'w tp_env =
  te_io :: "'w io"
  te_tty :: "'w tty"
  te_clear :: "dn_func \<Rightarrow> i32 \<Rightarrow> u32 \<Rightarrow> 'w \<Rightarrow> hresult \<times> 'w"
  te_lock :: "nat \<Rightarrow> 'w \<Rightarrow> hresult \<times> 'w"
  te_unlock :: "nat \<Rightarrow> 'w \<Rightarrow> 'w"
  te_clock :: "'w \<Rightarrow> u32 \<times> 'w"
  te_mok :: "nat \<Rightarrow> bool"
  te_fresh :: "byte list"
  te_packet :: rtk_packet
  te_modem :: u32
  te_addr :: sockaddr_in

section \<open>Call functions\<close>

definition tp_callfunc :: "'w tp_env \<Rightarrow> 'w call_func_tp \<Rightarrow> u16 \<Rightarrow> byte list \<Rightarrow> byte \<Rightarrow> 'w \<Rightarrow> (hresult \<times> 'w) option" where
  "tp_callfunc env func command data len_data w =
     (if command = TP_CMD_SPECIAL then
        (if len_data = 4 then
           (case Call_TPState func of
              None \<Rightarrow> Some (E_NOTIMPL, w)
            | Some f \<Rightarrow> map_option (\<lambda>b. f (le_word b) w) (load data 0 4))
         else Some (E_INVALIDARG, w))
      else if command = TP_CMD_REQ_ID then Some (S_OK, w)
      else if command = TP_CMD_KEYINFO then
        (if len_data = 8 then
           (if \<not> te_mok env 8 then Some (E_OUTOFMEMORY, w)
            else do {
              b \<leftarrow> load data 0 8;
              (case Call_TPKeyInfo func of
                 None \<Rightarrow> Some (E_NOTIMPL, w)
               | Some f \<Rightarrow> Some (f (le_word (memcpy_be LITTLE b)) w))
            })
         else Some (E_INVALIDARG, w))
      else if command = TP_CMD_TOUTCHINFO then
        (if len_data = 5 then
           (if \<not> te_mok env 6 then Some (E_OUTOFMEMORY, w)
            else do {
              m \<leftarrow> load data 0 1;
              x \<leftarrow> load data 1 2;
              y \<leftarrow> load data 3 2;
              (case Call_TPTouchInfo func of
                 None \<Rightarrow> Some (E_NOTIMPL, w)
               | Some f \<Rightarrow> Some (f \<lparr>touch_mode = hd m, pos_x = le_word (memcpy_be LITTLE x) * 8 + 4,
                                  pos_y = le_word (memcpy_be LITTLE y) * 8 + 4\<rparr> w))
            })
         else Some (E_INVALIDARG, w))
      else Some (E_NOTIMPL, w))"

section \<open>Sending and receiving\<close>

definition tp_send ::
  "'w tp_env \<Rightarrow> u16 \<Rightarrow> byte list option \<Rightarrow> byte \<Rightarrow> conn_param_tp \<Rightarrow> 'w \<Rightarrow> (hresult \<times> conn_param_tp \<times> 'w) option" where
  "tp_send env command data len_data c w = do {
     (hr, packet) \<leftarrow> rtk_param2packet command data len_data (tp_from_id c) (tp_to_id c) (Some (te_packet env));
     if FAILED hr then Some (hr, c, w)
     else do {
       (hr1, packet1, w1) \<leftarrow> rtk_send (te_io env) (Some (tp_device c)) packet w;
       if FAILED hr1 then Some (hr1, c, w1)
       else do {
         p \<leftarrow> packet1;
         let (now, w2) = te_clock env w1;
         Some (hr1, c\<lparr>tp_last_packet := p, tp_ping_clock := now\<rparr>, w2)
       }
     }
   }"

text \<open>
  The modem lines of a serial connection before each attempt: \<open>Inl\<close> ends the loop. A failing read
  leaves the bits of the attempt before, or what the stack held.
\<close>

definition check_cts :: "'w tp_env \<Rightarrow> u32 \<Rightarrow> conn_param_tp \<Rightarrow> 'w \<Rightarrow> (hresult + u32) \<times> conn_param_tp \<times> 'w" where
  "check_cts env bits c w =
     (if conn_type (tp_device c) = CONN_COM then
        (let (_, st, w1) = com_get_modem_state (te_tty env) (sock (tp_device c)) (Some bits) w; b = the st in
         if b AND COM_BITS_CTS \<noteq> 0 then
           (let w2 = (if tp_cts c then w1
                      else snd (te_clear env (the (dn_clear (tp_device c))) (sock (tp_device c)) (timeout (tp_device c)) w1))
            in (Inr b, c\<lparr>tp_cts := True\<rparr>, w2))
         else (Inl E_ACCESSDENIED, c\<lparr>tp_cts := False\<rparr>, w1))
      else (Inr bits, c, w))"

text \<open>What a receive stored: command, length and data.\<close>

type_synonym tp_msg = "u16 \<times> byte \<times> byte list"

text \<open>The attempts: \<open>k\<close> more may follow. \<open>p\<close> is the packet on the stack.\<close>

fun tp_recv_loop ::
  "'w tp_env \<Rightarrow> u32 \<Rightarrow> nat \<Rightarrow> u32 \<Rightarrow> rtk_packet \<Rightarrow> conn_param_tp \<Rightarrow> 'w \<Rightarrow>
   (hresult \<times> tp_msg option \<times> conn_param_tp \<times> 'w) option" where
  "tp_recv_loop env rn k bits p c w =
     (case check_cts env bits c w of
        (Inl e, c1, w1) \<Rightarrow> Some (e, None, c1, w1)
      | (Inr bits1, c1, w1) \<Rightarrow> do {
          (hr, p1, d1, w2) \<leftarrow> rtk_recv (te_io env) (te_mok env) (te_fresh env) (te_addr env) (Some (tp_device c1)) (Some p)
                               (tp_client c1) rn w1;
          p1 \<leftarrow> p1;
          d1 \<leftarrow> d1;
          let c2 = c1\<lparr>tp_device := d1\<rparr>;
          if FAILED hr then Some (hr, None, c2, w2)
          else if NativeCommand (p_command p1) = RTK_CMD_NAK then do {
            (hr1, last, w3) \<leftarrow> rtk_send (te_io env) (Some (tp_device c2)) (Some (tp_last_packet c2)) w2;
            last \<leftarrow> last;
            let c3 = c2\<lparr>tp_last_packet := last\<rparr>;
            if FAILED hr1 then Some (hr1, None, c3, w3)
            else (case k of
                0 \<Rightarrow> Some (E_INVALIDPACKET, None, c3, w3)
              | Suc k' \<Rightarrow> tp_recv_loop env rn k' bits1 p1 c3 w3)
          }
          else do {
            data \<leftarrow> load p1 6 (unat (p_len p1));
            Some (hr, Some (p_command p1, p_len p1, data), c2\<lparr>tp_to_id := p_from p1\<rparr>, w2)
          }
        })"

declare tp_recv_loop.simps [simp del]

definition tp_recv :: "'w tp_env \<Rightarrow> u32 \<Rightarrow> conn_param_tp \<Rightarrow> 'w \<Rightarrow> (hresult \<times> tp_msg option \<times> conn_param_tp \<times> 'w) option" where
  "tp_recv env rn c w = tp_recv_loop env rn (unat rn) (te_modem env) (te_packet env) c w"

section \<open>The state of the connection\<close>

text \<open>
  The call of the state function with the code of a state; its code, if it is called, is the
  result of the event.
\<close>

definition tp_notify :: "'w tp_env \<Rightarrow> 'w call_func_tp \<Rightarrow> tp_state \<Rightarrow> 'w \<Rightarrow> (hresult \<times> 'w) option" where
  "tp_notify env func s w = tp_callfunc env func TP_CMD_SPECIAL (le_bytes 4 (tp_code s)) 4 w"

text \<open>The switch over the state and what the receive showed (\<open>tmp\<close>).\<close>

definition tp_update ::
  "'w tp_env \<Rightarrow> 'w call_func_tp \<Rightarrow> tp_state \<Rightarrow> hresult \<Rightarrow> conn_param_tp \<Rightarrow> 'w \<Rightarrow> (hresult \<times> conn_param_tp \<times> 'w) option" where
  "tp_update env func tmp hr c w =
     (let (cur, w1) = te_clock env w;
          diff = calc_time_diff (tp_check_clock c) cur;
          set = c\<lparr>tp_state := tmp, tp_check_clock := cur\<rparr>;
          note = (\<lambda>s. map_option (\<lambda>(hr', w'). (hr', set, w')) (tp_notify env func s w1)) in
      case tp_state c of
        TP_CONNECT \<Rightarrow>
          (case tmp of
             TP_CONNECT \<Rightarrow> Some (hr, set, w1)
           | TP_TPLESS \<Rightarrow> note TP_DISCONNECT
           | TP_TPERROR \<Rightarrow> if TPERROR_TIMEOUT < diff then note TP_DISCONNECT else Some (hr, c, w1)
           | TP_DISCONNECT \<Rightarrow> Some (hr, c, w1))
      | TP_DISCONNECT \<Rightarrow> Some (hr, c, w1)
      | _ \<Rightarrow>
          (case tmp of
             TP_CONNECT \<Rightarrow> note TP_CONNECT
           | TP_DISCONNECT \<Rightarrow> Some (hr, c, w1)
           | _ \<Rightarrow> if TPLESS_INTERVAL < diff then note tmp else Some (hr, c, w1)))"

text \<open>
  A received command is executed and answered, unless it is an answer itself. The result is the
  code, the new temporary state, and whether the event goes on to the update of the state.
\<close>

definition tp_execute ::
  "'w tp_env \<Rightarrow> 'w call_func_tp \<Rightarrow> tp_msg \<Rightarrow> hresult \<Rightarrow> tp_state \<Rightarrow> conn_param_tp \<Rightarrow> 'w \<Rightarrow>
   (bool \<times> hresult \<times> tp_state \<times> conn_param_tp \<times> 'w) option" where
  "tp_execute env func msg hr tmp c w =
     (case msg of (cmd, len, data) \<Rightarrow>
        let native = NativeCommand cmd in do {
          (hr1, c1, w1) \<leftarrow>
            (if native \<in> {RTK_CMD_REJ, RTK_CMD_ACK, RTK_CMD_NAK} then Some (hr, c, w)
             else do {
               (hr', w') \<leftarrow> tp_callfunc env func native data len w;
               tp_send env (if SUCCEEDED hr' then RTK_CMD_ACK else RTK_CMD_REJ) (Some []) 0 c w'
             });
          if FAILED hr1 \<and> native \<notin> {RTK_CMD_REJ, RTK_CMD_ACK, RTK_CMD_NAK} then Some (False, hr1, tmp, c1, w1)
          else if tmp \<noteq> TP_CONNECT then
            (if native = TP_CMD_REQ_ID then do {
               (hr2, c2, w2) \<leftarrow> tp_send env TP_CMD_PING None 0 c1 w1;
               Some (True, hr2, tmp, c2, w2)
             }
             else Some (True, hr1, TP_CONNECT, c1, w1))
          else Some (True, hr1, tmp, c1, w1)
        })"

definition receive_execute ::
  "'w tp_env \<Rightarrow> 'w call_func_tp \<Rightarrow> nat \<Rightarrow> conn_param_tp \<Rightarrow> 'w \<Rightarrow> (hresult \<times> conn_param_tp \<times> 'w) option" where
  "receive_execute env func i c w =
     (case te_lock env i w of (hr0, w0) \<Rightarrow>
        if FAILED hr0 then Some (hr0, c, w0)
        else do {
          (hr, msg, c1, w1) \<leftarrow> tp_recv env TP_RETRY_NAK c w0;
          (on, hr2, tmp, c2, w2) \<leftarrow>
            (if FAILED hr then Some (True, hr, if hr = E_ACCESSDENIED then TP_TPLESS else TP_TPERROR, c1, w1)
             else do { m \<leftarrow> msg; tp_execute env func m hr (tp_state c) c1 w1 });
          (hr3, c3, w3) \<leftarrow> (if on then tp_update env func tmp hr2 c2 w2 else Some (hr2, c2, w2));
          Some (hr3, c3, te_unlock env i w3)
        })"

section \<open>The timer\<close>

text \<open>A packet that is sent for the state: its success makes the timer wait for the receiver (\<open>S_FALSE\<close>).\<close>

definition tp_ping :: "'w tp_env \<Rightarrow> u16 \<Rightarrow> conn_param_tp \<Rightarrow> 'w \<Rightarrow> (hresult \<times> conn_param_tp \<times> 'w) option" where
  "tp_ping env command c w =
     map_option (\<lambda>(hr, c', w'). (if SUCCEEDED hr then S_FALSE else hr, c', w')) (tp_send env command None 0 c w)"

definition timer_event ::
  "'w tp_env \<Rightarrow> nat \<Rightarrow> conn_param_tp \<Rightarrow> 'w \<Rightarrow> (hresult \<times> conn_param_tp \<times> 'w) option" where
  "timer_event env i c w =
     (case te_lock env i w of (hr0, w0) \<Rightarrow>
        if FAILED hr0 then Some (hr0, c, w0)
        else
          let (cur, w1) = te_clock env w0 in
          map_option (\<lambda>(hr, c', w'). (hr, c', te_unlock env i w'))
           (if tp_client c then
              (let c1 = c\<lparr>tp_init := True\<rparr> in
               if TP_INIT_WAIT_CLIENT < calc_time_diff (tp_init_clock c1) cur \<and> tp_state c1 \<noteq> TP_CONNECT
               then map_option (\<lambda>(hr, c', w'). (hr, c'\<lparr>tp_init_clock := cur\<rparr>, w')) (tp_ping env TP_CMD_REQ_ID c1 w1)
               else Some (hr0, c1, w1))
            else if \<not> tp_init c then
              (if TP_INIT_WAIT_SERVER < calc_time_diff (tp_init_clock c) cur \<or> tp_state c = TP_CONNECT
               then map_option (\<lambda>(hr, c', w'). (hr, c'\<lparr>tp_init := True\<rparr>, w'))
                 (if tp_state c \<noteq> TP_CONNECT then tp_send env TP_CMD_GET_KEYSTATE None 0 c w1 else Some (hr0, c, w1))
               else Some (hr0, c, w1))
            else
              (let diff = calc_time_diff (tp_ping_clock c) cur in
               case tp_state c of
                 TP_CONNECT \<Rightarrow> if PING_INTERVAL_CONNECT < diff then tp_ping env TP_CMD_PING c w1 else Some (hr0, c, w1)
               | TP_TPERROR \<Rightarrow> if PING_INTERVAL_TPERROR < diff then tp_ping env TP_CMD_PING c w1 else Some (hr0, c, w1)
               | _ \<Rightarrow> Some (hr0, c, w1))))"

end
