(* ===== verification/ChangeVar.thy ===== *)
theory ChangeVar
  imports VariantConvert
begin

text \<open>
  \<open>ChangeVarType\<close> of \<open>bcap_core/src/dn_common.c\<close>: the values of a variant, or of the elements of an
  array, converted to a type and stored one behind the other through an untyped pointer.

  The destination is the object the pointer points to: bytes, or an array of \<open>BSTR\<close> or of
  \<open>VARIANT\<close>; a store outside it, or where its type may not start, has no defined result. The
  code advances the pointer by the size of an element of the \<^emph>\<open>source\<close>.
\<close>

datatype dest = DestBytes "byte list" | DestBstrs "bstr option list" | DestVariants "variant list"

section \<open>Stores through the pointer\<close>

definition put_bytes :: "nat \<Rightarrow> nat \<Rightarrow> u64 \<Rightarrow> dest \<Rightarrow> dest option" where
  "put_bytes n pos w d =
     (case d of
        DestBytes m \<Rightarrow> if pos mod n = 0 then map_option DestBytes (store m pos (le_bytes n w)) else None
      | _ \<Rightarrow> None)"

definition store_bstr :: "nat \<Rightarrow> bstr option \<Rightarrow> dest \<Rightarrow> dest option" where
  "store_bstr pos b d =
     (case d of
        DestBstrs bs \<Rightarrow> if pos mod 8 = 0 \<and> pos div 8 < length bs then Some (DestBstrs (bs[pos div 8 := b])) else None
      | _ \<Rightarrow> None)"

text \<open>\<open>VariantCopy((VARIANT * ) p, src)\<close>.\<close>

definition put_variant :: "(nat \<Rightarrow> bool) \<Rightarrow> nat \<Rightarrow> variant \<Rightarrow> dest \<Rightarrow> (hresult \<times> dest) option" where
  "put_variant mok pos v d =
     (case d of
        DestVariants vs \<Rightarrow>
          if pos mod 16 = 0 \<and> pos div 16 < length vs
          then map_option (\<lambda>(hr, v'). (hr, DestVariants (vs[pos div 16 := v']))) (VariantCopy_to mok v (vs ! (pos div 16)))
          else None
      | _ \<Rightarrow> None)"

section \<open>The code\<close>

definition bits_of :: "variant \<Rightarrow> u64" where
  "bits_of v = (case val v of Bits w \<Rightarrow> w | _ \<Rightarrow> 0)"

text \<open>The switch over the type of the destination.\<close>

definition store_value :: "(nat \<Rightarrow> bool) \<Rightarrow> u16 \<Rightarrow> nat \<Rightarrow> variant \<Rightarrow> dest \<Rightarrow> (u32 \<times> dest) option" where
  "store_value mok t pos v d =
     (if t = VT_BSTR then
        (case bstr_ptr (val v) of
           None \<Rightarrow> None
         | Some b \<Rightarrow> (case SysAllocString mok b of
             None \<Rightarrow> None
           | Some b' \<Rightarrow> map_option (Pair 1) (store_bstr pos b' d)))
      else if t = VT_BOOL then
        map_option (Pair 1) (put_bytes 2 pos (if ucast (bits_of v) = (0 :: u16) then 0 else 0xFFFF) d)
      else if t = VT_VARIANT then map_option (\<lambda>(_, d'). (1, d')) (put_variant mok pos v d)
      else if copyable t then
        (case sa_elem_size t of None \<Rightarrow> None | Some n \<Rightarrow> map_option (Pair 1) (put_bytes n pos (bits_of v) d))
      else Some (0, d))"

text \<open>A variant that is no array: the number of values stored, zero or one.\<close>

definition change_scalar :: "(nat \<Rightarrow> bool) \<Rightarrow> variant \<Rightarrow> u16 \<Rightarrow> nat \<Rightarrow> dest \<Rightarrow> (u32 \<times> dest) option" where
  "change_scalar mok src t pos d =
     (case VariantCopy_to mok src zero_variant of
        None \<Rightarrow> None
      | Some (_, tmp) \<Rightarrow>
          (case (if t \<noteq> VT_VARIANT then VariantChangeType mok True tmp tmp t else Some (S_OK, tmp)) of
             None \<Rightarrow> None
           | Some (hr, tmp') \<Rightarrow>
               (case (if FAILED hr then Some (0, d) else store_value mok t pos tmp' d) of
                  None \<Rightarrow> None
                | Some r \<Rightarrow> map_option (\<lambda>_. r) (VariantClear tmp'))))"

text \<open>Element \<open>i\<close> of an array of the type \<open>et\<close>, copied into a cleared variant.\<close>

definition source_elem :: "(nat \<Rightarrow> bool) \<Rightarrow> u16 \<Rightarrow> safearray \<Rightarrow> nat \<Rightarrow> (hresult \<times> variant) option" where
  "source_elem mok et a i =
     (if copyable et then
        (case (pvData a, sa_elem_size et) of
           (Some (Bytes bs), Some n) \<Rightarrow> map_option (\<lambda>b. (S_OK, Variant et (Bits (le_word b)))) (load bs (i * n) n)
         | _ \<Rightarrow> None)
      else if et = VT_BSTR then
        (case pvData a of
           Some (Bstrs ss) \<Rightarrow>
             if i < length ss
             then map_option (\<lambda>b. (S_OK, Variant VT_BSTR (case b of None \<Rightarrow> NULLP | Some s \<Rightarrow> BstrP s))) (SysAllocString mok (ss ! i))
             else None
         | _ \<Rightarrow> None)
      else if et = VT_VARIANT then
        (case pvData a of
           Some (Variants vs) \<Rightarrow>
             if i < length vs then map_option (\<lambda>(_, v). (S_OK, v)) (VariantCopy_to mok (vs ! i) zero_variant) else None
         | _ \<Rightarrow> None)
      else Some (E_INVALIDARG, zero_variant))"

text \<open>One element stored at \<open>pos\<close>: a count of zero ends the loop.\<close>

definition store_elem :: "(nat \<Rightarrow> bool) \<Rightarrow> u16 \<Rightarrow> nat \<Rightarrow> variant \<Rightarrow> dest \<Rightarrow> (u32 \<times> dest) option" where
  "store_elem mok t pos tmp d =
     (if t \<noteq> VT_VARIANT then (if is_array (vt tmp) then Some (0, d) else change_scalar mok tmp t pos d)
      else map_option (\<lambda>(hr, d'). (if FAILED hr then 0 else 1, d')) (put_variant mok pos tmp d))"

text \<open>The loop over the elements, \<open>k\<close> of which are left: \<open>pPos\<close> is \<open>i\<close> times \<open>cbElements\<close>.\<close>

fun change_elems :: "(nat \<Rightarrow> bool) \<Rightarrow> u16 \<Rightarrow> safearray \<Rightarrow> u16 \<Rightarrow> u32 \<Rightarrow> nat \<Rightarrow> nat \<Rightarrow> u32 \<Rightarrow> dest \<Rightarrow> (u32 \<times> dest) option" where
  "change_elems mok et a t n 0 i cnt d = Some (cnt, d)"
| "change_elems mok et a t n (Suc k) i cnt d =
     (case source_elem mok et a i of
        None \<Rightarrow> None
      | Some (hr, tmp) \<Rightarrow>
          if FAILED hr then Some (cnt, d)
          else (case store_elem mok t (i * unat (cbElements a)) tmp d of
              None \<Rightarrow> None
            | Some (r, d') \<Rightarrow> (case VariantClear tmp of
                None \<Rightarrow> None
              | Some _ \<Rightarrow>
                  if r = 0 then Some (cnt, d')
                  else if n \<le> cnt + r then Some (cnt + r, d')
                  else change_elems mok et a t n k (Suc i) (cnt + r) d')))"

definition ChangeVarType :: "(nat \<Rightarrow> bool) \<Rightarrow> variant \<Rightarrow> u16 \<Rightarrow> dest option \<Rightarrow> u32 \<Rightarrow> (u32 \<times> dest option) option" where
  "ChangeVarType mok src t dst n =
     (case dst of
        None \<Rightarrow> Some (0, None)
      | Some d \<Rightarrow>
          if n = 0 then Some (0, dst)
          else map_option (\<lambda>(c, d'). (c, Some d'))
            (if is_array (vt src) then
               (case val src of
                  ArrayP a \<Rightarrow> change_elems mok (vt src XOR VT_ARRAY) a t n (nat (sint (cElements a))) 0 0 d
                | _ \<Rightarrow> None)
             else change_scalar mok src t 0 d))"

section \<open>Arrays of variants\<close>

lemma VariantClear_zero [simp]: "VariantClear zero_variant = Some zero_variant"
  by (simp add: VariantClear.simps VariantClear_body_def is_array_def)

lemma put_variant_elem:
  assumes "wf_variant v" and "i < length ds" and "VariantClear (ds ! i) \<noteq> None"
  shows "put_variant mem_ok (i * 16) v (DestVariants ds) = Some (S_OK, DestVariants (ds[i := v]))"
  using assms by (simp add: put_variant_def wf_VariantCopy)

lemma change_elems_variants:
  assumes "list_all wf_variant vs" and "list_all (\<lambda>d. VariantClear d \<noteq> None) ds"
    and "k = length vs - i" and "i \<le> length vs" and "i < unat n" and "min (length vs) (unat n) \<le> length ds"
  shows "change_elems mem_ok VT_VARIANT (SafeArray 1 VT_VARIANT 16 (Some (Variants vs)) c lb) VT_VARIANT n k i (of_nat i) (DestVariants ds) =
    (let m = min (length vs) (unat n) in Some (of_nat m, DestVariants (take i ds @ drop i (take m vs) @ drop m ds)))"
  using assms
proof (induction k arbitrary: i ds)
  case 0
  then show ?case by (simp add: min_def)
next
  case (Suc k)
  then have i: "i < length vs" "i < length ds" by simp_all
  have wf: "wf_variant (vs ! i)" using Suc.prems(1) i by (simp add: list_all_length)
  have src: "source_elem mem_ok VT_VARIANT (SafeArray 1 VT_VARIANT 16 (Some (Variants vs)) c lb) i = Some (S_OK, vs ! i)"
    using i wf by (simp add: source_elem_def copyable_def wf_VariantCopy)
  have st: "store_elem mem_ok VT_VARIANT (i * 16) (vs ! i) (DestVariants ds) = Some (1, DestVariants (ds[i := vs ! i]))"
    using Suc.prems(2) i wf by (simp add: store_elem_def put_variant_elem list_all_length)
  have cnt: "unat (of_nat i + 1 :: u32) = Suc i"
  proof -
    have "Suc i \<le> unat n" using Suc.prems(5) by simp
    also have "unat n < 4294967296" by (rule order_less_le_trans [OF unsigned_less]) simp
    finally show ?thesis by (simp add: unat_word_ariths unat_of_nat)
  qed
  have step: "change_elems mem_ok VT_VARIANT (SafeArray 1 VT_VARIANT 16 (Some (Variants vs)) c lb) VT_VARIANT n (Suc k) i (of_nat i) (DestVariants ds) =
    (if unat n \<le> Suc i then Some (of_nat (Suc i), DestVariants (ds[i := vs ! i]))
     else change_elems mem_ok VT_VARIANT (SafeArray 1 VT_VARIANT 16 (Some (Variants vs)) c lb) VT_VARIANT n k (Suc i) (of_nat (Suc i))
            (DestVariants (ds[i := vs ! i])))"
  proof -
    have "unat (16 :: u32) = 16" by simp
    then show ?thesis
      unfolding change_elems.simps safearray.sel
      using src st wf_VariantClear(1) [OF wf] cnt by (simp only: option.case prod.case FAILED_0 if_False word_le_nat_alt) (simp add: add.commute)
  qed
  show ?case
  proof (cases "unat n \<le> Suc i")
    case True
    then have "min (length vs) (unat n) = Suc i" using Suc.prems(5) i by simp
    moreover have "ds[i := vs ! i] = take i ds @ drop i (take (Suc i) vs) @ drop (Suc i) ds"
      using i by (simp add: upd_conv_take_nth_drop take_Suc_conv_app_nth)
    ultimately show ?thesis using True unfolding step by simp
  next
    case False
    have "list_all (\<lambda>d. VariantClear d \<noteq> None) (ds[i := vs ! i])"
      using Suc.prems(2) wf_VariantClear(1) [OF wf] i by (simp add: list_all_length nth_list_update)
    then have ih: "change_elems mem_ok VT_VARIANT (SafeArray 1 VT_VARIANT 16 (Some (Variants vs)) c lb) VT_VARIANT n k (Suc i)
        (of_nat (Suc i)) (DestVariants (ds[i := vs ! i])) =
      (let m = min (length vs) (unat n) in
       Some (of_nat m, DestVariants (take (Suc i) (ds[i := vs ! i]) @ drop (Suc i) (take m vs) @ drop m (ds[i := vs ! i]))))"
      using Suc.prems i False by (intro Suc.IH) simp_all
    have "take (Suc i) (ds[i := vs ! i]) = take i ds @ [vs ! i]"
      using i by (simp add: take_Suc_conv_app_nth)
    moreover have "vs ! i # drop (Suc i) (take (min (length vs) (unat n)) vs) = drop i (take (min (length vs) (unat n)) vs)"
      using i Suc.prems(5) by (subst (2) Cons_nth_drop_Suc [symmetric]) simp_all
    then have "vs ! i # drop (Suc i) (take (min (length vs) (unat n)) vs) @ zs = drop i (take (min (length vs) (unat n)) vs) @ zs" for zs
      by (metis append_Cons)
    ultimately show ?thesis
      unfolding step using False ih i Suc.prems(5) by (simp add: Let_def del: take_update_cancel)
  qed
qed


lemma sint_small: "unat (c :: u32) < 2 ^ 31 \<Longrightarrow> nat (sint c) = unat c"
proof -
  assume c: "unat c < 2 ^ 31"
  have u: "uint c = int (unat c)" by simp
  have "sint c = int (unat c)" using c unfolding sint_uint u by (simp add: signed_take_bit_int_eq_self del: of_nat_unat)
  then show ?thesis by simp
qed

text \<open>The values of the types \<open>VT_VARIANT | VT_ARRAY\<close> and \<open>VT_UI1 | VT_ARRAY\<close>.\<close>

abbreviation (input) variant_array :: "variant list \<Rightarrow> u32 \<Rightarrow> i32 \<Rightarrow> variant" where
  "variant_array vs c lb \<equiv> Variant 0x200C (ArrayP (SafeArray 1 VT_VARIANT 16 (Some (Variants vs)) c lb))"

abbreviation (input) byte_array :: "byte list \<Rightarrow> u32 \<Rightarrow> i32 \<Rightarrow> variant" where
  "byte_array bs c lb \<equiv> Variant 0x2011 (ArrayP (SafeArray 1 VT_UI1 1 (Some (Bytes bs)) c lb))"

lemma wf_variant_array:
  "c \<noteq> 0 \<Longrightarrow> wf_variant (variant_array vs c lb) \<longleftrightarrow> wf_variants vs \<and> length vs = unat c \<and> unat c * 16 < 2 ^ 31"
  by (auto simp: wf_variant.simps wf_body_def is_array_def wf_array_def sa_elem_size_def wf_data_def)

lemma wf_byte_array:
  "c \<noteq> 0 \<Longrightarrow> wf_variant (byte_array bs c lb) \<longleftrightarrow> length bs = unat c \<and> unat c < 2 ^ 31"
  by (auto simp: wf_variant.simps wf_body_def is_array_def wf_array_def sa_elem_size_def wf_data_def)

lemma change_variants:
  assumes "wf_variant (variant_array vs c lb)" and "c \<noteq> 0" and "wf_variants ds" and "n \<noteq> 0"
    and "min (length vs) (unat n) \<le> length ds"
  shows "ChangeVarType mem_ok (variant_array vs c lb) VT_VARIANT (Some (DestVariants ds)) n =
    Some (of_nat (min (length vs) (unat n)), Some (DestVariants (take (unat n) vs @ drop (min (length vs) (unat n)) ds)))"
proof -
  have vs: "wf_variants vs" "length vs = unat c" "unat c < 2 ^ 31"
    using assms(1,2) by (simp_all add: wf_variant_array)
  have cl: "list_all (\<lambda>d. VariantClear d \<noteq> None) ds"
    using assms(3) wf_VariantClear(1) by (auto simp: wf_variants_list_all list_all_iff)
  have n: "0 < unat n" using assms(4) by (simp add: unat_gt_0)
  have "change_elems mem_ok VT_VARIANT (SafeArray 1 VT_VARIANT 16 (Some (Variants vs)) c lb) VT_VARIANT n (length vs) 0 (of_nat 0) (DestVariants ds) =
    (let m = min (length vs) (unat n) in Some (of_nat m, DestVariants (take 0 ds @ drop 0 (take m vs) @ drop m ds)))"
    using vs(1) cl assms(5) n by (intro change_elems_variants) (simp_all add: wf_variants_list_all)
  then show ?thesis
    using assms(4) sint_small [OF vs(3)] vs(2) by (simp add: ChangeVarType_def is_array_def Let_def min_def)
qed

section \<open>Bytes\<close>

lemma byte_through_64 [simp]: "ucast (ucast b :: u64) = (b :: byte)"
  by (rule ucast_up_ucast_id) (simp add: is_up)

lemma change_scalar_byte:
  assumes "pos < length m"
  shows "change_scalar mem_ok (Variant VT_UI1 (Bits w)) VT_UI1 pos (DestBytes m) =
    Some (1, DestBytes (m[pos := ucast w]))"
proof -
  have wf: "wf_variant (Variant VT_UI1 (Bits w))"
    by (simp add: wf_variant.simps wf_body_def is_array_def scalar_type_def copyable_def)
  have "store m pos [ucast w] = Some (m[pos := ucast w])"
    using assms by (simp add: store_def upd_conv_take_nth_drop)
  then show ?thesis
    using wf_VariantCopy(1) [OF wf, of zero_variant] wf_VariantClear(1) [OF wf]
    by (simp add: change_scalar_def VariantChangeType_def store_value_def copyable_def sa_elem_size_def put_bytes_def bits_of_def)
qed

lemma change_elems_bytes:
  assumes "k = length bs - i" and "i \<le> length bs" and "i < unat n" and "min (length bs) (unat n) \<le> length m"
  shows "change_elems mem_ok VT_UI1 (SafeArray 1 VT_UI1 1 (Some (Bytes bs)) c lb) VT_UI1 n k i (of_nat i) (DestBytes m) =
    (let e = min (length bs) (unat n) in Some (of_nat e, DestBytes (take i m @ drop i (take e bs) @ drop e m)))"
  using assms
proof (induction k arbitrary: i m)
  case 0
  then show ?case by (simp add: min_def)
next
  case (Suc k)
  then have i: "i < length bs" "i < length m" by simp_all
  have "load bs i 1 = Some [bs ! i]"
    using i by (simp add: load_def take_Suc_conv_app_nth take_drop Cons_nth_drop_Suc [symmetric])
  then have src: "source_elem mem_ok VT_UI1 (SafeArray 1 VT_UI1 1 (Some (Bytes bs)) c lb) i = Some (S_OK, Variant VT_UI1 (Bits (ucast (bs ! i))))"
    by (simp add: source_elem_def copyable_def sa_elem_size_def)
  have st: "store_elem mem_ok VT_UI1 (i * 1) (Variant VT_UI1 (Bits (ucast (bs ! i)))) (DestBytes m) = Some (1, DestBytes (m[i := bs ! i]))"
    using i by (simp add: store_elem_def change_scalar_byte is_array_def)
  have cl: "VariantClear (Variant VT_UI1 (Bits w)) = Some zero_variant" for w
    by (simp add: VariantClear.simps VariantClear_body_def is_array_def)
  have cnt: "unat (of_nat i + 1 :: u32) = Suc i"
  proof -
    have "Suc i \<le> unat n" using Suc.prems(3) by simp
    also have "unat n < 4294967296" by (rule order_less_le_trans [OF unsigned_less]) simp
    finally show ?thesis by (simp add: unat_word_ariths unat_of_nat)
  qed
  have step: "change_elems mem_ok VT_UI1 (SafeArray 1 VT_UI1 1 (Some (Bytes bs)) c lb) VT_UI1 n (Suc k) i (of_nat i) (DestBytes m) =
    (if unat n \<le> Suc i then Some (of_nat (Suc i), DestBytes (m[i := bs ! i]))
     else change_elems mem_ok VT_UI1 (SafeArray 1 VT_UI1 1 (Some (Bytes bs)) c lb) VT_UI1 n k (Suc i) (of_nat (Suc i))
            (DestBytes (m[i := bs ! i])))"
    using src st cl cnt by (simp add: word_le_nat_alt add.commute)
  show ?case
  proof (cases "unat n \<le> Suc i")
    case True
    then have "min (length bs) (unat n) = Suc i" using Suc.prems(3) i by simp
    moreover have "m[i := bs ! i] = take i m @ drop i (take (Suc i) bs) @ drop (Suc i) m"
      using i by (simp add: upd_conv_take_nth_drop take_Suc_conv_app_nth)
    ultimately show ?thesis using True unfolding step by simp
  next
    case False
    have ih: "change_elems mem_ok VT_UI1 (SafeArray 1 VT_UI1 1 (Some (Bytes bs)) c lb) VT_UI1 n k (Suc i) (of_nat (Suc i)) (DestBytes (m[i := bs ! i])) =
      (let e = min (length bs) (unat n) in
       Some (of_nat e, DestBytes (take (Suc i) (m[i := bs ! i]) @ drop (Suc i) (take e bs) @ drop e (m[i := bs ! i]))))"
      using Suc.prems i False by (intro Suc.IH) simp_all
    have "take (Suc i) (m[i := bs ! i]) = take i m @ [bs ! i]"
      using i by (simp add: take_Suc_conv_app_nth)
    moreover have "bs ! i # drop (Suc i) (take (min (length bs) (unat n)) bs) = drop i (take (min (length bs) (unat n)) bs)"
      using i Suc.prems(3) by (subst (2) Cons_nth_drop_Suc [symmetric]) simp_all
    then have "bs ! i # drop (Suc i) (take (min (length bs) (unat n)) bs) @ zs = drop i (take (min (length bs) (unat n)) bs) @ zs" for zs
      by (metis append_Cons)
    ultimately show ?thesis
      unfolding step using False ih i Suc.prems(3) by (simp add: Let_def del: take_update_cancel)
  qed
qed

lemma change_bytes:
  assumes "wf_variant (byte_array bs c lb)" and "c \<noteq> 0" and "n \<noteq> 0" and "min (length bs) (unat n) \<le> length m"
  shows "ChangeVarType mem_ok (byte_array bs c lb) VT_UI1 (Some (DestBytes m)) n =
    Some (of_nat (min (length bs) (unat n)), Some (DestBytes (take (unat n) bs @ drop (min (length bs) (unat n)) m)))"
proof -
  have bs: "length bs = unat c" "unat c < 2 ^ 31" using assms(1,2) by (simp_all add: wf_byte_array)
  have n: "0 < unat n" using assms(3) by (simp add: unat_gt_0)
  have "change_elems mem_ok VT_UI1 (SafeArray 1 VT_UI1 1 (Some (Bytes bs)) c lb) VT_UI1 n (length bs) 0 (of_nat 0) (DestBytes m) =
    (let e = min (length bs) (unat n) in Some (of_nat e, DestBytes (take 0 m @ drop 0 (take e bs) @ drop e m)))"
    using assms(4) n by (intro change_elems_bytes) simp_all
  then show ?thesis
    using assms(3) sint_small [OF bs(2)] bs(1) by (simp add: ChangeVarType_def is_array_def Let_def min_def)
qed

section \<open>Properties\<close>

text \<open>
  C27: An array of variants is copied element by element into the caller's variants,
  as many as fit: the values are kept, the rest of the destination is untouched, and the
  destination is again an array of well-formed variants.
\<close>

theorem ChangeVarType_wf:
  assumes "wf_variant (variant_array vs c lb)" and "c \<noteq> 0" and "wf_variants ds" and "n \<noteq> 0"
    and "min (length vs) (unat n) \<le> length ds"
  shows "\<exists>ds'. ChangeVarType mem_ok (variant_array vs c lb) VT_VARIANT (Some (DestVariants ds)) n =
      Some (of_nat (min (length vs) (unat n)), Some (DestVariants ds')) \<and>
    wf_variants ds' \<and> length ds' = length ds \<and>
    ds' = take (unat n) vs @ drop (min (length vs) (unat n)) ds"
  using assms change_variants [OF assms]
  by (auto simp: wf_variant_array wf_variants_list_all list_all_iff min_def dest: in_set_takeD in_set_dropD)

text \<open>
  The pointer moves by the size of the source's elements: the second value of
  an array whose elements are smaller than a \<open>VARIANT\<close> goes into the middle of the first
  \<open>VARIANT\<close> of the destination, which no C object allows. Converting two or more bytes, integers
  or numbers to variants has no defined result.
\<close>

lemma ChangeVarType_stride:
  assumes "copyable et" and "sa_elem_size et = Some sz" and "2 * sz \<le> length bs" and "2 \<le> sint c" and "2 \<le> unat n"
    and "wf_variants ds"
  shows "ChangeVarType mem_ok (Variant (et OR VT_ARRAY) (ArrayP (SafeArray 1 et (of_nat sz) (Some (Bytes bs)) c lb)))
    VT_VARIANT (Some (DestVariants ds)) n = None"
proof -
  have et: "\<not> is_array et" and ar: "is_array (et OR VT_ARRAY)" and x: "(et OR VT_ARRAY) XOR VT_ARRAY = et"
    using assms(1) by (auto simp: copyable_def is_array_def)
  have sz: "0 < sz" "sz \<le> 8"
    using assms(1,2) by (auto simp: copyable_def sa_elem_size_def)
  then have cb: "unat (of_nat sz :: u32) = sz" by (simp add: unat_of_nat)
  let ?a = "SafeArray 1 et (of_nat sz) (Some (Bytes bs)) c lb"
  have src: "\<exists>w. source_elem mem_ok et ?a i = Some (S_OK, Variant et (Bits w))" if "i < 2" for i
  proof -
    have "i * sz + sz \<le> length bs" using that assms(3) by (cases i) auto
    then show ?thesis using assms(1,2) by (simp add: source_elem_def load_def)
  qed
  then obtain w0 w1 where w: "source_elem mem_ok et ?a 0 = Some (S_OK, Variant et (Bits w0))"
    "source_elem mem_ok et ?a 1 = Some (S_OK, Variant et (Bits w1))" by fastforce
  have wf: "wf_variant (Variant et (Bits v))" for v
    using assms(1) et by (auto simp: wf_variant.simps wf_body_def scalar_type_def copyable_def)
  obtain k where k: "nat (sint c) = Suc (Suc k)"
    using assms(4) by (intro that [of "nat (sint c) - 2"]) simp
  have n: "n \<noteq> 0" "\<not> n \<le> 1" using assms(5) by (auto simp: word_le_nat_alt)
  have bad: "put_variant mem_ok sz v (DestVariants xs) = None" for v xs
    using sz by (simp add: put_variant_def)
  show ?thesis
  proof (cases ds)
    case Nil
    then show ?thesis
      using n w(1) by (simp add: ChangeVarType_def ar x k store_elem_def put_variant_def)
  next
    case (Cons d rest)
    then have "VariantClear d \<noteq> None" using assms(6) wf_VariantClear(1) [of d] by simp
    then have "put_variant mem_ok 0 (Variant et (Bits w0)) (DestVariants ds) = Some (S_OK, DestVariants (ds[0 := Variant et (Bits w0)]))"
      using put_variant_elem [OF wf, of 0 ds w0] Cons by simp
    then show ?thesis
      using n w wf_VariantClear(1) [OF wf, of w0] by (simp add: ChangeVarType_def ar x k store_elem_def cb bad)
  qed
qed


text \<open>
  Converting variants to bytes moves the pointer by sixteen: the second byte lands behind a
  destination of up to sixteen bytes.
\<close>

lemma ChangeVarType_overrun:
  assumes "wf_variant (variant_array vs c lb)" and "c \<noteq> 0" and "vs = Variant VT_UI1 (Bits v) # Variant VT_UI1 (Bits w) # rest"
    and "2 \<le> unat n" and "0 < length m" and "length m \<le> 16"
  shows "ChangeVarType mem_ok (variant_array vs c lb) VT_UI1 (Some (DestBytes m)) n = None"
proof -
  let ?a = "SafeArray 1 VT_VARIANT 16 (Some (Variants vs)) c lb"
  have vs: "length vs = unat c" "unat c < 2 ^ 31" "wf_variants vs"
    using assms(1,2) by (simp_all add: wf_variant_array)
  obtain k where k: "nat (sint c) = Suc (Suc k)"
    using sint_small [OF vs(2)] vs(1) assms(3) by (intro that [of "length rest"]) simp
  have el: "wf_variant (Variant VT_UI1 (Bits x))" for x
    by (simp add: wf_variant.simps wf_body_def is_array_def scalar_type_def copyable_def)
  have src: "source_elem mem_ok VT_VARIANT ?a 0 = Some (S_OK, Variant VT_UI1 (Bits v))"
    "source_elem mem_ok VT_VARIANT ?a 1 = Some (S_OK, Variant VT_UI1 (Bits w))"
    using el by (simp_all add: source_elem_def copyable_def assms(3) wf_VariantCopy)
  have bad: "change_scalar mem_ok (Variant VT_UI1 (Bits w)) VT_UI1 16 (DestBytes m') = None" if "length m' \<le> 16" for m'
    using that wf_VariantCopy(1) [OF el, of zero_variant]
    by (simp add: change_scalar_def VariantChangeType_def store_value_def copyable_def sa_elem_size_def put_bytes_def bits_of_def store_def)
  have "n \<noteq> 0" "\<not> n \<le> 1" using assms(4) by (auto simp: word_le_nat_alt)
  then show ?thesis
    using src assms(5,6) wf_VariantClear(1) [OF el, of v] bad
    by (simp add: ChangeVarType_def is_array_def k store_elem_def change_scalar_byte)
qed

lemma ChangeVarType_wf_witness:
  "\<exists>ds'. ChangeVarType mem_ok (variant_array [Variant VT_UI1 (Bits 16), Variant VT_BSTR (BstrP [65, 0])] 2 0) VT_VARIANT
      (Some (DestVariants [zero_variant, zero_variant, zero_variant])) 3 =
      Some (of_nat (min (length [Variant VT_UI1 (Bits 16), Variant VT_BSTR (BstrP [65, 0])]) (unat (3 :: u32))), Some (DestVariants ds')) \<and>
    wf_variants ds' \<and> length ds' = length [zero_variant, zero_variant, zero_variant] \<and>
    ds' = take (unat (3 :: u32)) [Variant VT_UI1 (Bits 16), Variant VT_BSTR (BstrP [65, 0])] @
      drop (min (length [Variant VT_UI1 (Bits 16), Variant VT_BSTR (BstrP [65, 0])]) (unat (3 :: u32))) [zero_variant, zero_variant, zero_variant]"
  by (rule ChangeVarType_wf)
     (simp_all add: wf_variant_array, simp_all add: wf_variant.simps wf_body_def is_array_def scalar_type_def copyable_def wf_bstr_def)

end
