(* ===== verification/TpApi.thy ===== *)
theory TpApi
  imports TpComm ChangeVar
begin

text \<open>
  The interface of \<open>bcap_core/src/TPComm/dn_tpcomm.c\<close>: the table of connections and its handles, opening
  and closing, the settings, and the commands a caller sends to the pendant, among them the
  drawing commands, whose arguments are variants.

  The static array \<open>m_conn_param\<close> is a list of one record, a handle is an index plus one. What is
  outside is the record \<open>tp_api\<close>; \<open>ta_join_timer\<close> and \<open>ta_join_recv\<close> are \<open>exit_thread\<close>, the join of a thread
  that was begun.
\<close>

section \<open>The table\<close>

record 'w tp_api =
  ta_env :: "'w tp_env"
  ta_open :: "dn_func \<Rightarrow> open_param \<Rightarrow> 'w \<Rightarrow> hresult \<times> i32 \<times> 'w"
  ta_close :: "dn_func \<Rightarrow> i32 \<Rightarrow> 'w \<Rightarrow> 'w"
  ta_set_timeout :: "dn_func \<Rightarrow> i32 \<Rightarrow> u32 \<Rightarrow> 'w \<Rightarrow> hresult \<times> 'w"
  ta_init_mutex :: "nat \<Rightarrow> 'w \<Rightarrow> hresult \<times> 'w"
  ta_release_mutex :: "nat \<Rightarrow> 'w \<Rightarrow> 'w"
  ta_create_event :: "nat \<Rightarrow> 'w \<Rightarrow> hresult \<times> 'w"
  ta_destroy_event :: "nat \<Rightarrow> 'w \<Rightarrow> 'w"
  ta_begin_timer :: "nat \<Rightarrow> 'w \<Rightarrow> 'w"
  ta_begin_recv :: "nat \<Rightarrow> 'w \<Rightarrow> 'w"
  ta_join_timer :: "nat \<Rightarrow> 'w \<Rightarrow> 'w"
  ta_join_recv :: "nat \<Rightarrow> 'w \<Rightarrow> 'w"
  ta_inet_addr :: "string \<Rightarrow> u32"
  ta_atof10 :: "string \<Rightarrow> int"
  ta_wcstombs :: "wchar list \<Rightarrow> nat \<Rightarrow> byte list"

record 'w tp =
  tps :: "conn_param_tp list"
  tp_func :: "'w call_func_tp"
  tp_world :: 'w

definition zero_tp :: conn_param_tp where
  "zero_tp = \<lparr>tp_device = zero_device, tp_client = False, tp_init = False, tp_state = TP_DISCONNECT, tp_cts = False,
     tp_timer_flag = False, tp_recv_flag = False, tp_from_id = 0, tp_to_id = 0, tp_timer_clock = 0, tp_ping_clock = 0,
     tp_init_clock = 0, tp_check_clock = 0, tp_timer_thread = False, tp_recv_thread = False,
     tp_last_packet = replicate RTK_SIZE_PACKET 0\<rparr>"

fun tp_find_from :: "conn_param_tp list \<Rightarrow> nat \<Rightarrow> nat" where
  "tp_find_from [] i = 0"
| "tp_find_from (c # cs) i = (if sock (tp_device c) = 0 then Suc i else tp_find_from cs (Suc i))"

definition tp_find_open :: "conn_param_tp list \<Rightarrow> nat" where
  "tp_find_open cs = tp_find_from cs 0"

definition tp_check_address :: "conn_param_tp list \<Rightarrow> i32 \<Rightarrow> (nat \<times> conn_param_tp) option" where
  "tp_check_address cs index =
     (let i = sint index - 1 in
      if i < 0 \<or> int (length cs) \<le> i then None
      else let c = cs ! nat i in if sock (tp_device c) = 0 then None else Some (nat i, c))"

section \<open>Requests\<close>

text \<open>The attempts: \<open>k\<close> more may follow; each repetition marks the command and counts in its upper bits.\<close>

fun tp_try :: "'w tp_env \<Rightarrow> nat \<Rightarrow> u16 \<Rightarrow> byte list option \<Rightarrow> byte \<Rightarrow> conn_param_tp \<Rightarrow> 'w \<Rightarrow>
    (hresult \<times> conn_param_tp \<times> 'w) option" where
  "tp_try env k command data len c w = do {
     (hr, c1, w1) \<leftarrow> tp_send env command data len c w;
     if FAILED hr then Some (hr, c1, w1)
     else do {
       (hr1, msg, c2, w2) \<leftarrow> tp_recv env TP_RETRY_NAK c1 w1;
       if SUCCEEDED hr1 then do {
         (cmd, _, _) \<leftarrow> msg;
         Some (if NativeCommand cmd = RTK_CMD_REJ then E_FAIL else hr1, c2, w2)
       }
       else if hr1 \<noteq> E_TIMEOUT then Some (hr1, c2, w2)
       else (case k of
           0 \<Rightarrow> Some (hr1, c2, w2)
         | Suc k' \<Rightarrow> tp_try env k' ((command OR RTK_RETRY_FLAG) + RTK_RETRY_COUNT) data len c2 w2)
     }
   }"

declare tp_try.simps [simp del]

definition tp_send_receive :: "'w tp_api \<Rightarrow> i32 \<Rightarrow> nat \<Rightarrow> u16 \<Rightarrow> byte list option \<Rightarrow> byte \<Rightarrow> 'w tp \<Rightarrow> (hresult \<times> 'w tp) option" where
  "tp_send_receive api index rn command data len st =
     (case tp_check_address (tps st) index of
        None \<Rightarrow> Some (E_HANDLE, st)
      | Some (i, c) \<Rightarrow>
          if tp_state c = TP_TPLESS then Some (E_ACCESSDENIED, st)
          else (case te_lock (ta_env api) i (tp_world st) of (hr, w) \<Rightarrow>
            if FAILED hr then Some (hr, st\<lparr>tp_world := w\<rparr>)
            else map_option (\<lambda>(hr', c', w'). (hr', st\<lparr>tps := (tps st)[i := c'], tp_world := te_unlock (ta_env api) i w'\<rparr>))
              (tp_try (ta_env api) rn command data len c w)))"

section \<open>Settings\<close>

definition TPComm_SetCallFunc :: "'w call_func_tp option \<Rightarrow> 'w tp \<Rightarrow> hresult \<times> 'w tp" where
  "TPComm_SetCallFunc func st =
     (case func of None \<Rightarrow> (E_INVALIDARG, st) | Some f \<Rightarrow> (S_OK, st\<lparr>tp_func := f\<rparr>))"

definition TPComm_SetTimeout :: "'w tp_api \<Rightarrow> i32 \<Rightarrow> u32 \<Rightarrow> 'w tp \<Rightarrow> (hresult \<times> 'w tp) option" where
  "TPComm_SetTimeout api fd tmo st =
     (case tp_check_address (tps st) fd of
        None \<Rightarrow> Some (E_HANDLE, st)
      | Some (i, c) \<Rightarrow> (case te_lock (ta_env api) i (tp_world st) of (hr, w) \<Rightarrow>
          if FAILED hr then Some (hr, st\<lparr>tp_world := w\<rparr>)
          else (case dn_set_timeout (tp_device c) of
              None \<Rightarrow> None
            | Some f \<Rightarrow> (case ta_set_timeout api f (sock (tp_device c)) tmo w of (hr1, w1) \<Rightarrow>
                let c' = (if SUCCEEDED hr1 then c\<lparr>tp_device := (tp_device c)\<lparr>timeout := tmo\<rparr>\<rparr> else c)
                in Some (hr1, st\<lparr>tps := (tps st)[i := c'], tp_world := te_unlock (ta_env api) i w1\<rparr>)))))"

definition TPComm_GetTimeout :: "i32 \<Rightarrow> bool \<Rightarrow> 'w tp \<Rightarrow> hresult \<times> u32 option" where
  "TPComm_GetTimeout fd out st =
     (case tp_check_address (tps st) fd of
        None \<Rightarrow> (E_HANDLE, None)
      | Some (i, c) \<Rightarrow> if \<not> out then (E_INVALIDARG, None) else (S_OK, Some (timeout (tp_device c))))"

definition TPComm_GetTPState :: "i32 \<Rightarrow> bool \<Rightarrow> 'w tp \<Rightarrow> hresult \<times> i32 option" where
  "TPComm_GetTPState fd out st =
     (case tp_check_address (tps st) fd of
        None \<Rightarrow> (E_HANDLE, None)
      | Some (i, c) \<Rightarrow> if \<not> out then (E_INVALIDARG, None) else (S_OK, Some (tp_code (tp_state c))))"

section \<open>Opening and closing\<close>

definition TPComm_Close :: "'w tp_api \<Rightarrow> i32 option \<Rightarrow> 'w tp \<Rightarrow> (hresult \<times> i32 option \<times> 'w tp) option" where
  "TPComm_Close api pfd st =
     (case pfd of
        None \<Rightarrow> Some (E_HANDLE, None, st)
      | Some index \<Rightarrow> (case tp_check_address (tps st) index of
          None \<Rightarrow> Some (E_HANDLE, pfd, st)
        | Some (i, c) \<Rightarrow>
            if \<not> tp_timer_thread c \<or> \<not> tp_recv_thread c then None
            else (case dn_close (tp_device c) of
                None \<Rightarrow> None
              | Some f \<Rightarrow>
                  let w1 = ta_join_recv api i (ta_join_timer api i (tp_world st));
                      w2 = ta_release_mutex api i (ta_destroy_event api i w1);
                      w3 = ta_close api f (sock (tp_device c)) w2
                  in Some (S_OK, Some 0, st\<lparr>tps := (tps st)[i := zero_tp], tp_world := w3\<rparr>))))"

text \<open>The connection parameters by type; TCP and unknown types are refused.\<close>

definition tp_open_device :: "'w tp_api \<Rightarrow> string \<Rightarrow> conn_param_common \<Rightarrow> hresult \<times> conn_param_common \<times> open_param" where
  "tp_open_device api connect d0 =
     (let mok = te_mok (ta_env api); t = parse_conn_type (Some connect); d = d0\<lparr>conn_type := t\<rparr>;
          eth0 = \<lparr>dst_addr = ta_inet_addr api ''127.0.0.1'', dst_port = htons 5007, src_addr = 0, src_port = 0\<rparr>;
          com0 = \<lparr>com_port = 1, baud_rate = 38400, parity = 0, data_bits = 8, stop_bits = 0, flow = 0\<rparr> in
      if t = CONN_UDP then
        (case parse_conn_param_ether mok (ta_inet_addr api) (Some connect) eth0 of (hr, eth) \<Rightarrow>
          if \<not> mok 16 then (E_OUTOFMEMORY, d, OpenEth eth)
          else (hr, d\<lparr>arg := Some \<lparr>s_addr = dst_addr eth, sin_port = dst_port eth\<rparr>, dn_open := Some F_udp_open,
            dn_close := Some F_udp_close, dn_send := Some F_udp_send, dn_recv := Some F_udp_recv,
            dn_set_timeout := Some F_udp_set_timeout, dn_clear := Some F_udp_clear\<rparr>, OpenEth eth))
      else if t = CONN_COM then
        (case parse_conn_param_serial mok (ta_atof10 api) (Some connect) com0 of (hr, com) \<Rightarrow>
          (hr, d\<lparr>arg := None, dn_open := Some F_com_open, dn_close := Some F_com_close, dn_send := Some F_com_send,
             dn_recv := Some F_com_recv, dn_set_timeout := Some F_com_set_timeout, dn_clear := Some F_com_clear\<rparr>, OpenCom com))
      else (E_INVALIDARG, d, OpenEth eth0))"

definition upd_tp :: "nat \<Rightarrow> conn_param_tp \<Rightarrow> 'w \<Rightarrow> 'w tp \<Rightarrow> 'w tp" where
  "upd_tp i c w st = st\<lparr>tps := (tps st)[i := c], tp_world := w\<rparr>"

text \<open>The last part of an open: the fields of the connection, then the two threads.\<close>

definition tp_start :: "'w tp_api \<Rightarrow> nat \<Rightarrow> bool \<Rightarrow> 'w tp \<Rightarrow> 'w tp" where
  "tp_start api i client st =
     (let (now, w) = te_clock (ta_env api) (tp_world st);
          c = (tps st ! i)\<lparr>tp_client := client, tp_init := False, tp_state := TP_TPLESS, tp_cts := False,
                tp_from_id := if client then TP_ID_CLIENT else TP_ID_SERVER, tp_to_id := TP_ID_CLIENT,
                tp_timer_clock := now, tp_ping_clock := now, tp_init_clock := now, tp_check_clock := now,
                tp_timer_flag := True, tp_timer_thread := True, tp_recv_flag := True, tp_recv_thread := True\<rparr>
      in upd_tp i c (ta_begin_recv api i (ta_begin_timer api i w)) st)"

definition TPComm_Open :: "'w tp_api \<Rightarrow> string option \<Rightarrow> u32 \<Rightarrow> bool \<Rightarrow> bool \<Rightarrow> 'w tp \<Rightarrow> (hresult \<times> i32 option \<times> 'w tp) option" where
  "TPComm_Open api connect tmo client out st =
     (case connect of
        None \<Rightarrow> Some (E_INVALIDARG, None, st)
      | Some con \<Rightarrow>
          if \<not> out then Some (E_INVALIDARG, None, st)
          else let index = tp_find_open (tps st) in
          if index = 0 then Some (E_MAX_OBJECT, None, st)
          else
            let i = index - 1; c = tps st ! i; (hr, d, par) = tp_open_device api con (tp_device c) in
            if FAILED hr then Some (hr, None, upd_tp i zero_tp (tp_world st) st)
            else (case ta_init_mutex api i (tp_world st) of (hr1, w1) \<Rightarrow>
              if FAILED hr1 then Some (hr1, None, upd_tp i (c\<lparr>tp_device := d\<lparr>arg := None\<rparr>\<rparr>) w1 st)
              else (case ta_create_event api i w1 of (hr2, w2) \<Rightarrow>
                if FAILED hr2 then Some (hr2, None, upd_tp i zero_tp (ta_release_mutex api i w2) st)
                else (case dn_open d of
                    None \<Rightarrow> None
                  | Some f \<Rightarrow> (case ta_open api f par w2 of (hr3, s, w3) \<Rightarrow>
                      if FAILED hr3
                      then Some (hr3, None, upd_tp i zero_tp (ta_destroy_event api i (ta_release_mutex api i w3)) st)
                      else
                        (case TPComm_SetTimeout api (of_nat index) tmo (upd_tp i (c\<lparr>tp_device := d\<lparr>sock := s\<rparr>\<rparr>) w3 st) of
                           None \<Rightarrow> None
                         | Some (hr4, st1) \<Rightarrow>
                             if FAILED hr4
                             then map_option (\<lambda>(_, _, st2). (hr4, None, st2)) (TPComm_Close api (Some (of_nat index)) st1)
                             else Some (S_OK, Some (of_nat index), tp_start api i client st1)))))))"

section \<open>Sound and lights\<close>

definition TPComm_BEEP :: "'w tp_api \<Rightarrow> i32 \<Rightarrow> u16 \<Rightarrow> 'w tp \<Rightarrow> (hresult \<times> 'w tp) option" where
  "TPComm_BEEP api fd tim st = tp_send_receive api fd TP_RETRY_TIMEOUT TP_CMD_BEEP (Some (be16 tim)) 2 st"

definition TPComm_LED :: "'w tp_api \<Rightarrow> i32 \<Rightarrow> u16 \<Rightarrow> u16 \<Rightarrow> 'w tp \<Rightarrow> (hresult \<times> 'w tp) option" where
  "TPComm_LED api fd number st_led st =
     (if st_led = 0 then tp_send_receive api fd TP_RETRY_TIMEOUT TP_CMD_LED_OFF (Some (be16 number)) 2 st
      else if st_led = 1 then tp_send_receive api fd TP_RETRY_TIMEOUT TP_CMD_LED_ON (Some (be16 number)) 2 st
      else if st_led = 2 then tp_send_receive api fd TP_RETRY_TIMEOUT TP_CMD_LED_FLASH (Some (be16 number)) 2 st
      else Some (E_INVALIDARG, st))"

definition TPComm_LCD :: "'w tp_api \<Rightarrow> i32 \<Rightarrow> u16 \<Rightarrow> 'w tp \<Rightarrow> (hresult \<times> 'w tp) option" where
  "TPComm_LCD api fd contrast st = tp_send_receive api fd TP_RETRY_TIMEOUT TP_CMD_LCD (Some (be16 contrast)) 2 st"

end
