(* ===== verification/TpDraw.thy ===== *)
theory TpDraw
  imports TpApi
begin

text \<open>
  The drawing commands of \<open>bcap_core/src/TPComm/dn_tpcomm.c\<close>: \<open>TPComm_DrawMiniTP\<close> serialises an array of
  commands, each an array of a code and its arguments, into one message to the pendant;
  \<open>TPComm_DrawString\<close>, \<open>TPComm_DrawLine\<close> and \<open>TPComm_DrawRectangle\<close> build such arrays.

  The variants on the stack (\<open>vntPar\<close>, \<open>vntSub\<close>) and the buffer with its length are the record \<open>draw\<close>.
  \<open>ta_wcstombs s n\<close> are the bytes \<open>wcstombs\<close> writes for the string, at most \<open>n\<close>.
\<close>

section \<open>The serialiser\<close>

abbreviation (input) COLOR_FG :: byte where "COLOR_FG \<equiv> 0x10"
abbreviation (input) COLOR_BG :: byte where "COLOR_BG \<equiv> 0x11"
abbreviation (input) COLOR_FILL :: byte where "COLOR_FILL \<equiv> 0x12"
abbreviation (input) DRAW_STRING :: byte where "DRAW_STRING \<equiv> 0x20"
abbreviation (input) DRAW_LINE :: byte where "DRAW_LINE \<equiv> 0x30"
abbreviation (input) DRAW_RECT :: byte where "DRAW_RECT \<equiv> 0x31"

record draw =
  vnt_par :: "variant list"
  vnt_sub :: "variant list"
  data_buf :: "byte list"
  data_len :: byte

text \<open>The member \<open>bVal\<close> of a variant that holds a number.\<close>

definition b_val :: "variant \<Rightarrow> byte option" where
  "b_val v = (case val v of Bits w \<Rightarrow> Some (ucast w) | _ \<Rightarrow> None)"

definition change_at :: "(nat \<Rightarrow> bool) \<Rightarrow> nat \<Rightarrow> u16 \<Rightarrow> variant list \<Rightarrow> (hresult \<times> variant list) option" where
  "change_at mok i t vs = map_option (\<lambda>(hr, v). (hr, vs[i := v])) (VariantChangeType mok True (vs ! i) (vs ! i) t)"

text \<open>The arguments of a string, \<open>k\<close> of which are left: the string itself, then numbers.\<close>

fun change_subs :: "(nat \<Rightarrow> bool) \<Rightarrow> nat \<Rightarrow> nat \<Rightarrow> hresult \<Rightarrow> variant list \<Rightarrow> (hresult \<times> variant list) option" where
  "change_subs mok 0 i hr vs = Some (hr, vs)"
| "change_subs mok (Suc k) i hr vs = do {
     (hr', vs') \<leftarrow> change_at mok i (if i = 0 then VT_BSTR else VT_UI1) vs;
     if FAILED hr' then Some (hr', vs') else change_subs mok k (Suc i) hr' vs'
   }"

definition change_vars :: "(nat \<Rightarrow> bool) \<Rightarrow> variant \<Rightarrow> variant list \<Rightarrow> u32 \<Rightarrow> (u32 \<times> variant list) option" where
  "change_vars mok src vs n =
     (case ChangeVarType mok src VT_VARIANT (Some (DestVariants vs)) n of
        Some (c, Some (DestVariants vs')) \<Rightarrow> Some (c, vs')
      | _ \<Rightarrow> None)"

definition put_draw :: "byte list \<Rightarrow> byte \<Rightarrow> draw \<Rightarrow> draw option" where
  "put_draw bs n s = map_option (\<lambda>m. s\<lparr>data_buf := m, data_len := data_len s + n\<rparr>) (store (data_buf s) (unat (data_len s)) bs)"

text \<open>The three forms of a command, after its code was read; a failing code ends the loop.\<close>

definition draw_color :: "(nat \<Rightarrow> bool) \<Rightarrow> byte \<Rightarrow> draw \<Rightarrow> (hresult \<times> draw) option" where
  "draw_color mok cmd s =
     (if 248 < unat (data_len s) + 3 then Some (E_OUTOFMEMORY, s)
      else do {
        (hr, par) \<leftarrow> change_at mok 1 VT_UI1 (vnt_par s);
        let s1 = s\<lparr>vnt_par := par\<rparr>;
        if FAILED hr then Some (hr, s1)
        else do {
          b \<leftarrow> b_val (par ! 1);
          s2 \<leftarrow> put_draw [cmd, 1, b] 3 s1;
          Some (hr, s2)
        }
      })"

definition put_text :: "(wchar list \<Rightarrow> nat \<Rightarrow> byte list) \<Rightarrow> byte \<Rightarrow> wchar list \<Rightarrow> u32 \<Rightarrow> u32 \<Rightarrow> draw \<Rightarrow> draw option" where
  "put_text wcstombs cmd str len_str len_cmd s = do {
     x \<leftarrow> b_val (vnt_sub s ! 1);
     y \<leftarrow> b_val (vnt_sub s ! 2);
     siz \<leftarrow> b_val (vnt_sub s ! 3);
     attr \<leftarrow> b_val (vnt_sub s ! 4);
     let at = unat (data_len s);
     let l = unat len_str;
     m1 \<leftarrow> store (data_buf s) at [cmd, ucast len_cmd, x, y, siz, ucast len_str];
     m2 \<leftarrow> store m1 (at + 6) (wcstombs str l);
     m3 \<leftarrow> store m2 (at + l + 6) [0];
     m4 \<leftarrow> store m3 (at + l + 7) (replicate l attr);
     Some (s\<lparr>data_buf := m4, data_len := data_len s + ucast (len_cmd + 2)\<rparr>)
   }"

definition draw_text :: "(nat \<Rightarrow> bool) \<Rightarrow> (wchar list \<Rightarrow> nat \<Rightarrow> byte list) \<Rightarrow> byte \<Rightarrow> draw \<Rightarrow> (hresult \<times> draw) option" where
  "draw_text mok wcstombs cmd s = do {
     (n, sub) \<leftarrow> change_vars mok (vnt_par s ! 1) (vnt_sub s) 5;
     if n < 5 then Some (E_INVALIDARG, s\<lparr>vnt_sub := sub\<rparr>)
     else do {
       (hr, sub1) \<leftarrow> change_subs mok 5 0 S_OK sub;
       let s1 = s\<lparr>vnt_sub := sub1\<rparr>;
       if FAILED hr then Some (hr, s1)
       else do {
         p \<leftarrow> bstr_ptr (val (sub1 ! 0));
         len \<leftarrow> SysStringLen p;
         let len_str = (ucast len :: u32);
         let len_cmd = len_str * 2 + 5;
         if 248 < ucast (data_len s1) + len_cmd + 2 then Some (E_OUTOFMEMORY, s1)
         else do {
           str \<leftarrow> p;
           s2 \<leftarrow> put_text wcstombs cmd str len_str len_cmd s1;
           Some (hr, s2)
         }
       }
     }
   }"

definition draw_shape :: "(nat \<Rightarrow> bool) \<Rightarrow> byte list \<Rightarrow> hresult \<Rightarrow> byte \<Rightarrow> draw \<Rightarrow> (hresult \<times> draw) option" where
  "draw_shape mok junk hr cmd s =
     (case ChangeVarType mok (vnt_par s ! 1) VT_UI1 (Some (DestBytes (take 4 junk))) 4 of
        Some (n, Some (DestBytes sub)) \<Rightarrow>
          if n < 4 then Some (E_INVALIDARG, s)
          else if 248 < unat (data_len s) + 6 then Some (E_OUTOFMEMORY, s)
          else map_option (Pair hr) (put_draw ([cmd, 4] @ sub) 6 s)
      | _ \<Rightarrow> None)"

definition draw_command :: "'w tp_api \<Rightarrow> variant \<Rightarrow> draw \<Rightarrow> (hresult \<times> draw) option" where
  "draw_command api cmd s =
     (let mok = te_mok (ta_env api) in
      if \<not> is_array (vt cmd) then Some (E_INVALIDARG, s)
      else do {
        par \<leftarrow> VariantClears (vnt_par s) 2;
        sub \<leftarrow> VariantClears (vnt_sub s) 5;
        (n, par1) \<leftarrow> change_vars mok cmd par 2;
        let s1 = s\<lparr>vnt_par := par1, vnt_sub := sub\<rparr>;
        if n < 2 then Some (E_INVALIDARG, s1)
        else do {
          (hr, par2) \<leftarrow> change_at mok 0 VT_UI1 par1;
          let s2 = s1\<lparr>vnt_par := par2\<rparr>;
          if FAILED hr then Some (hr, s2)
          else do {
            b \<leftarrow> b_val (par2 ! 0);
            if b = COLOR_FG \<or> b = COLOR_BG \<or> b = COLOR_FILL then draw_color mok b s2
            else if b = DRAW_STRING then draw_text mok (ta_wcstombs api) b s2
            else if b = DRAW_LINE \<or> b = DRAW_RECT then draw_shape mok (te_fresh (ta_env api)) hr b s2
            else Some (E_INVALIDARG, s2)
          }
        }
      })"

text \<open>The loop over the commands: \<open>None\<close> as the code is the uninitialised \<open>hr\<close>.\<close>

fun draw_commands :: "'w tp_api \<Rightarrow> variant list \<Rightarrow> nat \<Rightarrow> nat \<Rightarrow> hresult option \<Rightarrow> draw \<Rightarrow> (hresult option \<times> draw) option" where
  "draw_commands api vs i 0 hr s = Some (hr, s)"
| "draw_commands api vs i (Suc k) hr s =
     (if i < length vs then do {
        (hr', s') \<leftarrow> draw_command api (vs ! i) s;
        if FAILED hr' then Some (Some hr', s') else draw_commands api vs (Suc i) k (Some hr') s'
      }
      else None)"

definition TPComm_DrawMiniTP :: "'w tp_api \<Rightarrow> i32 \<Rightarrow> variant \<Rightarrow> 'w tp \<Rightarrow> (hresult \<times> 'w tp) option" where
  "TPComm_DrawMiniTP api fd commands st =
     (if vt commands \<noteq> VT_VARIANT OR VT_ARRAY then Some (E_INVALIDARG, st)
      else case val commands of
        ArrayP a \<Rightarrow> do {
          (hr, s) \<leftarrow> (case snd (SafeArrayAccessData (Some a)) of
              Some (Variants vs) \<Rightarrow>
                draw_commands api vs 0 (unat (cElements a)) None
                  \<lparr>vnt_par = replicate 2 zero_variant, vnt_sub = replicate 5 zero_variant,
                    data_buf = take 248 (te_fresh (ta_env api)), data_len = 0\<rparr>
            | _ \<Rightarrow> None);
          hr \<leftarrow> hr;
          (hr1, st1) \<leftarrow> (if SUCCEEDED hr
             then tp_send_receive api fd TP_RETRY_TIMEOUT TP_CMD_MTP_DRAW (Some (data_buf s)) (data_len s) st
             else Some (hr, st));
          _ \<leftarrow> VariantClears (vnt_par s) 2;
          _ \<leftarrow> VariantClears (vnt_sub s) 5;
          Some (hr1, st1)
        }
      | _ \<Rightarrow> None)"

section \<open>Text, lines and rectangles\<close>

text \<open>An array of \<open>n\<close> elements, all of which are assigned.\<close>

definition new_array :: "(nat \<Rightarrow> bool) \<Rightarrow> u16 \<Rightarrow> u32 \<Rightarrow> sa_data \<Rightarrow> variant option" where
  "new_array mok t n elems =
     map_option (\<lambda>a. Variant (t OR VT_ARRAY) (ArrayP (set_pvData (Some elems) a))) (SafeArrayCreateVector mok t 0 n)"

definition new_bytes :: "(nat \<Rightarrow> bool) \<Rightarrow> byte list \<Rightarrow> variant option" where
  "new_bytes mok bs = new_array mok VT_UI1 (of_nat (length bs)) (Bytes bs)"

definition new_variants :: "(nat \<Rightarrow> bool) \<Rightarrow> variant list \<Rightarrow> variant option" where
  "new_variants mok vs = new_array mok VT_VARIANT (of_nat (length vs)) (Variants vs)"

definition ui1 :: "byte \<Rightarrow> variant" where
  "ui1 b = Variant VT_UI1 (Bits (ucast b))"

text \<open>The call, and the clearing of the array of commands after it.\<close>

definition draw_and_clear :: "'w tp_api \<Rightarrow> i32 \<Rightarrow> variant list \<Rightarrow> 'w tp \<Rightarrow> (hresult \<times> 'w tp) option" where
  "draw_and_clear api fd cmds st = do {
     cmd \<leftarrow> new_variants (te_mok (ta_env api)) cmds;
     (hr, st1) \<leftarrow> TPComm_DrawMiniTP api fd cmd st;
     _ \<leftarrow> VariantClear cmd;
     Some (hr, st1)
   }"

definition TPComm_DrawString ::
  "'w tp_api \<Rightarrow> i32 \<Rightarrow> bstr option \<Rightarrow> byte \<Rightarrow> byte \<Rightarrow> byte \<Rightarrow> byte \<Rightarrow> byte \<Rightarrow> byte \<Rightarrow> 'w tp \<Rightarrow> (hresult \<times> 'w tp) option" where
  "TPComm_DrawString api fd str x y siz attr fg bg st = do {
     let mok = te_mok (ta_env api);
     p0 \<leftarrow> new_bytes mok [COLOR_FG, fg];
     p1 \<leftarrow> new_bytes mok [COLOR_BG, bg];
     str' \<leftarrow> SysAllocString mok str;
     sub \<leftarrow> new_variants mok [Variant VT_BSTR (case str' of None \<Rightarrow> NULLP | Some s \<Rightarrow> BstrP s), ui1 x, ui1 y, ui1 siz, ui1 attr];
     p2 \<leftarrow> new_variants mok [ui1 DRAW_STRING, sub];
     draw_and_clear api fd [p0, p1, p2] st
   }"

definition TPComm_DrawLine ::
  "'w tp_api \<Rightarrow> i32 \<Rightarrow> byte \<Rightarrow> byte \<Rightarrow> byte \<Rightarrow> byte \<Rightarrow> byte \<Rightarrow> 'w tp \<Rightarrow> (hresult \<times> 'w tp) option" where
  "TPComm_DrawLine api fd x0 y0 x1 y1 fg st = do {
     let mok = te_mok (ta_env api);
     p0 \<leftarrow> new_bytes mok [COLOR_FG, fg];
     sub \<leftarrow> new_bytes mok [x0, y0, x1, y1];
     p1 \<leftarrow> new_variants mok [ui1 DRAW_LINE, sub];
     draw_and_clear api fd [p0, p1] st
   }"

definition TPComm_DrawRectangle ::
  "'w tp_api \<Rightarrow> i32 \<Rightarrow> byte \<Rightarrow> byte \<Rightarrow> byte \<Rightarrow> byte \<Rightarrow> byte \<Rightarrow> byte \<Rightarrow> 'w tp \<Rightarrow> (hresult \<times> 'w tp) option" where
  "TPComm_DrawRectangle api fd x0 y0 x1 y1 fg bg st = do {
     let mok = te_mok (ta_env api);
     p0 \<leftarrow> new_bytes mok [COLOR_FG, fg];
     p1 \<leftarrow> new_bytes mok [COLOR_BG, bg];
     sub \<leftarrow> new_bytes mok [x0, y0, x1, y1];
     p2 \<leftarrow> new_variants mok [ui1 DRAW_RECT, sub];
     draw_and_clear api fd [p0, p1, p2] st
   }"

section \<open>The commands and their bytes\<close>

lemma wf_ui1 [simp]: "wf_variant (ui1 b)"
  by (simp add: ui1_def wf_variant.simps wf_body_def is_array_def scalar_type_def copyable_def)

lemma b_val_ui1 [simp]: "b_val (ui1 b) = Some b"
  by (simp add: ui1_def b_val_def)

lemma change_at_same:
  "vt (vs ! i) = t \<Longrightarrow> i < length vs \<Longrightarrow> change_at mok i t vs = Some (S_OK, vs)"
  by (simp add: change_at_def VariantChangeType_def)

lemma vt_ui1 [simp]: "vt (ui1 b) = VT_UI1"
  by (simp add: ui1_def)

lemma change_vars_fill:
  assumes "wf_variant (variant_array vs c lb)" and "wf_variants ds" and "length ds = length vs" and "length vs = unat n" and "n \<noteq> 0"
  shows "change_vars mem_ok (variant_array vs c lb) ds n = Some (n, vs)"
proof -
  have "c \<noteq> 0"
  proof
    assume "c = 0"
    then show False using assms(1) by (simp add: wf_variant.simps wf_body_def is_array_def wf_array_def sa_elem_size_def)
  qed
  then show ?thesis
    using change_variants [OF assms(1) _ assms(2,5)] assms(3,4)
    by (simp add: change_vars_def)
qed

text \<open>A command of the caller, its variant, and what the pendant is to get.\<close>

datatype draw_op = Colour byte byte | DrawText "wchar list" byte byte byte byte | Shape byte "byte list"

fun op_variant :: "draw_op \<Rightarrow> variant" where
  "op_variant (Colour c v) = variant_array [ui1 c, ui1 v] 2 0"
| "op_variant (DrawText s x y z a) =
     variant_array [ui1 DRAW_STRING, variant_array [Variant VT_BSTR (BstrP (s @ [0])), ui1 x, ui1 y, ui1 z, ui1 a] 5 0] 2 0"
| "op_variant (Shape c bs) = variant_array [ui1 c, byte_array bs 4 0] 2 0"

fun op_bytes :: "(wchar list \<Rightarrow> nat \<Rightarrow> byte list) \<Rightarrow> draw_op \<Rightarrow> byte list" where
  "op_bytes enc (Colour c v) = [c, 1, v]"
| "op_bytes enc (DrawText s x y z a) =
     [DRAW_STRING, of_nat (2 * length s + 5), x, y, z, of_nat (length s)] @ enc (s @ [0]) (length s) @ [0] @
     replicate (length s) a"
| "op_bytes enc (Shape c bs) = [c, 4] @ bs"

fun op_ok :: "(wchar list \<Rightarrow> nat \<Rightarrow> byte list) \<Rightarrow> draw_op \<Rightarrow> bool" where
  "op_ok enc (Colour c v) \<longleftrightarrow> c \<in> {COLOR_FG, COLOR_BG, COLOR_FILL}"
| "op_ok enc (DrawText s x y z a) \<longleftrightarrow> 0 \<notin> set s \<and> length s \<le> 16382 \<and> length (enc (s @ [0]) (length s)) = length s"
| "op_ok enc (Shape c bs) \<longleftrightarrow> c \<in> {DRAW_LINE, DRAW_RECT} \<and> length bs = 4"

lemma wf_text [simp]: "0 \<notin> set s \<Longrightarrow> length s \<le> 16382 \<Longrightarrow> wf_variant (Variant 8 (BstrP (s @ [0])))"
  by (simp add: wf_variant.simps wf_body_def is_array_def wf_bstr_def)

lemma wf_op_variant: "op_ok enc op \<Longrightarrow> wf_variant (op_variant op)"
  by (cases op) (auto simp: wf_variant_array wf_byte_array)

text \<open>The state between two commands, with the message so far.\<close>

definition draw_state :: "byte list \<Rightarrow> byte list \<Rightarrow> draw \<Rightarrow> bool" where
  "draw_state msg pad s \<longleftrightarrow>
     wf_variants (vnt_par s) \<and> length (vnt_par s) = 2 \<and> wf_variants (vnt_sub s) \<and> length (vnt_sub s) = 5 \<and>
     length pad = 248 \<and> length msg \<le> 248 \<and> data_buf s = msg @ drop (length msg) pad \<and> data_len s = of_nat (length msg)"

definition draw_full :: "draw \<Rightarrow> bool" where
  "draw_full s \<longleftrightarrow> wf_variants (vnt_par s) \<and> length (vnt_par s) = 2 \<and> wf_variants (vnt_sub s) \<and> length (vnt_sub s) = 5"

lemma store_pad:
  "length msg + length bs \<le> length pad \<Longrightarrow>
   store (msg @ drop (length msg) pad) (length msg) bs = Some ((msg @ bs) @ drop (length (msg @ bs)) pad)"
  by (simp add: store_def add.commute)

lemma data_len_unat: "draw_state msg pad s \<Longrightarrow> unat (data_len s) = length msg"
  by (simp add: draw_state_def unat_of_nat)

lemma ucast_small: "n < 2 ^ 32 \<Longrightarrow> n < 256 + 256 \<Longrightarrow> ucast (of_nat n :: u32) = (of_nat n :: byte)"
  by (simp add: word_unat_eq_iff unsigned_ucast_eq unat_of_nat take_bit_eq_mod)

lemma put_draw_state:
  assumes "draw_state msg pad s" and "length msg + length bs \<le> 248" and "n = of_nat (length bs)"
  shows "\<exists>s'. put_draw bs n s = Some s' \<and> draw_state (msg @ bs) pad s'"
  using assms store_pad [of msg bs pad] data_len_unat [OF assms(1)]
  by (auto simp: put_draw_def draw_state_def)

lemma draw_state_full: "draw_state msg pad s \<Longrightarrow> draw_full s"
  by (simp add: draw_state_def draw_full_def)

text \<open>The outcome of a command: its bytes are appended, or there is no room for them.\<close>

definition draw_outcome :: "byte list \<Rightarrow> byte list \<Rightarrow> byte list \<Rightarrow> (hresult \<times> draw) option \<Rightarrow> bool" where
  "draw_outcome msg bs pad r \<longleftrightarrow>
     (if length msg + length bs \<le> 248 then \<exists>s'. r = Some (S_OK, s') \<and> draw_state (msg @ bs) pad s'
      else \<exists>s'. r = Some (E_OUTOFMEMORY, s') \<and> draw_full s')"

lemma draw_color_outcome:
  assumes "draw_state msg pad s" and "vnt_par s = [ui1 c, ui1 v]"
  shows "draw_outcome msg [c, 1, v] pad (draw_color mem_ok c s)"
proof -
  have same: "s\<lparr>vnt_par := [ui1 c, ui1 v]\<rparr> = s" using assms(2) by (cases s) simp
  show ?thesis
    using put_draw_state [OF assms(1), of "[c, 1, v]" 3] draw_state_full [OF assms(1)]
    by (auto simp: draw_outcome_def draw_color_def data_len_unat [OF assms(1)] assms(2) change_at_same same)
qed

lemma draw_shape_outcome:
  assumes "draw_state msg pad s" and "vnt_par s = [ui1 c, byte_array bs 4 0]" and "length bs = 4" and "4 \<le> length junk"
  shows "draw_outcome msg ([c, 4] @ bs) pad (draw_shape mem_ok junk S_OK c s)"
proof -
  have "wf_variant (byte_array bs 4 0)" using assms(3) by (simp add: wf_byte_array)
  then have "ChangeVarType mem_ok (byte_array bs 4 0) VT_UI1 (Some (DestBytes (take 4 junk))) 4 = Some (4, Some (DestBytes bs))"
    using change_bytes [of bs 4 0 4 "take 4 junk"] assms(3,4) by simp
  then show ?thesis
    using put_draw_state [OF assms(1), of "[c, 4] @ bs" 6] draw_state_full [OF assms(1)] assms(3)
    by (auto simp: draw_outcome_def draw_shape_def data_len_unat [OF assms(1)] assms(2))
qed

lemma draw_text_outcome:
  assumes "draw_state msg pad s" and "op_ok enc (DrawText str x y z a)"
    and "vnt_par s = [p, variant_array [Variant VT_BSTR (BstrP (str @ [0])), ui1 x, ui1 y, ui1 z, ui1 a] 5 0]"
  shows "draw_outcome msg (op_bytes enc (DrawText str x y z a)) pad (draw_text mem_ok enc DRAW_STRING s)"
proof -
  let ?l = "length str" and ?args = "[Variant VT_BSTR (BstrP (str @ [0])), ui1 x, ui1 y, ui1 z, ui1 a]"
  have str: "0 \<notin> set str" "?l \<le> 16382" "length (enc (str @ [0]) ?l) = ?l" using assms(2) by simp_all
  have wf: "wf_variants ?args" using str by simp
  have sub: "change_vars mem_ok (vnt_par s ! Suc 0) (vnt_sub s) 5 = Some (5, ?args)"
    using assms(1,3) str by (simp add: change_vars_fill wf_variant_array draw_state_def)
  have subs: "change_subs mem_ok 5 0 S_OK ?args = Some (S_OK, ?args)"
    by (simp add: numeral_eq_Suc change_at_same)
  have len: "SysStringLen (Some (str @ [0])) = Some (of_nat ?l)"
    using str by (simp add: SysStringLen_def)
  have ul: "unat (of_nat ?l :: u16) = ?l" using str(2) by (simp add: unat_of_nat)
  have room: "248 < ucast (data_len s) + ((ucast (of_nat ?l :: u16) :: u32) * 2 + 5) + 2 \<longleftrightarrow> 248 < length msg + (2 * ?l + 7)"
  proof -
    have msg: "length msg \<le> 248" using assms(1) by (simp add: draw_state_def)
    then have "unat (ucast (data_len s) :: u32) = length msg"
      using data_len_unat [OF assms(1)] by (simp add: unsigned_ucast_eq take_bit_nat_eq_self)
    moreover have "unat (ucast (of_nat ?l :: u16) :: u32) = ?l"
      using ul str(2) by (simp add: unsigned_ucast_eq take_bit_nat_eq_self)
    ultimately show ?thesis
      using str(2) msg by (simp add: word_less_nat_alt unat_word_ariths) linarith
  qed
  let ?bs = "op_bytes enc (DrawText str x y z a)"
  have bs: "length ?bs = 2 * ?l + 7" using str(3) by simp
  define s1 where "s1 = s\<lparr>vnt_sub := ?args\<rparr>"
  have s1: "draw_state msg pad s1" using assms(1) wf by (simp add: s1_def draw_state_def)
  show ?thesis
  proof (cases "length msg + length ?bs \<le> 248")
    case False
    then have "draw_text mem_ok enc DRAW_STRING s = Some (E_OUTOFMEMORY, s1)"
      using room bs by (simp add: draw_text_def sub subs len bstr_ptr_def s1_def)
    then show ?thesis using False draw_state_full [OF s1] by (simp add: draw_outcome_def)
  next
    case True
    then have l: "?l < 128" "ucast (of_nat ?l :: u16) = (of_nat ?l :: byte)" "ucast (of_nat ?l :: u16) = (of_nat ?l :: u32)"
      using bs by (simp_all add: word_unat_eq_iff unsigned_ucast_eq unat_of_nat take_bit_nat_eq_self)
    have cmd: "ucast ((of_nat ?l :: u32) * 2 + 5) = (of_nat (2 * ?l + 5) :: byte)"
      "ucast ((of_nat ?l :: u32) * 2 + 5 + 2) = (of_nat (2 * ?l + 7) :: byte)"
      using l(1) ucast_small [of "2 * ?l + 5"] ucast_small [of "2 * ?l + 7"] by (simp_all add: ac_simps)
    define six where "six = [DRAW_STRING, of_nat (2 * ?l + 5), x, y, z, of_nat ?l]"
    define e where "e = enc (str @ [0]) ?l"
    have e: "length e = ?l" and six: "length six = 6" using str(3) by (simp_all add: e_def six_def)
    have pad: "length pad = 248" using assms(1) by (simp add: draw_state_def)
    have st: "store (msg @ drop (length msg) pad) (length msg) six = Some ((msg @ six) @ drop (length (msg @ six)) pad)"
      "store ((msg @ six) @ drop (length (msg @ six)) pad) (length msg + 6) e = Some ((msg @ six @ e) @ drop (length (msg @ six @ e)) pad)"
      "store ((msg @ six @ e) @ drop (length (msg @ six @ e)) pad) (length msg + ?l + 6) [0] =
        Some ((msg @ six @ e @ [0]) @ drop (length (msg @ six @ e @ [0])) pad)"
      "store ((msg @ six @ e @ [0]) @ drop (length (msg @ six @ e @ [0])) pad) (length msg + ?l + 7) (replicate ?l a) =
        Some ((msg @ six @ e @ [0] @ replicate ?l a) @ drop (length (msg @ six @ e @ [0] @ replicate ?l a)) pad)"
      using True bs e six pad store_pad [of msg six pad] store_pad [of "msg @ six" e pad] store_pad [of "msg @ six @ e" "[0]" pad]
        store_pad [of "msg @ six @ e @ [0]" "replicate ?l a" pad]
      by (simp_all add: ac_simps)
    define s2 where "s2 = s1\<lparr>data_buf := (msg @ six @ e @ [0] @ replicate ?l a) @ drop (length (msg @ six @ e @ [0] @ replicate ?l a)) pad,
      data_len := data_len s1 + of_nat (2 * ?l + 7)\<rparr>"
    have s1': "unat (data_len s1) = length msg" "data_buf s1 = msg @ drop (length msg) pad" "vnt_sub s1 = ?args"
      using data_len_unat [OF s1] s1 by (simp_all add: draw_state_def s1_def)
    have "put_text enc DRAW_STRING (str @ [0]) (of_nat ?l) (of_nat ?l * 2 + 5) s1 = Some s2"
    proof -
      have "?args ! 1 = ui1 x" "?args ! 2 = ui1 y" "?args ! 3 = ui1 z" "?args ! 4 = ui1 a"
        by (simp_all add: numeral_eq_Suc)
      moreover have "[DRAW_STRING, ucast ((of_nat ?l :: u32) * 2 + 5), x, y, z, ucast (of_nat ?l :: u32)] = six"
        using cmd(1) ucast_small [of ?l] l(1) by (simp add: six_def)
      moreover have "unat (of_nat ?l :: u32) = ?l" using l(1) by (simp add: unat_of_nat)
      ultimately show ?thesis
        unfolding put_text_def using st cmd(2) e_def s2_def s1'
        by (simp only: b_val_ui1 Option.bind.bind_lunit Let_def)
    qed
    then have "draw_text mem_ok enc DRAW_STRING s = Some (S_OK, s2)"
      using room True bs by (simp add: draw_text_def sub subs len bstr_ptr_def s1_def l)
    moreover have "draw_state (msg @ ?bs) pad s2"
      using s1 True bs e by (simp add: draw_state_def s2_def e_def six_def)
    ultimately show ?thesis using True by (simp add: draw_outcome_def)
  qed
qed

lemma wf_zeros [simp]: "wf_variants (replicate n zero_variant)"
  by (induction n) (simp_all add: wf_variant.simps wf_body_def is_array_def scalar_type_def)

lemma draw_full_clear:
  assumes "draw_full s"
  shows "VariantClears (vnt_par s) 2 = Some (replicate 2 zero_variant)" and "VariantClears (vnt_sub s) 5 = Some (replicate 5 zero_variant)"
  using assms wf_VariantClear(2) [of "vnt_par s"] wf_VariantClear(2) [of "vnt_sub s"] by (simp_all add: draw_full_def)

text \<open>What a well-formed command leaves to its form: the code and the argument.\<close>

lemma draw_command_par:
  assumes "draw_state msg pad s" and "te_mok (ta_env api) = mem_ok" and "wf_variant (variant_array [ui1 c, v] 2 0)"
  defines "s2 \<equiv> s\<lparr>vnt_sub := replicate 5 zero_variant, vnt_par := [ui1 c, v]\<rparr>"
  shows "draw_state msg pad s2" and "draw_command api (variant_array [ui1 c, v] 2 0) s =
    (if c = COLOR_FG \<or> c = COLOR_BG \<or> c = COLOR_FILL then draw_color mem_ok c s2
     else if c = DRAW_STRING then draw_text mem_ok (ta_wcstombs api) c s2
     else if c = DRAW_LINE \<or> c = DRAW_RECT then draw_shape mem_ok (te_fresh (ta_env api)) S_OK c s2
     else Some (E_INVALIDARG, s2))"
proof -
  have "wf_variants [ui1 c, v]" using assms(3) wf_variant_array [of 2 "[ui1 c, v]" 0] by simp
  then show "draw_state msg pad s2" using assms(1) by (simp add: draw_state_def s2_def)
  have "change_vars mem_ok (variant_array [ui1 c, v] 2 0) (replicate 2 zero_variant) 2 = Some (2, [ui1 c, v])"
    using assms(3) by (intro change_vars_fill) simp_all
  then show "draw_command api (variant_array [ui1 c, v] 2 0) s =
    (if c = COLOR_FG \<or> c = COLOR_BG \<or> c = COLOR_FILL then draw_color mem_ok c s2
     else if c = DRAW_STRING then draw_text mem_ok (ta_wcstombs api) c s2
     else if c = DRAW_LINE \<or> c = DRAW_RECT then draw_shape mem_ok (te_fresh (ta_env api)) S_OK c s2
     else Some (E_INVALIDARG, s2))"
    using draw_full_clear [OF draw_state_full [OF assms(1)]]
    by (simp add: draw_command_def assms(2) is_array_def Let_def change_at_same s2_def)
qed

lemma draw_command_outcome:
  assumes "draw_state msg pad s" and "te_mok (ta_env api) = mem_ok" and "op_ok (ta_wcstombs api) op"
    and "248 \<le> length (te_fresh (ta_env api))"
  shows "draw_outcome msg (op_bytes (ta_wcstombs api) op) pad (draw_command api (op_variant op) s)"
proof (cases op)
  case (Colour c v)
  then have "wf_variant (variant_array [ui1 c, ui1 v] 2 0)" using wf_op_variant [OF assms(3)] by simp
  note par = draw_command_par [OF assms(1,2) this]
  show ?thesis using par(2) draw_color_outcome [OF par(1)] assms(3) by (auto simp: Colour)
next
  case (DrawText str x y z a)
  then have "wf_variant (variant_array [ui1 DRAW_STRING,
      variant_array [Variant VT_BSTR (BstrP (str @ [0])), ui1 x, ui1 y, ui1 z, ui1 a] 5 0] 2 0)" using wf_op_variant [OF assms(3)] by simp
  note par = draw_command_par [OF assms(1,2) this]
  show ?thesis using par(2) draw_text_outcome [OF par(1)] assms(3) by (simp add: DrawText del: op_bytes.simps)
next
  case (Shape c bs)
  then have "wf_variant (variant_array [ui1 c, byte_array bs 4 0] 2 0)" using wf_op_variant [OF assms(3)] by simp
  note par = draw_command_par [OF assms(1,2) this]
  show ?thesis using par(2) draw_shape_outcome [OF par(1), of c bs "te_fresh (ta_env api)"] assms(3,4) by (auto simp: Shape)
qed

lemma draw_commands_outcome:
  assumes "draw_state msg pad s" and "te_mok (ta_env api) = mem_ok" and "list_all (op_ok (ta_wcstombs api)) ops"
    and "248 \<le> length (te_fresh (ta_env api))" and "hr = Some S_OK \<or> ops \<noteq> []"
  defines "bs \<equiv> concat (map (op_bytes (ta_wcstombs api)) ops)"
  shows "if length msg + length bs \<le> 248
    then \<exists>s'. draw_commands api (pre @ map op_variant ops) (length pre) (length ops) hr s = Some (Some S_OK, s') \<and> draw_state (msg @ bs) pad s'
    else \<exists>s'. draw_commands api (pre @ map op_variant ops) (length pre) (length ops) hr s = Some (Some E_OUTOFMEMORY, s') \<and> draw_full s'"
  using assms(1,3,5) unfolding bs_def
proof (induction ops arbitrary: msg s pre hr)
  case Nil
  then show ?case by (auto simp: draw_state_def)
next
  case (Cons op ops)
  let ?enc = "ta_wcstombs api"
  have step: "draw_outcome msg (op_bytes ?enc op) pad (draw_command api (op_variant op) s)"
    using Cons.prems assms(2,4) by (intro draw_command_outcome) simp_all
  show ?case
  proof (cases "length msg + length (op_bytes ?enc op) \<le> 248")
    case False
    then show ?thesis using step by (auto simp: draw_outcome_def)
  next
    case True
    then obtain s1 where s1: "draw_command api (op_variant op) s = Some (S_OK, s1)" "draw_state (msg @ op_bytes ?enc op) pad s1"
      using step by (auto simp: draw_outcome_def)
    show ?thesis
      using Cons.IH [OF s1(2), of "Some S_OK" "pre @ [op_variant op]"] Cons.prems s1(1) by (auto simp: add.assoc split: if_splits)
  qed
qed

section \<open>Properties\<close>

text \<open>
  C25: An array of well-formed commands (each an array of variants) is sent to the
  pendant as one message, the bytes of the commands one behind the other, when they fit into 248
  bytes; otherwise \<open>E_OUTOFMEMORY\<close> is returned, and nothing is sent and no connection changed.
\<close>

theorem DrawMiniTP_encodes:
  fixes api :: "'w tp_api"
  assumes "te_mok (ta_env api) = mem_ok" and "248 \<le> length (te_fresh (ta_env api))"
    and "ops \<noteq> []" and "length ops * 16 < 2 ^ 31" and "list_all (op_ok (ta_wcstombs api)) ops"
  shows "TPComm_DrawMiniTP api fd (variant_array (map op_variant ops) (of_nat (length ops)) 0) st =
    (let msg = concat (map (op_bytes (ta_wcstombs api)) ops) in
     if length msg \<le> 248
     then tp_send_receive api fd TP_RETRY_TIMEOUT TP_CMD_MTP_DRAW
            (Some (msg @ drop (length msg) (take 248 (te_fresh (ta_env api))))) (of_nat (length msg)) st
     else Some (E_OUTOFMEMORY, st))"
proof -
  let ?pad = "take 248 (te_fresh (ta_env api))" and ?msg = "concat (map (op_bytes (ta_wcstombs api)) ops)"
  define s where "s = \<lparr>vnt_par = replicate 2 zero_variant, vnt_sub = replicate 5 zero_variant, data_buf = ?pad, data_len = (0 :: byte)\<rparr>"
  have s: "draw_state [] ?pad s" using assms(2) by (simp add: draw_state_def s_def)
  have n: "unat (of_nat (length ops) :: u32) = length ops" using assms(4) by (simp add: unat_of_nat)
  have run: "if length ?msg \<le> 248
    then \<exists>s'. draw_commands api (map op_variant ops) 0 (length ops) None s = Some (Some S_OK, s') \<and> draw_state ?msg ?pad s'
    else \<exists>s'. draw_commands api (map op_variant ops) 0 (length ops) None s = Some (Some E_OUTOFMEMORY, s') \<and> draw_full s'"
    using draw_commands_outcome [OF s assms(1,5,2), of None "[]"] assms(3) by (auto split: if_splits)
  show ?thesis
  proof (cases "length ?msg \<le> 248")
    case True
    then obtain s' where s': "draw_commands api (map op_variant ops) 0 (length ops) None s = Some (Some S_OK, s')" "draw_state ?msg ?pad s'"
      using run by auto
    have cl: "VariantClears (vnt_par s') 2 \<noteq> None" "VariantClears (vnt_sub s') 5 \<noteq> None"
      using draw_full_clear [OF draw_state_full [OF s'(2)]] by simp_all
    show ?thesis
      using True s'(2) cl unfolding TPComm_DrawMiniTP_def
      by (simp add: SafeArrayAccessData_def n s'(1) [unfolded s_def] Let_def draw_state_def split: option.splits)
        (auto split: option.splits bind_splits)
  next
    case False
    then obtain s' where s': "draw_commands api (map op_variant ops) 0 (length ops) None s = Some (Some E_OUTOFMEMORY, s')" "draw_full s'"
      using run by auto
    show ?thesis
      using False draw_full_clear [OF s'(2)]
      by (simp add: TPComm_DrawMiniTP_def SafeArrayAccessData_def n s'(1) [unfolded s_def] Let_def)
  qed
qed

lemma new_bytes_array:
  "bs \<noteq> [] \<Longrightarrow> length bs < 2 ^ 31 \<Longrightarrow> new_bytes mem_ok bs = Some (byte_array bs (of_nat (length bs)) 0)"
  by (simp add: new_bytes_def new_array_def SafeArrayCreateVector_def sa_elem_size_def set_pvData_def unat_of_nat Let_def word_unat_eq_iff)

lemma new_variants_array:
  "vs \<noteq> [] \<Longrightarrow> length vs * 16 < 2 ^ 31 \<Longrightarrow> new_variants mem_ok vs = Some (variant_array vs (of_nat (length vs)) 0)"
  by (simp add: new_variants_def new_array_def SafeArrayCreateVector_def sa_elem_size_def set_pvData_def unat_of_nat Let_def word_unat_eq_iff)

text \<open>A command that is an array of two or more bytes: \<open>ChangeVarType\<close> cannot make variants of it.\<close>

lemma byte_command_undefined:
  assumes "te_mok (ta_env api) = mem_ok"
  shows "TPComm_DrawMiniTP api fd (variant_array (byte_array [c, v] 2 0 # rest) (of_nat (Suc (length rest))) lb) st = None"
proof (cases "unat (of_nat (Suc (length rest)) :: u32)")
  case 0
  then show ?thesis by (simp add: TPComm_DrawMiniTP_def SafeArrayAccessData_def del: of_nat_Suc)
next
  case (Suc k)
  have "ChangeVarType mem_ok (byte_array [c, v] 2 0) VT_VARIANT (Some (DestVariants (replicate 2 zero_variant))) 2 = None"
    using ChangeVarType_stride [of VT_UI1 1 "[c, v]" 2 2 "replicate 2 zero_variant" 0] by (simp add: copyable_def sa_elem_size_def)
  then have "change_vars mem_ok (byte_array [c, v] 2 0) (replicate 2 zero_variant) 2 = None"
    by (simp add: change_vars_def)
  moreover have "VariantClears (replicate 2 zero_variant) 2 = Some (replicate 2 zero_variant)"
    "VariantClears (replicate 5 zero_variant) 5 = Some (replicate 5 zero_variant)"
    using wf_VariantClear(2) [OF wf_zeros, of 2] wf_VariantClear(2) [OF wf_zeros, of 5] by simp_all
  ultimately show ?thesis
    using Suc by (simp add: TPComm_DrawMiniTP_def SafeArrayAccessData_def draw_command_def is_array_def assms Let_def del: of_nat_Suc)
qed

lemma draw_and_clear_bytes:
  "te_mok (ta_env api) = mem_ok \<Longrightarrow> Suc (length rest) * 16 < 2 ^ 31 \<Longrightarrow>
   draw_and_clear api fd (byte_array [c, v] 2 0 # rest) st = None"
  using byte_command_undefined [of api fd c v rest 0 st]
  by (simp add: draw_and_clear_def new_variants_array del: of_nat_Suc)

text \<open>
  \<open>TPComm_DrawString\<close>, \<open>TPComm_DrawLine\<close> and \<open>TPComm_DrawRectangle\<close> have no defined
  result, whatever their arguments: they put the colour into a byte array, and \<open>ChangeVarType\<close>
  stores its second byte into the middle of the first variant.
\<close>

lemma draw_helpers_undefined:
  assumes "te_mok (ta_env api) = mem_ok"
  shows "TPComm_DrawString api fd str x y siz attr fg bg st = None \<and>
    TPComm_DrawLine api fd x0 y0 x1 y1 fg st = None \<and>
    TPComm_DrawRectangle api fd x0 y0 x1 y1 fg bg st = None"
proof (intro conjI)
  show "TPComm_DrawString api fd str x y siz attr fg bg st = None"
    by (simp add: TPComm_DrawString_def assms new_bytes_array draw_and_clear_bytes Let_def Option.bind_rzero)
  show "TPComm_DrawLine api fd x0 y0 x1 y1 fg st = None"
    by (simp add: TPComm_DrawLine_def assms new_bytes_array draw_and_clear_bytes Let_def Option.bind_rzero)
  show "TPComm_DrawRectangle api fd x0 y0 x1 y1 fg bg st = None"
    by (simp add: TPComm_DrawRectangle_def assms new_bytes_array draw_and_clear_bytes Let_def Option.bind_rzero)
qed

end
