(* ===== verification/TpState.thy ===== *)
theory TpState
  imports TpDraw
begin

text \<open>
  The state of a pendant connection over time: what sending and receiving leave alone, the steps of
  the state that \<open>receive_execute\<close> takes, and what the state function of the caller is told.
\<close>

section \<open>Operations that keep an observation of the world\<close>

text \<open>
  \<open>told\<close> is what the call functions wrote down; the operations the code calls on devices, locks and
  the clock do not change it.
\<close>

definition env_keeps :: "('w \<Rightarrow> 'a) \<Rightarrow> 'w tp_env \<Rightarrow> bool" where
  "env_keeps told env \<longleftrightarrow>
     (\<forall>f s bs a w. told (snd (dev_send (te_io env) f s bs a w)) = told w) \<and>
     (\<forall>f s n t a w. told (snd (dev_recv (te_io env) f s n t a w)) = told w) \<and>
     (\<forall>s w. told (snd (tty_modem (te_tty env) s w)) = told w) \<and>
     (\<forall>f s t w. told (snd (te_clear env f s t w)) = told w) \<and>
     (\<forall>i w. told (snd (te_lock env i w)) = told w) \<and> (\<forall>i w. told (te_unlock env i w) = told w) \<and>
     (\<forall>w. told (snd (te_clock env w)) = told w)"

lemma env_keepsD:
  assumes "env_keeps told env"
  shows "dev_send (te_io env) f s bs a w = (hr, w1) \<Longrightarrow> told w1 = told w"
    and "dev_recv (te_io env) f s n t a w = (out, w1) \<Longrightarrow> told w1 = told w"
    and "tty_modem (te_tty env) s w = (m, w1) \<Longrightarrow> told w1 = told w"
    and "te_lock env i w = (hr, w1) \<Longrightarrow> told w1 = told w"
    and "te_clock env w = (now, w1) \<Longrightarrow> told w1 = told w"
    and "told (te_unlock env i w) = told w" and "told (snd (te_clear env g s t w)) = told w"
  using assms by (auto simp: env_keeps_def) (metis snd_conv)+

text \<open>A connection record that differs at most in the address of the peer.\<close>

definition same_dev :: "conn_param_common \<Rightarrow> conn_param_common \<Rightarrow> bool" where
  "same_dev d d' \<longleftrightarrow> d'\<lparr>arg := None\<rparr> = d\<lparr>arg := None\<rparr>"

lemma same_dev_refl [simp]: "same_dev d d"
  by (simp add: same_dev_def)

lemma same_dev_trans: "same_dev d e \<Longrightarrow> same_dev e f \<Longrightarrow> same_dev d f"
  by (simp add: same_dev_def)

lemma same_dev_arg [simp]: "same_dev d (d\<lparr>arg := a\<rparr>)"
  by (simp add: same_dev_def)

lemma same_dev_fields:
  assumes "same_dev d d'"
  shows "sock d' = sock d" and "conn_type d' = conn_type d"
  using assms by (cases d; cases d'; simp add: same_dev_def)+

definition untouched :: "('w \<Rightarrow> 'a) \<Rightarrow> 'w rstate \<Rightarrow> 'w rstate \<Rightarrow> bool" where
  "untouched told st st' \<longleftrightarrow> told (rworld st') = told (rworld st) \<and> same_dev (rdev st) (rdev st')"

lemma untouched_refl [simp]: "untouched told st st"
  by (simp add: untouched_def)

lemma untouched_trans: "untouched told st st1 \<Longrightarrow> untouched told st1 st2 \<Longrightarrow> untouched told st st2"
  by (auto simp: untouched_def intro: same_dev_trans)

lemma untouched_world: "told w = told (rworld st) \<Longrightarrow> untouched told st (st\<lparr>rworld := w\<rparr>)"
  by (simp add: untouched_def)

lemma dev_read_untouched: "env_keeps told env \<Longrightarrow> dev_read (te_io env) n a st = (out, st1) \<Longrightarrow> untouched told st st1"
  by (auto simp: dev_read_def untouched_def Let_def split: prod.splits dest: env_keepsD(2))

lemma check_sender_untouched: "check_sender client out st = (hr, st1) \<Longrightarrow> untouched told st st1"
  by (auto simp: check_sender_def untouched_def Let_def split: if_splits)

lemma rtk_find_enq_untouched:
  assumes "env_keeps told env" and "rtk_find_enq (te_io env) client parg hr buf st = Some y"
  shows "untouched told st (snd (snd y))"
proof -
  have "\<forall>env. io = te_io env \<longrightarrow> env_keeps told env \<longrightarrow> untouched told st (snd (snd y))"
    if "rtk_find_enq io client parg hr buf st = Some y" for io :: "'a io"
    using that
    apply (rule rtk_find_enq.raw_induct [where P = "\<lambda>io client parg hr buf st y.
        \<forall>env. io = te_io env \<longrightarrow> env_keeps told env \<longrightarrow> untouched told st (snd (snd y))", rotated])
    subgoal premises prems for fe io client parg hr buf st y
    proof (intro allI impI)
      fix env assume io: "io = te_io env" and env: "env_keeps told env"
      obtain out st1 where o: "dev_read io (UDP_MAX_PACKET - of_nat (length (align_enq buf))) parg st = (out, st1)" by fastforce
      obtain hr1 st2 where h: "check_sender client out st1 = (hr1, st2)" by fastforce
      have k: "untouched told st st2"
        using dev_read_untouched [OF env] o check_sender_untouched [OF h] io untouched_trans by blast
      show "untouched told st (snd (snd y))"
        using prems(2) prems(1) [of _ client parg hr1 _ st2 y] o h k io env
        by (auto simp: Let_def bind_eq_Some_conv split: if_splits intro: untouched_trans)
    qed
    done
  then show ?thesis using assms by blast
qed

lemma rtk_recv_rest_untouched:
  assumes "env_keeps told env" and "rtk_recv_rest (te_io env) parg len hr p n st = Some y"
  shows "untouched told st (snd (snd y))"
proof -
  have "\<forall>env. io = te_io env \<longrightarrow> env_keeps told env \<longrightarrow> untouched told st (snd (snd y))"
    if "rtk_recv_rest io parg len hr p n st = Some y" for io :: "'a io"
    using that
    apply (rule rtk_recv_rest.raw_induct [where P = "\<lambda>io parg len hr p n st y.
        \<forall>env. io = te_io env \<longrightarrow> env_keeps told env \<longrightarrow> untouched told st (snd (snd y))", rotated])
    subgoal premises prems for rr io parg len hr p n st y
    proof (intro allI impI)
      fix env assume io: "io = te_io env" and env: "env_keeps told env"
      obtain out st1 where o: "dev_read io (len - n) parg st = (out, st1)" by fastforce
      obtain hr1 st2 where h: "check_sender True out st1 = (hr1, st2)" by fastforce
      have k: "untouched told st st2"
        using dev_read_untouched [OF env] o check_sender_untouched [OF h] io untouched_trans by blast
      show "untouched told st (snd (snd y))"
        using prems(2) prems(1) [of io parg len hr1 _ _ st2 y] o h k io env
        by (auto simp: Let_def bind_eq_Some_conv split: if_splits intro: untouched_trans)
    qed
    done
  then show ?thesis using assms by blast
qed

lemma rtk_send_keeps:
  "env_keeps told env \<Longrightarrow> rtk_send (te_io env) d p w = Some (hr, p', w') \<Longrightarrow> told w' = told w"
  by (auto simp: rtk_send_def Let_def bind_eq_Some_conv case_prod_unfold env_keeps_def split: option.splits if_splits sum.splits)

lemma rtk_send_nak_keeps:
  "env_keeps told env \<Longrightarrow> rtk_send_nak (te_io env) mok fresh d f t w = Some (hr, w') \<Longrightarrow> told w' = told w"
  by (auto simp: rtk_send_nak_def bind_eq_Some_conv split: if_splits dest: rtk_send_keeps)

lemma rtk_attempts_untouched:
  assumes "env_keeps told env" and "rtk_attempts (te_io env) mok fresh client parg rn cnt hr p st = Some y"
  shows "untouched told st (snd (snd y))"
proof -
  have "\<forall>env. io = te_io env \<longrightarrow> env_keeps told env \<longrightarrow> untouched told st (snd (snd y))"
    if "rtk_attempts io mok fresh client parg rn cnt hr p st = Some y" for io :: "'a io"
    using that
    apply (rule rtk_attempts.raw_induct [where P = "\<lambda>io mok fresh client parg rn cnt hr p st y.
        \<forall>env. io = te_io env \<longrightarrow> env_keeps told env \<longrightarrow> untouched told st (snd (snd y))", rotated])
    subgoal premises prems for ra io mok fresh client parg rn cnt hr p st y
    proof (intro allI impI)
      fix env assume io: "io = te_io env" and env: "env_keeps told env"
      have ih: "ra io mok fresh client parg rn cnt' hr' p' st' = Some y \<Longrightarrow> untouched told st' (snd (snd y))" for cnt' hr' p' st'
        using prems(1) io env by blast
      show "untouched told st (snd (snd y))"
      proof (cases "rn < cnt")
        case True
        then show ?thesis using prems(2) by auto
      next
        case False
        then obtain hr1 buf st1 where f: "rtk_find_enq io client parg hr [] st = Some (hr1, buf, st1)"
          using prems(2) by (auto simp: bind_eq_Some_conv)
        have k1: "untouched told st st1" using rtk_find_enq_untouched [OF env] f io by fastforce
        let ?len = "8 + ucast (p_len buf) :: u32"
        consider "snd (snd y) = st1" | hr' p' where "ra io mok fresh client parg rn (cnt + 1) hr' p' st1 = Some y"
          | p1 hr2 p2 st2 where "rtk_recv_rest io parg ?len hr1 p1 (of_nat (length buf)) st1 = Some (hr2, p2, st2)"
              "snd (snd y) = st2"
          | p1 hr2 p2 st2 hr3 w where "rtk_recv_rest io parg ?len hr1 p1 (of_nat (length buf)) st1 = Some (hr2, p2, st2)"
              "rtk_send_nak io mok fresh (Some (rdev st2)) (p_from p2) (p_to p2) (rworld st2) = Some (hr3, w)"
              "snd (snd y) = st2\<lparr>rworld := w\<rparr> \<or> (\<exists>hr'. ra io mok fresh client parg rn (cnt + 1) hr' p2 (st2\<lparr>rworld := w\<rparr>) = Some y)"
          using prems(2) False f by (auto simp: Let_def bind_eq_Some_conv split: if_splits; blast)
        then show ?thesis
        proof cases
          case 1
          then show ?thesis using k1 by simp
        next
          case 2
          then show ?thesis using ih k1 untouched_trans by blast
        next
          case 3
          then show ?thesis using rtk_recv_rest_untouched [OF env] io k1 untouched_trans by fastforce
        next
          case (4 p1 hr2 p2 st2 hr3 w)
          have "untouched told st1 st2" using rtk_recv_rest_untouched [OF env] 4(1) io by fastforce
          moreover have "untouched told st2 (st2\<lparr>rworld := w\<rparr>)"
            using rtk_send_nak_keeps [OF env] 4(2) io by (intro untouched_world) blast
          ultimately have "untouched told st (st2\<lparr>rworld := w\<rparr>)" using k1 untouched_trans by blast
          then show ?thesis using 4(3) by (auto dest: ih intro: untouched_trans)
        qed
      qed
    qed
    done
  then show ?thesis using assms by blast
qed

lemma rtk_recv_keeps:
  assumes "env_keeps told env" and "rtk_recv (te_io env) mok fresh junk (Some d) p client rn w = Some (hr, p', d', w')"
  shows "told w' = told w \<and> (\<exists>e. d' = Some e \<and> same_dev d e)"
  using assms rtk_attempts_untouched [OF assms(1), of mok fresh client _ rn 0 "check_conn_param (Some d) RTK_CHECK_RECV" _
      "\<lparr>rdev = d, rflag = False, rworld = w\<rparr>"]
  by (fastforce simp: rtk_recv_def Let_def bind_eq_Some_conv untouched_def split: option.splits if_splits sum.splits)

section \<open>Sending and receiving leave the state alone\<close>

text \<open>
  Of the connection record, the operations below change the last packet, the address of the peer,
  the ids and the clock of the ping; the state and its clocks stay.
\<close>

definition calm :: "('w \<Rightarrow> 'a) \<Rightarrow> conn_param_tp \<Rightarrow> 'w \<Rightarrow> conn_param_tp \<Rightarrow> 'w \<Rightarrow> bool" where
  "calm told c w c' w' \<longleftrightarrow>
     told w' = told w \<and> tp_state c' = tp_state c \<and> tp_check_clock c' = tp_check_clock c \<and> tp_client c' = tp_client c \<and>
     tp_timer_flag c' = tp_timer_flag c \<and> tp_recv_flag c' = tp_recv_flag c \<and> same_dev (tp_device c) (tp_device c')"

lemma calm_refl [simp]: "calm told c w c w"
  by (simp add: calm_def)

lemma calm_trans: "calm told c w c1 w1 \<Longrightarrow> calm told c1 w1 c2 w2 \<Longrightarrow> calm told c w c2 w2"
  by (auto simp: calm_def intro: same_dev_trans)

lemma tp_send_calm:
  assumes "env_keeps told env" and "tp_send env command data len c w = Some (hr, c', w')"
  shows "calm told c w c' w'"
proof -
  obtain hr0 packet where p: "rtk_param2packet command data len (tp_from_id c) (tp_to_id c) (Some (te_packet env)) = Some (hr0, packet)"
    using assms(2) by (auto simp: tp_send_def bind_eq_Some_conv)
  show ?thesis
  proof (cases "FAILED hr0")
    case True
    then show ?thesis using assms(2) p by (simp add: tp_send_def)
  next
    case False
    then obtain hr1 p1 w1 where s: "rtk_send (te_io env) (Some (tp_device c)) packet w = Some (hr1, p1, w1)"
      using assms(2) p by (auto simp: tp_send_def bind_eq_Some_conv)
    obtain now w2 where t: "te_clock env w1 = (now, w2)" by fastforce
    have "told w2 = told w" using rtk_send_keeps [OF assms(1) s] env_keepsD(5) [OF assms(1) t] by simp
    then show ?thesis
      using assms(2) p False s t rtk_send_keeps [OF assms(1) s] by (auto simp: tp_send_def calm_def bind_eq_Some_conv split: if_splits)
  qed
qed

lemma check_cts_calm:
  assumes "env_keeps told env" and "check_cts env bits c w = (r, c', w')"
  shows "calm told c w c' w'"
proof -
  obtain hr st w1 where m: "com_get_modem_state (te_tty env) (sock (tp_device c)) (Some bits) w = (hr, st, w1)"
    by (cases "com_get_modem_state (te_tty env) (sock (tp_device c)) (Some bits) w")
  then have "told w1 = told w"
    using env_keepsD(3) [OF assms(1)] by (auto simp: com_get_modem_state_def split: if_splits prod.splits sys.splits option.splits)
  then show ?thesis
    using assms(2) env_keepsD(7) [OF assms(1)] m by (auto simp: check_cts_def calm_def Let_def split: if_splits)
qed

text \<open>An attempt ends the loop, or a \<open>NAK\<close> was answered with the last packet.\<close>

lemma tp_recv_loop_step:
  assumes "env_keeps told env" and "tp_recv_loop env rn k bits p c w = Some (hr, msg, c', w')"
  shows "calm told c w c' w' \<or> (\<exists>k' bits1 p1 c3 w3. k = Suc k' \<and> calm told c w c3 w3 \<and>
    tp_recv_loop env rn k' bits1 p1 c3 w3 = Some (hr, msg, c', w'))"
proof -
  obtain r c1 w1 where cts: "check_cts env bits c w = (r, c1, w1)" by (cases "check_cts env bits c w")
  note calm1 = check_cts_calm [OF assms(1) cts]
  show ?thesis
  proof (cases r)
    case (Inl e)
    then show ?thesis using assms(2) cts calm1 by (simp add: tp_recv_loop.simps)
  next
    case (Inr bits1)
    then obtain hr1 p1 d1 w2 where recv: "rtk_recv (te_io env) (te_mok env) (te_fresh env) (te_addr env) (Some (tp_device c1)) (Some p)
        (tp_client c1) rn w1 = Some (hr1, Some p1, Some d1, w2)"
      using assms(2) cts by (auto simp: tp_recv_loop.simps [of env rn k] bind_eq_Some_conv)
    have d1: "told w2 = told w1" "same_dev (tp_device c1) d1" using rtk_recv_keeps [OF assms(1) recv] by auto
    let ?c2 = "c1\<lparr>tp_device := d1\<rparr>"
    have calm2: "calm told c w ?c2 w2" using calm1 d1 by (auto simp: calm_def intro: same_dev_trans)
    consider "FAILED hr1" | "\<not> FAILED hr1" "NativeCommand (p_command p1) = RTK_CMD_NAK"
      | "\<not> FAILED hr1" "NativeCommand (p_command p1) \<noteq> RTK_CMD_NAK" by blast
    then show ?thesis
    proof cases
      case 1
      then show ?thesis using assms(2) cts Inr recv calm2 by (simp add: tp_recv_loop.simps [of env rn k])
    next
      case 3
      then show ?thesis
        using assms(2) cts Inr recv calm2
        by (auto simp: tp_recv_loop.simps [of env rn k] bind_eq_Some_conv calm_def)
    next
      case 2
      then obtain hr2 last w3 where snd: "rtk_send (te_io env) (Some d1) (Some (tp_last_packet c1)) w2 = Some (hr2, Some last, w3)"
        using assms(2) cts Inr recv by (auto simp: tp_recv_loop.simps [of env rn k] bind_eq_Some_conv)
      let ?c3 = "?c2\<lparr>tp_last_packet := last\<rparr>"
      have "told w3 = told w2" using rtk_send_keeps [OF assms(1) snd] .
      then have calm3: "calm told c w ?c3 w3" using calm2 by (simp add: calm_def)
      have step: "(if FAILED hr2 then Some (hr2, None, ?c3, w3)
          else case k of 0 \<Rightarrow> Some (E_INVALIDPACKET, None, ?c3, w3)
            | Suc k' \<Rightarrow> tp_recv_loop env rn k' bits1 p1 ?c3 w3) = Some (hr, msg, c', w')"
        using assms(2) cts Inr recv 2 snd by (simp add: tp_recv_loop.simps [of env rn k] Let_def split: if_splits)
      show ?thesis
      proof (cases "FAILED hr2 \<or> k = 0")
        case True
        then show ?thesis using step calm3 by (auto split: if_splits)
      next
        case False
        then obtain k' where "k = Suc k'" by (cases k) auto
        then show ?thesis using step calm3 False by auto
      qed
    qed
  qed
qed

lemma tp_recv_loop_calm:
  assumes "env_keeps told env"
  shows "tp_recv_loop env rn k bits p c w = Some (hr, msg, c', w') \<Longrightarrow> calm told c w c' w'"
proof (induction k arbitrary: bits p c w)
  case 0
  then show ?case using tp_recv_loop_step [OF assms, of rn 0] by blast
next
  case (Suc k)
  from tp_recv_loop_step [OF assms Suc.prems] show ?case by (blast dest: Suc.IH intro: calm_trans)
qed

lemma tp_recv_calm:
  "env_keeps told env \<Longrightarrow> tp_recv env rn c w = Some (hr, msg, c', w') \<Longrightarrow> calm told c w c' w'"
  unfolding tp_recv_def by (rule tp_recv_loop_calm)

lemma tp_try_calm:
  assumes "env_keeps told env"
  shows "tp_try env k command data len c w = Some (hr, c', w') \<Longrightarrow> calm told c w c' w'"
proof (induction k arbitrary: command c w)
  case 0
  then show ?case
    by (auto simp: tp_try.simps bind_eq_Some_conv split: if_splits dest!: tp_send_calm [OF assms] tp_recv_calm [OF assms] intro: calm_trans)
next
  case (Suc k)
  from Suc.prems show ?case
    by (auto simp: tp_try.simps [of env "Suc k"] bind_eq_Some_conv split: if_splits
        dest!: tp_send_calm [OF assms] tp_recv_calm [OF assms] Suc.IH intro: calm_trans)
qed

section \<open>The call functions\<close>

text \<open>The state function writes down the code it is given; the others write nothing.\<close>

definition tells :: "('w \<Rightarrow> i32 list) \<Rightarrow> 'w call_func_tp \<Rightarrow> bool" where
  "tells told func \<longleftrightarrow>
     (\<exists>f. Call_TPState func = Some f \<and> (\<forall>s w. told (snd (f s w)) = told w @ [s])) \<and>
     (\<forall>f k w. Call_TPKeyInfo func = Some f \<longrightarrow> told (snd (f k w)) = told w) \<and>
     (\<forall>f t w. Call_TPTouchInfo func = Some f \<longrightarrow> told (snd (f t w)) = told w)"

lemma tp_notify_tells:
  assumes "tells told func" and "tp_notify env func s w = Some (hr, w')"
  shows "told w' = told w @ [tp_code s]"
proof -
  obtain f where f: "Call_TPState func = Some f" "\<forall>s w. told (snd (f s w)) = told w @ [s]"
    using assms(1) by (auto simp: tells_def)
  have "load (le_bytes 4 (tp_code s)) 0 4 = Some (le_bytes 4 (tp_code s))" by (simp add: load_def)
  moreover have "le_word (le_bytes 4 (tp_code s)) = tp_code s" by (rule le_word_le_bytes_full) simp
  ultimately have "f (tp_code s) w = (hr, w')"
    using assms(2) f(1) by (simp add: tp_notify_def tp_callfunc_def)
  then show ?thesis using f(2) by (metis snd_conv)
qed

lemma tp_callfunc_tells:
  "tells told func \<Longrightarrow> command \<noteq> TP_CMD_SPECIAL \<Longrightarrow> tp_callfunc env func command data len w = Some (hr, w') \<Longrightarrow> told w' = told w"
  by (auto simp: tells_def tp_callfunc_def bind_eq_Some_conv split: if_splits option.splits) (metis snd_conv)+

text \<open>The execution of a command from the pendant, unless it is the one reserved for the state function.\<close>

lemma tp_execute_tells:
  assumes "env_keeps told env" and "tells told func" and "NativeCommand cmd \<noteq> TP_CMD_SPECIAL"
    and "tp_execute env func (cmd, len, data) hr tmp c w = Some (on, hr', tmp', c', w')"
  shows "calm told c w c' w' \<and> (tmp' = tmp \<or> tmp' = TP_CONNECT)"
proof -
  let ?ans = "NativeCommand cmd \<in> {RTK_CMD_REJ, RTK_CMD_ACK, RTK_CMD_NAK}"
  obtain hr1 c1 w1 where run: "(if ?ans then Some (hr, c, w)
      else do {
        (hr', w') \<leftarrow> tp_callfunc env func (NativeCommand cmd) data len w;
        tp_send env (if SUCCEEDED hr' then RTK_CMD_ACK else RTK_CMD_REJ) (Some []) 0 c w'
      }) = Some (hr1, c1, w1)"
    and rest: "(if FAILED hr1 \<and> \<not> ?ans then Some (False, hr1, tmp, c1, w1)
      else if tmp \<noteq> TP_CONNECT then
        (if NativeCommand cmd = TP_CMD_REQ_ID then do {
           (hr2, c2, w2) \<leftarrow> tp_send env TP_CMD_PING None 0 c1 w1;
           Some (True, hr2, tmp, c2, w2)
         }
         else Some (True, hr1, TP_CONNECT, c1, w1))
      else Some (True, hr1, tmp, c1, w1)) = Some (on, hr', tmp', c', w')"
    using assms(4) unfolding tp_execute_def prod.case Let_def by (elim bind_SomeE) (auto split: prod.splits)
  have "calm told c w c1 w1"
  proof (cases ?ans)
    case True
    then show ?thesis using run by simp
  next
    case False
    then obtain hr2 w2 where call: "tp_callfunc env func (NativeCommand cmd) data len w = Some (hr2, w2)"
      and send: "tp_send env (if SUCCEEDED hr2 then RTK_CMD_ACK else RTK_CMD_REJ) (Some []) 0 c w2 = Some (hr1, c1, w1)"
      using run by (auto simp: bind_eq_Some_conv)
    have "calm told c w c w2" using tp_callfunc_tells [OF assms(2,3) call] by (simp add: calm_def)
    then show ?thesis using tp_send_calm [OF assms(1) send] by (rule calm_trans)
  qed
  moreover have "calm told c1 w1 c' w' \<and> (tmp' = tmp \<or> tmp' = TP_CONNECT)"
    using rest tp_send_calm [OF assms(1), of TP_CMD_PING None 0 c1 w1]
    by (auto simp: bind_eq_Some_conv split: if_splits)
  ultimately show ?thesis by (auto intro: calm_trans)
qed

section \<open>The steps of the state\<close>

text \<open>The notices that go with a step from a state to a state.\<close>

fun notices :: "tp_state \<Rightarrow> tp_state \<Rightarrow> i32 list \<Rightarrow> bool" where
  "notices TP_CONNECT s ns \<longleftrightarrow> ns = (if s = TP_CONNECT then [] else [tp_code TP_DISCONNECT]) \<and> s \<noteq> TP_DISCONNECT"
| "notices TP_DISCONNECT s ns \<longleftrightarrow> s = TP_DISCONNECT \<and> ns = []"
| "notices s0 s ns \<longleftrightarrow> s = s0 \<and> ns = [] \<or> s \<noteq> TP_DISCONNECT \<and> ns = [tp_code s]"

text \<open>A step out of a state is late: the clock of the last step is more than ten seconds ago.\<close>

definition overdue :: "conn_param_tp \<Rightarrow> conn_param_tp \<Rightarrow> bool" where
  "overdue c c' \<longleftrightarrow> 10000 < calc_time_diff (tp_check_clock c) (tp_check_clock c')"

lemma tp_update_steps:
  assumes "env_keeps told env" and "tells told func" and "tp_update env func tmp hr c w = Some (hr', c', w')"
    and "tmp \<noteq> TP_DISCONNECT \<or> tp_state c = TP_DISCONNECT"
  shows "(\<exists>ns. told w' = told w @ ns \<and> notices (tp_state c) (tp_state c') ns) \<and>
    (tp_state c' = TP_TPERROR \<longrightarrow> tp_state c' \<noteq> tp_state c \<longrightarrow> overdue c c')"
proof -
  obtain cur w1 where t: "te_clock env w = (cur, w1)" by fastforce
  have w1: "told w1 = told w" using env_keepsD(5) [OF assms(1) t] .
  have told2: "told w2 = told w @ [tp_code s]" if "tp_notify env func s w1 = Some (hr1, w2)" for s hr1 w2
    using tp_notify_tells [OF assms(2) that] w1 by simp
  show ?thesis
  proof (cases "tp_state c")
    case TP_DISCONNECT
    then show ?thesis using assms(3) t w1 by (simp add: tp_update_def)
  next
    case TP_CONNECT
    then show ?thesis
      using assms(3,4) t w1 by (cases tmp) (auto simp: tp_update_def Let_def overdue_def dest!: told2 split: if_splits)
  next
    case TP_TPLESS
    then show ?thesis
      using assms(3,4) t w1 by (cases tmp) (auto simp: tp_update_def Let_def overdue_def dest!: told2 split: if_splits)
  next
    case TP_TPERROR
    then show ?thesis
      using assms(3,4) t w1 by (cases tmp) (auto simp: tp_update_def Let_def overdue_def dest!: told2 split: if_splits)
  qed
qed

text \<open>What is received is not the command that is reserved for the state function.\<close>

definition genuine :: "'w tp_env \<Rightarrow> nat \<Rightarrow> conn_param_tp \<Rightarrow> 'w \<Rightarrow> bool" where
  "genuine env i c w \<longleftrightarrow>
     (case tp_recv env TP_RETRY_NAK c (snd (te_lock env i w)) of
        Some (hr, Some (cmd, len, data), c1, w1) \<Rightarrow> NativeCommand cmd \<noteq> TP_CMD_SPECIAL
      | _ \<Rightarrow> True)"

lemma receive_execute_steps:
  assumes "env_keeps told env" and "tells told func" and "genuine env i c w"
    and "receive_execute env func i c w = Some (hr, c', w')"
  shows "(\<exists>ns. told w' = told w @ ns \<and> notices (tp_state c) (tp_state c') ns) \<and>
    (tp_state c' = TP_TPERROR \<longrightarrow> tp_state c' \<noteq> tp_state c \<longrightarrow> overdue c c')"
proof -
  have still: ?thesis if "calm told c w c' w'"
    using that by (intro conjI exI [of _ "[]"]) (cases "tp_state c"; simp add: calm_def)+
  obtain hr0 w0 where lk: "te_lock env i w = (hr0, w0)" by fastforce
  have w0: "told w0 = told w" using env_keepsD(4) [OF assms(1) lk] .
  show ?thesis
  proof (cases "FAILED hr0")
    case True
    then show ?thesis using assms(4) lk w0 by (intro still) (simp add: receive_execute_def calm_def)
  next
    case False
    obtain hr1 msg c1 w1 where rcv: "tp_recv env TP_RETRY_NAK c w0 = Some (hr1, msg, c1, w1)"
      using assms(4) lk False by (auto simp: receive_execute_def bind_eq_Some_conv)
    have calm1: "calm told c w c1 w1" using tp_recv_calm [OF assms(1) rcv] w0 by (simp add: calm_def)
    obtain on hr2 tmp c2 w2 hr3 c3 w3 where
      mid: "(if FAILED hr1 then Some (True, hr1, if hr1 = E_ACCESSDENIED then TP_TPLESS else TP_TPERROR, c1, w1)
          else do { m \<leftarrow> msg; tp_execute env func m hr1 (tp_state c) c1 w1 }) = Some (on, hr2, tmp, c2, w2)"
      and upd: "(if on then tp_update env func tmp hr2 c2 w2 else Some (hr2, c2, w2)) = Some (hr3, c3, w3)"
      and res: "c' = c3" "w' = te_unlock env i w3"
      using assms(4) lk False rcv by (auto simp: receive_execute_def bind_eq_Some_conv)
    have w3: "told w' = told w3" using env_keepsD(6) [OF assms(1)] res by simp
    have calm2: "calm told c w c2 w2 \<and> (tmp \<noteq> TP_DISCONNECT \<or> tp_state c = TP_DISCONNECT)"
    proof (cases "FAILED hr1")
      case True
      then show ?thesis using mid calm1 by (auto split: if_splits)
    next
      case fine: False
      then obtain cmd len data where m: "msg = Some (cmd, len, data)"
        and ex: "tp_execute env func (cmd, len, data) hr1 (tp_state c) c1 w1 = Some (on, hr2, tmp, c2, w2)"
        using mid by (auto simp: bind_eq_Some_conv)
      have "NativeCommand cmd \<noteq> TP_CMD_SPECIAL" using assms(3) lk rcv m by (simp add: genuine_def)
      from tp_execute_tells [OF assms(1,2) this ex] show ?thesis
        using calm1 by (auto intro: calm_trans)
    qed
    show ?thesis
    proof (cases on)
      case False
      then show ?thesis using upd calm2 res w3 by (intro still) (simp add: calm_def)
    next
      case True
      then have up: "tp_update env func tmp hr2 c2 w2 = Some (hr3, c3, w3)" using upd by simp
      have "tmp \<noteq> TP_DISCONNECT \<or> tp_state c2 = TP_DISCONNECT" using calm2 by (simp add: calm_def)
      from tp_update_steps [OF assms(1,2) up this] show ?thesis
        using calm2 w3 res by (auto simp: calm_def overdue_def)
    qed
  qed
qed

text \<open>Whatever the call functions do, the flags of the threads and the connection stay.\<close>

definition same_flags :: "conn_param_tp \<Rightarrow> conn_param_tp \<Rightarrow> bool" where
  "same_flags c c' \<longleftrightarrow>
     tp_timer_flag c' = tp_timer_flag c \<and> tp_recv_flag c' = tp_recv_flag c \<and> same_dev (tp_device c) (tp_device c')"

lemma env_keeps_unit: "env_keeps (\<lambda>_. ()) env"
  by (simp add: env_keeps_def)

lemma calm_flags: "calm told c w c' w' \<Longrightarrow> same_flags c c'"
  by (simp add: calm_def same_flags_def)

lemma same_flags_refl [simp]: "same_flags c c"
  by (simp add: same_flags_def)

lemma same_flags_trans: "same_flags c c1 \<Longrightarrow> same_flags c1 c2 \<Longrightarrow> same_flags c c2"
  by (auto simp: same_flags_def intro: same_dev_trans)

lemmas flags_of = calm_flags [OF tp_send_calm [OF env_keeps_unit]] calm_flags [OF tp_recv_calm [OF env_keeps_unit]]

lemma tp_execute_flags:
  "tp_execute env func m hr tmp c w = Some (on, hr', tmp', c', w') \<Longrightarrow> same_flags c c'"
  by (auto simp: tp_execute_def Let_def bind_eq_Some_conv split: prod.splits if_splits dest!: flags_of intro: same_flags_trans)

lemma tp_update_flags: "tp_update env func tmp hr c w = Some (hr', c', w') \<Longrightarrow> same_flags c c'"
  by (auto simp: tp_update_def Let_def same_flags_def split: prod.splits tp_state.splits if_splits)

lemma receive_execute_flags: "receive_execute env func i c w = Some (hr, c', w') \<Longrightarrow> same_flags c c'"
  by (auto simp: receive_execute_def bind_eq_Some_conv split: prod.splits if_splits
      dest!: flags_of tp_execute_flags tp_update_flags intro: same_flags_trans)

end
