(* ===== verification/RobotalkLine.thy ===== *)
theory RobotalkLine
  imports Robotalk SerialPort
begin

text \<open>
  Robotalk packets over a serial line. The interface \<open>byte_line\<close> is a device that hands out the bytes
  that are to come in chunks of any size; inside it \<open>rtk_recv\<close> finds and reassembles a packet.
  The interpretation is the driver of \<open>dn_com.c\<close>.
\<close>

locale byte_line =
  fixes io :: "'w io" and d :: conn_param_common
    and pend :: "'w \<Rightarrow> byte list" and ok :: "'w \<Rightarrow> bool"
  assumes com: "conn_type d = CONN_COM"
    and read: "ok w \<Longrightarrow> pend w \<noteq> [] \<Longrightarrow> n \<noteq> 0 \<Longrightarrow>
      \<exists>k fr w'. 0 < k \<and> k \<le> unat n \<and> k \<le> length (pend w) \<and>
        dev_recv io (the (dn_recv d)) (sock d) n (timeout d) a w =
          (RecvOut S_OK (Some (of_nat k)) (take k (pend w)) fr, w') \<and>
        ok w' \<and> pend w' = drop k (pend w)"
begin

abbreviation lst :: "bool \<Rightarrow> 'w \<Rightarrow> 'w rstate" where
  "lst f w \<equiv> \<lparr>rdev = d, rflag = f, rworld = w\<rparr>"

lemma line_read:
  assumes "ok w" and "pend w \<noteq> []" and "n \<noteq> 0"
  obtains k fr w' where "0 < k" "k \<le> unat n" "k \<le> length (pend w)"
    "dev_read io n a (lst f w) = (RecvOut S_OK (Some (of_nat k)) (take k (pend w)) fr, lst f w')"
    "ok w'" "pend w' = drop k (pend w)"
proof -
  obtain k fr w' where "0 < k" "k \<le> unat n" "k \<le> length (pend w)" "ok w'" "pend w' = drop k (pend w)"
    and "dev_recv io (the (dn_recv d)) (sock d) n (timeout d) a w =
          (RecvOut S_OK (Some (of_nat k)) (take k (pend w)) fr, w')"
    using read [OF assms, of a] by blast
  then show thesis by (intro that [of k fr w']) (simp_all add: dev_read_def)
qed

lemma check_sender_line [simp]: "check_sender known out (lst f w) = (r_hr out, lst f w)"
  by (simp add: check_sender_def com)

lemma recved_line [simp]:
  "k \<le> length bs \<Longrightarrow> k \<le> room \<Longrightarrow> recved room (RecvOut hr (Some (of_nat k)) (take k bs) fr) = Some (take k bs)"
  by (simp add: recved_def)

text \<open>
  The search: what is buffered and what is to come are noise followed by a packet; it ends with
  the start of the packet in the buffer.
\<close>

lemma align_enq_split:
  assumes "buf @ later = noise @ RTK_ENQ # tail" and "RTK_ENQ \<notin> set noise"
  obtains noise' where "align_enq buf @ later = noise' @ RTK_ENQ # tail" "RTK_ENQ \<notin> set noise'"
    "align_enq buf \<noteq> [] \<longrightarrow> noise' = []" "length (align_enq buf) \<le> length buf"
proof (cases "length buf \<le> length noise")
  case True
  then have buf: "buf = take (length buf) noise" and later: "later = drop (length buf) noise @ RTK_ENQ # tail"
    using arg_cong [OF assms(1), of "take (length buf)"] arg_cong [OF assms(1), of "drop (length buf)"] by simp_all
  have "set buf \<subseteq> set noise" using buf set_take_subset [of "length buf" noise] by simp
  then have "b \<noteq> RTK_ENQ" if "b \<in> set buf" for b
    using that assms(2) by auto
  then have "align_enq buf = []" by (simp add: align_enq_def dropWhile_eq_Nil_conv)
  then show thesis using later assms(2) by (intro that [of "drop (length buf) noise"]) (auto dest: in_set_dropD)
next
  case False
  then have buf: "buf = noise @ RTK_ENQ # drop (Suc (length noise)) buf"
    using arg_cong [OF assms(1), of "take (Suc (length noise))"]
    by (simp add: take_Cons') (metis append_take_drop_id append_Cons append_Nil append_assoc)
  have "dropWhile (\<lambda>b. b \<noteq> RTK_ENQ) (noise @ RTK_ENQ # drop (Suc (length noise)) buf) = RTK_ENQ # drop (Suc (length noise)) buf"
    using assms(2) by (subst dropWhile_append2) auto
  then have al: "align_enq buf = RTK_ENQ # drop (Suc (length noise)) buf" unfolding align_enq_def using buf by simp
  have "noise @ align_enq buf @ later = noise @ RTK_ENQ # tail" using buf assms(1) al by (metis append.assoc)
  then show thesis using al False by (intro that [of "[]"]) auto
qed

lemma rtk_find_enq_line:
  assumes "ok w" and "buf @ pend w = noise @ RTK_ENQ # tail" and "RTK_ENQ \<notin> set noise" and "7 \<le> length tail"
    and "length buf \<le> 503"
  shows "\<exists>buf' w'. rtk_find_enq io client parg S_OK buf (lst f w) = Some (S_OK, buf', lst f w') \<and>
    ok w' \<and> buf' @ pend w' = RTK_ENQ # tail \<and> 8 \<le> length buf' \<and> length buf' \<le> 503"
  using assms
proof (induction "length (pend w)" arbitrary: buf w noise rule: less_induct)
  case less
  obtain noise' where al: "align_enq buf @ pend w = noise' @ RTK_ENQ # tail" "RTK_ENQ \<notin> set noise'"
    "align_enq buf \<noteq> [] \<longrightarrow> noise' = []" "length (align_enq buf) \<le> length buf"
    by (rule align_enq_split [OF less.prems(2,3)])
  show ?case
  proof (cases "8 \<le> length (align_enq buf)")
    case True
    then have "align_enq buf \<noteq> []" by auto
    then show ?thesis
      using True al less.prems(1,5) by (auto simp: rtk_find_enq.simps [of _ _ _ _ buf])
  next
    case False
    let ?n = "UDP_MAX_PACKET - of_nat (length (align_enq buf)) :: u32"
    have n: "unat ?n = 503 - length (align_enq buf)"
      using False by (subst unat_sub) (simp_all add: word_le_nat_alt unat_of_nat)
    have "length (align_enq buf @ pend w) \<ge> 8" using al(1) less.prems(4) by simp
    then have ne: "pend w \<noteq> []" using False by auto
    have n0: "?n \<noteq> 0" using n False by (intro notI) simp
    obtain k fr w' where r: "0 < k" "k \<le> unat ?n" "k \<le> length (pend w)"
      "dev_read io ?n parg (lst f w) = (RecvOut S_OK (Some (of_nat k)) (take k (pend w)) fr, lst f w')"
      "ok w'" "pend w' = drop k (pend w)"
      by (rule line_read [OF less.prems(1) ne n0])
    have step: "rtk_find_enq io client parg S_OK buf (lst f w) =
        rtk_find_enq io client parg S_OK (align_enq buf @ take k (pend w)) (lst f w')"
      using False r n by (simp add: rtk_find_enq.simps [of _ _ _ _ buf] Let_def)
    have lt: "length (pend w') < length (pend w)" using r(1,3,6) by simp
    have eq: "(align_enq buf @ take k (pend w)) @ pend w' = noise' @ RTK_ENQ # tail" using al(1) r(6) by simp
    have "length (align_enq buf @ take k (pend w)) \<le> 503" using r(2) n False by simp
    then show ?thesis
      unfolding step by (rule less.hyps [OF lt r(5) eq al(2) less.prems(4)])
  qed
qed

text \<open>The rest of a packet, read piece by piece behind what is there.\<close>

lemma rtk_recv_rest_line:
  assumes "ok w" and "pend w = drop (unat n) full @ later" and "take (unat n) p = take (unat n) full"
    and "length full = unat len" and "unat len \<le> length p" and "unat n \<le> unat len"
  shows "\<exists>w'. rtk_recv_rest io parg len S_OK p n (lst f w) = Some (S_OK, full @ drop (length full) p, lst f w') \<and>
    ok w' \<and> pend w' = later"
  using assms
proof (induction "unat len - unat n" arbitrary: n p w rule: less_induct)
  case less
  show ?case
  proof (cases "len \<le> n")
    case True
    then have "unat n = length full" using less.prems(4,6) by (simp add: word_le_nat_alt)
    then show ?thesis
      using True less.prems by (simp add: rtk_recv_rest.simps [of io parg len S_OK p n]) (metis append_take_drop_id)
  next
    case False
    then have lt: "unat n < unat len" by (simp add: word_le_nat_alt)
    have room: "unat (len - n) = unat len - unat n" using lt by (simp add: unat_sub word_le_nat_alt)
    have "len - n \<noteq> 0" using False by auto
    moreover have ne: "pend w \<noteq> []" using lt less.prems(2,4) by auto
    ultimately obtain k fr w' where r: "0 < k" "k \<le> unat (len - n)" "k \<le> length (pend w)"
      "dev_read io (len - n) parg (lst f w) = (RecvOut S_OK (Some (of_nat k)) (take k (pend w)) fr, lst f w')"
      "ok w'" "pend w' = drop k (pend w)"
      using line_read [OF less.prems(1)] by metis
    have tk: "take k (pend w) = take k (drop (unat n) full)"
      using r(2) room less.prems(2,4) by simp
    have "unat len < 4294967296" by (rule order_less_le_trans [OF unsigned_less]) simp
    then have n': "unat (n + of_nat (length (take k (pend w)))) = unat n + k"
      using r(2,3) room lt by (simp add: unat_word_ariths unat_of_nat)
    obtain p' where p': "store p (unat n) (take k (pend w)) = Some p'"
      and pn: "p' = take (unat n) p @ take k (drop (unat n) full) @ drop (unat n + k) p"
      using r(2) room lt less.prems(4,5) unfolding tk by (auto simp: store_def)
    have step: "rtk_recv_rest io parg len S_OK p n (lst f w) =
        rtk_recv_rest io parg len S_OK p' (n + of_nat (length (take k (pend w)))) (lst f w')"
      using False r p' by (simp add: rtk_recv_rest.simps [of io parg len S_OK p n] Let_def)
    have len_p: "length p' = length p" using store_length [OF p'] by simp
    have "take (unat n + k) p' = take (unat n + k) full"
      using r(2) room lt less.prems(3-5) by (simp add: pn take_add)
    moreover have "pend w' = drop (unat n + k) full @ later"
      using r(2,6) room less.prems(2,4) by (simp add: add.commute)
    moreover have "drop (length full) p' = drop (length full) p"
      using r(2) room lt less.prems(4,5) by (simp add: pn)
    ultimately show ?thesis
      unfolding step
      using less.hyps [of "n + of_nat (length (take k (pend w)))" w' p'] r(1,2,5) room lt less.prems(4,5) len_p n' by simp
  qed
qed

text \<open>
  One pass over a packet on the line: with the right checksum it is stored in host order, with a
  wrong one a negative acknowledgement goes out.
\<close>

lemma rtk_attempts_packet:
  assumes "ok w" and "pend w = noise @ rtk_frame c f t data @ crc @ later" and "RTK_ENQ \<notin> set noise"
    and "length data \<le> 248" and "length crc = 2" and "length p = 256" and "cnt \<le> retry"
  obtains w' k where "ok w'" "pend w' = drop k later"
    "rtk_attempts io mok fresh client parg retry cnt S_OK p (lst fl w) =
      (if byte_sum (rtk_frame c f t data) = le_word (memcpy_be LITTLE crc)
       then Some (S_OK, rtk_host c f t data @ crc @ drop (8 + length data) p, lst fl w')
       else do {
         (hr3, w2) \<leftarrow> rtk_send_nak io mok fresh (Some d) f t w';
         if SUCCEEDED hr3
         then rtk_attempts io mok fresh client parg retry (cnt + 1) (if cnt = retry then E_INVALIDPACKET else hr3)
                (rtk_frame c f t data @ crc @ drop (8 + length data) p) (lst fl w2)
         else Some (hr3, rtk_host c f t data @ crc @ drop (8 + length data) p, lst fl w2)
       })"
proof -
  let ?full = "rtk_frame c f t data @ crc" and ?len = "8 + ucast (of_nat (length data) :: byte) :: u32"
  obtain tail where full: "?full = RTK_ENQ # of_nat (length data) # tail" and tail: "7 \<le> length (of_nat (length data) # tail)"
    using assms(5) by (simp add: rtk_frame_def)
  have lf: "length ?full = 8 + length data" using assms(5) by simp
  have "[] @ pend w = noise @ RTK_ENQ # of_nat (length data) # tail @ later" using assms(2) full by simp
  then obtain buf w1 where find: "rtk_find_enq io client parg S_OK [] (lst fl w) = Some (S_OK, buf, lst fl w1)"
    and w1: "ok w1" "buf @ pend w1 = ?full @ later" "8 \<le> length buf" "length buf \<le> 503"
    using rtk_find_enq_line [OF assms(1) _ assms(3), of "[]" "of_nat (length data) # tail @ later" client parg fl] tail full
    by auto
  have un: "unat (of_nat (length data) :: byte) = length data" using assms(4) by (rule unat_len)
  have len: "unat ?len = length ?full"
    using assms(4) lf by (simp add: unat_word_ariths unsigned_ucast_eq take_bit_nat_eq_self un)
  then have small: "\<not> 256 < ?len" using assms(4) lf by (simp add: word_less_nat_alt)
  have buf1: "p_len buf = of_nat (length data)"
  proof -
    have "buf ! 1 = (?full @ later) ! 1" using w1(3) arg_cong [OF w1(2), of "\<lambda>xs. xs ! 1"] by (simp add: nth_append)
    then show ?thesis by (simp add: p_len_def rtk_frame_def)
  qed
  let ?p1 = "take (unat ?len) buf @ drop (length (take (unat ?len) buf)) p"
  have st: "store p 0 (take (unat ?len) buf) = Some ?p1"
    using assms(4,6) len lf by (auto simp: store_def)
  have nb: "unat (of_nat (length buf) :: u32) = length buf" using w1(4) by (simp add: unat_of_nat)
  obtain w' k where w': "ok w'" "pend w' = drop k later"
    and rest: "rtk_recv_rest io parg ?len S_OK ?p1 (of_nat (length buf)) (lst fl w1) =
      Some (S_OK, ?full @ drop (8 + length data) p, lst fl w')"
  proof (cases "unat ?len \<le> length buf")
    case True
    have "take (unat ?len) buf = ?full" using arg_cong [OF w1(2), of "take (length ?full)"] True unfolding len by simp
    moreover have "pend w1 = drop (length buf - length ?full) later"
      using arg_cong [OF w1(2), of "drop (length buf)"] True unfolding len by simp
    moreover have "?len \<le> of_nat (length buf)" using True nb by (simp add: word_le_nat_alt)
    ultimately show thesis
      using w1(1) lf by (intro that [of w1]) (simp_all add: rtk_recv_rest.simps [of io parg ?len])
  next
    case False
    then have tk: "take (unat ?len) buf = buf" by simp
    have b: "buf = take (length buf) ?full" and pw: "pend w1 = drop (length buf) ?full @ later"
      using arg_cong [OF w1(2), of "take (length buf)"] arg_cong [OF w1(2), of "drop (length buf)"] False len by simp_all
    have "\<exists>w'. rtk_recv_rest io parg ?len S_OK ?p1 (of_nat (length buf)) (lst fl w1) =
        Some (S_OK, ?full @ drop (length ?full) ?p1, lst fl w') \<and> ok w' \<and> pend w' = later"
    proof (rule rtk_recv_rest_line [OF w1(1)])
      show "take (unat (of_nat (length buf) :: u32)) ?p1 = take (unat (of_nat (length buf) :: u32)) ?full"
        unfolding nb tk using b by simp
    qed (use pw nb len False lf assms(4,6) tk in auto)
    moreover have "drop (length ?full) ?p1 = drop (8 + length data) p"
      using False len lf by (simp add: tk)
    ultimately show thesis using that [of _ 0] by auto
  qed
  have crc: "rtk_crc_matches (?full @ drop (8 + length data) p) = Some (byte_sum (rtk_frame c f t data) = le_word (memcpy_be LITTLE crc))"
    using rtk_crc_matches_frame [OF assms(4,5)] by simp
  have ids: "p_from (?full @ drop (8 + length data) p) = f" "p_to (?full @ drop (8 + length data) p) = t"
    by (simp_all add: p_from_def p_to_def rtk_frame_def)
  have ret: "\<not> retry < cnt" using assms(7) by simp
  show thesis
    by (rule that [OF w'], subst rtk_attempts.simps)
       (simp only: ret if_False find Option.bind.bind_lunit prod.case FAILED_0 buf1 Let_def small st rest crc [unfolded append_assoc] ids [unfolded append_assoc]
         rstate.select_convs rstate.update_convs swap_command_frame append_assoc)
qed

text \<open>A length that does not fit costs an attempt and all that was buffered; the code stays a success.\<close>

lemma rtk_attempts_overlong:
  assumes "ok w" and "pend w = noise @ RTK_ENQ # l # tail" and "RTK_ENQ \<notin> set noise" and "6 \<le> length tail"
    and "RTK_LEN_MAX < l" and "cnt \<le> retry"
  obtains w' where "ok w'"
    "rtk_attempts io mok fresh client parg retry cnt S_OK p (lst fl w) =
     rtk_attempts io mok fresh client parg retry (cnt + 1) S_OK p (lst fl w')"
proof -
  obtain buf w' where find: "rtk_find_enq io client parg S_OK [] (lst fl w) = Some (S_OK, buf, lst fl w')"
    and w': "ok w'" "buf @ pend w' = RTK_ENQ # l # tail" "8 \<le> length buf"
    using rtk_find_enq_line [OF assms(1) _ assms(3), of "[]" "l # tail" client parg fl] assms(2,4) by auto
  have "p_len buf = l"
    using w'(3) arg_cong [OF w'(2), of "\<lambda>xs. xs ! 1"] by (simp add: p_len_def nth_append)
  moreover have "256 < (8 + ucast l :: u32)"
  proof -
    have "unat l < 256" using unsigned_less [of l] by simp
    moreover have "248 < unat l" using assms(5) by (simp add: word_less_nat_alt)
    ultimately show ?thesis
      by (simp add: word_less_nat_alt unat_word_ariths unsigned_ucast_eq take_bit_nat_eq_self)
  qed
  ultimately have "rtk_attempts io mok fresh client parg retry cnt S_OK p (lst fl w) =
     rtk_attempts io mok fresh client parg retry (cnt + 1) S_OK p (lst fl w')"
    using assms(6) find by (subst rtk_attempts.simps) (simp add: Let_def not_less [symmetric])
  then show thesis using w'(1) that by blast
qed

end

section \<open>The serial driver is such a line\<close>

interpretation line: byte_line "device_io os line_tty" "com_device sck tmo" stream
    "\<lambda>w. segments_ok w \<and> 0 < sint sck \<and> sent w = x"
proof unfold_locales
  fix w :: net and n :: u32 and a :: dev_arg
  assume w: "segments_ok w \<and> 0 < sint sck \<and> sent w = x" and ne: "stream w \<noteq> []" "n \<noteq> 0"
  then obtain k w' where "0 < k \<and> k \<le> unat n \<and> k \<le> length (stream w) \<and>
    com_recv line_tty sck n tmo a w =
      (RecvOut S_OK (Some (of_nat k)) (take k (stream w)) \<lparr>s_addr = 0, sin_port = 0\<rparr>, w') \<and>
    segments_ok w' \<and> stream w' = drop k (stream w) \<and> sent w' = sent w"
    using com_recv_line [of w sck n tmo a] by blast
  with w show "\<exists>k fr w'. 0 < k \<and> k \<le> unat n \<and> k \<le> length (stream w) \<and>
        dev_recv (device_io os line_tty) (the (dn_recv (com_device sck tmo))) (sock (com_device sck tmo)) n
          (timeout (com_device sck tmo)) a w = (RecvOut S_OK (Some (of_nat k)) (take k (stream w)) fr, w') \<and>
        (segments_ok w' \<and> 0 < sint sck \<and> sent w' = x) \<and> stream w' = drop k (stream w)"
    by (intro exI [of _ k] exI [of _ "\<lparr>s_addr = 0, sin_port = 0\<rparr>"] exI [of _ w'])
      (simp add: device_io_def com_device_def)
qed (simp add: com_device_def)

lemma com_rtk_device [simp]: "0 < sint sck \<Longrightarrow> rtk_device (com_device sck tmo)"
  by (simp add: rtk_device_def com_device_def)

lemma com_fields [simp]:
  "rtk_arg f (com_device sck tmo) = Inr ArgNull" "rtk_parg (com_device sck tmo) = ArgNull"
  "dn_send (com_device sck tmo) = Some F_com_send" "sock (com_device sck tmo) = sck"
  by (simp_all add: com_device_def rtk_arg_def rtk_parg_def)

lemma line_send:
  "0 < sint sck \<Longrightarrow> bs \<noteq> [] \<Longrightarrow> hd bs \<noteq> 0 \<Longrightarrow>
   dev_send (device_io os line_tty) F_com_send sck bs a w = (S_OK, w\<lparr>sent := sent w @ bs\<rparr>)"
  by (simp add: device_io_def com_send_def line_tty_def)

lemma rtk_wire_start [simp]: "rtk_wire c f t data \<noteq> []" "hd (rtk_wire c f t data) = RTK_ENQ"
  by (simp_all add: rtk_wire_def rtk_frame_def)

lemma rtk_recv_line:
  assumes "0 < sint sck"
  shows "rtk_recv io mok fresh junk (Some (com_device sck tmo)) (Some p) client retry w =
    map_option (\<lambda>(hr, p', st). (hr, Some p', Some (rdev st), rworld st))
      (rtk_attempts io mok fresh client ArgNull retry 0 S_OK p \<lparr>rdev = com_device sck tmo, rflag = False, rworld = w\<rparr>)"
  using rtk_device_checks(2) [OF com_rtk_device [OF assms], of tmo]
  by (simp add: rtk_recv_def map_option_case Option.bind_def split: option.splits)

lemma rtk_nak_line:
  assumes "0 < sint sck" and "mok 8" and "8 \<le> length fresh"
  shows "rtk_send_nak (device_io os line_tty) mok fresh (Some (com_device sck tmo)) f t w =
    Some (S_OK, w\<lparr>sent := sent w @ rtk_wire RTK_CMD_NAK f t []\<rparr>)"
proof -
  have "rtk_param2packet RTK_CMD_NAK None 0 f t (Some (take 8 fresh)) =
      Some (S_OK, Some (rtk_frame RTK_CMD_NAK f t [] @ drop 6 (take 8 fresh)))"
    using rtk_param2packet_frame [of "[]" "take 8 fresh" RTK_CMD_NAK f t] assms(3) by (simp add: rtk_param2packet_def)
  then show ?thesis
    using assms rtk_send_frame [of "com_device sck tmo" "[]" "drop 6 (take 8 fresh)" "device_io os line_tty" RTK_CMD_NAK f t w]
    by (simp add: rtk_send_nak_def line_send)
qed


text \<open>A packet that is on its way is received at the first attempt.\<close>

lemma rtk_recv_wire:
  assumes "segments_ok w" and "stream w = noise @ rtk_wire c f t data @ later" and "RTK_ENQ \<notin> set noise"
    and "length data \<le> 248" and "length p = 256" and "0 < sint sck"
  shows "\<exists>w' k rest. rtk_recv (device_io os line_tty) mok fresh junk (Some (com_device sck tmo)) (Some p) client retry w =
      Some (S_OK, Some (rtk_host c f t data @ rest), Some (com_device sck tmo), w') \<and>
    segments_ok w' \<and> stream w' = drop k later \<and> sent w' = sent w"
proof -
  obtain w' k where w': "segments_ok w' \<and> 0 < sint sck \<and> sent w' = sent w" "stream w' = drop k later"
    and "rtk_attempts (device_io os line_tty) mok fresh client ArgNull retry 0 S_OK p
        \<lparr>rdev = com_device sck tmo, rflag = False, rworld = w\<rparr> =
      Some (S_OK, rtk_host c f t data @ be16 (byte_sum (rtk_frame c f t data)) @ drop (8 + length data) p,
        \<lparr>rdev = com_device sck tmo, rflag = False, rworld = w'\<rparr>)"
    by (rule line.rtk_attempts_packet [of w sck "sent w" noise c f t data "be16 (byte_sum (rtk_frame c f t data))" later p 0 retry])
       (use assms be16_word [of "byte_sum (rtk_frame c f t data)"] in \<open>auto simp: rtk_wire_def\<close>)
  then show ?thesis using assms(6) by (auto simp: rtk_recv_line)
qed

section \<open>What sender and receiver agree on\<close>

text \<open>
  C9: A packet built by \<open>rtk_param2packet\<close> and sent by \<open>rtk_send\<close> puts a string of
  bytes on the line from which, whatever noise without an \<open>ENQ\<close> precedes it, whatever follows, and
  however the line cuts it into chunks, \<open>rtk_recv\<close> returns a packet with the same command, ids
  and data, at the first attempt and without an answer.
\<close>

theorem rtk_roundtrip_line:
  assumes "length data \<le> 248" and "length q = 256" and "0 < sint sck"
  shows "\<exists>pk pk' bs.
    rtk_param2packet c (Some data) (of_nat (length data)) f t (Some q) = Some (S_OK, Some pk) \<and>
    rtk_send (device_io os line_tty) (Some (com_device sck tmo)) (Some pk) w0 =
      Some (S_OK, Some pk', w0\<lparr>sent := sent w0 @ bs\<rparr>) \<and>
    (\<forall>w noise later p client retry junk. segments_ok w \<longrightarrow> stream w = noise @ bs @ later \<longrightarrow>
       RTK_ENQ \<notin> set noise \<longrightarrow> length p = 256 \<longrightarrow>
       (\<exists>p' w' k. rtk_recv (device_io os line_tty) mok fresh junk (Some (com_device sck tmo)) (Some p) client retry w =
            Some (S_OK, Some p', Some (com_device sck tmo), w') \<and>
          p_command p' = c \<and> p_from p' = f \<and> p_to p' = t \<and> p_data p' = data \<and>
          stream w' = drop k later \<and> sent w' = sent w))"
proof -
  let ?pk = "rtk_frame c f t data @ drop (6 + length data) q" and ?bs = "rtk_wire c f t data"
  let ?pk' = "?bs @ drop 2 (drop (6 + length data) q)"
  show ?thesis
  proof (rule exI [of _ ?pk], rule exI [of _ ?pk'], rule exI [of _ ?bs], intro conjI allI impI)
    show "rtk_param2packet c (Some data) (of_nat (length data)) f t (Some q) = Some (S_OK, Some ?pk)"
      using assms(1,2) by (simp add: rtk_param2packet_frame)
    show "rtk_send (device_io os line_tty) (Some (com_device sck tmo)) (Some ?pk) w0 =
        Some (S_OK, Some ?pk', w0\<lparr>sent := sent w0 @ ?bs\<rparr>)"
      using assms by (subst rtk_send_frame) (simp_all add: line_send)
    fix w :: net and noise later and p :: rtk_packet and client :: bool and retry :: u32 and junk
    assume w: "segments_ok w" "stream w = noise @ ?bs @ later" "RTK_ENQ \<notin> set noise" "length p = 256"
    obtain w' k rest where "rtk_recv (device_io os line_tty) mok fresh junk (Some (com_device sck tmo)) (Some p) client retry w =
        Some (S_OK, Some (rtk_host c f t data @ rest), Some (com_device sck tmo), w') \<and>
      segments_ok w' \<and> stream w' = drop k later \<and> sent w' = sent w"
      using rtk_recv_wire [OF w(1,2,3) assms(1) w(4) assms(3)] by blast
    then show "\<exists>p' w' k. rtk_recv (device_io os line_tty) mok fresh junk (Some (com_device sck tmo)) (Some p) client retry w =
              Some (S_OK, Some p', Some (com_device sck tmo), w') \<and>
            p_command p' = c \<and> p_from p' = f \<and> p_to p' = t \<and> p_data p' = data \<and>
            stream w' = drop k later \<and> sent w' = sent w"
      using assms rtk_host_fields [of data c f t] by auto
  qed
qed

text \<open>
  A packet whose checksum does not match is not accepted: at the last attempt
  \<open>rtk_recv\<close> reports \<open>E_INVALIDPACKET\<close>, and it answers with a negative acknowledgement, which carries
  the ids of the packet as they were, the sender's as its own sender.
\<close>

lemma rtk_recv_corrupt:
  assumes "segments_ok w" and "stream w = noise @ rtk_frame c f t data @ crc @ later" and "RTK_ENQ \<notin> set noise"
    and "length data \<le> 248" and "length crc = 2" and "le_word (memcpy_be LITTLE crc) \<noteq> byte_sum (rtk_frame c f t data)"
    and "length p = 256" and "0 < sint sck" and "mok 8" and "8 \<le> length fresh"
  shows "\<exists>p' w'. rtk_recv (device_io os line_tty) mok fresh junk (Some (com_device sck tmo)) (Some p) client 0 w =
      Some (E_INVALIDPACKET, Some p', Some (com_device sck tmo), w') \<and>
    sent w' = sent w @ rtk_wire RTK_CMD_NAK f t []"
proof -
  obtain w' k where w': "segments_ok w' \<and> 0 < sint sck \<and> sent w' = sent w" "stream w' = drop k later"
    and att: "rtk_attempts (device_io os line_tty) mok fresh client ArgNull 0 0 S_OK p
        \<lparr>rdev = com_device sck tmo, rflag = False, rworld = w\<rparr> =
      (if byte_sum (rtk_frame c f t data) = le_word (memcpy_be LITTLE crc)
       then Some (S_OK, rtk_host c f t data @ crc @ drop (8 + length data) p,
              \<lparr>rdev = com_device sck tmo, rflag = False, rworld = w'\<rparr>)
       else do {
         (hr3, w2) \<leftarrow> rtk_send_nak (device_io os line_tty) mok fresh (Some (com_device sck tmo)) f t w';
         if SUCCEEDED hr3
         then rtk_attempts (device_io os line_tty) mok fresh client ArgNull 0 (0 + 1) (if (0 :: u32) = 0 then E_INVALIDPACKET else hr3)
                (rtk_frame c f t data @ crc @ drop (8 + length data) p)
                \<lparr>rdev = com_device sck tmo, rflag = False, rworld = w2\<rparr>
         else Some (hr3, rtk_host c f t data @ crc @ drop (8 + length data) p,
                \<lparr>rdev = com_device sck tmo, rflag = False, rworld = w2\<rparr>)
       })"
    by (rule line.rtk_attempts_packet [of w sck "sent w" noise c f t data crc later p 0 0]) (use assms in auto)
  show ?thesis
    using assms(6,8-10) w'(1)
    by (simp add: rtk_recv_line att rtk_nak_line rtk_attempts.simps [of _ _ _ _ _ _ 1] del: memcpy_be_LITTLE)
qed

text \<open>
  A packet that claims more data than a packet can hold is not reported at the
  last attempt: \<open>rtk_recv\<close> returns success and leaves the caller's packet as it was.
\<close>

lemma rtk_recv_overlong:
  assumes "segments_ok w" and "stream w = noise @ RTK_ENQ # l # tail" and "RTK_ENQ \<notin> set noise"
    and "6 \<le> length tail" and "RTK_LEN_MAX < l" and "0 < sint sck"
  shows "\<exists>w'. rtk_recv (device_io os line_tty) mok fresh junk (Some (com_device sck tmo)) (Some p) client 0 w =
      Some (S_OK, Some p, Some (com_device sck tmo), w')"
proof -
  obtain w' where "rtk_attempts (device_io os line_tty) mok fresh client ArgNull 0 0 S_OK p
        \<lparr>rdev = com_device sck tmo, rflag = False, rworld = w\<rparr> =
      rtk_attempts (device_io os line_tty) mok fresh client ArgNull 0 (0 + 1) S_OK p
        \<lparr>rdev = com_device sck tmo, rflag = False, rworld = w'\<rparr>"
    by (rule line.rtk_attempts_overlong [of w sck "sent w" noise l tail 0 0]) (use assms in auto)
  then show ?thesis
    using assms(6) by (simp add: rtk_recv_line rtk_attempts.simps [of _ _ _ _ _ _ 1])
qed


section \<open>Examples\<close>

text \<open>A line on which \<open>bs\<close> comes in two chunks.\<close>

definition chunked :: "byte list \<Rightarrow> net" where
  "chunked bs = \<lparr>arrived = [], coming = [take 3 bs, drop 3 bs], sent = []\<rparr>"

lemma chunked_line: "4 \<le> length bs \<Longrightarrow> segments_ok (chunked bs) \<and> stream (chunked bs) = bs \<and> sent (chunked bs) = []"
  by (auto simp: chunked_def segments_ok_def stream_def)

lemma rtk_roundtrip_line_witness:
  "\<exists>pk pk' bs.
    rtk_param2packet 0x0C28 (Some [0, 5]) (of_nat (length [0, 5 :: byte])) 0x11 0x90 (Some (replicate 256 0)) = Some (S_OK, Some pk) \<and>
    rtk_send (device_io net_os line_tty) (Some (com_device 3 1000)) (Some pk) quiet =
      Some (S_OK, Some pk', quiet\<lparr>sent := sent quiet @ bs\<rparr>) \<and>
    (\<forall>w noise later p client retry junk. segments_ok w \<longrightarrow> stream w = noise @ bs @ later \<longrightarrow>
       RTK_ENQ \<notin> set noise \<longrightarrow> length p = 256 \<longrightarrow>
       (\<exists>p' w' k. rtk_recv (device_io net_os line_tty) mem_ok [] junk (Some (com_device 3 1000)) (Some p) client retry w =
            Some (S_OK, Some p', Some (com_device 3 1000), w') \<and>
          p_command p' = 0x0C28 \<and> p_from p' = 0x11 \<and> p_to p' = 0x90 \<and> p_data p' = [0, 5] \<and>
          stream w' = drop k later \<and> sent w' = sent w))"
  by (rule rtk_roundtrip_line) simp_all

lemma rtk_recv_corrupt_witness:
  "\<exists>p' w'. rtk_recv (device_io net_os line_tty) mem_ok (replicate 8 0) \<lparr>s_addr = 0, sin_port = 0\<rparr> (Some (com_device 3 1000))
      (Some (replicate 256 0)) True 0 (chunked (rtk_frame 0x0C28 0x90 0x11 [0, 5] @ [0, 0])) =
      Some (E_INVALIDPACKET, Some p', Some (com_device 3 1000), w') \<and>
    sent w' = sent (chunked (rtk_frame 0x0C28 0x90 0x11 [0, 5] @ [0, 0])) @ rtk_wire RTK_CMD_NAK 0x90 0x11 []"
  by (rule rtk_recv_corrupt [of _ "[]" _ _ _ _ "[0, 0]" "[]"])
     (simp_all add: chunked_line, simp_all add: rtk_frame_def)

lemma rtk_recv_overlong_witness:
  "\<exists>w'. rtk_recv (device_io net_os line_tty) mem_ok [] \<lparr>s_addr = 0, sin_port = 0\<rparr> (Some (com_device 3 1000))
      (Some (replicate 256 0)) True 0 (chunked [RTK_ENQ, 249, 0, 0, 0, 0, 0, 0]) =
      Some (S_OK, Some (replicate 256 0), Some (com_device 3 1000), w')"
  by (rule rtk_recv_overlong [of _ "[]" 249 "[0, 0, 0, 0, 0, 0]"]) (simp_all add: chunked_line)

lemma rtk_calc_crc_detects_witness:
  "rtk_calc_crc (Some (rtk_frame 0x0C28 0x90 0x11 [0, 5])) \<noteq> None \<and>
   (rtk_calc_crc (Some ((rtk_frame 0x0C28 0x90 0x11 [0, 5])[7 := 6])) = rtk_calc_crc (Some (rtk_frame 0x0C28 0x90 0x11 [0, 5])) \<longleftrightarrow>
     crc_length (rtk_frame 0x0C28 0x90 0x11 [0, 5]) \<le> 7)"
  by (rule rtk_calc_crc_detects) (simp_all add: rtk_frame_def crc_length_def p_len_def)

end
