(* ===== verification/TpThreads.thy ===== *)
theory TpThreads
  imports TpState RobotalkLine
begin

text \<open>
  The two threads of a pendant connection (\<open>recv_thread\<close>, \<open>timer_thread\<close>) and the caller as a step
  relation over the one connection the table has room for. A step is what a thread does between
  two places where another can come in: an operation under the mutex, a test of a flag, an
  operation of the event. The sleeps only delay a thread and are left out.

  The fields of \<open>struct TP_FLAGS\<close> share one byte. The receiver, the timer and the requests write it under
  the mutex; \<open>TPComm_Close\<close> clears the two flags of the threads without it. Its write therefore is two
  steps here, a read of the byte and a write of the byte: what others change in between is undone. In the
  other direction a section under the mutex that read the byte before writes it back behind: then the
  clearing has no effect. A section is one step, so a write that falls into it counts as before or behind it.
\<close>

datatype recv_pc = RStart | RTest | RRun | RSet | RLast | REnd
datatype timer_pc = TStart | TTest | TTick | TRun | TReset | TWait | TBlocked | TEnd
datatype actor = Receiver | Timer | Caller

text \<open>The byte of the flags: client, init, state, cts, and the flags of the timer and the receiver.\<close>

type_synonym flags_byte = "bool \<times> bool \<times> tp_state \<times> bool \<times> bool \<times> bool"

definition read_flags :: "conn_param_tp \<Rightarrow> flags_byte" where
  "read_flags c = (tp_client c, tp_init c, tp_state c, tp_cts c, tp_timer_flag c, tp_recv_flag c)"

fun write_flags :: "flags_byte \<Rightarrow> conn_param_tp \<Rightarrow> conn_param_tp" where
  "write_flags (cl, ini, st, cts, tf, rf) c =
     c\<lparr>tp_client := cl, tp_init := ini, tp_state := st, tp_cts := cts, tp_timer_flag := tf, tp_recv_flag := rf\<rparr>"

text \<open>Where the caller is in \<open>TPComm_Close\<close>: before it, or at the clearing of one of the two flags.\<close>

datatype closing = Serving | ReadTimer flags_byte | ClearedTimer | ReadRecv flags_byte | ClearedRecv

record 'w tp_threads =
  sys :: "'w tp"
  tp_evt :: event_t
  rpc_tp :: recv_pc
  tpc_tp :: timer_pc
  closer :: closing

abbreviation conn :: "'w tp_threads \<Rightarrow> conn_param_tp" where
  "conn s \<equiv> tps (sys s) ! 0"

definition set_conn :: "conn_param_tp \<Rightarrow> 'w \<Rightarrow> 'w tp_threads \<Rightarrow> 'w tp_threads" where
  "set_conn c w s = s\<lparr>sys := upd_tp 0 c w (sys s)\<rparr>"

inductive tp_thread_step :: "'w tp_api \<Rightarrow> actor \<Rightarrow> 'w tp_threads \<Rightarrow> 'w tp_threads \<Rightarrow> bool" for api where
  recv_start: "rpc_tp s = RStart \<Longrightarrow> te_clock (ta_env api) (tp_world (sys s)) = (now, w) \<Longrightarrow>
    tp_thread_step api Receiver s (set_conn ((conn s)\<lparr>tp_check_clock := now\<rparr>) w s\<lparr>rpc_tp := RTest\<rparr>)"
| recv_test: "rpc_tp s = RTest \<Longrightarrow>
    tp_thread_step api Receiver s (s\<lparr>rpc_tp := if tp_recv_flag (conn s) then RRun else RLast\<rparr>)"
| recv_run: "rpc_tp s = RRun \<Longrightarrow>
    receive_execute (ta_env api) (tp_func (sys s)) 0 (conn s) (tp_world (sys s)) = Some (hr, c, w) \<Longrightarrow>
    tp_thread_step api Receiver s (set_conn c w s\<lparr>rpc_tp := RSet\<rparr>)"
| recv_set: "rpc_tp s = RSet \<Longrightarrow> set_event (Some (tp_evt s)) = (hr, Some e) \<Longrightarrow>
    tp_thread_step api Receiver s (s\<lparr>tp_evt := e, rpc_tp := RTest\<rparr>)"
| recv_last: "rpc_tp s = RLast \<Longrightarrow> set_event (Some (tp_evt s)) = (hr, Some e) \<Longrightarrow>
    tp_thread_step api Receiver s (s\<lparr>tp_evt := e, rpc_tp := REnd\<rparr>)"
| timer_start: "tpc_tp s = TStart \<Longrightarrow> te_clock (ta_env api) (tp_world (sys s)) = (now, w) \<Longrightarrow>
    tp_thread_step api Timer s (set_conn ((conn s)\<lparr>tp_init_clock := now\<rparr>) w s\<lparr>tpc_tp := TTest\<rparr>)"
| timer_test: "tpc_tp s = TTest \<Longrightarrow>
    tp_thread_step api Timer s (s\<lparr>tpc_tp := if tp_timer_flag (conn s) then TTick else TEnd\<rparr>)"
| timer_tick: "tpc_tp s = TTick \<Longrightarrow> te_clock (ta_env api) (tp_world (sys s)) = (now, w) \<Longrightarrow>
    tp_thread_step api Timer s (set_conn ((conn s)\<lparr>tp_timer_clock := now\<rparr>) w s\<lparr>tpc_tp := TRun\<rparr>)"
| timer_run: "tpc_tp s = TRun \<Longrightarrow>
    timer_event (ta_env api) 0 (conn s) (tp_world (sys s)) = Some (hr, c, w) \<Longrightarrow>
    tp_thread_step api Timer s (set_conn c w s\<lparr>tpc_tp := if hr = S_FALSE then TReset else TTest\<rparr>)"
| timer_reset: "tpc_tp s = TReset \<Longrightarrow> reset_event (Some (tp_evt s)) = (hr, Some e) \<Longrightarrow>
    tp_thread_step api Timer s (s\<lparr>tp_evt := e, tpc_tp := TWait\<rparr>)"
| timer_pass: "tpc_tp s = TWait \<Longrightarrow> wait_enter (tp_evt s) = Some (hr, e) \<Longrightarrow>
    tp_thread_step api Timer s (s\<lparr>tp_evt := e, tpc_tp := TTest\<rparr>)"
| timer_block: "tpc_tp s = TWait \<Longrightarrow> wait_enter (tp_evt s) = None \<Longrightarrow>
    tp_thread_step api Timer s (s\<lparr>tpc_tp := TBlocked\<rparr>)"
| timer_woken: "tpc_tp s = TBlocked \<Longrightarrow> signalled (tp_evt s) \<Longrightarrow> wait_return INFINITE False (tp_evt s) = (hr, e) \<Longrightarrow>
    tp_thread_step api Timer s (s\<lparr>tp_evt := e, tpc_tp := TTest\<rparr>)"
| request: "tp_send_receive api fd rn command data len (sys s) = Some (hr, st) \<Longrightarrow>
    tp_thread_step api Caller s (s\<lparr>sys := st\<rparr>)"
| set_timeout: "TPComm_SetTimeout api fd tmo (sys s) = Some (hr, st) \<Longrightarrow>
    tp_thread_step api Caller s (s\<lparr>sys := st\<rparr>)"
| close_timer: "closer s = Serving \<Longrightarrow> tp_thread_step api Caller s (s\<lparr>closer := ReadTimer (read_flags (conn s))\<rparr>)"
| stop_timer: "closer s = ReadTimer f \<Longrightarrow>
    tp_thread_step api Caller s (set_conn ((write_flags f (conn s))\<lparr>tp_timer_flag := False\<rparr>) (tp_world (sys s)) s\<lparr>closer := ClearedTimer\<rparr>)"
| stop_timer_lost: "closer s = ReadTimer f \<Longrightarrow> tp_thread_step api Caller s (s\<lparr>closer := ClearedTimer\<rparr>)"
| close_recv: "closer s = ClearedTimer \<Longrightarrow> tpc_tp s = TEnd \<Longrightarrow>
    tp_thread_step api Caller s (s\<lparr>closer := ReadRecv (read_flags (conn s))\<rparr>)"
| stop_recv: "closer s = ReadRecv f \<Longrightarrow>
    tp_thread_step api Caller s (set_conn ((write_flags f (conn s))\<lparr>tp_recv_flag := False\<rparr>) (tp_world (sys s)) s\<lparr>closer := ClearedRecv\<rparr>)"
| stop_recv_lost: "closer s = ReadRecv f \<Longrightarrow> tp_thread_step api Caller s (s\<lparr>closer := ClearedRecv\<rparr>)"

inductive_cases tp_thread_stepE: "tp_thread_step api a s s'"

definition tp_begun :: "'w tp \<Rightarrow> 'w tp_threads" where
  "tp_begun st = \<lparr>sys = st, tp_evt = \<lparr>manual = False, signalled = False\<rparr>, rpc_tp = RStart, tpc_tp = TStart, closer = Serving\<rparr>"

text \<open>Runs of a connection in which what is received satisfies \<open>ok\<close>.\<close>

definition tp_any_step :: "'w tp_api \<Rightarrow> ('w tp_threads \<Rightarrow> bool) \<Rightarrow> 'w tp_threads \<Rightarrow> 'w tp_threads \<Rightarrow> bool" where
  "tp_any_step api ok s s' \<longleftrightarrow> ok s \<and> (\<exists>a. tp_thread_step api a s s')"

lemma any_stepI: "ok s \<Longrightarrow> tp_thread_step api a s s' \<Longrightarrow> tp_any_step api ok s s'"
  by (auto simp: tp_any_step_def)

abbreviation tp_thread_run :: "'w tp_api \<Rightarrow> ('w tp_threads \<Rightarrow> bool) \<Rightarrow> 'w tp_threads \<Rightarrow> 'w tp_threads \<Rightarrow> bool" where
  "tp_thread_run api ok \<equiv> (tp_any_step api ok)\<^sup>*\<^sup>*"

section \<open>What a step may change\<close>

lemma set_conn_simps [simp]:
  "length (tps (sys (set_conn c w s))) = length (tps (sys s))" "tp_world (sys (set_conn c w s)) = w"
  "tp_func (sys (set_conn c w s)) = tp_func (sys s)" "tp_evt (set_conn c w s) = tp_evt s"
  "rpc_tp (set_conn c w s) = rpc_tp s" "tpc_tp (set_conn c w s) = tpc_tp s" "closer (set_conn c w s) = closer s"
  "length (tps (sys s)) = 1 \<Longrightarrow> tps (sys (set_conn c w s)) ! 0 = c"
  by (auto simp: set_conn_def upd_tp_def)

text \<open>The parts of a step: the table keeps its size, the call functions stay.\<close>

lemma tp_send_receive_calm:
  assumes "env_keeps told (ta_env api)" and "tp_send_receive api fd rn command data len st = Some (hr, st')"
    and "length (tps st) = 1"
  shows "length (tps st') = 1 \<and> tp_func st' = tp_func st \<and> calm told (tps st ! 0) (tp_world st) (tps st' ! 0) (tp_world st')"
proof (cases "tp_check_address (tps st) fd")
  case None
  then show ?thesis using assms(2,3) by (simp add: tp_send_receive_def)
next
  case (Some p)
  then obtain i c where p: "tp_check_address (tps st) fd = Some (i, c)" by (cases p) auto
  have i: "i = 0" "c = tps st ! 0"
    using p assms(3) by (auto simp: tp_check_address_def Let_def split: if_splits)
  obtain hr0 w0 where lk: "te_lock (ta_env api) i (tp_world st) = (hr0, w0)" by fastforce
  show ?thesis
  proof (cases "tp_state c = TP_TPLESS \<or> FAILED hr0")
    case True
    then show ?thesis
      using assms p lk env_keepsD(4) [OF assms(1) lk] by (auto simp: tp_send_receive_def calm_def split: if_splits)
  next
    case False
    then obtain c1 w1 where tr: "tp_try (ta_env api) rn command data len c w0 = Some (hr, c1, w1)"
      and st': "st' = st\<lparr>tps := (tps st)[i := c1], tp_world := te_unlock (ta_env api) i w1\<rparr>"
      using assms(2) p lk by (auto simp: tp_send_receive_def)
    show ?thesis
      using tp_try_calm [OF assms(1) tr] env_keepsD(4) [OF assms(1) lk] env_keepsD(6) [OF assms(1)] st' i assms(3)
      by (simp add: calm_def)
  qed
qed

definition set_keeps :: "('w \<Rightarrow> 'a) \<Rightarrow> 'w tp_api \<Rightarrow> bool" where
  "set_keeps told api \<longleftrightarrow> env_keeps told (ta_env api) \<and> (\<forall>f s t w. told (snd (ta_set_timeout api f s t w)) = told w)"

text \<open>What a step leaves of a record: everything but the clocks and the peer.\<close>

definition same_ctl :: "('w \<Rightarrow> 'a) \<Rightarrow> conn_param_tp \<Rightarrow> 'w \<Rightarrow> conn_param_tp \<Rightarrow> 'w \<Rightarrow> bool" where
  "same_ctl told c w c' w' \<longleftrightarrow>
     told w' = told w \<and> tp_state c' = tp_state c \<and> tp_timer_flag c' = tp_timer_flag c \<and> tp_recv_flag c' = tp_recv_flag c"

lemma calm_ctl: "calm told c w c' w' \<Longrightarrow> same_ctl told c w c' w'"
  by (simp add: calm_def same_ctl_def)

lemma SetTimeout_ctl:
  assumes "set_keeps told api" and "TPComm_SetTimeout api fd tmo st = Some (hr, st')" and "length (tps st) = 1"
  shows "length (tps st') = 1 \<and> tp_func st' = tp_func st \<and> same_ctl told (tps st ! 0) (tp_world st) (tps st' ! 0) (tp_world st')"
proof -
  have env: "env_keeps told (ta_env api)" and set: "told (snd (ta_set_timeout api f s t w)) = told w" for f s t w
    using assms(1) by (auto simp: set_keeps_def)
  show ?thesis
    using assms(2,3) env_keepsD(4,6) [OF env]
    by (auto simp: TPComm_SetTimeout_def tp_check_address_def same_ctl_def Let_def split: if_splits option.splits prod.splits)
      (metis set snd_conv)+
qed

lemma tp_ping_calm: "env_keeps told env \<Longrightarrow> tp_ping env command c w = Some (hr, c', w') \<Longrightarrow> calm told c w c' w'"
  by (auto simp: tp_ping_def dest: tp_send_calm)

lemma timer_event_ctl:
  assumes "env_keeps told env" and "timer_event env i c w = Some (hr, c', w')"
  shows "same_ctl told c w c' w' \<and> same_flags c c'"
proof -
  obtain hr0 w0 where lk: "te_lock env i w = (hr0, w0)" by fastforce
  obtain cur w1 where t: "te_clock env w0 = (cur, w1)" by fastforce
  have w1: "told w0 = told w" "told w1 = told w"
    using env_keepsD(4) [OF assms(1) lk] env_keepsD(5) [OF assms(1) t] by simp_all
  note calm = tp_ping_calm [OF assms(1)] tp_send_calm [OF assms(1)]
  show ?thesis
    using assms(2) lk t w1 env_keepsD(6) [OF assms(1)]
    by (auto simp: timer_event_def Let_def same_ctl_def same_flags_def calm_def split: if_splits tp_state.splits dest!: calm)
qed

section \<open>What the caller is told\<close>

definition told_state :: "('w \<Rightarrow> i32 list) \<Rightarrow> 'w tp_threads \<Rightarrow> bool" where
  "told_state told s \<longleftrightarrow>
     length (tps (sys s)) = 1 \<and> tells told (tp_func (sys s)) \<and>
     (tp_state (conn s) = TP_CONNECT \<longleftrightarrow> last (2 # told (tp_world (sys s))) = 1) \<and>
     successively (\<lambda>a b. a = 1 \<longleftrightarrow> b = 0) (2 # told (tp_world (sys s)))"

lemma told_ctl:
  assumes "told_state told s" and "same_ctl told (conn s) (tp_world (sys s)) c w"
  shows "told_state told (set_conn c w s)"
  using assms by (simp add: told_state_def same_ctl_def)

lemma told_pc [simp]:
  "told_state told (s\<lparr>rpc_tp := p\<rparr>) = told_state told s" "told_state told (s\<lparr>tpc_tp := q\<rparr>) = told_state told s"
  "told_state told (s\<lparr>tp_evt := e\<rparr>) = told_state told s" "told_state told (s\<lparr>closer := x\<rparr>) = told_state told s"
  by (simp_all add: told_state_def)

lemma told_notices:
  assumes "told_state told s" and "notices (tp_state (conn s)) (tp_state c) ns" and "told w = told (tp_world (sys s)) @ ns"
  shows "told_state told (set_conn c w s)"
proof -
  define xs where "xs = 2 # told (tp_world (sys s))"
  have "xs \<noteq> []" "tp_state (conn s) = TP_CONNECT \<longleftrightarrow> last xs = 1" "successively (\<lambda>a b. a = 1 \<longleftrightarrow> b = 0) xs"
    using assms(1) by (simp_all add: told_state_def xs_def)
  then have "successively (\<lambda>a b. a = 1 \<longleftrightarrow> b = 0) (xs @ ns) \<and> (tp_state c = TP_CONNECT \<longleftrightarrow> last (xs @ ns) = 1)"
    using assms(2)
    by (cases "tp_state (conn s)"; cases "tp_state c") (auto simp: successively_append_iff split: if_splits)
  then show ?thesis using assms(1,3) by (simp add: told_state_def xs_def)
qed

lemma told_sys:
  assumes "told_state told s" and "length (tps st) = 1 \<and> tp_func st = tp_func (sys s) \<and>
    same_ctl told (conn s) (tp_world (sys s)) (tps st ! 0) (tp_world st)"
  shows "told_state told (s\<lparr>sys := st\<rparr>)"
  using assms by (simp add: told_state_def same_ctl_def)

definition genuine_step :: "'w tp_api \<Rightarrow> 'w tp_threads \<Rightarrow> bool" where
  "genuine_step api s \<longleftrightarrow> rpc_tp s = RRun \<longrightarrow> genuine (ta_env api) 0 (conn s) (tp_world (sys s))"

text \<open>A connection that is not being closed, and receives no packet with the reserved command.\<close>

definition serving_step :: "'w tp_api \<Rightarrow> 'w tp_threads \<Rightarrow> bool" where
  "serving_step api s \<longleftrightarrow> genuine_step api s \<and> closer s = Serving"

lemma told_step:
  assumes "set_keeps told api" and "told_state told s" and "serving_step api s" and "tp_thread_step api a s s'"
  shows "told_state told s'"
proof -
  have env: "env_keeps told (ta_env api)" using assms(1) by (simp add: set_keeps_def)
  have len: "length (tps (sys s)) = 1" and tells: "tells told (tp_func (sys s))" using assms(2) by (simp_all add: told_state_def)
  have ctl: "told_state told (set_conn c w s)" if "same_ctl told (conn s) (tp_world (sys s)) c w" for c w
    using told_ctl [OF assms(2) that] .
  show ?thesis
    using assms(4)
  proof (cases rule: tp_thread_step.cases)
    case (recv_run hr c w)
    have "genuine (ta_env api) 0 (conn s) (tp_world (sys s))" using assms(3) recv_run by (simp add: serving_step_def genuine_step_def)
    from receive_execute_steps [OF env tells this] show ?thesis
      using told_notices [OF assms(2)] recv_run by auto
  next
    case (timer_run hr c w)
    then show ?thesis using timer_event_ctl [OF env] ctl by simp
  next
    case (request fd rn command data len hr st)
    then show ?thesis using tp_send_receive_calm [OF env _ len] told_sys [OF assms(2)] calm_ctl by metis
  next
    case (set_timeout fd tmo hr st)
    then show ?thesis using SetTimeout_ctl [OF assms(1) _ len] told_sys [OF assms(2)] by metis
  qed (use assms(2,3) ctl env_keepsD(5) [OF env] in \<open>auto simp: same_ctl_def told_state_def serving_step_def\<close>)
qed

section \<open>The timer waits for the receiver\<close>



text \<open>
  The receiver is only asked to end when the timer has ended, so it outlives the timer: the byte that
  \<open>TPComm_Close\<close> writes back first still has its flag.
\<close>

fun recv_flag_of :: "flags_byte \<Rightarrow> bool" where
  "recv_flag_of (_, _, _, _, _, rf) \<longleftrightarrow> rf"

lemma flags_simps [simp]:
  "recv_flag_of (read_flags c) = tp_recv_flag c" "tp_recv_flag (write_flags f c) = recv_flag_of f"
  "tp_device (write_flags f c) = tp_device c" "write_flags (read_flags c) c = c"
  by (cases f; simp add: read_flags_def)+



section \<open>Rounds in which nothing is received\<close>

definition hears :: "'w tp_env \<Rightarrow> nat \<Rightarrow> conn_param_tp \<Rightarrow> 'w \<Rightarrow> bool" where
  "hears env i c w \<longleftrightarrow>
     (case tp_recv env TP_RETRY_NAK c (snd (te_lock env i w)) of Some (hr, _) \<Rightarrow> \<not> FAILED hr | None \<Rightarrow> False)"

definition silent_step :: "'w tp_api \<Rightarrow> 'w tp_threads \<Rightarrow> bool" where
  "silent_step api s \<longleftrightarrow>
     closer s = Serving \<and> (rpc_tp s = RRun \<longrightarrow> \<not> hears (ta_env api) 0 (conn s) (tp_world (sys s)))"


text \<open>A packet that is taken while the connection is up sets the clock the contact is measured from.\<close>

lemma heard_sets_clock:
  assumes "env_keeps told env" and "tells told func" and "genuine env i c w" and "hears env i c w" and "\<not> FAILED (fst (te_lock env i w))"
    and "receive_execute env func i c w = Some (hr, c', w')" and "SUCCEEDED hr" and "tp_state c = TP_CONNECT"
  shows "tp_state c' = TP_CONNECT \<and> (\<exists>w1. tp_check_clock c' = fst (te_clock env w1))"
proof -
  obtain hr0 w0 where lk: "te_lock env i w = (hr0, w0)" by fastforce
  obtain hr1 msg c1 w1 where rcv: "tp_recv env TP_RETRY_NAK c w0 = Some (hr1, msg, c1, w1)"
    using assms(5,6) lk by (auto simp: receive_execute_def bind_eq_Some_conv)
  then have good: "\<not> FAILED hr1" using assms(4) lk by (simp add: hears_def)
  have "calm told c w0 c1 w1" using tp_recv_calm [OF assms(1) rcv] .
  obtain cmd len data on hr2 tmp c2 w2 hr3 c3 w3 where m: "msg = Some (cmd, len, data)"
    and ex: "tp_execute env func (cmd, len, data) hr1 TP_CONNECT c1 w1 = Some (on, hr2, tmp, c2, w2)"
    and upd: "(if on then tp_update env func tmp hr2 c2 w2 else Some (hr2, c2, w2)) = Some (hr3, c3, w3)" and res: "hr = hr3" "c' = c3"
    using assms(5,6,8) lk rcv good by (auto simp: receive_execute_def bind_eq_Some_conv)
  have "NativeCommand cmd \<noteq> TP_CMD_SPECIAL" using assms(3) lk rcv m by (simp add: genuine_def)
  from tp_execute_tells [OF assms(1,2) this ex] have tmp: "tmp = TP_CONNECT" "tp_state c2 = TP_CONNECT"
    using \<open>calm told c w0 c1 w1\<close> assms(8) by (auto simp: calm_def)
  have "on"
    using ex upd res assms(7) by (auto simp: tp_execute_def Let_def SUCCEEDED_iff bind_eq_Some_conv split: if_splits)
  then show ?thesis
    using upd res tmp by (auto simp: tp_update_def Let_def split: prod.splits) (metis fst_conv)+
qed






section \<open>Properties\<close>

text \<open>
  C7: However the two threads and the requests of the caller interleave, and whatever is
  received except a packet with the reserved command \<open>0x0FFF\<close>, until \<open>TPComm_Close\<close> is called: the state function
  is told the truth. The last notice is \<open>TP_CONNECT\<close> exactly when the state of the connection is, and a
  notice of the end of a connection (\<open>TP_DISCONNECT\<close>) comes after each notice of its begin, and only there.
\<close>

theorem pendant_told:
  assumes "set_keeps told api" and "tp_thread_run api (serving_step api) (tp_begun st) s"
    and "length (tps st) = 1" and "tells told (tp_func st)" and "told (tp_world st) = []"
    and "tp_state (tps st ! 0) = TP_TPLESS"
  shows "(tp_state (conn s) = TP_CONNECT \<longleftrightarrow> last (2 # told (tp_world (sys s))) = 1) \<and>
    successively (\<lambda>a b. a = 1 \<longleftrightarrow> b = 0) (2 # told (tp_world (sys s)))"
proof -
  have "told_state told (tp_begun st)" using assms(3-6) by (simp add: told_state_def tp_begun_def)
  with assms(2) have "told_state told s"
    by (induction rule: rtranclp_induct) (auto simp: tp_any_step_def intro: told_step [OF assms(1)])
  then show ?thesis by (simp add: told_state_def)
qed






section \<open>Examples\<close>

text \<open>
  A world that is the list of the notices and the time; nothing ever arrives on the line, what is
  sent is gone, and twenty seconds pass between two looks at the clock.
\<close>

definition deaf_env :: "(i32 list \<times> u32) tp_env" where
  "deaf_env = \<lparr>
     te_io = \<lparr>dev_send = (\<lambda>f s bs a w. (S_OK, w)),
       dev_recv = (\<lambda>f s n t a w. (RecvOut E_TIMEOUT None [] \<lparr>s_addr = 0, sin_port = 0\<rparr>, w))\<rparr>,
     te_tty = \<lparr>tty_open = (\<lambda>port w. (Done 3, w)), tty_close = (\<lambda>s w. (Done (), w)),
       tty_write = (\<lambda>s bs w. (Done (length bs), w)), tty_read = (\<lambda>s n w. (Err 11, w)), tty_ready = (\<lambda>s t w. (E_TIMEOUT, w)),
       tty_flush = (\<lambda>s inp w. (Done (), w)), tty_getattr = (\<lambda>s w. (Err 5, w)),
       tty_setattr = (\<lambda>s st w. (Done (), w)), tty_modem = (\<lambda>s w. (Done COM_BITS_CTS, w))\<rparr>,
     te_clear = (\<lambda>f s t w. (S_OK, w)), te_lock = (\<lambda>i w. (S_OK, w)), te_unlock = (\<lambda>i w. w), te_clock = (\<lambda>(ns, t). (t, ns, t + 20000)),
     te_mok = mem_ok, te_fresh = replicate 256 0, te_packet = replicate 256 0, te_modem = 0,
     te_addr = \<lparr>s_addr = 0, sin_port = 0\<rparr>\<rparr>"

definition noting :: "(i32 list \<times> u32) call_func_tp" where
  "noting = \<lparr>Call_TPState = Some (\<lambda>s (ns, t). (S_OK, ns @ [s], t)), Call_TPKeyInfo = None, Call_TPTouchInfo = None\<rparr>"

definition deaf_conn :: "tp_state \<Rightarrow> conn_param_tp" where
  "deaf_conn s = zero_tp\<lparr>tp_device := com_device 3 100, tp_init := True, tp_state := s,
     tp_timer_flag := True, tp_recv_flag := True, tp_timer_thread := True, tp_recv_thread := True\<rparr>"

definition deaf_api :: "(i32 list \<times> u32) tp_api" where
  "deaf_api = \<lparr>ta_env = deaf_env, ta_open = (\<lambda>f p w. (S_OK, 3, w)), ta_close = (\<lambda>f s w. w),
     ta_set_timeout = (\<lambda>f s t w. (S_OK, w)), ta_init_mutex = (\<lambda>i w. (S_OK, w)), ta_release_mutex = (\<lambda>i w. w),
     ta_create_event = (\<lambda>i w. (S_OK, w)), ta_destroy_event = (\<lambda>i w. w), ta_begin_timer = (\<lambda>i w. w),
     ta_begin_recv = (\<lambda>i w. w), ta_join_timer = (\<lambda>i w. w), ta_join_recv = (\<lambda>i w. w),
     ta_inet_addr = (\<lambda>s. 0), ta_atof10 = (\<lambda>s. 10), ta_wcstombs = (\<lambda>s n. map ucast (take n s))\<rparr>"

definition deaf_start :: "tp_state \<Rightarrow> (i32 list \<times> u32) tp" where
  "deaf_start s = \<lparr>tps = [deaf_conn s], tp_func = noting, tp_world = ([], 0)\<rparr>"

lemma deaf_keeps: "set_keeps fst deaf_api" "env_keeps fst deaf_env" "tells fst noting"
  by (auto simp: set_keeps_def env_keeps_def deaf_api_def deaf_env_def tells_def noting_def)

lemma deaf_simps [simp]:
  "te_lock deaf_env i w = (S_OK, w)" "te_unlock deaf_env i w = w" "te_clock deaf_env (ns, t) = (t, ns, t + 20000)"
  by (simp_all add: deaf_env_def)

text \<open>Every receive fails, on any connection.\<close>

lemma deaf_read [simp]:
  "dev_read (te_io deaf_env) n a st = (RecvOut E_TIMEOUT None [] \<lparr>s_addr = 0, sin_port = 0\<rparr>, st)"
  by (simp add: dev_read_def deaf_env_def)

lemma deaf_attempts:
  "\<exists>st'. rtk_attempts (te_io deaf_env) mok fresh client parg 2 0 hr p st = Some (E_TIMEOUT, p, st') \<and>
    rworld st' = rworld st \<and> (conn_type (rdev st) = CONN_COM \<longrightarrow> st' = st)"
proof -
  let ?out = "RecvOut E_TIMEOUT None [] \<lparr>s_addr = 0, sin_port = 0\<rparr>"
  define st' where "st' = snd (check_sender client ?out st)"
  have "check_sender client ?out st = (E_TIMEOUT, st')" and "rworld st' = rworld st \<and> (conn_type (rdev st) = CONN_COM \<longrightarrow> st' = st)"
    by (simp_all add: check_sender_def Let_def st'_def)
  moreover have "align_enq [] = []" by (simp add: align_enq_def)
  ultimately show ?thesis
    by (subst rtk_attempts.simps, subst rtk_find_enq.simps) simp
qed

lemma deaf_rtk_recv:
  obtains hr d' where "rtk_recv (te_io deaf_env) mok fresh junk (Some d) (Some p) client 2 w = Some (hr, Some p, Some d', w)" "FAILED hr"
proof (cases "FAILED (check_conn_param (Some d) RTK_CHECK_RECV)")
  case True
  then show ?thesis by (intro that [of "check_conn_param (Some d) RTK_CHECK_RECV" d]) (simp_all add: rtk_recv_def)
next
  case False
  show ?thesis
  proof (cases "rtk_arg (\<lambda>_. junk) d")
    case (Inl e)
    then have "FAILED e" by (auto simp: rtk_arg_def split: if_splits option.splits)
    then show ?thesis using False Inl by (intro that [of e d]) (simp_all add: rtk_recv_def)
  next
    case (Inr parg)
    obtain st' where "rtk_attempts (te_io deaf_env) mok fresh client parg 2 0 (check_conn_param (Some d) RTK_CHECK_RECV) p
        \<lparr>rdev = d, rflag = False, rworld = w\<rparr> = Some (E_TIMEOUT, p, st')" "rworld st' = w"
      using deaf_attempts [of mok fresh client parg _ p "\<lparr>rdev = d, rflag = False, rworld = w\<rparr>"] by auto
    then show ?thesis using False Inr by (intro that [of E_TIMEOUT "rdev st'"]) (simp_all add: rtk_recv_def)
  qed
qed

lemma deaf_cts:
  obtains e c1 where "check_cts deaf_env bits c w = (Inl e, c1, w)" "FAILED e"
    | bits1 c1 where "check_cts deaf_env bits c w = (Inr bits1, c1, w)"
proof -
  have "com_get_modem_state (te_tty deaf_env) s (Some b) w = (if sint s \<le> 0 then E_HANDLE else S_OK,
      Some (if sint s \<le> 0 then b else COM_BITS_CTS), w)" for s b
    by (simp add: com_get_modem_state_def deaf_env_def)
  then have "check_cts deaf_env bits c w \<in> {(Inl E_ACCESSDENIED, c\<lparr>tp_cts := False\<rparr>, w)} \<union>
      {(Inr b, c1, w) | b c1. True}"
    by (simp add: check_cts_def Let_def) (simp add: deaf_env_def)
  then show thesis using that by auto
qed

lemma deaf_tp_recv: "\<exists>hr c'. tp_recv deaf_env TP_RETRY_NAK c w = Some (hr, None, c', w) \<and> FAILED hr"
proof (rule deaf_cts [of "te_modem deaf_env" c w])
  fix e c1 assume "check_cts deaf_env (te_modem deaf_env) c w = (Inl e, c1, w)" "FAILED e"
  then show ?thesis by (simp add: tp_recv_def tp_recv_loop.simps)
next
  fix bits1 c1 assume cts: "check_cts deaf_env (te_modem deaf_env) c w = (Inr bits1, c1, w)"
  obtain hr d' where "rtk_recv (te_io deaf_env) (te_mok deaf_env) (te_fresh deaf_env) (te_addr deaf_env) (Some (tp_device c1))
      (Some (te_packet deaf_env)) (tp_client c1) 2 w = Some (hr, Some (te_packet deaf_env), Some d', w)" "FAILED hr"
    by (rule deaf_rtk_recv)
  then show ?thesis using cts by (simp add: tp_recv_def tp_recv_loop.simps)
qed

lemma deaf_unheard: "\<not> hears deaf_env i c w"
  using deaf_tp_recv [of c w] by (auto simp: hears_def)

text \<open>The run of a receiver on a serial line: the state is given up after the ten seconds.\<close>

lemma deaf_com_recv:
  "tp_recv deaf_env TP_RETRY_NAK (deaf_conn s\<lparr>tp_check_clock := t\<rparr>) w =
    Some (E_TIMEOUT, None, deaf_conn s\<lparr>tp_check_clock := t, tp_cts := True\<rparr>, w)"
proof -
  let ?c = "deaf_conn s\<lparr>tp_check_clock := t\<rparr>"
  have cts: "check_cts deaf_env (te_modem deaf_env) ?c w = (Inr COM_BITS_CTS, ?c\<lparr>tp_cts := True\<rparr>, w)"
    by (simp add: check_cts_def com_get_modem_state_def deaf_env_def deaf_conn_def com_device_def zero_tp_def)
  have "rtk_attempts (te_io deaf_env) mem_ok (te_fresh deaf_env) False ArgNull 2 0 hr p \<lparr>rdev = com_device 3 100, rflag = False, rworld = w\<rparr> =
      Some (E_TIMEOUT, p, \<lparr>rdev = com_device 3 100, rflag = False, rworld = w\<rparr>)" for hr p
    using deaf_attempts [of mem_ok "te_fresh deaf_env" False ArgNull hr p "\<lparr>rdev = com_device 3 100, rflag = False, rworld = w\<rparr>"]
    by (auto simp: com_device_def)
  moreover have "\<not> FAILED (check_conn_param (Some (com_device 3 100)) RTK_CHECK_RECV)" by code_simp
  moreover have "rtk_arg f (com_device 3 100) = Inr ArgNull" for f by (simp add: rtk_arg_def com_device_def)
  moreover have "tp_device (?c\<lparr>tp_cts := True\<rparr>) = com_device 3 100" "tp_client (?c\<lparr>tp_cts := True\<rparr>) = False"
    by (simp_all add: deaf_conn_def zero_tp_def)
  moreover have "te_mok deaf_env = mem_ok" by (simp add: deaf_env_def)
  ultimately show ?thesis
    by (simp add: tp_recv_def tp_recv_loop.simps cts rtk_recv_def)
qed

lemma deaf_lost:
  assumes "s = TP_CONNECT \<or> s = TP_TPLESS"
  shows "receive_execute deaf_env noting 0 (deaf_conn s\<lparr>tp_check_clock := 0\<rparr>) ([], 20000) =
    Some (S_OK, deaf_conn s\<lparr>tp_check_clock := 20000, tp_cts := True, tp_state := TP_TPERROR\<rparr>,
      [if s = TP_CONNECT then 0 else 3], 40000)"
  using assms
  by (auto simp: receive_execute_def deaf_com_recv tp_update_def tp_notify_def tp_callfunc_def noting_def load_def
      calc_time_diff_def le_word_le_bytes_full)
    (simp_all add: deaf_conn_def calc_time_diff_def)

lemma deaf_genuine: "genuine deaf_env 0 c w"
  using deaf_tp_recv [of c w] by (auto simp: genuine_def)

text \<open>The first round of the receiver.\<close>

definition deaf_ready :: "tp_state \<Rightarrow> recv_pc \<Rightarrow> closing \<Rightarrow> (i32 list \<times> u32) tp_threads" where
  "deaf_ready st pc cl = (tp_begun (deaf_start st))\<lparr>
     sys := \<lparr>tps = [deaf_conn st\<lparr>tp_check_clock := 0\<rparr>], tp_func = noting, tp_world = ([], 20000)\<rparr>, rpc_tp := pc, closer := cl\<rparr>"

definition deaf_after :: "tp_state \<Rightarrow> closing \<Rightarrow> (i32 list \<times> u32) tp_threads" where
  "deaf_after st cl = (tp_begun (deaf_start st))\<lparr>
     sys := \<lparr>tps = [deaf_conn st\<lparr>tp_check_clock := 20000, tp_cts := True, tp_state := TP_TPERROR\<rparr>],
       tp_func = noting, tp_world = ([if st = TP_CONNECT then 0 else 3], 40000)\<rparr>, rpc_tp := RSet, closer := cl\<rparr>"

lemmas deaf_defs = tp_begun_def deaf_start_def set_conn_def upd_tp_def deaf_ready_def deaf_after_def

lemma deaf_api_env [simp]: "ta_env deaf_api = deaf_env"
  by (simp add: deaf_api_def)

lemma deaf_steps:
  shows "tp_thread_step deaf_api Receiver (tp_begun (deaf_start st)) (deaf_ready st RTest Serving)"
    and "tp_thread_step deaf_api Receiver (deaf_ready st RTest cl) (deaf_ready st RRun cl)"
    and "st = TP_CONNECT \<or> st = TP_TPLESS \<Longrightarrow> tp_thread_step deaf_api Receiver (deaf_ready st RRun cl) (deaf_after st cl)"
proof -
  show "tp_thread_step deaf_api Receiver (tp_begun (deaf_start st)) (deaf_ready st RTest Serving)"
    using tp_thread_step.recv_start [of "tp_begun (deaf_start st)" deaf_api 0 "([], 20000)"] by (simp add: deaf_defs)
  show "tp_thread_step deaf_api Receiver (deaf_ready st RTest cl) (deaf_ready st RRun cl)"
    using tp_thread_step.recv_test [of "deaf_ready st RTest cl" deaf_api] by (simp add: deaf_defs) (simp add: deaf_conn_def)
  assume "st = TP_CONNECT \<or> st = TP_TPLESS"
  from deaf_lost [OF this] show "tp_thread_step deaf_api Receiver (deaf_ready st RRun cl) (deaf_after st cl)"
    using tp_thread_step.recv_run [of "deaf_ready st RRun cl" deaf_api S_OK
        "deaf_conn st\<lparr>tp_check_clock := 20000, tp_cts := True, tp_state := TP_TPERROR\<rparr>" "([if st = TP_CONNECT then 0 else 3], 40000)"]
    by (simp add: deaf_defs)
qed

lemma deaf_oks: "closer s = Serving \<Longrightarrow> serving_step deaf_api s" "closer s = Serving \<Longrightarrow> silent_step deaf_api s"
  using deaf_genuine deaf_unheard by (simp_all add: serving_step_def genuine_step_def silent_step_def)

lemma deaf_closer [simp]:
  "closer (tp_begun st) = Serving" "closer (deaf_ready s pc cl) = cl" "closer (deaf_after s cl) = cl"
  by (simp_all add: deaf_defs)

lemma deaf_run: "tp_thread_run deaf_api (serving_step deaf_api) (tp_begun (deaf_start TP_TPLESS)) (deaf_after TP_TPLESS Serving)"
proof -
  have "tp_any_step deaf_api (serving_step deaf_api) (tp_begun (deaf_start TP_TPLESS)) (deaf_ready TP_TPLESS RTest Serving)"
    "tp_any_step deaf_api (serving_step deaf_api) (deaf_ready TP_TPLESS RTest Serving) (deaf_ready TP_TPLESS RRun Serving)"
    "tp_any_step deaf_api (serving_step deaf_api) (deaf_ready TP_TPLESS RRun Serving) (deaf_after TP_TPLESS Serving)"
    by (rule any_stepI [OF _ deaf_steps(1)] any_stepI [OF _ deaf_steps(2)] any_stepI [OF _ deaf_steps(3)]; simp add: deaf_oks)+
  then show ?thesis by (meson rtranclp.rtrancl_refl rtranclp.rtrancl_into_rtrancl)
qed

lemma pendant_told_witness:
  "(tp_state (conn (deaf_after TP_TPLESS Serving)) = TP_CONNECT \<longleftrightarrow> last (2 # fst (tp_world (sys (deaf_after TP_TPLESS Serving)))) = 1) \<and>
    successively (\<lambda>a b. a = 1 \<longleftrightarrow> b = 0) (2 # fst (tp_world (sys (deaf_after TP_TPLESS Serving)))) \<and>
   tp_state (conn (deaf_after TP_TPLESS Serving)) = TP_TPERROR \<and> fst (tp_world (sys (deaf_after TP_TPLESS Serving))) = [3]"
  using pendant_told [OF deaf_keeps(1) deaf_run] deaf_keeps(3)
  by (simp add: deaf_start_def deaf_conn_def deaf_after_def)


text \<open>
  The writes of \<open>TPComm_Close\<close> can undo a change of the state that was told: the receiver finds the pendant
  lost between the two halves of the clearing.
\<close>

lemma close_undoes_state:
  "\<exists>s. tp_thread_run deaf_api (\<lambda>_. True) (tp_begun (deaf_start TP_TPLESS)) s \<and>
     fst (tp_world (sys s)) = [3] \<and> tp_state (conn s) = TP_TPLESS \<and> closer s = ClearedTimer"
proof -
  let ?f = "read_flags (deaf_conn TP_TPLESS)"
  let ?s3 = "deaf_after TP_TPLESS (ReadTimer ?f)"
  let ?s4 = "set_conn ((write_flags ?f (conn ?s3))\<lparr>tp_timer_flag := False\<rparr>) (tp_world (sys ?s3)) ?s3\<lparr>closer := ClearedTimer\<rparr>"
  have cl: "tp_thread_step deaf_api Caller (deaf_ready TP_TPLESS RRun Serving) (deaf_ready TP_TPLESS RRun (ReadTimer ?f))"
    using tp_thread_step.close_timer [of "deaf_ready TP_TPLESS RRun Serving" deaf_api] by (simp add: deaf_defs read_flags_def)
  have st: "tp_thread_step deaf_api Caller ?s3 ?s4" by (rule tp_thread_step.stop_timer) simp
  have "tp_any_step deaf_api (\<lambda>_. True) (tp_begun (deaf_start TP_TPLESS)) (deaf_ready TP_TPLESS RTest Serving)"
    "tp_any_step deaf_api (\<lambda>_. True) (deaf_ready TP_TPLESS RTest Serving) (deaf_ready TP_TPLESS RRun Serving)"
    "tp_any_step deaf_api (\<lambda>_. True) (deaf_ready TP_TPLESS RRun Serving) (deaf_ready TP_TPLESS RRun (ReadTimer ?f))"
    "tp_any_step deaf_api (\<lambda>_. True) (deaf_ready TP_TPLESS RRun (ReadTimer ?f)) ?s3" "tp_any_step deaf_api (\<lambda>_. True) ?s3 ?s4"
    using any_stepI [OF TrueI cl] any_stepI [OF TrueI st] any_stepI [OF TrueI deaf_steps(1)] any_stepI [OF TrueI deaf_steps(2)]
      any_stepI [OF TrueI deaf_steps(3) [of TP_TPLESS]] by blast+
  then have run: "tp_thread_run deaf_api (\<lambda>_. True) (tp_begun (deaf_start TP_TPLESS)) ?s4"
    by (meson rtranclp.rtrancl_refl rtranclp.rtrancl_into_rtrancl)
  have "tp_state (conn ?s4) = TP_TPLESS" "fst (tp_world (sys ?s4)) = [3]" "closer ?s4 = ClearedTimer"
    by (simp_all add: deaf_defs) (simp add: read_flags_def deaf_conn_def)
  with run show ?thesis by blast
qed

end
