(* ===== verification/TpLine.thy ===== *)
theory TpLine
  imports TpThreads
begin

text \<open>
  A pendant on a serial line: what a request puts on the line and makes of the answer, and what a
  packet with the command reserved for the state function does. The examples of the drawing
  commands are here too.
\<close>

section \<open>A pendant behind the serial driver\<close>

definition line_env :: "u32 \<Rightarrow> rtk_packet \<Rightarrow> net tp_env" where
  "line_env now packet = \<lparr>te_io = device_io net_os line_tty, te_tty = line_tty,
     te_clear = (\<lambda>f s t w. com_clear line_tty s t w), te_lock = (\<lambda>i w. (S_OK, w)), te_unlock = (\<lambda>i w. w),
     te_clock = (\<lambda>w. (now, w)), te_mok = mem_ok, te_fresh = replicate 256 0, te_packet = packet, te_modem = 0,
     te_addr = \<lparr>s_addr = 0, sin_port = 0\<rparr>\<rparr>"

lemma line_env_simps [simp]:
  "te_io (line_env now q) = device_io net_os line_tty" "te_tty (line_env now q) = line_tty"
  "te_lock (line_env now q) i w = (S_OK, w)" "te_unlock (line_env now q) i w = w" "te_clock (line_env now q) w = (now, w)"
  "te_mok (line_env now q) = mem_ok" "te_packet (line_env now q) = q" "te_fresh (line_env now q) = replicate 256 0"
  by (simp_all add: line_env_def)

text \<open>A connection over the line, whose pendant was there at the last look.\<close>

definition on_line :: "conn_param_tp \<Rightarrow> bool" where
  "on_line c \<longleftrightarrow> (\<exists>s t. 0 < sint s \<and> tp_device c = com_device s t) \<and> tp_cts c"

lemma line_tp_send:
  assumes "on_line c" and "length q = 256" and "length data \<le> 248" and "d = Some (data @ pad) \<or> d = None \<and> data = []"
  shows "\<exists>p. tp_send (line_env now q) cmd d (of_nat (length data)) c w =
    Some (S_OK, c\<lparr>tp_last_packet := p, tp_ping_clock := now\<rparr>, w\<lparr>sent := sent w @ rtk_wire cmd (tp_from_id c) (tp_to_id c) data\<rparr>)"
proof -
  obtain s t where dev: "0 < sint s" "tp_device c = com_device s t" using assms(1) by (auto simp: on_line_def)
  have un: "unat (of_nat (length data) :: byte) = length data" using assms(3) by (rule unat_len)
  have "rtk_param2packet cmd d (of_nat (length data)) (tp_from_id c) (tp_to_id c) (Some q) =
      rtk_param2packet cmd (Some data) (of_nat (length data)) (tp_from_id c) (tp_to_id c) (Some q)"
  proof (cases "data = []")
    case False
    then have "d = Some (data @ pad)" using assms(4) by auto
    moreover have "load (data @ pad) 0 (length data) = load data 0 (length data)" by (simp add: load_def)
    ultimately show ?thesis using un by (simp add: rtk_param2packet_def cong: if_cong)
  qed (use assms(4) in \<open>auto simp: rtk_param2packet_def\<close>)
  also have "\<dots> = Some (S_OK, Some (rtk_frame cmd (tp_from_id c) (tp_to_id c) data @ drop (6 + length data) q))"
    using assms(2,3) by (simp add: rtk_param2packet_frame)
  finally have p: "rtk_param2packet cmd d (of_nat (length data)) (tp_from_id c) (tp_to_id c) (Some q) =
      Some (S_OK, Some (rtk_frame cmd (tp_from_id c) (tp_to_id c) data @ drop (6 + length data) q))" .
  have "rtk_send (device_io net_os line_tty) (Some (com_device s t))
      (Some (rtk_frame cmd (tp_from_id c) (tp_to_id c) data @ drop (6 + length data) q)) w =
    Some (S_OK, Some (rtk_wire cmd (tp_from_id c) (tp_to_id c) data @ drop 2 (drop (6 + length data) q)),
      w\<lparr>sent := sent w @ rtk_wire cmd (tp_from_id c) (tp_to_id c) data\<rparr>)"
    using assms(2,3) dev(1) by (subst rtk_send_frame) (simp_all add: line_send)
  then show ?thesis
    using p by (intro exI [of _ "rtk_wire cmd (tp_from_id c) (tp_to_id c) data @ drop 2 (drop (6 + length data) q)"])
      (simp add: tp_send_def dev(2))
qed

lemma line_tp_recv:
  assumes "on_line c" and "length q = 256" and "length data \<le> 248" and "segments_ok w"
    and "stream w = noise @ rtk_wire cmd f t data @ later" and "RTK_ENQ \<notin> set noise" and "NativeCommand cmd \<noteq> RTK_CMD_NAK"
  shows "\<exists>w' k. tp_recv (line_env now q) rn c w = Some (S_OK, Some (cmd, of_nat (length data), data), c\<lparr>tp_to_id := f\<rparr>, w') \<and>
    segments_ok w' \<and> stream w' = drop k later \<and> sent w' = sent w"
proof -
  obtain s tmo where dev: "0 < sint s" "tp_device c = com_device s tmo" and cts: "tp_cts c" using assms(1) by (auto simp: on_line_def)
  have c: "c\<lparr>tp_cts := True\<rparr> = c" "c\<lparr>tp_device := com_device s tmo\<rparr> = c" using cts dev(2) by (cases c; simp)+
  obtain w' k rest where recv: "rtk_recv (device_io net_os line_tty) mem_ok (replicate 256 0) (te_addr (line_env now q)) (Some (com_device s tmo)) (Some q)
        (tp_client c) rn w = Some (S_OK, Some (rtk_host cmd f t data @ rest), Some (com_device s tmo), w')"
    and w': "segments_ok w'" "stream w' = drop k later" "sent w' = sent w"
    using rtk_recv_wire [OF assms(4,5,6,3,2) dev(1)] by blast
  have "check_cts (line_env now q) b c w = (Inr COM_BITS_CTS, c, w)" for b
    using dev cts c by (simp add: check_cts_def com_get_modem_state_def) (simp add: line_tty_def com_device_def)
  moreover have "load (rtk_host cmd f t data @ rest) 6 (length data) = Some data"
    by (simp add: load_def rtk_host_def)
  ultimately have "tp_recv (line_env now q) rn c w = Some (S_OK, Some (cmd, of_nat (length data), data), c\<lparr>tp_to_id := f\<rparr>, w')"
    using recv assms(3,7) c(2) by (simp add: tp_recv_def tp_recv_loop.simps dev(2) rtk_host_fields unat_len)
  then show ?thesis using w' by blast
qed

section \<open>Properties\<close>

text \<open>
  C8: Over a serial line a request sends exactly the packet of its command, once, and
  takes the next packet on the line for the answer, when that packet is no \<open>NAK\<close> (a \<open>NAK\<close> makes
  the code send its last packet again and read on) and no byte before it is an \<open>ENQ\<close>: a rejection is \<open>E_FAIL\<close>,
  any other packet is success, whether it answers the request or is an event of the pendant (which is then lost).
  The connection takes over the sender of that packet and keeps its state.
\<close>

theorem pendant_exchange:
  assumes "ta_env api = line_env now q" and "length q = 256" and "tp_check_address (tps st) fd = Some (i, c)"
    and "tp_state c \<noteq> TP_TPLESS" and "on_line c" and "length data \<le> 248" and "length answer \<le> 248"
    and "segments_ok (tp_world st)" and "stream (tp_world st) = noise @ rtk_wire cmd' f t answer @ later"
    and "RTK_ENQ \<notin> set noise" and "NativeCommand cmd' \<noteq> RTK_CMD_NAK"
  shows "\<exists>c' w' k. tp_send_receive api fd rn cmd (Some (data @ pad)) (of_nat (length data)) st =
      Some (if NativeCommand cmd' = RTK_CMD_REJ then E_FAIL else S_OK, st\<lparr>tps := (tps st)[i := c'], tp_world := w'\<rparr>) \<and>
    sent w' = sent (tp_world st) @ rtk_wire cmd (tp_from_id c) (tp_to_id c) data \<and> stream w' = drop k later \<and>
    tp_to_id c' = f \<and> tp_state c' = tp_state c"
proof -
  let ?w1 = "tp_world st\<lparr>sent := sent (tp_world st) @ rtk_wire cmd (tp_from_id c) (tp_to_id c) data\<rparr>"
  obtain p where send: "tp_send (line_env now q) cmd (Some (data @ pad)) (of_nat (length data)) c (tp_world st) =
      Some (S_OK, c\<lparr>tp_last_packet := p, tp_ping_clock := now\<rparr>, ?w1)"
    using line_tp_send [OF assms(5,2,6)] by blast
  let ?c1 = "c\<lparr>tp_last_packet := p, tp_ping_clock := now\<rparr>"
  have "on_line ?c1" "segments_ok ?w1" "stream ?w1 = noise @ rtk_wire cmd' f t answer @ later"
    using assms(5,8,9) by (simp_all add: on_line_def segments_ok_def stream_def)
  then obtain w' k where recv: "tp_recv (line_env now q) TP_RETRY_NAK ?c1 ?w1 =
      Some (S_OK, Some (cmd', of_nat (length answer), answer), ?c1\<lparr>tp_to_id := f\<rparr>, w')"
    and w': "stream w' = drop k later" "sent w' = sent ?w1"
    using line_tp_recv [of ?c1 q answer ?w1 noise cmd' f t later] assms(2,7,10,11) by blast
  have "tp_try (line_env now q) rn cmd (Some (data @ pad)) (of_nat (length data)) c (tp_world st) =
      Some (if NativeCommand cmd' = RTK_CMD_REJ then E_FAIL else S_OK, ?c1\<lparr>tp_to_id := f\<rparr>, w')"
    using send recv by (subst tp_try.simps) simp
  then show ?thesis
    using assms(1,3,4) w' by (intro exI [of _ "?c1\<lparr>tp_to_id := f\<rparr>"] exI [of _ w'] exI [of _ k]) (simp add: tp_send_receive_def)
qed

text \<open>
  C33: The command the program reserves for its own notices is also taken from the
  line: a packet with the command \<open>0x0FFF\<close> and four bytes of data calls the state function with
  these bytes, whatever the state is, and is acknowledged when the state function succeeds and rejected when it
  does not. A connection that is up stays up; one without a pendant, or with a faulty one, is then
  taken for up, which calls the state function a second time, with \<open>TP_CONNECT\<close>.
\<close>

theorem forged_state_notice:
  assumes "length q = 256" and "on_line c" and "tp_state c \<noteq> TP_DISCONNECT" and "Call_TPState func = Some fn"
    and "segments_ok w" and "stream w = noise @ rtk_wire TP_CMD_SPECIAL f t (le_bytes 4 n) @ later" and "RTK_ENQ \<notin> set noise"
  shows "\<exists>w1 c'. receive_execute (line_env now q) func i c w =
      (case fn n w1 of (hr, w2) \<Rightarrow>
         let w3 = w2\<lparr>sent := sent w2 @ rtk_wire (if SUCCEEDED hr then RTK_CMD_ACK else RTK_CMD_REJ) (tp_from_id c) f []\<rparr> in
         if tp_state c = TP_CONNECT then Some (S_OK, c', w3)
         else case fn (tp_code TP_CONNECT) w3 of (hr', w4) \<Rightarrow> Some (hr', c', w4)) \<and>
    tp_state c' = TP_CONNECT \<and> sent w1 = sent w"
proof -
  have native: "NativeCommand TP_CMD_SPECIAL = TP_CMD_SPECIAL" by (simp add: NativeCommand_def)
  obtain w1 where recv: "tp_recv (line_env now q) TP_RETRY_NAK c w = Some (S_OK, Some (TP_CMD_SPECIAL, 4, le_bytes 4 n), c\<lparr>tp_to_id := f\<rparr>, w1)"
    and w1: "sent w1 = sent w"
    using line_tp_recv [OF assms(2,1) _ assms(5-7), where rn = TP_RETRY_NAK and now = now] native by auto
  obtain hr w2 where fn: "fn n w1 = (hr, w2)" by fastforce
  have call: "tp_callfunc (line_env now q) func TP_CMD_SPECIAL (le_bytes 4 m) 4 v = Some (fn m v)" for m v
    using assms(4) by (simp add: tp_callfunc_def load_def le_word_le_bytes_full)
  let ?answer = "if SUCCEEDED hr then RTK_CMD_ACK else RTK_CMD_REJ"
  let ?w3 = "w2\<lparr>sent := sent w2 @ rtk_wire ?answer (tp_from_id c) f []\<rparr>"
  have "on_line (c\<lparr>tp_to_id := f\<rparr>)" using assms(2) by (simp add: on_line_def)
  then obtain p where send: "tp_send (line_env now q) ?answer (Some []) 0 (c\<lparr>tp_to_id := f\<rparr>) w2 =
      Some (S_OK, c\<lparr>tp_to_id := f, tp_last_packet := p, tp_ping_clock := now\<rparr>, ?w3)"
    using line_tp_send [of "c\<lparr>tp_to_id := f\<rparr>" q "[]" "Some []" "[]"] assms(1) by fastforce
  let ?c1 = "c\<lparr>tp_to_id := f, tp_last_packet := p, tp_ping_clock := now\<rparr>"
  have "tp_execute (line_env now q) func (TP_CMD_SPECIAL, 4, le_bytes 4 n) S_OK (tp_state c) (c\<lparr>tp_to_id := f\<rparr>) w1 =
      Some (True, S_OK, TP_CONNECT, ?c1, ?w3)"
    using call [of n w1] send native fn by (simp add: tp_execute_def)
  moreover have "tp_update (line_env now q) func TP_CONNECT S_OK ?c1 ?w3 =
      (if tp_state c = TP_CONNECT then Some (S_OK, ?c1\<lparr>tp_state := TP_CONNECT, tp_check_clock := now\<rparr>, ?w3)
       else case fn (tp_code TP_CONNECT) ?w3 of (hr', w4) \<Rightarrow> Some (hr', ?c1\<lparr>tp_state := TP_CONNECT, tp_check_clock := now\<rparr>, w4))"
    using call [of "tp_code TP_CONNECT" ?w3] assms(3) by (cases "tp_state c") (simp_all add: tp_update_def tp_notify_def split: prod.splits)
  ultimately show ?thesis
    using recv w1 fn
    by (intro exI [of _ w1] exI [of _ "?c1\<lparr>tp_state := TP_CONNECT, tp_check_clock := now\<rparr>"])
      (simp add: receive_execute_def Let_def split: prod.splits)
qed

section \<open>Examples\<close>

definition line_api :: "net tp_api" where
  "line_api = \<lparr>ta_env = line_env 500 (replicate 256 0), ta_open = (\<lambda>f p w. (S_OK, 3, w)), ta_close = (\<lambda>f s w. w),
     ta_set_timeout = (\<lambda>f s t w. com_set_timeout line_tty s t w), ta_init_mutex = (\<lambda>i w. (S_OK, w)), ta_release_mutex = (\<lambda>i w. w),
     ta_create_event = (\<lambda>i w. (S_OK, w)), ta_destroy_event = (\<lambda>i w. w), ta_begin_timer = (\<lambda>i w. w),
     ta_begin_recv = (\<lambda>i w. w), ta_join_timer = (\<lambda>i w. w), ta_join_recv = (\<lambda>i w. w),
     ta_inet_addr = (\<lambda>s. 0), ta_atof10 = (\<lambda>s. 10), ta_wcstombs = (\<lambda>s n. map ucast (take n s))\<rparr>"

definition line_conn :: conn_param_tp where
  "line_conn = (deaf_conn TP_CONNECT)\<lparr>tp_cts := True, tp_client := True, tp_from_id := TP_ID_CLIENT, tp_to_id := TP_ID_SERVER\<rparr>"

definition line_start :: "byte list \<Rightarrow> net tp" where
  "line_start bs = \<lparr>tps = [line_conn], tp_func = \<lparr>Call_TPState = None, Call_TPKeyInfo = None, Call_TPTouchInfo = None\<rparr>,
     tp_world = chunked bs\<rparr>"

lemma line_conn_on [simp]: "on_line line_conn" "tp_state line_conn = TP_CONNECT"
  by (auto simp: line_conn_def deaf_conn_def on_line_def intro: exI [of _ 3])

text \<open>The beep while a key event comes: the event is taken for the answer.\<close>

lemma pendant_exchange_witness:
  "\<exists>c' w' k. tp_send_receive line_api 1 2 TP_CMD_BEEP (Some ([0, 5] @ [])) (of_nat (length [0 :: byte, 5]))
      (line_start (rtk_wire TP_CMD_KEYINFO TP_ID_SERVER TP_ID_CLIENT (replicate 8 0))) =
      Some (if NativeCommand TP_CMD_KEYINFO = RTK_CMD_REJ then E_FAIL else S_OK,
        line_start (rtk_wire TP_CMD_KEYINFO TP_ID_SERVER TP_ID_CLIENT (replicate 8 0))\<lparr>tps := [line_conn][0 := c'], tp_world := w'\<rparr>) \<and>
    sent w' = [] @ rtk_wire TP_CMD_BEEP (tp_from_id line_conn) (tp_to_id line_conn) [0, 5] \<and> stream w' = drop k [] \<and>
    tp_to_id c' = TP_ID_SERVER \<and> tp_state c' = tp_state line_conn"
proof -
  let ?bs = "rtk_wire TP_CMD_KEYINFO TP_ID_SERVER TP_ID_CLIENT (replicate 8 0)"
  have len: "4 \<le> length ?bs" by (simp add: rtk_wire_def rtk_frame_def)
  have addr: "tp_check_address (tps (line_start ?bs)) 1 = Some (0, line_conn)"
    by (simp add: tp_check_address_def line_start_def line_conn_def deaf_conn_def com_device_def)
  show ?thesis
    using pendant_exchange [of line_api 500 "replicate 256 0" "line_start ?bs" 1 0 line_conn "[0, 5]" "replicate 8 0" "[]"
        TP_CMD_KEYINFO TP_ID_SERVER TP_ID_CLIENT "[]" 2 TP_CMD_BEEP "[]"] chunked_line [OF len] addr
    by (simp add: line_api_def line_start_def NativeCommand_def)
qed

lemma forged_state_notice_witness:
  "\<exists>w1 c'. receive_execute (line_env 500 (replicate 256 0))
      \<lparr>Call_TPState = Some (\<lambda>s w. (S_OK, w)), Call_TPKeyInfo = None, Call_TPTouchInfo = None\<rparr> 0 (line_conn\<lparr>tp_state := TP_TPLESS\<rparr>)
      (chunked ([] @ rtk_wire TP_CMD_SPECIAL TP_ID_SERVER TP_ID_CLIENT (le_bytes 4 (0 :: i32)) @ [])) = Some (S_OK, c', w1) \<and>
    tp_state c' = TP_CONNECT \<and> sent w1 = rtk_wire RTK_CMD_ACK TP_ID_CLIENT TP_ID_SERVER []"
proof -
  let ?bs = "[] @ rtk_wire TP_CMD_SPECIAL TP_ID_SERVER TP_ID_CLIENT (le_bytes 4 (0 :: i32)) @ []"
  let ?c = "line_conn\<lparr>tp_state := TP_TPLESS\<rparr>"
  have len: "4 \<le> length ?bs" by (simp add: rtk_wire_def rtk_frame_def)
  have c: "on_line ?c" "tp_state ?c = TP_TPLESS" "tp_from_id ?c = TP_ID_CLIENT"
    by (auto simp: line_conn_def deaf_conn_def on_line_def intro: exI [of _ 3])
  show ?thesis
    using forged_state_notice [of "replicate 256 0" ?c
        "\<lparr>Call_TPState = Some (\<lambda>s w. (S_OK, w)), Call_TPKeyInfo = None, Call_TPTouchInfo = None\<rparr>" "\<lambda>s w. (S_OK, w)"
        "chunked ?bs" "[]" TP_ID_SERVER TP_ID_CLIENT 0 "[]" 500 0] chunked_line [OF len] c
    by (force simp: chunked_def)
qed




lemma line_api_env [simp]: "ta_env line_api = line_env 500 (replicate 256 0)"
  by (simp add: line_api_def)



lemma DrawMiniTP_encodes_witness:
  "TPComm_DrawMiniTP deaf_api 1 (variant_array (map op_variant [Colour COLOR_FG 3, DrawText [65, 66] 1 2 3 0, Shape DRAW_LINE [0, 0, 9, 9]])
      (of_nat (length [Colour COLOR_FG 3, DrawText [65, 66] 1 2 3 0, Shape DRAW_LINE [0, 0, 9, 9]])) 0) (deaf_start TP_CONNECT) =
    (let msg = concat (map (op_bytes (ta_wcstombs deaf_api)) [Colour COLOR_FG 3, DrawText [65, 66] 1 2 3 0, Shape DRAW_LINE [0, 0, 9, 9]]) in
     if length msg \<le> 248
     then tp_send_receive deaf_api 1 TP_RETRY_TIMEOUT TP_CMD_MTP_DRAW
            (Some (msg @ drop (length msg) (take 248 (te_fresh (ta_env deaf_api))))) (of_nat (length msg)) (deaf_start TP_CONNECT)
     else Some (E_OUTOFMEMORY, deaf_start TP_CONNECT))"
  by (rule DrawMiniTP_encodes) (simp_all add: deaf_api_def deaf_env_def)

lemma draw_helpers_undefined_witness:
  "TPComm_DrawString deaf_api 1 (Some [65, 0]) 0 0 1 0 3 4 (deaf_start TP_CONNECT) = None \<and>
    TPComm_DrawLine deaf_api 1 0 0 9 9 3 (deaf_start TP_CONNECT) = None \<and>
    TPComm_DrawRectangle deaf_api 1 0 0 9 9 3 4 (deaf_start TP_CONNECT) = None"
  by (rule draw_helpers_undefined) (simp add: deaf_api_def deaf_env_def)

end
