(* ===== verification/TpHandles.thy ===== *)
theory TpHandles
  imports TpLine Handles
begin

text \<open>
  The handles of the pendant connections: the table of \<open>dn_tpcomm.c\<close> is a \<open>handle_table\<close> with one slot;
  what opening, the settings and closing do to the handles.
\<close>

abbreviation tp_used :: "conn_param_tp \<Rightarrow> bool" where
  "tp_used c \<equiv> sock (tp_device c) \<noteq> 0"

interpretation pendant: handle_table tp_used "{0}" TP_CONN_MAX tp_find_open tp_check_address
proof
  fix cs :: "conn_param_tp list" and h :: i32
  assume len: "length cs = TP_CONN_MAX"
  then obtain c where cs: "cs = [c]" by (cases cs) auto
  show "tp_find_open cs = 0 \<longleftrightarrow> (\<forall>i\<in>{0}. tp_used (cs ! i))" by (simp add: cs tp_find_open_def)
  show "tp_find_open cs \<noteq> 0 \<Longrightarrow> tp_find_open cs - 1 \<in> {0} \<and> \<not> tp_used (cs ! (tp_find_open cs - 1))"
    by (simp add: cs tp_find_open_def split: if_splits)
  show "tp_check_address cs h = (let i = sint h - 1 in
      if 0 \<le> i \<and> i < int TP_CONN_MAX \<and> tp_used (cs ! nat i) then Some (nat i, cs ! nat i) else None)"
    by (auto simp: cs tp_check_address_def Let_def)
qed simp_all

section \<open>Opening\<close>

lemma upd_tp_simps [simp]:
  "tps (upd_tp i c w st) = (tps st)[i := c]" "tp_world (upd_tp i c w st) = w" "tp_func (upd_tp i c w st) = tp_func st"
  by (simp_all add: upd_tp_def)

lemma zero_tp_unused [simp]: "\<not> tp_used zero_tp"
  by (simp add: zero_tp_def zero_device_def)

lemma SUCCEEDED_not: "SUCCEEDED hr \<longleftrightarrow> \<not> FAILED hr"
  using SUCCEEDED_FAILED by blast

lemma SetTimeout_new:
  assumes "length (tps st) = 1" and "tp_check_address (tps st) h = Some (i, c)" and "TPComm_SetTimeout api h tmo st = Some (hr, st')"
  shows "tps st' = (if FAILED hr then tps st else (tps st)[i := c\<lparr>tp_device := (tp_device c)\<lparr>timeout := tmo\<rparr>\<rparr>])"
    and "tp_func st' = tp_func st"
proof -
  have same: "(tps st)[i := c] = tps st"
    using assms(1,2) pendant.check_Some [of "tps st" h i c] by simp
  show "tps st' = (if FAILED hr then tps st else (tps st)[i := c\<lparr>tp_device := (tp_device c)\<lparr>timeout := tmo\<rparr>\<rparr>])"
    using assms(2,3) same
    by (auto simp: TPComm_SetTimeout_def SUCCEEDED_not simp del: SUCCEEDED_FAILED split: prod.splits if_splits option.splits)
  show "tp_func st' = tp_func st"
    using assms(2,3) by (auto simp: TPComm_SetTimeout_def split: prod.splits if_splits option.splits)
qed

text \<open>A descriptor that was opened is not zero, which marks a free slot.\<close>

definition tp_opens_ok :: "'w tp_api \<Rightarrow> bool" where
  "tp_opens_ok api \<longleftrightarrow> (\<forall>f p w r s w'. ta_open api f p w = (r, s, w') \<longrightarrow> \<not> FAILED r \<longrightarrow> s \<noteq> 0)"

text \<open>The cases of an open that has a result.\<close>

lemma TPComm_Open_cases:
  assumes "TPComm_Open api (Some con) tmo client True st = Some (hr, fd, st')" and "length (tps st) = 1"
    and "tp_opens_ok api"
    and "\<not> tp_timer_thread (tps st ! 0)"
  obtains (failed) "FAILED hr" "fd = None" "tps st' = tps st"
    | (cleared) c where "FAILED hr" "fd = None" "tp_find_open (tps st) \<noteq> 0" "tps st' = (tps st)[tp_find_open (tps st) - 1 := c]" "\<not> tp_used c"
    | (opened) c where "hr = S_OK" "tp_find_open (tps st) \<noteq> 0" "fd = Some (of_nat (tp_find_open (tps st)))" "tp_used c"
        "tps st' = (tps st)[tp_find_open (tps st) - 1 := c]" "timeout (tp_device c) = tmo" "tp_state c = TP_TPLESS" "tp_client c = client"
        "tp_from_id c = (if client then TP_ID_CLIENT else TP_ID_SERVER)" "tp_timer_thread c" "tp_recv_thread c"
        "conn_type (tp_device c) = parse_conn_type (Some con)"
proof -
  let ?n = "tp_find_open (tps st)"
  let ?i = "?n - 1"
  let ?c = "tps st ! ?i"
  show thesis
  proof (cases "?n = 0")
    case True
    then show ?thesis using assms(1) by (intro failed) (auto simp: TPComm_Open_def)
  next
    case n: False
    from pendant.find_Suc [OF assms(2)] n obtain k where k: "?n = Suc k" "k = 0" "\<not> tp_used (tps st ! k)" by auto
    obtain hr0 d par where dev: "tp_open_device api con (tp_device ?c) = (hr0, d, par)" by (cases "tp_open_device api con (tp_device ?c)")
    have sock: "sock d = 0" "conn_type d = parse_conn_type (Some con)"
      using dev k by (auto simp: tp_open_device_def Let_def split: if_splits prod.splits)
    obtain hr1 w1 where mx: "ta_init_mutex api ?i (tp_world st) = (hr1, w1)" by fastforce
    obtain hr2 w2 where ev: "ta_create_event api ?i w1 = (hr2, w2)" by fastforce
    consider "FAILED hr0" | "\<not> FAILED hr0" "FAILED hr1" | "\<not> FAILED hr0" "\<not> FAILED hr1" "FAILED hr2"
      | "\<not> FAILED hr0" "\<not> FAILED hr1" "\<not> FAILED hr2" by blast
    then show ?thesis
    proof cases
      case 4
      then obtain f where f: "dn_open d = Some f"
        using assms(1) n dev mx ev by (auto simp: TPComm_Open_def Let_def split: option.splits)
      obtain hr3 s w3 where op: "ta_open api f par w2 = (hr3, s, w3)" by (cases "ta_open api f par w2")
      show ?thesis
      proof (cases "FAILED hr3")
        case True
        then show ?thesis using assms(1) n dev mx ev f op 4 by (intro cleared [of zero_tp]) (auto simp: TPComm_Open_def Let_def)
      next
        case False
        let ?c1 = "?c\<lparr>tp_device := d\<lparr>sock := s\<rparr>\<rparr>"
        let ?st1 = "upd_tp ?i ?c1 w3 st"
        have "s \<noteq> 0" using assms(3) op False unfolding tp_opens_ok_def by blast
        then have used: "tp_used ?c1" by simp
        have chk: "tp_check_address (tps ?st1) (of_nat ?n) = Some (?i, ?c1)"
          using pendant.check_new [of "tps st" ?c1] assms(2) n used by simp
        obtain hr4 st4 where set: "TPComm_SetTimeout api (of_nat ?n) tmo ?st1 = Some (hr4, st4)"
          using assms(1) n dev mx ev f op 4 False by (auto simp: TPComm_Open_def Let_def split: option.splits)
        have len: "length (tps ?st1) = 1" using assms(2) by simp
        note new = SetTimeout_new [OF len chk set]
        have run: "(if FAILED hr4 then map_option (\<lambda>(_, _, st2). (hr4, None, st2)) (TPComm_Close api (Some (of_nat ?n)) st4)
            else Some (S_OK, Some (of_nat ?n), tp_start api ?i client st4)) = Some (hr, fd, st')"
          using assms(1) n dev mx ev f op 4 False set by (simp add: TPComm_Open_def Let_def split: if_splits)
        show ?thesis
        proof (cases "FAILED hr4")
          case True
          then have "TPComm_Close api (Some (of_nat ?n)) st4 = None"
            using new(1) chk assms(4) k by (simp add: TPComm_Close_def)
          then show ?thesis using run True by simp
        next
          case False
          obtain now w where clk: "te_clock (ta_env api) (tp_world st4) = (now, w)" by fastforce
          have "tps st4 = (tps st)[?i := ?c1\<lparr>tp_device := d\<lparr>sock := s, timeout := tmo\<rparr>\<rparr>]" using new(1) False by simp
          then show ?thesis
            using run False clk used sock n k assms(2)
            by (intro opened) (auto simp: tp_start_def Let_def)
        qed
      qed
    next
      case 2
      then show ?thesis
        using assms(1) n dev mx sock by (intro cleared [of "?c\<lparr>tp_device := d\<lparr>arg := None\<rparr>\<rparr>"]) (auto simp: TPComm_Open_def Let_def)
    qed (use assms(1) n dev mx ev in \<open>intro cleared [of zero_tp]; auto simp: TPComm_Open_def Let_def\<close>)+
  qed
qed

section \<open>Properties\<close>

text \<open>
  A successful \<open>TPComm_Open\<close> returns a handle that was not in use and now is a
  connection without a pendant yet, with the time-out, the mode and the sender asked for; after
  a failure no handle is returned and none has changed.
\<close>

lemma TPComm_Open_handle:
  assumes "TPComm_Open api (Some con) tmo client True st = Some (hr, fd, st')" and "length (tps st) = 1"
    and "tp_opens_ok api"
    and "\<not> tp_timer_thread (tps st ! 0)"
  shows "case fd of
      None \<Rightarrow> FAILED hr \<and> tp_check_address (tps st') = tp_check_address (tps st)
    | Some h \<Rightarrow> hr = S_OK \<and> tp_check_address (tps st) h = None \<and>
        (\<exists>i c. tp_check_address (tps st') h = Some (i, c) \<and> timeout (tp_device c) = tmo \<and>
           conn_type (tp_device c) = parse_conn_type (Some con) \<and> tp_state c = TP_TPLESS \<and> tp_client c = client \<and>
           tp_from_id c = (if client then TP_ID_CLIENT else TP_ID_SERVER) \<and> tp_timer_thread c \<and> tp_recv_thread c)"
  using assms
proof (cases rule: TPComm_Open_cases)
  case failed
  then show ?thesis by simp
next
  case (cleared c)
  then show ?thesis using pendant.check_unused_update [OF assms(2) cleared(3,5)] by (simp add: fun_eq_iff)
next
  case (opened c)
  show ?thesis
    using opened pendant.find_unused [OF assms(2) opened(2)] pendant.check_new [OF assms(2) opened(2,4)] by simp
qed

text \<open>
  When the time-out of a new connection cannot be set, \<open>TPComm_Open\<close>
  has no defined result: it calls \<open>TPComm_Close\<close>, which joins the two threads that were never begun.
\<close>

lemma TPComm_Open_timeout_undefined:
  assumes "length (tps st) = 1" and "\<not> tp_used (tps st ! 0)" and "\<not> tp_timer_thread (tps st ! 0)"
    and "tp_open_device api con (tp_device (tps st ! 0)) = (S_OK, d, par)" and "dn_open d = Some f" and "dn_set_timeout d = Some g"
    and "ta_init_mutex api 0 (tp_world st) = (S_OK, w1)" and "ta_create_event api 0 w1 = (S_OK, w2)"
    and "ta_open api f par w2 = (S_OK, s, w3)" and "s \<noteq> 0" and "te_lock (ta_env api) 0 w3 = (S_OK, w4)"
    and "ta_set_timeout api g s tmo w4 = (hr, w5)" and "FAILED hr"
  shows "TPComm_Open api (Some con) tmo client True st = None"
proof -
  obtain c where c: "tps st = [c]" using assms(1) by (cases "tps st") auto
  have find: "tp_find_open (tps st) = 1" using assms(2) c by (simp add: tp_find_open_def)
  let ?c1 = "c\<lparr>tp_device := d\<lparr>sock := s\<rparr>\<rparr>"
  have chk: "tp_check_address [?c1] 1 = Some (0, ?c1)" using assms(10) by (simp add: tp_check_address_def)
  have set: "TPComm_SetTimeout api 1 tmo (upd_tp 0 ?c1 w3 st) =
      Some (hr, (upd_tp 0 ?c1 w3 st)\<lparr>tps := [?c1], tp_world := te_unlock (ta_env api) 0 w5\<rparr>)"
    using assms(6,11-13) c chk by (simp add: TPComm_SetTimeout_def SUCCEEDED_not del: SUCCEEDED_FAILED)
  moreover have "TPComm_Close api (Some 1) ((upd_tp 0 ?c1 w3 st)\<lparr>tps := [?c1], tp_world := te_unlock (ta_env api) 0 w5\<rparr>) = None"
    using assms(3) c chk by (simp add: TPComm_Close_def)
  ultimately show ?thesis
    using assms(4,5,7-9,13) c find by (simp add: TPComm_Open_def)
qed

text \<open>
  Closing a connection that was opened frees its handle, clears the caller's
  variable and the record; a handle that is not in use is refused and nothing changes.
\<close>

lemma TPComm_Close_handle:
  assumes "TPComm_Close api (Some h) st = Some (hr, out, st')" and "length (tps st) = 1"
  shows "if tp_check_address (tps st) h = None then hr = E_HANDLE \<and> out = Some h \<and> st' = st
    else hr = S_OK \<and> out = Some 0 \<and> tp_check_address (tps st') h = None \<and> tps st' = [zero_tp]"
proof (cases "tp_check_address (tps st) h")
  case None
  then show ?thesis using assms(1) by (auto simp: TPComm_Close_def)
next
  case (Some p)
  then obtain i c where chk: "tp_check_address (tps st) h = Some (i, c)" by (cases p) auto
  then have "i = 0" using assms(2) pendant.check_Some [OF assms(2)] by simp
  moreover have "(tps st)[0 := zero_tp] = [zero_tp]" using assms(2) by (cases "tps st") auto
  moreover have "tp_check_address ((tps st)[i := zero_tp]) h = None"
    using pendant.check_update [OF assms(2) chk, of zero_tp] by simp
  ultimately show ?thesis
    using assms(1) chk by (auto simp: TPComm_Close_def Let_def split: if_splits option.splits)
qed

section \<open>Examples\<close>

definition free_tp :: "net tp" where
  "free_tp = \<lparr>tps = [zero_tp], tp_func = \<lparr>Call_TPState = None, Call_TPKeyInfo = None, Call_TPTouchInfo = None\<rparr>, tp_world = quiet\<rparr>"

definition opened_tp :: "net tp" where
  "opened_tp = tp_start line_api 0 True (upd_tp 0 (zero_tp\<lparr>tp_device := com_device 3 1000\<rparr>) quiet free_tp)"

lemma sample_device:
  "tp_open_device line_api ''com:1:9600'' zero_device = (S_OK, com_device 0 0, OpenCom (sample_com 9600))"
proof -
  have "parse_conn_type (Some ''com:1:9600'') = CONN_COM" by code_simp
  moreover have "\<lparr>com_port = 1, baud_rate = 38400, parity = 0, data_bits = 8, stop_bits = 0, flow = 0\<rparr> = sample_com 38400"
    by (simp add: sample_com_def)
  ultimately show ?thesis
    using sample_parsed by (simp add: tp_open_device_def line_api_def Let_def) (simp add: com_device_def zero_device_def)
qed

lemma sample_timeout: "com_set_timeout line_tty 3 1000 quiet = (S_OK, quiet)"
  by (simp add: com_set_timeout_def com_set_state_def sys_code_def line_tty_def)

lemma line_api_simps [simp]:
  "ta_env line_api = line_env 500 (replicate 256 0)" "ta_open line_api f p w = (S_OK, 3, w)"
  "ta_init_mutex line_api i w = (S_OK, w)" "ta_create_event line_api i w = (S_OK, w)"
  "ta_set_timeout line_api f s t w = com_set_timeout line_tty s t w"
  by (simp_all add: line_api_def)

lemma free_open: "TPComm_Open line_api (Some ''com:1:9600'') 1000 True True free_tp = Some (S_OK, Some 1, opened_tp)"
proof -
  have dev: "tp_device zero_tp = zero_device" by (simp add: zero_tp_def)
  have find: "tp_find_open [zero_tp] = 1" by (simp add: tp_find_open_def)
  let ?c = "zero_tp\<lparr>tp_device := com_device 3 0\<rparr>"
  have "tp_check_address [?c] 1 = Some (0, ?c)" by (simp add: tp_check_address_def com_device_def)
  then have "TPComm_SetTimeout line_api 1 1000 (upd_tp 0 ?c quiet free_tp) =
      Some (S_OK, upd_tp 0 (zero_tp\<lparr>tp_device := com_device 3 1000\<rparr>) quiet free_tp)"
    using sample_timeout by (simp add: TPComm_SetTimeout_def free_tp_def upd_tp_def com_device_def)
  moreover have "(com_device 0 0)\<lparr>sock := 3\<rparr> = com_device 3 0" by (simp add: com_device_def)
  moreover have "dn_open (com_device 0 0) = Some F_com_open" by (simp add: com_device_def)
  ultimately show ?thesis
    using sample_device dev find by (simp add: TPComm_Open_def opened_tp_def free_tp_def)
qed

lemma TPComm_Open_handle_witness:
  "case Some (1 :: i32) of
      None \<Rightarrow> FAILED S_OK \<and> tp_check_address (tps opened_tp) = tp_check_address (tps free_tp)
    | Some h \<Rightarrow> S_OK = S_OK \<and> tp_check_address (tps free_tp) h = None \<and>
        (\<exists>i c. tp_check_address (tps opened_tp) h = Some (i, c) \<and> timeout (tp_device c) = 1000 \<and>
           conn_type (tp_device c) = parse_conn_type (Some ''com:1:9600'') \<and> tp_state c = TP_TPLESS \<and> tp_client c = True \<and>
           tp_from_id c = (if True then TP_ID_CLIENT else TP_ID_SERVER) \<and> tp_timer_thread c \<and> tp_recv_thread c)"
  by (rule TPComm_Open_handle [OF free_open]) (simp_all add: free_tp_def tp_opens_ok_def zero_tp_def)

text \<open>A driver that refuses the time-out.\<close>

lemma TPComm_Open_timeout_undefined_witness:
  "TPComm_Open (line_api\<lparr>ta_set_timeout := \<lambda>f s t w. (E_FAIL, w)\<rparr>) (Some ''com:1:9600'') 1000 True True free_tp = None"
proof -
  have dev: "tp_open_device (line_api\<lparr>ta_set_timeout := \<lambda>f s t w. (E_FAIL, w)\<rparr>) ''com:1:9600'' zero_device =
      tp_open_device line_api ''com:1:9600'' zero_device"
    by (simp add: tp_open_device_def Let_def)
  show ?thesis
    by (rule TPComm_Open_timeout_undefined [of _ _ _ "com_device 0 0" "OpenCom (sample_com 9600)" F_com_open F_com_set_timeout quiet quiet 3 quiet quiet 1000 E_FAIL quiet])
       (simp_all add: free_tp_def zero_tp_def dev sample_device, simp_all add: com_device_def zero_device_def)
qed

lemma TPComm_Close_handle_witness:
  "if tp_check_address (tps opened_tp) 1 = None then S_OK = E_HANDLE \<and> Some (0 :: i32) = Some 1 \<and> free_tp = opened_tp
    else S_OK = S_OK \<and> Some (0 :: i32) = Some 0 \<and> tp_check_address (tps free_tp) 1 = None \<and> tps free_tp = [zero_tp]"
proof -
  have "TPComm_Close line_api (Some 1) opened_tp = Some (S_OK, Some 0, free_tp)"
    by (simp add: TPComm_Close_def opened_tp_def tp_start_def tp_check_address_def free_tp_def upd_tp_def com_device_def line_api_def Let_def)
  then show ?thesis by (rule TPComm_Close_handle) (simp add: opened_tp_def tp_start_def free_tp_def)
qed

end
