(* ===== verification/BcapService.thy ===== *)
theory BcapService
  imports BcapApi Options "HOL-Library.Monad_Syntax"
begin

text \<open>
  The service of the robot's nodes: \<open>bcap_service/src/bcap_service.cpp\<close>. A \<open>BCAPService\<close> is one
  connection to a controller; \<open>ExecFunction\<close> calls the function of the client's interface with
  a given number and keeps the handles of the objects it has got, \<open>Disconnect\<close> releases them.

  \<^item> The members of the object are a record; the client's table of connections is shared by all
    services of a process and is passed along.
  \<^item> \<open>vntArgs.at(i)\<close> throws beyond the end of the vector, which \<open>ExecFunction\<close> turns into
    \<open>DISP_E_BADINDEX\<close>. A member of the union of a \<open>VARIANT\<close> is read whatever its type is:
    a number is the low bits, a number that is used as a pointer has no defined result, except zero.
  \<^item> The functions that release an object also set the handle in the vector of the arguments to
    zero, which no caller looks at; the vector is not a result here.
\<close>

section \<open>The state\<close>

type_synonym key_handle = "i32 \<times> u32"

record service =
  m_type :: string
  m_addr :: string
  m_port :: i32
  m_timeout :: i32
  m_retry :: i32
  m_wait :: i32
  m_fd :: i32
  m_wdt :: i32
  m_invoke :: i32
  m_vecKH :: "key_handle list"

text \<open>
  The parameters of the node as \<open>get_parameter\<close> returns them, \<open>None\<close> for one that is not there. An
  address the service was made with is not looked up.
\<close>

record node_params =
  par_conn_type :: "string option"
  par_ip_address :: "string option"
  par_port_number :: "i32 option"
  par_timeout :: "i32 option"
  par_retry_count :: "i32 option"
  par_wait_time :: "i32 option"
  par_watchdog_timer :: "i32 option"
  par_invoke_timeout :: "i32 option"

definition or_default :: "'a \<Rightarrow> 'a option \<Rightarrow> 'a" where
  "or_default d x = (case x of None \<Rightarrow> d | Some y \<Rightarrow> y)"

definition new_service :: "string \<Rightarrow> service" where
  "new_service ip =
     \<lparr>m_type = [], m_addr = ip, m_port = 0, m_timeout = 0, m_retry = 0, m_wait = 0, m_fd = 0, m_wdt = 0,
      m_invoke = 0, m_vecKH = []\<rparr>"

definition parseParams :: "node_params \<Rightarrow> service \<Rightarrow> service" where
  "parseParams p s =
     s\<lparr>m_type := or_default ''tcp'' (par_conn_type p),
       m_addr := (if m_addr s = [] then or_default ''192.168.0.1'' (par_ip_address p) else m_addr s),
       m_port := or_default 5007 (par_port_number p), m_timeout := or_default 3000 (par_timeout p),
       m_retry := or_default 5 (par_retry_count p), m_wait := or_default 0 (par_wait_time p),
       m_wdt := or_default 400 (par_watchdog_timer p), m_invoke := or_default 180000 (par_invoke_timeout p)\<rparr>"

section \<open>Members of a \<open>VARIANT\<close>\<close>

definition ulVal :: "variant \<Rightarrow> u32 option" where
  "ulVal v = (case val v of Bits w \<Rightarrow> Some (ucast w) | _ \<Rightarrow> None)"

abbreviation (input) lVal :: "variant \<Rightarrow> i32 option" where "lVal \<equiv> ulVal"
abbreviation (input) fltVal :: "variant \<Rightarrow> u32 option" where "fltVal \<equiv> ulVal"

definition bstrVal :: "variant \<Rightarrow> bstr option option" where
  "bstrVal v = bstr_ptr (val v)"

definition retype :: "u16 \<Rightarrow> variant \<Rightarrow> variant" where
  "retype t v = Variant t (val v)"

text \<open>A store of 32 bits leaves the upper half of the union as it was.\<close>

definition set_ulVal :: "u32 \<Rightarrow> variant \<Rightarrow> variant option" where
  "set_ulVal n v =
     (case val v of Bits w \<Rightarrow> Some (Variant (vt v) (Bits ((w AND NOT (mask 32)) OR ucast n))) | _ \<Rightarrow> None)"

section \<open>Calling a function by its number\<close>

text \<open>
  What the switch leaves: the code, the result, the two members of \<open>tmpKH\<close>, and the client.
  \<open>returned\<close> stores what a function returned through its pointer into the result, \<open>released\<close> is a
  function that takes a handle back.
\<close>

type_synonym 'w switched = "(hresult \<times> variant \<times> key_handle \<times> 'w client) option"

definition store_out :: "variant \<Rightarrow> out_val option \<Rightarrow> variant option" where
  "store_out ret out =
     (case out of
        None \<Rightarrow> Some ret
      | Some (RetI4 n) \<Rightarrow> set_ulVal n ret
      | Some (RetBstr b) \<Rightarrow> Some (Variant (vt ret) (bstr_val b))
      | Some (RetVariant v) \<Rightarrow> Some v)"

definition returned :: "i32 \<Rightarrow> variant \<Rightarrow> 'w called \<Rightarrow> 'w switched" where
  "returned key ret r = do {
     (hr, out, st) \<leftarrow> r;
     ret' \<leftarrow> store_out ret out;
     Some (hr, ret', (key, 0), st)
   }"

definition released :: "u32 \<Rightarrow> variant \<Rightarrow> 'w released \<Rightarrow> 'w switched" where
  "released h ret r = map_option (\<lambda>(hr, _, st). (hr, ret, (0, h), st)) r"

definition at_args :: "nat \<Rightarrow> variant list \<Rightarrow> variant \<Rightarrow> 'w client \<Rightarrow> 'w switched \<Rightarrow> 'w switched" where
  "at_args n vntArgs ret st r =
     (if length vntArgs < n then Some (DISP_E_BADINDEX, ret, (0, 0), st) else r)"

definition no_function :: "variant \<Rightarrow> 'w client \<Rightarrow> 'w switched" where
  "no_function ret st = Some (E_INVALIDARG, ret, (0, 0), st)"

text \<open>The switch, in the order of the groups from its end; each goes on to the next group.\<close>

definition exec_message :: "'w cenv \<Rightarrow> i32 \<Rightarrow> i32 \<Rightarrow> variant list \<Rightarrow> variant \<Rightarrow> 'w client \<Rightarrow> 'w switched" where
  "exec_message env fd fid vntArgs ret st =
     (if fid = ID_MESSAGE_REPLY then
        at_args 2 vntArgs ret st (do { a0 \<leftarrow> ulVal (vntArgs ! 0); returned 0 ret (bCap_MessageReply env fd a0 (vntArgs ! 1) st) })
      else if fid = ID_MESSAGE_CLEAR then
        at_args 1 vntArgs ret st (do { a0 \<leftarrow> ulVal (vntArgs ! 0); returned 0 ret (bCap_MessageClear env fd a0 st) })
      else if fid = ID_MESSAGE_GETDATETIME then
        at_args 1 vntArgs ret st (do { a0 \<leftarrow> ulVal (vntArgs ! 0); returned 0 ret (bCap_MessageGetDateTime env fd a0 (Some ret) st) })
      else if fid = ID_MESSAGE_GETDESCRIPTION then
        at_args 1 vntArgs (retype VT_BSTR ret) st (do { a0 \<leftarrow> ulVal (vntArgs ! 0); returned 0 (retype VT_BSTR ret) (bCap_MessageGetDescription env fd a0 True st) })
      else if fid = ID_MESSAGE_GETDESTINATION then
        at_args 1 vntArgs (retype VT_BSTR ret) st (do { a0 \<leftarrow> ulVal (vntArgs ! 0); returned 0 (retype VT_BSTR ret) (bCap_MessageGetDestination env fd a0 True st) })
      else if fid = ID_MESSAGE_GETNUMBER then
        at_args 1 vntArgs (retype VT_I4 ret) st (do { a0 \<leftarrow> ulVal (vntArgs ! 0); returned 0 (retype VT_I4 ret) (bCap_MessageGetNumber env fd a0 True st) })
      else if fid = ID_MESSAGE_GETSERIALNUMBER then
        at_args 1 vntArgs (retype VT_I4 ret) st (do { a0 \<leftarrow> ulVal (vntArgs ! 0); returned 0 (retype VT_I4 ret) (bCap_MessageGetSerialNumber env fd a0 True st) })
      else if fid = ID_MESSAGE_GETSOURCE then
        at_args 1 vntArgs (retype VT_BSTR ret) st (do { a0 \<leftarrow> ulVal (vntArgs ! 0); returned 0 (retype VT_BSTR ret) (bCap_MessageGetSource env fd a0 True st) })
      else if fid = ID_MESSAGE_GETVALUE then
        at_args 1 vntArgs ret st (do { a0 \<leftarrow> ulVal (vntArgs ! 0); returned 0 ret (bCap_MessageGetValue env fd a0 (Some ret) st) })
      else if fid = ID_MESSAGE_RELEASE then
        at_args 1 vntArgs ret st (do { a0 \<leftarrow> ulVal (vntArgs ! 0); released a0 ret (bCap_MessageRelease env fd (Some a0) st) })
      else no_function ret st)"

definition exec_command :: "'w cenv \<Rightarrow> i32 \<Rightarrow> i32 \<Rightarrow> variant list \<Rightarrow> variant \<Rightarrow> 'w client \<Rightarrow> 'w switched" where
  "exec_command env fd fid vntArgs ret st =
     (if fid = ID_COMMAND_EXECUTE then
        at_args 2 vntArgs ret st (do { a0 \<leftarrow> ulVal (vntArgs ! 0); a1 \<leftarrow> lVal (vntArgs ! 1); returned 0 ret (bCap_CommandExecute env fd a0 a1 (Some ret) st) })
      else if fid = ID_COMMAND_CANCEL then
        at_args 1 vntArgs ret st (do { a0 \<leftarrow> ulVal (vntArgs ! 0); returned 0 ret (bCap_CommandCancel env fd a0 st) })
      else if fid = ID_COMMAND_GETTIMEOUT then
        at_args 1 vntArgs (retype VT_I4 ret) st (do { a0 \<leftarrow> ulVal (vntArgs ! 0); returned 0 (retype VT_I4 ret) (bCap_CommandGetTimeout env fd a0 True st) })
      else if fid = ID_COMMAND_PUTTIMEOUT then
        at_args 2 vntArgs ret st (do { a0 \<leftarrow> ulVal (vntArgs ! 0); a1 \<leftarrow> lVal (vntArgs ! 1); returned 0 ret (bCap_CommandPutTimeout env fd a0 a1 st) })
      else if fid = ID_COMMAND_GETSTATE then
        at_args 1 vntArgs (retype VT_I4 ret) st (do { a0 \<leftarrow> ulVal (vntArgs ! 0); returned 0 (retype VT_I4 ret) (bCap_CommandGetState env fd a0 True st) })
      else if fid = ID_COMMAND_GETPARAMETERS then
        at_args 1 vntArgs ret st (do { a0 \<leftarrow> ulVal (vntArgs ! 0); returned 0 ret (bCap_CommandGetParameters env fd a0 (Some ret) st) })
      else if fid = ID_COMMAND_PUTPARAMETERS then
        at_args 2 vntArgs ret st (do { a0 \<leftarrow> ulVal (vntArgs ! 0); returned 0 ret (bCap_CommandPutParameters env fd a0 (vntArgs ! 1) st) })
      else if fid = ID_COMMAND_GETRESULT then
        at_args 1 vntArgs ret st (do { a0 \<leftarrow> ulVal (vntArgs ! 0); returned 0 ret (bCap_CommandGetResult env fd a0 (Some ret) st) })
      else if fid = ID_COMMAND_GETATTRIBUTE then
        at_args 1 vntArgs (retype VT_I4 ret) st (do { a0 \<leftarrow> ulVal (vntArgs ! 0); returned 0 (retype VT_I4 ret) (bCap_CommandGetAttribute env fd a0 True st) })
      else if fid = ID_COMMAND_GETHELP then
        at_args 1 vntArgs (retype VT_BSTR ret) st (do { a0 \<leftarrow> ulVal (vntArgs ! 0); returned 0 (retype VT_BSTR ret) (bCap_CommandGetHelp env fd a0 True st) })
      else if fid = ID_COMMAND_GETNAME then
        at_args 1 vntArgs (retype VT_BSTR ret) st (do { a0 \<leftarrow> ulVal (vntArgs ! 0); returned 0 (retype VT_BSTR ret) (bCap_CommandGetName env fd a0 True st) })
      else if fid = ID_COMMAND_GETTAG then
        at_args 1 vntArgs ret st (do { a0 \<leftarrow> ulVal (vntArgs ! 0); returned 0 ret (bCap_CommandGetTag env fd a0 (Some ret) st) })
      else if fid = ID_COMMAND_PUTTAG then
        at_args 2 vntArgs ret st (do { a0 \<leftarrow> ulVal (vntArgs ! 0); returned 0 ret (bCap_CommandPutTag env fd a0 (vntArgs ! 1) st) })
      else if fid = ID_COMMAND_GETID then
        at_args 1 vntArgs ret st (do { a0 \<leftarrow> ulVal (vntArgs ! 0); returned 0 ret (bCap_CommandGetID env fd a0 (Some ret) st) })
      else if fid = ID_COMMAND_PUTID then
        at_args 2 vntArgs ret st (do { a0 \<leftarrow> ulVal (vntArgs ! 0); returned 0 ret (bCap_CommandPutID env fd a0 (vntArgs ! 1) st) })
      else if fid = ID_COMMAND_RELEASE then
        at_args 1 vntArgs ret st (do { a0 \<leftarrow> ulVal (vntArgs ! 0); released a0 ret (bCap_CommandRelease env fd (Some a0) st) })
      else exec_message env fd fid vntArgs ret st)"

definition exec_variable :: "'w cenv \<Rightarrow> i32 \<Rightarrow> i32 \<Rightarrow> variant list \<Rightarrow> variant \<Rightarrow> 'w client \<Rightarrow> 'w switched" where
  "exec_variable env fd fid vntArgs ret st =
     (if fid = ID_VARIABLE_GETDATETIME then
        at_args 1 vntArgs ret st (do { a0 \<leftarrow> ulVal (vntArgs ! 0); returned 0 ret (bCap_VariableGetDateTime env fd a0 (Some ret) st) })
      else if fid = ID_VARIABLE_GETVALUE then
        at_args 1 vntArgs ret st (do { a0 \<leftarrow> ulVal (vntArgs ! 0); returned 0 ret (bCap_VariableGetValue env fd a0 (Some ret) st) })
      else if fid = ID_VARIABLE_PUTVALUE then
        at_args 2 vntArgs ret st (do { a0 \<leftarrow> ulVal (vntArgs ! 0); returned 0 ret (bCap_VariablePutValue env fd a0 (vntArgs ! 1) st) })
      else if fid = ID_VARIABLE_GETATTRIBUTE then
        at_args 1 vntArgs (retype VT_I4 ret) st (do { a0 \<leftarrow> ulVal (vntArgs ! 0); returned 0 (retype VT_I4 ret) (bCap_VariableGetAttribute env fd a0 True st) })
      else if fid = ID_VARIABLE_GETHELP then
        at_args 1 vntArgs (retype VT_BSTR ret) st (do { a0 \<leftarrow> ulVal (vntArgs ! 0); returned 0 (retype VT_BSTR ret) (bCap_VariableGetHelp env fd a0 True st) })
      else if fid = ID_VARIABLE_GETNAME then
        at_args 1 vntArgs (retype VT_BSTR ret) st (do { a0 \<leftarrow> ulVal (vntArgs ! 0); returned 0 (retype VT_BSTR ret) (bCap_VariableGetName env fd a0 True st) })
      else if fid = ID_VARIABLE_GETTAG then
        at_args 1 vntArgs ret st (do { a0 \<leftarrow> ulVal (vntArgs ! 0); returned 0 ret (bCap_VariableGetTag env fd a0 (Some ret) st) })
      else if fid = ID_VARIABLE_PUTTAG then
        at_args 2 vntArgs ret st (do { a0 \<leftarrow> ulVal (vntArgs ! 0); returned 0 ret (bCap_VariablePutTag env fd a0 (vntArgs ! 1) st) })
      else if fid = ID_VARIABLE_GETID then
        at_args 1 vntArgs ret st (do { a0 \<leftarrow> ulVal (vntArgs ! 0); returned 0 ret (bCap_VariableGetID env fd a0 (Some ret) st) })
      else if fid = ID_VARIABLE_PUTID then
        at_args 2 vntArgs ret st (do { a0 \<leftarrow> ulVal (vntArgs ! 0); returned 0 ret (bCap_VariablePutID env fd a0 (vntArgs ! 1) st) })
      else if fid = ID_VARIABLE_GETMICROSECOND then
        at_args 1 vntArgs (retype VT_I4 ret) st (do { a0 \<leftarrow> ulVal (vntArgs ! 0); returned 0 (retype VT_I4 ret) (bCap_VariableGetMicrosecond env fd a0 True st) })
      else if fid = ID_VARIABLE_RELEASE then
        at_args 1 vntArgs ret st (do { a0 \<leftarrow> ulVal (vntArgs ! 0); released a0 ret (bCap_VariableRelease env fd (Some a0) st) })
      else exec_command env fd fid vntArgs ret st)"

definition exec_task :: "'w cenv \<Rightarrow> i32 \<Rightarrow> i32 \<Rightarrow> variant list \<Rightarrow> variant \<Rightarrow> 'w client \<Rightarrow> 'w switched" where
  "exec_task env fd fid vntArgs ret st =
     (if fid = ID_TASK_GETVARIABLE then
        at_args 3 vntArgs (retype VT_UI4 ret) st (do { a0 \<leftarrow> ulVal (vntArgs ! 0); a1 \<leftarrow> bstrVal (vntArgs ! 1); a2 \<leftarrow> bstrVal (vntArgs ! 2); returned ID_VARIABLE_RELEASE (retype VT_UI4 ret) (bCap_TaskGetVariable env fd a0 a1 a2 True st) })
      else if fid = ID_TASK_GETVARIABLENAMES then
        at_args 2 vntArgs ret st (do { a0 \<leftarrow> ulVal (vntArgs ! 0); a1 \<leftarrow> bstrVal (vntArgs ! 1); returned 0 ret (bCap_TaskGetVariableNames env fd a0 a1 (Some ret) st) })
      else if fid = ID_TASK_EXECUTE then
        at_args 3 vntArgs ret st (do { a0 \<leftarrow> ulVal (vntArgs ! 0); a1 \<leftarrow> bstrVal (vntArgs ! 1); returned 0 ret (bCap_TaskExecute env fd a0 a1 (vntArgs ! 2) (Some ret) st) })
      else if fid = ID_TASK_START then
        at_args 3 vntArgs ret st (do { a0 \<leftarrow> ulVal (vntArgs ! 0); a1 \<leftarrow> lVal (vntArgs ! 1); a2 \<leftarrow> bstrVal (vntArgs ! 2); returned 0 ret (bCap_TaskStart env fd a0 a1 a2 st) })
      else if fid = ID_TASK_STOP then
        at_args 3 vntArgs ret st (do { a0 \<leftarrow> ulVal (vntArgs ! 0); a1 \<leftarrow> lVal (vntArgs ! 1); a2 \<leftarrow> bstrVal (vntArgs ! 2); returned 0 ret (bCap_TaskStop env fd a0 a1 a2 st) })
      else if fid = ID_TASK_DELETE then
        at_args 2 vntArgs ret st (do { a0 \<leftarrow> ulVal (vntArgs ! 0); a1 \<leftarrow> bstrVal (vntArgs ! 1); returned 0 ret (bCap_TaskDelete env fd a0 a1 st) })
      else if fid = ID_TASK_GETFILENAME then
        at_args 1 vntArgs (retype VT_BSTR ret) st (do { a0 \<leftarrow> ulVal (vntArgs ! 0); returned 0 (retype VT_BSTR ret) (bCap_TaskGetFileName env fd a0 True st) })
      else if fid = ID_TASK_GETATTRIBUTE then
        at_args 1 vntArgs (retype VT_I4 ret) st (do { a0 \<leftarrow> ulVal (vntArgs ! 0); returned 0 (retype VT_I4 ret) (bCap_TaskGetAttribute env fd a0 True st) })
      else if fid = ID_TASK_GETHELP then
        at_args 1 vntArgs (retype VT_BSTR ret) st (do { a0 \<leftarrow> ulVal (vntArgs ! 0); returned 0 (retype VT_BSTR ret) (bCap_TaskGetHelp env fd a0 True st) })
      else if fid = ID_TASK_GETNAME then
        at_args 1 vntArgs (retype VT_BSTR ret) st (do { a0 \<leftarrow> ulVal (vntArgs ! 0); returned 0 (retype VT_BSTR ret) (bCap_TaskGetName env fd a0 True st) })
      else if fid = ID_TASK_GETTAG then
        at_args 1 vntArgs ret st (do { a0 \<leftarrow> ulVal (vntArgs ! 0); returned 0 ret (bCap_TaskGetTag env fd a0 (Some ret) st) })
      else if fid = ID_TASK_PUTTAG then
        at_args 2 vntArgs ret st (do { a0 \<leftarrow> ulVal (vntArgs ! 0); returned 0 ret (bCap_TaskPutTag env fd a0 (vntArgs ! 1) st) })
      else if fid = ID_TASK_GETID then
        at_args 1 vntArgs ret st (do { a0 \<leftarrow> ulVal (vntArgs ! 0); returned 0 ret (bCap_TaskGetID env fd a0 (Some ret) st) })
      else if fid = ID_TASK_PUTID then
        at_args 2 vntArgs ret st (do { a0 \<leftarrow> ulVal (vntArgs ! 0); returned 0 ret (bCap_TaskPutID env fd a0 (vntArgs ! 1) st) })
      else if fid = ID_TASK_RELEASE then
        at_args 1 vntArgs ret st (do { a0 \<leftarrow> ulVal (vntArgs ! 0); released a0 ret (bCap_TaskRelease env fd (Some a0) st) })
      else exec_variable env fd fid vntArgs ret st)"

definition exec_robot :: "'w cenv \<Rightarrow> i32 \<Rightarrow> i32 \<Rightarrow> variant list \<Rightarrow> variant \<Rightarrow> 'w client \<Rightarrow> 'w switched" where
  "exec_robot env fd fid vntArgs ret st =
     (if fid = ID_ROBOT_GETVARIABLE then
        at_args 3 vntArgs (retype VT_UI4 ret) st (do { a0 \<leftarrow> ulVal (vntArgs ! 0); a1 \<leftarrow> bstrVal (vntArgs ! 1); a2 \<leftarrow> bstrVal (vntArgs ! 2); returned ID_VARIABLE_RELEASE (retype VT_UI4 ret) (bCap_RobotGetVariable env fd a0 a1 a2 True st) })
      else if fid = ID_ROBOT_GETVARIABLENAMES then
        at_args 2 vntArgs ret st (do { a0 \<leftarrow> ulVal (vntArgs ! 0); a1 \<leftarrow> bstrVal (vntArgs ! 1); returned 0 ret (bCap_RobotGetVariableNames env fd a0 a1 (Some ret) st) })
      else if fid = ID_ROBOT_EXECUTE then
        at_args 3 vntArgs ret st (do { a0 \<leftarrow> ulVal (vntArgs ! 0); a1 \<leftarrow> bstrVal (vntArgs ! 1); returned 0 ret (bCap_RobotExecute env fd a0 a1 (vntArgs ! 2) (Some ret) st) })
      else if fid = ID_ROBOT_ACCELERATE then
        at_args 4 vntArgs ret st (do { a0 \<leftarrow> ulVal (vntArgs ! 0); a1 \<leftarrow> lVal (vntArgs ! 1); a2 \<leftarrow> fltVal (vntArgs ! 2); a3 \<leftarrow> fltVal (vntArgs ! 3); returned 0 ret (bCap_RobotAccelerate env fd a0 a1 a2 a3 st) })
      else if fid = ID_ROBOT_CHANGE then
        at_args 2 vntArgs ret st (do { a0 \<leftarrow> ulVal (vntArgs ! 0); a1 \<leftarrow> bstrVal (vntArgs ! 1); returned 0 ret (bCap_RobotChange env fd a0 a1 st) })
      else if fid = ID_ROBOT_CHUCK then
        at_args 2 vntArgs ret st (do { a0 \<leftarrow> ulVal (vntArgs ! 0); a1 \<leftarrow> bstrVal (vntArgs ! 1); returned 0 ret (bCap_RobotChuck env fd a0 a1 st) })
      else if fid = ID_ROBOT_DRIVE then
        at_args 4 vntArgs ret st (do { a0 \<leftarrow> ulVal (vntArgs ! 0); a1 \<leftarrow> lVal (vntArgs ! 1); a2 \<leftarrow> fltVal (vntArgs ! 2); a3 \<leftarrow> bstrVal (vntArgs ! 3); returned 0 ret (bCap_RobotDrive env fd a0 a1 a2 a3 st) })
      else if fid = ID_ROBOT_GOHOME then
        at_args 1 vntArgs ret st (do { a0 \<leftarrow> ulVal (vntArgs ! 0); returned 0 ret (bCap_RobotGoHome env fd a0 st) })
      else if fid = ID_ROBOT_HALT then
        at_args 2 vntArgs ret st (do { a0 \<leftarrow> ulVal (vntArgs ! 0); a1 \<leftarrow> bstrVal (vntArgs ! 1); returned 0 ret (bCap_RobotHalt env fd a0 a1 st) })
      else if fid = ID_ROBOT_HOLD then
        at_args 2 vntArgs ret st (do { a0 \<leftarrow> ulVal (vntArgs ! 0); a1 \<leftarrow> bstrVal (vntArgs ! 1); returned 0 ret (bCap_RobotHold env fd a0 a1 st) })
      else if fid = ID_ROBOT_MOVE then
        at_args 4 vntArgs ret st (do { a0 \<leftarrow> ulVal (vntArgs ! 0); a1 \<leftarrow> lVal (vntArgs ! 1); a3 \<leftarrow> bstrVal (vntArgs ! 3); returned 0 ret (bCap_RobotMove env fd a0 a1 (vntArgs ! 2) a3 st) })
      else if fid = ID_ROBOT_ROTATE then
        at_args 5 vntArgs ret st (do { a0 \<leftarrow> ulVal (vntArgs ! 0); a2 \<leftarrow> fltVal (vntArgs ! 2); a4 \<leftarrow> bstrVal (vntArgs ! 4); returned 0 ret (bCap_RobotRotate env fd a0 (vntArgs ! 1) a2 (vntArgs ! 3) a4 st) })
      else if fid = ID_ROBOT_SPEED then
        at_args 3 vntArgs ret st (do { a0 \<leftarrow> ulVal (vntArgs ! 0); a1 \<leftarrow> lVal (vntArgs ! 1); a2 \<leftarrow> fltVal (vntArgs ! 2); returned 0 ret (bCap_RobotSpeed env fd a0 a1 a2 st) })
      else if fid = ID_ROBOT_UNCHUCK then
        at_args 2 vntArgs ret st (do { a0 \<leftarrow> ulVal (vntArgs ! 0); a1 \<leftarrow> bstrVal (vntArgs ! 1); returned 0 ret (bCap_RobotUnchuck env fd a0 a1 st) })
      else if fid = ID_ROBOT_UNHOLD then
        at_args 2 vntArgs ret st (do { a0 \<leftarrow> ulVal (vntArgs ! 0); a1 \<leftarrow> bstrVal (vntArgs ! 1); returned 0 ret (bCap_RobotUnhold env fd a0 a1 st) })
      else if fid = ID_ROBOT_GETATTRIBUTE then
        at_args 1 vntArgs (retype VT_I4 ret) st (do { a0 \<leftarrow> ulVal (vntArgs ! 0); returned 0 (retype VT_I4 ret) (bCap_RobotGetAttribute env fd a0 True st) })
      else if fid = ID_ROBOT_GETHELP then
        at_args 1 vntArgs (retype VT_BSTR ret) st (do { a0 \<leftarrow> ulVal (vntArgs ! 0); returned 0 (retype VT_BSTR ret) (bCap_RobotGetHelp env fd a0 True st) })
      else if fid = ID_ROBOT_GETNAME then
        at_args 1 vntArgs (retype VT_BSTR ret) st (do { a0 \<leftarrow> ulVal (vntArgs ! 0); returned 0 (retype VT_BSTR ret) (bCap_RobotGetName env fd a0 True st) })
      else if fid = ID_ROBOT_GETTAG then
        at_args 1 vntArgs ret st (do { a0 \<leftarrow> ulVal (vntArgs ! 0); returned 0 ret (bCap_RobotGetTag env fd a0 (Some ret) st) })
      else if fid = ID_ROBOT_PUTTAG then
        at_args 2 vntArgs ret st (do { a0 \<leftarrow> ulVal (vntArgs ! 0); returned 0 ret (bCap_RobotPutTag env fd a0 (vntArgs ! 1) st) })
      else if fid = ID_ROBOT_GETID then
        at_args 1 vntArgs ret st (do { a0 \<leftarrow> ulVal (vntArgs ! 0); returned 0 ret (bCap_RobotGetID env fd a0 (Some ret) st) })
      else if fid = ID_ROBOT_PUTID then
        at_args 2 vntArgs ret st (do { a0 \<leftarrow> ulVal (vntArgs ! 0); returned 0 ret (bCap_RobotPutID env fd a0 (vntArgs ! 1) st) })
      else if fid = ID_ROBOT_RELEASE then
        at_args 1 vntArgs ret st (do { a0 \<leftarrow> ulVal (vntArgs ! 0); released a0 ret (bCap_RobotRelease env fd (Some a0) st) })
      else exec_task env fd fid vntArgs ret st)"

definition exec_file :: "'w cenv \<Rightarrow> i32 \<Rightarrow> i32 \<Rightarrow> variant list \<Rightarrow> variant \<Rightarrow> 'w client \<Rightarrow> 'w switched" where
  "exec_file env fd fid vntArgs ret st =
     (if fid = ID_FILE_GETFILE then
        at_args 3 vntArgs (retype VT_UI4 ret) st (do { a0 \<leftarrow> ulVal (vntArgs ! 0); a1 \<leftarrow> bstrVal (vntArgs ! 1); a2 \<leftarrow> bstrVal (vntArgs ! 2); returned ID_FILE_RELEASE (retype VT_UI4 ret) (bCap_FileGetFile env fd a0 a1 a2 True st) })
      else if fid = ID_FILE_GETVARIABLE then
        at_args 3 vntArgs (retype VT_UI4 ret) st (do { a0 \<leftarrow> ulVal (vntArgs ! 0); a1 \<leftarrow> bstrVal (vntArgs ! 1); a2 \<leftarrow> bstrVal (vntArgs ! 2); returned ID_VARIABLE_RELEASE (retype VT_UI4 ret) (bCap_FileGetVariable env fd a0 a1 a2 True st) })
      else if fid = ID_FILE_GETFILENAMES then
        at_args 2 vntArgs ret st (do { a0 \<leftarrow> ulVal (vntArgs ! 0); a1 \<leftarrow> bstrVal (vntArgs ! 1); returned 0 ret (bCap_FileGetFileNames env fd a0 a1 (Some ret) st) })
      else if fid = ID_FILE_GETVARIABLENAMES then
        at_args 2 vntArgs ret st (do { a0 \<leftarrow> ulVal (vntArgs ! 0); a1 \<leftarrow> bstrVal (vntArgs ! 1); returned 0 ret (bCap_FileGetVariableNames env fd a0 a1 (Some ret) st) })
      else if fid = ID_FILE_EXECUTE then
        at_args 3 vntArgs ret st (do { a0 \<leftarrow> ulVal (vntArgs ! 0); a1 \<leftarrow> bstrVal (vntArgs ! 1); returned 0 ret (bCap_FileExecute env fd a0 a1 (vntArgs ! 2) (Some ret) st) })
      else if fid = ID_FILE_COPY then
        at_args 3 vntArgs ret st (do { a0 \<leftarrow> ulVal (vntArgs ! 0); a1 \<leftarrow> bstrVal (vntArgs ! 1); a2 \<leftarrow> bstrVal (vntArgs ! 2); returned 0 ret (bCap_FileCopy env fd a0 a1 a2 st) })
      else if fid = ID_FILE_DELETE then
        at_args 2 vntArgs ret st (do { a0 \<leftarrow> ulVal (vntArgs ! 0); a1 \<leftarrow> bstrVal (vntArgs ! 1); returned 0 ret (bCap_FileDelete env fd a0 a1 st) })
      else if fid = ID_FILE_MOVE then
        at_args 3 vntArgs ret st (do { a0 \<leftarrow> ulVal (vntArgs ! 0); a1 \<leftarrow> bstrVal (vntArgs ! 1); a2 \<leftarrow> bstrVal (vntArgs ! 2); returned 0 ret (bCap_FileMove env fd a0 a1 a2 st) })
      else if fid = ID_FILE_RUN then
        at_args 2 vntArgs (retype VT_BSTR ret) st (do { a0 \<leftarrow> ulVal (vntArgs ! 0); a1 \<leftarrow> bstrVal (vntArgs ! 1); returned 0 (retype VT_BSTR ret) (bCap_FileRun env fd a0 a1 True st) })
      else if fid = ID_FILE_GETDATECREATED then
        at_args 1 vntArgs ret st (do { a0 \<leftarrow> ulVal (vntArgs ! 0); returned 0 ret (bCap_FileGetDateCreated env fd a0 (Some ret) st) })
      else if fid = ID_FILE_GETDATELASTACCESSED then
        at_args 1 vntArgs ret st (do { a0 \<leftarrow> ulVal (vntArgs ! 0); returned 0 ret (bCap_FileGetDateLastAccessed env fd a0 (Some ret) st) })
      else if fid = ID_FILE_GETDATELASTMODIFIED then
        at_args 1 vntArgs ret st (do { a0 \<leftarrow> ulVal (vntArgs ! 0); returned 0 ret (bCap_FileGetDateLastModified env fd a0 (Some ret) st) })
      else if fid = ID_FILE_GETPATH then
        at_args 1 vntArgs (retype VT_BSTR ret) st (do { a0 \<leftarrow> ulVal (vntArgs ! 0); returned 0 (retype VT_BSTR ret) (bCap_FileGetPath env fd a0 True st) })
      else if fid = ID_FILE_GETSIZE then
        at_args 1 vntArgs (retype VT_I4 ret) st (do { a0 \<leftarrow> ulVal (vntArgs ! 0); returned 0 (retype VT_I4 ret) (bCap_FileGetSize env fd a0 True st) })
      else if fid = ID_FILE_GETTYPE then
        at_args 1 vntArgs (retype VT_BSTR ret) st (do { a0 \<leftarrow> ulVal (vntArgs ! 0); returned 0 (retype VT_BSTR ret) (bCap_FileGetType env fd a0 True st) })
      else if fid = ID_FILE_GETVALUE then
        at_args 1 vntArgs ret st (do { a0 \<leftarrow> ulVal (vntArgs ! 0); returned 0 ret (bCap_FileGetValue env fd a0 (Some ret) st) })
      else if fid = ID_FILE_PUTVALUE then
        at_args 2 vntArgs ret st (do { a0 \<leftarrow> ulVal (vntArgs ! 0); returned 0 ret (bCap_FilePutValue env fd a0 (vntArgs ! 1) st) })
      else if fid = ID_FILE_GETATTRIBUTE then
        at_args 1 vntArgs (retype VT_I4 ret) st (do { a0 \<leftarrow> ulVal (vntArgs ! 0); returned 0 (retype VT_I4 ret) (bCap_FileGetAttribute env fd a0 True st) })
      else if fid = ID_FILE_GETHELP then
        at_args 1 vntArgs (retype VT_BSTR ret) st (do { a0 \<leftarrow> ulVal (vntArgs ! 0); returned 0 (retype VT_BSTR ret) (bCap_FileGetHelp env fd a0 True st) })
      else if fid = ID_FILE_GETNAME then
        at_args 1 vntArgs (retype VT_BSTR ret) st (do { a0 \<leftarrow> ulVal (vntArgs ! 0); returned 0 (retype VT_BSTR ret) (bCap_FileGetName env fd a0 True st) })
      else if fid = ID_FILE_GETTAG then
        at_args 1 vntArgs ret st (do { a0 \<leftarrow> ulVal (vntArgs ! 0); returned 0 ret (bCap_FileGetTag env fd a0 (Some ret) st) })
      else if fid = ID_FILE_PUTTAG then
        at_args 2 vntArgs ret st (do { a0 \<leftarrow> ulVal (vntArgs ! 0); returned 0 ret (bCap_FilePutTag env fd a0 (vntArgs ! 1) st) })
      else if fid = ID_FILE_GETID then
        at_args 1 vntArgs ret st (do { a0 \<leftarrow> ulVal (vntArgs ! 0); returned 0 ret (bCap_FileGetID env fd a0 (Some ret) st) })
      else if fid = ID_FILE_PUTID then
        at_args 2 vntArgs ret st (do { a0 \<leftarrow> ulVal (vntArgs ! 0); returned 0 ret (bCap_FilePutID env fd a0 (vntArgs ! 1) st) })
      else if fid = ID_FILE_RELEASE then
        at_args 1 vntArgs ret st (do { a0 \<leftarrow> ulVal (vntArgs ! 0); released a0 ret (bCap_FileRelease env fd (Some a0) st) })
      else exec_robot env fd fid vntArgs ret st)"

definition exec_extension :: "'w cenv \<Rightarrow> i32 \<Rightarrow> i32 \<Rightarrow> variant list \<Rightarrow> variant \<Rightarrow> 'w client \<Rightarrow> 'w switched" where
  "exec_extension env fd fid vntArgs ret st =
     (if fid = ID_EXTENSION_GETVARIABLE then
        at_args 3 vntArgs (retype VT_UI4 ret) st (do { a0 \<leftarrow> ulVal (vntArgs ! 0); a1 \<leftarrow> bstrVal (vntArgs ! 1); a2 \<leftarrow> bstrVal (vntArgs ! 2); returned ID_VARIABLE_RELEASE (retype VT_UI4 ret) (bCap_ExtensionGetVariable env fd a0 a1 a2 True st) })
      else if fid = ID_EXTENSION_GETVARIABLENAMES then
        at_args 2 vntArgs ret st (do { a0 \<leftarrow> ulVal (vntArgs ! 0); a1 \<leftarrow> bstrVal (vntArgs ! 1); returned 0 ret (bCap_ExtensionGetVariableNames env fd a0 a1 (Some ret) st) })
      else if fid = ID_EXTENSION_EXECUTE then
        at_args 3 vntArgs ret st (do { a0 \<leftarrow> ulVal (vntArgs ! 0); a1 \<leftarrow> bstrVal (vntArgs ! 1); returned 0 ret (bCap_ExtensionExecute env fd a0 a1 (vntArgs ! 2) (Some ret) st) })
      else if fid = ID_EXTENSION_GETATTRIBUTE then
        at_args 1 vntArgs (retype VT_I4 ret) st (do { a0 \<leftarrow> ulVal (vntArgs ! 0); returned 0 (retype VT_I4 ret) (bCap_ExtensionGetAttribute env fd a0 True st) })
      else if fid = ID_EXTENSION_GETHELP then
        at_args 1 vntArgs (retype VT_BSTR ret) st (do { a0 \<leftarrow> ulVal (vntArgs ! 0); returned 0 (retype VT_BSTR ret) (bCap_ExtensionGetHelp env fd a0 True st) })
      else if fid = ID_EXTENSION_GETNAME then
        at_args 1 vntArgs (retype VT_BSTR ret) st (do { a0 \<leftarrow> ulVal (vntArgs ! 0); returned 0 (retype VT_BSTR ret) (bCap_ExtensionGetName env fd a0 True st) })
      else if fid = ID_EXTENSION_GETTAG then
        at_args 1 vntArgs ret st (do { a0 \<leftarrow> ulVal (vntArgs ! 0); returned 0 ret (bCap_ExtensionGetTag env fd a0 (Some ret) st) })
      else if fid = ID_EXTENSION_PUTTAG then
        at_args 2 vntArgs ret st (do { a0 \<leftarrow> ulVal (vntArgs ! 0); returned 0 ret (bCap_ExtensionPutTag env fd a0 (vntArgs ! 1) st) })
      else if fid = ID_EXTENSION_GETID then
        at_args 1 vntArgs ret st (do { a0 \<leftarrow> ulVal (vntArgs ! 0); returned 0 ret (bCap_ExtensionGetID env fd a0 (Some ret) st) })
      else if fid = ID_EXTENSION_PUTID then
        at_args 2 vntArgs ret st (do { a0 \<leftarrow> ulVal (vntArgs ! 0); returned 0 ret (bCap_ExtensionPutID env fd a0 (vntArgs ! 1) st) })
      else if fid = ID_EXTENSION_RELEASE then
        at_args 1 vntArgs ret st (do { a0 \<leftarrow> ulVal (vntArgs ! 0); released a0 ret (bCap_ExtensionRelease env fd (Some a0) st) })
      else exec_file env fd fid vntArgs ret st)"

definition exec_controller :: "'w cenv \<Rightarrow> i32 \<Rightarrow> i32 \<Rightarrow> variant list \<Rightarrow> variant \<Rightarrow> 'w client \<Rightarrow> 'w switched" where
  "exec_controller env fd fid vntArgs ret st =
     (if fid = ID_CONTROLLER_CONNECT then
        at_args 4 vntArgs (retype VT_UI4 ret) st (do { a0 \<leftarrow> bstrVal (vntArgs ! 0); a1 \<leftarrow> bstrVal (vntArgs ! 1); a2 \<leftarrow> bstrVal (vntArgs ! 2); a3 \<leftarrow> bstrVal (vntArgs ! 3); returned ID_CONTROLLER_DISCONNECT (retype VT_UI4 ret) (bCap_ControllerConnect env fd a0 a1 a2 a3 True st) })
      else if fid = ID_CONTROLLER_DISCONNECT then
        at_args 1 vntArgs ret st (do { a0 \<leftarrow> ulVal (vntArgs ! 0); released a0 ret (bCap_ControllerDisconnect env fd (Some a0) st) })
      else if fid = ID_CONTROLLER_GETEXTENSION then
        at_args 3 vntArgs (retype VT_UI4 ret) st (do { a0 \<leftarrow> ulVal (vntArgs ! 0); a1 \<leftarrow> bstrVal (vntArgs ! 1); a2 \<leftarrow> bstrVal (vntArgs ! 2); returned ID_EXTENSION_RELEASE (retype VT_UI4 ret) (bCap_ControllerGetExtension env fd a0 a1 a2 True st) })
      else if fid = ID_CONTROLLER_GETFILE then
        at_args 3 vntArgs (retype VT_UI4 ret) st (do { a0 \<leftarrow> ulVal (vntArgs ! 0); a1 \<leftarrow> bstrVal (vntArgs ! 1); a2 \<leftarrow> bstrVal (vntArgs ! 2); returned ID_FILE_RELEASE (retype VT_UI4 ret) (bCap_ControllerGetFile env fd a0 a1 a2 True st) })
      else if fid = ID_CONTROLLER_GETROBOT then
        at_args 3 vntArgs (retype VT_UI4 ret) st (do { a0 \<leftarrow> ulVal (vntArgs ! 0); a1 \<leftarrow> bstrVal (vntArgs ! 1); a2 \<leftarrow> bstrVal (vntArgs ! 2); returned ID_ROBOT_RELEASE (retype VT_UI4 ret) (bCap_ControllerGetRobot env fd a0 a1 a2 True st) })
      else if fid = ID_CONTROLLER_GETTASK then
        at_args 3 vntArgs (retype VT_UI4 ret) st (do { a0 \<leftarrow> ulVal (vntArgs ! 0); a1 \<leftarrow> bstrVal (vntArgs ! 1); a2 \<leftarrow> bstrVal (vntArgs ! 2); returned ID_TASK_RELEASE (retype VT_UI4 ret) (bCap_ControllerGetTask env fd a0 a1 a2 True st) })
      else if fid = ID_CONTROLLER_GETVARIABLE then
        at_args 3 vntArgs (retype VT_UI4 ret) st (do { a0 \<leftarrow> ulVal (vntArgs ! 0); a1 \<leftarrow> bstrVal (vntArgs ! 1); a2 \<leftarrow> bstrVal (vntArgs ! 2); returned ID_VARIABLE_RELEASE (retype VT_UI4 ret) (bCap_ControllerGetVariable env fd a0 a1 a2 True st) })
      else if fid = ID_CONTROLLER_GETCOMMAND then
        at_args 3 vntArgs (retype VT_UI4 ret) st (do { a0 \<leftarrow> ulVal (vntArgs ! 0); a1 \<leftarrow> bstrVal (vntArgs ! 1); a2 \<leftarrow> bstrVal (vntArgs ! 2); returned ID_COMMAND_RELEASE (retype VT_UI4 ret) (bCap_ControllerGetCommand env fd a0 a1 a2 True st) })
      else if fid = ID_CONTROLLER_GETEXTENSIONNAMES then
        at_args 2 vntArgs ret st (do { a0 \<leftarrow> ulVal (vntArgs ! 0); a1 \<leftarrow> bstrVal (vntArgs ! 1); returned 0 ret (bCap_ControllerGetExtensionNames env fd a0 a1 (Some ret) st) })
      else if fid = ID_CONTROLLER_GETFILENAMES then
        at_args 2 vntArgs ret st (do { a0 \<leftarrow> ulVal (vntArgs ! 0); a1 \<leftarrow> bstrVal (vntArgs ! 1); returned 0 ret (bCap_ControllerGetFileNames env fd a0 a1 (Some ret) st) })
      else if fid = ID_CONTROLLER_GETROBOTNAMES then
        at_args 2 vntArgs ret st (do { a0 \<leftarrow> ulVal (vntArgs ! 0); a1 \<leftarrow> bstrVal (vntArgs ! 1); returned 0 ret (bCap_ControllerGetRobotNames env fd a0 a1 (Some ret) st) })
      else if fid = ID_CONTROLLER_GETTASKNAMES then
        at_args 2 vntArgs ret st (do { a0 \<leftarrow> ulVal (vntArgs ! 0); a1 \<leftarrow> bstrVal (vntArgs ! 1); returned 0 ret (bCap_ControllerGetTaskNames env fd a0 a1 (Some ret) st) })
      else if fid = ID_CONTROLLER_GETVARIABLENAMES then
        at_args 2 vntArgs ret st (do { a0 \<leftarrow> ulVal (vntArgs ! 0); a1 \<leftarrow> bstrVal (vntArgs ! 1); returned 0 ret (bCap_ControllerGetVariableNames env fd a0 a1 (Some ret) st) })
      else if fid = ID_CONTROLLER_GETCOMMANDNAMES then
        at_args 2 vntArgs ret st (do { a0 \<leftarrow> ulVal (vntArgs ! 0); a1 \<leftarrow> bstrVal (vntArgs ! 1); returned 0 ret (bCap_ControllerGetCommandNames env fd a0 a1 (Some ret) st) })
      else if fid = ID_CONTROLLER_EXECUTE then
        at_args 3 vntArgs ret st (do { a0 \<leftarrow> ulVal (vntArgs ! 0); a1 \<leftarrow> bstrVal (vntArgs ! 1); returned 0 ret (bCap_ControllerExecute env fd a0 a1 (vntArgs ! 2) (Some ret) st) })
      else if fid = ID_CONTROLLER_GETMESSAGE then
        at_args 1 vntArgs (retype VT_UI4 ret) st (do { a0 \<leftarrow> ulVal (vntArgs ! 0); returned ID_MESSAGE_RELEASE (retype VT_UI4 ret) (bCap_ControllerGetMessage env fd a0 True st) })
      else if fid = ID_CONTROLLER_GETATTRIBUTE then
        at_args 1 vntArgs (retype VT_I4 ret) st (do { a0 \<leftarrow> ulVal (vntArgs ! 0); returned 0 (retype VT_I4 ret) (bCap_ControllerGetAttribute env fd a0 True st) })
      else if fid = ID_CONTROLLER_GETHELP then
        at_args 1 vntArgs (retype VT_BSTR ret) st (do { a0 \<leftarrow> ulVal (vntArgs ! 0); returned 0 (retype VT_BSTR ret) (bCap_ControllerGetHelp env fd a0 True st) })
      else if fid = ID_CONTROLLER_GETNAME then
        at_args 1 vntArgs (retype VT_BSTR ret) st (do { a0 \<leftarrow> ulVal (vntArgs ! 0); returned 0 (retype VT_BSTR ret) (bCap_ControllerGetName env fd a0 True st) })
      else if fid = ID_CONTROLLER_GETTAG then
        at_args 1 vntArgs ret st (do { a0 \<leftarrow> ulVal (vntArgs ! 0); returned 0 ret (bCap_ControllerGetTag env fd a0 (Some ret) st) })
      else if fid = ID_CONTROLLER_PUTTAG then
        at_args 2 vntArgs ret st (do { a0 \<leftarrow> ulVal (vntArgs ! 0); returned 0 ret (bCap_ControllerPutTag env fd a0 (vntArgs ! 1) st) })
      else if fid = ID_CONTROLLER_GETID then
        at_args 1 vntArgs ret st (do { a0 \<leftarrow> ulVal (vntArgs ! 0); returned 0 ret (bCap_ControllerGetID env fd a0 (Some ret) st) })
      else if fid = ID_CONTROLLER_PUTID then
        at_args 2 vntArgs ret st (do { a0 \<leftarrow> ulVal (vntArgs ! 0); returned 0 ret (bCap_ControllerPutID env fd a0 (vntArgs ! 1) st) })
      else exec_extension env fd fid vntArgs ret st)"

text \<open>The handle of an object that was got is kept under the number of the function that releases it.\<close>

definition keep_handle :: "i32 \<Rightarrow> variant \<Rightarrow> key_handle \<Rightarrow> service \<Rightarrow> service option" where
  "keep_handle fid ret kh s =
     (if 0 < sint (fst kh) then
        map_option (\<lambda>h. s\<lparr>m_vecKH := m_vecKH s @ [(fst kh, h)]\<rparr>) (ulVal ret)
      else if 0 < snd kh then Some (s\<lparr>m_vecKH := remove1 (fid, snd kh) (m_vecKH s)\<rparr>)
      else Some s)"

definition ExecFunction ::
  "'w cenv \<Rightarrow> i32 \<Rightarrow> variant list \<Rightarrow> variant \<Rightarrow> service \<Rightarrow> 'w client \<Rightarrow> (hresult \<times> variant \<times> service \<times> 'w client) option" where
  "ExecFunction env fid vntArgs ret s st = do {
     (hr, ret', kh, st') \<leftarrow> exec_controller env (m_fd s) fid vntArgs ret st;
     s' \<leftarrow> (if hr = S_OK then keep_handle fid ret' kh s else Some s);
     Some (hr, ret', s', st')
   }"

section \<open>Connecting and disconnecting\<close>

definition decimal :: "int \<Rightarrow> string" where
  "decimal n = map (\<lambda>c. char_of (unat c)) (dec_text n)"

definition connect_string :: "service \<Rightarrow> string" where
  "connect_string s = m_type s @ '':'' @ m_addr s @ '':'' @ decimal (sint (m_port s))"

definition service_option :: "service \<Rightarrow> wchar list" where
  "service_option s =
     wide '',WDT='' @ dec_text (sint (m_wdt s)) @ wide '',InvokeTimeout='' @ dec_text (sint (m_invoke s))"

definition Connect :: "'w cenv \<Rightarrow> service \<Rightarrow> 'w client \<Rightarrow> (hresult \<times> service \<times> 'w client) option" where
  "Connect env s st = do {
     (hr, fd, st1) \<leftarrow> bCap_Open_Client env (Some (connect_string s)) (m_timeout s) (m_retry s) True st;
     let s1 = (case fd of None \<Rightarrow> s | Some h \<Rightarrow> s\<lparr>m_fd := h\<rparr>);
     if SUCCEEDED hr then do {
       bstrOption \<leftarrow> SysAllocString (env_mok env) (Some (service_option s @ [0]));
       (hr1, _, st2) \<leftarrow> bCap_ServiceStart env (m_fd s1) bstrOption st1;
       Some (hr1, s1, st2)
     }
     else Some (hr, s1, st1)
   }"

text \<open>One round of the loop over the handles: the codes are dropped.\<close>

definition release_handle :: "'w cenv \<Rightarrow> i32 \<Rightarrow> key_handle \<Rightarrow> 'w client \<Rightarrow> 'w client option" where
  "release_handle env fd kh st =
     (case kh of (key, h) \<Rightarrow>
        let done = map_option (\<lambda>(_, _, st'). st') in
        if key = ID_CONTROLLER_DISCONNECT then done (bCap_ControllerDisconnect env fd (Some h) st)
        else if key = ID_EXTENSION_RELEASE then done (bCap_ExtensionRelease env fd (Some h) st)
        else if key = ID_FILE_RELEASE then done (bCap_FileRelease env fd (Some h) st)
        else if key = ID_ROBOT_RELEASE then done (bCap_RobotRelease env fd (Some h) st)
        else if key = ID_TASK_RELEASE then done (bCap_TaskRelease env fd (Some h) st)
        else if key = ID_VARIABLE_RELEASE then done (bCap_VariableRelease env fd (Some h) st)
        else if key = ID_COMMAND_RELEASE then done (bCap_CommandRelease env fd (Some h) st)
        else if key = ID_MESSAGE_RELEASE then done (bCap_MessageRelease env fd (Some h) st)
        else Some st)"

fun release_handles :: "'w cenv \<Rightarrow> i32 \<Rightarrow> key_handle list \<Rightarrow> 'w client \<Rightarrow> 'w client option" where
  "release_handles env fd [] st = Some st"
| "release_handles env fd (kh # khs) st = release_handle env fd kh st \<bind> release_handles env fd khs"

definition Disconnect :: "'w cenv \<Rightarrow> service \<Rightarrow> 'w client \<Rightarrow> (hresult \<times> service \<times> 'w client) option" where
  "Disconnect env s st =
     (if 0 < sint (m_fd s) then do {
        st1 \<leftarrow> release_handles env (m_fd s) (m_vecKH s) st;
        (_, _, st2) \<leftarrow> bCap_ServiceStop env (m_fd s) st1;
        (_, fd, st3) \<leftarrow> bCap_Close_Client env (Some (m_fd s)) st2;
        Some (S_OK, s\<lparr>m_vecKH := [], m_fd := (case fd of None \<Rightarrow> m_fd s | Some h \<Rightarrow> h)\<rparr>, st3)
      }
      else Some (S_OK, s, st))"

section \<open>Settings\<close>

definition put_Type :: "string \<Rightarrow> service \<Rightarrow> service" where
  "put_Type t s = (if m_fd s = 0 then s\<lparr>m_type := t\<rparr> else s)"

definition get_Timeout :: "service \<Rightarrow> 'w client \<Rightarrow> u32" where
  "get_Timeout s st =
     (case bCap_GetTimeout (m_fd s) True st of (hr, out) \<Rightarrow>
        if FAILED hr then m_timeout s else (case out of None \<Rightarrow> 0 | Some n \<Rightarrow> n))"

definition put_Timeout :: "'w cenv \<Rightarrow> u32 \<Rightarrow> service \<Rightarrow> 'w client \<Rightarrow> (service \<times> 'w client) option" where
  "put_Timeout env n s st =
     map_option (\<lambda>(hr, st'). (if SUCCEEDED hr then s\<lparr>m_timeout := n\<rparr> else s, st'))
       (bCap_SetTimeout env (m_fd s) n st)"

definition get_Retry :: "service \<Rightarrow> 'w client \<Rightarrow> u32" where
  "get_Retry s st =
     (case bCap_GetRetry (m_fd s) True st of (hr, out) \<Rightarrow>
        if FAILED hr then m_retry s else (case out of None \<Rightarrow> 0 | Some n \<Rightarrow> n))"

definition put_Retry :: "'w cenv \<Rightarrow> u32 \<Rightarrow> service \<Rightarrow> 'w client \<Rightarrow> service \<times> 'w client" where
  "put_Retry env n s st =
     (case bCap_SetRetry env (m_fd s) n st of (hr, st') \<Rightarrow> (if SUCCEEDED hr then s\<lparr>m_retry := n\<rparr> else s, st'))"

end
