(* ===== verification/ServiceLedger.thy ===== *)
theory ServiceLedger
  imports BcapService BcapHandles BcapCalls
begin

text \<open>
  The table of open objects a service keeps (\<open>m_vecKH\<close>): which calls of \<open>ExecFunction\<close> change it and
  how, and what \<open>Disconnect\<close> makes of it on the wire.
\<close>

section \<open>Which function opens and which releases\<close>

definition release_of :: "i32 \<Rightarrow> i32 option" where
  "release_of fid = map_of
    [(ID_CONTROLLER_CONNECT, ID_CONTROLLER_DISCONNECT),
     (ID_CONTROLLER_GETEXTENSION, ID_EXTENSION_RELEASE),
     (ID_CONTROLLER_GETFILE, ID_FILE_RELEASE),
     (ID_CONTROLLER_GETROBOT, ID_ROBOT_RELEASE),
     (ID_CONTROLLER_GETTASK, ID_TASK_RELEASE),
     (ID_CONTROLLER_GETVARIABLE, ID_VARIABLE_RELEASE),
     (ID_CONTROLLER_GETCOMMAND, ID_COMMAND_RELEASE),
     (ID_CONTROLLER_GETMESSAGE, ID_MESSAGE_RELEASE),
     (ID_EXTENSION_GETVARIABLE, ID_VARIABLE_RELEASE),
     (ID_FILE_GETFILE, ID_FILE_RELEASE),
     (ID_FILE_GETVARIABLE, ID_VARIABLE_RELEASE),
     (ID_ROBOT_GETVARIABLE, ID_VARIABLE_RELEASE),
     (ID_TASK_GETVARIABLE, ID_VARIABLE_RELEASE)] fid"

definition release_ids :: "i32 list" where
  "release_ids =
    [ID_CONTROLLER_DISCONNECT, ID_EXTENSION_RELEASE, ID_FILE_RELEASE, ID_ROBOT_RELEASE,
     ID_TASK_RELEASE, ID_VARIABLE_RELEASE, ID_COMMAND_RELEASE, ID_MESSAGE_RELEASE]"

text \<open>What the switch must leave in \<open>tmpKH\<close> after a success.\<close>

definition expected_kh :: "i32 \<Rightarrow> variant list \<Rightarrow> key_handle" where
  "expected_kh fid va =
     (case release_of fid of
        Some k \<Rightarrow> (k, 0)
      | None \<Rightarrow> if fid \<in> set release_ids then (0, the (ulVal (va ! 0))) else (0, 0))"

definition kh_ok :: "i32 \<Rightarrow> variant list \<Rightarrow> 'w switched \<Rightarrow> bool" where
  "kh_ok fid va r \<longleftrightarrow> (\<forall>ret kh st. r = Some (S_OK, ret, kh, st) \<longrightarrow> kh = expected_kh fid va)"

text \<open>The rules that take the switch apart.\<close>

lemma kh_ok_if: "(b \<Longrightarrow> kh_ok fid va x) \<Longrightarrow> (\<not> b \<Longrightarrow> kh_ok fid va y) \<Longrightarrow> kh_ok fid va (if b then x else y)"
  by simp

lemma kh_ok_at: "kh_ok fid va r \<Longrightarrow> kh_ok fid va (at_args n va' ret st r)"
  by (simp add: kh_ok_def at_args_def)

lemma kh_ok_bind: "(\<And>a. x = Some a \<Longrightarrow> kh_ok fid va (f a)) \<Longrightarrow> kh_ok fid va (x \<bind> f)"
  by (cases x) (simp_all add: kh_ok_def)

lemma kh_ok_returned: "expected_kh fid va = (k, 0) \<Longrightarrow> kh_ok fid va (returned k ret r)"
  by (auto simp: kh_ok_def returned_def elim!: bind_SomeE)

lemma kh_ok_released: "expected_kh fid va = (0, h) \<Longrightarrow> kh_ok fid va (released h ret r)"
  by (auto simp: kh_ok_def released_def)

lemma kh_ok_none: "kh_ok fid va (no_function ret st)"
  by (simp add: kh_ok_def no_function_def)

lemmas kh_ok_intros = kh_ok_if kh_ok_at kh_ok_bind kh_ok_returned kh_ok_released kh_ok_none

lemmas expected_simps = expected_kh_def release_of_def release_ids_def

lemma kh_ok_message: "kh_ok fid va (exec_message env fd fid va ret st)"
  unfolding exec_message_def by (intro kh_ok_intros) (simp_all add: expected_simps)

lemma kh_ok_command: "kh_ok fid va (exec_command env fd fid va ret st)"
  unfolding exec_command_def by (intro kh_ok_intros kh_ok_message) (simp_all add: expected_simps)

lemma kh_ok_variable: "kh_ok fid va (exec_variable env fd fid va ret st)"
  unfolding exec_variable_def by (intro kh_ok_intros kh_ok_command) (simp_all add: expected_simps)

lemma kh_ok_task: "kh_ok fid va (exec_task env fd fid va ret st)"
  unfolding exec_task_def by (intro kh_ok_intros kh_ok_variable) (simp_all add: expected_simps)

lemma kh_ok_robot: "kh_ok fid va (exec_robot env fd fid va ret st)"
  unfolding exec_robot_def by (intro kh_ok_intros kh_ok_task) (simp_all add: expected_simps)

lemma kh_ok_file: "kh_ok fid va (exec_file env fd fid va ret st)"
  unfolding exec_file_def by (intro kh_ok_intros kh_ok_robot) (simp_all add: expected_simps)

lemma kh_ok_extension: "kh_ok fid va (exec_extension env fd fid va ret st)"
  unfolding exec_extension_def by (intro kh_ok_intros kh_ok_file) (simp_all add: expected_simps)

lemma kh_ok_controller: "kh_ok fid va (exec_controller env fd fid va ret st)"
  unfolding exec_controller_def by (intro kh_ok_intros kh_ok_extension) (simp_all add: expected_simps)

section \<open>The table of open objects\<close>

text \<open>
  Of all calls of \<open>ExecFunction\<close> only those that got an object add to the
  table, the handle that is returned under the number of the function that releases it, and
  only those that released one take its entry out; only the code \<open>S_OK\<close> counts.
\<close>

lemma exec_function_ledger:
  assumes "ExecFunction env fid va ret s st = Some (hr, ret', s', st')"
  shows "s' = s\<lparr>m_vecKH :=
    (if hr \<noteq> S_OK then m_vecKH s
     else case release_of fid of
         Some k \<Rightarrow> m_vecKH s @ [(k, the (ulVal ret'))]
       | None \<Rightarrow> if fid \<in> set release_ids \<and> the (ulVal (va ! 0)) \<noteq> 0
                 then remove1 (fid, the (ulVal (va ! 0))) (m_vecKH s) else m_vecKH s)\<rparr>"
proof -
  obtain kh where ex: "exec_controller env (m_fd s) fid va ret st = Some (hr, ret', kh, st')"
    and s': "(if hr = S_OK then keep_handle fid ret' kh s else Some s) = Some s'"
    using assms by (auto simp: ExecFunction_def elim!: bind_SomeE)
  have "kh = expected_kh fid va" if "hr = S_OK"
    using kh_ok_controller [of fid va env "m_fd s" ret st] ex that unfolding kh_ok_def by blast
  moreover have "release_of fid = Some k \<Longrightarrow> 0 < sint k" for k
    by (auto simp: release_of_def split: if_splits)
  ultimately show ?thesis
    using s' by (cases "release_of fid")
      (auto simp: keep_handle_def expected_kh_def word_gt_0 split: if_splits)
qed

text \<open>
  The objects a history of calls leaves open for the controller, in the order they were got: any success
  of a call that gets an object opens it, any success of its release closes it.
\<close>

record outcome =
  o_fid :: i32
  o_code :: hresult
  o_got :: u32
  o_given :: u32

definition open_after :: "key_handle list \<Rightarrow> outcome \<Rightarrow> key_handle list" where
  "open_after open oc =
     (if FAILED (o_code oc) then open
      else case release_of (o_fid oc) of
          Some k \<Rightarrow> open @ [(k, o_got oc)]
        | None \<Rightarrow> if o_fid oc \<in> set release_ids then removeAll (o_fid oc, o_given oc) open else open)"

text \<open>
  A controller that gives no handle out twice while it is in use, and not zero, and that answers the
  calls that get or release an object with \<open>S_OK\<close> or a failure, no other code of success.
\<close>

definition plain_code :: "outcome \<Rightarrow> bool" where
  "plain_code oc \<longleftrightarrow> (o_fid oc \<in> set release_ids \<or> release_of (o_fid oc) \<noteq> None) \<longrightarrow> FAILED (o_code oc) \<or> o_code oc = S_OK"

definition fresh_handle :: "key_handle list \<Rightarrow> outcome \<Rightarrow> bool" where
  "fresh_handle open oc \<longleftrightarrow> plain_code oc \<and> (case release_of (o_fid oc) of
     Some k \<Rightarrow> \<not> FAILED (o_code oc) \<longrightarrow> o_got oc \<noteq> 0 \<and> (k, o_got oc) \<notin> set open | None \<Rightarrow> True)"

fun run_calls :: "'w cenv \<Rightarrow> (i32 \<times> variant list) list \<Rightarrow> service \<Rightarrow> 'w client \<Rightarrow>
    (outcome list \<times> service \<times> 'w client) option" where
  "run_calls env [] s st = Some ([], s, st)"
| "run_calls env ((fid, va) # cs) s st = do {
     (hr, ret, s1, st1) \<leftarrow> ExecFunction env fid va zero_variant s st;
     (ocs, s2, st2) \<leftarrow> run_calls env cs s1 st1;
     Some (\<lparr>o_fid = fid, o_code = hr, o_got = the (ulVal ret), o_given = the (ulVal (va ! 0))\<rparr> # ocs, s2, st2)
   }"

fun fresh_history :: "key_handle list \<Rightarrow> outcome list \<Rightarrow> bool" where
  "fresh_history open [] \<longleftrightarrow> True"
| "fresh_history open (oc # ocs) \<longleftrightarrow> fresh_handle open oc \<and> fresh_history (open_after open oc) ocs"

definition table_ok :: "key_handle list \<Rightarrow> bool" where
  "table_ok khs \<longleftrightarrow> distinct khs \<and> (\<forall>kh\<in>set khs. fst kh \<in> set release_ids \<and> snd kh \<noteq> 0)"

lemma release_of_ids: "release_of fid = Some k \<Longrightarrow> k \<in> set release_ids"
  by (auto simp: release_of_def release_ids_def split: if_splits)

lemma open_after_ok:
  assumes "table_ok khs" and "fresh_handle khs oc"
  shows "table_ok (open_after khs oc)"
  using assms by (auto simp: table_ok_def open_after_def fresh_handle_def release_of_ids distinct_removeAll split: option.splits)

lemma exec_function_open:
  assumes "ExecFunction env fid va ret s st = Some (hr, ret', s', st')" and "table_ok (m_vecKH s)"
    and "plain_code \<lparr>o_fid = fid, o_code = hr, o_got = the (ulVal ret'), o_given = the (ulVal (va ! 0))\<rparr>"
  shows "s' = s\<lparr>m_vecKH := open_after (m_vecKH s)
    \<lparr>o_fid = fid, o_code = hr, o_got = the (ulVal ret'), o_given = the (ulVal (va ! 0))\<rparr>\<rparr>"
proof -
  have z: "(fid, 0) \<notin> set (m_vecKH s)" and d: "distinct (m_vecKH s)"
    using assms(2) by (auto simp: table_ok_def)
  show ?thesis
    unfolding exec_function_ledger [OF assms(1)]
    using z d assms(3) by (auto simp: open_after_def plain_code_def distinct_remove1_removeAll FAILED_def split: option.splits)
qed

text \<open>A success other than \<open>S_OK\<close> gets an object that the table does not have.\<close>

lemma other_success_untracked:
  assumes "ExecFunction env fid va ret s st = Some (hr, ret', s', st')" and "\<not> FAILED hr" and "hr \<noteq> S_OK" and "release_of fid = Some k"
  shows "m_vecKH s' = m_vecKH s \<and> length (open_after (m_vecKH s)
    \<lparr>o_fid = fid, o_code = hr, o_got = the (ulVal ret'), o_given = the (ulVal (va ! 0))\<rparr>) = Suc (length (m_vecKH s))"
  using assms exec_function_ledger [OF assms(1)] by (simp add: open_after_def)

text \<open>
  C11: in every history of calls the table a service keeps is the list of
  the objects that are open for the controller after it, in the order they were got and each once, when the
  controller gives no handle out that is zero or in use, and answers the calls that get or release
  objects with \<open>S_OK\<close> or a failure (objects got with another code of success are never in the table).
\<close>

theorem open_objects_tracked:
  assumes "run_calls env cs s st = Some (ocs, s', st')" and "m_vecKH s = khs" and "table_ok khs"
    and "fresh_history khs ocs"
  shows "m_vecKH s' = foldl open_after khs ocs \<and> table_ok (m_vecKH s')"
  using assms
proof (induction cs arbitrary: s st khs ocs)
  case (Cons c cs)
  obtain fid va where c: "c = (fid, va)" by (cases c)
  from Cons.prems(1) obtain hr ret s1 st1 ocs1 where
    ex: "ExecFunction env fid va zero_variant s st = Some (hr, ret, s1, st1)"
    and run: "run_calls env cs s1 st1 = Some (ocs1, s', st')"
    and ocs: "ocs = \<lparr>o_fid = fid, o_code = hr, o_got = the (ulVal ret), o_given = the (ulVal (va ! 0))\<rparr> # ocs1"
    by (auto simp: c elim!: bind_SomeE)
  let ?oc = "\<lparr>o_fid = fid, o_code = hr, o_got = the (ulVal ret), o_given = the (ulVal (va ! 0))\<rparr>"
  have s1: "m_vecKH s1 = open_after khs ?oc"
    using exec_function_open [OF ex] Cons.prems(2-4) by (simp add: ocs fresh_handle_def)
  have "table_ok (open_after khs ?oc)" and "fresh_history (open_after khs ?oc) ocs1"
    using open_after_ok Cons.prems(3,4) by (auto simp: ocs)
  from Cons.IH [OF run s1 this] show ?case by (auto simp: ocs)
qed auto

section \<open>Disconnecting over TCP\<close>

text \<open>The requests that release the objects of a table, numbered from \<open>n\<close> on.\<close>

fun release_wire :: "u16 \<Rightarrow> key_handle list \<Rightarrow> byte list" where
  "release_wire n [] = []"
| "release_wire n (kh # khs) =
     ser_packet (request n (fst kh) [VaI4 (snd kh)]) [] @ release_wire (next_serial n) khs"

fun serial_after :: "u16 \<Rightarrow> 'a list \<Rightarrow> u16" where
  "serial_after n [] = n"
| "serial_after n (x # xs) = serial_after (next_serial n) xs"

text \<open>What comes back: for every request the stale replies before its own, whatever its code.\<close>

type_synonym answer = "bcap_packet list \<times> bcap_packet"

definition answer_bytes :: "answer \<Rightarrow> byte list" where
  "answer_bytes a = ser_packets (fst a) @ ser_packet (snd a) []"

fun answers_ok :: "'w cenv \<Rightarrow> u16 \<Rightarrow> answer list \<Rightarrow> bool" where
  "answers_ok env n [] \<longleftrightarrow> True"
| "answers_ok env n (a # as) \<longleftrightarrow> replies_ok env n (fst a) (snd a) \<and> answers_ok env (next_serial n) as"

lemma release_handle_releases:
  assumes "fst kh \<in> set release_ids"
  obtains f where "releases (fst kh) f" "\<And>st. release_handle env fd kh st = map_option (\<lambda>(_, _, st'). st') (f env fd (Some (snd kh)) st)"
proof -
  obtain k h where kh: "kh = (k, h)" by (cases kh)
  have "k \<in> set release_ids" using assms by (simp add: kh)
  then consider "k = ID_CONTROLLER_DISCONNECT" | "k = ID_EXTENSION_RELEASE" | "k = ID_FILE_RELEASE"
    | "k = ID_ROBOT_RELEASE" | "k = ID_TASK_RELEASE" | "k = ID_VARIABLE_RELEASE"
    | "k = ID_COMMAND_RELEASE" | "k = ID_MESSAGE_RELEASE" by (auto simp: release_ids_def)
  then show thesis
    by cases (rule that, insert release_calls, auto simp: kh release_handle_def Let_def)+
qed

lemma check_address_update:
  "check_address cs h = Some (i, c) \<Longrightarrow> sock (device c') \<noteq> 0 \<Longrightarrow> check_address (cs[i := c']) h = Some (i, c')"
  by (auto simp: check_address_def Let_def split: if_splits)

lemma sock_not_0: "0 < sint (sck :: i32) \<Longrightarrow> sck \<noteq> 0"
  by auto

lemma release_step:
  assumes "releases fid f"
    and "segments_ok (cworld st)" and "0 < sint sck"
    and "stream (cworld st) = ser_packets ps @ ser_packet r [] @ rest"
    and "check_address (conns st) h = Some (i, c)" and "device c = tcp_device sck tmo a" and "retry c \<noteq> 0"
    and "replies_ok env (conn_serial c) ps r"
    and "env_io env = driver_io net_os" and "env_mok env = mem_ok" and "lock_free env"
  shows "\<exists>w' g. f env h (Some n) st = Some (func_id r, g,
        st\<lparr>conns := (conns st)[i := c\<lparr>conn_serial := next_serial (conn_serial c)\<rparr>], cworld := w'\<rparr>) \<and>
      segments_ok w' \<and> sent w' = sent (cworld st) @ ser_packet (request (conn_serial c) fid [VaI4 n]) [] \<and> stream w' = rest"
proof -
  have "segments_ok (cworld st) \<and> 0 < sint sck \<and> sent (cworld st) = sent (cworld st)" using assms(2,3) by simp
  from link.invoke_function_ok [OF this assms(4-8) handle_request_ok [of n] assms(9-11), of fid None] assms(1) show ?thesis
    unfolding releases_def reset_handle_def by auto
qed

lemma release_handles_over_tcp:
  assumes "segments_ok (cworld st)" and "0 < sint sck" and "\<forall>kh\<in>set khs. fst kh \<in> set release_ids"
    and "stream (cworld st) = concat (map answer_bytes as) @ rest" and "length as = length khs"
    and "check_address (conns st) fd = Some (i, c)" and "device c = tcp_device sck tmo a" and "retry c \<noteq> 0"
    and "answers_ok env (conn_serial c) as"
    and "env_io env = driver_io net_os" and "env_mok env = mem_ok" and "lock_free env"
  shows "\<exists>w'. release_handles env fd khs st = Some (st\<lparr>conns := (conns st)[i := c\<lparr>conn_serial := serial_after (conn_serial c) khs\<rparr>], cworld := w'\<rparr>) \<and>
      segments_ok w' \<and> sent w' = sent (cworld st) @ release_wire (conn_serial c) khs \<and> stream w' = rest"
  using assms
proof (induction khs arbitrary: st as c)
  case Nil
  then have "(conns st)[i := c] = conns st"
    by (auto simp: check_address_def Let_def split: if_splits)
  then show ?case using Nil by (intro exI [of _ "cworld st"]) simp
next
  case (Cons kh khs)
  then obtain b bs where as: "as = b # bs" "length bs = length khs" by (cases as) auto
  obtain f where f: "releases (fst kh) f"
    "\<And>st. release_handle env fd kh st = map_option (\<lambda>(_, _, st'). st') (f env fd (Some (snd kh)) st)"
    using release_handle_releases [of kh env fd] Cons.prems(3) by auto
  let ?c = "c\<lparr>conn_serial := next_serial (conn_serial c)\<rparr>"
  have "stream (cworld st) = ser_packets (fst b) @ ser_packet (snd b) [] @ (concat (map answer_bytes bs) @ rest)"
    using Cons.prems(4) by (simp add: as answer_bytes_def [of b])
  moreover have "replies_ok env (conn_serial c) (fst b) (snd b)" using Cons.prems(9) by (simp add: as)
  ultimately obtain w1 g where w1: "f env fd (Some (snd kh)) st =
        Some (func_id (snd b), g, st\<lparr>conns := (conns st)[i := ?c], cworld := w1\<rparr>)"
    "sent w1 = sent (cworld st) @ ser_packet (request (conn_serial c) (fst kh) [VaI4 (snd kh)]) []"
    "stream w1 = concat (map answer_bytes bs) @ rest" "segments_ok w1"
    using release_step [OF f(1) Cons.prems(1,2) _ Cons.prems(6-8) _ Cons.prems(10-12)] by blast
  let ?st = "st\<lparr>conns := (conns st)[i := ?c], cworld := w1\<rparr>"
  have chk: "check_address (conns ?st) fd = Some (i, ?c)"
    using check_address_update [OF Cons.prems(6), of ?c] sock_not_0 [OF Cons.prems(2)] Cons.prems(7)
    by (simp add: tcp_device_def)
  have len: "i < length (conns st)" using Cons.prems(6) by (auto simp: check_address_def Let_def split: if_splits)
  obtain w' where "release_handles env fd khs ?st = Some (?st\<lparr>conns := (conns ?st)[i := ?c\<lparr>conn_serial := serial_after (conn_serial ?c) khs\<rparr>], cworld := w'\<rparr>)"
    "segments_ok w'" "sent w' = sent w1 @ release_wire (conn_serial ?c) khs" "stream w' = rest"
    using Cons.IH [of ?st bs ?c] w1 chk as Cons.prems by auto
  then show ?case using w1 f(2) by (intro exI [of _ w']) simp
qed

text \<open>
  C10: over TCP \<open>Disconnect\<close> sends one release for every object of the table, in
  the order they were got, then the request that stops the service, whatever is answered to
  them; the table is empty then, the connection is closed and its slot is free.
\<close>

theorem disconnect_over_tcp:
  assumes "segments_ok (cworld st)" and "0 < sint sck" and "\<forall>kh\<in>set (m_vecKH s). fst kh \<in> set release_ids"
    and "stream (cworld st) = concat (map answer_bytes (as @ [b])) @ rest" and "length as = length (m_vecKH s)"
    and "check_address (conns st) (m_fd s) = Some (i, c)" and "device c = tcp_device sck tmo a" and "retry c \<noteq> 0"
    and "answers_ok env (conn_serial c) as" and "replies_ok env (serial_after (conn_serial c) (m_vecKH s)) (fst b) (snd b)"
    and "env_io env = driver_io net_os" and "env_mok env = mem_ok" and "lock_free env"
  shows "\<exists>w. Disconnect env s st = Some (S_OK, s\<lparr>m_vecKH := [], m_fd := 0\<rparr>,
        st\<lparr>conns := (conns st)[i := zero_conn], cworld := env_close env F_tcp_close sck (env_release_mutex env i w)\<rparr>) \<and>
      sent w = sent (cworld st) @ release_wire (conn_serial c) (m_vecKH s) @
        ser_packet (request (serial_after (conn_serial c) (m_vecKH s)) ID_SERVICE_STOP []) []"
proof -
  let ?n = "serial_after (conn_serial c) (m_vecKH s)"
  let ?c = "c\<lparr>conn_serial := ?n\<rparr>"
  have "stream (cworld st) = concat (map answer_bytes as) @ (answer_bytes b @ rest)" using assms(4) by simp
  then obtain w1 where rel: "release_handles env (m_fd s) (m_vecKH s) st = Some (st\<lparr>conns := (conns st)[i := ?c], cworld := w1\<rparr>)"
    and w1: "segments_ok w1" "sent w1 = sent (cworld st) @ release_wire (conn_serial c) (m_vecKH s)" "stream w1 = answer_bytes b @ rest"
    using release_handles_over_tcp [OF assms(1-3) _ assms(5-9,11-13)] by blast
  let ?st = "st\<lparr>conns := (conns st)[i := ?c], cworld := w1\<rparr>"
  have fd: "0 < sint (m_fd s)" using assms(6) by (auto simp: check_address_def Let_def split: if_splits)
  have chk: "check_address (conns ?st) (m_fd s) = Some (i, ?c)"
    using check_address_update [OF assms(6), of ?c] sock_not_0 [OF assms(2)] assms(7) by (simp add: tcp_device_def)
  have d: "device ?c = tcp_device sck tmo a" "retry ?c \<noteq> 0" "conn_serial ?c = ?n" using assms(7,8) by simp_all
  have req: "request_ok []" by (simp add: request_ok_def ser_args_def)
  have ok: "segments_ok (cworld ?st) \<and> 0 < sint sck \<and> sent (cworld ?st) = sent w1" using w1 assms(2) by simp
  have str: "stream (cworld ?st) = ser_packets (fst b) @ ser_packet (snd b) [] @ rest"
    using w1(3) by (simp add: answer_bytes_def)
  let ?c' = "?c\<lparr>conn_serial := next_serial ?n\<rparr>"
  obtain w2 r where stop: "bCap_ServiceStop env (m_fd s) ?st = Some (func_id (snd b), r, ?st\<lparr>conns := (conns ?st)[i := ?c'], cworld := w2\<rparr>)"
    and w2: "sent w2 = sent w1 @ ser_packet (request ?n ID_SERVICE_STOP []) []"
    using link.invoke_function_ok [OF ok str chk d(1,2) _ req assms(11-13), of ID_SERVICE_STOP None] assms(10)
    by (auto simp: bCap_ServiceStop_def call_format_def call_args_def d(3))
  let ?st2 = "?st\<lparr>conns := (conns ?st)[i := ?c'], cworld := w2\<rparr>"
  have chk2: "check_address (conns ?st2) (m_fd s) = Some (i, ?c')"
    using check_address_update [OF chk, of ?c'] sock_not_0 [OF assms(2)] assms(7) by (simp add: tcp_device_def)
  have "bCap_Close_Client env (Some (m_fd s)) ?st2 = Some (S_OK, Some 0,
      ?st2\<lparr>conns := (conns ?st2)[i := zero_conn], cworld := env_close env F_tcp_close sck (env_release_mutex env i w2)\<rparr>)"
    using chk2 assms(7) by (simp add: bCap_Close_Client_def tcp_device_def)
  then show ?thesis
    using fd rel stop w1(2) w2 by (intro exI [of _ w2]) (simp add: Disconnect_def)
qed

section \<open>Concrete runs\<close>

text \<open>A call that gets a robot, on the connection of \<open>sample_client\<close>.\<close>

lemma call_step:
  assumes "well_formed_call fid va ret f" and "request_ok va"
    and "segments_ok (cworld st)" and "0 < sint sck"
    and "stream (cworld st) = ser_packets ps @ ser_packet r [] @ rest"
    and "check_address (conns st) h = Some (i, c)" and "device c = tcp_device sck tmo a" and "retry c \<noteq> 0"
    and "replies_ok env (conn_serial c) ps r"
    and "env_io env = driver_io net_os" and "env_mok env = mem_ok" and "lock_free env"
  shows "\<exists>w'. f env h st = Some (func_id r, result_of ret (func_id r) (final_value (initial_value ret) (ps @ [r])),
        st\<lparr>conns := (conns st)[i := c\<lparr>conn_serial := next_serial (conn_serial c)\<rparr>], cworld := w'\<rparr>) \<and>
      segments_ok w' \<and> sent w' = sent (cworld st) @ ser_packet (request (conn_serial c) fid va) [] \<and> stream w' = rest"
proof -
  have "segments_ok (cworld st) \<and> 0 < sint sck \<and> sent (cworld st) = sent (cworld st)" using assms(3,4) by simp
  from link.invoke_function_ok [OF this assms(5-9,2,10-12), of fid ret] assms(1) show ?thesis
    unfolding well_formed_call_def by auto
qed

definition sample_service :: service where
  "sample_service = \<lparr>m_type = ''tcp'', m_addr = ''192.168.0.1'', m_port = 5007, m_timeout = 3000, m_retry = 5, m_wait = 0,
     m_fd = 1, m_wdt = 400, m_invoke = 180000, m_vecKH = []\<rparr>"

definition get_robot_args :: "variant list" where
  "get_robot_args = [Variant VT_UI4 (Bits 4), Variant VT_BSTR (BstrP [0x52, 0]), Variant VT_BSTR NULLP]"

lemma sample_get_robot:
  "\<exists>st'. ExecFunction sample_env ID_CONTROLLER_GETROBOT get_robot_args zero_variant sample_service sample_client =
     Some (S_OK, Variant VT_UI4 (Bits 33), sample_service\<lparr>m_vecKH := [(ID_ROBOT_RELEASE, 33)]\<rparr>, st')"
proof -
  let ?va = "[VaI4 4, VaBstr (Some [0x52, 0]), VaBstr None]"
  have "length (ser_args (map arg_variant ?va)) = 44" by code_simp
  then have req: "request_ok ?va"
    by (simp add: request_ok_def wf_variant.simps wf_body_def is_array_def scalar_type_def copyable_def
        bstr_val_def wf_bstr_def)
  have "result_of (Some OutI4) (func_id handle_reply)
      (final_value (initial_value (Some OutI4)) ([notice] @ [handle_reply])) = Some (RetI4 33)"
    by code_simp
  then obtain w where "bCap_ControllerGetRobot sample_env 1 4 (Some [0x52, 0]) None True sample_client =
      Some (S_OK, Some (RetI4 33), sample_client\<lparr>conns := (conns sample_client)
        [0 := \<lparr>device = tcp_device 5 1000 None, retry = 1, conn_serial = 8\<rparr>], cworld := w\<rparr>)"
    using call_step [OF sample_robot_call req sample_exchange(1) _ sample_exchange(2,3) _ _ _
        sample_exchange(7-9), of 5 1000 None] sample_replies
    by (auto simp: handle_reply_def next_serial_def)
  then show ?thesis
    by (simp add: ExecFunction_def exec_controller_def at_args_def get_robot_args_def ulVal_def bstrVal_def
        bstr_ptr_def returned_def store_out_def set_ulVal_def retype_def keep_handle_def sample_service_def)
qed

lemma open_objects_tracked_witness:
  "\<exists>s' st' ocs. run_calls sample_env [(ID_CONTROLLER_GETROBOT, get_robot_args)] sample_service sample_client = Some (ocs, s', st') \<and>
     m_vecKH s' = foldl open_after [] ocs \<and> table_ok (m_vecKH s') \<and> m_vecKH s' = [(ID_ROBOT_RELEASE, 33)]"
proof -
  obtain st' where st': "ExecFunction sample_env ID_CONTROLLER_GETROBOT get_robot_args zero_variant sample_service sample_client =
     Some (S_OK, Variant VT_UI4 (Bits 33), sample_service\<lparr>m_vecKH := [(ID_ROBOT_RELEASE, 33)]\<rparr>, st')"
    using sample_get_robot by blast
  let ?oc = "\<lparr>o_fid = ID_CONTROLLER_GETROBOT, o_code = S_OK, o_got = 33, o_given = 4\<rparr>"
  have run: "run_calls sample_env [(ID_CONTROLLER_GETROBOT, get_robot_args)] sample_service sample_client =
      Some ([?oc], sample_service\<lparr>m_vecKH := [(ID_ROBOT_RELEASE, 33)]\<rparr>, st')"
    using st' by (simp add: ulVal_def get_robot_args_def)
  have "table_ok []" "fresh_history [] [?oc]" "m_vecKH sample_service = []"
    by (simp_all add: table_ok_def fresh_handle_def plain_code_def release_of_def sample_service_def)
  then show ?thesis using open_objects_tracked [OF run] run by auto
qed

definition ack :: "u16 \<Rightarrow> bcap_packet" where
  "ack n = \<lparr>serial = n, reserv = 0, func_id = S_OK, argc = 0, args = None\<rparr>"

definition leaving_client :: "net client" where
  "leaving_client = sample_client\<lparr>cworld :=
     \<lparr>arrived = [], coming = [ser_packet (ack 7) [], ser_packet (ack 8) [], ser_packet (ack 9) []], sent = []\<rparr>\<rparr>"

lemma disconnect_over_tcp_witness:
  "\<exists>w. Disconnect sample_env (sample_service\<lparr>m_vecKH := [(ID_CONTROLLER_DISCONNECT, 3), (ID_ROBOT_RELEASE, 4)]\<rparr>) leaving_client =
      Some (S_OK, sample_service\<lparr>m_vecKH := [], m_fd := 0\<rparr>,
        leaving_client\<lparr>conns := (conns leaving_client)[0 := zero_conn], cworld := w\<rparr>) \<and>
      sent w = ser_packet (request 7 ID_CONTROLLER_DISCONNECT [VaI4 3]) [] @
        ser_packet (request 8 ID_ROBOT_RELEASE [VaI4 4]) [] @ ser_packet (request 9 ID_SERVICE_STOP []) []"
proof -
  let ?s = "sample_service\<lparr>m_vecKH := [(ID_CONTROLLER_DISCONNECT, 3), (ID_ROBOT_RELEASE, 4)]\<rparr>"
  have len: "length (ser_packet (ack n) []) = 16" for n by (simp add: ack_def arg_list_def ser_args_def)
  have rep: "replies_ok sample_env n [] (ack n)" for n
    using len [of n] by (simp add: replies_ok_def reply_ok_def canonical_def wf_packet_def stale_def ack_def arg_list_def sample_env_def)
  have "env_close sample_env F_tcp_close 5 (env_release_mutex sample_env 0 w) = w" for w
    by (simp add: sample_env_def)
  moreover have "segments_ok (cworld leaving_client)"
    by (simp add: segments_ok_def leaving_client_def ser_packet_def Let_def)
  moreover have "check_address (conns leaving_client) (m_fd ?s) = Some (0, \<lparr>device = tcp_device 5 1000 None, retry = 1, conn_serial = 7\<rparr>)"
    using sample_exchange(3) by (simp add: leaving_client_def sample_service_def)
  ultimately show ?thesis
    using disconnect_over_tcp [of leaving_client 5 ?s "[([], ack 7), ([], ack 8)]" "([], ack 9)" "[]" 0
        "\<lparr>device = tcp_device 5 1000 None, retry = 1, conn_serial = 7\<rparr>" 1000 None sample_env] rep sample_exchange(7-9)
    by (simp add: release_ids_def answer_bytes_def leaving_client_def stream_def next_serial_def)
qed

end
