(* ===== verification/ServiceStart.thy ===== *)
theory ServiceStart
  imports ServiceLedger ServerExec
begin

text \<open>
  The two ends of \<open>ID_SERVICE_START\<close> together: the option string a service sends when it connects
  (\<open>BCAPService::Connect\<close>, \<open>bcap_service.cpp\<close>) and what the server of the same library makes of it
  (\<open>bcap_server.c\<close>, \<open>GetOptionValue\<close> of \<open>dn_common.c\<close>).
\<close>

lemma dec_text_sint: "length (dec_text (sint (n :: i32))) \<le> 11 \<and> 0 \<notin> set (dec_text (sint n))"
proof -
  have d: "\<bar>sint n\<bar> < 10 ^ 10"
    using sint_range_size [of n] by (auto simp: word_size)
  then have "nat (sint n) < 10 ^ 10" "nat (- sint n) < 10 ^ 10" by (simp_all add: nat_less_iff)
  then have "length (dec_digits (nat (sint n))) \<le> 10" "length (dec_digits (nat (- sint n))) \<le> 10"
    by (simp_all add: length_dec_digits)
  then have "length (dec_text (sint n)) \<le> 11" by (simp add: dec_text_def)
  moreover have "0 \<notin> set (dec_text (sint n))" using d by (intro dec_text_bstr(1)) simp
  ultimately show ?thesis ..
qed

lemma service_option_parts:
  obtains rest where "service_option s = 44 # rest" "length rest \<le> 16381" "0 \<notin> set rest"
proof
  show "service_option s = 44 # wide ''WDT='' @ dec_text (sint (m_wdt s)) @ wide '',InvokeTimeout='' @ dec_text (sint (m_invoke s))"
    by (simp add: service_option_def wide_def)
qed (use dec_text_sint [of "m_wdt s"] dec_text_sint [of "m_invoke s"] in \<open>auto simp: wide_def\<close>)

lemma leading_comma_undefined:
  assumes "length rest \<le> 16381" and "0 \<notin> set rest"
  shows "GetOptionValue mem_ok (Some (44 # rest @ [0])) (Some key) t dest = None"
proof -
  have "wf_bstr ((44 # rest) @ [0])" using assms by (simp add: wf_bstr_def)
  then have a: "SysAllocString mem_ok (Some (44 # rest @ [0])) = Some (Some (44 # rest @ [0]))"
    using SysAllocString_wf by force
  have w: "wcslen (44 # rest @ [0]) = Some (Suc (length rest))"
    using wcslen_append [of "44 # rest" "[]"] assms(2) by simp
  have "trim [0] = None" by (simp add: trim_def)
  then have "end_option mem_ok key t dest 44 [] (44 # rest @ [0]) start_scan = None"
    by (simp add: end_option_def start_scan_def)
  moreover have "flat start_scan" by (simp add: flat_def start_scan_def)
  ultimately have "scan_option mem_ok key t dest start_scan [] (44 # rest @ [0]) = None"
    using nest_flat [of start_scan 44] by (simp add: start_scan_def bracket_pair_def)
  then show ?thesis using a w assms(1) by (simp add: GetOptionValue_def start_scan_def)
qed

text \<open>
  C34: the option string a service sends when it connects begins with a comma, an
  option without a name: the server of this library has no defined result for it, whatever the
  settings, since it looks for the end of the name before the start of its string.
\<close>

theorem own_options_undefined: "service_options mem_ok (Some (service_option s @ [0])) = None"
proof -
  obtain rest where r: "service_option s = 44 # rest" "length rest \<le> 16381" "0 \<notin> set rest"
    by (rule service_option_parts)
  have "SysAllocString mem_ok (Some (wide ''WDT'' @ [0])) = Some (Some (wide ''WDT'' @ [0]))"
    by (rule SysAllocString_wf) (simp add: wf_bstr_def wide_def)
  then show ?thesis
    using leading_comma_undefined [OF r(2,3)] by (simp add: service_options_def option_value_def r(1))
qed

end
