(* ===== verification/RobotData.thy ===== *)
theory RobotData
  imports Variant Float64 "HOL-Library.Monad_Syntax"
begin

text \<open>
  The values a robot object keeps and the variants it exchanges with its controller:
  \<open>denso_robot_core/src/denso_robot.cpp\<close>, \<open>DensoRobot\<close> without its calls.

  \<^item> The members of the object are a record. \<open>*m_mode\<close> belongs to \<open>DensoRobotCore\<close> and is an
    argument; the current action and its lock are not modelled.
  \<^item> A \<open>double\<close> is the 64 bits of it, a \<open>float\<close> its 32 bits.
  \<^item> The heap of the nodes does not run out (\<open>new\<close> would throw). \<open>new VARIANT()\<close> and the elements of
    a safe array are zero; what is put into a vector of variants is a deep copy.
  \<^item> A pointer into an array that is not there, a copy past its end and a signed product that does not
    fit have no defined result: \<open>None\<close>.
\<close>

section \<open>The state\<close>

record robot =
  m_ArmGroup :: i32
  m_memTimeout :: u32
  m_memRetry :: u32
  m_tsfmt :: i32
  m_timestamp :: i32
  m_sendfmt :: i32
  m_send_miniio :: i32
  m_send_handio :: i32
  m_recvfmt :: i32
  m_recv_miniio :: i32
  m_recv_handio :: i32
  m_send_userio_offset :: i32
  m_send_userio_size :: i32
  m_recv_userio_offset :: i32
  m_recv_userio_size :: i32
  m_send_userio :: "byte list"
  m_recv_userio :: "byte list"
  m_position :: "u64 list"
  m_joint :: "u64 list"
  m_trans :: "u64 list"
  m_current :: "u64 list"

abbreviation (input) SLVMODE_POSE_P :: i32 where "SLVMODE_POSE_P \<equiv> 0x0001"
abbreviation (input) SLVMODE_POSE_J :: i32 where "SLVMODE_POSE_J \<equiv> 0x0002"
abbreviation (input) SLVMODE_POSE_T :: i32 where "SLVMODE_POSE_T \<equiv> 0x0003"
abbreviation (input) SLVMODE_POSE :: i32 where "SLVMODE_POSE \<equiv> 0x000F"
abbreviation (input) SLVMODE_SYNC_WAIT :: i32 where "SLVMODE_SYNC_WAIT \<equiv> 0x0200"

abbreviation (input) SENDFMT_HANDIO :: i32 where "SENDFMT_HANDIO \<equiv> 0x0020"
abbreviation (input) SENDFMT_MINIIO :: i32 where "SENDFMT_MINIIO \<equiv> 0x0100"
abbreviation (input) SENDFMT_USERIO :: i32 where "SENDFMT_USERIO \<equiv> 0x0200"

abbreviation (input) RECVFMT_POSE_P :: i32 where "RECVFMT_POSE_P \<equiv> 0x0001"
abbreviation (input) RECVFMT_POSE_J :: i32 where "RECVFMT_POSE_J \<equiv> 0x0002"
abbreviation (input) RECVFMT_POSE_T :: i32 where "RECVFMT_POSE_T \<equiv> 0x0003"
abbreviation (input) RECVFMT_POSE_PJ :: i32 where "RECVFMT_POSE_PJ \<equiv> 0x0004"
abbreviation (input) RECVFMT_POSE_TJ :: i32 where "RECVFMT_POSE_TJ \<equiv> 0x0005"
abbreviation (input) RECVFMT_POSE :: i32 where "RECVFMT_POSE \<equiv> 0x000F"
abbreviation (input) RECVFMT_TIME :: i32 where "RECVFMT_TIME \<equiv> 0x0010"
abbreviation (input) RECVFMT_HANDIO :: i32 where "RECVFMT_HANDIO \<equiv> 0x0020"
abbreviation (input) RECVFMT_CURRENT :: i32 where "RECVFMT_CURRENT \<equiv> 0x0040"
abbreviation (input) RECVFMT_MINIIO :: i32 where "RECVFMT_MINIIO \<equiv> 0x0100"
abbreviation (input) RECVFMT_USERIO :: i32 where "RECVFMT_USERIO \<equiv> 0x0200"

abbreviation (input) MIN_USERIO_OFFSET :: i32 where "MIN_USERIO_OFFSET \<equiv> 128"

definition new_robot :: robot where
  "new_robot =
     \<lparr>m_ArmGroup = 0, m_memTimeout = 0, m_memRetry = 0, m_tsfmt = 0, m_timestamp = 0,
      m_sendfmt = SENDFMT_MINIIO OR SENDFMT_HANDIO, m_send_miniio = 0, m_send_handio = 0,
      m_recvfmt = RECVFMT_POSE_PJ OR RECVFMT_MINIIO OR RECVFMT_HANDIO, m_recv_miniio = 0, m_recv_handio = 0,
      m_send_userio_offset = MIN_USERIO_OFFSET, m_send_userio_size = 1,
      m_recv_userio_offset = MIN_USERIO_OFFSET, m_recv_userio_size = 1,
      m_send_userio = [], m_recv_userio = [], m_position = [], m_joint = [], m_trans = [], m_current = []\<rparr>"

definition flagged :: "i32 \<Rightarrow> i32 \<Rightarrow> bool" where
  "flagged m f \<longleftrightarrow> m AND f \<noteq> 0"

section \<open>Building variants\<close>

definition i4 :: "i32 \<Rightarrow> variant" where "i4 n = Variant VT_I4 (Bits (ucast n))"
definition ui4 :: "u32 \<Rightarrow> variant" where "ui4 n = Variant VT_UI4 (Bits (ucast n))"
definition r4 :: "u32 \<Rightarrow> variant" where "r4 x = Variant VT_R4 (Bits (ucast x))"

text \<open>
  A vector of \<open>n\<close> elements of the type \<open>t\<close>, zeroed, and bytes copied to its start; \<open>variant_vector\<close>
  is one whose elements are all assigned.
\<close>

definition filled :: "u16 \<Rightarrow> u32 \<Rightarrow> byte list \<Rightarrow> variant option" where
  "filled t n bs =
     (case SafeArrayCreateVector mem_ok t 0 n of
        None \<Rightarrow> None
      | Some a \<Rightarrow>
          (case pvData a of
             None \<Rightarrow> if bs = [] then Some (Variant (VT_ARRAY OR t) (ArrayP a)) else None
           | Some (Bytes cells) \<Rightarrow>
               if length bs \<le> length cells
               then Some (Variant (VT_ARRAY OR t) (ArrayP (set_pvData (Some (Bytes (bs @ drop (length bs) cells))) a)))
               else None
           | _ \<Rightarrow> None))"

definition variant_vector :: "variant list \<Rightarrow> variant option" where
  "variant_vector vs =
     (case SafeArrayCreateVector mem_ok VT_VARIANT 0 (of_nat (length vs)) of
        None \<Rightarrow> None
      | Some a \<Rightarrow>
          (case pvData a of
             None \<Rightarrow> if vs = [] then Some (Variant (VT_ARRAY OR VT_VARIANT) (ArrayP a)) else None
           | Some (Variants cells) \<Rightarrow>
               if length vs \<le> length cells
               then Some (Variant (VT_ARRAY OR VT_VARIANT) (ArrayP (set_pvData (Some (Variants (vs @ drop (length vs) cells))) a)))
               else None
           | _ \<Rightarrow> None))"

definition f64_vector :: "u32 \<Rightarrow> u64 list \<Rightarrow> variant option" where
  "f64_vector n xs = filled VT_R8 n (concat (map (le_bytes 8) xs))"

definition f32_vector :: "u32 \<Rightarrow> u32 list \<Rightarrow> variant option" where
  "f32_vector n xs = filled VT_R4 n (concat (map (le_bytes 4) xs))"

definition i4_vector :: "u32 \<Rightarrow> i32 list \<Rightarrow> variant option" where
  "i4_vector n xs = filled VT_I4 n (concat (map (le_bytes 4) xs))"

section \<open>Poses\<close>

text \<open>
  The conversion of a \<open>double\<close> to a \<open>float\<close>, rounded to nearest with ties to even, and of an
  \<open>int32_t\<close> to a \<open>float\<close>: it has an exact \<open>double\<close>.
\<close>

definition f32_of_f64 :: "u64 \<Rightarrow> u32" where
  "f32_of_f64 w =
     (let n = uint w; ex = n div 2 ^ 52 mod 2 ^ 11; fr = n mod 2 ^ 52; e = ex - 1075; q = max (e + 29) (- 149)
      in word_of_int ((if bit w 63 then 2 ^ 31 else 0) +
           (if ex = 2047 then 255 * 2 ^ 23 + (if fr = 0 then 0 else 2 ^ 22 OR fr div 2 ^ 29)
            else if ex = 0 then 0
            else min (255 * 2 ^ 23) (rne_div (2 ^ 52 + fr) (2 ^ nat (q - e)) + (q + 149) * 2 ^ 23))))"

definition f32_of_i32 :: "i32 \<Rightarrow> u32" where
  "f32_of_i32 n = f32_of_f64 (fp_encode (fp_of_int (sint n)))"

record joint_value =
  jv_joint :: i32
  jv_value :: u64

record ex_joints =
  ex_mode :: i32
  ex_values :: "joint_value list"

record pose_data =
  pd_value :: "u32 list"
  pd_type :: i32
  pd_passflag :: i32
  pd_exjoints :: ex_joints

definition CreateExJoints :: "ex_joints \<Rightarrow> variant option" where
  "CreateExJoints ex = do {
     js \<leftarrow> those (map (\<lambda>j. variant_vector [i4 (jv_joint j), r4 (f32_of_f64 (jv_value j))]) (ex_values ex));
     variant_vector (i4 (ex_mode ex) # js)
   }"

definition CreatePoseData :: "pose_data \<Rightarrow> variant option" where
  "CreatePoseData pd = do {
     p \<leftarrow> f32_vector (of_nat (length (pd_value pd))) (pd_value pd);
     ex \<leftarrow> (if ex_mode (pd_exjoints pd) \<noteq> 0 \<and> ex_values (pd_exjoints pd) \<noteq> []
           then map_option (\<lambda>v. [v]) (CreateExJoints (pd_exjoints pd)) else Some []);
     variant_vector ([p, i4 (pd_type pd), i4 (pd_passflag pd)] @ ex)
   }"

text \<open>The poses of the goal of a drive: each joint with its value, and the flag at the first one.\<close>

definition drive_pose :: "i32 \<Rightarrow> nat \<Rightarrow> joint_value \<Rightarrow> pose_data" where
  "drive_pose passflag i j =
     \<lparr>pd_value = [f32_of_i32 (jv_joint j), f32_of_f64 (jv_value j)], pd_type = - 1,
      pd_passflag = (if i = 0 then passflag else 0), pd_exjoints = \<lparr>ex_mode = 0, ex_values = []\<rparr>\<rparr>"

definition drive_poses :: "i32 \<Rightarrow> joint_value list \<Rightarrow> variant option" where
  "drive_poses passflag js =
     those (map (\<lambda>(i, j). CreatePoseData (drive_pose passflag i j)) (enumerate 0 js)) \<bind> variant_vector"

section \<open>Setting what is sent\<close>

definition put_SendFormat :: "i32 \<Rightarrow> robot \<Rightarrow> robot" where
  "put_SendFormat format r =
     (if format \<in> {0, SENDFMT_HANDIO, SENDFMT_MINIIO, SENDFMT_HANDIO OR SENDFMT_MINIIO, SENDFMT_USERIO,
                   SENDFMT_USERIO OR SENDFMT_HANDIO}
      then r\<lparr>m_sendfmt := format\<rparr> else r)"

definition set_SendFormat :: "i32 \<Rightarrow> robot \<Rightarrow> robot" where
  "set_SendFormat format r = r\<lparr>m_sendfmt := format\<rparr>"

definition put_RecvFormat :: "i32 \<Rightarrow> robot \<Rightarrow> robot" where
  "put_RecvFormat format r =
     (let pose = format AND RECVFMT_POSE
      in if 0 \<le> sint pose \<and> sint pose \<le> sint RECVFMT_POSE_TJ \<and>
            format AND NOT RECVFMT_POSE \<in>
              {0, RECVFMT_TIME, RECVFMT_HANDIO, RECVFMT_CURRENT, RECVFMT_MINIIO, RECVFMT_USERIO,
               RECVFMT_TIME OR RECVFMT_HANDIO, RECVFMT_TIME OR RECVFMT_MINIIO, RECVFMT_HANDIO OR RECVFMT_MINIIO,
               RECVFMT_TIME OR RECVFMT_HANDIO OR RECVFMT_MINIIO, RECVFMT_TIME OR RECVFMT_USERIO,
               RECVFMT_HANDIO OR RECVFMT_USERIO, RECVFMT_TIME OR RECVFMT_HANDIO OR RECVFMT_USERIO,
               RECVFMT_CURRENT OR RECVFMT_MINIIO, RECVFMT_TIME OR RECVFMT_CURRENT OR RECVFMT_MINIIO,
               RECVFMT_CURRENT OR RECVFMT_HANDIO, RECVFMT_TIME OR RECVFMT_CURRENT OR RECVFMT_HANDIO,
               RECVFMT_CURRENT OR RECVFMT_HANDIO OR RECVFMT_MINIIO,
               RECVFMT_TIME OR RECVFMT_CURRENT OR RECVFMT_HANDIO OR RECVFMT_MINIIO,
               RECVFMT_CURRENT OR RECVFMT_USERIO, RECVFMT_TIME OR RECVFMT_CURRENT OR RECVFMT_USERIO,
               RECVFMT_CURRENT OR RECVFMT_MINIIO OR RECVFMT_USERIO,
               RECVFMT_TIME OR RECVFMT_CURRENT OR RECVFMT_HANDIO OR RECVFMT_USERIO}
         then r\<lparr>m_recvfmt := format\<rparr> else r)"

definition set_RecvFormat :: "i32 \<Rightarrow> robot \<Rightarrow> robot" where
  "set_RecvFormat format r = r\<lparr>m_recvfmt := format\<rparr>"

definition put_TimeFormat :: "i32 \<Rightarrow> robot \<Rightarrow> robot" where
  "put_TimeFormat format r = (if format = 0 \<or> format = 1 then r\<lparr>m_tsfmt := format\<rparr> else r)"

definition put_MiniIO :: "u32 \<Rightarrow> robot \<Rightarrow> robot" where "put_MiniIO v r = r\<lparr>m_send_miniio := v\<rparr>"
definition put_HandIO :: "u32 \<Rightarrow> robot \<Rightarrow> robot" where "put_HandIO v r = r\<lparr>m_send_handio := v\<rparr>"

text \<open>A message \<open>UserIO\<close>. The length of its value is compared as a \<open>size_t\<close>.\<close>

record user_io =
  io_offset :: i32
  io_size :: i32
  io_value :: "byte list"

definition size_less :: "i32 \<Rightarrow> byte list \<Rightarrow> bool" where
  "size_less n bs \<longleftrightarrow> uint (scast n :: u64) < int (length bs)"

definition put_SendUserIO :: "user_io \<Rightarrow> robot \<Rightarrow> robot" where
  "put_SendUserIO msg r =
     (if sint (io_offset msg) < 128 then r
      else if sint (io_offset msg) mod 8 \<noteq> 0 then r
      else if sint (io_size msg) \<le> 0 then r
      else if size_less (io_size msg) (io_value msg) then r
      else r\<lparr>m_send_userio_offset := io_offset msg, m_send_userio_size := io_size msg,
             m_send_userio := io_value msg\<rparr>)"

definition put_RecvUserIO :: "user_io \<Rightarrow> robot \<Rightarrow> robot" where
  "put_RecvUserIO msg r =
     (if sint (io_offset msg) < 128 then r
      else if sint (io_offset msg) mod 8 \<noteq> 0 then r
      else if sint (io_size msg) \<le> 0 then r
      else r\<lparr>m_recv_userio_offset := io_offset msg, m_recv_userio_size := io_size msg\<rparr>)"

definition get_RecvUserIO :: "robot \<Rightarrow> user_io" where
  "get_RecvUserIO r =
     \<lparr>io_offset = m_recv_userio_offset r, io_size = of_nat (length (m_recv_userio r)), io_value = m_recv_userio r\<rparr>"

section \<open>The argument of a motion in slave mode\<close>

text \<open>\<open>size * USERIO_ALIGNMENT\<close>, a signed product.\<close>

definition aligned_size :: "i32 \<Rightarrow> i32 option" where
  "aligned_size n = (if - (2 ^ 31) \<le> 8 * sint n \<and> 8 * sint n < 2 ^ 31 then Some (8 * n) else None)"

definition send_joints :: "i32 \<Rightarrow> u32 option" where
  "send_joints mode =
     (let t = mode AND SLVMODE_POSE
      in if t = SLVMODE_POSE_P then Some 7
         else if t = SLVMODE_POSE_J then Some 8
         else if t = SLVMODE_POSE_T then Some 10
         else None)"

definition send_user_io :: "robot \<Rightarrow> variant list option" where
  "send_user_io r =
     (if flagged (m_sendfmt r) SENDFMT_USERIO then do {
        n \<leftarrow> aligned_size (m_send_userio_size r);
        v \<leftarrow> filled VT_UI1 (m_send_userio_size r) (m_send_userio r);
        Some [i4 (m_send_userio_offset r), i4 n, v]
      }
      else Some [])"

definition ask_user_io :: "robot \<Rightarrow> variant list option" where
  "ask_user_io r =
     (if flagged (m_recvfmt r) RECVFMT_USERIO then do {
        n \<leftarrow> aligned_size (m_recv_userio_size r);
        Some [i4 (m_recv_userio_offset r), i4 n]
      }
      else Some [])"

definition CreateSendParameter :: "i32 \<Rightarrow> robot \<Rightarrow> u64 list \<Rightarrow> (hresult \<times> variant) option" where
  "CreateSendParameter mode r pose =
     (case send_joints mode of
        None \<Rightarrow> Some (E_FAIL, zero_variant)
      | Some joints \<Rightarrow>
          let mio = flagged (m_sendfmt r) SENDFMT_MINIIO; hio = flagged (m_sendfmt r) SENDFMT_HANDIO;
              uio = flagged (m_sendfmt r) SENDFMT_USERIO; ruio = flagged (m_recvfmt r) RECVFMT_USERIO
          in if uio \<and> size_less (m_send_userio_size r) (m_send_userio r) then Some (E_FAIL, zero_variant)
             else if \<not> mio \<and> \<not> hio \<and> \<not> uio \<and> \<not> ruio
                  then map_option (Pair S_OK) (f64_vector (joints + 1) pose)
             else do {
               p \<leftarrow> f64_vector (joints + 1) pose;
               us \<leftarrow> send_user_io r;
               rs \<leftarrow> ask_user_io r;
               v \<leftarrow> variant_vector ([p] @ (if mio then [i4 (m_send_miniio r)] else []) @ us @ rs @
                      (if hio then [i4 (m_send_handio r)] else []));
               Some (S_OK, v)
             })"

section \<open>The answer\<close>

definition recv_lengths :: "i32 \<Rightarrow> (nat \<times> nat) option" where
  "recv_lengths fmt =
     (let t = fmt AND SLVMODE_POSE
      in if t = RECVFMT_POSE_P then Some (7, 0)
         else if t = RECVFMT_POSE_J then Some (8, 0)
         else if t = RECVFMT_POSE_T then Some (10, 0)
         else if t = RECVFMT_POSE_PJ then Some (7, 8)
         else if t = RECVFMT_POSE_TJ then Some (10, 8)
         else None)"

text \<open>Storing the values of the pose through \<open>pose1\<close> and \<open>pose2\<close>.\<close>

definition store_pose :: "u64 list \<Rightarrow> robot \<Rightarrow> robot" where
  "store_pose xs r =
     (let t = m_recvfmt r AND SLVMODE_POSE
      in if t = RECVFMT_POSE_P then r\<lparr>m_position := xs\<rparr>
         else if t = RECVFMT_POSE_J then r\<lparr>m_joint := xs\<rparr>
         else if t = RECVFMT_POSE_T then r\<lparr>m_trans := xs\<rparr>
         else if t = RECVFMT_POSE_PJ then r\<lparr>m_position := take 7 xs, m_joint := drop 7 xs\<rparr>
         else r\<lparr>m_trans := take 10 xs, m_joint := drop 10 xs\<rparr>)"

text \<open>The first \<open>n\<close> elements of an array of \<open>double\<close>s or of bytes.\<close>

definition f64s_at :: "byte list \<Rightarrow> nat \<Rightarrow> u64 list" where
  "f64s_at bs n = map (\<lambda>i. le_word (take 8 (drop (8 * i) bs))) [0..<n]"

definition array_bytes :: "safearray \<Rightarrow> nat \<Rightarrow> byte list option" where
  "array_bytes a n =
     (case pvData a of
        None \<Rightarrow> if n = 0 then Some [] else None
      | Some (Bytes bs) \<Rightarrow> if n \<le> length bs then Some (take n bs) else None
      | _ \<Rightarrow> None)"

definition read_f64s :: "safearray \<Rightarrow> nat \<Rightarrow> u64 list option" where
  "read_f64s a n = map_option (\<lambda>bs. f64s_at bs n) (array_bytes a (8 * n))"

text \<open>
  A field of the answer: it looks at the next element and stores its value. A field that is not what
  it should be ends the function; what was stored before stays.
\<close>

type_synonym field = "robot \<Rightarrow> variant list \<Rightarrow> (hresult \<times> robot \<times> variant list) option"

definition i4_field :: "(i32 \<Rightarrow> robot \<Rightarrow> robot) \<Rightarrow> field" where
  "i4_field upd r vs =
     (case vs of
        [] \<Rightarrow> None
      | v # vs' \<Rightarrow>
          if vt v \<noteq> VT_I4 then Some (E_FAIL, r, vs)
          else (case val v of Bits w \<Rightarrow> Some (S_OK, upd (ucast w) r, vs') | _ \<Rightarrow> None))"

definition f64_field :: "nat \<Rightarrow> (u64 list \<Rightarrow> robot \<Rightarrow> robot) \<Rightarrow> field" where
  "f64_field n upd r vs =
     (case vs of
        [] \<Rightarrow> None
      | v # vs' \<Rightarrow>
          if vt v \<noteq> VT_ARRAY OR VT_R8 then Some (E_FAIL, r, vs)
          else (case val v of
              ArrayP a \<Rightarrow>
                if of_nat n \<noteq> cElements a then Some (E_FAIL, r, vs)
                else map_option (\<lambda>xs. (S_OK, upd xs r, vs')) (read_f64s a n)
            | _ \<Rightarrow> None))"

definition bytes_field :: "(byte list \<Rightarrow> robot \<Rightarrow> robot) \<Rightarrow> field" where
  "bytes_field upd r vs =
     (case vs of
        [] \<Rightarrow> None
      | v # vs' \<Rightarrow>
          if vt v \<noteq> VT_ARRAY OR VT_UI1 then Some (E_FAIL, r, vs)
          else (case val v of
              ArrayP a \<Rightarrow> map_option (\<lambda>bs. (S_OK, upd bs r, vs')) (array_bytes a (unat (cElements a)))
            | _ \<Rightarrow> None))"

definition no_field :: field where "no_field r vs = Some (S_OK, r, vs)"

definition next_field :: "field \<Rightarrow> field \<Rightarrow> field" where
  "next_field p q r vs = do {
     (hr, r', vs') \<leftarrow> p r vs;
     if FAILED hr then Some (hr, r', vs') else q r' vs'
   }"

definition recv_fields :: "i32 \<Rightarrow> nat \<Rightarrow> field" where
  "recv_fields fmt joints =
     (let on = (\<lambda>f p. if flagged fmt f then p else no_field)
      in next_field (on RECVFMT_TIME (i4_field (\<lambda>n. m_timestamp_update (\<lambda>_. n))))
        (next_field (f64_field joints store_pose)
        (next_field (on RECVFMT_MINIIO (i4_field (\<lambda>n. m_recv_miniio_update (\<lambda>_. n))))
        (next_field (on RECVFMT_USERIO (bytes_field (\<lambda>bs. m_recv_userio_update (\<lambda>_. bs))))
        (next_field (on RECVFMT_HANDIO (i4_field (\<lambda>n. m_recv_handio_update (\<lambda>_. n))))
          (on RECVFMT_CURRENT (f64_field 8 (\<lambda>xs. m_current_update (\<lambda>_. xs)))))))))"

definition recv_count :: "i32 \<Rightarrow> nat" where
  "recv_count fmt =
     1 + length (filter (flagged fmt) [RECVFMT_TIME, RECVFMT_HANDIO, RECVFMT_MINIIO, RECVFMT_USERIO, RECVFMT_CURRENT])"

definition ParseRecvParameter :: "variant \<Rightarrow> robot \<Rightarrow> (hresult \<times> robot) option" where
  "ParseRecvParameter recv r =
     (case recv_lengths (m_recvfmt r) of
        None \<Rightarrow> Some (E_FAIL, r)
      | Some (j1, j2) \<Rightarrow>
          if vt recv = VT_ARRAY OR VT_R8 then
            map_option (\<lambda>(hr, r', _). (hr, r')) (f64_field (j1 + j2) store_pose r [recv])
          else if vt recv = VT_ARRAY OR VT_VARIANT then
            (case val recv of
               ArrayP a \<Rightarrow>
                 if of_nat (recv_count (m_recvfmt r)) \<noteq> cElements a then Some (E_FAIL, r)
                 else (case pvData a of
                     Some (Variants vs) \<Rightarrow>
                       map_option (\<lambda>(hr, r', _). (hr, r')) (recv_fields (m_recvfmt r) (j1 + j2) r vs)
                   | _ \<Rightarrow> None)
             | _ \<Rightarrow> None)
          else Some (E_FAIL, r))"

end
