(* ===== verification/RobotCalls.thy ===== *)
theory RobotCalls
  imports RobotData BcapService FuncId
begin

text \<open>
  The calls a robot object makes on its controller: \<open>denso_robot_core/src/denso_robot.cpp\<close>, \<open>Exec...\<close> and
  \<open>ChangeMode\<close>.

  \<^item> What an object uses is a record of operations over the state of all services of the node:
    \<open>ExecFunction\<close> and the settings of the service with an index, and the two conversions of text, which
    depend on the locale of the process. \<open>bcap_env\<close> is the one of the program, a list of \<open>BCAPService\<close>s
    over the shared client.
  \<^item> \<open>m_vecHandle\<close> is an argument, with one handle for each service.
  \<^item> What \<open>push_back\<close> puts into the vector of the arguments is a copy (\<open>VariantAllocator::construct\<close>).
\<close>

section \<open>The services\<close>

record 's node_env =
  exec_fn :: "nat \<Rightarrow> i32 \<Rightarrow> variant list \<Rightarrow> variant \<Rightarrow> 's \<Rightarrow> (hresult \<times> variant \<times> 's) option"
  get_tmo :: "nat \<Rightarrow> 's \<Rightarrow> u32"
  put_tmo :: "nat \<Rightarrow> u32 \<Rightarrow> 's \<Rightarrow> 's option"
  get_rty :: "nat \<Rightarrow> 's \<Rightarrow> u32"
  put_rty :: "nat \<Rightarrow> u32 \<Rightarrow> 's \<Rightarrow> 's option"
  mbstowcs :: "string \<Rightarrow> wchar list option"
  wcstombs :: "wchar list \<Rightarrow> string option"

abbreviation (input) SRV_ACT :: nat where "SRV_ACT \<equiv> 0"
abbreviation (input) SRV_WATCH :: nat where "SRV_WATCH \<equiv> 1"

record 'w node =
  node_services :: "service list"
  node_client :: "'w client"

definition service_at :: "nat \<Rightarrow> 'w node \<Rightarrow> service option" where
  "service_at i nd = (if i < length (node_services nd) then Some (node_services nd ! i) else None)"

definition put_service :: "nat \<Rightarrow> service \<Rightarrow> 'w client \<Rightarrow> 'w node \<Rightarrow> 'w node" where
  "put_service i s st nd = nd\<lparr>node_services := (node_services nd)[i := s], node_client := st\<rparr>"

definition bcap_env :: "'w cenv \<Rightarrow> (string \<Rightarrow> wchar list option) \<Rightarrow> (wchar list \<Rightarrow> string option) \<Rightarrow> 'w node node_env" where
  "bcap_env env mb wc =
     \<lparr>exec_fn = (\<lambda>i fid va ret nd. do {
        s \<leftarrow> service_at i nd;
        (hr, ret', s', st') \<leftarrow> ExecFunction env fid va ret s (node_client nd);
        Some (hr, ret', put_service i s' st' nd)
      }),
      get_tmo = (\<lambda>i nd. get_Timeout (node_services nd ! i) (node_client nd)),
      put_tmo = (\<lambda>i n nd. do {
        s \<leftarrow> service_at i nd;
        (s', st') \<leftarrow> put_Timeout env n s (node_client nd);
        Some (put_service i s' st' nd)
      }),
      get_rty = (\<lambda>i nd. get_Retry (node_services nd ! i) (node_client nd)),
      put_rty = (\<lambda>i n nd. do {
        s \<leftarrow> service_at i nd;
        let (s', st') = put_Retry env n s (node_client nd);
        Some (put_service i s' st' nd)
      }),
      mbstowcs = mb, wcstombs = wc\<rparr>"

section \<open>Arguments\<close>

text \<open>\<open>ConvertStringToBSTR\<close>: \<open>NULL\<close> when the text has no wide form; \<open>c_str()\<close> ends at the first zero.\<close>

definition c_str :: "string \<Rightarrow> string" where
  "c_str s = takeWhile (\<lambda>c. c \<noteq> CHR 0x00) s"

definition ConvertStringToBSTR :: "'s node_env \<Rightarrow> string \<Rightarrow> bstr option option" where
  "ConvertStringToBSTR env s =
     (case mbstowcs env (c_str s) of
        None \<Rightarrow> Some None
      | Some w \<Rightarrow> SysAllocString mem_ok (Some (w @ [0])))"

definition ConvertBSTRToString :: "'s node_env \<Rightarrow> bstr option \<Rightarrow> string option" where
  "ConvertBSTRToString env b =
     (case b of
        None \<Rightarrow> Some []
      | Some w \<Rightarrow> map_option (\<lambda>l. case wcstombs env (take l w) of None \<Rightarrow> [] | Some s \<Rightarrow> s) (wcslen w))"

definition bstr_variant :: "bstr option \<Rightarrow> variant" where
  "bstr_variant b = Variant VT_BSTR (case b of None \<Rightarrow> NULLP | Some s \<Rightarrow> BstrP s)"

definition literal :: "string \<Rightarrow> variant" where
  "literal s = Variant VT_BSTR (BstrP (wide s @ [0]))"

definition string_variant :: "'s node_env \<Rightarrow> string \<Rightarrow> variant option" where
  "string_variant env s = map_option bstr_variant (ConvertStringToBSTR env s)"

text \<open>\<open>VariantCopy\<close> to a variant that was initialised.\<close>

definition copy_of :: "variant \<Rightarrow> variant option" where
  "copy_of v = map_option snd (VariantCopy_to mem_ok v zero_variant)"

definition handle_of :: "u32 list \<Rightarrow> nat \<Rightarrow> u32 option" where
  "handle_of hs i = (if i < length hs then Some (hs ! i) else None)"

text \<open>A call on the service \<open>i\<close> with the handle of the object there and more arguments.\<close>

definition object_call ::
  "'s node_env \<Rightarrow> u32 list \<Rightarrow> nat \<Rightarrow> i32 \<Rightarrow> variant list \<Rightarrow> 's \<Rightarrow> (hresult \<times> variant \<times> 's) option" where
  "object_call env hs i fid vs s = do {
     h \<leftarrow> handle_of hs i;
     va \<leftarrow> those (map copy_of (ui4 h # vs));
     exec_fn env i fid va zero_variant s
   }"

definition coded :: "(hresult \<times> variant \<times> 's) option \<Rightarrow> (hresult \<times> 's) option" where
  "coded r = map_option (\<lambda>(hr, _, s). (hr, s)) r"

section \<open>The calls\<close>

type_synonym 's coded_call = "'s \<Rightarrow> (hresult \<times> 's) option"

definition ExecTakeArm :: "'s node_env \<Rightarrow> u32 list \<Rightarrow> robot \<Rightarrow> 's coded_call" where
  "ExecTakeArm env hs r s = do {
     a \<leftarrow> i4_vector 2 [m_ArmGroup r, 1];
     coded (object_call env hs SRV_ACT ID_ROBOT_EXECUTE [literal ''TakeArm'', a] s)
   }"

definition ExecGiveArm :: "'s node_env \<Rightarrow> u32 list \<Rightarrow> 's coded_call" where
  "ExecGiveArm env hs s =
     coded (object_call env hs SRV_ACT ID_ROBOT_EXECUTE [literal ''GiveArm'', zero_variant] s)"

definition ChangeArmGroup :: "i32 \<Rightarrow> robot \<Rightarrow> robot" where
  "ChangeArmGroup n r = r\<lparr>m_ArmGroup := n\<rparr>"

text \<open>What \<open>ExecMove\<close>, \<open>ExecDrive\<close>, \<open>ExecSpeed\<close> and \<open>ExecChange\<close> share.\<close>

definition with_arm :: "'s node_env \<Rightarrow> u32 list \<Rightarrow> robot \<Rightarrow> 's coded_call \<Rightarrow> 's coded_call" where
  "with_arm env hs r call s = do {
     (hr, s1) \<leftarrow> ExecTakeArm env hs r s;
     if SUCCEEDED hr then do {
       (hr', s2) \<leftarrow> call s1;
       (_, s3) \<leftarrow> ExecGiveArm env hs s2;
       Some (hr', s3)
     }
     else Some (hr, s1)
   }"

definition ExecMove :: "'s node_env \<Rightarrow> u32 list \<Rightarrow> robot \<Rightarrow> i32 \<Rightarrow> variant \<Rightarrow> string \<Rightarrow> 's coded_call" where
  "ExecMove env hs r mt pose option =
     with_arm env hs r (\<lambda>s. do {
       p \<leftarrow> copy_of pose;
       t \<leftarrow> string_variant env option;
       coded (object_call env hs SRV_ACT ID_ROBOT_MOVE [i4 mt, p, t] s)
     })"

definition ExecDrive :: "'s node_env \<Rightarrow> u32 list \<Rightarrow> robot \<Rightarrow> string \<Rightarrow> variant \<Rightarrow> 's coded_call" where
  "ExecDrive env hs r name option =
     with_arm env hs r (\<lambda>s. do {
       t \<leftarrow> string_variant env name;
       p \<leftarrow> copy_of option;
       coded (object_call env hs SRV_ACT ID_ROBOT_EXECUTE [t, p] s)
     })"

definition ExecSpeed :: "'s node_env \<Rightarrow> u32 list \<Rightarrow> robot \<Rightarrow> u32 \<Rightarrow> 's coded_call" where
  "ExecSpeed env hs r speed =
     with_arm env hs r (\<lambda>s. coded (object_call env hs SRV_ACT ID_ROBOT_SPEED [i4 (- 1), r4 speed] s))"

definition ExecChange :: "'s node_env \<Rightarrow> u32 list \<Rightarrow> robot \<Rightarrow> string \<Rightarrow> 's coded_call" where
  "ExecChange env hs r text =
     with_arm env hs r (\<lambda>s. do {
       t \<leftarrow> string_variant env text;
       coded (object_call env hs SRV_ACT ID_ROBOT_CHANGE [t] s)
     })"

definition ExecHalt :: "'s node_env \<Rightarrow> u32 list \<Rightarrow> 's coded_call" where
  "ExecHalt env hs s = coded (object_call env hs SRV_WATCH ID_ROBOT_HALT [literal ''''] s)"

text \<open>
  The elements of the answer behind the first; an array without elements gives a length of 2^32 - 1,
  which no vector has here. The vector of the caller is kept when there is no such answer.
\<close>

definition ExecCurJnt :: "'s node_env \<Rightarrow> u32 list \<Rightarrow> u64 list \<Rightarrow> 's \<Rightarrow> (hresult \<times> u64 list \<times> 's) option" where
  "ExecCurJnt env hs pose s = do {
     (hr, ret, s') \<leftarrow> object_call env hs SRV_WATCH ID_ROBOT_EXECUTE [literal ''HighCurJntEx'', zero_variant] s;
     if SUCCEEDED hr \<and> vt ret = VT_ARRAY OR VT_R8 then
       (case val ret of
          ArrayP a \<Rightarrow>
            if cElements a = 0 then None
            else map_option (\<lambda>xs. (hr, tl xs, s')) (read_f64s a (unat (cElements a)))
        | _ \<Rightarrow> None)
     else Some (hr, pose, s')
   }"

text \<open>
  A motion in slave mode: the joints of the caller are set to those the robot keeps whenever the call
  succeeded, also when its answer is refused.
\<close>

definition ExecSlaveMove ::
  "'s node_env \<Rightarrow> u32 list \<Rightarrow> i32 \<Rightarrow> robot \<Rightarrow> u64 list \<Rightarrow> u64 list \<Rightarrow> 's \<Rightarrow> (hresult \<times> robot \<times> u64 list \<times> 's) option" where
  "ExecSlaveMove env hs mode r pose joint s = do {
     (hr, send) \<leftarrow> CreateSendParameter mode r pose;
     if FAILED hr then Some (hr, r, joint, s)
     else do {
       (hr1, ret, s1) \<leftarrow> object_call env hs SRV_ACT ID_ROBOT_EXECUTE [literal ''slvMove'', send] s;
       if SUCCEEDED hr1 then do {
         (hr2, r') \<leftarrow> ParseRecvParameter ret r;
         Some (if FAILED hr2 then hr2 else hr1, r', m_joint r', s1)
       }
       else Some (hr1, r, joint, s1)
     }
   }"

section \<open>Changing the mode\<close>

definition ExecSlaveMode :: "'s node_env \<Rightarrow> u32 list \<Rightarrow> string \<Rightarrow> i32 \<Rightarrow> i32 \<Rightarrow> 's coded_call" where
  "ExecSlaveMode env hs name format option s = do {
     t \<leftarrow> string_variant env name;
     a \<leftarrow> (if option = 0 then Some (i4 format) else i4_vector 2 [format, option]);
     coded (object_call env hs SRV_ACT ID_ROBOT_EXECUTE [t, a] s)
   }"

text \<open>Entering: the formats, the arm, the mode, then the settings of the connection that moves the robot.\<close>

definition enter_slave :: "'s node_env \<Rightarrow> u32 list \<Rightarrow> i32 \<Rightarrow> robot \<Rightarrow> 's \<Rightarrow> (hresult \<times> robot \<times> 's) option" where
  "enter_slave env hs mode r s = do {
     (hr1, s1) \<leftarrow> ExecSlaveMode env hs ''slvSendFormat'' (m_sendfmt r) 0 s;
     if FAILED hr1 then Some (hr1, r, s1) else do {
     (hr2, s2) \<leftarrow> ExecSlaveMode env hs ''slvRecvFormat'' (m_recvfmt r) (m_tsfmt r) s1;
     if FAILED hr2 then Some (hr2, r, s2) else do {
     (hr3, s3) \<leftarrow> ExecTakeArm env hs r s2;
     if FAILED hr3 then Some (hr3, r, s3) else do {
     (hr4, s4) \<leftarrow> ExecSlaveMode env hs ''slvChangeMode'' mode 0 s3;
     if FAILED hr4 then Some (hr4, r, s4) else do {
     let r' = r\<lparr>m_memTimeout := get_tmo env SRV_ACT s4, m_memRetry := get_rty env SRV_ACT s4\<rparr>;
     s5 \<leftarrow> put_tmo env SRV_ACT (if flagged mode SLVMODE_SYNC_WAIT then 16 else 8) s4;
     s6 \<leftarrow> put_rty env SRV_ACT 3 s5;
     Some (hr4, r', s6)
     }}}}}"

definition leave_slave :: "'s node_env \<Rightarrow> u32 list \<Rightarrow> i32 \<Rightarrow> robot \<Rightarrow> 's \<Rightarrow> (hresult \<times> robot \<times> 's) option" where
  "leave_slave env hs mode r s = do {
     s1 \<leftarrow> put_tmo env SRV_ACT (m_memTimeout r) s;
     s2 \<leftarrow> put_rty env SRV_ACT (m_memRetry r) s1;
     (hr, s3) \<leftarrow> ExecSlaveMode env hs ''slvChangeMode'' mode 0 s2;
     (_, s4) \<leftarrow> ExecGiveArm env hs s3;
     Some (hr, r, s4)
   }"

definition ChangeMode :: "'s node_env \<Rightarrow> u32 list \<Rightarrow> i32 \<Rightarrow> i32 \<Rightarrow> robot \<Rightarrow> 's \<Rightarrow> (hresult \<times> robot \<times> 's) option" where
  "ChangeMode env hs cur mode r s =
     (if cur = 0 then (if mode \<noteq> 0 then enter_slave env hs mode r s else Some (S_OK, r, s))
      else leave_slave env hs mode r s)"

text \<open>
  The part of \<open>DensoRobotCore::ChangeMode\<close> that concerns the robot: the current mode is the new one
  after a success and normal mode after a failure.
\<close>

definition core_ChangeMode ::
  "'s node_env \<Rightarrow> u32 list \<Rightarrow> i32 \<Rightarrow> i32 \<times> robot \<Rightarrow> 's \<Rightarrow> (hresult \<times> (i32 \<times> robot) \<times> 's) option" where
  "core_ChangeMode env hs mode cr s =
     (case cr of (cur, r) \<Rightarrow> do {
        (hr, r', s') \<leftarrow> ChangeMode env hs cur mode r s;
        Some (hr, (if SUCCEEDED hr then mode else 0, r'), s')
      })"

text \<open>A call whose failure ends the function.\<close>

lemma guarded:
  assumes "x \<bind> (\<lambda>(h, t). if FAILED h then Some (h, r, t) else k h t) = Some (hr, r', t')"
  obtains (failed) "x = Some (hr, t')" and "FAILED hr"
    | (passed) h t where "x = Some (h, t)" and "SUCCEEDED h" and "k h t = Some (hr, r', t')"
  using assms by (auto simp: SUCCEEDED_iff split: if_splits elim!: bind_SomeE)

end
