(* ===== verification/RobotMotion.thy ===== *)
theory RobotMotion
  imports RobotData BcapWire
begin

text \<open>
  The motions in slave mode: what \<open>CreateSendParameter\<close> builds and what \<open>ParseRecvParameter\<close> takes
  from an answer, against a specification of the two formats (\<open>RobotData\<close> has the code). Also what the
  settings keep, and the poses the code has no defined result for.
\<close>

section \<open>Arrays\<close>

definition f64_array :: "u64 list \<Rightarrow> variant" where
  "f64_array xs =
     Variant (VT_ARRAY OR VT_R8)
       (ArrayP (if xs = [] then SafeArray 1 VT_R8 0 None 0 0
                else SafeArray 1 VT_R8 8 (Some (Bytes (concat (map (le_bytes 8) xs)))) (of_nat (length xs)) 0))"

definition byte_array :: "byte list \<Rightarrow> variant" where
  "byte_array bs =
     Variant (VT_ARRAY OR VT_UI1)
       (ArrayP (if bs = [] then SafeArray 1 VT_UI1 0 None 0 0
                else SafeArray 1 VT_UI1 1 (Some (Bytes bs)) (of_nat (length bs)) 0))"

definition variant_array :: "variant list \<Rightarrow> variant" where
  "variant_array vs =
     Variant (VT_ARRAY OR VT_VARIANT)
       (ArrayP (SafeArray 1 VT_VARIANT 16 (Some (Variants vs)) (of_nat (length vs)) 0))"

lemma length_f64_bytes [simp]: "length (concat (map (le_bytes k) xs)) = k * length xs"
  by (induction xs) auto

lemma le_bytes_zero [simp]: "le_bytes k (0 :: 'a::len word) = replicate k 0"
  by (induction k) auto

lemma f64_zeros: "concat (replicate n (replicate 8 (0 :: byte))) = replicate (8 * n) 0"
proof (induction n)
  case (Suc n)
  have "replicate (8 + 8 * n) (0 :: byte) = replicate 8 0 @ replicate (8 * n) 0" by (rule replicate_add)
  then show ?case using Suc by simp
qed simp

lemma f64s_at_bytes: "f64s_at (concat (map (le_bytes 8) xs)) (length xs) = xs"
proof -
  have "take 8 (drop (8 * i) (concat (map (le_bytes 8) xs))) = le_bytes 8 (xs ! i)" if "i < length xs" for i
    using that
  proof (induction xs arbitrary: i)
    case (Cons x xs)
    then show ?case by (cases i) auto
  qed simp
  then show ?thesis
    by (intro nth_equalityI) (simp_all add: f64s_at_def le_word_le_bytes_full)
qed

lemma array_bytes_byte_array:
  "val (byte_array bs) = ArrayP a \<Longrightarrow> length bs < 2 ^ 32 \<Longrightarrow> array_bytes a (unat (cElements a)) = Some bs"
  by (auto simp: byte_array_def array_bytes_def unat_of_nat take_bit_nat_eq_self split: if_splits)

lemma create_small:
  assumes "0 < n" and "n * sz < 2 ^ 31" and "sa_elem_size t = Some sz"
  shows "SafeArrayCreateVector mem_ok t 0 (of_nat n) =
    Some (SafeArray 1 t (of_nat sz) (Some (zero_data t (n * sz))) (of_nat n) 0)"
proof -
  have sz: "0 < sz" using assms(3) by (auto simp: sa_elem_size_def split: if_splits)
  have "n \<le> n * sz" using sz by simp
  then have n: "n < 2 ^ 31" using assms(2) by linarith
  have "unat (of_nat n :: u32) = n" using n by (simp add: unat_of_nat take_bit_nat_eq_self)
  then have nz: "(of_nat n :: u32) \<noteq> 0" using assms(1) by (metis unat_0 less_irrefl)
  have "unat (of_nat n * of_nat sz :: u32) = n * sz"
    using assms(2) by (simp flip: of_nat_mult add: unat_of_nat take_bit_nat_eq_self)
  then show ?thesis using assms(3) nz by (simp add: SafeArrayCreateVector_def)
qed

lemma filled_small:
  assumes "0 < n" and "n * sz < 2 ^ 31" and "sa_elem_size t = Some sz" and "t \<noteq> VT_BSTR" and "t \<noteq> VT_VARIANT"
  shows "filled t (of_nat n) bs =
    (if length bs \<le> n * sz
     then Some (Variant (VT_ARRAY OR t)
       (ArrayP (SafeArray 1 t (of_nat sz) (Some (Bytes (bs @ replicate (n * sz - length bs) 0))) (of_nat n) 0)))
     else None)"
  using assms(4,5) by (simp add: filled_def create_small [OF assms(1-3)] zero_data_def set_pvData_def)

lemma f64_vector_pad:
  assumes "0 < n" and "n < 2 ^ 27"
  shows "f64_vector (of_nat n) xs =
    (if length xs \<le> n then Some (f64_array (xs @ replicate (n - length xs) 0)) else None)"
proof (cases "length xs \<le> n")
  case True
  have "replicate (n * 8 - 8 * length xs) (0 :: byte) = concat (replicate (n - length xs) (replicate 8 0))"
    using f64_zeros [of "n - length xs"] by (simp add: diff_mult_distrib2 mult.commute)
  moreover have "xs @ replicate (n - length xs) 0 \<noteq> []" using assms(1) by auto
  ultimately show ?thesis
    using assms True filled_small [of n 8 VT_R8 "concat (map (le_bytes 8) xs)"]
    by (simp add: f64_vector_def sa_elem_size_def f64_array_def)
next
  case False
  then show ?thesis
    using assms filled_small [of n 8 VT_R8 "concat (map (le_bytes 8) xs)"] by (simp add: f64_vector_def sa_elem_size_def)
qed

lemma bytes_pad:
  assumes "0 < n" and "n < 2 ^ 31"
  shows "filled VT_UI1 (of_nat n) bs =
    (if length bs \<le> n then Some (byte_array (bs @ replicate (n - length bs) 0)) else None)"
proof -
  have "bs @ replicate (n - length bs) 0 \<noteq> []" using assms(1) by auto
  then show ?thesis
    using assms filled_small [of n 1 VT_UI1 bs] by (simp add: sa_elem_size_def byte_array_def)
qed

lemma variants_assigned:
  assumes "vs \<noteq> []" and "length vs < 2 ^ 27"
  shows "variant_vector vs = Some (variant_array vs)"
proof -
  have "SafeArrayCreateVector mem_ok VT_VARIANT 0 (of_nat (length vs)) =
      Some (SafeArray 1 VT_VARIANT 16 (Some (Variants (replicate (length vs) zero_variant))) (of_nat (length vs)) 0)"
    using assms create_small [of "length vs" 16 VT_VARIANT] by (simp add: sa_elem_size_def zero_data_def)
  then show ?thesis by (simp add: variant_vector_def variant_array_def set_pvData_def)
qed

text \<open>They are well formed, so the codec of the packets carries them.\<close>

lemma wf_i4 [simp]: "wf_variant (i4 n)"
  by (simp add: i4_def wf_variant.simps wf_body_def is_array_def scalar_type_def copyable_def)

lemma unat_of_nat_small [simp]: "n < 2 ^ 32 \<Longrightarrow> unat (of_nat n :: u32) = n"
  by (simp add: unat_of_nat take_bit_nat_eq_self)

lemma of_nat_nonzero: "0 < n \<Longrightarrow> n < 2 ^ 32 \<Longrightarrow> (of_nat n :: u32) \<noteq> 0"
  by (metis unat_of_nat_small unat_0 less_irrefl)

lemma wf_f64_array: "length xs < 2 ^ 27 \<Longrightarrow> wf_variant (f64_array xs)"
  using of_nat_nonzero [of "length xs"]
  by (cases "xs = []")
    (auto simp: f64_array_def wf_variant.simps wf_body_def is_array_def wf_array_def sa_elem_size_def wf_data_def)

lemma wf_bytes_value: "length bs < 2 ^ 31 \<Longrightarrow> wf_variant (byte_array bs)"
  using of_nat_nonzero [of "length bs"]
  by (cases "bs = []")
    (auto simp: byte_array_def wf_variant.simps wf_body_def is_array_def wf_array_def sa_elem_size_def wf_data_def)

lemma wf_variants_value:
  assumes "vs \<noteq> []" and "length vs < 2 ^ 27" and "list_all wf_variant vs"
  shows "wf_variant (variant_array vs)"
  using assms of_nat_nonzero [of "length vs"]
  by (auto simp: variant_array_def wf_variant.simps wf_body_def is_array_def wf_array_def sa_elem_size_def wf_data_def
      wf_variants_list_all)

section \<open>What is sent\<close>

text \<open>
  The invariant of the settings of the user I/O: offsets from 128 in steps of 8, sizes that are
  positive, and a value that fits its size.
\<close>

definition userio_ok :: "robot \<Rightarrow> bool" where
  "userio_ok r \<longleftrightarrow>
     128 \<le> sint (m_send_userio_offset r) \<and> 8 dvd sint (m_send_userio_offset r) \<and>
     0 < sint (m_send_userio_size r) \<and> int (length (m_send_userio r)) \<le> sint (m_send_userio_size r) \<and>
     128 \<le> sint (m_recv_userio_offset r) \<and> 8 dvd sint (m_recv_userio_offset r) \<and>
     0 < sint (m_recv_userio_size r)"

lemma userio_ok_new: "userio_ok new_robot"
  by (simp add: userio_ok_def new_robot_def)

lemma sint_bounds: "- 2147483648 \<le> sint (n :: i32) \<and> sint n < 2147483648"
  using sint_range_size [of n] by (auto simp: word_size)

lemma uint_scast_pos:
  assumes "0 \<le> sint n"
  shows "uint (scast (n :: i32) :: u64) = sint n"
proof -
  have "uint (scast n :: u64) = sint n mod 2 ^ 64"
    using uint_word_of_int [of "sint n", where 'a = 64] by simp
  then show ?thesis using assms sint_bounds [of n] by simp
qed

lemma unat_pos:
  assumes "0 \<le> sint (n :: i32)"
  shows "unat n = nat (sint n)"
proof -
  have "uint n = take_bit 32 (sint n)" by (simp add: uint_sint)
  also have "\<dots> = sint n" using assms sint_bounds [of n] by (simp add: take_bit_int_eq_self_iff)
  finally show ?thesis by (simp add: unat_eq_nat_uint)
qed

lemma size_less_pos: "0 \<le> sint n \<Longrightarrow> size_less n bs \<longleftrightarrow> sint n < int (length bs)"
  by (simp add: size_less_def uint_scast_pos)

lemma userio_ok_puts:
  assumes "userio_ok r"
  shows "userio_ok (put_SendUserIO msg r)" and "userio_ok (put_RecvUserIO msg r)"
    and "userio_ok (put_SendFormat f r)" and "userio_ok (set_SendFormat f r)" and "userio_ok (put_RecvFormat f r)"
    and "userio_ok (set_RecvFormat f r)" and "userio_ok (put_TimeFormat f r)" and "userio_ok (put_MiniIO n r)"
    and "userio_ok (put_HandIO n r)"
  using assms
  by (simp_all add: userio_ok_def put_SendUserIO_def put_RecvUserIO_def size_less_pos put_SendFormat_def
      set_SendFormat_def put_RecvFormat_def set_RecvFormat_def put_TimeFormat_def put_MiniIO_def put_HandIO_def
      Let_def not_less not_le dvd_eq_mod_eq_0)

definition pad :: "nat \<Rightarrow> u64 list \<Rightarrow> u64 list" where
  "pad n xs = xs @ replicate (n - length xs) 0"

lemma length_pad: "length xs \<le> n \<Longrightarrow> length (pad n xs) = n"
  by (simp add: pad_def)

definition motion_fields :: "nat \<Rightarrow> robot \<Rightarrow> u64 list \<Rightarrow> variant list" where
  "motion_fields n r pose =
     [f64_array (pad n pose)] @
     (if flagged (m_sendfmt r) SENDFMT_MINIIO then [i4 (m_send_miniio r)] else []) @
     (if flagged (m_sendfmt r) SENDFMT_USERIO
      then [i4 (m_send_userio_offset r), i4 (8 * m_send_userio_size r),
            byte_array (m_send_userio r @ replicate (unat (m_send_userio_size r) - length (m_send_userio r)) 0)]
      else []) @
     (if flagged (m_recvfmt r) RECVFMT_USERIO
      then [i4 (m_recv_userio_offset r), i4 (8 * m_recv_userio_size r)] else []) @
     (if flagged (m_sendfmt r) SENDFMT_HANDIO then [i4 (m_send_handio r)] else [])"

definition motion_argument :: "nat \<Rightarrow> robot \<Rightarrow> u64 list \<Rightarrow> variant" where
  "motion_argument n r pose =
     (case motion_fields n r pose of [v] \<Rightarrow> v | vs \<Rightarrow> variant_array vs)"

lemma userio_fields:
  assumes "userio_ok r" and "sint (m_send_userio_size r) < 2 ^ 28" and "sint (m_recv_userio_size r) < 2 ^ 28"
  shows "send_user_io r = Some (if flagged (m_sendfmt r) SENDFMT_USERIO
      then [i4 (m_send_userio_offset r), i4 (8 * m_send_userio_size r),
            byte_array (m_send_userio r @ replicate (unat (m_send_userio_size r) - length (m_send_userio r)) 0)]
      else [])"
    and "ask_user_io r = Some (if flagged (m_recvfmt r) RECVFMT_USERIO
      then [i4 (m_recv_userio_offset r), i4 (8 * m_recv_userio_size r)] else [])"
proof -
  let ?n = "m_send_userio_size r"
  have n: "0 < sint ?n" "length (m_send_userio r) \<le> unat ?n"
    using assms(1) unat_pos [of ?n] by (auto simp: userio_ok_def)
  then have "filled VT_UI1 ?n (m_send_userio r) =
      Some (byte_array (m_send_userio r @ replicate (unat ?n - length (m_send_userio r)) 0))"
    using bytes_pad [of "unat ?n" "m_send_userio r"] unat_pos [of ?n] sint_bounds [of ?n] by simp
  then show "send_user_io r = Some (if flagged (m_sendfmt r) SENDFMT_USERIO
      then [i4 (m_send_userio_offset r), i4 (8 * m_send_userio_size r),
            byte_array (m_send_userio r @ replicate (unat (m_send_userio_size r) - length (m_send_userio r)) 0)]
      else [])"
    using n assms(2) by (simp add: send_user_io_def aligned_size_def)
  show "ask_user_io r = Some (if flagged (m_recvfmt r) RECVFMT_USERIO
      then [i4 (m_recv_userio_offset r), i4 (8 * m_recv_userio_size r)] else [])"
    using assms(1,3) by (simp add: ask_user_io_def aligned_size_def userio_ok_def)
qed

lemma motion_fields_single:
  "motion_fields n r pose = [v] \<longleftrightarrow>
     v = f64_array (pad n pose) \<and> \<not> flagged (m_sendfmt r) SENDFMT_MINIIO \<and> \<not> flagged (m_sendfmt r) SENDFMT_HANDIO \<and>
     \<not> flagged (m_sendfmt r) SENDFMT_USERIO \<and> \<not> flagged (m_recvfmt r) RECVFMT_USERIO"
  by (auto simp: motion_fields_def)

lemma motion_fields_ne: "motion_fields n r pose \<noteq> []" and length_motion_fields: "length (motion_fields n r pose) \<le> 8"
  by (simp_all add: motion_fields_def)

lemma motion_argument_many:
  assumes "flagged (m_sendfmt r) SENDFMT_MINIIO \<or> flagged (m_sendfmt r) SENDFMT_HANDIO \<or>
     flagged (m_sendfmt r) SENDFMT_USERIO \<or> flagged (m_recvfmt r) RECVFMT_USERIO"
  shows "motion_argument n r pose = variant_array (motion_fields n r pose)"
proof -
  have "motion_fields n r pose \<noteq> [v]" for v using assms motion_fields_single [of n r pose v] by blast
  then show ?thesis using motion_fields_ne [of n r pose] by (auto simp: motion_argument_def split: list.split)
qed

lemma motion_argument_one:
  assumes "\<not> flagged (m_sendfmt r) SENDFMT_MINIIO" "\<not> flagged (m_sendfmt r) SENDFMT_HANDIO"
    "\<not> flagged (m_sendfmt r) SENDFMT_USERIO" "\<not> flagged (m_recvfmt r) RECVFMT_USERIO"
  shows "motion_argument n r pose = f64_array (pad n pose)"
  using assms by (simp add: motion_argument_def motion_fields_def)

lemma send_joints_small: "send_joints mode = Some j \<Longrightarrow> j \<in> {7, 8, 10}"
  by (auto simp: send_joints_def Let_def split: if_splits)

lemma wf_motion_argument:
  assumes "userio_ok r" and "length pose \<le> n" and "n < 2 ^ 27"
  shows "wf_variant (motion_argument n r pose)"
proof -
  have "length (m_send_userio r @ replicate (unat (m_send_userio_size r) - length (m_send_userio r)) (0 :: byte)) < 2 ^ 31"
    using assms(1) unat_pos [of "m_send_userio_size r"] sint_bounds [of "m_send_userio_size r"] by (auto simp: userio_ok_def)
  then have "list_all wf_variant (motion_fields n r pose)"
    using assms(2,3) wf_f64_array [of "pad n pose"] wf_bytes_value by (simp add: motion_fields_def length_pad)
  then show ?thesis
    using motion_fields_ne [of n r pose] length_motion_fields [of n r pose]
    by (auto simp: motion_argument_def wf_variants_value split: list.split)
qed

text \<open>
  C14: while the settings of the user I/O keep their invariant, a motion in
  slave mode has the argument of the specification, the pose padded with zeros and the fields of
  the send format in their order, and it is well formed, so the codec carries it. A pose longer than the
  joints of the mode and their option has no defined result: its length is not checked.
\<close>

theorem motion_argument_built:
  assumes "send_joints mode = Some j" and "userio_ok r"
    and "sint (m_send_userio_size r) < 2 ^ 28" and "sint (m_recv_userio_size r) < 2 ^ 28"
  shows "CreateSendParameter mode r pose =
      (if length pose \<le> unat j + 1 then Some (S_OK, motion_argument (unat j + 1) r pose) else None) \<and>
    (length pose \<le> unat j + 1 \<longrightarrow> wf_variant (motion_argument (unat j + 1) r pose))"
proof
  let ?n = "unat j + 1"
  let ?one = "\<not> flagged (m_sendfmt r) SENDFMT_MINIIO \<and> \<not> flagged (m_sendfmt r) SENDFMT_HANDIO \<and>
     \<not> flagged (m_sendfmt r) SENDFMT_USERIO \<and> \<not> flagged (m_recvfmt r) RECVFMT_USERIO"
  have j: "?n < 2 ^ 27" "j + 1 = of_nat ?n" using send_joints_small [OF assms(1)] by auto
  have vec: "f64_vector (j + 1) pose = (if length pose \<le> ?n then Some (f64_array (pad ?n pose)) else None)"
    unfolding j(2) pad_def using j(1) by (intro f64_vector_pad) simp_all
  have nl: "size_less (m_send_userio_size r) (m_send_userio r) = False"
    using assms(2) by (simp add: userio_ok_def size_less_pos)
  have all: "variant_vector (motion_fields ?n r pose) = Some (variant_array (motion_fields ?n r pose))"
    using motion_fields_ne [of ?n r pose] length_motion_fields [of ?n r pose] by (intro variants_assigned) simp_all
  show "CreateSendParameter mode r pose =
      (if length pose \<le> ?n then Some (S_OK, motion_argument ?n r pose) else None)"
  proof (cases ?one)
    case True
    then show ?thesis by (simp add: CreateSendParameter_def assms(1) vec motion_argument_one)
  next
    case False
    then have one: "?one = False" by blast
    have arg: "motion_argument ?n r pose = variant_array (motion_fields ?n r pose)"
      using False by (intro motion_argument_many) blast
    show ?thesis
    proof (cases "length pose \<le> ?n")
      case True
      then have "CreateSendParameter mode r pose = variant_vector (motion_fields ?n r pose) \<bind> (\<lambda>v. Some (S_OK, v))"
        by (simp only: CreateSendParameter_def assms(1) option.case Let_def nl one simp_thms if_True if_False vec
            userio_fields [OF assms(2-4)] Option.bind.simps motion_fields_def)
      then show ?thesis using True by (simp only: all Option.bind.simps arg if_True)
    next
      case False
      then show ?thesis
        by (simp only: CreateSendParameter_def assms(1) option.case Let_def nl one simp_thms if_False vec Option.bind.simps)
    qed
  qed
  show "length pose \<le> ?n \<longrightarrow> wf_variant (motion_argument ?n r pose)"
    using wf_motion_argument [OF assms(2) _ j(1)] by blast
qed

lemma motion_argument_built_witness:
  "CreateSendParameter 0x202 new_robot [1, 2] =
     Some (S_OK, variant_array [f64_array [1, 2, 0, 0, 0, 0, 0, 0, 0], i4 0, i4 0])"
proof -
  have f: "flagged (m_sendfmt new_robot) SENDFMT_MINIIO" "flagged (m_sendfmt new_robot) SENDFMT_HANDIO"
    "\<not> flagged (m_sendfmt new_robot) SENDFMT_USERIO" "\<not> flagged (m_recvfmt new_robot) RECVFMT_USERIO"
    by (simp_all add: flagged_def new_robot_def)
  have "CreateSendParameter 0x202 new_robot [1, 2] = Some (S_OK, motion_argument 9 new_robot [1, 2])"
    using motion_argument_built [of "0x202" 8 new_robot "[1, 2]"] userio_ok_new
    by (simp add: send_joints_def new_robot_def)
  moreover have "motion_fields 9 new_robot [1, 2] = [f64_array [1, 2, 0, 0, 0, 0, 0, 0, 0], i4 0, i4 0]"
    using f by (simp add: motion_fields_def pad_def new_robot_def numeral_eq_Suc)
  ultimately show ?thesis using f by (simp add: motion_argument_many)
qed

text \<open>
  A message with a size from 2^28 on is accepted as the settings of the
  user I/O, and from then on no motion in slave mode that carries them has a defined result: the size
  in bits does not fit an \<open>int\<close>.
\<close>

lemma userio_size_undefined:
  assumes "2 ^ 28 \<le> sint (io_size msg)" and "128 \<le> sint (io_offset msg)" and "8 dvd sint (io_offset msg)"
    and "send_joints mode \<noteq> None" and "flagged (m_recvfmt r) RECVFMT_USERIO"
    and "\<not> flagged (m_sendfmt r) SENDFMT_USERIO"
  shows "CreateSendParameter mode (put_RecvUserIO msg r) pose = None"
proof -
  have "ask_user_io (put_RecvUserIO msg r) = None"
    using assms by (simp add: ask_user_io_def put_RecvUserIO_def aligned_size_def dvd_eq_mod_eq_0)
  moreover have "m_sendfmt (put_RecvUserIO msg r) = m_sendfmt r" "m_recvfmt (put_RecvUserIO msg r) = m_recvfmt r"
    by (simp_all add: put_RecvUserIO_def)
  ultimately show ?thesis
    using assms(4-6) by (auto simp: CreateSendParameter_def Let_def bind_eq_None_conv)
qed

section \<open>What is received\<close>

text \<open>
  The values of an answer, and the variant that carries them: a time stamp, the pose, mini I/O, user I/O, hand
  I/O and the currents of the motors, each when the receive format asks for it.
\<close>

record slave_answer =
  a_time :: i32
  a_pose :: "u64 list"
  a_mini :: i32
  a_user :: "byte list"
  a_hand :: i32
  a_current :: "u64 list"

definition answer_fields :: "i32 \<Rightarrow> slave_answer \<Rightarrow> variant list" where
  "answer_fields fmt x =
     (if flagged fmt RECVFMT_TIME then [i4 (a_time x)] else []) @ [f64_array (a_pose x)] @
     (if flagged fmt RECVFMT_MINIIO then [i4 (a_mini x)] else []) @
     (if flagged fmt RECVFMT_USERIO then [byte_array (a_user x)] else []) @
     (if flagged fmt RECVFMT_HANDIO then [i4 (a_hand x)] else []) @
     (if flagged fmt RECVFMT_CURRENT then [f64_array (a_current x)] else [])"

definition answer_ok :: "i32 \<Rightarrow> slave_answer \<Rightarrow> bool" where
  "answer_ok fmt x \<longleftrightarrow>
     (case recv_lengths fmt of None \<Rightarrow> False | Some (j1, j2) \<Rightarrow> length (a_pose x) = j1 + j2) \<and>
     length (a_user x) < 2 ^ 32 \<and> (flagged fmt RECVFMT_CURRENT \<longrightarrow> length (a_current x) = 8)"

text \<open>What the robot keeps of it.\<close>

definition pose_is :: "i32 \<Rightarrow> i32 list \<Rightarrow> bool" where
  "pose_is fmt ts \<longleftrightarrow> fmt AND RECVFMT_POSE \<in> set ts"

definition taken :: "slave_answer \<Rightarrow> robot \<Rightarrow> robot" where
  "taken x r =
     (let fmt = m_recvfmt r; keep = (\<lambda>f new old. if flagged fmt f then new else old)
      in r\<lparr>m_timestamp := keep RECVFMT_TIME (a_time x) (m_timestamp r),
           m_recv_miniio := keep RECVFMT_MINIIO (a_mini x) (m_recv_miniio r),
           m_recv_userio := (if flagged fmt RECVFMT_USERIO then a_user x else m_recv_userio r),
           m_recv_handio := keep RECVFMT_HANDIO (a_hand x) (m_recv_handio r),
           m_current := (if flagged fmt RECVFMT_CURRENT then a_current x else m_current r),
           m_position := (if pose_is fmt [RECVFMT_POSE_P, RECVFMT_POSE_PJ] then take 7 (a_pose x) else m_position r),
           m_trans := (if pose_is fmt [RECVFMT_POSE_T, RECVFMT_POSE_TJ] then take 10 (a_pose x) else m_trans r),
           m_joint := (if pose_is fmt [RECVFMT_POSE_J] then a_pose x
                       else if pose_is fmt [RECVFMT_POSE_PJ] then drop 7 (a_pose x)
                       else if pose_is fmt [RECVFMT_POSE_TJ] then drop 10 (a_pose x) else m_joint r)\<rparr>)"

text \<open>A field that takes exactly the elements \<open>a\<close> and changes the robot by \<open>f\<close>.\<close>

definition takes :: "field \<Rightarrow> variant list \<Rightarrow> (robot \<Rightarrow> robot) \<Rightarrow> bool" where
  "takes p a f \<longleftrightarrow> (\<forall>r vs. p r (a @ vs) = Some (S_OK, f r, vs))"

lemma takes_next: "takes p a f \<Longrightarrow> takes q b g \<Longrightarrow> takes (next_field p q) (a @ b) (g \<circ> f)"
  by (simp add: takes_def next_field_def)

lemma takes_if: "takes p a f \<Longrightarrow> takes (if c then p else no_field) (if c then a else []) (if c then f else id)"
  by (simp add: takes_def no_field_def)

lemma takes_i4: "takes (i4_field upd) [i4 n] (upd n)"
  by (simp add: takes_def i4_field_def i4_def ucast_up_ucast_id is_up)

lemma read_f64_array:
  "length xs < 2 ^ 29 \<Longrightarrow>
   \<exists>a. f64_array xs = Variant (VT_ARRAY OR VT_R8) (ArrayP a) \<and> cElements a = of_nat (length xs) \<and>
       read_f64s a (length xs) = Some xs"
  by (simp add: f64_array_def read_f64s_def array_bytes_def f64s_at_bytes)
    (simp add: f64s_at_def)

lemma takes_f64:
  assumes "length xs = n" and "n < 2 ^ 29"
  shows "takes (f64_field n upd) [f64_array xs] (upd xs)"
proof -
  obtain a where "f64_array xs = Variant (VT_ARRAY OR VT_R8) (ArrayP a)" "cElements a = of_nat (length xs)"
    "read_f64s a (length xs) = Some xs"
    using read_f64_array [of xs] assms by blast
  then show ?thesis using assms(1) by (simp add: takes_def f64_field_def)
qed

lemma takes_bytes: "length bs < 2 ^ 32 \<Longrightarrow> takes (bytes_field upd) [byte_array bs] (upd bs)"
  using array_bytes_byte_array [of bs] by (simp add: takes_def bytes_field_def) (simp add: byte_array_def)

lemma takes_recv_fields:
  assumes "recv_lengths fmt = Some (j1, j2)" and "answer_ok fmt x"
  shows "takes (recv_fields fmt (j1 + j2)) (answer_fields fmt x)
    ((if flagged fmt RECVFMT_CURRENT then m_current_update (\<lambda>_. a_current x) else id) \<circ>
     (if flagged fmt RECVFMT_HANDIO then m_recv_handio_update (\<lambda>_. a_hand x) else id) \<circ>
     (if flagged fmt RECVFMT_USERIO then m_recv_userio_update (\<lambda>_. a_user x) else id) \<circ>
     (if flagged fmt RECVFMT_MINIIO then m_recv_miniio_update (\<lambda>_. a_mini x) else id) \<circ>
     store_pose (a_pose x) \<circ>
     (if flagged fmt RECVFMT_TIME then m_timestamp_update (\<lambda>_. a_time x) else id))"
proof -
  have l: "j1 + j2 < 2 ^ 29" "length (a_pose x) = j1 + j2"
    using assms by (auto simp: answer_ok_def recv_lengths_def Let_def split: if_splits)
  have c: "takes (if flagged fmt RECVFMT_CURRENT then f64_field 8 (\<lambda>xs. m_current_update (\<lambda>_. xs)) else no_field)
      (if flagged fmt RECVFMT_CURRENT then [f64_array (a_current x)] else [])
      (if flagged fmt RECVFMT_CURRENT then m_current_update (\<lambda>_. a_current x) else id)"
    using assms(2) takes_f64 [of "a_current x" 8] by (auto simp: answer_ok_def takes_def no_field_def)
  show ?thesis
    unfolding recv_fields_def answer_fields_def Let_def
    using assms(2) l
    by (intro takes_next takes_if takes_i4 takes_f64 takes_bytes c) (simp_all add: answer_ok_def)
qed

lemma recv_lengths_cases:
  assumes "recv_lengths fmt = Some (j1, j2)"
  shows "fmt AND RECVFMT_POSE = RECVFMT_POSE_P \<and> j1 = 7 \<and> j2 = 0 \<or> fmt AND RECVFMT_POSE = RECVFMT_POSE_J \<and> j1 = 8 \<and> j2 = 0 \<or>
    fmt AND RECVFMT_POSE = RECVFMT_POSE_T \<and> j1 = 10 \<and> j2 = 0 \<or> fmt AND RECVFMT_POSE = RECVFMT_POSE_PJ \<and> j1 = 7 \<and> j2 = 8 \<or>
    fmt AND RECVFMT_POSE = RECVFMT_POSE_TJ \<and> j1 = 10 \<and> j2 = 8"
  using assms by (auto simp: recv_lengths_def Let_def split: if_splits)

lemma store_pose_members:
  assumes "recv_lengths (m_recvfmt r) = Some (j1, j2)" and "length xs = j1 + j2"
  shows "store_pose xs r =
      r\<lparr>m_position := (if pose_is (m_recvfmt r) [RECVFMT_POSE_P, RECVFMT_POSE_PJ] then take 7 xs else m_position r),
        m_trans := (if pose_is (m_recvfmt r) [RECVFMT_POSE_T, RECVFMT_POSE_TJ] then take 10 xs else m_trans r),
        m_joint := (if pose_is (m_recvfmt r) [RECVFMT_POSE_J] then xs
                    else if pose_is (m_recvfmt r) [RECVFMT_POSE_PJ] then drop 7 xs
                    else if pose_is (m_recvfmt r) [RECVFMT_POSE_TJ] then drop 10 xs else m_joint r)\<rparr>"
  using recv_lengths_cases [OF assms(1)] assms(2)
  by (elim disjE conjE) (simp_all add: store_pose_def pose_is_def)

lemma length_answer_fields: "length (answer_fields fmt x) = recv_count fmt"
  by (simp add: answer_fields_def recv_count_def)

lemma taken_steps:
  assumes "recv_lengths (m_recvfmt r) = Some (j1, j2)" and "length (a_pose x) = j1 + j2"
  shows "((if flagged (m_recvfmt r) RECVFMT_CURRENT then m_current_update (\<lambda>_. a_current x) else id) \<circ>
     (if flagged (m_recvfmt r) RECVFMT_HANDIO then m_recv_handio_update (\<lambda>_. a_hand x) else id) \<circ>
     (if flagged (m_recvfmt r) RECVFMT_USERIO then m_recv_userio_update (\<lambda>_. a_user x) else id) \<circ>
     (if flagged (m_recvfmt r) RECVFMT_MINIIO then m_recv_miniio_update (\<lambda>_. a_mini x) else id) \<circ>
     store_pose (a_pose x) \<circ>
     (if flagged (m_recvfmt r) RECVFMT_TIME then m_timestamp_update (\<lambda>_. a_time x) else id)) r = taken x r"
  using store_pose_members [of "(if flagged (m_recvfmt r) RECVFMT_TIME then m_timestamp_update (\<lambda>_. a_time x) else id) r",
      OF _ assms(2)] assms(1)
  by (cases "flagged (m_recvfmt r) RECVFMT_TIME"; cases "flagged (m_recvfmt r) RECVFMT_MINIIO";
      cases "flagged (m_recvfmt r) RECVFMT_USERIO"; cases "flagged (m_recvfmt r) RECVFMT_HANDIO";
      cases "flagged (m_recvfmt r) RECVFMT_CURRENT") (simp_all add: taken_def Let_def)

text \<open>
  C15: an answer of the receive format is taken completely: every value it carries is in the
  member of the robot it belongs to, and what it does not carry is as before.
\<close>

theorem answer_taken:
  assumes "answer_ok (m_recvfmt r) x"
  shows "ParseRecvParameter (variant_array (answer_fields (m_recvfmt r) x)) r = Some (S_OK, taken x r)"
proof -
  obtain j1 j2 where j: "recv_lengths (m_recvfmt r) = Some (j1, j2)" "length (a_pose x) = j1 + j2"
    using assms by (auto simp: answer_ok_def split: option.splits)
  have "recv_fields (m_recvfmt r) (j1 + j2) r (answer_fields (m_recvfmt r) x) = Some (S_OK, taken x r, [])"
    using takes_recv_fields [OF j(1) assms] taken_steps [OF j]
    by (simp add: takes_def) (metis append_Nil2)
  then show ?thesis
    using j(1) length_answer_fields [of "m_recvfmt r" x] by (simp add: ParseRecvParameter_def variant_array_def)
qed

definition sample_answer :: slave_answer where
  "sample_answer = \<lparr>a_time = 7, a_pose = [1, 2, 3, 4, 5, 6, 7, 11, 12, 13, 14, 15, 16, 17, 18], a_mini = 5, a_user = [],
     a_hand = 6, a_current = []\<rparr>"

lemma answer_taken_witness:
  "ParseRecvParameter (variant_array [f64_array (a_pose sample_answer), i4 5, i4 6]) new_robot =
     Some (S_OK, new_robot\<lparr>m_position := [1, 2, 3, 4, 5, 6, 7], m_joint := [11, 12, 13, 14, 15, 16, 17, 18],
       m_recv_miniio := 5, m_recv_handio := 6\<rparr>)"
proof -
  have f: "m_recvfmt new_robot = 0x124" by (simp add: new_robot_def)
  have "answer_ok (m_recvfmt new_robot) sample_answer"
    by (simp add: answer_ok_def f recv_lengths_def flagged_def sample_answer_def)
  from answer_taken [OF this] show ?thesis
    by (simp add: f answer_fields_def flagged_def taken_def pose_is_def sample_answer_def)
qed

text \<open>
  On the other inputs: the vectors a robot keeps are empty or have the lengths of their kind,
  whatever arrives, and after a success the joints of a format that has them are there.
\<close>

definition vectors_ok :: "robot \<Rightarrow> bool" where
  "vectors_ok r \<longleftrightarrow>
     length (m_position r) \<in> {0, 7} \<and> length (m_joint r) \<in> {0, 8} \<and> length (m_trans r) \<in> {0, 10} \<and>
     length (m_current r) \<in> {0, 8}"

definition keeps :: "field \<Rightarrow> (robot \<Rightarrow> bool) \<Rightarrow> (robot \<Rightarrow> bool) \<Rightarrow> bool" where
  "keeps p P Q \<longleftrightarrow> (\<forall>r vs hr r' vs'. P r \<longrightarrow> p r vs = Some (hr, r', vs') \<longrightarrow> (if FAILED hr then P r' else Q r'))"

lemma keepsD: "keeps p P Q \<Longrightarrow> P r \<Longrightarrow> p r vs = Some (hr, r', vs') \<Longrightarrow> if FAILED hr then P r' else Q r'"
  unfolding keeps_def by blast

lemma keeps_next:
  assumes "keeps p P Q" and "keeps q Q R" and "\<And>r. Q r \<Longrightarrow> P r"
  shows "keeps (next_field p q) P R"
  unfolding keeps_def
proof (intro allI impI)
  fix r vs hr r' vs'
  assume r: "P r" and n: "next_field p q r vs = Some (hr, r', vs')"
  obtain h1 r1 vs1 where p: "p r vs = Some (h1, r1, vs1)"
    "(if FAILED h1 then Some (h1, r1, vs1) else q r1 vs1) = Some (hr, r', vs')"
    using n by (auto simp: next_field_def elim!: bind_SomeE)
  show "if FAILED hr then P r' else R r'"
  proof (cases "FAILED h1")
    case True
    then show ?thesis using keepsD [OF assms(1) r p(1)] p(2) by simp
  next
    case False
    then have "Q r1" "q r1 vs1 = Some (hr, r', vs')" using keepsD [OF assms(1) r p(1)] p(2) by simp_all
    then show ?thesis using keepsD [OF assms(2)] assms(3) by (metis (full_types))
  qed
qed

lemma keeps_if: "(c \<Longrightarrow> keeps p P P) \<Longrightarrow> keeps (if c then p else no_field) P P"
  by (auto simp: keeps_def no_field_def)

lemma keeps_i4: "(\<And>n r. P r \<Longrightarrow> P (upd n r)) \<Longrightarrow> keeps (i4_field upd) P P"
  by (auto simp: keeps_def i4_field_def split: list.splits if_splits vunion.splits)

lemma keeps_bytes: "(\<And>bs r. P r \<Longrightarrow> P (upd bs r)) \<Longrightarrow> keeps (bytes_field upd) P P"
  by (auto simp: keeps_def bytes_field_def split: list.splits if_splits vunion.splits)

lemma keeps_f64:
  assumes "\<And>xs r. length xs = n \<Longrightarrow> P r \<Longrightarrow> Q (upd xs r)"
  shows "keeps (f64_field n upd) P Q"
  using assms
  by (auto simp: keeps_def f64_field_def read_f64s_def f64s_at_def split: list.splits if_splits vunion.splits)

definition has_joint :: "i32 \<Rightarrow> bool" where
  "has_joint fmt \<longleftrightarrow> pose_is fmt [RECVFMT_POSE_J, RECVFMT_POSE_PJ, RECVFMT_POSE_TJ]"

lemma store_pose_vectors:
  assumes "recv_lengths (m_recvfmt r) = Some (j1, j2)" and "length xs = j1 + j2" and "vectors_ok r"
  shows "vectors_ok (store_pose xs r) \<and> (has_joint (m_recvfmt r) \<longrightarrow> length (m_joint (store_pose xs r)) = 8) \<and>
    m_recvfmt (store_pose xs r) = m_recvfmt r"
  using assms
  by (auto simp: store_pose_def recv_lengths_def Let_def vectors_ok_def has_joint_def pose_is_def split: if_splits)

lemma vectors_after:
  assumes "ParseRecvParameter v r = Some (hr, r')" and "vectors_ok r"
  shows "vectors_ok r' \<and> (SUCCEEDED hr \<and> has_joint (m_recvfmt r) \<longrightarrow> length (m_joint r') = 8)"
proof (cases "recv_lengths (m_recvfmt r)")
  case None
  then show ?thesis using assms by (simp add: ParseRecvParameter_def)
next
  case (Some jj)
  obtain j1 j2 where j: "recv_lengths (m_recvfmt r) = Some (j1, j2)" using Some by (cases jj) auto
  let ?P = "\<lambda>q. vectors_ok q \<and> m_recvfmt q = m_recvfmt r"
  let ?Q = "\<lambda>q. ?P q \<and> (has_joint (m_recvfmt r) \<longrightarrow> length (m_joint q) = 8)"
  have pose: "keeps (f64_field (j1 + j2) store_pose) ?P ?Q"
    using store_pose_vectors j by (intro keeps_f64) simp
  have all: "keeps (recv_fields (m_recvfmt r) (j1 + j2)) ?P ?Q"
    unfolding recv_fields_def Let_def
    by (rule keeps_next [where Q = ?P] keeps_next [OF pose] keeps_next [where Q = ?Q] keeps_if keeps_i4 keeps_bytes
        keeps_f64 | simp add: vectors_ok_def)+
  consider "FAILED hr \<and> r' = r" | vs vs' where "f64_field (j1 + j2) store_pose r vs = Some (hr, r', vs')"
    | vs vs' where "recv_fields (m_recvfmt r) (j1 + j2) r vs = Some (hr, r', vs')"
    using assms(1) j
    by (fastforce simp: ParseRecvParameter_def split: if_splits vunion.splits option.splits sa_data.splits)
  then have "if FAILED hr then ?P r' else ?Q r'"
    using assms(2)
  proof cases
    case 2
    then show ?thesis using keepsD [OF pose _ 2] assms(2) by simp
  next
    case 3
    then show ?thesis using keepsD [OF all _ 3] assms(2) by simp
  qed simp
  then show ?thesis by (auto simp: SUCCEEDED_iff split: if_splits)
qed

text \<open>A field that reads \<open>n\<close> of the elements has a defined result on well-formed ones.\<close>

definition reads :: "nat \<Rightarrow> field \<Rightarrow> bool" where
  "reads n p \<longleftrightarrow> (\<forall>r vs. wf_variants vs \<longrightarrow> n \<le> length vs \<longrightarrow>
     (\<exists>hr r' vs'. p r vs = Some (hr, r', vs') \<and> (\<not> FAILED hr \<longrightarrow> wf_variants vs' \<and> length vs' = length vs - n)))"

lemma field_readsD:
  "reads n p \<Longrightarrow> wf_variants vs \<Longrightarrow> n \<le> length vs \<Longrightarrow>
   \<exists>hr r' vs'. p r vs = Some (hr, r', vs') \<and> (\<not> FAILED hr \<longrightarrow> wf_variants vs' \<and> length vs' = length vs - n)"
  unfolding reads_def by blast

lemma reads_next:
  assumes p: "reads m p" and q: "reads n q"
  shows "reads (m + n) (next_field p q)"
  unfolding reads_def
proof (intro allI impI)
  fix r vs
  assume vs: "wf_variants vs" "m + n \<le> length vs"
  obtain h1 r1 vs1 where p1: "p r vs = Some (h1, r1, vs1)" "\<not> FAILED h1 \<longrightarrow> wf_variants vs1 \<and> length vs1 = length vs - m"
    using field_readsD [OF p vs(1), of r] vs(2) by auto
  show "\<exists>hr r' vs'. next_field p q r vs = Some (hr, r', vs') \<and> (\<not> FAILED hr \<longrightarrow> wf_variants vs' \<and> length vs' = length vs - (m + n))"
  proof (cases "FAILED h1")
    case True
    then show ?thesis using p1 by (simp add: next_field_def)
  next
    case False
    then have vs1: "wf_variants vs1" "n \<le> length vs1" "length vs1 = length vs - m" using p1(2) vs(2) by auto
    then obtain h2 r2 vs2 where "q r1 vs1 = Some (h2, r2, vs2)" "\<not> FAILED h2 \<longrightarrow> wf_variants vs2 \<and> length vs2 = length vs - (m + n)"
      using field_readsD [OF q vs1(1,2), of r1] by auto
    then show ?thesis using False p1 by (simp add: next_field_def)
  qed
qed

lemma reads_on: "reads 1 p \<Longrightarrow> reads (if c then 1 else 0) (if c then p else no_field)"
  by (auto simp: reads_def no_field_def)

lemma reads_one:
  assumes "\<And>r v vs. wf_variant v \<Longrightarrow> \<exists>hr r' vs'. p r (v # vs) = Some (hr, r', vs') \<and> (\<not> FAILED hr \<longrightarrow> vs' = vs)"
  shows "reads 1 p"
  unfolding reads_def
proof (intro allI impI)
  fix r :: robot and vs assume "wf_variants vs" "1 \<le> length vs"
  then obtain v us where "vs = v # us" "wf_variant v" "wf_variants us" by (cases vs) auto
  then show "\<exists>hr r' vs'. p r vs = Some (hr, r', vs') \<and> (\<not> FAILED hr \<longrightarrow> wf_variants vs' \<and> length vs' = length vs - 1)"
    using assms [of v r us] by auto
qed

lemma reads_i4: "reads 1 (i4_field upd)"
  by (rule reads_one, erule wf_variant_cases) (auto simp: i4_field_def is_array_def)

lemma reads_bytes: "reads 1 (bytes_field upd)"
  by (rule reads_one, erule wf_variant_cases) (auto simp: bytes_field_def is_array_def array_bytes_def sa_elem_size_def)


lemma reads_f64:
  assumes "0 < n" "n < 2 ^ 29"
  shows "reads 1 (f64_field n upd)"
proof (rule reads_one)
  fix r v vs
  assume wf: "wf_variant v"
  show "\<exists>hr r' vs'. f64_field n upd r (v # vs) = Some (hr, r', vs') \<and> (\<not> FAILED hr \<longrightarrow> vs' = vs)"
  proof (cases "vt v = VT_ARRAY OR VT_R8")
    case False
    then show ?thesis by (simp add: f64_field_def)
  next
    case True
    have num: "unat (of_nat n :: u32) = n" using assms(2) by (simp add: unat_of_nat)
    then have "(of_nat n :: u32) \<noteq> 0" using assms(1) by auto
    note num = num this
    from wf show ?thesis
    proof (cases rule: wf_variant_cases)
      case (bytes t bs m lb sz)
      then have "sz = 8" using True by (simp add: sa_elem_size_def)
      then show ?thesis using bytes True num by (auto simp: f64_field_def read_f64s_def array_bytes_def)
    qed (use True assms num in \<open>auto simp: f64_field_def is_array_def\<close>)
  qed
qed

lemma reads_recv_fields:
  assumes "0 < j" "j < 2 ^ 29"
  shows "reads (recv_count fmt) (recv_fields fmt j)"
proof -
  let ?on = "\<lambda>f. if flagged fmt f then (1::nat) else 0"
  have "reads (?on RECVFMT_TIME + (1 + (?on RECVFMT_MINIIO + (?on RECVFMT_USERIO + (?on RECVFMT_HANDIO + ?on RECVFMT_CURRENT))))) (recv_fields fmt j)"
    unfolding recv_fields_def Let_def
    by (intro reads_next reads_on reads_i4 reads_bytes reads_f64) (use assms in simp_all)
  moreover have "?on RECVFMT_TIME + (1 + (?on RECVFMT_MINIIO + (?on RECVFMT_USERIO + (?on RECVFMT_HANDIO + ?on RECVFMT_CURRENT)))) = recv_count fmt"
    by (simp add: recv_count_def)
  ultimately show ?thesis by simp
qed

lemma parse_defined:
  assumes wf: "wf_variant v"
  shows "ParseRecvParameter v r \<noteq> None"
proof (cases "recv_lengths (m_recvfmt r)")
  case None
  then show ?thesis by (simp add: ParseRecvParameter_def)
next
  case (Some jj)
  obtain j1 j2 where j: "recv_lengths (m_recvfmt r) = Some (j1, j2)" using Some by (cases jj) auto
  then have l: "0 < j1 + j2" "j1 + j2 < 2 ^ 29" using recv_lengths_cases [OF j] by auto
  have one: "f64_field (j1 + j2) store_pose r [v] \<noteq> None"
    using field_readsD [OF reads_f64 [OF l], of "[v]" store_pose r] wf by auto
  have num: "unat (of_nat (recv_count (m_recvfmt r)) :: u32) = recv_count (m_recvfmt r)" "0 < recv_count (m_recvfmt r)"
    by (simp_all add: recv_count_def)
  show ?thesis
  proof (cases "vt v = VT_ARRAY OR VT_VARIANT")
    case False
    then show ?thesis using j one by (auto simp: ParseRecvParameter_def)
  next
    case True
    from wf show ?thesis
    proof (cases rule: wf_variant_cases)
      case (variants t vs n lb)
      have "recv_fields (m_recvfmt r) (j1 + j2) r vs \<noteq> None" if "n = of_nat (recv_count (m_recvfmt r))"
        using field_readsD [OF reads_recv_fields [OF l, of "m_recvfmt r"] variants(6), of r] that num variants(5) by auto
      then show ?thesis using variants True j by (auto simp: ParseRecvParameter_def)
    qed (use True j num in \<open>auto simp: ParseRecvParameter_def is_array_def\<close>)
  qed
qed

text \<open>
  C16: whatever well-formed value a controller answers, taking it has a defined result: nothing is
  read past the end of an array, however short. The vectors of a robot stay empty or of the length of
  their kind, and after an answer that is accepted the eight joints are there if the format has them.
\<close>

theorem vectors_kept:
  assumes "wf_variant v" and "vectors_ok r"
  shows "\<exists>hr r'. ParseRecvParameter v r = Some (hr, r') \<and> vectors_ok r' \<and>
    (SUCCEEDED hr \<and> has_joint (m_recvfmt r) \<longrightarrow> length (m_joint r') = 8)"
proof -
  obtain hr r' where "ParseRecvParameter v r = Some (hr, r')" using parse_defined [OF assms(1)] by fast
  then show ?thesis using vectors_after assms(2) by blast
qed

text \<open>An answer whose hand I/O is not an integer: what comes before it is stored, and the code is an error.\<close>

definition damaged_answer :: variant where
  "damaged_answer = variant_array [f64_array (a_pose sample_answer), i4 5, r4 0]"

lemma damaged_answer_half_taken:
  "ParseRecvParameter damaged_answer new_robot =
     Some (E_FAIL, new_robot\<lparr>m_position := [1, 2, 3, 4, 5, 6, 7], m_joint := [11, 12, 13, 14, 15, 16, 17, 18],
       m_recv_miniio := 5\<rparr>)"
proof -
  have f: "m_recvfmt new_robot = 0x124" by (simp add: new_robot_def)
  have "f64_field 15 store_pose new_robot (f64_array (a_pose sample_answer) # vs) =
      Some (S_OK, store_pose (a_pose sample_answer) new_robot, vs)" for vs
    using takes_f64 [of "a_pose sample_answer" 15 store_pose] by (simp add: sample_answer_def takes_def)
  then have "recv_fields 0x124 15 new_robot [f64_array (a_pose sample_answer), i4 5, r4 0] =
      Some (E_FAIL, (store_pose (a_pose sample_answer) new_robot)\<lparr>m_recv_miniio := 5\<rparr>, [r4 0])"
    by (simp add: recv_fields_def flagged_def next_field_def no_field_def i4_field_def i4_def r4_def)
  then show ?thesis
    by (simp add: ParseRecvParameter_def f recv_lengths_def recv_count_def flagged_def damaged_answer_def
        variant_array_def store_pose_def sample_answer_def)
qed

text \<open>Three numbers where fifteen are due.\<close>

definition short_answer :: variant where
  "short_answer = variant_array [f64_array [1, 2, 3], i4 5, i4 6]"

lemma vectors_kept_witness:
  "\<exists>hr r'. ParseRecvParameter short_answer new_robot = Some (hr, r') \<and> vectors_ok r'"
proof -
  have "wf_variant (f64_array [1, 2, 3])" by (rule wf_f64_array) simp
  moreover have "wf_variant (i4 n)" for n
    by (simp add: i4_def wf_variant.simps wf_body_def is_array_def scalar_type_def copyable_def)
  ultimately have "wf_variant short_answer" unfolding short_answer_def by (intro wf_variants_value) simp_all
  moreover have "vectors_ok new_robot" by (simp add: vectors_ok_def new_robot_def)
  ultimately show ?thesis using vectors_kept by blast
qed

text \<open>What no answer changes.\<close>

lemma parse_keeps:
  assumes "ParseRecvParameter v r = Some (hr, r')" and "P r"
    and "\<And>xs q. P q \<Longrightarrow> P (store_pose xs q)" and "\<And>n q. P q \<Longrightarrow> P (q\<lparr>m_timestamp := n\<rparr>)"
    and "\<And>n q. P q \<Longrightarrow> P (q\<lparr>m_recv_miniio := n\<rparr>)" and "\<And>n q. P q \<Longrightarrow> P (q\<lparr>m_recv_handio := n\<rparr>)"
    and "\<And>bs q. P q \<Longrightarrow> P (q\<lparr>m_recv_userio := bs\<rparr>)" and "\<And>xs q. P q \<Longrightarrow> P (q\<lparr>m_current := xs\<rparr>)"
  shows "P r'"
proof (cases "recv_lengths (m_recvfmt r)")
  case None
  then show ?thesis using assms by (simp add: ParseRecvParameter_def)
next
  case (Some jj)
  obtain j1 j2 where j: "recv_lengths (m_recvfmt r) = Some (j1, j2)" using Some by (cases jj) auto
  have pose: "keeps (f64_field (j1 + j2) store_pose) P P" using assms(3) by (intro keeps_f64)
  have all: "keeps (recv_fields (m_recvfmt r) (j1 + j2)) P P"
    unfolding recv_fields_def Let_def
    by (rule keeps_next [where Q = P] keeps_next [OF pose] keeps_if keeps_i4 keeps_bytes keeps_f64 assms(4-8) | assumption)+
  consider "r' = r" | vs vs' where "f64_field (j1 + j2) store_pose r vs = Some (hr, r', vs')"
    | vs vs' where "recv_fields (m_recvfmt r) (j1 + j2) r vs = Some (hr, r', vs')"
    using assms(1) j
    by (fastforce simp: ParseRecvParameter_def split: if_splits vunion.splits option.splits sa_data.splits)
  then show ?thesis
  proof cases
    case 2
    then show ?thesis using keepsD [OF pose assms(2) 2] by (simp split: if_splits)
  next
    case 3
    then show ?thesis using keepsD [OF all assms(2) 3] by (simp split: if_splits)
  qed (use assms(2) in simp)
qed

lemma memory_kept:
  assumes "ParseRecvParameter v r = Some (hr, r')"
  shows "m_memTimeout r' = m_memTimeout r \<and> m_memRetry r' = m_memRetry r"
  by (rule parse_keeps [OF assms]) (simp_all add: store_pose_def Let_def)

end
