(* ===== verification/RobotArm.thy ===== *)
theory RobotArm
  imports RobotCalls RobotMotion
begin

text \<open>
  Who holds the arm: the operations of a robot object as steps over any services, with a record of
  the calls they make (\<open>logged\<close>), and the balance of the calls that take and give the arm.
\<close>

section \<open>Recording the calls\<close>

record fn_call =
  k_srv :: nat
  k_fid :: i32
  k_args :: "variant list"
  k_code :: hresult

definition logged :: "'s node_env \<Rightarrow> ('s \<times> fn_call list) node_env" where
  "logged env =
     \<lparr>exec_fn = (\<lambda>i fid va ret (s, log). do {
        (hr, ret', s') \<leftarrow> exec_fn env i fid va ret s;
        Some (hr, ret', (s', log @ [\<lparr>k_srv = i, k_fid = fid, k_args = va, k_code = hr\<rparr>]))
      }),
      get_tmo = (\<lambda>i (s, log). get_tmo env i s),
      put_tmo = (\<lambda>i n (s, log). map_option (\<lambda>s'. (s', log)) (put_tmo env i n s)),
      get_rty = (\<lambda>i (s, log). get_rty env i s),
      put_rty = (\<lambda>i n (s, log). map_option (\<lambda>s'. (s', log)) (put_rty env i n s)),
      mbstowcs = mbstowcs env, wcstombs = wcstombs env\<rparr>"

text \<open>A call of \<open>Execute\<close> of the robot with a command.\<close>

definition command_is :: "string \<Rightarrow> fn_call \<Rightarrow> bool" where
  "command_is name c \<longleftrightarrow> k_fid c = ID_ROBOT_EXECUTE \<and> 1 < length (k_args c) \<and> k_args c ! 1 = literal name"

definition takes_arm :: "fn_call \<Rightarrow> bool" where
  "takes_arm c \<longleftrightarrow> command_is ''TakeArm'' c \<and> SUCCEEDED (k_code c)"

text \<open>The change to a slave mode that fails; the arm has been taken for it.\<close>

definition failed_entry :: "fn_call \<Rightarrow> bool" where
  "failed_entry c \<longleftrightarrow> command_is ''slvChangeMode'' c \<and> FAILED (k_code c) \<and> k_args c ! 2 \<noteq> i4 0"

definition count :: "(fn_call \<Rightarrow> bool) \<Rightarrow> fn_call list \<Rightarrow> int" where
  "count p log = int (length (filter p log))"

definition arms :: "fn_call list \<Rightarrow> int" where
  "arms log = count takes_arm log - count (command_is ''GiveArm'') log"

text \<open>The text conversion of a locale, which has the characters of ASCII.\<close>

definition ascii_locale :: "'s node_env \<Rightarrow> bool" where
  "ascii_locale env \<longleftrightarrow> (\<forall>s. list_all (\<lambda>c. of_char c < (128 :: nat)) s \<longrightarrow> mbstowcs env s = Some (wide s))"

section \<open>The operations as steps\<close>

datatype robot_op =
  Move i32 variant string
  | DriveEx bool variant
  | Speed u32
  | Change string
  | Halt
  | CurJnt
  | SlaveMove "u64 list"
  | Mode i32
  | Set "robot \<Rightarrow> robot"

record 's robot_cfg =
  rc_mode :: i32
  rc_robot :: robot
  rc_joint :: "u64 list"
  rc_state :: 's

definition plain_step :: "'s robot_cfg \<Rightarrow> (hresult \<times> 's) option \<Rightarrow> 's robot_cfg option" where
  "plain_step c r = map_option (\<lambda>(hr, s). c\<lparr>rc_state := s\<rparr>) r"

fun robot_step :: "'s node_env \<Rightarrow> u32 list \<Rightarrow> robot_op \<Rightarrow> 's robot_cfg \<Rightarrow> 's robot_cfg option" where
  "robot_step env hs (Move mt pose t) c = plain_step c (ExecMove env hs (rc_robot c) mt pose t (rc_state c))"
| "robot_step env hs (DriveEx aex v) c =
     plain_step c (ExecDrive env hs (rc_robot c) (if aex then ''DriveAEx'' else ''DriveEx'') v (rc_state c))"
| "robot_step env hs (Speed v) c = plain_step c (ExecSpeed env hs (rc_robot c) v (rc_state c))"
| "robot_step env hs (Change t) c = plain_step c (ExecChange env hs (rc_robot c) t (rc_state c))"
| "robot_step env hs Halt c = plain_step c (ExecHalt env hs (rc_state c))"
| "robot_step env hs CurJnt c =
     map_option (\<lambda>(hr, j, s). c\<lparr>rc_joint := j, rc_state := s\<rparr>) (ExecCurJnt env hs (rc_joint c) (rc_state c))"
| "robot_step env hs (SlaveMove pose) c =
     map_option (\<lambda>(hr, r, j, s). c\<lparr>rc_robot := r, rc_joint := j, rc_state := s\<rparr>)
       (ExecSlaveMove env hs (rc_mode c) (rc_robot c) pose (rc_joint c) (rc_state c))"
| "robot_step env hs (Mode m) c =
     map_option (\<lambda>(hr, (m', r), s). c\<lparr>rc_mode := m', rc_robot := r, rc_state := s\<rparr>)
       (core_ChangeMode env hs m (rc_mode c, rc_robot c) (rc_state c))"
| "robot_step env hs (Set f) c = Some (c\<lparr>rc_robot := f (rc_robot c)\<rparr>)"

text \<open>
  Every operation at any time; the changes from a slave mode straight to another one are counted, as the
  code takes them for the end of the slave mode.
\<close>

definition direct :: "robot_op \<Rightarrow> 's robot_cfg \<Rightarrow> bool" where
  "direct p c = (case p of Mode m \<Rightarrow> rc_mode c \<noteq> 0 \<and> m \<noteq> 0 | _ \<Rightarrow> False)"

inductive driven :: "'s node_env \<Rightarrow> u32 list \<Rightarrow> ('s \<times> fn_call list) robot_cfg \<Rightarrow> int \<Rightarrow> bool"
  for env :: "'s node_env" and hs :: "u32 list"
where
  start: "driven env hs \<lparr>rc_mode = 0, rc_robot = r, rc_joint = j, rc_state = (s, [])\<rparr> 0"
| step: "driven env hs c n \<Longrightarrow> robot_step (logged env) hs p c = Some c' \<Longrightarrow> driven env hs c' (n + of_bool (direct p c))"

section \<open>The balance\<close>

lemma arms_Nil [simp]: "arms [] = 0"
  by (simp add: arms_def count_def)

lemma arms_snoc: "arms (log @ [c]) = arms log + of_bool (takes_arm c) - of_bool (command_is ''GiveArm'' c)"
  by (simp add: arms_def count_def)

lemma count_snoc: "count p (log @ [c]) = count p log + of_bool (p c)"
  by (simp add: count_def)

text \<open>The log of a call on an object is longer by one entry.\<close>

lemma copies_of:
  assumes "those (map copy_of vs) = Some ws"
  shows "length ws = length vs" and "i < length vs \<Longrightarrow> copy_of (vs ! i) = Some (ws ! i)"
  using assms
proof (induction vs arbitrary: ws i)
  case (Cons v vs)
  { case 1 then show ?case using Cons.IH(1) by (auto split: option.splits) }
  { case 2 then show ?case using Cons.IH(2) by (cases i) (auto split: option.splits) }
qed simp_all

lemma object_call_log:
  assumes "object_call (logged env) hs i fid vs (s, log) = Some (hr, ret, (s', log'))"
  obtains va where "log' = log @ [\<lparr>k_srv = i, k_fid = fid, k_args = va, k_code = hr\<rparr>]" and "length va = Suc (length vs)"
    and "\<And>j. j < length vs \<Longrightarrow> copy_of (vs ! j) = Some (va ! Suc j)"
proof -
  obtain h va where h: "those (map copy_of (ui4 h # vs)) = Some va"
    and e: "exec_fn (logged env) i fid va zero_variant (s, log) = Some (hr, ret, (s', log'))"
    using assms by (auto simp: object_call_def elim!: bind_SomeE)
  show thesis
  proof (rule that)
    show "log' = log @ [\<lparr>k_srv = i, k_fid = fid, k_args = va, k_code = hr\<rparr>]"
      using e by (auto simp: logged_def elim!: bind_SomeE)
    show "length va = Suc (length vs)" using copies_of(1) [OF h] by simp
    show "copy_of (vs ! j) = Some (va ! Suc j)" if "j < length vs" for j
      using copies_of(2) [OF h, of "Suc j"] that by simp
  qed
qed

lemma copy_of_wf: "wf_variant v \<Longrightarrow> copy_of v = Some v"
  by (simp add: copy_of_def wf_VariantCopy VariantClear.simps VariantClear_body_def is_array_def)

lemma copy_of_literal:
  assumes "0 \<notin> set (wide s)" and "length s \<le> 16382"
  shows "copy_of (literal s) = Some (literal s)"
  using assms
  by (intro copy_of_wf) (simp add: literal_def wf_variant.simps wf_body_def is_array_def wf_bstr_def wide_def)

lemma literals_differ [simp]:
  "literal ''TakeArm'' \<noteq> literal ''GiveArm''" "literal ''TakeArm'' \<noteq> literal ''slvChangeMode''"
  "literal ''GiveArm'' \<noteq> literal ''slvChangeMode''"
  by (simp_all add: literal_def wide_def)

text \<open>A command of the robot leaves one entry with its name.\<close>

lemma command_log:
  assumes "object_call (logged env) hs i fid (literal name # vs) (s, log) = Some (hr, ret, (s', log'))"
    and "copy_of (literal name) = Some (literal name)"
  obtains c where "log' = log @ [c]" and "k_code c = hr" and "k_fid c = fid" and "\<And>n. command_is n c \<longleftrightarrow> fid = ID_ROBOT_EXECUTE \<and> literal n = literal name"
    and "\<And>v vs'. vs = v # vs' \<Longrightarrow> copy_of v = Some (k_args c ! 2)"
proof -
  obtain va where l: "log' = log @ [\<lparr>k_srv = i, k_fid = fid, k_args = va, k_code = hr\<rparr>]" "length va = Suc (Suc (length vs))"
    "\<And>j. j < Suc (length vs) \<Longrightarrow> copy_of ((literal name # vs) ! j) = Some (va ! Suc j)"
    using object_call_log [OF assms(1)] by (metis length_Cons)
  have n: "va ! 1 = literal name" using l(3) [of 0] assms(2) by simp
  show thesis
  proof (rule that [OF l(1)])
    show "command_is m \<lparr>k_srv = i, k_fid = fid, k_args = va, k_code = hr\<rparr> \<longleftrightarrow> fid = ID_ROBOT_EXECUTE \<and> literal m = literal name" for m
      using n l(2) by (auto simp: command_is_def)
    show "copy_of v = Some (k_args \<lparr>k_srv = i, k_fid = fid, k_args = va, k_code = hr\<rparr> ! 2)" if "vs = v # vs'" for v vs'
      using l(3) [of 1] that by (simp add: numeral_2_eq_2)
  qed simp_all
qed

definition effect :: "int \<Rightarrow> int \<Rightarrow> fn_call list \<Rightarrow> fn_call list \<Rightarrow> bool" where
  "effect n f log log' \<longleftrightarrow> arms log' = arms log + n \<and> count failed_entry log' = count failed_entry log + f"

lemma effect_refl: "effect 0 0 log log"
  by (simp add: effect_def)

lemma effect_trans: "effect n f log log' \<Longrightarrow> effect n' f' log' log'' \<Longrightarrow> n'' = n + n' \<Longrightarrow> f'' = f + f' \<Longrightarrow> effect n'' f'' log log''"
  by (simp add: effect_def)

lemma effect_entry:
  "effect n f log (log @ [c]) \<longleftrightarrow>
     n = of_bool (takes_arm c) - of_bool (command_is ''GiveArm'' c) \<and> f = of_bool (failed_entry c)"
  by (auto simp: effect_def arms_snoc count_snoc)

lemma effect_other:
  assumes "object_call (logged env) hs i fid vs (s, log) = Some (hr, ret, (s', log'))" and "fid \<noteq> ID_ROBOT_EXECUTE"
  shows "effect 0 0 log log'"
proof -
  obtain va where "log' = log @ [\<lparr>k_srv = i, k_fid = fid, k_args = va, k_code = hr\<rparr>]"
    by (rule object_call_log [OF assms(1)])
  then show ?thesis using assms(2) by (simp add: effect_entry takes_arm_def failed_entry_def command_is_def)
qed

lemmas effect_others = effect_other [where fid = ID_ROBOT_MOVE, simplified] effect_other [where fid = ID_ROBOT_SPEED, simplified]
  effect_other [where fid = ID_ROBOT_CHANGE, simplified] effect_other [where fid = ID_ROBOT_HALT, simplified]

lemma effect_command:
  assumes "object_call (logged env) hs i ID_ROBOT_EXECUTE (literal name # vs) (s, log) = Some (hr, ret, (s', log'))"
    and "copy_of (literal name) = Some (literal name)" and "literal name \<notin> {literal ''TakeArm'', literal ''GiveArm'', literal ''slvChangeMode''}"
  shows "effect 0 0 log log'"
proof -
  obtain c where c: "log' = log @ [c]" "\<And>n. command_is n c \<longleftrightarrow> literal n = literal name"
    by (rule command_log [OF assms(1,2)]) simp
  show ?thesis using assms(3) unfolding c(1) effect_entry takes_arm_def failed_entry_def c(2) by auto
qed

lemma arm_literals: "copy_of (literal ''TakeArm'') = Some (literal ''TakeArm'')" "copy_of (literal ''GiveArm'') = Some (literal ''GiveArm'')"
  by (rule copy_of_literal; simp add: wide_def)+

lemma effect_take:
  assumes "ExecTakeArm (logged env) hs r (s, log) = Some (hr, (s', log'))"
  shows "effect (of_bool (SUCCEEDED hr)) 0 log log'"
proof -
  obtain a ret where t: "object_call (logged env) hs SRV_ACT ID_ROBOT_EXECUTE [literal ''TakeArm'', a] (s, log) = Some (hr, ret, (s', log'))"
    using assms by (auto simp: ExecTakeArm_def coded_def elim!: bind_SomeE)
  obtain c where c: "log' = log @ [c]" "\<And>n. command_is n c \<longleftrightarrow> literal n = literal ''TakeArm''" "k_code c = hr"
    by (rule command_log [OF t arm_literals(1)]) simp
  show ?thesis
    unfolding c(1) effect_entry takes_arm_def failed_entry_def c(2,3)
    by (simp add: literal_def wide_def)
qed

lemma effect_give:
  assumes "ExecGiveArm (logged env) hs (s, log) = Some (hr, (s', log'))"
  shows "effect (- 1) 0 log log'"
proof -
  obtain ret where t: "object_call (logged env) hs SRV_ACT ID_ROBOT_EXECUTE [literal ''GiveArm'', zero_variant] (s, log) = Some (hr, ret, (s', log'))"
    using assms by (auto simp: ExecGiveArm_def coded_def)
  obtain c where c: "log' = log @ [c]" "\<And>n. command_is n c \<longleftrightarrow> literal n = literal ''GiveArm''"
    by (rule command_log [OF t arm_literals(2)]) simp
  show ?thesis unfolding c(1) effect_entry takes_arm_def failed_entry_def c(2) by (simp add: literal_def wide_def)
qed

lemma effect_with_arm:
  assumes "with_arm (logged env) hs r call (s, log) = Some (hr, (s', log'))"
    and "\<And>s log hr s' log'. call (s, log) = Some (hr, (s', log')) \<Longrightarrow> effect 0 0 log log'"
  shows "effect 0 0 log log'"
proof -
  obtain h1 s1 l1 where t: "ExecTakeArm (logged env) hs r (s, log) = Some (h1, (s1, l1))"
    and rest: "(if SUCCEEDED h1 then do {
       (hr', s2) \<leftarrow> call (s1, l1);
       (_, s3) \<leftarrow> ExecGiveArm (logged env) hs s2;
       Some (hr', s3)
     } else Some (h1, (s1, l1))) = Some (hr, (s', log'))"
    using assms(1) by (auto simp: with_arm_def elim!: bind_SomeE)
  show ?thesis
  proof (cases "SUCCEEDED h1")
    case True
    then obtain h2 s2 l2 h3 where b: "call (s1, l1) = Some (h2, (s2, l2))"
      "ExecGiveArm (logged env) hs (s2, l2) = Some (h3, (s', log'))"
      using rest by (auto elim!: bind_SomeE)
    show ?thesis
      using effect_take [OF t] assms(2) [OF b(1)] effect_give [OF b(2)] True by (auto simp: effect_def)
  next
    case False
    then have "hr = h1" "log' = l1" using rest [unfolded if_not_P [OF False]] by auto
    then show ?thesis using False effect_take [OF t] by (simp add: effect_def)
  qed
qed

text \<open>The names that are converted, in a locale that has ASCII.\<close>

lemma string_variant_ascii:
  assumes "ascii_locale env" and "list_all (\<lambda>c. of_char c < (128 :: nat) \<and> c \<noteq> CHR 0x00) name"
    and "0 \<notin> set (wide name)" and "length name \<le> 16382"
  shows "string_variant (logged env) name = Some (literal name)"
proof -
  have "c_str name = name" using assms(2) by (simp add: c_str_def takeWhile_eq_all_conv list_all_iff)
  moreover have "mbstowcs (logged env) name = Some (wide name)"
    using assms(1,2) by (auto simp: logged_def ascii_locale_def list_all_iff)
  moreover have "wf_bstr (wide name @ [0])" using assms(3,4) by (simp add: wf_bstr_def wide_def)
  then have "SysAllocString mem_ok (Some (wide name @ [0])) = Some (Some (wide name @ [0]))" by (rule SysAllocString_wf)
  ultimately show ?thesis by (simp add: string_variant_def ConvertStringToBSTR_def bstr_variant_def literal_def)
qed

lemma command_name:
  assumes "ascii_locale env" and "name \<in> {''slvSendFormat'', ''slvRecvFormat'', ''slvChangeMode'', ''DriveEx'', ''DriveAEx''}"
  shows "string_variant (logged env) name = Some (literal name)" and "copy_of (literal name) = Some (literal name)"
  using assms(2) by (auto intro!: string_variant_ascii [OF assms(1)] copy_of_literal simp: wide_def)

lemma effect_slave_mode:
  assumes "ExecSlaveMode (logged env) hs name n opt (s, log) = Some (hr, (s', log'))" and "ascii_locale env"
    and "name \<in> {''slvSendFormat'', ''slvRecvFormat''}"
  shows "effect 0 0 log log'"
proof -
  have nm: "string_variant (logged env) name = Some (literal name)" "copy_of (literal name) = Some (literal name)"
    using command_name [OF assms(2), of name] assms(3) by auto
  obtain a ret where c: "object_call (logged env) hs SRV_ACT ID_ROBOT_EXECUTE [literal name, a] (s, log) = Some (hr, ret, (s', log'))"
    using assms(1) nm(1) by (auto simp: ExecSlaveMode_def coded_def elim!: bind_SomeE)
  show ?thesis
    by (rule effect_command [OF c nm(2)]) (use assms(3) in \<open>auto simp: literal_def wide_def\<close>)
qed

lemma effect_change_mode:
  assumes "ExecSlaveMode (logged env) hs ''slvChangeMode'' m 0 (s, log) = Some (hr, (s', log'))" and "ascii_locale env"
  shows "effect 0 (of_bool (FAILED hr \<and> m \<noteq> 0)) log log'"
proof -
  have nm: "string_variant (logged env) ''slvChangeMode'' = Some (literal ''slvChangeMode'')"
    "copy_of (literal ''slvChangeMode'') = Some (literal ''slvChangeMode'')"
    using command_name [OF assms(2), of "''slvChangeMode''"] by auto
  obtain ret where c: "object_call (logged env) hs SRV_ACT ID_ROBOT_EXECUTE [literal ''slvChangeMode'', i4 m] (s, log) = Some (hr, ret, (s', log'))"
    using assms(1) nm(1) by (auto simp: ExecSlaveMode_def coded_def elim!: bind_SomeE)
  have "m = ucast (ucast m :: u64)" by (simp add: ucast_up_ucast_id is_up)
  then have i: "i4 m = i4 0 \<longleftrightarrow> m = 0" by (auto simp: i4_def)
  obtain e where e: "log' = log @ [e]" "\<And>n. command_is n e \<longleftrightarrow> literal n = literal ''slvChangeMode''" "k_code e = hr"
    "\<And>v vs'. [i4 m] = v # vs' \<Longrightarrow> copy_of v = Some (k_args e ! 2)"
    by (rule command_log [OF c nm(2)]) simp
  have "k_args e ! 2 = i4 m" using e(4) [of "i4 m" "[]"] copy_of_wf [OF wf_i4 [of m]] by simp
  then show ?thesis unfolding e(1) effect_entry takes_arm_def failed_entry_def e(2,3) i [symmetric] by simp
qed

lemma guard_cases:
  assumes "x \<bind> (\<lambda>(h, t). if FAILED h then Some (h, r, t) else k h t) = Some (hr, r', t')"
  obtains (failed) "x = Some (hr, t')" and "FAILED hr"
    | (passed) h s log where "x = Some (h, (s, log))" and "SUCCEEDED h" and "k h (s, log) = Some (hr, r', t')"
  by (rule guarded [OF assms]) (use that in auto)

lemma effect_enter:
  assumes "enter_slave (logged env) hs m r (s, log) = Some (hr, r', (s', log'))" and "ascii_locale env" and "m \<noteq> 0"
  shows "\<exists>f. effect (of_bool (SUCCEEDED hr) + f) f log log'"
  using assms(1) unfolding enter_slave_def
proof (cases rule: guard_cases)
  case failed
  then show ?thesis using effect_slave_mode [OF failed(1) assms(2)] by (auto simp: effect_def SUCCEEDED_iff)
next
  case (passed h1 s1 l1)
  note e1 = effect_slave_mode [OF passed(1) assms(2)]
  show ?thesis using passed(3)
  proof (cases rule: guard_cases)
    case failed
    then show ?thesis using e1 effect_slave_mode [OF failed(1) assms(2)] by (auto simp: effect_def SUCCEEDED_iff)
  next
    case (passed h2 s2 l2)
    note e2 = effect_slave_mode [OF passed(1) assms(2)]
    show ?thesis using passed(3)
    proof (cases rule: guard_cases)
      case failed
      then show ?thesis using e1 e2 effect_take [OF failed(1)] by (auto simp: effect_def SUCCEEDED_iff)
    next
      case (passed h3 s3 l3)
      note e3 = effect_take [OF passed(1)] passed(2)
      show ?thesis using passed(3)
      proof (cases rule: guard_cases)
        case failed
        then show ?thesis
          using e1 e2 e3 effect_change_mode [OF failed(1) assms(2)] assms(3) by (auto simp: effect_def SUCCEEDED_iff intro!: exI [of _ 1])
      next
        case (passed h4 s4 l4)
        then have "hr = h4" "log' = l4" by (auto simp: logged_def elim!: bind_SomeE)
        then show ?thesis
          using e1 e2 e3 passed(2) effect_change_mode [OF passed(1) assms(2)] by (auto simp: effect_def SUCCEEDED_iff)
      qed
    qed
  qed
qed

lemma effect_leave:
  assumes "leave_slave (logged env) hs m r (s, log) = Some (hr, r', (s', log'))" and "ascii_locale env"
  shows "effect (- 1) (of_bool (FAILED hr \<and> m \<noteq> 0)) log log'"
proof -
  obtain s2 s3 l3 h where c: "ExecSlaveMode (logged env) hs ''slvChangeMode'' m 0 (s2, log) = Some (hr, (s3, l3))"
    and g: "ExecGiveArm (logged env) hs (s3, l3) = Some (h, (s', log'))"
    using assms(1) by (auto simp: leave_slave_def logged_def elim!: bind_SomeE)
  show ?thesis using effect_change_mode [OF c assms(2)] effect_give [OF g] by (simp add: effect_def)
qed

lemma effect_step:
  assumes "robot_step (logged env) hs p c = Some c'" and "rc_state c = (s, log)" and "rc_state c' = (s', log')"
    and "ascii_locale env" and "\<And>m. p \<noteq> Mode m"
  shows "effect 0 0 log log' \<and> rc_mode c' = rc_mode c"
proof (cases p)
  case (Move mt pose t)
  have "effect 0 0 log log'"
    using assms(1-3) unfolding Move robot_step.simps plain_step_def ExecMove_def
    by (auto elim!: bind_SomeE effect_with_arm intro: effect_others simp: coded_def)
  then show ?thesis using assms(1) Move by (auto simp: plain_step_def)
next
  case (DriveEx aex v)
  let ?name = "if aex then ''DriveAEx'' else ''DriveEx''"
  have nm: "string_variant (logged env) ?name = Some (literal ?name)" "copy_of (literal ?name) = Some (literal ?name)"
    using command_name [OF assms(4), of ?name] by auto
  have lit: "literal ?name \<notin> {literal ''TakeArm'', literal ''GiveArm'', literal ''slvChangeMode''}"
    by (simp add: literal_def wide_def)
  have "effect 0 0 log log'"
    using assms(1-3) unfolding DriveEx robot_step.simps plain_step_def ExecDrive_def nm(1)
    by (auto elim!: bind_SomeE effect_with_arm dest: effect_command [OF _ nm(2) lit] simp: coded_def)
  then show ?thesis using assms(1) DriveEx by (auto simp: plain_step_def)
next
  case (Speed v)
  have "effect 0 0 log log'"
    using assms(1-3) unfolding Speed robot_step.simps plain_step_def ExecSpeed_def
    by (auto elim!: bind_SomeE effect_with_arm intro: effect_others simp: coded_def)
  then show ?thesis using assms(1) Speed by (auto simp: plain_step_def)
next
  case (Change t)
  have "effect 0 0 log log'"
    using assms(1-3) unfolding Change robot_step.simps plain_step_def ExecChange_def
    by (auto elim!: bind_SomeE effect_with_arm intro: effect_others simp: coded_def)
  then show ?thesis using assms(1) Change by (auto simp: plain_step_def)
next
  case Halt
  then show ?thesis
    using assms(1-3) by (auto simp: plain_step_def ExecHalt_def coded_def intro: effect_others)
next
  case CurJnt
  have l: "copy_of (literal ''HighCurJntEx'') = Some (literal ''HighCurJntEx'')" by (rule copy_of_literal) (simp_all add: wide_def)
  show ?thesis
    using assms(1-3) unfolding CurJnt
    by (auto simp: ExecCurJnt_def literal_def wide_def split: if_splits vunion.splits elim!: bind_SomeE
        dest!: effect_command [OF _ l, unfolded literal_def wide_def, simplified])
next
  case (SlaveMove pose)
  have l: "copy_of (literal ''slvMove'') = Some (literal ''slvMove'')" by (rule copy_of_literal) (simp_all add: wide_def)
  show ?thesis
    using assms(1-3) unfolding SlaveMove
    by (auto simp: ExecSlaveMove_def effect_refl literal_def wide_def split: if_splits elim!: bind_SomeE
        dest!: effect_command [OF _ l, unfolded literal_def wide_def, simplified])
next
  case (Mode m)
  then show ?thesis using assms(5) by blast
next
  case (Set f)
  then show ?thesis using assms(1-3) by (auto simp: effect_refl)
qed

lemma effect_mode:
  assumes "core_ChangeMode (logged env) hs m (cur, r) (s, log) = Some (hr, (m', r'), (s', log'))" and "ascii_locale env"
  shows "\<exists>f. effect (of_bool (m' \<noteq> 0) - of_bool (cur \<noteq> 0) + f - of_bool (cur \<noteq> 0 \<and> m \<noteq> 0)) f log log'"
proof -
  have c: "ChangeMode (logged env) hs cur m r (s, log) = Some (hr, r', (s', log'))" and m': "m' = (if SUCCEEDED hr then m else 0)"
    using assms(1) by (auto simp: core_ChangeMode_def SUCCEEDED_iff elim!: bind_SomeE)
  consider "cur = 0" "m \<noteq> 0" | "cur = 0" "m = 0" | "cur \<noteq> 0" by blast
  then show ?thesis
  proof cases
    case 1
    then show ?thesis using effect_enter [OF _ assms(2), of hs m r s log hr r' s' log'] c m'
      by (auto simp: ChangeMode_def SUCCEEDED_iff)
  next
    case 2
    then show ?thesis using c m' effect_refl by (auto simp: ChangeMode_def)
  next
    case 3
    then have "leave_slave (logged env) hs m r (s, log) = Some (hr, r', (s', log'))" using c by (simp add: ChangeMode_def)
    from effect_leave [OF this assms(2)] show ?thesis
      using 3 m' by (intro exI [of _ "of_bool (FAILED hr \<and> m \<noteq> 0)"]) (cases "m = 0"; cases "FAILED hr"; simp add: SUCCEEDED_iff)
  qed
qed

text \<open>
  C12: over any services, in every run of a robot's operations the arm is taken as often as it is
  given back, and once more while the robot is in a slave mode, but for two exceptions that are
  counted: each change to a slave mode that the controller refuses leaves the arm taken once more, and each change
  from a slave mode straight to another one gives it back once more. So without these the arm is held
  exactly while the robot is in a slave mode, whatever the calls answer.
\<close>

theorem arm_balance:
  assumes "driven env hs c n" and "ascii_locale env"
  shows "arms (snd (rc_state c)) = of_bool (rc_mode c \<noteq> 0) + count failed_entry (snd (rc_state c)) - n"
  using assms(1)
proof induction
  case (start r j s)
  show ?case by (simp add: count_def)
next
  case (step c n p c')
  obtain s log s' log' where st: "rc_state c = (s, log)" "rc_state c' = (s', log')" by fastforce
  show ?case
  proof (cases "\<exists>m. p = Mode m")
    case True
    then obtain m hr m' r' where m: "p = Mode m" "rc_mode c' = m'"
      "core_ChangeMode (logged env) hs m (rc_mode c, rc_robot c) (s, log) = Some (hr, (m', r'), (s', log'))"
      using step.hyps(2) st by auto
    obtain f where "effect (of_bool (m' \<noteq> 0) - of_bool (rc_mode c \<noteq> 0) + f - of_bool (rc_mode c \<noteq> 0 \<and> m \<noteq> 0)) f log log'"
      using effect_mode [OF m(3) assms(2)] by blast
    then show ?thesis using step.IH st m(1,2) by (auto simp: effect_def direct_def)
  next
    case False
    then have "\<not> direct p c" by (cases p) (auto simp: direct_def)
    with False show ?thesis
      using effect_step [OF step.hyps(2) st assms(2)] step.IH st by (auto simp: effect_def)
  qed
qed

text \<open>A change from a slave mode to another one gives the arm back, and the robot stays in slave mode.\<close>

lemma direct_change_gives_arm:
  assumes "core_ChangeMode (logged env) hs m (cur, r) (s, log) = Some (hr, (m', r'), (s', log'))" and "ascii_locale env"
    and "cur \<noteq> 0" and "SUCCEEDED hr"
  shows "arms log' = arms log - 1 \<and> m' = m"
proof -
  have "leave_slave (logged env) hs m r (s, log) = Some (hr, r', (s', log'))" and m: "m' = m"
    using assms(1,3,4) by (auto simp: core_ChangeMode_def ChangeMode_def elim!: bind_SomeE)
  from effect_leave [OF this(1) assms(2)] m show ?thesis by (simp add: effect_def)
qed

text \<open>A controller that answers everything with \<open>S_OK\<close>.\<close>

definition willing_env :: "unit node_env" where
  "willing_env =
     \<lparr>exec_fn = (\<lambda>i fid va ret s. Some (S_OK, zero_variant, ())), get_tmo = (\<lambda>i s. 3000), put_tmo = (\<lambda>i n s. Some ()),
      get_rty = (\<lambda>i s. 5), put_rty = (\<lambda>i n s. Some ()), mbstowcs = (\<lambda>s. Some (wide s)), wcstombs = (\<lambda>w. None)\<rparr>"

lemma willing_call:
  assumes "list_all wf_variant vs"
  shows "object_call (logged willing_env) [7, 8] SRV_ACT fid vs ((), log) =
    Some (S_OK, zero_variant, ((), log @ [\<lparr>k_srv = 0, k_fid = fid, k_args = ui4 7 # vs, k_code = S_OK\<rparr>]))"
proof -
  have all: "those (map copy_of ws) = Some ws" if "list_all wf_variant ws" for ws
    using that by (induction ws) (simp_all add: copy_of_wf)
  have "wf_variant (ui4 7)"
    by (simp add: ui4_def wf_variant.simps wf_body_def is_array_def scalar_type_def copyable_def)
  then have "those (map copy_of (ui4 7 # vs)) = Some (ui4 7 # vs)" using assms by (intro all) simp
  then show ?thesis by (simp only: object_call_def handle_of_def) (simp add: logged_def willing_env_def)
qed

lemma wf_literal: "0 \<notin> set (wide s) \<Longrightarrow> length s \<le> 16382 \<Longrightarrow> wf_variant (literal s)"
  by (simp add: literal_def wf_variant.simps wf_body_def is_array_def wf_bstr_def wide_def)

lemma i4_pair: "\<exists>v. i4_vector 2 [a, b] = Some v \<and> wf_variant v"
  using filled_small [of 2 4 VT_I4 "le_bytes 4 a @ le_bytes 4 b"]
  by (simp add: i4_vector_def sa_elem_size_def wf_variant.simps wf_body_def is_array_def wf_array_def wf_data_def)

lemma willing_ascii: "ascii_locale willing_env"
  by (simp add: ascii_locale_def willing_env_def)

lemma willing_enters:
  "\<exists>c. driven willing_env [7, 8] c 0 \<and> rc_mode c = 0x202 \<and> count failed_entry (snd (rc_state c)) = 0"
proof -
  let ?c0 = "\<lparr>rc_mode = 0, rc_robot = new_robot, rc_joint = [], rc_state = ((), [])\<rparr>"
  have wf: "wf_variant (literal n)" if "n \<in> {''slvSendFormat'', ''slvRecvFormat'', ''slvChangeMode'', ''TakeArm''}" for n
    using that by (auto simp: wide_def intro!: wf_literal)
  have sm: "ExecSlaveMode (logged willing_env) [7, 8] n k 0 ((), log) =
      Some (S_OK, ((), log @ [\<lparr>k_srv = 0, k_fid = 64, k_args = [ui4 7, literal n, i4 k], k_code = S_OK\<rparr>]))"
    if "n \<in> {''slvSendFormat'', ''slvRecvFormat'', ''slvChangeMode''}" for n k log
    using that wf [of n] command_name(1) [OF willing_ascii, of n]
    by (auto simp: ExecSlaveMode_def willing_call coded_def)
  obtain a where a: "i4_vector 2 [0, 1] = Some a" "wf_variant a" using i4_pair by blast
  have ta: "ExecTakeArm (logged willing_env) [7, 8] new_robot ((), log) =
      Some (S_OK, ((), log @ [\<lparr>k_srv = 0, k_fid = 64, k_args = [ui4 7, literal ''TakeArm'', a], k_code = S_OK\<rparr>]))" for log
    using a wf [of "''TakeArm''"] by (simp add: ExecTakeArm_def new_robot_def willing_call coded_def)
  obtain r' log where e: "enter_slave (logged willing_env) [7, 8] 0x202 new_robot ((), []) = Some (S_OK, r', ((), log))"
    "count failed_entry log = 0"
    by (simp add: enter_slave_def sm ta new_robot_def [THEN arg_cong [where f = m_tsfmt]] del: append.simps)
      (simp add: logged_def willing_env_def count_def failed_entry_def)
  have st: "robot_step (logged willing_env) [7, 8] (Mode 0x202) ?c0 =
      Some (?c0\<lparr>rc_mode := 0x202, rc_robot := r', rc_state := ((), log)\<rparr>)"
    using e(1) by (simp add: core_ChangeMode_def ChangeMode_def)
  have "driven willing_env [7, 8] (?c0\<lparr>rc_mode := 0x202, rc_robot := r', rc_state := ((), log)\<rparr>) 0"
    using driven.step [OF driven.start st] by (simp add: direct_def)
  then show ?thesis using e(2) by fastforce
qed

lemma arm_balance_witness: "\<exists>c. driven willing_env [7, 8] c 0 \<and> arms (snd (rc_state c)) = 1"
proof -
  obtain c where "driven willing_env [7, 8] c 0" "rc_mode c = 0x202" "count failed_entry (snd (rc_state c)) = 0"
    using willing_enters by blast
  then show ?thesis using arm_balance [OF _ willing_ascii] by fastforce
qed

end
