(* ===== verification/RobotMode.thy ===== *)
theory RobotMode
  imports RobotArm BcapHandles ServiceLedger
begin

text \<open>
  The settings of the connection that moves the robot, through slave mode: shorter time-outs while it
  lasts, and the old ones after it. The interface \<open>motion_settings\<close> has the laws of the services this
  rests on, \<open>bcap\<close> is the program's node.
\<close>

section \<open>Slave mode over any services\<close>

text \<open>A sequence of motions, whatever their codes are.\<close>

fun motions ::
  "'s node_env \<Rightarrow> u32 list \<Rightarrow> i32 \<Rightarrow> u64 list list \<Rightarrow> robot \<Rightarrow> u64 list \<Rightarrow> 's \<Rightarrow> (robot \<times> u64 list \<times> 's) option" where
  "motions env hs mode [] r joint s = Some (r, joint, s)"
| "motions env hs mode (p # ps) r joint s = do {
     (_, r', joint', s') \<leftarrow> ExecSlaveMove env hs mode r p joint s;
     motions env hs mode ps r' joint' s'
   }"

definition settings :: "'s node_env \<Rightarrow> 's \<Rightarrow> u32 \<times> u32" where
  "settings env s = (get_tmo env SRV_ACT s, get_rty env SRV_ACT s)"

text \<open>The laws of the services; \<open>lim\<close> is the value a number of attempts is limited to.\<close>

locale motion_settings =
  fixes env :: "'s node_env" and I :: "'s \<Rightarrow> bool" and lim :: "u32 \<Rightarrow> u32"
  assumes exec: "I s \<Longrightarrow> exec_fn env i ID_ROBOT_EXECUTE va ret s = Some (hr, ret', s') \<Longrightarrow>
      I s' \<and> settings env s' = settings env s"
    and tmo: "I s \<Longrightarrow> put_tmo env SRV_ACT n s = Some s' \<Longrightarrow> I s' \<and> settings env s' = (n, get_rty env SRV_ACT s)"
    and rty: "I s \<Longrightarrow> put_rty env SRV_ACT n s = Some s' \<Longrightarrow> I s' \<and> settings env s' = (get_tmo env SRV_ACT s, lim n)"
    and got: "I s \<Longrightarrow> lim (get_rty env SRV_ACT s) = get_rty env SRV_ACT s"
begin

lemma call_keeps:
  "object_call env hs i ID_ROBOT_EXECUTE vs s = Some (hr, ret, s') \<Longrightarrow> I s \<Longrightarrow> I s' \<and> settings env s' = settings env s"
  using exec by (auto simp: object_call_def elim!: bind_SomeE)

lemma mode_keeps: "ExecSlaveMode env hs name n opt s = Some (hr, s') \<Longrightarrow> I s \<Longrightarrow> I s' \<and> settings env s' = settings env s"
  using call_keeps by (auto simp: ExecSlaveMode_def coded_def elim!: bind_SomeE)

lemma take_keeps: "ExecTakeArm env hs r s = Some (hr, s') \<Longrightarrow> I s \<Longrightarrow> I s' \<and> settings env s' = settings env s"
  using call_keeps by (auto simp: ExecTakeArm_def coded_def elim!: bind_SomeE)

lemma give_keeps: "ExecGiveArm env hs s = Some (hr, s') \<Longrightarrow> I s \<Longrightarrow> I s' \<and> settings env s' = settings env s"
  using call_keeps by (auto simp: ExecGiveArm_def coded_def)

lemma move_keeps:
  assumes "ExecSlaveMove env hs mode r p joint s = Some (hr, r', joint', s')" and "I s"
  shows "I s' \<and> settings env s' = settings env s \<and> m_memTimeout r' = m_memTimeout r \<and> m_memRetry r' = m_memRetry r"
  using assms call_keeps memory_kept
  by (auto simp: ExecSlaveMove_def split: if_splits elim!: bind_SomeE)

lemma motions_keep:
  "motions env hs mode ps r joint s = Some (r', joint', s') \<Longrightarrow> I s \<Longrightarrow>
   I s' \<and> settings env s' = settings env s \<and> m_memTimeout r' = m_memTimeout r \<and> m_memRetry r' = m_memRetry r"
proof (induction ps arbitrary: r joint s)
  case (Cons p ps)
  then obtain hr r1 j1 s1 where m: "ExecSlaveMove env hs mode r p joint s = Some (hr, r1, j1, s1)"
    and rest: "motions env hs mode ps r1 j1 s1 = Some (r', joint', s')"
    by (auto elim!: bind_SomeE)
  show ?case using Cons.IH [OF rest] move_keeps [OF m Cons.prems(2)] by auto
qed simp

lemma entered:
  assumes "enter_slave env hs m r s = Some (hr, r', s')" and "I s"
  shows "I s' \<and> (if SUCCEEDED hr
     then (m_memTimeout r', m_memRetry r') = settings env s \<and>
       settings env s' = (if flagged m SLVMODE_SYNC_WAIT then 16 else 8, lim 3)
     else settings env s' = settings env s)"
  using assms(1) unfolding enter_slave_def
proof (cases rule: guarded)
  case failed
  then show ?thesis using mode_keeps [OF failed(1) assms(2)] by (simp add: SUCCEEDED_iff)
next
  case (passed h1 s1)
  note k1 = mode_keeps [OF passed(1) assms(2)]
  show ?thesis using passed(3)
  proof (cases rule: guarded)
    case failed
    then show ?thesis using k1 mode_keeps [OF failed(1)] by (simp add: SUCCEEDED_iff)
  next
    case (passed h2 s2)
    note k2 = mode_keeps [OF passed(1) conjunct1 [OF k1]]
    show ?thesis using passed(3)
    proof (cases rule: guarded)
      case failed
      then show ?thesis using k1 k2 take_keeps [OF failed(1)] by (simp add: SUCCEEDED_iff)
    next
      case (passed h3 s3)
      note k3 = take_keeps [OF passed(1) conjunct1 [OF k2]]
      show ?thesis using passed(3)
      proof (cases rule: guarded)
        case failed
        then show ?thesis using k1 k2 k3 mode_keeps [OF failed(1)] by (simp add: SUCCEEDED_iff)
      next
        case (passed h4 s4)
        note k4 = mode_keeps [OF passed(1) conjunct1 [OF k3]]
        obtain s5 where s5: "put_tmo env SRV_ACT (if flagged m SLVMODE_SYNC_WAIT then 16 else 8) s4 = Some s5"
          "put_rty env SRV_ACT 3 s5 = Some s'" "hr = h4"
          "r' = r\<lparr>m_memTimeout := get_tmo env SRV_ACT s4, m_memRetry := get_rty env SRV_ACT s4\<rparr>"
          using passed(3) by (auto simp: Let_def elim!: bind_SomeE)
        show ?thesis
          using k1 k2 k3 k4 tmo [OF _ s5(1)] rty [OF _ s5(2)] s5(3,4) passed(2) by (auto simp: settings_def)
      qed
    qed
  qed
qed

lemma left:
  assumes "leave_slave env hs m r s = Some (hr, r', s')" and "I s"
  shows "I s' \<and> settings env s' = (m_memTimeout r, lim (m_memRetry r))"
proof -
  obtain s1 s2 s3 h where st: "put_tmo env SRV_ACT (m_memTimeout r) s = Some s1" "put_rty env SRV_ACT (m_memRetry r) s1 = Some s2"
    "ExecSlaveMode env hs ''slvChangeMode'' m 0 s2 = Some (hr, s3)" "ExecGiveArm env hs s3 = Some (h, s')"
    using assms(1) by (auto simp: leave_slave_def elim!: bind_SomeE)
  show ?thesis
    using tmo [OF assms(2) st(1)] rty [OF _ st(2)] mode_keeps [OF st(3)] give_keeps [OF st(4)]
    by (auto simp: settings_def)
qed

lemma restores:
  assumes "core_ChangeMode env hs m (0, r) s = Some (hr1, (m1, r1), s1)"
    and "motions env hs m1 ps r1 joint s1 = Some (r2, joint2, s2)"
    and "core_ChangeMode env hs 0 (m1, r2) s2 = Some (hr3, cr3, s3)" and "I s"
  shows "settings env s2 = (if m1 \<noteq> 0 then (if flagged m SLVMODE_SYNC_WAIT then 16 else 8, lim 3) else settings env s) \<and>
    settings env s3 = settings env s"
proof -
  have c1: "ChangeMode env hs 0 m r s = Some (hr1, r1, s1)" and m1: "m1 = (if SUCCEEDED hr1 then m else 0)"
    using assms(1) by (auto simp: core_ChangeMode_def SUCCEEDED_iff elim!: bind_SomeE)
  have k1: "I s1 \<and> (if m1 \<noteq> 0 then (m_memTimeout r1, m_memRetry r1) = settings env s \<and>
       settings env s1 = (if flagged m SLVMODE_SYNC_WAIT then 16 else 8, lim 3)
     else settings env s1 = settings env s)"
    using c1 m1 assms(4) entered [of hs m r s hr1 r1 s1] by (auto simp: ChangeMode_def split: if_splits)
  have k2: "I s2 \<and> settings env s2 = settings env s1 \<and> m_memTimeout r2 = m_memTimeout r1 \<and> m_memRetry r2 = m_memRetry r1"
    using motions_keep [OF assms(2)] k1 by blast
  have "settings env s3 = (if m1 = 0 then settings env s2 else (m_memTimeout r2, lim (m_memRetry r2)))"
    using assms(3) left [of hs 0 r2 s2] k2 by (auto simp: core_ChangeMode_def ChangeMode_def elim!: bind_SomeE)
  then show ?thesis using k1 k2 got [OF assms(4)] by (auto simp: settings_def split: if_splits)
qed

end

section \<open>The node of the program\<close>

text \<open>
  Where the settings can be changed: locks and the time-out of a socket do not fail, and the service has an
  open connection.
\<close>

definition quiet_env :: "'w cenv \<Rightarrow> bool" where
  "quiet_env env \<longleftrightarrow>
     (\<forall>i w. SUCCEEDED (fst (env_lock env i w))) \<and> (\<forall>f h n w. SUCCEEDED (fst (env_set_timeout env f h n w)))"

definition live :: "'w cenv \<Rightarrow> i32 \<Rightarrow> 'w node \<Rightarrow> bool" where
  "live env ct nd \<longleftrightarrow>
     quiet_env env \<and> client_ok (node_client nd) \<and>
     (\<exists>s i c. service_at SRV_ACT nd = Some s \<and> check_address (conns (node_client nd)) (m_fd s) = Some (i, c) \<and>
        conn_type (device c) = ct)"

definition conn_settings :: "conn_bcap_client \<Rightarrow> conn_param_common \<times> u32" where
  "conn_settings c = (device c, retry c)"

lemma send_receive_settings:
  assumes "send_receive env h p q st = Some (hr, q', st')"
  shows "map conn_settings (conns st') = map conn_settings (conns st)"
proof (cases "check_address (conns st) h")
  case None
  then show ?thesis using assms by (simp add: send_receive_def)
next
  case (Some a)
  then obtain i c where a: "check_address (conns st) h = Some (i, c)" by (cases a) auto
  have c: "conns st ! i = c \<and> i < length (conns st)"
    using a by (auto simp: check_address_def Let_def split: if_splits)
  obtain hr0 w where l: "env_lock env i (cworld st) = (hr0, w)" by fastforce
  show ?thesis
  proof (cases "FAILED hr0")
    case True
    then show ?thesis using assms a l by (auto simp: send_receive_def)
  next
    case False
    then obtain p1 q1 hr' c' q2 w' where
      t: "try_send env (unat (retry c)) hr0 p1 c q1 w = Some (hr', c', q2, w')"
      and st': "st' = st\<lparr>conns := (conns st)[i := c'], cworld := env_unlock env i w'\<rparr>"
      using assms a l by (auto simp: send_receive_def Let_def)
    have "conn_settings c' = conn_settings (conns st ! i)"
      using try_send_conn [OF t] c by (simp add: conn_settings_def)
    then show ?thesis using c unfolding st' by (simp add: map_update list_update_same_conv)
  qed
qed

lemma invoke_settings:
  assumes "invoke_function env fd fid n fmt va st = Some (hr, out, st')"
  shows "map conn_settings (conns st') = map conn_settings (conns st)"
proof -
  have "st' = st \<or> (\<exists>p q hr1 q'. send_receive env fd p q st = Some (hr1, q', st'))"
    using assms unfolding invoke_function_def Let_def
    by (auto split: if_splits option.splits list.splits)
  then show ?thesis using send_receive_settings by blast
qed

lemma check_settings:
  assumes "map conn_settings (conns st') = map conn_settings (conns st)" and "check_address (conns st) h = Some (i, c)"
  shows "\<exists>c'. check_address (conns st') h = Some (i, c') \<and> conn_settings c' = conn_settings c"
proof -
  have l: "length (conns st') = length (conns st)" using assms(1) by (metis length_map)
  have i: "i < length (conns st)" "c = conns st ! i" "i = nat (sint h - 1)" "sock (device c) \<noteq> 0"
    using assms(2) by (auto simp: check_address_def Let_def split: if_splits)
  have s: "conn_settings (conns st' ! i) = conn_settings c" using assms(1) i l by (metis nth_map)
  then have "sock (device (conns st' ! i)) \<noteq> 0" using i(4) by (simp add: conn_settings_def)
  then show ?thesis using assms(2) i l s by (auto simp: check_address_def Let_def split: if_splits)
qed

text \<open>\<open>Execute\<close> of a robot leaves the service and its settings alone.\<close>

lemma exec_robot_settings:
  assumes "ExecFunction env ID_ROBOT_EXECUTE va ret s st = Some (hr, ret', s', st')"
  shows "m_fd s' = m_fd s" and "m_timeout s' = m_timeout s" and "m_retry s' = m_retry s"
    and "map conn_settings (conns st') = map conn_settings (conns st)" and "client_ok st \<Longrightarrow> client_ok st'"
proof -
  show "m_fd s' = m_fd s" "m_timeout s' = m_timeout s" "m_retry s' = m_retry s"
    using exec_function_ledger [OF assms] by simp_all
  obtain kh where e: "exec_controller env (m_fd s) ID_ROBOT_EXECUTE va ret st = Some (hr, ret', kh, st')"
    using assms by (auto simp: ExecFunction_def elim!: bind_SomeE)
  have "st' = st \<or> (\<exists>n fmt vs hr1 out. invoke_function env (m_fd s) ID_ROBOT_EXECUTE n fmt vs st = Some (hr1, out, st'))"
    using e by (auto simp: exec_controller_def exec_extension_def exec_file_def exec_robot_def at_args_def returned_def
        bCap_RobotExecute_def split: if_splits elim!: bind_SomeE)
  then show "map conn_settings (conns st') = map conn_settings (conns st)" "client_ok st \<Longrightarrow> client_ok st'"
    using invoke_settings client_ok_invoke by blast+
qed

abbreviation (input) bcap_lim :: "i32 \<Rightarrow> u32 \<Rightarrow> u32" where
  "bcap_lim ct n \<equiv> the (clamp_retry ct n)"

lemma live_parts:
  assumes "live env ct nd"
  obtains s i c where "service_at SRV_ACT nd = Some s" "node_services nd ! 0 = s" "0 < length (node_services nd)"
    "check_address (conns (node_client nd)) (m_fd s) = Some (i, c)"
    "conn_type (device c) = ct" "quiet_env env" "client_ok (node_client nd)" "conn_ok c" "used_conn c"
  using assms check_address_ok unfolding live_def service_at_def by (metis option.distinct(1) option.inject)

lemma live_settings:
  assumes "service_at SRV_ACT nd = Some s" and "check_address (conns (node_client nd)) (m_fd s) = Some (i, c)"
  shows "settings (bcap_env env mb wc) nd = (timeout (device c), retry c)"
  using assms
  by (auto simp: settings_def bcap_env_def get_Timeout_def get_Retry_def bCap_GetTimeout_def bCap_GetRetry_def service_at_def
      split: if_splits)

lemma bcap_exec_law:
  assumes l: "live env ct nd" and e: "exec_fn (bcap_env env mb wc) j ID_ROBOT_EXECUTE va ret nd = Some (hr, ret', nd')"
  shows "live env ct nd' \<and> settings (bcap_env env mb wc) nd' = settings (bcap_env env mb wc) nd"
proof -
  obtain s i c where p: "service_at SRV_ACT nd = Some s" "0 < length (node_services nd)"
    "check_address (conns (node_client nd)) (m_fd s) = Some (i, c)"
    "conn_type (device c) = ct" "quiet_env env" "client_ok (node_client nd)"
    using live_parts [OF l] by metis
  obtain sj sj' st' where x: "service_at j nd = Some sj"
    "ExecFunction env ID_ROBOT_EXECUTE va ret sj (node_client nd) = Some (hr, ret', sj', st')" "nd' = put_service j sj' st' nd"
    using e by (auto simp: bcap_env_def elim!: bind_SomeE)
  note k = exec_robot_settings [OF x(2)]
  obtain c' where c': "check_address (conns st') (m_fd s) = Some (i, c')" "conn_settings c' = conn_settings c"
    using check_settings [OF k(4) p(3)] by blast
  have fd: "\<exists>s'. service_at SRV_ACT nd' = Some s' \<and> m_fd s' = m_fd s"
    using p(1,2) x k(1) by (cases "j = 0") (auto simp: service_at_def put_service_def split: if_splits)
  then obtain s' where s': "service_at SRV_ACT nd' = Some s'" "m_fd s' = m_fd s" by blast
  have ct: "node_client nd' = st'" using x(3) by (simp add: put_service_def)
  have "live env ct nd'"
    unfolding live_def ct using p(4-6) k(5) s' c' by (auto simp: conn_settings_def)
  moreover have "settings (bcap_env env mb wc) nd' = settings (bcap_env env mb wc) nd"
    using live_settings [OF p(1,3)] live_settings [OF s'(1), of i c'] c' s'(2) ct by (simp add: conn_settings_def)
  ultimately show ?thesis ..
qed

lemma SetTimeout_quiet:
  assumes "bCap_SetTimeout env h n st = Some (hr, st')" and "check_address (conns st) h = Some (i, c)" and "quiet_env env"
  shows "SUCCEEDED hr"
proof -
  obtain l w where lk: "env_lock env i (cworld st) = (l, w)" by fastforce
  have "SUCCEEDED (fst (env_lock env i (cworld st)))" using assms(3) unfolding quiet_env_def by blast
  then have sl: "SUCCEEDED l" using lk by simp
  then obtain f where f: "dn_set_timeout (device c) = Some f"
    using assms(1,2) lk by (auto simp: bCap_SetTimeout_def split: option.splits if_splits)
  obtain h1 w1 where t: "env_set_timeout env f (sock (device c)) n w = (h1, w1)" by fastforce
  have "SUCCEEDED (fst (env_set_timeout env f (sock (device c)) n w))" using assms(3) unfolding quiet_env_def by blast
  then show ?thesis using assms(1,2) lk sl f t by (simp add: bCap_SetTimeout_def)
qed

lemma SetRetry_quiet:
  assumes "bCap_SetRetry env h n st = (hr, st')" and "check_address (conns st) h = Some (i, c)" and "quiet_env env"
    and "clamp_retry (conn_type (device c)) n = Some r"
  shows "SUCCEEDED hr"
proof -
  obtain l w where lk: "env_lock env i (cworld st) = (l, w)" by fastforce
  have "SUCCEEDED (fst (env_lock env i (cworld st)))" using assms(3) unfolding quiet_env_def by blast
  then show ?thesis using assms(1,2,4) lk by (simp add: bCap_SetRetry_def)
qed

lemma bcap_tmo_law:
  assumes l: "live env ct nd" and e: "put_tmo (bcap_env env mb wc) SRV_ACT n nd = Some nd'"
  shows "live env ct nd' \<and> settings (bcap_env env mb wc) nd' = (n, get_rty (bcap_env env mb wc) SRV_ACT nd)"
proof -
  obtain s i c where p: "service_at SRV_ACT nd = Some s" "0 < length (node_services nd)"
    "check_address (conns (node_client nd)) (m_fd s) = Some (i, c)"
    "conn_type (device c) = ct" "quiet_env env" "client_ok (node_client nd)"
    using live_parts [OF l] by metis
  obtain hr st' where x: "bCap_SetTimeout env (m_fd s) n (node_client nd) = Some (hr, st')"
    "nd' = put_service 0 (if SUCCEEDED hr then s\<lparr>m_timeout := n\<rparr> else s) st' nd"
    using e p(1) by (auto simp: bcap_env_def put_Timeout_def elim!: bind_SomeE)
  have hr: "SUCCEEDED hr" using SetTimeout_quiet [OF x(1) p(3,5)] .
  have len: "length (conns (node_client nd)) = 20" using client_len [OF p(6)] .
  have cs: "conns st' = (conns (node_client nd))[i := c\<lparr>device := (device c)\<lparr>timeout := n\<rparr>\<rparr>]"
    using SetTimeout_at [OF x(1) p(3) len] hr by simp
  have u: "used_conn c" using check_address_ok [OF p(6,3)] by blast
  have c': "check_address (conns st') (m_fd s) = Some (i, c\<lparr>device := (device c)\<lparr>timeout := n\<rparr>\<rparr>)"
    unfolding cs using conns.check_update [OF len p(3)] u by (simp add: used_conn_def)
  have s': "service_at SRV_ACT nd' = Some (s\<lparr>m_timeout := n\<rparr>)"
    using x(2) hr p(2) by (simp add: service_at_def put_service_def)
  have ct: "node_client nd' = st'" using x(2) by (simp add: put_service_def)
  have "live env ct nd'"
    unfolding live_def ct using p(4,5) client_ok_SetTimeout [OF x(1) p(6)] s' c' by auto
  then show ?thesis
    using live_settings [OF p(1,3), of env mb wc] live_settings [OF s', of i _ env mb wc] c' ct by (simp add: settings_def)
qed

lemma bcap_rty_law:
  assumes l: "live env ct nd" and e: "put_rty (bcap_env env mb wc) SRV_ACT n nd = Some nd'"
  shows "live env ct nd' \<and> settings (bcap_env env mb wc) nd' = (get_tmo (bcap_env env mb wc) SRV_ACT nd, bcap_lim ct n)"
proof -
  obtain s i c where p: "service_at SRV_ACT nd = Some s" "0 < length (node_services nd)"
    "check_address (conns (node_client nd)) (m_fd s) = Some (i, c)"
    "conn_type (device c) = ct" "quiet_env env" "client_ok (node_client nd)"
    using live_parts [OF l] by metis
  obtain hr st' where x: "bCap_SetRetry env (m_fd s) n (node_client nd) = (hr, st')"
    "nd' = put_service 0 (if SUCCEEDED hr then s\<lparr>m_retry := n\<rparr> else s) st' nd"
    using e p(1) by (auto simp: bcap_env_def put_Retry_def split: prod.splits)
  have ok: "conn_ok c" "used_conn c" using check_address_ok [OF p(6,3)] by auto
  then obtain r where r: "clamp_retry ct n = Some r"
    using p(4) by (auto simp: conn_ok_def device_ok_def clamp_retry_def)
  have hr: "SUCCEEDED hr" using SetRetry_quiet [OF x(1) p(3,5)] r p(4) by simp
  have len: "length (conns (node_client nd)) = 20" using client_len [OF p(6)] .
  have cs: "conns st' = (conns (node_client nd))[i := c\<lparr>retry := r\<rparr>]"
    using SetRetry_at [OF x(1) p(3)] hr r p(4) by (auto simp: SUCCEEDED_iff)
  have c': "check_address (conns st') (m_fd s) = Some (i, c\<lparr>retry := r\<rparr>)"
    unfolding cs using conns.check_update [OF len p(3)] ok(2) by (simp add: used_conn_def)
  have s': "service_at SRV_ACT nd' = Some (s\<lparr>m_retry := n\<rparr>)"
    using x(2) hr p(2) by (simp add: service_at_def put_service_def)
  have ct: "node_client nd' = st'" using x(2) by (simp add: put_service_def)
  have "live env ct nd'"
    unfolding live_def ct using p(4,5) client_ok_SetRetry [OF x(1) p(6)] s' c' by auto
  then show ?thesis
    using live_settings [OF p(1,3), of env mb wc] live_settings [OF s', of i _ env mb wc] c' ct r by (simp add: settings_def)
qed

lemma bcap_got_law:
  assumes "live env ct nd"
  shows "bcap_lim ct (get_rty (bcap_env env mb wc) SRV_ACT nd) = get_rty (bcap_env env mb wc) SRV_ACT nd"
proof -
  obtain s i c where p: "service_at SRV_ACT nd = Some s" "check_address (conns (node_client nd)) (m_fd s) = Some (i, c)"
    "conn_type (device c) = ct" "conn_ok c" "used_conn c"
    using live_parts [OF assms] by metis
  have "get_rty (bcap_env env mb wc) SRV_ACT nd = retry c"
    using live_settings [OF p(1,2), of env mb wc] by (simp add: settings_def)
  then show ?thesis
    using p(3-5) by (auto simp: conn_ok_def device_ok_def clamp_retry_def)
qed

interpretation bcap: motion_settings "bcap_env env mb wc" "live env ct" "bcap_lim ct"
  for env :: "'w cenv" and mb :: "string \<Rightarrow> wchar list option" and wc :: "wchar list \<Rightarrow> string option" and ct :: i32
  by unfold_locales (erule (1) bcap_exec_law bcap_tmo_law bcap_rty_law bcap_got_law | rule bcap_got_law)+

text \<open>
  C13: slave mode changes the settings of the connection that moves the robot for as
  long as it lasts: after a change to a slave mode that the controller accepts its time-out is 16 ms, or 8 ms
  in an asynchronous mode, and its attempts are limited to three, through any motions; after the change back to
  normal mode they are what they were before, also when that change, a motion or the first change failed.
\<close>

theorem slave_mode_restores:
  assumes "live env ct nd"
    and "core_ChangeMode (bcap_env env mb wc) hs m (0, r) nd = Some (hr1, (m1, r1), nd1)"
    and "motions (bcap_env env mb wc) hs m1 ps r1 joint nd1 = Some (r2, joint2, nd2)"
    and "core_ChangeMode (bcap_env env mb wc) hs 0 (m1, r2) nd2 = Some (hr3, cr3, nd3)"
  shows "settings (bcap_env env mb wc) nd2 =
      (if m1 \<noteq> 0 then (if flagged m SLVMODE_SYNC_WAIT then 16 else 8, the (clamp_retry ct 3))
       else settings (bcap_env env mb wc) nd) \<and>
    settings (bcap_env env mb wc) nd3 = settings (bcap_env env mb wc) nd"
  by (rule bcap.restores [OF assms(2-4,1)])

text \<open>
  A controller that accepts: the replies to the next \<open>n\<close> requests, from the number \<open>k\<close> on, are on the
  stream of the connection.
\<close>

definition ok_reply :: "u16 \<Rightarrow> bcap_packet" where
  "ok_reply k = \<lparr>serial = k, reserv = 0, func_id = S_OK, argc = 0, args = None\<rparr>"

definition accepting :: "u32 \<Rightarrow> nat \<Rightarrow> nat \<Rightarrow> net node \<Rightarrow> bool" where
  "accepting t k n nd \<longleftrightarrow>
     (\<exists>s0 s1. node_services nd = [s0, s1] \<and> m_fd s0 = 1) \<and>
     conns (node_client nd) = \<lparr>device = tcp_device 5 t None, retry = 1, conn_serial = of_nat k\<rparr> # replicate 19 zero_conn \<and>
     segments_ok (cworld (node_client nd)) \<and>
     stream (cworld (node_client nd)) = concat (map (\<lambda>j. ser_packet (ok_reply (of_nat j)) []) [k..<k + n])"

abbreviation sample_node_env :: "net node node_env" where
  "sample_node_env \<equiv> bcap_env sample_env (\<lambda>s. Some (wide s)) (\<lambda>w. None)"

lemma ok_replies: "replies_ok sample_env k [] (ok_reply k)"
proof -
  have "length (ser_args []) = 0" by code_simp
  then show ?thesis
    by (simp add: replies_ok_def reply_ok_def canonical_def stale_def ok_reply_def wf_packet_def arg_list_def sample_env_def)
qed

lemma accepted_call:
  assumes "accepting t k (Suc n) nd" and "k < 1000" and "those (map copy_of [ui4 7, literal name, v]) = Some [ui4 7, literal name, v]"
    and "request_ok [VaI4 7, VaBstr (Some (wide name @ [0])), VaVariant v]"
  shows "\<exists>nd'. object_call sample_node_env [7, 8] SRV_ACT ID_ROBOT_EXECUTE [literal name, v] nd = Some (S_OK, zero_variant, nd') \<and>
    accepting t (Suc k) n nd'"
proof -
  obtain s0 s1 where s: "node_services nd = [s0, s1]" "m_fd s0 = 1" using assms(1) by (auto simp: accepting_def)
  let ?c = "\<lparr>device = tcp_device 5 t None, retry = 1, conn_serial = of_nat k\<rparr>"
  let ?st = "node_client nd"
  have c: "conns ?st = ?c # replicate 19 zero_conn" "segments_ok (cworld ?st)"
    using assms(1) by (auto simp: accepting_def)
  have str: "stream (cworld ?st) = ser_packets [] @ ser_packet (ok_reply (of_nat k)) [] @
      concat (map (\<lambda>j. ser_packet (ok_reply (of_nat j)) []) [Suc k..<Suc k + n])"
    using assms(1) by (simp add: accepting_def upt_conv_Cons del: upt_Suc)
  have ca: "check_address (conns ?st) 1 = Some (0, ?c)"
    unfolding c by (simp add: check_address_def tcp_device_def)
  have wf: "well_formed_call ID_ROBOT_EXECUTE [VaI4 7, VaBstr (Some (wide name @ [0])), VaVariant v] (Some (OutVariant zero_variant))
      (\<lambda>env fd. bCap_RobotExecute env fd 7 (Some (wide name @ [0])) v (Some zero_variant))"
    by (simp add: bCap_RobotExecute_def call_simps)
  have res: "result_of (Some (OutVariant zero_variant)) (func_id (ok_reply (of_nat k)))
      (final_value (initial_value (Some (OutVariant zero_variant))) ([] @ [ok_reply (of_nat k)])) = Some (RetVariant zero_variant)"
    by (simp add: ok_reply_def arg_list_def)
  have "unat (of_nat (Suc k) :: u16) = Suc k" using assms(2) by (simp add: unat_of_nat take_bit_nat_eq_self del: of_nat_Suc)
  then have "(of_nat (Suc k) :: u16) \<noteq> 0" by (metis unat_0 nat.distinct(1))
  then have k1: "next_serial (of_nat k) = of_nat (Suc k)" by (simp add: next_serial_def add.commute)
  obtain w' where r: "bCap_RobotExecute sample_env 1 7 (Some (wide name @ [0])) v (Some zero_variant) ?st =
      Some (S_OK, Some (RetVariant zero_variant), ?st\<lparr>conns := (conns ?st)[0 := ?c\<lparr>conn_serial := of_nat (Suc k)\<rparr>], cworld := w'\<rparr>)"
    and w: "segments_ok w'" "stream w' = concat (map (\<lambda>j. ser_packet (ok_reply (of_nat j)) []) [Suc k..<Suc k + n])"
    using call_step [OF wf assms(4) c(2) _ str ca _ _ _ sample_exchange(7-9), of 5 t None] ok_replies res k1
    by (auto simp: ok_reply_def)
  have e: "ExecFunction sample_env ID_ROBOT_EXECUTE [ui4 7, literal name, v] zero_variant s0 ?st =
      Some (S_OK, zero_variant, s0, ?st\<lparr>conns := (conns ?st)[0 := ?c\<lparr>conn_serial := of_nat (Suc k)\<rparr>], cworld := w'\<rparr>)"
    using r by (simp add: ExecFunction_def exec_controller_def exec_extension_def exec_file_def exec_robot_def at_args_def
        ulVal_def ui4_def bstrVal_def bstr_ptr_def literal_def s(2) returned_def store_out_def keep_handle_def)
  have h: "handle_of [7, 8] SRV_ACT = Some 7" by (simp add: handle_of_def)
  have "object_call sample_node_env [7, 8] SRV_ACT ID_ROBOT_EXECUTE [literal name, v] nd =
      Some (S_OK, zero_variant, put_service 0 s0 (?st\<lparr>conns := (conns ?st)[0 := ?c\<lparr>conn_serial := of_nat (Suc k)\<rparr>], cworld := w'\<rparr>) nd)"
    unfolding object_call_def h Option.bind.simps assms(3) using e s(1) by (simp add: bcap_env_def service_at_def)
  moreover have "accepting t (Suc k) n
      (put_service 0 s0 (?st\<lparr>conns := (conns ?st)[0 := ?c\<lparr>conn_serial := of_nat (Suc k)\<rparr>], cworld := w'\<rparr>) nd)"
    using w s c by (simp add: put_service_def accepting_def del: upt_Suc)
  ultimately show ?thesis by blast
qed

lemma accepted_tmo:
  assumes "accepting t k n nd"
  shows "\<exists>nd'. put_tmo sample_node_env 0 m nd = Some nd' \<and> accepting m k n nd'"
  using assms
  by (auto simp: accepting_def bcap_env_def service_at_def put_Timeout_def bCap_SetTimeout_def check_address_def
      tcp_device_def sample_env_def put_service_def Let_def)

lemma accepted_rty:
  assumes "accepting t k n nd"
  shows "\<exists>nd'. put_rty sample_node_env 0 m nd = Some nd' \<and> accepting t k n nd'"
  using assms
  by (auto simp: accepting_def bcap_env_def service_at_def put_Retry_def bCap_SetRetry_def check_address_def
      tcp_device_def sample_env_def put_service_def clamp_retry_def Let_def)

lemma accepting_settings:
  "accepting t k n nd \<Longrightarrow> get_tmo sample_node_env 0 nd = t \<and> get_rty sample_node_env 0 nd = 1"
  by (auto simp: accepting_def bcap_env_def get_Timeout_def get_Retry_def bCap_GetTimeout_def bCap_GetRetry_def
      check_address_def tcp_device_def)

lemma accepting_live:
  assumes "accepting t k n nd" and "0 < k" and "k < 1000"
  shows "live sample_env CONN_TCP nd"
proof -
  have "unat (of_nat k :: u16) = k" using assms(3) by (simp add: unat_of_nat take_bit_nat_eq_self)
  then have "(of_nat k :: u16) \<noteq> 0" using assms(2) by (metis unat_0 nat_neq_iff)
  moreover have "c = zero_conn" if "c \<in> set (replicate 19 zero_conn)" for c using that by auto
  ultimately show ?thesis using assms(1)
    by (auto simp: accepting_def live_def quiet_env_def sample_env_def client_ok_def conn_ok_def device_ok_def list_all_iff
        used_conn_def tcp_device_def service_at_def check_address_def zero_conn_def zero_device_def simp del: replicate.simps)
qed

lemma accepted_texts:
  "n \<in> {''slvSendFormat'', ''slvRecvFormat'', ''slvChangeMode'', ''TakeArm'', ''GiveArm''} \<Longrightarrow> wf_variant (literal n)"
  by (auto simp: wide_def intro!: wf_literal)

lemma accepted_requests:
  assumes "n \<in> {''slvSendFormat'', ''slvRecvFormat'', ''slvChangeMode'', ''TakeArm'', ''GiveArm''}"
    and "wf_variant v" and "length (ser_args [v]) < 1000"
  shows "request_ok [VaI4 7, VaBstr (Some (wide n @ [0])), VaVariant v]"
    "those (map copy_of [ui4 7, literal n, v]) = Some [ui4 7, literal n, v]"
proof -
  have l: "wf_variant (literal n)" using assms(1) accepted_texts by blast
  have u: "wf_variant (ui4 7)"
    by (simp add: ui4_def wf_variant.simps wf_body_def is_array_def scalar_type_def copyable_def)
  have "length (ser_args [Variant VT_I4 (Bits 7), literal n]) < 1000" using assms(1) by (elim insertE emptyE; hypsubst) code_simp+
  then have len: "16 + length (ser_args [i4 7, literal n, v]) < 2 ^ 32"
    using assms(3) by (simp add: ser_args_def i4_def)
  have "map arg_variant [VaI4 7, VaBstr (Some (wide n @ [0])), VaVariant v] = [i4 7, literal n, v]"
    by (simp add: i4_def literal_def bstr_val_def)
  moreover have "wf_variants [i4 7, literal n, v]" using l assms(2) wf_i4 [of 7] by simp
  ultimately show "request_ok [VaI4 7, VaBstr (Some (wide n @ [0])), VaVariant v]"
    unfolding request_ok_def using len by simp
  show "those (map copy_of [ui4 7, literal n, v]) = Some [ui4 7, literal n, v]"
    using l u assms(2) by (simp add: copy_of_wf)
qed

lemma accepted_mode:
  assumes "accepting t k (Suc n) nd" and "k < 1000" and "name \<in> {''slvSendFormat'', ''slvRecvFormat'', ''slvChangeMode''}"
    and "m \<in> {0, 0x120, 0x124, 0x202}"
  shows "\<exists>nd'. ExecSlaveMode sample_node_env [7, 8] name m 0 nd = Some (S_OK, nd') \<and> accepting t (Suc k) n nd'"
proof -
  have "length (ser_args [i4 m]) < 1000" using assms(4) by (elim insertE emptyE; hypsubst) code_simp+
  moreover have "wf_variant (i4 m)" by (rule wf_i4)
  moreover have "string_variant sample_node_env name = Some (literal name)"
    using command_name(1) [of sample_node_env name] assms(3)
    by (auto simp: ascii_locale_def bcap_env_def logged_def string_variant_def ConvertStringToBSTR_def)
  ultimately show ?thesis
    using accepted_call [OF assms(1,2) accepted_requests(2,1), of name "i4 m"] assms(3)
    by (auto simp: ExecSlaveMode_def coded_def)
qed

lemma accepted_arm:
  assumes "accepting t k (Suc n) nd" and "k < 1000"
  shows "\<exists>nd'. ExecTakeArm sample_node_env [7, 8] new_robot nd = Some (S_OK, nd') \<and> accepting t (Suc k) n nd'"
    and "\<exists>nd'. ExecGiveArm sample_node_env [7, 8] nd = Some (S_OK, nd') \<and> accepting t (Suc k) n nd'"
proof -
  let ?v = "Variant (VT_ARRAY OR VT_I4) (ArrayP (SafeArray 1 VT_I4 4 (Some (Bytes [0,0,0,0,1,0,0,0])) 2 0))"
  have v: "i4_vector 2 [0, 1] = Some ?v" by code_simp
  have wv: "wf_variant ?v" using i4_pair [of 0 1] v by simp
  have lv: "length (ser_args [?v]) < 1000" "length (ser_args [zero_variant]) < 1000" by code_simp+
  have wz: "wf_variant zero_variant" by code_simp
  show "\<exists>nd'. ExecTakeArm sample_node_env [7, 8] new_robot nd = Some (S_OK, nd') \<and> accepting t (Suc k) n nd'"
    using accepted_call [OF assms accepted_requests(2,1) [OF _ wv lv(1)], of "''TakeArm''"] accepted_requests [OF _ wv lv(1), of "''TakeArm''"] v
    by (auto simp: ExecTakeArm_def coded_def new_robot_def)
  show "\<exists>nd'. ExecGiveArm sample_node_env [7, 8] nd = Some (S_OK, nd') \<and> accepting t (Suc k) n nd'"
    using accepted_call [OF assms accepted_requests(2,1) [OF _ wz lv(2)], of "''GiveArm''"] accepted_requests [OF _ wz lv(2), of "''GiveArm''"]
    by (auto simp: ExecGiveArm_def coded_def)
qed


lemma accepting_start: "\<exists>nd. accepting 1000 7 6 nd"
proof -
  let ?w = "\<lparr>arrived = concat (map (\<lambda>j. ser_packet (ok_reply (of_nat j)) []) [7..<7 + 6]), coming = [], sent = []\<rparr>"
  have "accepting 1000 7 6 \<lparr>node_services = [(new_service [])\<lparr>m_fd := 1\<rparr>, new_service []],
      node_client = \<lparr>conns = \<lparr>device = tcp_device 5 1000 None, retry = 1, conn_serial = of_nat 7\<rparr> # replicate 19 zero_conn,
        tcp_conn_timeout = 0, cworld = ?w\<rparr>\<rparr>"
    by (simp add: accepting_def segments_ok_def stream_def del: upt.simps replicate.simps of_nat_numeral)
  then show ?thesis by blast
qed

lemma accepted_enter:
  assumes "accepting t 7 6 nd"
  shows "\<exists>nd'. enter_slave sample_node_env [7, 8] 0x202 new_robot nd =
      Some (S_OK, new_robot\<lparr>m_memTimeout := t, m_memRetry := 1\<rparr>, nd') \<and> accepting 16 11 2 nd'"
proof -
  have fmt: "m_sendfmt new_robot = 0x120" "m_recvfmt new_robot = 0x124" "m_tsfmt new_robot = 0"
    by (simp_all add: new_robot_def)
  obtain n1 where n1: "ExecSlaveMode sample_node_env [7, 8] ''slvSendFormat'' 0x120 0 nd = Some (S_OK, n1)" "accepting t 8 5 n1"
    using accepted_mode [of t 7 5 nd "''slvSendFormat''" "0x120"] assms by auto
  obtain n2 where n2: "ExecSlaveMode sample_node_env [7, 8] ''slvRecvFormat'' 0x124 0 n1 = Some (S_OK, n2)" "accepting t 9 4 n2"
    using accepted_mode [of t 8 4 n1 "''slvRecvFormat''" "0x124"] n1(2) by auto
  obtain n3 where n3: "ExecTakeArm sample_node_env [7, 8] new_robot n2 = Some (S_OK, n3)" "accepting t 10 3 n3"
    using accepted_arm(1) [of t 9 3 n2] n2(2) by auto
  obtain n4 where n4: "ExecSlaveMode sample_node_env [7, 8] ''slvChangeMode'' 0x202 0 n3 = Some (S_OK, n4)" "accepting t 11 2 n4"
    using accepted_mode [of t 10 2 n3 "''slvChangeMode''" "0x202"] n3(2) by auto
  obtain n5 where n5: "put_tmo sample_node_env 0 16 n4 = Some n5" "accepting 16 11 2 n5"
    using accepted_tmo [OF n4(2)] by blast
  obtain n6 where n6: "put_rty sample_node_env 0 3 n5 = Some n6" "accepting 16 11 2 n6"
    using accepted_rty [OF n5(2)] by blast
  have fl: "flagged 0x202 SLVMODE_SYNC_WAIT" by (simp add: flagged_def)
  show ?thesis
    using accepting_settings [OF n4(2)] n6(2)
    by (simp add: enter_slave_def fmt n1(1) n2(1) n3(1) n4(1) n5(1) n6(1) fl Let_def)
qed

lemma accepted_leave:
  assumes "accepting t 11 2 nd"
  shows "\<exists>nd'. leave_slave sample_node_env [7, 8] 0 r nd = Some (S_OK, r, nd') \<and> accepting (m_memTimeout r) 13 0 nd'"
proof -
  obtain n1 where n1: "put_tmo sample_node_env 0 (m_memTimeout r) nd = Some n1" "accepting (m_memTimeout r) 11 2 n1"
    using accepted_tmo [OF assms] by blast
  obtain n2 where n2: "put_rty sample_node_env 0 (m_memRetry r) n1 = Some n2" "accepting (m_memTimeout r) 11 2 n2"
    using accepted_rty [OF n1(2)] by blast
  obtain n3 where n3: "ExecSlaveMode sample_node_env [7, 8] ''slvChangeMode'' 0 0 n2 = Some (S_OK, n3)" "accepting (m_memTimeout r) 12 1 n3"
    using accepted_mode [of "m_memTimeout r" 11 1 n2 "''slvChangeMode''" 0] n2(2) by (auto simp: numeral_2_eq_2)
  obtain n4 where n4: "ExecGiveArm sample_node_env [7, 8] n3 = Some (S_OK, n4)" "accepting (m_memTimeout r) 13 0 n4"
    using accepted_arm(2) [of "m_memTimeout r" 12 0 n3] n3(2) by auto
  show ?thesis using n4(2) by (simp add: leave_slave_def n1(1) n2(1) n3(1) n4(1))
qed

lemma slave_mode_restores_witness:
  "\<exists>nd nd' nd''. settings sample_node_env nd = (1000, 1) \<and> settings sample_node_env nd' = (16, 1) \<and>
     settings sample_node_env nd'' = (1000, 1)"
proof -
  obtain nd where nd: "accepting 1000 7 6 nd" using accepting_start by blast
  let ?r = "new_robot\<lparr>m_memTimeout := 1000, m_memRetry := 1\<rparr>"
  obtain nd' where e: "enter_slave sample_node_env [7, 8] 0x202 new_robot nd = Some (S_OK, ?r, nd')" "accepting 16 11 2 nd'"
    using accepted_enter [OF nd] by blast
  obtain nd'' where l: "leave_slave sample_node_env [7, 8] 0 ?r nd' = Some (S_OK, ?r, nd'')"
    using accepted_leave [OF e(2), of ?r] by blast
  have in1: "core_ChangeMode sample_node_env [7, 8] 0x202 (0, new_robot) nd = Some (S_OK, (0x202, ?r), nd')"
    using e(1) by (simp add: core_ChangeMode_def ChangeMode_def)
  have out: "core_ChangeMode sample_node_env [7, 8] 0 (0x202, ?r) nd' = Some (S_OK, (0, ?r), nd'')"
    using l by (simp add: core_ChangeMode_def ChangeMode_def)
  have live: "live sample_env CONN_TCP nd" using accepting_live [OF nd] by simp
  have "settings sample_node_env nd = (1000, 1)" using accepting_settings [OF nd] by (simp add: settings_def)
  moreover note slave_mode_restores [OF live in1 _ out, of "[]" "[]"]
  ultimately show ?thesis by (auto simp: flagged_def clamp_retry_def)
qed

end
