(* ===== verification/RobotObjects.thy ===== *)
theory RobotObjects
  imports RobotCalls Device
begin

text \<open>
  The objects of a controller in the robot node: \<open>denso_robot_core/src/denso_base.cpp\<close>,
  \<open>denso_variable.cpp\<close>, \<open>denso_task.cpp\<close>.

  \<^item> An object has a name, the handles the two services of the node got for it, and variables. A pointer
    to an object in a vector is its index.
  \<^item> The topics of ROS are values: a variable that is updated gives the message it publishes, and a
    callback takes the message that came. Messages come only while the subscription exists.
  \<^item> The XML parser is not part of the model: an element is its text, its attributes and its children.
  \<^item> The clock is an argument \<open>now\<close>, in nanoseconds.
\<close>

section \<open>Names\<close>

text \<open>\<open>strcasecmp\<close>, which folds the letters of ASCII here.\<close>

definition strcasecmp_eq :: "string \<Rightarrow> string \<Rightarrow> bool" where
  "strcasecmp_eq a b \<longleftrightarrow> map to_lower (c_str a) = map to_lower (c_str b)"

definition replace_char :: "char \<Rightarrow> char \<Rightarrow> string \<Rightarrow> string" where
  "replace_char a b s = map (\<lambda>c. if c = a then b else c) s"

text \<open>The loops of \<open>RosName\<close>: the first such character is looked for and erased until there is none.\<close>

function erase_char :: "char \<Rightarrow> string \<Rightarrow> string" where
  "erase_char c s =
     (let i = length (takeWhile (\<lambda>d. d \<noteq> c) s)
      in if i < length s then erase_char c (take i s @ drop (i + 1) s) else s)"
  by auto

termination
  by (relation "measure (\<lambda>(c, s). length s)") (auto simp: Let_def)

declare erase_char.simps [simp del]

definition RosName :: "string \<Rightarrow> string" where
  "RosName name = erase_char (CHR ''*'') (erase_char (CHR ''@'') (replace_char (CHR 0x5C) (CHR ''/'') (replace_char (CHR '' '') (CHR ''_'') name)))"

fun find_named :: "string list \<Rightarrow> string \<Rightarrow> nat option" where
  "find_named [] name = None"
| "find_named (n # ns) name = (if strcasecmp_eq n name then Some 0 else map_option Suc (find_named ns name))"

text \<open>\<open>get_Object\<close> by name and by index; an index is converted to \<open>size_t\<close>.\<close>

definition get_Object :: "string list \<Rightarrow> string \<Rightarrow> hresult \<times> nat option" where
  "get_Object names name = (case find_named names name of None \<Rightarrow> (E_HANDLE, None) | Some i \<Rightarrow> (S_OK, Some i))"

definition get_Object_at :: "'a list \<Rightarrow> i32 \<Rightarrow> hresult \<times> nat option" where
  "get_Object_at objs index =
     (if unat (scast index :: u64) < length objs then (S_OK, Some (unat (scast index :: u64))) else (E_HANDLE, None))"

section \<open>Getting objects from the controller\<close>

definition get_handle :: "'s node_env \<Rightarrow> u32 list \<Rightarrow> i32 \<Rightarrow> string \<Rightarrow> nat \<Rightarrow> 's \<Rightarrow> (hresult \<times> u32 list \<times> 's) option" where
  "get_handle env hs get_id name i s = do {
     t \<leftarrow> string_variant env name;
     (hr, ret, s') \<leftarrow> object_call env hs i get_id [t, literal ''''] s;
     if FAILED hr then Some (hr, [], s')
     else do {
       h \<leftarrow> ulVal ret;
       Some (hr, [h], s')
     }
   }"

definition AddObject :: "'s node_env \<Rightarrow> u32 list \<Rightarrow> i32 \<Rightarrow> string \<Rightarrow> 's \<Rightarrow> (hresult \<times> u32 list \<times> 's) option" where
  "AddObject env hs get_id name s = do {
     (hr, h0, s1) \<leftarrow> get_handle env hs get_id name SRV_ACT s;
     if FAILED hr then Some (hr, h0, s1)
     else do {
       (hr', h1, s2) \<leftarrow> get_handle env hs get_id name SRV_WATCH s1;
       Some (hr', h0 @ h1, s2)
     }
   }"

text \<open>The names in an array of strings, and in an array of variants up to the first that has no string.\<close>

fun variant_names :: "'s node_env \<Rightarrow> variant list \<Rightarrow> hresult \<Rightarrow> (hresult \<times> string list) option" where
  "variant_names env [] hr = Some (hr, [])"
| "variant_names env (v # vs) hr =
     (if vt v \<noteq> VT_BSTR then Some (E_FAIL, [])
      else do {
        b \<leftarrow> bstrVal v;
        n \<leftarrow> ConvertBSTRToString env b;
        (hr', ns) \<leftarrow> variant_names env vs hr;
        Some (hr', n # ns)
      })"

definition names_in :: "'s node_env \<Rightarrow> hresult \<Rightarrow> variant \<Rightarrow> (hresult \<times> string list) option" where
  "names_in env hr ret =
     (if vt ret = VT_ARRAY OR VT_BSTR then
        (case val ret of
           ArrayP a \<Rightarrow>
             (case pvData a of
                Some (Bstrs bs) \<Rightarrow>
                  if unat (cElements a) \<le> length bs
                  then map_option (Pair hr) (those (map (ConvertBSTRToString env) (take (unat (cElements a)) bs)))
                  else None
              | None \<Rightarrow> if cElements a = 0 then Some (hr, []) else None
              | _ \<Rightarrow> None)
         | _ \<Rightarrow> None)
      else if vt ret = VT_ARRAY OR VT_VARIANT then
        (case val ret of
           ArrayP a \<Rightarrow>
             (case pvData a of
                Some (Variants vs) \<Rightarrow>
                  if unat (cElements a) \<le> length vs then variant_names env (take (unat (cElements a)) vs) hr else None
              | None \<Rightarrow> if cElements a = 0 then Some (hr, []) else None
              | _ \<Rightarrow> None)
         | _ \<Rightarrow> None)
      else Some (S_FALSE, []))"

definition GetObjectNames :: "'s node_env \<Rightarrow> u32 list \<Rightarrow> i32 \<Rightarrow> 's \<Rightarrow> (hresult \<times> string list \<times> 's) option" where
  "GetObjectNames env hs func s = do {
     (hr, ret, s') \<leftarrow> object_call env hs SRV_WATCH func [literal ''''] s;
     if SUCCEEDED hr then do {
       (hr', ns) \<leftarrow> names_in env hr ret;
       Some (hr', ns, s')
     }
     else Some (hr, [], s')
   }"

section \<open>Variables\<close>

record variable =
  v_name :: string
  v_handle :: "u32 list"
  v_vt :: u16
  v_read :: bool
  v_write :: bool
  v_id :: bool
  v_duration :: int
  v_prev :: int
  v_serving :: bool

text \<open>The duration is multiplied in \<open>int\<close>.\<close>

abbreviation (input) BCAP_VAR_DEFAULT_DURATION :: i32 where "BCAP_VAR_DEFAULT_DURATION \<equiv> 1000"

definition new_variable :: "string \<Rightarrow> u32 list \<Rightarrow> u16 \<Rightarrow> bool \<Rightarrow> bool \<Rightarrow> bool \<Rightarrow> i32 \<Rightarrow> int \<Rightarrow> variable option" where
  "new_variable name hs t rd wr wid dur now =
     (if - (2 ^ 31) \<le> sint dur * 1000000 \<and> sint dur * 1000000 < 2 ^ 31
      then Some \<lparr>v_name = name, v_handle = hs, v_vt = t, v_read = rd, v_write = wr, v_id = wid,
        v_duration = sint dur * 1000000, v_prev = now, v_serving = False\<rparr>
      else None)"

definition add_variable ::
  "'s node_env \<Rightarrow> u32 list \<Rightarrow> i32 \<Rightarrow> string \<Rightarrow> u16 \<Rightarrow> bool \<Rightarrow> bool \<Rightarrow> bool \<Rightarrow> i32 \<Rightarrow> int \<Rightarrow> variable list \<Rightarrow> 's \<Rightarrow>
     (hresult \<times> variable list \<times> 's) option" where
  "add_variable env hs get_id name t rd wr wid dur now vars s = do {
     (hr, h, s') \<leftarrow> AddObject env hs get_id name s;
     if FAILED hr then Some (hr, vars, s')
     else do {
       v \<leftarrow> new_variable name h t rd wr wid dur now;
       Some (S_OK, vars @ [v], s')
     }
   }"

text \<open>By name: only when there is none of that name.\<close>

definition AddVariable ::
  "'s node_env \<Rightarrow> u32 list \<Rightarrow> i32 \<Rightarrow> string \<Rightarrow> int \<Rightarrow> variable list \<Rightarrow> 's \<Rightarrow> (hresult \<times> variable list \<times> 's) option" where
  "AddVariable env hs get_id name now vars s =
     (if fst (get_Object (map v_name vars) name) = E_HANDLE
      then add_variable env hs get_id name VT_EMPTY False False False BCAP_VAR_DEFAULT_DURATION now vars s
      else Some (S_OK, vars, s))"

text \<open>From an element of the configuration.\<close>

record xml_var =
  x_text :: "string option"
  x_attr :: "string \<Rightarrow> string option"

definition is_space :: "char \<Rightarrow> bool" where
  "is_space c \<longleftrightarrow> c = CHR '' '' \<or> of_char c \<in> {9 .. (13 :: nat)}"

text \<open>\<open>atoi\<close> on any text: white space and a plus sign may precede the number.\<close>

definition atoi_text :: "string \<Rightarrow> i32" where
  "atoi_text s =
     (let t = dropWhile is_space s
      in case t of
           c # u \<Rightarrow> if c = CHR ''+'' then (if take 1 u = ''-'' then 0 else atoi u) else atoi t
         | [] \<Rightarrow> 0)"

definition attr_flag :: "xml_var \<Rightarrow> string \<Rightarrow> bool" where
  "attr_flag x key = (case x_attr x key of None \<Rightarrow> False | Some t \<Rightarrow> strcasecmp_eq t ''true'')"

definition AddVariable_xml ::
  "'s node_env \<Rightarrow> u32 list \<Rightarrow> i32 \<Rightarrow> xml_var \<Rightarrow> int \<Rightarrow> variable list \<Rightarrow> 's \<Rightarrow> (hresult \<times> variable list \<times> 's) option" where
  "AddVariable_xml env hs get_id x now vars s = do {
     name \<leftarrow> x_text x;
     let t = (case x_attr x ''vt'' of None \<Rightarrow> VT_EMPTY | Some a \<Rightarrow> ucast (atoi_text a));
     let dur = (case x_attr x ''duration'' of None \<Rightarrow> BCAP_VAR_DEFAULT_DURATION | Some a \<Rightarrow> atoi_text a);
     add_variable env hs get_id name t (attr_flag x ''read'') (attr_flag x ''write'') (attr_flag x ''id'') dur now vars s
   }"

fun AddVariables ::
  "'s node_env \<Rightarrow> u32 list \<Rightarrow> i32 \<Rightarrow> xml_var list \<Rightarrow> int \<Rightarrow> hresult \<Rightarrow> variable list \<Rightarrow> 's \<Rightarrow>
     (hresult \<times> variable list \<times> 's) option" where
  "AddVariables env hs get_id [] now hr vars s = Some (hr, vars, s)"
| "AddVariables env hs get_id (x # xs) now hr vars s = do {
     (hr', vars', s') \<leftarrow> AddVariable_xml env hs get_id x now vars s;
     if FAILED hr' then Some (hr', vars', s') else AddVariables env hs get_id xs now hr' vars' s'
   }"

section \<open>Messages\<close>

datatype message =
  Int32 i32
  | Float32 u32
  | Float64 u64
  | Text string
  | Flag bool
  | Float32s "u32 list"
  | Float64s "u64 list"

definition published_type :: "u16 \<Rightarrow> bool" where
  "published_type t \<longleftrightarrow> t \<in> {VT_I4, VT_R4, VT_R8, VT_BSTR, VT_BOOL, VT_ARRAY OR VT_R4, VT_ARRAY OR VT_R8}"

definition read_f32s :: "safearray \<Rightarrow> nat \<Rightarrow> u32 list option" where
  "read_f32s a n = map_option (\<lambda>bs. map (\<lambda>i. le_word (take 4 (drop (4 * i) bs))) [0..<n]) (array_bytes a (4 * n))"

text \<open>What is published for a value of a type that is published, and nothing for any other.\<close>

definition message_of :: "'s node_env \<Rightarrow> variant \<Rightarrow> message option option" where
  "message_of env v =
     (let t = vt v
      in if t = VT_I4 then map_option (\<lambda>n. Some (Int32 n)) (ulVal v)
         else if t = VT_R4 then map_option (\<lambda>x. Some (Float32 x)) (ulVal v)
         else if t = VT_R8 then map_option (\<lambda>x. Some (Float64 x)) (union_bits (val v))
         else if t = VT_BSTR then do {
           b \<leftarrow> bstrVal v;
           x \<leftarrow> ConvertBSTRToString env b;
           Some (Some (Text x))
         }
         else if t = VT_BOOL then map_option (\<lambda>w. Some (Flag ((ucast w :: u16) \<noteq> 0))) (union_bits (val v))
         else if t = VT_ARRAY OR VT_R4 then
           (case val v of ArrayP a \<Rightarrow> map_option (\<lambda>xs. Some (Float32s xs)) (read_f32s a (unat (cElements a))) | _ \<Rightarrow> None)
         else if t = VT_ARRAY OR VT_R8 then
           (case val v of ArrayP a \<Rightarrow> map_option (\<lambda>xs. Some (Float64s xs)) (read_f64s a (unat (cElements a))) | _ \<Rightarrow> None)
         else Some None)"

fun variant_of :: "'s node_env \<Rightarrow> message \<Rightarrow> variant option" where
  "variant_of env (Int32 n) = Some (i4 n)"
| "variant_of env (Float32 x) = Some (r4 x)"
| "variant_of env (Float64 x) = Some (Variant VT_R8 (Bits x))"
| "variant_of env (Text s) = string_variant env s"
| "variant_of env (Flag b) = Some (Variant VT_BOOL (Bits (if b then 0xFFFF else 0)))"
| "variant_of env (Float32s xs) = f32_vector (of_nat (length xs)) xs"
| "variant_of env (Float64s xs) = f64_vector (of_nat (length xs)) xs"

section \<open>Operations of a variable\<close>

definition var_StartService :: "i32 \<Rightarrow> variable \<Rightarrow> hresult \<times> variable" where
  "var_StartService mode v =
     (if mode \<noteq> 0 then (S_FALSE, v)
      else if (v_read v \<or> v_write v) \<and> \<not> published_type (v_vt v) then (E_FAIL, v)
      else (S_OK, v\<lparr>v_serving := True\<rparr>))"

definition var_StopService :: "variable \<Rightarrow> hresult \<times> variable" where
  "var_StopService v = (S_OK, v\<lparr>v_serving := False\<rparr>)"

definition ExecGetValue :: "'s node_env \<Rightarrow> variable \<Rightarrow> 's \<Rightarrow> (hresult \<times> variant \<times> 's) option" where
  "ExecGetValue env v s = object_call env (v_handle v) SRV_WATCH ID_VARIABLE_GETVALUE [] s"

type_synonym 's var_step = "variable \<Rightarrow> 's \<Rightarrow> (message list \<times> variable \<times> 's) option"

definition var_Update :: "'s node_env \<Rightarrow> int \<Rightarrow> 's var_step" where
  "var_Update env now v s =
     (if \<not> v_serving v \<or> \<not> v_read v \<or> now - v_prev v \<le> v_duration v then Some ([], v, s)
      else do {
        (hr, ret, s') \<leftarrow> ExecGetValue env v s;
        m \<leftarrow> (if SUCCEEDED hr \<and> int (unat (vt ret)) = sint (v_vt v) then message_of env ret else Some None);
        Some ((case m of None \<Rightarrow> [] | Some x \<Rightarrow> [x]), v\<lparr>v_prev := now\<rparr>, s')
      })"

text \<open>A successful write updates the variable at once.\<close>

definition put_and_update ::
  "'s node_env \<Rightarrow> int \<Rightarrow> i32 \<Rightarrow> variant \<Rightarrow> variable \<Rightarrow> 's \<Rightarrow> (hresult \<times> message list \<times> variable \<times> 's) option" where
  "put_and_update env now fid value v s = do {
     (hr, _, s1) \<leftarrow> object_call env (v_handle v) SRV_WATCH fid [value] s;
     if SUCCEEDED hr then map_option (Pair hr) (var_Update env now v s1) else Some (hr, [], v, s1)
   }"

definition ExecPutValue ::
  "'s node_env \<Rightarrow> int \<Rightarrow> variant \<Rightarrow> variable \<Rightarrow> 's \<Rightarrow> (hresult \<times> message list \<times> variable \<times> 's) option" where
  "ExecPutValue env now value v s = put_and_update env now ID_VARIABLE_PUTVALUE value v s"

definition ExecPutID ::
  "'s node_env \<Rightarrow> int \<Rightarrow> i32 \<Rightarrow> variable \<Rightarrow> 's \<Rightarrow> (hresult \<times> message list \<times> variable \<times> 's) option" where
  "ExecPutID env now n v s = put_and_update env now ID_VARIABLE_PUTID (i4 n) v s"

definition Callback_value :: "'s node_env \<Rightarrow> int \<Rightarrow> message \<Rightarrow> 's var_step" where
  "Callback_value env now m v s = do {
     x \<leftarrow> variant_of env m;
     map_option snd (ExecPutValue env now x v s)
   }"

definition Callback_ID :: "'s node_env \<Rightarrow> int \<Rightarrow> i32 \<Rightarrow> 's var_step" where
  "Callback_ID env now n v s = map_option snd (ExecPutID env now n v s)"

section \<open>Tasks\<close>

record bcap_object =
  o_name :: string
  o_handle :: "u32 list"
  o_vars :: "variable list"
  o_serving :: bool

definition new_object :: "string \<Rightarrow> u32 list \<Rightarrow> bcap_object" where
  "new_object name hs = \<lparr>o_name = name, o_handle = hs, o_vars = [], o_serving = False\<rparr>"

definition object_AddVariable ::
  "'s node_env \<Rightarrow> i32 \<Rightarrow> string \<Rightarrow> int \<Rightarrow> bcap_object \<Rightarrow> 's \<Rightarrow> (hresult \<times> bcap_object \<times> 's) option" where
  "object_AddVariable env get_id name now ob s =
     map_option (\<lambda>(hr, vars, s'). (hr, ob\<lparr>o_vars := vars\<rparr>, s')) (AddVariable env (o_handle ob) get_id name now (o_vars ob) s)"

definition get_Variable :: "variable list \<Rightarrow> string \<Rightarrow> hresult \<times> nat option" where
  "get_Variable vars name = get_Object (map v_name vars) name"

definition InitializeBCAP ::
  "'s node_env \<Rightarrow> i32 \<Rightarrow> xml_var list \<Rightarrow> int \<Rightarrow> bcap_object \<Rightarrow> 's \<Rightarrow> (hresult \<times> bcap_object \<times> 's) option" where
  "InitializeBCAP env get_id xs now ob s =
     map_option (\<lambda>(hr, vars, s'). (hr, ob\<lparr>o_vars := vars\<rparr>, s'))
       (AddVariables env (o_handle ob) get_id xs now S_OK (o_vars ob) s)"

definition StartService :: "i32 \<Rightarrow> bcap_object \<Rightarrow> bcap_object" where
  "StartService mode ob = ob\<lparr>o_vars := map (\<lambda>v. snd (var_StartService mode v)) (o_vars ob), o_serving := True\<rparr>"

definition StopService :: "bcap_object \<Rightarrow> bcap_object" where
  "StopService ob = ob\<lparr>o_vars := map (\<lambda>v. snd (var_StopService v)) (o_vars ob), o_serving := False\<rparr>"

fun update_vars :: "'s node_env \<Rightarrow> int \<Rightarrow> variable list \<Rightarrow> 's \<Rightarrow> (message list \<times> variable list \<times> 's) option" where
  "update_vars env now [] s = Some ([], [], s)"
| "update_vars env now (v # vs) s = do {
     (ms, v', s1) \<leftarrow> var_Update env now v s;
     (ms', vs', s2) \<leftarrow> update_vars env now vs s1;
     Some (ms @ ms', v' # vs', s2)
   }"

definition object_Update :: "'s node_env \<Rightarrow> int \<Rightarrow> bcap_object \<Rightarrow> 's \<Rightarrow> (message list \<times> bcap_object \<times> 's) option" where
  "object_Update env now ob s =
     (if \<not> o_serving ob then Some ([], ob, s)
      else map_option (\<lambda>(ms, vs, s'). (ms, ob\<lparr>o_vars := vs\<rparr>, s')) (update_vars env now (o_vars ob) s))"

end
