(* ===== verification/RobotController.thy ===== *)
theory RobotController
  imports RobotObjects RobotMotion
begin

text \<open>
  The controller object and the core of the robot node: \<open>denso_robot_core/src/denso_controller.cpp\<close>, its
  classes for the kinds of controllers (\<open>denso_controller_rc8.cpp\<close>, \<open>denso_controller_rc8_cobotta.cpp\<close>,
  \<open>denso_controller_rc9.cpp\<close>), and \<open>denso_robot_core.cpp\<close>.

  \<^item> A robot is its object and the record of \<open>RobotData\<close>; the virtual functions are functions of the
    kind of the controller. The namespace of the node and the test of the cycle time are arguments.
\<close>

section \<open>The controller\<close>

datatype ctrl_kind = RC8 | RC8Cobotta | RC9

record controller =
  k_name :: string
  k_handle :: "u32 list"
  k_vars :: "variable list"
  k_robots :: "(bcap_object \<times> robot) list"
  k_tasks :: "bcap_object list"
  k_ver :: string
  k_serving :: bool

definition new_controller :: "string \<Rightarrow> controller" where
  "new_controller name =
     \<lparr>k_name = name, k_handle = [], k_vars = [], k_robots = [], k_tasks = [], k_ver = [], k_serving = False\<rparr>"

text \<open>The service that moves the robot is on UDP, the one that watches it on TCP.\<close>

definition controller_services :: "node_params \<Rightarrow> string \<Rightarrow> service list" where
  "controller_services p addr =
     [put_Type ''udp'' (parseParams p (new_service addr)), put_Type ''tcp'' (parseParams p (new_service addr))]"

definition bcap_connect :: "'w cenv \<Rightarrow> nat \<Rightarrow> 'w node \<Rightarrow> (hresult \<times> 'w node) option" where
  "bcap_connect env i nd = do {
     sv \<leftarrow> service_at i nd;
     (hr, sv', st') \<leftarrow> Connect env sv (node_client nd);
     Some (hr, put_service i sv' st' nd)
   }"

text \<open>
  \<open>std::equal\<close> with an end computed from the length of the other string: past the end of a shorter
  name, which is not defined.
\<close>

definition IsCobotta :: "string \<Rightarrow> bool option" where
  "IsCobotta robot_name = (if length robot_name < 8 then None else Some (take 8 robot_name = ''CVR038A1''))"

text \<open>The class that is chosen; \<open>None\<close> inside: the type is refused.\<close>

definition controller_kind :: "i32 \<Rightarrow> string \<Rightarrow> ctrl_kind option option" where
  "controller_kind ctrl_type robot_name =
     (if ctrl_type = 8 then map_option (\<lambda>c. Some (if c then RC8Cobotta else RC8)) (IsCobotta robot_name)
      else if ctrl_type = 9 then Some (Some RC9)
      else Some None)"

text \<open>\<open>strncmp\<close> of two strings, and the name of the robot that \<open>main\<close> chooses by it.\<close>

definition strncmp_eq :: "string \<Rightarrow> string \<Rightarrow> nat \<Rightarrow> bool" where
  "strncmp_eq a b n \<longleftrightarrow> take n (c_str a @ [CHR 0x00]) = take n (c_str b @ [CHR 0x00])"

definition core_robot_name :: "string \<Rightarrow> string" where
  "core_robot_name robot_model =
     (if strncmp_eq robot_model ''cobotta'' (length robot_model) then ''CVR038A1'' else '''')"

section \<open>Connecting\<close>

definition connect_text :: "string \<Rightarrow> string \<Rightarrow> nat \<Rightarrow> string" where
  "connect_text ns name i = (if name = '''' then '''' else ns @ name @ (if i = 0 then ''0'' else ''1''))"

definition provider :: "ctrl_kind \<Rightarrow> string" where
  "provider kind = (if kind = RC9 then ''CaoProv.DENSO.VRC9'' else ''CaoProv.DENSO.VRC'')"

definition connect_controller ::
  "'s node_env \<Rightarrow> ctrl_kind \<Rightarrow> string \<Rightarrow> string \<Rightarrow> nat \<Rightarrow> 's \<Rightarrow> (hresult \<times> variant \<times> 's) option" where
  "connect_controller env kind ns name i s = do {
     vs \<leftarrow> those (map (string_variant env) [connect_text ns name i, provider kind, ''localhost'', '''']);
     va \<leftarrow> those (map copy_of vs);
     exec_fn env i ID_CONTROLLER_CONNECT va zero_variant s
   }"

fun connect_controllers ::
  "'s node_env \<Rightarrow> ctrl_kind \<Rightarrow> string \<Rightarrow> string \<Rightarrow> nat list \<Rightarrow> hresult \<Rightarrow> u32 list \<Rightarrow> 's \<Rightarrow> (hresult \<times> u32 list \<times> 's) option" where
  "connect_controllers env kind ns name [] hr hs s = Some (hr, hs, s)"
| "connect_controllers env kind ns name (i # is) hr hs s = do {
     (hr', ret, s') \<leftarrow> connect_controller env kind ns name i s;
     if FAILED hr' then Some (hr', hs, s')
     else do {
       h \<leftarrow> ulVal ret;
       connect_controllers env kind ns name is hr' (hs @ [h]) s'
     }
   }"

type_synonym 's k_step = "controller \<Rightarrow> 's \<Rightarrow> (hresult \<times> controller \<times> 's) option"

definition controller_AddVariable :: "'s node_env \<Rightarrow> string \<Rightarrow> int \<Rightarrow> 's k_step" where
  "controller_AddVariable env name now k s =
     map_option (\<lambda>(hr, vars, s'). (hr, k\<lparr>k_vars := vars\<rparr>, s'))
       (AddVariable env (k_handle k) ID_CONTROLLER_GETVARIABLE name now (k_vars k) s)"

definition GetControllerVersion :: "'s node_env \<Rightarrow> int \<Rightarrow> 's k_step" where
  "GetControllerVersion env now k s = do {
     (hr, k1, s1) \<leftarrow> controller_AddVariable env ''@VERSION'' now k s;
     if FAILED hr then Some (hr, k1, s1)
     else do {
       i \<leftarrow> snd (get_Variable (k_vars k1) ''@VERSION'');
       (hr', ret, s2) \<leftarrow> ExecGetValue env (k_vars k1 ! i) s1;
       if FAILED hr' then Some (hr', k1, s2)
       else do {
         b \<leftarrow> bstrVal ret;
         t \<leftarrow> ConvertBSTRToString env b;
         Some (hr', k1\<lparr>k_ver := t\<rparr>, s2)
       }
     }
   }"

text \<open>The code of the loop over the services is overwritten by that of \<open>GetControllerVersion\<close>, but on an RC9.\<close>

definition AddController :: "'s node_env \<Rightarrow> ctrl_kind \<Rightarrow> string \<Rightarrow> bool \<Rightarrow> int \<Rightarrow> 's k_step" where
  "AddController env kind ns cycle_ok now k s =
     (if \<not> cycle_ok then Some (E_INVALIDARG, k, s)
      else do {
        (hr, hs, s1) \<leftarrow> connect_controllers env kind ns (k_name k) [SRV_ACT, SRV_WATCH] E_FAIL (k_handle k) s;
        if kind = RC9 then Some (hr, k\<lparr>k_handle := hs\<rparr>, s1)
        else GetControllerVersion env now (k\<lparr>k_handle := hs\<rparr>) s1
      })"

section \<open>Robots and tasks\<close>

fun add_objects ::
  "'s node_env \<Rightarrow> u32 list \<Rightarrow> i32 \<Rightarrow> i32 \<Rightarrow> xml_var list \<Rightarrow> int \<Rightarrow> string list \<Rightarrow> hresult \<Rightarrow> bcap_object list \<Rightarrow> 's \<Rightarrow>
     (hresult \<times> bcap_object list \<times> 's) option" where
  "add_objects env hs get_id var_id xs now [] hr obs s = Some (hr, obs, s)"
| "add_objects env hs get_id var_id xs now (n # names) hr obs s = do {
     (hr1, h, s1) \<leftarrow> AddObject env hs get_id n s;
     if FAILED hr1 then Some (hr1, obs, s1)
     else do {
       (hr2, ob, s2) \<leftarrow> InitializeBCAP env var_id xs now (new_object n h) s1;
       if FAILED hr2 then Some (hr2, obs, s2)
       else add_objects env hs get_id var_id xs now names hr2 (obs @ [ob]) s2
     }
   }"

definition named_objects ::
  "'s node_env \<Rightarrow> u32 list \<Rightarrow> i32 \<Rightarrow> i32 \<Rightarrow> i32 \<Rightarrow> xml_var list \<Rightarrow> int \<Rightarrow> 's \<Rightarrow> (hresult \<times> bcap_object list \<times> 's) option" where
  "named_objects env hs names_id get_id var_id xs now s = do {
     (hr, names, s1) \<leftarrow> GetObjectNames env hs names_id s;
     if SUCCEEDED hr then add_objects env hs get_id var_id xs now names hr [] s1 else Some (hr, [], s1)
   }"

definition AddRobot :: "'s node_env \<Rightarrow> xml_var list \<Rightarrow> int \<Rightarrow> 's k_step" where
  "AddRobot env xs now k s =
     map_option (\<lambda>(hr, obs, s'). (hr, k\<lparr>k_robots := k_robots k @ map (\<lambda>ob. (ob, new_robot)) obs\<rparr>, s'))
       (named_objects env (k_handle k) ID_CONTROLLER_GETROBOTNAMES ID_CONTROLLER_GETROBOT ID_ROBOT_GETVARIABLE xs now s)"

definition AddTask :: "'s node_env \<Rightarrow> xml_var list \<Rightarrow> int \<Rightarrow> 's k_step" where
  "AddTask env xs now k s =
     map_option (\<lambda>(hr, obs, s'). (hr, k\<lparr>k_tasks := k_tasks k @ obs\<rparr>, s'))
       (named_objects env (k_handle k) ID_CONTROLLER_GETTASKNAMES ID_CONTROLLER_GETTASK ID_TASK_GETVARIABLE xs now s)"

definition AddVariable_elems :: "'s node_env \<Rightarrow> xml_var list \<Rightarrow> int \<Rightarrow> 's k_step" where
  "AddVariable_elems env xs now k s =
     map_option (\<lambda>(hr, vars, s'). (hr, k\<lparr>k_vars := vars\<rparr>, s'))
       (AddVariables env (k_handle k) ID_CONTROLLER_GETVARIABLE xs now S_OK (k_vars k) s)"

text \<open>The configuration: the variables of the controller, its robot and its task, if they are there.\<close>

record xml_ctrl =
  x_vars :: "xml_var list"
  x_robot :: "xml_var list option"
  x_task :: "xml_var list option"

fun connect_services :: "(nat \<Rightarrow> 's \<Rightarrow> (hresult \<times> 's) option) \<Rightarrow> nat list \<Rightarrow> hresult \<Rightarrow> 's \<Rightarrow> (hresult \<times> 's) option" where
  "connect_services con [] hr s = Some (hr, s)"
| "connect_services con (i # is) hr s = do {
     (hr', s') \<leftarrow> con i s;
     if FAILED hr' then Some (hr', s') else connect_services con is hr' s'
   }"

definition then_step :: "(hresult \<times> controller \<times> 's) option \<Rightarrow> 's k_step \<Rightarrow> (hresult \<times> controller \<times> 's) option" where
  "then_step r f = do {
     (hr, k, s) \<leftarrow> r;
     if FAILED hr then Some (hr, k, s) else f k s
   }"

definition controller_InitializeBCAP ::
  "'s node_env \<Rightarrow> (nat \<Rightarrow> 's \<Rightarrow> (hresult \<times> 's) option) \<Rightarrow> ctrl_kind \<Rightarrow> string \<Rightarrow> bool \<Rightarrow> xml_ctrl option option \<Rightarrow> int \<Rightarrow> 's k_step" where
  "controller_InitializeBCAP env con kind ns cycle_ok file now k s = do {
     (hr, s1) \<leftarrow> connect_services con [SRV_ACT, SRV_WATCH] E_FAIL s;
     if FAILED hr then Some (hr, k, s1)
     else case file of
       None \<Rightarrow> Some (E_FAIL, k, s1)
     | Some doc \<Rightarrow>
         then_step (AddController env kind ns cycle_ok now k s1) (\<lambda>k s.
           case doc of
             None \<Rightarrow> Some (E_FAIL, k, s)
           | Some x \<Rightarrow>
               then_step (AddVariable_elems env (x_vars x) now k s) (\<lambda>k s.
                 case x_robot x of
                   None \<Rightarrow> Some (E_FAIL, k, s)
                 | Some xr \<Rightarrow>
                     then_step (AddRobot env xr now k s) (\<lambda>k s.
                       case x_task x of
                         None \<Rightarrow> Some (E_FAIL, k, s)
                       | Some xt \<Rightarrow> AddTask env xt now k s)))
   }"

section \<open>Commands of the controller\<close>

text \<open>The handle has the type of a signed integer here.\<close>

definition controller_call ::
  "'s node_env \<Rightarrow> controller \<Rightarrow> string \<Rightarrow> variant \<Rightarrow> 's \<Rightarrow> (hresult \<times> variant \<times> 's) option" where
  "controller_call env k name v s = do {
     h \<leftarrow> handle_of (k_handle k) SRV_WATCH;
     va \<leftarrow> those (map copy_of [i4 h, literal name, v]);
     exec_fn env SRV_WATCH ID_CONTROLLER_EXECUTE va zero_variant s
   }"

text \<open>\<open>sscanf\<close> with \<open>%d.%d.%d.%d\<close>: a number may be preceded by white space and a sign.\<close>

definition scan_int :: "string \<Rightarrow> (i32 \<times> string) option" where
  "scan_int s =
     (let t = dropWhile is_space s;
          (neg, u) = (case t of c # u \<Rightarrow> if c = CHR ''-'' then (True, u) else if c = CHR ''+'' then (False, u) else (False, t)
                              | [] \<Rightarrow> (False, t));
          ds = takeWhile is_digit u
      in if ds = [] then None
         else Some (atoi ((if neg then ''-'' else []) @ ds), drop (length ds) u))"

fun scan_ints :: "nat \<Rightarrow> string \<Rightarrow> i32 list" where
  "scan_ints 0 s = []"
| "scan_ints (Suc n) s =
     (case scan_int s of
        None \<Rightarrow> []
      | Some (v, r) \<Rightarrow> v # (case r of c # r' \<Rightarrow> if c = CHR ''.'' then scan_ints n r' else [] | [] \<Rightarrow> []))"

record version =
  ver_major :: i32
  ver_minor :: i32
  ver_revision :: i32
  ver_build :: i32

definition version_of :: "string \<Rightarrow> version" where
  "version_of s =
     (let xs = map (\<lambda>n. if sint n < 0 then 0 else n) (scan_ints 4 (c_str s)); at = (\<lambda>i. if i < length xs then xs ! i else 0)
      in \<lparr>ver_major = at 0, ver_minor = at 1, ver_revision = at 2, ver_build = at 3\<rparr>)"

definition newer :: "version \<Rightarrow> version \<Rightarrow> bool" where
  "newer a b \<longleftrightarrow>
     (if sint (ver_major a) > sint (ver_major b) then True
      else if sint (ver_major a) < sint (ver_major b) then False
      else if sint (ver_minor a) > sint (ver_minor b) then True
      else if sint (ver_minor a) < sint (ver_minor b) then False
      else if sint (ver_revision a) > sint (ver_revision b) then True
      else if sint (ver_revision a) < sint (ver_revision b) then False
      else sint (ver_build a) > sint (ver_build b))"

abbreviation (input) MIN_VERSION :: version where "MIN_VERSION \<equiv> version_of ''2.8.0''"

definition ExecManualResetPreparation :: "'s node_env \<Rightarrow> u32 list \<Rightarrow> 's coded_call" where
  "ExecManualResetPreparation env hs s =
     coded (object_call env hs SRV_ACT ID_ROBOT_EXECUTE [literal ''ManualResetPreparation'', zero_variant] s)"

definition ExecMotionPreparation :: "'s node_env \<Rightarrow> u32 list \<Rightarrow> 's coded_call" where
  "ExecMotionPreparation env hs s =
     coded (object_call env hs SRV_ACT ID_ROBOT_EXECUTE [literal ''MotionPreparation'', zero_variant] s)"

definition ExecAutoCal :: "'s node_env \<Rightarrow> u32 list \<Rightarrow> 's coded_call" where
  "ExecAutoCal env hs s =
     coded (object_call env hs SRV_ACT ID_ROBOT_EXECUTE [literal ''AutoCal'', zero_variant] s)"

text \<open>On a Cobotta: nothing when it is too old, otherwise the robot with index 0 has to be prepared first.\<close>

definition cobotta_prepared :: "'s node_env \<Rightarrow> controller \<Rightarrow> (u32 list \<Rightarrow> 's coded_call) \<Rightarrow> 's coded_call" where
  "cobotta_prepared env k next s =
     (if newer MIN_VERSION (version_of (k_ver k)) then Some (S_OK, s)
      else case snd (get_Object_at (k_robots k) 0) of
        None \<Rightarrow> Some (E_HANDLE, s)
      | Some i \<Rightarrow> do {
          let hs = o_handle (fst (k_robots k ! i));
          (hr, s1) \<leftarrow> ExecManualResetPreparation env hs s;
          if FAILED hr then Some (hr, s1) else next hs s1
        })"

definition ExecClearError :: "'s node_env \<Rightarrow> ctrl_kind \<Rightarrow> controller \<Rightarrow> 's coded_call" where
  "ExecClearError env kind k s =
     (if kind = RC8Cobotta
      then cobotta_prepared env k (\<lambda>hs s. coded (controller_call env k ''ClearError'' zero_variant s)) s
      else coded (controller_call env k ''ClearError'' zero_variant s))"

definition ExecResetStoState :: "'s node_env \<Rightarrow> ctrl_kind \<Rightarrow> controller \<Rightarrow> 's coded_call" where
  "ExecResetStoState env kind k s =
     (case kind of
        RC8 \<Rightarrow> Some (0, s)
      | RC8Cobotta \<Rightarrow> cobotta_prepared env k (\<lambda>hs. ExecMotionPreparation env hs) s
      | RC9 \<Rightarrow> coded (controller_call env k ''ResetStoState'' zero_variant s))"

text \<open>What the output arguments get, when they get anything.\<close>

definition ExecGetCurErrorCount :: "'s node_env \<Rightarrow> controller \<Rightarrow> 's \<Rightarrow> (hresult \<times> i32 option \<times> 's) option" where
  "ExecGetCurErrorCount env k s = do {
     (hr, ret, s') \<leftarrow> controller_call env k ''GetCurErrorCount'' zero_variant s;
     if FAILED hr \<or> vt ret \<noteq> VT_I4 then Some (hr, None, s')
     else do {
       n \<leftarrow> lVal ret;
       Some (hr, Some n, s')
     }
   }"

definition ExecGetCurErrorInfo ::
  "'s node_env \<Rightarrow> controller \<Rightarrow> i32 \<Rightarrow> 's \<Rightarrow> (hresult \<times> i32 option \<times> string option \<times> 's) option" where
  "ExecGetCurErrorInfo env k index s = do {
     (hr, ret, s') \<leftarrow> controller_call env k ''GetCurErrorInfo'' (i4 index) s;
     if FAILED hr \<or> vt ret \<noteq> VT_ARRAY OR VT_VARIANT then Some (hr, None, None, s')
     else case val ret of
       ArrayP a \<Rightarrow>
         (case pvData a of
            Some (Variants (v0 # v1 # vs)) \<Rightarrow> do {
              code \<leftarrow> (if vt v0 = VT_I4 then map_option Some (lVal v0) else Some None);
              text \<leftarrow> (if vt v1 = VT_BSTR then do { b \<leftarrow> bstrVal v1; map_option Some (ConvertBSTRToString env b) } else Some None);
              Some (hr, code, text, s')
            }
          | _ \<Rightarrow> None)
     | _ \<Rightarrow> None
   }"

definition ExecGetErrorDescription ::
  "'s node_env \<Rightarrow> controller \<Rightarrow> hresult \<Rightarrow> 's \<Rightarrow> (hresult \<times> string option \<times> 's) option" where
  "ExecGetErrorDescription env k code s = do {
     (hr, ret, s') \<leftarrow> controller_call env k ''GetErrorDescription'' (i4 code) s;
     if FAILED hr \<or> vt ret \<noteq> VT_BSTR then Some (hr, None, s')
     else do {
       b \<leftarrow> bstrVal ret;
       t \<leftarrow> ConvertBSTRToString env b;
       Some (hr, Some t, s')
     }
   }"

section \<open>Serving\<close>

definition controller_StartService :: "i32 \<Rightarrow> controller \<Rightarrow> controller" where
  "controller_StartService mode k =
     k\<lparr>k_robots := map (\<lambda>(ob, r). (StartService mode ob, r)) (k_robots k), k_tasks := map (StartService mode) (k_tasks k),
       k_vars := map (\<lambda>v. snd (var_StartService mode v)) (k_vars k), k_serving := True\<rparr>"

definition controller_StopService :: "controller \<Rightarrow> controller" where
  "controller_StopService k =
     k\<lparr>k_robots := map (\<lambda>(ob, r). (StopService ob, r)) (k_robots k), k_tasks := map StopService (k_tasks k),
       k_vars := map (\<lambda>v. snd (var_StopService v)) (k_vars k), k_serving := False\<rparr>"

fun update_objects :: "'s node_env \<Rightarrow> int \<Rightarrow> bcap_object list \<Rightarrow> 's \<Rightarrow> (message list \<times> bcap_object list \<times> 's) option" where
  "update_objects env now [] s = Some ([], [], s)"
| "update_objects env now (ob # obs) s = do {
     (ms, ob', s1) \<leftarrow> object_Update env now ob s;
     (ms', obs', s2) \<leftarrow> update_objects env now obs s1;
     Some (ms @ ms', ob' # obs', s2)
   }"

definition controller_Update :: "'s node_env \<Rightarrow> int \<Rightarrow> controller \<Rightarrow> 's \<Rightarrow> (message list \<times> controller \<times> 's) option" where
  "controller_Update env now k s =
     (if \<not> k_serving k then Some ([], k, s)
      else do {
        (ms1, obs, s1) \<leftarrow> update_objects env now (map fst (k_robots k)) s;
        (ms2, tasks, s2) \<leftarrow> update_objects env now (k_tasks k) s1;
        (ms3, vars, s3) \<leftarrow> update_vars env now (k_vars k) s2;
        Some (ms1 @ ms2 @ ms3, k\<lparr>k_robots := zip obs (map snd (k_robots k)), k_tasks := tasks, k_vars := vars\<rparr>, s3)
      })"

section \<open>The core\<close>

record core =
  co_mode :: i32
  co_ctrl :: controller

text \<open>
  \<open>ChangeMode\<close>: the services stop, the robot with index 0 changes its mode, and the services start
  again when the caller wants them and the mode is normal.
\<close>

definition core_change :: "'s node_env \<Rightarrow> i32 \<Rightarrow> bool \<Rightarrow> core \<Rightarrow> 's \<Rightarrow> (hresult \<times> core \<times> 's) option" where
  "core_change env mode service c s = do {
     let k = controller_StopService (co_ctrl c);
     (hr, (m, k'), s') \<leftarrow>
       (case snd (get_Object_at (k_robots k) 0) of
          None \<Rightarrow> Some (E_HANDLE, (0, k), s)
        | Some i \<Rightarrow> do {
            let ob = fst (k_robots k ! i);
            (hr, (m, r), s') \<leftarrow> core_ChangeMode env (o_handle ob) mode (co_mode c, snd (k_robots k ! i)) s;
            Some (hr, (m, k\<lparr>k_robots := (k_robots k)[i := (ob, r)]\<rparr>), s')
          });
     Some (hr, \<lparr>co_mode = m, co_ctrl = (if m = 0 \<and> service then controller_StartService m k' else k')\<rparr>, s')
   }"

end
