(* ===== verification/RobotTree.thy ===== *)
theory RobotTree
  imports RobotController RobotArm
begin

text \<open>
  What holds of the objects of the robot node: names, the handles of the tree of objects in every run of the
  core, what becomes of a controller that refuses the connection, and values that are written to a variable
  and published.
\<close>

section \<open>Names\<close>

lemma erase_char_filter: "erase_char c s = filter (\<lambda>d. d \<noteq> c) s"
proof (induction c s rule: erase_char.induct)
  case (1 c s)
  let ?i = "length (takeWhile (\<lambda>d. d \<noteq> c) s)"
  show ?case
  proof (cases "?i < length s")
    case True
    have s: "s = take ?i s @ s ! ?i # drop (?i + 1) s" using id_take_nth_drop [OF True] by simp
    have "s ! ?i = c" using nth_length_takeWhile [OF True] by simp
    then have "filter (\<lambda>d. d \<noteq> c) s = filter (\<lambda>d. d \<noteq> c) (take ?i s @ drop (?i + 1) s)"
      by (subst s) simp
    then show ?thesis using 1 [OF refl True] True by (subst erase_char.simps) (simp add: Let_def)
  next
    case False
    then have "takeWhile (\<lambda>d. d \<noteq> c) s = s"
      by (metis length_takeWhile_le linorder_le_less_linear takeWhile_eq_take take_all)
    then have "filter (\<lambda>d. d \<noteq> c) s = s" by (metis filter_id_conv takeWhile_eq_all_conv)
    then show ?thesis using False by (subst erase_char.simps) (simp add: Let_def)
  qed
qed

text \<open>The name of a topic: what a topic may not contain is replaced or left out.\<close>

lemma RosName_value:
  "RosName name =
     map (\<lambda>c. if c = CHR '' '' then CHR ''_'' else if c = CHR 0x5C then CHR ''/'' else c)
       (filter (\<lambda>c. c \<noteq> CHR ''@'' \<and> c \<noteq> CHR ''*'') name)"
  unfolding RosName_def erase_char_filter replace_char_def
  by (induction name) auto

lemma find_named_Some: "find_named ns name = Some i \<Longrightarrow> i < length ns \<and> strcasecmp_eq (ns ! i) name"
  by (induction ns arbitrary: i) (auto split: if_splits)

lemma find_named_None: "find_named ns name = None \<longleftrightarrow> list_all (\<lambda>n. \<not> strcasecmp_eq n name) ns"
  by (induction ns) auto

section \<open>Handles\<close>

text \<open>
  \<open>given\<close> says which handles a service gives for which request: whatever a successful call returns
  satisfies it. An object has the handles \<open>hs\<close> from the object with the handles \<open>ps\<close> if there is one for
  each of the two services, which that service gave for the name of the object and the parent's handle of
  that service.
\<close>

type_synonym grant = "nat \<Rightarrow> i32 \<Rightarrow> variant list \<Rightarrow> u32 \<Rightarrow> bool"

definition gives :: "'s node_env \<Rightarrow> grant \<Rightarrow> bool" where
  "gives env given \<longleftrightarrow> (\<forall>i fid va s hr ret s' h. exec_fn env i fid va zero_variant s = Some (hr, ret, s') \<longrightarrow>
     \<not> FAILED hr \<longrightarrow> ulVal ret = Some h \<longrightarrow> given i fid va h)"

definition name_args :: "'s node_env \<Rightarrow> u32 \<Rightarrow> string \<Rightarrow> variant list option" where
  "name_args env p name = do { t \<leftarrow> string_variant env name; those (map copy_of [ui4 p, t, literal '''']) }"

definition got_one :: "'s node_env \<Rightarrow> grant \<Rightarrow> nat \<Rightarrow> i32 \<Rightarrow> u32 \<Rightarrow> string \<Rightarrow> u32 \<Rightarrow> bool" where
  "got_one env given i fid p name h \<longleftrightarrow> (\<exists>va. name_args env p name = Some va \<and> given i fid va h)"

definition got :: "'s node_env \<Rightarrow> grant \<Rightarrow> i32 \<Rightarrow> u32 list \<Rightarrow> string \<Rightarrow> u32 list \<Rightarrow> bool" where
  "got env given fid ps name hs \<longleftrightarrow> (\<exists>h0 h1. hs = [h0, h1] \<and> 2 \<le> length ps \<and>
     got_one env given 0 fid (ps ! 0) name h0 \<and> got_one env given 1 fid (ps ! 1) name h1)"

definition vars_ok :: "'s node_env \<Rightarrow> grant \<Rightarrow> i32 \<Rightarrow> u32 list \<Rightarrow> variable list \<Rightarrow> bool" where
  "vars_ok env given fid ps vs \<longleftrightarrow> list_all (\<lambda>v. got env given fid ps (v_name v) (v_handle v)) vs"

text \<open>An object got with the function \<open>fid\<close>, and its variables with \<open>vid\<close>.\<close>

definition object_ok :: "'s node_env \<Rightarrow> grant \<Rightarrow> i32 \<Rightarrow> i32 \<Rightarrow> u32 list \<Rightarrow> bcap_object \<Rightarrow> bool" where
  "object_ok env given fid vid ps ob \<longleftrightarrow>
     got env given fid ps (o_name ob) (o_handle ob) \<and> vars_ok env given vid (o_handle ob) (o_vars ob)"

definition connected :: "'s node_env \<Rightarrow> grant \<Rightarrow> ctrl_kind \<Rightarrow> string \<Rightarrow> string \<Rightarrow> nat \<Rightarrow> u32 \<Rightarrow> bool" where
  "connected env given kind ns name i h \<longleftrightarrow> (\<exists>vs va.
     those (map (string_variant env) [connect_text ns name i, provider kind, ''localhost'', '''']) = Some vs \<and>
     those (map copy_of vs) = Some va \<and> given i ID_CONTROLLER_CONNECT va h)"

definition controller_ok :: "'s node_env \<Rightarrow> grant \<Rightarrow> ctrl_kind \<Rightarrow> string \<Rightarrow> controller \<Rightarrow> bool" where
  "controller_ok env given kind ns k \<longleftrightarrow>
     (\<exists>h0 h1. k_handle k = [h0, h1] \<and> connected env given kind ns (k_name k) 0 h0 \<and> connected env given kind ns (k_name k) 1 h1) \<and>
     vars_ok env given ID_CONTROLLER_GETVARIABLE (k_handle k) (k_vars k) \<and>
     list_all (\<lambda>p. object_ok env given ID_CONTROLLER_GETROBOT ID_ROBOT_GETVARIABLE (k_handle k) (fst p)) (k_robots k) \<and>
     list_all (object_ok env given ID_CONTROLLER_GETTASK ID_TASK_GETVARIABLE (k_handle k)) (k_tasks k)"

lemma get_handle_got:
  assumes "gives env given" and "get_handle env ps fid name i s = Some (hr, hs, s')" and "\<not> FAILED hr"
  shows "\<exists>h. hs = [h] \<and> i < length ps \<and> got_one env given i fid (ps ! i) name h"
proof -
  obtain t ret h where t: "string_variant env name = Some t" "object_call env ps i fid [t, literal ''''] s = Some (hr, ret, s')"
    "ulVal ret = Some h" "hs = [h]"
    using assms(2,3) by (auto simp: get_handle_def split: if_splits elim!: bind_SomeE)
  obtain p va where t5: "handle_of ps i = Some p"
    and va: "those (map copy_of [ui4 p, t, literal '''']) = Some va" "exec_fn env i fid va zero_variant s = Some (hr, ret, s')"
    using t(2) unfolding object_call_def by (elim bind_SomeE) blast
  have "given i fid va h" using assms(1,3) va(2) t(3) unfolding gives_def by blast
  moreover have "i < length ps \<and> p = ps ! i" using t5 by (auto simp: handle_of_def split: if_splits)
  moreover have "name_args env p name = Some va" using t(1) va(1) by (simp add: name_args_def)
  ultimately show ?thesis using t(4) by (auto simp: got_one_def)
qed

lemma AddObject_got:
  assumes "gives env given" and "AddObject env ps fid name s = Some (hr, hs, s')" and "SUCCEEDED hr"
  shows "got env given fid ps name hs"
proof -
  obtain hr0 h0 s1 hr1 h1 where "get_handle env ps fid name SRV_ACT s = Some (hr0, h0, s1)" "\<not> FAILED hr0"
    "get_handle env ps fid name SRV_WATCH s1 = Some (hr1, h1, s')" "\<not> FAILED hr1" "hs = h0 @ h1"
    using assms(2,3) by (auto simp: AddObject_def SUCCEEDED_iff split: if_splits elim!: bind_SomeE)
  with get_handle_got [OF assms(1) this(1,2)] get_handle_got [OF assms(1) this(3,4)] show ?thesis
    by (auto simp: got_def)
qed

lemma new_variable_sel:
  "new_variable name hs t rd wr wid dur now = Some v \<Longrightarrow> v_handle v = hs \<and> v_name v = name"
  by (auto simp: new_variable_def split: if_splits)

lemma add_variable_ok:
  assumes "gives env given" and "add_variable env ps fid name t rd wr wid dur now vars s = Some (hr, vars', s')"
    and "vars_ok env given fid ps vars"
  shows "vars_ok env given fid ps vars' \<and> (SUCCEEDED hr \<longrightarrow> map v_name vars' = map v_name vars @ [name] \<and> 2 \<le> length ps)"
proof -
  obtain hr1 hs s1 where a: "AddObject env ps fid name s = Some (hr1, hs, s1)"
    using assms(2) by (auto simp: add_variable_def elim!: bind_SomeE)
  show ?thesis
  proof (cases "FAILED hr1")
    case True
    then show ?thesis using assms(2,3) a by (auto simp: add_variable_def SUCCEEDED_iff)
  next
    case False
    then obtain v where v: "new_variable name hs t rd wr wid dur now = Some v" "vars' = vars @ [v]"
      using assms(2) a by (auto simp: add_variable_def elim!: bind_SomeE)
    have "got env given fid ps name hs" using AddObject_got [OF assms(1) a] False by (simp add: SUCCEEDED_iff)
    then show ?thesis using v new_variable_sel [OF v(1)] assms(3) by (auto simp: vars_ok_def got_def)
  qed
qed

lemma AddVariable_ok:
  "gives env given \<Longrightarrow> AddVariable env ps fid name now vars s = Some (hr, vars', s') \<Longrightarrow> vars_ok env given fid ps vars \<Longrightarrow>
   vars_ok env given fid ps vars'"
  using add_variable_ok by (fastforce simp: AddVariable_def split: if_splits)

lemma AddVariables_ok:
  assumes gives: "gives env given"
  shows "AddVariables env ps fid xs now hr vars s = Some (hr', vars', s') \<Longrightarrow> vars_ok env given fid ps vars \<Longrightarrow>
   vars_ok env given fid ps vars' \<and> (SUCCEEDED hr' \<longrightarrow> map (Some \<circ> v_name) vars' = map (Some \<circ> v_name) vars @ map x_text xs)"
proof (induction xs arbitrary: hr vars s)
  case (Cons x xs)
  then obtain hr1 vars1 s1 where a: "AddVariable_xml env ps fid x now vars s = Some (hr1, vars1, s1)"
    "(if FAILED hr1 then Some (hr1, vars1, s1) else AddVariables env ps fid xs now hr1 vars1 s1) = Some (hr', vars', s')"
    by (auto elim!: bind_SomeE)
  obtain name where n: "x_text x = Some name" using a(1) by (auto simp: AddVariable_xml_def elim!: bind_SomeE)
  have k: "vars_ok env given fid ps vars1" "SUCCEEDED hr1 \<Longrightarrow> map v_name vars1 = map v_name vars @ [name]"
    using a(1) n add_variable_ok [OF gives _ Cons.prems(2)] by (auto simp: AddVariable_xml_def Let_def)
  show ?case
  proof (cases "FAILED hr1")
    case True
    then show ?thesis using a(2) k(1) by (simp add: SUCCEEDED_iff)
  next
    case False
    then have "map (Some \<circ> v_name) vars1 = map (Some \<circ> v_name) vars @ [x_text x]"
      using k(2) n by (simp add: SUCCEEDED_iff flip: map_map)
    then show ?thesis using Cons.IH [of hr1 vars1 s1] a(2) False k(1) by (simp add: comp_def)
  qed
qed simp

definition named_as :: "xml_var list \<Rightarrow> bcap_object \<Rightarrow> bool" where
  "named_as xs ob \<longleftrightarrow> map (Some \<circ> v_name) (o_vars ob) = map x_text xs"

lemma InitializeBCAP_ok:
  assumes gives: "gives env given" and "InitializeBCAP env vid xs now (new_object n h) s = Some (hr, ob, s')"
    and "got env given fid ps n h"
  shows "object_ok env given fid vid ps ob \<and> o_name ob = n \<and> (SUCCEEDED hr \<longrightarrow> named_as xs ob)"
  using assms(2,3) AddVariables_ok [OF gives, of h vid xs now S_OK "[]" s]
  by (auto simp: InitializeBCAP_def new_object_def object_ok_def vars_ok_def named_as_def)

lemma add_objects_ok:
  assumes gives: "gives env given"
  shows "add_objects env ps fid vid xs now names hr obs s = Some (hr', obs', s') \<Longrightarrow>
   list_all (object_ok env given fid vid ps) obs \<Longrightarrow> list_all (named_as xs) obs \<Longrightarrow>
   list_all (object_ok env given fid vid ps) obs' \<and> list_all (named_as xs) obs' \<and>
   (SUCCEEDED hr' \<longrightarrow> map o_name obs' = map o_name obs @ names)"
proof (induction names arbitrary: hr obs s)
  case (Cons n names)
  obtain hr1 h s1 where a: "AddObject env ps fid n s = Some (hr1, h, s1)" using Cons.prems(1) by (auto elim!: bind_SomeE)
  show ?case
  proof (cases "FAILED hr1")
    case True
    then show ?thesis using Cons.prems a by (simp add: SUCCEEDED_iff)
  next
    case False
    then have h: "got env given fid ps n h" using AddObject_got [OF gives a] by (simp add: SUCCEEDED_iff)
    obtain hr2 ob s2 where i: "InitializeBCAP env vid xs now (new_object n h) s1 = Some (hr2, ob, s2)"
      using Cons.prems(1) a False by (auto elim!: bind_SomeE)
    note ok = InitializeBCAP_ok [OF gives i h]
    show ?thesis
    proof (cases "FAILED hr2")
      case True
      then show ?thesis using Cons.prems a i False by (simp add: SUCCEEDED_iff)
    next
      case go: False
      then have "add_objects env ps fid vid xs now names hr2 (obs @ [ob]) s2 = Some (hr', obs', s')"
        using Cons.prems(1) a i False by simp
      from Cons.IH [OF this] show ?thesis using Cons.prems(2,3) ok go by (simp add: SUCCEEDED_iff)
    qed
  qed
qed simp

text \<open>The names the controller lists.\<close>

definition listed :: "'s node_env \<Rightarrow> u32 list \<Rightarrow> i32 \<Rightarrow> string list \<Rightarrow> bool" where
  "listed env ps func names \<longleftrightarrow> (\<exists>s hr s'. GetObjectNames env ps func s = Some (hr, names, s') \<and> SUCCEEDED hr)"

lemma named_objects_ok:
  assumes gives: "gives env given" and run: "named_objects env ps func fid vid xs now s = Some (hr, obs, s')"
  shows "list_all (object_ok env given fid vid ps) obs \<and> list_all (named_as xs) obs \<and>
    (SUCCEEDED hr \<longrightarrow> listed env ps func (map o_name obs))"
proof -
  obtain hr1 names s1 where g: "GetObjectNames env ps func s = Some (hr1, names, s1)"
    and r: "(if SUCCEEDED hr1 then add_objects env ps fid vid xs now names hr1 [] s1 else Some (hr1, [], s1)) = Some (hr, obs, s')"
    using run by (auto simp: named_objects_def simp del: SUCCEEDED_FAILED elim!: bind_SomeE)
  show ?thesis
  proof (cases "SUCCEEDED hr1")
    case True
    then have "add_objects env ps fid vid xs now names hr1 [] s1 = Some (hr, obs, s')" using r by simp
    from add_objects_ok [OF gives this] show ?thesis using g True by (auto simp: listed_def)
  next
    case False
    then show ?thesis using r by (auto simp: SUCCEEDED_iff)
  qed
qed

lemma connect_controller_given:
  assumes "gives env given" and "connect_controller env kind ns name i s = Some (hr, ret, s')" and "\<not> FAILED hr" and "ulVal ret = Some h"
  shows "connected env given kind ns name i h"
proof -
  obtain vs va where va: "those (map (string_variant env) [connect_text ns name i, provider kind, ''localhost'', '''']) = Some vs"
    "those (map copy_of vs) = Some va" "exec_fn env i ID_CONTROLLER_CONNECT va zero_variant s = Some (hr, ret, s')"
    using assms(2) unfolding connect_controller_def by (elim bind_SomeE) blast
  have "given i ID_CONTROLLER_CONNECT va h" using assms(1,3,4) va(3) unfolding gives_def by blast
  then show ?thesis unfolding connected_def using va(1,2) by blast
qed

text \<open>The handles of a controller: as many as services answered, in their order.\<close>

lemma connect_both:
  assumes gives: "gives env given" and run: "connect_controllers env kind ns name [SRV_ACT, SRV_WATCH] E_FAIL [] s = Some (hr, hs, s')"
  shows "length hs \<le> 2 \<and> (SUCCEEDED hr \<longrightarrow> length hs = 2) \<and>
    (length hs = 2 \<longrightarrow> (\<exists>h0 h1. hs = [h0, h1] \<and> connected env given kind ns name 0 h0 \<and> connected env given kind ns name 1 h1))"
proof -
  obtain hr0 ret0 s0 where c0: "connect_controller env kind ns name SRV_ACT s = Some (hr0, ret0, s0)"
    using run by (auto elim!: bind_SomeE)
  show ?thesis
  proof (cases "FAILED hr0")
    case True
    then show ?thesis using run c0 by (auto simp: SUCCEEDED_iff)
  next
    case f0: False
    then obtain h0 hr1 ret1 s1 where c1: "ulVal ret0 = Some h0" "connect_controller env kind ns name SRV_WATCH s0 = Some (hr1, ret1, s1)"
      using run c0 by (auto elim!: bind_SomeE)
    show ?thesis
    proof (cases "FAILED hr1")
      case True
      then show ?thesis using run c0 f0 c1 by (auto simp: SUCCEEDED_iff)
    next
      case f1: False
      then obtain h1 where h1: "ulVal ret1 = Some h1" "hs = [h0, h1]"
        using run c0 f0 c1 by (auto elim!: bind_SomeE)
      then show ?thesis
        using connect_controller_given [OF gives c0 f0 c1(1)] connect_controller_given [OF gives c1(2) f1 h1(1)] by simp
    qed
  qed
qed

lemma get_Variable_added:
  assumes "gives env given" and "AddVariable env ps fid name now [] s = Some (hr, vars, s')" and "SUCCEEDED hr"
  shows "map v_name vars = [name] \<and> 2 \<le> length ps \<and> vars_ok env given fid ps vars"
  using assms add_variable_ok [OF assms(1), of ps fid name VT_EMPTY False False False BCAP_VAR_DEFAULT_DURATION now "[]" s]
  by (auto simp: AddVariable_def get_Object_def vars_ok_def split: if_splits)

lemma GetControllerVersion_ok:
  assumes gives: "gives env given" and "GetControllerVersion env now k s = Some (hr, k', s')" and "k_vars k = []" and "SUCCEEDED hr"
  shows "2 \<le> length (k_handle k)" and "k_handle k' = k_handle k" and "map v_name (k_vars k') = [''@VERSION'']"
    and "vars_ok env given ID_CONTROLLER_GETVARIABLE (k_handle k) (k_vars k')" and "k_robots k' = k_robots k" and "k_tasks k' = k_tasks k"
    and "k_name k' = k_name k"
proof -
  obtain hr1 vars s1 where a: "AddVariable env (k_handle k) ID_CONTROLLER_GETVARIABLE ''@VERSION'' now [] s = Some (hr1, vars, s1)"
    using assms(2,3) by (auto simp: GetControllerVersion_def controller_AddVariable_def elim!: bind_SomeE)
  have ok: "SUCCEEDED hr1" using assms(2-4) a
    by (auto simp: GetControllerVersion_def controller_AddVariable_def SUCCEEDED_iff split: if_splits)
  have k': "k_handle k' = k_handle k \<and> k_vars k' = vars \<and> k_robots k' = k_robots k \<and> k_tasks k' = k_tasks k \<and> k_name k' = k_name k"
    using assms(2,3) a ok
    by (auto simp: GetControllerVersion_def controller_AddVariable_def SUCCEEDED_iff split: if_splits elim!: bind_SomeE)
  show "2 \<le> length (k_handle k)" "k_handle k' = k_handle k" "map v_name (k_vars k') = [''@VERSION'']"
    "vars_ok env given ID_CONTROLLER_GETVARIABLE (k_handle k) (k_vars k')" "k_robots k' = k_robots k" "k_tasks k' = k_tasks k"
    "k_name k' = k_name k"
    using k' get_Variable_added [OF gives a ok] by auto
qed

definition own_vars :: "ctrl_kind \<Rightarrow> string list" where
  "own_vars kind = (if kind = RC9 then [] else [''@VERSION''])"

lemma AddController_ok:
  assumes gives: "gives env given" and add: "AddController env kind ns cycle_ok now (new_controller name) s = Some (hr, k, s')"
    and "SUCCEEDED hr"
  shows "controller_ok env given kind ns k \<and> map v_name (k_vars k) = own_vars kind \<and> k_robots k = [] \<and> k_tasks k = [] \<and> k_name k = name"
proof -
  obtain hr1 hs s1 where c: "connect_controllers env kind ns name [SRV_ACT, SRV_WATCH] E_FAIL [] s = Some (hr1, hs, s1)"
    and cont: "(if kind = RC9 then Some (hr1, (new_controller name)\<lparr>k_handle := hs\<rparr>, s1)
      else GetControllerVersion env now ((new_controller name)\<lparr>k_handle := hs\<rparr>) s1) = Some (hr, k, s')"
    using add assms(3) by (auto simp: AddController_def new_controller_def FAILED_def SUCCEEDED_def split: if_splits elim!: bind_SomeE)
  note both = connect_both [OF gives c]
  show ?thesis
  proof (cases "kind = RC9")
    case True
    then show ?thesis
      using cont assms(3) both by (auto simp: new_controller_def controller_ok_def vars_ok_def own_vars_def)
  next
    case False
    then have g: "GetControllerVersion env now ((new_controller name)\<lparr>k_handle := hs\<rparr>) s1 = Some (hr, k, s')" using cont by simp
    have "k_vars ((new_controller name)\<lparr>k_handle := hs\<rparr>) = []" by (simp add: new_controller_def)
    note v = GetControllerVersion_ok [OF gives g this assms(3)]
    then have "length hs = 2" using both by simp
    then obtain h0 h1 where "hs = [h0, h1]" "connected env given kind ns name 0 h0" "connected env given kind ns name 1 h1"
      using both by blast
    then show ?thesis using v False by (auto simp: new_controller_def controller_ok_def own_vars_def)
  qed
qed

lemma AddVariable_elems_ok:
  assumes gives: "gives env given" and "AddVariable_elems env xs now k s = Some (hr, k', s')" and "controller_ok env given kind ns k"
  shows "controller_ok env given kind ns k' \<and> k_robots k' = k_robots k \<and> k_tasks k' = k_tasks k \<and> k_name k' = k_name k \<and>
    (SUCCEEDED hr \<longrightarrow> map (Some \<circ> v_name) (k_vars k') = map (Some \<circ> v_name) (k_vars k) @ map x_text xs)"
proof -
  obtain vars where a: "AddVariables env (k_handle k) ID_CONTROLLER_GETVARIABLE xs now S_OK (k_vars k) s = Some (hr, vars, s')"
    "k' = k\<lparr>k_vars := vars\<rparr>"
    using assms(2) by (auto simp: AddVariable_elems_def)
  have "vars_ok env given ID_CONTROLLER_GETVARIABLE (k_handle k) (k_vars k)" using assms(3) by (simp add: controller_ok_def)
  from AddVariables_ok [OF gives a(1) this] show ?thesis using assms(3) a(2) by (simp add: controller_ok_def)
qed

lemma AddRobot_ok:
  assumes gives: "gives env given" and "AddRobot env xs now k s = Some (hr, k', s')" and "controller_ok env given kind ns k" and "k_robots k = []"
  shows "controller_ok env given kind ns k' \<and> k_vars k' = k_vars k \<and> k_tasks k' = k_tasks k \<and> k_name k' = k_name k \<and>
    k_handle k' = k_handle k \<and> list_all (\<lambda>p. named_as xs (fst p)) (k_robots k') \<and>
    (SUCCEEDED hr \<longrightarrow> listed env (k_handle k') ID_CONTROLLER_GETROBOTNAMES (map (o_name \<circ> fst) (k_robots k')))"
proof -
  obtain obs where a: "named_objects env (k_handle k) ID_CONTROLLER_GETROBOTNAMES ID_CONTROLLER_GETROBOT ID_ROBOT_GETVARIABLE xs now s =
      Some (hr, obs, s')" "k' = k\<lparr>k_robots := map (\<lambda>ob. (ob, new_robot)) obs\<rparr>"
    using assms(2,4) by (auto simp: AddRobot_def)
  show ?thesis
    using named_objects_ok [OF gives a(1)] assms(3) a(2) by (auto simp: controller_ok_def list_all_iff comp_def)
qed

lemma AddTask_ok:
  assumes gives: "gives env given" and "AddTask env xs now k s = Some (hr, k', s')" and "controller_ok env given kind ns k" and "k_tasks k = []"
  shows "controller_ok env given kind ns k' \<and> k_vars k' = k_vars k \<and> k_robots k' = k_robots k \<and> k_name k' = k_name k \<and>
    k_handle k' = k_handle k \<and> list_all (named_as xs) (k_tasks k') \<and>
    (SUCCEEDED hr \<longrightarrow> listed env (k_handle k') ID_CONTROLLER_GETTASKNAMES (map o_name (k_tasks k')))"
proof -
  obtain obs where a: "named_objects env (k_handle k) ID_CONTROLLER_GETTASKNAMES ID_CONTROLLER_GETTASK ID_TASK_GETVARIABLE xs now s =
      Some (hr, obs, s')" "k' = k\<lparr>k_tasks := obs\<rparr>"
    using assms(2,4) by (auto simp: AddTask_def)
  then show ?thesis using named_objects_ok [OF gives a(1)] assms(3) by (auto simp: controller_ok_def list_all_iff)
qed

lemma then_stepE:
  assumes "then_step r f = Some (hr, k', s')" and "SUCCEEDED hr"
  obtains h k s where "r = Some (h, k, s)" and "SUCCEEDED h" and "f k s = Some (hr, k', s')"
  using assms by (auto simp: then_step_def SUCCEEDED_iff split: if_splits elim!: bind_SomeE)

lemma initialised_steps:
  assumes "controller_InitializeBCAP env con kind ns cycle_ok (Some (Some x)) now k0 s = Some (hr, k, s')" and "SUCCEEDED hr"
  obtains s0 h1 k1 s1 h2 k2 s2 xr h3 k3 s3 xt where
    "AddController env kind ns cycle_ok now k0 s0 = Some (h1, k1, s1)" and "SUCCEEDED h1"
    and "AddVariable_elems env (x_vars x) now k1 s1 = Some (h2, k2, s2)" and "SUCCEEDED h2"
    and "x_robot x = Some xr" and "AddRobot env xr now k2 s2 = Some (h3, k3, s3)" and "SUCCEEDED h3"
    and "x_task x = Some xt" and "AddTask env xt now k3 s3 = Some (hr, k, s')"
proof -
  obtain s0 where init: "then_step (AddController env kind ns cycle_ok now k0 s0) (\<lambda>k s.
       then_step (AddVariable_elems env (x_vars x) now k s) (\<lambda>k s.
         case x_robot x of None \<Rightarrow> Some (E_FAIL, k, s) | Some xr \<Rightarrow>
           then_step (AddRobot env xr now k s) (\<lambda>k s.
             case x_task x of None \<Rightarrow> Some (E_FAIL, k, s) | Some xt \<Rightarrow> AddTask env xt now k s))) = Some (hr, k, s')"
    using assms by (auto simp: controller_InitializeBCAP_def SUCCEEDED_iff split: if_splits elim!: bind_SomeE)
  have no: "\<not> SUCCEEDED E_FAIL" by (simp add: SUCCEEDED_def)
  show thesis
    using init assms(2) no
    by (auto elim!: then_stepE split: option.splits) (rule that; assumption)+
qed

definition all_listed :: "'s node_env \<Rightarrow> controller \<Rightarrow> bool" where
  "all_listed env k \<longleftrightarrow>
     listed env (k_handle k) ID_CONTROLLER_GETROBOTNAMES (map (o_name \<circ> fst) (k_robots k)) \<and>
     listed env (k_handle k) ID_CONTROLLER_GETTASKNAMES (map o_name (k_tasks k))"

text \<open>What an initialised controller has; \<open>named_as\<close> compares the variables of an object with the configuration.\<close>

definition tree_of :: "'s node_env \<Rightarrow> ctrl_kind \<Rightarrow> xml_ctrl \<Rightarrow> controller \<Rightarrow> bool" where
  "tree_of env kind x k \<longleftrightarrow>
     map (Some \<circ> v_name) (k_vars k) = map Some (own_vars kind) @ map x_text (x_vars x) \<and> all_listed env k \<and>
     (\<exists>xr xt. x_robot x = Some xr \<and> x_task x = Some xt \<and>
        list_all (\<lambda>p. named_as xr (fst p)) (k_robots k) \<and> list_all (named_as xt) (k_tasks k))"

lemma initialised_ok:
  assumes gives: "gives env given"
    and init: "controller_InitializeBCAP env con kind ns cycle_ok (Some (Some x)) now (new_controller name) s = Some (hr, k, s')"
    and "SUCCEEDED hr"
  shows "controller_ok env given kind ns k \<and> k_name k = name \<and> tree_of env kind x k"
proof -
  obtain s0 h1 k1 s1 h2 k2 s2 xr h3 k3 s3 xt where
    c: "AddController env kind ns cycle_ok now (new_controller name) s0 = Some (h1, k1, s1)" "SUCCEEDED h1"
    and v: "AddVariable_elems env (x_vars x) now k1 s1 = Some (h2, k2, s2)" "SUCCEEDED h2"
    and r: "x_robot x = Some xr" "AddRobot env xr now k2 s2 = Some (h3, k3, s3)" "SUCCEEDED h3"
    and t: "x_task x = Some xt" "AddTask env xt now k3 s3 = Some (hr, k, s')"
    using init assms(3) by (rule initialised_steps)
  have k1: "controller_ok env given kind ns k1" "map v_name (k_vars k1) = own_vars kind" "k_robots k1 = []" "k_tasks k1 = []" "k_name k1 = name"
    using AddController_ok [OF gives c] by auto
  have k2: "controller_ok env given kind ns k2" "k_robots k2 = []" "k_tasks k2 = []" "k_name k2 = name"
    "map (Some \<circ> v_name) (k_vars k2) = map Some (own_vars kind) @ map x_text (x_vars x)"
    using AddVariable_elems_ok [OF gives v(1) k1(1)] v(2) k1 by (auto simp flip: map_map)
  note k3 = AddRobot_ok [OF gives r(2) k2(1,2)]
  then have "k_tasks k3 = []" using k2(3) by simp
  from AddTask_ok [OF gives t(2) _ this] k3 show ?thesis
    using k2(4,5) r(1,3) t(1) assms(3) by (auto simp: tree_of_def all_listed_def)
qed

text \<open>
  C18: when a controller is initialised with success, every object of the tree has the handles the
  two services gave for it: the controller the ones of its connections, its robots, tasks and variables
  the ones for their names and the controller's handles, and the variables of robots and tasks the ones
  for their names and their owner's handles. The robots and tasks are those the controller lists, in its
  order, and the variables those of the configuration in its order, in every robot and task, and in the
  controller behind the one the node itself needs.
\<close>

theorem initialised_tree:
  assumes "gives env given"
    and "controller_InitializeBCAP env con kind ns cycle_ok (Some (Some x)) now (new_controller name) s = Some (hr, k, s')"
    and "SUCCEEDED hr"
  shows "controller_ok env given kind ns k \<and> k_name k = name \<and> tree_of env kind x k"
  by (rule initialised_ok [OF assms])

text \<open>The runs of the core: what the node does with its objects once it is initialised.\<close>

inductive core_reached :: "'s node_env \<Rightarrow> (nat \<Rightarrow> 's \<Rightarrow> (hresult \<times> 's) option) \<Rightarrow> ctrl_kind \<Rightarrow> string \<Rightarrow> core \<Rightarrow> 's \<Rightarrow> bool"
  for env con kind ns where
  start: "controller_InitializeBCAP env con kind ns cycle_ok doc now (new_controller name) s = Some (hr, k, s') \<Longrightarrow>
    SUCCEEDED hr \<Longrightarrow> core_reached env con kind ns \<lparr>co_mode = 0, co_ctrl = k\<rparr> s'"
| mode: "core_reached env con kind ns c s \<Longrightarrow> core_change env m service c s = Some (hr, c', s') \<Longrightarrow> core_reached env con kind ns c' s'"
| add: "core_reached env con kind ns c s \<Longrightarrow> controller_AddVariable env name now (co_ctrl c) s = Some (hr, k, s') \<Longrightarrow>
    core_reached env con kind ns (c\<lparr>co_ctrl := k\<rparr>) s'"
| add_robot: "core_reached env con kind ns c s \<Longrightarrow> i < length (k_robots (co_ctrl c)) \<Longrightarrow> k_robots (co_ctrl c) ! i = (ob, r) \<Longrightarrow>
    object_AddVariable env ID_ROBOT_GETVARIABLE name now ob s = Some (hr, ob', s') \<Longrightarrow>
    core_reached env con kind ns (c\<lparr>co_ctrl := (co_ctrl c)\<lparr>k_robots := (k_robots (co_ctrl c))[i := (ob', r)]\<rparr>\<rparr>) s'"
| call: "core_reached env con kind ns c s \<Longrightarrow> i < length (k_robots (co_ctrl c)) \<Longrightarrow> k_robots (co_ctrl c) ! i = (ob, r) \<Longrightarrow>
    core_reached env con kind ns (c\<lparr>co_ctrl := (co_ctrl c)\<lparr>k_robots := (k_robots (co_ctrl c))[i := (ob, r')]\<rparr>\<rparr>) s'"
| update: "core_reached env con kind ns c s \<Longrightarrow> controller_Update env now (co_ctrl c) s = Some (ms, k, s') \<Longrightarrow>
    core_reached env con kind ns (c\<lparr>co_ctrl := k\<rparr>) s'"
| serve: "core_reached env con kind ns c s \<Longrightarrow>
    core_reached env con kind ns (c\<lparr>co_ctrl := controller_StartService (co_mode c) (co_ctrl c)\<rparr>) s"
| stop: "core_reached env con kind ns c s \<Longrightarrow> core_reached env con kind ns (c\<lparr>co_ctrl := controller_StopService (co_ctrl c)\<rparr>) s"

lemma serving_ok [simp]:
  "vars_ok env given fid ps (map (\<lambda>v. snd (var_StartService mode v)) vs) = vars_ok env given fid ps vs"
  "vars_ok env given fid ps (map (\<lambda>v. snd (var_StopService v)) vs) = vars_ok env given fid ps vs"
  "object_ok env given fid vid ps (StartService mode ob) = object_ok env given fid vid ps ob"
  "object_ok env given fid vid ps (StopService ob) = object_ok env given fid vid ps ob"
proof -
  have v: "vars_ok env given fid ps (map (\<lambda>v. snd (var_StartService mode v)) vs) = vars_ok env given fid ps vs"
    "vars_ok env given fid ps (map (\<lambda>v. snd (var_StopService v)) vs) = vars_ok env given fid ps vs" for fid ps vs
    by (auto simp: vars_ok_def list_all_iff var_StartService_def var_StopService_def)
  show "vars_ok env given fid ps (map (\<lambda>v. snd (var_StartService mode v)) vs) = vars_ok env given fid ps vs"
    "vars_ok env given fid ps (map (\<lambda>v. snd (var_StopService v)) vs) = vars_ok env given fid ps vs" by (rule v)+
  show "object_ok env given fid vid ps (StartService mode ob) = object_ok env given fid vid ps ob"
    "object_ok env given fid vid ps (StopService ob) = object_ok env given fid vid ps ob"
    by (simp_all add: object_ok_def StartService_def StopService_def v)
qed

lemma controller_serving_ok [simp]:
  "controller_ok env given kind ns (controller_StartService mode k) = controller_ok env given kind ns k"
  "controller_ok env given kind ns (controller_StopService k) = controller_ok env given kind ns k"
  by (auto simp: controller_ok_def controller_StartService_def controller_StopService_def list_all_iff)

lemma listed_names:
  "k_handle k' = k_handle k \<Longrightarrow> map (o_name \<circ> fst) (k_robots k') = map (o_name \<circ> fst) (k_robots k) \<Longrightarrow>
   map o_name (k_tasks k') = map o_name (k_tasks k) \<Longrightarrow> all_listed env k' = all_listed env k"
  by (simp add: all_listed_def)

lemma serving_listed [simp]:
  "all_listed env (controller_StartService mode k) = all_listed env k"
  "all_listed env (controller_StopService k) = all_listed env k"
  by (rule listed_names; auto simp: controller_StartService_def controller_StopService_def StartService_def StopService_def)+

lemma set_robot_listed:
  assumes "i < length (k_robots k)" and "o_name ob = o_name (fst (k_robots k ! i))"
  shows "all_listed env (k\<lparr>k_robots := (k_robots k)[i := (ob, r)]\<rparr>) = all_listed env k"
  using assms by (intro listed_names) (simp_all add: map_update list_update_same_conv)

abbreviation robot_ok :: "'s node_env \<Rightarrow> grant \<Rightarrow> controller \<Rightarrow> bcap_object \<Rightarrow> bool" where
  "robot_ok env given k \<equiv> object_ok env given ID_CONTROLLER_GETROBOT ID_ROBOT_GETVARIABLE (k_handle k)"

lemma set_robot_ok:
  assumes "controller_ok env given kind ns k" and "i < length (k_robots k)" and "robot_ok env given k ob"
  shows "controller_ok env given kind ns (k\<lparr>k_robots := (k_robots k)[i := (ob, r)]\<rparr>)"
  using assms by (auto simp: controller_ok_def list_all_iff dest: subsetD [OF set_update_subset_insert])

lemma robot_at_ok: "controller_ok env given kind ns k \<Longrightarrow> i < length (k_robots k) \<Longrightarrow> robot_ok env given k (fst (k_robots k ! i))"
  by (simp add: controller_ok_def list_all_length)

lemma core_change_ok:
  assumes "core_change env m service c s = Some (hr, c', s')" and "controller_ok env given kind ns (co_ctrl c)"
    and "all_listed env (co_ctrl c)"
  shows "controller_ok env given kind ns (co_ctrl c') \<and> all_listed env (co_ctrl c')"
proof -
  let ?k = "controller_StopService (co_ctrl c)"
  have k: "controller_ok env given kind ns ?k" and l: "all_listed env ?k" using assms(2,3) by simp_all
  show ?thesis
  proof (cases "snd (get_Object_at (k_robots ?k) 0)")
    case None
    then show ?thesis using assms(1) k l by (auto simp: core_change_def Let_def)
  next
    case (Some i)
    then have i: "i < length (k_robots ?k)" by (auto simp: get_Object_at_def split: if_splits)
    obtain h m' r s'' where "c' = \<lparr>co_mode = m', co_ctrl =
        (let k' = ?k\<lparr>k_robots := (k_robots ?k)[i := (fst (k_robots ?k ! i), r)]\<rparr>
         in if m' = 0 \<and> service then controller_StartService m' k' else k')\<rparr>"
      using assms(1) Some by (auto simp: core_change_def Let_def elim!: bind_SomeE)
    then show ?thesis using set_robot_ok [OF k i robot_at_ok [OF k i], of r] set_robot_listed [OF i refl, of env r] l
      by (simp add: Let_def)
  qed
qed

lemma var_Update_handle: "var_Update env now v s = Some (ms, v', s') \<Longrightarrow> v_handle v' = v_handle v \<and> v_name v' = v_name v"
  by (auto simp: var_Update_def split: if_splits elim!: bind_SomeE)

lemma update_vars_ok:
  "update_vars e now vs s = Some (ms, vs', s') \<Longrightarrow> vars_ok env given fid ps vs' = vars_ok env given fid ps vs"
  by (induction vs arbitrary: s ms vs') (auto simp: vars_ok_def var_Update_handle elim!: bind_SomeE)

lemma update_objects_ok:
  "update_objects e now obs s = Some (ms, obs', s') \<Longrightarrow>
   map o_name obs' = map o_name obs \<and> (list_all (object_ok env given fid vid ps) obs \<longrightarrow> list_all (object_ok env given fid vid ps) obs')"
proof (induction obs arbitrary: s ms obs')
  case (Cons ob obs)
  have "o_name ob' = o_name ob \<and> object_ok env given fid vid ps ob' = object_ok env given fid vid ps ob" if "object_Update e now ob s = Some (ms1, ob', s1)" for ms1 ob' s1
    using that update_vars_ok by (fastforce simp: object_Update_def object_ok_def split: if_splits)
  then show ?case using Cons by (fastforce elim!: bind_SomeE)
qed simp

lemma controller_Update_ok:
  assumes "controller_Update e now k s = Some (ms, k', s')" and "controller_ok env given kind ns k" and "all_listed env k"
  shows "controller_ok env given kind ns k' \<and> all_listed env k'"
proof (cases "k_serving k")
  case True
  obtain ms1 obs s1 ms2 tasks s2 ms3 vars s3 where
    u: "update_objects e now (map fst (k_robots k)) s = Some (ms1, obs, s1)"
    "update_objects e now (k_tasks k) s1 = Some (ms2, tasks, s2)" "update_vars e now (k_vars k) s2 = Some (ms3, vars, s3)"
    "k' = k\<lparr>k_robots := zip obs (map snd (k_robots k)), k_tasks := tasks, k_vars := vars\<rparr>"
    using assms(1) True by (auto simp: controller_Update_def elim!: bind_SomeE)
  have "list_all (robot_ok env given k) (map fst (k_robots k))" using assms(2) by (simp add: controller_ok_def list_all_iff)
  then have "list_all (robot_ok env given k) obs" using update_objects_ok [OF u(1)] by blast
  moreover have "list_all (object_ok env given ID_CONTROLLER_GETTASK ID_TASK_GETVARIABLE (k_handle k)) tasks"
    using update_objects_ok [OF u(2), of env given ID_CONTROLLER_GETTASK ID_TASK_GETVARIABLE "k_handle k"] assms(2)
    by (simp add: controller_ok_def)
  moreover have "all_listed env k' = all_listed env k"
  proof (rule listed_names)
    have n: "map o_name obs = map o_name (map fst (k_robots k))" "map o_name tasks = map o_name (k_tasks k)"
      using update_objects_ok [OF u(1)] update_objects_ok [OF u(2)] by blast+
    then have "length obs = length (k_robots k)" by (metis length_map)
    then have "map (o_name \<circ> fst) (k_robots k') = map o_name obs"
      using u(4) by (simp flip: map_map add: map_fst_zip)
    then show "map (o_name \<circ> fst) (k_robots k') = map (o_name \<circ> fst) (k_robots k)" using n(1) by simp
    show "k_handle k' = k_handle k" "map o_name (k_tasks k') = map o_name (k_tasks k)" using u(4) n(2) by simp_all
  qed
  ultimately show ?thesis
    using update_vars_ok [OF u(3), of env given ID_CONTROLLER_GETVARIABLE "k_handle k"] assms(2,3) u(4)
    by (auto simp: controller_ok_def list_all_iff dest: set_zip_leftD)
next
  case False
  then show ?thesis using assms by (simp add: controller_Update_def)
qed

text \<open>
  C17: in every run of the core, through changes of the mode, variables that are added, updates and
  calls, every object of the tree has one handle for each of the two services, which that service gave for
  the name of the object and its owner's handle of the same service, and the controller the ones of its two
  connections; and the robots and tasks of the tree are the ones the controller listed, none lost.
\<close>

theorem objects_have_handles:
  assumes "gives env given" and "core_reached env con kind ns c s"
  shows "controller_ok env given kind ns (co_ctrl c) \<and> all_listed env (co_ctrl c)"
  using assms(2)
proof induction
  case (start cycle_ok doc now name s hr k s')
  then obtain x where "doc = Some (Some x)"
    by (auto simp: controller_InitializeBCAP_def SUCCEEDED_def FAILED_def then_step_def split: if_splits option.splits elim!: bind_SomeE)
  then show ?case using start initialised_ok [OF assms(1)] by (fastforce simp: tree_of_def)
next
  case (add c s name now hr k s')
  then obtain vars where "AddVariable env (k_handle (co_ctrl c)) ID_CONTROLLER_GETVARIABLE name now (k_vars (co_ctrl c)) s = Some (hr, vars, s')"
    "k = (co_ctrl c)\<lparr>k_vars := vars\<rparr>"
    by (auto simp: controller_AddVariable_def)
  then show ?case using AddVariable_ok [OF assms(1)] add.IH by (fastforce simp: controller_ok_def all_listed_def)
next
  case (add_robot c s i ob r name now hr ob' s')
  then have ok: "robot_ok env given (co_ctrl c) ob" using robot_at_ok [of env given kind ns "co_ctrl c" i] by simp
  obtain vars where "AddVariable env (o_handle ob) ID_ROBOT_GETVARIABLE name now (o_vars ob) s = Some (hr, vars, s')" "ob' = ob\<lparr>o_vars := vars\<rparr>"
    using add_robot.hyps(4) by (auto simp: object_AddVariable_def)
  then have "robot_ok env given (co_ctrl c) ob'" "o_name ob' = o_name ob"
    using ok AddVariable_ok [OF assms(1)] by (fastforce simp: object_ok_def)+
  then show ?case
    using add_robot.IH add_robot.hyps(2,3) set_robot_ok [of env given kind ns "co_ctrl c" i ob' r]
      set_robot_listed [of i "co_ctrl c" ob' env r] by simp
next
  case (call c s i ob r r' s')
  then show ?case
    using robot_at_ok [of env given kind ns "co_ctrl c" i] set_robot_ok [of env given kind ns "co_ctrl c" i ob r']
      set_robot_listed [of i "co_ctrl c" ob env r'] by simp
next
  case (mode c s m service hr c' s')
  then show ?case using core_change_ok [OF mode.hyps(2)] by blast
next
  case (update c s now ms k s')
  then have "controller_ok env given kind ns k \<and> all_listed env k" 
    using controller_Update_ok [OF update.hyps(2), of env given kind ns] by blast
  then show ?case by simp
qed simp_all

section \<open>Connecting to a controller that refuses\<close>

text \<open>
  C20: when an RC8 controller refuses the connection of the first service, the
  initialisation has no defined result: the error is overwritten, and the version is asked for with the handle that
  was not got.
\<close>

theorem refused_connection_undefined:
  assumes "connect_controller env kind ns name SRV_ACT s = Some (hr, ret, s')" and "FAILED hr" and "kind \<noteq> RC9"
  shows "AddController env kind ns True now (new_controller name) s = None"
proof -
  have "get_handle env [] get_id n SRV_ACT s' = None" for get_id n
    by (cases "string_variant env n") (simp_all add: get_handle_def object_call_def handle_of_def)
  then have "GetControllerVersion env now (new_controller name) s' = None"
    by (simp add: GetControllerVersion_def controller_AddVariable_def AddVariable_def get_Object_def new_controller_def
        add_variable_def AddObject_def)
  moreover have "new_controller name\<lparr>k_handle := []\<rparr> = new_controller name" by (simp add: new_controller_def)
  ultimately show ?thesis using assms by (simp add: AddController_def) (simp add: new_controller_def)
qed

text \<open>A Cobotta whose version is too old, or not known, has no error cleared; the call succeeds.\<close>

lemma old_cobotta_not_cleared:
  assumes "newer MIN_VERSION (version_of (k_ver k))"
  shows "ExecClearError env RC8Cobotta k s = Some (S_OK, s)"
  using assms by (simp add: ExecClearError_def cobotta_prepared_def)

text \<open>Without a model of the robot the node takes any controller of type 8 for that of a Cobotta.\<close>

lemma no_model_is_cobotta: "controller_kind 8 (core_robot_name '''') = Some (Some RC8Cobotta)"
  by (simp add: controller_kind_def core_robot_name_def strncmp_eq_def IsCobotta_def)

text \<open>With any model that is not taken for a Cobotta the name is empty, and it is read past its end.\<close>

lemma other_model_undefined:
  "\<not> strncmp_eq model ''cobotta'' (length model) \<Longrightarrow> controller_kind 8 (core_robot_name model) = None"
  by (simp add: controller_kind_def core_robot_name_def IsCobotta_def)

section \<open>Values of variables\<close>

definition f32_array :: "u32 list \<Rightarrow> variant" where
  "f32_array xs =
     Variant (VT_ARRAY OR VT_R4)
       (ArrayP (if xs = [] then SafeArray 1 VT_R4 0 None 0 0
                else SafeArray 1 VT_R4 4 (Some (Bytes (concat (map (le_bytes 4) xs)))) (of_nat (length xs)) 0))"

lemma f32s_at_bytes: "map (\<lambda>i. le_word (take 4 (drop (4 * i) (concat (map (le_bytes 4) xs))))) [0..<length xs] = (xs :: u32 list)"
proof -
  have "take 4 (drop (4 * i) (concat (map (le_bytes 4) xs))) = le_bytes 4 (xs ! i)" if "i < length xs" for i
    using that
  proof (induction xs arbitrary: i)
    case (Cons x xs)
    then show ?case by (cases i) auto
  qed simp
  then show ?thesis by (intro nth_equalityI) (simp_all add: le_word_le_bytes_full)
qed

lemma f32_array_value:
  assumes "length xs < 2 ^ 27"
  shows "f32_vector (of_nat (length xs)) xs = Some (f32_array xs)" and "wf_variant (f32_array xs)"
    and "message_of env (f32_array xs) = Some (Some (Float32s xs))"
proof -
  have n: "unat (of_nat (length xs) :: u32) = length xs" using assms by (simp add: unat_of_nat take_bit_nat_eq_self)
  show "f32_vector (of_nat (length xs)) xs = Some (f32_array xs)"
  proof (cases "xs = []")
    case True
    then show ?thesis
      by (simp add: f32_vector_def filled_def f32_array_def SafeArrayCreateVector_def sa_elem_size_def)
  next
    case False
    then show ?thesis
      using assms filled_small [of "length xs" 4 VT_R4 "concat (map (le_bytes 4) xs)"]
      by (simp add: f32_vector_def sa_elem_size_def f32_array_def)
  qed
  show "wf_variant (f32_array xs)"
    using of_nat_nonzero [of "length xs"] assms
    by (cases "xs = []")
      (auto simp: f32_array_def wf_variant.simps wf_body_def is_array_def wf_array_def sa_elem_size_def wf_data_def)
  show "message_of env (f32_array xs) = Some (Some (Float32s xs))"
    using n by (simp add: message_of_def f32_array_def read_f32s_def array_bytes_def f32s_at_bytes)
qed

lemma f64_array_value:
  assumes "length xs < 2 ^ 27"
  shows "f64_vector (of_nat (length xs)) xs = Some (f64_array xs)" and "wf_variant (f64_array xs)"
    and "message_of env (f64_array xs) = Some (Some (Float64s xs))"
proof -
  have n: "unat (of_nat (length xs) :: u32) = length xs" using assms by (simp add: unat_of_nat take_bit_nat_eq_self)
  show "f64_vector (of_nat (length xs)) xs = Some (f64_array xs)"
  proof (cases "xs = []")
    case True
    then show ?thesis
      by (simp add: f64_vector_def filled_def f64_array_def SafeArrayCreateVector_def sa_elem_size_def)
  next
    case False
    then show ?thesis
      using assms filled_small [of "length xs" 8 VT_R8 "concat (map (le_bytes 8) xs)"]
      by (simp add: f64_vector_def sa_elem_size_def f64_array_def)
  qed
  show "wf_variant (f64_array xs)" using assms by (rule wf_f64_array)
  show "message_of env (f64_array xs) = Some (Some (Float64s xs))"
    using n by (simp add: message_of_def f64_array_def read_f64s_def array_bytes_def f64s_at_bytes f64s_at_def [of _ 0])
qed

text \<open>The messages whose values survive the way: arrays that are not too long, and text that the locale has.\<close>

fun message_ok :: "'s node_env \<Rightarrow> message \<Rightarrow> bool" where
  "message_ok env (Text t) \<longleftrightarrow>
     (\<exists>w. mbstowcs env (c_str t) = Some w \<and> wf_bstr (w @ [0]) \<and> wcslen (w @ [0]) = Some (length w) \<and> wcstombs env w = Some t)"
| "message_ok env (Float32s xs) \<longleftrightarrow> length xs < 2 ^ 27"
| "message_ok env (Float64s xs) \<longleftrightarrow> length xs < 2 ^ 27"
| "message_ok env m \<longleftrightarrow> True"

lemma text_roundtrip:
  assumes "message_ok env (Text t)"
  shows "\<exists>x. variant_of env (Text t) = Some x \<and> wf_variant x \<and> message_of env x = Some (Some (Text t)) \<and> published_type (vt x)"
proof -
  obtain w where w: "mbstowcs env (c_str t) = Some w" "wf_bstr (w @ [0])" "wcslen (w @ [0]) = Some (length w)" "wcstombs env w = Some t"
    using assms by auto
  have "string_variant env t = Some (Variant VT_BSTR (BstrP (w @ [0])))"
    using w(1) SysAllocString_wf [OF w(2)] by (simp add: string_variant_def ConvertStringToBSTR_def bstr_variant_def)
  moreover have "wf_variant (Variant VT_BSTR (BstrP (w @ [0])))"
    using w(2) by (simp add: wf_variant.simps wf_body_def is_array_def)
  moreover have "message_of env (Variant VT_BSTR (BstrP (w @ [0]))) = Some (Some (Text t))"
    using w(3,4) by (simp add: message_of_def bstrVal_def bstr_ptr_def ConvertBSTRToString_def)
  ultimately show ?thesis by (auto simp: published_type_def)
qed

lemma vt_arrays: "vt (f32_array xs) = VT_ARRAY OR VT_R4" "vt (f64_array ys) = VT_ARRAY OR VT_R8"
  by (simp_all add: f32_array_def f64_array_def)

lemma variant_roundtrip:
  assumes "message_ok env m"
  shows "\<exists>x. variant_of env m = Some x \<and> wf_variant x \<and> message_of env x = Some (Some m) \<and> published_type (vt x)"
proof (cases m)
  case (Text t)
  then show ?thesis using text_roundtrip assms by blast
next
  case (Float32s xs)
  then show ?thesis using f32_array_value [of xs] vt_arrays assms by (simp add: published_type_def)
next
  case (Float64s xs)
  then show ?thesis using f64_array_value [of xs] vt_arrays assms by (simp add: published_type_def)
qed (simp_all add: message_of_def published_type_def i4_def r4_def ulVal_def union_bits_def wf_variant.simps wf_body_def
    is_array_def scalar_type_def copyable_def ucast_up_ucast_id is_up)

text \<open>
  C19: when the controller takes a value that is written to a variable and has it when it is
  read again, the message that came in is the one that goes out, for each of the seven types of messages.
\<close>

theorem written_value_published:
  assumes "message_ok env m" and "variant_of env m = Some x" and "v_vt v = vt x" and "v_handle v = [h0, h1]"
    and "v_serving v" and "v_read v" and "v_duration v < now - v_prev v"
    and "exec_fn env SRV_WATCH ID_VARIABLE_PUTVALUE [ui4 h1, x] zero_variant s = Some (hr1, ret, s1)" and "SUCCEEDED hr1"
    and "exec_fn env SRV_WATCH ID_VARIABLE_GETVALUE [ui4 h1] zero_variant s1 = Some (hr2, x, s2)" and "SUCCEEDED hr2"
  shows "Callback_value env now m v s = Some ([m], v\<lparr>v_prev := now\<rparr>, s2)"
proof -
  have x: "wf_variant x" "message_of env x = Some (Some m)" "published_type (vt x)"
    using variant_roundtrip [OF assms(1)] assms(2) by auto
  have u: "wf_variant (ui4 h1)"
    by (simp add: ui4_def wf_variant.simps wf_body_def is_array_def scalar_type_def copyable_def)
  have "int (unat (vt x)) = sint (vt x)" using x(3) by (auto simp: published_type_def)
  then show ?thesis
    using assms x u
    by (simp add: Callback_value_def ExecPutValue_def put_and_update_def var_Update_def ExecGetValue_def object_call_def
        handle_of_def copy_of_wf)
qed

end
