(* ===== verification/RobotExample.thy ===== *)
theory RobotExample
  imports RobotTree
begin

text \<open>
  An example of a controller, for the theorems on the objects of the robot node: one robot, one task, and
  a configuration with one variable.
\<close>

section \<open>The controller\<close>

text \<open>
  A controller with one robot and one task, and a configuration with one variable of the robot. Its first
  service gives the handle 7 for everything, its second one 8.
\<close>

definition sample_handle :: "nat \<Rightarrow> u32" where
  "sample_handle i = (if i = 0 then 7 else 8)"

definition sample_reply :: "nat \<Rightarrow> i32 \<Rightarrow> variant" where
  "sample_reply i fid =
     (if fid = ID_CONTROLLER_GETROBOTNAMES
      then Variant (VT_ARRAY OR VT_BSTR) (ArrayP (SafeArray 1 VT_BSTR 8 (Some (Bstrs [Some (wide ''Arm'' @ [0])])) 1 0))
      else if fid = ID_CONTROLLER_GETTASKNAMES
      then Variant (VT_ARRAY OR VT_BSTR) (ArrayP (SafeArray 1 VT_BSTR 8 (Some (Bstrs [Some (wide ''Main'' @ [0])])) 1 0))
      else if fid = ID_VARIABLE_GETVALUE then literal ''2.8.0''
      else ui4 (sample_handle i))"

definition sample_ctrl :: "unit node_env" where
  "sample_ctrl =
     \<lparr>exec_fn = (\<lambda>i fid va ret s. Some (S_OK, sample_reply i fid, ())),
      get_tmo = (\<lambda>i s. 3000), put_tmo = (\<lambda>i n s. Some ()), get_rty = (\<lambda>i s. 5), put_rty = (\<lambda>i n s. Some ()),
      mbstowcs = (\<lambda>s. Some (wide s)), wcstombs = (\<lambda>w. Some (map (\<lambda>c. char_of (unat c)) w))\<rparr>"

definition sample_config :: xml_ctrl where
  "sample_config = \<lparr>x_vars = [], x_robot = Some [\<lparr>x_text = Some ''@SPEED'', x_attr = (\<lambda>_. None)\<rparr>], x_task = Some []\<rparr>"

definition sample_init :: "(hresult \<times> controller \<times> unit) option" where
  "sample_init = controller_InitializeBCAP sample_ctrl (\<lambda>i s. Some (S_OK, s)) RC8 ''/'' True (Some (Some sample_config)) 0
     (new_controller '''') ()"

abbreviation (input) sample_texts :: "string set" where
  "sample_texts \<equiv> {'''', ''CaoProv.DENSO.VRC'', ''localhost'', ''@VERSION'', ''@SPEED'', ''Arm'', ''Main''}"

lemma sample_text:
  assumes "n \<in> sample_texts"
  shows "string_variant sample_ctrl n = Some (literal n)" and "copy_of (literal n) = Some (literal n)"
proof -
  have "ascii_locale sample_ctrl" by (simp add: ascii_locale_def sample_ctrl_def)
  then have "string_variant (logged sample_ctrl) n = Some (literal n)"
    using assms by (elim insertE emptyE; hypsubst) (rule string_variant_ascii; simp add: wide_def)+
  then show "string_variant sample_ctrl n = Some (literal n)"
    by (simp add: string_variant_def ConvertStringToBSTR_def logged_def)
  have "wf_variant (literal n)" using assms by (auto simp: wide_def intro!: wf_literal)
  then show "copy_of (literal n) = Some (literal n)" by (rule copy_of_wf)
qed

lemma copy_of_ui4 [simp]: "copy_of (ui4 h) = Some (ui4 h)"
  by (rule copy_of_wf) (simp add: ui4_def wf_variant.simps wf_body_def is_array_def scalar_type_def copyable_def)

lemma sample_exec: "exec_fn sample_ctrl i fid va ret s = Some (S_OK, sample_reply i fid, ())"
  by (simp add: sample_ctrl_def)

lemma sample_call:
  assumes "i < 2" and "those (map copy_of vs) = Some vs'"
  shows "object_call sample_ctrl [7, 8] i fid vs () = Some (S_OK, sample_reply i fid, ())"
  using assms by (cases "i = 0") (auto simp: object_call_def handle_of_def sample_exec)

lemma sample_AddObject:
  assumes "n \<in> sample_texts" and "fid \<in> {ID_CONTROLLER_GETROBOT, ID_CONTROLLER_GETTASK, ID_CONTROLLER_GETVARIABLE, ID_ROBOT_GETVARIABLE}"
  shows "AddObject sample_ctrl [7, 8] fid n () = Some (S_OK, [7, 8], ())"
proof -
  have r: "ulVal (sample_reply i fid) = Some (sample_handle i)" for i
    using assms(2) by (auto simp: sample_reply_def ulVal_def ui4_def sample_handle_def)
  have "those (map copy_of [literal n, literal '''']) = Some [literal n, literal '''']"
    using sample_text [OF assms(1)] sample_text [of "''''"] by simp
  then show ?thesis
    using sample_text(1) [OF assms(1)] r by (simp add: AddObject_def get_handle_def sample_call) (simp add: sample_handle_def)
qed

lemma narrow_wide [simp]: "map (\<lambda>c. char_of (unat c)) (wide s) = s"
proof (induction s)
  case (Cons c s)
  have "of_char c < (2 ^ 32 :: nat)" by (rule order.strict_trans2 [OF nat_of_char_less_256]) simp
  then have "unat (of_nat (of_char c) :: wchar) = of_char c"
    unfolding unat_of_nat by (simp add: take_bit_nat_eq_self_iff del: of_nat_of_char)
  then have "unat (of_char c :: wchar) = of_char c" by (simp only: of_nat_of_char)
  then show ?case using Cons by (simp add: wide_def)
qed (simp add: wide_def)

lemma sample_string:
  assumes "n \<in> insert ''2.8.0'' sample_texts"
  shows "ConvertBSTRToString sample_ctrl (Some (wide n @ [0])) = Some n"
proof -
  have "0 \<notin> set (wide n)" using assms by (auto simp: wide_def)
  then have "wcslen (wide n @ [0]) = Some (length (wide n))" by (simp add: wcslen_append)
  then show ?thesis by (simp add: ConvertBSTRToString_def sample_ctrl_def)
qed

lemma sample_names:
  "GetObjectNames sample_ctrl [7, 8] ID_CONTROLLER_GETROBOTNAMES () = Some (S_OK, [''Arm''], ())"
  "GetObjectNames sample_ctrl [7, 8] ID_CONTROLLER_GETTASKNAMES () = Some (S_OK, [''Main''], ())"
  using sample_text(2) [of "''''"] sample_string [of "''Arm''"] sample_string [of "''Main''"]
  by (simp_all add: GetObjectNames_def sample_call) (simp_all add: sample_reply_def names_in_def)

lemma sample_connects:
  "connect_controllers sample_ctrl RC8 ''/'' '''' [SRV_ACT, SRV_WATCH] E_FAIL [] () = Some (S_OK, [7, 8], ())"
proof -
  have "connect_controller sample_ctrl RC8 ''/'' '''' i () = Some (S_OK, ui4 (sample_handle i), ())" for i
    using sample_text [of "''''"] sample_text [of "''localhost''"] sample_text [of "''CaoProv.DENSO.VRC''"]
    by (simp add: connect_controller_def connect_text_def provider_def sample_exec) (simp add: sample_reply_def)
  then show ?thesis by (simp add: ulVal_def ui4_def sample_handle_def)
qed

text \<open>What the two services give, and that the controller gives nothing else.\<close>

definition sample_given :: grant where
  "sample_given i fid va h \<longleftrightarrow>
     fid \<notin> {ID_CONTROLLER_GETROBOTNAMES, ID_CONTROLLER_GETTASKNAMES, ID_VARIABLE_GETVALUE} \<longrightarrow> h = sample_handle i"

lemma sample_gives: "gives sample_ctrl sample_given"
  by (auto simp: gives_def sample_given_def sample_exec sample_reply_def ulVal_def ui4_def sample_handle_def)

definition sample_variable :: "string \<Rightarrow> variable" where
  "sample_variable n =
     \<lparr>v_name = n, v_handle = [7, 8], v_vt = VT_EMPTY, v_read = False, v_write = False, v_id = False,
      v_duration = 1000000000, v_prev = 0, v_serving = False\<rparr>"

lemma sample_add_variable:
  assumes "n \<in> sample_texts" and "fid \<in> {ID_CONTROLLER_GETVARIABLE, ID_ROBOT_GETVARIABLE}"
  shows "add_variable sample_ctrl [7, 8] fid n VT_EMPTY False False False 1000 0 vars () = Some (S_OK, vars @ [sample_variable n], ())"
proof -
  have "fid \<in> {ID_CONTROLLER_GETROBOT, ID_CONTROLLER_GETTASK, ID_CONTROLLER_GETVARIABLE, ID_ROBOT_GETVARIABLE}"
    using assms(2) by auto
  from sample_AddObject [OF assms(1) this] show ?thesis
    by (simp add: add_variable_def new_variable_def sample_variable_def)
qed

lemma new_controller_empty: "k_name (new_controller n) = n" "k_handle (new_controller n) = []"
  by (simp_all add: new_controller_def)

lemma sample_version:
  "GetControllerVersion sample_ctrl 0 ((new_controller '''')\<lparr>k_handle := [7, 8]\<rparr>) () =
     Some (S_OK, (new_controller '''')\<lparr>k_handle := [7, 8], k_vars := [sample_variable ''@VERSION''], k_ver := ''2.8.0''\<rparr>, ())"
proof -
  have v: "AddVariable sample_ctrl [7, 8] ID_CONTROLLER_GETVARIABLE ''@VERSION'' 0 [] () = Some (S_OK, [sample_variable ''@VERSION''], ())"
    using sample_add_variable [of "''@VERSION''" ID_CONTROLLER_GETVARIABLE "[]"] by (simp add: AddVariable_def get_Object_def)
  have g: "ExecGetValue sample_ctrl (sample_variable ''@VERSION'') () = Some (S_OK, literal ''2.8.0'', ())"
    by (simp add: ExecGetValue_def sample_variable_def sample_call) (simp add: sample_reply_def)
  have i: "get_Variable [sample_variable ''@VERSION''] ''@VERSION'' = (S_OK, Some 0)"
    by (simp add: get_Variable_def get_Object_def sample_variable_def strcasecmp_eq_def)
  have b: "bstrVal (literal ''2.8.0'') = Some (Some (wide ''2.8.0'' @ [0]))" by (simp add: bstrVal_def literal_def bstr_ptr_def)
  show ?thesis
    using v g i b sample_string [of "''2.8.0''"]
    by (simp add: GetControllerVersion_def controller_AddVariable_def new_controller_def)
qed

definition sample_tree :: controller where
  "sample_tree = (new_controller '''')\<lparr>k_handle := [7, 8], k_vars := [sample_variable ''@VERSION''], k_ver := ''2.8.0'',
     k_robots := [((new_object ''Arm'' [7, 8])\<lparr>o_vars := [sample_variable ''@SPEED'']\<rparr>, new_robot)],
     k_tasks := [new_object ''Main'' [7, 8]]\<rparr>"

lemma sample_init_runs: "sample_init = Some (S_OK, sample_tree, ())"
proof -
  let ?xs = "[\<lparr>x_text = Some ''@SPEED'', x_attr = (\<lambda>_. None)\<rparr>] :: xml_var list"
  have r: "named_objects sample_ctrl [7, 8] ID_CONTROLLER_GETROBOTNAMES ID_CONTROLLER_GETROBOT ID_ROBOT_GETVARIABLE ?xs 0 () =
      Some (S_OK, [(new_object ''Arm'' [7, 8])\<lparr>o_vars := [sample_variable ''@SPEED'']\<rparr>], ())"
    using sample_names(1) sample_AddObject [of "''Arm''" ID_CONTROLLER_GETROBOT] sample_add_variable [of "''@SPEED''" ID_ROBOT_GETVARIABLE "[]"]
    by (simp add: named_objects_def InitializeBCAP_def AddVariable_xml_def attr_flag_def new_object_def)
  have t: "named_objects sample_ctrl [7, 8] ID_CONTROLLER_GETTASKNAMES ID_CONTROLLER_GETTASK ID_TASK_GETVARIABLE [] 0 () =
      Some (S_OK, [new_object ''Main'' [7, 8]], ())"
    using sample_names(2) sample_AddObject [of "''Main''" ID_CONTROLLER_GETTASK]
    by (simp add: named_objects_def InitializeBCAP_def new_object_def)
  have c: "AddController sample_ctrl RC8 ''/'' True 0 (new_controller '''') () =
      Some (S_OK, (new_controller '''')\<lparr>k_handle := [7, 8], k_vars := [sample_variable ''@VERSION''], k_ver := ''2.8.0''\<rparr>, ())"
    using sample_connects sample_version new_controller_empty by (simp add: AddController_def del: connect_controllers.simps)
  show ?thesis
    using r t c
    by (simp add: sample_init_def controller_InitializeBCAP_def then_step_def sample_config_def AddVariable_elems_def AddRobot_def
        AddTask_def new_controller_def sample_tree_def)
qed

lemma initialised_tree_witness:
  "\<exists>k. sample_init = Some (S_OK, k, ()) \<and> map v_name (k_vars k) = [''@VERSION''] \<and>
     map (o_name \<circ> fst) (k_robots k) = [''Arm''] \<and> map o_name (k_tasks k) = [''Main''] \<and> k_handle k = [7, 8] \<and>
     controller_ok sample_ctrl sample_given RC8 ''/'' k \<and> tree_of sample_ctrl RC8 sample_config k"
proof -
  have i: "controller_InitializeBCAP sample_ctrl (\<lambda>i s. Some (S_OK, s)) RC8 ''/'' True (Some (Some sample_config)) 0
     (new_controller '''') () = Some (S_OK, sample_tree, ())"
    using sample_init_runs by (simp add: sample_init_def)
  have "SUCCEEDED S_OK" by simp
  note initialised_tree [OF sample_gives i this]
  then show ?thesis using sample_init_runs by (auto simp: sample_tree_def sample_variable_def new_object_def)
qed

lemma objects_have_handles_witness:
  "\<exists>c. core_reached sample_ctrl (\<lambda>i s. Some (S_OK, s)) RC8 ''/'' c () \<and> length (k_vars (co_ctrl c)) = 2 \<and>
     controller_ok sample_ctrl sample_given RC8 ''/'' (co_ctrl c) \<and> all_listed sample_ctrl (co_ctrl c)"
proof -
  have i: "controller_InitializeBCAP sample_ctrl (\<lambda>i s. Some (S_OK, s)) RC8 ''/'' True (Some (Some sample_config)) 0
     (new_controller '''') () = Some (S_OK, sample_tree, ())"
    using sample_init_runs by (simp add: sample_init_def)
  have s: "core_reached sample_ctrl (\<lambda>i s. Some (S_OK, s)) RC8 ''/'' \<lparr>co_mode = 0, co_ctrl = sample_tree\<rparr> ()"
    by (rule core_reached.start [OF i]) simp
  have "controller_AddVariable sample_ctrl ''@SPEED'' 0 sample_tree () =
      Some (S_OK, sample_tree\<lparr>k_vars := [sample_variable ''@VERSION'', sample_variable ''@SPEED'']\<rparr>, ())"
    using sample_add_variable [of "''@SPEED''" ID_CONTROLLER_GETVARIABLE "[sample_variable ''@VERSION'']"]
    by (simp add: controller_AddVariable_def AddVariable_def get_Object_def sample_tree_def strcasecmp_eq_def c_str_def
        sample_variable_def)
  from core_reached.add [OF s, of "''@SPEED''" 0 S_OK "sample_tree\<lparr>k_vars := [sample_variable ''@VERSION'', sample_variable ''@SPEED'']\<rparr>" "()"] this
  have r: "core_reached sample_ctrl (\<lambda>i s. Some (S_OK, s)) RC8 ''/''
      \<lparr>co_mode = 0, co_ctrl = sample_tree\<lparr>k_vars := [sample_variable ''@VERSION'', sample_variable ''@SPEED'']\<rparr>\<rparr> ()"
    by simp
  show ?thesis using objects_have_handles [OF sample_gives r] r by fastforce
qed

text \<open>A controller that refuses everything.\<close>

definition refusing_ctrl :: "unit node_env" where
  "refusing_ctrl = sample_ctrl\<lparr>exec_fn := (\<lambda>i fid va ret s. Some (E_FAIL, ret, ()))\<rparr>"

lemma refused_connection_undefined_witness:
  "AddController refusing_ctrl RC8 ''/'' True 0 (new_controller '''') () = None"
proof -
  have t: "string_variant refusing_ctrl n = string_variant sample_ctrl n" for n
    by (simp add: string_variant_def ConvertStringToBSTR_def refusing_ctrl_def)
  have "connect_controller refusing_ctrl RC8 ''/'' '''' SRV_ACT () = Some (E_FAIL, zero_variant, ())"
    using sample_text [of "''''"] sample_text [of "''localhost''"] sample_text [of "''CaoProv.DENSO.VRC''"]
    by (simp add: connect_controller_def connect_text_def provider_def t) (simp add: refusing_ctrl_def)
  moreover have "FAILED E_FAIL" "RC8 \<noteq> RC9" by (simp_all add: FAILED_def)
  ultimately show ?thesis by (rule refused_connection_undefined)
qed

text \<open>A controller that keeps the value of one variable.\<close>

definition keeping_ctrl :: "variant node_env" where
  "keeping_ctrl =
     \<lparr>exec_fn = (\<lambda>i fid va ret s. if fid = ID_VARIABLE_PUTVALUE then Some (S_OK, ret, va ! 1) else Some (S_OK, s, s)),
      get_tmo = (\<lambda>i s. 3000), put_tmo = (\<lambda>i n s. Some s), get_rty = (\<lambda>i s. 5), put_rty = (\<lambda>i n s. Some s),
      mbstowcs = (\<lambda>s. Some (wide s)), wcstombs = (\<lambda>w. Some (map (\<lambda>c. char_of (unat c)) w))\<rparr>"

lemma written_value_published_witness:
  "\<exists>v s. Callback_value keeping_ctrl 2000000000 (Float64s [1, 2]) v zero_variant = Some ([Float64s [1, 2]], v\<lparr>v_prev := 2000000000\<rparr>, s)"
proof -
  let ?v = "(sample_variable ''@P'')\<lparr>v_vt := VT_ARRAY OR VT_R8, v_read := True, v_write := True, v_serving := True\<rparr>"
  have x: "variant_of keeping_ctrl (Float64s [1, 2]) = Some (f64_array [1, 2])" using f64_array_value(1) [of "[1, 2]"] by simp
  have "Callback_value keeping_ctrl 2000000000 (Float64s [1, 2]) ?v zero_variant =
      Some ([Float64s [1, 2]], ?v\<lparr>v_prev := 2000000000\<rparr>, f64_array [1, 2])"
    by (rule written_value_published [OF _ x, where ?h0.0 = 7 and ?h1.0 = 8 and ?hr1.0 = S_OK and ?hr2.0 = S_OK])
      (simp_all add: sample_variable_def vt_arrays keeping_ctrl_def)
  then show ?thesis by blast
qed

end
