(* ===== verification/Spec2Isabelle.thy ===== *)
theory Spec2Isabelle
  imports BcapDecodeSafe BcapStream BcapCalls BcapHandles ServerEnd ServerAccept ServerOpen TpHandles ServiceStart RobotMode RobotExample
begin

text \<open>
  A model of the b-CAP protocol stack of the DENSO robot driver, the C library \<open>bcap_core\<close>: how a
  program on the host turns calls on a robot controller into packets, moves them over TCP, UDP
  or a serial line, and turns the replies back into values; how a server takes such packets,
  executes them with the functions registered for them, and answers; and how the same devices
  carry the Robotalk protocol, over which a program talks to the teaching pendant of a robot.

  \<^bold>\<open>The program.\<close> A caller opens a connection (\<open>bCap_Open_Client\<close>) and calls functions of the
  interface (\<open>bCap_RobotMove\<close>, ...). Each packs its arguments as \<open>VARIANT\<close>s (\<open>dn_common.c\<close>),
  \<open>invoke_function\<close> and \<open>send_receive\<close> (\<open>bCAPClient/bcap_client.c\<close>) number the request and match
  the reply, \<open>bcap_send\<close> and \<open>bcap_recv\<close> (\<open>bcap_common.c\<close>) encode, frame and decode, and the
  drivers (\<open>dn_tcp.c\<close>, \<open>dn_udp.c\<close>, \<open>dn_com.c\<close>) move bytes through function pointers in a
  connection record (\<open>dn_device.c\<close>). A server (\<open>bCAPServer/bcap_server.c\<close>) has a receiving thread
  and an executing thread for every connection, a list of the clients, and for each client a stack
  of the objects it has created, which are released when it leaves. For the pendant
  (\<open>TPComm/dn_tpcomm.c\<close>) a receiving thread answers its key events and watches the connection, a
  timer thread polls it, and the caller draws on its screen; the packets are those of
  \<open>dn_robotalk.c\<close>, the threads wake each other with the events of \<open>dn_thread.c\<close>.
  The driver itself is C++. Each \<open>BCAPService\<close> owns one connection of the client and turns the calls
  of the robot node, with their arguments as text or values, into calls of \<open>bcap_client.c\<close>. The
  robot node has a controller with its robots, tasks and variables (\<open>denso_robot_core\<close>); each of them
  has one handle for every service, and a robot moves either by its motion commands or, in slave mode, by
  a pose for every cycle.

  \<^bold>\<open>Conventions.\<close>
  \<^item> Integers are words of their C width; \<open>int32_t\<close> values are 32-bit words read with \<open>sint\<close>.
    Sizes are computed in the width the code computes them in, so they wrap where it wraps.
  \<^item> \<open>None\<close> as the result of an operation means that the C program has no defined result: an
    access outside an object, a \<open>NULL\<close> dereference, or a loop that does not end. An \<open>HRESULT\<close> is
    an ordinary value, so every error return is a result. The host is little-endian with 64-bit
    pointers (LP64), \<open>wchar_t\<close> has 32 bits; \<open>memcpy_le\<close> and \<open>memcpy_be\<close> are modelled for both
    byte orders.
  \<^item> \<open>malloc\<close> is an argument \<open>mok\<close> that says for which sizes it succeeds; \<open>mem_ok\<close> is a heap that
    does not run out. Memory that is not initialised is an argument (\<open>junk\<close>, \<open>fresh\<close>).
  \<^item> What is outside the process (system calls, mutexes, threads, the clock) is the record of the
    operations a component calls, over an abstract world.

  \<^bold>\<open>The theories.\<close>
  \<^item> \<open>Prelude\<close>: word types, result codes, memory access, little-endian images.
  \<^item> \<open>Device\<close> (\<open>dn_device.c\<close>): byte order, the connection record and its check, connection strings.
  \<^item> \<open>Variant\<close> (\<open>dn_common.c\<close>): strings, safe arrays, variants; well-formedness, copying, clearing,
    and where their sizes wrap. \<open>Float64\<close>: IEEE binary64 arithmetic, for the dates.
  \<^item> \<open>BcapEncode\<close>, \<open>BcapDecode\<close>, \<open>BcapCrc\<close> (\<open>bcap_common.c\<close>): the codec. \<open>BcapWire\<close> has the
    specification of the packet format and shows that the encoder implements it, \<open>BcapRoundtrip\<close>
    that decoding inverts encoding, \<open>BcapDecodeSafe\<close> what the decoder does on any other input.
  \<^item> \<open>BcapTransport\<close> (\<open>bcap_common.c\<close>, \<open>dn_tcp.c\<close>, \<open>dn_udp.c\<close>): sending and receiving packets.
    \<open>BcapStream\<close> has the interface \<open>stream_device\<close> and shows reassembly from a segmented stream.
  \<^item> \<open>FuncId\<close>, \<open>BcapClient\<close>, \<open>BcapApi\<close> (\<open>bcap_client.c\<close>, \<open>bcap_funcid.h\<close>): the client.
    \<open>Handles\<close> has the interface \<open>handle_table\<close>, \<open>BcapHandles\<close> the invariant of the table of
    connections, \<open>BcapExchange\<close> the exchange over the interface \<open>stream_link\<close>, \<open>BcapCalls\<close> what
    the calls of the interface send and return.

  \<^item> \<open>VariantConvert\<close>, \<open>Options\<close>, \<open>ChangeVar\<close> (\<open>dn_common.c\<close>): the conversions between integers and
    text, with the pairs of types for which the check of the range is right, the option strings,
    and the conversion of a value to the elements of an array (\<open>ChangeVarType\<close>).
  \<^item> \<open>LinkedList\<close> has doubly linked lists in memory (the interface \<open>linked_memory\<close>), \<open>ServerMem\<close>
    (\<open>bcap_server.c\<close>) the memory of the server, which provides it twice. \<open>ServerStack\<close>: the stack of
    the created objects implements the abstract one. \<open>ServerTree\<close>: the lists of children implement
    the abstract tree, in which clients come, end, are freed and time out. \<open>ServerCalls\<close>: the
    table of functions, the dispatch, and the handles. \<open>ServerAccept\<close>: the accepting thread.
    \<open>ServerOpen\<close>: opening and closing.
  \<^item> \<open>ServerExec\<close> has the steps of a request, \<open>ServerThreads\<close> the two threads of a connection as a
    step relation over them, with the requests executed once and in order and the bytes every run sends, \<open>ServerEnd\<close> what
    happens when a connection ends.

  \<^item> \<open>SerialPort\<close> (\<open>dn_com.c\<close>): the serial driver over the terminal operations of the system; the mode
    a port is left in is the one its parameters ask for.
  \<^item> \<open>Robotalk\<close> (\<open>dn_robotalk.c\<close>): packets and their checksum, sending and receiving with attempts.
    \<open>RobotalkLine\<close> shows that a packet survives the line, and what becomes of a damaged one.
  \<^item> \<open>Events\<close> (\<open>dn_thread.c\<close>): events as values, and waiting for several of them as a step relation.
  \<^item> \<open>TpComm\<close>, \<open>TpApi\<close>, \<open>TpDraw\<close> (\<open>dn_tpcomm.c\<close>): the connection to the pendant with the events of its
    threads, the functions of the interface, and the drawing commands. \<open>TpState\<close> has what each of
    them keeps, \<open>TpThreads\<close> the threads and the caller as a step relation, with the notices the
    program gets in every run. \<open>TpLine\<close> puts the pendant on a serial line, \<open>TpHandles\<close> shows that
    the table of its connections is a \<open>handle_table\<close> too.

  \<^item> \<open>BcapService\<close> (\<open>bcap_service.cpp\<close>): the service of the nodes, connecting, calling and
    disconnecting. \<open>ServiceLedger\<close> has the table of the objects it has open against what its
    controller has handed out, \<open>ServiceStart\<close> both ends of the call that starts a service.
  \<^item> \<open>RobotData\<close>, \<open>RobotMotion\<close>, \<open>RobotCalls\<close> (\<open>denso_robot.cpp\<close>): a robot, its values, the packets of
    slave mode and its commands. \<open>RobotArm\<close> has the balance of the calls that take the arm and give it
    back, with the two ways in which the code misses it; \<open>RobotMode\<close> has the interface \<open>motion_settings\<close> and slave mode.
  \<^item> \<open>RobotObjects\<close> (\<open>denso_base.cpp\<close>, \<open>denso_variable.cpp\<close>, \<open>denso_task.cpp\<close>): an object with its handles,
    variables, tasks. \<open>RobotController\<close> (\<open>denso_controller.cpp\<close>, its two kinds of controller,
    \<open>denso_robot_core.cpp\<close>): building the tree of the objects and the commands of the controller.
    \<open>RobotTree\<close> has what holds of the tree in every run: which service gave which handle for which name,
    and that no robot or task the controller listed is missing; \<open>RobotExample\<close> has a controller as an example.

  \<^bold>\<open>Bounds and fuel.\<close> The decoder's recursion into nested arrays has a depth argument; the
  top-level call passes one more than the size of the buffer, and \<open>BcapDecodeSafe\<close> shows that
  this is enough for every buffer below 4 GiB. The receive loops have no bound in the code: they are
  partial functions, and the theorems on them state that they return. The attempts of Robotalk and of
  the pendant count down the number of attempts the code is given.

  \<^bold>\<open>Threads.\<close> A step is what a thread does between two places where it looks at what the other one
  changes; the steps of the two threads of a connection interleave in any order. Proved for
  connections over TCP and serial lines; the requests of a UDP server's clients share one
  pair of threads and its memory of answers is in the children, which the invariant does not cover.
  Of the pendant's connection all of what the receiving thread and the timer do under the lock is one
  step, and the caller may send requests and change the time-out between any two. Closing it clears two
  flags without the lock, in a byte the threads write too: its reads and writes of that byte are steps of
  their own, which may be lost or undo what a thread wrote. That a waiting timer is woken holds through
  them; that the program is told the truth holds until then.

  \<^bold>\<open>Not modelled.\<close> The socket calls (\<open>dn_socket.c\<close>), the wrappers of mutexes and of the beginning and
  the end of threads are system calls, and the Windows branches are not compiled here.
  The conversions of floating-point numbers and dates to text and \<open>rac_string.c\<close> rest
  on the \<open>printf\<close> and \<open>scanf\<close> families. Of the pendant's threads the pauses are left out: they only
  delay. Of the service and the robot node the parts that belong to ROS are left out: publishers,
  subscriptions, actions and their callbacks, the \<open>main\<close> functions and loops; and the parser of the XML
  configuration, whose result is an argument. The text form of a service call rests on \<open>rac_string.c\<close>.
  The plugin of \<open>ros2_control\<close> (\<open>denso_robot_control\<close>) is a client of the robot node.
\<close>

end
